(* ===== verification/Prelude.thy ===== *)
theory Prelude
  imports Main "HOL-Library.Word"
begin

unbundle bit_operations_syntax

text \<open>
  Shared vocabulary of the development: the machine integer types of the i386 target, the
  error numbers of \<^verbatim>\<open>include/sys/errno.h\<close>, the faults an execution can run into (a failed
  assertion, an access outside an object), byte-addressed memory with little-endian 32-bit
  accesses, and generic lemmas on words, lists and memory that the components share.
\<close>

section \<open>Machine integers\<close>

type_synonym u8 = "8 word"
type_synonym u16 = "16 word"
type_synonym u32 = "32 word"
type_synonym u64 = "64 word"

named_theorems mem_simps \<open>read-over-write rules of byte memory\<close>
named_theorems arr_simps \<open>abstraction rules of the array containers\<close>

section \<open>Error numbers\<close>

text \<open>The values of \<^verbatim>\<open>include/sys/errno.h\<close> that the modelled code returns, as the negated
  value appears in the return type \<^verbatim>\<open>int\<close>.\<close>

definition EPERM :: int where "EPERM = 1"
definition ENOENT :: int where "ENOENT = 2"
definition ESRCH :: int where "ESRCH = 3"
definition EINTR :: int where "EINTR = 4"
definition EIO :: int where "EIO = 5"
definition ENXIO :: int where "ENXIO = 6"
definition EBADF :: int where "EBADF = 9"
definition ECHILD :: int where "ECHILD = 10"
definition EAGAIN :: int where "EAGAIN = 11"
definition ENOMEM :: int where "ENOMEM = 12"
definition EACCES :: int where "EACCES = 13"
definition EBUSY :: int where "EBUSY = 16"
definition EEXIST :: int where "EEXIST = 17"
definition EXDEV :: int where "EXDEV = 18"
definition ENOTDIR :: int where "ENOTDIR = 20"
definition EISDIR :: int where "EISDIR = 21"
definition EINVAL :: int where "EINVAL = 22"
definition ENFILE :: int where "ENFILE = 23"
definition EMFILE :: int where "EMFILE = 24"
definition ENOSPC :: int where "ENOSPC = 28"
definition ESPIPE :: int where "ESPIPE = 29"
definition EROFS :: int where "EROFS = 30"
definition EPIPE :: int where "EPIPE = 32"
definition ERANGE :: int where "ERANGE = 34"
definition ENOSYS :: int where "ENOSYS = 38"
definition ELOOP :: int where "ELOOP = 40"
definition ENOTSUP :: int where "ENOTSUP = 95"

lemmas errno_defs = EPERM_def ENOENT_def ESRCH_def EIO_def EBADF_def ENOMEM_def EACCES_def
  EBUSY_def EXDEV_def ENOTDIR_def EINVAL_def EMFILE_def ENOSPC_def EROFS_def EPIPE_def
  ENOSYS_def ELOOP_def ENOTSUP_def EINTR_def ENXIO_def ECHILD_def EAGAIN_def EEXIST_def
  EISDIR_def ENFILE_def ESPIPE_def ERANGE_def

section \<open>Faults\<close>

text \<open>
  A fault is where the C program has no defined continuation: an \<^verbatim>\<open>assert\<close> fails, or an
  array is accessed outside its storage; \<open>Endless\<close> is a loop whose fuel is used up. A computation
  that can fault returns \<open>fault + 'a\<close>.
\<close>

datatype fault = Assertion_Failed | Out_Of_Bounds | Endless

type_synonym 'a exec = "fault + 'a"

definition bindE :: "'e + 'a \<Rightarrow> ('a \<Rightarrow> 'e + 'b) \<Rightarrow> 'e + 'b" where
  "bindE x f = (case x of Inl e \<Rightarrow> Inl e | Inr v \<Rightarrow> f v)"

definition assertE :: "bool \<Rightarrow> unit exec" where
  "assertE b = (if b then Inr () else Inl Assertion_Failed)"

lemma bindE_Inr [simp]: "bindE (Inr v) f = f v"
  by (simp add: bindE_def)

lemma bindE_Inl [simp]: "bindE (Inl e) f = Inl e"
  by (simp add: bindE_def)

lemma bindE_cong [fundef_cong]:
  "x = y \<Longrightarrow> (\<And>v. y = Inr v \<Longrightarrow> f v = g v) \<Longrightarrow> bindE x f = bindE y g"
  by (cases y) simp_all

lemma bindE_eq_Inr_iff: "bindE x f = Inr r \<longleftrightarrow> (\<exists>v. x = Inr v \<and> f v = Inr r)"
  by (cases x) auto

lemma assertE_True [simp]: "assertE True = Inr ()"
  by (simp add: assertE_def)

lemma assertE_False [simp]: "assertE False = Inl Assertion_Failed"
  by (simp add: assertE_def)

lemma assertE_eq_Inr_iff [simp]: "assertE b = Inr u \<longleftrightarrow> b"
  by (cases b) simp_all

section \<open>Word arithmetic without wrap-around\<close>

lemma unat_plus_no_wrap: "unat x + unat y < 2 ^ 32 \<Longrightarrow> unat (x + y) = unat x + unat y"
  for x y :: u32
  by (simp add: unat_word_ariths)

lemma unat_minus_no_wrap: "unat y \<le> unat x \<Longrightarrow> unat (x - y) = unat x - unat y"
  for x y :: u32
  by (simp add: unat_sub word_le_nat_alt)

lemma unat_lt_2p32: "unat (x :: u32) < 4294967296"
  using unsigned_less [of x] by simp

lemma unat_inc: "(i :: u32) < n \<Longrightarrow> unat (i + 1) = Suc (unat i)"
  using unat_lt_2p32 [of n] by (simp add: word_less_nat_alt unat_word_ariths)

text \<open>A loop that counts a 32-bit index up to a 32-bit bound ends: the distance to $2^{32}$ shrinks.\<close>

lemma u32_loop_measure [termination_simp]:
  "(i :: u32) < n \<Longrightarrow> 4294967296 - unat (i + 1) < 4294967296 - unat i"
  using unat_lt_2p32 [of i] by (simp only: unat_inc)

text \<open>Rounding an address down to its page.\<close>

lemma unat_and_page_mask: "unat ((w :: u32) AND 0xfffff000) = unat w div 4096 * 4096"
proof -
  have "w AND 0xfffff000 = push_bit 12 (drop_bit 12 w)"
  proof (rule bit_word_eqI)
    fix n assume "n < LENGTH(32)"
    have mask12: "(0xfffff000 :: u32) = NOT (mask 12)" by (simp add: mask_numeral)
    show "bit (w AND 0xfffff000) n = bit (push_bit 12 (drop_bit 12 w)) n"
      unfolding mask12 using \<open>n < LENGTH(32)\<close> by (auto simp: bit_simps)
  qed
  moreover have "unat (push_bit 12 (drop_bit 12 w)) = unat w div 4096 * 4096"
  proof -
    have d: "unat (drop_bit 12 w) = unat w div 4096"
      by (simp add: drop_bit_eq_div unat_div)
    have "unat w div 4096 * 4096 < 4294967296"
      using unat_lt_2p32 [of w] by (meson div_times_less_eq_dividend le_less_trans)
    then show ?thesis
      by (simp add: push_bit_eq_mult unat_word_ariths d)
  qed
  ultimately show ?thesis by simp
qed

section \<open>Byte memory\<close>

text \<open>
  Memory is a total function from addresses (naturals, the value of a 32-bit pointer) to
  bytes. A 32-bit access reads or writes four consecutive bytes, least significant first,
  as the i386 does.
\<close>

type_synonym mem = "nat \<Rightarrow> u8"

definition get32 :: "mem \<Rightarrow> nat \<Rightarrow> u32" where
  "get32 m n =
     ucast (m n) OR push_bit 8 (ucast (m (n + 1))) OR push_bit 16 (ucast (m (n + 2)))
       OR push_bit 24 (ucast (m (n + 3)))"

definition put32 :: "mem \<Rightarrow> nat \<Rightarrow> u32 \<Rightarrow> mem" where
  "put32 m n v =
     m(n := ucast v, n + 1 := ucast (drop_bit 8 v), n + 2 := ucast (drop_bit 16 v),
       n + 3 := ucast (drop_bit 24 v))"

text \<open>Accesses through a 32-bit pointer.\<close>

definition read32 :: "mem \<Rightarrow> u32 \<Rightarrow> u32" where
  "read32 m a = get32 m (unat a)"

definition write32 :: "mem \<Rightarrow> u32 \<Rightarrow> u32 \<Rightarrow> mem" where
  "write32 m a v = put32 m (unat a) v"

definition read8 :: "mem \<Rightarrow> u32 \<Rightarrow> u8" where
  "read8 m a = m (unat a)"

definition write8 :: "mem \<Rightarrow> u32 \<Rightarrow> u8 \<Rightarrow> mem" where
  "write8 m a v = m(unat a := v)"

text \<open>\<^verbatim>\<open>memset\<close> and \<^verbatim>\<open>memcpy\<close> on byte memory.\<close>

definition mem_fill :: "mem \<Rightarrow> u32 \<Rightarrow> u8 \<Rightarrow> nat \<Rightarrow> mem" where
  "mem_fill m a v n = (\<lambda>k. if unat a \<le> k \<and> k < unat a + n then v else m k)"

definition mem_copy :: "mem \<Rightarrow> u32 \<Rightarrow> u32 \<Rightarrow> nat \<Rightarrow> mem" where
  "mem_copy m dst src n =
     (\<lambda>k. if unat dst \<le> k \<and> k < unat dst + n then m (unat src + (k - unat dst)) else m k)"

lemma word32_bytes:
  "ucast (ucast v :: u8) OR push_bit 8 (ucast (ucast (drop_bit 8 v) :: u8))
     OR push_bit 16 (ucast (ucast (drop_bit 16 v) :: u8))
     OR push_bit 24 (ucast (ucast (drop_bit 24 v) :: u8)) = v" (is "?lhs = v") for v :: u32
proof (rule bit_word_eqI)
  fix n assume "n < LENGTH(32)"
  then consider "n < 8" | "8 \<le> n" "n < 16" | "16 \<le> n" "n < 24" | "24 \<le> n" "n < 32"
    by (cases "n < 8"; cases "n < 16"; cases "n < 24"; simp add: not_less)
  then show "bit ?lhs n = bit v n"
    by cases (simp_all add: bit_simps less_diff_conv2)
qed

lemma get32_put32_same [simp, mem_simps]: "get32 (put32 m n v) n = v"
  by (simp add: get32_def put32_def word32_bytes)

lemma put32_other [mem_simps]: "k < n \<or> n + 4 \<le> k \<Longrightarrow> put32 m n v k = m k"
  by (auto simp: put32_def)

lemma get32_cong:
  assumes "\<And>k. n \<le> k \<Longrightarrow> k < n + 4 \<Longrightarrow> m' k = m k"
  shows "get32 m' n = get32 m n"
  using assms by (simp add: get32_def)

lemma get32_put32_other [mem_simps]:
  "n + 4 \<le> k \<or> k + 4 \<le> n \<Longrightarrow> get32 (put32 m n v) k = get32 m k"
  by (rule get32_cong) (auto intro: put32_other)

lemma get32_upd_other [mem_simps]: "n < k \<or> k + 4 \<le> n \<Longrightarrow> get32 (m(n := v)) k = get32 m k"
  by (rule get32_cong) auto

section \<open>Checked array accesses\<close>

text \<open>An array is the list of its cells; an index outside it is a fault.\<close>

definition arr_get :: "'a list \<Rightarrow> nat \<Rightarrow> 'a exec" where
  "arr_get xs i = (if i < length xs then Inr (xs ! i) else Inl Out_Of_Bounds)"

definition arr_set :: "'a list \<Rightarrow> nat \<Rightarrow> 'a \<Rightarrow> 'a list exec" where
  "arr_set xs i v = (if i < length xs then Inr (xs[i := v]) else Inl Out_Of_Bounds)"

lemma arr_get_in [simp]: "i < length xs \<Longrightarrow> arr_get xs i = Inr (xs ! i)"
  by (simp add: arr_get_def)

lemma arr_get_out [simp]: "length xs \<le> i \<Longrightarrow> arr_get xs i = Inl Out_Of_Bounds"
  by (simp add: arr_get_def)

lemma arr_set_in [simp]: "i < length xs \<Longrightarrow> arr_set xs i v = Inr (xs[i := v])"
  by (simp add: arr_set_def)

lemma arr_set_out [simp]: "length xs \<le> i \<Longrightarrow> arr_set xs i v = Inl Out_Of_Bounds"
  by (simp add: arr_set_def)

text \<open>\<^verbatim>\<open>memcpy\<close> into an array and out of it.\<close>

definition copy_in :: "'a list \<Rightarrow> nat \<Rightarrow> nat \<Rightarrow> 'a list \<Rightarrow> 'a list exec" where
  "copy_in a i n data =
     (if i + n \<le> length a \<and> n \<le> length data then Inr (take i a @ take n data @ drop (i + n) a)
      else Inl Out_Of_Bounds)"

definition copy_out :: "'a list \<Rightarrow> nat \<Rightarrow> nat \<Rightarrow> 'a list exec" where
  "copy_out a i n = (if i + n \<le> length a then Inr (take n (drop i a)) else Inl Out_Of_Bounds)"

text \<open>Searching an interval finds its least element with the property.\<close>

lemma find_upt_Some:
  "find P [a..<b] = Some n \<Longrightarrow> a \<le> n \<and> n < b \<and> P n \<and> (\<forall>m. a \<le> m \<longrightarrow> m < n \<longrightarrow> \<not> P m)"
proof (induction "b - a" arbitrary: a)
  case (Suc d)
  then have ab: "a < b" by simp
  show ?case
  proof (cases "P a")
    case True
    then show ?thesis using Suc.prems ab by (simp add: upt_conv_Cons)
  next
    case False
    then have "find P [Suc a..<b] = Some n" using Suc.prems ab by (simp add: upt_conv_Cons)
    moreover have "d = b - Suc a" using Suc.hyps(2) by simp
    ultimately have "Suc a \<le> n \<and> n < b \<and> P n \<and> (\<forall>m. Suc a \<le> m \<longrightarrow> m < n \<longrightarrow> \<not> P m)"
      using Suc.hyps(1) by blast
    moreover from this False have "\<forall>m. a \<le> m \<longrightarrow> m < n \<longrightarrow> \<not> P m" by (metis le_antisym not_less_eq_eq)
    ultimately show ?thesis by simp
  qed
qed simp

lemma find_upt_first: "a < b \<Longrightarrow> P a \<Longrightarrow> find P [a..<b] = Some a"
  by (simp add: upt_conv_Cons)

lemma find_upt_None: "find P [a..<b] = None \<longleftrightarrow> (\<forall>m. a \<le> m \<longrightarrow> m < b \<longrightarrow> \<not> P m)"
  by (auto simp: find_None_iff)

end
