(* ===== verification/Stacks.thy ===== *)
theory Stacks
  imports Prelude
begin

text \<open>
  The unordered \<^verbatim>\<open>Array\<close> of \<^verbatim>\<open>libk/array.c\<close> and the pointer \<^verbatim>\<open>Stack\<close> of \<^verbatim>\<open>libk/stack.c\<close>.
  The storage block of each is the list of its cells; \<^verbatim>\<open>s_ptr\<close> is kept as an offset from
  \<^verbatim>\<open>s_base\<close>. A NULL structure pointer is \<open>None\<close>.
\<close>

section \<open>Array\<close>

record Array =
  a_elems :: "u32 list"
  a_size :: u32
  a_max :: u32

definition array_append :: "Array option \<Rightarrow> u32 \<Rightarrow> (int \<times> Array option) exec" where
  "array_append array elem =
     (case array of
        None \<Rightarrow> Inr (- 1, None)
      | Some a \<Rightarrow>
          if a_size a = a_max a then Inr (- 1, Some a)
          else bindE (arr_set (a_elems a) (unat (a_size a)) elem) (\<lambda>elems.
                 Inr (0, Some (a\<lparr>a_elems := elems, a_size := a_size a + 1\<rparr>))))"

definition arr_ok :: "Array \<Rightarrow> bool" where
  "arr_ok a \<longleftrightarrow> length (a_elems a) = unat (a_max a) \<and> a_size a \<le> a_max a"

definition arr_list :: "Array \<Rightarrow> u32 list" where
  "arr_list a = take (unat (a_size a)) (a_elems a)"

lemma array_append_room:
  assumes "arr_ok a" and "a_size a < a_max a"
  shows "\<exists>a'. array_append (Some a) x = Inr (0, Some a') \<and> arr_ok a' \<and>
    arr_list a' = arr_list a @ [x]"
proof -
  have lt: "unat (a_size a) < length (a_elems a)"
    using assms by (auto simp: arr_ok_def word_less_nat_alt)
  have inc: "unat (a_size a + 1) = Suc (unat (a_size a))"
    using assms(2) by (rule unat_inc)
  show ?thesis
    using assms lt
    by (auto simp: array_append_def arr_ok_def arr_list_def inc take_Suc_conv_app_nth
        word_le_nat_alt word_less_nat_alt)
qed

lemma array_append_full: "a_size a = a_max a \<Longrightarrow> array_append (Some a) x = Inr (- 1, Some a)"
  by (simp add: array_append_def)

section \<open>Stack\<close>

record Stack =
  s_base :: "u32 list"
  s_ptr :: nat
  s_size :: u32
  s_max :: u32

text \<open>\<^verbatim>\<open>stack_place\<close> once its \<^verbatim>\<open>kmalloc\<close> has returned a structure; \<open>cells\<close> is the caller's block.\<close>

definition stack_place :: "bool \<Rightarrow> u32 list \<Rightarrow> u32 \<Rightarrow> Stack option" where
  "stack_place alloc_ok cells n =
     (if \<not> alloc_ok then None
      else Some \<lparr>s_base = cells, s_ptr = 0, s_size = 0, s_max = n\<rparr>)"

definition stack_push :: "Stack option \<Rightarrow> u32 \<Rightarrow> (int \<times> Stack option) exec" where
  "stack_push stack elem =
     (case stack of
        None \<Rightarrow> Inr (- 1, None)
      | Some s \<Rightarrow>
          if s_size s = s_max s then Inr (- 1, Some s)
          else bindE (arr_set (s_base s) (s_ptr s) elem) (\<lambda>cells.
                 Inr (0, Some (s\<lparr>s_base := cells, s_ptr := s_ptr s + 1,
                                 s_size := s_size s + 1\<rparr>))))"

definition stack_pop :: "Stack option \<Rightarrow> (u32 \<times> Stack option) exec" where
  "stack_pop stack =
     (case stack of
        None \<Rightarrow> Inr (0, None)
      | Some s \<Rightarrow>
          if s_size s = 0 then Inr (0, Some s)
          else bindE (arr_get (s_base s) (s_ptr s - 1)) (\<lambda>elem.
                 Inr (elem, Some (s\<lparr>s_size := s_size s - 1, s_ptr := s_ptr s - 1\<rparr>))))"

definition stk_ok :: "Stack \<Rightarrow> bool" where
  "stk_ok s \<longleftrightarrow> length (s_base s) = unat (s_max s) \<and> s_size s \<le> s_max s \<and>
     s_ptr s = unat (s_size s)"

text \<open>The contents, most recently pushed element first.\<close>

definition stk_list :: "Stack \<Rightarrow> u32 list" where
  "stk_list s = rev (take (unat (s_size s)) (s_base s))"

lemma stk_ok_place: "length cells = unat n \<Longrightarrow> stack_place True cells n = Some s \<Longrightarrow>
    stk_ok s \<and> stk_list s = []"
  by (auto simp: stack_place_def stk_ok_def stk_list_def)

lemma stack_push_room:
  assumes "stk_ok s" and "s_size s < s_max s"
  shows "\<exists>s'. stack_push (Some s) x = Inr (0, Some s') \<and> stk_ok s' \<and>
    stk_list s' = x # stk_list s \<and> s_max s' = s_max s"
proof -
  have lt: "unat (s_size s) < length (s_base s)"
    using assms by (auto simp: stk_ok_def word_less_nat_alt)
  have inc: "unat (s_size s + 1) = Suc (unat (s_size s))"
    using assms(2) by (rule unat_inc)
  show ?thesis
    using assms lt
    by (auto simp: stack_push_def stk_ok_def stk_list_def inc take_Suc_conv_app_nth
        word_le_nat_alt word_less_nat_alt)
qed

lemma stack_push_full: "s_size s = s_max s \<Longrightarrow> stack_push (Some s) x = Inr (- 1, Some s)"
  by (simp add: stack_push_def)

lemma stk_list_Nil_iff: "stk_ok s \<Longrightarrow> stk_list s = [] \<longleftrightarrow> s_size s = 0"
  by (auto simp: stk_list_def stk_ok_def word_le_nat_alt unat_eq_zero)

lemma length_stk_list: "stk_ok s \<Longrightarrow> length (stk_list s) = unat (s_size s)"
  by (simp add: stk_list_def stk_ok_def word_le_nat_alt)

lemma stack_pop_empty: "s_size s = 0 \<Longrightarrow> stack_pop (Some s) = Inr (0, Some s)"
  by (simp add: stack_pop_def)

lemma stack_pop_Cons:
  assumes "stk_ok s" and "stk_list s = x # xs"
  shows "\<exists>s'. stack_pop (Some s) = Inr (x, Some s') \<and> stk_ok s' \<and> stk_list s' = xs \<and>
    s_max s' = s_max s \<and> s_size s' < s_max s'"
proof -
  let ?n = "unat (s_size s)"
  have nz: "s_size s \<noteq> 0" using assms by (auto simp: stk_list_def)
  then have pos: "0 < ?n" by (simp add: unat_gt_0)
  have dec: "unat (s_size s - 1) = ?n - 1"
    using pos by (simp add: unat_minus_no_wrap)
  have le: "?n \<le> length (s_base s)"
    using assms(1) by (auto simp: stk_ok_def word_le_nat_alt)
  have "take ?n (s_base s) = take (?n - 1) (s_base s) @ [s_base s ! (?n - 1)]"
    using pos le take_Suc_conv_app_nth [of "?n - 1" "s_base s"] by simp
  then have "x = s_base s ! (?n - 1)" "xs = rev (take (?n - 1) (s_base s))"
    using assms(2) by (simp_all add: stk_list_def)
  then show ?thesis
    using assms(1) nz pos dec le
    by (auto simp: stack_pop_def stk_ok_def stk_list_def word_le_nat_alt word_less_nat_alt)
qed

section \<open>The interface the page allocator relies on\<close>

text \<open>
  A bounded stack of pointers: a push that finds the stack full is dropped, a pop of the empty
  stack yields NULL.
\<close>

locale lifo =
  fixes ok :: "'s \<Rightarrow> bool" and elems :: "'s \<Rightarrow> u32 list" and full :: "'s \<Rightarrow> bool"
    and push :: "'s \<Rightarrow> u32 \<Rightarrow> 's exec" and pop :: "'s \<Rightarrow> (u32 \<times> 's) exec"
  assumes push_law: "ok s \<Longrightarrow> \<exists>s'. push s x = Inr s' \<and> ok s' \<and>
      elems s' = (if full s then elems s else x # elems s)"
    and pop_Nil_law: "ok s \<Longrightarrow> elems s = [] \<Longrightarrow> pop s = Inr (0, s)"
    and pop_Cons_law: "ok s \<Longrightarrow> elems s = x # xs \<Longrightarrow> \<exists>s'. pop s = Inr (x, s') \<and> ok s' \<and> elems s' = xs"
begin

lemma push_pop:
  assumes "ok s" "\<not> full s" "push s x = Inr s'"
  shows "\<exists>s''. pop s' = Inr (x, s'') \<and> ok s'' \<and> elems s'' = elems s"
proof -
  from push_law [OF assms(1), of x] assms(2,3) have "ok s'" "elems s' = x # elems s" by auto
  then show ?thesis by (rule pop_Cons_law)
qed

lemma pop_cases:
  assumes "ok s"
  obtains "elems s = []" "pop s = Inr (0, s)"
    | x s' where "pop s = Inr (x, s')" "ok s'" "elems s = x # elems s'"
  using pop_Nil_law [OF assms] pop_Cons_law [OF assms] by (cases "elems s") auto

end

definition stk_push :: "Stack \<Rightarrow> u32 \<Rightarrow> Stack exec" where
  "stk_push s x = bindE (stack_push (Some s) x) (\<lambda>(r, s').
     case s' of None \<Rightarrow> Inl Assertion_Failed | Some s' \<Rightarrow> Inr s')"

definition stk_pop :: "Stack \<Rightarrow> (u32 \<times> Stack) exec" where
  "stk_pop s = bindE (stack_pop (Some s)) (\<lambda>(x, s').
     case s' of None \<Rightarrow> Inl Assertion_Failed | Some s' \<Rightarrow> Inr (x, s'))"

interpretation stk: lifo stk_ok stk_list "\<lambda>s. s_size s = s_max s" stk_push stk_pop
proof unfold_locales
  fix s x
  assume ok: "stk_ok s"
  show "\<exists>s'. stk_push s x = Inr s' \<and> stk_ok s' \<and>
      stk_list s' = (if s_size s = s_max s then stk_list s else x # stk_list s)"
  proof (cases "s_size s = s_max s")
    case True
    then show ?thesis using ok by (simp add: stk_push_def stack_push_full)
  next
    case False
    then have "s_size s < s_max s" using ok by (simp add: stk_ok_def order_less_le)
    from stack_push_room [OF ok this, of x] False show ?thesis by (auto simp: stk_push_def)
  qed
next
  fix s
  assume "stk_ok s" "stk_list s = []"
  then show "stk_pop s = Inr (0, s)"
    using stack_pop_empty [of s] by (simp add: stk_list_Nil_iff stk_pop_def)
next
  fix s x xs
  assume "stk_ok s" "stk_list s = x # xs"
  from stack_pop_Cons [OF this] show "\<exists>s'. stk_pop s = Inr (x, s') \<and> stk_ok s' \<and> stk_list s' = xs"
    by (auto simp: stk_pop_def)
qed

end
