(* ===== verification/Pages.thy ===== *)
theory Pages
  imports Stacks
begin

unbundle bit_operations_syntax

text \<open>
  \<^verbatim>\<open>kernel/memory.c\<close>: the allocator of physical page frames. Freed frames go on a stack and are
  handed out first; when the stack is empty, frames come from a counter that starts at
  \<^verbatim>\<open>MEM_ALLOC_START\<close>. A frame is its physical address.
\<close>

definition PAGE_STACK_NELEM :: u32 where "PAGE_STACK_NELEM = 0x100000"
definition MEM_ALLOC_START :: u32 where "MEM_ALLOC_START = 0x1c000000"
definition MIN_MEMORY :: u32 where "MIN_MEMORY = 524288"
definition KERNEL_PADDR :: u32 where "KERNEL_PADDR = 0x00100000"

record PageAlloc =
  page_stack :: "Stack option"
  mem_curraddr :: u32
  mem_maxaddr :: u32

text \<open>\<^verbatim>\<open>mem_init\<close> with the amount of memory in kilobytes; a panic is the fault. \<open>alloc_ok\<close> is whether
  \<^verbatim>\<open>stack_place\<close> gets its structure, \<open>cells\<close> the block at \<^verbatim>\<open>PAGE_STACK_VADDR\<close>.\<close>

definition mem_init :: "bool \<Rightarrow> u32 list \<Rightarrow> u32 \<Rightarrow> PageAlloc exec" where
  "mem_init alloc_ok cells mem =
     (if mem < MIN_MEMORY then Inl Assertion_Failed
      else case stack_place alloc_ok cells PAGE_STACK_NELEM of
        None \<Rightarrow> Inl Assertion_Failed
      | Some s \<Rightarrow> Inr \<lparr>page_stack = Some s, mem_curraddr = MEM_ALLOC_START,
                      mem_maxaddr = mem * 1024 + KERNEL_PADDR\<rparr>)"

definition alloc_page :: "PageAlloc \<Rightarrow> (u32 \<times> PageAlloc) exec" where
  "alloc_page a =
     bindE (stack_pop (page_stack a)) (\<lambda>(addr, s).
       if addr = 0
       then Inr (mem_curraddr a, a\<lparr>page_stack := s, mem_curraddr := mem_curraddr a + 4096\<rparr>)
       else Inr (addr, a\<lparr>page_stack := s\<rparr>))"

definition free_page :: "PageAlloc \<Rightarrow> u32 \<Rightarrow> PageAlloc exec" where
  "free_page a addr =
     bindE (stack_push (page_stack a) (addr AND 0xfffff000)) (\<lambda>(r, s). Inr (a\<lparr>page_stack := s\<rparr>))"

section \<open>Frames in use\<close>

text \<open>
  The invariant relates the allocator to the set \<open>L\<close> of frames in use: frames in use and frames on the
  stack are different, page aligned, and lie between the start and the counter.
\<close>

definition frame_ok :: "PageAlloc \<Rightarrow> u32 \<Rightarrow> bool" where
  "frame_ok a f \<longleftrightarrow> MEM_ALLOC_START \<le> f \<and> f < mem_curraddr a \<and> unat f mod 4096 = 0"

definition pages_inv :: "PageAlloc \<Rightarrow> u32 set \<Rightarrow> bool" where
  "pages_inv a L \<longleftrightarrow> (\<exists>s. page_stack a = Some s \<and> stk_ok s \<and> distinct (stk_list s) \<and>
     set (stk_list s) \<inter> L = {} \<and> (\<forall>f \<in> L \<union> set (stk_list s). frame_ok a f)) \<and>
     MEM_ALLOC_START \<le> mem_curraddr a \<and> unat (mem_curraddr a) mod 4096 = 0"

text \<open>The counter has not reached the end of the 32-bit address space.\<close>

definition pages_left :: "PageAlloc \<Rightarrow> bool" where
  "pages_left a \<longleftrightarrow> mem_curraddr a < 0xfffff000"

lemma stack_pop_stk_pop: "stk_pop s = Inr (x, s') \<Longrightarrow> stack_pop (Some s) = Inr (x, Some s')"
  by (auto simp: stk_pop_def bindE_eq_Inr_iff split: option.splits)

lemma stack_push_stk_push: "stk_push s x = Inr s' \<Longrightarrow> \<exists>r. stack_push (Some s) x = Inr (r, Some s')"
  by (auto simp: stk_push_def bindE_eq_Inr_iff split: option.splits)

lemma pages_invI:
  assumes "page_stack a = Some s" "stk_ok s" "distinct (stk_list s)" "set (stk_list s) \<inter> L = {}"
    "\<And>f. f \<in> L \<union> set (stk_list s) \<Longrightarrow> frame_ok a f"
    "MEM_ALLOC_START \<le> mem_curraddr a" "unat (mem_curraddr a) mod 4096 = 0"
  shows "pages_inv a L"
  using assms unfolding pages_inv_def by blast

lemma page_mask: "unat w mod 4096 = 0 \<Longrightarrow> w AND 0xfffff000 = w" for w :: u32
  using unat_and_page_mask [of w] by (simp add: word_unat_eq_iff mod_eq_0_iff_dvd)

lemma page_next:
  assumes "pages_left a" and "unat (mem_curraddr a) mod 4096 = 0"
  shows "unat (mem_curraddr a + 4096) = unat (mem_curraddr a) + 4096" "mem_curraddr a < mem_curraddr a + 4096"
    "unat (mem_curraddr a + 4096) mod 4096 = 0"
proof -
  show u: "unat (mem_curraddr a + 4096) = unat (mem_curraddr a) + 4096"
    using assms(1) by (simp add: pages_left_def word_less_nat_alt unat_word_ariths)
  then show "mem_curraddr a < mem_curraddr a + 4096" by (simp add: word_less_nat_alt)
  show "unat (mem_curraddr a + 4096) mod 4096 = 0" using assms(2) unfolding u by simp
qed

lemma alloc_page_spec:
  assumes inv: "pages_inv a L" and left: "pages_left a"
  shows "\<exists>f a'. alloc_page a = Inr (f, a') \<and> pages_inv a' (insert f L) \<and> f \<notin> L \<and> unat f mod 4096 = 0 \<and> f \<noteq> 0"
proof -
  from inv obtain s where s: "page_stack a = Some s" "stk_ok s" "distinct (stk_list s)"
    "set (stk_list s) \<inter> L = {}" "\<forall>f \<in> L \<union> set (stk_list s). frame_ok a f"
    and cur: "MEM_ALLOC_START \<le> mem_curraddr a" "unat (mem_curraddr a) mod 4096 = 0"
    by (auto simp: pages_inv_def)
  have nz: "f \<noteq> 0" if "MEM_ALLOC_START \<le> f" for f using that by (auto simp: MEM_ALLOC_START_def)
  from s(2) show ?thesis
  proof (cases rule: stk.pop_cases)
    case 1
    let ?f = "mem_curraddr a" and ?a = "a\<lparr>page_stack := Some s, mem_curraddr := mem_curraddr a + 4096\<rparr>"
    have eq: "alloc_page a = Inr (?f, ?a)"
      using stack_pop_stk_pop [OF 1(2)] s(1) by (simp add: alloc_page_def)
    note nx = page_next [OF left cur(2)]
    have fr: "frame_ok ?a f" if f: "f \<in> insert ?f L \<union> set (stk_list s)" for f
    proof (cases "f = ?f")
      case True
      then show ?thesis using cur nx(2) by (simp add: frame_ok_def)
    next
      case False
      then have "frame_ok a f" using f s(5) by blast
      then show ?thesis using nx(2) by (auto simp: frame_ok_def)
    qed
    have new: "?f \<notin> L" using s(5) by (auto simp: frame_ok_def)
    have start: "MEM_ALLOC_START \<le> mem_curraddr a + 4096" using cur(1) nx(2) by (meson less_imp_le order_trans)
    have inv': "pages_inv ?a (insert ?f L)"
    proof (rule pages_invI [OF _ s(2,3) _ fr])
      show "set (stk_list s) \<inter> insert ?f L = {}" using 1(1) by simp
      show "MEM_ALLOC_START \<le> mem_curraddr ?a" using start by simp
      show "unat (mem_curraddr ?a) mod 4096 = 0"
        using nx(3) by (cases a) (simp only: PageAlloc.simps)
    qed simp_all
    show ?thesis by (intro exI conjI) (rule eq, rule inv', rule new, rule cur(2), rule nz [OF cur(1)])
  next
    case (2 x s')
    then have x: "frame_ok a x" using s(5) by simp
    let ?a = "a\<lparr>page_stack := Some s'\<rparr>"
    have x0: "x \<noteq> 0" using x nz by (auto simp: frame_ok_def)
    have eq: "alloc_page a = Inr (x, ?a)"
      using stack_pop_stk_pop [OF 2(1)] s(1) x0 by (simp add: alloc_page_def)
    have fr: "frame_ok ?a f" if "f \<in> insert x L \<union> set (stk_list s')" for f
    proof -
      have "f \<in> L \<union> set (stk_list s)" using that 2(3) by auto
      then have "frame_ok a f" using s(5) by blast
      then show ?thesis by (simp add: frame_ok_def)
    qed
    have new: "x \<notin> L" using s(4) 2(3) by auto
    have "distinct (stk_list s')" "set (stk_list s') \<inter> insert x L = {}" using s(3,4) 2(3) by auto
    then have "pages_inv ?a (insert x L)"
      by (intro pages_invI [OF _ 2(2) _ _ fr]) (use cur in simp_all)
    with new show ?thesis using eq x x0 by (auto simp: frame_ok_def)
  qed
qed

lemma free_page_spec:
  assumes inv: "pages_inv a L" and f: "f \<in> L"
  shows "\<exists>a'. free_page a f = Inr a' \<and> pages_inv a' (L - {f}) \<and> mem_curraddr a' = mem_curraddr a"
proof -
  from inv obtain s where s: "page_stack a = Some s" "stk_ok s" "distinct (stk_list s)"
    "set (stk_list s) \<inter> L = {}" "\<forall>f \<in> L \<union> set (stk_list s). frame_ok a f"
    and cur: "MEM_ALLOC_START \<le> mem_curraddr a" "unat (mem_curraddr a) mod 4096 = 0"
    by (auto simp: pages_inv_def)
  have mask: "f AND 0xfffff000 = f" using s(5) f by (intro page_mask) (auto simp: frame_ok_def)
  from stk.push_law [OF s(2), of f] obtain s' where s': "stk_push s f = Inr s'" "stk_ok s'"
    "stk_list s' = (if s_size s = s_max s then stk_list s else f # stk_list s)"
    by blast
  then obtain r where "stack_push (Some s) f = Inr (r, Some s')" using stack_push_stk_push by blast
  then have eq: "free_page a f = Inr (a\<lparr>page_stack := Some s'\<rparr>)"
    using s(1) mask by (simp add: free_page_def)
  have sub: "set (stk_list s') \<subseteq> insert f (set (stk_list s))" "distinct (stk_list s')"
    using s'(3) s(3,4) f by auto
  have fr: "frame_ok (a\<lparr>page_stack := Some s'\<rparr>) g" if "g \<in> (L - {f}) \<union> set (stk_list s')" for g
  proof -
    have "g \<in> L \<union> set (stk_list s)" using that sub f by auto
    then have "frame_ok a g" using s(5) by blast
    then show ?thesis by (simp add: frame_ok_def)
  qed
  have "set (stk_list s') \<inter> (L - {f}) = {}" using sub s(4) by auto
  then have "pages_inv (a\<lparr>page_stack := Some s'\<rparr>) (L - {f})"
    by (intro pages_invI [OF _ s'(2) sub(2) _ fr]) (use cur in simp_all)
  then show ?thesis using eq by auto
qed

section \<open>Properties\<close>

text \<open>Runs of the allocator; \<open>L\<close> is the set of frames handed out and not yet freed.\<close>

inductive pages_reach :: "PageAlloc \<Rightarrow> u32 set \<Rightarrow> bool" where
  init: "length cells = unat PAGE_STACK_NELEM \<Longrightarrow> mem_init True cells mem = Inr a \<Longrightarrow> pages_reach a {}"
| alloc: "pages_reach a L \<Longrightarrow> pages_left a \<Longrightarrow> alloc_page a = Inr (f, a') \<Longrightarrow> pages_reach a' (insert f L)"
| free: "pages_reach a L \<Longrightarrow> f \<in> L \<Longrightarrow> free_page a f = Inr a' \<Longrightarrow> pages_reach a' (L - {f})"

lemma pages_reach_inv: "pages_reach a L \<Longrightarrow> pages_inv a L"
proof (induction rule: pages_reach.induct)
  case (init cells mem a)
  then show ?case
    using stk_ok_place [of cells PAGE_STACK_NELEM]
    by (auto simp: mem_init_def pages_inv_def MEM_ALLOC_START_def split: if_splits option.splits)
next
  case (alloc a L f a')
  then show ?case using alloc_page_spec [of a L] by auto
next
  case (free a L f a')
  then show ?case using free_page_spec [of a L f] by auto
qed

text \<open>
  C7: no page frame is handed out twice as long as the frame counter has not reached the last page of
  the 32-bit address space. In every state the frame allocator reaches from \<^verbatim>\<open>mem_init\<close> by allocating
  frames while the counter is below 0xfffff000 (\<open>pages_left\<close>; the code compares it with nothing and
  would wrap) and by freeing frames in use, the next allocation, under the same bound on the
  counter, returns without fault a page-aligned non-zero frame that is not in use; and a free of a
  frame in use succeeds.
\<close>

theorem pages_never_shared:
  assumes "pages_reach a L"
  shows "(pages_left a \<longrightarrow> (\<exists>f a'. alloc_page a = Inr (f, a') \<and> f \<notin> L \<and> f \<noteq> 0 \<and> unat f mod 4096 = 0 \<and>
      pages_reach a' (insert f L))) \<and>
    (\<forall>f \<in> L. \<exists>a'. free_page a f = Inr a' \<and> pages_reach a' (L - {f}))"
  using alloc_page_spec [OF pages_reach_inv [OF assms]] free_page_spec [OF pages_reach_inv [OF assms]]
    pages_reach.alloc [OF assms] pages_reach.free [OF assms] by metis

theorem pages_never_shared_witness:
  "case mem_init True (replicate 0x100000 0) 1000000 of Inl e \<Rightarrow> False
   | Inr a \<Rightarrow> \<exists>f a'. alloc_page a = Inr (f, a') \<and> pages_reach a' {f}"
proof -
  obtain a where a: "mem_init True (replicate 0x100000 0) 1000000 = Inr a" "mem_curraddr a = MEM_ALLOC_START"
    by (simp add: mem_init_def stack_place_def MIN_MEMORY_def)
  have "pages_reach a {}" by (rule pages_reach.init [OF _ a(1)]) (simp add: PAGE_STACK_NELEM_def)
  from pages_never_shared [OF this] a show ?thesis
    by (auto simp: pages_left_def MEM_ALLOC_START_def)
qed

end
