(* ===== verification/Arrays.thy ===== *)
theory Arrays
  imports Prelude
begin

text \<open>
  \<^verbatim>\<open>libk/array.c\<close>: the sorted pointer array, which is the index of the kernel heap and the
  table of a process's memory regions. The storage \<^verbatim>\<open>sa_elems\<close> is the list of its
  \<^verbatim>\<open>sa_max\<close> cells; the live elements are its first \<^verbatim>\<open>sa_size\<close> cells. Pointers are 32-bit words.
  The comparison function may look at memory (\<^verbatim>\<open>heap_cmp\<close> reads block headers), so it takes
  the memory as its first argument; only whether its result is zero matters to this file.
\<close>

section \<open>Data\<close>

record 'm SortedArray =
  sa_elems :: "u32 list"
  sa_size :: u32
  sa_max :: u32
  sa_cmp :: "'m \<Rightarrow> u32 \<Rightarrow> u32 \<Rightarrow> bool"
  sa_alloc :: bool

definition default_cmp :: "'m \<Rightarrow> u32 \<Rightarrow> u32 \<Rightarrow> bool" where
  "default_cmp m a b \<longleftrightarrow> a < b"

section \<open>Operations\<close>

text \<open>\<^verbatim>\<open>sorted_array_place\<close>: the three pointer arguments may be NULL (\<open>None\<close>); the cells of the
  storage are cleared.\<close>

definition sorted_array_place ::
  "'m SortedArray option \<Rightarrow> u32 list option \<Rightarrow> u32 \<Rightarrow> ('m \<Rightarrow> u32 \<Rightarrow> u32 \<Rightarrow> bool) option
     \<Rightarrow> int \<times> 'm SortedArray option" where
  "sorted_array_place array addr nmax cmp =
     (case (array, addr, cmp) of
        (Some a, Some storage, Some c) \<Rightarrow>
          (0, Some (a\<lparr>sa_elems := replicate (unat nmax) 0, sa_size := 0, sa_max := nmax,
                     sa_cmp := c, sa_alloc := False\<rparr>))
      | _ \<Rightarrow> (- EINVAL, array))"

function sorted_array_scan :: "'m \<Rightarrow> 'm SortedArray \<Rightarrow> u32 \<Rightarrow> u32 \<Rightarrow> u32 exec" where
  "sorted_array_scan m array item i =
     (if i < sa_size array
      then bindE (arr_get (sa_elems array) (unat i)) (\<lambda>e.
             if sa_cmp array m e item then sorted_array_scan m array item (i + 1) else Inr i)
      else Inr i)"
  by pat_completeness auto
termination
  by (relation "measure (\<lambda>(m, array, item, i). 4294967296 - unat i)") (auto intro: u32_loop_measure)

function sorted_array_shift :: "u32 list \<Rightarrow> u32 \<Rightarrow> u32 \<Rightarrow> u32 \<Rightarrow> u32 list exec" where
  "sorted_array_shift elems n temp i =
     (if i < n
      then bindE (arr_get elems (unat (i + 1))) (\<lambda>elem.
           bindE (arr_set elems (unat (i + 1)) temp) (\<lambda>elems'.
             sorted_array_shift elems' n elem (i + 1)))
      else Inr elems)"
  by pat_completeness auto
termination
  by (relation "measure (\<lambda>(elems, n, temp, i). 4294967296 - unat i)") (auto intro: u32_loop_measure)

definition sorted_array_insert :: "'m \<Rightarrow> 'm SortedArray \<Rightarrow> u32 \<Rightarrow> 'm SortedArray exec" where
  "sorted_array_insert m array item =
     bindE (sorted_array_scan m array item 0) (\<lambda>i.
       if i = sa_size array
       then bindE (arr_set (sa_elems array) (unat (sa_size array)) item) (\<lambda>elems.
              Inr (array\<lparr>sa_elems := elems, sa_size := sa_size array + 1\<rparr>))
       else bindE (arr_get (sa_elems array) (unat i)) (\<lambda>temp.
            bindE (arr_set (sa_elems array) (unat i) item) (\<lambda>elems.
            bindE (sorted_array_shift elems (sa_size array) temp i) (\<lambda>elems'.
              Inr (array\<lparr>sa_elems := elems', sa_size := sa_size array + 1\<rparr>)))))"

definition sorted_array_lookup :: "'m SortedArray option \<Rightarrow> u32 \<Rightarrow> u32 exec" where
  "sorted_array_lookup array i =
     (case array of None \<Rightarrow> Inr 0
      | Some a \<Rightarrow> if i \<ge> sa_size a then Inr 0 else arr_get (sa_elems a) (unat i))"

function sorted_array_close :: "u32 list \<Rightarrow> u32 \<Rightarrow> u32 \<Rightarrow> u32 list exec" where
  "sorted_array_close elems n i =
     (if i < n
      then bindE (arr_get elems (unat (i + 1))) (\<lambda>e.
           bindE (arr_set elems (unat i) e) (\<lambda>elems'.
             sorted_array_close elems' n (i + 1)))
      else Inr elems)"
  by pat_completeness auto
termination
  by (relation "measure (\<lambda>(elems, n, i). 4294967296 - unat i)") (auto intro: u32_loop_measure)

definition sorted_array_remove :: "'m SortedArray \<Rightarrow> u32 \<Rightarrow> 'm SortedArray exec" where
  "sorted_array_remove array i =
     bindE (sorted_array_close (sa_elems array) (sa_size array) i) (\<lambda>elems.
       Inr (array\<lparr>sa_elems := elems, sa_size := sa_size array - 1\<rparr>))"

declare sorted_array_scan.simps [simp del]
declare sorted_array_shift.simps [simp del]
declare sorted_array_close.simps [simp del]

section \<open>Abstraction\<close>

definition sa_ok :: "'m SortedArray \<Rightarrow> bool" where
  "sa_ok a \<longleftrightarrow> length (sa_elems a) = unat (sa_max a) \<and> sa_size a \<le> sa_max a"

definition sa_list :: "'m SortedArray \<Rightarrow> u32 list" where
  "sa_list a = take (unat (sa_size a)) (sa_elems a)"

lemma sa_ok_size: "sa_ok a \<Longrightarrow> unat (sa_size a) \<le> length (sa_elems a)"
  by (simp add: sa_ok_def word_le_nat_alt)

lemma length_sa_list [simp]: "sa_ok a \<Longrightarrow> length (sa_list a) = unat (sa_size a)"
  using sa_ok_size [of a] by (simp add: sa_list_def)

section \<open>The loops\<close>

lemma sorted_array_scan_spec:
  assumes "sa_ok a" and "i \<le> sa_size a"
  shows "\<exists>j. sorted_array_scan m a x i = Inr j \<and> j \<le> sa_size a \<and>
    unat j = unat i + length (takeWhile (\<lambda>e. sa_cmp a m e x) (drop (unat i) (sa_list a)))"
  using assms
proof (induction m a x i rule: sorted_array_scan.induct)
  case (1 m a x i)
  show ?case
  proof (cases "i < sa_size a")
    case False
    with 1(3) have "i = sa_size a" by simp
    with 1(2) show ?thesis by (simp add: sorted_array_scan.simps [of m a x "sa_size a"])
  next
    case True
    then have i: "unat i < length (sa_list a)" "unat i < length (sa_elems a)"
      using 1(2) sa_ok_size [of a] by (simp_all add: word_less_nat_alt)
    have nth: "sa_list a ! unat i = sa_elems a ! unat i"
      using True by (simp add: sa_list_def word_less_nat_alt)
    have drop: "drop (unat i) (sa_list a) = sa_elems a ! unat i # drop (Suc (unat i)) (sa_list a)"
      using Cons_nth_drop_Suc [OF i(1)] nth by simp
    have le: "i + 1 \<le> sa_size a"
      using True by (simp add: word_le_nat_alt word_less_nat_alt unat_inc Suc_le_eq)
    show ?thesis
    proof (cases "sa_cmp a m (sa_elems a ! unat i) x")
      case False
      with True i drop show ?thesis
        by (auto simp: sorted_array_scan.simps [of m a x i])
    next
      case cmp: True
      from "1.IH" [OF True _ cmp 1(2) le] i obtain j where
        "sorted_array_scan m a x (i + 1) = Inr j" "j \<le> sa_size a"
        "unat j = unat (i + 1)
           + length (takeWhile (\<lambda>e. sa_cmp a m e x) (drop (unat (i + 1)) (sa_list a)))"
        by auto
      with True i cmp drop show ?thesis
        by (auto simp: sorted_array_scan.simps [of m a x i] unat_inc)
    qed
  qed
qed

lemma sorted_array_shift_nth:
  assumes "unat n < length xs"
  shows "\<exists>ys. sorted_array_shift xs n t i = Inr ys \<and> length ys = length xs \<and>
    (\<forall>k < length xs. ys ! k =
       (if k \<le> unat i then xs ! k else if k = Suc (unat i) \<and> i < n then t
        else if k \<le> unat n then xs ! (k - 1) else xs ! k))"
  using assms
proof (induction xs n t i rule: sorted_array_shift.induct)
  case (1 xs n t i)
  show ?case
  proof (cases "i < n")
    case False
    then show ?thesis
      by (auto simp: sorted_array_shift.simps [of xs n t i] word_less_nat_alt)
  next
    case True
    have inc: "unat (i + 1) = Suc (unat i)" by (rule unat_inc [OF True])
    have lt: "Suc (unat i) < length xs" "unat i < unat n"
      using True "1.prems" by (auto simp: word_less_nat_alt)
    let ?xs = "xs[Suc (unat i) := t]"
    from "1.IH" [OF True, of "xs ! Suc (unat i)" ?xs] "1.prems" lt
    obtain ys where ys: "sorted_array_shift ?xs n (xs ! Suc (unat i)) (i + 1) = Inr ys"
      "length ys = length xs"
      "\<And>k. k < length xs \<Longrightarrow> ys ! k =
         (if k \<le> Suc (unat i) then ?xs ! k
          else if k = Suc (Suc (unat i)) \<and> i + 1 < n then xs ! Suc (unat i)
          else if k \<le> unat n then ?xs ! (k - 1) else ?xs ! k)"
      by (auto simp: inc)
    have "ys ! k =
       (if k \<le> unat i then xs ! k else if k = Suc (unat i) \<and> i < n then t
        else if k \<le> unat n then xs ! (k - 1) else xs ! k)" if "k < length xs" for k
      using ys(3) [OF that] True lt that
      by (auto simp: nth_list_update word_less_nat_alt inc)
    with True lt ys show ?thesis
      by (auto simp: sorted_array_shift.simps [of xs n t i] inc)
  qed
qed

lemma sorted_array_close_nth:
  assumes "unat n < length xs"
  shows "\<exists>ys. sorted_array_close xs n i = Inr ys \<and> length ys = length xs \<and>
    (\<forall>k < length xs. ys ! k = (if unat i \<le> k \<and> k < unat n then xs ! Suc k else xs ! k))"
  using assms
proof (induction xs n i rule: sorted_array_close.induct)
  case (1 xs n i)
  show ?case
  proof (cases "i < n")
    case False
    then show ?thesis
      by (auto simp: sorted_array_close.simps [of xs n i] word_less_nat_alt)
  next
    case True
    have inc: "unat (i + 1) = Suc (unat i)" by (rule unat_inc [OF True])
    have lt: "Suc (unat i) < length xs" "unat i < unat n"
      using True "1.prems" by (auto simp: word_less_nat_alt)
    let ?xs = "xs[unat i := xs ! Suc (unat i)]"
    from "1.IH" [OF True, of "xs ! Suc (unat i)" ?xs] "1.prems" lt
    obtain ys where ys: "sorted_array_close ?xs n (i + 1) = Inr ys" "length ys = length xs"
      "\<And>k. k < length xs \<Longrightarrow>
         ys ! k = (if Suc (unat i) \<le> k \<and> k < unat n then ?xs ! Suc k else ?xs ! k)"
      by (auto simp: inc)
    have "ys ! k = (if unat i \<le> k \<and> k < unat n then xs ! Suc k else xs ! k)"
      if "k < length xs" for k
      using ys(3) [OF that] lt that by (auto simp: nth_list_update)
    with True lt ys show ?thesis
      by (auto simp: sorted_array_close.simps [of xs n i] inc)
  qed
qed

section \<open>The operations refine list operations\<close>

lemma sorted_array_insert_refines:
  fixes a :: "'m SortedArray" and m x
  assumes ok: "sa_ok a" and room: "sa_size a < sa_max a"
  defines "p \<equiv> \<lambda>e. sa_cmp a m e x"
  shows "\<exists>a'. sorted_array_insert m a x = Inr a' \<and> sa_ok a' \<and>
    sa_list a' = takeWhile p (sa_list a) @ x # dropWhile p (sa_list a) \<and>
    sa_max a' = sa_max a \<and> sa_size a' = sa_size a + 1 \<and> sa_cmp a' = sa_cmp a"
proof -
  from sorted_array_scan_spec [OF ok, of 0 m x] obtain j where
    j: "sorted_array_scan m a x 0 = Inr j" "j \<le> sa_size a"
      "unat j = length (takeWhile p (sa_list a))"
    by (auto simp: p_def)
  let ?n = "unat (sa_size a)" and ?xs = "sa_elems a"
  have len: "?n < length ?xs" and n: "unat (sa_size a + 1) = Suc ?n"
    using ok room by (auto simp: sa_ok_def word_less_nat_alt intro: unat_inc)
  have tw: "takeWhile p (sa_list a) = take (unat j) (sa_list a)"
    and dw: "dropWhile p (sa_list a) = drop (unat j) (sa_list a)"
    unfolding j(3) by (rule takeWhile_eq_take, rule dropWhile_eq_drop)
  have jn: "unat j \<le> ?n" using j(2) by (simp add: word_le_nat_alt)
  have le: "sa_size a + 1 \<le> sa_max a"
    using room n by (simp add: word_le_nat_alt word_less_nat_alt)
  show ?thesis
  proof (cases "j = sa_size a")
    case True
    let ?a = "a\<lparr>sa_elems := ?xs[?n := x], sa_size := sa_size a + 1\<rparr>"
    have "sa_list ?a = takeWhile p (sa_list a) @ x # dropWhile p (sa_list a)"
      unfolding tw dw using len True by (simp add: sa_list_def n take_Suc_conv_app_nth)
    moreover have "sorted_array_insert m a x = Inr ?a"
      using True j(1) len by (simp add: sorted_array_insert_def)
    moreover have "sa_ok ?a" using ok le by (simp add: sa_ok_def)
    ultimately show ?thesis by (intro exI [of _ ?a]) simp
  next
    case False
    then have jlt: "j < sa_size a" "unat j < ?n"
      using j(2) jn by (auto simp: word_less_nat_alt word_unat_eq_iff)
    let ?ys = "?xs[unat j := x]"
    from sorted_array_shift_nth [of "sa_size a" ?ys "?xs ! unat j" j] len obtain zs where
      zs: "sorted_array_shift ?ys (sa_size a) (?xs ! unat j) j = Inr zs" "length zs = length ?xs"
        "\<And>k. k < length ?xs \<Longrightarrow> zs ! k =
          (if k \<le> unat j then ?ys ! k
           else if k = Suc (unat j) \<and> j < sa_size a then ?xs ! unat j
           else if k \<le> ?n then ?ys ! (k - 1) else ?ys ! k)"
      by auto
    have "take (Suc ?n) zs = take (unat j) (sa_list a) @ x # drop (unat j) (sa_list a)"
    proof (rule nth_equalityI)
      show "length (take (Suc ?n) zs)
          = length (take (unat j) (sa_list a) @ x # drop (unat j) (sa_list a))"
        using len jlt zs(2) ok by simp
      fix k assume "k < length (take (Suc ?n) zs)"
      then have k: "k < length ?xs" "k \<le> ?n" using zs(2) len by auto
      show "take (Suc ?n) zs ! k = (take (unat j) (sa_list a) @ x # drop (unat j) (sa_list a)) ! k"
        using zs(3) [OF k(1)] k jlt len ok
        by (auto simp: nth_append sa_list_def nth_Cons' nth_list_update)
    qed
    then have "sa_list (a\<lparr>sa_elems := zs, sa_size := sa_size a + 1\<rparr>)
        = takeWhile p (sa_list a) @ x # dropWhile p (sa_list a)"
      unfolding tw dw by (simp add: sa_list_def n)
    moreover have "sorted_array_insert m a x
        = Inr (a\<lparr>sa_elems := zs, sa_size := sa_size a + 1\<rparr>)"
      using False j(1) jlt len zs(1) by (simp add: sorted_array_insert_def)
    moreover have "sa_ok (a\<lparr>sa_elems := zs, sa_size := sa_size a + 1\<rparr>)"
      using ok le zs(2) by (simp add: sa_ok_def)
    ultimately show ?thesis
      by (intro exI [of _ "a\<lparr>sa_elems := zs, sa_size := sa_size a + 1\<rparr>"]) simp
  qed
qed

lemma sorted_array_insert_full:
  assumes ok: "sa_ok a" and full: "sa_size a = sa_max a" and "\<forall>e \<in> set (sa_list a). sa_cmp a m e x"
  shows "sorted_array_insert m a x = Inl Out_Of_Bounds"
proof -
  from sorted_array_scan_spec [OF ok, of 0 m x] assms(3) ok obtain j where
    "sorted_array_scan m a x 0 = Inr j" "unat j = unat (sa_size a)"
    by (auto simp: takeWhile_eq_all_conv [THEN iffD2])
  with ok full show ?thesis
    by (auto simp: sorted_array_insert_def sa_ok_def word_unat_eq_iff)
qed

lemma sorted_array_remove_refines:
  assumes ok: "sa_ok a" and room: "sa_size a < sa_max a" and i: "i < sa_size a"
  shows "\<exists>a'. sorted_array_remove a i = Inr a' \<and> sa_ok a' \<and>
    sa_list a' = take (unat i) (sa_list a) @ drop (Suc (unat i)) (sa_list a) \<and>
    sa_max a' = sa_max a \<and> sa_size a' = sa_size a - 1 \<and> sa_cmp a' = sa_cmp a"
proof -
  let ?n = "unat (sa_size a)" and ?xs = "sa_elems a"
  have len: "?n < length ?xs" and il: "unat i < ?n"
    using ok room i by (auto simp: sa_ok_def word_less_nat_alt)
  have n: "unat (sa_size a - 1) = ?n - 1"
    using il by (simp add: unat_minus_no_wrap)
  from sorted_array_close_nth [OF len, of i] obtain ys where
    ys: "sorted_array_close ?xs (sa_size a) i = Inr ys" "length ys = length ?xs"
      "\<And>k. k < length ?xs \<Longrightarrow>
        ys ! k = (if unat i \<le> k \<and> k < ?n then ?xs ! Suc k else ?xs ! k)"
    by auto
  have "take (?n - 1) ys = take (unat i) (sa_list a) @ drop (Suc (unat i)) (sa_list a)"
  proof (rule nth_equalityI)
    show "length (take (?n - 1) ys)
        = length (take (unat i) (sa_list a) @ drop (Suc (unat i)) (sa_list a))"
      using len il ys(2) ok by simp
    fix k assume "k < length (take (?n - 1) ys)"
    then have k: "k < length ?xs" "k < ?n - 1" using ys(2) len by auto
    show "take (?n - 1) ys ! k
        = (take (unat i) (sa_list a) @ drop (Suc (unat i)) (sa_list a)) ! k"
      using ys(3) [OF k(1)] k il len ok by (auto simp: nth_append sa_list_def)
  qed
  moreover have "sa_size a - 1 \<le> sa_max a"
    using n room by (simp add: word_le_nat_alt word_less_nat_alt)
  ultimately show ?thesis
    using ys ok n by (auto simp: sorted_array_remove_def sa_ok_def sa_list_def)
qed

lemma sorted_array_lookup_refines:
  "sa_ok a \<Longrightarrow> i < sa_size a \<Longrightarrow> sorted_array_lookup (Some a) i = Inr (sa_list a ! unat i)"
  using sa_ok_size [of a]
  by (auto simp: sorted_array_lookup_def sa_list_def word_less_nat_alt word_le_nat_alt)

section \<open>The interface the heap relies on\<close>

text \<open>
  What a client of a pointer index may assume: below capacity, insertion adds the pointer at
  some position, removal by position deletes exactly that element, lookup returns the element.
\<close>

locale ptr_index =
  fixes ok :: "'s \<Rightarrow> bool" and elems :: "'s \<Rightarrow> u32 list" and cap :: "'s \<Rightarrow> nat"
    and ins :: "'s \<Rightarrow> u32 \<Rightarrow> 's exec" and del :: "'s \<Rightarrow> u32 \<Rightarrow> 's exec"
    and nth_elem :: "'s \<Rightarrow> u32 \<Rightarrow> u32 exec"
  assumes ins_law: "ok s \<Longrightarrow> length (elems s) < cap s \<Longrightarrow>
      \<exists>s' ys zs. ins s x = Inr s' \<and> ok s' \<and> cap s' = cap s \<and>
        elems s = ys @ zs \<and> elems s' = ys @ x # zs"
    and del_law: "ok s \<Longrightarrow> length (elems s) < cap s \<Longrightarrow> unat i < length (elems s) \<Longrightarrow>
      \<exists>s'. del s i = Inr s' \<and> ok s' \<and> cap s' = cap s \<and>
        elems s' = take (unat i) (elems s) @ drop (Suc (unat i)) (elems s)"
    and nth_law: "ok s \<Longrightarrow> unat i < length (elems s) \<Longrightarrow> nth_elem s i = Inr (elems s ! unat i)"
begin

lemma ins_distinct:
  assumes "ok s" "length (elems s) < cap s" "distinct (elems s)" "x \<notin> set (elems s)"
  shows "\<exists>s'. ins s x = Inr s' \<and> ok s' \<and> cap s' = cap s \<and> distinct (elems s') \<and>
    set (elems s') = insert x (set (elems s)) \<and> length (elems s') = Suc (length (elems s))"
proof -
  from ins_law [OF assms(1,2), of x] obtain s' ys zs where
    "ins s x = Inr s'" "ok s'" "cap s' = cap s" "elems s = ys @ zs" "elems s' = ys @ x # zs"
    by blast
  with assms(3,4) show ?thesis by (intro exI [of _ s']) auto
qed

lemma del_distinct:
  assumes "ok s" "length (elems s) < cap s" "unat i < length (elems s)" "distinct (elems s)"
  shows "\<exists>s'. del s i = Inr s' \<and> ok s' \<and> cap s' = cap s \<and> distinct (elems s') \<and>
    set (elems s') = set (elems s) - {elems s ! unat i} \<and>
    Suc (length (elems s')) = length (elems s)"
proof -
  from del_law [OF assms(1-3)] obtain s' where
    s': "del s i = Inr s'" "ok s'" "cap s' = cap s"
      "elems s' = take (unat i) (elems s) @ drop (Suc (unat i)) (elems s)"
    by blast
  have "elems s = take (unat i) (elems s) @ elems s ! unat i # drop (Suc (unat i)) (elems s)"
    using assms(3) by (rule id_take_nth_drop)
  then have "distinct (take (unat i) (elems s) @ elems s ! unat i # drop (Suc (unat i)) (elems s))"
    "set (elems s) = set (take (unat i) (elems s) @ elems s ! unat i # drop (Suc (unat i)) (elems s))"
    using assms(4) by simp_all
  with s' assms(3) show ?thesis by (intro exI [of _ s']) auto
qed

end

interpretation sa: ptr_index sa_ok sa_list "\<lambda>a. unat (sa_max a)" "sorted_array_insert m"
  sorted_array_remove "\<lambda>a. sorted_array_lookup (Some a)" for m
proof unfold_locales
  fix a :: "'a SortedArray" and x
  assume "sa_ok a" "length (sa_list a) < unat (sa_max a)"
  then show "\<exists>s' ys zs. sorted_array_insert m a x = Inr s' \<and> sa_ok s' \<and>
      unat (sa_max s') = unat (sa_max a) \<and> sa_list a = ys @ zs \<and> sa_list s' = ys @ x # zs"
    using sorted_array_insert_refines [of a m x]
    by (metis length_sa_list takeWhile_dropWhile_id word_less_nat_alt)
next
  fix a :: "'a SortedArray" and i :: u32
  assume "sa_ok a" "length (sa_list a) < unat (sa_max a)" "unat i < length (sa_list a)"
  then show "\<exists>s'. sorted_array_remove a i = Inr s' \<and> sa_ok s' \<and>
      unat (sa_max s') = unat (sa_max a) \<and>
      sa_list s' = take (unat i) (sa_list a) @ drop (Suc (unat i)) (sa_list a)"
    using sorted_array_remove_refines [of a i] by (auto simp: word_less_nat_alt)
next
  fix a :: "'a SortedArray" and i :: u32
  assume "sa_ok a" "unat i < length (sa_list a)"
  then show "sorted_array_lookup (Some a) i = Inr (sa_list a ! unat i)"
    by (intro sorted_array_lookup_refines) (auto simp: word_less_nat_alt)
qed

end
