(* ===== verification/Heap_Model.thy ===== *)
theory Heap_Model
  imports Arrays
begin

unbundle bit_operations_syntax

text \<open>
  \<^verbatim>\<open>kernel/heap.c\<close> and \<^verbatim>\<open>include/vm/heap.h\<close>: the kernel heap. Blocks lie side by side in byte
  memory, each a 16-byte \<^verbatim>\<open>MemHeader\<close>, a payload and an 8-byte \<^verbatim>\<open>MemFooter\<close>; the headers'
  addresses are kept in a \<^verbatim>\<open>SortedArray\<close>. All address and size arithmetic is on 32-bit words, as
  in the source, so it wraps where the source wraps. A structure field is an access to byte
  memory at its offset. \<^verbatim>\<open>assert\<close> and the sorted array's storage bound are the faults.
\<close>

section \<open>Constants and structures\<close>

definition MEM_MAGIC :: u32 where "MEM_MAGIC = 0xefbeadde"
definition MEM_CIGAM :: u32 where "MEM_CIGAM = 0xdeadbeef"
definition PAGE_SIZE :: u32 where "PAGE_SIZE = 4096"
definition KHEAP_DATA_PADDR :: u32 where "KHEAP_DATA_PADDR = 0x00808000"
definition KHEAP_DATA_VADDR :: u32 where "KHEAP_DATA_VADDR = 0xd0000000"
definition KHEAP_DATA_LEN :: u32 where "KHEAP_DATA_LEN = 0x10000000"
definition KHEAP_INDEX_PADDR :: u32 where "KHEAP_INDEX_PADDR = 0x00800000"
definition KHEAP_INDEX_NELEM :: u32 where "KHEAP_INDEX_NELEM = 0x8000"

text \<open>\<^verbatim>\<open>sizeof (MemHeader)\<close> and \<^verbatim>\<open>sizeof (MemFooter)\<close>.\<close>

definition sizeof_MemHeader :: u32 where "sizeof_MemHeader = 16"
definition sizeof_MemFooter :: u32 where "sizeof_MemFooter = 8"

definition mh_magic :: "mem \<Rightarrow> u32 \<Rightarrow> u32" where "mh_magic m h = read32 m h"
definition mh_size :: "mem \<Rightarrow> u32 \<Rightarrow> u32" where "mh_size m h = read32 m (h + 4)"
definition mh_alloc :: "mem \<Rightarrow> u32 \<Rightarrow> u8" where "mh_alloc m h = read8 m (h + 8)"
definition mf_cigam :: "mem \<Rightarrow> u32 \<Rightarrow> u32" where "mf_cigam m f = read32 m f"
definition mf_header :: "mem \<Rightarrow> u32 \<Rightarrow> u32" where "mf_header m f = read32 m (f + 4)"

definition set_mh_magic :: "mem \<Rightarrow> u32 \<Rightarrow> u32 \<Rightarrow> mem" where
  "set_mh_magic m h v = write32 m h v"
definition set_mh_size :: "mem \<Rightarrow> u32 \<Rightarrow> u32 \<Rightarrow> mem" where
  "set_mh_size m h v = write32 m (h + 4) v"
definition set_mh_alloc :: "mem \<Rightarrow> u32 \<Rightarrow> u8 \<Rightarrow> mem" where
  "set_mh_alloc m h v = write8 m (h + 8) v"
definition set_mf_cigam :: "mem \<Rightarrow> u32 \<Rightarrow> u32 \<Rightarrow> mem" where
  "set_mf_cigam m f v = write32 m f v"
definition set_mf_header :: "mem \<Rightarrow> u32 \<Rightarrow> u32 \<Rightarrow> mem" where
  "set_mf_header m f v = write32 m (f + 4) v"

text \<open>\<^verbatim>\<open>MemHeap\<close>; its field \<^verbatim>\<open>mh_size\<close> is \<open>mh_len\<close> here, since a block header has a field of that
  name too.\<close>

record MemHeap =
  mh_index :: "mem SortedArray"
  mh_addr :: u32
  mh_len :: u32
  mh_pdata :: u32
  mh_pindex :: u32

definition heap_cmp :: "mem \<Rightarrow> u32 \<Rightarrow> u32 \<Rightarrow> bool" where
  "heap_cmp m a b \<longleftrightarrow> mh_size m a < mh_size m b"

section \<open>Allocation\<close>

text \<open>The body of the search loop either goes on to the next index entry or returns.\<close>

datatype alloc_step = Next mem MemHeap | Ret u32 mem MemHeap

text \<open>The last part of the loop body: split the block when the rest can hold another block,
  or take it whole.\<close>

definition heap_carve :: "mem \<Rightarrow> MemHeap \<Rightarrow> u32 \<Rightarrow> u32 \<Rightarrow> alloc_step exec" where
  "heap_carve m heap header sz =
     (if mh_size m header > sz + sizeof_MemHeader + sizeof_MemFooter then
        let footer = header + sizeof_MemHeader + sz;
            new_size = mh_size m header - sz - sizeof_MemHeader - sizeof_MemFooter;
            m1 = set_mh_size m header sz;
            m2 = set_mh_alloc m1 header 1;
            m3 = set_mf_cigam m2 footer MEM_CIGAM;
            m4 = set_mf_header m3 footer header;
            new_header = footer + sizeof_MemFooter;
            m5 = set_mh_magic m4 new_header MEM_MAGIC;
            m6 = set_mh_size m5 new_header new_size;
            m7 = set_mh_alloc m6 new_header 0
        in bindE (sorted_array_insert m7 (mh_index heap) new_header) (\<lambda>index.
             let new_footer = new_header + sizeof_MemHeader + mh_size m7 new_header;
                 m8 = set_mf_cigam m7 new_footer MEM_CIGAM;
                 m9 = set_mf_header m8 new_footer new_header
             in Inr (Ret (header + sizeof_MemHeader) m9 (heap\<lparr>mh_index := index\<rparr>)))
      else if mh_size m header \<ge> sz then
        Inr (Ret (header + sizeof_MemHeader) (set_mh_alloc m header 1) heap)
      else Inr (Next m heap))"

text \<open>The page-aligned case: cut a new block at the next page boundary, or skip this entry
  (\<open>None\<close>).\<close>

definition heap_align :: "mem \<Rightarrow> MemHeap \<Rightarrow> u32 \<Rightarrow> u32 \<Rightarrow> (mem \<times> MemHeap \<times> u32) option exec" where
  "heap_align m heap header sz =
     (let addr = ((header + sizeof_MemHeader) AND 0xfffff000) + PAGE_SIZE;
          end_addr = header + sizeof_MemHeader + mh_size m header
      in if addr \<ge> end_addr then Inr None
         else if end_addr - addr < sz then Inr None
         else if addr - header > sizeof_MemHeader * 2 + sizeof_MemFooter then
           let footer = end_addr;
               page_header = addr - sizeof_MemHeader;
               prev_footer = page_header - sizeof_MemFooter
           in bindE (assertE (mf_cigam m footer = MEM_CIGAM)) (\<lambda>_.
                let m1 = set_mf_header m footer page_header;
                    m2 = set_mh_magic m1 page_header MEM_MAGIC;
                    m3 = set_mh_size m2 page_header
                           (mh_size m2 header - addr + header + sizeof_MemHeader);
                    m4 = set_mh_alloc m3 page_header 1;
                    m5 = set_mf_cigam m4 prev_footer MEM_CIGAM;
                    m6 = set_mf_header m5 prev_footer header;
                    m7 = set_mh_size m6 header (prev_footer - header - sizeof_MemHeader)
                in bindE (sorted_array_insert m7 (mh_index heap) page_header) (\<lambda>index.
                     Inr (Some (m7, heap\<lparr>mh_index := index\<rparr>, page_header))))
         else Inr None)"

definition heap_alloc_try :: "mem \<Rightarrow> MemHeap \<Rightarrow> u32 \<Rightarrow> bool \<Rightarrow> u32 \<Rightarrow> alloc_step exec" where
  "heap_alloc_try m heap sz aligned header =
     (if mh_magic m header \<noteq> MEM_MAGIC \<or> mh_alloc m header \<noteq> 0 then Inr (Next m heap)
      else if aligned \<and> (header + sizeof_MemHeader) AND (PAGE_SIZE - 1) \<noteq> 0 then
        bindE (heap_align m heap header sz) (\<lambda>r.
          case r of None \<Rightarrow> Inr (Next m heap)
          | Some (m', heap', header') \<Rightarrow> heap_carve m' heap' header' sz)
      else heap_carve m heap header sz)"

function heap_alloc_loop ::
  "mem \<Rightarrow> MemHeap \<Rightarrow> u32 \<Rightarrow> bool \<Rightarrow> u32 \<Rightarrow> (u32 \<times> mem \<times> MemHeap) exec" where
  "heap_alloc_loop m heap sz aligned i =
     (if i < sa_size (mh_index heap) then
        bindE (sorted_array_lookup (Some (mh_index heap)) i) (\<lambda>header.
        bindE (heap_alloc_try m heap sz aligned header) (\<lambda>step.
          case step of
            Next m' heap' \<Rightarrow> heap_alloc_loop m' heap' sz aligned (i + 1)
          | Ret ptr m' heap' \<Rightarrow> Inr (ptr, m', heap')))
      else Inr (0, m, heap))"
  by pat_completeness auto
termination
  by (relation "measure (\<lambda>(m, heap, sz, aligned, i). 4294967296 - unat i)")
    (auto intro: u32_loop_measure)

declare heap_alloc_loop.simps [simp del]

definition heap_alloc :: "mem \<Rightarrow> MemHeap \<Rightarrow> u32 \<Rightarrow> bool \<Rightarrow> (u32 \<times> mem \<times> MemHeap) exec" where
  "heap_alloc m heap sz aligned = heap_alloc_loop m heap sz aligned 0"

section \<open>Release\<close>

text \<open>The loops that look a header up in the index: the position, or \<open>None\<close> when the loop runs out.\<close>

function heap_index_find :: "mem SortedArray \<Rightarrow> u32 \<Rightarrow> u32 \<Rightarrow> u32 option exec" where
  "heap_index_find index header i =
     (if i < sa_size index then
        bindE (sorted_array_lookup (Some index) i) (\<lambda>e.
          if e = header then Inr (Some i) else heap_index_find index header (i + 1))
      else Inr None)"
  by pat_completeness auto
termination
  by (relation "measure (\<lambda>(index, header, i). 4294967296 - unat i)")
    (auto intro: u32_loop_measure)

declare heap_index_find.simps [simp del]

text \<open>Merge the freed block into the block before it when that one is free; the result's last
  component is the header that the second half of \<^verbatim>\<open>heap_free\<close> works on.\<close>

definition heap_unify_left :: "mem \<Rightarrow> MemHeap \<Rightarrow> u32 \<Rightarrow> u32 \<Rightarrow> (mem \<times> MemHeap \<times> u32) exec" where
  "heap_unify_left m heap header i =
     (let footer = header - sizeof_MemFooter;
          prev_header = mf_header m footer
      in if footer \<ge> mh_addr heap \<and> mf_cigam m footer = MEM_CIGAM \<and>
            mh_magic m prev_header = MEM_MAGIC \<and> mh_alloc m prev_header = 0
         then let m1 = set_mh_size m prev_header
                         (mh_size m prev_header
                            + (mh_size m header + sizeof_MemHeader + sizeof_MemFooter));
                  m2 = set_mh_magic m1 header 0
              in bindE (sorted_array_remove (mh_index heap) i) (\<lambda>index.
                   Inr (m2, heap\<lparr>mh_index := index\<rparr>, prev_header))
         else Inr (m, heap, header))"

text \<open>Merge the block after the given one into it when that one is free and indexed.\<close>

definition heap_unify_right :: "mem \<Rightarrow> MemHeap \<Rightarrow> u32 \<Rightarrow> (mem \<times> MemHeap) exec" where
  "heap_unify_right m heap header =
     (let next_header = header + sizeof_MemHeader + sizeof_MemFooter + mh_size m header
      in if next_header < mh_addr heap + mh_len heap \<and> mh_magic m next_header = MEM_MAGIC \<and>
            mh_alloc m next_header = 0
         then bindE (heap_index_find (mh_index heap) next_header 0) (\<lambda>r.
                case r of None \<Rightarrow> Inr (m, heap)
                | Some i \<Rightarrow>
                    let footer = next_header + sizeof_MemHeader + mh_size m next_header
                    in if mf_cigam m footer = MEM_CIGAM
                       then let m1 = set_mf_header m footer header;
                                m2 = set_mh_size m1 header
                                       (mh_size m1 header
                                          + (sizeof_MemHeader + sizeof_MemFooter
                                               + mh_size m1 next_header))
                            in bindE (sorted_array_remove (mh_index heap) i) (\<lambda>index.
                                 Inr (m2, heap\<lparr>mh_index := index\<rparr>))
                       else Inr (m, heap))
         else Inr (m, heap))"

definition heap_free :: "mem \<Rightarrow> MemHeap \<Rightarrow> u32 \<Rightarrow> (mem \<times> MemHeap) exec" where
  "heap_free m heap ptr =
     (if ptr = 0 then Inr (m, heap)
      else let header = ptr - sizeof_MemHeader
           in bindE (assertE (mh_magic m header = MEM_MAGIC)) (\<lambda>_.
              bindE (heap_index_find (mh_index heap) header 0) (\<lambda>r.
                case r of None \<Rightarrow> Inr (m, heap)
                | Some i \<Rightarrow>
                    bindE (heap_unify_left (set_mh_alloc m header 0) heap header i)
                      (\<lambda>(m', heap', header'). heap_unify_right m' heap' header'))))"

section \<open>Reallocation\<close>

text \<open>\<^verbatim>\<open>heap_realloc\<close>, line by line: the failure exits, growth into the following free block (with
  and without a remainder), and the move to a fresh block.\<close>

definition heap_realloc_move :: "mem \<Rightarrow> MemHeap \<Rightarrow> u32 \<Rightarrow> u32 \<Rightarrow> (u32 \<times> mem \<times> MemHeap) exec" where
  "heap_realloc_move m heap ptr sz =
     bindE (heap_alloc m heap sz False) (\<lambda>(new, m1, heap1).
       if new = 0 then Inr (0, m1, heap1)
       else let m2 = mem_copy m1 new ptr (unat (mh_size m1 (ptr - sizeof_MemHeader)))
            in bindE (heap_free m2 heap1 ptr) (\<lambda>(m3, heap2). Inr (new, m3, heap2)))"

definition heap_realloc_grow ::
  "mem \<Rightarrow> MemHeap \<Rightarrow> u32 \<Rightarrow> u32 \<Rightarrow> u32 \<Rightarrow> u32 \<Rightarrow> u32 \<Rightarrow> (u32 \<times> mem \<times> MemHeap) exec" where
  "heap_realloc_grow m heap ptr header next_header i sz =
     (let save = mh_size m header;
          extra = sz - save
      in if mh_size m next_header > extra + sizeof_MemHeader + sizeof_MemFooter then
           bindE (sorted_array_remove (mh_index heap) i) (\<lambda>index.
             let m1 = set_mh_size m header sz;
                 footer = header + sizeof_MemHeader + sz;
                 m2 = set_mf_cigam m1 footer MEM_CIGAM;
                 m3 = set_mf_header m2 footer header;
                 next_header' = footer + sizeof_MemFooter;
                 m4 = set_mh_magic m3 next_header' MEM_MAGIC;
                 m5 = set_mh_alloc m4 next_header' 0;
                 m6 = set_mh_size m5 next_header' (save - extra - sizeof_MemHeader);
                 next_footer = next_header' + sizeof_MemHeader + mh_size m6 next_header';
                 m7 = set_mf_cigam m6 next_footer MEM_CIGAM;
                 m8 = set_mf_header m7 next_footer next_header'
             in Inr (ptr, m8, heap\<lparr>mh_index := index\<rparr>))
         else if mh_size m next_header \<ge> extra then
           bindE (sorted_array_remove (mh_index heap) i) (\<lambda>index.
             let footer = next_header + sizeof_MemHeader + mh_size m next_header
             in bindE (assertE (mf_cigam m footer = MEM_CIGAM)) (\<lambda>_.
                  let m1 = set_mf_header m footer header;
                      m2 = set_mh_size m1 header
                             (mh_size m1 header + (save + sizeof_MemHeader + sizeof_MemFooter))
                  in Inr (ptr, m2, heap\<lparr>mh_index := index\<rparr>)))
         else heap_realloc_move m heap ptr sz)"

definition heap_realloc :: "mem \<Rightarrow> MemHeap \<Rightarrow> u32 \<Rightarrow> u32 \<Rightarrow> (u32 \<times> mem \<times> MemHeap) exec" where
  "heap_realloc m heap ptr sz =
     (if ptr = 0 then heap_alloc m heap sz False
      else let header = ptr - sizeof_MemHeader
           in bindE (assertE (mh_magic m header = MEM_MAGIC)) (\<lambda>_.
              if mh_alloc m header = 0 then Inr (0, m, heap)
              else bindE (heap_index_find (mh_index heap) header 0) (\<lambda>r.
                case r of None \<Rightarrow> Inr (0, m, heap)
                | Some _ \<Rightarrow>
                    let footer = header + sizeof_MemHeader + mh_size m header
                    in bindE (assertE (mf_cigam m footer = MEM_CIGAM)) (\<lambda>_.
                       let next_header = footer + sizeof_MemFooter
                       in if next_header \<ge> mh_addr heap + mh_len heap \<or>
                             mh_magic m next_header \<noteq> MEM_MAGIC
                          then Inr (0, m, heap)
                          else if mh_alloc m next_header = 0 then
                            bindE (heap_index_find (mh_index heap) next_header 0) (\<lambda>r'.
                              case r' of None \<Rightarrow> Inr (0, m, heap)
                              | Some i \<Rightarrow>
                                  heap_realloc_grow m heap ptr header next_header i sz)
                          else heap_realloc_move m heap ptr sz))))"

section \<open>The kernel heap\<close>

definition kmalloc :: "mem \<Rightarrow> MemHeap \<Rightarrow> u32 \<Rightarrow> (u32 \<times> mem \<times> MemHeap) exec" where
  "kmalloc m heap sz = heap_alloc m heap sz False"

definition kvalloc :: "mem \<Rightarrow> MemHeap \<Rightarrow> u32 \<Rightarrow> (u32 \<times> mem \<times> MemHeap) exec" where
  "kvalloc m heap sz = heap_alloc m heap sz True"

definition kzalloc :: "mem \<Rightarrow> MemHeap \<Rightarrow> u32 \<Rightarrow> (u32 \<times> mem \<times> MemHeap) exec" where
  "kzalloc m heap sz =
     bindE (kmalloc m heap sz) (\<lambda>(ptr, m', heap').
       if ptr = 0 then Inr (0, m', heap') else Inr (ptr, mem_fill m' ptr 0 (unat sz), heap'))"

definition krealloc :: "mem \<Rightarrow> MemHeap \<Rightarrow> u32 \<Rightarrow> u32 \<Rightarrow> (u32 \<times> mem \<times> MemHeap) exec" where
  "krealloc m heap ptr sz = heap_realloc m heap ptr sz"

definition kfree :: "mem \<Rightarrow> MemHeap \<Rightarrow> u32 \<Rightarrow> (mem \<times> MemHeap) exec" where
  "kfree m heap ptr = heap_free m heap ptr"

text \<open>\<^verbatim>\<open>heap_init\<close> on the zeroed \<^verbatim>\<open>kernel_heap\<close>; none of the arguments of
  \<^verbatim>\<open>sorted_array_place\<close> is NULL, so its failure branch, a panic, is the fault.\<close>

definition heap_init :: "mem \<Rightarrow> MemHeap \<Rightarrow> (mem \<times> MemHeap) exec" where
  "heap_init m kernel_heap =
     (case sorted_array_place (Some (mh_index kernel_heap))
             (Some (sa_elems (mh_index kernel_heap))) KHEAP_INDEX_NELEM (Some heap_cmp) of
        (ret, None) \<Rightarrow> Inl Assertion_Failed
      | (ret, Some index) \<Rightarrow>
          if ret \<noteq> 0 then Inl Assertion_Failed
          else let header = KHEAP_DATA_VADDR;
                   m1 = set_mh_magic m header MEM_MAGIC;
                   m2 = set_mh_size m1 header
                          (KHEAP_DATA_LEN - sizeof_MemHeader - sizeof_MemFooter);
                   m3 = set_mh_alloc m2 header 0
               in bindE (sorted_array_insert m3 index header) (\<lambda>index'.
                    let footer = header + sizeof_MemHeader + mh_size m3 header;
                        m4 = set_mf_cigam m3 footer MEM_CIGAM;
                        m5 = set_mf_header m4 footer header
                    in Inr (m5, kernel_heap\<lparr>mh_index := index', mh_addr := KHEAP_DATA_VADDR,
                         mh_len := KHEAP_DATA_LEN, mh_pdata := KHEAP_DATA_PADDR,
                         mh_pindex := KHEAP_INDEX_PADDR\<rparr>)))"

end
