(* ===== verification/Heap.thy ===== *)
theory Heap
  imports Heap_Model
begin

unbundle bit_operations_syntax

text \<open>
  Correctness of the kernel heap. The bytes of the heap region are described by a list of
  blocks (payload size and allocation flag); the abstract state a client sees is the set of live
  allocations, address and size. The lemmas show that allocation and release rewrite the block
  list locally, so that they add or remove exactly one live allocation and touch no byte of the
  others.
\<close>

section \<open>The block structure of the heap region\<close>

type_synonym block = "nat \<times> bool"

text \<open>
  A well-formed block at address \<open>a\<close> with payload size \<open>s\<close>. The footer's back pointer is the
  header, or (after a merge with the block on its left, which leaves the footer alone) it
  points to a dead header inside the payload whose magic number is gone.
\<close>

definition block_ok :: "mem \<Rightarrow> nat \<Rightarrow> nat \<Rightarrow> bool \<Rightarrow> bool" where
  "block_ok m a s al \<longleftrightarrow>
     get32 m a = MEM_MAGIC \<and> get32 m (a + 4) = of_nat s \<and> (m (a + 8) \<noteq> 0 \<longleftrightarrow> al) \<and>
     get32 m (a + 16 + s) = MEM_CIGAM \<and>
     (let p = unat (get32 m (a + 20 + s)) in
        p = a \<or> (a + 16 \<le> p \<and> p + 16 \<le> a + 16 + s \<and> get32 m p \<noteq> MEM_MAGIC))"

fun layout :: "mem \<Rightarrow> nat \<Rightarrow> block list \<Rightarrow> bool" where
  "layout m a [] \<longleftrightarrow> True"
| "layout m a ((s, al) # bs) \<longleftrightarrow> block_ok m a s al \<and> layout m (a + 24 + s) bs"

fun span :: "block list \<Rightarrow> nat" where
  "span [] = 0"
| "span ((s, al) # bs) = 24 + s + span bs"

fun addrs :: "nat \<Rightarrow> block list \<Rightarrow> nat list" where
  "addrs a [] = []"
| "addrs a ((s, al) # bs) = a # addrs (a + 24 + s) bs"

text \<open>The live allocations: payload address and size of every allocated block.\<close>

fun live :: "nat \<Rightarrow> block list \<Rightarrow> (nat \<times> nat) set" where
  "live a [] = {}"
| "live a ((s, al) # bs) = (if al then {(a + 16, s)} else {}) \<union> live (a + 24 + s) bs"

text \<open>The free blocks: header address and size.\<close>

fun idle :: "nat \<Rightarrow> block list \<Rightarrow> (nat \<times> nat) set" where
  "idle a [] = {}"
| "idle a ((s, al) # bs) = (if al then {} else {(a, s)}) \<union> idle (a + 24 + s) bs"

lemma span_append [simp]: "span (xs @ ys) = span xs + span ys"
  by (induction xs rule: span.induct) auto

lemma layout_append [simp]:
  "layout m a (xs @ ys) \<longleftrightarrow> layout m a xs \<and> layout m (a + span xs) ys"
  by (induction m a xs rule: layout.induct) (auto simp: add.assoc)

lemma addrs_append [simp]: "addrs a (xs @ ys) = addrs a xs @ addrs (a + span xs) ys"
  by (induction a xs rule: addrs.induct) (auto simp: add.assoc)

lemma live_append [simp]: "live a (xs @ ys) = live a xs \<union> live (a + span xs) ys"
  by (induction a xs rule: live.induct) (auto simp: add.assoc)

lemma addrs_bounds: "b \<in> set (addrs a bs) \<Longrightarrow> a \<le> b \<and> b + 24 \<le> a + span bs"
  by (induction a bs rule: addrs.induct) fastforce+

lemma live_bounds: "(p, s) \<in> live a bs \<Longrightarrow> a + 16 \<le> p \<and> p + s + 8 \<le> a + span bs"
  by (induction a bs rule: live.induct) (fastforce split: if_splits)+

lemma length_addrs [simp]: "length (addrs a bs) = length bs"
  by (induction a bs rule: addrs.induct) auto

lemma distinct_addrs [simp]: "distinct (addrs a bs)"
  by (induction a bs rule: addrs.induct) (auto dest: addrs_bounds)

lemma idle_split:
  assumes "(b, s) \<in> idle a bs"
  obtains xs ys where "bs = xs @ (s, False) # ys" "b = a + span xs"
  using assms
proof (induction a bs arbitrary: thesis rule: idle.induct)
  case (2 a s' al bs)
  show ?case
  proof (cases "\<not> al \<and> b = a \<and> s = s'")
    case True
    then show ?thesis using "2.prems"(1) [of "[]" bs] by simp
  next
    case False
    then have "(b, s) \<in> idle (a + 24 + s') bs" using "2.prems"(2) by (auto split: if_splits)
    then obtain xs ys where "bs = xs @ (s, False) # ys" "b = a + 24 + s' + span xs"
      using "2.IH" by metis
    then show ?thesis using "2.prems"(1) [of "(s', al) # xs" ys] by simp
  qed
qed simp

lemma idle_sizes: "(s, False) \<in> set bs \<Longrightarrow> \<exists>b. (b, s) \<in> idle a bs"
  by (induction a bs rule: idle.induct) auto

lemma addrs_split:
  assumes "b \<in> set (addrs a bs)"
  obtains xs s al ys where "bs = xs @ (s, al) # ys" "b = a + span xs"
  using assms
proof (induction a bs arbitrary: thesis rule: addrs.induct)
  case (2 a s al bs)
  show ?case
  proof (cases "b = a")
    case True
    then show ?thesis using "2.prems"(1) [of "[]" s al bs] by simp
  next
    case False
    then have "b \<in> set (addrs (a + 24 + s) bs)" using "2.prems"(2) by simp
    then obtain xs s' al' ys where "bs = xs @ (s', al') # ys" "b = a + 24 + s + span xs"
      using "2.IH" by metis
    then show ?thesis using "2.prems"(1) [of "(s, al) # xs" s' al' ys] by simp
  qed
qed simp

lemma span_eq_0 [simp]: "span bs = 0 \<longleftrightarrow> bs = []"
  by (cases bs rule: span.cases) auto

lemma span_eq_split:
  assumes "xs @ (s, al) # ys = xs' @ (s', al') # ys'" and "span xs = span xs'"
  shows "s' = s \<and> al' = al"
proof -
  from assms(1) obtain us where
    "xs = xs' @ us \<and> us @ (s, al) # ys = (s', al') # ys' \<or>
     xs @ us = xs' \<and> (s, al) # ys = us @ (s', al') # ys'"
    by (auto simp: append_eq_append_conv2)
  with assms(2) show ?thesis by auto
qed

lemma block_ok_cong:
  assumes "\<And>k. a \<le> k \<Longrightarrow> k < a + 24 + s \<Longrightarrow> m' k = m k"
  shows "block_ok m' a s al = block_ok m a s al"
proof -
  have eq: "get32 m' k = get32 m k" if "a \<le> k" "k + 4 \<le> a + 24 + s" for k
    using that assms by (intro get32_cong) auto
  have *: "get32 m' a = get32 m a" "get32 m' (a + 4) = get32 m (a + 4)" "m' (a + 8) = m (a + 8)"
    "get32 m' (a + 16 + s) = get32 m (a + 16 + s)" "get32 m' (a + 20 + s) = get32 m (a + 20 + s)"
    using eq assms by auto
  have "a + 16 \<le> p \<and> p + 16 \<le> a + 16 + s \<and> get32 m' p \<noteq> MEM_MAGIC \<longleftrightarrow>
        a + 16 \<le> p \<and> p + 16 \<le> a + 16 + s \<and> get32 m p \<noteq> MEM_MAGIC" for p
    using eq [of p] by auto
  then show ?thesis unfolding block_ok_def * Let_def by blast
qed

lemma layout_cong:
  assumes "\<And>k. a \<le> k \<Longrightarrow> k < a + span bs \<Longrightarrow> m' k = m k"
  shows "layout m' a bs = layout m a bs"
  using assms
proof (induction m a bs rule: layout.induct)
  case (2 m a s al bs)
  have "block_ok m' a s al = block_ok m a s al"
    by (rule block_ok_cong) (use 2 in auto)
  moreover have "layout m' (a + 24 + s) bs = layout m (a + 24 + s) bs"
    by (rule "2.IH") (use 2 in auto)
  ultimately show ?case by simp
qed simp

section \<open>The heap invariant\<close>

text \<open>The region starts past the first footer's size and ends at least one page below the end of the
  address space, so no address computed from a block wraps.\<close>

definition heap_inv :: "mem \<Rightarrow> MemHeap \<Rightarrow> block list \<Rightarrow> bool" where
  "heap_inv m heap bs \<longleftrightarrow>
     layout m (unat (mh_addr heap)) bs \<and> span bs = unat (mh_len heap) \<and>
     8 \<le> unat (mh_addr heap) \<and> unat (mh_addr heap) + unat (mh_len heap) \<le> 4294963200 \<and>
     sa_ok (mh_index heap) \<and> distinct (sa_list (mh_index heap)) \<and>
     unat ` set (sa_list (mh_index heap)) = set (addrs (unat (mh_addr heap)) bs)"

text \<open>Rewriting a run of adjacent blocks in place keeps the invariant and the other blocks'
  bytes.\<close>

lemma heap_inv_replace:
  assumes inv: "heap_inv m heap (xs @ mid @ ys)"
    and span: "span mid' = span mid"
    and mid: "layout m' (unat (mh_addr heap) + span xs) mid'"
    and frame: "\<And>k. k < unat (mh_addr heap) + span xs \<or>
      unat (mh_addr heap) + span xs + span mid \<le> k \<Longrightarrow> m' k = m k"
    and heap': "mh_addr heap' = mh_addr heap" "mh_len heap' = mh_len heap"
    and index: "sa_ok (mh_index heap')" "distinct (sa_list (mh_index heap'))"
      "unat ` set (sa_list (mh_index heap')) = set (addrs (unat (mh_addr heap)) (xs @ mid' @ ys))"
  shows "heap_inv m' heap' (xs @ mid' @ ys)"
proof -
  let ?a = "unat (mh_addr heap)"
  have "layout m' ?a xs = layout m ?a xs"
    by (rule layout_cong) (auto intro: frame)
  moreover have "layout m' (?a + span xs + span mid) ys = layout m (?a + span xs + span mid) ys"
    by (rule layout_cong) (auto intro: frame)
  ultimately show ?thesis
    using assms by (auto simp: heap_inv_def span add.assoc)
qed

lemma replace_keeps_payload:
  assumes "\<And>k. k < a + span xs \<or> a + span xs + span mid \<le> k \<Longrightarrow> m' k = m k"
    and "(q, t) \<in> live a xs \<union> live (a + span xs + span mid) ys" and "k < t"
  shows "m' (q + k) = m (q + k)"
proof -
  have "q + t \<le> a + span xs \<or> a + span xs + span mid \<le> q"
    using assms(2) by (auto dest: live_bounds)
  with assms(3) show ?thesis by (intro assms(1)) auto
qed

lemma heap_inv_index_mem:
  assumes "heap_inv m heap bs"
  shows "h \<in> set (sa_list (mh_index heap)) \<longleftrightarrow> unat h \<in> set (addrs (unat (mh_addr heap)) bs)"
proof -
  have "unat ` set (sa_list (mh_index heap)) = set (addrs (unat (mh_addr heap)) bs)"
    using assms by (simp add: heap_inv_def)
  moreover have "inj (unat :: u32 \<Rightarrow> nat)"
    by (rule injI) (simp add: word_unat_eq_iff)
  ultimately show ?thesis
    using inj_image_mem_iff by metis
qed

section \<open>Carving a block\<close>

lemmas heap_field_defs = mh_magic_def mh_size_def mh_alloc_def mf_cigam_def mf_header_def
  set_mh_magic_def set_mh_size_def set_mh_alloc_def set_mf_cigam_def set_mf_header_def
  sizeof_MemHeader_def sizeof_MemFooter_def read32_def write32_def read8_def write8_def

lemma unat_of_nat_u32 [simp]: "n < 4294967296 \<Longrightarrow> unat (of_nat n :: u32) = n"
  by (simp add: unat_of_nat take_bit_nat_eq_self)

lemma of_nat_minus_u32: "b \<le> a \<Longrightarrow> (of_nat a :: u32) - of_nat b = of_nat (a - b)"
  by simp

lemma block_ok_fields:
  assumes "block_ok m (unat h) s al" and "unat h + 24 + s < 4294967296"
  shows "mh_magic m h = MEM_MAGIC" "mh_size m h = of_nat s" "unat (mh_size m h) = s"
    "mh_alloc m h \<noteq> 0 \<longleftrightarrow> al" "mf_cigam m (h + 16 + of_nat s) = MEM_CIGAM"
proof -
  have "unat (h + 4) = unat h + 4" "unat (h + 8) = unat h + 8"
    "unat (h + 16 + of_nat s) = unat h + 16 + s"
    using assms(2) by (simp_all add: unat_word_ariths)
  with assms show "mh_magic m h = MEM_MAGIC" "mh_size m h = of_nat s" "unat (mh_size m h) = s"
    "mh_alloc m h \<noteq> 0 \<longleftrightarrow> al" "mf_cigam m (h + 16 + of_nat s) = MEM_CIGAM"
    by (simp_all add: block_ok_def heap_field_defs)
qed

definition carve_mem :: "mem \<Rightarrow> nat \<Rightarrow> nat \<Rightarrow> nat \<Rightarrow> mem" where
  "carve_mem m a n s =
     put32 (put32 ((put32 (put32 (put32 (put32 ((put32 m (a + 4) (of_nat n))(a + 8 := 1))
       (a + 16 + n) MEM_CIGAM) (a + 20 + n) (of_nat a)) (a + 24 + n) MEM_MAGIC)
       (a + 28 + n) (of_nat (s - n - 24)))(a + 32 + n := 0))
       (a + 16 + s) MEM_CIGAM) (a + 20 + s) (of_nat (a + 24 + n))"

lemma carve_mem_frame: "n + 24 < s \<Longrightarrow> k < a \<or> a + 24 + s \<le> k \<Longrightarrow> carve_mem m a n s k = m k"
  by (auto simp: carve_mem_def mem_simps)

lemma carve_mem_blocks:
  assumes "block_ok m a s al" and "n + 24 < s" and "a + 24 + s < 4294967296"
  shows "layout (carve_mem m a n s) a [(n, True), (s - n - 24, False)]"
proof -
  have eq: "a + 24 + n + 16 + (s - n - 24) = a + 16 + s" "a + 24 + n + 20 + (s - n - 24) = a + 20 + s"
    "a + 24 + n + 4 = a + 28 + n" "a + 24 + n + 8 = a + 32 + n"
    using assms(2) by auto
  have "get32 m a = MEM_MAGIC" using assms(1) by (simp add: block_ok_def)
  then have "block_ok (carve_mem m a n s) a n True"
    using assms(2,3) by (simp add: block_ok_def carve_mem_def mem_simps Let_def del: of_nat_add)
  moreover have "block_ok (carve_mem m a n s) (a + 24 + n) (s - n - 24) False"
    unfolding block_ok_def eq
    using assms(2,3) by (simp add: carve_mem_def mem_simps Let_def del: of_nat_add of_nat_diff)
  ultimately show ?thesis by simp
qed

lemma heap_carve_split:
  assumes blk: "block_ok m (unat h) s al" and bound: "unat h + 24 + s < 4294967296"
    and n: "unat sz + 24 < s"
    and ix: "sa_ok (mh_index heap)" "distinct (sa_list (mh_index heap))"
      "unat (sa_size (mh_index heap)) < unat (sa_max (mh_index heap))"
    and new: "h + 24 + sz \<notin> set (sa_list (mh_index heap))"
  shows "\<exists>index. heap_carve m heap h sz =
      Inr (Ret (h + 16) (carve_mem m (unat h) (unat sz) s) (heap\<lparr>mh_index := index\<rparr>)) \<and>
    sa_ok index \<and> distinct (sa_list index) \<and> sa_max index = sa_max (mh_index heap) \<and>
    set (sa_list index) = insert (h + 24 + sz) (set (sa_list (mh_index heap)))"
proof -
  note f = block_ok_fields [OF blk bound]
  have u: "unat (h + 4) = unat h + 4" "unat (h + 8) = unat h + 8"
    "unat (h + 16 + sz) = unat h + 16 + unat sz" "unat (h + 16 + sz + 4) = unat h + 20 + unat sz"
    "unat (h + 16 + sz + 8) = unat h + 24 + unat sz"
    "unat (h + 16 + sz + 8 + 4) = unat h + 28 + unat sz"
    "unat (h + 16 + sz + 8 + 8) = unat h + 32 + unat sz"
    using bound n by (simp_all add: unat_word_ariths)
  have ns: "of_nat s - sz - 16 - 8 = (of_nat (s - unat sz - 24) :: u32)"
    using n by (simp add: of_nat_diff algebra_simps)
  have cond: "sz + 16 + 8 < mh_size m h"
    using bound n f(3) by (simp add: word_less_nat_alt unat_word_ariths)
  have nf: "unat (h + 16 + sz + 8 + 16 + of_nat (s - unat sz - 24)) = unat h + 16 + s"
    "unat (h + 16 + sz + 8 + 16 + of_nat (s - unat sz - 24) + 4) = unat h + 20 + s"
    using bound n by (simp_all add: unat_word_ariths del: of_nat_diff)
  let ?m7 = "set_mh_alloc (set_mh_size (set_mh_magic (set_mf_header (set_mf_cigam (set_mh_alloc
      (set_mh_size m h sz) h 1) (h + 16 + sz) MEM_CIGAM) (h + 16 + sz) h) (h + 16 + sz + 8)
      MEM_MAGIC) (h + 16 + sz + 8) (of_nat (s - unat sz - 24))) (h + 16 + sz + 8) 0"
  have eq: "h + 16 + sz + 8 = h + 24 + sz" by simp
  from sa.ins_distinct [OF ix(1) _ ix(2), of "h + 24 + sz" ?m7] ix new obtain index where
    index: "sorted_array_insert ?m7 (mh_index heap) (h + 24 + sz) = Inr index" "sa_ok index"
      "distinct (sa_list index)" "sa_max index = sa_max (mh_index heap)"
      "set (sa_list index) = insert (h + 24 + sz) (set (sa_list (mh_index heap)))"
    by (auto simp: word_unat_eq_iff)
  have sz7: "mh_size ?m7 (h + 16 + sz + 8) = of_nat (s - unat sz - 24)"
    by (simp only: heap_field_defs u) (simp add: mem_simps)
  have "set_mf_header (set_mf_cigam ?m7 (h + 16 + sz + 8 + 16 + of_nat (s - unat sz - 24)) MEM_CIGAM)
      (h + 16 + sz + 8 + 16 + of_nat (s - unat sz - 24)) (h + 16 + sz + 8)
    = carve_mem m (unat h) (unat sz) s"
    by (simp only: heap_field_defs u nf carve_mem_def) (simp add: ac_simps)
  then have "heap_carve m heap h sz =
      Inr (Ret (h + 16) (carve_mem m (unat h) (unat sz) s) (heap\<lparr>mh_index := index\<rparr>))"
    using cond index(1) sz7
    by (simp only: heap_carve_def sizeof_MemHeader_def sizeof_MemFooter_def f(2) ns Let_def eq
        if_True bindE_Inr)
  with index show ?thesis by blast
qed

lemma heap_carve_whole:
  assumes blk: "block_ok m (unat h) s al" and bound: "unat h + 24 + s < 4294967296"
    and n: "unat sz \<le> s" "s \<le> unat sz + 24" "unat sz + 24 < 4294967296"
  shows "heap_carve m heap h sz = Inr (Ret (h + 16) (m(unat h + 8 := 1)) heap)"
    "layout (m(unat h + 8 := 1)) (unat h) [(s, True)]"
proof -
  note f = block_ok_fields [OF blk bound]
  have "unat (h + 8) = unat h + 8" using bound by (simp add: unat_word_ariths)
  moreover have "\<not> sz + 16 + 8 < mh_size m h" "sz \<le> mh_size m h"
    using n f(3) by (simp_all add: word_less_nat_alt word_le_nat_alt unat_word_ariths)
  ultimately show "heap_carve m heap h sz = Inr (Ret (h + 16) (m(unat h + 8 := 1)) heap)"
    by (simp add: heap_carve_def sizeof_MemHeader_def sizeof_MemFooter_def set_mh_alloc_def
        write8_def add.assoc)
  have "get32 (m(unat h + 8 := 1)) p = get32 m p" if "unat h + 16 \<le> p" for p
    using that by (simp add: mem_simps)
  then show "layout (m(unat h + 8 := 1)) (unat h) [(s, True)]"
    using blk by (auto simp: block_ok_def Let_def mem_simps)
qed

lemma heap_inv_block:
  assumes "heap_inv m heap (xs @ (s, al) # ys)" and "unat h = unat (mh_addr heap) + span xs"
  shows "block_ok m (unat h) s al" "unat h + 24 + s \<le> 4294963200"
    "h \<in> set (sa_list (mh_index heap))"
  using assms heap_inv_index_mem [OF assms(1), of h] by (auto simp: heap_inv_def)

text \<open>Carving any block of a well-formed heap that is large enough.\<close>

lemma heap_carve_inv:
  assumes inv: "heap_inv m heap (xs @ (s, al) # ys)"
    and h: "unat h = unat (mh_addr heap) + span xs"
    and sz: "unat sz \<le> s" "unat sz + 24 < 4294967296"
    and room: "unat (sa_size (mh_index heap)) < unat (sa_max (mh_index heap))"
  shows "\<exists>m' heap' s' rest. heap_carve m heap h sz = Inr (Ret (h + 16) m' heap') \<and>
    heap_inv m' heap' (xs @ ((s', True) # rest) @ ys) \<and> unat sz \<le> s' \<and>
    span ((s', True) # rest) = 24 + s \<and> (\<forall>a. live a rest = {}) \<and>
    (\<forall>k. k < unat h \<or> unat h + 24 + s \<le> k \<longrightarrow> m' k = m k) \<and> mh_addr heap' = mh_addr heap"
proof -
  note blk = heap_inv_block [OF inv h]
  then have bound: "unat h + 24 + s < 4294967296" by simp
  have ix: "sa_ok (mh_index heap)" "distinct (sa_list (mh_index heap))"
    using inv by (auto simp: heap_inv_def)
  show ?thesis
  proof (cases "unat sz + 24 < s")
    case True
    have new: "unat (h + 24 + sz) = unat h + 24 + unat sz"
      using True bound by (simp add: unat_word_ariths)
    have "unat (h + 24 + sz) \<notin> set (addrs (unat (mh_addr heap)) (xs @ (s, al) # ys))"
      using new h True by (auto dest: addrs_bounds)
    then have notin: "h + 24 + sz \<notin> set (sa_list (mh_index heap))"
      using heap_inv_index_mem [OF inv] by blast
    from heap_carve_split [OF blk(1) bound True ix room notin] obtain index where
      carve: "heap_carve m heap h sz =
        Inr (Ret (h + 16) (carve_mem m (unat h) (unat sz) s) (heap\<lparr>mh_index := index\<rparr>))"
      and index: "sa_ok index" "distinct (sa_list index)"
        "set (sa_list index) = insert (h + 24 + sz) (set (sa_list (mh_index heap)))"
      by blast
    let ?m = "carve_mem m (unat h) (unat sz) s" and ?heap = "heap\<lparr>mh_index := index\<rparr>"
    let ?mid = "[(unat sz, True), (s - unat sz - 24, False)]"
    have "heap_inv ?m ?heap (xs @ ?mid @ ys)"
    proof (rule heap_inv_replace [where mid = "[(s, al)]"])
      show "heap_inv m heap (xs @ [(s, al)] @ ys)" using inv by simp
      show "layout ?m (unat (mh_addr heap) + span xs) ?mid"
        using carve_mem_blocks [OF blk(1) True bound] h by simp
      show "unat ` set (sa_list (mh_index ?heap))
          = set (addrs (unat (mh_addr heap)) (xs @ ?mid @ ys))"
        using inv index(3) new h True by (auto simp: heap_inv_def add_ac)
    qed (use True h carve_mem_frame index in \<open>auto simp: add.assoc\<close>)
    moreover have "?m k = m k" if "k < unat h \<or> unat h + 24 + s \<le> k" for k
      using carve_mem_frame [OF True that] .
    ultimately show ?thesis
      using carve True by (intro exI [of _ ?m] exI [of _ ?heap] exI [of _ "unat sz"]
          exI [of _ "[(s - unat sz - 24, False)]"]) auto
  next
    case False
    then have le: "s \<le> unat sz + 24" by simp
    note whole = heap_carve_whole [OF blk(1) bound sz(1) le sz(2)]
    let ?m = "m(unat h + 8 := 1)"
    have "heap_inv ?m heap (xs @ [(s, True)] @ ys)"
    proof (rule heap_inv_replace [where mid = "[(s, al)]"])
      show "heap_inv m heap (xs @ [(s, al)] @ ys)" using inv by simp
      show "layout ?m (unat (mh_addr heap) + span xs) [(s, True)]" using whole(2) h by simp
    qed (use inv h ix in \<open>auto simp: heap_inv_def\<close>)
    with whole(1) sz(1) show ?thesis
      by (intro exI [of _ ?m] exI [of _ heap] exI [of _ s] exI [of _ "[]"]) auto
  qed
qed

section \<open>Cutting a page-aligned block\<close>

definition align_mem :: "mem \<Rightarrow> nat \<Rightarrow> nat \<Rightarrow> nat \<Rightarrow> mem" where
  "align_mem m a d s =
     put32 (put32 (put32 ((put32 (put32 (put32 m (a + 20 + s) (of_nat (a + 24 + d)))
       (a + 24 + d) MEM_MAGIC) (a + 28 + d) (of_nat (s - d - 24)))(a + 32 + d := 1))
       (a + 16 + d) MEM_CIGAM) (a + 20 + d) (of_nat a)) (a + 4) (of_nat d)"

lemma align_mem_frame: "d + 24 < s \<Longrightarrow> k < a \<or> a + 24 + s \<le> k \<Longrightarrow> align_mem m a d s k = m k"
  by (auto simp: align_mem_def mem_simps)

lemma align_mem_blocks:
  assumes "block_ok m a s False" and "d + 24 < s" and "a + 24 + s < 4294967296"
  shows "layout (align_mem m a d s) a [(d, False), (s - d - 24, True)]"
proof -
  have eq: "a + 24 + d + 16 + (s - d - 24) = a + 16 + s" "a + 24 + d + 20 + (s - d - 24) = a + 20 + s"
    "a + 24 + d + 4 = a + 28 + d" "a + 24 + d + 8 = a + 32 + d"
    using assms(2) by auto
  have old: "get32 m a = MEM_MAGIC" "m (a + 8) = 0" "get32 m (a + 16 + s) = MEM_CIGAM"
    using assms(1) by (auto simp: block_ok_def)
  then have "block_ok (align_mem m a d s) a d False"
    using assms(2,3) by (simp add: block_ok_def align_mem_def mem_simps Let_def del: of_nat_add)
  moreover have "block_ok (align_mem m a d s) (a + 24 + d) (s - d - 24) True"
    unfolding block_ok_def eq
    using assms(2,3) old
    by (simp add: align_mem_def mem_simps Let_def del: of_nat_add of_nat_diff)
  ultimately show ?thesis by simp
qed

text \<open>When the page boundary leaves room for a block on either side.\<close>

lemma heap_align_cut:
  assumes blk: "block_ok m (unat h) s False" and bound: "unat h + 24 + s < 4294967296"
    and addr: "((h + 16) AND 0xfffff000) + 4096 = h + 40 + of_nat d"
    and d: "0 < d" "d + 24 < s" "unat sz \<le> s - d - 24"
    and ix: "sa_ok (mh_index heap)" "distinct (sa_list (mh_index heap))"
      "unat (sa_size (mh_index heap)) < unat (sa_max (mh_index heap))"
    and new: "h + 24 + of_nat d \<notin> set (sa_list (mh_index heap))"
  shows "\<exists>index. heap_align m heap h sz =
      Inr (Some (align_mem m (unat h) d s, heap\<lparr>mh_index := index\<rparr>, h + 24 + of_nat d)) \<and>
    sa_ok index \<and> distinct (sa_list index) \<and> sa_max index = sa_max (mh_index heap) \<and>
    unat (sa_size index) = Suc (unat (sa_size (mh_index heap))) \<and>
    set (sa_list index) = insert (h + 24 + of_nat d) (set (sa_list (mh_index heap)))"
proof -
  note f = block_ok_fields [OF blk bound]
  let ?p = "h + 24 + of_nat d" and ?e = "h + 16 + of_nat s"
  have u: "unat (?e + 4) = unat h + 20 + s" "unat ?p = unat h + 24 + d"
    "unat (?p + 4) = unat h + 28 + d" "unat (?p + 8) = unat h + 32 + d"
    "unat (h + 16 + of_nat d) = unat h + 16 + d" "unat (h + 16 + of_nat d + 4) = unat h + 20 + d"
    "unat (h + 4) = unat h + 4" "unat (h + 40 + of_nat d) = unat h + 40 + d"
    "unat ?e = unat h + 16 + s"
    using bound d by (simp_all add: unat_word_ariths)
  have w: "h + 40 + of_nat d - 16 = ?p" "?p - 8 = h + 16 + of_nat d"
    "of_nat s - (h + 40 + of_nat d) + h + 16 = (of_nat (s - d - 24) :: u32)"
    "h + 16 + of_nat d - h - 16 = (of_nat d :: u32)"
    using d by (simp_all add: of_nat_diff algebra_simps)
  have e: "?e - (h + 40 + of_nat d) = (of_nat (s - d - 24) :: u32)"
    "h + 40 + of_nat d - h = (of_nat (d + 40) :: u32)"
    using d by (simp_all add: of_nat_diff algebra_simps)
  have c: "\<not> ?e \<le> h + 40 + of_nat d" "\<not> ?e - (h + 40 + of_nat d) < sz"
    "16 * 2 + 8 < h + 40 + of_nat d - h"
    unfolding e word_less_nat_alt word_le_nat_alt u
    using bound d by (simp_all del: of_nat_add of_nat_diff)
  let ?m2 = "set_mh_magic (set_mf_header m ?e ?p) ?p MEM_MAGIC"
  let ?m7 = "set_mh_size (set_mf_header (set_mf_cigam (set_mh_alloc (set_mh_size ?m2 ?p
      (of_nat (s - d - 24))) ?p 1) (h + 16 + of_nat d) MEM_CIGAM) (h + 16 + of_nat d) h) h (of_nat d)"
  have s2: "mh_size ?m2 h = of_nat s"
    using f(2) d by (simp only: heap_field_defs u) (simp add: mem_simps)
  have m7: "?m7 = align_mem m (unat h) d s"
    by (simp only: heap_field_defs u align_mem_def) (simp add: ac_simps)
  from sa.ins_distinct [OF ix(1) _ ix(2), of ?p ?m7] ix new obtain index where
    index: "sorted_array_insert ?m7 (mh_index heap) ?p = Inr index" "sa_ok index"
      "distinct (sa_list index)" "sa_max index = sa_max (mh_index heap)"
      "set (sa_list index) = insert ?p (set (sa_list (mh_index heap)))"
      "length (sa_list index) = Suc (length (sa_list (mh_index heap)))"
    by (auto simp: word_unat_eq_iff)
  have "heap_align m heap h sz =
      Inr (Some (align_mem m (unat h) d s, heap\<lparr>mh_index := index\<rparr>, ?p))"
    using c f(5) index(1)
    by (simp only: heap_align_def sizeof_MemHeader_def sizeof_MemFooter_def PAGE_SIZE_def addr f(2)
        s2 w Let_def if_False if_True assertE_True bindE_Inr m7) simp
  with index ix show ?thesis by auto
qed

text \<open>
  Which free blocks can serve a request: \<open>a\<close> is the address of the header and \<open>s\<close> the size of the
  block. A page-aligned request takes a block whose payload is aligned already, or cuts the block at
  the next page boundary, which must leave more than 40 bytes in front for the split.
\<close>

definition page_fits :: "nat \<Rightarrow> nat \<Rightarrow> nat \<Rightarrow> bool" where
  "page_fits a s n \<longleftrightarrow>
     (let b = (a + 16) div 4096 * 4096 + 4096
      in b < a + 16 + s \<and> n \<le> a + 16 + s - b \<and> 40 < b - a)"

definition block_fits :: "bool \<Rightarrow> nat \<Rightarrow> nat \<Rightarrow> nat \<Rightarrow> bool" where
  "block_fits aligned a s n \<longleftrightarrow>
     (if aligned \<and> (a + 16) mod 4096 \<noteq> 0 then page_fits a s n else n \<le> s)"

lemma heap_align_cases:
  assumes inv: "heap_inv m heap (xs @ (s, False) # ys)"
    and h: "unat h = unat (mh_addr heap) + span xs"
    and room: "unat (sa_size (mh_index heap)) < unat (sa_max (mh_index heap))"
  shows "heap_align m heap h sz = Inr None \<and> \<not> page_fits (unat h) s (unat sz) \<or>
    (\<exists>d m' heap'. heap_align m heap h sz = Inr (Some (m', heap', h + 24 + of_nat d)) \<and>
       unat (h + 24 + of_nat d) = unat h + 24 + d \<and> (unat h + 40 + d) mod 4096 = 0 \<and>
       d + 24 < s \<and> unat sz \<le> s - d - 24 \<and>
       heap_inv m' heap' (xs @ [(d, False), (s - d - 24, True)] @ ys) \<and>
       (\<forall>k. k < unat h \<or> unat h + 24 + s \<le> k \<longrightarrow> m' k = m k) \<and>
       mh_addr heap' = mh_addr heap \<and> mh_len heap' = mh_len heap \<and>
       sa_max (mh_index heap') = sa_max (mh_index heap) \<and>
       unat (sa_size (mh_index heap')) = Suc (unat (sa_size (mh_index heap))))"
proof -
  note blk = heap_inv_block [OF inv h]
  note f = block_ok_fields [OF blk(1)]
  let ?x = "unat h + 16" and ?addr = "((h + 16) AND 0xfffff000) + 4096 :: u32"
  define A where "A = ?x div 4096 * 4096 + 4096"
  have "?x = ?x div 4096 * 4096 + ?x mod 4096" "?x mod 4096 < 4096" by simp_all
  then have A: "?x < A" "A \<le> ?x + 4096" "A mod 4096 = 0"
    unfolding A_def by (linarith, linarith, simp)
  have x: "unat (h + 16) = ?x" "unat (h + 16 + of_nat s) = unat h + 16 + s"
    using blk(2) by (simp_all add: unat_word_ariths)
  have addr: "unat ?addr = A"
    using A(2) blk(2) unfolding A_def
    by (subst unat_plus_no_wrap) (simp_all add: unat_and_page_mask x)
  show ?thesis
  proof (cases "A < unat h + 16 + s \<and> unat sz \<le> unat h + 16 + s - A \<and> 40 < A - unat h")
    case False
    have "unat (h + 16 + of_nat s - ?addr) = unat h + 16 + s - A" if "A < unat h + 16 + s"
      using that addr x by (subst unat_minus_no_wrap) simp_all
    moreover have "unat (?addr - h) = A - unat h"
      using A(1) addr by (subst unat_minus_no_wrap) simp_all
    ultimately have "heap_align m heap h sz = Inr None"
      using False f(2) blk(2) x addr
      by (auto simp: heap_align_def sizeof_MemHeader_def sizeof_MemFooter_def PAGE_SIZE_def Let_def
          word_less_nat_alt word_le_nat_alt)
    then show ?thesis using False by (simp add: page_fits_def Let_def A_def)
  next
    case True
    define d where "d = A - unat h - 40"
    have d: "A = unat h + 40 + d" "0 < d" "d + 24 < s" "unat sz \<le> s - d - 24"
      using True unfolding d_def by auto
    have "unat (h + 40 + of_nat d) = A"
      using d(1,3) blk(2) by (simp add: unat_word_ariths)
    with addr have addr': "?addr = h + 40 + of_nat d"
      by (simp only: word_unat_eq_iff)
    have up: "unat (h + 24 + of_nat d) = unat h + 24 + d"
      using d blk(2) by (simp add: unat_word_ariths)
    have "unat (h + 24 + of_nat d) \<notin> set (addrs (unat (mh_addr heap)) (xs @ (s, False) # ys))"
      using up h d by (auto dest: addrs_bounds)
    then have new: "h + 24 + of_nat d \<notin> set (sa_list (mh_index heap))"
      using heap_inv_index_mem [OF inv] by blast
    have ix: "sa_ok (mh_index heap)" "distinct (sa_list (mh_index heap))"
      using inv by (auto simp: heap_inv_def)
    have bound: "unat h + 24 + s < 4294967296" using blk(2) by simp
    from heap_align_cut [OF blk(1) bound addr' d(2,3,4) ix room new] obtain index where
      cut: "heap_align m heap h sz =
        Inr (Some (align_mem m (unat h) d s, heap\<lparr>mh_index := index\<rparr>, h + 24 + of_nat d))"
      and index: "sa_ok index" "distinct (sa_list index)" "sa_max index = sa_max (mh_index heap)"
        "unat (sa_size index) = Suc (unat (sa_size (mh_index heap)))"
        "set (sa_list index) = insert (h + 24 + of_nat d) (set (sa_list (mh_index heap)))"
      by blast
    let ?m = "align_mem m (unat h) d s" and ?heap = "heap\<lparr>mh_index := index\<rparr>"
    let ?mid = "[(d, False), (s - d - 24, True)]"
    have "heap_inv ?m ?heap (xs @ ?mid @ ys)"
    proof (rule heap_inv_replace [where mid = "[(s, False)]"])
      show "heap_inv m heap (xs @ [(s, False)] @ ys)" using inv by simp
      show "layout ?m (unat (mh_addr heap) + span xs) ?mid"
        using align_mem_blocks [OF blk(1) d(3) bound] h by simp
      show "unat ` set (sa_list (mh_index ?heap))
          = set (addrs (unat (mh_addr heap)) (xs @ ?mid @ ys))"
        using inv index(5) up h d(3) by (auto simp: heap_inv_def add_ac)
    qed (use d h align_mem_frame index in \<open>auto simp: add.assoc\<close>)
    moreover have "?m k = m k" if "k < unat h \<or> unat h + 24 + s \<le> k" for k
      using align_mem_frame [OF d(3) that] .
    ultimately show ?thesis
      using cut up A(3) d index by (intro disjI2 exI [of _ d] exI [of _ ?m] exI [of _ ?heap]) auto
  qed
qed

section \<open>Allocation\<close>

text \<open>
  What a successful allocation means to the caller: the heap stays well formed, exactly one
  allocation of at least the requested size appears, no byte of another live allocation and no
  byte outside the heap region changes, and an aligned request is page aligned.
\<close>

definition alloc_good ::
  "mem \<Rightarrow> MemHeap \<Rightarrow> block list \<Rightarrow> u32 \<Rightarrow> bool \<Rightarrow> u32 \<Rightarrow> mem \<Rightarrow> MemHeap \<Rightarrow> bool" where
  "alloc_good m heap bs sz aligned p m' heap' \<longleftrightarrow>
     (\<exists>bs' s. heap_inv m' heap' bs' \<and> unat sz \<le> s \<and>
        (unat p, s) \<notin> live (unat (mh_addr heap)) bs \<and>
        live (unat (mh_addr heap)) bs' = insert (unat p, s) (live (unat (mh_addr heap)) bs)) \<and>
     (aligned \<longrightarrow> unat p mod 4096 = 0) \<and> p \<noteq> 0 \<and>
     (\<forall>q t k. (q, t) \<in> live (unat (mh_addr heap)) bs \<longrightarrow> k < t \<longrightarrow> m' (q + k) = m (q + k)) \<and>
     (\<forall>k. k < unat (mh_addr heap) \<or> unat (mh_addr heap) + unat (mh_len heap) \<le> k \<longrightarrow> m' k = m k) \<and>
     mh_addr heap' = mh_addr heap \<and> mh_len heap' = mh_len heap"

lemma heap_carve_good:
  assumes inv: "heap_inv m0 heap0 (xs @ (s, False) # ys)"
    and h0: "unat h0 = unat (mh_addr heap0) + span xs"
    and inv1: "heap_inv m heap (xs @ pre @ (s1, al) # ys)"
    and heap: "mh_addr heap = mh_addr heap0" "mh_len heap = mh_len heap0"
    and frame: "\<forall>k. k < unat h0 \<or> unat h0 + 24 + s \<le> k \<longrightarrow> m k = m0 k"
    and pre: "span pre + 24 + s1 = 24 + s" "\<forall>a. live a pre = {}"
    and h: "unat h = unat h0 + span pre"
    and sz: "unat sz \<le> s1" "unat sz + 24 < 4294967296"
    and room: "unat (sa_size (mh_index heap)) < unat (sa_max (mh_index heap))"
    and al: "aligned \<longrightarrow> (unat h + 16) mod 4096 = 0"
  shows "\<exists>p m' heap'. heap_carve m heap h sz = Inr (Ret p m' heap') \<and>
    alloc_good m0 heap0 (xs @ (s, False) # ys) sz aligned p m' heap'"
proof -
  let ?A = "unat (mh_addr heap0)"
  have h': "unat h = unat (mh_addr heap) + span (xs @ pre)" using h h0 heap by simp
  from heap_carve_inv [of m heap "xs @ pre" s1 al ys h sz] inv1 h' sz room obtain m' heap' s' rest
    where c: "heap_carve m heap h sz = Inr (Ret (h + 16) m' heap')"
      "heap_inv m' heap' ((xs @ pre) @ ((s', True) # rest) @ ys)" "unat sz \<le> s'"
      "span ((s', True) # rest) = 24 + s1" "\<forall>a. live a rest = {}"
      "\<forall>k. k < unat h \<or> unat h + 24 + s1 \<le> k \<longrightarrow> m' k = m k" "mh_addr heap' = mh_addr heap"
    by auto
  have up: "unat (h + 16) = unat h + 16" "h + 16 \<noteq> 0"
  proof -
    have "unat h + 16 < 4294967296"
      using heap_inv_block(2) [of m heap "xs @ pre" s1 al ys h] inv1 h' by simp
    then show "unat (h + 16) = unat h + 16" by (simp add: unat_word_ariths)
    then show "h + 16 \<noteq> 0" by (metis add_is_0 unsigned_0 zero_neq_numeral)
  qed
  have fr: "m' k = m0 k" if "k < unat h0 \<or> unat h0 + 24 + s \<le> k" for k
    using c(6) frame that h pre(1) by auto
  have l: "live ?A (xs @ (s, False) # ys) = live ?A xs \<union> live (?A + span xs + span [(s, False)]) ys"
    by (simp add: add.assoc)
  have l': "live ?A ((xs @ pre) @ ((s', True) # rest) @ ys)
      = insert (unat h + 16, s') (live ?A xs \<union> live (?A + span xs + (24 + s)) ys)"
    using pre c(4,5) h h0 by (auto simp: add_ac)
  have notin: "(unat h + 16, s') \<notin> live ?A (xs @ (s, False) # ys)"
    using h h0 pre(1) by (auto dest: live_bounds)
  have len: "mh_len heap' = mh_len heap0"
    using c(2,4) inv inv1 heap pre(1) by (auto simp: heap_inv_def word_unat_eq_iff)
  have "m' (q + k) = m0 (q + k)" if "(q, t) \<in> live ?A (xs @ (s, False) # ys)" "k < t" for q t k
    by (rule replace_keeps_payload [of ?A xs "[(s, False)]" m' m0 q t ys])
      (use fr h0 that in \<open>auto simp: add.assoc\<close>)
  moreover have "m' k = m0 k" if "k < ?A \<or> ?A + unat (mh_len heap0) \<le> k" for k
    using that h0 inv by (intro fr) (auto simp: heap_inv_def)
  moreover have "\<exists>bs' s''. heap_inv m' heap' bs' \<and> unat sz \<le> s'' \<and>
      (unat (h + 16), s'') \<notin> live ?A (xs @ (s, False) # ys) \<and>
      live ?A bs' = insert (unat (h + 16), s'') (live ?A (xs @ (s, False) # ys))"
    using c(2,3) l l' notin up(1)
    by (intro exI [of _ "(xs @ pre) @ ((s', True) # rest) @ ys"] exI [of _ s']) auto
  ultimately show ?thesis
    using c(1,7) heap len up al unfolding alloc_good_def
    by (intro exI [of _ "h + 16"] exI [of _ m'] exI [of _ heap']) auto
qed

lemma heap_alloc_try_spec:
  assumes inv: "heap_inv m heap (xs @ (s, al) # ys)"
    and h: "unat h = unat (mh_addr heap) + span xs"
    and sz: "unat sz + 24 < 4294967296"
    and room: "Suc (unat (sa_size (mh_index heap))) < unat (sa_max (mh_index heap))"
  shows "heap_alloc_try m heap sz aligned h = Inr (Next m heap) \<and>
      (al \<or> \<not> block_fits aligned (unat h) s (unat sz)) \<or>
    (\<exists>p m' heap'. heap_alloc_try m heap sz aligned h = Inr (Ret p m' heap') \<and>
       alloc_good m heap (xs @ (s, al) # ys) sz aligned p m' heap')"
proof -
  note blk = heap_inv_block [OF inv h]
  have bound: "unat h + 24 + s < 4294967296" using blk(2) by simp
  note f = block_ok_fields [OF blk(1) bound]
  have page: "(h + 16) AND (PAGE_SIZE - 1) = 0 \<longleftrightarrow> (unat h + 16) mod 4096 = 0"
  proof -
    have "unat (h + 16) = unat h + 16" using bound by (simp add: unat_word_ariths)
    moreover have "(h + 16) AND (PAGE_SIZE - 1) = take_bit 12 (h + 16)"
      by (simp add: PAGE_SIZE_def take_bit_eq_mask mask_numeral)
    ultimately show ?thesis
      by (simp add: word_unat_eq_iff take_bit_eq_mod unat_mod)
  qed
  consider "al" | "\<not> al" "aligned" "(unat h + 16) mod 4096 \<noteq> 0" | "\<not> al" "s < unat sz"
      "aligned \<longrightarrow> (unat h + 16) mod 4096 = 0"
    | "\<not> al" "unat sz \<le> s" "aligned \<longrightarrow> (unat h + 16) mod 4096 = 0"
    by fastforce
  then show ?thesis
  proof cases
    case 1
    then show ?thesis using f by (simp add: heap_alloc_try_def)
  next
    case 2
    then have inv': "heap_inv m heap (xs @ (s, False) # ys)" using inv by simp
    have room': "unat (sa_size (mh_index heap)) < unat (sa_max (mh_index heap))" using room by simp
    have step: "heap_alloc_try m heap sz aligned h = bindE (heap_align m heap h sz) (\<lambda>r.
        case r of None \<Rightarrow> Inr (Next m heap)
        | Some (m', heap', header') \<Rightarrow> heap_carve m' heap' header' sz)"
      using 2 f page by (simp add: heap_alloc_try_def sizeof_MemHeader_def)
    from heap_align_cases [OF inv' h room', of sz] show ?thesis
    proof
      assume "heap_align m heap h sz = Inr None \<and> \<not> page_fits (unat h) s (unat sz)"
      then show ?thesis using step 2 by (simp add: block_fits_def)
    next
      assume "\<exists>d m' heap'. heap_align m heap h sz = Inr (Some (m', heap', h + 24 + of_nat d)) \<and>
       unat (h + 24 + of_nat d) = unat h + 24 + d \<and> (unat h + 40 + d) mod 4096 = 0 \<and>
       d + 24 < s \<and> unat sz \<le> s - d - 24 \<and>
       heap_inv m' heap' (xs @ [(d, False), (s - d - 24, True)] @ ys) \<and>
       (\<forall>k. k < unat h \<or> unat h + 24 + s \<le> k \<longrightarrow> m' k = m k) \<and>
       mh_addr heap' = mh_addr heap \<and> mh_len heap' = mh_len heap \<and>
       sa_max (mh_index heap') = sa_max (mh_index heap) \<and>
       unat (sa_size (mh_index heap')) = Suc (unat (sa_size (mh_index heap)))"
      then obtain d m' heap' where
        a: "heap_align m heap h sz = Inr (Some (m', heap', h + 24 + of_nat d))"
          "unat (h + 24 + of_nat d) = unat h + 24 + d" "(unat h + 40 + d) mod 4096 = 0"
          "d + 24 < s" "unat sz \<le> s - d - 24"
          "heap_inv m' heap' (xs @ [(d, False)] @ (s - d - 24, True) # ys)"
          "\<forall>k. k < unat h \<or> unat h + 24 + s \<le> k \<longrightarrow> m' k = m k"
          "mh_addr heap' = mh_addr heap" "mh_len heap' = mh_len heap"
          "sa_max (mh_index heap') = sa_max (mh_index heap)"
          "unat (sa_size (mh_index heap')) = Suc (unat (sa_size (mh_index heap)))"
        by auto
      have "\<exists>p m'' heap''. heap_carve m' heap' (h + 24 + of_nat d) sz = Inr (Ret p m'' heap'') \<and>
          alloc_good m heap (xs @ (s, False) # ys) sz aligned p m'' heap''"
        by (rule heap_carve_good [OF inv' h a(6,8,9,7) _ _ _ a(5) sz])
          (use a room in \<open>auto simp: add_ac\<close>)
      then show ?thesis using step a(1) 2(1) by auto
    qed
  next
    case 3
    then have "\<not> sz + 16 + 8 < mh_size m h" "\<not> sz \<le> mh_size m h"
      using f(3) sz by (auto simp: word_less_nat_alt word_le_nat_alt unat_word_ariths)
    with 3 f page show ?thesis
      by (auto simp: heap_alloc_try_def heap_carve_def sizeof_MemHeader_def sizeof_MemFooter_def
          add.assoc block_fits_def)
  next
    case 4
    then have inv': "heap_inv m heap (xs @ [] @ (s, False) # ys)" using inv by simp
    have "\<exists>p m' heap'. heap_carve m heap h sz = Inr (Ret p m' heap') \<and>
        alloc_good m heap (xs @ (s, False) # ys) sz aligned p m' heap'"
      by (rule heap_carve_good [OF _ h inv' _ _ _ _ _ _ 4(2) sz])
        (use 4 inv room in \<open>auto simp: add_ac\<close>)
    then show ?thesis
      using 4 f page by (auto simp: heap_alloc_try_def sizeof_MemHeader_def)
  qed
qed

text \<open>The search loop: it leaves the state alone until it succeeds, and a request fails
  only when no free block fits.\<close>

definition unfit :: "MemHeap \<Rightarrow> block list \<Rightarrow> u32 \<Rightarrow> bool \<Rightarrow> u32 \<Rightarrow> bool" where
  "unfit heap bs sz aligned e \<longleftrightarrow> (\<forall>xs s al ys. bs = xs @ (s, al) # ys \<longrightarrow>
     unat e = unat (mh_addr heap) + span xs \<longrightarrow> al \<or> \<not> block_fits aligned (unat e) s (unat sz))"

lemma heap_alloc_loop_spec:
  assumes inv: "heap_inv m heap bs" and sz: "unat sz + 24 < 4294967296"
    and room: "Suc (unat (sa_size (mh_index heap))) < unat (sa_max (mh_index heap))"
  shows "heap_alloc_loop m heap sz aligned i = Inr (0, m, heap) \<and>
      (\<forall>e \<in> set (drop (unat i) (sa_list (mh_index heap))). unfit heap bs sz aligned e) \<or>
    (\<exists>p m' heap'. heap_alloc_loop m heap sz aligned i = Inr (p, m', heap') \<and>
       alloc_good m heap bs sz aligned p m' heap')"
  using assms
proof (induction m heap sz aligned i rule: heap_alloc_loop.induct)
  case (1 m heap sz aligned i)
  note simps = heap_alloc_loop.simps [of m heap sz aligned i]
  let ?xs = "sa_list (mh_index heap)"
  have ok: "sa_ok (mh_index heap)" using "1.prems"(1) by (simp add: heap_inv_def)
  show ?case
  proof (cases "i < sa_size (mh_index heap)")
    case False
    then have "drop (unat i) ?xs = []" using ok by (simp add: word_less_nat_alt)
    with False show ?thesis by (simp add: simps)
  next
    case True
    then have lt: "unat i < length ?xs" using ok by (simp add: word_less_nat_alt)
    let ?h = "?xs ! unat i"
    have look: "sorted_array_lookup (Some (mh_index heap)) i = Inr ?h"
      by (rule sorted_array_lookup_refines [OF ok True])
    have "?h \<in> set ?xs" using lt by simp
    then have "unat ?h \<in> set (addrs (unat (mh_addr heap)) bs)"
      using heap_inv_index_mem [OF "1.prems"(1)] by simp
    then obtain xs s al ys where bs: "bs = xs @ (s, al) # ys"
      and h: "unat ?h = unat (mh_addr heap) + span xs"
      by (rule addrs_split)
    have inv: "heap_inv m heap (xs @ (s, al) # ys)" using "1.prems"(1) bs by simp
    have uniq: "s' = s \<and> al' = al" if "bs = xs' @ (s', al') # ys'"
      "unat ?h = unat (mh_addr heap) + span xs'" for xs' s' al' ys'
      using span_eq_split [of xs s al ys xs' s' al' ys'] that bs h by simp
    from heap_alloc_try_spec [OF inv h "1.prems"(2,3), of aligned] show ?thesis
    proof
      assume next_step: "heap_alloc_try m heap sz aligned ?h = Inr (Next m heap) \<and>
        (al \<or> \<not> block_fits aligned (unat ?h) s (unat sz))"
      have drop: "drop (unat i) ?xs = ?h # drop (unat (i + 1)) ?xs"
        using Cons_nth_drop_Suc [OF lt] by (simp add: unat_inc [OF True])
      have eq: "heap_alloc_loop m heap sz aligned i = heap_alloc_loop m heap sz aligned (i + 1)"
        using True look next_step by (simp add: simps)
      from "1.IH" [OF True look _ refl "1.prems"] next_step
      have IH: "heap_alloc_loop m heap sz aligned (i + 1) = Inr (0, m, heap) \<and>
          (\<forall>e \<in> set (drop (unat (i + 1)) ?xs). unfit heap bs sz aligned e) \<or>
        (\<exists>p m' heap'. heap_alloc_loop m heap sz aligned (i + 1) = Inr (p, m', heap') \<and>
           alloc_good m heap bs sz aligned p m' heap')"
        by blast
      have "unfit heap bs sz aligned ?h"
        unfolding unfit_def using uniq next_step by blast
      then show ?thesis unfolding eq drop using IH by auto
    next
      assume "\<exists>p m' heap'. heap_alloc_try m heap sz aligned ?h = Inr (Ret p m' heap') \<and>
        alloc_good m heap (xs @ (s, al) # ys) sz aligned p m' heap'"
      then show ?thesis using True look bs by (auto simp: simps)
    qed
  qed
qed

lemma heap_alloc_spec:
  assumes inv: "heap_inv m heap bs" and sz: "unat sz + 24 < 4294967296"
    and room: "Suc (unat (sa_size (mh_index heap))) < unat (sa_max (mh_index heap))"
  shows "heap_alloc m heap sz aligned = Inr (0, m, heap) \<and>
      (\<forall>(a, s) \<in> idle (unat (mh_addr heap)) bs. \<not> block_fits aligned a s (unat sz)) \<or>
    (\<exists>p m' heap'. heap_alloc m heap sz aligned = Inr (p, m', heap') \<and>
       alloc_good m heap bs sz aligned p m' heap')"
proof -
  have "\<not> block_fits aligned a s (unat sz)"
    if none: "\<forall>e \<in> set (drop (unat (0 :: u32)) (sa_list (mh_index heap))). unfit heap bs sz aligned e"
      and mem: "(a, s) \<in> idle (unat (mh_addr heap)) bs" for a s
  proof -
    from mem obtain xs ys where bs: "bs = xs @ (s, False) # ys" and a: "a = unat (mh_addr heap) + span xs"
      by (rule idle_split)
    have "a \<in> set (addrs (unat (mh_addr heap)) bs)" using bs a by simp
    then have "a \<in> unat ` set (sa_list (mh_index heap))" using inv by (simp add: heap_inv_def)
    then obtain e where e: "e \<in> set (sa_list (mh_index heap))" "unat e = a" by auto
    with none have "unfit heap bs sz aligned e" by simp
    with e(2) a bs show ?thesis unfolding unfit_def by blast
  qed
  then show ?thesis
    using heap_alloc_loop_spec [OF assms, of aligned 0] unfolding heap_alloc_def by blast
qed

section \<open>Release\<close>

lemma heap_index_find_spec:
  assumes "sa_ok index" and "h \<in> set (drop (unat i) (sa_list index))"
  shows "\<exists>j. heap_index_find index h i = Inr (Some j) \<and> j < sa_size index \<and> sa_list index ! unat j = h"
  using assms
proof (induction index h i rule: heap_index_find.induct)
  case (1 index h i)
  note simps = heap_index_find.simps [of index h i]
  have lt: "unat i < length (sa_list index)"
    using "1.prems"(2) by (cases "unat i < length (sa_list index)") simp_all
  then have True: "i < sa_size index" using "1.prems"(1) by (simp add: word_less_nat_alt)
  have look: "sorted_array_lookup (Some index) i = Inr (sa_list index ! unat i)"
    by (rule sorted_array_lookup_refines [OF "1.prems"(1) True])
  show ?case
  proof (cases "sa_list index ! unat i = h")
    case eq: True
    then show ?thesis using True look by (simp add: simps)
  next
    case False
    then have "h \<in> set (drop (unat (i + 1)) (sa_list index))"
      using "1.prems"(2) Cons_nth_drop_Suc [OF lt] by (metis set_ConsD unat_inc [OF True])
    from "1.IH" [OF True look False "1.prems"(1) this] show ?thesis
      using True look False by (simp add: simps)
  qed
qed

text \<open>One step of a release, seen from outside: some blocks are merged, no live allocation changes.\<close>

definition merge_step :: "mem \<Rightarrow> MemHeap \<Rightarrow> block list \<Rightarrow> mem \<Rightarrow> MemHeap \<Rightarrow> block list \<Rightarrow> bool" where
  "merge_step m heap bs m' heap' bs' \<longleftrightarrow>
     heap_inv m' heap' bs' \<and> live (unat (mh_addr heap)) bs' = live (unat (mh_addr heap)) bs \<and>
     (\<forall>q t k. (q, t) \<in> live (unat (mh_addr heap)) bs \<longrightarrow> k < t \<longrightarrow> m' (q + k) = m (q + k)) \<and>
     (\<forall>k. k < unat (mh_addr heap) \<or> unat (mh_addr heap) + unat (mh_len heap) \<le> k \<longrightarrow> m' k = m k) \<and>
     mh_addr heap' = mh_addr heap \<and> mh_len heap' = mh_len heap \<and>
     sa_size (mh_index heap') < sa_max (mh_index heap')"

lemma merge_step_refl:
  "heap_inv m heap bs \<Longrightarrow> sa_size (mh_index heap) < sa_max (mh_index heap) \<Longrightarrow>
    merge_step m heap bs m heap bs"
  by (simp add: merge_step_def)

lemma merge_step_trans:
  "merge_step m heap bs m1 heap1 bs1 \<Longrightarrow> merge_step m1 heap1 bs1 m2 heap2 bs2 \<Longrightarrow>
    merge_step m heap bs m2 heap2 bs2"
  by (auto simp: merge_step_def)

lemma addrs_merge:
  "set (addrs a (xs @ [(s, False), (t, False)] @ ys)) - {a + span xs + 24 + s} =
    set (addrs a (xs @ [(s + 24 + t, False)] @ ys))"
proof -
  have 1: "a + span xs + 24 + s \<notin> set (addrs a xs)"
    using addrs_bounds [of "a + span xs + 24 + s" a xs] by auto
  have 2: "a + span xs + 24 + s \<notin> set (addrs (a + span xs + 24 + s + 24 + t) ys)"
    using addrs_bounds [of "a + span xs + 24 + s" "a + span xs + 24 + s + 24 + t" ys] by auto
  have 3: "a + span xs + 24 + (s + 24 + t) = a + span xs + 24 + s + 24 + t" by simp
  show ?thesis
    unfolding addrs_append append_Cons append_Nil addrs.simps 3 set_append list.set using 1 2 by auto
qed

text \<open>Two adjacent blocks, of which the second is free and the first stays free, become one.\<close>

lemma merge_stepI:
  assumes inv: "heap_inv m heap (xs @ [(s, False), (t, False)] @ ys)"
    and blk: "block_ok m' (unat (mh_addr heap) + span xs) (s + 24 + t) False"
    and frame: "\<And>k. k < unat (mh_addr heap) + span xs \<or>
      unat (mh_addr heap) + span xs + 48 + s + t \<le> k \<Longrightarrow> m' k = m k"
    and room: "sa_size (mh_index heap) < sa_max (mh_index heap)"
    and i: "i < sa_size (mh_index heap)"
      "unat (sa_list (mh_index heap) ! unat i) = unat (mh_addr heap) + span xs + 24 + s"
  shows "\<exists>index. sorted_array_remove (mh_index heap) i = Inr index \<and>
    merge_step m heap (xs @ [(s, False), (t, False)] @ ys) m' (heap\<lparr>mh_index := index\<rparr>)
      (xs @ (s + 24 + t, False) # ys)"
proof -
  let ?A = "unat (mh_addr heap)" and ?L = "sa_list (mh_index heap)"
  have ok: "sa_ok (mh_index heap)" "distinct ?L"
    "unat ` set ?L = set (addrs ?A (xs @ [(s, False), (t, False)] @ ys))"
    using inv by (auto simp: heap_inv_def)
  from sa.del_distinct [OF ok(1) _ _ ok(2), of i] room i(1) ok(1) obtain index where
    index: "sorted_array_remove (mh_index heap) i = Inr index" "sa_ok index" "distinct (sa_list index)"
      "set (sa_list index) = set ?L - {?L ! unat i}" "sa_max index = sa_max (mh_index heap)"
      "Suc (length (sa_list index)) = length ?L"
    by (auto simp: word_less_nat_alt word_unat_eq_iff)
  have "unat ` (set ?L - {?L ! unat i}) = unat ` set ?L - {?A + span xs + 24 + s}"
    using i(2) by (subst image_set_diff) (auto intro: injI simp: word_unat_eq_iff)
  then have "unat ` set (sa_list index) =
      set (addrs ?A (xs @ [(s, False), (t, False)] @ ys)) - {?A + span xs + 24 + s}"
    unfolding index(4) ok(3) .
  also have "\<dots> = set (addrs ?A (xs @ [(s + 24 + t, False)] @ ys))"
    by (rule addrs_merge)
  finally have set': "unat ` set (sa_list index) = set (addrs ?A (xs @ [(s + 24 + t, False)] @ ys))" .
  have "heap_inv m' (heap\<lparr>mh_index := index\<rparr>) (xs @ [(s + 24 + t, False)] @ ys)"
    by (rule heap_inv_replace [OF inv]) (use blk frame index set' in \<open>auto simp: add_ac\<close>)
  moreover have "m' (q + k) = m (q + k)"
    if "(q, n) \<in> live ?A (xs @ [(s, False), (t, False)] @ ys)" "k < n" for q n k
    by (rule replace_keeps_payload [of ?A xs "[(s, False), (t, False)]" m' m q n ys])
      (use frame that in \<open>auto simp: add_ac\<close>)
  moreover have "m' k = m k" if "k < ?A \<or> ?A + unat (mh_len heap) \<le> k" for k
    using that inv by (intro frame) (auto simp: heap_inv_def)
  moreover have "sa_size index < sa_max index"
    using index ok room by (simp add: word_less_nat_alt)
  ultimately show ?thesis
    using index(1) by (auto simp: merge_step_def add_ac)
qed

end
