(* ===== verification/Heap_Free.thy ===== *)
theory Heap_Free
  imports Heap
begin

unbundle bit_operations_syntax

text \<open>
  The second half of the heap proofs: releasing a block and merging it with its free neighbours.
\<close>

section \<open>Merging with the block on the left\<close>

definition left_mem :: "mem \<Rightarrow> nat \<Rightarrow> nat \<Rightarrow> nat \<Rightarrow> mem" where
  "left_mem m b t s = put32 (put32 m (b + 4) (of_nat (t + 24 + s))) (b + 24 + t) 0"

lemma left_mem_block:
  assumes "block_ok m b t False" and "block_ok m (b + 24 + t) s False"
  shows "block_ok (left_mem m b t s) b (t + 24 + s) False"
proof -
  let ?p = "unat (get32 m (b + 24 + t + 20 + s))"
  have eq: "b + 16 + (t + 24 + s) = b + 24 + t + 16 + s" "b + 20 + (t + 24 + s) = b + 24 + t + 20 + s"
    by auto
  have head: "get32 m b = MEM_MAGIC" "m (b + 8) = 0" "get32 m (b + 24 + t + 16 + s) = MEM_CIGAM"
    using assms by (auto simp: block_ok_def)
  have f: "get32 (left_mem m b t s) b = MEM_MAGIC" "get32 (left_mem m b t s) (b + 4) = of_nat (t + 24 + s)"
    "left_mem m b t s (b + 8) = 0" "get32 (left_mem m b t s) (b + 24 + t + 16 + s) = MEM_CIGAM"
    "get32 (left_mem m b t s) (b + 24 + t + 20 + s) = get32 m (b + 24 + t + 20 + s)"
    "get32 (left_mem m b t s) (b + 24 + t) = 0"
    using head by (simp_all add: left_mem_def mem_simps)
  have stale: "get32 (left_mem m b t s) p = get32 m p" if "b + 24 + t + 16 \<le> p" for p
    using that by (simp add: left_mem_def mem_simps)
  have "?p = b + 24 + t \<or> b + 24 + t + 16 \<le> ?p \<and> ?p + 16 \<le> b + 24 + t + 16 + s \<and> get32 m ?p \<noteq> MEM_MAGIC"
    using assms(2) by (simp add: block_ok_def Let_def)
  then have "b + 16 \<le> ?p \<and> ?p + 16 \<le> b + 24 + t + 16 + s \<and> get32 (left_mem m b t s) ?p \<noteq> MEM_MAGIC"
    using f(6) stale [of ?p] by (auto simp: MEM_MAGIC_def)
  then show ?thesis
    unfolding block_ok_def eq Let_def f by simp
qed

lemma left_mem_frame:
  "k < b \<or> b + 48 + t + s \<le> k \<Longrightarrow> left_mem m b t s k = m k"
  by (auto simp: left_mem_def mem_simps)

lemma heap_unify_left_merges:
  assumes b: "block_ok m (unat p) t False" and a: "block_ok m (unat h) s False"
    and h: "unat h = unat p + 24 + t" "unat h + 24 + s < 4294967296"
    and p: "mf_header m (h - 8) = p" and addr: "mh_addr heap \<le> h - 8"
    and rm: "sorted_array_remove (mh_index heap) i = Inr index"
  shows "heap_unify_left m heap h i =
    Inr (left_mem m (unat p) t s, heap\<lparr>mh_index := index\<rparr>, p)"
proof -
  have bound: "unat p + 24 + t < 4294967296" using h by simp
  note fb = block_ok_fields [OF b bound] and fa = block_ok_fields [OF a h(2)]
  have h': "h = p + 24 + of_nat t"
    using h(1) bound by (simp add: word_unat_eq_iff unat_word_ariths)
  then have eq: "h - 8 = p + 16 + of_nat t" by simp
  have u: "unat (p + 4) = unat p + 4" "unat (h + 0) = unat p + 24 + t"
    using bound h(1) by (simp_all add: unat_word_ariths)
  have sum: "of_nat t + (of_nat s + 16 + 8) = (of_nat (t + 24 + s) :: u32)" by simp
  have "set_mh_magic (set_mh_size m p (of_nat (t + 24 + s))) h 0 = left_mem m (unat p) t s"
    using u(2) by (simp add: heap_field_defs u(1) left_mem_def h(1) del: of_nat_add)
  moreover have "mf_cigam m (h - 8) = MEM_CIGAM" unfolding eq by (rule fb(5))
  ultimately show ?thesis
    unfolding heap_unify_left_def sizeof_MemHeader_def sizeof_MemFooter_def
    using addr p rm fb(1,2,4) fa(2) sum by (simp add: Let_def del: of_nat_add)
qed

lemma heap_unify_left_spec:
  assumes inv: "heap_inv m heap (xs @ (s, False) # ys)"
    and h: "unat h = unat (mh_addr heap) + span xs"
    and room: "sa_size (mh_index heap) < sa_max (mh_index heap)"
    and i: "i < sa_size (mh_index heap)" "sa_list (mh_index heap) ! unat i = h"
  shows "\<exists>m' heap' h' xs' s'. heap_unify_left m heap h i = Inr (m', heap', h') \<and>
    merge_step m heap (xs @ (s, False) # ys) m' heap' (xs' @ (s', False) # ys) \<and>
    unat h' = unat (mh_addr heap) + span xs'"
proof -
  let ?A = "unat (mh_addr heap)" and ?bs = "xs @ (s, False) # ys"
  have ends: "8 \<le> ?A" "unat h + 24 + s < 4294967296"
    using inv h by (auto simp: heap_inv_def)
  have foot: "unat (h - 8) = unat h - 8"
    using unat_minus_no_wrap [of 8 h] h ends(1) by simp
  have unchanged: ?thesis if "heap_unify_left m heap h i = Inr (m, heap, h)"
    using that merge_step_refl [OF inv room] h by blast
  show ?thesis
  proof (cases xs rule: rev_cases)
    case Nil
    then have "\<not> mh_addr heap \<le> h - 8"
      using h ends foot by (simp add: word_le_nat_alt)
    then show ?thesis
      by (intro unchanged) (simp add: heap_unify_left_def sizeof_MemFooter_def)
  next
    case (snoc xs0 blk)
    obtain t al where xs: "xs = xs0 @ [(t, al)]" using snoc by (cases blk) auto
    let ?b = "?A + span xs0" and ?p = "mf_header m (h - 8)"
    have h24: "unat h = ?b + 24 + t" using h xs by simp
    have blocks: "block_ok m ?b t al" "block_ok m (unat h) s False"
      using inv xs h24 by (auto simp: heap_inv_def add.assoc)
    have "unat (h - 8 + 4) = ?b + 20 + t"
      using unat_plus_no_wrap [of "h - 8" 4] foot h24 ends by (simp del: diff_add_eq)
    then have p: "?p = get32 m (?b + 20 + t)" by (simp add: mf_header_def read32_def)
    have addr: "mh_addr heap \<le> h - 8" using foot h24 by (simp add: word_le_nat_alt)
    have cases: "unat ?p = ?b \<or> mh_magic m ?p \<noteq> MEM_MAGIC"
      using blocks(1) p by (auto simp: block_ok_def Let_def mh_magic_def read32_def)
    show ?thesis
    proof (cases "unat ?p = ?b \<and> \<not> al")
      case False
      have "mh_alloc m ?p \<noteq> 0" if "unat ?p = ?b"
        using that False blocks(1) block_ok_fields(4) [of m ?p t al] h24 ends by auto
      then show ?thesis
        using cases by (intro unchanged) (auto simp: heap_unify_left_def sizeof_MemFooter_def Let_def)
    next
      case True
      let ?m' = "left_mem m ?b t s"
      have inv': "heap_inv m heap (xs0 @ [(t, False), (s, False)] @ ys)" using inv xs True by simp
      have "block_ok ?m' ?b (t + 24 + s) False"
        using left_mem_block blocks True h24 by auto
      from merge_stepI [OF inv' this _ room i(1)] left_mem_frame i(2) h24 obtain index where
        rm: "sorted_array_remove (mh_index heap) i = Inr index" and
        step: "merge_step m heap (xs0 @ [(t, False), (s, False)] @ ys) ?m' (heap\<lparr>mh_index := index\<rparr>)
          (xs0 @ (t + 24 + s, False) # ys)"
        by fastforce
      have "heap_unify_left m heap h i = Inr (?m', heap\<lparr>mh_index := index\<rparr>, ?p)"
        using heap_unify_left_merges [of m ?p t h s heap i index] blocks True h24 ends addr rm by auto
      then show ?thesis using step xs True by auto
    qed
  qed
qed

section \<open>Merging with the block on the right\<close>

definition right_mem :: "mem \<Rightarrow> nat \<Rightarrow> nat \<Rightarrow> nat \<Rightarrow> mem" where
  "right_mem m a s t = put32 (put32 m (a + 44 + s + t) (of_nat a)) (a + 4) (of_nat (s + 24 + t))"

lemma right_mem_block:
  assumes "block_ok m a s False" and "block_ok m (a + 24 + s) t False" and "a + 48 + s + t < 4294967296"
  shows "block_ok (right_mem m a s t) a (s + 24 + t) False"
proof -
  have eq: "a + 16 + (s + 24 + t) = a + 24 + s + 16 + t" "a + 20 + (s + 24 + t) = a + 44 + s + t"
    by auto
  have "get32 m a = MEM_MAGIC" "m (a + 8) = 0" "get32 m (a + 24 + s + 16 + t) = MEM_CIGAM"
    using assms by (auto simp: block_ok_def)
  then have "get32 (right_mem m a s t) a = MEM_MAGIC"
    "get32 (right_mem m a s t) (a + 4) = of_nat (s + 24 + t)"
    "right_mem m a s t (a + 8) = 0" "get32 (right_mem m a s t) (a + 24 + s + 16 + t) = MEM_CIGAM"
    "get32 (right_mem m a s t) (a + 44 + s + t) = of_nat a"
    by (simp_all add: right_mem_def mem_simps)
  then show ?thesis
    unfolding block_ok_def eq Let_def using assms(3) by simp
qed

lemma right_mem_frame:
  "k < a \<or> a + 48 + s + t \<le> k \<Longrightarrow> right_mem m a s t k = m k"
  by (auto simp: right_mem_def mem_simps)

lemma heap_unify_right_merges:
  assumes a: "block_ok m (unat h) s False" and b: "block_ok m (unat h + 24 + s) t False"
    and bound: "unat h + 48 + s + t < 4294967296"
    and lim: "h + 24 + of_nat s < mh_addr heap + mh_len heap"
    and find: "heap_index_find (mh_index heap) (h + 24 + of_nat s) 0 = Inr (Some i)"
    and rm: "sorted_array_remove (mh_index heap) i = Inr index"
  shows "heap_unify_right m heap h = Inr (right_mem m (unat h) s t, heap\<lparr>mh_index := index\<rparr>)"
proof -
  define n where "n = h + 24 + of_nat s"
  have n: "unat n = unat h + 24 + s" using bound by (simp add: n_def unat_word_ariths)
  have bound': "unat h + 24 + s < 4294967296" "unat n + 24 + t < 4294967296" using bound n by auto
  have b': "block_ok m (unat n) t False" using b n by simp
  note fa = block_ok_fields [OF a bound'(1)] and fb = block_ok_fields [OF b' bound'(2)]
  define f where "f = n + 16 + of_nat t"
  have u: "unat (h + 4) = unat h + 4" "unat (f + 4) = unat h + 44 + s + t" "unat (n + 4) = unat h + 28 + s"
    using bound by (simp_all add: n_def f_def unat_word_ariths)
  have raw: "get32 m (unat h + 4) = of_nat s" "get32 m (unat h + 28 + s) = of_nat t"
    using fa(2) fb(2) by (simp_all add: mh_size_def read32_def u)
  have sizes: "mh_size (set_mf_header m f h) h = of_nat s" "mh_size (set_mf_header m f h) n = of_nat t"
    by (simp_all only: heap_field_defs u) (simp_all add: mem_simps raw)
  have "set_mh_size (set_mf_header m f h) h (of_nat (s + 24 + t)) = right_mem m (unat h) s t"
    by (simp only: heap_field_defs u) (simp add: right_mem_def)
  moreover have "of_nat s + (16 + 8 + of_nat t) = (of_nat (s + 24 + t) :: u32)" by simp
  moreover have "h + 16 + 8 + mh_size m h = n" using fa(2) by (simp add: n_def)
  moreover have "mf_cigam m f = MEM_CIGAM" using fb(5) by (simp add: f_def)
  ultimately show ?thesis
    unfolding heap_unify_right_def sizeof_MemHeader_def sizeof_MemFooter_def
    using lim [folded n_def] find [folded n_def] rm fb(1,2,4) sizes
    by (simp only: Let_def f_def [symmetric] bindE_Inr simp_thms if_True option.case)
qed

lemma heap_unify_right_spec:
  assumes inv: "heap_inv m heap (xs @ (s, False) # ys)"
    and h: "unat h = unat (mh_addr heap) + span xs"
    and room: "sa_size (mh_index heap) < sa_max (mh_index heap)"
  shows "\<exists>m' heap' bs'. heap_unify_right m heap h = Inr (m', heap') \<and>
    merge_step m heap (xs @ (s, False) # ys) m' heap' bs'"
proof -
  let ?A = "unat (mh_addr heap)" and ?n = "h + 24 + of_nat s"
  have ends: "unat h + 24 + s + span ys = ?A + unat (mh_len heap)" "?A + unat (mh_len heap) < 4294967296"
    using inv h by (auto simp: heap_inv_def)
  have blk: "block_ok m (unat h) s False" "unat h + 24 + s < 4294967296"
    using inv h ends by (auto simp: heap_inv_def)
  note fa = block_ok_fields [OF blk]
  have lim: "unat (mh_addr heap + mh_len heap) = ?A + unat (mh_len heap)"
    using ends by (simp add: unat_word_ariths)
  have n: "unat ?n = unat h + 24 + s" using blk by (simp add: unat_word_ariths)
  have nh: "h + 16 + 8 + mh_size m h = ?n" using fa(2) by simp
  have unchanged: ?thesis if "\<not> ?n < mh_addr heap + mh_len heap \<or> mh_alloc m ?n \<noteq> 0"
  proof -
    have "heap_unify_right m heap h = Inr (m, heap)"
      unfolding heap_unify_right_def sizeof_MemHeader_def sizeof_MemFooter_def nh Let_def
      using that by auto
    then show ?thesis using merge_step_refl [OF inv room] by blast
  qed
  show ?thesis
  proof (cases ys rule: span.cases)
    case 1
    then have "\<not> ?n < mh_addr heap + mh_len heap"
      using lim n ends by (simp add: word_less_nat_alt)
    then show ?thesis by (intro unchanged) simp
  next
    case (2 t al ys')
    have b: "block_ok m (unat h + 24 + s) t al" "unat h + 48 + s + t < 4294967296"
      using inv 2 h ends by (auto simp: heap_inv_def)
    have bn: "block_ok m (unat ?n) t al" "unat ?n + 24 + t < 4294967296" using b n by auto
    note fb = block_ok_fields [OF bn]
    show ?thesis
    proof (cases al)
      case True
      then show ?thesis using fb(4) by (intro unchanged) simp
    next
      case False
      let ?m' = "right_mem m (unat h) s t"
      have inv': "heap_inv m heap (xs @ [(s, False), (t, False)] @ ys')" using inv 2 False by simp
      have "unat ?n \<in> set (addrs ?A (xs @ [(s, False), (t, False)] @ ys'))"
        using n h by (simp add: add.assoc)
      then have "?n \<in> set (sa_list (mh_index heap))" using heap_inv_index_mem [OF inv'] by blast
      then obtain i where find: "heap_index_find (mh_index heap) ?n 0 = Inr (Some i)"
        and i: "i < sa_size (mh_index heap)" "sa_list (mh_index heap) ! unat i = ?n"
        using heap_index_find_spec [of "mh_index heap" ?n 0] inv by (auto simp: heap_inv_def)
      have blk': "block_ok ?m' (?A + span xs) (s + 24 + t) False"
        using right_mem_block [of m "unat h" s t] blk b False h by simp
      have fr: "?m' k = m k" if "k < ?A + span xs \<or> ?A + span xs + 48 + s + t \<le> k" for k
        using right_mem_frame that h by simp
      have i2: "unat (sa_list (mh_index heap) ! unat i) = ?A + span xs + 24 + s" using i(2) n h by simp
      from merge_stepI [OF inv' blk' fr room i(1) i2] obtain index where
        rm: "sorted_array_remove (mh_index heap) i = Inr index" and
        step: "merge_step m heap (xs @ [(s, False), (t, False)] @ ys') ?m' (heap\<lparr>mh_index := index\<rparr>)
          (xs @ (s + 24 + t, False) # ys')"
        by blast
      have "?n < mh_addr heap + mh_len heap"
        using lim n ends 2 by (simp add: word_less_nat_alt)
      then have "heap_unify_right m heap h = Inr (?m', heap\<lparr>mh_index := index\<rparr>)"
        using heap_unify_right_merges [of m h s t heap i index] blk(1) b False find rm by simp
      then show ?thesis using step 2 False by auto
    qed
  qed
qed

section \<open>Releasing a block\<close>

lemma live_split:
  assumes "(p, s) \<in> live a bs"
  obtains xs ys where "bs = xs @ (s, True) # ys" "p = a + span xs + 16"
  using assms
proof (induction a bs arbitrary: thesis rule: live.induct)
  case (2 a s' al bs)
  show ?case
  proof (cases "al \<and> p = a + 16 \<and> s = s'")
    case True
    then show ?thesis using "2.prems"(1) [of "[]" bs] by simp
  next
    case False
    then have "(p, s) \<in> live (a + 24 + s') bs" using "2.prems"(2) by (auto split: if_splits)
    then obtain xs ys where "bs = xs @ (s, True) # ys" "p = a + 24 + s' + span xs + 16"
      using "2.IH" by metis
    then show ?thesis using "2.prems"(1) [of "(s', al) # xs" ys] by simp
  qed
qed simp

lemma free_mark:
  assumes inv: "heap_inv m heap (xs @ (s, True) # ys)" and h: "unat h = unat (mh_addr heap) + span xs"
  shows "heap_inv (set_mh_alloc m h 0) heap (xs @ (s, False) # ys)"
    "\<And>k. k \<noteq> unat h + 8 \<Longrightarrow> set_mh_alloc m h 0 k = m k"
proof -
  let ?m' = "set_mh_alloc m h 0"
  have blk: "block_ok m (unat h) s True" and bound: "unat h + 24 + s < 4294967296"
    using inv h by (auto simp: heap_inv_def)
  have u: "unat (h + 8) = unat h + 8" using bound by (simp add: unat_word_ariths)
  show frame: "\<And>k. k \<noteq> unat h + 8 \<Longrightarrow> ?m' k = m k"
    by (simp add: set_mh_alloc_def write8_def u)
  have keep: "get32 ?m' k = get32 m k" if "unat h + 8 < k \<or> k + 4 \<le> unat h + 8" for k
    using that by (simp add: set_mh_alloc_def write8_def u mem_simps)
  have 0: "?m' (unat h + 8) = 0" by (simp add: set_mh_alloc_def write8_def u)
  have "get32 ?m' p = get32 m p" if "unat h + 16 \<le> p" for p using that keep by simp
  then have "block_ok ?m' (unat h) s False"
    using blk keep 0 by (auto simp: block_ok_def Let_def)
  moreover have "?m' k = m k" if "k < unat h \<or> unat h + (24 + s) \<le> k" for k
    using that by (intro frame) auto
  ultimately show "heap_inv ?m' heap (xs @ (s, False) # ys)"
    using heap_inv_replace [of m heap xs "[(s, True)]" ys "[(s, False)]" ?m' heap]
      inv h by (simp add: heap_inv_def)
qed

lemma heap_free_spec:
  assumes inv: "heap_inv m heap bs" and p: "(unat p, s) \<in> live (unat (mh_addr heap)) bs"
    and room: "sa_size (mh_index heap) < sa_max (mh_index heap)"
  shows "\<exists>m' heap' bs'. heap_free m heap p = Inr (m', heap') \<and> heap_inv m' heap' bs' \<and>
    live (unat (mh_addr heap)) bs' = live (unat (mh_addr heap)) bs - {(unat p, s)} \<and>
    (\<forall>q t k. (q, t) \<in> live (unat (mh_addr heap)) bs - {(unat p, s)} \<longrightarrow> k < t \<longrightarrow> m' (q + k) = m (q + k)) \<and>
    (\<forall>k. k < unat (mh_addr heap) \<or> unat (mh_addr heap) + unat (mh_len heap) \<le> k \<longrightarrow> m' k = m k) \<and>
    mh_addr heap' = mh_addr heap \<and> mh_len heap' = mh_len heap"
proof -
  let ?A = "unat (mh_addr heap)"
  from p obtain xs ys where bs: "bs = xs @ (s, True) # ys" and up: "unat p = ?A + span xs + 16"
    by (rule live_split)
  define h where "h = p - 16"
  have h: "unat h = ?A + span xs"
    unfolding h_def using unat_minus_no_wrap [of 16 p] up by simp
  note inv1 = inv [unfolded bs]
  have blk: "block_ok m (unat h) s True" "unat h + 24 + s < 4294967296"
    using inv1 h by (auto simp: heap_inv_def)
  note f = block_ok_fields [OF blk]
  have "unat h \<in> set (addrs ?A (xs @ (s, True) # ys))" using h by simp
  then have "h \<in> set (sa_list (mh_index heap))" using heap_inv_index_mem [OF inv1] by blast
  then obtain i where find: "heap_index_find (mh_index heap) h 0 = Inr (Some i)"
    and i: "i < sa_size (mh_index heap)" "sa_list (mh_index heap) ! unat i = h"
    using heap_index_find_spec [of "mh_index heap" h 0] inv by (auto simp: heap_inv_def)
  let ?m1 = "set_mh_alloc m h 0"
  note mark = free_mark [OF inv1 h]
  from heap_unify_left_spec [OF mark(1) h room i] obtain m2 heap2 h2 xs2 s2 where
    left: "heap_unify_left ?m1 heap h i = Inr (m2, heap2, h2)"
      "merge_step ?m1 heap (xs @ (s, False) # ys) m2 heap2 (xs2 @ (s2, False) # ys)"
      "unat h2 = ?A + span xs2"
    by blast
  from heap_unify_right_spec [of m2 heap2 xs2 s2 ys h2] left(2,3) obtain m3 heap3 bs3 where
    right: "heap_unify_right m2 heap2 h2 = Inr (m3, heap3)"
      "merge_step m2 heap2 (xs2 @ (s2, False) # ys) m3 heap3 bs3"
    by (auto simp: merge_step_def)
  note all = merge_step_trans [OF left(2) right(2)]
  have "p \<noteq> 0" using up by auto
  then have eq: "heap_free m heap p = Inr (m3, heap3)"
    using f(1) find left(1) right(1)
    by (simp add: heap_free_def sizeof_MemHeader_def Let_def h_def [symmetric])
  have notin: "(unat p, s) \<notin> live ?A xs" "(unat p, s) \<notin> live (?A + span xs + 24 + s) ys"
    using up by (auto dest: live_bounds)
  have live1: "live ?A (xs @ (s, False) # ys) = live ?A bs - {(unat p, s)}"
    using notin up by (auto simp: bs)
  have pay: "?m1 (q + k) = m (q + k)" if "(q, t) \<in> live ?A (xs @ (s, False) # ys)" "k < t" for q t k
  proof -
    have "q + t \<le> unat h \<or> unat h + 24 + s \<le> q" using that h by (auto dest: live_bounds)
    then show ?thesis using that by (intro mark(2)) auto
  qed
  have out: "?m1 k = m k" if "k < ?A \<or> ?A + unat (mh_len heap) \<le> k" for k
    using that h inv1 by (intro mark(2)) (auto simp: heap_inv_def)
  show ?thesis
    using eq all pay out unfolding merge_step_def live1 by (intro exI [of _ m3] exI [of _ heap3] exI [of _ bs3]) auto
qed

lemma heap_free_NULL: "heap_free m heap 0 = Inr (m, heap)"
  by (simp add: heap_free_def)

end
