(* ===== verification/Allocator.thy ===== *)
theory Allocator
  imports Heap_Free
begin

unbundle bit_operations_syntax

text \<open>
  The kernel heap as its clients see it. The abstract state is the set of live allocations,
  computed from memory by walking the block headers; \<open>allocator\<close> is the contract between the
  heap and the rest of the kernel, and the heap of \<^verbatim>\<open>kernel/heap.c\<close> is an instance of it.
\<close>

section \<open>The abstract state, computed from memory\<close>

function heap_walk :: "mem \<Rightarrow> nat \<Rightarrow> nat \<Rightarrow> block list" where
  "heap_walk m a n =
     (if n < 24 then []
      else let s = unat (get32 m (a + 4))
           in (s, m (a + 8) \<noteq> 0) # heap_walk m (a + 24 + s) (n - 24 - s))"
  by pat_completeness auto
termination
  by (relation "measure (\<lambda>(m, a, n). n)") auto

declare heap_walk.simps [simp del]

definition kheap_blocks :: "mem \<times> MemHeap \<Rightarrow> block list" where
  "kheap_blocks h = heap_walk (fst h) (unat (mh_addr (snd h))) (unat (mh_len (snd h)))"

definition kheap_ok :: "mem \<times> MemHeap \<Rightarrow> bool" where
  "kheap_ok h \<longleftrightarrow> heap_inv (fst h) (snd h) (kheap_blocks h)"

definition kheap_live :: "mem \<times> MemHeap \<Rightarrow> (nat \<times> nat) set" where
  "kheap_live h = live (unat (mh_addr (snd h))) (kheap_blocks h)"

definition kheap_idle :: "mem \<times> MemHeap \<Rightarrow> (nat \<times> nat) set" where
  "kheap_idle h = idle (unat (mh_addr (snd h))) (kheap_blocks h)"

text \<open>Room for the at most two index entries one allocation adds.\<close>

definition kheap_room :: "mem \<times> MemHeap \<Rightarrow> bool" where
  "kheap_room h \<longleftrightarrow>
     Suc (unat (sa_size (mh_index (snd h)))) < unat (sa_max (mh_index (snd h)))"

lemma heap_walk_layout:
  "layout m a bs \<Longrightarrow> span bs = n \<Longrightarrow> n < 4294967296 \<Longrightarrow> heap_walk m a n = bs"
proof (induction bs arbitrary: a n rule: span.induct)
  case 1
  then show ?case by (simp add: heap_walk.simps)
next
  case (2 s al bs)
  have s: "unat (get32 m (a + 4)) = s" "(m (a + 8) \<noteq> 0) = al"
    using "2.prems" by (auto simp: block_ok_def)
  have "heap_walk m (a + 24 + s) (n - 24 - s) = bs" using "2.prems" by (intro "2.IH") auto
  then show ?case using "2.prems"(2) s by (simp add: heap_walk.simps [of m a n])
qed

lemma heap_inv_walk:
  assumes "heap_inv m heap bs"
  shows "kheap_blocks (m, heap) = bs" "kheap_ok (m, heap)"
    "kheap_live (m, heap) = live (unat (mh_addr heap)) bs"
proof -
  show "kheap_blocks (m, heap) = bs"
    unfolding kheap_blocks_def fst_conv snd_conv
    by (rule heap_walk_layout) (use assms in \<open>auto simp: heap_inv_def\<close>)
  then show "kheap_ok (m, heap)" "kheap_live (m, heap) = live (unat (mh_addr heap)) bs"
    using assms by (simp_all add: kheap_ok_def kheap_live_def)
qed

text \<open>Two different live allocations never overlap, whatever the layout.\<close>

lemma live_disjoint:
  "(p, s) \<in> live a bs \<Longrightarrow> (q, t) \<in> live a bs \<Longrightarrow> (p, s) \<noteq> (q, t) \<Longrightarrow>
    p + s + 24 \<le> q \<or> q + t + 24 \<le> p"
  by (induction a bs rule: live.induct) (force split: if_splits dest: live_bounds)+

lemma live_size_sum: "finite (live a bs) \<and> sum snd (live a bs) + 24 * card (live a bs) \<le> span bs"
proof (induction a bs rule: live.induct)
  case (2 a s al bs)
  have "(a + 16, s) \<notin> live (a + 24 + s) bs" by (auto dest: live_bounds)
  with 2 show ?case by auto
qed simp

section \<open>The contract\<close>

definition apart :: "nat \<times> nat \<Rightarrow> nat \<times> nat \<Rightarrow> bool" where
  "apart b c \<longleftrightarrow> fst b + snd b \<le> fst c \<or> fst c + snd c \<le> fst b"

locale allocator =
  fixes ok :: "'h \<Rightarrow> bool" and blocks :: "'h \<Rightarrow> (nat \<times> nat) set" and byte :: "'h \<Rightarrow> nat \<Rightarrow> u8"
    and room :: "'h \<Rightarrow> bool" and alloc :: "'h \<Rightarrow> u32 \<Rightarrow> (u32 \<times> 'h) exec" and release :: "'h \<Rightarrow> u32 \<Rightarrow> 'h exec"
  assumes blocks_apart: "ok h \<Longrightarrow> b \<in> blocks h \<Longrightarrow> c \<in> blocks h \<Longrightarrow> b \<noteq> c \<Longrightarrow> apart b c"
    and blocks_pos: "ok h \<Longrightarrow> b \<in> blocks h \<Longrightarrow> 0 < fst b"
    and alloc_law: "ok h \<Longrightarrow> room h \<Longrightarrow> unat n + 24 < 4294967296 \<Longrightarrow>
      alloc h n = Inr (0, h) \<or>
      (\<exists>p h' s. alloc h n = Inr (p, h') \<and> p \<noteq> 0 \<and> ok h' \<and> unat n \<le> s \<and>
         (unat p, s) \<notin> blocks h \<and> blocks h' = insert (unat p, s) (blocks h) \<and>
         (\<forall>q t k. (q, t) \<in> blocks h \<longrightarrow> k < t \<longrightarrow> byte h' (q + k) = byte h (q + k)))"
    and release_law: "ok h \<Longrightarrow> room h \<Longrightarrow> (unat p, s) \<in> blocks h \<Longrightarrow>
      \<exists>h'. release h p = Inr h' \<and> ok h' \<and> blocks h' = blocks h - {(unat p, s)} \<and>
         (\<forall>q t k. (q, t) \<in> blocks h - {(unat p, s)} \<longrightarrow> k < t \<longrightarrow> byte h' (q + k) = byte h (q + k))"
begin

lemma alloc_fresh:
  assumes "ok h" "room h" "unat n + 24 < 4294967296" "alloc h n = Inr (p, h')" "p \<noteq> 0"
  shows "\<exists>s. unat n \<le> s \<and> (unat p, s) \<in> blocks h' \<and> (\<forall>b \<in> blocks h. apart (unat p, s) b)"
proof -
  from alloc_law [OF assms(1-3)] assms(4,5) obtain s where
    s: "ok h'" "unat n \<le> s" "(unat p, s) \<notin> blocks h" "blocks h' = insert (unat p, s) (blocks h)"
    by auto
  have "apart (unat p, s) b" if "b \<in> blocks h" for b
    using blocks_apart [OF s(1), of "(unat p, s)" b] s(3,4) that by auto
  with s show ?thesis by auto
qed

lemma alloc_release:
  assumes "ok h" "room h" "unat n + 24 < 4294967296" "alloc h n = Inr (p, h')" "p \<noteq> 0" "room h'"
  shows "\<exists>h''. release h' p = Inr h'' \<and> ok h'' \<and> blocks h'' = blocks h \<and>
    (\<forall>q t k. (q, t) \<in> blocks h \<longrightarrow> k < t \<longrightarrow> byte h'' (q + k) = byte h (q + k))"
proof -
  from alloc_law [OF assms(1-3)] assms(4,5) obtain s where
    s: "ok h'" "(unat p, s) \<notin> blocks h" "blocks h' = insert (unat p, s) (blocks h)" and
    keep: "\<And>q t k. (q, t) \<in> blocks h \<Longrightarrow> k < t \<Longrightarrow> byte h' (q + k) = byte h (q + k)"
    by auto
  from release_law [OF s(1) assms(6), of p s] s(3) obtain h'' where
    r: "release h' p = Inr h''" "ok h''" "blocks h'' = blocks h' - {(unat p, s)}"
      "\<forall>q t k. (q, t) \<in> blocks h' - {(unat p, s)} \<longrightarrow> k < t \<longrightarrow> byte h'' (q + k) = byte h' (q + k)"
    by auto
  moreover have "blocks h' - {(unat p, s)} = blocks h" using s by auto
  ultimately show ?thesis using keep by auto
qed

end

text \<open>The kernel heap keeps the contract, for plain and for page-aligned allocation.\<close>

definition kheap_alloc :: "bool \<Rightarrow> mem \<times> MemHeap \<Rightarrow> u32 \<Rightarrow> (u32 \<times> mem \<times> MemHeap) exec" where
  "kheap_alloc aligned h n = heap_alloc (fst h) (snd h) n aligned"

definition kheap_free :: "mem \<times> MemHeap \<Rightarrow> u32 \<Rightarrow> (mem \<times> MemHeap) exec" where
  "kheap_free h p = heap_free (fst h) (snd h) p"

lemma kheap_alloc_spec:
  assumes "kheap_ok (m, heap)" "kheap_room (m, heap)" "unat n + 24 < 4294967296"
  shows "heap_alloc m heap n aligned = Inr (0, m, heap) \<and>
      (\<forall>(a, s) \<in> kheap_idle (m, heap). \<not> block_fits aligned a s (unat n)) \<or>
    (\<exists>p h' s. heap_alloc m heap n aligned = Inr (p, h') \<and> p \<noteq> 0 \<and> kheap_ok h' \<and> unat n \<le> s \<and>
       (unat p, s) \<notin> kheap_live (m, heap) \<and> kheap_live h' = insert (unat p, s) (kheap_live (m, heap)) \<and>
       (aligned \<longrightarrow> unat p mod 4096 = 0) \<and>
       (\<forall>q t k. (q, t) \<in> kheap_live (m, heap) \<longrightarrow> k < t \<longrightarrow> fst h' (q + k) = m (q + k)))"
proof -
  have inv: "heap_inv m heap (kheap_blocks (m, heap))" using assms(1) by (simp add: kheap_ok_def)
  have live: "live (unat (mh_addr heap)) (kheap_blocks (m, heap)) = kheap_live (m, heap)"
    by (simp add: kheap_live_def)
  have good: "kheap_ok (m', heap') \<and> p \<noteq> 0 \<and> (aligned \<longrightarrow> unat p mod 4096 = 0) \<and>
      (\<exists>s. unat n \<le> s \<and> (unat p, s) \<notin> kheap_live (m, heap) \<and>
        kheap_live (m', heap') = insert (unat p, s) (kheap_live (m, heap))) \<and>
      (\<forall>q t k. (q, t) \<in> kheap_live (m, heap) \<longrightarrow> k < t \<longrightarrow> m' (q + k) = m (q + k))"
    if "alloc_good m heap (kheap_blocks (m, heap)) n aligned p m' heap'" for p m' heap'
  proof -
    from that obtain bs' s where g: "heap_inv m' heap' bs'" "unat n \<le> s"
      "(unat p, s) \<notin> kheap_live (m, heap)"
      "live (unat (mh_addr heap)) bs' = insert (unat p, s) (kheap_live (m, heap))"
      and addr: "mh_addr heap' = mh_addr heap"
      unfolding alloc_good_def live by auto
    have "kheap_live (m', heap') = insert (unat p, s) (kheap_live (m, heap))"
      using heap_inv_walk(3) [OF g(1)] g(4) addr by simp
    then show ?thesis
      using that heap_inv_walk(2) [OF g(1)] g unfolding alloc_good_def live by auto
  qed
  have "Suc (unat (sa_size (mh_index heap))) < unat (sa_max (mh_index heap))"
    using assms(2) by (simp add: kheap_room_def)
  from heap_alloc_spec [OF inv assms(3) this, of aligned] show ?thesis
  proof
    assume "\<exists>p m' heap'. heap_alloc m heap n aligned = Inr (p, m', heap') \<and>
      alloc_good m heap (kheap_blocks (m, heap)) n aligned p m' heap'"
    then obtain p m' heap' where "heap_alloc m heap n aligned = Inr (p, m', heap')"
      "alloc_good m heap (kheap_blocks (m, heap)) n aligned p m' heap'" by blast
    with good [OF this(2)] show ?thesis by auto
  qed (simp add: kheap_idle_def)
qed

lemma kheap_free_spec:
  assumes "kheap_ok (m, heap)" "kheap_room (m, heap)" "(unat p, s) \<in> kheap_live (m, heap)"
  shows "\<exists>h'. heap_free m heap p = Inr h' \<and> kheap_ok h' \<and>
    kheap_live h' = kheap_live (m, heap) - {(unat p, s)} \<and>
    (\<forall>q t k. (q, t) \<in> kheap_live (m, heap) - {(unat p, s)} \<longrightarrow> k < t \<longrightarrow> fst h' (q + k) = m (q + k))"
proof -
  have inv: "heap_inv m heap (kheap_blocks (m, heap))" using assms(1) by (simp add: kheap_ok_def)
  have live: "live (unat (mh_addr heap)) (kheap_blocks (m, heap)) = kheap_live (m, heap)"
    by (simp add: kheap_live_def)
  have "sa_size (mh_index heap) < sa_max (mh_index heap)"
    using assms(2) by (simp add: kheap_room_def word_less_nat_alt)
  from heap_free_spec [OF inv _ this, of p s] assms(3) obtain m' heap' bs' where
    r: "heap_free m heap p = Inr (m', heap')" "heap_inv m' heap' bs'"
      "live (unat (mh_addr heap)) bs' = kheap_live (m, heap) - {(unat p, s)}"
      "\<forall>q t k. (q, t) \<in> kheap_live (m, heap) - {(unat p, s)} \<longrightarrow> k < t \<longrightarrow> m' (q + k) = m (q + k)"
      "mh_addr heap' = mh_addr heap"
    unfolding live by auto
  then show ?thesis using heap_inv_walk(2,3) [OF r(2)] by auto
qed

interpretation kheap: allocator kheap_ok kheap_live fst kheap_room "kheap_alloc aligned" kheap_free
  for aligned
proof unfold_locales
  fix h b c
  assume "b \<in> kheap_live h" "c \<in> kheap_live h" "b \<noteq> c"
  then show "apart b c"
    using live_disjoint [of "fst b" "snd b" _ _ "fst c" "snd c"]
    by (fastforce simp: kheap_live_def apart_def)
next
  fix h b
  assume "b \<in> kheap_live h"
  then show "0 < fst b" by (cases b) (auto simp: kheap_live_def dest: live_bounds)
next
  fix h and n :: u32
  assume "kheap_ok h" "kheap_room h" "unat n + 24 < 4294967296"
  then show "kheap_alloc aligned h n = Inr (0, h) \<or>
      (\<exists>p h' s. kheap_alloc aligned h n = Inr (p, h') \<and> p \<noteq> 0 \<and> kheap_ok h' \<and> unat n \<le> s \<and>
         (unat p, s) \<notin> kheap_live h \<and> kheap_live h' = insert (unat p, s) (kheap_live h) \<and>
         (\<forall>q t k. (q, t) \<in> kheap_live h \<longrightarrow> k < t \<longrightarrow> fst h' (q + k) = fst h (q + k)))"
    using kheap_alloc_spec [of "fst h" "snd h" n aligned] unfolding kheap_alloc_def prod.collapse by blast
next
  fix h s and p :: u32
  assume "kheap_ok h" "kheap_room h" "(unat p, s) \<in> kheap_live h"
  then show "\<exists>h'. kheap_free h p = Inr h' \<and> kheap_ok h' \<and> kheap_live h' = kheap_live h - {(unat p, s)} \<and>
      (\<forall>q t k. (q, t) \<in> kheap_live h - {(unat p, s)} \<longrightarrow> k < t \<longrightarrow> fst h' (q + k) = fst h (q + k))"
    using kheap_free_spec [of "fst h" "snd h" p s] unfolding kheap_free_def prod.collapse by blast
qed

section \<open>Initialisation and zero-filled allocation\<close>

text \<open>Bytes inside a live payload that become zero break no block: a dead header stays dead.\<close>

lemma get32_magic_byte: "get32 m n = MEM_MAGIC \<Longrightarrow> m n = 0xde"
proof -
  assume "get32 m n = MEM_MAGIC"
  then have "(ucast (get32 m n) :: u8) = ucast MEM_MAGIC" by simp
  moreover have "(ucast (get32 m n) :: u8) = m n"
    by (rule bit_word_eqI) (simp add: get32_def bit_simps)
  ultimately show ?thesis by (simp add: MEM_MAGIC_def)
qed

lemma block_ok_write:
  assumes blk: "block_ok m a s al"
    and frame: "\<And>k. k < a + 16 \<or> a + 16 + s \<le> k \<Longrightarrow> m' k = m k"
    and stale: "let f = unat (get32 m (a + 20 + s)) in f = a \<or> get32 m' f \<noteq> MEM_MAGIC"
  shows "block_ok m' a s al"
proof -
  have keep: "get32 m' k = get32 m k" if "k + 4 \<le> a + 16 \<or> a + 16 + s \<le> k" for k
    using that by (intro get32_cong frame) auto
  have f: "get32 m' a = get32 m a" "get32 m' (a + 4) = get32 m (a + 4)" "m' (a + 8) = m (a + 8)"
    "get32 m' (a + 16 + s) = get32 m (a + 16 + s)" "get32 m' (a + 20 + s) = get32 m (a + 20 + s)"
    by (simp_all add: keep frame)
  show ?thesis using blk stale unfolding block_ok_def Let_def f by blast
qed

text \<open>
  A client that writes inside its own block: the block stays well-formed as long as the word the
  footer of a once merged block still points to (\<^verbatim>\<open>stale_footer\<close>) does not become \<^verbatim>\<open>MEM_MAGIC\<close>.
\<close>

definition stale_footer :: "mem \<Rightarrow> nat \<times> nat \<Rightarrow> nat option" where
  "stale_footer m b =
     (let f = unat (get32 m (fst b + snd b + 4)) in if f + 16 = fst b then None else Some f)"

definition write_keeps :: "mem \<Rightarrow> mem \<Rightarrow> nat \<times> nat \<Rightarrow> bool" where
  "write_keeps m m' b \<longleftrightarrow>
     (case stale_footer m b of None \<Rightarrow> True | Some f \<Rightarrow> get32 m' f \<noteq> MEM_MAGIC)"

lemma kheap_write:
  assumes ok: "kheap_ok (m, heap)" and p: "(p, s) \<in> kheap_live (m, heap)"
    and own: "\<And>k. k < p \<or> p + s \<le> k \<Longrightarrow> m' k = m k" and keeps: "write_keeps m m' (p, s)"
  shows "kheap_ok (m', heap)" "kheap_live (m', heap) = kheap_live (m, heap)"
    "\<And>q t k. (q, t) \<in> kheap_live (m, heap) - {(p, s)} \<Longrightarrow> k < t \<Longrightarrow> m' (q + k) = m (q + k)"
proof -
  let ?A = "unat (mh_addr heap)"
  have inv: "heap_inv m heap (kheap_blocks (m, heap))" using ok by (simp add: kheap_ok_def)
  from p obtain xs ys where bs: "kheap_blocks (m, heap) = xs @ (s, True) # ys"
    and up: "p = ?A + span xs + 16"
    unfolding kheap_live_def snd_conv by (rule live_split)
  have inv1: "heap_inv m heap (xs @ [(s, True)] @ ys)" using inv bs by simp
  then have parts: "block_ok m (?A + span xs) s True" "sa_ok (mh_index heap)"
    "distinct (sa_list (mh_index heap))"
    "unat ` set (sa_list (mh_index heap)) = set (addrs ?A (xs @ [(s, True)] @ ys))"
    by (simp_all add: heap_inv_def)
  have at: "p + s + 4 = ?A + span xs + 20 + s" using up by simp
  have "let f = unat (get32 m (?A + span xs + 20 + s))
      in f = ?A + span xs \<or> get32 m' f \<noteq> MEM_MAGIC"
    using keeps unfolding write_keeps_def stale_footer_def fst_conv snd_conv at Let_def up
    by (auto simp: add_ac split: if_splits)
  then have blk: "block_ok m' (?A + span xs) s True"
    by (rule block_ok_write [OF parts(1) own, rotated]) (simp add: up)
  have frame: "m' k = m k" if "k < ?A + span xs \<or> ?A + span xs + span [(s, True)] \<le> k" for k
    using that up by (intro own) auto
  have inv': "heap_inv m' heap (xs @ [(s, True)] @ ys)"
    by (rule heap_inv_replace [OF inv1 refl _ frame refl refl parts(2,3,4)]) (use blk in simp)
  from heap_inv_walk(2,3) [OF inv'] show "kheap_ok (m', heap)"
    "kheap_live (m', heap) = kheap_live (m, heap)"
    by (simp_all add: kheap_live_def bs)
  show "m' (q + k) = m (q + k)" if "(q, t) \<in> kheap_live (m, heap) - {(p, s)}" "k < t" for q t k
    using kheap.blocks_apart [OF ok p, of "(q, t)"] that by (auto simp: apart_def intro: own)
qed

lemma stale_footer_dead:
  assumes ok: "kheap_ok (m, heap)" and p: "(p, s) \<in> kheap_live (m, heap)"
    and stale: "stale_footer m (p, s) = Some f"
  shows "p \<le> f" "f + 16 \<le> p + s" "get32 m f \<noteq> MEM_MAGIC"
proof -
  let ?A = "unat (mh_addr heap)"
  have inv: "heap_inv m heap (kheap_blocks (m, heap))" using ok by (simp add: kheap_ok_def)
  from p obtain xs ys where bs: "kheap_blocks (m, heap) = xs @ (s, True) # ys"
    and up: "p = ?A + span xs + 16"
    unfolding kheap_live_def snd_conv by (rule live_split)
  have at: "p + s + 4 = ?A + span xs + 20 + s" using up by simp
  have "block_ok m (?A + span xs) s True" using inv bs by (simp add: heap_inv_def)
  then show "p \<le> f" "f + 16 \<le> p + s" "get32 m f \<noteq> MEM_MAGIC"
    using stale unfolding stale_footer_def fst_conv snd_conv at block_ok_def Let_def up
    by (auto simp: add_ac split: if_splits)
qed

lemma kheap_fill:
  assumes ok: "kheap_ok (m, heap)" and p: "(unat p, s) \<in> kheap_live (m, heap)" and n: "n \<le> s"
  shows "kheap_ok (mem_fill m p 0 n, heap)" "kheap_live (mem_fill m p 0 n, heap) = kheap_live (m, heap)"
    "\<And>q t k. (q, t) \<in> kheap_live (m, heap) - {(unat p, s)} \<Longrightarrow> k < t \<Longrightarrow> mem_fill m p 0 n (q + k) = m (q + k)"
proof -
  let ?m' = "mem_fill m p 0 n"
  have own: "?m' k = m k" if "k < unat p \<or> unat p + s \<le> k" for k
    using that n by (auto simp: mem_fill_def)
  have "get32 ?m' f \<noteq> MEM_MAGIC" if f: "stale_footer m (unat p, s) = Some f" for f
  proof (cases "f < unat p + n")
    case True
    then have "?m' f = 0" using stale_footer_dead(1) [OF ok p f] by (simp add: mem_fill_def)
    then show ?thesis using get32_magic_byte [of ?m' f] by auto
  next
    case False
    then have "get32 ?m' f = get32 m f" by (intro get32_cong) (auto simp: mem_fill_def)
    then show ?thesis using stale_footer_dead(3) [OF ok p f] by simp
  qed
  then have "write_keeps m ?m' (unat p, s)" by (simp add: write_keeps_def split: option.splits)
  note w = kheap_write [OF ok p _ this]
  show "kheap_ok (?m', heap)" "kheap_live (?m', heap) = kheap_live (m, heap)"
    using w(1,2) own by auto
  show "?m' (q + k) = m (q + k)" if "(q, t) \<in> kheap_live (m, heap) - {(unat p, s)}" "k < t" for q t k
    using w(3) own that by blast
qed

lemma heap_init_spec:
  "\<exists>m' heap'. heap_init m kernel_heap = Inr (m', heap') \<and> kheap_ok (m', heap') \<and>
    kheap_room (m', heap') \<and> kheap_live (m', heap') = {} \<and>
    kheap_blocks (m', heap') = [(unat KHEAP_DATA_LEN - 24, False)] \<and>
    mh_addr heap' = KHEAP_DATA_VADDR \<and> mh_len heap' = KHEAP_DATA_LEN"
proof -
  define index where "index = (mh_index kernel_heap)\<lparr>sa_elems := replicate (unat KHEAP_INDEX_NELEM) 0,
    sa_size := 0, sa_max := KHEAP_INDEX_NELEM, sa_cmp := heap_cmp, sa_alloc := False\<rparr>"
  have ok: "sa_ok index" "sa_size index < sa_max index" "sa_list index = []"
    by (simp_all add: index_def sa_ok_def sa_list_def KHEAP_INDEX_NELEM_def)
  let ?h = KHEAP_DATA_VADDR
  let ?m3 = "set_mh_alloc (set_mh_size (set_mh_magic m ?h MEM_MAGIC) ?h
    (KHEAP_DATA_LEN - sizeof_MemHeader - sizeof_MemFooter)) ?h 0"
  from sorted_array_insert_refines [OF ok(1,2), of ?m3 ?h] ok(3) obtain index' where
    index': "sorted_array_insert ?m3 index ?h = Inr index'" "sa_ok index'" "sa_list index' = [?h]"
      "sa_max index' = KHEAP_INDEX_NELEM" "sa_size index' = 1"
    by (auto simp: index_def)
  have sz: "mh_size ?m3 ?h = 0x0fffffe8"
    by (simp add: heap_field_defs KHEAP_DATA_VADDR_def KHEAP_DATA_LEN_def mem_simps)
  let ?m5 = "set_mf_header (set_mf_cigam ?m3 (?h + 16 + 0x0fffffe8) MEM_CIGAM) (?h + 16 + 0x0fffffe8) ?h"
  let ?heap = "kernel_heap\<lparr>mh_index := index', mh_addr := KHEAP_DATA_VADDR,
    mh_len := KHEAP_DATA_LEN, mh_pdata := KHEAP_DATA_PADDR, mh_pindex := KHEAP_INDEX_PADDR\<rparr>"
  have "sorted_array_place (Some (mh_index kernel_heap)) (Some (sa_elems (mh_index kernel_heap)))
      KHEAP_INDEX_NELEM (Some heap_cmp) = (0, Some index)"
    by (simp add: sorted_array_place_def index_def)
  then have init: "heap_init m kernel_heap = Inr (?m5, ?heap)"
    unfolding heap_init_def using index'(1) sz
    by (simp only: Let_def prod.case option.case simp_thms if_False bindE_Inr sizeof_MemHeader_def)
  have "block_ok ?m5 (unat ?h) 0x0fffffe8 False"
    by (simp add: block_ok_def Let_def heap_field_defs KHEAP_DATA_VADDR_def KHEAP_DATA_LEN_def mem_simps)
  then have inv: "heap_inv ?m5 ?heap [(0x0fffffe8, False)]"
    using index' by (simp add: heap_inv_def KHEAP_DATA_VADDR_def KHEAP_DATA_LEN_def)
  have "kheap_room (?m5, ?heap)" using index' by (simp add: kheap_room_def KHEAP_INDEX_NELEM_def)
  with init heap_inv_walk [OF inv] show ?thesis by (auto simp: KHEAP_DATA_LEN_def)
qed

section \<open>The kernel's calls as a transition system\<close>

text \<open>
  A run of the kernel heap: it starts from \<^verbatim>\<open>heap_init\<close>, takes calls of \<^verbatim>\<open>kmalloc\<close>, \<^verbatim>\<open>kvalloc\<close>,
  \<^verbatim>\<open>kzalloc\<close> and \<^verbatim>\<open>kfree\<close>, and in between its clients write into their own live blocks. Callers keep
  their side of the contract: sizes do not wrap when the block overhead is added, the index has two
  free slots, only live pointers (or NULL) are freed, and a write that stays inside a live block
  leaves no \<^verbatim>\<open>MEM_MAGIC\<close> at the word a stale footer points to. \<^verbatim>\<open>krealloc\<close> is not among the calls.
\<close>

datatype heap_call = KMalloc u32 | KValloc u32 | KZalloc u32 | KFree u32 | Store u32 "u8 list"

definition store_bytes :: "mem \<Rightarrow> u32 \<Rightarrow> u8 list \<Rightarrow> mem" where
  "store_bytes m q vs =
     (\<lambda>k. if unat q \<le> k \<and> k < unat q + length vs then vs ! (k - unat q) else m k)"

definition store_inside :: "mem \<times> MemHeap \<Rightarrow> u32 \<Rightarrow> u8 list \<Rightarrow> nat \<times> nat \<Rightarrow> bool" where
  "store_inside h q vs b \<longleftrightarrow> fst b \<le> unat q \<and> unat q + length vs \<le> fst b + snd b \<and>
     write_keeps (fst h) (store_bytes (fst h) q vs) b"

fun heap_call_ok :: "mem \<times> MemHeap \<Rightarrow> heap_call \<Rightarrow> bool" where
  "heap_call_ok h (KMalloc n) \<longleftrightarrow> kheap_room h \<and> unat n + 24 < 4294967296"
| "heap_call_ok h (KValloc n) \<longleftrightarrow> kheap_room h \<and> unat n + 24 < 4294967296"
| "heap_call_ok h (KZalloc n) \<longleftrightarrow> kheap_room h \<and> unat n + 24 < 4294967296"
| "heap_call_ok h (KFree p) \<longleftrightarrow> p = 0 \<or> kheap_room h \<and> unat p \<in> fst ` kheap_live h"
| "heap_call_ok h (Store q vs) \<longleftrightarrow> (\<exists>b \<in> kheap_live h. store_inside h q vs b)"

fun heap_call_run :: "mem \<times> MemHeap \<Rightarrow> heap_call \<Rightarrow> (u32 \<times> mem \<times> MemHeap) exec" where
  "heap_call_run (m, heap) (KMalloc n) = kmalloc m heap n"
| "heap_call_run (m, heap) (KValloc n) = kvalloc m heap n"
| "heap_call_run (m, heap) (KZalloc n) = kzalloc m heap n"
| "heap_call_run (m, heap) (KFree p) = bindE (kfree m heap p) (\<lambda>h'. Inr (0, h'))"
| "heap_call_run (m, heap) (Store q vs) = Inr (0, store_bytes m q vs, heap)"

inductive heap_reach :: "mem \<times> MemHeap \<Rightarrow> bool" where
  boot: "heap_init m kernel_heap = Inr h \<Longrightarrow> heap_reach h"
| call: "heap_reach h \<Longrightarrow> heap_call_ok h c \<Longrightarrow> heap_call_run h c = Inr (p, h') \<Longrightarrow> heap_reach h'"

lemma kzalloc_spec:
  assumes ok: "kheap_ok (m, heap)" "kheap_room (m, heap)" "unat n + 24 < 4294967296"
  shows "kzalloc m heap n = Inr (0, m, heap) \<or>
    (\<exists>p m' heap' s. kzalloc m heap n = Inr (p, m', heap') \<and> p \<noteq> 0 \<and> kheap_ok (m', heap') \<and> unat n \<le> s \<and>
       (unat p, s) \<notin> kheap_live (m, heap) \<and>
       kheap_live (m', heap') = insert (unat p, s) (kheap_live (m, heap)) \<and>
       (\<forall>k < unat n. m' (unat p + k) = 0) \<and>
       (\<forall>q t k. (q, t) \<in> kheap_live (m, heap) \<longrightarrow> k < t \<longrightarrow> m' (q + k) = m (q + k)))"
  using kheap_alloc_spec [OF ok, of False]
proof
  assume "\<exists>p h' s. heap_alloc m heap n False = Inr (p, h') \<and> p \<noteq> 0 \<and> kheap_ok h' \<and> unat n \<le> s \<and>
       (unat p, s) \<notin> kheap_live (m, heap) \<and> kheap_live h' = insert (unat p, s) (kheap_live (m, heap)) \<and>
       (False \<longrightarrow> unat p mod 4096 = 0) \<and>
       (\<forall>q t k. (q, t) \<in> kheap_live (m, heap) \<longrightarrow> k < t \<longrightarrow> fst h' (q + k) = m (q + k))"
  then obtain p m1 heap1 s where a: "heap_alloc m heap n False = Inr (p, m1, heap1)" "p \<noteq> 0"
    "kheap_ok (m1, heap1)" "unat n \<le> s" "(unat p, s) \<notin> kheap_live (m, heap)"
    "kheap_live (m1, heap1) = insert (unat p, s) (kheap_live (m, heap))"
    "\<And>q t k. (q, t) \<in> kheap_live (m, heap) \<Longrightarrow> k < t \<Longrightarrow> m1 (q + k) = m (q + k)"
    by auto
  let ?m' = "mem_fill m1 p 0 (unat n)"
  have eq: "kzalloc m heap n = Inr (p, ?m', heap1)"
    using a(1,2) by (simp add: kzalloc_def kmalloc_def)
  have zero: "?m' (unat p + k) = 0" if "k < unat n" for k
    using that by (simp add: mem_fill_def)
  note fill = kheap_fill [OF a(3) _ a(4), of p]
  have keep: "?m' (q + k) = m (q + k)" if "(q, t) \<in> kheap_live (m, heap)" "k < t" for q t k
    using fill(3) [of q t k] a(5-7) that by auto
  from eq a(2,4,5,6) fill(1,2) zero keep show ?thesis by auto
qed (simp add: kzalloc_def kmalloc_def)

lemma heap_call_total:
  assumes ok: "kheap_ok h" and call: "heap_call_ok h c"
  shows "\<exists>p h'. heap_call_run h c = Inr (p, h') \<and> kheap_ok h'"
proof -
  obtain m heap where h: "h = (m, heap)" by force
  show ?thesis
  proof (cases c)
    case (KMalloc n)
    then show ?thesis using kheap_alloc_spec [of m heap n False] ok call
      by (auto simp: h kmalloc_def)
  next
    case (KValloc n)
    then show ?thesis using kheap_alloc_spec [of m heap n True] ok call
      by (auto simp: h kvalloc_def)
  next
    case (KZalloc n)
    then show ?thesis using kzalloc_spec [of m heap n] ok call by (auto simp: h)
  next
    case (KFree p)
    show ?thesis
    proof (cases "p = 0")
      case True
      then show ?thesis using KFree ok by (simp add: h kfree_def heap_free_NULL)
    next
      case False
      then obtain s where "kheap_room h" "(unat p, s) \<in> kheap_live h" using KFree call by auto
      then show ?thesis using kheap_free_spec [of m heap p s] ok KFree by (auto simp: h kfree_def)
    qed
  next
    case (Store q vs)
    then obtain p s where b: "(p, s) \<in> kheap_live (m, heap)" "store_inside (m, heap) q vs (p, s)"
      using call by (auto simp: h)
    have "store_bytes m q vs k = m k" if "k < p \<or> p + s \<le> k" for k
      using b(2) that by (auto simp: store_inside_def store_bytes_def)
    moreover have "write_keeps m (store_bytes m q vs) (p, s)" using b(2) by (simp add: store_inside_def)
    ultimately have "kheap_ok (store_bytes m q vs, heap)" using kheap_write(1) [of m heap p s] ok b(1) h by blast
    then show ?thesis by (simp add: Store h)
  qed
qed

lemma store_own_block:
  assumes ok: "kheap_ok h" and call: "heap_call_ok h (Store q vs)"
  shows "\<exists>h'. heap_call_run h (Store q vs) = Inr (0, h') \<and> kheap_live h' = kheap_live h \<and>
    (\<exists>b \<in> kheap_live h. \<forall>c \<in> kheap_live h - {b}. \<forall>k < snd c. fst h' (fst c + k) = fst h (fst c + k))"
proof -
  obtain m heap where h: "h = (m, heap)" by force
  from call obtain p s where b: "(p, s) \<in> kheap_live (m, heap)" "store_inside (m, heap) q vs (p, s)"
    by (auto simp: h)
  let ?m' = "store_bytes m q vs"
  have own: "?m' k = m k" if "k < p \<or> p + s \<le> k" for k
    using b(2) that by (auto simp: store_inside_def store_bytes_def)
  have keeps: "write_keeps m ?m' (p, s)" using b(2) by (simp add: store_inside_def)
  have ok': "kheap_ok (m, heap)" using ok h by simp
  have live: "kheap_live (?m', heap) = kheap_live (m, heap)"
    by (rule kheap_write(2) [OF ok' b(1) _ keeps]) (rule own)
  have "?m' (fst c + k) = m (fst c + k)" if "c \<in> kheap_live (m, heap) - {(p, s)}" "k < snd c" for c k
    by (rule kheap_write(3) [OF ok' b(1) _ keeps]) (use own that in auto)
  with live b(1) show ?thesis unfolding h heap_call_run.simps by (auto intro!: bexI [of _ "(p, s)"])
qed

lemma heap_reach_ok: "heap_reach h \<Longrightarrow> kheap_ok h"
proof (induction rule: heap_reach.induct)
  case (boot m kernel_heap h)
  then show ?case using heap_init_spec [of m kernel_heap] by auto
next
  case (call h c p h')
  then show ?case using heap_call_total [of h c] by auto
qed

section \<open>Properties\<close>

text \<open>A small heap of one block of 100 bytes, free or allocated, on which the properties are
  instantiated.\<close>

definition sample_mem :: "u8 \<Rightarrow> mem" where
  "sample_mem al = put32 (put32 ((put32 (put32 (\<lambda>_. 0) 4096 MEM_MAGIC) 4100 100)(4104 := al))
     4212 MEM_CIGAM) 4216 4096"

definition sample_heap :: MemHeap where
  "sample_heap = \<lparr>mh_index = \<lparr>sa_elems = [4096, 0, 0], sa_size = 1, sa_max = 3, sa_cmp = heap_cmp,
     sa_alloc = False\<rparr>, mh_addr = 4096, mh_len = 124, mh_pdata = 0, mh_pindex = 0\<rparr>"

lemma sample_ok:
  "kheap_ok (sample_mem al, sample_heap)" "\<And>m. kheap_room (m, sample_heap)"
  "kheap_live (sample_mem al, sample_heap) = (if al \<noteq> 0 then {(4112, 100)} else {})"
  "kheap_blocks (sample_mem al, sample_heap) = [(100, al \<noteq> 0)]"
proof -
  have "block_ok (sample_mem al) 4096 100 (al \<noteq> 0)"
    by (simp add: block_ok_def sample_mem_def mem_simps)
  then have "heap_inv (sample_mem al) sample_heap [(100, al \<noteq> 0)]"
    by (simp add: heap_inv_def sample_heap_def sa_ok_def sa_list_def)
  from heap_inv_walk [OF this] show "kheap_ok (sample_mem al, sample_heap)"
    "kheap_live (sample_mem al, sample_heap) = (if al \<noteq> 0 then {(4112, 100)} else {})"
    "kheap_blocks (sample_mem al, sample_heap) = [(100, al \<noteq> 0)]"
    by (simp_all add: sample_heap_def)
  show "\<And>m. kheap_room (m, sample_heap)" by (simp add: kheap_room_def sample_heap_def)
qed

text \<open>
  C1: let the heap be well-formed (in the sense of \<open>block_ok\<close>, with the condition on stale footers that the next
  property describes), let the index have two free slots (the code inserts into it without
  a capacity check) and let the size plus the 24 bytes of header and footer not wrap around 2^32 (the
  code adds them without a check). Then \<^verbatim>\<open>kmalloc\<close> does not fault. It returns NULL, leaving the heap as it was, only
  if every free block is smaller than the request; otherwise it returns a pointer to a new block
  at least as large as the request, which overlaps no block that was live before, the heap stays
  well-formed, exactly that block is added to the live ones, and no byte of another live
  block changes.
\<close>

theorem kmalloc_correct:
  assumes "kheap_ok (m, heap)" and "kheap_room (m, heap)" and "unat n + 24 < 4294967296"
  shows "kmalloc m heap n = Inr (0, m, heap) \<and>
      (\<forall>s. (s, False) \<in> set (kheap_blocks (m, heap)) \<longrightarrow> s < unat n) \<or>
    (\<exists>p h' s. kmalloc m heap n = Inr (p, h') \<and> p \<noteq> 0 \<and> kheap_ok h' \<and> unat n \<le> s \<and>
       kheap_live h' = insert (unat p, s) (kheap_live (m, heap)) \<and>
       (\<forall>b \<in> kheap_live (m, heap). apart (unat p, s) b) \<and>
       (\<forall>q t k. (q, t) \<in> kheap_live (m, heap) \<longrightarrow> k < t \<longrightarrow> fst h' (q + k) = m (q + k)))"
  using kheap_alloc_spec [OF assms, of False]
proof
  assume "\<exists>p h' s. heap_alloc m heap n False = Inr (p, h') \<and> p \<noteq> 0 \<and> kheap_ok h' \<and> unat n \<le> s \<and>
    (unat p, s) \<notin> kheap_live (m, heap) \<and> kheap_live h' = insert (unat p, s) (kheap_live (m, heap)) \<and>
    (False \<longrightarrow> unat p mod 4096 = 0) \<and>
    (\<forall>q t k. (q, t) \<in> kheap_live (m, heap) \<longrightarrow> k < t \<longrightarrow> fst h' (q + k) = m (q + k))"
  then obtain p h' s where a: "kmalloc m heap n = Inr (p, h')" "p \<noteq> 0" "kheap_ok h'" "unat n \<le> s"
    "(unat p, s) \<notin> kheap_live (m, heap)" "kheap_live h' = insert (unat p, s) (kheap_live (m, heap))"
    "\<forall>q t k. (q, t) \<in> kheap_live (m, heap) \<longrightarrow> k < t \<longrightarrow> fst h' (q + k) = m (q + k)"
    unfolding kmalloc_def by blast
  have "apart (unat p, s) b" if "b \<in> kheap_live (m, heap)" for b
    using kheap.blocks_apart [OF a(3), of "(unat p, s)" b] a(5,6) that by auto
  with a show ?thesis by blast
next
  assume null: "heap_alloc m heap n False = Inr (0, m, heap) \<and>
    (\<forall>(a, s) \<in> kheap_idle (m, heap). \<not> block_fits False a s (unat n))"
  have "s < unat n" if free: "(s, False) \<in> set (kheap_blocks (m, heap))" for s
    using null idle_sizes [OF free, of "unat (mh_addr heap)"]
    by (fastforce simp: kheap_idle_def block_fits_def)
  with null show ?thesis by (simp add: kmalloc_def)
qed

theorem kmalloc_correct_witness:
  "\<exists>p h' s. kmalloc (sample_mem 0) sample_heap 50 = Inr (p, h') \<and> p \<noteq> 0 \<and> kheap_ok h' \<and> 50 \<le> s \<and>
     kheap_live h' = {(unat p, s)}"
  using kmalloc_correct [OF sample_ok(1,2), of 50 0] by (simp add: sample_ok)

text \<open>
  C10: under the conditions of \<^verbatim>\<open>kmalloc\<close> (well-formed heap with its condition on stale footers, two free index slots, a size that does not
  wrap with the overhead), \<^verbatim>\<open>kvalloc\<close> does not fault. It returns NULL, leaving the heap as it was, only
  when no free block fits, that is, no free block starts at a page boundary and is large
  enough, or leaves more than 40 bytes in front of its next page boundary and enough behind it;
  otherwise the pointer is page aligned, heads a fresh block at least as large as the
  request, and the other live blocks keep their bytes.
\<close>

theorem kvalloc_aligned:
  assumes "kheap_ok (m, heap)" and "kheap_room (m, heap)" and "unat n + 24 < 4294967296"
  shows "kvalloc m heap n = Inr (0, m, heap) \<and>
      (\<forall>(a, s) \<in> kheap_idle (m, heap). \<not> block_fits True a s (unat n)) \<or>
    (\<exists>p h' s. kvalloc m heap n = Inr (p, h') \<and> p \<noteq> 0 \<and> unat p mod 4096 = 0 \<and> kheap_ok h' \<and>
       unat n \<le> s \<and> (unat p, s) \<notin> kheap_live (m, heap) \<and>
       kheap_live h' = insert (unat p, s) (kheap_live (m, heap)) \<and>
       (\<forall>q t k. (q, t) \<in> kheap_live (m, heap) \<longrightarrow> k < t \<longrightarrow> fst h' (q + k) = m (q + k)))"
  using kheap_alloc_spec [OF assms, of True]
proof
  assume "\<exists>p h' s. heap_alloc m heap n True = Inr (p, h') \<and> p \<noteq> 0 \<and> kheap_ok h' \<and> unat n \<le> s \<and>
    (unat p, s) \<notin> kheap_live (m, heap) \<and> kheap_live h' = insert (unat p, s) (kheap_live (m, heap)) \<and>
    (True \<longrightarrow> unat p mod 4096 = 0) \<and>
    (\<forall>q t k. (q, t) \<in> kheap_live (m, heap) \<longrightarrow> k < t \<longrightarrow> fst h' (q + k) = m (q + k))"
  then obtain p h' s where "heap_alloc m heap n True = Inr (p, h')" "p \<noteq> 0" "kheap_ok h'" "unat n \<le> s"
    "(unat p, s) \<notin> kheap_live (m, heap)" "kheap_live h' = insert (unat p, s) (kheap_live (m, heap))"
    "unat p mod 4096 = 0"
    "\<forall>q t k. (q, t) \<in> kheap_live (m, heap) \<longrightarrow> k < t \<longrightarrow> fst h' (q + k) = m (q + k)"
    by auto
  then show ?thesis by (intro disjI2 exI [of _ p] exI [of _ h'] exI [of _ s]) (simp add: kvalloc_def)
qed (simp add: kvalloc_def)

text \<open>A free block of two pages whose payload starts 16 bytes into the first: the aligned block is cut
  out of it at the page boundary inside.\<close>

definition sample_pages_mem :: mem where
  "sample_pages_mem = put32 (put32 ((put32 (put32 (\<lambda>_. 0) 4096 MEM_MAGIC) 4100 8192)(4104 := 0))
     12304 MEM_CIGAM) 12308 4096"

definition sample_pages_heap :: MemHeap where
  "sample_pages_heap = sample_heap\<lparr>mh_len := 8216\<rparr>"

lemma sample_pages_ok:
  "kheap_ok (sample_pages_mem, sample_pages_heap)" "kheap_room (sample_pages_mem, sample_pages_heap)"
  "kheap_live (sample_pages_mem, sample_pages_heap) = {}"
  "kheap_idle (sample_pages_mem, sample_pages_heap) = {(4096, 8192)}"
proof -
  have "block_ok sample_pages_mem 4096 8192 False"
    by (simp add: block_ok_def sample_pages_mem_def mem_simps)
  then have "heap_inv sample_pages_mem sample_pages_heap [(8192, False)]"
    by (simp add: heap_inv_def sample_pages_heap_def sample_heap_def sa_ok_def sa_list_def)
  from heap_inv_walk [OF this] show "kheap_ok (sample_pages_mem, sample_pages_heap)"
    "kheap_live (sample_pages_mem, sample_pages_heap) = {}"
    "kheap_idle (sample_pages_mem, sample_pages_heap) = {(4096, 8192)}"
    by (simp_all add: kheap_idle_def sample_pages_heap_def sample_heap_def)
  show "kheap_room (sample_pages_mem, sample_pages_heap)"
    by (simp add: kheap_room_def sample_pages_heap_def sample_heap_def)
qed

theorem kvalloc_aligned_witness:
  "\<exists>p h' s. kvalloc sample_pages_mem sample_pages_heap 50 = Inr (p, h') \<and> p \<noteq> 0 \<and>
     unat p mod 4096 = 0 \<and> kheap_ok h' \<and> 50 \<le> s \<and> kheap_live h' = {(unat p, s)}"
  using kvalloc_aligned [OF sample_pages_ok(1,2), of 50]
  by (simp add: sample_pages_ok block_fits_def page_fits_def)

text \<open>
  C2: let the heap be well-formed, with two free index slots. Well-formed includes a condition on the
  contents of live blocks: where the footer of a once merged block still points to the dead header
  inside it, because the left merge does not update the footer, that word is not \<^verbatim>\<open>MEM_MAGIC\<close>. Then
  \<^verbatim>\<open>kfree\<close> of a live pointer does not fault, keeps the heap well-formed, removes exactly that block
  from the live ones (whether or not it is merged with free neighbours) and changes no byte of any
  other live block.
\<close>

theorem kfree_correct:
  assumes "kheap_ok (m, heap)" and "kheap_room (m, heap)" and "(unat p, s) \<in> kheap_live (m, heap)"
  shows "\<exists>h'. kfree m heap p = Inr h' \<and> kheap_ok h' \<and>
    kheap_live h' = kheap_live (m, heap) - {(unat p, s)} \<and>
    (\<forall>q t k. (q, t) \<in> kheap_live (m, heap) - {(unat p, s)} \<longrightarrow> k < t \<longrightarrow> fst h' (q + k) = m (q + k))"
  unfolding kfree_def by (rule kheap_free_spec [OF assms])

theorem kfree_correct_witness:
  "\<exists>h'. kfree (sample_mem 1) sample_heap 4112 = Inr h' \<and> kheap_ok h' \<and> kheap_live h' = {}"
  using kfree_correct [OF sample_ok(1,2), of 4112 100 1] by (auto simp: sample_ok)

text \<open>
  a block obtained from \<^verbatim>\<open>kmalloc\<close> and given back at once restores the set of live blocks and
  every byte of them.
\<close>

theorem kmalloc_kfree_roundtrip:
  assumes "kheap_ok (m, heap)" and "kheap_room (m, heap)" and "unat n + 24 < 4294967296"
    and "kmalloc m heap n = Inr (p, m', heap')" and "p \<noteq> 0" and "kheap_room (m', heap')"
  shows "\<exists>h''. kfree m' heap' p = Inr h'' \<and> kheap_ok h'' \<and> kheap_live h'' = kheap_live (m, heap) \<and>
    (\<forall>q t k. (q, t) \<in> kheap_live (m, heap) \<longrightarrow> k < t \<longrightarrow> fst h'' (q + k) = m (q + k))"
  using kheap.alloc_release [OF assms(1,2,3), of False p "(m', heap')"] assms(4-6)
  by (simp add: kheap_alloc_def kheap_free_def kmalloc_def kfree_def)

lemma sample_alloc:
  "kmalloc (sample_mem 0) sample_heap 90 = Inr (4112, set_mh_alloc (sample_mem 0) 4096 1, sample_heap)"
proof -
  have "mh_magic (sample_mem 0) 4096 = MEM_MAGIC" "mh_alloc (sample_mem 0) 4096 = 0"
    "mh_size (sample_mem 0) 4096 = 100"
    by (simp_all add: sample_mem_def heap_field_defs mem_simps)
  then show ?thesis
    by (simp add: kmalloc_def heap_alloc_def heap_alloc_loop.simps heap_alloc_try_def heap_carve_def
        sample_heap_def sorted_array_lookup_def sizeof_MemHeader_def sizeof_MemFooter_def)
qed

theorem kmalloc_kfree_roundtrip_witness:
  "\<exists>h''. kfree (set_mh_alloc (sample_mem 0) 4096 1) sample_heap 4112 = Inr h'' \<and> kheap_ok h'' \<and>
    kheap_live h'' = {}"
  using kmalloc_kfree_roundtrip [OF sample_ok(1,2) _ sample_alloc]
  by (auto simp: sample_ok)

text \<open>
  \<^verbatim>\<open>kzalloc\<close> returns NULL or a fresh block whose requested bytes are all zero, in a well-formed heap
  whose other live blocks are untouched.
\<close>

theorem kzalloc_zeroed:
  assumes "kheap_ok (m, heap)" and "kheap_room (m, heap)" and "unat n + 24 < 4294967296"
  shows "kzalloc m heap n = Inr (0, m, heap) \<or>
    (\<exists>p m' heap' s. kzalloc m heap n = Inr (p, m', heap') \<and> p \<noteq> 0 \<and> kheap_ok (m', heap') \<and>
       unat n \<le> s \<and> (unat p, s) \<notin> kheap_live (m, heap) \<and>
       kheap_live (m', heap') = insert (unat p, s) (kheap_live (m, heap)) \<and>
       (\<forall>k < unat n. m' (unat p + k) = 0) \<and>
       (\<forall>q t k. (q, t) \<in> kheap_live (m, heap) \<longrightarrow> k < t \<longrightarrow> m' (q + k) = m (q + k)))"
  by (rule kzalloc_spec [OF assms])

theorem kzalloc_zeroed_witness:
  "kzalloc (sample_mem 0) sample_heap 50 = Inr (0, sample_mem 0, sample_heap) \<or>
    (\<exists>p m' heap'. kzalloc (sample_mem 0) sample_heap 50 = Inr (p, m', heap') \<and>
       (\<forall>k < 50. m' (unat p + k) = 0))"
  using kzalloc_zeroed [OF sample_ok(1,2), of 50 0] by auto

text \<open>
  \<^verbatim>\<open>heap_init\<close> succeeds on every memory and sets the heap up as one free block that fills the
  heap region, with nothing allocated.
\<close>

theorem heap_init_correct:
  "\<exists>m' heap'. heap_init m kernel_heap = Inr (m', heap') \<and> kheap_ok (m', heap') \<and>
    kheap_room (m', heap') \<and> kheap_live (m', heap') = {} \<and>
    kheap_blocks (m', heap') = [(unat KHEAP_DATA_LEN - 24, False)] \<and>
    mh_addr heap' = KHEAP_DATA_VADDR \<and> mh_len heap' = KHEAP_DATA_LEN"
  by (rule heap_init_spec)

text \<open>
  C3: in every state the kernel reaches from \<^verbatim>\<open>heap_init\<close> by permitted calls of \<^verbatim>\<open>kmalloc\<close>, \<^verbatim>\<open>kvalloc\<close>,
  \<^verbatim>\<open>kzalloc\<close> and \<^verbatim>\<open>kfree\<close> and by clients writing into their own live blocks, in any order, the heap is
  well-formed, any two live blocks are disjoint, the payloads and headers of the live blocks fit into
  the region, and every further permitted call returns without a fault, a write changing nothing
  outside the block it is made to. Permitted means: the index has two free slots and the size plus
  24 stays below 2^32 for an allocation; the pointer is NULL, or live with two free index slots, for
  \<^verbatim>\<open>kfree\<close>; and a write stays inside one live block and leaves no \<^verbatim>\<open>MEM_MAGIC\<close> at the word which a
  stale footer of that block points to (the lemma \<open>stale_footer_overwrite\<close> shows what happens
  otherwise). \<^verbatim>\<open>krealloc\<close> is not covered.
\<close>

theorem heap_reach_safe:
  assumes "heap_reach h"
  shows "kheap_ok h \<and> (\<forall>b \<in> kheap_live h. \<forall>c \<in> kheap_live h. b \<noteq> c \<longrightarrow> apart b c) \<and>
    sum snd (kheap_live h) + 24 * card (kheap_live h) \<le> unat (mh_len (snd h)) \<and>
    (\<forall>c. heap_call_ok h c \<longrightarrow> (\<exists>p h'. heap_call_run h c = Inr (p, h') \<and> heap_reach h')) \<and>
    (\<forall>q vs. heap_call_ok h (Store q vs) \<longrightarrow> (\<exists>h'. heap_call_run h (Store q vs) = Inr (0, h') \<and>
       kheap_live h' = kheap_live h \<and> (\<exists>b \<in> kheap_live h. \<forall>c \<in> kheap_live h - {b}. \<forall>k < snd c.
         fst h' (fst c + k) = fst h (fst c + k))))"
proof -
  have ok: "kheap_ok h" by (rule heap_reach_ok [OF assms])
  have "sum snd (kheap_live h) + 24 * card (kheap_live h) \<le> span (kheap_blocks h)"
    unfolding kheap_live_def using live_size_sum by blast
  also have "\<dots> = unat (mh_len (snd h))" using ok by (simp add: kheap_ok_def heap_inv_def)
  finally show ?thesis
    using ok kheap.blocks_apart [OF ok] heap_call_total [OF ok] heap_reach.call [OF assms]
      store_own_block [OF ok] by blast
qed

lemma store_first_ok:
  assumes ok: "kheap_ok h" and p: "(unat p, s) \<in> kheap_live h" and s: "0 < s" and v: "v \<noteq> 0xde"
  shows "heap_call_ok h (Store p [v])"
proof -
  obtain m heap where h: "h = (m, heap)" by force
  let ?m' = "store_bytes m p [v]"
  have "get32 ?m' f \<noteq> MEM_MAGIC" if f: "stale_footer m (unat p, s) = Some f" for f
  proof (cases "f = unat p")
    case True
    then have "?m' f = v" by (simp add: store_bytes_def)
    then show ?thesis using get32_magic_byte [of ?m' f] v by auto
  next
    case False
    then have "get32 ?m' f = get32 m f"
      using stale_footer_dead(1) [of m heap "unat p" s f] ok p f
      by (intro get32_cong) (auto simp: h store_bytes_def)
    then show ?thesis using stale_footer_dead(3) [of m heap "unat p" s f] ok p f by (simp add: h)
  qed
  then have "write_keeps m ?m' (unat p, s)" by (simp add: write_keeps_def split: option.splits)
  then show ?thesis using p s by (auto simp: h store_inside_def intro!: bexI [of _ "(unat p, s)"])
qed

theorem heap_reach_safe_witness:
  "case heap_init (\<lambda>_. 0) sample_heap of Inl e \<Rightarrow> False
   | Inr h \<Rightarrow> heap_reach h \<and> (\<exists>p h' h''. heap_call_run h (KMalloc 64) = Inr (p, h') \<and> heap_reach h' \<and>
       p \<noteq> 0 \<and> heap_call_run h' (Store p [7]) = Inr (0, h'') \<and> kheap_live h'' = kheap_live h')"
proof -
  from heap_init_spec [of "\<lambda>_. 0" sample_heap] obtain m heap where
    h: "heap_init (\<lambda>_. 0) sample_heap = Inr (m, heap)" "kheap_room (m, heap)" "kheap_ok (m, heap)"
      "kheap_blocks (m, heap) = [(unat KHEAP_DATA_LEN - 24, False)]" by auto
  then have reach: "heap_reach (m, heap)" by (intro heap_reach.boot)
  have fits: "\<not> (\<forall>(a, s) \<in> kheap_idle (m, heap). \<not> block_fits False a s (unat (64 :: u32)))"
    using h(4) by (simp add: kheap_idle_def block_fits_def KHEAP_DATA_LEN_def)
  have n: "unat (64 :: u32) + 24 < 4294967296" by simp
  from kheap_alloc_spec [OF h(3,2) n, of False] fits obtain p h' s where
    call: "heap_call_run (m, heap) (KMalloc 64) = Inr (p, h')" and p: "p \<noteq> 0" "kheap_ok h'"
      "unat (64 :: u32) \<le> s" "kheap_live h' = insert (unat p, s) (kheap_live (m, heap))"
    unfolding heap_call_run.simps kmalloc_def by blast
  have reach': "heap_reach h'" by (rule heap_reach.call [OF reach _ call]) (simp add: h(2))
  have "heap_call_ok h' (Store p [7])"
    by (rule store_first_ok [OF p(2), of p s]) (use p in auto)
  with heap_reach_safe [OF reach'] obtain h'' where
    "heap_call_run h' (Store p [7]) = Inr (0, h'')" "kheap_live h'' = kheap_live h'" by blast
  with h(1) reach reach' call p(1) show ?thesis by (cases h'') auto
qed

text \<open>
  Without the condition on client writes the safety is lost. A block of 100 bytes which was once
  merged from the left keeps a footer that points to the dead header at address 4152 in its payload.
  Its owner stores the bytes of \<^verbatim>\<open>MEM_MAGIC\<close> there, a store inside its own live block; when the next
  block is then freed, the left merge takes them for the header of a free block and adds to its size,
  which changes bytes of the live block.
\<close>

definition stale_mem :: mem where
  "stale_mem = put32 (put32 ((put32 (put32
     (put32 (put32 ((put32 (put32 (\<lambda>_. 0) 4096 MEM_MAGIC) 4100 100)(4104 := 1)) 4212 MEM_CIGAM) 4216 4152)
     4220 MEM_MAGIC) 4224 50)(4228 := 1)) 4286 MEM_CIGAM) 4290 4220"

definition stale_heap :: MemHeap where
  "stale_heap = \<lparr>mh_index = \<lparr>sa_elems = [4096, 4220, 0, 0], sa_size = 2, sa_max = 4,
     sa_cmp = heap_cmp, sa_alloc = False\<rparr>, mh_addr = 4096, mh_len = 198, mh_pdata = 0, mh_pindex = 0\<rparr>"

lemma stale_ok:
  "kheap_ok (stale_mem, stale_heap)" "kheap_live (stale_mem, stale_heap) = {(4112, 100), (4236, 50)}"
proof -
  have "get32 (\<lambda>_. 0) n = 0" for n by (simp add: get32_def)
  then have "block_ok stale_mem 4096 100 True" "block_ok stale_mem 4220 50 True"
    by (simp_all add: block_ok_def stale_mem_def mem_simps MEM_MAGIC_def)
  then have "heap_inv stale_mem stale_heap [(100, True), (50, True)]"
    by (simp add: heap_inv_def stale_heap_def sa_ok_def sa_list_def)
  from heap_inv_walk [OF this] show "kheap_ok (stale_mem, stale_heap)"
    "kheap_live (stale_mem, stale_heap) = {(4112, 100), (4236, 50)}"
    by (auto simp: stale_heap_def)
qed

lemma store_magic: "store_bytes m 4152 [0xde, 0xad, 0xbe, 0xef] = put32 m 4152 MEM_MAGIC"
proof
  fix k :: nat
  consider "k = 4152" | "k = 4153" | "k = 4154" | "k = 4155" | "k < 4152 \<or> 4156 \<le> k" by linarith
  then show "store_bytes m 4152 [0xde, 0xad, 0xbe, 0xef] k = put32 m 4152 MEM_MAGIC k"
    by cases (auto simp: store_bytes_def put32_def MEM_MAGIC_def)
qed

lemma stale_footer_overwrite:
  "let m = store_bytes stale_mem 4152 [0xde, 0xad, 0xbe, 0xef]
   in \<exists>m' heap'. kfree m stale_heap 4236 = Inr (m', heap') \<and>
        get32 m 4156 = 0 \<and> get32 m' 4156 = 74"
proof -
  have zero: "get32 (\<lambda>_. 0) n = 0" for n by (simp add: get32_def)
  let ?m = "put32 stale_mem 4152 MEM_MAGIC"
  let ?m1 = "?m(4228 := 0)"
  let ?m2 = "put32 (put32 ?m1 4156 74) 4220 0"
  have addr: "mh_addr stale_heap = 4096" by (simp add: stale_heap_def)
  have find: "heap_index_find (mh_index stale_heap) 4220 0 = Inr (Some 1)"
    by (simp add: heap_index_find.simps stale_heap_def sorted_array_lookup_def
        word_le_nat_alt word_less_nat_alt)
  obtain index where index: "sorted_array_remove (mh_index stale_heap) 1 = Inr index"
    by (simp add: stale_heap_def sorted_array_remove_def sorted_array_close.simps [of _ 2]
        word_less_nat_alt arr_get_def arr_set_def)
  have left: "heap_unify_left ?m1 stale_heap 4220 1 = Inr (?m2, stale_heap\<lparr>mh_index := index\<rparr>, 4152)"
    using index
    by (simp add: heap_unify_left_def heap_field_defs sizeof_MemHeader_def sizeof_MemFooter_def
        stale_mem_def mem_simps zero addr)
  have right: "heap_unify_right ?m2 (stale_heap\<lparr>mh_index := index\<rparr>) 4152 =
      Inr (?m2, stale_heap\<lparr>mh_index := index\<rparr>)"
    by (simp add: heap_unify_right_def heap_field_defs sizeof_MemHeader_def sizeof_MemFooter_def
        stale_mem_def mem_simps zero MEM_MAGIC_def)
  have "kfree ?m stale_heap 4236 = Inr (?m2, stale_heap\<lparr>mh_index := index\<rparr>)"
    using find left right
    by (simp add: kfree_def heap_free_def heap_field_defs sizeof_MemHeader_def stale_mem_def mem_simps)
  moreover have "get32 ?m 4156 = 0" "get32 ?m2 4156 = 74"
    by (simp_all add: stale_mem_def mem_simps zero)
  ultimately show ?thesis by (simp add: store_magic)
qed

end
