(* ===== verification/Kernel_State.thy ===== *)
theory Kernel_State
  imports Prelude "HOL-Library.State_Monad"
begin

unbundle bit_operations_syntax

text \<open>
  The state the system calls work on (\<^verbatim>\<open>include/sys/process.h\<close>, \<^verbatim>\<open>include/fs/vfs.h\<close>,
  \<^verbatim>\<open>include/sys/signal.h\<close>): the process table, the system file table, the inodes in memory and
  the superblocks. Tables are functions from indices; the limits are the constants below.
  Pointers to inodes and superblocks are natural numbers, NULL is 0. A kernel function that
  changes the state is a computation of the state monad.
\<close>

section \<open>Limits and flags\<close>

definition PROCESS_LIMIT :: nat where "PROCESS_LIMIT = 256"
definition PROCESS_FILE_LIMIT :: nat where "PROCESS_FILE_LIMIT = 64"
definition PROCESS_SYS_FILE_LIMIT :: nat where "PROCESS_SYS_FILE_LIMIT = 8192"
definition NSIG :: nat where "NSIG = 48"
definition CHAR_BIT :: nat where "CHAR_BIT = 8"
definition MAXSYMLINKS :: int where "MAXSYMLINKS = 32"

definition S_IFMT :: u32 where "S_IFMT = 0xf000"
definition S_IFIFO :: u32 where "S_IFIFO = 0x1000"
definition S_IFCHR :: u32 where "S_IFCHR = 0x2000"
definition S_IFDIR :: u32 where "S_IFDIR = 0x4000"
definition S_IFBLK :: u32 where "S_IFBLK = 0x6000"
definition S_IFREG :: u32 where "S_IFREG = 0x8000"
definition S_IFLNK :: u32 where "S_IFLNK = 0xa000"
definition S_IFSOCK :: u32 where "S_IFSOCK = 0xc000"
definition S_IRUSR :: u32 where "S_IRUSR = 0x100"
definition S_IWUSR :: u32 where "S_IWUSR = 0x080"
definition S_IXUSR :: u32 where "S_IXUSR = 0x040"
definition S_IRGRP :: u32 where "S_IRGRP = 0x020"
definition S_IWGRP :: u32 where "S_IWGRP = 0x010"
definition S_IXGRP :: u32 where "S_IXGRP = 0x008"
definition S_IROTH :: u32 where "S_IROTH = 0x004"
definition S_IWOTH :: u32 where "S_IWOTH = 0x002"
definition S_IXOTH :: u32 where "S_IXOTH = 0x001"

lemmas mode_defs = S_IFMT_def S_IFIFO_def S_IFCHR_def S_IFDIR_def S_IFBLK_def S_IFREG_def
  S_IFLNK_def S_IFSOCK_def S_IRUSR_def S_IWUSR_def S_IXUSR_def S_IRGRP_def S_IWGRP_def
  S_IXGRP_def S_IROTH_def S_IWOTH_def S_IXOTH_def

definition S_ISBLK :: "u32 \<Rightarrow> bool" where "S_ISBLK x \<longleftrightarrow> x AND S_IFMT = S_IFBLK"
definition S_ISCHR :: "u32 \<Rightarrow> bool" where "S_ISCHR x \<longleftrightarrow> x AND S_IFMT = S_IFCHR"
definition S_ISDIR :: "u32 \<Rightarrow> bool" where "S_ISDIR x \<longleftrightarrow> x AND S_IFMT = S_IFDIR"
definition S_ISFIFO :: "u32 \<Rightarrow> bool" where "S_ISFIFO x \<longleftrightarrow> x AND S_IFMT = S_IFIFO"
definition S_ISREG :: "u32 \<Rightarrow> bool" where "S_ISREG x \<longleftrightarrow> x AND S_IFMT = S_IFREG"
definition S_ISLNK :: "u32 \<Rightarrow> bool" where "S_ISLNK x \<longleftrightarrow> x AND S_IFMT = S_IFLNK"
definition S_ISSOCK :: "u32 \<Rightarrow> bool" where "S_ISSOCK x \<longleftrightarrow> x AND S_IFMT = S_IFSOCK"

definition O_RDONLY :: u32 where "O_RDONLY = 0"
definition O_WRONLY :: u32 where "O_WRONLY = 1"
definition O_RDWR :: u32 where "O_RDWR = 2"
definition O_ACCMODE :: u32 where "O_ACCMODE = 3"
definition O_CREAT :: u32 where "O_CREAT = 0x100"
definition O_EXCL :: u32 where "O_EXCL = 0x200"
definition O_TRUNC :: u32 where "O_TRUNC = 0x1000"
definition O_APPEND :: u32 where "O_APPEND = 0x2000"
definition O_NONBLOCK :: u32 where "O_NONBLOCK = 0x4000"
definition FD_CLOEXEC :: u32 where "FD_CLOEXEC = 1"
definition VI_FLAG_NONBLOCK :: u32 where "VI_FLAG_NONBLOCK = 0x01000000"
definition MS_NODEV :: u32 where "MS_NODEV = 2"
definition MS_NOSUID :: u32 where "MS_NOSUID = 8"
definition MS_RDONLY :: u32 where "MS_RDONLY = 32"

section \<open>Signal sets\<close>

text \<open>\<^verbatim>\<open>sigset_t\<close> is an array of \<^verbatim>\<open>NSIG / CHAR_BIT\<close> bytes; the first signal of a byte is its most
  significant bit.\<close>

type_synonym sigset = "nat \<Rightarrow> u8"

definition sig_bit :: "nat \<Rightarrow> u8" where
  "sig_bit sig = push_bit (7 - sig mod CHAR_BIT) 1"

definition sigemptyset :: sigset where
  "sigemptyset = (\<lambda>i. 0)"

definition sigfillset :: sigset where
  "sigfillset = (\<lambda>i. 0xff)"

definition sigaddset :: "sigset \<Rightarrow> nat \<Rightarrow> sigset" where
  "sigaddset s sig = s(sig div CHAR_BIT := s (sig div CHAR_BIT) OR sig_bit sig)"

definition sigdelset :: "sigset \<Rightarrow> nat \<Rightarrow> sigset" where
  "sigdelset s sig = s(sig div CHAR_BIT := s (sig div CHAR_BIT) AND NOT (sig_bit sig))"

definition sigismember :: "sigset \<Rightarrow> nat \<Rightarrow> bool" where
  "sigismember s sig \<longleftrightarrow> s (sig div CHAR_BIT) AND sig_bit sig \<noteq> 0"

section \<open>Structures\<close>

record sigaction =
  sa_handler :: u32
  sa_sigaction :: u32
  sa_flags :: u32
  sa_mask :: sigset

record siginfo =
  si_signo :: nat
  si_code :: u32
  si_pid :: int
  si_uid :: u16

text \<open>The scheduler task of a process, as far as the system calls read it.\<close>

record ProcessTask =
  t_ppid :: nat
  t_priority :: int

text \<open>\<^verbatim>\<open>struct rlimit\<close>.\<close>

record rlimit =
  rlim_cur :: u32
  rlim_max :: u32

record ProcessFile =
  pf_inode :: nat
  pf_path :: "string option"
  pf_mode :: u32
  pf_offset :: u64
  pf_refcnt :: int

record Process =
  p_files :: "nat \<Rightarrow> nat option"
  p_fdflags :: "nat \<Rightarrow> u32"
  p_sigactions :: "nat \<Rightarrow> sigaction"
  p_sigblocked :: sigset
  p_sigpending :: sigset
  p_task :: "ProcessTask option"
  p_cwd :: nat
  p_cwdpath :: "string option"
  p_break :: u32
  p_initbreak :: u32
  p_maxbreak :: u32
  p_maxfds :: u32
  p_addrspace :: rlimit
  p_coresize :: rlimit
  p_cputime :: rlimit
  p_filesize :: rlimit
  p_memlock :: rlimit
  p_pause :: bool
  p_sig :: nat
  p_siginfo :: siginfo
  p_children :: nat
  p_term :: bool
  p_waitstat :: u32
  p_umask :: u32
  p_uid :: u16
  p_euid :: u16
  p_suid :: u16
  p_gid :: u16
  p_egid :: u16
  p_sgid :: u16
  p_pgid :: int
  p_sid :: int

record VFSSuperblock =
  sb_mntflags :: u32
  sb_mntslot :: nat
  sb_root :: nat
  sb_fstype :: "nat option"
  sb_ops :: nat

text \<open>\<^verbatim>\<open>struct timespec\<close>: seconds and nanoseconds.\<close>

type_synonym timespec = "u64 \<times> u32"

record VFSInode =
  vi_uid :: u16
  vi_gid :: u16
  vi_ino :: u64
  vi_nlink :: u32
  vi_rdev :: u16
  vi_size :: u64
  vi_mode :: u32
  vi_atime :: timespec
  vi_mtime :: timespec
  vi_ctime :: timespec
  vi_blocks :: u64
  vi_flags :: u32
  vi_ops :: nat
  vi_sb :: nat
  vi_refcnt :: u32

text \<open>
  A registered filesystem (its mount and unmount functions are those of driver \<open>fs_driver\<close>; an
  entry with an empty name is free) and an entry of the mount table (free when
  \<open>mnt_fstype\<close>, \<^verbatim>\<open>vfs_fstype\<close>, is NULL). The superblock embedded in slot \<open>j\<close> of the mount table is
  the one at address \<open>mount_sb j\<close>.
\<close>

record VFSFilesystem =
  fs_name :: string
  fs_flags :: u32
  fs_driver :: nat

record VFSMount =
  mnt_fstype :: "nat option"
  mnt_point :: nat
  mnt_path :: "string option"

definition mount_sb :: "nat \<Rightarrow> nat" where
  "mount_sb j = Suc j"

definition VFS_FS_TABLE_SIZE :: nat where "VFS_FS_TABLE_SIZE = 8"
definition VFS_MOUNT_TABLE_SIZE :: nat where "VFS_MOUNT_TABLE_SIZE = 16"

text \<open>
  The kernel state. \<open>k_cur\<close> is the process \<^verbatim>\<open>task_getpid\<close> names; \<open>k_mem\<close> decides the coming
  allocations: whether each succeeds is the next element (an exhausted list always
  succeeds); \<open>k_fs\<close> is the state of the filesystems behind the operation tables.
\<close>

record 'w kernel =
  process_table :: "nat \<Rightarrow> Process"
  process_fd_table :: "nat \<Rightarrow> ProcessFile"
  process_fd_next :: nat
  k_cur :: nat
  exit_task :: nat
  k_inodes :: "nat \<Rightarrow> VFSInode"
  k_sbs :: "nat \<Rightarrow> VFSSuperblock"
  fs_table :: "nat \<Rightarrow> VFSFilesystem"
  mount_table :: "nat \<Rightarrow> VFSMount"
  vfs_root_inode :: nat
  k_mem :: "bool list"
  k_fs :: 'w

type_synonym ('w, 'a) kern = "('w kernel, 'a) state"

text \<open>The running process and updates of single entries of the tables.\<close>

definition cur_proc :: "'w kernel \<Rightarrow> Process" where
  "cur_proc k = process_table k (k_cur k)"

definition upd_proc :: "nat \<Rightarrow> (Process \<Rightarrow> Process) \<Rightarrow> 'w kernel \<Rightarrow> 'w kernel" where
  "upd_proc pid f k = k\<lparr>process_table := (process_table k)(pid := f (process_table k pid))\<rparr>"

definition upd_file :: "nat \<Rightarrow> (ProcessFile \<Rightarrow> ProcessFile) \<Rightarrow> 'w kernel \<Rightarrow> 'w kernel" where
  "upd_file i f k = k\<lparr>process_fd_table := (process_fd_table k)(i := f (process_fd_table k i))\<rparr>"

definition upd_inode :: "nat \<Rightarrow> (VFSInode \<Rightarrow> VFSInode) \<Rightarrow> 'w kernel \<Rightarrow> 'w kernel" where
  "upd_inode i f k = k\<lparr>k_inodes := (k_inodes k)(i := f (k_inodes k i))\<rparr>"

definition upd_sb :: "nat \<Rightarrow> (VFSSuperblock \<Rightarrow> VFSSuperblock) \<Rightarrow> 'w kernel \<Rightarrow> 'w kernel" where
  "upd_sb i f k = k\<lparr>k_sbs := (k_sbs k)(i := f (k_sbs k i))\<rparr>"

definition upd_mount :: "nat \<Rightarrow> (VFSMount \<Rightarrow> VFSMount) \<Rightarrow> 'w kernel \<Rightarrow> 'w kernel" where
  "upd_mount i f k = k\<lparr>mount_table := (mount_table k)(i := f (mount_table k i))\<rparr>"

definition gets :: "('w kernel \<Rightarrow> 'a) \<Rightarrow> ('w, 'a) kern" where
  "gets f = State (\<lambda>k. (f k, k))"

definition modify :: "('w kernel \<Rightarrow> 'w kernel) \<Rightarrow> ('w, unit) kern" where
  "modify f = State (\<lambda>k. ((), f k))"

lemma run_gets [simp]: "run_state (gets f) k = (f k, k)"
  by (simp add: gets_def)

lemma run_modify [simp]: "run_state (modify f) k = ((), f k)"
  by (simp add: modify_def)

definition whenS :: "bool \<Rightarrow> ('w, unit) kern \<Rightarrow> ('w, unit) kern" where
  "whenS c m = (if c then m else State_Monad.return ())"

text \<open>\<^verbatim>\<open>kmalloc\<close> (and \<^verbatim>\<open>strdup\<close>), of which only success or failure matters here.\<close>

definition kalloc :: "('w, bool) kern" where
  "kalloc = State (\<lambda>k. case k_mem k of [] \<Rightarrow> (True, k) | b # bs \<Rightarrow> (b, k\<lparr>k_mem := bs\<rparr>))"

definition process_valid :: "'w kernel \<Rightarrow> int \<Rightarrow> bool" where
  "process_valid k pid \<longleftrightarrow>
     0 \<le> pid \<and> pid < int PROCESS_LIMIT \<and> p_task (process_table k (nat pid)) \<noteq> None"

section \<open>Signal sets are sets\<close>

definition sigs :: "sigset \<Rightarrow> nat set" where
  "sigs s = {sig. sig < NSIG \<and> sigismember s sig}"

lemma sigismember_bit: "sigismember s sig \<longleftrightarrow> bit (s (sig div 8)) (7 - sig mod 8)"
  by (simp add: sigismember_def sig_bit_def CHAR_BIT_def bit_iff_and_push_bit_not_eq_0)

lemma bit_sig_bit: "bit (sig_bit sig) n \<longleftrightarrow> n = 7 - sig mod 8"
  by (auto simp: sig_bit_def CHAR_BIT_def bit_simps)

lemma sig_split: "sig = sig' \<longleftrightarrow> sig div 8 = sig' div 8 \<and> 7 - sig mod 8 = 7 - sig' mod (8 :: nat)"
proof
  assume "sig div 8 = sig' div 8 \<and> 7 - sig mod 8 = 7 - sig' mod 8"
  moreover from this have "sig mod 8 = sig' mod 8"
    using mod_less_divisor [of 8 sig] mod_less_divisor [of 8 sig'] by linarith
  ultimately show "sig = sig'" by (metis div_mult_mod_eq)
qed simp

lemma sigismember_add [simp]: "sigismember (sigaddset s x) y \<longleftrightarrow> y = x \<or> sigismember s y"
  using sig_split [of y x]
  by (auto simp: sigismember_bit sigaddset_def CHAR_BIT_def bit_or_iff bit_sig_bit)

lemma sigismember_del [simp]: "sigismember (sigdelset s x) y \<longleftrightarrow> y \<noteq> x \<and> sigismember s y"
proof -
  have "7 - y mod 8 < (8 :: nat)" by simp
  then show ?thesis
    using sig_split [of y x]
    by (auto simp: sigismember_bit sigdelset_def CHAR_BIT_def bit_and_iff bit_not_iff bit_sig_bit
        possible_bit_word)
qed

lemma sigismember_empty [simp]: "\<not> sigismember sigemptyset sig"
  by (simp add: sigismember_bit sigemptyset_def)

lemma sigismember_fill [simp]: "sigismember sigfillset sig"
proof -
  have "(0xff :: u8) = - 1" by simp
  then have "sigfillset i = - 1" for i by (simp only: sigfillset_def)
  then show ?thesis unfolding sigismember_bit by (simp only: bit_minus_1_iff possible_bit_word) simp
qed

text \<open>
  the signal-set functions of \<^verbatim>\<open>libk/signal.c\<close> implement sets of signal numbers: the byte arrays
  they manipulate represent the empty set, the full set, insertion and deletion.
\<close>

theorem sigset_refines:
  assumes "x < NSIG"
  shows "sigs sigemptyset = {} \<and> sigs sigfillset = {..<NSIG} \<and>
    sigs (sigaddset s x) = insert x (sigs s) \<and> sigs (sigdelset s x) = sigs s - {x} \<and>
    (sigismember s x \<longleftrightarrow> x \<in> sigs s)"
  using assms by (auto simp: sigs_def)

theorem sigset_refines_witness:
  "sigs (sigaddset sigemptyset 9) = {9} \<and> sigs (sigdelset (sigaddset sigemptyset 9) 9) = {}"
  using sigset_refines [of 9 sigemptyset] sigset_refines [of 9 "sigaddset sigemptyset 9"]
  by (simp add: NSIG_def)

end
