(* ===== verification/Creds.thy ===== *)
theory Creds
  imports Kernel_State
begin

text \<open>
  \<^verbatim>\<open>uapi/id.c\<close>: the identity system calls. Each works on the entry of the running process; pid and
  gid values are 16-bit words, process ids are integers. \<open>(uid_t) -1\<close> means ``leave as it
  is''. An output pointer of a \<^verbatim>\<open>get\<close> call is a flag that says whether it is not NULL.
\<close>

section \<open>The system calls\<close>

definition set_cur :: "(Process \<Rightarrow> Process) \<Rightarrow> ('w, unit) kern" where
  "set_cur f = modify (\<lambda>k. upd_proc (k_cur k) f k)"

definition sys_getpid :: "('w, int) kern" where
  "sys_getpid = gets (\<lambda>k. int (k_cur k))"

definition sys_setuid :: "u16 \<Rightarrow> ('w, int) kern" where
  "sys_setuid uid = do {
     proc \<leftarrow> gets cur_proc;
     if p_euid proc \<noteq> 0 \<and> p_uid proc \<noteq> uid then State_Monad.return (- EPERM)
     else do {
       set_cur (\<lambda>p. p\<lparr>p_uid := uid, p_euid := uid, p_suid := uid\<rparr>);
       State_Monad.return 0
     }
   }"

definition sys_getuid :: "'w kernel \<Rightarrow> u16" where
  "sys_getuid k = p_uid (cur_proc k)"

definition sys_setgid :: "u16 \<Rightarrow> ('w, int) kern" where
  "sys_setgid gid = do {
     proc \<leftarrow> gets cur_proc;
     if p_euid proc \<noteq> 0 \<and> p_gid proc \<noteq> gid then State_Monad.return (- EPERM)
     else do {
       set_cur (\<lambda>p. p\<lparr>p_gid := gid, p_egid := gid, p_sgid := gid\<rparr>);
       State_Monad.return 0
     }
   }"

definition sys_getgid :: "'w kernel \<Rightarrow> u16" where
  "sys_getgid k = p_gid (cur_proc k)"

definition sys_geteuid :: "'w kernel \<Rightarrow> u16" where
  "sys_geteuid k = p_euid (cur_proc k)"

definition sys_getegid :: "'w kernel \<Rightarrow> u16" where
  "sys_getegid k = p_egid (cur_proc k)"

definition sys_setpgid :: "int \<Rightarrow> int \<Rightarrow> ('w, int) kern" where
  "sys_setpgid pid0 pgid0 =
     (if pgid0 < 0 then State_Monad.return (- EINVAL)
      else do {
        k \<leftarrow> gets id;
        let pid = (if pid0 = 0 then int (k_cur k) else pid0);
        let pgid = (if pgid0 = 0 then int (k_cur k) else pgid0);
        if \<not> process_valid k pid then State_Monad.return (- ESRCH)
        else if p_sid (process_table k (nat pid)) = pid then State_Monad.return (- EPERM)
        else if process_valid k pgid \<and>
          p_sid (process_table k (nat pid)) \<noteq> p_sid (process_table k (nat pgid))
        then State_Monad.return (- EPERM)
        else do {
          modify (upd_proc (nat pid) (\<lambda>p. p\<lparr>p_pgid := pgid\<rparr>));
          State_Monad.return 0
        }
      })"

definition sys_getpgrp :: "'w kernel \<Rightarrow> int" where
  "sys_getpgrp k = p_pgid (cur_proc k)"

definition sys_setsid :: "('w, int) kern" where
  "sys_setsid = do {
     k \<leftarrow> gets id;
     let pid = k_cur k;
     if list_ex (\<lambda>i. i \<noteq> pid \<and> p_pgid (process_table k i) = int pid) [0..<PROCESS_LIMIT]
     then State_Monad.return (- EPERM)
     else do {
       set_cur (\<lambda>p. p\<lparr>p_pgid := int pid, p_sid := int pid\<rparr>);
       State_Monad.return (int pid)
     }
   }"

definition sys_setreuid :: "u16 \<Rightarrow> u16 \<Rightarrow> ('w, int) kern" where
  "sys_setreuid ruid euid = do {
     proc \<leftarrow> gets cur_proc;
     if p_euid proc \<noteq> 0 \<and>
        (ruid \<noteq> - 1 \<and> ruid \<noteq> p_uid proc \<and> ruid \<noteq> p_euid proc \<or>
         euid \<noteq> - 1 \<and> euid \<noteq> p_uid proc \<and> euid \<noteq> p_euid proc \<and> euid \<noteq> p_suid proc)
     then State_Monad.return (- EPERM)
     else do {
       whenS (euid \<noteq> - 1) (set_cur (\<lambda>p.
         (if p_uid p \<noteq> euid then p\<lparr>p_suid := euid\<rparr> else p)\<lparr>p_euid := euid\<rparr>));
       whenS (ruid \<noteq> - 1) (set_cur (\<lambda>p. p\<lparr>p_uid := ruid, p_suid := p_euid p\<rparr>));
       State_Monad.return 0
     }
   }"

definition sys_setregid :: "u16 \<Rightarrow> u16 \<Rightarrow> ('w, int) kern" where
  "sys_setregid rgid egid = do {
     proc \<leftarrow> gets cur_proc;
     if p_euid proc \<noteq> 0 \<and>
        (rgid \<noteq> - 1 \<and> rgid \<noteq> p_gid proc \<and> rgid \<noteq> p_egid proc \<or>
         egid \<noteq> - 1 \<and> egid \<noteq> p_gid proc \<and> egid \<noteq> p_egid proc \<and> egid \<noteq> p_sgid proc)
     then State_Monad.return (- EPERM)
     else do {
       whenS (egid \<noteq> - 1) (set_cur (\<lambda>p.
         (if p_gid p \<noteq> egid then p\<lparr>p_sgid := egid\<rparr> else p)\<lparr>p_egid := egid\<rparr>));
       whenS (rgid \<noteq> - 1) (set_cur (\<lambda>p. p\<lparr>p_gid := rgid, p_sgid := p_egid p\<rparr>));
       State_Monad.return 0
     }
   }"

definition sys_getgroups :: "int \<Rightarrow> ('w, int) kern" where
  "sys_getgroups n = State_Monad.return 0"

definition sys_setgroups :: "u32 \<Rightarrow> ('w, int) kern" where
  "sys_setgroups n = do {
     proc \<leftarrow> gets cur_proc;
     State_Monad.return (if p_euid proc \<noteq> 0 then - EPERM else - ENOTSUP)
   }"

definition sys_getpgid :: "'w kernel \<Rightarrow> int \<Rightarrow> int" where
  "sys_getpgid k pid =
     (if \<not> process_valid k pid then - ESRCH
      else p_pgid (process_table k (if pid = 0 then k_cur k else nat pid)))"

definition sys_getsid :: "'w kernel \<Rightarrow> int \<Rightarrow> int" where
  "sys_getsid k pid =
     (if \<not> process_valid k pid then - ESRCH else p_sid (process_table k (nat pid)))"

definition sys_setresuid :: "u16 \<Rightarrow> u16 \<Rightarrow> u16 \<Rightarrow> ('w, int) kern" where
  "sys_setresuid ruid euid suid = do {
     proc \<leftarrow> gets cur_proc;
     let bad = (\<lambda>x. x \<noteq> - 1 \<and> x \<noteq> p_uid proc \<and> x \<noteq> p_euid proc \<and> x \<noteq> p_suid proc);
     if p_euid proc \<noteq> 0 \<and> (bad ruid \<or> bad euid \<or> bad suid) then State_Monad.return (- EPERM)
     else do {
       whenS (ruid \<noteq> - 1) (set_cur (\<lambda>p. p\<lparr>p_uid := ruid\<rparr>));
       whenS (euid \<noteq> - 1) (set_cur (\<lambda>p. p\<lparr>p_euid := euid\<rparr>));
       whenS (suid \<noteq> - 1) (set_cur (\<lambda>p. p\<lparr>p_suid := suid\<rparr>));
       State_Monad.return 0
     }
   }"

definition sys_getresuid ::
  "'w kernel \<Rightarrow> bool \<Rightarrow> bool \<Rightarrow> bool \<Rightarrow> int \<times> u16 option \<times> u16 option \<times> u16 option" where
  "sys_getresuid k ruid euid suid =
     (0, if ruid then Some (p_uid (cur_proc k)) else None,
         if euid then Some (p_euid (cur_proc k)) else None,
         if suid then Some (p_suid (cur_proc k)) else None)"

definition sys_setresgid :: "u16 \<Rightarrow> u16 \<Rightarrow> u16 \<Rightarrow> ('w, int) kern" where
  "sys_setresgid rgid egid sgid = do {
     proc \<leftarrow> gets cur_proc;
     let bad = (\<lambda>x. x \<noteq> - 1 \<and> x \<noteq> p_gid proc \<and> x \<noteq> p_egid proc \<and> x \<noteq> p_sgid proc);
     if p_euid proc \<noteq> 0 \<and> (bad rgid \<or> bad egid \<or> bad sgid) then State_Monad.return (- EPERM)
     else do {
       whenS (rgid \<noteq> - 1) (set_cur (\<lambda>p. p\<lparr>p_gid := rgid\<rparr>));
       whenS (egid \<noteq> - 1) (set_cur (\<lambda>p. p\<lparr>p_egid := egid\<rparr>));
       whenS (sgid \<noteq> - 1) (set_cur (\<lambda>p. p\<lparr>p_sgid := sgid\<rparr>));
       State_Monad.return 0
     }
   }"

definition sys_getresgid ::
  "'w kernel \<Rightarrow> bool \<Rightarrow> bool \<Rightarrow> bool \<Rightarrow> int \<times> u16 option \<times> u16 option \<times> u16 option" where
  "sys_getresgid k rgid egid sgid =
     (0, if rgid then Some (p_gid (cur_proc k)) else None,
         if egid then Some (p_egid (cur_proc k)) else None,
         if sgid then Some (p_sgid (cur_proc k)) else None)"

section \<open>What an unprivileged process can reach\<close>

datatype id_call = Setuid u16 | Setgid u16 | Setreuid u16 u16 | Setregid u16 u16
  | Setresuid u16 u16 u16 | Setresgid u16 u16 u16 | Setpgid int int | Setsid | Setgroups u32

fun id_run :: "id_call \<Rightarrow> ('w, int) kern" where
  "id_run (Setuid u) = sys_setuid u"
| "id_run (Setgid g) = sys_setgid g"
| "id_run (Setreuid r e) = sys_setreuid r e"
| "id_run (Setregid r e) = sys_setregid r e"
| "id_run (Setresuid r e s) = sys_setresuid r e s"
| "id_run (Setresgid r e s) = sys_setresgid r e s"
| "id_run (Setpgid p g) = sys_setpgid p g"
| "id_run Setsid = sys_setsid"
| "id_run (Setgroups n) = sys_setgroups n"

primrec id_runs :: "id_call list \<Rightarrow> ('w, unit) kern" where
  "id_runs [] = State_Monad.return ()"
| "id_runs (c # cs) = do { r \<leftarrow> id_run c; id_runs cs }"

definition uids :: "Process \<Rightarrow> u16 set" where
  "uids p = {p_uid p, p_euid p, p_suid p}"

definition gids :: "Process \<Rightarrow> u16 set" where
  "gids p = {p_gid p, p_egid p, p_sgid p}"

lemmas id_call_defs = sys_setuid_def sys_setgid_def sys_setreuid_def sys_setregid_def
  sys_setresuid_def sys_setresgid_def sys_setpgid_def sys_setsid_def sys_setgroups_def
  set_cur_def whenS_def cur_proc_def upd_proc_def

text \<open>One call: the identities of the caller stay inside what it already has, unless it is
  privileged; other processes' identities do not change at all.\<close>

definition id_step_ok :: "'w kernel \<Rightarrow> 'w kernel \<Rightarrow> bool" where
  "id_step_ok k k' \<longleftrightarrow> k_cur k' = k_cur k \<and>
     (p_euid (cur_proc k) \<noteq> 0 \<longrightarrow>
        uids (cur_proc k') \<subseteq> uids (cur_proc k) \<and> gids (cur_proc k') \<subseteq> gids (cur_proc k)) \<and>
     (\<forall>i. i \<noteq> k_cur k \<longrightarrow> uids (process_table k' i) = uids (process_table k i) \<and>
        gids (process_table k' i) = gids (process_table k i))"

lemma upd_proc_simps [simp]:
  "k_cur (upd_proc i f k) = k_cur k"
  "cur_proc (upd_proc (k_cur k) f k) = f (cur_proc k)"
  "upd_proc i g (upd_proc i f k) = upd_proc i (\<lambda>p. g (f p)) k"
  "upd_proc i (\<lambda>p. p) k = k"
  "process_table (upd_proc i f k) j = (if j = i then f (process_table k i) else process_table k j)"
  by (simp_all add: upd_proc_def cur_proc_def)

text \<open>A call is an error that changes nothing, or an update of one entry and the result \<open>r\<close>.\<close>

lemma id_step_upd:
  assumes "p_euid (cur_proc k) \<noteq> 0 \<Longrightarrow>
    uids (f (cur_proc k)) \<subseteq> uids (cur_proc k) \<and> gids (f (cur_proc k)) \<subseteq> gids (cur_proc k)"
  shows "id_step_ok k (upd_proc (k_cur k) f k)"
  using assms by (simp add: id_step_ok_def)

lemma id_step_refl [simp]: "id_step_ok k k"
  by (simp add: id_step_ok_def)

lemma id_step_pgid [simp]: "id_step_ok k (upd_proc i (\<lambda>p. p\<lparr>p_pgid := g\<rparr>) k)"
  by (simp add: id_step_ok_def cur_proc_def uids_def gids_def)

lemma run_set_cur [simp]: "run_state (set_cur f) k = ((), upd_proc (k_cur k) f k)"
  by (simp add: set_cur_def)

lemma run_when_set_cur [simp]:
  "run_state (whenS c (set_cur f)) k = ((), upd_proc (k_cur k) (\<lambda>p. if c then f p else p) k)"
  by (simp add: whenS_def)

text \<open>The shape every identity call has: refused without effect, or an update of the caller.\<close>

definition id_shape :: "'w kernel \<Rightarrow> ('w, int) kern \<Rightarrow> bool" where
  "id_shape k m \<longleftrightarrow> id_step_ok k (snd (run_state m k)) \<and>
     (fst (run_state m k) < 0 \<longrightarrow> snd (run_state m k) = k)"

lemma guarded_run:
  assumes "run_state m k = (0, upd_proc (k_cur k) f k)"
    and "\<lbrakk>\<not> bad (cur_proc k); p_euid (cur_proc k) \<noteq> 0\<rbrakk> \<Longrightarrow>
      uids (f (cur_proc k)) \<subseteq> uids (cur_proc k) \<and> gids (f (cur_proc k)) \<subseteq> gids (cur_proc k)"
  shows "id_shape k (do { p \<leftarrow> gets cur_proc; if bad p then State_Monad.return (- EPERM) else m })"
  using assms id_step_upd [of k f] by (cases "bad (cur_proc k)") (simp_all add: id_shape_def)

lemma id_run_shape: "id_shape k (id_run c)"
proof (cases c)
  case (Setuid u)
  show ?thesis unfolding Setuid id_run.simps sys_setuid_def Let_def
    by (rule guarded_run, simp) (auto simp: uids_def gids_def)
next
  case (Setgid u)
  show ?thesis unfolding Setgid id_run.simps sys_setgid_def Let_def
    by (rule guarded_run, simp) (auto simp: uids_def gids_def)
next
  case (Setreuid r e)
  show ?thesis unfolding Setreuid id_run.simps sys_setreuid_def Let_def
    by (rule guarded_run, simp) (auto simp: uids_def gids_def)
next
  case (Setregid r e)
  show ?thesis unfolding Setregid id_run.simps sys_setregid_def Let_def
    by (rule guarded_run, simp) (auto simp: uids_def gids_def)
next
  case (Setresuid r e s)
  show ?thesis unfolding Setresuid id_run.simps sys_setresuid_def Let_def
    by (rule guarded_run, simp) (auto simp: uids_def gids_def)
next
  case (Setresgid r e s)
  show ?thesis unfolding Setresgid id_run.simps sys_setresgid_def Let_def
    by (rule guarded_run, simp) (auto simp: uids_def gids_def)
next
  case Setsid
  show ?thesis unfolding Setsid id_run.simps sys_setsid_def
    by (simp add: id_shape_def Let_def id_step_upd uids_def gids_def)
qed (simp_all add: id_shape_def sys_setpgid_def sys_setgroups_def Let_def)

lemma id_run_step: "id_step_ok k (snd (run_state (id_run c) k))"
  using id_run_shape [of k c] by (simp add: id_shape_def)

lemma id_run_error: "fst (run_state (id_run c) k) < 0 \<Longrightarrow> snd (run_state (id_run c) k) = k"
  using id_run_shape [of k c] by (simp add: id_shape_def)

lemma id_runs_ok:
  "0 \<notin> uids (cur_proc k) \<Longrightarrow> k' = snd (run_state (id_runs cs) k) \<Longrightarrow>
    k_cur k' = k_cur k \<and> uids (cur_proc k') \<subseteq> uids (cur_proc k) \<and> gids (cur_proc k') \<subseteq> gids (cur_proc k)"
proof (induction cs arbitrary: k k')
  case (Cons c cs)
  let ?k1 = "snd (run_state (id_run c) k)"
  have step: "id_step_ok k ?k1" by (rule id_run_step)
  have "p_euid (cur_proc k) \<noteq> 0" using Cons.prems(1) by (auto simp: uids_def)
  with step have sub: "k_cur ?k1 = k_cur k" "uids (cur_proc ?k1) \<subseteq> uids (cur_proc k)"
    "gids (cur_proc ?k1) \<subseteq> gids (cur_proc k)"
    by (simp_all add: id_step_ok_def)
  moreover have "k' = snd (run_state (id_runs cs) ?k1)"
    using Cons.prems(2) by (simp split: prod.splits)
  ultimately show ?case using Cons.IH [of ?k1 k'] Cons.prems(1) by auto
qed simp

section \<open>Properties\<close>

definition sample_proc :: Process where
  "sample_proc = \<lparr>p_files = (\<lambda>_. None), p_fdflags = (\<lambda>_. 0),
     p_sigactions = (\<lambda>_. \<lparr>sa_handler = 0, sa_sigaction = 0, sa_flags = 0, sa_mask = sigemptyset\<rparr>),
     p_sigblocked = sigemptyset, p_sigpending = sigemptyset, p_task = Some \<lparr>t_ppid = 0, t_priority = 0\<rparr>,
     p_cwd = 1, p_cwdpath = Some ''/'', p_break = 0, p_initbreak = 0, p_maxbreak = 0, p_maxfds = 0,
     p_addrspace = \<lparr>rlim_cur = 0, rlim_max = 0\<rparr>, p_coresize = \<lparr>rlim_cur = 0, rlim_max = 0\<rparr>,
     p_cputime = \<lparr>rlim_cur = 0, rlim_max = 0\<rparr>, p_filesize = \<lparr>rlim_cur = 0, rlim_max = 0\<rparr>,
     p_memlock = \<lparr>rlim_cur = 0, rlim_max = 0\<rparr>, p_pause = False, p_sig = 0,
     p_siginfo = \<lparr>si_signo = 0, si_code = 0, si_pid = 0, si_uid = 0\<rparr>, p_children = 0, p_term = False,
     p_waitstat = 0, p_umask = 0, p_uid = 1000, p_euid = 1000, p_suid = 1000, p_gid = 100,
     p_egid = 100, p_sgid = 100, p_pgid = 0, p_sid = 0\<rparr>"

definition sample_inode :: VFSInode where
  "sample_inode = \<lparr>vi_uid = 0, vi_gid = 0, vi_ino = 2, vi_nlink = 1, vi_rdev = 0, vi_size = 10,
     vi_mode = 0x41ed, vi_atime = (0, 0), vi_mtime = (0, 0), vi_ctime = (0, 0), vi_blocks = 0, vi_flags = 0, vi_ops = 0, vi_sb = 0, vi_refcnt = 1\<rparr>"

definition sample_kernel :: "unit kernel" where
  "sample_kernel = \<lparr>process_table = (\<lambda>_. sample_proc),
     process_fd_table = (\<lambda>_. \<lparr>pf_inode = 0, pf_path = None, pf_mode = 0, pf_offset = 0, pf_refcnt = 0\<rparr>),
     process_fd_next = 0, k_cur = 1, exit_task = 0, k_inodes = (\<lambda>_. sample_inode),
     k_sbs = (\<lambda>_. \<lparr>sb_mntflags = 0, sb_mntslot = 0, sb_root = 1, sb_fstype = None, sb_ops = 0\<rparr>),
     fs_table = (\<lambda>_. \<lparr>fs_name = [], fs_flags = 0, fs_driver = 0\<rparr>),
     mount_table = (\<lambda>_. \<lparr>mnt_fstype = None, mnt_point = 0, mnt_path = None\<rparr>),
     vfs_root_inode = 1, k_mem = [], k_fs = ()\<rparr>"

text \<open>
  C5: a process none of whose user ids is root never gains an identity: after any sequence of
  identity system calls its real, effective and saved user ids are among those it had, and
  likewise its group ids.
\<close>

theorem no_privilege_escalation:
  assumes "0 \<notin> uids (cur_proc k)"
  shows "uids (cur_proc (snd (run_state (id_runs cs) k))) \<subseteq> uids (cur_proc k) \<and>
    gids (cur_proc (snd (run_state (id_runs cs) k))) \<subseteq> gids (cur_proc k)"
  using id_runs_ok [OF assms refl, of cs] by blast

theorem no_privilege_escalation_witness:
  "uids (cur_proc (snd (run_state (id_runs [Setuid 0, Setreuid 0 0, Setresgid 5 6 7]) sample_kernel)))
    \<subseteq> {1000}"
  using no_privilege_escalation [of sample_kernel "[Setuid 0, Setreuid 0 0, Setresgid 5 6 7]"]
  by (simp add: sample_kernel_def sample_proc_def cur_proc_def uids_def)

text \<open>
  \<^verbatim>\<open>setuid\<close> to an unprivileged user, when it succeeds, is a permanent drop: whatever identity
  calls follow, all three user ids stay that user.
\<close>

theorem setuid_drop_permanent:
  assumes "run_state (sys_setuid u) k = (0, k')" and "u \<noteq> 0"
  shows "uids (cur_proc (snd (run_state (id_runs cs) k'))) = {u}"
proof -
  have "uids (cur_proc k') = {u}"
    using assms(1) by (auto simp: id_call_defs uids_def EPERM_def split: if_splits)
  then have "uids (cur_proc (snd (run_state (id_runs cs) k'))) \<subseteq> {u}"
    using id_runs_ok [of k' "snd (run_state (id_runs cs) k')" cs] assms(2) by auto
  then show ?thesis by (auto simp: uids_def)
qed

theorem setuid_drop_permanent_witness:
  "uids (cur_proc (snd (run_state (id_runs [Setresuid 0 0 0])
     (snd (run_state (sys_setuid 1000) sample_kernel))))) = {1000}"
  using setuid_drop_permanent [of 1000 sample_kernel "snd (run_state (sys_setuid 1000) sample_kernel)"
      "[Setresuid 0 0 0]"]
  by (simp add: id_call_defs sample_kernel_def sample_proc_def)

text \<open>
  an identity call that fails changes nothing, and no identity call changes the user or group
  ids of another process.
\<close>

theorem id_call_isolation:
  "(fst (run_state (id_run c) k) < 0 \<longrightarrow> snd (run_state (id_run c) k) = k) \<and>
    (\<forall>i. i \<noteq> k_cur k \<longrightarrow>
       uids (process_table (snd (run_state (id_run c) k)) i) = uids (process_table k i) \<and>
       gids (process_table (snd (run_state (id_run c) k)) i) = gids (process_table k i))"
  using id_run_error [of c k] id_run_step [of k c] by (simp add: id_step_ok_def)

theorem id_call_isolation_witness:
  "snd (run_state (id_run (Setuid 0)) sample_kernel) = sample_kernel"
  using id_call_isolation [of "Setuid 0" sample_kernel]
  by (simp add: id_call_defs sample_kernel_def sample_proc_def EPERM_def)

text \<open>
  \<^verbatim>\<open>setsid\<close> makes the caller leader of a new session and process group named after it, exactly
  when no other process is in the process group of that number; otherwise it fails with \<^verbatim>\<open>EPERM\<close> and
  changes nothing.
\<close>

theorem setsid_correct:
  "run_state sys_setsid k =
     (if \<exists>i < PROCESS_LIMIT. i \<noteq> k_cur k \<and> p_pgid (process_table k i) = int (k_cur k)
      then (- EPERM, k)
      else (int (k_cur k),
        upd_proc (k_cur k) (\<lambda>p. p\<lparr>p_pgid := int (k_cur k), p_sid := int (k_cur k)\<rparr>) k))"
  by (auto simp: sys_setsid_def set_cur_def Let_def list_ex_iff)

end
