(* ===== verification/Vfs.thy ===== *)
theory Vfs
  imports Creds
begin

unbundle bit_operations_syntax

text \<open>
  \<^verbatim>\<open>fs/perm.c\<close> and \<^verbatim>\<open>fs/vfs.c\<close>: permission checks, inode reference counts and the dispatch of every
  file operation to the filesystem that owns the inode. The operation tables
  (\<^verbatim>\<open>VFSInodeOps\<close>, \<^verbatim>\<open>VFSSuperblockOps\<close> and the drivers' mount functions) are tables of optional
  functions, arguments of the model; \<open>None\<close> is a NULL entry.
\<close>

section \<open>Operation tables\<close>

record stat64 =
  st_dev :: u16
  st_ino :: u64
  st_mode :: u32
  st_nlink :: u32
  st_uid :: u16
  st_gid :: u16
  st_rdev :: u16
  st_size :: u64
  st_atim :: timespec
  st_mtim :: timespec
  st_ctim :: timespec
  st_blksize :: u32
  st_blocks :: u64

record 'w VFSInodeOps =
  iop_create :: "(nat \<Rightarrow> string \<Rightarrow> u32 \<Rightarrow> ('w, int) kern) option"
  iop_lookup :: "(nat \<Rightarrow> nat \<Rightarrow> string \<Rightarrow> int \<Rightarrow> ('w, int \<times> nat) kern) option"
  iop_link :: "(nat \<Rightarrow> nat \<Rightarrow> string \<Rightarrow> ('w, int) kern) option"
  iop_unlink :: "(nat \<Rightarrow> string \<Rightarrow> ('w, int) kern) option"
  iop_symlink :: "(nat \<Rightarrow> string \<Rightarrow> string \<Rightarrow> ('w, int) kern) option"
  iop_read :: "(nat \<Rightarrow> u32 \<Rightarrow> u32 \<Rightarrow> ('w, int \<times> u8 list) kern) option"
  iop_write :: "(nat \<Rightarrow> u8 list \<Rightarrow> u32 \<Rightarrow> ('w, int) kern) option"
  iop_chmod :: "(nat \<Rightarrow> u32 \<Rightarrow> ('w, int) kern) option"
  iop_chown :: "(nat \<Rightarrow> u16 \<Rightarrow> u16 \<Rightarrow> ('w, int) kern) option"
  iop_mkdir :: "(nat \<Rightarrow> string \<Rightarrow> u32 \<Rightarrow> ('w, int) kern) option"
  iop_rmdir :: "(nat \<Rightarrow> string \<Rightarrow> ('w, int) kern) option"
  iop_mknod :: "(nat \<Rightarrow> string \<Rightarrow> u32 \<Rightarrow> u16 \<Rightarrow> ('w, int) kern) option"
  iop_rename :: "(nat \<Rightarrow> string \<Rightarrow> nat \<Rightarrow> string \<Rightarrow> ('w, int) kern) option"
  iop_readlink :: "(nat \<Rightarrow> u32 \<Rightarrow> ('w, int \<times> u8 list) kern) option"
  iop_truncate :: "(nat \<Rightarrow> ('w, int) kern) option"
  iop_getattr :: "(nat \<Rightarrow> stat64 \<Rightarrow> ('w, int \<times> stat64) kern) option"
  iop_setxattr :: "(nat \<Rightarrow> string \<Rightarrow> u8 list \<Rightarrow> u32 \<Rightarrow> ('w, int) kern) option"
  iop_getxattr :: "(nat \<Rightarrow> string \<Rightarrow> u32 \<Rightarrow> ('w, int \<times> u8 list) kern) option"
  iop_listxattr :: "(nat \<Rightarrow> u32 \<Rightarrow> ('w, int \<times> u8 list) kern) option"
  iop_removexattr :: "(nat \<Rightarrow> string \<Rightarrow> ('w, int) kern) option"

record 'w VFSSuperblockOps =
  sop_alloc_inode :: "(nat \<Rightarrow> ('w, nat) kern) option"
  sop_destroy_inode :: "(nat \<Rightarrow> ('w, unit) kern) option"
  sop_fill_inode :: "(nat \<Rightarrow> ('w, int) kern) option"
  sop_write_inode :: "(nat \<Rightarrow> ('w, int) kern) option"
  sop_free :: "(nat \<Rightarrow> ('w, unit) kern) option"
  sop_update :: "(nat \<Rightarrow> ('w, unit) kern) option"

record 'w fs_ops =
  iops :: "nat \<Rightarrow> 'w VFSInodeOps"
  sops :: "nat \<Rightarrow> 'w VFSSuperblockOps"
  mount_op :: "nat \<Rightarrow> nat \<Rightarrow> u32 \<Rightarrow> nat \<Rightarrow> ('w, int) kern"
  unmount_op :: "nat \<Rightarrow> nat \<Rightarrow> u32 \<Rightarrow> ('w, int) kern"

section \<open>Permissions (\<^verbatim>\<open>fs/perm.c\<close>)\<close>

definition vfs_perm_check_read :: "'w kernel \<Rightarrow> VFSInode \<Rightarrow> bool \<Rightarrow> int" where
  "vfs_perm_check_read k inode real =
     (let uid = (if real then sys_getuid k else sys_geteuid k); mode = vi_mode inode
      in if uid = 0 then 0
         else if vi_uid inode = uid then
           (if mode AND S_IRUSR = 0 then - EACCES
            else if S_ISDIR mode \<and> mode AND S_IXUSR = 0 then - EACCES else 0)
         else if vi_gid inode = (if real then sys_getgid k else sys_getegid k) then
           (if mode AND S_IRGRP = 0 then - EACCES
            else if S_ISDIR mode \<and> mode AND S_IXGRP = 0 then - EACCES else 0)
         else if mode AND S_IROTH = 0 then - EACCES
         else if S_ISDIR mode \<and> mode AND S_IXOTH = 0 then - EACCES
         else 0)"

definition vfs_perm_check_write :: "'w kernel \<Rightarrow> VFSInode \<Rightarrow> bool \<Rightarrow> int" where
  "vfs_perm_check_write k inode real =
     (let uid = (if real then sys_getuid k else sys_geteuid k); mode = vi_mode inode
      in if uid = 0 then 0
         else if vi_uid inode = uid then
           (if mode AND S_IWUSR = 0 then - EACCES
            else if S_ISDIR mode \<and> mode AND S_IXUSR = 0 then - EACCES else 0)
         else if vi_gid inode = (if real then sys_getgid k else sys_getegid k) then
           (if mode AND S_IWGRP = 0 then - EACCES
            else if S_ISDIR mode \<and> mode AND S_IXGRP = 0 then - EACCES else 0)
         else if mode AND S_IWOTH = 0 then - EACCES
         else if S_ISDIR mode \<and> mode AND S_IXOTH = 0 then - EACCES
         else 0)"

definition vfs_perm_check_exec :: "'w kernel \<Rightarrow> VFSInode \<Rightarrow> bool \<Rightarrow> int" where
  "vfs_perm_check_exec k inode real =
     (let uid = (if real then sys_getuid k else sys_geteuid k); mode = vi_mode inode
      in if uid = 0 then
           (if mode AND (S_IXUSR OR S_IXGRP OR S_IXOTH) \<noteq> 0 then 0 else - EACCES)
         else if vi_uid inode = uid then (if mode AND S_IXUSR = 0 then - EACCES else 0)
         else if vi_gid inode = (if real then sys_getgid k else sys_getegid k) then
           (if mode AND S_IXGRP = 0 then - EACCES else 0)
         else if mode AND S_IXOTH = 0 then - EACCES
         else 0)"

definition vfs_can_seek :: "VFSInode \<Rightarrow> bool" where
  "vfs_can_seek inode \<longleftrightarrow>
     \<not> (S_ISCHR (vi_mode inode) \<or> S_ISSOCK (vi_mode inode) \<or> S_ISFIFO (vi_mode inode))"

section \<open>Inodes and superblocks (\<^verbatim>\<open>fs/vfs.c\<close>)\<close>

definition inode_at :: "nat \<Rightarrow> ('w, VFSInode) kern" where
  "inode_at ino = gets (\<lambda>k. k_inodes k ino)"

text \<open>The operations of the superblock an inode belongs to, and its mount flags.\<close>

definition sb_sops :: "'w fs_ops \<Rightarrow> 'w kernel \<Rightarrow> nat \<Rightarrow> 'w VFSSuperblockOps" where
  "sb_sops fs k sb = sops fs (sb_ops (k_sbs k sb))"

definition inode_sops :: "'w fs_ops \<Rightarrow> 'w kernel \<Rightarrow> nat \<Rightarrow> 'w VFSSuperblockOps" where
  "inode_sops fs k ino = sb_sops fs k (vi_sb (k_inodes k ino))"

definition inode_rdonly :: "'w kernel \<Rightarrow> nat \<Rightarrow> bool" where
  "inode_rdonly k ino \<longleftrightarrow> sb_mntflags (k_sbs k (vi_sb (k_inodes k ino))) AND MS_RDONLY \<noteq> 0"

definition vfs_alloc_inode :: "'w fs_ops \<Rightarrow> nat \<Rightarrow> ('w, nat) kern" where
  "vfs_alloc_inode fs sb = do {
     ops \<leftarrow> gets (\<lambda>k. sb_sops fs k sb);
     case sop_alloc_inode ops of
       None \<Rightarrow> State_Monad.return 0
     | Some alloc \<Rightarrow> do {
         inode \<leftarrow> alloc sb;
         if inode = 0 then State_Monad.return 0
         else do {
           modify (upd_inode inode (\<lambda>i. i\<lparr>vi_sb := sb, vi_flags := 0, vi_refcnt := 1\<rparr>));
           State_Monad.return inode
         }
       }
   }"

definition vfs_ref_inode :: "nat \<Rightarrow> ('w, unit) kern" where
  "vfs_ref_inode inode =
     whenS (inode \<noteq> 0) (modify (upd_inode inode (\<lambda>i. i\<lparr>vi_refcnt := vi_refcnt i + 1\<rparr>)))"

definition vfs_unref_inode :: "'w fs_ops \<Rightarrow> nat \<Rightarrow> ('w, unit) kern" where
  "vfs_unref_inode fs inode =
     (if inode = 0 then State_Monad.return ()
      else do {
        modify (upd_inode inode (\<lambda>i. i\<lparr>vi_refcnt := vi_refcnt i - 1\<rparr>));
        i \<leftarrow> inode_at inode;
        ops \<leftarrow> gets (\<lambda>k. inode_sops fs k inode);
        case sop_destroy_inode ops of
          None \<Rightarrow> State_Monad.return ()
        | Some destroy \<Rightarrow> whenS (vi_refcnt i = 0) (destroy inode)
      })"

definition vfs_fill_inode :: "'w fs_ops \<Rightarrow> nat \<Rightarrow> ('w, int) kern" where
  "vfs_fill_inode fs inode = do {
     ops \<leftarrow> gets (\<lambda>k. inode_sops fs k inode);
     case sop_fill_inode ops of None \<Rightarrow> State_Monad.return (- ENOSYS) | Some f \<Rightarrow> f inode
   }"

definition vfs_write_inode :: "'w fs_ops \<Rightarrow> nat \<Rightarrow> ('w, int) kern" where
  "vfs_write_inode fs inode = do {
     ops \<leftarrow> gets (\<lambda>k. inode_sops fs k inode);
     case sop_write_inode ops of None \<Rightarrow> State_Monad.return (- ENOSYS) | Some f \<Rightarrow> f inode
   }"

definition vfs_free_sb :: "'w fs_ops \<Rightarrow> nat \<Rightarrow> ('w, unit) kern" where
  "vfs_free_sb fs sb = do {
     ops \<leftarrow> gets (\<lambda>k. sb_sops fs k sb);
     case sop_free ops of None \<Rightarrow> State_Monad.return () | Some f \<Rightarrow> f sb
   }"

definition vfs_update_sb :: "'w fs_ops \<Rightarrow> nat \<Rightarrow> ('w, unit) kern" where
  "vfs_update_sb fs sb = do {
     ops \<leftarrow> gets (\<lambda>k. sb_sops fs k sb);
     case sop_update ops of None \<Rightarrow> State_Monad.return () | Some f \<Rightarrow> f sb
   }"

section \<open>File operations (\<^verbatim>\<open>fs/vfs.c\<close>)\<close>

text \<open>
  The guards the functions share, in the order each function has them: \<open>fail_if\<close> is
  \<^verbatim>\<open>if (c) return e;\<close>, \<open>check\<close> is \<^verbatim>\<open>ret = c; if (ret != 0) return ret;\<close>, and \<open>vfs_op\<close> calls an
  entry of the inode's operation table or returns \<^verbatim>\<open>-ENOSYS\<close> when it is NULL. The
  functions that fill a buffer return its contents beside the result.
\<close>

definition fail_if :: "('w kernel \<Rightarrow> bool) \<Rightarrow> 'a \<Rightarrow> ('w, 'a) kern \<Rightarrow> ('w, 'a) kern" where
  "fail_if c e m = do { b \<leftarrow> gets c; if b then State_Monad.return e else m }"

definition check :: "('w kernel \<Rightarrow> int) \<Rightarrow> (int \<Rightarrow> 'a) \<Rightarrow> ('w, 'a) kern \<Rightarrow> ('w, 'a) kern" where
  "check c e m = do { ret \<leftarrow> gets c; if ret \<noteq> 0 then State_Monad.return (e ret) else m }"

definition vfs_op ::
  "'w fs_ops \<Rightarrow> ('w VFSInodeOps \<Rightarrow> 'f option) \<Rightarrow> nat \<Rightarrow> (int \<Rightarrow> 'a) \<Rightarrow> ('f \<Rightarrow> ('w, 'a) kern) \<Rightarrow> ('w, 'a) kern" where
  "vfs_op fs entry inode e call = do {
     i \<leftarrow> inode_at inode;
     case entry (iops fs (vi_ops i)) of
       None \<Rightarrow> State_Monad.return (e (- ENOSYS))
     | Some f \<Rightarrow> call f
   }"

definition inode_isdir :: "'w kernel \<Rightarrow> nat \<Rightarrow> bool" where
  "inode_isdir k ino \<longleftrightarrow> S_ISDIR (vi_mode (k_inodes k ino))"

definition no_buf :: "int \<Rightarrow> int \<times> u8 list" where
  "no_buf e = (e, [])"

definition vfs_create :: "'w fs_ops \<Rightarrow> nat \<Rightarrow> string \<Rightarrow> u32 \<Rightarrow> ('w, int) kern" where
  "vfs_create fs dir name mode =
    (fail_if (\<lambda>k. inode_rdonly k dir) (- EROFS)
     (fail_if (\<lambda>k. \<not> inode_isdir k dir) (- ENOTDIR)
      (check (\<lambda>k. vfs_perm_check_write k (k_inodes k dir) False) id
       (vfs_op fs iop_create dir id (\<lambda>f. f dir name mode)))))"

definition vfs_lookup :: "'w fs_ops \<Rightarrow> nat \<Rightarrow> nat \<Rightarrow> string \<Rightarrow> int \<Rightarrow> ('w, int \<times> nat) kern" where
  "vfs_lookup fs dir sb name symcount =
    (fail_if (\<lambda>k. \<not> inode_isdir k dir) (- ENOTDIR, 0)
     (fail_if (\<lambda>k. symcount \<ge> MAXSYMLINKS) (- ELOOP, 0)
      (check (\<lambda>k. vfs_perm_check_read k (k_inodes k dir) False) (\<lambda>e. (e, 0))
       (vfs_op fs iop_lookup dir (\<lambda>e. (e, 0)) (\<lambda>f. f dir sb name symcount)))))"

definition vfs_link :: "'w fs_ops \<Rightarrow> nat \<Rightarrow> nat \<Rightarrow> string \<Rightarrow> ('w, int) kern" where
  "vfs_link fs old dir new =
    (fail_if (\<lambda>k. inode_rdonly k dir) (- EROFS)
     (fail_if (\<lambda>k. \<not> inode_isdir k dir) (- ENOTDIR)
      (check (\<lambda>k. vfs_perm_check_write k (k_inodes k dir) False) id
       (vfs_op fs iop_link dir id (\<lambda>f. f old dir new)))))"

definition vfs_unlink :: "'w fs_ops \<Rightarrow> nat \<Rightarrow> string \<Rightarrow> ('w, int) kern" where
  "vfs_unlink fs dir name =
    (fail_if (\<lambda>k. inode_rdonly k dir) (- EROFS)
     (fail_if (\<lambda>k. \<not> inode_isdir k dir) (- ENOTDIR)
      (check (\<lambda>k. vfs_perm_check_write k (k_inodes k dir) False) id
       (vfs_op fs iop_unlink dir id (\<lambda>f. f dir name)))))"

definition vfs_symlink :: "'w fs_ops \<Rightarrow> nat \<Rightarrow> string \<Rightarrow> string \<Rightarrow> ('w, int) kern" where
  "vfs_symlink fs dir old new =
    (fail_if (\<lambda>k. inode_rdonly k dir) (- EROFS)
     (fail_if (\<lambda>k. \<not> inode_isdir k dir) (- ENOTDIR)
      (check (\<lambda>k. vfs_perm_check_write k (k_inodes k dir) False) id
       (vfs_op fs iop_symlink dir id (\<lambda>f. f dir old new)))))"

text \<open>
  \<^verbatim>\<open>vfs_read\<close>: \<^verbatim>\<open>offset\<close> is a signed 32-bit \<^verbatim>\<open>off_t\<close>, \<^verbatim>\<open>len\<close> an unsigned 32-bit \<^verbatim>\<open>size_t\<close> and \<^verbatim>\<open>vi_size\<close> a signed
  64-bit \<^verbatim>\<open>off64_t\<close>. \<^verbatim>\<open>offset > inode->vi_size\<close> compares signed 64-bit values; the sum
  \<^verbatim>\<open>offset + len\<close> is computed in unsigned 32-bit arithmetic and then widened.
\<close>

definition read_len :: "VFSInode \<Rightarrow> u32 \<Rightarrow> u32 \<Rightarrow> u32" where
  "read_len i len offset =
     (if vfs_can_seek i \<and> sint (vi_size i) < int (unat (offset + len))
      then ucast (vi_size i - scast offset) else len)"

definition vfs_read :: "'w fs_ops \<Rightarrow> nat \<Rightarrow> u32 \<Rightarrow> u32 \<Rightarrow> ('w, int \<times> u8 list) kern" where
  "vfs_read fs inode len offset =
    (check (\<lambda>k. vfs_perm_check_read k (k_inodes k inode) False) no_buf
     (fail_if (\<lambda>k. vfs_can_seek (k_inodes k inode) \<and> sint (vi_size (k_inodes k inode)) < sint offset)
        (no_buf (- EINVAL))
      (do { i \<leftarrow> inode_at inode;
            vfs_op fs iop_read inode no_buf (\<lambda>f. f inode (read_len i len offset) offset) })))"

definition vfs_write :: "'w fs_ops \<Rightarrow> nat \<Rightarrow> u8 list \<Rightarrow> u32 \<Rightarrow> ('w, int) kern" where
  "vfs_write fs inode buffer offset =
    (fail_if (\<lambda>k. inode_rdonly k inode) (- EROFS)
     (check (\<lambda>k. vfs_perm_check_write k (k_inodes k inode) False) id
      (vfs_op fs iop_write inode id (\<lambda>f. f inode buffer offset))))"

definition vfs_chmod :: "'w fs_ops \<Rightarrow> nat \<Rightarrow> u32 \<Rightarrow> ('w, int) kern" where
  "vfs_chmod fs inode mode =
    (fail_if (\<lambda>k. inode_rdonly k inode) (- EROFS)
     (fail_if (\<lambda>k. sys_geteuid k \<noteq> 0 \<and> sys_geteuid k \<noteq> vi_uid (k_inodes k inode)) (- EPERM)
      (vfs_op fs iop_chmod inode id (\<lambda>f. f inode mode))))"

definition vfs_chown :: "'w fs_ops \<Rightarrow> nat \<Rightarrow> u16 \<Rightarrow> u16 \<Rightarrow> ('w, int) kern" where
  "vfs_chown fs inode uid gid =
    (fail_if (\<lambda>k. inode_rdonly k inode) (- EROFS)
     (fail_if (\<lambda>k. sys_geteuid k \<noteq> 0 \<and> sys_geteuid k \<noteq> vi_uid (k_inodes k inode)) (- EPERM)
      (vfs_op fs iop_chown inode id (\<lambda>f. f inode uid gid))))"

definition vfs_mkdir :: "'w fs_ops \<Rightarrow> nat \<Rightarrow> string \<Rightarrow> u32 \<Rightarrow> ('w, int) kern" where
  "vfs_mkdir fs dir name mode =
    (fail_if (\<lambda>k. inode_rdonly k dir) (- EROFS)
     (check (\<lambda>k. vfs_perm_check_write k (k_inodes k dir) False) id
      (fail_if (\<lambda>k. \<not> inode_isdir k dir) (- ENOTDIR)
       (vfs_op fs iop_mkdir dir id (\<lambda>f. f dir name mode)))))"

definition vfs_rmdir :: "'w fs_ops \<Rightarrow> nat \<Rightarrow> string \<Rightarrow> ('w, int) kern" where
  "vfs_rmdir fs dir name =
    (fail_if (\<lambda>k. inode_rdonly k dir) (- EROFS)
     (check (\<lambda>k. vfs_perm_check_write k (k_inodes k dir) False) id
      (fail_if (\<lambda>k. \<not> inode_isdir k dir) (- ENOTDIR)
       (vfs_op fs iop_rmdir dir id (\<lambda>f. f dir name)))))"

definition vfs_mknod :: "'w fs_ops \<Rightarrow> nat \<Rightarrow> string \<Rightarrow> u32 \<Rightarrow> u16 \<Rightarrow> ('w, int) kern" where
  "vfs_mknod fs dir name mode rdev =
    (fail_if (\<lambda>k. inode_rdonly k dir) (- EROFS)
     (check (\<lambda>k. vfs_perm_check_write k (k_inodes k dir) False) id
      (fail_if (\<lambda>k. \<not> inode_isdir k dir) (- ENOTDIR)
       (vfs_op fs iop_mknod dir id (\<lambda>f. f dir name mode rdev)))))"

definition vfs_rename :: "'w fs_ops \<Rightarrow> nat \<Rightarrow> string \<Rightarrow> nat \<Rightarrow> string \<Rightarrow> ('w, int) kern" where
  "vfs_rename fs olddir oldname newdir newname =
    (fail_if (\<lambda>k. inode_rdonly k olddir \<or> inode_rdonly k newdir) (- EROFS)
     (check (\<lambda>k. vfs_perm_check_write k (k_inodes k olddir) False) id
      (check (\<lambda>k. vfs_perm_check_write k (k_inodes k newdir) False) id
       (fail_if (\<lambda>k. \<not> inode_isdir k olddir) (- ENOTDIR)
        (fail_if (\<lambda>k. \<not> inode_isdir k newdir) (- ENOTDIR)
         (fail_if (\<lambda>k. vi_sb (k_inodes k olddir) \<noteq> vi_sb (k_inodes k newdir)) (- EXDEV)
          (vfs_op fs iop_rename newdir id (\<lambda>f. f olddir oldname newdir newname))))))))"

definition vfs_readlink :: "'w fs_ops \<Rightarrow> nat \<Rightarrow> u32 \<Rightarrow> ('w, int \<times> u8 list) kern" where
  "vfs_readlink fs inode len =
    (check (\<lambda>k. vfs_perm_check_read k (k_inodes k inode) False) no_buf
     (fail_if (\<lambda>k. \<not> S_ISLNK (vi_mode (k_inodes k inode))) (no_buf (- EINVAL))
      (vfs_op fs iop_readlink inode no_buf (\<lambda>f. f inode len))))"

definition vfs_truncate :: "'w fs_ops \<Rightarrow> nat \<Rightarrow> ('w, int) kern" where
  "vfs_truncate fs inode =
    (fail_if (\<lambda>k. inode_rdonly k inode) (- EROFS)
     (check (\<lambda>k. vfs_perm_check_write k (k_inodes k inode) False) id
      (vfs_op fs iop_truncate inode id (\<lambda>f. f inode))))"

definition vfs_getattr :: "'w fs_ops \<Rightarrow> nat \<Rightarrow> stat64 \<Rightarrow> ('w, int \<times> stat64) kern" where
  "vfs_getattr fs inode st = do {
     i \<leftarrow> inode_at inode;
     vfs_op fs iop_getattr inode (\<lambda>e. (e, st)) (\<lambda>f. f inode
       (st\<lparr>st_ino := vi_ino i, st_mode := vi_mode i, st_nlink := vi_nlink i, st_uid := vi_uid i,
          st_gid := vi_gid i, st_rdev := vi_rdev i, st_size := vi_size i, st_atim := vi_atime i,
          st_mtim := vi_mtime i, st_ctim := vi_ctime i, st_blocks := vi_blocks i\<rparr>))
   }"

definition vfs_setxattr :: "'w fs_ops \<Rightarrow> nat \<Rightarrow> string \<Rightarrow> u8 list \<Rightarrow> u32 \<Rightarrow> ('w, int) kern" where
  "vfs_setxattr fs inode name data flags =
    (fail_if (\<lambda>k. inode_rdonly k inode) (- EROFS)
     (check (\<lambda>k. vfs_perm_check_write k (k_inodes k inode) False) id
      (vfs_op fs iop_setxattr inode id (\<lambda>f. f inode name data flags))))"

definition vfs_getxattr :: "'w fs_ops \<Rightarrow> nat \<Rightarrow> string \<Rightarrow> u32 \<Rightarrow> ('w, int \<times> u8 list) kern" where
  "vfs_getxattr fs inode name len =
    (check (\<lambda>k. vfs_perm_check_read k (k_inodes k inode) False) no_buf
     (vfs_op fs iop_getxattr inode no_buf (\<lambda>f. f inode name len)))"

definition vfs_listxattr :: "'w fs_ops \<Rightarrow> nat \<Rightarrow> u32 \<Rightarrow> ('w, int \<times> u8 list) kern" where
  "vfs_listxattr fs inode len =
    (check (\<lambda>k. vfs_perm_check_read k (k_inodes k inode) False) no_buf
     (vfs_op fs iop_listxattr inode no_buf (\<lambda>f. f inode len)))"

definition vfs_removexattr :: "'w fs_ops \<Rightarrow> nat \<Rightarrow> string \<Rightarrow> ('w, int) kern" where
  "vfs_removexattr fs inode name =
    (fail_if (\<lambda>k. inode_rdonly k inode) (- EROFS)
     (check (\<lambda>k. vfs_perm_check_write k (k_inodes k inode) False) id
      (vfs_op fs iop_removexattr inode id (\<lambda>f. f inode name))))"

section \<open>The guards\<close>

lemma run_fail_if [simp]:
  "run_state (fail_if c e m) k = (if c k then (e, k) else run_state m k)"
  by (simp add: fail_if_def)

lemma run_check [simp]:
  "run_state (check c e m) k = (if c k \<noteq> 0 then (e (c k), k) else run_state m k)"
  by (simp add: check_def)

lemma run_vfs_op [simp]:
  "run_state (vfs_op fs entry inode e call) k =
    (case entry (iops fs (vi_ops (k_inodes k inode))) of
       None \<Rightarrow> (e (- ENOSYS), k) | Some f \<Rightarrow> run_state (call f) k)"
  by (simp add: vfs_op_def inode_at_def split: option.splits)

lemma run_whenS [simp]: "run_state (whenS c m) k = (if c then run_state m k else ((), k))"
  by (simp add: whenS_def)

section \<open>The permission model\<close>

text \<open>The mode bits are three groups of \<open>rwx\<close>, for the owner, the group and others. A caller uses
  the first group that applies to it.\<close>

definition perm_uid :: "'w kernel \<Rightarrow> bool \<Rightarrow> u16" where
  "perm_uid k real = (if real then p_uid (cur_proc k) else p_euid (cur_proc k))"

definition perm_base :: "'w kernel \<Rightarrow> VFSInode \<Rightarrow> bool \<Rightarrow> nat" where
  "perm_base k i real =
     (if vi_uid i = perm_uid k real then 6
      else if vi_gid i = (if real then p_gid (cur_proc k) else p_egid (cur_proc k)) then 3 else 0)"

lemma and_bit_zero:
  fixes w :: u32
  shows "w AND S_IRUSR = 0 \<longleftrightarrow> \<not> bit w 8" "w AND S_IWUSR = 0 \<longleftrightarrow> \<not> bit w 7"
    "w AND S_IXUSR = 0 \<longleftrightarrow> \<not> bit w 6" "w AND S_IRGRP = 0 \<longleftrightarrow> \<not> bit w 5"
    "w AND S_IWGRP = 0 \<longleftrightarrow> \<not> bit w 4" "w AND S_IXGRP = 0 \<longleftrightarrow> \<not> bit w 3"
    "w AND S_IROTH = 0 \<longleftrightarrow> \<not> bit w 2" "w AND S_IWOTH = 0 \<longleftrightarrow> \<not> bit w 1"
    "w AND S_IXOTH = 0 \<longleftrightarrow> \<not> bit w 0"
proof -
  have *: "w AND x = 0 \<longleftrightarrow> \<not> bit w n" if "x = push_bit n 1" for x n
    using that bit_iff_and_push_bit_not_eq_0 [of w n] by simp
  show "w AND S_IRUSR = 0 \<longleftrightarrow> \<not> bit w 8" "w AND S_IWUSR = 0 \<longleftrightarrow> \<not> bit w 7"
    "w AND S_IXUSR = 0 \<longleftrightarrow> \<not> bit w 6" "w AND S_IRGRP = 0 \<longleftrightarrow> \<not> bit w 5"
    "w AND S_IWGRP = 0 \<longleftrightarrow> \<not> bit w 4" "w AND S_IXGRP = 0 \<longleftrightarrow> \<not> bit w 3"
    "w AND S_IROTH = 0 \<longleftrightarrow> \<not> bit w 2" "w AND S_IWOTH = 0 \<longleftrightarrow> \<not> bit w 1"
    "w AND S_IXOTH = 0 \<longleftrightarrow> \<not> bit w 0"
    by (rule *, simp add: mode_defs)+
qed

lemma and_exec_zero:
  fixes w :: u32
  shows "w AND (S_IXUSR OR S_IXGRP OR S_IXOTH) = 0 \<longleftrightarrow> \<not> bit w 6 \<and> \<not> bit w 3 \<and> \<not> bit w 0"
  by (simp add: bit.conj_disj_distrib or_eq_0_iff and_bit_zero)

text \<open>
  C6: the permission checks implement the Unix model: the superuser may read and write everything and
  execute what anyone may execute; every other caller needs the \<open>r\<close>, \<open>w\<close> or \<open>x\<close> bit of its
  class (and, to read or write a directory, the class's \<open>x\<close> bit too); a refusal is
  always \<^verbatim>\<open>-EACCES\<close>.
\<close>

theorem perm_checks_correct:
  "vfs_perm_check_read k i real =
     (if perm_uid k real = 0 \<or> bit (vi_mode i) (perm_base k i real + 2) \<and>
        (S_ISDIR (vi_mode i) \<longrightarrow> bit (vi_mode i) (perm_base k i real)) then 0 else - EACCES) \<and>
   vfs_perm_check_write k i real =
     (if perm_uid k real = 0 \<or> bit (vi_mode i) (perm_base k i real + 1) \<and>
        (S_ISDIR (vi_mode i) \<longrightarrow> bit (vi_mode i) (perm_base k i real)) then 0 else - EACCES) \<and>
   vfs_perm_check_exec k i real =
     (if (if perm_uid k real = 0 then bit (vi_mode i) 6 \<or> bit (vi_mode i) 3 \<or> bit (vi_mode i) 0
          else bit (vi_mode i) (perm_base k i real)) then 0 else - EACCES)"
proof -
  let ?gid = "if real then p_gid (cur_proc k) else p_egid (cur_proc k)"
  note defs = vfs_perm_check_read_def vfs_perm_check_write_def vfs_perm_check_exec_def Let_def
    and_bit_zero and_exec_zero sys_getuid_def sys_geteuid_def sys_getgid_def sys_getegid_def
    perm_uid_def [symmetric]
  consider "vi_uid i = perm_uid k real" "perm_base k i real = 6"
    | "vi_uid i \<noteq> perm_uid k real" "vi_gid i = ?gid" "perm_base k i real = 3"
    | "vi_uid i \<noteq> perm_uid k real" "vi_gid i \<noteq> ?gid" "perm_base k i real = 0"
    by (auto simp: perm_base_def)
  then show ?thesis
  proof cases
    case 1
    then show ?thesis unfolding defs by (intro conjI; cases "perm_uid k real = 0"; simp)
  next
    case 2
    then show ?thesis unfolding defs by (intro conjI; cases "perm_uid k real = 0"; simp)
  next
    case 3
    then show ?thesis unfolding defs by (intro conjI; cases "perm_uid k real = 0"; simp add: numeral_2_eq_2)
  qed
qed

theorem perm_checks_correct_witness:
  "vfs_perm_check_write sample_kernel sample_inode False = - EACCES"
  using perm_checks_correct [of sample_kernel sample_inode False]
  by (simp add: perm_uid_def perm_base_def sample_kernel_def sample_proc_def sample_inode_def cur_proc_def
      bit_numeral_rec)

section \<open>Dispatch\<close>

text \<open>
  The functions of \<^verbatim>\<open>fs/vfs.c\<close> that pass a change of a file on to its filesystem, as one type of
  requests. All but \<^verbatim>\<open>vfs_write_inode\<close> (\<open>Write_Inode\<close>) check the mount and the caller first.
\<close>

datatype vfs_change =
    Create nat string u32 | Link nat nat string | Unlink nat string | Symlink nat string string
  | Write nat "u8 list" u32 | Chmod nat u32 | Chown nat u16 u16 | Mkdir nat string u32
  | Rmdir nat string | Mknod nat string u32 u16 | Rename nat string nat string | Truncate nat
  | Setxattr nat string "u8 list" u32 | Removexattr nat string
  | Write_Inode nat

fun vfs_run :: "'w fs_ops \<Rightarrow> vfs_change \<Rightarrow> ('w, int) kern" where
  "vfs_run fs (Create d n m) = vfs_create fs d n m"
| "vfs_run fs (Link ol d n) = vfs_link fs ol d n"
| "vfs_run fs (Unlink d n) = vfs_unlink fs d n"
| "vfs_run fs (Symlink d ol n) = vfs_symlink fs d ol n"
| "vfs_run fs (Write i b off) = vfs_write fs i b off"
| "vfs_run fs (Chmod i m) = vfs_chmod fs i m"
| "vfs_run fs (Chown i u g) = vfs_chown fs i u g"
| "vfs_run fs (Mkdir d n m) = vfs_mkdir fs d n m"
| "vfs_run fs (Rmdir d n) = vfs_rmdir fs d n"
| "vfs_run fs (Mknod d n m r) = vfs_mknod fs d n m r"
| "vfs_run fs (Rename d n d' n') = vfs_rename fs d n d' n'"
| "vfs_run fs (Truncate i) = vfs_truncate fs i"
| "vfs_run fs (Setxattr i n v fl) = vfs_setxattr fs i n v fl"
| "vfs_run fs (Removexattr i n) = vfs_removexattr fs i n"
| "vfs_run fs (Write_Inode i) = vfs_write_inode fs i"

text \<open>The inodes whose filesystem a request changes.\<close>

fun vfs_targets :: "vfs_change \<Rightarrow> nat set" where
  "vfs_targets (Create d n m) = {d}"
| "vfs_targets (Link ol d n) = {d}"
| "vfs_targets (Unlink d n) = {d}"
| "vfs_targets (Symlink d ol n) = {d}"
| "vfs_targets (Write i b off) = {i}"
| "vfs_targets (Chmod i m) = {i}"
| "vfs_targets (Chown i u g) = {i}"
| "vfs_targets (Mkdir d n m) = {d}"
| "vfs_targets (Rmdir d n) = {d}"
| "vfs_targets (Mknod d n m r) = {d}"
| "vfs_targets (Rename d n d' n') = {d, d'}"
| "vfs_targets (Truncate i) = {i}"
| "vfs_targets (Setxattr i n v fl) = {i}"
| "vfs_targets (Removexattr i n) = {i}"
| "vfs_targets (Write_Inode i) = {i}"

text \<open>Chmod and chown ask for ownership, the others for write permission.\<close>

fun vfs_by_owner :: "vfs_change \<Rightarrow> bool" where
  "vfs_by_owner (Chmod i m) \<longleftrightarrow> True"
| "vfs_by_owner (Chown i u g) \<longleftrightarrow> True"
| "vfs_by_owner _ \<longleftrightarrow> False"

fun vfs_guarded :: "vfs_change \<Rightarrow> bool" where
  "vfs_guarded (Write_Inode i) \<longleftrightarrow> False"
| "vfs_guarded _ \<longleftrightarrow> True"

lemmas vfs_change_defs = vfs_create_def vfs_link_def vfs_unlink_def vfs_symlink_def vfs_write_def
  vfs_chmod_def vfs_chown_def vfs_mkdir_def vfs_rmdir_def vfs_mknod_def vfs_rename_def
  vfs_truncate_def vfs_setxattr_def vfs_removexattr_def

lemma write_inode_unchecked:
  "run_state (vfs_run fs (Write_Inode i)) k =
     (case sop_write_inode (inode_sops fs k i) of None \<Rightarrow> (- ENOSYS, k) | Some f \<Rightarrow> run_state (f i) k)"
  by (simp add: vfs_write_inode_def split: option.split)

text \<open>
  C8: for a file on a filesystem mounted read-only, each of \<^verbatim>\<open>vfs_create\<close>, \<^verbatim>\<open>vfs_link\<close>, \<^verbatim>\<open>vfs_unlink\<close>,
  \<^verbatim>\<open>vfs_symlink\<close>, \<^verbatim>\<open>vfs_write\<close>, \<^verbatim>\<open>vfs_chmod\<close>, \<^verbatim>\<open>vfs_chown\<close>, \<^verbatim>\<open>vfs_mkdir\<close>, \<^verbatim>\<open>vfs_rmdir\<close>, \<^verbatim>\<open>vfs_mknod\<close>,
  \<^verbatim>\<open>vfs_rename\<close> (either directory), \<^verbatim>\<open>vfs_truncate\<close>, \<^verbatim>\<open>vfs_setxattr\<close> and \<^verbatim>\<open>vfs_removexattr\<close> fails with
  \<^verbatim>\<open>-EROFS\<close> and leaves the whole kernel state as it was: no filesystem function is called. The
  exception is \<^verbatim>\<open>vfs_write_inode\<close>, which calls the filesystem whatever the mount flags say. The
  statement is about these functions; what a system call does before it calls one of them is not
  part of it (\<^verbatim>\<open>open\<close> with \<^verbatim>\<open>O_TRUNC\<close> has set the size in memory to 0 by then).
\<close>

theorem rdonly_mount_protected:
  assumes "\<exists>i \<in> vfs_targets c. inode_rdonly k i"
  shows "(vfs_guarded c \<longrightarrow> run_state (vfs_run fs c) k = (- EROFS, k)) \<and>
    (\<forall>i. c = Write_Inode i \<longrightarrow> run_state (vfs_run fs c) k =
      (case sop_write_inode (inode_sops fs k i) of None \<Rightarrow> (- ENOSYS, k) | Some f \<Rightarrow> run_state (f i) k))"
  using assms write_inode_unchecked [of fs _ k] by (cases c) (auto simp: vfs_change_defs)

definition sample_fs :: "unit fs_ops" where
  "sample_fs = \<lparr>iops = (\<lambda>_. \<lparr>iop_create = None, iop_lookup = None, iop_link = None, iop_unlink = None,
     iop_symlink = None, iop_read = Some (\<lambda>i len off. State_Monad.return (int (unat len), [])),
     iop_write = Some (\<lambda>i b off. State_Monad.return (int (length b))), iop_chmod = None, iop_chown = None,
     iop_mkdir = None, iop_rmdir = None, iop_mknod = None, iop_rename = None, iop_readlink = None,
     iop_truncate = None, iop_getattr = None, iop_setxattr = None, iop_getxattr = None,
     iop_listxattr = None, iop_removexattr = None\<rparr>),
     sops = (\<lambda>_. \<lparr>sop_alloc_inode = None, sop_destroy_inode = None, sop_fill_inode = None,
       sop_write_inode = None, sop_free = None, sop_update = None\<rparr>),
     mount_op = (\<lambda>_ _ _ _. State_Monad.return 0), unmount_op = (\<lambda>_ _ _. State_Monad.return 0)\<rparr>"

theorem rdonly_mount_protected_witness:
  "run_state (vfs_run sample_fs (Write 3 [1, 2] 0)) (upd_sb 0 (\<lambda>s. s\<lparr>sb_mntflags := 32\<rparr>) sample_kernel) =
    (- EROFS, upd_sb 0 (\<lambda>s. s\<lparr>sb_mntflags := 32\<rparr>) sample_kernel)"
  by (rule rdonly_mount_protected [THEN conjunct1, rule_format])
    (simp_all add: inode_rdonly_def upd_sb_def sample_kernel_def sample_inode_def MS_RDONLY_def)

text \<open>
  C9: when the write permission check of the caller fails on a target of one of these functions other
  than \<^verbatim>\<open>vfs_write_inode\<close> (for \<^verbatim>\<open>vfs_chmod\<close> and \<^verbatim>\<open>vfs_chown\<close>: the caller is not the superuser and does not
  own it), the function fails, no filesystem function is called and the kernel state is
  unchanged. \<^verbatim>\<open>vfs_write_inode\<close> checks nothing. As before the statement is about these functions, not
  about what their callers do beforehand.
\<close>

theorem unpermitted_change_refused:
  assumes "\<exists>i \<in> vfs_targets c.
    if vfs_by_owner c then sys_geteuid k \<noteq> 0 \<and> sys_geteuid k \<noteq> vi_uid (k_inodes k i)
    else vfs_perm_check_write k (k_inodes k i) False \<noteq> 0"
    and "vfs_guarded c"
  shows "\<exists>e. run_state (vfs_run fs c) k = (e, k) \<and> e < 0"
proof -
  have neg: "vfs_perm_check_write k i False \<noteq> 0 \<Longrightarrow> vfs_perm_check_write k i False < 0" for i
    by (auto simp: vfs_perm_check_write_def Let_def EACCES_def split: if_splits)
  show ?thesis
    using assms by (cases c) (auto simp: vfs_change_defs errno_defs neg)
qed

theorem unpermitted_change_refused_witness:
  "\<exists>e. run_state (vfs_run sample_fs (Write 3 [1, 2] 0)) sample_kernel = (e, sample_kernel) \<and> e < 0"
  by (rule unpermitted_change_refused)
    (simp_all add: vfs_perm_check_write_def sys_geteuid_def sys_getegid_def cur_proc_def sample_kernel_def
      sample_proc_def sample_inode_def mode_defs EACCES_def)

section \<open>Reading within the file\<close>

lemma sint_nonneg_uint:
  fixes w :: "'a::len word"
  assumes "0 \<le> sint w"
  shows "sint w = uint w"
proof -
  have "sint w < 2 ^ (LENGTH('a) - 1)" by (rule sint_lt)
  also have "\<dots> \<le> (2 :: int) ^ LENGTH('a)" by simp
  finally have "sint w < 2 ^ LENGTH('a)" .
  then have "take_bit LENGTH('a) (sint w) = sint w" using assms by (simp add: take_bit_int_eq_self)
  then show ?thesis by (metis uint_sint)
qed

lemma read_len_spec:
  assumes seek: "vfs_can_seek i" and off: "0 \<le> sint offset" "sint offset \<le> sint (vi_size i)"
    and wrap: "unat offset + unat len < 4294967296"
  shows "int (unat (read_len i len offset)) = min (int (unat len)) (sint (vi_size i) - sint offset)"
proof -
  have o: "sint offset = int (unat offset)" using sint_nonneg_uint [OF off(1)] by simp
  have z: "sint (vi_size i) = int (unat (vi_size i))"
    using sint_nonneg_uint [of "vi_size i"] off by simp
  have sum: "unat (offset + len) = unat offset + unat len"
    using wrap by (intro unat_plus_no_wrap) simp
  show ?thesis
  proof (cases "sint (vi_size i) < int (unat (offset + len))")
    case False
    then show ?thesis using sum o by (simp add: read_len_def)
  next
    case True
    have ext: "unat (scast offset :: u64) = unat offset"
    proof -
      have "(scast offset :: u64) = of_nat (unat offset)" using o by (simp add: scast_eq)
      then show ?thesis using unat_lt_2p32 [of offset] by (simp add: take_bit_nat_eq_self unsigned_ucast_eq)
    qed
    have le: "unat offset \<le> unat (vi_size i)" using off o z by linarith
    then have "unat (vi_size i - scast offset) = unat (vi_size i) - unat offset"
      using ext by (simp add: unat_sub word_le_nat_alt)
    moreover have "unat (vi_size i) - unat offset < 4294967296"
      using True z sum wrap by linarith
    ultimately have "unat (ucast (vi_size i - scast offset) :: u32) = unat (vi_size i) - unat offset"
      by (simp add: unsigned_ucast_eq take_bit_nat_eq_self)
    then have "int (unat (read_len i len offset)) = sint (vi_size i) - sint offset"
      using True seek o z le by (simp add: read_len_def of_nat_diff)
    then show ?thesis using True sum o by linarith
  qed
qed

text \<open>
  C11: when the caller may read a seekable file, its offset is not negative and does not pass the end of
  the file, and offset plus length stays below $2^{32}$, \<^verbatim>\<open>vfs_read\<close> calls the filesystem's
  read function with the length cut to what the file has left after the offset, so no read
  passes the end of the file.
\<close>

theorem vfs_read_clamped:
  assumes "vfs_perm_check_read k i False = 0" and "k_inodes k inode = i" and "vfs_can_seek i"
    and "0 \<le> sint offset" and "sint offset \<le> sint (vi_size i)"
    and "unat offset + unat len < 4294967296" and "iop_read (iops fs (vi_ops i)) = Some f"
  shows "\<exists>len'. run_state (vfs_read fs inode len offset) k = run_state (f inode len' offset) k \<and>
    int (unat len') = min (int (unat len)) (sint (vi_size i) - sint offset)"
  using assms read_len_spec [of i offset len]
  by (intro exI [of _ "read_len i len offset"]) (auto simp: vfs_read_def inode_at_def)

theorem vfs_read_clamped_witness:
  "\<exists>len'. run_state (vfs_read sample_fs 3 100 4) sample_kernel =
     run_state (State_Monad.return (int (unat len'), [])) sample_kernel \<and> int (unat (len' :: u32)) = 6"
proof -
  have "vfs_perm_check_read sample_kernel sample_inode False = 0"
    by (simp add: vfs_perm_check_read_def sys_geteuid_def sys_getegid_def cur_proc_def sample_kernel_def
        sample_proc_def sample_inode_def mode_defs S_ISDIR_def)
  moreover have "k_inodes sample_kernel 3 = sample_inode" by (simp add: sample_kernel_def)
  moreover have "vfs_can_seek sample_inode"
    by (simp add: vfs_can_seek_def S_ISCHR_def S_ISSOCK_def S_ISFIFO_def sample_inode_def mode_defs)
  moreover have "0 \<le> sint (4 :: u32)" "sint (4 :: u32) \<le> sint (vi_size sample_inode)"
    "unat (4 :: u32) + unat (100 :: u32) < 4294967296" "sint (vi_size sample_inode) = 10"
    by (simp_all add: sample_inode_def)
  ultimately show ?thesis
    using vfs_read_clamped [of sample_kernel sample_inode 3 4 100 sample_fs
      "\<lambda>i len off. State_Monad.return (int (unat len), [])"]
    by (simp add: sample_fs_def)
qed

text \<open>The sum wraps for lengths near $2^{32}$, and then the length is not cut: a request for
  $2^{32} - 1$ bytes at offset 1 of a 10-byte file reaches the filesystem unchanged.\<close>

lemma vfs_read_wraps:
  "run_state (vfs_read sample_fs 3 0xffffffff 1) sample_kernel = ((4294967295, []), sample_kernel)"
  by (simp add: vfs_read_def vfs_perm_check_read_def sys_geteuid_def sys_getegid_def cur_proc_def
      sample_kernel_def sample_proc_def sample_inode_def sample_fs_def mode_defs S_ISDIR_def
      inode_at_def read_len_def vfs_can_seek_def S_ISCHR_def S_ISSOCK_def S_ISFIFO_def)

section \<open>Reference counts\<close>

lemma upd_inode_simps [simp]:
  "k_inodes (upd_inode i f k) j = (if j = i then f (k_inodes k i) else k_inodes k j)"
  "k_sbs (upd_inode i f k) = k_sbs k"
  "process_table (upd_inode i f k) = process_table k" "k_cur (upd_inode i f k) = k_cur k"
  "process_fd_table (upd_inode i f k) = process_fd_table k" "process_fd_next (upd_inode i f k) = process_fd_next k"
  "k_fs (upd_inode i f k) = k_fs k" "k_mem (upd_inode i f k) = k_mem k"
  "upd_inode i g (upd_inode i f k) = upd_inode i (\<lambda>x. g (f x)) k"
  "upd_inode i (\<lambda>x. x) k = k"
  by (simp_all add: upd_inode_def)

text \<open>
  taking a reference to an inode and dropping it again changes nothing as long as the inode was
  referenced before; dropping the last reference calls the filesystem's destructor, dropping
  any other does not.
\<close>

theorem inode_refcount:
  assumes "ino \<noteq> 0"
  shows "(vi_refcnt (k_inodes k ino) \<noteq> 0 \<longrightarrow>
      run_state (do { vfs_ref_inode ino; vfs_unref_inode fs ino }) k = ((), k)) \<and>
    (vi_refcnt (k_inodes k ino) \<noteq> 1 \<longrightarrow> run_state (vfs_unref_inode fs ino) k =
      ((), upd_inode ino (\<lambda>i. i\<lparr>vi_refcnt := vi_refcnt i - 1\<rparr>) k)) \<and>
    (vi_refcnt (k_inodes k ino) = 1 \<longrightarrow> sop_destroy_inode (inode_sops fs k ino) = Some d \<longrightarrow>
      run_state (vfs_unref_inode fs ino) k =
        run_state (d ino) (upd_inode ino (\<lambda>i. i\<lparr>vi_refcnt := 0\<rparr>) k))"
proof -
  have sops: "inode_sops fs (upd_inode ino (\<lambda>i. i\<lparr>vi_refcnt := g i\<rparr>) k) ino = inode_sops fs k ino" for g
    by (simp add: inode_sops_def sb_sops_def)
  have same: "upd_inode ino (\<lambda>i. i\<lparr>vi_refcnt := vi_refcnt i - 1\<rparr>) k =
      upd_inode ino (\<lambda>i. i\<lparr>vi_refcnt := 0\<rparr>) k" if "vi_refcnt (k_inodes k ino) = 1"
    using that by (simp add: upd_inode_def)
  show ?thesis
    using assms sops same
    by (auto simp: vfs_ref_inode_def vfs_unref_inode_def inode_at_def split: option.splits)
qed

theorem inode_refcount_witness:
  "run_state (do { vfs_ref_inode 3; vfs_unref_inode sample_fs 3 }) sample_kernel = ((), sample_kernel)"
  using inode_refcount [of 3 sample_kernel sample_fs] by (simp add: sample_kernel_def sample_inode_def)

end
