(* ===== verification/Files.thy ===== *)
theory Files
  imports Vfs
begin

unbundle bit_operations_syntax

text \<open>
  File descriptors: \<^verbatim>\<open>process_alloc_fd\<close> and \<^verbatim>\<open>process_free_fd\<close> of \<^verbatim>\<open>kernel/process.c\<close>,
  \<^verbatim>\<open>kernel/fcntl.c\<close>, \<^verbatim>\<open>inode_from_fd\<close> of \<^verbatim>\<open>uapi/util.c\<close>, and the system calls of \<^verbatim>\<open>uapi/vfs.c\<close> and
  \<^verbatim>\<open>uapi/misc.c\<close> that work on descriptors. A process's table maps descriptors to entries of the
  system file table; an entry counts the descriptors that refer to it.
\<close>

section \<open>Descriptor tables (\<^verbatim>\<open>kernel/process.c\<close>)\<close>

definition set_next :: "nat \<Rightarrow> 'w kernel \<Rightarrow> 'w kernel" where
  "set_next n k = k\<lparr>process_fd_next := n\<rparr>"

definition set_fd :: "nat \<Rightarrow> nat \<Rightarrow> nat option \<Rightarrow> 'w kernel \<Rightarrow> 'w kernel" where
  "set_fd pid fd x = upd_proc pid (\<lambda>p. p\<lparr>p_files := (p_files p)(fd := x)\<rparr>)"

definition process_alloc_fd :: "nat \<Rightarrow> nat \<Rightarrow> ('w, int) kern" where
  "process_alloc_fd pid fd = do {
     k \<leftarrow> gets id;
     case find (\<lambda>f. pf_refcnt (process_fd_table k f) = 0)
            [process_fd_next k..<PROCESS_SYS_FILE_LIMIT] of
       None \<Rightarrow> State_Monad.return (- ENFILE)
     | Some f \<Rightarrow>
         (case find (\<lambda>n. p_files (process_table k pid) n = None) [fd..<PROCESS_FILE_LIMIT] of
            None \<Rightarrow> State_Monad.return (- EMFILE)
          | Some nfd \<Rightarrow> do {
              modify (set_fd pid nfd (Some f));
              modify (upd_file f (\<lambda>e. e\<lparr>pf_refcnt := 1\<rparr>));
              modify (set_next (Suc f));
              State_Monad.return (int nfd)
            })
   }"

text \<open>The part of \<^verbatim>\<open>process_free_fd\<close> that clears an entry nobody refers to any more.\<close>

definition file_clear :: "'w fs_ops \<Rightarrow> nat \<Rightarrow> ('w, unit) kern" where
  "file_clear fs f = do {
     file \<leftarrow> gets (\<lambda>k. process_fd_table k f);
     whenS (pf_refcnt file = 0) (do {
       vfs_unref_inode fs (pf_inode file);
       modify (upd_file f (\<lambda>e. e\<lparr>pf_inode := 0, pf_path := None, pf_mode := 0, pf_offset := 0\<rparr>))
     })
   }"

definition process_free_fd :: "'w fs_ops \<Rightarrow> nat \<Rightarrow> nat \<Rightarrow> ('w, int) kern" where
  "process_free_fd fs pid fd = do {
     k \<leftarrow> gets id;
     case p_files (process_table k pid) fd of
       None \<Rightarrow> State_Monad.return (- EBADF)
     | Some f \<Rightarrow> do {
         modify (set_fd pid fd None);
         modify (upd_file f (\<lambda>e. e\<lparr>pf_refcnt := pf_refcnt e - 1\<rparr>));
         file_clear fs f;
         modify (\<lambda>k. if f < process_fd_next k then set_next f k else k);
         State_Monad.return 0
       }
   }"

section \<open>\<^verbatim>\<open>kernel/fcntl.c\<close>\<close>

definition fcntl_dupfd :: "nat \<Rightarrow> int \<Rightarrow> int \<Rightarrow> bool \<Rightarrow> ('w, int) kern" where
  "fcntl_dupfd pid fd arg cloexec =
     (if arg < 0 \<or> int PROCESS_FILE_LIMIT \<le> arg then State_Monad.return (- EINVAL)
      else if fd = arg then State_Monad.return fd
      else do {
        files \<leftarrow> gets (\<lambda>k. p_files (process_table k pid));
        case find (\<lambda>n. files n = None) [nat arg..<PROCESS_FILE_LIMIT] of
          None \<Rightarrow> State_Monad.return (- EMFILE)
        | Some nfd \<Rightarrow> do {
            modify (set_fd pid nfd (files (nat fd)));
            modify (upd_proc pid (\<lambda>p. p\<lparr>p_fdflags := (p_fdflags p)(nfd := if cloexec then FD_CLOEXEC else 0)\<rparr>));
            (case files (nat fd) of
               None \<Rightarrow> State_Monad.return ()
             | Some f \<Rightarrow> modify (upd_file f (\<lambda>e. e\<lparr>pf_refcnt := pf_refcnt e + 1\<rparr>)));
            State_Monad.return (int nfd)
          }
      })"

definition F_DUPFD :: int where "F_DUPFD = 0"
definition F_GETFD :: int where "F_GETFD = 1"
definition F_SETFD :: int where "F_SETFD = 2"
definition F_GETFL :: int where "F_GETFL = 3"
definition F_SETFL :: int where "F_SETFL = 4"
definition F_DUPFD_CLOEXEC :: int where "F_DUPFD_CLOEXEC = 20"

text \<open>The \<^verbatim>\<open>switch\<close> of \<^verbatim>\<open>fcntl\<close>, for an open descriptor \<open>fd\<close> with entry \<open>f\<close>.\<close>

definition fcntl_cmd :: "nat \<Rightarrow> int \<Rightarrow> nat \<Rightarrow> int \<Rightarrow> int \<Rightarrow> ('w, int) kern" where
  "fcntl_cmd pid fd f cmd arg =
     (if cmd = F_DUPFD then fcntl_dupfd pid fd arg False
      else if cmd = F_DUPFD_CLOEXEC then fcntl_dupfd pid fd arg True
      else if cmd = F_GETFD then gets (\<lambda>k. sint (p_fdflags (process_table k pid) (nat fd)))
      else if cmd = F_SETFD then do {
        modify (upd_proc pid (\<lambda>p. p\<lparr>p_fdflags := (p_fdflags p)(nat fd := of_int arg)\<rparr>));
        State_Monad.return 0
      }
      else if cmd = F_GETFL then gets (\<lambda>k. sint (pf_mode (process_fd_table k f)))
      else if cmd = F_SETFL then do {
        modify (upd_file f (\<lambda>e. e\<lparr>pf_mode := of_int arg\<rparr>));
        State_Monad.return 0
      }
      else State_Monad.return (- EINVAL))"

definition fcntl :: "int \<Rightarrow> int \<Rightarrow> int \<Rightarrow> ('w, int) kern" where
  "fcntl fd cmd arg = do {
     pid \<leftarrow> gets k_cur;
     files \<leftarrow> gets (\<lambda>k. p_files (cur_proc k));
     if fd < 0 \<or> int PROCESS_FILE_LIMIT \<le> fd then State_Monad.return (- EBADF)
     else case files (nat fd) of
       None \<Rightarrow> State_Monad.return (- EBADF)
     | Some f \<Rightarrow> fcntl_cmd pid fd f cmd arg
   }"

section \<open>Descriptor system calls (\<^verbatim>\<open>uapi/vfs.c\<close>, \<^verbatim>\<open>uapi/misc.c\<close>, \<^verbatim>\<open>uapi/util.c\<close>)\<close>

text \<open>The entry of the running process's descriptor, \<open>None\<close> when the descriptor is out of range
  or not open.\<close>

definition fd_entry :: "'w kernel \<Rightarrow> int \<Rightarrow> nat option" where
  "fd_entry k fd =
     (if fd < 0 \<or> int PROCESS_FILE_LIMIT \<le> fd then None else p_files (cur_proc k) (nat fd))"

definition inode_from_fd :: "'w kernel \<Rightarrow> int \<Rightarrow> nat" where
  "inode_from_fd k fd =
     (case fd_entry k fd of None \<Rightarrow> 0 | Some f \<Rightarrow> pf_inode (process_fd_table k f))"

text \<open>The common start of the transfer calls: the open file behind the descriptor, unless its
  access mode is the wrong one.\<close>

definition fd_file :: "int \<Rightarrow> u32 \<Rightarrow> (int \<Rightarrow> 'a) \<Rightarrow> (nat \<Rightarrow> ProcessFile \<Rightarrow> ('w, 'a) kern) \<Rightarrow> ('w, 'a) kern" where
  "fd_file fd wrong e body = do {
     k \<leftarrow> gets id;
     case fd_entry k fd of
       None \<Rightarrow> State_Monad.return (e (- EBADF))
     | Some f \<Rightarrow>
         (let file = process_fd_table k f
          in if pf_mode file AND O_ACCMODE = wrong then State_Monad.return (e (- EBADF))
             else body f file)
   }"

definition add_offset :: "nat \<Rightarrow> u64 \<Rightarrow> ('w, unit) kern" where
  "add_offset f n = modify (upd_file f (\<lambda>e. e\<lparr>pf_offset := pf_offset e + n\<rparr>))"

definition sys_read :: "'w fs_ops \<Rightarrow> int \<Rightarrow> u32 \<Rightarrow> ('w, int \<times> u8 list) kern" where
  "sys_read fs fd len =
     fd_file fd O_WRONLY no_buf (\<lambda>f file. do {
       r \<leftarrow> vfs_read fs (pf_inode file) len (ucast (pf_offset file));
       if fst r < 0 then State_Monad.return r
       else do { add_offset f (of_int (fst r)); State_Monad.return r }
     })"

definition sys_write :: "'w fs_ops \<Rightarrow> int \<Rightarrow> u8 list \<Rightarrow> ('w, int) kern" where
  "sys_write fs fd buffer =
     fd_file fd O_RDONLY id (\<lambda>f file. do {
       ret \<leftarrow> vfs_write fs (pf_inode file) buffer (ucast (pf_offset file));
       if ret < 0 then State_Monad.return ret
       else do { add_offset f (of_int ret); State_Monad.return ret }
     })"

definition sys_close :: "'w fs_ops \<Rightarrow> int \<Rightarrow> ('w, int) kern" where
  "sys_close fs fd =
     (if fd < 0 \<or> int PROCESS_FILE_LIMIT \<le> fd then State_Monad.return (- EBADF)
      else do { pid \<leftarrow> gets k_cur; process_free_fd fs pid (nat fd) })"

definition sys_dup :: "int \<Rightarrow> ('w, int) kern" where
  "sys_dup fd = fcntl fd F_DUPFD 0"

definition sys_dup2 :: "'w fs_ops \<Rightarrow> int \<Rightarrow> int \<Rightarrow> ('w, int) kern" where
  "sys_dup2 fs fd1 fd2 = do { r \<leftarrow> sys_close fs fd2; fcntl fd1 F_DUPFD fd2 }"

definition sys_fcntl :: "int \<Rightarrow> int \<Rightarrow> int \<Rightarrow> ('w, int) kern" where
  "sys_fcntl fd cmd arg = fcntl fd cmd arg"

primrec sys_readv_loop :: "'w fs_ops \<Rightarrow> nat \<Rightarrow> u32 list \<Rightarrow> int \<Rightarrow> u8 list \<Rightarrow> ('w, int \<times> u8 list) kern" where
  "sys_readv_loop fs f [] bytes buf = State_Monad.return (bytes, buf)"
| "sys_readv_loop fs f (iov_len # vec) bytes buf = do {
     file \<leftarrow> gets (\<lambda>k. process_fd_table k f);
     r \<leftarrow> vfs_read fs (pf_inode file) iov_len (ucast (pf_offset file));
     if fst r < 0 then State_Monad.return (no_buf (fst r))
     else do {
       add_offset f (ucast iov_len);
       sys_readv_loop fs f vec (bytes + fst r) (buf @ snd r)
     }
   }"

text \<open>\<^verbatim>\<open>vlen\<close> is the length of the vector; a negative one is \<open>None\<close>.\<close>

definition sys_readv :: "'w fs_ops \<Rightarrow> int \<Rightarrow> u32 list option \<Rightarrow> ('w, int \<times> u8 list) kern" where
  "sys_readv fs fd vec =
     fd_file fd O_WRONLY no_buf (\<lambda>f file.
       case vec of None \<Rightarrow> State_Monad.return (no_buf (- EINVAL))
       | Some v \<Rightarrow> sys_readv_loop fs f v 0 [])"

primrec sys_writev_loop :: "'w fs_ops \<Rightarrow> nat \<Rightarrow> u8 list list \<Rightarrow> int \<Rightarrow> ('w, int) kern" where
  "sys_writev_loop fs f [] bytes = State_Monad.return bytes"
| "sys_writev_loop fs f (buf # vec) bytes = do {
     file \<leftarrow> gets (\<lambda>k. process_fd_table k f);
     ret \<leftarrow> vfs_write fs (pf_inode file) buf (ucast (pf_offset file));
     if ret < 0 then State_Monad.return ret
     else do {
       add_offset f (of_nat (length buf));
       sys_writev_loop fs f vec (bytes + ret)
     }
   }"

definition sys_writev :: "'w fs_ops \<Rightarrow> int \<Rightarrow> u8 list list option \<Rightarrow> ('w, int) kern" where
  "sys_writev fs fd vec =
     fd_file fd O_RDONLY id (\<lambda>f file.
       case vec of None \<Rightarrow> State_Monad.return (- EINVAL)
       | Some v \<Rightarrow> sys_writev_loop fs f v 0)"

definition sys_pread64 :: "'w fs_ops \<Rightarrow> int \<Rightarrow> u32 \<Rightarrow> u64 \<Rightarrow> ('w, int \<times> u8 list) kern" where
  "sys_pread64 fs fd len offset =
     fd_file fd O_WRONLY no_buf (\<lambda>f file. vfs_read fs (pf_inode file) len (ucast offset))"

definition sys_pwrite64 :: "'w fs_ops \<Rightarrow> int \<Rightarrow> u8 list \<Rightarrow> u64 \<Rightarrow> ('w, int) kern" where
  "sys_pwrite64 fs fd buffer offset =
     fd_file fd O_RDONLY id (\<lambda>f file. vfs_write fs (pf_inode file) buffer (ucast offset))"

text \<open>The calls that only need the inode behind a descriptor.\<close>

definition on_fd_inode :: "int \<Rightarrow> (int \<Rightarrow> 'a) \<Rightarrow> (nat \<Rightarrow> ('w, 'a) kern) \<Rightarrow> ('w, 'a) kern" where
  "on_fd_inode fd e body = do {
     inode \<leftarrow> gets (\<lambda>k. inode_from_fd k fd);
     if inode = 0 then State_Monad.return (e (- EBADF)) else body inode
   }"

definition sys_fchmod :: "'w fs_ops \<Rightarrow> int \<Rightarrow> u32 \<Rightarrow> ('w, int) kern" where
  "sys_fchmod fs fd mode = on_fd_inode fd id (\<lambda>i. vfs_chmod fs i mode)"

definition sys_fchown :: "'w fs_ops \<Rightarrow> int \<Rightarrow> u16 \<Rightarrow> u16 \<Rightarrow> ('w, int) kern" where
  "sys_fchown fs fd uid gid = on_fd_inode fd id (\<lambda>i. vfs_chown fs i uid gid)"

definition sys_fsync :: "'w fs_ops \<Rightarrow> int \<Rightarrow> ('w, int) kern" where
  "sys_fsync fs fd = on_fd_inode fd id (\<lambda>i. vfs_write_inode fs i)"

definition sys_fstat64 :: "'w fs_ops \<Rightarrow> int \<Rightarrow> stat64 \<Rightarrow> ('w, int \<times> stat64) kern" where
  "sys_fstat64 fs fd st = on_fd_inode fd (\<lambda>e. (e, st)) (\<lambda>i. vfs_getattr fs i st)"

definition sys_ftruncate64 :: "'w fs_ops \<Rightarrow> int \<Rightarrow> u64 \<Rightarrow> ('w, int) kern" where
  "sys_ftruncate64 fs fd len = on_fd_inode fd id (\<lambda>i. do {
     modify (upd_inode i (\<lambda>x. x\<lparr>vi_size := len\<rparr>));
     vfs_truncate fs i
   })"

definition sys_ftruncate :: "'w fs_ops \<Rightarrow> int \<Rightarrow> u32 \<Rightarrow> ('w, int) kern" where
  "sys_ftruncate fs fd len = sys_ftruncate64 fs fd (scast len)"

definition sys_fchdir :: "'w fs_ops \<Rightarrow> int \<Rightarrow> ('w, int) kern" where
  "sys_fchdir fs fd = on_fd_inode fd id (\<lambda>i. do {
     k \<leftarrow> gets id;
     if p_cwd (cur_proc k) = i then State_Monad.return 0
     else if \<not> inode_isdir k i then State_Monad.return (- ENOTDIR)
     else do {
       ok \<leftarrow> kalloc;
       (case fd_entry k fd of None \<Rightarrow> State_Monad.return ()
        | Some f \<Rightarrow> set_cur (\<lambda>p. p\<lparr>p_cwdpath := if ok then pf_path (process_fd_table k f) else None\<rparr>));
       if \<not> ok then State_Monad.return (- ENOMEM)
       else do {
         vfs_unref_inode fs (p_cwd (cur_proc k));
         set_cur (\<lambda>p. p\<lparr>p_cwd := i\<rparr>);
         vfs_ref_inode i;
         State_Monad.return 0
       }
     }
   })"

definition SEEK_SET :: int where "SEEK_SET = 0"
definition SEEK_CUR :: int where "SEEK_CUR = 1"
definition SEEK_END :: int where "SEEK_END = 2"

text \<open>\<^verbatim>\<open>sys__llseek\<close>; the second component of the result is what is stored through \<^verbatim>\<open>result\<close>.\<close>

definition sys__llseek :: "int \<Rightarrow> u32 \<Rightarrow> u32 \<Rightarrow> int \<Rightarrow> ('w, int \<times> u64) kern" where
  "sys__llseek fd offset_high offset_low whence = do {
     k \<leftarrow> gets id;
     let offset = push_bit 32 (ucast offset_high) OR ucast offset_low;
     let inode = inode_from_fd k fd;
     case fd_entry k fd of
       None \<Rightarrow> State_Monad.return (- EBADF, 0)
     | Some f \<Rightarrow>
         if inode = 0 then State_Monad.return (- EBADF, 0)
         else if \<not> vfs_can_seek (k_inodes k inode) then State_Monad.return (- ESPIPE, 0)
         else if whence \<notin> {SEEK_SET, SEEK_CUR, SEEK_END} then State_Monad.return (- EINVAL, 0)
         else (let real_offset =
                 (if whence = SEEK_SET then offset
                  else if whence = SEEK_CUR then pf_offset (process_fd_table k f) + offset
                  else vi_size (k_inodes k inode) + offset)
               in if sint real_offset < 0 then State_Monad.return (- EINVAL, 0)
                  else do {
                    modify (upd_file f (\<lambda>e. e\<lparr>pf_offset := real_offset\<rparr>));
                    State_Monad.return (0, real_offset)
                  })
   }"

definition sys_lseek :: "int \<Rightarrow> u32 \<Rightarrow> int \<Rightarrow> ('w, int) kern" where
  "sys_lseek fd offset whence = do {
     r \<leftarrow> sys__llseek fd 0 offset whence;
     State_Monad.return (if fst r < 0 then fst r else sint (ucast (snd r) :: u32))
   }"

section \<open>The descriptor invariant\<close>

text \<open>The descriptors of all processes that refer to entry \<open>f\<close> of the system file table.\<close>

definition fd_slots :: "'w kernel \<Rightarrow> nat \<Rightarrow> (nat \<times> nat) set" where
  "fd_slots k f = {(pid, fd). pid < PROCESS_LIMIT \<and> fd < PROCESS_FILE_LIMIT \<and>
     p_files (process_table k pid) fd = Some f}"

definition fd_inv :: "'w kernel \<Rightarrow> bool" where
  "fd_inv k \<longleftrightarrow>
     (\<forall>f. pf_refcnt (process_fd_table k f) = int (card (fd_slots k f))) \<and>
     (\<forall>f < process_fd_next k. pf_refcnt (process_fd_table k f) \<noteq> 0) \<and>
     process_fd_next k \<le> PROCESS_SYS_FILE_LIMIT \<and>
     (\<forall>pid fd f. p_files (process_table k pid) fd = Some f \<longrightarrow> f < PROCESS_SYS_FILE_LIMIT) \<and>
     k_cur k < PROCESS_LIMIT"

lemma fd_invD:
  assumes "fd_inv k"
  shows "pf_refcnt (process_fd_table k f) = int (card (fd_slots k f))"
    "f < process_fd_next k \<Longrightarrow> pf_refcnt (process_fd_table k f) \<noteq> 0"
    "process_fd_next k \<le> PROCESS_SYS_FILE_LIMIT"
    "p_files (process_table k pid) fd = Some f \<Longrightarrow> f < PROCESS_SYS_FILE_LIMIT"
    "k_cur k < PROCESS_LIMIT"
  using assms unfolding fd_inv_def by blast+

lemma finite_fd_slots [simp]: "finite (fd_slots k f)"
proof -
  have "fd_slots k f \<subseteq> {..<PROCESS_LIMIT} \<times> {..<PROCESS_FILE_LIMIT}" by (auto simp: fd_slots_def)
  then show ?thesis by (rule finite_subset) simp
qed

text \<open>Two states whose descriptor tables agree.\<close>

definition same_fds :: "'w kernel \<Rightarrow> 'w kernel \<Rightarrow> bool" where
  "same_fds k k' \<longleftrightarrow>
     (\<forall>pid. p_files (process_table k' pid) = p_files (process_table k pid)) \<and>
     (\<forall>f. pf_refcnt (process_fd_table k' f) = pf_refcnt (process_fd_table k f)) \<and>
     process_fd_next k' = process_fd_next k \<and> k_cur k' = k_cur k"

lemma same_fds_refl [simp]: "same_fds k k"
  by (simp add: same_fds_def)

lemma same_fds_trans: "same_fds k k1 \<Longrightarrow> same_fds k1 k2 \<Longrightarrow> same_fds k k2"
  by (simp add: same_fds_def)

lemma same_fds_inv:
  assumes same: "same_fds k k'" and inv: "fd_inv k"
  shows "fd_inv k'"
proof -
  have "fd_slots k' f = fd_slots k f" for f using same by (simp add: same_fds_def fd_slots_def)
  with same inv show ?thesis unfolding same_fds_def fd_inv_def by auto
qed

lemma fd_tables_simps [simp]:
  "process_table (set_fd pid fd x k) =
     (process_table k)(pid := (process_table k pid)\<lparr>p_files := (p_files (process_table k pid))(fd := x)\<rparr>)"
  "process_fd_table (set_fd pid fd x k) = process_fd_table k"
  "process_fd_next (set_fd pid fd x k) = process_fd_next k" "k_cur (set_fd pid fd x k) = k_cur k"
  "k_inodes (set_fd pid fd x k) = k_inodes k" "k_sbs (set_fd pid fd x k) = k_sbs k"
  "process_table (upd_file f g k) = process_table k"
  "process_fd_table (upd_file f g k) = (process_fd_table k)(f := g (process_fd_table k f))"
  "process_fd_next (upd_file f g k) = process_fd_next k" "k_cur (upd_file f g k) = k_cur k"
  "k_inodes (upd_file f g k) = k_inodes k" "k_sbs (upd_file f g k) = k_sbs k"
  "process_table (set_next n k) = process_table k" "process_fd_table (set_next n k) = process_fd_table k"
  "process_fd_next (set_next n k) = n" "k_cur (set_next n k) = k_cur k"
  "process_fd_table (upd_proc pid h k) = process_fd_table k"
  "process_fd_next (upd_proc pid h k) = process_fd_next k"
  by (simp_all add: set_fd_def upd_file_def set_next_def upd_proc_def)

lemma fd_slots_set_fd:
  assumes "pid < PROCESS_LIMIT" "fd < PROCESS_FILE_LIMIT"
  shows "fd_slots (set_fd pid fd x k) f =
    (fd_slots k f - {(pid, fd)}) \<union> (if x = Some f then {(pid, fd)} else {})"
  using assms by (auto simp: fd_slots_def split: if_splits)

lemma fd_slots_cong [simp]:
  "fd_slots (upd_file f g k) h = fd_slots k h" "fd_slots (set_next n k) h = fd_slots k h"
  by (simp_all add: fd_slots_def)

lemma process_alloc_fd_spec:
  assumes inv: "fd_inv k" and pid: "pid < PROCESS_LIMIT" and r: "run_state (process_alloc_fd pid fd) k = (r, k')"
  shows "fd_inv k' \<and>
    (r = - ENFILE \<and> k' = k \<and> (\<forall>f < PROCESS_SYS_FILE_LIMIT. pf_refcnt (process_fd_table k f) \<noteq> 0) \<or>
     r = - EMFILE \<and> k' = k \<and> (\<forall>n. fd \<le> n \<longrightarrow> n < PROCESS_FILE_LIMIT \<longrightarrow> p_files (process_table k pid) n \<noteq> None) \<or>
     (\<exists>nfd f. r = int nfd \<and> fd \<le> nfd \<and> nfd < PROCESS_FILE_LIMIT \<and> f < PROCESS_SYS_FILE_LIMIT \<and>
        p_files (process_table k pid) nfd = None \<and> pf_refcnt (process_fd_table k f) = 0 \<and>
        (\<forall>n. fd \<le> n \<longrightarrow> n < nfd \<longrightarrow> p_files (process_table k pid) n \<noteq> None) \<and>
        k' = set_next (Suc f) (upd_file f (\<lambda>e. e\<lparr>pf_refcnt := 1\<rparr>) (set_fd pid nfd (Some f) k))))"
proof (cases "find (\<lambda>f. pf_refcnt (process_fd_table k f) = 0) [process_fd_next k..<PROCESS_SYS_FILE_LIMIT]")
  case None
  then have "\<forall>f. process_fd_next k \<le> f \<longrightarrow> f < PROCESS_SYS_FILE_LIMIT \<longrightarrow> pf_refcnt (process_fd_table k f) \<noteq> 0"
    by (simp add: find_upt_None)
  moreover have "\<forall>f < process_fd_next k. pf_refcnt (process_fd_table k f) \<noteq> 0"
    using fd_invD(2) [OF inv] by blast
  ultimately have "\<forall>f < PROCESS_SYS_FILE_LIMIT. pf_refcnt (process_fd_table k f) \<noteq> 0"
    by (meson not_le)
  moreover have "k' = k" "r = - ENFILE" using None r by (simp_all add: process_alloc_fd_def)
  ultimately show ?thesis using inv by simp
next
  case f: (Some f)
  note f' = find_upt_Some [OF f]
  show ?thesis
  proof (cases "find (\<lambda>n. p_files (process_table k pid) n = None) [fd..<PROCESS_FILE_LIMIT]")
    case None
    moreover have "k' = k" "r = - EMFILE" using None f r by (simp_all add: process_alloc_fd_def)
    ultimately show ?thesis using inv by (simp add: find_upt_None)
  next
    case n: (Some nfd)
    note n' = find_upt_Some [OF n]
    let ?k = "set_next (Suc f) (upd_file f (\<lambda>e. e\<lparr>pf_refcnt := 1\<rparr>) (set_fd pid nfd (Some f) k))"
    have k': "k' = ?k" "r = int nfd" using f n r by (auto simp: process_alloc_fd_def)
    have refs: "pf_refcnt (process_fd_table k g) = int (card (fd_slots k g))" for g
      by (rule fd_invD(1) [OF inv])
    have empty: "fd_slots k f = {}" using refs [of f] f' by simp
    have slots: "fd_slots (set_fd pid nfd (Some f) k) g = (if g = f then {(pid, nfd)} else fd_slots k g)" for g
      using n' pid empty by (auto simp: fd_slots_set_fd) (auto simp: fd_slots_def)
    have "pf_refcnt (process_fd_table ?k g) = int (card (fd_slots ?k g))" for g
      using refs by (simp add: slots)
    moreover have "pf_refcnt (process_fd_table k g) \<noteq> 0" if "g < f" for g
      using that f' fd_invD(2) [OF inv, of g] by (cases "g < process_fd_next k") simp_all
    moreover have "\<forall>g < Suc f. pf_refcnt (process_fd_table ?k g) \<noteq> 0"
      using calculation(2) by (auto simp: less_Suc_eq)
    moreover have "\<forall>p d g. p_files (process_table ?k p) d = Some g \<longrightarrow> g < PROCESS_SYS_FILE_LIMIT"
      using f' fd_invD(4) [OF inv] by (auto split: if_splits)
    ultimately have "fd_inv ?k" using fd_invD(5) [OF inv] f' unfolding fd_inv_def by simp
    then show ?thesis using k' n' f' by blast
  qed
qed

text \<open>
  What the descriptor layer relies on in a filesystem: its functions do not touch the descriptor
  tables. \<open>keeps_fds\<close> says this of one computation.
\<close>

definition keeps_fds :: "('w, 'a) kern \<Rightarrow> bool" where
  "keeps_fds m \<longleftrightarrow> (\<forall>k. same_fds k (snd (run_state m k)))"

definition fs_destroy_ok :: "'w fs_ops \<Rightarrow> bool" where
  "fs_destroy_ok fs \<longleftrightarrow> (\<forall>i d. sop_destroy_inode (sops fs i) = Some d \<longrightarrow> (\<forall>ino. keeps_fds (d ino)))"

definition fs_transfer_ok :: "'w fs_ops \<Rightarrow> bool" where
  "fs_transfer_ok fs \<longleftrightarrow>
     (\<forall>i f. iop_read (iops fs i) = Some f \<longrightarrow> (\<forall>ino len off. keeps_fds (f ino len off))) \<and>
     (\<forall>i f. iop_write (iops fs i) = Some f \<longrightarrow> (\<forall>ino buf off. keeps_fds (f ino buf off)))"

lemma keeps_fdsD: "keeps_fds m \<Longrightarrow> run_state m k = (a, k') \<Longrightarrow> same_fds k k'"
  by (metis keeps_fds_def snd_conv)

lemma keeps_fds_bind:
  assumes "keeps_fds m" and "\<And>x. keeps_fds (g x)"
  shows "keeps_fds (State_Monad.bind m g)"
proof -
  have "same_fds k (snd (run_state (State_Monad.bind m g) k))" for k
  proof -
    obtain x k1 where m: "run_state m k = (x, k1)" by (metis surj_pair)
    have "same_fds k k1" by (rule keeps_fdsD [OF assms(1) m])
    moreover have "same_fds k1 (snd (run_state (g x) k1))" using assms(2) by (simp add: keeps_fds_def)
    ultimately show ?thesis using m by (auto intro: same_fds_trans)
  qed
  then show ?thesis by (simp add: keeps_fds_def)
qed

lemma keeps_fds_gets: "(\<And>k. keeps_fds (g (f k))) \<Longrightarrow> keeps_fds (State_Monad.bind (gets f) g)"
  by (simp add: keeps_fds_def)

lemma keeps_fds_intros:
  "keeps_fds (State_Monad.return x)" "keeps_fds (modify (upd_inode i h))"
  by (simp_all add: keeps_fds_def same_fds_def)

lemma keeps_fds_whenS: "keeps_fds m \<Longrightarrow> keeps_fds (whenS c m)"
  by (simp add: keeps_fds_def)

lemmas keeps_fds_rules = keeps_fds_intros keeps_fds_whenS keeps_fds_gets keeps_fds_bind

lemma keeps_fds_unref: "fs_destroy_ok fs \<Longrightarrow> keeps_fds (vfs_unref_inode fs i)"
  unfolding vfs_unref_inode_def inode_at_def inode_sops_def sb_sops_def
  by (cases "i = 0")
    (auto intro!: keeps_fds_intros keeps_fds_whenS keeps_fds_bind [OF keeps_fds_intros(2)] keeps_fds_gets
      simp: fs_destroy_ok_def split: option.split)

lemma keeps_fds_clear: "fs_destroy_ok fs \<Longrightarrow> keeps_fds (file_clear fs f)"
proof -
  have "keeps_fds (modify (upd_file f (\<lambda>e. e\<lparr>pf_inode := 0, pf_path := None, pf_mode := 0, pf_offset := 0\<rparr>)))"
    by (simp add: keeps_fds_def same_fds_def)
  then show "fs_destroy_ok fs \<Longrightarrow> keeps_fds (file_clear fs f)"
    unfolding file_clear_def by (intro keeps_fds_gets keeps_fds_whenS keeps_fds_bind keeps_fds_unref)
qed

lemma process_free_fd_spec:
  assumes fs: "fs_destroy_ok fs" and inv: "fd_inv k" and pid: "pid < PROCESS_LIMIT"
    and fd: "fd < PROCESS_FILE_LIMIT" and r: "run_state (process_free_fd fs pid fd) k = (r, k')"
  shows "fd_inv k' \<and> k_cur k' = k_cur k \<and>
    (if p_files (process_table k pid) fd = None then r = - EBADF \<and> k' = k
     else r = 0 \<and> (\<forall>p d. p_files (process_table k' p) d =
       (if p = pid \<and> d = fd then None else p_files (process_table k p) d)))"
proof (cases "p_files (process_table k pid) fd")
  case None
  then show ?thesis using r inv by (simp add: process_free_fd_def)
next
  case (Some f)
  define k1 where "k1 = upd_file f (\<lambda>e. e\<lparr>pf_refcnt := pf_refcnt e - 1\<rparr>) (set_fd pid fd None k)"
  obtain u k2 where k2: "run_state (file_clear fs f) k1 = (u, k2)" by (metis surj_pair)
  have same: "same_fds k1 k2" by (rule keeps_fdsD [OF keeps_fds_clear [OF fs] k2])
  have k': "k' = (if f < process_fd_next k2 then set_next f k2 else k2)" "r = 0"
    using r Some k2 by (simp_all add: process_free_fd_def k1_def)
  have in_slots: "(pid, fd) \<in> fd_slots k f" using Some pid fd by (simp add: fd_slots_def)
  have "fd_slots k1 g = (if g = f then fd_slots k f - {(pid, fd)} else fd_slots k g)" for g
    using Some by (auto simp: k1_def fd_slots_set_fd [OF pid fd]) (auto simp: fd_slots_def)
  then have refs: "pf_refcnt (process_fd_table k1 g) = int (card (fd_slots k1 g))" for g
    using fd_invD(1) [OF inv] in_slots card_Suc_Diff1 [OF finite_fd_slots in_slots]
    by (auto simp: k1_def)
  have next1: "process_fd_next k1 = process_fd_next k" "k_cur k1 = k_cur k"
    "p_files (process_table k1 p) d = (if p = pid \<and> d = fd then None else p_files (process_table k p) d)" for p d
    by (simp_all add: k1_def)
  have below: "pf_refcnt (process_fd_table k1 g) \<noteq> 0" if "g < process_fd_next k" "g \<noteq> f" for g
    using fd_invD(2) [OF inv that(1)] that(2) by (simp add: k1_def)
  have slots2: "fd_slots k' g = fd_slots k1 g" for g
    using same by (auto simp: k' same_fds_def fd_slots_def)
  have "fd_inv k'"
    unfolding fd_inv_def slots2
    using same refs below fd_invD(3,4,5) [OF inv] next1 
    by (auto simp: k' same_fds_def)
  then show ?thesis using Some same next1 by (auto simp: k' same_fds_def)
qed

lemma fcntl_dupfd_spec:
  assumes inv: "fd_inv k" and pid: "pid < PROCESS_LIMIT" and fd: "p_files (process_table k pid) (nat fd) = Some f"
    and r: "run_state (fcntl_dupfd pid fd arg cloexec) k = (r, k')"
  shows "fd_inv k' \<and> k_cur k' = k_cur k \<and>
    (r < 0 \<longrightarrow> k' = k) \<and> (r \<ge> 0 \<longrightarrow> fd \<noteq> arg \<longrightarrow>
      arg \<le> r \<and> r < int PROCESS_FILE_LIMIT \<and> p_files (process_table k pid) (nat r) = None \<and>
      (\<forall>p d. p_files (process_table k' p) d =
        (if p = pid \<and> d = nat r then Some f else p_files (process_table k p) d)))"
proof (cases "arg < 0 \<or> int PROCESS_FILE_LIMIT \<le> arg \<or> fd = arg")
  case True
  then show ?thesis
    using r inv by (auto simp: fcntl_dupfd_def EINVAL_def split: if_splits)
next
  case False
  show ?thesis
  proof (cases "find (\<lambda>n. p_files (process_table k pid) n = None) [nat arg..<PROCESS_FILE_LIMIT]")
    case None
    then show ?thesis using False r inv by (simp add: fcntl_dupfd_def EMFILE_def)
  next
    case n: (Some nfd)
    note n' = find_upt_Some [OF n]
    let ?k1 = "set_fd pid nfd (Some f) k"
    have run: "r = int nfd" "same_fds (upd_file f (\<lambda>e. e\<lparr>pf_refcnt := pf_refcnt e + 1\<rparr>) ?k1) k'"
      using False n fd r by (auto simp: fcntl_dupfd_def same_fds_def)
    let ?k2 = "upd_file f (\<lambda>e. e\<lparr>pf_refcnt := pf_refcnt e + 1\<rparr>) ?k1"
    have new: "(pid, nfd) \<notin> fd_slots k f" using n' by (simp add: fd_slots_def)
    have slots: "fd_slots ?k1 g = (if g = f then insert (pid, nfd) (fd_slots k f) else fd_slots k g)" for g
      using n' pid by (auto simp: fd_slots_set_fd) (auto simp: fd_slots_def)
    have "pf_refcnt (process_fd_table ?k2 g) = int (card (fd_slots ?k2 g))" for g
      using fd_invD(1) [OF inv] new by (simp add: slots)
    moreover have "pf_refcnt (process_fd_table ?k2 g) \<noteq> 0" if "g < process_fd_next ?k2" for g
      using that fd_invD(1,2) [OF inv, of g] by auto
    moreover have "g < PROCESS_SYS_FILE_LIMIT" if "p_files (process_table ?k2 p) d = Some g" for p d g
      using that fd_invD(4) [OF inv] fd by (auto split: if_splits)
    ultimately have "fd_inv ?k2" using fd_invD(3,5) [OF inv] by (simp add: fd_inv_def)
    then have "fd_inv k'" by (rule same_fds_inv [OF run(2)])
    then show ?thesis using run n' False by (auto simp: same_fds_def split: if_splits)
  qed
qed

lemma fcntl_inv:
  assumes inv: "fd_inv k" and r: "run_state (fcntl fd cmd arg) k = (r, k')"
  shows "fd_inv k'"
proof (cases "fd < 0 \<or> int PROCESS_FILE_LIMIT \<le> fd \<or> p_files (cur_proc k) (nat fd) = None")
  case True
  then show ?thesis using r inv by (auto simp: fcntl_def split: if_splits option.splits)
next
  case False
  then obtain f where f: "p_files (process_table k (k_cur k)) (nat fd) = Some f"
    by (auto simp: cur_proc_def)
  have run: "run_state (fcntl_cmd (k_cur k) fd f cmd arg) k = (r, k')"
    using r False f by (simp add: fcntl_def cur_proc_def)
  have dup: "fd_inv k'" if "run_state (fcntl_dupfd (k_cur k) fd arg c) k = (r, k')" for c
    using fcntl_dupfd_spec [OF inv fd_invD(5) [OF inv] f that] by blast
  have "fd_inv k'" if "cmd \<noteq> F_DUPFD" "cmd \<noteq> F_DUPFD_CLOEXEC"
    by (rule same_fds_inv [OF _ inv])
      (use that run in \<open>auto simp: fcntl_cmd_def same_fds_def split: if_splits\<close>)
  moreover have "fd_inv k'" if "cmd = F_DUPFD" using run that by (intro dup [of False]) (simp add: fcntl_cmd_def)
  moreover have "fd_inv k'" if "cmd = F_DUPFD_CLOEXEC" "cmd \<noteq> F_DUPFD"
    using run that by (intro dup [of True]) (simp add: fcntl_cmd_def)
  ultimately show ?thesis by blast
qed

section \<open>Sequences of descriptor calls\<close>

datatype fd_call = FAlloc nat | FClose int | FDup int | FDup2 int int | FFcntl int int int
  | FRead int u32 | FWrite int "u8 list" | FSeek int u32 int

fun fd_run :: "'w fs_ops \<Rightarrow> fd_call \<Rightarrow> ('w, int) kern" where
  "fd_run fs (FAlloc fd) = do { pid \<leftarrow> gets k_cur; process_alloc_fd pid fd }"
| "fd_run fs (FClose fd) = sys_close fs fd"
| "fd_run fs (FDup fd) = sys_dup fd"
| "fd_run fs (FDup2 fd1 fd2) = sys_dup2 fs fd1 fd2"
| "fd_run fs (FFcntl fd cmd arg) = sys_fcntl fd cmd arg"
| "fd_run fs (FRead fd len) = do { r \<leftarrow> sys_read fs fd len; State_Monad.return (fst r) }"
| "fd_run fs (FWrite fd buf) = sys_write fs fd buf"
| "fd_run fs (FSeek fd off whence) = sys_lseek fd off whence"

lemma keeps_fds_add_offset: "keeps_fds (add_offset f n)"
  by (simp add: keeps_fds_def same_fds_def add_offset_def)

lemma keeps_fds_op:
  "(\<And>g i. entry (iops fs i) = Some g \<Longrightarrow> keeps_fds (call g)) \<Longrightarrow> keeps_fds (vfs_op fs entry ino e call)"
  unfolding vfs_op_def inode_at_def
  by (auto intro!: keeps_fds_gets keeps_fds_intros split: option.split)

lemma keeps_fds_guards:
  "keeps_fds m \<Longrightarrow> keeps_fds (fail_if c e m)" "keeps_fds m \<Longrightarrow> keeps_fds (check d h m)"
  by (simp_all add: keeps_fds_def)

lemma keeps_fds_vfs_read: "fs_transfer_ok fs \<Longrightarrow> keeps_fds (vfs_read fs i len off)"
  unfolding vfs_read_def inode_at_def
  by (intro keeps_fds_guards keeps_fds_gets keeps_fds_op) (simp add: fs_transfer_ok_def)

lemma keeps_fds_vfs_write: "fs_transfer_ok fs \<Longrightarrow> keeps_fds (vfs_write fs i buf off)"
  unfolding vfs_write_def
  by (intro keeps_fds_guards keeps_fds_op) (simp add: fs_transfer_ok_def)

lemma keeps_fds_file: "(\<And>f file. keeps_fds (body f file)) \<Longrightarrow> keeps_fds (fd_file fd wrong e body)"
  unfolding fd_file_def Let_def
  by (auto intro!: keeps_fds_gets keeps_fds_intros split: option.split)

lemma keeps_fds_sys_read: "fs_transfer_ok fs \<Longrightarrow> keeps_fds (sys_read fs fd len)"
  unfolding sys_read_def
  by (rule keeps_fds_file, rule keeps_fds_bind [OF keeps_fds_vfs_read])
    (auto intro!: keeps_fds_intros keeps_fds_bind [OF keeps_fds_add_offset])

lemma keeps_fds_sys_write: "fs_transfer_ok fs \<Longrightarrow> keeps_fds (sys_write fs fd buf)"
  unfolding sys_write_def
  by (rule keeps_fds_file, rule keeps_fds_bind [OF keeps_fds_vfs_write])
    (auto intro!: keeps_fds_intros keeps_fds_bind [OF keeps_fds_add_offset])

lemma keeps_fds_llseek: "keeps_fds (sys__llseek fd h l w)"
  by (auto simp: sys__llseek_def keeps_fds_def same_fds_def Let_def split: option.splits)

lemma keeps_fds_lseek: "keeps_fds (sys_lseek fd off w)"
  unfolding sys_lseek_def by (intro keeps_fds_bind keeps_fds_llseek keeps_fds_intros)

lemma sys_close_inv:
  assumes "fs_destroy_ok fs" "fd_inv k" "run_state (sys_close fs fd) k = (r, k')"
  shows "fd_inv k' \<and> k_cur k' = k_cur k"
  using assms process_free_fd_spec [OF assms(1,2) fd_invD(5) [OF assms(2)], of "nat fd" r k']
  by (auto simp: sys_close_def nat_less_iff split: if_splits)

lemma keeps_fds_inv: "keeps_fds m \<Longrightarrow> fd_inv k \<Longrightarrow> run_state m k = (r, k') \<Longrightarrow> fd_inv k'"
  by (blast intro: same_fds_inv keeps_fdsD)

lemma fd_run_inv:
  assumes fs: "fs_destroy_ok fs" "fs_transfer_ok fs" and inv: "fd_inv k"
    and r: "run_state (fd_run fs c) k = (r, k')"
  shows "fd_inv k'"
proof (cases c)
  case (FAlloc fd)
  then show ?thesis using r process_alloc_fd_spec [OF inv fd_invD(5) [OF inv], of fd r k'] by simp
next
  case (FClose fd)
  then show ?thesis using r sys_close_inv [OF fs(1) inv] by simp
next
  case (FDup2 fd1 fd2)
  obtain r1 k1 where k1: "run_state (sys_close fs fd2) k = (r1, k1)" by (metis surj_pair)
  then have "run_state (fcntl fd1 F_DUPFD fd2) k1 = (r, k')" using r FDup2 by (simp add: sys_dup2_def)
  then show ?thesis using fcntl_inv sys_close_inv [OF fs(1) inv k1] by blast
next
  case (FRead fd len)
  obtain r1 k1 where "run_state (sys_read fs fd len) k = (r1, k1)" by (metis surj_pair)
  then show ?thesis using FRead r keeps_fds_inv [OF keeps_fds_sys_read [OF fs(2)] inv] by simp
next
  case (FWrite fd buf)
  then show ?thesis using r keeps_fds_inv [OF keeps_fds_sys_write [OF fs(2)] inv] by simp
next
  case (FSeek fd off w)
  then show ?thesis using r keeps_fds_inv [OF keeps_fds_lseek inv] by simp
qed (use r fcntl_inv [OF inv] in \<open>auto simp: sys_dup_def sys_fcntl_def\<close>)

section \<open>Properties\<close>

primrec fd_runs :: "'w fs_ops \<Rightarrow> fd_call list \<Rightarrow> ('w, unit) kern" where
  "fd_runs fs [] = State_Monad.return ()"
| "fd_runs fs (c # cs) = do { r \<leftarrow> fd_run fs c; fd_runs fs cs }"

lemma sample_fs_ok: "fs_destroy_ok sample_fs" "fs_transfer_ok sample_fs"
  by (simp_all add: fs_destroy_ok_def fs_transfer_ok_def sample_fs_def keeps_fds_intros)

lemma sample_kernel_inv: "fd_inv sample_kernel"
  by (simp add: fd_inv_def fd_slots_def sample_kernel_def sample_proc_def PROCESS_LIMIT_def)

text \<open>
  C4: reference counting of open files is exact. Starting from a state in which every entry of the
  system file table counts the descriptors that refer to it, any sequence of descriptor calls
  (allocation as \<^verbatim>\<open>open\<close> does it, \<^verbatim>\<open>close\<close>, \<^verbatim>\<open>dup\<close>, \<^verbatim>\<open>dup2\<close>, \<^verbatim>\<open>fcntl\<close>, \<^verbatim>\<open>read\<close>, \<^verbatim>\<open>write\<close>, \<^verbatim>\<open>lseek\<close>) with
  arbitrary arguments leads to such a state again, and the allocator's search position never
  passes a free entry, provided filesystem functions leave the descriptor tables alone.
\<close>

theorem fd_refcounts_exact:
  assumes "fs_destroy_ok fs" and "fs_transfer_ok fs" and "fd_inv k"
  shows "fd_inv (snd (run_state (fd_runs fs cs) k))"
  using assms(3)
proof (induction cs arbitrary: k)
  case (Cons c cs)
  obtain r k1 where k1: "run_state (fd_run fs c) k = (r, k1)" by (metis surj_pair)
  with Cons.IH [of k1] fd_run_inv [OF assms(1,2) Cons.prems k1] show ?case by simp
qed simp

theorem fd_refcounts_exact_witness:
  "fd_inv (snd (run_state (fd_runs sample_fs [FAlloc 0, FDup 0, FDup2 0 5, FClose 0]) sample_kernel))"
  by (rule fd_refcounts_exact [OF sample_fs_ok sample_kernel_inv])

text \<open>
  \<^verbatim>\<open>process_alloc_fd\<close> returns the lowest unused descriptor from the requested one on, bound to an
  unused entry of the system table; it fails with \<^verbatim>\<open>-ENFILE\<close> only when the system table is full and
  with \<^verbatim>\<open>-EMFILE\<close> only when the process has no descriptor left, and then changes nothing.
\<close>

theorem process_alloc_fd_correct:
  assumes "fd_inv k" and "pid < PROCESS_LIMIT" and "run_state (process_alloc_fd pid fd) k = (r, k')"
  shows "r = - ENFILE \<and> k' = k \<and> (\<forall>f < PROCESS_SYS_FILE_LIMIT. fd_slots k f \<noteq> {}) \<or>
    r = - EMFILE \<and> k' = k \<and>
      (\<forall>n. fd \<le> n \<longrightarrow> n < PROCESS_FILE_LIMIT \<longrightarrow> p_files (process_table k pid) n \<noteq> None) \<or>
    (\<exists>nfd f. r = int nfd \<and> fd \<le> nfd \<and> nfd < PROCESS_FILE_LIMIT \<and>
       p_files (process_table k pid) nfd = None \<and>
       (\<forall>n. fd \<le> n \<longrightarrow> n < nfd \<longrightarrow> p_files (process_table k pid) n \<noteq> None) \<and>
       fd_slots k f = {} \<and> fd_slots k' f = {(pid, nfd)} \<and>
       p_files (process_table k' pid) nfd = Some f)"
proof -
  have refs: "pf_refcnt (process_fd_table k f) = 0 \<longleftrightarrow> fd_slots k f = {}" for f
    using fd_invD(1) [OF assms(1), of f] by simp
  have slots: "fd_slots (set_next (Suc f) (upd_file f g (set_fd pid nfd (Some f) k))) f = {(pid, nfd)}"
    if "fd_slots k f = {}" "nfd < PROCESS_FILE_LIMIT" for f nfd g
    using that assms(2) by (simp add: fd_slots_set_fd)
  have full: "pf_refcnt (process_fd_table k f) \<noteq> 0 \<longleftrightarrow> fd_slots k f \<noteq> {}" for f using refs by simp
  have got: "p_files (process_table (set_next (Suc f) (upd_file f g (set_fd pid nfd (Some f) k))) pid) nfd = Some f"
    for f nfd g by simp
  show ?thesis
    using process_alloc_fd_spec [OF assms] unfolding full unfolding refs
    using slots got by metis
qed

theorem process_alloc_fd_correct_witness:
  "\<exists>k'. run_state (process_alloc_fd 1 0) sample_kernel = (0, k') \<and> (\<exists>f. fd_slots k' f = {(1, 0)})"
proof -
  obtain k' where k': "run_state (process_alloc_fd 1 0) sample_kernel = (0, k')"
    by (simp add: process_alloc_fd_def sample_kernel_def sample_proc_def find_upt_first
        PROCESS_FILE_LIMIT_def PROCESS_SYS_FILE_LIMIT_def)
  have "(1 :: nat) < PROCESS_LIMIT" by (simp add: PROCESS_LIMIT_def)
  from process_alloc_fd_correct [OF sample_kernel_inv this k'] show ?thesis
    using k' by (fastforce simp: errno_defs)
qed

text \<open>
  \<^verbatim>\<open>dup2 (fd1, fd2)\<close> for an open \<^verbatim>\<open>fd1\<close> and a different descriptor \<^verbatim>\<open>fd2\<close> in range always
  succeeds: it returns \<^verbatim>\<open>fd2\<close>, which then refers to the same open file as \<^verbatim>\<open>fd1\<close>, and no other
  descriptor of any process changes.
\<close>

theorem dup2_correct:
  assumes "fs_destroy_ok fs" and "fd_inv k" and "fd_entry k fd1 = Some f"
    and "0 \<le> fd2" and "fd2 < int PROCESS_FILE_LIMIT" and "fd1 \<noteq> fd2"
  shows "\<exists>k'. run_state (sys_dup2 fs fd1 fd2) k = (fd2, k') \<and>
    (\<forall>p d. p_files (process_table k' p) d =
      (if p = k_cur k \<and> d = nat fd2 then Some f else p_files (process_table k p) d))"
proof -
  let ?c = "k_cur k"
  obtain r1 k1 where k1: "run_state (process_free_fd fs ?c (nat fd2)) k = (r1, k1)" by (metis surj_pair)
  have close: "run_state (sys_close fs fd2) k = (r1, k1)"
    using k1 assms(4,5) by (simp add: sys_close_def)
  have fd1: "0 \<le> fd1" "fd1 < int PROCESS_FILE_LIMIT" "p_files (process_table k ?c) (nat fd1) = Some f"
    using assms(3) by (auto simp: fd_entry_def cur_proc_def split: if_splits)
  have "nat fd2 < PROCESS_FILE_LIMIT" using assms(4,5) by (simp add: nat_less_iff)
  from process_free_fd_spec [OF assms(1,2) fd_invD(5) [OF assms(2)] this k1]
  have free: "fd_inv k1" "k_cur k1 = ?c"
    "\<And>p d. p_files (process_table k1 p) d =
      (if p = ?c \<and> d = nat fd2 then None else p_files (process_table k p) d)"
    by (auto split: if_splits)
  have open1: "p_files (process_table k1 ?c) (nat fd1) = Some f" and free2: "p_files (process_table k1 ?c) (nat fd2) = None"
    using free(3) fd1 assms(4,6) by (auto simp: nat_eq_iff)
  obtain r k' where k': "run_state (fcntl_dupfd ?c fd1 fd2 False) k1 = (r, k')" by (metis surj_pair)
  have "find (\<lambda>n. p_files (process_table k1 ?c) n = None) [nat fd2..<PROCESS_FILE_LIMIT] = Some (nat fd2)"
    using free2 assms(4,5) by (intro find_upt_first) (auto simp: nat_less_iff)
  then have r: "r = fd2" using k' assms(4-6) open1 by (simp add: fcntl_dupfd_def)
  have "run_state (fcntl fd1 F_DUPFD fd2) k1 = (r, k')"
    using k' fd1 open1 free(2) by (simp add: fcntl_def fcntl_cmd_def cur_proc_def)
  then have "run_state (sys_dup2 fs fd1 fd2) k = (fd2, k')"
    using close r by (simp add: sys_dup2_def)
  moreover have "fd1 \<noteq> fd2" by (rule assms(6))
  moreover note fcntl_dupfd_spec [OF free(1) _ open1 k'] fd_invD(5) [OF assms(2)]
  ultimately show ?thesis using r assms(4) free(3) by auto
qed

definition sample_kernel1 :: "unit kernel" where
  "sample_kernel1 = snd (run_state (process_alloc_fd 1 0) sample_kernel)"

lemma sample_kernel1_props: "fd_inv sample_kernel1" "fd_entry sample_kernel1 0 = Some 0" "k_cur sample_kernel1 = 1"
proof -
  have run: "run_state (process_alloc_fd 1 0) sample_kernel = (0, sample_kernel1)"
    by (simp add: sample_kernel1_def process_alloc_fd_def sample_kernel_def sample_proc_def find_upt_first
        PROCESS_FILE_LIMIT_def PROCESS_SYS_FILE_LIMIT_def)
  show "fd_inv sample_kernel1"
    using process_alloc_fd_spec [OF sample_kernel_inv _ run] by (simp add: PROCESS_LIMIT_def)
  have eq: "sample_kernel1 = set_next 1 (upd_file 0 (\<lambda>e. e\<lparr>pf_refcnt := 1\<rparr>) (set_fd 1 0 (Some 0) sample_kernel))"
    by (simp add: sample_kernel1_def process_alloc_fd_def sample_kernel_def sample_proc_def find_upt_first
        PROCESS_FILE_LIMIT_def PROCESS_SYS_FILE_LIMIT_def)
  have "k_cur sample_kernel = 1" by (simp add: sample_kernel_def)
  then show "fd_entry sample_kernel1 0 = Some 0" "k_cur sample_kernel1 = 1"
    by (simp_all add: eq fd_entry_def PROCESS_FILE_LIMIT_def cur_proc_def)
qed

theorem dup2_correct_witness:
  "\<exists>k'. run_state (sys_dup2 sample_fs 0 5) sample_kernel1 = (5, k') \<and>
    p_files (process_table k' 1) 5 = Some 0"
  using dup2_correct [OF sample_fs_ok(1) sample_kernel1_props(1,2), of 5] sample_kernel1_props(3)
  by (auto simp: PROCESS_FILE_LIMIT_def)

text \<open>
  \<^verbatim>\<open>_llseek\<close> on an open descriptor of a seekable file moves the file offset to the 64-bit offset
  given by its two halves, counted from the start, the current offset or the end of the file; a
  result that is negative as a signed value, or an unknown \<^verbatim>\<open>whence\<close>, is refused with \<^verbatim>\<open>-EINVAL\<close> and
  changes nothing.
\<close>

theorem llseek_correct:
  assumes "fd_entry k fd = Some f" and "pf_inode (process_fd_table k f) = ino" and "ino \<noteq> 0"
    and "vfs_can_seek (k_inodes k ino)"
    and "base = (if whence = SEEK_SET then 0 else if whence = SEEK_CUR
      then pf_offset (process_fd_table k f) else vi_size (k_inodes k ino))"
    and "new = base + (push_bit 32 (ucast high) OR ucast low)"
  shows "run_state (sys__llseek fd high low whence) k =
    (if whence \<in> {SEEK_SET, SEEK_CUR, SEEK_END} \<and> 0 \<le> sint new
     then ((0, new), upd_file f (\<lambda>e. e\<lparr>pf_offset := new\<rparr>) k) else ((- EINVAL, 0), k))"
  using assms
  by (auto simp: sys__llseek_def Let_def inode_from_fd_def SEEK_SET_def SEEK_CUR_def SEEK_END_def)

definition sample_kernel2 :: "unit kernel" where
  "sample_kernel2 = upd_file 0 (\<lambda>e. e\<lparr>pf_inode := 3, pf_offset := 10\<rparr>) sample_kernel1"

lemma sample_kernel2_props:
  "fd_entry sample_kernel2 0 = Some 0" "pf_inode (process_fd_table sample_kernel2 0) = 3"
  "pf_offset (process_fd_table sample_kernel2 0) = 10" "vfs_can_seek (k_inodes sample_kernel2 3)"
proof -
  show "fd_entry sample_kernel2 0 = Some 0"
    using sample_kernel1_props(2)
    by (simp add: sample_kernel2_def fd_entry_def cur_proc_def PROCESS_FILE_LIMIT_def)
  show "pf_inode (process_fd_table sample_kernel2 0) = 3" "pf_offset (process_fd_table sample_kernel2 0) = 10"
    by (simp_all add: sample_kernel2_def)
  have "k_inodes sample_kernel1 = (\<lambda>_. sample_inode)"
    by (simp add: sample_kernel1_def process_alloc_fd_def sample_kernel_def set_fd_def upd_file_def
        upd_proc_def set_next_def split: option.split)
  then show "vfs_can_seek (k_inodes sample_kernel2 3)"
    by (simp add: sample_kernel2_def sample_inode_def vfs_can_seek_def S_ISCHR_def S_ISSOCK_def
        S_ISFIFO_def mode_defs)
qed

theorem llseek_correct_witness:
  "run_state (sys__llseek 0 0 7 SEEK_SET) sample_kernel2 =
    ((0, 7), upd_file 0 (\<lambda>e. e\<lparr>pf_offset := 7\<rparr>) sample_kernel2)"
  using llseek_correct [OF sample_kernel2_props(1,2) _ sample_kernel2_props(4), of 0 SEEK_SET 7 0 7]
  by (simp add: SEEK_SET_def)

section \<open>Behaviours worth knowing\<close>

lemma minus_one_u32: "(ucast (- 1 :: u32) :: u64) = 0xffffffff"
  by (rule word_unat_eq_iff [THEN iffD2]) (simp add: unsigned_ucast_eq unsigned_minus_1_eq_mask mask_eq_exp_minus_1)

text \<open>\<^verbatim>\<open>lseek\<close> passes its signed 32-bit offset as the unsigned low half with a zero high half, so a
  negative offset moves the position forward: from 10, \<^verbatim>\<open>lseek (fd, -1, SEEK_CUR)\<close> goes to
  $10 + 2^{32} - 1$.\<close>

lemma lseek_negative_offset:
  "pf_offset (process_fd_table (snd (run_state (sys_lseek 0 (- 1) SEEK_CUR) sample_kernel2)) 0) = 4294967305"
  using sample_kernel2_props minus_one_u32
  by (simp add: sys_lseek_def sys__llseek_def Let_def inode_from_fd_def SEEK_SET_def SEEK_CUR_def SEEK_END_def)

text \<open>\<^verbatim>\<open>dup\<close> of descriptor 0 duplicates nothing: the descriptor equals the search start, and is
  returned as it is.\<close>

lemma dup_zero: "fd_entry k 0 = Some f \<Longrightarrow> run_state (sys_dup 0) k = (0, k)"
  by (simp add: sys_dup_def fcntl_def fcntl_cmd_def fcntl_dupfd_def fd_entry_def PROCESS_FILE_LIMIT_def
      split: if_splits)

text \<open>\<^verbatim>\<open>dup2 (fd, fd)\<close> closes the descriptor and fails.\<close>

lemma dup2_same_fd:
  assumes "fs_destroy_ok fs" and "fd_inv k" and "fd_entry k fd = Some f"
  shows "\<exists>k'. run_state (sys_dup2 fs fd fd) k = (- EBADF, k') \<and> fd_entry k' fd = None"
proof -
  obtain r1 k1 where k1: "run_state (process_free_fd fs (k_cur k) (nat fd)) k = (r1, k1)" by (metis surj_pair)
  have fd: "0 \<le> fd" "fd < int PROCESS_FILE_LIMIT" "nat fd < PROCESS_FILE_LIMIT"
    using assms(3) by (auto simp: fd_entry_def split: if_splits)
  from process_free_fd_spec [OF assms(1,2) fd_invD(5) [OF assms(2)] fd(3) k1]
  have "p_files (process_table k1 (k_cur k1)) (nat fd) = None" by (auto split: if_splits)
  moreover have "run_state (sys_close fs fd) k = (r1, k1)" using k1 fd by (simp add: sys_close_def)
  ultimately show ?thesis
    using fd by (intro exI [of _ k1]) (simp add: sys_dup2_def fcntl_def cur_proc_def fd_entry_def)
qed

end
