(* ===== verification/Signals.thy ===== *)
theory Signals
  imports Creds
begin

unbundle bit_operations_syntax

text \<open>
  Signals: \<^verbatim>\<open>process_send_signal\<close> and the bookkeeping of \<^verbatim>\<open>process_handle_signal\<close> of \<^verbatim>\<open>kernel/process.c\<close>,
  \<^verbatim>\<open>uapi/signal.c\<close>, \<^verbatim>\<open>sys_exit\<close> of \<^verbatim>\<open>uapi/misc.c\<close> and \<^verbatim>\<open>kernel/wait.c\<close>. Sending a signal is a function on
  the kernel state: its C result is always 0. It ends by giving up the processor when the target is the
  running task (\<^verbatim>\<open>task_yield\<close>); \<open>send_returns\<close> says whether the call comes back from there, which the
  loops over process groups depend on. What other tasks do in the meantime is not part of the model.
\<close>

section \<open>Constants\<close>

definition SIGHUP :: nat where "SIGHUP = 1"
definition SIGINT :: nat where "SIGINT = 2"
definition SIGQUIT :: nat where "SIGQUIT = 3"
definition SIGILL :: nat where "SIGILL = 4"
definition SIGTRAP :: nat where "SIGTRAP = 5"
definition SIGABRT :: nat where "SIGABRT = 6"
definition SIGBUS :: nat where "SIGBUS = 7"
definition SIGFPE :: nat where "SIGFPE = 8"
definition SIGKILL :: nat where "SIGKILL = 9"
definition SIGUSR1 :: nat where "SIGUSR1 = 10"
definition SIGSEGV :: nat where "SIGSEGV = 11"
definition SIGUSR2 :: nat where "SIGUSR2 = 12"
definition SIGPIPE :: nat where "SIGPIPE = 13"
definition SIGALRM :: nat where "SIGALRM = 14"
definition SIGTERM :: nat where "SIGTERM = 15"
definition SIGSTKFLT :: nat where "SIGSTKFLT = 16"
definition SIGCHLD :: nat where "SIGCHLD = 17"
definition SIGCONT :: nat where "SIGCONT = 18"
definition SIGSTOP :: nat where "SIGSTOP = 19"
definition SIGTSTP :: nat where "SIGTSTP = 20"
definition SIGTTIN :: nat where "SIGTTIN = 21"
definition SIGTTOU :: nat where "SIGTTOU = 22"
definition SIGXCPU :: nat where "SIGXCPU = 24"
definition SIGXFSZ :: nat where "SIGXFSZ = 25"
definition SIGVTALRM :: nat where "SIGVTALRM = 26"
definition SIGPROF :: nat where "SIGPROF = 27"
definition SIGIO :: nat where "SIGIO = 29"
definition SIGPWR :: nat where "SIGPWR = 30"
definition SIGSYS :: nat where "SIGSYS = 31"

lemmas sig_defs = SIGHUP_def SIGINT_def SIGQUIT_def SIGILL_def SIGTRAP_def SIGABRT_def SIGBUS_def
  SIGFPE_def SIGKILL_def SIGUSR1_def SIGSEGV_def SIGUSR2_def SIGPIPE_def SIGALRM_def SIGTERM_def
  SIGSTKFLT_def SIGCHLD_def SIGCONT_def SIGSTOP_def SIGTSTP_def SIGTTIN_def SIGTTOU_def SIGXCPU_def
  SIGXFSZ_def SIGVTALRM_def SIGPROF_def SIGIO_def SIGPWR_def SIGSYS_def

definition SA_NOCLDSTOP :: u32 where "SA_NOCLDSTOP = 1"
definition SA_SIGINFO :: u32 where "SA_SIGINFO = 4"
definition SA_NODEFER :: u32 where "SA_NODEFER = 0x40000000"
definition SIG_DFL :: u32 where "SIG_DFL = 0"
definition SIG_IGN :: u32 where "SIG_IGN = 1"
definition SIG_ERR :: u32 where "SIG_ERR = - 1"
definition SI_USER :: u32 where "SI_USER = 0x100"

text \<open>The signals whose default action terminates, and those whose default action stops.\<close>

definition term_signals :: "nat list" where
  "term_signals = [SIGABRT, SIGALRM, SIGBUS, SIGFPE, SIGHUP, SIGILL, SIGINT, SIGIO, SIGPIPE, SIGPROF,
     SIGPWR, SIGQUIT, SIGSEGV, SIGSTKFLT, SIGSYS, SIGTERM, SIGTRAP, SIGUSR1, SIGUSR2, SIGVTALRM,
     SIGXCPU, SIGXFSZ]"

definition stop_signals :: "nat list" where
  "stop_signals = [SIGTTIN, SIGTTOU, SIGTSTP]"

definition WIFSTOPPED :: "u32 \<Rightarrow> bool" where
  "WIFSTOPPED status \<longleftrightarrow> status AND 0xff = 0x7f"

section \<open>Sending (\<^verbatim>\<open>kernel/process.c\<close>)\<close>

definition task_ppid :: "Process \<Rightarrow> nat" where
  "task_ppid p = (case p_task p of None \<Rightarrow> 0 | Some t \<Rightarrow> t_ppid t)"

definition sig_default :: "sigaction \<Rightarrow> bool" where
  "sig_default sa \<longleftrightarrow> sa_flags sa AND SA_SIGINFO = 0 \<and> sa_handler sa = SIG_DFL"

definition sig_ignored :: "sigaction \<Rightarrow> bool" where
  "sig_ignored sa \<longleftrightarrow> sa_flags sa AND SA_SIGINFO = 0 \<and> sa_handler sa = SIG_IGN"

definition set_exit_task :: "nat \<Rightarrow> 'w kernel \<Rightarrow> 'w kernel" where
  "set_exit_task pid k = k\<lparr>exit_task := pid\<rparr>"

function process_send_signal :: "nat \<Rightarrow> nat \<Rightarrow> 'w kernel \<Rightarrow> 'w kernel" where
  "process_send_signal pid sig k =
     (let p = process_table k pid; sa = p_sigactions p sig
      in if sig \<noteq> SIGKILL \<and> sigismember (p_sigblocked p) sig then
           upd_proc pid (\<lambda>p. p\<lparr>p_sigpending := sigaddset (p_sigpending p) sig\<rparr>) k
         else if sig \<noteq> SIGKILL \<and> sig_ignored sa then k
         else
           let k1 = (if sig = SIGCONT \<and> WIFSTOPPED (p_waitstat p)
                     then upd_proc pid (\<lambda>p. p\<lparr>p_term := False, p_waitstat := 0\<rparr>) k else k);
               k2 = (if sig = SIGKILL \<or> sig \<in> set term_signals \<and> sig_default sa then
                       let k' = set_exit_task pid
                                  (upd_proc pid (\<lambda>p. p\<lparr>p_term := True, p_waitstat := of_nat sig\<rparr>) k1)
                       in if task_ppid p \<noteq> 0 then process_send_signal (task_ppid p) SIGCHLD k' else k'
                     else if sig = SIGSTOP \<or> sig \<in> set stop_signals \<and> sig_default sa then
                       let k' = upd_proc pid (\<lambda>p. p\<lparr>p_term := True,
                                  p_waitstat := push_bit 8 (of_nat sig) OR 0x7f\<rparr>) k1
                       in if sa_flags sa AND SA_NOCLDSTOP = 0 \<and> task_ppid p \<noteq> 0
                          then process_send_signal (task_ppid p) SIGCHLD k' else k'
                     else k1)
           in upd_proc pid (\<lambda>p. p\<lparr>p_sig := sig\<rparr>) k2)"
  by pat_completeness auto
termination
  by (relation "measure (\<lambda>(pid, sig, k). if sig = SIGCHLD then 0 else 1)")
    (auto simp: term_signals_def stop_signals_def sig_defs)

declare process_send_signal.simps [simp del]

text \<open>
  The end of \<^verbatim>\<open>process_send_signal\<close>: a signal to the running task that is neither queued nor ignored ends
  in \<^verbatim>\<open>task_yield\<close>, and the scheduler (\<^verbatim>\<open>irq8\<close>) passes over every task with \<^verbatim>\<open>p_term\<close> set. The call
  therefore does not return to its caller when it has terminated the running task, and when it has
  stopped it, not before the task is continued.
\<close>

definition send_yields :: "nat \<Rightarrow> nat \<Rightarrow> 'w kernel \<Rightarrow> bool" where
  "send_yields pid sig k \<longleftrightarrow> pid = k_cur k \<and>
     (sig = SIGKILL \<or> \<not> sigismember (p_sigblocked (process_table k pid)) sig \<and>
                        \<not> sig_ignored (p_sigactions (process_table k pid) sig))"

definition send_returns :: "nat \<Rightarrow> nat \<Rightarrow> 'w kernel \<Rightarrow> bool" where
  "send_returns pid sig k \<longleftrightarrow>
     \<not> (send_yields pid sig k \<and> p_term (process_table (process_send_signal pid sig k) pid))"

definition process_clear_sighandlers :: "nat \<Rightarrow> 'w kernel \<Rightarrow> 'w kernel" where
  "process_clear_sighandlers pid = upd_proc pid (\<lambda>p. p\<lparr>p_sigactions :=
     (\<lambda>_. \<lparr>sa_handler = 0, sa_sigaction = 0, sa_flags = 0, sa_mask = sigemptyset\<rparr>)\<rparr>)"

definition process_terminated :: "'w kernel \<Rightarrow> nat \<Rightarrow> bool" where
  "process_terminated k pid = p_term (process_table k pid)"

text \<open>
  \<^verbatim>\<open>process_handle_signal\<close>: choose the signal the running process handles next, update its masks and
  return the signal and its handler (\<^verbatim>\<open>process_signal\<close>, \<^verbatim>\<open>process_signal_handler\<close>); 0 when there is none.
  The page on which the handler finds the signal information is not part of this state.
\<close>

definition handle_pick :: "Process \<Rightarrow> Process" where
  "handle_pick p =
     (if p_sig p = 0 then
        case find (\<lambda>i. \<not> sigismember (p_sigblocked p) i \<and> sigismember (p_sigpending p) i)
               [SIGHUP..<Suc SIGSYS] of
          None \<Rightarrow> p
        | Some i \<Rightarrow> p\<lparr>p_sig := i, p_sigpending := sigdelset (p_sigpending p) i\<rparr>
      else p)"

definition handle_masks :: "Process \<Rightarrow> Process" where
  "handle_masks p =
     (let sa = p_sigactions p (p_sig p);
          blocked = (\<lambda>i. p_sigblocked p i OR sa_mask sa i)
      in p\<lparr>p_sigpending := sigdelset (p_sigpending p) (p_sig p),
           p_sigblocked := (if sa_flags sa AND SA_NODEFER = 0 then sigaddset blocked (p_sig p)
                            else blocked)\<rparr>)"

definition process_handle_signal :: "('w, nat \<times> u32) kern" where
  "process_handle_signal = do {
     set_cur handle_pick;
     proc \<leftarrow> gets cur_proc;
     if p_sig proc = 0 then State_Monad.return (0, 0)
     else do {
       set_cur handle_masks;
       let sa = p_sigactions proc (p_sig proc);
       State_Monad.return (p_sig proc, if sa_flags sa AND SA_SIGINFO \<noteq> 0 then sa_sigaction sa else sa_handler sa)
     }
   }"

definition process_signal_handled :: "('w, unit) kern" where
  "process_signal_handled = set_cur (\<lambda>p. p\<lparr>p_sig := 0, p_pause := False,
     p_siginfo := \<lparr>si_signo = 0, si_code = 0, si_pid = 0, si_uid = 0\<rparr>\<rparr>)"

section \<open>System calls (\<^verbatim>\<open>uapi/signal.c\<close>, \<^verbatim>\<open>uapi/misc.c\<close>)\<close>

text \<open>\<^verbatim>\<open>sys_kill\<close> from the validity check on, for a positive process id. When the call does not come back
  (\<open>send_returns\<close>), nobody sees its result, and the loop over a process group ends there.\<close>

definition kill_one :: "int \<Rightarrow> nat \<Rightarrow> ('w, int) kern" where
  "kill_one pid sig = do {
     k \<leftarrow> gets id;
     let cur = cur_proc k;
     if \<not> process_valid k pid then State_Monad.return (- ESRCH)
     else if p_euid cur \<noteq> 0 \<and> p_euid cur \<noteq> p_euid (process_table k (nat pid))
     then State_Monad.return (- EPERM)
     else do {
       modify (upd_proc (nat pid) (\<lambda>p. p\<lparr>p_siginfo := \<lparr>si_signo = sig, si_code = SI_USER,
         si_pid = int (k_cur k), si_uid = p_uid cur\<rparr>\<rparr>));
       modify (process_send_signal (nat pid) sig);
       State_Monad.return 0
     }
   }"

primrec killpg_loop :: "int \<Rightarrow> nat \<Rightarrow> nat list \<Rightarrow> ('w, int) kern" where
  "killpg_loop pgid sig [] = State_Monad.return 0"
| "killpg_loop pgid sig (i # is) = do {
     k \<leftarrow> gets id;
     if p_pgid (process_table k i) = pgid then do {
       ret \<leftarrow> kill_one (int i) sig;
       if ret < 0 \<or> \<not> send_returns i sig k then State_Monad.return ret else killpg_loop pgid sig is
     }
     else killpg_loop pgid sig is
   }"

definition sys_killpg :: "int \<Rightarrow> nat \<Rightarrow> ('w, int) kern" where
  "sys_killpg pgid sig = killpg_loop pgid sig [1..<PROCESS_LIMIT]"

definition sys_kill :: "int \<Rightarrow> int \<Rightarrow> ('w, int) kern" where
  "sys_kill pid sig =
     (if sig < 0 \<or> int NSIG \<le> sig then State_Monad.return (- EINVAL)
      else if pid = - 1 then State_Monad.return (- ENOSYS)
      else if pid \<le> 0 then sys_killpg (- pid) (nat sig)
      else kill_one pid (nat sig))"

definition sig_settable :: "int \<Rightarrow> bool" where
  "sig_settable sig \<longleftrightarrow> 0 \<le> sig \<and> sig < int NSIG \<and> sig \<noteq> int SIGKILL \<and> sig \<noteq> int SIGSTOP"

text \<open>\<^verbatim>\<open>sys_sigaction\<close>; a NULL \<^verbatim>\<open>act\<close> is \<open>None\<close>, and the second component is what is stored through
  \<^verbatim>\<open>old\<close>.\<close>

definition sys_sigaction :: "int \<Rightarrow> sigaction option \<Rightarrow> ('w, int \<times> sigaction option) kern" where
  "sys_sigaction sig act =
     (if \<not> sig_settable sig then State_Monad.return (- EINVAL, None)
      else do {
        old \<leftarrow> gets (\<lambda>k. p_sigactions (cur_proc k) (nat sig));
        (case act of None \<Rightarrow> State_Monad.return ()
         | Some a \<Rightarrow> set_cur (\<lambda>p. p\<lparr>p_sigactions := (p_sigactions p)(nat sig := a)\<rparr>));
        State_Monad.return (0, Some old)
      })"

definition sys_signal :: "int \<Rightarrow> u32 \<Rightarrow> ('w, u32) kern" where
  "sys_signal sig func =
     (if \<not> sig_settable sig then State_Monad.return SIG_ERR
      else do {
        r \<leftarrow> sys_sigaction sig (Some \<lparr>sa_handler = func, sa_sigaction = 0, sa_flags = 0,
               sa_mask = sigemptyset\<rparr>);
        State_Monad.return (if fst r = - 1 then SIG_ERR
          else case snd r of None \<Rightarrow> SIG_ERR | Some old \<Rightarrow> sa_handler old)
      })"

definition sys_sigpending :: "'w kernel \<Rightarrow> sigset" where
  "sys_sigpending k = p_sigpending (cur_proc k)"

text \<open>
  \<^verbatim>\<open>sys_pause\<close> and \<^verbatim>\<open>sys_sigsuspend\<close> spin until \<^verbatim>\<open>p_pause\<close> is cleared; what the rest of the system does
  meanwhile is the parameter \<^verbatim>\<open>spin\<close>.
\<close>

definition sys_pause :: "('w kernel \<Rightarrow> 'w kernel) \<Rightarrow> ('w, int) kern" where
  "sys_pause spin = do {
     set_cur (\<lambda>p. p\<lparr>p_pause := True\<rparr>);
     modify spin;
     State_Monad.return (- EINTR)
   }"

definition sys_sigsuspend :: "('w kernel \<Rightarrow> 'w kernel) \<Rightarrow> sigset \<Rightarrow> ('w, int) kern" where
  "sys_sigsuspend spin newmask = do {
     save \<leftarrow> gets (\<lambda>k. p_sigblocked (cur_proc k));
     set_cur (\<lambda>p. p\<lparr>p_sigblocked := newmask\<rparr>);
     set_cur (\<lambda>p. p\<lparr>p_pause := True\<rparr>);
     modify spin;
     set_cur (\<lambda>p. p\<lparr>p_sigblocked := save\<rparr>);
     State_Monad.return (- EINTR)
   }"

definition SIG_BLOCK :: int where "SIG_BLOCK = 0"
definition SIG_UNBLOCK :: int where "SIG_UNBLOCK = 1"
definition SIG_SETMASK :: int where "SIG_SETMASK = 2"

definition sys_sigprocmask :: "int \<Rightarrow> sigset option \<Rightarrow> ('w, int \<times> sigset) kern" where
  "sys_sigprocmask how s = do {
     old \<leftarrow> gets (\<lambda>k. p_sigblocked (cur_proc k));
     case s of
       None \<Rightarrow> State_Monad.return (0, old)
     | Some m \<Rightarrow>
         if how = SIG_BLOCK then do {
           set_cur (\<lambda>p. p\<lparr>p_sigblocked := (\<lambda>i. p_sigblocked p i OR m i)\<rparr>);
           State_Monad.return (0, old)
         }
         else if how = SIG_UNBLOCK then do {
           set_cur (\<lambda>p. p\<lparr>p_sigblocked := (\<lambda>i. p_sigblocked p i AND NOT (m i))\<rparr>);
           State_Monad.return (0, old)
         }
         else if how = SIG_SETMASK then do {
           set_cur (\<lambda>p. p\<lparr>p_sigblocked := m\<rparr>);
           State_Monad.return (0, old)
         }
         else State_Monad.return (- EINVAL, old)
   }"

text \<open>\<^verbatim>\<open>sys_exit\<close> up to the point where the processor is given up; the kernel task panics (\<open>None\<close>).\<close>

definition sys_exit :: "u32 \<Rightarrow> 'w kernel \<Rightarrow> 'w kernel option" where
  "sys_exit code k =
     (let pid = k_cur k; ppid = task_ppid (cur_proc k)
      in if pid = 0 then None
         else let k' = set_exit_task pid (upd_proc pid (\<lambda>p. p\<lparr>p_term := True,
                         p_waitstat := push_bit 8 (code AND 0xff)\<rparr>) k)
              in Some (if ppid \<noteq> 0 then process_send_signal ppid SIGCHLD k' else k'))"

section \<open>Waiting (\<^verbatim>\<open>kernel/wait.c\<close>)\<close>

text \<open>
  The loop that climbs from the exited task to a child of the caller. A chain of parents that does
  not run into a cycle ends within \<^verbatim>\<open>PROCESS_LIMIT\<close> steps, so running out of that much fuel
  (\<open>None\<close>) is the endless loop.
\<close>

fun wait_climb :: "nat \<Rightarrow> 'w kernel \<Rightarrow> nat \<Rightarrow> nat \<Rightarrow> nat option" where
  "wait_climb 0 k me temp = None"
| "wait_climb (Suc n) k me temp =
     (if temp \<noteq> 0 \<and> task_ppid (process_table k temp) \<noteq> me
      then wait_climb n k me (task_ppid (process_table k temp)) else Some temp)"

text \<open>The pid and the wait status stored through \<^verbatim>\<open>status\<close>; pid 0 is ``nothing yet''. The resource
  usage is not part of this state.\<close>

definition wait_get_status :: "'w kernel \<Rightarrow> int \<Rightarrow> (int \<times> u32 option) option" where
  "wait_get_status k pid =
     (if exit_task k = 0 then Some (0, None)
      else if pid = - 1 \<or> pid = 0 then
        (case wait_climb (Suc PROCESS_LIMIT) k (k_cur k) (exit_task k) of
           None \<Rightarrow> None
         | Some temp \<Rightarrow>
             if temp = 0 then Some (0, None)
             else if pid \<noteq> - 1 \<and> p_pgid (cur_proc k) \<noteq> p_pgid (process_table k temp) then Some (0, None)
             else Some (int temp, Some (p_waitstat (process_table k temp))))
      else if int (exit_task k) \<noteq> pid then Some (0, None)
      else Some (pid, Some (p_waitstat (process_table k (exit_task k)))))"

definition WNOHANG :: u32 where "WNOHANG = 1"

datatype wait_result = Returns int "u32 option" | Waits

definition wait4 :: "'w kernel \<Rightarrow> int \<Rightarrow> u32 \<Rightarrow> wait_result" where
  "wait4 k pid0 options =
     (let pid = (if pid0 < - 1 then - pid0 else pid0)
      in if p_children (cur_proc k) = 0 then Returns (- ECHILD) None
         else if pid > 0 \<and> \<not> process_valid k pid then Returns (- ESRCH) None
         else case wait_get_status k pid of
           None \<Rightarrow> Waits
         | Some (ret, status) \<Rightarrow>
             if options AND WNOHANG \<noteq> 0 \<or> ret \<noteq> 0 then Returns ret status else Waits)"

section \<open>Sending\<close>

lemma set_exit_task_simps [simp]:
  "process_table (set_exit_task pid k) = process_table k" "exit_task (set_exit_task pid k) = pid"
  "k_cur (set_exit_task pid k) = k_cur k"
  by (simp_all add: set_exit_task_def)

lemma exit_task_upd_proc [simp]: "exit_task (upd_proc pid f k) = exit_task k"
  by (simp add: upd_proc_def)

text \<open>The signal sent to a parent is queued, ignored or delivered, and goes no further.\<close>

lemma send_sigchld:
  "process_send_signal q SIGCHLD k =
    (if sigismember (p_sigblocked (process_table k q)) SIGCHLD
     then upd_proc q (\<lambda>p. p\<lparr>p_sigpending := sigaddset (p_sigpending p) SIGCHLD\<rparr>) k
     else if sig_ignored (p_sigactions (process_table k q) SIGCHLD) then k
     else upd_proc q (\<lambda>p. p\<lparr>p_sig := SIGCHLD\<rparr>) k)"
proof -
  have ne: "SIGCHLD \<noteq> SIGKILL" "SIGCHLD \<noteq> SIGCONT" "SIGCHLD \<noteq> SIGSTOP"
    "SIGCHLD \<notin> set term_signals" "SIGCHLD \<notin> set stop_signals"
    by (simp_all add: term_signals_def stop_signals_def sig_defs)
  show ?thesis by (subst process_send_signal.simps) (simp add: ne Let_def)
qed

lemma send_sigchld_simps [simp]:
  "p_term (process_table (process_send_signal q SIGCHLD k) pid) = p_term (process_table k pid)"
  "p_waitstat (process_table (process_send_signal q SIGCHLD k) pid) = p_waitstat (process_table k pid)"
  "exit_task (process_send_signal q SIGCHLD k) = exit_task k"
  "k_cur (process_send_signal q SIGCHLD k) = k_cur k"
  by (simp_all add: send_sigchld)

lemma send_sigchld_frame [simp]:
  "p_task (process_table (process_send_signal q SIGCHLD k) pid) = p_task (process_table k pid)"
  "p_children (process_table (process_send_signal q SIGCHLD k) pid) = p_children (process_table k pid)"
  by (simp_all add: send_sigchld)

lemma process_valid_simps [simp]:
  "process_valid (k\<lparr>k_cur := i\<rparr>) = process_valid k"
  "process_valid (set_exit_task i k) = process_valid k"
  "process_valid (process_send_signal q SIGCHLD k) = process_valid k"
  by (simp_all add: process_valid_def fun_eq_iff)

lemma upd_proc_same: "f (process_table k i) = process_table k i \<Longrightarrow> upd_proc i f k = k"
  by (simp add: upd_proc_def fun_upd_idem)

section \<open>Properties\<close>

text \<open>
  \<^verbatim>\<open>SIGKILL\<close> cannot be blocked, ignored or caught: whatever the masks and handlers of the target,
  sending it marks the process terminated with wait status 9 and announces it as the exited task.
\<close>

theorem sigkill_terminates:
  "p_term (process_table (process_send_signal pid SIGKILL k) pid) \<and>
    p_waitstat (process_table (process_send_signal pid SIGKILL k) pid) = 9 \<and>
    exit_task (process_send_signal pid SIGKILL k) = pid"
  by (simp add: process_send_signal.simps [of pid SIGKILL] Let_def) (simp add: SIGKILL_def)

text \<open>
  any other signal that the target blocks is only recorded: it becomes pending, and nothing else in
  the kernel changes. Ignored signals change nothing at all.
\<close>

theorem blocked_signal_pending:
  assumes "sig \<noteq> SIGKILL"
  shows "(sigismember (p_sigblocked (process_table k pid)) sig \<longrightarrow>
      process_send_signal pid sig k =
        upd_proc pid (\<lambda>p. p\<lparr>p_sigpending := sigaddset (p_sigpending p) sig\<rparr>) k) \<and>
    (\<not> sigismember (p_sigblocked (process_table k pid)) sig \<longrightarrow>
      sig_ignored (p_sigactions (process_table k pid) sig) \<longrightarrow> process_send_signal pid sig k = k)"
  using assms by (simp add: process_send_signal.simps [of pid sig])

theorem blocked_signal_pending_witness:
  "process_send_signal 1 2 (upd_proc 1 (\<lambda>p. p\<lparr>p_sigblocked := sigfillset\<rparr>) sample_kernel) =
    upd_proc 1 (\<lambda>p. p\<lparr>p_sigblocked := sigfillset, p_sigpending := sigaddset (p_sigpending p) 2\<rparr>) sample_kernel"
  using blocked_signal_pending [of 2 "upd_proc 1 (\<lambda>p. p\<lparr>p_sigblocked := sigfillset\<rparr>) sample_kernel" 1]
  by (simp add: SIGKILL_def)

text \<open>
  a process that is not the superuser and has another effective user id than the target cannot
  signal it: \<^verbatim>\<open>kill\<close> fails and the kernel state is unchanged.
\<close>

theorem kill_needs_permission:
  assumes "0 < pid" and "p_euid (cur_proc k) \<noteq> 0"
    and "p_euid (cur_proc k) \<noteq> p_euid (process_table k (nat pid))"
  shows "\<exists>e < 0. run_state (sys_kill pid sig) k = (e, k)"
  using assms by (auto simp: sys_kill_def kill_one_def Let_def errno_defs)

theorem kill_needs_permission_witness:
  "\<exists>e < 0. run_state (sys_kill 7 9) (upd_proc 7 (\<lambda>p. p\<lparr>p_euid := 0\<rparr>) sample_kernel) =
    (e, upd_proc 7 (\<lambda>p. p\<lparr>p_euid := 0\<rparr>) sample_kernel)"
  by (rule kill_needs_permission) (simp_all add: cur_proc_def sample_kernel_def sample_proc_def)

lemma sigs_or: "sigs (\<lambda>i. s i OR t i) = sigs s \<union> sigs t"
  by (auto simp: sigs_def sigismember_bit bit_or_iff)

lemma sigs_andnot: "sigs (\<lambda>i. s i AND NOT (t i)) = sigs s - sigs t"
proof -
  have "7 - n mod 8 < (8 :: nat)" for n by simp
  then show ?thesis
    by (auto simp: sigs_def sigismember_bit bit_and_iff bit_not_iff possible_bit_word)
qed

lemma sigs_empty: "sigs sigemptyset = {}"
  by (simp add: sigs_def)

lemma sigs_add: "x < NSIG \<Longrightarrow> sigs (sigaddset s x) = insert x (sigs s)"
  by (auto simp: sigs_def)

lemma sigs_del: "sigs (sigdelset s x) = sigs s - {x}"
  by (auto simp: sigs_def)

text \<open>
  \<^verbatim>\<open>sigprocmask\<close> computes union, difference and replacement of the blocked set, returns the old
  set, and refuses an unknown operation without effect.
\<close>

theorem sigprocmask_correct:
  "\<exists>ret old k'. run_state (sys_sigprocmask how (Some m)) k = ((ret, old), k') \<and>
    old = p_sigblocked (cur_proc k) \<and>
    (ret = 0 \<longleftrightarrow> how \<in> {SIG_BLOCK, SIG_UNBLOCK, SIG_SETMASK}) \<and>
    sigs (p_sigblocked (cur_proc k')) =
      (if how = SIG_BLOCK then sigs (p_sigblocked (cur_proc k)) \<union> sigs m
       else if how = SIG_UNBLOCK then sigs (p_sigblocked (cur_proc k)) - sigs m
       else if how = SIG_SETMASK then sigs m else sigs (p_sigblocked (cur_proc k)))"
  by (auto simp: sys_sigprocmask_def sigs_or sigs_andnot SIG_BLOCK_def SIG_UNBLOCK_def SIG_SETMASK_def
      EINVAL_def)

lemma handle_pick_spec:
  assumes sig: "p_sig p < NSIG"
  shows "let ready = {i. SIGHUP \<le> i \<and> i \<le> SIGSYS \<and> i \<in> sigs (p_sigpending p) \<and> i \<notin> sigs (p_sigblocked p)};
      chosen = (if p_sig p \<noteq> 0 then p_sig p else if ready = {} then 0 else Min ready)
    in p_sig (handle_pick p) = chosen \<and> chosen < NSIG \<and> (chosen = 0 \<longrightarrow> handle_pick p = p) \<and>
      sigs (p_sigpending (handle_pick p)) - {chosen} = sigs (p_sigpending p) - {chosen}"
proof (cases "p_sig p = 0")
  case True
  let ?P = "\<lambda>i. \<not> sigismember (p_sigblocked p) i \<and> sigismember (p_sigpending p) i"
  let ?xs = "[SIGHUP..<Suc SIGSYS]"
  define ready where
    "ready = {i. SIGHUP \<le> i \<and> i \<le> SIGSYS \<and> i \<in> sigs (p_sigpending p) \<and> i \<notin> sigs (p_sigblocked p)}"
  have ready: "ready = {i \<in> set ?xs. ?P i}" by (auto simp: ready_def sigs_def sig_defs NSIG_def)
  show ?thesis
  proof (cases "find ?P ?xs")
    case None
    then have "ready = {}" by (auto simp: ready find_None_iff)
    moreover have "handle_pick p = p" using True None by (simp add: handle_pick_def)
    ultimately show ?thesis unfolding ready_def [symmetric] Let_def using True sig by simp
  next
    case (Some i)
    then have fst: "i \<in> set ?xs" "?P i" "\<forall>j. SIGHUP \<le> j \<and> j < i \<longrightarrow> \<not> ?P j"
      using find_upt_Some [OF Some] by auto
    then have i: "i \<in> ready" by (simp add: ready)
    have min: "Min ready = i" using i fst(3) by (intro Min_eqI) (auto simp: ready not_less [symmetric])
    have "0 < i" "i < NSIG" using i by (auto simp: ready sig_defs NSIG_def)
    moreover have "handle_pick p = p\<lparr>p_sig := i, p_sigpending := sigdelset (p_sigpending p) i\<rparr>"
      using True Some by (simp add: handle_pick_def)
    ultimately show ?thesis
      unfolding ready_def [symmetric] Let_def using True i min by (auto simp: sigs_del)
  qed
next
  case False
  then show ?thesis using sig by (simp add: handle_pick_def Let_def)
qed

text \<open>
  C12: choosing the next signal. A signal already set in \<^verbatim>\<open>p_sig\<close> (a valid signal number, or 0 for none)
  is taken; otherwise the lowest pending signal that is not blocked is, and without one nothing changes
  and there is no signal to handle. The chosen signal is no longer pending afterwards, the mask of its
  action is blocked for its duration, so is the signal itself unless its action has \<^verbatim>\<open>SA_NODEFER\<close>, and
  the handler is the one its action names.
\<close>

theorem handle_signal_correct:
  assumes "run_state process_handle_signal k = ((sig, handler), k')" and "p_sig (cur_proc k) < NSIG"
  defines "ready \<equiv> {i. SIGHUP \<le> i \<and> i \<le> SIGSYS \<and> i \<in> sigs (p_sigpending (cur_proc k))
                       \<and> i \<notin> sigs (p_sigblocked (cur_proc k))}"
  defines "chosen \<equiv> (if p_sig (cur_proc k) \<noteq> 0 then p_sig (cur_proc k)
                      else if ready = {} then 0 else Min ready)"
  defines "sa \<equiv> p_sigactions (cur_proc k) chosen"
  shows "sig = chosen \<and>
    (if chosen = 0 then k' = k
     else p_sig (cur_proc k') = sig \<and>
       sigs (p_sigpending (cur_proc k')) = sigs (p_sigpending (cur_proc k)) - {sig} \<and>
       sigs (p_sigblocked (cur_proc k')) = sigs (p_sigblocked (cur_proc k)) \<union> sigs (sa_mask sa) \<union>
         (if sa_flags sa AND SA_NODEFER = 0 then {sig} else {}) \<and>
       handler = (if sa_flags sa AND SA_SIGINFO \<noteq> 0 then sa_sigaction sa else sa_handler sa))"
proof -
  have pick: "p_sig (handle_pick (cur_proc k)) = chosen" "chosen < NSIG"
    "chosen = 0 \<Longrightarrow> handle_pick (cur_proc k) = cur_proc k"
    "sigs (p_sigpending (handle_pick (cur_proc k))) - {chosen} = sigs (p_sigpending (cur_proc k)) - {chosen}"
    using handle_pick_spec [OF assms(2)] unfolding chosen_def ready_def Let_def by simp_all
  have frame: "p_sigblocked (handle_pick p) = p_sigblocked p" "p_sigactions (handle_pick p) = p_sigactions p" for p
    by (simp_all add: handle_pick_def split: option.split)
  show ?thesis
  proof (cases "chosen = 0")
    case True
    then show ?thesis
      using assms(1) pick(1,3) by (simp add: process_handle_signal_def upd_proc_same cur_proc_def)
  next
    case False
    let ?p = "handle_pick (cur_proc k)"
    have run: "sig = chosen" "cur_proc k' = handle_masks ?p"
      "handler = (if sa_flags sa AND SA_SIGINFO \<noteq> 0 then sa_sigaction sa else sa_handler sa)"
      using assms(1) False pick(1) by (auto simp: process_handle_signal_def Let_def frame sa_def)
    have masks: "p_sig (handle_masks ?p) = chosen"
      "sigs (p_sigpending (handle_masks ?p)) = sigs (p_sigpending ?p) - {chosen}"
      "sigs (p_sigblocked (handle_masks ?p)) = sigs (p_sigblocked (cur_proc k)) \<union> sigs (sa_mask sa) \<union>
         (if sa_flags sa AND SA_NODEFER = 0 then {chosen} else {})"
      using pick(2) by (simp_all add: handle_masks_def Let_def pick(1) frame sa_def sigs_del sigs_add sigs_or)
    show ?thesis unfolding run(1,2) masks pick(4) using False run(3) by simp
  qed
qed

theorem handle_signal_correct_witness:
  "fst (fst (run_state process_handle_signal (upd_proc 1 (\<lambda>p. p\<lparr>p_sigpending :=
     sigaddset (sigaddset sigemptyset 15) 10\<rparr>) sample_kernel))) = 10"
proof -
  let ?k = "upd_proc 1 (\<lambda>p. p\<lparr>p_sigpending := sigaddset (sigaddset sigemptyset 15) 10\<rparr>) sample_kernel"
  obtain sig h k' where run: "run_state process_handle_signal ?k = ((sig, h), k')"
    by (metis surj_pair)
  have proc: "p_sig (cur_proc ?k) = 0" "sigs (p_sigpending (cur_proc ?k)) = {10, 15}"
    "sigs (p_sigblocked (cur_proc ?k)) = {}"
    by (auto simp: cur_proc_def sample_kernel_def sample_proc_def sigs_add sigs_empty NSIG_def)
  have ready: "{i. SIGHUP \<le> i \<and> i \<le> SIGSYS \<and> i \<in> {10, 15} \<and> i \<notin> {}} = {10, 15}"
    by (auto simp: sig_defs)
  have "p_sig (cur_proc ?k) < NSIG" unfolding proc(1) by (simp add: NSIG_def)
  from handle_signal_correct [OF run this] have "sig = 10"
    unfolding proc ready by simp
  with run show ?thesis by simp
qed

text \<open>
  C13: when a process (not the kernel task) with a parent that has children exits with \<^verbatim>\<open>code\<close>, and its
  parent's \<^verbatim>\<open>wait4\<close> looks at the state \<^verbatim>\<open>sys_exit\<close> has left, before the scheduler has freed the exited
  process and before any other process has exited or been killed (\<^verbatim>\<open>exit_task\<close> holds one process
  only, and both overwrite it), then \<^verbatim>\<open>wait4\<close> reports this child, with the low byte of the code in
  the second byte of the status, both when the parent waits for any child and when it waits for this
  one. The parent is told by \<^verbatim>\<open>SIGCHLD\<close>, which it finds pending when it blocks it.
\<close>

theorem exit_then_wait:
  assumes "0 < k_cur k" and "task_ppid (cur_proc k) = ppid" and "0 < ppid"
    and "process_valid k (int (k_cur k))" and "0 < p_children (process_table k ppid)"
    and "pid \<in> {- 1, int (k_cur k)}"
  shows "\<exists>k'. sys_exit code k = Some k' \<and> p_term (cur_proc k') \<and>
    wait4 (k'\<lparr>k_cur := ppid\<rparr>) pid options = Returns (int (k_cur k)) (Some (push_bit 8 (code AND 0xff))) \<and>
    (sigismember (p_sigblocked (process_table k ppid)) SIGCHLD \<longrightarrow>
      sigismember (p_sigpending (process_table k' ppid)) SIGCHLD)"
proof -
  let ?c = "k_cur k" and ?st = "push_bit 8 (code AND 0xff)"
  let ?k1 = "set_exit_task ?c (upd_proc ?c (\<lambda>p. p\<lparr>p_term := True, p_waitstat := ?st\<rparr>) k)"
  let ?k2 = "process_send_signal ppid SIGCHLD ?k1"
  have "sys_exit code k = Some ?k2" using assms(1,2,3) by (simp add: sys_exit_def Let_def)
  moreover have "p_term (cur_proc ?k2)" by (simp add: cur_proc_def)
  moreover have "wait_get_status (?k2\<lparr>k_cur := ppid\<rparr>) pid = Some (int ?c, Some ?st)"
    using assms(1,2,6) by (auto simp: wait_get_status_def task_ppid_def cur_proc_def)
  then have "wait4 (?k2\<lparr>k_cur := ppid\<rparr>) pid options = Returns (int ?c) (Some ?st)"
    using assms(1,4,5,6) by (auto simp: wait4_def cur_proc_def process_valid_def)
  moreover have "sigismember (p_sigblocked (process_table k ppid)) SIGCHLD \<Longrightarrow>
      sigismember (p_sigpending (process_table ?k2 ppid)) SIGCHLD"
    by (auto simp: send_sigchld)
  ultimately show ?thesis by blast
qed

definition family_kernel :: "unit kernel" where
  "family_kernel = upd_proc 3 (\<lambda>p. p\<lparr>p_task := Some \<lparr>t_ppid = 2, t_priority = 0\<rparr>\<rparr>)
     (upd_proc 2 (\<lambda>p. p\<lparr>p_children := 1\<rparr>) (sample_kernel\<lparr>k_cur := 3\<rparr>))"

theorem exit_then_wait_witness:
  "\<exists>k'. sys_exit 0x105 family_kernel = Some k' \<and>
    wait4 (k'\<lparr>k_cur := 2\<rparr>) (- 1) 0 = Returns 3 (Some 0x500)"
  using exit_then_wait [of family_kernel 2 "- 1" "0x105" 0]
  by (auto simp: family_kernel_def cur_proc_def task_ppid_def process_valid_def sample_kernel_def
      sample_proc_def PROCESS_LIMIT_def)

section \<open>Where the code departs from the POSIX contract\<close>

text \<open>\<^verbatim>\<open>SIGSTOP\<close> has no exemption from the blocked set, unlike \<^verbatim>\<open>SIGKILL\<close>: a process that blocks it is
  not stopped.\<close>

lemma sigstop_blockable:
  "sigismember (p_sigblocked (process_table k pid)) SIGSTOP \<Longrightarrow>
    p_term (process_table (process_send_signal pid SIGSTOP k) pid) = p_term (process_table k pid)"
  by (simp add: process_send_signal.simps [of pid SIGSTOP]) (simp add: sig_defs)

text \<open>When a grandchild exits, \<^verbatim>\<open>wait\<close> reports the child that is its parent, although that one is
  still running.\<close>

lemma wait_reports_running_child:
  assumes "exit_task k = g" "g \<noteq> 0" "task_ppid (process_table k g) = c" "c \<noteq> 0" "c \<noteq> k_cur k"
    "task_ppid (process_table k c) = k_cur k"
  shows "wait_get_status k (- 1) = Some (int c, Some (p_waitstat (process_table k c)))"
  using assms by (simp add: wait_get_status_def PROCESS_LIMIT_def numeral_eq_Suc)

end
