(* ===== verification/Limits.thy ===== *)
theory Limits
  imports Creds
begin

text \<open>
  Scheduling priorities and resource limits: \<^verbatim>\<open>sys_nice\<close>, \<^verbatim>\<open>sys_getpriority\<close>, \<^verbatim>\<open>sys_setpriority\<close>,
  \<^verbatim>\<open>sys_setrlimit\<close> and \<^verbatim>\<open>sys_getrlimit\<close> of \<^verbatim>\<open>uapi/misc.c\<close>, and \<^verbatim>\<open>process_add_rusage\<close> of
  \<^verbatim>\<open>kernel/process.c\<close>. A call that dereferences a NULL task pointer or reads outside the process table
  has the result \<open>None\<close>. \<^verbatim>\<open>long\<close> is a signed 32-bit word, and \<^verbatim>\<open>id_t\<close> an unsigned 16-bit one.
\<close>

section \<open>Constants\<close>

definition PRIO_MAX :: int where "PRIO_MAX = - 20"
definition PRIO_MIN :: int where "PRIO_MIN = 19"
definition PRIO_PROCESS :: int where "PRIO_PROCESS = 1"
definition PRIO_PGRP :: int where "PRIO_PGRP = 2"
definition PRIO_USER :: int where "PRIO_USER = 3"

definition RLIMIT_AS :: int where "RLIMIT_AS = 0"
definition RLIMIT_CORE :: int where "RLIMIT_CORE = 1"
definition RLIMIT_CPU :: int where "RLIMIT_CPU = 2"
definition RLIMIT_DATA :: int where "RLIMIT_DATA = 3"
definition RLIMIT_FSIZE :: int where "RLIMIT_FSIZE = 4"
definition RLIMIT_MEMLOCK :: int where "RLIMIT_MEMLOCK = 5"
definition RLIMIT_NICE :: int where "RLIMIT_NICE = 6"
definition RLIMIT_NOFILE :: int where "RLIMIT_NOFILE = 7"
definition RLIMIT_NPROC :: int where "RLIMIT_NPROC = 8"
definition RLIMIT_RSS :: int where "RLIMIT_RSS = 9"
definition RLIMIT_STACK :: int where "RLIMIT_STACK = 10"
definition RLIM_INFINITY :: u32 where "RLIM_INFINITY = - 1"
definition LONG_MAX :: u32 where "LONG_MAX = 0x7fffffff"
definition PROCESS_BREAK_LIMIT :: u32 where "PROCESS_BREAK_LIMIT = 0x40000000"
definition TASK_STACK_SIZE :: u32 where "TASK_STACK_SIZE = 0x5000"
definition SYSCALL_STACK_SIZE :: u32 where "SYSCALL_STACK_SIZE = 0x1000"

lemmas prio_defs = PRIO_MAX_def PRIO_MIN_def PRIO_PROCESS_def PRIO_PGRP_def PRIO_USER_def

lemmas rlimit_defs = RLIMIT_AS_def RLIMIT_CORE_def RLIMIT_CPU_def RLIMIT_DATA_def RLIMIT_FSIZE_def
  RLIMIT_MEMLOCK_def RLIMIT_NICE_def RLIMIT_NOFILE_def RLIMIT_NPROC_def RLIMIT_RSS_def RLIMIT_STACK_def

text \<open>The value a 32-bit \<^verbatim>\<open>int\<close> has after a sum.\<close>

definition wrap_int :: "int \<Rightarrow> int" where
  "wrap_int x = sint (word_of_int x :: u32)"

section \<open>Priorities\<close>

definition task_prio :: "'w kernel \<Rightarrow> int \<Rightarrow> int option" where
  "task_prio k pid = (if 0 \<le> pid \<and> pid < int PROCESS_LIMIT
     then map_option t_priority (p_task (process_table k (nat pid))) else None)"

definition set_prio :: "int \<Rightarrow> Process \<Rightarrow> Process" where
  "set_prio prio p = p\<lparr>p_task := map_option (\<lambda>t. t\<lparr>t_priority := prio\<rparr>) (p_task p)\<rparr>"

definition clamp_prio :: "int \<Rightarrow> int" where
  "clamp_prio prio =
     (let prio = (if prio > PRIO_MIN then PRIO_MIN else prio)
      in if prio < PRIO_MAX then PRIO_MAX else prio)"

definition sys_nice :: "int \<Rightarrow> ('w, int option) kern" where
  "sys_nice inc = do {
     k \<leftarrow> gets id;
     case task_prio k (int (k_cur k)) of
       None \<Rightarrow> State_Monad.return None
     | Some old \<Rightarrow>
         let prio = wrap_int (old + inc)
         in if p_euid (cur_proc k) \<noteq> 0 \<and> inc < 0 then State_Monad.return (Some (- EPERM + PRIO_MAX))
            else do {
              set_cur (set_prio (clamp_prio prio));
              State_Monad.return (Some (clamp_prio prio))
            }
   }"

text \<open>The two loops over the process table: the least priority of, and the assignment to, the
  processes a condition selects.\<close>

primrec lowest_prio :: "'w kernel \<Rightarrow> (Process \<Rightarrow> bool) \<Rightarrow> nat list \<Rightarrow> int \<Rightarrow> int" where
  "lowest_prio k sel [] lowest = lowest"
| "lowest_prio k sel (i # is) lowest =
     (case p_task (process_table k i) of
        None \<Rightarrow> lowest_prio k sel is lowest
      | Some t \<Rightarrow> lowest_prio k sel is
          (if sel (process_table k i) \<and> t_priority t < lowest then t_priority t else lowest))"

primrec set_prio_loop :: "(Process \<Rightarrow> bool) \<Rightarrow> int \<Rightarrow> nat list \<Rightarrow> 'w kernel \<Rightarrow> 'w kernel" where
  "set_prio_loop sel prio [] k = k"
| "set_prio_loop sel prio (i # is) k =
     set_prio_loop sel prio is
       (if p_task (process_table k i) \<noteq> None \<and> sel (process_table k i)
        then upd_proc i (set_prio prio) k else k)"

definition who_pid :: "'w kernel \<Rightarrow> u16 \<Rightarrow> int" where
  "who_pid k who = (if who \<noteq> 0 then sint who else int (k_cur k))"

definition who_uid :: "'w kernel \<Rightarrow> u16 \<Rightarrow> u16" where
  "who_uid k who = (if who \<noteq> 0 then who else p_uid (cur_proc k))"

definition sys_getpriority :: "'w kernel \<Rightarrow> int \<Rightarrow> u16 \<Rightarrow> int option" where
  "sys_getpriority k which who =
     (let pid = who_pid k who; uid = who_uid k who
      in if which = PRIO_PROCESS then
           if \<not> process_valid k pid then Some (- ESRCH + PRIO_MAX) else task_prio k pid
         else if which = PRIO_PGRP then
           if \<not> process_valid k pid then Some (- ESRCH + PRIO_MAX)
           else Some (lowest_prio k (\<lambda>p. p_pgid p = pid) [0..<PROCESS_LIMIT] (PRIO_MIN + 1))
         else if which = PRIO_USER then
           let lowest = lowest_prio k (\<lambda>p. p_uid p = uid) [0..<PROCESS_LIMIT] (PRIO_MIN + 1)
           in Some (if lowest > PRIO_MIN then - ESRCH + PRIO_MAX else lowest)
         else Some (- EINVAL + PRIO_MAX))"

text \<open>The checks for a caller that is not the superuser, as \<^verbatim>\<open>PRIO_PROCESS\<close> and \<^verbatim>\<open>PRIO_PGRP\<close> make them and
  as \<^verbatim>\<open>PRIO_USER\<close> makes them; \<open>Some 0\<close> is a pass.\<close>

definition prio_check_proc :: "'w kernel \<Rightarrow> int \<Rightarrow> int \<Rightarrow> int option" where
  "prio_check_proc k pid prio =
     (let proc = cur_proc k; target = process_table k (nat pid)
      in if p_euid proc = 0 then Some 0
         else case task_prio k pid of
           None \<Rightarrow> None
         | Some old \<Rightarrow>
             if prio < old then Some (- EPERM)
             else if p_euid target \<noteq> p_uid proc \<and> p_euid target \<noteq> p_euid proc then Some (- EPERM)
             else Some 0)"

definition prio_check_user :: "'w kernel \<Rightarrow> int \<Rightarrow> u16 \<Rightarrow> int \<Rightarrow> int option" where
  "prio_check_user k pid uid prio =
     (let proc = cur_proc k
      in if p_euid proc = 0 then Some 0
         else case task_prio k pid of
           None \<Rightarrow> None
         | Some old \<Rightarrow>
             if prio < old then Some (- EPERM)
             else if p_uid proc \<noteq> uid \<and> p_euid proc \<noteq> uid then Some (- EPERM)
             else Some 0)"

definition sys_setpriority :: "int \<Rightarrow> u16 \<Rightarrow> int \<Rightarrow> ('w, int option) kern" where
  "sys_setpriority which who prio0 = do {
     k \<leftarrow> gets id;
     let pid = who_pid k who;
     let uid = who_uid k who;
     let prio = clamp_prio prio0;
     if which = PRIO_PROCESS then
       if \<not> process_valid k pid then State_Monad.return (Some (- ESRCH))
       else if prio_check_proc k pid prio \<noteq> Some 0 then State_Monad.return (prio_check_proc k pid prio)
       else do {
         modify (upd_proc (nat pid) (set_prio prio));
         State_Monad.return (Some 0)
       }
     else if which = PRIO_PGRP then
       if \<not> process_valid k pid then State_Monad.return (Some (- ESRCH))
       else if prio_check_proc k pid prio \<noteq> Some 0 then State_Monad.return (prio_check_proc k pid prio)
       else do {
         modify (set_prio_loop (\<lambda>p. p_pgid p = pid) prio [0..<PROCESS_LIMIT]);
         State_Monad.return (Some 0)
       }
     else if which = PRIO_USER then
       if prio_check_user k pid uid prio \<noteq> Some 0 then State_Monad.return (prio_check_user k pid uid prio)
       else do {
         modify (set_prio_loop (\<lambda>p. p_uid p = uid) prio [0..<PROCESS_LIMIT]);
         State_Monad.return (Some 0)
       }
     else State_Monad.return (Some (- EINVAL))
   }"

section \<open>Resource limits\<close>

definition rlim_set :: "bool \<Rightarrow> (Process \<Rightarrow> Process) \<Rightarrow> ('w, int option) kern" where
  "rlim_set refuse f =
     (if refuse then State_Monad.return (Some (- EPERM))
      else do { set_cur f; State_Monad.return (Some 0) })"

definition rlim_gt :: "u32 \<Rightarrow> u32 \<Rightarrow> bool" where
  "rlim_gt a b \<longleftrightarrow> sint a > sint b"

definition sys_setrlimit :: "int \<Rightarrow> rlimit \<Rightarrow> ('w, int option) kern" where
  "sys_setrlimit resource rlim = do {
     proc \<leftarrow> gets cur_proc;
     let mx = rlim_max rlim;
     if rlim_gt (rlim_cur rlim) mx then State_Monad.return (Some (- EINVAL))
     else if resource = RLIMIT_AS then
       rlim_set (rlim_gt mx (rlim_max (p_addrspace proc))) (\<lambda>p. p\<lparr>p_addrspace := rlim\<rparr>)
     else if resource = RLIMIT_CORE then
       rlim_set (rlim_gt mx (rlim_max (p_coresize proc))) (\<lambda>p. p\<lparr>p_coresize := rlim\<rparr>)
     else if resource = RLIMIT_CPU then
       rlim_set (rlim_gt mx (rlim_max (p_cputime proc))) (\<lambda>p. p\<lparr>p_cputime := rlim\<rparr>)
     else if resource = RLIMIT_DATA then
       rlim_set (rlim_gt mx PROCESS_BREAK_LIMIT) (\<lambda>p. p\<lparr>p_maxbreak := rlim_cur rlim\<rparr>)
     else if resource = RLIMIT_FSIZE then
       rlim_set (rlim_gt mx (rlim_max (p_filesize proc))) (\<lambda>p. p\<lparr>p_filesize := rlim\<rparr>)
     else if resource = RLIMIT_MEMLOCK then
       rlim_set (rlim_gt mx (rlim_max (p_memlock proc))) (\<lambda>p. p\<lparr>p_filesize := rlim\<rparr>)
     else if resource = RLIMIT_NICE then
       sys_setpriority PRIO_PROCESS 0 (wrap_int (PRIO_MIN + 1 - sint (rlim_cur rlim)))
     else if resource = RLIMIT_NOFILE then
       rlim_set (rlim_gt mx (of_nat PROCESS_FILE_LIMIT)) (\<lambda>p. p\<lparr>p_maxfds := rlim_cur rlim\<rparr>)
     else if resource = RLIMIT_NPROC then
       rlim_set (rlim_gt mx (of_nat PROCESS_LIMIT)) (\<lambda>p. p)
     else if resource = RLIMIT_RSS then State_Monad.return (Some 0)
     else if resource = RLIMIT_STACK then
       rlim_set (rlim_gt mx (TASK_STACK_SIZE - SYSCALL_STACK_SIZE)) (\<lambda>p. p)
     else State_Monad.return (Some (- EINVAL))
   }"

definition rlim :: "u32 \<Rightarrow> u32 \<Rightarrow> rlimit" where
  "rlim c m = \<lparr>rlim_cur = c, rlim_max = m\<rparr>"

text \<open>The limit stored through \<^verbatim>\<open>rlim\<close>, \<open>Inl\<close> the error.\<close>

definition sys_getrlimit :: "'w kernel \<Rightarrow> int \<Rightarrow> (int + rlimit) option" where
  "sys_getrlimit k resource =
     (let proc = cur_proc k
      in if resource = RLIMIT_AS then Some (Inr (p_addrspace proc))
         else if resource = RLIMIT_CORE then Some (Inr (p_coresize proc))
         else if resource = RLIMIT_CPU then Some (Inr (p_cputime proc))
         else if resource = RLIMIT_DATA then Some (Inr (rlim (p_maxbreak proc) PROCESS_BREAK_LIMIT))
         else if resource = RLIMIT_FSIZE then Some (Inr (p_filesize proc))
         else if resource = RLIMIT_MEMLOCK then Some (Inr (p_memlock proc))
         else if resource = RLIMIT_NICE then
           map_option (\<lambda>t. Inr (rlim (word_of_int (PRIO_MIN + 1 - t)) (word_of_int (PRIO_MIN + 1 - PRIO_MAX))))
             (task_prio k (int (k_cur k)))
         else if resource = RLIMIT_NOFILE then Some (Inr (rlim (p_maxfds proc) (of_nat PROCESS_FILE_LIMIT)))
         else if resource = RLIMIT_NPROC then Some (Inr (rlim RLIM_INFINITY (of_nat PROCESS_LIMIT)))
         else if resource = RLIMIT_RSS then Some (Inr (rlim RLIM_INFINITY LONG_MAX))
         else if resource = RLIMIT_STACK then
           Some (Inr (rlim (TASK_STACK_SIZE - SYSCALL_STACK_SIZE) (TASK_STACK_SIZE - SYSCALL_STACK_SIZE)))
         else Some (Inl (- EINVAL)))"

section \<open>Resource usage (\<^verbatim>\<open>kernel/process.c\<close>)\<close>

record rusage =
  ru_utime :: "u64 \<times> u32"
  ru_stime :: "u64 \<times> u32"
  ru_maxrss :: u32
  ru_ixrss :: u32
  ru_idrss :: u32
  ru_isrss :: u32
  ru_minflt :: u32
  ru_majflt :: u32
  ru_nswap :: u32
  ru_inblock :: u32
  ru_oublock :: u32
  ru_msgsnd :: u32
  ru_msgrcv :: u32
  ru_nsignals :: u32
  ru_nvcsw :: u32
  ru_nivcsw :: u32

text \<open>The four statements on a \<^verbatim>\<open>struct timeval\<close>; \<^verbatim>\<open>tv_usec\<close> is unsigned.\<close>

definition add_timeval :: "u64 \<times> u32 \<Rightarrow> u64 \<times> u32 \<Rightarrow> u64 \<times> u32 \<Rightarrow> u64 \<times> u32" where
  "add_timeval u r c =
     (let sec = fst u + (fst r + fst c);
          usec = snd u + (snd r + snd c)
      in (sec + ucast (usec div 1000000), usec mod 1000000))"

text \<open>\<^verbatim>\<open>process_add_rusage\<close>; the last two arguments are \<^verbatim>\<open>p_rusage\<close> and \<^verbatim>\<open>p_cusage\<close> of the process.\<close>

definition process_add_rusage :: "rusage \<Rightarrow> rusage \<Rightarrow> rusage \<Rightarrow> rusage" where
  "process_add_rusage u r c =
     \<lparr>ru_utime = add_timeval (ru_utime u) (ru_utime r) (ru_utime c),
      ru_stime = add_timeval (ru_stime u) (ru_stime r) (ru_stime c),
      ru_maxrss = ru_maxrss u + (ru_maxrss r + ru_maxrss c),
      ru_ixrss = ru_ixrss u + (ru_ixrss r + ru_ixrss c),
      ru_idrss = ru_idrss u + (ru_idrss r + ru_idrss c),
      ru_isrss = ru_isrss u + (ru_isrss r + ru_isrss c),
      ru_minflt = ru_minflt u + (ru_minflt r + ru_minflt c),
      ru_majflt = ru_majflt u + (ru_majflt r + ru_majflt c),
      ru_nswap = ru_nswap u + (ru_nswap r + ru_nswap c),
      ru_inblock = ru_inblock u + (ru_inblock r + ru_inblock c),
      ru_oublock = ru_oublock u + (ru_oublock r + ru_oublock c),
      ru_msgsnd = ru_msgsnd u + (ru_msgsnd r + ru_msgsnd c),
      ru_msgrcv = ru_msgrcv u + (ru_msgrcv r + ru_msgrcv c),
      ru_nsignals = ru_nsignals u + (ru_nsignals r + ru_nsignals c),
      ru_nvcsw = ru_nvcsw u + (ru_nvcsw r + ru_nvcsw c),
      ru_nivcsw = ru_nivcsw u + (ru_nivcsw r + ru_nivcsw c)\<rparr>"

section \<open>Priorities stay in range\<close>

text \<open>Every task has a priority between the two bounds.\<close>

definition prio_ok :: "'w kernel \<Rightarrow> bool" where
  "prio_ok k \<longleftrightarrow> (\<forall>i t. p_task (process_table k i) = Some t \<longrightarrow>
     PRIO_MAX \<le> t_priority t \<and> t_priority t \<le> PRIO_MIN)"

lemma clamp_prio_bounds [simp]: "PRIO_MAX \<le> clamp_prio x" "clamp_prio x \<le> PRIO_MIN"
  by (simp_all add: clamp_prio_def prio_defs)

lemma clamp_prio_id: "PRIO_MAX \<le> x \<Longrightarrow> x \<le> PRIO_MIN \<Longrightarrow> clamp_prio x = x"
  by (simp add: clamp_prio_def)

lemma prio_ok_set_prio: "prio_ok k \<Longrightarrow> prio_ok (upd_proc i (set_prio (clamp_prio x)) k)"
  by (auto simp: prio_ok_def upd_proc_def set_prio_def)

lemma prio_ok_loop: "prio_ok k \<Longrightarrow> prio_ok (set_prio_loop sel (clamp_prio x) is k)"
  by (induction "is" arbitrary: k) (auto intro: prio_ok_set_prio)

lemma prio_ok_frame: "(\<And>p. p_task (f p) = p_task p) \<Longrightarrow> prio_ok k \<Longrightarrow> prio_ok (upd_proc i f k)"
  by (auto simp: prio_ok_def upd_proc_def)

lemma prio_ok_setpriority: "prio_ok k \<Longrightarrow> prio_ok (snd (run_state (sys_setpriority which who prio) k))"
  by (auto simp: sys_setpriority_def Let_def prio_ok_set_prio prio_ok_loop)

lemma prio_ok_rlim_set:
  "(\<And>p. p_task (f p) = p_task p) \<Longrightarrow> prio_ok k \<Longrightarrow> prio_ok (snd (run_state (rlim_set b f) k))"
  by (auto simp: rlim_set_def prio_ok_frame)

lemma prio_ok_setrlimit: "prio_ok k \<Longrightarrow> prio_ok (snd (run_state (sys_setrlimit res rl) k))"
  by (simp add: sys_setrlimit_def Let_def prio_ok_rlim_set prio_ok_setpriority)

lemma prio_ok_nice: "prio_ok k \<Longrightarrow> prio_ok (snd (run_state (sys_nice inc) k))"
  by (simp add: sys_nice_def Let_def prio_ok_set_prio split: option.splits)

text \<open>The calls that change priorities and limits, and sequences of them.\<close>

datatype limit_call = Nice int | Setpriority int u16 int | Setrlimit int rlimit

fun limit_run :: "limit_call \<Rightarrow> ('w, int option) kern" where
  "limit_run (Nice inc) = sys_nice inc"
| "limit_run (Setpriority which who prio) = sys_setpriority which who prio"
| "limit_run (Setrlimit resource rl) = sys_setrlimit resource rl"

fun limit_runs :: "limit_call list \<Rightarrow> 'w kernel \<Rightarrow> 'w kernel" where
  "limit_runs [] k = k"
| "limit_runs (c # cs) k = limit_runs cs (snd (run_state (limit_run c) k))"

lemma prio_ok_limit_run: "prio_ok k \<Longrightarrow> prio_ok (snd (run_state (limit_run c) k))"
  by (cases c) (simp_all add: prio_ok_nice prio_ok_setpriority prio_ok_setrlimit)

text \<open>A step that lowers no priority value (a lower value is a better priority).\<close>

definition prio_not_raised :: "'w kernel \<Rightarrow> 'w kernel \<Rightarrow> bool" where
  "prio_not_raised k k' \<longleftrightarrow> (\<forall>i t'. p_task (process_table k' i) = Some t' \<longrightarrow>
     (\<exists>t. p_task (process_table k i) = Some t \<and> t_priority t \<le> t_priority t'))"

lemma prio_not_raised_refl [simp]: "prio_not_raised k k"
  by (simp add: prio_not_raised_def)

lemma prio_not_raised_set:
  "task_prio k (int i) = Some old \<Longrightarrow> old \<le> prio \<Longrightarrow> prio_not_raised k (upd_proc i (set_prio prio) k)"
  by (auto simp: prio_not_raised_def upd_proc_def set_prio_def task_prio_def split: if_splits)

lemma prio_not_raised_frame: "(\<And>p. p_task (f p) = p_task p) \<Longrightarrow> prio_not_raised k (upd_proc i f k)"
  by (auto simp: prio_not_raised_def upd_proc_def)

lemma prio_not_raised_rlim_set:
  "(\<And>p. p_task (f p) = p_task p) \<Longrightarrow> prio_not_raised k (snd (run_state (rlim_set b f) k))"
  by (simp add: rlim_set_def prio_not_raised_frame)

lemma setpriority_process_not_raised:
  assumes "p_euid (cur_proc k) \<noteq> 0"
  shows "prio_not_raised k (snd (run_state (sys_setpriority PRIO_PROCESS who prio) k))"
proof -
  let ?pid = "who_pid k who"
  have "prio_not_raised k (upd_proc (nat ?pid) (set_prio (clamp_prio prio)) k)"
    if valid: "process_valid k ?pid" and pass: "prio_check_proc k ?pid (clamp_prio prio) = Some 0"
  proof -
    obtain old where "task_prio k ?pid = Some old" "old \<le> clamp_prio prio"
      using pass assms
      by (auto simp: prio_check_proc_def Let_def EPERM_def not_less split: option.splits if_splits)
    moreover have "0 \<le> ?pid" using valid by (simp add: process_valid_def)
    ultimately show ?thesis by (intro prio_not_raised_set) simp_all
  qed
  then show ?thesis by (simp add: sys_setpriority_def Let_def)
qed

lemma wrap_int_id: "- (2 ^ 31) \<le> x \<Longrightarrow> x < 2 ^ 31 \<Longrightarrow> wrap_int x = x"
  by (simp add: wrap_int_def int_word_sint)

lemma nice_not_raised:
  assumes "prio_ok k" and "p_euid (cur_proc k) \<noteq> 0" and "inc < 2 ^ 31 - 19"
  shows "prio_not_raised k (snd (run_state (sys_nice inc) k))"
proof (cases "task_prio k (int (k_cur k))")
  case (Some old)
  have old: "PRIO_MAX \<le> old" "old \<le> PRIO_MIN"
    using assms(1) Some by (auto simp: task_prio_def prio_ok_def split: if_splits)
  have "prio_not_raised k (upd_proc (k_cur k) (set_prio (clamp_prio (wrap_int (old + inc)))) k)"
    if "0 \<le> inc"
  proof (rule prio_not_raised_set [OF Some])
    have "wrap_int (old + inc) = old + inc"
      using old assms(3) that by (intro wrap_int_id) (simp_all add: prio_defs)
    then show "old \<le> clamp_prio (wrap_int (old + inc))"
      using old that by (simp add: clamp_prio_def prio_defs)
  qed
  then show ?thesis using Some assms(2) by (simp add: sys_nice_def Let_def)
qed (simp add: sys_nice_def)

section \<open>Properties\<close>

text \<open>
  C14: whatever sequence of \<^verbatim>\<open>nice\<close>, \<^verbatim>\<open>setpriority\<close> and \<^verbatim>\<open>setrlimit\<close> calls is made, with whatever
  arguments, the priority of every task stays between \<^verbatim>\<open>PRIO_MAX\<close> (-20) and \<^verbatim>\<open>PRIO_MIN\<close> (19).
\<close>

theorem priority_range:
  assumes "prio_ok k"
  shows "prio_ok (limit_runs cs k)"
  using assms by (induction cs arbitrary: k) (simp_all add: prio_ok_limit_run)

theorem priority_range_witness:
  "prio_ok (limit_runs [Nice 100, Setpriority PRIO_USER 1000 (- 50), Setrlimit RLIMIT_NICE (rlim 40 40)] sample_kernel)"
  by (rule priority_range) (simp add: prio_ok_def sample_kernel_def sample_proc_def prio_defs)

text \<open>
  C15: a process that is not the superuser cannot give any task a better priority by \<^verbatim>\<open>nice\<close> with an
  increment below 2^31 - 19 (the sum with the old priority then fits an \<^verbatim>\<open>int\<close>; for larger increments it
  wraps and the priority is raised, see \<open>nice_overflow_raises\<close>), by \<^verbatim>\<open>setpriority\<close> on a single process
  (\<^verbatim>\<open>PRIO_PROCESS\<close>; groups and users are not covered), or through \<^verbatim>\<open>RLIMIT_NICE\<close> and the other
  resource limits. Priorities are assumed to lie between -20 and 19 before the call.
\<close>

theorem unprivileged_priority_not_raised:
  assumes "prio_ok k" and "p_euid (cur_proc k) \<noteq> 0"
    and "case c of Nice inc \<Rightarrow> inc < 2 ^ 31 - 19 | Setpriority which who prio \<Rightarrow> which = PRIO_PROCESS
         | Setrlimit resource rl \<Rightarrow> True"
  shows "prio_not_raised k (snd (run_state (limit_run c) k))"
proof (cases c)
  case (Setrlimit resource rl)
  then show ?thesis
    using setpriority_process_not_raised [OF assms(2), of 0]
    by (simp add: sys_setrlimit_def Let_def prio_not_raised_rlim_set)
qed (use assms nice_not_raised setpriority_process_not_raised in auto)

theorem unprivileged_priority_not_raised_witness:
  "prio_not_raised sample_kernel (snd (run_state (limit_run (Setpriority PRIO_PROCESS 0 (- 5))) sample_kernel))"
  by (rule unprivileged_priority_not_raised)
    (simp_all add: prio_ok_def cur_proc_def sample_kernel_def sample_proc_def prio_defs)

text \<open>The limits that the kernel keeps as a pair.\<close>

definition kept_limits :: "Process \<Rightarrow> rlimit list" where
  "kept_limits p = [p_addrspace p, p_coresize p, p_cputime p, p_filesize p, p_memlock p]"

lemma kept_limits_set_prio [simp]: "kept_limits (set_prio prio p) = kept_limits p"
  by (simp add: kept_limits_def set_prio_def)

lemma kept_limits_set_prio_loop [simp]:
  "kept_limits (process_table (set_prio_loop sel prio is k) i) = kept_limits (process_table k i)"
  "k_cur (set_prio_loop sel prio is k) = k_cur k"
  by (induction "is" arbitrary: k) (simp_all add: upd_proc_def)

lemma setpriority_frame:
  assumes "run_state (sys_setpriority which who prio) k = (Some ret, k')"
  shows "kept_limits (cur_proc k') = kept_limits (cur_proc k) \<and> (ret < 0 \<longrightarrow> k' = k)"
  using assms
  by (auto simp: sys_setpriority_def Let_def cur_proc_def upd_proc_def split: if_splits)

text \<open>
  \<^verbatim>\<open>setrlimit\<close> is one-way. For every resource except \<^verbatim>\<open>RLIMIT_MEMLOCK\<close>, whoever calls it, no hard limit
  grows; a failing call changes nothing; and after a success \<^verbatim>\<open>getrlimit\<close> of a resource that the kernel
  keeps as a pair returns exactly what was set.
\<close>

theorem setrlimit_one_way:
  assumes "run_state (sys_setrlimit resource rl) k = (Some ret, k')" and "resource \<noteq> RLIMIT_MEMLOCK"
  shows "list_all2 (\<lambda>old new. sint (rlim_max new) \<le> sint (rlim_max old))
           (kept_limits (cur_proc k)) (kept_limits (cur_proc k')) \<and>
    (ret < 0 \<longrightarrow> k' = k) \<and>
    (ret = 0 \<and> resource \<in> {RLIMIT_AS, RLIMIT_CORE, RLIMIT_CPU, RLIMIT_FSIZE} \<longrightarrow>
      sys_getrlimit k' resource = Some (Inr rl) \<and> sint (rlim_cur rl) \<le> sint (rlim_max rl))"
proof (cases "resource = RLIMIT_NICE")
  case True
  then have "run_state (sys_setpriority PRIO_PROCESS 0 (wrap_int (PRIO_MIN + 1 - sint (rlim_cur rl)))) k
      = (Some ret, k') \<or> (ret = - EINVAL \<and> k' = k)"
    using assms(1) by (auto simp: sys_setrlimit_def Let_def rlimit_defs split: if_splits)
  then show ?thesis
    using True setpriority_frame [of PRIO_PROCESS 0 _ k ret k'] by (auto simp: rlimit_defs list_all2_refl)
next
  case False
  then show ?thesis
    using assms
    by (auto simp: sys_setrlimit_def rlim_set_def Let_def kept_limits_def rlim_gt_def sys_getrlimit_def
        rlimit_defs EPERM_def EINVAL_def split: if_splits)
qed

theorem setrlimit_one_way_witness:
  "sys_getrlimit (snd (run_state (sys_setrlimit RLIMIT_CPU (rlim (- 3) (- 2))) sample_kernel)) RLIMIT_CPU
    = Some (Inr (rlim (- 3) (- 2)))"
proof -
  have "fst (run_state (sys_setrlimit RLIMIT_CPU (rlim (- 3) (- 2))) sample_kernel) = Some 0"
    by (simp add: sys_setrlimit_def rlim_set_def rlim_gt_def rlim_def rlimit_defs cur_proc_def
        sample_kernel_def sample_proc_def)
  then obtain k' where run: "run_state (sys_setrlimit RLIMIT_CPU (rlim (- 3) (- 2))) sample_kernel = (Some 0, k')"
    by (metis prod.collapse)
  from setrlimit_one_way [OF run] show ?thesis by (simp add: run) (simp add: rlimit_defs)
qed

section \<open>Usage sums\<close>

definition micros :: "u64 \<times> u32 \<Rightarrow> nat" where
  "micros t = unat (fst t) * 1000000 + unat (snd t)"

lemma add_timeval_exact:
  assumes "unat (snd t) < 1000000" "unat (snd r) < 1000000" "unat (snd c) < 1000000"
    and "unat (fst t) < 2 ^ 62" "unat (fst r) < 2 ^ 62" "unat (fst c) < 2 ^ 62"
  shows "micros (add_timeval t r c) = micros t + micros r + micros c"
    and "unat (snd (add_timeval t r c)) < 1000000"
proof -
  define us where "us = snd t + (snd r + snd c)"
  have us: "unat us = unat (snd t) + unat (snd r) + unat (snd c)"
    using assms(1-3) by (simp add: us_def unat_word_ariths)
  have m: "unat (us mod 1000000) = unat us mod 1000000" by (simp add: unat_mod)
  have small: "unat us div 1000000 < 3" using us assms(1-3) by simp
  have d: "unat (ucast (us div 1000000) :: u64) = unat us div 1000000"
    using small by (simp add: unsigned_ucast_eq unat_div take_bit_nat_eq_self)
  have s: "unat (fst t + (fst r + fst c) + ucast (us div 1000000)) =
      unat (fst t) + unat (fst r) + unat (fst c) + unat us div 1000000"
    using assms(4-6) d small by (simp add: unat_word_ariths)
  have "unat us div 1000000 * 1000000 + unat us mod 1000000 = unat us" by simp
  then show "micros (add_timeval t r c) = micros t + micros r + micros c"
    using us by (simp add: micros_def add_timeval_def us_def [symmetric] Let_def s m)
  show "unat (snd (add_timeval t r c)) < 1000000"
    by (simp add: add_timeval_def us_def [symmetric] Let_def m)
qed

text \<open>
  adding the usage of a process and of its children to a total is exact: with normalised
  microseconds and seconds below \<open>2 ^ 62\<close> the user and system times are the sums of the times, and
  the microseconds of the result are normalised again.
\<close>

theorem rusage_sum_exact:
  assumes "\<forall>t \<in> {ru_utime u, ru_utime r, ru_utime c, ru_stime u, ru_stime r, ru_stime c}.
      unat (snd t) < 1000000 \<and> unat (fst t) < 2 ^ 62"
  shows "micros (ru_utime (process_add_rusage u r c)) = micros (ru_utime u) + micros (ru_utime r) + micros (ru_utime c) \<and>
    micros (ru_stime (process_add_rusage u r c)) = micros (ru_stime u) + micros (ru_stime r) + micros (ru_stime c) \<and>
    unat (snd (ru_utime (process_add_rusage u r c))) < 1000000 \<and>
    unat (snd (ru_stime (process_add_rusage u r c))) < 1000000"
  using assms by (simp add: process_add_rusage_def add_timeval_exact)

definition sample_rusage :: "u64 \<Rightarrow> u32 \<Rightarrow> rusage" where
  "sample_rusage s us = \<lparr>ru_utime = (s, us), ru_stime = (0, us), ru_maxrss = 0, ru_ixrss = 0, ru_idrss = 0,
     ru_isrss = 0, ru_minflt = 0, ru_majflt = 0, ru_nswap = 0, ru_inblock = 0, ru_oublock = 0,
     ru_msgsnd = 0, ru_msgrcv = 0, ru_nsignals = 0, ru_nvcsw = 0, ru_nivcsw = 0\<rparr>"

theorem rusage_sum_exact_witness:
  "micros (ru_utime (process_add_rusage (sample_rusage 1 600000) (sample_rusage 2 700000)
     (sample_rusage 0 800000))) = 5100000"
  using rusage_sum_exact [of "sample_rusage 1 600000" "sample_rusage 2 700000" "sample_rusage 0 800000"]
  by (simp add: sample_rusage_def micros_def)

section \<open>Where the code departs from its contract\<close>

text \<open>\<^verbatim>\<open>RLIMIT_MEMLOCK\<close> checks the new limit against \<^verbatim>\<open>p_memlock\<close> but stores it in \<^verbatim>\<open>p_filesize\<close>: the memory
  lock limit never changes and the hard file size limit can be raised.\<close>

lemma setrlimit_memlock_sets_filesize:
  assumes "\<not> rlim_gt (rlim_cur rl) (rlim_max rl)" "\<not> rlim_gt (rlim_max rl) (rlim_max (p_memlock (cur_proc k)))"
  shows "p_filesize (cur_proc (snd (run_state (sys_setrlimit RLIMIT_MEMLOCK rl) k))) = rl"
    and "p_memlock (cur_proc (snd (run_state (sys_setrlimit RLIMIT_MEMLOCK rl) k))) = p_memlock (cur_proc k)"
  using assms by (simp_all add: sys_setrlimit_def rlim_set_def rlimit_defs)

text \<open>The sum in \<^verbatim>\<open>nice\<close> overflows: with a priority above 0 an unprivileged process gets the best one.\<close>

lemma nice_overflow_raises:
  assumes "task_prio k (int (k_cur k)) = Some 1"
  shows "fst (run_state (sys_nice (2 ^ 31 - 1)) k) = Some PRIO_MAX"
proof -
  have "wrap_int (2 ^ 31) = - (2 ^ 31)" by (simp add: wrap_int_def)
  then show ?thesis using assms by (simp add: sys_nice_def Let_def clamp_prio_def prio_defs)
qed

end
