(* ===== verification/Path_Resolve.thy ===== *)
theory Path_Resolve
  imports Files
begin

text \<open>
  \<^verbatim>\<open>vfs_path_resolve\<close> of \<^verbatim>\<open>fs/path.c\<close>: the absolute path without empty, \<^verbatim>\<open>.\<close> and \<^verbatim>\<open>..\<close> components. Strings are
  character lists without the terminating NUL; the result buffer up to \<^verbatim>\<open>resptr\<close> is the string built so
  far, which ends in a slash throughout the loop. The buffer has a fixed size, and a write past its end
  is a fault.
\<close>

section \<open>Splitting at slashes\<close>

text \<open>The strings between the slashes, as repeated \<^verbatim>\<open>strchr (ptr, '/')\<close> finds them; the last one, which has
  no slash after it, may be empty.\<close>

function split_slash :: "string \<Rightarrow> string list" where
  "split_slash s =
     (case dropWhile (\<lambda>c. c \<noteq> CHR ''/'') s of
        [] \<Rightarrow> [s]
      | _ # rest \<Rightarrow> takeWhile (\<lambda>c. c \<noteq> CHR ''/'') s # split_slash rest)"
  by pat_completeness auto
termination
proof (relation "measure length")
  fix s rest :: string and c
  assume "dropWhile (\<lambda>c. c \<noteq> CHR ''/'') s = c # rest"
  then have "length (c # rest) \<le> length s" by (metis length_dropWhile_le)
  then show "(rest, s) \<in> measure length" by simp
qed simp

declare split_slash.simps [simp del]

section \<open>The loop of \<^verbatim>\<open>vfs_path_resolve\<close>\<close>

text \<open>\<^verbatim>\<open>strrchr\<close>: the position of the last occurrence.\<close>

primrec strrchr_from :: "nat \<Rightarrow> string \<Rightarrow> char \<Rightarrow> nat option" where
  "strrchr_from i [] c = None"
| "strrchr_from i (x # xs) c =
     (case strrchr_from (Suc i) xs c of Some j \<Rightarrow> Some j | None \<Rightarrow> if x = c then Some i else None)"

definition strrchr :: "string \<Rightarrow> char \<Rightarrow> nat option" where
  "strrchr = strrchr_from 0"

text \<open>The backward scan from \<^verbatim>\<open>start - 1\<close>; \<open>None\<close> is the scan leaving the buffer.\<close>

primrec scan_back :: "string \<Rightarrow> nat \<Rightarrow> nat option" where
  "scan_back s 0 = (if s ! 0 = CHR ''/'' then Some 0 else None)"
| "scan_back s (Suc i) = (if s ! Suc i = CHR ''/'' then Some (Suc i) else scan_back s i)"

definition resolve_up :: "string \<Rightarrow> string option" where
  "resolve_up res =
     (case strrchr res CHR ''/'' of
        None \<Rightarrow> Some res
      | Some start \<Rightarrow>
          if start = 0 then Some res
          else case scan_back res (start - 1) of
            None \<Rightarrow> None
          | Some ptr \<Rightarrow> Some (take (Suc ptr) res))"

text \<open>Appending a component writes it, a slash and a NUL; \<open>None\<close> when that does not fit into the \<open>cap\<close> bytes
  of the result buffer.\<close>

definition resolve_step :: "nat \<Rightarrow> string \<Rightarrow> string \<Rightarrow> string option" where
  "resolve_step cap res nm =
     (if nm \<noteq> [] \<and> nm \<noteq> ''.'' then
        if nm = ''..'' then resolve_up res
        else if length res + length nm + 2 \<le> cap then Some (res @ nm @ ''/'') else None
      else Some res)"

primrec resolve_loop :: "nat \<Rightarrow> string \<Rightarrow> string list \<Rightarrow> string option" where
  "resolve_loop cap res [] = Some res"
| "resolve_loop cap res (c # cs) =
     (case resolve_step cap res c of None \<Rightarrow> None | Some r \<Rightarrow> resolve_loop cap r cs)"

text \<open>The contents of the result buffer when the loop ends, and after the trailing slash is cut. Both
  branches of \<^verbatim>\<open>vfs_path_resolve\<close> allocate the result with the size of \<^verbatim>\<open>buffer\<close>, that is, its length and
  the NUL.\<close>

definition resolve_raw :: "string \<Rightarrow> string option" where
  "resolve_raw buffer = resolve_loop (length buffer + 1) ''/'' (split_slash buffer)"

definition resolve_path :: "string \<Rightarrow> string option" where
  "resolve_path buffer =
     map_option (\<lambda>res. if length res \<noteq> 1 \<and> last res = CHR ''/'' then butlast res else res)
       (resolve_raw buffer)"

text \<open>
  \<^verbatim>\<open>vfs_path_resolve\<close>: NULL when an allocation fails (\<open>Inr None\<close>). \<open>Inl\<close> is a fault: a relative path while
  \<^verbatim>\<open>p_cwdpath\<close> is NULL, a write past the end of the result buffer, or a scan that leaves it.
\<close>

definition resolve_result :: "string \<Rightarrow> fault + string option" where
  "resolve_result buffer =
     (case resolve_path buffer of None \<Rightarrow> Inl Out_Of_Bounds | Some s \<Rightarrow> Inr (Some s))"

definition vfs_path_resolve :: "string \<Rightarrow> ('w, fault + string option) kern" where
  "vfs_path_resolve path = do {
     cwd \<leftarrow> gets (\<lambda>k. p_cwdpath (cur_proc k));
     if path \<noteq> [] \<and> hd path = CHR ''/'' then do {
       ok \<leftarrow> kalloc;
       if \<not> ok then State_Monad.return (Inr None)
       else do {
         ok \<leftarrow> kalloc;
         State_Monad.return (if \<not> ok then Inr None else resolve_result path)
       }
     }
     else case cwd of
       None \<Rightarrow> State_Monad.return (Inl Out_Of_Bounds)
     | Some c \<Rightarrow> do {
         ok \<leftarrow> kalloc;
         if \<not> ok then State_Monad.return (Inr None)
         else do {
           ok \<leftarrow> kalloc;
           State_Monad.return (if \<not> ok then Inr None else resolve_result (c @ ''/'' @ path))
         }
       }
   }"

section \<open>Abstract paths\<close>

text \<open>An absolute path is the list of its components; resolving walks up and down that list.\<close>

fun walk :: "string list \<Rightarrow> string list \<Rightarrow> string list" where
  "walk acc [] = rev acc"
| "walk acc (c # cs) =
     (if c = [] \<or> c = ''.'' then walk acc cs
      else if c = ''..'' then walk (tl acc) cs
      else walk (c # acc) cs)"

primrec slashed :: "string list \<Rightarrow> string" where
  "slashed [] = []"
| "slashed (c # cs) = c @ ''/'' @ slashed cs"

definition join_path :: "string list \<Rightarrow> string" where
  "join_path cs = ''/'' @ butlast (slashed cs)"

definition good_comp :: "string \<Rightarrow> bool" where
  "good_comp c \<longleftrightarrow> c \<noteq> [] \<and> c \<noteq> ''.'' \<and> c \<noteq> ''..'' \<and> CHR ''/'' \<notin> set c"

section \<open>Splitting and joining\<close>

lemma split_slash_noslash: "CHR ''/'' \<notin> set s \<Longrightarrow> split_slash s = [s]"
proof -
  assume "CHR ''/'' \<notin> set s"
  then have "dropWhile (\<lambda>c. c \<noteq> CHR ''/'') s = []" by (auto simp: dropWhile_eq_Nil_conv)
  then show ?thesis unfolding split_slash.simps [of s] by (simp only: list.case)
qed

lemma split_slash_Cons:
  assumes "CHR ''/'' \<notin> set c"
  shows "split_slash (c @ CHR ''/'' # s) = c # split_slash s"
proof -
  have "dropWhile (\<lambda>x. x \<noteq> CHR ''/'') (c @ CHR ''/'' # s) = CHR ''/'' # s"
    "takeWhile (\<lambda>x. x \<noteq> CHR ''/'') (c @ CHR ''/'' # s) = c"
    using assms by (induction c) auto
  then show ?thesis by (subst split_slash.simps) simp
qed

lemma split_slash_parts: "\<forall>c \<in> set (split_slash s). CHR ''/'' \<notin> set c"
proof (induction s rule: split_slash.induct)
  case (1 s)
  show ?case
  proof (cases "dropWhile (\<lambda>c. c \<noteq> CHR ''/'') s")
    case Nil
    then have "CHR ''/'' \<notin> set s" by (auto simp: dropWhile_eq_Nil_conv)
    then show ?thesis by (simp add: split_slash_noslash)
  next
    case (Cons c rest)
    have "split_slash s = takeWhile (\<lambda>c. c \<noteq> CHR ''/'') s # split_slash rest"
      unfolding split_slash.simps [of s] Cons by (simp only: list.case)
    moreover have "CHR ''/'' \<notin> set (takeWhile (\<lambda>c. c \<noteq> CHR ''/'') s)"
      by (auto dest: set_takeWhileD)
    ultimately show ?thesis using 1 [OF Cons] by simp
  qed
qed

lemma split_slash_butlast:
  "cs \<noteq> [] \<Longrightarrow> \<forall>c \<in> set cs. CHR ''/'' \<notin> set c \<Longrightarrow> split_slash (butlast (slashed cs)) = cs"
proof (induction cs)
  case (Cons c cs)
  show ?case
  proof (cases cs)
    case Nil
    then show ?thesis using Cons.prems by (simp add: butlast_append split_slash_noslash)
  next
    case (Cons d ds)
    then have "slashed cs \<noteq> []" by (cases d) simp_all
    then show ?thesis using Cons.IH Cons.prems \<open>cs = d # ds\<close>
      by (simp add: butlast_append split_slash_Cons del: slashed.simps(2)) (simp add: split_slash_Cons butlast_append)
  qed
qed simp

section \<open>One step of the loop\<close>

lemma strrchr_from_append:
  "strrchr_from i (xs @ ys) c =
    (case strrchr_from (i + length xs) ys c of Some j \<Rightarrow> Some j | None \<Rightarrow> strrchr_from i xs c)"
  by (induction xs arbitrary: i) (simp_all split: option.split)

lemma strrchr_snoc: "strrchr (xs @ [c]) c = Some (length xs)"
  by (simp add: strrchr_def strrchr_from_append)

lemma scan_back_skip:
  "CHR ''/'' \<notin> set c \<Longrightarrow> i < length c \<Longrightarrow> scan_back (s @ CHR ''/'' # c @ t) (Suc (length s) + i) = Some (length s)"
proof (induction i)
  case 0
  then have "c ! 0 \<noteq> CHR ''/''" by (metis nth_mem)
  moreover have "scan_back (s @ CHR ''/'' # c @ t) (length s) = Some (length s)"
    by (cases s) (simp_all add: nth_append)
  ultimately show ?case using 0 by (simp add: nth_append)
next
  case (Suc i)
  then have "c ! Suc i \<noteq> CHR ''/''" by (metis nth_mem)
  then show ?case using Suc by (simp add: nth_append)
qed

lemma resolve_up_root: "resolve_up ''/'' = Some ''/''"
  by (simp add: resolve_up_def strrchr_def)

lemma resolve_up_comp:
  assumes "good_comp c"
  shows "resolve_up (s @ CHR ''/'' # c @ ''/'') = Some (s @ ''/'')"
proof -
  let ?r = "s @ CHR ''/'' # c @ ''/''"
  have "strrchr ?r CHR ''/'' = Some (length s + 1 + length c)"
    using strrchr_snoc [of "s @ CHR ''/'' # c" "CHR ''/''"] by simp
  moreover have "scan_back ?r (Suc (length s) + (length c - 1)) = Some (length s)"
    using assms by (intro scan_back_skip) (auto simp: good_comp_def)
  moreover have "0 < length c" using assms by (simp add: good_comp_def)
  ultimately show ?thesis
    by (cases c) (simp_all add: resolve_up_def del: scan_back.simps)
qed

lemma slashed_append [simp]: "slashed (xs @ ys) = slashed xs @ slashed ys"
  by (induction xs) simp_all

lemma walk_good_comps:
  "\<forall>c \<in> set acc. good_comp c \<Longrightarrow> \<forall>c \<in> set cs. CHR ''/'' \<notin> set c \<Longrightarrow> \<forall>c \<in> set (walk acc cs). good_comp c"
proof (induction acc cs rule: walk.induct)
  case (2 acc c cs)
  have tl: "\<forall>c \<in> set (tl acc). good_comp c" using "2.prems"(1) by (cases acc) auto
  consider "c = [] \<or> c = ''.''" | "c = ''..''" | "good_comp c" using "2.prems"(2) by (auto simp: good_comp_def)
  then show ?case
  proof cases
    case 1
    then show ?thesis using "2.IH"(1) "2.prems" by auto
  next
    case 2
    then show ?thesis using "2.IH"(2) "2.prems" tl by auto
  next
    case 3
    then have "\<not> (c = [] \<or> c = ''.'')" "c \<noteq> ''..''" by (auto simp: good_comp_def)
    then show ?thesis using "2.IH"(3) "2.prems" 3 by simp
  qed
qed simp

lemma resolve_step_walk:
  assumes "\<forall>c \<in> set acc. good_comp c" and "CHR ''/'' \<notin> set c"
  shows "\<exists>acc'. resolve_step cap (CHR ''/'' # slashed (rev acc)) c =
      (if good_comp c \<and> cap < length (CHR ''/'' # slashed (rev acc')) + 1 then None
       else Some (CHR ''/'' # slashed (rev acc'))) \<and>
    (\<forall>c \<in> set acc'. good_comp c) \<and> (\<forall>cs. walk acc (c # cs) = walk acc' cs) \<and>
    (\<not> good_comp c \<longrightarrow> length (slashed (rev acc')) \<le> length (slashed (rev acc)))"
proof (cases "c = ''..''")
  case True
  show ?thesis
  proof (cases acc)
    case Nil
    then show ?thesis using True
      by (intro exI [of _ "[]"]) (simp add: resolve_step_def resolve_up_root good_comp_def)
  next
    case (Cons d ds)
    let ?s = "slashed (rev ds)"
    have pre: "\<exists>s. CHR ''/'' # ?s = s @ ''/''"
      by (cases ds) (auto intro: exI [of _ "[]"] exI [of _ "CHR ''/'' # _ @ _"])
    then obtain s where s: "CHR ''/'' # ?s = s @ ''/''" by blast
    have "CHR ''/'' # slashed (rev acc) = (CHR ''/'' # ?s) @ d @ ''/''" using Cons by simp
    also have "\<dots> = s @ CHR ''/'' # d @ ''/''" by (simp add: s)
    finally have acc: "CHR ''/'' # slashed (rev acc) = s @ CHR ''/'' # d @ ''/''" .
    have "good_comp d" using assms(1) Cons by simp
    then have "resolve_up (CHR ''/'' # slashed (rev acc)) = Some (CHR ''/'' # ?s)"
      unfolding acc s by (rule resolve_up_comp)
    then show ?thesis using True Cons assms(1)
      by (intro exI [of _ ds]) (simp add: resolve_step_def good_comp_def)
  qed
next
  case False
  show ?thesis
  proof (cases "c = [] \<or> c = ''.''")
    case True
    then show ?thesis using assms(1) by (intro exI [of _ acc]) (auto simp: resolve_step_def good_comp_def)
  next
    case no: False
    then show ?thesis using False assms
      by (intro exI [of _ "c # acc"]) (simp add: resolve_step_def good_comp_def)
  qed
qed

text \<open>The result buffer holds every intermediate string with its NUL.\<close>

definition walk_fits :: "nat \<Rightarrow> string list \<Rightarrow> string list \<Rightarrow> bool" where
  "walk_fits cap acc cs \<longleftrightarrow>
     (\<forall>n \<le> length cs. length (CHR ''/'' # slashed (walk acc (take n cs))) + 1 \<le> cap)"

lemma walk_fits_Cons:
  assumes "\<And>ds. walk acc (c # ds) = walk acc' ds"
  shows "walk_fits cap acc (c # cs) \<longleftrightarrow>
    length (CHR ''/'' # slashed (rev acc)) + 1 \<le> cap \<and> walk_fits cap acc' cs"
proof -
  have "(\<forall>n \<le> length (c # cs). P (take n (c # cs))) \<longleftrightarrow> P [] \<and> (\<forall>n \<le> length cs. P (c # take n cs))" for P
    by (auto simp: take_Cons split: nat.splits)
  from this [of "\<lambda>ds. length (CHR ''/'' # slashed (walk acc ds)) + 1 \<le> cap"] show ?thesis
    unfolding walk_fits_def assms by simp
qed

lemma resolve_loop_walk:
  assumes "\<forall>c \<in> set acc. good_comp c" and "\<forall>c \<in> set cs. CHR ''/'' \<notin> set c"
    and "length (CHR ''/'' # slashed (rev acc)) + 1 \<le> cap"
  shows "resolve_loop cap (CHR ''/'' # slashed (rev acc)) cs =
      (if walk_fits cap acc cs then Some (CHR ''/'' # slashed (walk acc cs)) else None) \<and>
    (\<forall>c \<in> set (walk acc cs). good_comp c)"
  using assms
proof (induction cs arbitrary: acc)
  case Nil
  then show ?case by (simp add: walk_fits_def)
next
  case (Cons c cs)
  obtain acc' where step: "resolve_step cap (CHR ''/'' # slashed (rev acc)) c =
      (if good_comp c \<and> cap < length (CHR ''/'' # slashed (rev acc')) + 1 then None
       else Some (CHR ''/'' # slashed (rev acc')))"
    and acc': "\<forall>c \<in> set acc'. good_comp c" "\<And>cs. walk acc (c # cs) = walk acc' cs"
      "\<not> good_comp c \<longrightarrow> length (slashed (rev acc')) \<le> length (slashed (rev acc))"
    using resolve_step_walk [OF Cons.prems(1), of c cap] Cons.prems(2) by auto
  have fits: "walk_fits cap acc (c # cs) \<longleftrightarrow> walk_fits cap acc' cs"
    using walk_fits_Cons [OF acc'(2), of cap cs] Cons.prems(3) by simp
  have good: "\<forall>c \<in> set (walk acc' cs). good_comp c" by (rule walk_good_comps) (use acc' Cons.prems in auto)
  show ?case
  proof (cases "good_comp c \<and> cap < length (CHR ''/'' # slashed (rev acc')) + 1")
    case True
    then have "\<not> walk_fits cap acc' cs" by (auto simp: walk_fits_def intro!: exI [of _ 0])
    then show ?thesis using True step fits good acc'(2) by (simp del: walk.simps)
  next
    case False
    then have "length (CHR ''/'' # slashed (rev acc')) + 1 \<le> cap" using acc'(3) Cons.prems(3) by auto
    then show ?thesis
      using Cons.IH [OF acc'(1)] Cons.prems(2) step False fits acc'(2) by (simp del: walk.simps)
  qed
qed

lemma resolve_raw_walk:
  assumes "s \<noteq> []"
  shows "resolve_raw s = (if walk_fits (length s + 1) [] (split_slash s)
      then Some (CHR ''/'' # slashed (walk [] (split_slash s))) else None)"
    and "\<forall>c \<in> set (walk [] (split_slash s)). good_comp c"
  using resolve_loop_walk [of "[]" "split_slash s" "length s + 1"] split_slash_parts [of s] assms
  by (cases s; simp add: resolve_raw_def)+

lemma slashed_last: "cs \<noteq> [] \<Longrightarrow> slashed cs \<noteq> [] \<and> last (slashed cs) = CHR ''/''"
proof (induction cs)
  case (Cons c cs)
  then show ?case by (cases cs) (simp_all add: last_append)
qed simp

lemma resolve_path_join:
  assumes "s \<noteq> []"
  shows "resolve_path s = (if walk_fits (length s + 1) [] (split_slash s)
    then Some (join_path (walk [] (split_slash s))) else None)"
proof (cases "walk [] (split_slash s) = []")
  case True
  then show ?thesis by (simp add: resolve_path_def resolve_raw_walk [OF assms] join_path_def)
next
  case False
  then show ?thesis
    using slashed_last [OF False] by (simp add: resolve_path_def resolve_raw_walk [OF assms] join_path_def)
qed

lemma walk_good: "\<forall>c \<in> set cs. good_comp c \<Longrightarrow> walk acc cs = rev acc @ cs"
  by (induction cs arbitrary: acc) (auto simp: good_comp_def)

lemma split_join: "\<forall>c \<in> set cs. good_comp c \<Longrightarrow> walk [] (split_slash (join_path cs)) = cs"
proof (cases "cs = []")
  case True
  have "split_slash ''/'' = [[], []]"
    using split_slash_Cons [of "[]" "[]"] by (simp add: split_slash_noslash)
  then show ?thesis using True by (simp add: join_path_def)
next
  case False
  assume good: "\<forall>c \<in> set cs. good_comp c"
  then have "split_slash (butlast (slashed cs)) = cs"
    using False by (intro split_slash_butlast) (auto simp: good_comp_def)
  then have "split_slash (join_path cs) = [] # cs"
    using split_slash_Cons [of "[]" "butlast (slashed cs)"] by (simp add: join_path_def)
  then show ?thesis using good by (simp add: walk_good)
qed

section \<open>How far the result buffer is written\<close>

definition comps_len :: "string list \<Rightarrow> nat" where
  "comps_len cs = sum_list (map (\<lambda>c. length c + 1) cs)"

lemma split_slash_len: "comps_len (split_slash s) = length s + 1"
proof (induction s rule: split_slash.induct)
  case (1 s)
  let ?P = "\<lambda>c. c \<noteq> CHR ''/''"
  show ?case
  proof (cases "dropWhile ?P s")
    case Nil
    then have "CHR ''/'' \<notin> set s" by (auto simp: dropWhile_eq_Nil_conv)
    then show ?thesis by (simp add: split_slash_noslash comps_len_def)
  next
    case (Cons c rest)
    have "length s = length (takeWhile ?P s @ dropWhile ?P s)" by simp
    then have "length s = length (takeWhile ?P s) + 1 + length rest"
      by (simp only: length_append Cons) simp
    moreover have "split_slash s = takeWhile ?P s # split_slash rest"
      unfolding split_slash.simps [of s] Cons by (simp only: list.case)
    ultimately show ?thesis using 1 [OF Cons] by (simp add: comps_len_def)
  qed
qed

lemma walk_len: "length (slashed (walk acc cs)) \<le> length (slashed (rev acc)) + comps_len cs"
proof (induction acc cs rule: walk.induct)
  case (2 acc c cs)
  have "length (slashed (rev (tl acc))) \<le> length (slashed (rev acc))" by (cases acc) auto
  with 2 show ?case by (auto simp: comps_len_def)
qed (simp add: comps_len_def)

section \<open>Properties\<close>

text \<open>
  When the buffer holds everything. The components of the path with one byte each for their slashes
  are one byte longer than the path; the first of them is empty when the path starts with a slash, which
  leaves one byte too few for the slash after the last component and its NUL, unless something
  else is skipped: here another empty component, such as the one after a trailing slash.
\<close>

lemma walk_fits_spare:
  assumes "comps_len (filter (\<lambda>c. c \<noteq> []) cs) + 2 \<le> cap"
  shows "walk_fits cap [] cs"
proof -
  have skip: "walk acc (filter (\<lambda>c. c \<noteq> []) ds) = walk acc ds" for acc ds
    by (induction acc ds rule: walk.induct) auto
  have mono: "comps_len (filter (\<lambda>c. c \<noteq> []) (take n ds)) \<le> comps_len (filter (\<lambda>c. c \<noteq> []) ds)" for n ds
    by (induction ds arbitrary: n) (auto simp: comps_len_def take_Cons split: nat.splits intro: le_SucI add_mono)
  show ?thesis
    unfolding walk_fits_def
  proof (intro allI impI)
    fix n
    have "length (slashed (walk [] (take n cs))) \<le> comps_len (filter (\<lambda>c. c \<noteq> []) (take n cs))"
      using walk_len [of "[]" "filter (\<lambda>c. c \<noteq> []) (take n cs)"] by (simp add: skip)
    then show "length (CHR ''/'' # slashed (walk [] (take n cs))) + 1 \<le> cap"
      using mono [of n cs] assms by simp
  qed
qed

text \<open>
  C16: \<^verbatim>\<open>vfs_path_resolve\<close>, for a process that has a working directory path. The path is taken from the
  root if it is absolute and from the working directory otherwise. The code builds the result in a
  buffer of as many bytes as that path has, NUL included, and keeps a slash after every component, so
  that an intermediate result can be one byte too long for it (\<open>walk_fits\<close> says that none is). If all
  fit, the call does not fault and returns NULL, only when memory runs out, or the normal form of the path:
  its components walked with empty ones and \<^verbatim>\<open>.\<close> skipped and \<^verbatim>\<open>..\<close> going up (never above the
  root), joined by single slashes. If one does not fit, as for \<^verbatim>\<open>/a\<close>, the code writes past the
  buffer, which is a fault here, unless memory runs out before; the excess is a single byte when the path or the
  working directory is absolute.
\<close>

theorem path_resolve_correct:
  fixes k :: "'w kernel" and path :: string
  assumes "p_cwdpath (cur_proc k) = Some cwd"
  defines "full \<equiv> (if path \<noteq> [] \<and> hd path = CHR ''/'' then path else cwd @ ''/'' @ path)"
  defines "cs \<equiv> walk [] (split_slash full)"
  shows "\<exists>r k'. run_state (vfs_path_resolve path) k = (r, k') \<and> (\<forall>c \<in> set cs. good_comp c) \<and>
    (r = Inr None \<or> r = (if walk_fits (length full + 1) [] (split_slash full)
                          then Inr (Some (join_path cs)) else Inl Out_Of_Bounds)) \<and>
    (k_mem k = [] \<longrightarrow> r \<noteq> Inr None \<and> k' = k) \<and>
    (hd full = CHR ''/'' \<longrightarrow> walk_fits (length full + 2) [] (split_slash full))"
proof -
  have full: "full \<noteq> []" by (auto simp: full_def)
  have res: "resolve_result full = (if walk_fits (length full + 1) [] (split_slash full)
      then Inr (Some (join_path cs)) else Inl Out_Of_Bounds)"
    using resolve_path_join [OF full] by (simp add: resolve_result_def cs_def)
  have over: "walk_fits (length full + 2) [] (split_slash full)" if first: "hd full = CHR ''/''"
  proof -
    obtain t where t: "full = CHR ''/'' # t" using first full by (cases full) auto
    then have "split_slash full = [] # split_slash t" using split_slash_Cons [of "[]" t] by simp
    moreover have "comps_len (filter (\<lambda>c. c \<noteq> []) ds) \<le> comps_len ds" for ds
      by (induction ds) (auto simp: comps_len_def)
    from this [of "split_slash t"] have "comps_len (filter (\<lambda>c. c \<noteq> []) (split_slash t)) \<le> length t + 1"
      by (simp add: split_slash_len)
    ultimately show ?thesis using t by (intro walk_fits_spare) simp
  qed
  have run: "\<exists>r k'. run_state (vfs_path_resolve path) k = (r, k') \<and> (r = Inr None \<or> r = resolve_result full) \<and>
      (k_mem k = [] \<longrightarrow> r = resolve_result full \<and> k' = k)"
    using assms(1) by (auto simp: vfs_path_resolve_def kalloc_def full_def split: list.split)
  moreover have "resolve_result full \<noteq> Inr None" by (simp add: res)
  ultimately show ?thesis using over res resolve_raw_walk(2) [OF full] unfolding cs_def by auto
qed

theorem path_resolve_correct_witness:
  "run_state (vfs_path_resolve ''usr//./lib/../bin'') sample_kernel = (Inr (Some ''/usr/bin''), sample_kernel)"
proof -
  have split: "split_slash ''//usr//./lib/../bin'' = [[], [], ''usr'', [], ''.'', ''lib'', ''..'', ''bin'']"
    by (simp add: split_slash.simps)
  have "walk_fits (length ''//usr//./lib/../bin'' + 1) [] (split_slash ''//usr//./lib/../bin'')"
    unfolding split by (rule walk_fits_spare) (simp add: comps_len_def)
  moreover have "walk [] (split_slash ''//usr//./lib/../bin'') = [''usr'', ''bin'']" by (simp add: split)
  moreover have "join_path [''usr'', ''bin''] = ''/usr/bin''" by (simp add: join_path_def)
  moreover have "p_cwdpath (cur_proc sample_kernel) = Some ''/''" "k_mem sample_kernel = []"
    by (simp_all add: cur_proc_def sample_kernel_def sample_proc_def)
  ultimately show ?thesis
    using path_resolve_correct [of sample_kernel "''/''" "''usr//./lib/../bin''"] by auto
qed

text \<open>The extra byte: for \<^verbatim>\<open>/a\<close> the buffer has three bytes, and the loop writes four.\<close>

lemma path_resolve_overflow: "resolve_raw ''/a'' = None"
  by (simp add: resolve_raw_def split_slash.simps resolve_step_def)

end
