(* ===== verification/Path_Walk.thy ===== *)
theory Path_Walk
  imports Path_Resolve
begin

unbundle bit_operations_syntax

text \<open>
  Walking paths: \<^verbatim>\<open>vfs_open_file\<close> of \<^verbatim>\<open>fs/path.c\<close> with the crossing of mount points, \<^verbatim>\<open>sys_path_sep\<close> of
  \<^verbatim>\<open>uapi/util.c\<close>, and the system calls of \<^verbatim>\<open>uapi/vfs.c\<close> that take a path. Inode pointers are
  addresses, 0 is NULL. A call that hands a NULL name or a NULL working directory on (an allocation
  failed before) has the result \<open>Inl Out_Of_Bounds\<close>; the model follows it no further. Freeing a
  string is not part of the state.
\<close>

section \<open>\<^verbatim>\<open>vfs_open_file\<close>\<close>

text \<open>The first slot of the mount table whose mount point is this inode.\<close>

definition mount_at :: "'w kernel \<Rightarrow> nat \<Rightarrow> nat option" where
  "mount_at k dir =
     find (\<lambda>i. let mpt = mnt_point (mount_table k i)
               in mpt \<noteq> 0 \<and> vi_ino (k_inodes k dir) = vi_ino (k_inodes k mpt) \<and>
                  vi_sb (k_inodes k dir) = vi_sb (k_inodes k mpt))
       [0..<VFS_MOUNT_TABLE_SIZE]"

definition mount_root :: "'w kernel \<Rightarrow> nat \<Rightarrow> nat" where
  "mount_root k i = sb_root (k_sbs k (mount_sb i))"

text \<open>The starting directory, with a reference taken (\<^verbatim>\<open>CHECK_ROOT_MOUNT\<close> and the lines around it), and
  \<^verbatim>\<open>CHECK_PATH_MOUNT\<close>.\<close>

definition open_start :: "bool \<Rightarrow> ('w, nat) kern" where
  "open_start absolute = do {
     k \<leftarrow> gets id;
     let dir = (if absolute then vfs_root_inode k else p_cwd (cur_proc k));
     let dir = (case mount_at k dir of Some i \<Rightarrow> mount_root k i | None \<Rightarrow> dir);
     vfs_ref_inode dir;
     State_Monad.return dir
   }"

definition check_path_mount :: "'w fs_ops \<Rightarrow> nat \<Rightarrow> ('w, nat) kern" where
  "check_path_mount fs dir = do {
     k \<leftarrow> gets id;
     case mount_at k dir of
       None \<Rightarrow> State_Monad.return dir
     | Some i \<Rightarrow> do {
         vfs_unref_inode fs dir;
         dir' \<leftarrow> gets (\<lambda>k. mount_root k i);
         vfs_ref_inode dir';
         State_Monad.return dir'
       }
   }"

text \<open>The search loop over the strings between slashes; \<^verbatim>\<open>end == NULL\<close> is the last one, and an empty
  last one is \<^verbatim>\<open>*ptr == '\0'\<close>.\<close>

primrec open_loop :: "'w fs_ops \<Rightarrow> int \<Rightarrow> string list \<Rightarrow> nat \<Rightarrow> ('w, int \<times> nat) kern" where
  "open_loop fs follow [] dir = State_Monad.return (0, dir)"
| "open_loop fs follow (c # cs) dir =
     (if c = [] \<and> cs = [] then State_Monad.return (0, dir)
      else if c \<noteq> [] \<and> c \<noteq> ''.'' then do {
        sb \<leftarrow> gets (\<lambda>k. vi_sb (k_inodes k dir));
        (ret, inode) \<leftarrow> vfs_lookup fs dir sb c (if cs = [] then follow else 1);
        vfs_unref_inode fs dir;
        if ret \<noteq> 0 then State_Monad.return (ret, 0)
        else do {
          isdir \<leftarrow> gets (\<lambda>k. inode_isdir k inode);
          if cs \<noteq> [] \<and> \<not> isdir then do {
            vfs_unref_inode fs inode;
            State_Monad.return (- ENOTDIR, 0)
          }
          else do {
            dir' \<leftarrow> check_path_mount fs inode;
            open_loop fs follow cs dir'
          }
        }
      }
      else open_loop fs follow cs dir)"

definition is_absolute :: "string \<Rightarrow> bool" where
  "is_absolute path \<longleftrightarrow> path \<noteq> [] \<and> hd path = CHR ''/''"

definition vfs_open_file :: "'w fs_ops \<Rightarrow> string \<Rightarrow> int \<Rightarrow> ('w, int \<times> nat) kern" where
  "vfs_open_file fs path follow_symlinks = do {
     ok \<leftarrow> kalloc;
     if \<not> ok then State_Monad.return (- ENOMEM, 0)
     else do {
       dir \<leftarrow> open_start (is_absolute path);
       open_loop fs follow_symlinks (split_slash (if is_absolute path then tl path else path)) dir
     }
   }"

section \<open>\<^verbatim>\<open>uapi/util.c\<close>\<close>

text \<open>The directory and the name in it; a NULL name is \<open>None\<close>.\<close>

definition sys_path_sep :: "'w fs_ops \<Rightarrow> string \<Rightarrow> ('w, int \<times> nat \<times> string option) kern" where
  "sys_path_sep fs path = do {
     ok \<leftarrow> kalloc;
     if \<not> ok then State_Monad.return (- ENOMEM, 0, None)
     else case strrchr path CHR ''/'' of
       None \<Rightarrow> do {
         dir \<leftarrow> gets (\<lambda>k. p_cwd (cur_proc k));
         vfs_ref_inode dir;
         ok \<leftarrow> kalloc;
         State_Monad.return (0, dir, if ok then Some path else None)
       }
     | Some sep \<Rightarrow> do {
         (if Suc sep < length path then kalloc else State_Monad.return True);
         (ret, dir) \<leftarrow> vfs_open_file fs (take sep path) 1;
         if ret \<noteq> 0 then State_Monad.return (ret, 0, None)
         else do {
           ok \<leftarrow> kalloc;
           State_Monad.return (0, dir, if ok then Some (drop (Suc sep) path) else None)
         }
       }
   }"

section \<open>System calls on an existing file (\<^verbatim>\<open>uapi/vfs.c\<close>)\<close>

text \<open>Open the file, run the body, drop the reference.\<close>

definition on_path :: "'w fs_ops \<Rightarrow> string \<Rightarrow> int \<Rightarrow> (int \<Rightarrow> 'a) \<Rightarrow> (nat \<Rightarrow> ('w, 'a) kern) \<Rightarrow> ('w, 'a) kern" where
  "on_path fs path follow e body = do {
     (ret, inode) \<leftarrow> vfs_open_file fs path follow;
     if ret \<noteq> 0 then State_Monad.return (e ret)
     else do {
       ret \<leftarrow> body inode;
       vfs_unref_inode fs inode;
       State_Monad.return ret
     }
   }"

definition sys_chmod :: "'w fs_ops \<Rightarrow> string \<Rightarrow> u32 \<Rightarrow> ('w, int) kern" where
  "sys_chmod fs path mode = on_path fs path 1 id (\<lambda>i. vfs_chmod fs i mode)"

definition sys_xchown :: "'w fs_ops \<Rightarrow> string \<Rightarrow> u16 \<Rightarrow> u16 \<Rightarrow> int \<Rightarrow> ('w, int) kern" where
  "sys_xchown fs path uid gid follow = on_path fs path follow id (\<lambda>i. vfs_chown fs i uid gid)"

definition sys_chown :: "'w fs_ops \<Rightarrow> string \<Rightarrow> u16 \<Rightarrow> u16 \<Rightarrow> ('w, int) kern" where
  "sys_chown fs path uid gid = sys_xchown fs path uid gid 1"

definition sys_lchown :: "'w fs_ops \<Rightarrow> string \<Rightarrow> u16 \<Rightarrow> u16 \<Rightarrow> ('w, int) kern" where
  "sys_lchown fs path uid gid = sys_xchown fs path uid gid 0"

definition F_OK :: int where "F_OK = 0"
definition X_OK :: int where "X_OK = 1"
definition W_OK :: int where "W_OK = 2"
definition R_OK :: int where "R_OK = 4"

definition access_check :: "'w kernel \<Rightarrow> nat \<Rightarrow> int \<Rightarrow> bool \<Rightarrow> int" where
  "access_check k inode mode real =
     (let i = k_inodes k inode
      in if mode = F_OK then 0
         else if mode = X_OK then vfs_perm_check_exec k i real
         else if mode = R_OK then vfs_perm_check_read k i real
         else if mode = W_OK then vfs_perm_check_write k i real
         else - EINVAL)"

definition sys_access :: "'w fs_ops \<Rightarrow> string \<Rightarrow> int \<Rightarrow> ('w, int) kern" where
  "sys_access fs path mode = on_path fs path 1 id (\<lambda>i. gets (\<lambda>k. access_check k i mode True))"

definition sys_readlink :: "'w fs_ops \<Rightarrow> string \<Rightarrow> u32 \<Rightarrow> ('w, int \<times> u8 list) kern" where
  "sys_readlink fs path len = on_path fs path 1 no_buf (\<lambda>i. do {
     x \<leftarrow> inode_at i;
     if \<not> S_ISLNK (vi_mode x) then State_Monad.return (no_buf (- EINVAL)) else vfs_readlink fs i len
   })"

definition sys_truncate64 :: "'w fs_ops \<Rightarrow> string \<Rightarrow> u64 \<Rightarrow> ('w, int) kern" where
  "sys_truncate64 fs path len = on_path fs path 1 id (\<lambda>i. do {
     modify (upd_inode i (\<lambda>x. x\<lparr>vi_size := len\<rparr>));
     vfs_truncate fs i
   })"

definition sys_truncate :: "'w fs_ops \<Rightarrow> string \<Rightarrow> u32 \<Rightarrow> ('w, int) kern" where
  "sys_truncate fs path len = sys_truncate64 fs path (scast len)"

definition sys_stat64 :: "'w fs_ops \<Rightarrow> string \<Rightarrow> stat64 \<Rightarrow> ('w, int \<times> stat64) kern" where
  "sys_stat64 fs path st = on_path fs path 1 (\<lambda>e. (e, st)) (\<lambda>i. vfs_getattr fs i st)"

definition sys_lstat64 :: "'w fs_ops \<Rightarrow> string \<Rightarrow> stat64 \<Rightarrow> ('w, int \<times> stat64) kern" where
  "sys_lstat64 fs path st = on_path fs path 0 (\<lambda>e. (e, st)) (\<lambda>i. vfs_getattr fs i st)"

text \<open>\<^verbatim>\<open>struct stat\<close> has 32-bit inode numbers, sizes and block counts; only the seconds of the times are
  copied.\<close>

record stat32 =
  st32_dev :: u16
  st32_ino :: u32
  st32_mode :: u32
  st32_nlink :: u32
  st32_uid :: u16
  st32_gid :: u16
  st32_rdev :: u16
  st32_size :: u32
  st32_atime :: u64
  st32_mtime :: u64
  st32_ctime :: u64
  st32_blksize :: u32
  st32_blocks :: u32

definition stat_copy :: "stat64 \<Rightarrow> stat32" where
  "stat_copy s = \<lparr>st32_dev = st_dev s, st32_ino = ucast (st_ino s), st32_mode = st_mode s,
     st32_nlink = st_nlink s, st32_uid = st_uid s, st32_gid = st_gid s, st32_rdev = st_rdev s,
     st32_size = ucast (st_size s), st32_atime = fst (st_atim s), st32_mtime = fst (st_mtim s),
     st32_ctime = fst (st_ctim s), st32_blksize = st_blksize s, st32_blocks = ucast (st_blocks s)\<rparr>"

text \<open>The argument \<open>st64\<close> is the uninitialised local of the C functions.\<close>

definition sys_stat :: "'w fs_ops \<Rightarrow> string \<Rightarrow> stat64 \<Rightarrow> ('w, int \<times> stat32 option) kern" where
  "sys_stat fs path st64 = do {
     (ret, s) \<leftarrow> sys_stat64 fs path st64;
     State_Monad.return (if ret \<noteq> 0 then (ret, None) else (0, Some (stat_copy s)))
   }"

definition sys_lstat :: "'w fs_ops \<Rightarrow> string \<Rightarrow> stat64 \<Rightarrow> ('w, int \<times> stat32 option) kern" where
  "sys_lstat fs path st64 = do {
     (ret, s) \<leftarrow> sys_lstat64 fs path st64;
     State_Monad.return (if ret \<noteq> 0 then (ret, None) else (0, Some (stat_copy s)))
   }"

definition sys_fstat :: "'w fs_ops \<Rightarrow> int \<Rightarrow> stat64 \<Rightarrow> ('w, int \<times> stat32 option) kern" where
  "sys_fstat fs fd st64 = do {
     (ret, s) \<leftarrow> sys_fstat64 fs fd st64;
     State_Monad.return (if ret \<noteq> 0 then (ret, None) else (0, Some (stat_copy s)))
   }"

text \<open>\<^verbatim>\<open>sys_utimes\<close>: times are pairs of seconds and microseconds. The failing permission check returns
  without dropping the reference.\<close>

definition utimes_denied :: "'w kernel \<Rightarrow> nat \<Rightarrow> bool" where
  "utimes_denied k inode \<longleftrightarrow>
     (let euid = p_euid (cur_proc k) in euid \<noteq> 0 \<or> euid \<noteq> vi_uid (k_inodes k inode))"

definition set_times :: "u64 \<times> u32 \<Rightarrow> u64 \<times> u32 \<Rightarrow> VFSInode \<Rightarrow> VFSInode" where
  "set_times a m x = x\<lparr>vi_atime := (fst a, snd a * 1000), vi_mtime := (fst m, snd m * 1000)\<rparr>"

definition sys_utimes :: "'w fs_ops \<Rightarrow> string \<Rightarrow> u64 \<times> u32 \<Rightarrow> u64 \<times> u32 \<Rightarrow> ('w, int) kern" where
  "sys_utimes fs path atime mtime =
     (if snd atime \<ge> 1000000 \<or> snd mtime \<ge> 1000000 then State_Monad.return (- EINVAL)
      else do {
        (ret, inode) \<leftarrow> vfs_open_file fs path 1;
        if ret \<noteq> 0 then State_Monad.return ret
        else do {
          denied \<leftarrow> gets (\<lambda>k. utimes_denied k inode);
          if denied then State_Monad.return (- EPERM)
          else do {
            modify (upd_inode inode (set_times atime mtime));
            ret \<leftarrow> vfs_write_inode fs inode;
            vfs_unref_inode fs inode;
            State_Monad.return ret
          }
        }
      })"

definition sys_utime :: "'w fs_ops \<Rightarrow> string \<Rightarrow> u64 \<Rightarrow> u64 \<Rightarrow> ('w, int) kern" where
  "sys_utime fs path actime modtime = sys_utimes fs path (actime, 0) (modtime, 0)"

definition sys_umask :: "u32 \<Rightarrow> ('w, u32) kern" where
  "sys_umask msk = do {
     old \<leftarrow> gets (\<lambda>k. p_umask (cur_proc k));
     set_cur (\<lambda>p. p\<lparr>p_umask := msk\<rparr>);
     State_Monad.return old
   }"

text \<open>\<^verbatim>\<open>sys_getcwd\<close>: a NULL buffer asks for the length (\<open>len = None\<close>); the second component is what is
  copied.\<close>

definition sys_getcwd :: "'w kernel \<Rightarrow> u32 option \<Rightarrow> fault + (int \<times> string)" where
  "sys_getcwd k len =
     (case p_cwdpath (cur_proc k) of
        None \<Rightarrow> Inl Out_Of_Bounds
      | Some cwd \<Rightarrow>
          Inr (case len of
            None \<Rightarrow> (int (length cwd), [])
          | Some n \<Rightarrow>
              if n = 0 then (- EINVAL, [])
              else if unat n \<le> length cwd then (- ERANGE, [])
              else (0, cwd)))"

definition sys_chdir :: "'w fs_ops \<Rightarrow> string \<Rightarrow> ('w, fault + int) kern" where
  "sys_chdir fs path = do {
     (ret, inode) \<leftarrow> vfs_open_file fs path 1;
     if ret \<noteq> 0 then State_Monad.return (Inr ret)
     else do {
       k \<leftarrow> gets id;
       let i = k_inodes k inode;
       let c = k_inodes k (p_cwd (cur_proc k));
       if \<not> S_ISDIR (vi_mode i) then do {
         vfs_unref_inode fs inode;
         State_Monad.return (Inr (- ENOTDIR))
       }
       else if vi_sb i = vi_sb c \<and> vi_ino i = vi_ino c then do {
         vfs_unref_inode fs inode;
         State_Monad.return (Inr 0)
       }
       else do {
         r \<leftarrow> vfs_path_resolve path;
         (case r of
            Inl f \<Rightarrow> State_Monad.return (Inl f)
          | Inr None \<Rightarrow> do {
              vfs_unref_inode fs inode;
              State_Monad.return (Inr (- ENOMEM))
            }
          | Inr (Some cwd) \<Rightarrow> do {
              vfs_unref_inode fs (p_cwd (cur_proc k));
              set_cur (\<lambda>p. p\<lparr>p_cwd := inode, p_cwdpath := Some cwd\<rparr>);
              State_Monad.return (Inr 0)
            })
       }
     }
   }"

section \<open>System calls on a directory entry (\<^verbatim>\<open>uapi/vfs.c\<close>)\<close>

definition on_parent :: "'w fs_ops \<Rightarrow> string \<Rightarrow> (nat \<Rightarrow> string \<Rightarrow> ('w, int) kern) \<Rightarrow> ('w, fault + int) kern" where
  "on_parent fs path body = do {
     (ret, dir, name) \<leftarrow> sys_path_sep fs path;
     if ret \<noteq> 0 then State_Monad.return (Inr ret)
     else case name of
       None \<Rightarrow> State_Monad.return (Inl Out_Of_Bounds)
     | Some nm \<Rightarrow> do {
         ret \<leftarrow> body dir nm;
         vfs_unref_inode fs dir;
         State_Monad.return (Inr ret)
       }
   }"

text \<open>With the check that the name does not exist yet.\<close>

definition on_new :: "'w fs_ops \<Rightarrow> string \<Rightarrow> (nat \<Rightarrow> string \<Rightarrow> ('w, int) kern) \<Rightarrow> ('w, fault + int) kern" where
  "on_new fs path body = do {
     (ret, dir, name) \<leftarrow> sys_path_sep fs path;
     if ret \<noteq> 0 then State_Monad.return (Inr ret)
     else case name of
       None \<Rightarrow> State_Monad.return (Inl Out_Of_Bounds)
     | Some nm \<Rightarrow> do {
         sb \<leftarrow> gets (\<lambda>k. vi_sb (k_inodes k dir));
         (ret, temp) \<leftarrow> vfs_lookup fs dir sb nm 0;
         if ret = 0 then do {
           vfs_unref_inode fs dir;
           vfs_unref_inode fs temp;
           State_Monad.return (Inr (- EEXIST))
         }
         else do {
           ret \<leftarrow> body dir nm;
           vfs_unref_inode fs dir;
           State_Monad.return (Inr ret)
         }
       }
   }"

definition sys_unlink :: "'w fs_ops \<Rightarrow> string \<Rightarrow> ('w, fault + int) kern" where
  "sys_unlink fs path = on_parent fs path (\<lambda>dir nm. vfs_unlink fs dir nm)"

definition sys_rmdir :: "'w fs_ops \<Rightarrow> string \<Rightarrow> ('w, fault + int) kern" where
  "sys_rmdir fs path = on_parent fs path (\<lambda>dir nm. vfs_rmdir fs dir nm)"

definition sys_mknod :: "'w fs_ops \<Rightarrow> string \<Rightarrow> u32 \<Rightarrow> u16 \<Rightarrow> ('w, fault + int) kern" where
  "sys_mknod fs path mode dev = on_new fs path (\<lambda>dir nm. vfs_mknod fs dir nm mode dev)"

definition sys_mkdir :: "'w fs_ops \<Rightarrow> string \<Rightarrow> u32 \<Rightarrow> ('w, fault + int) kern" where
  "sys_mkdir fs path mode = on_new fs path (\<lambda>dir nm. do {
     umsk \<leftarrow> gets (\<lambda>k. p_umask (cur_proc k));
     vfs_mkdir fs dir nm (mode AND NOT umsk)
   })"

definition sys_symlink :: "'w fs_ops \<Rightarrow> string \<Rightarrow> string \<Rightarrow> ('w, fault + int) kern" where
  "sys_symlink fs old new = on_new fs new (\<lambda>dir nm. vfs_symlink fs dir old nm)"

definition link_named :: "'w fs_ops \<Rightarrow> nat \<Rightarrow> nat \<Rightarrow> string \<Rightarrow> ('w, int) kern" where
  "link_named fs old_inode new_inode nm = do {
     sb \<leftarrow> gets (\<lambda>k. vi_sb (k_inodes k new_inode));
     (ret, temp) \<leftarrow> vfs_lookup fs new_inode sb nm 0;
     if ret = 0 then do {
       vfs_unref_inode fs old_inode;
       vfs_unref_inode fs new_inode;
       vfs_unref_inode fs temp;
       State_Monad.return (- EEXIST)
     }
     else do {
       ret \<leftarrow> vfs_link fs old_inode new_inode nm;
       vfs_unref_inode fs old_inode;
       vfs_unref_inode fs new_inode;
       State_Monad.return ret
     }
   }"

definition sys_link :: "'w fs_ops \<Rightarrow> string \<Rightarrow> string \<Rightarrow> ('w, fault + int) kern" where
  "sys_link fs old new = do {
     (ret, new_inode, name) \<leftarrow> sys_path_sep fs new;
     if ret \<noteq> 0 then State_Monad.return (Inr ret)
     else do {
       (ret, old_inode) \<leftarrow> vfs_open_file fs old 1;
       if ret \<noteq> 0 then do {
         vfs_unref_inode fs new_inode;
         State_Monad.return (Inr ret)
       }
       else case name of
         None \<Rightarrow> State_Monad.return (Inl Out_Of_Bounds)
       | Some nm \<Rightarrow> do {
           ret \<leftarrow> link_named fs old_inode new_inode nm;
           State_Monad.return (Inr ret)
         }
     }
   }"

definition sys_rename :: "'w fs_ops \<Rightarrow> string \<Rightarrow> string \<Rightarrow> ('w, fault + int) kern" where
  "sys_rename fs old new = do {
     (ret, old_inode, old_name) \<leftarrow> sys_path_sep fs old;
     if ret \<noteq> 0 then State_Monad.return (Inr ret)
     else do {
       (ret, new_inode, new_name) \<leftarrow> sys_path_sep fs new;
       if ret \<noteq> 0 then do {
         vfs_unref_inode fs old_inode;
         State_Monad.return (Inr ret)
       }
       else case (old_name, new_name) of
         (Some o', Some n') \<Rightarrow> do {
           ret \<leftarrow> vfs_rename fs old_inode o' new_inode n';
           vfs_unref_inode fs old_inode;
           vfs_unref_inode fs new_inode;
           State_Monad.return (Inr ret)
         }
       | _ \<Rightarrow> State_Monad.return (Inl Out_Of_Bounds)
     }
   }"

definition sys_sync :: "'w fs_ops \<Rightarrow> ('w, unit) kern" where
  "sys_sync fs = fold (\<lambda>i m. do {
       m;
       busy \<leftarrow> gets (\<lambda>k. mnt_fstype (mount_table k i) \<noteq> None);
       whenS busy (vfs_update_sb fs (mount_sb i))
     }) [0..<VFS_MOUNT_TABLE_SIZE] (State_Monad.return ())"

end
