(* ===== verification/Path_Frames.thy ===== *)
theory Path_Frames
  imports Path_Walk
begin

text \<open>
  What the path calls leave alone. A frame is a reflexive and transitive relation between kernel states
  that allocations and inode updates respect; a path walk and the calls built on it keep every
  frame that the filesystem's functions keep. The frames used are the running process and the
  descriptor tables.
\<close>

section \<open>Frames\<close>

definition keepsR :: "('w kernel \<Rightarrow> 'w kernel \<Rightarrow> bool) \<Rightarrow> ('w, 'a) kern \<Rightarrow> bool" where
  "keepsR R m \<longleftrightarrow> (\<forall>k. R k (snd (run_state m k)))"

text \<open>The functions of the operation tables that the path calls use keep a frame.\<close>

definition fs_changes_keep :: "('w kernel \<Rightarrow> 'w kernel \<Rightarrow> bool) \<Rightarrow> 'w fs_ops \<Rightarrow> bool" where
  "fs_changes_keep R fs \<longleftrightarrow> (\<forall>i.
     (\<forall>f. iop_create (iops fs i) = Some f \<longrightarrow> (\<forall>a b c. keepsR R (f a b c))) \<and>
     (\<forall>f. iop_link (iops fs i) = Some f \<longrightarrow> (\<forall>a b c. keepsR R (f a b c))) \<and>
     (\<forall>f. iop_unlink (iops fs i) = Some f \<longrightarrow> (\<forall>a b. keepsR R (f a b))) \<and>
     (\<forall>f. iop_symlink (iops fs i) = Some f \<longrightarrow> (\<forall>a b c. keepsR R (f a b c))) \<and>
     (\<forall>f. iop_chmod (iops fs i) = Some f \<longrightarrow> (\<forall>a b. keepsR R (f a b))) \<and>
     (\<forall>f. iop_chown (iops fs i) = Some f \<longrightarrow> (\<forall>a b c. keepsR R (f a b c))) \<and>
     (\<forall>f. iop_mkdir (iops fs i) = Some f \<longrightarrow> (\<forall>a b c. keepsR R (f a b c))) \<and>
     (\<forall>f. iop_rmdir (iops fs i) = Some f \<longrightarrow> (\<forall>a b. keepsR R (f a b))) \<and>
     (\<forall>f. iop_mknod (iops fs i) = Some f \<longrightarrow> (\<forall>a b c d. keepsR R (f a b c d))) \<and>
     (\<forall>f. iop_rename (iops fs i) = Some f \<longrightarrow> (\<forall>a b c d. keepsR R (f a b c d))) \<and>
     (\<forall>f. iop_truncate (iops fs i) = Some f \<longrightarrow> (\<forall>a. keepsR R (f a))) \<and>
     (\<forall>f. sop_write_inode (sops fs i) = Some f \<longrightarrow> (\<forall>a. keepsR R (f a))) \<and>
     (\<forall>f. sop_destroy_inode (sops fs i) = Some f \<longrightarrow> (\<forall>a. keepsR R (f a))))"

definition fs_reads_keep :: "('w kernel \<Rightarrow> 'w kernel \<Rightarrow> bool) \<Rightarrow> 'w fs_ops \<Rightarrow> bool" where
  "fs_reads_keep R fs \<longleftrightarrow> (\<forall>i.
     (\<forall>f. iop_readlink (iops fs i) = Some f \<longrightarrow> (\<forall>a b. keepsR R (f a b))) \<and>
     (\<forall>f. iop_getattr (iops fs i) = Some f \<longrightarrow> (\<forall>a b. keepsR R (f a b))))"

definition fs_lookup_keeps :: "('w kernel \<Rightarrow> 'w kernel \<Rightarrow> bool) \<Rightarrow> 'w fs_ops \<Rightarrow> bool" where
  "fs_lookup_keeps R fs \<longleftrightarrow>
     (\<forall>i f. iop_lookup (iops fs i) = Some f \<longrightarrow> (\<forall>a b c d. keepsR R (f a b c d)))"

locale frame =
  fixes R :: "'w kernel \<Rightarrow> 'w kernel \<Rightarrow> bool"
  assumes R_refl: "R k k"
    and R_trans: "R k k1 \<Longrightarrow> R k1 k2 \<Longrightarrow> R k k2"
    and R_mem: "R k (k\<lparr>k_mem := bs\<rparr>)"
begin

lemma keeps_return: "keepsR R (State_Monad.return x)"
  by (simp add: keepsR_def R_refl)

lemma keeps_gets: "(\<And>k. keepsR R (g (f k))) \<Longrightarrow> keepsR R (State_Monad.bind (gets f) g)"
  by (simp add: keepsR_def)

lemma keeps_get: "keepsR R (gets f)"
  by (simp add: keepsR_def R_refl)

lemma keeps_bind:
  assumes "keepsR R m" and "\<And>x. keepsR R (g x)"
  shows "keepsR R (State_Monad.bind m g)"
proof -
  have "R k (snd (run_state (State_Monad.bind m g) k))" for k
  proof -
    obtain x k1 where m: "run_state m k = (x, k1)" by (metis surj_pair)
    have "R k k1" using assms(1) m by (metis keepsR_def snd_conv)
    moreover have "R k1 (snd (run_state (g x) k1))" using assms(2) by (simp add: keepsR_def)
    ultimately show ?thesis using m by (auto intro: R_trans)
  qed
  then show ?thesis by (simp add: keepsR_def)
qed

lemma keeps_whenS: "keepsR R m \<Longrightarrow> keepsR R (whenS c m)"
  by (simp add: keepsR_def R_refl)

lemma keeps_if: "keepsR R m \<Longrightarrow> keepsR R n \<Longrightarrow> keepsR R (if c then m else n)"
  by simp

lemma keeps_guards:
  "keepsR R m \<Longrightarrow> keepsR R (fail_if c e m)" "keepsR R m \<Longrightarrow> keepsR R (check d h m)"
  by (simp_all add: keepsR_def R_refl)

lemma keeps_op:
  "(\<And>g i. entry (iops fs i) = Some g \<Longrightarrow> keepsR R (call g)) \<Longrightarrow> keepsR R (vfs_op fs entry ino e call)"
  unfolding vfs_op_def inode_at_def by (auto intro!: keeps_gets keeps_return split: option.split)

lemma keeps_kalloc: "keepsR R kalloc"
  by (auto simp: keepsR_def kalloc_def R_refl R_mem split: list.split)

lemmas keeps_rules = keeps_return keeps_get keeps_gets keeps_whenS keeps_if keeps_guards keeps_kalloc

lemma keeps_vfs_changes:
  assumes "fs_changes_keep R fs"
  shows "keepsR R (vfs_create fs a nm mode)" "keepsR R (vfs_link fs a b nm)" "keepsR R (vfs_unlink fs a nm)"
    "keepsR R (vfs_symlink fs a nm nm')" "keepsR R (vfs_chmod fs a mode)" "keepsR R (vfs_chown fs a uid gid)"
    "keepsR R (vfs_mkdir fs a nm mode)" "keepsR R (vfs_rmdir fs a nm)" "keepsR R (vfs_mknod fs a nm mode dev)"
    "keepsR R (vfs_rename fs a nm b nm')" "keepsR R (vfs_truncate fs a)" "keepsR R (vfs_write_inode fs a)"
  unfolding vfs_create_def vfs_link_def vfs_unlink_def vfs_symlink_def vfs_chmod_def vfs_chown_def
    vfs_mkdir_def vfs_rmdir_def vfs_mknod_def vfs_rename_def vfs_truncate_def vfs_write_inode_def
    inode_sops_def sb_sops_def
  using assms unfolding fs_changes_keep_def
  by (auto intro!: keeps_guards keeps_op keeps_gets keeps_return split: option.split)

lemma keeps_vfs_reads:
  assumes "fs_reads_keep R fs"
  shows "keepsR R (vfs_readlink fs a len)" "keepsR R (vfs_getattr fs a st)"
  unfolding vfs_readlink_def vfs_getattr_def inode_at_def
  using assms unfolding fs_reads_keep_def by (auto intro!: keeps_guards keeps_op keeps_gets keeps_return)

lemma keeps_lookup: "fs_lookup_keeps R fs \<Longrightarrow> keepsR R (vfs_lookup fs dir sb nm n)"
  unfolding vfs_lookup_def fs_lookup_keeps_def by (auto intro!: keeps_guards keeps_op)

end

text \<open>Frames that do not look at inodes.\<close>

locale inode_frame = frame R for R :: "'w kernel \<Rightarrow> 'w kernel \<Rightarrow> bool" +
  assumes R_inode: "R k (upd_inode i f k)"
begin

lemma keeps_inode: "keepsR R (modify (upd_inode i f))"
  by (simp add: keepsR_def R_inode)

lemma keeps_ref: "keepsR R (vfs_ref_inode i)"
  unfolding vfs_ref_inode_def by (intro keeps_whenS keeps_inode)

lemma keeps_unref: "fs_changes_keep R fs \<Longrightarrow> keepsR R (vfs_unref_inode fs i)"
  unfolding vfs_unref_inode_def inode_at_def inode_sops_def sb_sops_def fs_changes_keep_def
  by (auto intro!: keeps_return keeps_whenS keeps_bind [OF keeps_inode] keeps_gets split: option.split)

lemma keeps_open_file:
  assumes "fs_changes_keep R fs" "fs_lookup_keeps R fs"
  shows "keepsR R (vfs_open_file fs path follow)"
proof -
  have mount: "keepsR R (check_path_mount fs dir)" for dir
    unfolding check_path_mount_def
    by (auto intro!: keeps_rules keeps_bind keeps_ref keeps_unref assms split: option.split)
  have "keepsR R (open_loop fs follow cs dir)" for cs dir
    by (induction cs arbitrary: dir)
      (auto intro!: keeps_rules keeps_bind keeps_unref keeps_lookup mount assms)
  then show ?thesis
    unfolding vfs_open_file_def open_start_def Let_def
    by (intro keeps_bind keeps_rules keeps_ref)
qed

lemma keeps_path_sep:
  assumes "fs_changes_keep R fs" "fs_lookup_keeps R fs"
  shows "keepsR R (sys_path_sep fs path)"
  unfolding sys_path_sep_def
  by (auto intro!: keeps_rules keeps_bind keeps_ref keeps_open_file assms split: option.split)

lemma keeps_on_path:
  assumes "fs_changes_keep R fs" "fs_lookup_keeps R fs" "\<And>i. keepsR R (body i)"
  shows "keepsR R (on_path fs path follow e body)"
  unfolding on_path_def
  by (auto intro!: keeps_rules keeps_bind keeps_unref keeps_open_file assms)

lemma keeps_on_parent:
  assumes "fs_changes_keep R fs" "fs_lookup_keeps R fs" "\<And>i nm. keepsR R (body i nm)"
  shows "keepsR R (on_parent fs path body)"
  unfolding on_parent_def
  by (auto intro!: keeps_rules keeps_bind keeps_unref keeps_path_sep assms split: option.split)

lemma keeps_on_new:
  assumes "fs_changes_keep R fs" "fs_lookup_keeps R fs" "\<And>i nm. keepsR R (body i nm)"
  shows "keepsR R (on_new fs path body)"
  unfolding on_new_def
  by (auto intro!: keeps_rules keeps_bind keeps_unref keeps_path_sep keeps_lookup assms split: option.split)

end

section \<open>The frames\<close>

definition same_cur :: "'w kernel \<Rightarrow> 'w kernel \<Rightarrow> bool" where
  "same_cur k k' \<longleftrightarrow> k_cur k' = k_cur k"

definition same_refs :: "'w kernel \<Rightarrow> 'w kernel \<Rightarrow> bool" where
  "same_refs k k' \<longleftrightarrow> (\<forall>i. vi_refcnt (k_inodes k' i) = vi_refcnt (k_inodes k i))"

interpretation cur: inode_frame same_cur
  by unfold_locales (simp_all add: same_cur_def)

interpretation fds: inode_frame same_fds
  by unfold_locales (auto simp: same_fds_def)

interpretation refs: frame same_refs
  by unfold_locales (simp_all add: same_refs_def)

end
