(* ===== verification/Path_Refs.thy ===== *)
theory Path_Refs
  imports Path_Frames
begin

text \<open>
  Reference counts of inodes along path walks. \<open>counts m D\<close> says by how much running \<open>m\<close> changes every
  count, as a function of its result. A filesystem's lookup hands out one new reference to the
  inode it returns and none on failure; its other functions leave the counts alone.
\<close>

section \<open>Changes of reference counts\<close>

definition countsQ :: "('a \<Rightarrow> bool) \<Rightarrow> ('w, 'a) kern \<Rightarrow> ('a \<Rightarrow> nat \<Rightarrow> u32) \<Rightarrow> bool" where
  "countsQ Q m D \<longleftrightarrow> (\<forall>k a k'. run_state m k = (a, k') \<longrightarrow> Q a \<longrightarrow>
     (\<forall>i. vi_refcnt (k_inodes k' i) = vi_refcnt (k_inodes k i) + D a i))"

abbreviation counts :: "('w, 'a) kern \<Rightarrow> ('a \<Rightarrow> nat \<Rightarrow> u32) \<Rightarrow> bool" where
  "counts \<equiv> countsQ (\<lambda>_. True)"

definition one_ref :: "nat \<Rightarrow> nat \<Rightarrow> u32" where
  "one_ref ino i = (if ino \<noteq> 0 \<and> i = ino then 1 else 0)"

text \<open>The result of an opening function: a reference to the inode on success, none on failure.\<close>

definition opened :: "int \<Rightarrow> nat \<Rightarrow> nat \<Rightarrow> u32" where
  "opened ret ino i = (if ret = 0 then one_ref ino i else 0)"

lemma opened_simps [simp]: "opened 0 ino = one_ref ino" "ret \<noteq> 0 \<Longrightarrow> opened ret ino = (\<lambda>_. 0)"
  by (simp_all add: opened_def fun_eq_iff)

lemma counts_return: "(\<And>i. Q x \<Longrightarrow> D x i = 0) \<Longrightarrow> countsQ Q (State_Monad.return x) D"
  by (simp add: countsQ_def)

lemma counts_gets: "(\<And>k. countsQ Q (g (f k)) D) \<Longrightarrow> countsQ Q (State_Monad.bind (gets f) g) D"
  by (simp add: countsQ_def)

lemma counts_bind:
  assumes "counts m D1" and "\<And>x. countsQ Q (g x) (\<lambda>b i. D b i - D1 x i)"
  shows "countsQ Q (State_Monad.bind m g) D"
  unfolding countsQ_def
proof (intro allI impI)
  fix k a k' i
  assume r: "run_state (State_Monad.bind m g) k = (a, k')" and Q: "Q a"
  obtain x k1 where m: "run_state m k = (x, k1)" by (metis surj_pair)
  then have g: "run_state (g x) k1 = (a, k')" using r by simp
  have "vi_refcnt (k_inodes k1 i) = vi_refcnt (k_inodes k i) + D1 x i"
    using assms(1) m by (simp add: countsQ_def)
  moreover have "vi_refcnt (k_inodes k' i) = vi_refcnt (k_inodes k1 i) + (D a i - D1 x i)"
    using assms(2) g Q by (simp add: countsQ_def)
  ultimately show "vi_refcnt (k_inodes k' i) = vi_refcnt (k_inodes k i) + D a i" by simp
qed

lemma counts_keeps: "keepsR same_refs m \<Longrightarrow> countsQ Q m (\<lambda>_ _. 0)"
  by (simp add: keepsR_def same_refs_def countsQ_def) (metis snd_conv)

lemma counts_bind_keeps:
  "keepsR same_refs m \<Longrightarrow> (\<And>x. countsQ Q (g x) D) \<Longrightarrow> countsQ Q (State_Monad.bind m g) D"
  by (rule counts_bind [OF counts_keeps]) simp_all

lemma counts_cong: "countsQ Q m D \<Longrightarrow> (\<And>a i. D a i = D' a i) \<Longrightarrow> countsQ Q m D'"
  by (simp add: countsQ_def)

lemma counts_if: "(c \<Longrightarrow> countsQ Q m D) \<Longrightarrow> (\<not> c \<Longrightarrow> countsQ Q n D) \<Longrightarrow> countsQ Q (if c then m else n) D"
  by simp

lemma counts_option:
  "(x = None \<Longrightarrow> countsQ Q m D) \<Longrightarrow> (\<And>v. x = Some v \<Longrightarrow> countsQ Q (n v) D) \<Longrightarrow>
    countsQ Q (case x of None \<Rightarrow> m | Some v \<Rightarrow> n v) D"
  by (simp split: option.split)

text \<open>Using what an opening function returns.\<close>

lemma counts_open:
  assumes "counts m (\<lambda>(ret, ino). opened ret ino)"
    and "\<And>ret ino. countsQ Q (g ret ino) (\<lambda>b i. D b i - opened ret ino i)"
  shows "countsQ Q (State_Monad.bind m (\<lambda>(ret, ino). g ret ino)) D"
  by (rule counts_bind [OF assms(1)]) (use assms(2) in \<open>auto simp: case_prod_beta\<close>)

lemma counts_open3:
  assumes "counts m (\<lambda>(ret, ino, nm). opened ret ino)"
    and "\<And>ret ino nm. countsQ Q (g ret ino nm) (\<lambda>b i. D b i - opened ret ino i)"
  shows "countsQ Q (State_Monad.bind m (\<lambda>(ret, ino, nm). g ret ino nm)) D"
  by (rule counts_bind [OF assms(1)]) (use assms(2) in \<open>auto simp: case_prod_beta\<close>)

text \<open>What a filesystem promises about references.\<close>

definition fs_counts :: "'w fs_ops \<Rightarrow> bool" where
  "fs_counts fs \<longleftrightarrow> fs_changes_keep same_refs fs \<and> fs_reads_keep same_refs fs \<and>
     (\<forall>i f. iop_lookup (iops fs i) = Some f \<longrightarrow>
       (\<forall>dir sb nm n. counts (f dir sb nm n) (\<lambda>(ret, ino). opened ret ino)))"

lemma fs_countsD: "fs_counts fs \<Longrightarrow> fs_changes_keep same_refs fs" "fs_counts fs \<Longrightarrow> fs_reads_keep same_refs fs"
  by (simp_all add: fs_counts_def)

lemma counts_lookup: "fs_counts fs \<Longrightarrow> counts (vfs_lookup fs dir sb nm n) (\<lambda>(ret, ino). opened ret ino)"
proof -
  assume fs: "fs_counts fs"
  have op: "counts (vfs_op fs iop_lookup dir (\<lambda>e. (e, 0)) (\<lambda>f. f dir sb nm n)) (\<lambda>(ret, ino). opened ret ino)"
    using fs unfolding vfs_op_def inode_at_def fs_counts_def
    by (auto intro!: counts_gets counts_return simp: ENOSYS_def split: option.split)
  have "counts (check (\<lambda>k. vfs_perm_check_read k (k_inodes k dir) False) (\<lambda>e. (e, 0)) m) (\<lambda>(ret, ino). opened ret ino)"
    if "counts m (\<lambda>(ret, ino). opened ret ino)" for m :: "('a, int \<times> nat) kern"
    unfolding check_def using that by (auto intro!: counts_gets counts_return)
  with op show ?thesis
    unfolding vfs_lookup_def fail_if_def
    by (auto intro!: counts_gets counts_return simp: ENOTDIR_def ELOOP_def)
qed

lemma counts_ref: "counts (vfs_ref_inode ino) (\<lambda>_. one_ref ino)"
  by (auto simp: countsQ_def vfs_ref_inode_def one_ref_def)

lemma counts_unref: "fs_counts fs \<Longrightarrow> counts (vfs_unref_inode fs ino) (\<lambda>_ i. - one_ref ino i)"
proof -
  assume fs: "fs_counts fs"
  have upd: "counts (modify (upd_inode ino (\<lambda>i. i\<lparr>vi_refcnt := vi_refcnt i - 1\<rparr>))) (\<lambda>_ i. - one_ref ino i)"
    if "ino \<noteq> 0"
    using that by (auto simp: countsQ_def one_ref_def)
  have "sop_destroy_inode (sops fs j) = Some d \<Longrightarrow> counts (whenS c (d ino)) (\<lambda>_ _. 0)" for j d c
    using fs by (intro counts_keeps refs.keeps_whenS) (auto simp: fs_counts_def fs_changes_keep_def)
  then show ?thesis
    unfolding vfs_unref_inode_def inode_at_def inode_sops_def sb_sops_def
    by (auto intro!: counts_return counts_gets counts_bind [OF upd] simp: one_ref_def split: option.split)
qed

lemmas counts_rules = counts_return counts_gets counts_if

section \<open>Path walks\<close>

lemma counts_start: "counts (open_start b) one_ref"
  unfolding open_start_def Let_def
  by (intro counts_gets counts_bind [OF counts_ref] counts_return) simp

lemma counts_mount: "fs_counts fs \<Longrightarrow> counts (check_path_mount fs dir) (\<lambda>dir' i. one_ref dir' i - one_ref dir i)"
  unfolding check_path_mount_def
  by (auto intro!: counts_rules counts_bind [OF counts_unref] counts_bind [OF counts_ref] split: option.split)

lemma counts_open_loop:
  assumes "fs_counts fs"
  shows "counts (open_loop fs follow cs dir) (\<lambda>(ret, ino) i. opened ret ino i - one_ref dir i)"
proof (induction cs arbitrary: dir)
  case (Cons c cs)
  define rest where "rest = open_loop fs follow cs"
  have IH: "counts (rest d) (\<lambda>(ret, ino) i. opened ret ino i - one_ref d i)" for d
    unfolding rest_def by (rule Cons.IH)
  have walk: "counts (State_Monad.bind (check_path_mount fs ino) (rest))
      (\<lambda>r i. opened (fst r) (snd r) i - one_ref ino i)" for ino
    by (rule counts_bind [OF counts_mount [OF assms]])
      (rule counts_cong [OF IH], simp add: case_prod_beta)
  have found: "counts (if ret \<noteq> 0 then State_Monad.return (ret, 0) else do {
          isdir \<leftarrow> gets (\<lambda>k. inode_isdir k ino);
          if cs \<noteq> [] \<and> \<not> isdir then do {
            vfs_unref_inode fs ino;
            State_Monad.return (- ENOTDIR, 0)
          }
          else State_Monad.bind (check_path_mount fs ino) (rest)
        }) (\<lambda>r i. opened (fst r) (snd r) i - opened ret ino i)" for ret ino
    by (auto intro!: counts_return counts_gets walk counts_bind [OF counts_unref [OF assms]] simp: ENOTDIR_def)
  show ?case
    unfolding open_loop.simps rest_def [symmetric]
    by (intro counts_if counts_gets counts_open [OF counts_lookup [OF assms]]
        counts_bind [OF counts_unref [OF assms]] IH counts_return counts_cong [OF found])
      (simp_all add: case_prod_beta)
qed (auto intro!: counts_return)

lemma kalloc_refs: "keepsR same_refs kalloc"
  by (rule refs.keeps_kalloc)

lemma counts_open_file:
  assumes "fs_counts fs"
  shows "counts (vfs_open_file fs path follow) (\<lambda>(ret, ino). opened ret ino)"
  unfolding vfs_open_file_def
  by (intro counts_bind_keeps [OF kalloc_refs] counts_if counts_return counts_bind [OF counts_start]
      counts_cong [OF counts_open_loop [OF assms]])
    (simp_all add: case_prod_beta ENOMEM_def)

lemma counts_path_sep:
  assumes "fs_counts fs"
  shows "counts (sys_path_sep fs path) (\<lambda>(ret, ino, nm). opened ret ino)"
proof -
  have last: "counts (do { ok \<leftarrow> kalloc; State_Monad.return (0 :: int, ino, if ok then Some n else None) })
      (\<lambda>r i. opened (fst r) (fst (snd r)) i - one_ref ino i)" for ino and n :: string
    by (intro counts_bind_keeps [OF kalloc_refs] counts_return) simp
  have dup: "keepsR same_refs (if c then kalloc else State_Monad.return True)" for c
    by (intro refs.keeps_rules)
  have walk: "counts (do {
         (if c then kalloc else State_Monad.return True);
         (ret, dir) \<leftarrow> vfs_open_file fs s 1;
         if ret \<noteq> 0 then State_Monad.return (ret, 0, None)
         else do { ok \<leftarrow> kalloc; State_Monad.return (0, dir, if ok then Some n else None) }
       }) (\<lambda>(ret, ino, nm). opened ret ino)" for c s and n :: string
    by (intro counts_bind_keeps [OF dup] counts_open [OF counts_open_file [OF assms]] counts_if counts_return
        counts_cong [OF last]) (simp_all add: case_prod_beta)
  show ?thesis
    unfolding sys_path_sep_def
    by (intro counts_bind_keeps [OF kalloc_refs] counts_if counts_option counts_return counts_gets
        counts_bind [OF counts_ref] counts_cong [OF last] walk)
      (simp_all add: case_prod_beta ENOMEM_def)
qed

section \<open>Balanced calls\<close>

text \<open>A call that returns (does not run out of memory for a name) leaves every count as it was.\<close>

definition returns :: "fault + 'a \<Rightarrow> bool" where
  "returns r \<longleftrightarrow> (\<exists>x. r = Inr x)"

lemma returns_simps [simp]: "returns (Inr x)" "\<not> returns (Inl f)"
  by (simp_all add: returns_def)

lemma counts_on_path:
  assumes "fs_counts fs" and "\<And>i. keepsR same_refs (body i)"
  shows "counts (on_path fs path follow e body) (\<lambda>_ _. 0)"
  unfolding on_path_def
  by (intro counts_open [OF counts_open_file [OF assms(1)]] counts_if counts_return
      counts_bind_keeps [OF assms(2)] counts_bind [OF counts_unref [OF assms(1)]])
    simp_all

lemma counts_name:
  "(\<And>n. nm = Some n \<Longrightarrow> countsQ returns (m n) D) \<Longrightarrow>
    countsQ returns (case nm of None \<Rightarrow> State_Monad.return (Inl f) | Some n \<Rightarrow> m n) D"
  by (auto intro!: counts_return split: option.split)

lemma counts_on_parent:
  assumes "fs_counts fs" and "\<And>i nm. keepsR same_refs (body i nm)"
  shows "countsQ returns (on_parent fs path body) (\<lambda>_ _. 0)"
  unfolding on_parent_def
  by (intro counts_open3 [OF counts_path_sep [OF assms(1)]] counts_if counts_return counts_name
      counts_bind_keeps [OF assms(2)] counts_bind [OF counts_unref [OF assms(1)]])
    simp_all

lemma counts_on_new:
  assumes "fs_counts fs" and "\<And>i nm. keepsR same_refs (body i nm)"
  shows "countsQ returns (on_new fs path body) (\<lambda>_ _. 0)"
  unfolding on_new_def
  by (intro counts_open3 [OF counts_path_sep [OF assms(1)]] counts_if counts_return counts_name counts_gets
      counts_open [OF counts_lookup [OF assms(1)]]
      counts_bind_keeps [OF assms(2)] counts_bind [OF counts_unref [OF assms(1)]])
    simp_all

lemma counts_link_named:
  assumes "fs_counts fs"
  shows "counts (link_named fs old new nm) (\<lambda>_ i. - one_ref old i - one_ref new i)"
  unfolding link_named_def
  by (intro counts_gets counts_open [OF counts_lookup [OF assms]] counts_if counts_return
      counts_bind_keeps [OF refs.keeps_vfs_changes(2) [OF fs_countsD(1) [OF assms]]]
      counts_bind [OF counts_unref [OF assms]])
    simp_all

lemma counts_link:
  assumes "fs_counts fs"
  shows "countsQ returns (sys_link fs old new) (\<lambda>_ _. 0)"
  unfolding sys_link_def
  by (intro counts_open3 [OF counts_path_sep [OF assms]] counts_open [OF counts_open_file [OF assms]]
      counts_if counts_name counts_return counts_bind [OF counts_unref [OF assms]]
      counts_bind [OF counts_link_named [OF assms]])
    simp_all

lemma counts_rename:
  assumes "fs_counts fs"
  shows "countsQ returns (sys_rename fs old new) (\<lambda>_ _. 0)"
proof -
  have ren: "countsQ returns (case (a, b) of
         (Some o', Some n') \<Rightarrow> do {
           ret \<leftarrow> vfs_rename fs i o' j n';
           vfs_unref_inode fs i;
           vfs_unref_inode fs j;
           State_Monad.return (Inr ret)
         }
       | _ \<Rightarrow> State_Monad.return (Inl Out_Of_Bounds)) (\<lambda>_ x. - one_ref i x - one_ref j x)" for a b i j
    by (auto intro!: counts_return counts_bind [OF counts_unref [OF assms]]
        counts_bind_keeps [OF refs.keeps_vfs_changes(10) [OF fs_countsD(1) [OF assms]]] split: option.split)
  show ?thesis
    unfolding sys_rename_def
    by (intro counts_open3 [OF counts_path_sep [OF assms]] counts_if counts_return counts_cong [OF ren]
        counts_bind [OF counts_unref [OF assms]])
      simp_all
qed

text \<open>The path calls, as one family; only the error code of a call that also fills a buffer is kept.\<close>

datatype path_call =
    Chmod string u32 | Chown string u16 u16 | Lchown string u16 u16 | Access string int
  | Truncate string u64 | Stat string stat64 | Lstat string stat64 | Readlink string u32
  | Unlink string | Rmdir string | Mknod string u32 u16 | Mkdir string u32 | Symlink string string
  | Link string string | Rename string string

definition ret_of :: "('a \<Rightarrow> int) \<Rightarrow> ('w, 'a) kern \<Rightarrow> ('w, fault + int) kern" where
  "ret_of f m = do { r \<leftarrow> m; State_Monad.return (Inr (f r)) }"

fun path_run :: "'w fs_ops \<Rightarrow> path_call \<Rightarrow> ('w, fault + int) kern" where
  "path_run fs (Chmod p mode) = ret_of id (sys_chmod fs p mode)"
| "path_run fs (Chown p uid gid) = ret_of id (sys_chown fs p uid gid)"
| "path_run fs (Lchown p uid gid) = ret_of id (sys_lchown fs p uid gid)"
| "path_run fs (Access p mode) = ret_of id (sys_access fs p mode)"
| "path_run fs (Truncate p len) = ret_of id (sys_truncate64 fs p len)"
| "path_run fs (Stat p st) = ret_of fst (sys_stat64 fs p st)"
| "path_run fs (Lstat p st) = ret_of fst (sys_lstat64 fs p st)"
| "path_run fs (Readlink p len) = ret_of fst (sys_readlink fs p len)"
| "path_run fs (Unlink p) = sys_unlink fs p"
| "path_run fs (Rmdir p) = sys_rmdir fs p"
| "path_run fs (Mknod p mode dev) = sys_mknod fs p mode dev"
| "path_run fs (Mkdir p mode) = sys_mkdir fs p mode"
| "path_run fs (Symlink old new) = sys_symlink fs old new"
| "path_run fs (Link old new) = sys_link fs old new"
| "path_run fs (Rename old new) = sys_rename fs old new"

lemma counts_ret_of: "counts m (\<lambda>_ _. 0) \<Longrightarrow> countsQ returns (ret_of f m) (\<lambda>_ _. 0)"
  unfolding ret_of_def by (rule counts_bind) (auto intro: counts_return)

lemma keeps_size: "keepsR same_refs (modify (upd_inode i (\<lambda>x. x\<lparr>vi_size := n\<rparr>)))"
  by (simp add: keepsR_def same_refs_def)

lemma counts_path_run:
  assumes "fs_counts fs"
  shows "countsQ returns (path_run fs c) (\<lambda>_ _. 0)"
proof -
  note ch = refs.keeps_vfs_changes [OF fs_countsD(1) [OF assms]]
  note rd = refs.keeps_vfs_reads [OF fs_countsD(2) [OF assms]]
  show ?thesis
    by (cases c)
      (auto simp: sys_chmod_def sys_chown_def sys_lchown_def sys_xchown_def sys_access_def
        sys_truncate64_def sys_stat64_def sys_lstat64_def sys_readlink_def sys_unlink_def sys_rmdir_def
        sys_mknod_def sys_mkdir_def sys_symlink_def inode_at_def
        intro!: counts_ret_of counts_on_path counts_on_parent counts_on_new counts_link counts_rename
          refs.keeps_rules refs.keeps_bind keeps_size assms ch rd)
qed

section \<open>Properties\<close>

text \<open>
  C17: a path walk is exact in its references. When \<^verbatim>\<open>vfs_open_file\<close> succeeds, the inode it returns has
  one reference more than before, and every other inode (the directories passed, the covered
  mount points) exactly as many; when it fails no count changes.
\<close>

theorem open_file_refcounts:
  assumes "fs_counts fs" and "run_state (vfs_open_file fs path follow) k = ((ret, ino), k')"
  shows "vi_refcnt (k_inodes k' i) =
    vi_refcnt (k_inodes k i) + (if ret = 0 \<and> ino \<noteq> 0 \<and> i = ino then 1 else 0)"
  using counts_open_file [OF assms(1), of path follow] assms(2)
  by (auto simp: countsQ_def opened_def one_ref_def)

text \<open>A filesystem in which every directory contains \<^verbatim>\<open>etc\<close>, inode 5, and nothing else.\<close>

definition etc_lookup :: "nat \<Rightarrow> nat \<Rightarrow> string \<Rightarrow> int \<Rightarrow> (unit, int \<times> nat) kern" where
  "etc_lookup dir sb nm n =
     (if nm = ''etc'' then do {
        modify (upd_inode 5 (\<lambda>i. i\<lparr>vi_refcnt := vi_refcnt i + 1\<rparr>));
        State_Monad.return (0, 5)
      }
      else State_Monad.return (- ENOENT, 0))"

definition etc_fs :: "unit fs_ops" where
  "etc_fs = sample_fs\<lparr>iops := (\<lambda>i. (iops sample_fs i)\<lparr>iop_lookup := Some etc_lookup,
     iop_chmod := Some (\<lambda>i mode. do { modify (upd_inode i (\<lambda>x. x\<lparr>vi_mode := mode\<rparr>)); State_Monad.return 0 })\<rparr>)\<rparr>"

lemma etc_fs_counts: "fs_counts etc_fs"
  by (auto simp: fs_counts_def fs_changes_keep_def fs_reads_keep_def etc_fs_def sample_fs_def etc_lookup_def
      countsQ_def keepsR_def same_refs_def opened_def one_ref_def ENOENT_def split: if_splits)

lemma no_mounts: "(\<And>i. mnt_point (mount_table k i) = 0) \<Longrightarrow> mount_at k dir = None"
  by (simp add: mount_at_def find_None_iff)

lemma mount_table_upd_inode [simp]: "mount_table (upd_inode i f k) = mount_table k"
  by (simp add: upd_inode_def)

lemma perm_read_frame:
  "vfs_perm_check_read (upd_inode j f k) i b = vfs_perm_check_read k i b"
  "vfs_perm_check_read k (i\<lparr>vi_refcnt := n\<rparr>) b = vfs_perm_check_read k i b"
  by (simp_all add: vfs_perm_check_read_def sys_getuid_def sys_getgid_def sys_geteuid_def sys_getegid_def
      cur_proc_def Let_def)

lemma etc_fs_facts:
  "iop_lookup (iops etc_fs j) = Some etc_lookup" "k_inodes sample_kernel j = sample_inode"
  "i \<noteq> 0 \<Longrightarrow> run_state (vfs_unref_inode etc_fs i) k = ((), upd_inode i (\<lambda>x. x\<lparr>vi_refcnt := vi_refcnt x - 1\<rparr>) k)"
  "vfs_perm_check_read sample_kernel sample_inode False = 0"
  by (simp_all add: etc_fs_def sample_fs_def sample_kernel_def vfs_unref_inode_def inode_at_def inode_sops_def
      sb_sops_def)
    (simp add: sample_inode_def sample_proc_def vfs_perm_check_read_def sys_geteuid_def sys_getegid_def
      cur_proc_def S_ISDIR_def mode_defs)

lemma etc_open: "\<exists>k'. run_state (vfs_open_file etc_fs ''/etc'' 1) sample_kernel = ((0, 5), k')"
proof -
  let ?r = "\<lambda>i. i\<lparr>vi_refcnt := vi_refcnt i + 1\<rparr>"
  have split: "split_slash ''etc'' = [''etc'']" by (simp add: split_slash_noslash)
  have mnt: "mnt_point (mount_table sample_kernel i) = 0" for i by (simp add: sample_kernel_def)
  have root: "vfs_root_inode sample_kernel = 1" "k_mem sample_kernel = []" by (simp_all add: sample_kernel_def)
  have start: "run_state (open_start True) sample_kernel = (1, upd_inode 1 ?r sample_kernel)"
    by (simp add: open_start_def vfs_ref_inode_def Let_def root no_mounts [OF mnt])
  have dir: "S_ISDIR (vi_mode sample_inode)" by (simp add: sample_inode_def S_ISDIR_def mode_defs)
  have look: "run_state (vfs_lookup etc_fs 1 sb ''etc'' 1) (upd_inode 1 ?r sample_kernel) =
      ((0, 5), upd_inode 5 ?r (upd_inode 1 ?r sample_kernel))" for sb
    by (simp add: vfs_lookup_def etc_fs_facts perm_read_frame inode_isdir_def dir MAXSYMLINKS_def etc_lookup_def)
  have "fst (run_state (open_loop etc_fs 1 [''etc''] 1) (upd_inode 1 ?r sample_kernel)) = (0, 5)"
    using look by (simp add: etc_fs_facts check_path_mount_def no_mounts mnt)
  then show ?thesis
    by (simp add: vfs_open_file_def is_absolute_def split start kalloc_def root prod_eq_iff del: open_loop.simps)
qed

theorem open_file_refcounts_witness:
  "vi_refcnt (k_inodes (snd (run_state (vfs_open_file etc_fs ''/etc'' 1) sample_kernel)) 5) = 2"
proof -
  obtain k' where "run_state (vfs_open_file etc_fs ''/etc'' 1) sample_kernel = ((0, 5), k')"
    using etc_open by blast
  from open_file_refcounts [OF etc_fs_counts this, of 5] this show ?thesis
    by (simp add: sample_kernel_def sample_inode_def)
qed

text \<open>
  C18: these path calls neither leak nor steal an inode reference: when \<^verbatim>\<open>chmod\<close>, \<^verbatim>\<open>chown\<close>, \<^verbatim>\<open>lchown\<close>,
  \<^verbatim>\<open>access\<close>, \<^verbatim>\<open>truncate64\<close>, \<^verbatim>\<open>stat64\<close>, \<^verbatim>\<open>lstat64\<close>, \<^verbatim>\<open>readlink\<close>, \<^verbatim>\<open>unlink\<close>, \<^verbatim>\<open>rmdir\<close>, \<^verbatim>\<open>mknod\<close>, \<^verbatim>\<open>mkdir\<close>,
  \<^verbatim>\<open>symlink\<close>, \<^verbatim>\<open>link\<close> or \<^verbatim>\<open>rename\<close> has returned, whether it succeeded or failed, every inode has the count
  it had, provided the lookup function of the filesystem takes exactly one reference on what it finds
  and the other functions take none. Other calls that take a path are not covered: \<^verbatim>\<open>utimes\<close> leaks a
  reference, \<^verbatim>\<open>open\<close> drops one twice on some errors and keeps one for the descriptor, and \<^verbatim>\<open>chdir\<close>
  moves one to the new working directory.
\<close>

theorem path_calls_balanced:
  assumes "fs_counts fs" and "run_state (path_run fs c) k = (Inr r, k')"
  shows "vi_refcnt (k_inodes k' i) = vi_refcnt (k_inodes k i)"
  using counts_path_run [OF assms(1), of c] assms(2) by (auto simp: countsQ_def)

theorem path_calls_balanced_witness:
  "vi_refcnt (k_inodes (snd (run_state (path_run etc_fs (Chmod ''/etc'' 0)) sample_kernel)) 5) = 1"
proof -
  obtain r k' where "run_state (sys_chmod etc_fs ''/etc'' 0) sample_kernel = (r, k')"
    by (metis surj_pair)
  then have "run_state (path_run etc_fs (Chmod ''/etc'' 0)) sample_kernel = (Inr r, k')"
    by (simp add: ret_of_def)
  from path_calls_balanced [OF etc_fs_counts this, of 5] this show ?thesis
    by (simp add: sample_kernel_def sample_inode_def)
qed

section \<open>Where the code departs from its contract\<close>

text \<open>The directory of a path with a single leading slash is taken to be the empty path, which is the
  working directory: creating or removing \<^verbatim>\<open>/x\<close> works on \<^verbatim>\<open>x\<close> in the working directory.\<close>

lemma path_sep_root_is_cwd:
  assumes "k_mem k = []" and "mount_at k (p_cwd (cur_proc k)) = None"
  shows "fst (run_state (sys_path_sep fs ''/x'') k) = (0, p_cwd (cur_proc k), Some ''x'')"
  using assms
  by (simp add: sys_path_sep_def strrchr_def vfs_open_file_def open_start_def kalloc_def is_absolute_def
      split_slash_noslash vfs_ref_inode_def Let_def)

text \<open>The permission check of \<^verbatim>\<open>utimes\<close> passes only for the superuser on the superuser's own files.\<close>

lemma utimes_denied_iff:
  "utimes_denied k ino \<longleftrightarrow> \<not> (p_euid (cur_proc k) = 0 \<and> vi_uid (k_inodes k ino) = 0)"
  by (auto simp: utimes_denied_def Let_def)

end
