(* ===== verification/Open_At.thy ===== *)
theory Open_At
  imports Path_Refs
begin

unbundle bit_operations_syntax

text \<open>
  \<^verbatim>\<open>sys_open\<close> and \<^verbatim>\<open>sys_creat\<close> of \<^verbatim>\<open>uapi/vfs.c\<close>, and \<^verbatim>\<open>uapi/relvfs.c\<close>: the calls that take a path relative
  to a directory descriptor. These run the ordinary call with \<^verbatim>\<open>p_cwd\<close> replaced and put the old
  directory back.
\<close>

section \<open>\<^verbatim>\<open>sys_open\<close>\<close>

definition VI_FLAG_NONBLOCK :: u32 where "VI_FLAG_NONBLOCK = 0x01000000"

text \<open>The file entry behind a descriptor of a process.\<close>

definition upd_fd_file :: "nat \<Rightarrow> nat \<Rightarrow> (ProcessFile \<Rightarrow> ProcessFile) \<Rightarrow> 'w kernel \<Rightarrow> 'w kernel" where
  "upd_fd_file pid fd f k =
     (case p_files (process_table k pid) fd of None \<Rightarrow> k | Some i \<Rightarrow> upd_file i f k)"

text \<open>The \<^verbatim>\<open>O_CREAT\<close> part: from the result of the first \<^verbatim>\<open>vfs_open_file\<close> to the inode to open. Each early
  return of this part frees the descriptor and returns the error, as the check after it does.\<close>

definition open_create :: "'w fs_ops \<Rightarrow> string \<Rightarrow> u32 \<Rightarrow> u32 \<Rightarrow> int \<Rightarrow> nat \<Rightarrow> ('w, fault + int \<times> nat) kern" where
  "open_create fs path flags mode ret inode =
     (if flags AND O_CREAT \<noteq> 0 \<and> flags AND O_EXCL \<noteq> 0 \<and> ret = 0 then do {
        vfs_unref_inode fs inode;
        State_Monad.return (Inr (- EEXIST, 0))
      }
      else if flags AND O_CREAT \<noteq> 0 \<and> ret = - ENOENT then do {
        (ret, dir, name) \<leftarrow> sys_path_sep fs path;
        if ret \<noteq> 0 then State_Monad.return (Inr (ret, 0))
        else case name of
          None \<Rightarrow> State_Monad.return (Inl Out_Of_Bounds)
        | Some nm \<Rightarrow> do {
            ret \<leftarrow> vfs_create fs dir nm mode;
            if ret \<noteq> 0 then do {
              vfs_unref_inode fs dir;
              State_Monad.return (Inr (ret, 0))
            }
            else do {
              sb \<leftarrow> gets (\<lambda>k. vi_sb (k_inodes k dir));
              r \<leftarrow> vfs_lookup fs dir sb nm 1;
              vfs_unref_inode fs dir;
              State_Monad.return (Inr r)
            }
          }
      }
      else State_Monad.return (Inr (ret, inode)))"

text \<open>\<^verbatim>\<open>O_TRUNC\<close> and the check for device files on a \<^verbatim>\<open>nodev\<close> mount; 0 to go on.\<close>

definition open_prepare :: "'w fs_ops \<Rightarrow> u32 \<Rightarrow> nat \<Rightarrow> ('w, int) kern" where
  "open_prepare fs flags inode = do {
     ret \<leftarrow> (if flags AND O_TRUNC \<noteq> 0 then do {
               modify (upd_inode inode (\<lambda>x. x\<lparr>vi_size := 0\<rparr>));
               vfs_truncate fs inode
             }
             else State_Monad.return 0);
     k \<leftarrow> gets id;
     let i = k_inodes k inode;
     let ret = (if ret \<noteq> 0 then ret
                else if sb_mntflags (k_sbs k (vi_sb i)) AND MS_NODEV \<noteq> 0 \<and> (S_ISBLK (vi_mode i) \<or> S_ISCHR (vi_mode i))
                then - ENXIO else 0);
     whenS (ret \<noteq> 0) (vfs_unref_inode fs inode);
     State_Monad.return ret
   }"

text \<open>The access mode: an error, or the mode to store.\<close>

definition open_mode :: "u32 \<Rightarrow> bool \<Rightarrow> int + u32" where
  "open_mode flags isdir =
     (let acc = flags AND O_ACCMODE
      in if acc = O_RDONLY then Inr O_RDONLY
         else if acc = O_WRONLY then (if isdir then Inl (- EISDIR) else Inr O_WRONLY)
         else if acc = O_RDWR then (if isdir then Inl (- EISDIR) else Inr O_RDWR)
         else Inl (- EINVAL))"

definition open_fail :: "'w fs_ops \<Rightarrow> nat \<Rightarrow> nat \<Rightarrow> int \<Rightarrow> ('w, fault + int) kern" where
  "open_fail fs pid i e = do {
     process_free_fd fs pid i;
     State_Monad.return (Inr e)
   }"

text \<open>From storing the inode in the file entry to the end.\<close>

definition open_finish :: "'w fs_ops \<Rightarrow> string \<Rightarrow> u32 \<Rightarrow> nat \<Rightarrow> nat \<Rightarrow> nat \<Rightarrow> ('w, fault + int) kern" where
  "open_finish fs path flags pid i inode = do {
     modify (upd_fd_file pid i (\<lambda>f. f\<lparr>pf_inode := inode\<rparr>));
     isdir \<leftarrow> gets (\<lambda>k. inode_isdir k inode);
     case open_mode flags isdir of
       Inl e \<Rightarrow> do {
         vfs_unref_inode fs inode;
         open_fail fs pid i e
       }
     | Inr m \<Rightarrow> do {
         sz \<leftarrow> gets (\<lambda>k. vi_size (k_inodes k inode));
         modify (upd_fd_file pid i (\<lambda>f. f\<lparr>pf_mode := m,
           pf_offset := if flags AND O_APPEND \<noteq> 0 then sz else 0\<rparr>));
         r \<leftarrow> vfs_path_resolve path;
         (case r of
            Inl f \<Rightarrow> State_Monad.return (Inl f)
          | Inr p \<Rightarrow> do {
              modify (upd_fd_file pid i (\<lambda>f. f\<lparr>pf_path := p\<rparr>));
              if p = None then do {
                vfs_unref_inode fs inode;
                open_fail fs pid i (- ENOMEM)
              }
              else do {
                whenS (flags AND O_NONBLOCK \<noteq> 0)
                  (modify (upd_inode inode (\<lambda>x. x\<lparr>vi_flags := vi_flags x OR VI_FLAG_NONBLOCK\<rparr>)));
                State_Monad.return (Inr (int i))
              }
            })
       }
   }"

definition open_body :: "'w fs_ops \<Rightarrow> string \<Rightarrow> u32 \<Rightarrow> u32 \<Rightarrow> nat \<Rightarrow> nat \<Rightarrow> ('w, fault + int) kern" where
  "open_body fs path flags mode pid i = do {
     (ret, inode) \<leftarrow> vfs_open_file fs path 1;
     r \<leftarrow> open_create fs path flags mode ret inode;
     (case r of
        Inl f \<Rightarrow> State_Monad.return (Inl f)
      | Inr (ret, inode) \<Rightarrow>
          if ret \<noteq> 0 then open_fail fs pid i ret
          else do {
            ret \<leftarrow> open_prepare fs flags inode;
            if ret \<noteq> 0 then open_fail fs pid i ret
            else open_finish fs path flags pid i inode
          })
   }"

definition sys_open :: "'w fs_ops \<Rightarrow> string \<Rightarrow> u32 \<Rightarrow> u32 \<Rightarrow> ('w, fault + int) kern" where
  "sys_open fs path flags mode0 = do {
     pid \<leftarrow> gets k_cur;
     i \<leftarrow> process_alloc_fd pid 0;
     mode \<leftarrow> gets (\<lambda>k. mode0 AND NOT (p_umask (process_table k pid)));
     if i < 0 then State_Monad.return (Inr i)
     else open_body fs path flags mode pid (nat i)
   }"

definition sys_creat :: "'w fs_ops \<Rightarrow> string \<Rightarrow> u32 \<Rightarrow> ('w, fault + int) kern" where
  "sys_creat fs path mode = sys_open fs path (O_CREAT OR O_TRUNC OR O_WRONLY) mode"

section \<open>\<^verbatim>\<open>uapi/relvfs.c\<close>\<close>

definition AT_FDCWD :: int where "AT_FDCWD = 0x100"
definition AT_SYMLINK_FOLLOW :: u32 where "AT_SYMLINK_FOLLOW = 0x200"
definition AT_SYMLINK_NOFOLLOW :: u32 where "AT_SYMLINK_NOFOLLOW = 0x400"
definition AT_EACCESS :: u32 where "AT_EACCESS = 0x800"
definition AT_REMOVEDIR :: u32 where "AT_REMOVEDIR = 0x1000"

definition set_cwd :: "nat \<Rightarrow> ('w, unit) kern" where
  "set_cwd i = set_cur (\<lambda>p. p\<lparr>p_cwd := i\<rparr>)"

text \<open>The prologue the calls share: replace the working directory by that of the descriptor. False is
  \<^verbatim>\<open>-EBADF\<close>.\<close>

definition at_enter :: "int \<Rightarrow> ('w, bool) kern" where
  "at_enter fd =
     (if fd = AT_FDCWD then State_Monad.return True
      else do {
        e \<leftarrow> gets (\<lambda>k. fd_entry k fd);
        (case e of
           None \<Rightarrow> State_Monad.return False
         | Some f \<Rightarrow> do {
             inode \<leftarrow> gets (\<lambda>k. pf_inode (process_fd_table k f));
             set_cwd inode;
             State_Monad.return True
           })
      })"

definition at_dir :: "int \<Rightarrow> (int \<Rightarrow> 'a) \<Rightarrow> ('w, 'a) kern \<Rightarrow> ('w, 'a) kern" where
  "at_dir fd e body = do {
     cwd \<leftarrow> gets (\<lambda>k. p_cwd (cur_proc k));
     ok \<leftarrow> at_enter fd;
     if \<not> ok then State_Monad.return (e (- EBADF))
     else do {
       ret \<leftarrow> body;
       set_cwd cwd;
       State_Monad.return ret
     }
   }"

text \<open>\<^verbatim>\<open>sys_openat\<close> replaces the working directory path as well.\<close>

definition sys_openat :: "'w fs_ops \<Rightarrow> int \<Rightarrow> string \<Rightarrow> u32 \<Rightarrow> u32 \<Rightarrow> ('w, fault + int) kern" where
  "sys_openat fs fd path flags mode = do {
     cwd \<leftarrow> gets (\<lambda>k. p_cwd (cur_proc k));
     cwdpath \<leftarrow> gets (\<lambda>k. p_cwdpath (cur_proc k));
     ok \<leftarrow> at_enter fd;
     if \<not> ok then State_Monad.return (Inr (- EBADF))
     else do {
       e \<leftarrow> gets (\<lambda>k. (fd_entry k fd, process_fd_table k));
       (case fst e of
          Some f \<Rightarrow> whenS (fd \<noteq> AT_FDCWD) (set_cur (\<lambda>p. p\<lparr>p_cwdpath := pf_path (snd e f)\<rparr>))
        | None \<Rightarrow> State_Monad.return ());
       ret \<leftarrow> sys_open fs path flags mode;
       set_cur (\<lambda>p. p\<lparr>p_cwd := cwd, p_cwdpath := cwdpath\<rparr>);
       State_Monad.return ret
     }
   }"

definition sys_mkdirat :: "'w fs_ops \<Rightarrow> int \<Rightarrow> string \<Rightarrow> u32 \<Rightarrow> ('w, fault + int) kern" where
  "sys_mkdirat fs fd path mode = at_dir fd Inr (sys_mkdir fs path mode)"

definition sys_mknodat :: "'w fs_ops \<Rightarrow> int \<Rightarrow> string \<Rightarrow> u32 \<Rightarrow> u16 \<Rightarrow> ('w, fault + int) kern" where
  "sys_mknodat fs fd path mode dev = at_dir fd Inr (sys_mknod fs path mode dev)"

definition at_follow :: "u32 \<Rightarrow> int" where
  "at_follow flags = (if flags AND AT_SYMLINK_NOFOLLOW \<noteq> 0 then 0 else 1)"

definition sys_fchownat :: "'w fs_ops \<Rightarrow> int \<Rightarrow> string \<Rightarrow> u16 \<Rightarrow> u16 \<Rightarrow> u32 \<Rightarrow> ('w, int) kern" where
  "sys_fchownat fs fd path uid gid flags =
     at_dir fd id (on_path fs path (at_follow flags) id (\<lambda>i. vfs_chown fs i uid gid))"

definition sys_fchmodat :: "'w fs_ops \<Rightarrow> int \<Rightarrow> string \<Rightarrow> u32 \<Rightarrow> u32 \<Rightarrow> ('w, int) kern" where
  "sys_fchmodat fs fd path mode flags =
     at_dir fd id (on_path fs path (at_follow flags) id (\<lambda>i. vfs_chmod fs i mode))"

text \<open>\<^verbatim>\<open>sys_futimesat\<close>: after the range check the body is that of \<^verbatim>\<open>sys_utimes\<close>, with the working directory put
  back on each way out.\<close>

definition sys_futimesat :: "'w fs_ops \<Rightarrow> int \<Rightarrow> string \<Rightarrow> u64 \<times> u32 \<Rightarrow> u64 \<times> u32 \<Rightarrow> ('w, int) kern" where
  "sys_futimesat fs fd path atime mtime =
     (if snd atime \<ge> 1000000 \<or> snd mtime \<ge> 1000000 then State_Monad.return (- EINVAL)
      else at_dir fd id (sys_utimes fs path atime mtime))"

definition sys_fstatat64 :: "'w fs_ops \<Rightarrow> int \<Rightarrow> string \<Rightarrow> stat64 \<Rightarrow> u32 \<Rightarrow> ('w, int \<times> stat64) kern" where
  "sys_fstatat64 fs fd path st flags = at_dir fd (\<lambda>e. (e, st))
     (if flags AND AT_SYMLINK_NOFOLLOW \<noteq> 0 then sys_lstat64 fs path st else sys_stat64 fs path st)"

definition sys_unlinkat :: "'w fs_ops \<Rightarrow> int \<Rightarrow> string \<Rightarrow> u32 \<Rightarrow> ('w, fault + int) kern" where
  "sys_unlinkat fs fd path flags = at_dir fd Inr
     (if flags AND AT_REMOVEDIR \<noteq> 0 then sys_rmdir fs path else sys_unlink fs path)"

definition sys_symlinkat :: "'w fs_ops \<Rightarrow> string \<Rightarrow> int \<Rightarrow> string \<Rightarrow> ('w, fault + int) kern" where
  "sys_symlinkat fs old fd new = at_dir fd Inr (sys_symlink fs old new)"

definition sys_readlinkat :: "'w fs_ops \<Rightarrow> int \<Rightarrow> string \<Rightarrow> u32 \<Rightarrow> ('w, int \<times> u8 list) kern" where
  "sys_readlinkat fs fd path len = at_dir fd no_buf (sys_readlink fs path len)"

text \<open>\<^verbatim>\<open>sys_renameat\<close>: both directories are entered in turn, from the same saved one.\<close>

definition sys_renameat :: "'w fs_ops \<Rightarrow> int \<Rightarrow> string \<Rightarrow> int \<Rightarrow> string \<Rightarrow> ('w, fault + int) kern" where
  "sys_renameat fs oldfd old newfd new = do {
     cwd \<leftarrow> gets (\<lambda>k. p_cwd (cur_proc k));
     ok \<leftarrow> at_enter oldfd;
     if \<not> ok then State_Monad.return (Inr (- EBADF))
     else do {
       (ret, old_inode, old_name) \<leftarrow> sys_path_sep fs old;
       if ret \<noteq> 0 then do {
         set_cwd cwd;
         State_Monad.return (Inr ret)
       }
       else do {
         ok \<leftarrow> at_enter newfd;
         if \<not> ok then do {
           vfs_unref_inode fs old_inode;
           set_cwd cwd;
           State_Monad.return (Inr (- EBADF))
         }
         else do {
           (ret, new_inode, new_name) \<leftarrow> sys_path_sep fs new;
           if ret \<noteq> 0 then do {
             vfs_unref_inode fs old_inode;
             set_cwd cwd;
             State_Monad.return (Inr ret)
           }
           else case (old_name, new_name) of
             (Some o', Some n') \<Rightarrow> do {
               ret \<leftarrow> vfs_rename fs old_inode o' new_inode n';
               vfs_unref_inode fs old_inode;
               vfs_unref_inode fs new_inode;
               set_cwd cwd;
               State_Monad.return (Inr ret)
             }
           | _ \<Rightarrow> State_Monad.return (Inl Out_Of_Bounds)
         }
       }
     }
   }"

text \<open>\<^verbatim>\<open>sys_linkat\<close>: the return of \<^verbatim>\<open>-EEXIST\<close> does not put the working directory back.\<close>

definition sys_linkat :: "'w fs_ops \<Rightarrow> int \<Rightarrow> string \<Rightarrow> int \<Rightarrow> string \<Rightarrow> u32 \<Rightarrow> ('w, fault + int) kern" where
  "sys_linkat fs oldfd old newfd new flags = do {
     cwd \<leftarrow> gets (\<lambda>k. p_cwd (cur_proc k));
     ok \<leftarrow> at_enter oldfd;
     if \<not> ok then State_Monad.return (Inr (- EBADF))
     else do {
       (ret, old_inode) \<leftarrow> vfs_open_file fs old (if flags AND AT_SYMLINK_FOLLOW \<noteq> 0 then 1 else 0);
       if ret \<noteq> 0 then do {
         set_cwd cwd;
         State_Monad.return (Inr ret)
       }
       else do {
         ok \<leftarrow> at_enter newfd;
         if \<not> ok then do {
           vfs_unref_inode fs old_inode;
           set_cwd cwd;
           State_Monad.return (Inr (- EBADF))
         }
         else do {
           (ret, new_inode, name) \<leftarrow> sys_path_sep fs new;
           if ret \<noteq> 0 then do {
             vfs_unref_inode fs old_inode;
             set_cwd cwd;
             State_Monad.return (Inr ret)
           }
           else case name of
             None \<Rightarrow> State_Monad.return (Inl Out_Of_Bounds)
           | Some nm \<Rightarrow> do {
               sb \<leftarrow> gets (\<lambda>k. vi_sb (k_inodes k new_inode));
               (ret, temp) \<leftarrow> vfs_lookup fs new_inode sb nm 0;
               if ret = 0 then do {
                 vfs_unref_inode fs old_inode;
                 vfs_unref_inode fs new_inode;
                 vfs_unref_inode fs temp;
                 State_Monad.return (Inr (- EEXIST))
               }
               else do {
                 ret \<leftarrow> vfs_link fs old_inode new_inode nm;
                 vfs_unref_inode fs old_inode;
                 vfs_unref_inode fs new_inode;
                 set_cwd cwd;
                 State_Monad.return (Inr ret)
               }
             }
         }
       }
     }
   }"

text \<open>\<^verbatim>\<open>sys_faccessat\<close>: the three permission checks return at once, without dropping the inode or putting
  the working directory back.\<close>

definition sys_faccessat :: "'w fs_ops \<Rightarrow> int \<Rightarrow> string \<Rightarrow> int \<Rightarrow> u32 \<Rightarrow> ('w, int) kern" where
  "sys_faccessat fs fd path mode flags = do {
     cwd \<leftarrow> gets (\<lambda>k. p_cwd (cur_proc k));
     ok \<leftarrow> at_enter fd;
     if \<not> ok then State_Monad.return (- EBADF)
     else do {
       (ret, inode) \<leftarrow> vfs_open_file fs path (at_follow flags);
       if ret \<noteq> 0 then do {
         set_cwd cwd;
         State_Monad.return ret
       }
       else if mode = X_OK \<or> mode = R_OK \<or> mode = W_OK then
         gets (\<lambda>k. access_check k inode mode (flags AND AT_EACCESS = 0))
       else do {
         vfs_unref_inode fs inode;
         set_cwd cwd;
         State_Monad.return (if mode = F_OK then 0 else - EINVAL)
       }
     }
   }"

definition UTIME_NOW :: u32 where "UTIME_NOW = 1000000001"
definition UTIME_OMIT :: u32 where "UTIME_OMIT = 1000000007"

definition sys_utime_ns_valid :: "u32 \<Rightarrow> bool" where
  "sys_utime_ns_valid nsec \<longleftrightarrow>
     (0 \<le> sint nsec \<and> sint nsec < 1000000000) \<or> nsec = UTIME_NOW \<or> nsec = UTIME_OMIT"

text \<open>The new value of a time stamp; \<open>now\<close> is \<^verbatim>\<open>time (NULL)\<close>.\<close>

definition utime_value :: "u64 \<Rightarrow> timespec \<Rightarrow> timespec \<Rightarrow> timespec" where
  "utime_value now t old =
     (if snd t = UTIME_NOW then (now, 0) else if snd t = UTIME_OMIT then old else t)"

text \<open>\<^verbatim>\<open>sys_utimensat\<close> for a path that is not NULL.\<close>

definition sys_utimensat :: "'w fs_ops \<Rightarrow> u64 \<Rightarrow> int \<Rightarrow> string \<Rightarrow> timespec \<Rightarrow> timespec \<Rightarrow> u32 \<Rightarrow> ('w, int) kern" where
  "sys_utimensat fs now fd path atime mtime flags =
     (if \<not> sys_utime_ns_valid (snd atime) \<or> \<not> sys_utime_ns_valid (snd mtime)
      then State_Monad.return (- EINVAL)
      else at_dir fd id (on_path fs path (at_follow flags) id (\<lambda>inode. do {
        denied \<leftarrow> gets (\<lambda>k. utimes_denied k inode);
        if (snd atime \<noteq> UTIME_OMIT \<or> snd mtime \<noteq> UTIME_OMIT) \<and> denied then State_Monad.return (- EPERM)
        else do {
          modify (upd_inode inode (\<lambda>x. x\<lparr>vi_atime := utime_value now atime (vi_atime x),
            vi_mtime := utime_value now mtime (vi_mtime x)\<rparr>));
          vfs_write_inode fs inode
        }
      })))"

section \<open>The working directory comes back\<close>

text \<open>What a filesystem has to leave alone for the calls below, for a frame.\<close>

definition fs_keeps :: "('w kernel \<Rightarrow> 'w kernel \<Rightarrow> bool) \<Rightarrow> 'w fs_ops \<Rightarrow> bool" where
  "fs_keeps R fs \<longleftrightarrow> fs_changes_keep R fs \<and> fs_reads_keep R fs \<and> fs_lookup_keeps R fs"

lemma fs_keepsD:
  assumes "fs_keeps R fs"
  shows "fs_changes_keep R fs" "fs_reads_keep R fs" "fs_lookup_keeps R fs"
  using assms by (simp_all add: fs_keeps_def)

context inode_frame begin

lemma keeps_rename:
  assumes "fs_changes_keep R fs" "fs_lookup_keeps R fs"
  shows "keepsR R (sys_rename fs old new)"
  unfolding sys_rename_def
  by (auto intro!: keeps_rules keeps_bind keeps_unref keeps_path_sep keeps_vfs_changes assms split: option.split)

lemma keeps_utimes:
  assumes "fs_changes_keep R fs" "fs_lookup_keeps R fs"
  shows "keepsR R (sys_utimes fs path a m)"
  unfolding sys_utimes_def
  by (auto intro!: keeps_rules keeps_bind keeps_inode keeps_unref keeps_open_file keeps_vfs_changes assms)

lemma keeps_path_resolve: "keepsR R (vfs_path_resolve path)"
  unfolding vfs_path_resolve_def by (auto intro!: keeps_rules keeps_bind split: option.split)

lemma keeps_open_create:
  assumes "fs_changes_keep R fs" "fs_lookup_keeps R fs"
  shows "keepsR R (open_create fs path flags mode ret inode)"
  unfolding open_create_def
  by (auto intro!: keeps_rules keeps_bind keeps_unref keeps_path_sep keeps_lookup keeps_vfs_changes assms
      split: option.split)

lemma keeps_open_prepare:
  assumes "fs_changes_keep R fs"
  shows "keepsR R (open_prepare fs flags inode)"
  unfolding open_prepare_def Let_def
  by (auto intro!: keeps_rules keeps_bind keeps_inode keeps_unref keeps_vfs_changes assms)

end

text \<open>The calls on a directory descriptor, as one family.\<close>

datatype at_call =
    Mkdirat int string u32 | Mknodat int string u32 u16 | Fchownat int string u16 u16 u32
  | Fchmodat int string u32 u32 | Futimesat int string "u64 \<times> u32" "u64 \<times> u32"
  | Fstatat int string stat64 u32 | Unlinkat int string u32 | Symlinkat string int string
  | Readlinkat int string u32 | Renameat int string int string
  | Utimensat u64 int string timespec timespec u32 | Openat int string u32 u32

fun at_run :: "'w fs_ops \<Rightarrow> at_call \<Rightarrow> ('w, fault + int) kern" where
  "at_run fs (Mkdirat fd p mode) = sys_mkdirat fs fd p mode"
| "at_run fs (Mknodat fd p mode dev) = sys_mknodat fs fd p mode dev"
| "at_run fs (Fchownat fd p uid gid flags) = ret_of id (sys_fchownat fs fd p uid gid flags)"
| "at_run fs (Fchmodat fd p mode flags) = ret_of id (sys_fchmodat fs fd p mode flags)"
| "at_run fs (Futimesat fd p a m) = ret_of id (sys_futimesat fs fd p a m)"
| "at_run fs (Fstatat fd p st flags) = ret_of fst (sys_fstatat64 fs fd p st flags)"
| "at_run fs (Unlinkat fd p flags) = sys_unlinkat fs fd p flags"
| "at_run fs (Symlinkat old fd new) = sys_symlinkat fs old fd new"
| "at_run fs (Readlinkat fd p len) = ret_of fst (sys_readlinkat fs fd p len)"
| "at_run fs (Renameat ofd old nfd new) = sys_renameat fs ofd old nfd new"
| "at_run fs (Utimensat now fd p a m flags) = ret_of id (sys_utimensat fs now fd p a m flags)"
| "at_run fs (Openat fd p flags mode) = sys_openat fs fd p flags mode"

text \<open>A computation after which the running process has this working directory.\<close>

definition ends_in :: "('a \<Rightarrow> bool) \<Rightarrow> nat \<Rightarrow> ('w, 'a) kern \<Rightarrow> bool" where
  "ends_in Q cwd m \<longleftrightarrow> (\<forall>k a k'. run_state m k = (a, k') \<longrightarrow> Q a \<longrightarrow> p_cwd (cur_proc k') = cwd)"

lemma ends_in_bind: "(\<And>x. ends_in Q cwd (g x)) \<Longrightarrow> ends_in Q cwd (State_Monad.bind m g)"
  by (simp add: ends_in_def split: prod.splits)

lemma ends_in_if: "ends_in Q cwd m \<Longrightarrow> ends_in Q cwd n \<Longrightarrow> ends_in Q cwd (if c then m else n)"
  by simp

lemma ends_in_return: "\<not> Q x \<Longrightarrow> ends_in Q cwd (State_Monad.return x)"
  by (simp add: ends_in_def)

lemma ends_in_set: "ends_in Q cwd (do { set_cwd cwd; State_Monad.return x })"
  by (simp add: ends_in_def set_cwd_def cur_proc_def upd_proc_def)

lemma at_enter_cases:
  obtains k1 where "run_state (at_enter fd) k = (True, k1)" | "run_state (at_enter fd) k = (False, k)"
  by (cases "fd = AT_FDCWD"; cases "fd_entry k fd") (simp_all add: at_enter_def set_cwd_def)

text \<open>Save the working directory, enter, and come back on every way out of the rest.\<close>

lemma at_enter_restores:
  assumes "ends_in Q (p_cwd (cur_proc k)) m"
    and "run_state (do { ok \<leftarrow> at_enter fd; if \<not> ok then State_Monad.return e else m }) k = (a, k')" and "Q a"
  shows "p_cwd (cur_proc k') = p_cwd (cur_proc k)"
  using assms by (cases rule: at_enter_cases [of fd k]) (auto simp: ends_in_def)

lemma at_dir_restores:
  assumes "run_state (at_dir fd e body) k = (a, k')"
  shows "p_cwd (cur_proc k') = p_cwd (cur_proc k)"
  using assms unfolding at_dir_def
  by (intro at_enter_restores [of "\<lambda>_. True" k _ fd "e (- EBADF)"]) (auto intro!: ends_in_bind ends_in_set)

lemma renameat_restores:
  assumes "run_state (sys_renameat fs ofd old nfd new) k = (Inr r, k')"
  shows "p_cwd (cur_proc k') = p_cwd (cur_proc k)"
  using assms unfolding sys_renameat_def
  by (intro at_enter_restores [of returns k _ ofd "Inr (- EBADF)" "Inr r"])
    (auto intro!: ends_in_bind ends_in_set ends_in_return ends_in_if split: option.split)

lemma cur_set_cwd: "keepsR same_cur (set_cwd i)"
  by (simp add: keepsR_def same_cur_def set_cwd_def)

lemma cur_enter: "keepsR same_cur (at_enter fd)"
  unfolding at_enter_def by (auto intro!: cur.keeps_rules cur.keeps_bind cur_set_cwd split: option.split)

lemma cur_at_dir: "keepsR same_cur m \<Longrightarrow> keepsR same_cur (at_dir fd e m)"
  unfolding at_dir_def by (intro cur.keeps_rules cur.keeps_bind cur_enter cur_set_cwd)

lemma cur_ret_of: "keepsR same_cur m \<Longrightarrow> keepsR same_cur (ret_of f m)"
  unfolding ret_of_def by (intro cur.keeps_bind cur.keeps_return)

lemma cur_fd:
  "keepsR same_cur (process_alloc_fd pid fd)" "keepsR same_cur (modify (upd_fd_file pid i f))"
  "keepsR same_cur (set_cur g)"
  by (auto simp: keepsR_def same_cur_def process_alloc_fd_def upd_fd_file_def set_fd_def upd_file_def
      set_next_def upd_proc_def split: option.splits)

lemma cur_free_fd: "fs_changes_keep same_cur fs \<Longrightarrow> keepsR same_cur (process_free_fd fs pid fd)"
proof -
  assume fs: "fs_changes_keep same_cur fs"
  have upd: "keepsR same_cur (modify (\<lambda>k. set_fd pid fd x (upd_file f g k)))"
    "keepsR same_cur (modify (upd_file f g))" "keepsR same_cur (modify (set_fd pid fd x))"
    "keepsR same_cur (modify (\<lambda>k. if f < process_fd_next k then set_next f k else k))" for x f g
    by (simp_all add: keepsR_def same_cur_def set_fd_def upd_file_def set_next_def upd_proc_def)
  have "keepsR same_cur (file_clear fs f)" for f
    unfolding file_clear_def
    by (auto intro!: cur.keeps_rules cur.keeps_bind cur.keeps_unref cur.keeps_whenS upd fs)
  then show ?thesis
    unfolding process_free_fd_def
    by (auto intro!: cur.keeps_rules cur.keeps_bind cur.keeps_whenS upd split: option.split)
qed

lemma cur_open:
  assumes "fs_keeps same_cur fs"
  shows "keepsR same_cur (sys_open fs path flags mode)"
proof -
  note fs = fs_keepsD [OF assms]
  have fin: "keepsR same_cur (open_finish fs path flags pid i inode)" for pid i inode
    unfolding open_finish_def open_fail_def
    by (auto intro!: cur.keeps_rules cur.keeps_bind cur.keeps_unref cur.keeps_path_resolve cur.keeps_inode
        cur.keeps_whenS cur_fd cur_free_fd fs split: sum.split)
  show ?thesis
    unfolding sys_open_def open_body_def open_fail_def
    by (auto intro!: cur.keeps_rules cur.keeps_bind cur_fd cur_free_fd cur.keeps_open_file cur.keeps_open_create
        cur.keeps_open_prepare fin fs split: sum.split)
qed

lemma cur_at_run:
  assumes "fs_keeps same_cur fs"
  shows "keepsR same_cur (at_run fs c)"
proof -
  note fs = fs_keepsD [OF assms]
  have "keepsR same_cur (sys_renameat fs ofd old nfd new)" for ofd old nfd new
    unfolding sys_renameat_def
    by (auto intro!: cur.keeps_rules cur.keeps_bind cur.keeps_unref cur.keeps_path_sep cur_enter cur_set_cwd
        cur.keeps_vfs_changes fs split: option.split)
  moreover have "keepsR same_cur (sys_openat fs fd p flags mode)" for fd p flags mode
    unfolding sys_openat_def
    by (auto intro!: cur.keeps_rules cur.keeps_bind cur.keeps_whenS cur_enter cur_fd cur_open assms split: option.split)
  ultimately show ?thesis
    by (cases c)
      (auto simp: sys_mkdirat_def sys_mknodat_def sys_fchownat_def sys_fchmodat_def sys_futimesat_def
        sys_fstatat64_def sys_unlinkat_def sys_symlinkat_def sys_readlinkat_def sys_utimensat_def
        sys_mkdir_def sys_mknod_def sys_stat64_def sys_lstat64_def sys_unlink_def sys_rmdir_def
        sys_symlink_def sys_readlink_def inode_at_def
        intro!: cur_ret_of cur_at_dir cur.keeps_on_path cur.keeps_on_parent cur.keeps_on_new cur.keeps_utimes
          cur.keeps_rules cur.keeps_bind cur.keeps_inode cur.keeps_vfs_changes cur.keeps_vfs_reads fs)
qed

lemma ret_of_run: "run_state (ret_of f m) k = (a, k') \<Longrightarrow> \<exists>b. run_state m k = (b, k')"
  by (auto simp: ret_of_def split: prod.splits)

lemma openat_restores:
  assumes "run_state (sys_openat fs fd path flags mode) k = (a, k')"
  shows "p_cwd (cur_proc k') = p_cwd (cur_proc k)"
  using assms
  by (cases rule: at_enter_cases [of fd k])
    (auto simp: sys_openat_def cur_proc_def upd_proc_def split: prod.splits option.splits)

lemma at_run_restores:
  "run_state (at_run fs c) k = (Inr r, k') \<Longrightarrow> p_cwd (cur_proc k') = p_cwd (cur_proc k)"
  by (cases c)
    (auto simp: sys_mkdirat_def sys_mknodat_def sys_fchownat_def sys_fchmodat_def sys_futimesat_def
      sys_fstatat64_def sys_unlinkat_def sys_symlinkat_def sys_readlinkat_def sys_utimensat_def
      dest!: ret_of_run dest: at_dir_restores renameat_restores openat_restores split: if_splits)

section \<open>Descriptors opened\<close>

text \<open>How a part of \<^verbatim>\<open>sys_open\<close> that holds descriptor \<open>i\<close> may end: with the descriptor released and every other
  one untouched, or with the descriptor as its result and every one untouched.\<close>

definition fd_outcome :: "nat \<Rightarrow> nat \<Rightarrow> 'w kernel \<Rightarrow> fault + int \<Rightarrow> 'w kernel \<Rightarrow> bool" where
  "fd_outcome pid i k r k' \<longleftrightarrow> fd_inv k' \<and> k_cur k' = k_cur k \<and>
     ((\<forall>p d. p_files (process_table k' p) d =
         (if p = pid \<and> d = i then None else p_files (process_table k p) d)) \<or>
      ((\<forall>n. r = Inr n \<longrightarrow> n = int i) \<and> (\<forall>p. p_files (process_table k' p) = p_files (process_table k p)) \<and>
        (\<forall>f. pf_refcnt (process_fd_table k' f) = pf_refcnt (process_fd_table k f))))"

definition fd_settled :: "nat \<Rightarrow> nat \<Rightarrow> ('w, fault + int) kern \<Rightarrow> bool" where
  "fd_settled pid i m \<longleftrightarrow> (\<forall>k r k'. fd_inv k \<longrightarrow> pid < PROCESS_LIMIT \<longrightarrow> i < PROCESS_FILE_LIMIT \<longrightarrow>
     p_files (process_table k pid) i \<noteq> None \<longrightarrow> run_state m k = (r, k') \<longrightarrow> fd_outcome pid i k r k')"

lemma fd_settledD:
  assumes "fd_settled pid i m" "fd_inv k" "pid < PROCESS_LIMIT" "i < PROCESS_FILE_LIMIT"
    "p_files (process_table k pid) i \<noteq> None" "run_state m k = (r, k')"
  shows "fd_outcome pid i k r k'"
  using assms unfolding fd_settled_def by blast

lemma fd_outcome_frame: "same_fds k k1 \<Longrightarrow> fd_outcome pid i k1 r k' \<Longrightarrow> fd_outcome pid i k r k'"
  unfolding fd_outcome_def same_fds_def by (elim conjE disjE) simp_all

lemma fd_settled_bind:
  assumes "keepsR same_fds m" and "\<And>x. fd_settled pid i (g x)"
  shows "fd_settled pid i (State_Monad.bind m g)"
  unfolding fd_settled_def
proof (intro allI impI)
  fix k r k'
  assume k: "fd_inv k" "pid < PROCESS_LIMIT" "i < PROCESS_FILE_LIMIT" "p_files (process_table k pid) i \<noteq> None"
    and run: "run_state (State_Monad.bind m g) k = (r, k')"
  obtain x k1 where m: "run_state m k = (x, k1)" by (metis surj_pair)
  have same: "same_fds k k1" using assms(1) m by (metis keepsR_def snd_conv)
  have "fd_inv k1" using same_fds_inv k(1) same by blast
  moreover have "p_files (process_table k1 pid) i \<noteq> None" using k(4) same by (simp add: same_fds_def)
  moreover have "run_state (g x) k1 = (r, k')" using run m by simp
  ultimately have "fd_outcome pid i k1 r k'" using fd_settledD [OF assms(2) _ k(2,3)] by blast
  then show "fd_outcome pid i k r k'" using fd_outcome_frame same by blast
qed

lemma fd_settled_return: "fd_settled pid i (State_Monad.return (Inr (int i)))"
  "fd_settled pid i (State_Monad.return (Inl f))"
  by (simp_all add: fd_settled_def fd_outcome_def)

lemma fd_settled_gets: "(\<And>k. fd_settled pid i (g (f k))) \<Longrightarrow> fd_settled pid i (State_Monad.bind (gets f) g)"
  by (simp add: fd_settled_def)

lemma destroy_ok: "fs_changes_keep same_fds fs \<Longrightarrow> fs_destroy_ok fs"
  by (simp add: fs_changes_keep_def fs_destroy_ok_def keepsR_def keeps_fds_def)

lemma fd_settled_fail:
  assumes "fs_changes_keep same_fds fs"
  shows "fd_settled pid i (open_fail fs pid i e)"
  unfolding fd_settled_def
proof (intro allI impI)
  fix k r k'
  assume k: "fd_inv k" "pid < PROCESS_LIMIT" "i < PROCESS_FILE_LIMIT" "p_files (process_table k pid) i \<noteq> None"
    "run_state (open_fail fs pid i e) k = (r, k')"
  obtain x where "run_state (process_free_fd fs pid i) k = (x, k')"
    using k(5) by (auto simp: open_fail_def split: prod.splits)
  from process_free_fd_spec [OF destroy_ok [OF assms] k(1,2,3) this] k(4)
  show "fd_outcome pid i k r k'" by (simp add: fd_outcome_def)
qed

lemma fds_file: "(\<And>x. pf_refcnt (f x) = pf_refcnt x) \<Longrightarrow> keepsR same_fds (modify (upd_fd_file pid i f))"
  by (auto simp: keepsR_def same_fds_def upd_fd_file_def split: option.split)

lemma fd_settled_finish:
  assumes "fs_changes_keep same_fds fs"
  shows "fd_settled pid i (open_finish fs path flags pid i inode)"
  unfolding open_finish_def
  by (auto intro!: fd_settled_gets fd_settled_bind fds_file fds.keeps_unref fds.keeps_path_resolve
      fds.keeps_whenS fds.keeps_inode fd_settled_fail fd_settled_return assms split: sum.split)

section \<open>Properties\<close>

text \<open>
  C19: the calls \<^verbatim>\<open>mkdirat\<close>, \<^verbatim>\<open>mknodat\<close>, \<^verbatim>\<open>fchownat\<close>, \<^verbatim>\<open>fchmodat\<close>, \<^verbatim>\<open>futimesat\<close>, \<^verbatim>\<open>fstatat64\<close>, \<^verbatim>\<open>unlinkat\<close>,
  \<^verbatim>\<open>symlinkat\<close>, \<^verbatim>\<open>readlinkat\<close>, \<^verbatim>\<open>renameat\<close>, \<^verbatim>\<open>utimensat\<close> and \<^verbatim>\<open>openat\<close> on a directory descriptor leave the working
  directory as it was, on success and on every error path: when the call returns, the running process is
  still the same and has the same \<^verbatim>\<open>p_cwd\<close>, provided the functions of the filesystem change neither.
  The other two calls of \<^verbatim>\<open>uapi/relvfs.c\<close>, \<^verbatim>\<open>faccessat\<close> and \<^verbatim>\<open>linkat\<close>, are not covered: they have ways out that
  do not restore it (\<open>faccessat_changes_cwd\<close>).
\<close>

theorem at_calls_restore_cwd:
  assumes "fs_keeps same_cur fs" and "run_state (at_run fs c) k = (Inr r, k')"
  shows "k_cur k' = k_cur k \<and> p_cwd (cur_proc k') = p_cwd (cur_proc k)"
  using cur_at_run [OF assms(1), of c] at_run_restores [OF assms(2)] assms(2)
  by (simp add: keepsR_def same_cur_def) (metis snd_conv)

lemma etc_fs_keeps: "fs_keeps same_cur etc_fs" "fs_keeps same_fds etc_fs"
  by (auto simp: fs_keeps_def fs_changes_keep_def fs_reads_keep_def fs_lookup_keeps_def etc_fs_def sample_fs_def
      etc_lookup_def keepsR_def same_cur_def same_fds_def)

definition at_kernel :: "unit kernel" where
  "at_kernel = upd_proc 1 (\<lambda>p. p\<lparr>p_files := (p_files p)(0 \<mapsto> 0)\<rparr>)
     (upd_file 0 (\<lambda>f. f\<lparr>pf_inode := 5, pf_refcnt := 1\<rparr>) sample_kernel)"

theorem at_calls_restore_cwd_witness:
  "p_cwd (cur_proc (snd (run_state (at_run etc_fs (Fchmodat 0 ''etc'' 0 0)) at_kernel))) = 1"
proof -
  obtain r k' where "run_state (sys_fchmodat etc_fs 0 ''etc'' 0 0) at_kernel = (r, k')"
    by (metis surj_pair)
  then have "run_state (at_run etc_fs (Fchmodat 0 ''etc'' 0 0)) at_kernel = (Inr r, k')"
    by (simp add: ret_of_def)
  moreover have "p_cwd (cur_proc at_kernel) = 1"
    by (simp add: at_kernel_def cur_proc_def sample_kernel_def sample_proc_def upd_proc_def upd_file_def)
  ultimately show ?thesis
    using at_calls_restore_cwd [OF etc_fs_keeps(1), of "Fchmodat 0 ''etc'' 0 0" at_kernel r k'] by simp
qed

text \<open>
  C20: \<^verbatim>\<open>open\<close> never leaks a descriptor. Whatever the path, the flags and the filesystem do, either the call
  leaves every descriptor of every process as it was, or it returns a descriptor that was free
  before, now refers to an open file of its own, and no other descriptor has changed; the file
  table stays consistent. When the call ends in a fault (the resolved path can overrun its buffer) the same
  holds of the state at the fault, without a returned descriptor.
\<close>

theorem open_descriptor_settled:
  assumes fs: "fs_keeps same_fds fs" and inv: "fd_inv k"
    and run: "run_state (sys_open fs path flags mode) k = (r, k')"
  shows "fd_inv k' \<and> k_cur k' = k_cur k \<and>
    ((\<forall>p. p_files (process_table k' p) = p_files (process_table k p)) \<or>
     (\<exists>i f. (\<forall>n. r = Inr n \<longrightarrow> n = int i) \<and> i < PROCESS_FILE_LIMIT \<and> p_files (cur_proc k) i = None \<and>
        p_files (cur_proc k') = (p_files (cur_proc k))(i \<mapsto> f) \<and>
        pf_refcnt (process_fd_table k f) = 0 \<and> pf_refcnt (process_fd_table k' f) = 1 \<and>
        (\<forall>p. p \<noteq> k_cur k \<longrightarrow> p_files (process_table k' p) = p_files (process_table k p))))"
proof -
  let ?pid = "k_cur k"
  have pid: "?pid < PROCESS_LIMIT" by (rule fd_invD(5) [OF inv])
  obtain a k1 where a: "run_state (process_alloc_fd ?pid 0) k = (a, k1)" by (metis surj_pair)
  note spec = process_alloc_fd_spec [OF inv pid a]
  show ?thesis
  proof (cases "a < 0")
    case True
    then have "k' = k1" "k1 = k" using run a spec by (auto simp: sys_open_def ENFILE_def EMFILE_def)
    then show ?thesis using inv by simp
  next
    case False
    then obtain i f where i: "a = int i" "i < PROCESS_FILE_LIMIT" "p_files (process_table k ?pid) i = None"
      "pf_refcnt (process_fd_table k f) = 0"
      "k1 = set_next (Suc f) (upd_file f (\<lambda>e. e\<lparr>pf_refcnt := 1\<rparr>) (set_fd ?pid i (Some f) k))"
      using spec by (auto simp: ENFILE_def EMFILE_def)
    have inv1: "fd_inv k1" using spec by blast
    note keep = fs_keepsD [OF fs]
    have settled: "fd_settled ?pid i (open_body fs path flags m ?pid i)" for m
      unfolding open_body_def
      by (auto intro!: fd_settled_bind fds.keeps_open_file fds.keeps_open_create fds.keeps_open_prepare
          fd_settled_return fd_settled_fail fd_settled_finish keep split: sum.split)
    obtain m where "run_state (open_body fs path flags m ?pid i) k1 = (r, k')"
      using run a i(1) by (simp add: sys_open_def open_body_def)
    moreover have k1: "p_files (process_table k1 p) d =
        (if p = ?pid \<and> d = i then Some f else p_files (process_table k p) d)" for p d
      using i(5) by simp
    ultimately have post: "fd_outcome ?pid i k1 r k'"
      using fd_settledD [OF settled inv1 pid i(2)] by simp
    have cur: "k_cur k1 = ?pid" "pf_refcnt (process_fd_table k1 f) = 1" using i(5) by simp_all
    from post [unfolded fd_outcome_def] show ?thesis
    proof (elim conjE disjE)
      assume "fd_inv k'" "k_cur k' = k_cur k1"
        and "\<forall>p d. p_files (process_table k' p) d =
           (if p = ?pid \<and> d = i then None else p_files (process_table k1 p) d)"
      then show ?thesis using k1 i(3) cur by (auto simp: fun_eq_iff)
    next
      assume "fd_inv k'" "k_cur k' = k_cur k1" "\<forall>n. r = Inr n \<longrightarrow> n = int i"
        "\<forall>p. p_files (process_table k' p) = p_files (process_table k1 p)"
        "\<forall>f. pf_refcnt (process_fd_table k' f) = pf_refcnt (process_fd_table k1 f)"
      moreover have "p_files (process_table k1 ?pid) = (p_files (process_table k ?pid))(i \<mapsto> f)"
        "p \<noteq> ?pid \<Longrightarrow> p_files (process_table k1 p) = p_files (process_table k p)" for p
        using k1 by (auto simp: fun_eq_iff)
      ultimately show ?thesis using i(2,3,4) cur by (auto simp: cur_proc_def)
    qed
  qed
qed

lemma alloc_fd_mem: "run_state (process_alloc_fd pid fd) k = (a, k1) \<Longrightarrow> k_mem k1 = k_mem k"
  by (auto simp: process_alloc_fd_def set_fd_def upd_file_def set_next_def upd_proc_def split: option.splits)

theorem open_descriptor_settled_witness:
  "fd_inv (snd (run_state (sys_open etc_fs ''etc'' 0 0) sample_kernel))"
proof -
  obtain r k' where run: "run_state (sys_open etc_fs ''etc'' 0 0) sample_kernel = (r, k')"
    by (metis surj_pair)
  from open_descriptor_settled [OF etc_fs_keeps(2) sample_kernel_inv run] run show ?thesis by simp
qed

section \<open>Where the code departs from its contract\<close>

text \<open>\<^verbatim>\<open>sys_faccessat\<close> on a directory descriptor leaves the working directory changed.\<close>

lemma faccessat_changes_cwd:
  assumes "k_mem k = []" and "fd \<noteq> AT_FDCWD" and "fd_entry k fd = Some f"
    and "pf_inode (process_fd_table k f) = d" "\<And>k. mount_at k d = None"
  shows "p_cwd (cur_proc (snd (run_state (sys_faccessat fs fd ''.'' R_OK 0) k))) = d"
proof -
  have "split_slash ''.'' = [''.'']" by (simp add: split_slash_noslash)
  then show ?thesis using assms
    by (simp add: sys_faccessat_def at_enter_def set_cwd_def vfs_open_file_def kalloc_def is_absolute_def
        open_start_def Let_def vfs_ref_inode_def R_OK_def X_OK_def W_OK_def cur_proc_def upd_proc_def upd_inode_def)
qed

text \<open>A failing \<^verbatim>\<open>open\<close> for writing of a directory drops the inode's reference and then, through the file
  entry, a second one that it never took.\<close>

lemma open_isdir_drops_two:
  assumes "p_files (process_table k pid) i = Some f" "pf_refcnt (process_fd_table k f) = 1" "inode \<noteq> 0"
    and "open_mode flags (inode_isdir k inode) = Inl e" and "\<And>j. sop_destroy_inode (sops fs j) = None"
  shows "vi_refcnt (k_inodes (snd (run_state (open_finish fs path flags pid i inode) k)) inode) =
    vi_refcnt (k_inodes k inode) - 2"
proof -
  have unref: "run_state (vfs_unref_inode fs inode) k = ((), upd_inode inode (\<lambda>x. x\<lparr>vi_refcnt := vi_refcnt x - 1\<rparr>) k)" for k
    using assms(3,5) by (simp add: vfs_unref_inode_def inode_at_def inode_sops_def sb_sops_def)
  have dir: "inode_isdir (upd_file f h k) inode = inode_isdir k inode" for h by (simp add: inode_isdir_def)
  show ?thesis using assms(1,2,4)
    by (simp add: open_finish_def open_fail_def process_free_fd_def file_clear_def upd_fd_file_def unref dir set_next_def)
qed

end
