(* ===== verification/Pipes.thy ===== *)
theory Pipes
  imports Files Signals
begin

unbundle bit_operations_syntax

text \<open>
  \<^verbatim>\<open>fs/pipe.c\<close> and \<^verbatim>\<open>sys_pipe\<close> of \<^verbatim>\<open>uapi/misc.c\<close>. A pipe is a flat buffer with a read and a write offset. The two
  functions busy-wait for the other end; here they are one look at the pipe, whose result may be
  that the caller has to look again. Copies outside the buffer are faults. Offsets and lengths are
  32-bit words and their sums wrap.
\<close>

section \<open>The pipe\<close>

definition PIPE_BLKSIZE :: nat where "PIPE_BLKSIZE = 4096"
definition PIPE_BLOCKS :: nat where "PIPE_BLOCKS = 4"
definition PIPE_LENGTH :: nat where "PIPE_LENGTH = PIPE_BLKSIZE * PIPE_BLOCKS"
definition PIPE_WRITE_END :: u32 where "PIPE_WRITE_END = 1"
definition PIPE_READ_CLOSED :: u32 where "PIPE_READ_CLOSED = 1"
definition PIPE_WRITE_CLOSED :: u32 where "PIPE_WRITE_CLOSED = 2"
definition PIPE_DATA_END :: u32 where "PIPE_DATA_END = 4"

record Pipe =
  p_readptr :: u32
  p_writeptr :: u32
  p_data :: "u8 list"
  p_flags :: u32

definition pipe_flag :: "Pipe \<Rightarrow> u32 \<Rightarrow> bool" where
  "pipe_flag p f \<longleftrightarrow> p_flags p AND f \<noteq> 0"

definition set_pipe_flag :: "u32 \<Rightarrow> Pipe \<Rightarrow> Pipe" where
  "set_pipe_flag f p = p\<lparr>p_flags := p_flags p OR f\<rparr>"

text \<open>The last two statements of \<^verbatim>\<open>pipe_read\<close>.\<close>

definition pipe_take :: "Pipe \<Rightarrow> u32 \<Rightarrow> (u8 list \<times> Pipe) exec" where
  "pipe_take p len =
     (if unat (p_readptr p) + unat len \<le> length (p_data p)
      then Inr (take (unat len) (drop (unat (p_readptr p)) (p_data p)), p\<lparr>p_readptr := p_readptr p + len\<rparr>)
      else Inl Out_Of_Bounds)"

datatype read_result = Got "u8 list" Pipe | Read_Again

definition pipe_read :: "Pipe \<Rightarrow> u32 \<Rightarrow> read_result exec" where
  "pipe_read p len =
     (if pipe_flag p PIPE_DATA_END then Inr (Got [] p)
      else if p_readptr p + len > p_writeptr p then
        if pipe_flag p PIPE_WRITE_CLOSED
        then bindE (pipe_take (set_pipe_flag PIPE_DATA_END p) (p_writeptr p - p_readptr p)) (\<lambda>(bs, q). Inr (Got bs q))
        else Inr Read_Again
      else bindE (pipe_take p len) (\<lambda>(bs, q). Inr (Got bs q)))"

text \<open>\<^verbatim>\<open>memmove\<close> of the unread part to the front, and the last two statements of \<^verbatim>\<open>pipe_write\<close>.\<close>

definition pipe_compact :: "Pipe \<Rightarrow> Pipe exec" where
  "pipe_compact p =
     (let r = unat (p_readptr p)
      in if r \<le> PIPE_LENGTH \<and> PIPE_LENGTH \<le> length (p_data p)
         then Inr (p\<lparr>p_data := take (PIPE_LENGTH - r) (drop r (p_data p)) @ drop (PIPE_LENGTH - r) (p_data p),
                     p_writeptr := p_writeptr p - p_readptr p, p_readptr := 0\<rparr>)
         else Inl Out_Of_Bounds)"

definition pipe_put :: "Pipe \<Rightarrow> u8 list \<Rightarrow> Pipe exec" where
  "pipe_put p buf =
     (let w = unat (p_writeptr p)
      in if w + length buf \<le> length (p_data p)
         then Inr (p\<lparr>p_data := take w (p_data p) @ buf @ drop (w + length buf) (p_data p),
                     p_writeptr := p_writeptr p + of_nat (length buf)\<rparr>)
         else Inl Out_Of_Bounds)"

datatype write_result = Put Pipe | Write_Again | Broken

definition pipe_write :: "Pipe \<Rightarrow> u8 list \<Rightarrow> write_result exec" where
  "pipe_write p buf =
     (if pipe_flag p PIPE_READ_CLOSED then Inr Broken
      else if p_writeptr p + of_nat (length buf) > of_nat PIPE_LENGTH then
        if p_readptr p < of_nat PIPE_LENGTH - p_writeptr p then Inr Write_Again
        else bindE (pipe_compact p) (\<lambda>q. bindE (pipe_put q buf) (\<lambda>q'. Inr (Put q')))
      else bindE (pipe_put p buf) (\<lambda>q. Inr (Put q)))"

text \<open>The exit of \<^verbatim>\<open>pipe_write\<close> on a pipe that nobody reads; when \<^verbatim>\<open>SIGPIPE\<close> terminates the writer the call does
  not come back with the error (\<open>send_returns\<close>).\<close>

definition EPIPE :: int where "EPIPE = 32"

definition pipe_broken :: "('w, int) kern" where
  "pipe_broken = do {
     pid \<leftarrow> gets k_cur;
     modify (process_send_signal pid SIGPIPE);
     State_Monad.return (- EPIPE)
   }"

text \<open>\<^verbatim>\<open>pipe_destroy_inode\<close>; the second component says that the pipe is freed.\<close>

definition pipe_destroy_inode :: "bool \<Rightarrow> Pipe \<Rightarrow> Pipe \<times> bool" where
  "pipe_destroy_inode write_end p =
     (let q = set_pipe_flag (if write_end then PIPE_WRITE_CLOSED else PIPE_READ_CLOSED) p
      in (q, pipe_flag q PIPE_READ_CLOSED \<and> pipe_flag q PIPE_WRITE_CLOSED))"

text \<open>\<^verbatim>\<open>pipe_alloc_inode\<close>: \<open>addr\<close> is the address \<^verbatim>\<open>kzalloc\<close> returned (0 is NULL), \<open>now\<close> the time and \<open>ops\<close> the
  number of \<^verbatim>\<open>pipe_iops\<close> in the operation tables.\<close>

definition pipe_alloc_inode :: "nat \<Rightarrow> u64 \<Rightarrow> nat \<Rightarrow> nat \<Rightarrow> ('w, nat) kern" where
  "pipe_alloc_inode addr now ops sb =
     (if addr = 0 then State_Monad.return 0
      else do {
        modify (upd_inode addr (\<lambda>_. \<lparr>vi_uid = 0, vi_gid = 0, vi_ino = 0, vi_nlink = 0, vi_rdev = 0, vi_size = 0,
          vi_mode = S_IFIFO OR 0x1c0 OR 0x38 OR 7, vi_atime = (now, 0), vi_mtime = (now, 0), vi_ctime = (now, 0),
          vi_blocks = of_nat PIPE_BLOCKS, vi_flags = 0, vi_ops = ops, vi_sb = sb, vi_refcnt = 0\<rparr>));
        State_Monad.return addr
      })"

definition pipe_getattr :: "stat64 \<Rightarrow> int \<times> stat64" where
  "pipe_getattr st = (0, st\<lparr>st_dev := 0, st_blksize := of_nat PIPE_BLKSIZE\<rparr>)"

section \<open>\<^verbatim>\<open>sys_pipe\<close>\<close>

definition fill_pipe_fd :: "nat \<Rightarrow> nat \<Rightarrow> nat \<Rightarrow> u32 \<Rightarrow> ('w, bool) kern" where
  "fill_pipe_fd pid fd inode mode = do {
     files \<leftarrow> gets (\<lambda>k. p_files (process_table k pid));
     case files fd of
       None \<Rightarrow> State_Monad.return False
     | Some f \<Rightarrow> do {
         modify (upd_file f (\<lambda>e. e\<lparr>pf_inode := inode, pf_path := None, pf_mode := mode, pf_offset := 0\<rparr>));
         State_Monad.return True
       }
   }"

definition pipe_err :: "'w fs_ops \<Rightarrow> nat \<Rightarrow> nat \<Rightarrow> int \<Rightarrow> ('w, fault + int \<times> int \<times> int) kern" where
  "pipe_err fs r w e = do {
     vfs_unref_inode fs r;
     vfs_unref_inode fs w;
     State_Monad.return (Inr (e, 0, 0))
   }"

text \<open>
  The result and the two descriptors. When the second descriptor cannot be allocated the first is
  freed and control falls through to the part that fills both entries, which then goes through a
  NULL pointer (\<open>Inl\<close>). The pipe structure itself is not part of the kernel state.
\<close>

definition sys_pipe :: "'w fs_ops \<Rightarrow> nat \<Rightarrow> ('w, fault + int \<times> int \<times> int) kern" where
  "sys_pipe fs pipe_sb = do {
     pid \<leftarrow> gets k_cur;
     r \<leftarrow> vfs_alloc_inode fs pipe_sb;
     w \<leftarrow> vfs_alloc_inode fs pipe_sb;
     ok \<leftarrow> kalloc;
     if r = 0 \<or> w = 0 \<or> \<not> ok then pipe_err fs r w (- ENOMEM)
     else do {
       modify (upd_inode w (\<lambda>i. i\<lparr>vi_flags := vi_flags i OR PIPE_WRITE_END\<rparr>));
       ok \<leftarrow> kalloc;
       if \<not> ok then pipe_err fs r w (- ENOMEM)
       else do {
         read_fd \<leftarrow> process_alloc_fd pid 0;
         if read_fd < 0 then pipe_err fs r w (- ENFILE)
         else do {
           write_fd \<leftarrow> process_alloc_fd pid 0;
           if write_fd < 0 then do {
             process_free_fd fs pid (nat read_fd);
             State_Monad.return (Inl Out_Of_Bounds)
           }
           else do {
             ok1 \<leftarrow> fill_pipe_fd pid (nat read_fd) r O_RDONLY;
             ok2 \<leftarrow> fill_pipe_fd pid (nat write_fd) w O_WRONLY;
             State_Monad.return (if ok1 \<and> ok2 then Inr (0, read_fd, write_fd) else Inl Out_Of_Bounds)
           }
         }
       }
     }
   }"

section \<open>A pipe in use\<close>

text \<open>
  The bytes in the pipe, and the invariant. A run of the two ends: the state is the pipe and the
  histories of what was written and what was read. A write that finds no room for its bytes even
  after the unread ones are moved to the front is left out, and so are read lengths of 2 GiB and more.
\<close>

definition pipe_contents :: "Pipe \<Rightarrow> u8 list" where
  "pipe_contents p = take (unat (p_writeptr p) - unat (p_readptr p)) (drop (unat (p_readptr p)) (p_data p))"

definition pipe_inv :: "Pipe \<Rightarrow> bool" where
  "pipe_inv p \<longleftrightarrow> p_readptr p \<le> p_writeptr p \<and> unat (p_writeptr p) \<le> PIPE_LENGTH \<and> length (p_data p) = PIPE_LENGTH"

definition pipe_fits :: "Pipe \<Rightarrow> u8 list \<Rightarrow> bool" where
  "pipe_fits p buf \<longleftrightarrow> unat (p_writeptr p) - unat (p_readptr p) + length buf \<le> PIPE_LENGTH"

definition new_pipe :: "u8 list \<Rightarrow> Pipe" where
  "new_pipe junk = \<lparr>p_readptr = 0, p_writeptr = 0, p_data = junk, p_flags = 0\<rparr>"

inductive pipe_run :: "Pipe \<Rightarrow> u8 list \<Rightarrow> u8 list \<Rightarrow> bool" where
  new: "length junk = PIPE_LENGTH \<Longrightarrow> pipe_run (new_pipe junk) [] []"
| get: "pipe_run p sent got \<Longrightarrow> unat len + PIPE_LENGTH < 2 ^ 32 \<Longrightarrow> pipe_read p len = Inr (Got bs q) \<Longrightarrow>
    pipe_run q sent (got @ bs)"
| put: "pipe_run p sent got \<Longrightarrow> \<not> pipe_flag p PIPE_WRITE_CLOSED \<Longrightarrow> pipe_fits p buf \<Longrightarrow>
    pipe_write p buf = Inr (Put q) \<Longrightarrow> pipe_run q (sent @ buf) got"
| destroy: "pipe_run p sent got \<Longrightarrow> pipe_run (fst (pipe_destroy_inode e p)) sent got"

section \<open>Reading and writing\<close>

lemma PIPE_LENGTH_val: "PIPE_LENGTH = 16384"
  by (simp add: PIPE_LENGTH_def PIPE_BLKSIZE_def PIPE_BLOCKS_def)

lemma set_pipe_flag_simps [simp]:
  "p_readptr (set_pipe_flag f p) = p_readptr p" "p_writeptr (set_pipe_flag f p) = p_writeptr p"
  "p_data (set_pipe_flag f p) = p_data p" "pipe_inv (set_pipe_flag f p) = pipe_inv p"
  "pipe_contents (set_pipe_flag f p) = pipe_contents p"
  by (simp_all add: set_pipe_flag_def pipe_inv_def pipe_contents_def)

lemma pipe_invD:
  assumes "pipe_inv p"
  shows "unat (p_readptr p) \<le> unat (p_writeptr p)" "unat (p_writeptr p) \<le> 16384" "length (p_data p) = 16384"
  using assms by (simp_all add: pipe_inv_def PIPE_LENGTH_val word_le_nat_alt)

lemma pipe_take_spec:
  assumes inv: "pipe_inv p" and len: "unat (p_readptr p) + unat len \<le> unat (p_writeptr p)"
  shows "\<exists>bs q. pipe_take p len = Inr (bs, q) \<and> pipe_inv q \<and> pipe_contents p = bs @ pipe_contents q \<and>
    length bs = unat len \<and> p_flags q = p_flags p"
proof -
  note b = pipe_invD [OF inv]
  let ?r = "unat (p_readptr p)" and ?w = "unat (p_writeptr p)" and ?n = "unat len"
  let ?q = "p\<lparr>p_readptr := p_readptr p + len\<rparr>"
  have r: "unat (p_readptr p + len) = ?r + ?n" using b len by (intro unat_plus_no_wrap) simp
  have "take (?w - ?r) (drop ?r (p_data p)) = take ?n (drop ?r (p_data p)) @ take (?w - ?r - ?n) (drop (?r + ?n) (p_data p))"
    using len take_add [of ?n "?w - ?r - ?n" "drop ?r (p_data p)"] by (simp add: add.commute)
  then have "pipe_contents p = take ?n (drop ?r (p_data p)) @ pipe_contents ?q"
    by (simp add: pipe_contents_def r)
  moreover have "pipe_inv ?q"
    using inv len by (simp add: pipe_inv_def word_le_nat_alt r)
  moreover have "pipe_take p len = Inr (take ?n (drop ?r (p_data p)), ?q)"
    using b len by (simp add: pipe_take_def)
  ultimately show ?thesis using b len by simp
qed

lemma length_contents: "pipe_inv p \<Longrightarrow> length (pipe_contents p) = unat (p_writeptr p) - unat (p_readptr p)"
  using pipe_invD [of p] by (simp add: pipe_contents_def)

lemma pipe_flag_set [simp]: "pipe_flag (set_pipe_flag f p) g = (pipe_flag p g \<or> f AND g \<noteq> 0)"
proof -
  have "(p_flags p OR f) AND g = (p_flags p AND g) OR (f AND g)"
    by (rule bit_eqI) (auto simp: bit_simps)
  moreover have "(a OR b = 0) = (a = 0 \<and> b = 0)" for a b :: u32
    by (rule or_eq_0_iff)
  ultimately show ?thesis by (simp add: pipe_flag_def set_pipe_flag_def)
qed

text \<open>The end of the data is only marked once the writer has closed and everything was read.\<close>

definition end_ok :: "Pipe \<Rightarrow> bool" where
  "end_ok p \<longleftrightarrow> (pipe_flag p PIPE_DATA_END \<longrightarrow> pipe_flag p PIPE_WRITE_CLOSED \<and> pipe_contents p = [])"

lemma end_ok_cong: "p_flags q = p_flags p \<Longrightarrow> \<not> pipe_flag p PIPE_DATA_END \<Longrightarrow> end_ok q"
  by (simp add: end_ok_def pipe_flag_def)

lemma pipe_read_spec:
  assumes inv: "pipe_inv p" and len: "unat len + PIPE_LENGTH < 2 ^ 32"
  shows "\<exists>res. pipe_read p len = Inr res \<and> (case res of
      Got bs q \<Rightarrow> pipe_inv q \<and> pipe_contents p = bs @ pipe_contents q \<and>
        (end_ok p \<longrightarrow> end_ok q) \<and> (length bs = unat len \<or> pipe_flag q PIPE_DATA_END)
    | Read_Again \<Rightarrow> \<not> pipe_flag p PIPE_WRITE_CLOSED \<and> length (pipe_contents p) < unat len)"
proof -
  note b = pipe_invD [OF inv]
  have sum: "unat (p_readptr p + len) = unat (p_readptr p) + unat len"
    using b len by (intro unat_plus_no_wrap) (simp add: PIPE_LENGTH_val)
  show ?thesis
  proof (cases "pipe_flag p PIPE_DATA_END")
    case True
    then show ?thesis using inv by (simp add: pipe_read_def)
  next
    case go: False
    show ?thesis
    proof (cases "p_readptr p + len > p_writeptr p")
      case more: True
      show ?thesis
      proof (cases "pipe_flag p PIPE_WRITE_CLOSED")
        case True
        let ?p = "set_pipe_flag PIPE_DATA_END p" and ?n = "p_writeptr p - p_readptr p"
        have n: "unat ?n = unat (p_writeptr p) - unat (p_readptr p)"
          using b(1) by (simp add: unat_sub word_le_nat_alt)
        obtain bs q where q: "pipe_take ?p ?n = Inr (bs, q)" "pipe_inv q" "pipe_contents ?p = bs @ pipe_contents q"
          "length bs = unat ?n" "p_flags q = p_flags ?p"
          using pipe_take_spec [of ?p ?n] inv b(1) n by auto
        have "pipe_contents q = []" using q(3,4) n length_contents [OF inv] by simp
        moreover have "pipe_flag q f = pipe_flag ?p f" for f using q(5) by (simp add: pipe_flag_def)
        then have "pipe_flag q PIPE_DATA_END" "pipe_flag q PIPE_WRITE_CLOSED"
          using True by (simp_all add: PIPE_DATA_END_def)
        ultimately show ?thesis using go more True q by (simp add: pipe_read_def end_ok_def)
      next
        case False
        have "length (pipe_contents p) < unat len"
          using more sum length_contents [OF inv] b(1) by (simp add: word_less_nat_alt)
        then show ?thesis using go more False by (simp add: pipe_read_def)
      qed
    next
      case enough: False
      then have "unat (p_readptr p) + unat len \<le> unat (p_writeptr p)"
        using sum by (simp add: word_less_nat_alt not_less)
      from pipe_take_spec [OF inv this] show ?thesis using go enough by (auto simp: pipe_read_def intro: end_ok_cong)
    qed
  qed
qed

lemma pipe_put_spec:
  assumes inv: "pipe_inv p" and fits: "unat (p_writeptr p) + length buf \<le> PIPE_LENGTH"
  shows "\<exists>q. pipe_put p buf = Inr q \<and> pipe_inv q \<and> pipe_contents q = pipe_contents p @ buf \<and> p_flags q = p_flags p"
proof -
  note b = pipe_invD [OF inv]
  let ?r = "unat (p_readptr p)" and ?w = "unat (p_writeptr p)" and ?n = "length buf"
  have w: "unat (p_writeptr p + of_nat ?n) = ?w + ?n"
    using fits by (simp add: PIPE_LENGTH_val unat_word_ariths unat_of_nat take_bit_nat_eq_self)
  let ?d = "take ?w (p_data p) @ buf @ drop (?w + ?n) (p_data p)"
  let ?q = "p\<lparr>p_data := ?d, p_writeptr := p_writeptr p + of_nat ?n\<rparr>"
  have len: "length ?d = 16384" using b fits by (simp add: PIPE_LENGTH_val)
  have "drop ?r ?d = take (?w - ?r) (drop ?r (p_data p)) @ buf @ drop (?w + ?n) (p_data p)"
    using b by (simp add: drop_take)
  moreover have "length (take (?w - ?r) (drop ?r (p_data p))) = ?w - ?r" using b by simp
  ultimately have "pipe_contents ?q = pipe_contents p @ buf"
    using b(1) by (simp add: pipe_contents_def w)
  moreover have "pipe_inv ?q"
    using b fits len by (simp add: pipe_inv_def word_le_nat_alt w PIPE_LENGTH_val)
  moreover have "pipe_put p buf = Inr ?q"
    using b fits by (simp add: pipe_put_def Let_def PIPE_LENGTH_val)
  ultimately show ?thesis by simp
qed

lemma pipe_compact_spec:
  assumes inv: "pipe_inv p"
  shows "\<exists>q. pipe_compact p = Inr q \<and> pipe_inv q \<and> pipe_contents q = pipe_contents p \<and> p_flags q = p_flags p \<and>
    unat (p_writeptr q) = unat (p_writeptr p) - unat (p_readptr p)"
proof -
  note b = pipe_invD [OF inv]
  let ?r = "unat (p_readptr p)" and ?w = "unat (p_writeptr p)"
  let ?d = "take (16384 - ?r) (drop ?r (p_data p)) @ drop (16384 - ?r) (p_data p)"
  let ?q = "p\<lparr>p_data := ?d, p_writeptr := p_writeptr p - p_readptr p, p_readptr := 0\<rparr>"
  have w: "unat (p_writeptr p - p_readptr p) = ?w - ?r" using b(1) by (simp add: unat_sub word_le_nat_alt)
  have "take (?w - ?r) ?d = take (?w - ?r) (drop ?r (p_data p))" using b by simp
  then have "pipe_contents ?q = pipe_contents p" by (simp add: pipe_contents_def w)
  moreover have "pipe_inv ?q" using b by (simp add: pipe_inv_def PIPE_LENGTH_val w)
  moreover have "pipe_compact p = Inr ?q" using b by (simp add: pipe_compact_def Let_def PIPE_LENGTH_val)
  ultimately show ?thesis using w by simp
qed

lemma pipe_write_spec:
  assumes inv: "pipe_inv p" and fits: "pipe_fits p buf"
  shows "\<exists>res. pipe_write p buf = Inr res \<and> (case res of
      Put q \<Rightarrow> pipe_inv q \<and> pipe_contents q = pipe_contents p @ buf \<and> p_flags q = p_flags p
    | Write_Again \<Rightarrow> p_readptr p < of_nat PIPE_LENGTH - p_writeptr p | Broken \<Rightarrow> pipe_flag p PIPE_READ_CLOSED)"
proof -
  note b = pipe_invD [OF inv]
  have n: "length buf \<le> 16384" using fits by (simp add: pipe_fits_def PIPE_LENGTH_val)
  then have sum: "unat (p_writeptr p + of_nat (length buf)) = unat (p_writeptr p) + length buf"
    using b by (simp add: unat_word_ariths unat_of_nat take_bit_nat_eq_self)
  obtain q where q: "pipe_compact p = Inr q" "pipe_inv q" "pipe_contents q = pipe_contents p"
    "p_flags q = p_flags p" "unat (p_writeptr q) = unat (p_writeptr p) - unat (p_readptr p)"
    using pipe_compact_spec [OF inv] by blast
  have late: "unat (p_writeptr q) + length buf \<le> PIPE_LENGTH" using fits q(5) by (simp add: pipe_fits_def)
  show ?thesis
  proof (cases "p_writeptr p + of_nat (length buf) > of_nat PIPE_LENGTH")
    case True
    then show ?thesis using pipe_put_spec [OF q(2) late] q(1,3,4) by (auto simp: pipe_write_def)
  next
    case False
    then have "unat (p_writeptr p) + length buf \<le> PIPE_LENGTH"
      using sum by (simp add: word_less_nat_alt PIPE_LENGTH_val)
    from pipe_put_spec [OF inv this] False show ?thesis by (auto simp: pipe_write_def)
  qed
qed

lemma pipe_run_inv:
  "pipe_run p sent got \<Longrightarrow> pipe_inv p \<and> end_ok p \<and> sent = got @ pipe_contents p"
proof (induction rule: pipe_run.induct)
  case (new junk)
  then show ?case
    by (simp add: new_pipe_def pipe_inv_def end_ok_def pipe_flag_def pipe_contents_def)
next
  case (get p sent got len bs q)
  then show ?case using pipe_read_spec [of p len] by simp
next
  case (put p sent got buf q)
  then have "pipe_inv q" "pipe_contents q = pipe_contents p @ buf" "p_flags q = p_flags p"
    using pipe_write_spec [of p buf] by auto
  then show ?case using put by (simp add: end_ok_def pipe_flag_def)
next
  case (destroy p sent got e)
  then show ?case
    by (auto simp: pipe_destroy_inode_def Let_def end_ok_def PIPE_READ_CLOSED_def PIPE_WRITE_CLOSED_def
        PIPE_DATA_END_def)
qed

section \<open>Properties\<close>

text \<open>
  C21: a pipe delivers exactly the bytes written, in order. In every state that a run of reads of lengths
  up to 2^32 - 16385, of writes that fit into the buffer once the read part is dropped
  (\<open>pipe_fits\<close>), and of closes of the two ends can reach, what was read so far followed by what the
  pipe holds is what was written; the offsets are in order and inside the buffer; once a reader has
  been told the end of the data, it has read everything; and no further read or write within these
  limits copies outside the buffer. (Longer reads wrap the sum of offset and length and do,
  see \<open>pipe_read_overflow\<close>; writes that do not fit do, see \<open>pipe_write_overflow\<close>.)
\<close>

theorem pipe_fifo:
  assumes "pipe_run p sent got"
  shows "sent = got @ pipe_contents p \<and> p_readptr p \<le> p_writeptr p \<and> unat (p_writeptr p) \<le> PIPE_LENGTH \<and>
    (pipe_flag p PIPE_DATA_END \<longrightarrow> got = sent) \<and>
    (\<forall>len. unat len + PIPE_LENGTH < 2 ^ 32 \<longrightarrow> (\<exists>res. pipe_read p len = Inr res)) \<and>
    (\<forall>buf. pipe_fits p buf \<longrightarrow> (\<exists>res. pipe_write p buf = Inr res))"
proof -
  have run: "pipe_inv p" "end_ok p" "sent = got @ pipe_contents p" using pipe_run_inv [OF assms] by auto
  then show ?thesis
    using pipe_read_spec [OF run(1)] pipe_write_spec [OF run(1)] by (fastforce simp: pipe_inv_def end_ok_def)
qed

definition sample_pipe :: Pipe where
  "sample_pipe = \<lparr>p_readptr = 2, p_writeptr = 3, p_data = [1, 2, 3] @ replicate 16381 0, p_flags = 0\<rparr>"

lemma sample_pipe_run: "pipe_run sample_pipe [1, 2, 3] [1, 2]"
proof -
  let ?p = "new_pipe (replicate 16384 0)"
  let ?q = "\<lparr>p_readptr = 0, p_writeptr = 3, p_data = [1, 2, 3] @ replicate 16381 0, p_flags = 0\<rparr>"
  have "pipe_run ?p [] []" by (rule pipe_run.new) (simp add: PIPE_LENGTH_val)
  moreover have "pipe_write ?p [1, 2, 3] = Inr (Put ?q)"
    by (simp add: pipe_write_def pipe_put_def new_pipe_def pipe_flag_def PIPE_LENGTH_val Let_def)
  ultimately have "pipe_run ?q ([] @ [1, 2, 3]) []"
    by (intro pipe_run.put [of ?p]) (simp_all add: new_pipe_def pipe_flag_def pipe_fits_def PIPE_LENGTH_val)
  moreover have "pipe_read ?q 2 = Inr (Got [1, 2] sample_pipe)"
    by (simp add: pipe_read_def pipe_take_def sample_pipe_def pipe_flag_def)
  ultimately have "pipe_run sample_pipe ([] @ [1, 2, 3]) ([] @ [1, 2])"
    by (intro pipe_run.get [of ?q _ _ 2]) (simp_all add: PIPE_LENGTH_val)
  then show ?thesis by simp
qed

theorem pipe_fifo_witness: "pipe_contents sample_pipe = [3]"
  using pipe_fifo [OF sample_pipe_run] by simp

text \<open>
  C22: neither end of a pipe in use gets stuck without a reason. In every state such a run reaches, a read
  of a length up to 2^32 - 16385 and a write that fits once the read part is dropped have a result; a reader is only told to look again while the
  writer is open and fewer bytes are there than it asks for, and a writer only when the read offset
  has not reached the threshold the code waits for.
\<close>

theorem pipe_progress:
  assumes "pipe_run p sent got"
  shows "(unat len + PIPE_LENGTH < 2 ^ 32 \<longrightarrow> (\<exists>bs q. pipe_read p len = Inr (Got bs q)) \<or>
      pipe_read p len = Inr Read_Again \<and> \<not> pipe_flag p PIPE_WRITE_CLOSED \<and> length (pipe_contents p) < unat len) \<and>
    (pipe_fits p buf \<longrightarrow> (\<exists>q. pipe_write p buf = Inr (Put q)) \<or>
      pipe_write p buf = Inr Broken \<and> pipe_flag p PIPE_READ_CLOSED \<or>
      pipe_write p buf = Inr Write_Again \<and> p_readptr p < of_nat PIPE_LENGTH - p_writeptr p)"
proof -
  have inv: "pipe_inv p" using pipe_run_inv [OF assms] by blast
  have "unat len + PIPE_LENGTH < 2 ^ 32 \<longrightarrow> (\<exists>bs q. pipe_read p len = Inr (Got bs q)) \<or>
      pipe_read p len = Inr Read_Again \<and> \<not> pipe_flag p PIPE_WRITE_CLOSED \<and> length (pipe_contents p) < unat len"
  proof
    assume "unat len + PIPE_LENGTH < 2 ^ 32"
    from pipe_read_spec [OF inv this] obtain res where res: "pipe_read p len = Inr res" by blast
    then show "(\<exists>bs q. pipe_read p len = Inr (Got bs q)) \<or> pipe_read p len = Inr Read_Again \<and>
        \<not> pipe_flag p PIPE_WRITE_CLOSED \<and> length (pipe_contents p) < unat len"
      using pipe_read_spec [OF inv \<open>unat len + PIPE_LENGTH < 2 ^ 32\<close>] by (cases res) auto
  qed
  moreover have "pipe_fits p buf \<longrightarrow> (\<exists>q. pipe_write p buf = Inr (Put q)) \<or>
      pipe_write p buf = Inr Broken \<and> pipe_flag p PIPE_READ_CLOSED \<or>
      pipe_write p buf = Inr Write_Again \<and> p_readptr p < of_nat PIPE_LENGTH - p_writeptr p"
  proof
    assume "pipe_fits p buf"
    from pipe_write_spec [OF inv this] obtain res where res: "pipe_write p buf = Inr res" by blast
    then show "(\<exists>q. pipe_write p buf = Inr (Put q)) \<or> pipe_write p buf = Inr Broken \<and> pipe_flag p PIPE_READ_CLOSED \<or>
      pipe_write p buf = Inr Write_Again \<and> p_readptr p < of_nat PIPE_LENGTH - p_writeptr p"
      using pipe_write_spec [OF inv \<open>pipe_fits p buf\<close>] by (cases res) auto
  qed
  ultimately show ?thesis by blast
qed

theorem pipe_progress_witness: "\<exists>bs q. pipe_read sample_pipe 1 = Inr (Got bs q)"
  using pipe_progress [OF sample_pipe_run, of 1 "[]"]
  by (simp add: sample_pipe_def pipe_contents_def PIPE_LENGTH_val)

section \<open>Where the code departs from its contract\<close>

text \<open>A full pipe of which a single byte has been read: the writer does not wait, and a write of two
  bytes runs over the end of the buffer.\<close>

lemma pipe_write_overflow:
  assumes "length d = PIPE_LENGTH"
  shows "pipe_write \<lparr>p_readptr = 1, p_writeptr = of_nat PIPE_LENGTH, p_data = d, p_flags = 0\<rparr> [x, y] = Inl Out_Of_Bounds"
  using assms by (simp add: pipe_write_def pipe_compact_def pipe_put_def pipe_flag_def PIPE_LENGTH_val Let_def)

text \<open>A read of 2^32 - 1 bytes from a pipe of which one byte has been read: the sum of offset and length
  wraps to 0, the reader does not wait, and the copy runs over the end of the buffer.\<close>

lemma pipe_read_overflow:
  assumes "length d = PIPE_LENGTH"
  shows "pipe_read \<lparr>p_readptr = 1, p_writeptr = 1, p_data = d, p_flags = 0\<rparr> 0xffffffff = Inl Out_Of_Bounds"
  using assms by (simp add: pipe_read_def pipe_take_def pipe_flag_def PIPE_LENGTH_val word_less_nat_alt)

end
