(* ===== verification/Bitmaps.thy ===== *)
theory Bitmaps
  imports Prelude
begin

unbundle bit_operations_syntax

text \<open>
  The block and inode bitmaps of ext2: the bit primitives of \<^verbatim>\<open>include/libk/util.h\<close>, the bit array of
  \<^verbatim>\<open>fs/ext2/bitarray.c\<close> and the operations of \<^verbatim>\<open>fs/ext2/bitmap.c\<close> on 32-bit and 64-bit bitmaps. A bitmap
  implements a set of cluster numbers; the locale \<open>bitset\<close> is the contract, proved for the bit array
  and for the bitmaps on top of it. The two C structures are one record, told apart by the magic
  number as in the code; the 32-bit bounds are kept zero-extended, which is how the code compares
  them with 64-bit arguments. An access outside the bit array is a fault.
\<close>

section \<open>Bits in an array of bytes\<close>

definition fast_set_bit :: "u8 list \<Rightarrow> u64 \<Rightarrow> u8 list exec" where
  "fast_set_bit addr n =
     (let i = unat (drop_bit 3 n)
      in bindE (arr_get addr i) (\<lambda>b. arr_set addr i (b OR push_bit (unat (n AND 7)) 1)))"

definition fast_clear_bit :: "u8 list \<Rightarrow> u64 \<Rightarrow> u8 list exec" where
  "fast_clear_bit addr n =
     (let i = unat (drop_bit 3 n)
      in bindE (arr_get addr i) (\<lambda>b. arr_set addr i (b AND NOT (push_bit (unat (n AND 7)) 1))))"

definition fast_test_bit :: "u8 list \<Rightarrow> u64 \<Rightarrow> u8 exec" where
  "fast_test_bit addr n =
     bindE (arr_get addr (unat (drop_bit 3 n))) (\<lambda>b. Inr (push_bit (unat (n AND 7)) 1 AND b))"

text \<open>The numbers of the bits that are set.\<close>

definition bits_of :: "u8 list \<Rightarrow> nat set" where
  "bits_of addr = {i. i < 8 * length addr \<and> bit (addr ! (i div 8)) (i mod 8)}"

lemma bits_of_zero [simp]: "bits_of (replicate n 0) = {}"
  by (auto simp: bits_of_def)

lemma unat_drop_3: "unat (drop_bit 3 n) = unat n div 8" for n :: u64
  by (simp add: drop_bit_eq_div unat_div)

lemma unat_and_7: "unat (n AND 7) = unat n mod 8" for n :: u64
proof -
  have "n AND 7 = take_bit 3 n" by (simp add: take_bit_eq_mask mask_numeral)
  then show ?thesis by (simp only: unsigned_take_bit_eq) (simp add: take_bit_eq_mod)
qed

lemma bit_or_single: "k < 8 \<Longrightarrow> bit (b OR 2 ^ k) j \<longleftrightarrow> bit b j \<or> j = k" for b :: u8
  by (auto simp: bit_simps)

lemma bit_and_not_single: "k < 8 \<Longrightarrow> bit (b AND NOT (2 ^ k)) j \<longleftrightarrow> bit b j \<and> j \<noteq> k" for b :: u8
  by (auto simp: bit_simps dest: bit_imp_le_length)

lemma single_and:
  fixes b :: u8
  assumes "k < 8"
  shows "2 ^ k AND b \<noteq> 0 \<longleftrightarrow> bit b k"
proof -
  have "2 ^ k AND b = (if bit b k then 2 ^ k else 0)"
    by (rule bit_word_eqI) (auto simp: bit_simps)
  moreover have "bit (2 ^ k :: u8) k" using assms by (simp add: bit_simps)
  then have "(2 ^ k :: u8) \<noteq> 0" by (metis bit_0_eq bot_apply bot_bool_def)
  ultimately show ?thesis by auto
qed

lemma fast_set_bit_spec:
  assumes "unat n < 8 * length addr"
  shows "\<exists>a. fast_set_bit addr n = Inr a \<and> length a = length addr \<and> bits_of a = insert (unat n) (bits_of addr)"
proof -
  have i: "unat n div 8 < length addr" using assms by auto
  have "bits_of (addr[unat n div 8 := addr ! (unat n div 8) OR push_bit (unat n mod 8) 1]) = insert (unat n) (bits_of addr)"
    using assms i by (auto simp: bits_of_def nth_list_update bit_or_single split: if_splits)
      (metis div_mult_mod_eq)+
  then show ?thesis using i by (simp add: fast_set_bit_def Let_def unat_drop_3 unat_and_7)
qed

lemma fast_clear_bit_spec:
  assumes "unat n < 8 * length addr"
  shows "\<exists>a. fast_clear_bit addr n = Inr a \<and> length a = length addr \<and> bits_of a = bits_of addr - {unat n}"
proof -
  have i: "unat n div 8 < length addr" using assms by auto
  have "bits_of (addr[unat n div 8 := addr ! (unat n div 8) AND NOT (push_bit (unat n mod 8) 1)]) = bits_of addr - {unat n}"
    using assms i by (auto simp: bits_of_def nth_list_update bit_and_not_single split: if_splits)
      (metis div_mult_mod_eq)+
  then show ?thesis using i by (simp add: fast_clear_bit_def Let_def unat_drop_3 unat_and_7)
qed

lemma fast_test_bit_spec:
  assumes "unat n < 8 * length addr"
  shows "\<exists>v. fast_test_bit addr n = Inr v \<and> (v \<noteq> 0 \<longleftrightarrow> unat n \<in> bits_of addr)"
proof -
  have i: "unat n div 8 < length addr" using assms by auto
  then show ?thesis using assms
    by (simp add: fast_test_bit_def unat_drop_3 unat_and_7 single_and bits_of_def)
qed

section \<open>Bitmaps\<close>

definition EXT2_BMAP_MAGIC_BLOCK :: int where "EXT2_BMAP_MAGIC_BLOCK = 1"
definition EXT2_BMAP_MAGIC_INODE :: int where "EXT2_BMAP_MAGIC_INODE = 2"
definition EXT2_BMAP_MAGIC_BLOCK64 :: int where "EXT2_BMAP_MAGIC_BLOCK64 = 4"
definition EXT2_BMAP_MAGIC_INODE64 :: int where "EXT2_BMAP_MAGIC_INODE64 = 8"

lemmas bmap_magic_defs = EXT2_BMAP_MAGIC_BLOCK_def EXT2_BMAP_MAGIC_INODE_def EXT2_BMAP_MAGIC_BLOCK64_def
  EXT2_BMAP_MAGIC_INODE64_def

record Ext2Bitmap =
  b_magic :: int
  b_start :: u64
  b_end :: u64
  b_real_end :: u64
  b_cluster_bits :: nat
  b_bitmap :: "u8 list"

definition EXT2_BITMAP_IS_32 :: "Ext2Bitmap \<Rightarrow> bool" where
  "EXT2_BITMAP_IS_32 b \<longleftrightarrow> b_magic b = EXT2_BMAP_MAGIC_BLOCK \<or> b_magic b = EXT2_BMAP_MAGIC_INODE"

definition EXT2_BITMAP_IS_64 :: "Ext2Bitmap \<Rightarrow> bool" where
  "EXT2_BITMAP_IS_64 b \<longleftrightarrow> b_magic b = EXT2_BMAP_MAGIC_BLOCK64 \<or> b_magic b = EXT2_BMAP_MAGIC_INODE64"

definition with_bits :: "Ext2Bitmap \<Rightarrow> u8 list exec \<Rightarrow> Ext2Bitmap exec" where
  "with_bits b x = bindE x (\<lambda>a. Inr (b\<lparr>b_bitmap := a\<rparr>))"

subsection \<open>The bit array\<close>

text \<open>The two flags say whether the calls of \<^verbatim>\<open>kmalloc\<close> succeed.\<close>

definition ext2_bitarray_new_bmap :: "bool \<Rightarrow> bool \<Rightarrow> Ext2Bitmap \<Rightarrow> int \<times> Ext2Bitmap" where
  "ext2_bitarray_new_bmap ok1 ok2 b =
     (if \<not> ok1 \<or> \<not> ok2 then (- ENOMEM, b)
      else (0, b\<lparr>b_bitmap := replicate (unat (ucast ((b_real_end b - b_start b) div 8 + 1) :: u32)) 0\<rparr>))"

definition ext2_bitarray_mark_bmap :: "Ext2Bitmap \<Rightarrow> u64 \<Rightarrow> Ext2Bitmap exec" where
  "ext2_bitarray_mark_bmap b arg = with_bits b (fast_set_bit (b_bitmap b) (arg - b_start b))"

definition ext2_bitarray_unmark_bmap :: "Ext2Bitmap \<Rightarrow> u64 \<Rightarrow> Ext2Bitmap exec" where
  "ext2_bitarray_unmark_bmap b arg = with_bits b (fast_clear_bit (b_bitmap b) (arg - b_start b))"

definition ext2_bitarray_test_bmap :: "Ext2Bitmap \<Rightarrow> u64 \<Rightarrow> u8 exec" where
  "ext2_bitarray_test_bmap b arg = fast_test_bit (b_bitmap b) (arg - b_start b)"

text \<open>The loops over an extent: \<open>n\<close> bits from \<open>k\<close> on.\<close>

fun set_run :: "u8 list \<Rightarrow> u64 \<Rightarrow> nat \<Rightarrow> u8 list exec" where
  "set_run a k 0 = Inr a"
| "set_run a k (Suc n) = bindE (fast_set_bit a k) (\<lambda>a'. set_run a' (k + 1) n)"

fun clear_run :: "u8 list \<Rightarrow> u64 \<Rightarrow> nat \<Rightarrow> u8 list exec" where
  "clear_run a k 0 = Inr a"
| "clear_run a k (Suc n) = bindE (fast_clear_bit a k) (\<lambda>a'. clear_run a' (k + 1) n)"

definition ext2_bitarray_mark_bmap_extent :: "Ext2Bitmap \<Rightarrow> u64 \<Rightarrow> u32 \<Rightarrow> Ext2Bitmap exec" where
  "ext2_bitarray_mark_bmap_extent b arg num = with_bits b (set_run (b_bitmap b) (arg - b_start b) (unat num))"

definition ext2_bitarray_unmark_bmap_extent :: "Ext2Bitmap \<Rightarrow> u64 \<Rightarrow> u32 \<Rightarrow> Ext2Bitmap exec" where
  "ext2_bitarray_unmark_bmap_extent b arg num = with_bits b (clear_run (b_bitmap b) (arg - b_start b) (unat num))"

definition range_bytes :: "u32 \<Rightarrow> nat" where
  "range_bytes num = unat (drop_bit 3 (num + 7))"

definition ext2_bitarray_set_bmap_range :: "Ext2Bitmap \<Rightarrow> u64 \<Rightarrow> u32 \<Rightarrow> u8 list \<Rightarrow> Ext2Bitmap exec" where
  "ext2_bitarray_set_bmap_range b start num data =
     with_bits b (copy_in (b_bitmap b) (unat (drop_bit 3 start)) (range_bytes num) data)"

definition ext2_bitarray_get_bmap_range :: "Ext2Bitmap \<Rightarrow> u64 \<Rightarrow> u32 \<Rightarrow> u8 list exec" where
  "ext2_bitarray_get_bmap_range b start num = copy_out (b_bitmap b) (unat (drop_bit 3 start)) (range_bytes num)"

subsection \<open>Search\<close>

text \<open>
  \<^verbatim>\<open>ext2_bitarray_find_first_zero\<close> and \<^verbatim>\<open>ext2_bitarray_find_first_set\<close> are the same text up to the bit
  value \<open>v\<close> they look for; \<open>skip_byte v\<close> is the byte without such a bit. \<open>base\<close> is the address of the array,
  on which the alignment of the 64-bit reads depends. Positions and counts are \<^verbatim>\<open>unsigned long\<close>.
\<close>

definition skip_byte :: "bool \<Rightarrow> u8" where
  "skip_byte v = (if v then 0 else 0xff)"

function align_bits :: "bool \<Rightarrow> u8 list \<Rightarrow> u32 \<Rightarrow> u32 \<Rightarrow> (u32 option \<times> u32 \<times> u32) exec" where
  "align_bits v a bitpos count =
     (if bitpos AND 7 \<noteq> 0 \<and> count > 0 then
        bindE (fast_test_bit a (ucast bitpos)) (\<lambda>t.
          if (t \<noteq> 0) = v then Inr (Some bitpos, bitpos, count) else align_bits v a (bitpos + 1) (count - 1))
      else Inr (None, bitpos, count))"
  by pat_completeness auto
termination
  by (relation "measure (\<lambda>(v, a, bitpos, count). unat count)")
    (auto simp: unat_minus_one word_gt_0 unat_gt_0)

function align_bytes :: "bool \<Rightarrow> u8 list \<Rightarrow> u32 \<Rightarrow> u32 \<Rightarrow> u32 \<Rightarrow> u32 \<Rightarrow> (bool \<times> u32 \<times> u32 \<times> u32) exec" where
  "align_bytes v a base pos bitpos count =
     (if count \<ge> 8 \<and> (base + pos) AND 7 \<noteq> 0 then
        bindE (arr_get a (unat pos)) (\<lambda>b.
          if b \<noteq> skip_byte v then Inr (True, pos, bitpos, count)
          else align_bytes v a base (pos + 1) (bitpos + 8) (count - 8))
      else Inr (False, pos, bitpos, count))"
  by pat_completeness auto
termination
  by (relation "measure (\<lambda>(v, a, base, pos, bitpos, count). unat count)")
    (auto simp: unat_sub word_le_nat_alt)

fun skip_words :: "bool \<Rightarrow> u8 list \<Rightarrow> u32 \<Rightarrow> nat \<Rightarrow> (u32 \<times> nat) exec" where
  "skip_words v a pos 0 = Inr (pos, 0)"
| "skip_words v a pos (Suc i) =
     bindE (copy_out a (unat pos) 8) (\<lambda>w.
       if w \<noteq> replicate 8 (skip_byte v) then Inr (pos, Suc i) else skip_words v a (pos + 8) i)"

fun skip_bytes :: "bool \<Rightarrow> u8 list \<Rightarrow> u32 \<Rightarrow> nat \<Rightarrow> (u32 \<times> nat) exec" where
  "skip_bytes v a pos 0 = Inr (pos, 0)"
| "skip_bytes v a pos (Suc i) =
     bindE (arr_get a (unat pos)) (\<lambda>b.
       if b \<noteq> skip_byte v then Inr (pos, Suc i) else skip_bytes v a (pos + 1) i)"

fun scan_bits :: "bool \<Rightarrow> u8 list \<Rightarrow> u32 \<Rightarrow> nat \<Rightarrow> u32 option exec" where
  "scan_bits v a bitpos 0 = Inr None"
| "scan_bits v a bitpos (Suc n) =
     bindE (fast_test_bit a (ucast bitpos)) (\<lambda>t.
       if (t \<noteq> 0) = v then Inr (Some bitpos) else scan_bits v a (bitpos + 1) n)"

text \<open>The part under \<^verbatim>\<open>if (!found)\<close>: position and count for the last loop.\<close>

definition find_middle :: "bool \<Rightarrow> u8 list \<Rightarrow> u32 \<Rightarrow> u32 \<Rightarrow> u32 \<Rightarrow> (u32 \<times> u32) exec" where
  "find_middle v a pos bitpos count =
     (let max_loop = unat (drop_bit 6 count)
      in bindE (skip_words v a pos max_loop) (\<lambda>(pos, i).
         let count = count - 64 * of_nat (max_loop - i);
             bitpos = bitpos + 64 * of_nat (max_loop - i);
             max_loop = unat (drop_bit 3 count)
         in bindE (skip_bytes v a pos max_loop) (\<lambda>(pos, i).
            Inr (bitpos + 8 * of_nat (max_loop + i), count - 8 * of_nat (max_loop - i)))))"

definition find_first :: "bool \<Rightarrow> u32 \<Rightarrow> Ext2Bitmap \<Rightarrow> u64 \<Rightarrow> u64 \<Rightarrow> (int + u64) exec" where
  "find_first v base b start end =
     (let a = b_bitmap b; bitpos = ucast (start - b_start b); count = ucast (end - start + 1);
          answer = (\<lambda>r. Inr (case r of None \<Rightarrow> Inl (- ENOENT) | Some p \<Rightarrow> Inr (ucast p + b_start b)))
      in bindE (align_bits v a bitpos count) (\<lambda>(r, bitpos, count).
         if r \<noteq> None then answer r
         else if count = 0 then Inr (Inl (- ENOENT))
         else bindE (align_bytes v a base (drop_bit 3 bitpos) bitpos count) (\<lambda>(found, pos, bitpos, count).
           bindE (if found then Inr (bitpos, count) else find_middle v a pos bitpos count) (\<lambda>(bitpos, count).
             bindE (scan_bits v a bitpos (unat count)) answer))))"

definition ext2_bitarray_find_first_zero :: "u32 \<Rightarrow> Ext2Bitmap \<Rightarrow> u64 \<Rightarrow> u64 \<Rightarrow> (int + u64) exec" where
  "ext2_bitarray_find_first_zero = find_first False"

definition ext2_bitarray_find_first_set :: "u32 \<Rightarrow> Ext2Bitmap \<Rightarrow> u64 \<Rightarrow> u64 \<Rightarrow> (int + u64) exec" where
  "ext2_bitarray_find_first_set = find_first True"

subsection \<open>\<^verbatim>\<open>fs/ext2/bitmap.c\<close>\<close>

text \<open>A number that does not fit into 32 bits.\<close>

definition over32 :: "u64 \<Rightarrow> bool" where
  "over32 n \<longleftrightarrow> n AND NOT 0xffffffff \<noteq> 0"

definition ext2_make_bitmap_32 :: "bool \<Rightarrow> bool \<Rightarrow> int \<Rightarrow> u32 \<Rightarrow> u32 \<Rightarrow> u32 \<Rightarrow> u8 list option \<Rightarrow> (int \<times> Ext2Bitmap option) exec" where
  "ext2_make_bitmap_32 ok1 ok2 magic start end real_end initmap =
     (if \<not> ok1 \<or> \<not> ok2 then Inr (- ENOMEM, None)
      else
        let size = unat (((real_end - start) div 8 + 1 + 7) AND NOT 3)
        in bindE (case initmap of None \<Rightarrow> Inr (replicate size 0) | Some m \<Rightarrow> copy_out m 0 size) (\<lambda>bits.
           Inr (0, Some \<lparr>b_magic = magic, b_start = ucast start, b_end = ucast end, b_real_end = ucast real_end,
                  b_cluster_bits = 0, b_bitmap = bits\<rparr>)))"

datatype Ext2BitmapType = EXT2_BMAP64_BITARRAY | EXT2_BMAP64_RBTREE | EXT2_BMAP64_AUTODIR

definition ext2_make_bitmap_64 ::
  "bool \<Rightarrow> bool \<Rightarrow> bool \<Rightarrow> nat \<Rightarrow> int \<Rightarrow> Ext2BitmapType \<Rightarrow> u64 \<Rightarrow> u64 \<Rightarrow> u64 \<Rightarrow> int \<times> Ext2Bitmap option" where
  "ext2_make_bitmap_64 ok ok1 ok2 cluster_ratio_bits magic type start end real_end =
     (if type \<noteq> EXT2_BMAP64_BITARRAY then (- EINVAL, None)
      else if \<not> ok then (- ENOMEM, None)
      else
        let b = \<lparr>b_magic = magic, b_start = start, b_end = end, b_real_end = real_end,
              b_cluster_bits = (if magic = EXT2_BMAP_MAGIC_BLOCK64 then cluster_ratio_bits else 0), b_bitmap = []\<rparr>;
            (ret, b') = ext2_bitarray_new_bmap ok1 ok2 b
        in if ret \<noteq> 0 then (ret, None) else (0, Some b'))"

definition ext2_mark_bitmap :: "Ext2Bitmap option \<Rightarrow> u64 \<Rightarrow> Ext2Bitmap option exec" where
  "ext2_mark_bitmap bmap arg =
     (case bmap of None \<Rightarrow> Inr None
      | Some b \<Rightarrow>
          if EXT2_BITMAP_IS_32 b then
            if over32 arg then Inr (Some b)
            else if arg < b_start b \<or> arg > b_end b then Inr (Some b)
            else bindE (with_bits b (fast_set_bit (b_bitmap b) (arg - b_start b))) (\<lambda>b'. Inr (Some b'))
          else
            let arg = drop_bit (b_cluster_bits b) arg
            in if arg < b_start b \<or> arg > b_end b then Inr (Some b)
               else bindE (ext2_bitarray_mark_bmap b arg) (\<lambda>b'. Inr (Some b')))"

definition ext2_unmark_bitmap :: "Ext2Bitmap option \<Rightarrow> u64 \<Rightarrow> Ext2Bitmap option exec" where
  "ext2_unmark_bitmap bmap arg =
     (case bmap of None \<Rightarrow> Inr None
      | Some b \<Rightarrow>
          if EXT2_BITMAP_IS_32 b then
            if over32 arg then Inr (Some b)
            else if arg < b_start b \<or> arg > b_end b then Inr (Some b)
            else bindE (with_bits b (fast_clear_bit (b_bitmap b) (arg - b_start b))) (\<lambda>b'. Inr (Some b'))
          else
            let arg = drop_bit (b_cluster_bits b) arg
            in if arg < b_start b \<or> arg > b_end b then Inr (Some b)
               else bindE (ext2_bitarray_unmark_bmap b arg) (\<lambda>b'. Inr (Some b')))"

definition ext2_test_bitmap :: "Ext2Bitmap option \<Rightarrow> u64 \<Rightarrow> u8 exec" where
  "ext2_test_bitmap bmap arg =
     (case bmap of None \<Rightarrow> Inr 0
      | Some b \<Rightarrow>
          if EXT2_BITMAP_IS_32 b then
            if over32 arg then Inr 0
            else if arg < b_start b \<or> arg > b_end b then Inr 0
            else fast_test_bit (b_bitmap b) (arg - b_start b)
          else
            let arg = drop_bit (b_cluster_bits b) arg
            in if arg < b_start b \<or> arg > b_end b then Inr 0 else ext2_bitarray_test_bmap b arg)"

text \<open>
  \<open>num\<close> is signed. The 32-bit loop counts with an \<^verbatim>\<open>int\<close>, which overflows from $2^{31}$ on; that is a fault here.
  The 32-bit branch does not return, but the next test sends it out.
\<close>

definition ext2_mark_block_bitmap_range :: "Ext2Bitmap option \<Rightarrow> u64 \<Rightarrow> u64 \<Rightarrow> Ext2Bitmap option exec" where
  "ext2_mark_block_bitmap_range bmap block num =
     (case bmap of None \<Rightarrow> Inr None
      | Some b \<Rightarrow>
          if EXT2_BITMAP_IS_32 b then
            if over32 block \<or> over32 (block + num - 1) then Inr (Some b)
            else if block < b_start b \<or> block > b_end b \<or> block + num - 1 > b_end b then Inr (Some b)
            else if sint num \<ge> 2 ^ 31 then Inl Out_Of_Bounds
            else bindE (with_bits b (set_run (b_bitmap b) (block - b_start b) (nat (sint num)))) (\<lambda>b'. Inr (Some b'))
          else if \<not> EXT2_BITMAP_IS_64 b then Inr (Some b)
          else
            let last = drop_bit (b_cluster_bits b) (block + num + (2 ^ b_cluster_bits b - 1));
                first = drop_bit (b_cluster_bits b) block;
                n = last - first
            in if first < b_start b \<or> first > b_end b \<or> first + n - 1 > b_end b then Inr (Some b)
               else bindE (ext2_bitarray_mark_bmap_extent b first (ucast n)) (\<lambda>b'. Inr (Some b')))"

definition range_outside :: "Ext2Bitmap \<Rightarrow> u64 \<Rightarrow> u32 \<Rightarrow> bool" where
  "range_outside b start num \<longleftrightarrow>
     over32 (start + ucast num - 1) \<or> start < b_start b \<or> start + ucast num - 1 > b_real_end b"

definition ext2_set_bitmap_range :: "Ext2Bitmap option \<Rightarrow> u64 \<Rightarrow> u32 \<Rightarrow> u8 list \<Rightarrow> (int \<times> Ext2Bitmap option) exec" where
  "ext2_set_bitmap_range bmap start num data =
     (case bmap of None \<Rightarrow> Inr (- EINVAL, None)
      | Some b \<Rightarrow>
          if EXT2_BITMAP_IS_32 b then
            if range_outside b start num then Inr (- EINVAL, Some b)
            else bindE (with_bits b (copy_in (b_bitmap b) (unat (drop_bit 3 (start - b_start b))) (range_bytes num) data))
              (\<lambda>b'. Inr (0, Some b'))
          else if \<not> EXT2_BITMAP_IS_64 b then Inr (- EINVAL, Some b)
          else bindE (ext2_bitarray_set_bmap_range b start num data) (\<lambda>b'. Inr (0, Some b')))"

definition ext2_get_bitmap_range :: "Ext2Bitmap option \<Rightarrow> u64 \<Rightarrow> u32 \<Rightarrow> (int + u8 list) exec" where
  "ext2_get_bitmap_range bmap start num =
     (case bmap of None \<Rightarrow> Inr (Inl (- EINVAL))
      | Some b \<Rightarrow>
          if EXT2_BITMAP_IS_32 b then
            if range_outside b start num then Inr (Inl (- EINVAL))
            else bindE (copy_out (b_bitmap b) (unat (drop_bit 3 (start - b_start b))) (range_bytes num)) (\<lambda>d. Inr (Inr d))
          else if \<not> EXT2_BITMAP_IS_64 b then Inr (Inl (- EINVAL))
          else bindE (ext2_bitarray_get_bmap_range b start num) (\<lambda>d. Inr (Inr d)))"

text \<open>The loop over a 32-bit bitmap, \<open>n\<close> numbers from \<open>start\<close> on.\<close>

fun find_zero_32 :: "Ext2Bitmap \<Rightarrow> u64 \<Rightarrow> nat \<Rightarrow> (int + u64) exec" where
  "find_zero_32 b start 0 = Inr (Inl (- ENOENT))"
| "find_zero_32 b start (Suc n) =
     bindE (fast_test_bit (b_bitmap b) (start - b_start b)) (\<lambda>t.
       if t = 0 then Inr (Inr start) else find_zero_32 b (start + 1) n)"

definition ext2_find_first_zero_bitmap :: "u32 \<Rightarrow> Ext2Bitmap option \<Rightarrow> u64 \<Rightarrow> u64 \<Rightarrow> (int + u64) exec" where
  "ext2_find_first_zero_bitmap base bmap start end =
     (case bmap of None \<Rightarrow> Inr (Inl (- EINVAL))
      | Some b \<Rightarrow>
          if EXT2_BITMAP_IS_32 b then
            if over32 start \<or> over32 end then Inr (Inl (- EINVAL))
            else if start < b_start b \<or> end > b_end b \<or> start > end then Inr (Inl (- EINVAL))
            else find_zero_32 b start (unat end + 1 - unat start)
          else if \<not> EXT2_BITMAP_IS_64 b then Inr (Inl (- EINVAL))
          else
            let cstart = drop_bit (b_cluster_bits b) start; cend = drop_bit (b_cluster_bits b) start
            in if cstart < b_start b \<or> cend > b_end b \<or> start > end then Inr (Inl (- EINVAL))
               else bindE (ext2_bitarray_find_first_zero base b cstart cend) (\<lambda>r.
                 case r of Inl e \<Rightarrow> Inr (Inl e)
                 | Inr c \<Rightarrow>
                     let cout = push_bit (b_cluster_bits b) c
                     in Inr (Inr (if cout \<ge> start then cout else start))))"

section \<open>The contract\<close>

text \<open>
  A \<open>bitset\<close> is a state that stands for a set of numbers. \<open>key s n\<close> is the number under which \<open>n\<close> is
  recorded (its cluster), \<open>range s\<close> are the numbers that can be recorded, marks outside of it have no
  effect. \<open>pre\<close> is what a caller has to keep.
\<close>

fun run_cmds :: "('s \<Rightarrow> u64 \<Rightarrow> 's exec) \<Rightarrow> ('s \<Rightarrow> u64 \<Rightarrow> 's exec) \<Rightarrow> 's \<Rightarrow> (bool \<times> u64) list \<Rightarrow> 's exec" where
  "run_cmds mark unmark s [] = Inr s"
| "run_cmds mark unmark s ((m, n) # cs) =
     bindE (if m then mark s n else unmark s n) (\<lambda>t. run_cmds mark unmark t cs)"

fun set_cmds :: "(u64 \<Rightarrow> u64) \<Rightarrow> u64 set \<Rightarrow> (bool \<times> u64) list \<Rightarrow> u64 set \<Rightarrow> u64 set" where
  "set_cmds key R [] A = A"
| "set_cmds key R ((m, n) # cs) A =
     set_cmds key R cs (if m then A \<union> ({key n} \<inter> R) else A - {key n})"

locale bitset =
  fixes inv :: "'s \<Rightarrow> bool" and pre :: "'s \<Rightarrow> u64 \<Rightarrow> bool" and key :: "'s \<Rightarrow> u64 \<Rightarrow> u64"
    and dom :: "'s \<Rightarrow> u64 set" and abs :: "'s \<Rightarrow> u64 set"
    and mark :: "'s \<Rightarrow> u64 \<Rightarrow> 's exec" and unmark :: "'s \<Rightarrow> u64 \<Rightarrow> 's exec" and test :: "'s \<Rightarrow> u64 \<Rightarrow> u8 exec"
  assumes mark: "inv s \<Longrightarrow> pre s n \<Longrightarrow> \<exists>t. mark s n = Inr t \<and> inv t \<and> pre t = pre s \<and> key t = key s \<and>
      dom t = dom s \<and> abs t = abs s \<union> ({key s n} \<inter> dom s)"
    and unmark: "inv s \<Longrightarrow> pre s n \<Longrightarrow> \<exists>t. unmark s n = Inr t \<and> inv t \<and> pre t = pre s \<and> key t = key s \<and>
      dom t = dom s \<and> abs t = abs s - {key s n}"
    and test: "inv s \<Longrightarrow> pre s n \<Longrightarrow> \<exists>v. test s n = Inr v \<and> (v \<noteq> 0 \<longleftrightarrow> key s n \<in> abs s)"
begin

lemma run_ok:
  "inv s \<Longrightarrow> \<forall>c \<in> set cs. pre s (snd c) \<Longrightarrow>
     \<exists>t. run_cmds mark unmark s cs = Inr t \<and> inv t \<and> pre t = pre s \<and> key t = key s \<and> dom t = dom s \<and>
       abs t = set_cmds (key s) (dom s) cs (abs s)"
proof (induction cs arbitrary: s)
  case (Cons c cs)
  obtain m n where c: "c = (m, n)" by (cases c)
  have n: "pre s n" using Cons.prems(2) c by simp
  obtain t where t: "(if m then mark s n else unmark s n) = Inr t" "inv t" "pre t = pre s" "key t = key s" "dom t = dom s"
    "abs t = (if m then abs s \<union> ({key s n} \<inter> dom s) else abs s - {key s n})"
    using mark [OF Cons.prems(1) n] unmark [OF Cons.prems(1) n] by (cases m) auto
  then have "\<forall>c \<in> set cs. pre t (snd c)" using Cons.prems(2) by simp
  from Cons.IH [OF t(2) this] t c show ?case by simp
qed simp

end

subsection \<open>The bytes\<close>

interpretation bytes: bitset "\<lambda>_. True" "\<lambda>a n. unat n < 8 * length a" "\<lambda>_ n. n" "\<lambda>a. {n. unat n < 8 * length a}"
    "\<lambda>a. {n. unat n \<in> bits_of a}" fast_set_bit fast_clear_bit fast_test_bit
proof (unfold_locales, goal_cases)
  case (1 a n)
  with fast_set_bit_spec [of n a] show ?case by (auto simp: word_unat_eq_iff)
next
  case (2 a n)
  with fast_clear_bit_spec [of n a] show ?case by (auto simp: word_unat_eq_iff)
next
  case (3 a n)
  with fast_test_bit_spec [of n a] show ?case by auto
qed

text \<open>The loops are sequences of marks or of unmarks.\<close>

lemma set_run_cmds: "set_run a k n = run_cmds fast_set_bit fast_clear_bit a (map (\<lambda>i. (True, k + of_nat i)) [0..<n])"
proof (induction n arbitrary: a k)
  case (Suc n)
  have "map (\<lambda>i. (True, k + of_nat i)) [0..<Suc n] = (True, k) # map (\<lambda>i. (True, k + 1 + of_nat i)) [0..<n]"
    by (simp only: upt_conv_Cons map_Suc_upt [symmetric] zero_less_Suc) (simp add: o_def add.assoc)
  then show ?case using Suc.IH by simp
qed simp

lemma clear_run_cmds: "clear_run a k n = run_cmds fast_set_bit fast_clear_bit a (map (\<lambda>i. (False, k + of_nat i)) [0..<n])"
proof (induction n arbitrary: a k)
  case (Suc n)
  have "map (\<lambda>i. (False, k + of_nat i)) [0..<Suc n] = (False, k) # map (\<lambda>i. (False, k + 1 + of_nat i)) [0..<n]"
    by (simp only: upt_conv_Cons map_Suc_upt [symmetric] zero_less_Suc) (simp add: o_def add.assoc)
  then show ?case using Suc.IH by simp
qed simp

lemma set_cmds_marks: "set_cmds (\<lambda>n. n) R (map (\<lambda>i. (True, f i)) xs) A = A \<union> (f ` set xs \<inter> R)"
  by (induction xs arbitrary: A) auto

lemma set_cmds_unmarks: "set_cmds (\<lambda>n. n) R (map (\<lambda>i. (False, f i)) xs) A = A - f ` set xs"
  by (induction xs arbitrary: A) auto

subsection \<open>The bitmaps\<close>

definition bitmap_inv :: "Ext2Bitmap \<Rightarrow> bool" where
  "bitmap_inv b \<longleftrightarrow> (EXT2_BITMAP_IS_32 b \<or> EXT2_BITMAP_IS_64 b) \<and> b_start b \<le> b_end b \<and> b_end b \<le> b_real_end b \<and>
     unat (b_real_end b - b_start b) < 8 * length (b_bitmap b) \<and>
     (EXT2_BITMAP_IS_32 b \<longrightarrow> b_cluster_bits b = 0 \<and> unat (b_real_end b) < 2 ^ 32)"

definition cluster_range :: "Ext2Bitmap \<Rightarrow> u64 set" where
  "cluster_range b = {n. b_start b \<le> n \<and> n \<le> b_end b}"

definition clusters :: "Ext2Bitmap \<Rightarrow> u64 set" where
  "clusters b = {n. n \<in> cluster_range b \<and> unat (n - b_start b) \<in> bits_of (b_bitmap b)}"

definition cluster :: "Ext2Bitmap \<Rightarrow> u64 \<Rightarrow> u64" where
  "cluster b n = drop_bit (b_cluster_bits b) n"

lemma over32_iff: "over32 n \<longleftrightarrow> 2 ^ 32 \<le> unat n"
proof -
  have m: "(0xffffffff :: u64) = mask 32" by (simp add: mask_numeral)
  have "n AND NOT (mask 32) = 0 \<longleftrightarrow> drop_bit 32 n = 0"
  proof
    assume "n AND NOT (mask 32) = 0"
    then have "drop_bit 32 (n AND NOT (mask 32)) = 0" by simp
    then show "drop_bit 32 n = 0" by (fastforce simp: bit_eq_iff bit_simps dest: bit_imp_le_length)
  next
    assume "drop_bit 32 n = 0"
    then have "push_bit 32 (drop_bit 32 n) = 0" by simp
    moreover have "n AND NOT (mask 32) = push_bit 32 (drop_bit 32 n)"
      by (rule bit_word_eqI) (auto simp: bit_simps)
    ultimately show "n AND NOT (mask 32) = 0" by simp
  qed
  then have "over32 n \<longleftrightarrow> drop_bit 32 n \<noteq> 0" unfolding over32_def m by simp
  also have "\<dots> \<longleftrightarrow> unat (drop_bit 32 n) \<noteq> 0" by (simp add: unat_eq_0)
  also have "\<dots> \<longleftrightarrow> 2 ^ 32 \<le> unat n" by (simp add: drop_bit_eq_div unat_div div_eq_0_iff not_less)
  finally show ?thesis .
qed

lemma in_range_bit:
  assumes "bitmap_inv b" "n \<in> cluster_range b"
  shows "unat (n - b_start b) < 8 * length (b_bitmap b)"
proof -
  have "n - b_start b \<le> b_real_end b - b_start b"
    using assms by (auto simp: bitmap_inv_def cluster_range_def word_le_minus_mono_left)
  then show ?thesis using assms by (auto simp: bitmap_inv_def word_le_nat_alt)
qed

lemma IS_32_not_64 [simp]: "EXT2_BITMAP_IS_32 b \<Longrightarrow> \<not> EXT2_BITMAP_IS_64 b"
  by (auto simp: EXT2_BITMAP_IS_32_def EXT2_BITMAP_IS_64_def bmap_magic_defs)

lemma bitmap_upd_simps [simp]:
  "EXT2_BITMAP_IS_32 (b\<lparr>b_bitmap := a\<rparr>) = EXT2_BITMAP_IS_32 b" "EXT2_BITMAP_IS_64 (b\<lparr>b_bitmap := a\<rparr>) = EXT2_BITMAP_IS_64 b"
  "cluster_range (b\<lparr>b_bitmap := a\<rparr>) = cluster_range b" "cluster (b\<lparr>b_bitmap := a\<rparr>) = cluster b"
  by (simp_all add: EXT2_BITMAP_IS_32_def EXT2_BITMAP_IS_64_def cluster_range_def cluster_def fun_eq_iff)

lemma bitmap_inv_upd: "bitmap_inv b \<Longrightarrow> length a = length (b_bitmap b) \<Longrightarrow> bitmap_inv (b\<lparr>b_bitmap := a\<rparr>)"
  by (simp add: bitmap_inv_def)

text \<open>On a well-formed bitmap both kinds do the same: the operation on the bit of the cluster, when
  the cluster is in range.\<close>

lemma over32_range:
  assumes "bitmap_inv b" "EXT2_BITMAP_IS_32 b" "n \<in> cluster_range b"
  shows "\<not> over32 n"
  using assms by (auto simp: bitmap_inv_def cluster_range_def over32_iff word_le_nat_alt)

lemma mark_bitmap_eq:
  assumes "bitmap_inv b"
  shows "ext2_mark_bitmap (Some b) n =
    (if cluster b n \<in> cluster_range b then bindE (ext2_bitarray_mark_bmap b (cluster b n)) (\<lambda>b'. Inr (Some b')) else Inr (Some b))"
  using assms over32_range [OF assms, of n]
  by (auto simp: ext2_mark_bitmap_def ext2_bitarray_mark_bmap_def cluster_def cluster_range_def bitmap_inv_def not_less
      not_le Let_def)

lemma unmark_bitmap_eq:
  assumes "bitmap_inv b"
  shows "ext2_unmark_bitmap (Some b) n =
    (if cluster b n \<in> cluster_range b then bindE (ext2_bitarray_unmark_bmap b (cluster b n)) (\<lambda>b'. Inr (Some b')) else Inr (Some b))"
  using assms over32_range [OF assms, of n]
  by (auto simp: ext2_unmark_bitmap_def ext2_bitarray_unmark_bmap_def cluster_def cluster_range_def bitmap_inv_def not_less
      not_le Let_def)

lemma test_bitmap_eq:
  assumes "bitmap_inv b"
  shows "ext2_test_bitmap (Some b) n =
    (if cluster b n \<in> cluster_range b then ext2_bitarray_test_bmap b (cluster b n) else Inr 0)"
  using assms over32_range [OF assms, of n]
  by (auto simp: ext2_test_bitmap_def ext2_bitarray_test_bmap_def cluster_def cluster_range_def bitmap_inv_def not_less
      not_le Let_def)

lemma clusters_upd:
  "clusters (b\<lparr>b_bitmap := a\<rparr>) = {m \<in> cluster_range b. unat (m - b_start b) \<in> bits_of a}"
  by (simp add: clusters_def)

lemma unat_offset_inj: "unat (m - s) = unat (n - s) \<longleftrightarrow> m = n" for m n s :: u64
  by (simp add: word_unat_eq_iff [symmetric])

lemma mark_spec:
  assumes "bitmap_inv b"
  shows "\<exists>b'. ext2_mark_bitmap (Some b) n = Inr (Some b') \<and> bitmap_inv b' \<and> cluster b' = cluster b \<and>
    cluster_range b' = cluster_range b \<and> clusters b' = clusters b \<union> ({cluster b n} \<inter> cluster_range b)"
proof (cases "cluster b n \<in> cluster_range b")
  case True
  from fast_set_bit_spec [OF in_range_bit [OF assms True]]
  obtain a where a: "fast_set_bit (b_bitmap b) (cluster b n - b_start b) = Inr a" "length a = length (b_bitmap b)"
    "bits_of a = insert (unat (cluster b n - b_start b)) (bits_of (b_bitmap b))" by blast
  have "clusters (b\<lparr>b_bitmap := a\<rparr>) = clusters b \<union> ({cluster b n} \<inter> cluster_range b)"
    using True by (auto simp: clusters_upd a(3) unat_offset_inj) (auto simp: clusters_def)
  then show ?thesis using True a assms
    by (simp add: mark_bitmap_eq ext2_bitarray_mark_bmap_def with_bits_def bitmap_inv_upd)
qed (simp add: mark_bitmap_eq assms)

lemma unmark_spec:
  assumes "bitmap_inv b"
  shows "\<exists>b'. ext2_unmark_bitmap (Some b) n = Inr (Some b') \<and> bitmap_inv b' \<and> cluster b' = cluster b \<and>
    cluster_range b' = cluster_range b \<and> clusters b' = clusters b - {cluster b n}"
proof (cases "cluster b n \<in> cluster_range b")
  case True
  from fast_clear_bit_spec [OF in_range_bit [OF assms True]]
  obtain a where a: "fast_clear_bit (b_bitmap b) (cluster b n - b_start b) = Inr a" "length a = length (b_bitmap b)"
    "bits_of a = bits_of (b_bitmap b) - {unat (cluster b n - b_start b)}" by blast
  have "clusters (b\<lparr>b_bitmap := a\<rparr>) = clusters b - {cluster b n}"
    using True by (auto simp: clusters_upd a(3) unat_offset_inj) (auto simp: clusters_def)
  then show ?thesis using True a assms
    by (simp add: unmark_bitmap_eq ext2_bitarray_unmark_bmap_def with_bits_def bitmap_inv_upd)
next
  case False
  then have "clusters b - {cluster b n} = clusters b" by (auto simp: clusters_def)
  then show ?thesis using False assms by (simp add: unmark_bitmap_eq)
qed

lemma test_spec:
  assumes "bitmap_inv b"
  shows "\<exists>v. ext2_test_bitmap (Some b) n = Inr v \<and> (v \<noteq> 0 \<longleftrightarrow> cluster b n \<in> clusters b)"
proof (cases "cluster b n \<in> cluster_range b")
  case True
  from fast_test_bit_spec [OF in_range_bit [OF assms True]] True show ?thesis
    by (auto simp: test_bitmap_eq assms ext2_bitarray_test_bmap_def clusters_def)
qed (simp add: test_bitmap_eq assms clusters_def)

interpretation bitmap: bitset "\<lambda>s. \<exists>b. s = Some b \<and> bitmap_inv b" "\<lambda>_ _. True" "\<lambda>s. cluster (the s)" "\<lambda>s. cluster_range (the s)"
    "\<lambda>s. clusters (the s)" ext2_mark_bitmap ext2_unmark_bitmap ext2_test_bitmap
proof (unfold_locales, goal_cases)
  case (1 s n)
  then obtain b where "s = Some b" "bitmap_inv b" by blast
  with mark_spec [of b n] show ?case by auto
next
  case (2 s n)
  then obtain b where "s = Some b" "bitmap_inv b" by blast
  with unmark_spec [of b n] show ?case by auto
next
  case (3 s n)
  then obtain b where "s = Some b" "bitmap_inv b" by blast
  with test_spec [of b n] show ?case by auto
qed

section \<open>Ranges\<close>

lemma unat_plus_small: "unat k + i < 2 ^ 64 \<Longrightarrow> unat (k + of_nat i) = unat k + i" for k :: u64
  by (simp add: unat_word_ariths take_bit_nat_eq_self unat_of_nat)

lemma set_run_spec:
  assumes "unat k + n \<le> 8 * length a" "unat k + n \<le> 2 ^ 64"
  shows "\<exists>a'. set_run a k n = Inr a' \<and> length a' = length a \<and>
    (\<forall>m :: u64. unat m \<in> bits_of a' \<longleftrightarrow> unat m \<in> bits_of a \<or> unat k \<le> unat m \<and> unat m < unat k + n)"
proof -
  let ?cs = "map (\<lambda>i. (True, k + of_nat i)) [0..<n]"
  have u: "unat (k + of_nat i) = unat k + i" if "i < n" for i
    using that assms(2) by (intro unat_plus_small) simp
  have "\<forall>c \<in> set ?cs. unat (snd c) < 8 * length a" using assms(1) u by auto
  from bytes.run_ok [OF TrueI this] obtain a' where a': "set_run a k n = Inr a'"
    "(\<lambda>m. unat m < 8 * length a') = (\<lambda>m. unat (m :: u64) < 8 * length a)"
    "{m. unat m \<in> bits_of a'} = {m. unat m \<in> bits_of a} \<union> ((\<lambda>i. k + of_nat i) ` {0..<n} \<inter> {m. unat m < 8 * length a})"
    by (auto simp: set_run_cmds set_cmds_marks)
  have "length a' = length a" using a'(1)
  proof (induction n arbitrary: a k)
    case (Suc n)
    then obtain a1 where a1: "fast_set_bit a k = Inr a1" "set_run a1 (k + 1) n = Inr a'" by (auto simp: bindE_eq_Inr_iff)
    then have "length a1 = length a"
      by (auto simp: fast_set_bit_def Let_def arr_get_def arr_set_def split: if_splits)
    with Suc.IH [OF a1(2)] show ?case by simp
  qed simp
  moreover have "m \<in> (\<lambda>i. k + of_nat i) ` {0..<n} \<longleftrightarrow> unat k \<le> unat m \<and> unat m < unat k + n" for m
  proof
    assume "m \<in> (\<lambda>i. k + of_nat i) ` {0..<n}"
    with u show "unat k \<le> unat m \<and> unat m < unat k + n" by auto
  next
    assume "unat k \<le> unat m \<and> unat m < unat k + n"
    moreover from this have "m = k + of_nat (unat m - unat k)" using u [of "unat m - unat k"]
      by (simp add: word_unat_eq_iff)
    ultimately show "m \<in> (\<lambda>i. k + of_nat i) ` {0..<n}" by (intro image_eqI [of _ _ "unat m - unat k"]) auto
  qed
  ultimately show ?thesis using a'(1,3) assms(1) by (auto simp: set_eq_iff)
qed

lemma div_image_interval:
  assumes "0 < N" "0 < (C :: nat)"
  shows "(\<lambda>n. n div C) ` {B..<B + N} = {B div C..<(B + N + (C - 1)) div C}"
proof -
  have top: "(B + N + (C - 1)) div C = Suc ((B + N - 1) div C)"
  proof -
    have "B + N + (C - 1) = (B + N - 1) + C" using assms by simp
    then show ?thesis using assms by (metis Suc_eq_plus1 div_add_self2 less_not_refl2)
  qed
  have "c \<in> (\<lambda>n. n div C) ` {B..<B + N}" if "B div C \<le> c" "c \<le> (B + N - 1) div C" for c
  proof (intro image_eqI)
    have cC: "c * C \<le> B + N - 1" using that(2) assms by (meson div_times_less_eq_dividend le_trans mult_le_mono1)
    show "max B (c * C) \<in> {B..<B + N}" using cC assms by auto
    show "c = max B (c * C) div C"
    proof (cases "B \<le> c * C")
      case False
      then have "c \<le> B div C" using assms by (simp add: less_eq_div_iff_mult_less_eq)
      then show ?thesis using False that by simp
    qed (use assms in simp)
  qed
  moreover have "B div C \<le> n div C \<and> n div C \<le> (B + N - 1) div C" if "B \<le> n" "n < B + N" for n
    using that by (simp add: div_le_mono)
  ultimately show ?thesis unfolding top by (force simp: less_Suc_eq_le)
qed

text \<open>The number of clusters of a range of blocks, and the last of them.\<close>

definition run_first :: "Ext2Bitmap \<Rightarrow> u64 \<Rightarrow> nat" where
  "run_first b block = unat block div 2 ^ b_cluster_bits b"

definition run_end :: "Ext2Bitmap \<Rightarrow> u64 \<Rightarrow> u64 \<Rightarrow> nat" where
  "run_end b block num = (unat block + unat num + (2 ^ b_cluster_bits b - 1)) div 2 ^ b_cluster_bits b"

lemma unat_cluster: "unat (cluster b n) = unat n div 2 ^ b_cluster_bits b"
  unfolding cluster_def unat_drop_bit_eq by (simp add: drop_bit_eq_div)

definition range_ok :: "Ext2Bitmap \<Rightarrow> u64 \<Rightarrow> u64 \<Rightarrow> bool" where
  "range_ok b block num \<longleftrightarrow> 0 < unat num \<and> unat num < 2 ^ 31 \<and> unat block + unat num + 2 ^ b_cluster_bits b \<le> 2 ^ 64"

lemma run_bounds:
  assumes "range_ok b block num"
  shows "run_first b block < run_end b block num" "run_end b block num - run_first b block \<le> unat num"
    "unat (cluster b (block + num - 1)) = run_end b block num - 1" "unat (block + num - 1) = unat block + unat num - 1"
proof -
  let ?C = "2 ^ b_cluster_bits b :: nat"
  have N: "0 < unat num" and sum: "unat block + unat num + ?C \<le> 2 ^ 64" using assms by (auto simp: range_ok_def)
  have img: "(\<lambda>n. n div ?C) ` {unat block..<unat block + unat num} = {run_first b block..<run_end b block num}"
    using div_image_interval [OF N, of ?C] by (simp add: run_first_def run_end_def)
  have "card ((\<lambda>n. n div ?C) ` {unat block..<unat block + unat num}) \<le> unat num"
    using card_image_le [of "{unat block..<unat block + unat num}" "\<lambda>n. n div ?C"] by simp
  then show "run_end b block num - run_first b block \<le> unat num" by (simp add: img)
  from N have "{unat block..<unat block + unat num} \<noteq> {}" by simp
  then show "run_first b block < run_end b block num" using img by (metis atLeastLessThan_empty_iff image_is_empty)
  have C: "1 \<le> ?C" by simp
  have "unat block + unat num < 2 ^ 64" using sum C by linarith
  then have "unat (block + num) = unat block + unat num" by (simp add: unat_word_ariths)
  moreover from this N have "block + num \<noteq> 0" by (metis add_gr_0 less_irrefl unat_0)
  ultimately show last: "unat (block + num - 1) = unat block + unat num - 1" by (simp add: unat_minus_one)
  have "unat block + unat num + (?C - 1) = (unat block + unat num - 1) + ?C" using N C by simp
  then have "run_end b block num = Suc ((unat block + unat num - 1) div ?C)" unfolding run_end_def
    by (simp only: div_add_self2 [of ?C] power_not_zero zero_neq_numeral not_False_eq_True Suc_eq_plus1)
  then show "unat (cluster b (block + num - 1)) = run_end b block num - 1" by (simp add: unat_cluster last)
qed

lemma sint_small:
  fixes n :: u64
  assumes "unat n < 2 ^ 31"
  shows "sint n = int (unat n)" "sint n < 2 ^ 31"
proof -
  have u: "uint n < 2 ^ 31" using assms by (simp add: nat_less_iff flip: nat_uint_eq)
  moreover have "0 \<le> uint n" by simp
  ultimately have "sint n = uint n" unfolding sint_uint by (intro signed_take_bit_int_eq_self) (auto intro: order_trans [of _ 0])
  then show "sint n = int (unat n)" "sint n < 2 ^ 31" using u by simp_all
qed

lemma unat_pow_minus_1: "k < 64 \<Longrightarrow> unat (2 ^ k - 1 :: u64) = 2 ^ k - 1"
proof -
  assume k: "k < 64"
  then have "(2 :: nat) ^ k < 2 ^ 64" by (intro power_strict_increasing) simp_all
  then have "take_bit 64 (2 ^ k :: nat) = 2 ^ k" by (rule take_bit_nat_eq_self)
  then have "unat (of_nat (2 ^ k) :: u64) = 2 ^ k" unfolding unsigned_of_nat by simp
  then have "unat (2 ^ k :: u64) = 2 ^ k" by simp
  then show ?thesis by (metis unat_minus_one unat_0 power_not_zero zero_neq_numeral)
qed

lemma mark_range_eq:
  assumes "bitmap_inv b" "range_ok b block num"
  shows "ext2_mark_block_bitmap_range (Some b) block num =
    (if cluster b block \<in> cluster_range b \<and> cluster b (block + num - 1) \<in> cluster_range b
     then bindE (with_bits b (set_run (b_bitmap b) (cluster b block - b_start b) (run_end b block num - run_first b block)))
       (\<lambda>b'. Inr (Some b'))
     else Inr (Some b))"
proof -
  let ?C = "2 ^ b_cluster_bits b :: nat"
  note bounds = run_bounds [OF assms(2)]
  have num: "unat num < 2 ^ 31" "0 < unat num" "unat block + unat num + ?C \<le> 2 ^ 64" using assms(2) by (auto simp: range_ok_def)
  have mono: "cluster b block \<le> cluster b (block + num - 1)"
    using bounds(3,1) by (simp add: word_le_nat_alt unat_cluster run_first_def [symmetric])
  have in_iff: "cluster b block \<in> cluster_range b \<and> cluster b (block + num - 1) \<in> cluster_range b \<longleftrightarrow>
      \<not> (cluster b block < b_start b \<or> cluster b block > b_end b \<or> cluster b (block + num - 1) > b_end b)"
    using mono by (auto simp: cluster_range_def)
  show ?thesis
  proof (cases "EXT2_BITMAP_IS_32 b")
    case True
    then have c: "cluster b n = n" for n using assms(1) by (simp add: bitmap_inv_def cluster_def)
    have cnt: "run_end b block num - run_first b block = nat (sint num)"
      using True assms(1) sint_small(1) [OF num(1)] by (simp add: run_end_def run_first_def bitmap_inv_def)
    then show ?thesis
      using True in_iff over32_range [OF assms(1) True] sint_small(2) [OF num(1)] by (auto simp: ext2_mark_block_bitmap_range_def c)
  next
    case False
    then have is64: "EXT2_BITMAP_IS_64 b" using assms(1) by (simp add: bitmap_inv_def)
    have last: "unat (drop_bit (b_cluster_bits b) (block + num + (2 ^ b_cluster_bits b - 1))) = run_end b block num"
    proof -
      have C: "1 \<le> ?C" by simp
      have "?C < 2 ^ 64" using num(2,3) by linarith
      then have "b_cluster_bits b < 64" using power_less_imp_less_exp [of "2 :: nat" "b_cluster_bits b" 64] by simp
      then have "unat (2 ^ b_cluster_bits b - 1 :: u64) = ?C - 1" by (rule unat_pow_minus_1)
      moreover have "unat block + unat num < 2 ^ 64" "unat block + unat num + (?C - 1) < 2 ^ 64" using num(3) C by linarith+
      ultimately have "unat (block + num + (2 ^ b_cluster_bits b - 1)) = unat block + unat num + (?C - 1)"
        by (simp add: unat_word_ariths)
      then show ?thesis unfolding unat_drop_bit_eq by (simp add: drop_bit_eq_div run_end_def)
    qed
    define last' where "last' = drop_bit (b_cluster_bits b) (block + num + (2 ^ b_cluster_bits b - 1))"
    have "last' \<noteq> 0" using last bounds(1) by (auto simp: last'_def)
    then have l1: "last' - 1 = cluster b (block + num - 1)"
      using last bounds(3) by (simp add: word_unat_eq_iff unat_minus_one last'_def)
    have n: "unat (last' - cluster b block) = run_end b block num - run_first b block"
      using last bounds(1) by (simp add: unat_sub word_le_nat_alt last'_def unat_cluster run_first_def)
    then have n32: "unat (ucast (last' - cluster b block) :: u32) = run_end b block num - run_first b block"
      using bounds(2) num(1) by (simp add: unsigned_ucast_eq take_bit_nat_eq_self)
    have sum: "cluster b block + (last' - cluster b block) - 1 = cluster b (block + num - 1)"
      by (simp add: l1)
    show ?thesis
      using False is64 in_iff n32 sum
      by (simp add: ext2_mark_block_bitmap_range_def ext2_bitarray_mark_bmap_extent_def Let_def
          last'_def [symmetric] cluster_def [of b block, symmetric])
  qed
qed

lemma mark_range_clusters:
  assumes inv: "bitmap_inv b" and ok: "range_ok b block num"
    and R: "cluster b block \<in> cluster_range b" "cluster b (block + num - 1) \<in> cluster_range b"
  shows "\<exists>b'. ext2_mark_block_bitmap_range (Some b) block num = Inr (Some b') \<and> bitmap_inv b' \<and>
    clusters b' = clusters b \<union> {m. run_first b block \<le> unat m \<and> unat m < run_end b block num}"
proof -
  let ?k = "cluster b block - b_start b" and ?n = "run_end b block num - run_first b block"
  note bounds = run_bounds [OF ok]
  have first: "unat (cluster b block) = run_first b block" by (simp add: unat_cluster run_first_def)
  have sub: "unat (m - b_start b) = unat m - unat (b_start b)" "unat (b_start b) \<le> unat m" if "m \<in> cluster_range b" for m
    using that by (auto simp: cluster_range_def unat_sub word_le_nat_alt)
  have k: "unat ?k + ?n = Suc (unat (cluster b (block + num - 1) - b_start b))"
    using sub [OF R(1)] sub [OF R(2)] bounds(1,3) first by simp
  then have "unat ?k + ?n \<le> 8 * length (b_bitmap b)" using in_range_bit [OF inv R(2)] by simp
  moreover have "unat ?k + ?n \<le> 2 ^ 64" 
    using k unsigned_less [of "cluster b (block + num - 1) - b_start b", where 'a = nat] by simp
  ultimately obtain a where a: "set_run (b_bitmap b) ?k ?n = Inr a" "length a = length (b_bitmap b)"
    "\<forall>m :: u64. unat m \<in> bits_of a \<longleftrightarrow> unat m \<in> bits_of (b_bitmap b) \<or> unat ?k \<le> unat m \<and> unat m < unat ?k + ?n"
    using set_run_spec by blast
  have "unat ?k \<le> unat (m - b_start b) \<and> unat (m - b_start b) < unat ?k + ?n \<longleftrightarrow>
      run_first b block \<le> unat m \<and> unat m < run_end b block num" if "m \<in> cluster_range b" for m
    using sub [OF that] sub [OF R(1)] bounds(1) first by auto
  moreover have "m \<in> cluster_range b" if "run_first b block \<le> unat m" "unat m < run_end b block num" for m
    using that R bounds(3) first by (auto simp: cluster_range_def word_le_nat_alt)
  ultimately have "clusters (b\<lparr>b_bitmap := a\<rparr>) = clusters b \<union> {m. run_first b block \<le> unat m \<and> unat m < run_end b block num}"
    using a(3) by (auto simp: clusters_def)
  then show ?thesis using R a(1,2) bitmap_inv_upd [OF inv a(2)]
    by (simp add: mark_range_eq [OF inv ok] with_bits_def)
qed

lemma cluster_image:
  assumes "range_ok b block num"
  shows "cluster b ` {n. block \<le> n \<and> n \<le> block + num - 1} = {m. run_first b block \<le> unat m \<and> unat m < run_end b block num}"
proof -
  let ?C = "2 ^ b_cluster_bits b :: nat"
  have N: "0 < unat num" and sum: "unat block + unat num + ?C \<le> 2 ^ 64" using assms by (auto simp: range_ok_def)
  have img: "(\<lambda>n. n div ?C) ` {unat block..<unat block + unat num} = {run_first b block..<run_end b block num}"
    using div_image_interval [OF N, of ?C] by (simp add: run_first_def run_end_def)
  have mem: "block \<le> n \<and> n \<le> block + num - 1 \<longleftrightarrow> unat n \<in> {unat block..<unat block + unat num}" for n
    using run_bounds(4) [OF assms] N by (auto simp: word_le_nat_alt)
  show ?thesis
  proof (intro set_eqI iffI)
    fix m assume "m \<in> cluster b ` {n. block \<le> n \<and> n \<le> block + num - 1}"
    then obtain n where "m = cluster b n" "unat n \<in> {unat block..<unat block + unat num}" using mem by blast
    then have "unat m \<in> (\<lambda>n. n div ?C) ` {unat block..<unat block + unat num}" by (simp add: unat_cluster)
    then show "m \<in> {m. run_first b block \<le> unat m \<and> unat m < run_end b block num}" by (simp add: img)
  next
    fix m :: u64 assume "m \<in> {m. run_first b block \<le> unat m \<and> unat m < run_end b block num}"
    then have "unat m \<in> (\<lambda>n. n div ?C) ` {unat block..<unat block + unat num}" by (simp add: img)
    then obtain n where n: "n \<in> {unat block..<unat block + unat num}" "unat m = n div ?C" by blast
    have "n < 2 ^ 64" using n(1) sum by simp
    then have "unat (of_nat n :: u64) = n" by (simp add: unat_of_nat take_bit_nat_eq_self)
    then have "m = cluster b (of_nat n)" "unat (of_nat n :: u64) \<in> {unat block..<unat block + unat num}"
      using n by (simp_all add: word_unat_eq_iff unat_cluster)
    then show "m \<in> cluster b ` {n. block \<le> n \<and> n \<le> block + num - 1}" using mem by blast
  qed
qed

section \<open>Search\<close>

lemma find_zero_32_spec:
  assumes "\<And>m. unat start \<le> unat m \<Longrightarrow> unat m < unat start + n \<Longrightarrow> m \<in> cluster_range b" "bitmap_inv b"
    "unat start + n \<le> 2 ^ 64"
  shows "\<exists>r. find_zero_32 b start n = Inr r \<and>
    (case r of Inl e \<Rightarrow> e = - ENOENT \<and> (\<forall>m. unat start \<le> unat m \<and> unat m < unat start + n \<longrightarrow> m \<in> clusters b)
     | Inr z \<Rightarrow> unat start \<le> unat z \<and> unat z < unat start + n \<and> z \<notin> clusters b \<and>
         (\<forall>m. unat start \<le> unat m \<and> unat m < unat z \<longrightarrow> m \<in> clusters b))"
  using assms
proof (induction n arbitrary: start)
  case (Suc n)
  have R: "start \<in> cluster_range b" using Suc.prems(1) by simp
  obtain t where t: "fast_test_bit (b_bitmap b) (start - b_start b) = Inr t" "t \<noteq> 0 \<longleftrightarrow> start \<in> clusters b"
    using fast_test_bit_spec [OF in_range_bit [OF Suc.prems(2) R]] R by (auto simp: clusters_def)
  show ?case
  proof (cases "t = 0")
    case True
    then show ?thesis using t by auto
  next
    case False
    show ?thesis
    proof (cases n)
      case 0
      have "m = start" if "unat start \<le> unat m" "unat m < unat start + 1" for m
        using that by (simp add: word_unat_eq_iff)
      then show ?thesis using t False 0 by auto
    next
      case (Suc k)
      then have next_unat: "unat (start + 1) = unat start + 1"
        using Suc.prems(3) unat_plus_small [of start 1] by simp
      have split: "unat start \<le> unat m \<longleftrightarrow> m = start \<or> unat start + 1 \<le> unat m" for m :: u64
        by (auto simp: word_unat_eq_iff)
      have "\<And>m. unat (start + 1) \<le> unat m \<Longrightarrow> unat m < unat (start + 1) + n \<Longrightarrow> m \<in> cluster_range b"
        using Suc.prems(1) by (simp add: next_unat)
      moreover have "unat (start + 1) + n \<le> 2 ^ 64" using Suc.prems(3) by (simp add: next_unat)
      ultimately obtain r where r: "find_zero_32 b (start + 1) n = Inr r"
        "case r of Inl e \<Rightarrow> e = - ENOENT \<and> (\<forall>m. unat start + 1 \<le> unat m \<and> unat m < unat start + 1 + n \<longrightarrow> m \<in> clusters b)
         | Inr z \<Rightarrow> unat start + 1 \<le> unat z \<and> unat z < unat start + 1 + n \<and> z \<notin> clusters b \<and>
             (\<forall>m. unat start + 1 \<le> unat m \<and> unat m < unat z \<longrightarrow> m \<in> clusters b)"
        using Suc.IH [of "start + 1"] Suc.prems(2) unfolding next_unat by blast
      show ?thesis using t False r by (cases r) (auto simp: split)
    qed
  qed
qed auto

text \<open>A search of a single bit.\<close>

lemma find_first_single:
  assumes "unat (n - b_start b) < 8 * length (b_bitmap b)" "unat (n - b_start b) < 2 ^ 32"
  shows "find_first v base b n n = Inr (if (unat (n - b_start b) \<in> bits_of (b_bitmap b)) = v then Inr n else Inl (- ENOENT))"
proof -
  define p where "p = (ucast (n - b_start b) :: u32)"
  have up: "ucast p = n - b_start b"
    using assms(2) by (simp add: p_def word_unat_eq_iff unsigned_ucast_eq unsigned_take_bit_eq take_bit_nat_eq_self)
  obtain t where t: "fast_test_bit (b_bitmap b) (ucast p) = Inr t" "t \<noteq> 0 \<longleftrightarrow> unat (n - b_start b) \<in> bits_of (b_bitmap b)"
    using fast_test_bit_spec [OF assms(1)] up by auto
  have scan: "scan_bits v (b_bitmap b) p 1 = Inr (if (t \<noteq> 0) = v then Some p else None)"
    using t(1) by (simp add: One_nat_def)
  have middle: "find_middle v (b_bitmap b) q p 1 = Inr (p, 1)" for q
    by (simp add: find_middle_def)
  have bytes: "align_bytes v (b_bitmap b) base q p 1 = Inr (False, q, p, 1)" for q
    by (subst align_bytes.simps) (simp add: word_le_nat_alt)
  have bits0: "align_bits v (b_bitmap b) q 0 = Inr (None, q, 0)" for q by (subst align_bits.simps) simp
  have "align_bits v (b_bitmap b) p 1 =
      Inr (if p AND 7 = 0 then (None, p, 1) else if (t \<noteq> 0) = v then (Some p, p, 1) else (None, p + 1, 0))"
    by (subst align_bits.simps) (simp add: t(1) bits0)
  then show ?thesis
    using t(2) scan middle bytes up by (simp add: find_first_def Let_def p_def [symmetric])
qed

lemma zero_search_32:
  assumes inv: "bitmap_inv b" and is32: "EXT2_BITMAP_IS_32 b" and R: "start \<in> cluster_range b" and "start \<le> end" "end \<le> b_end b"
  shows "\<exists>r. ext2_find_first_zero_bitmap base (Some b) start end = Inr r \<and>
    (case r of Inl e \<Rightarrow> e = - ENOENT \<and> (\<forall>m. start \<le> m \<and> m \<le> end \<longrightarrow> m \<in> clusters b)
     | Inr z \<Rightarrow> start \<le> z \<and> z \<le> end \<and> z \<notin> clusters b \<and> (\<forall>m. start \<le> m \<and> m < z \<longrightarrow> m \<in> clusters b))"
proof -
  let ?n = "unat end + 1 - unat start"
  have le: "unat start \<le> unat end" using assms(4) by (simp add: word_le_nat_alt)
  have iff: "unat start \<le> unat m \<and> unat m < unat start + ?n \<longleftrightarrow> start \<le> m \<and> m \<le> end" for m
    using le by (auto simp: word_le_nat_alt)
  have s: "b_start b \<le> start" "start \<le> b_end b" using R by (auto simp: cluster_range_def)
  have "m \<in> cluster_range b" if "unat start \<le> unat m" "unat m < unat start + ?n" for m
    using that iff [of m] s assms(5) by (auto simp: cluster_range_def)
  moreover have "unat start + ?n \<le> 2 ^ 64" using le unsigned_less [of "end", where 'a = nat] by simp
  ultimately obtain r where r: "find_zero_32 b start ?n = Inr r"
    "case r of Inl e \<Rightarrow> e = - ENOENT \<and> (\<forall>m. unat start \<le> unat m \<and> unat m < unat start + ?n \<longrightarrow> m \<in> clusters b)
     | Inr z \<Rightarrow> unat start \<le> unat z \<and> unat z < unat start + ?n \<and> z \<notin> clusters b \<and>
         (\<forall>m. unat start \<le> unat m \<and> unat m < unat z \<longrightarrow> m \<in> clusters b)"
    using find_zero_32_spec [OF _ inv] by blast
  have "\<not> over32 start" "\<not> over32 end"
    using s assms(4,5) by (auto intro!: over32_range [OF inv is32] simp: cluster_range_def)
  then have "ext2_find_first_zero_bitmap base (Some b) start end = Inr r"
    using is32 s assms(4,5) r(1) by (auto simp: ext2_find_first_zero_bitmap_def)
  then show ?thesis using r(2) iff by (cases r) (auto simp: word_le_nat_alt word_less_nat_alt)
qed

lemma zero_search_64:
  assumes "bitmap_inv b" "EXT2_BITMAP_IS_64 b" "cluster b start \<in> cluster_range b" "start \<le> end"
    "unat (cluster b start - b_start b) < 2 ^ 32"
  shows "ext2_find_first_zero_bitmap base (Some b) start end =
    Inr (if cluster b start \<in> clusters b then Inl (- ENOENT) else Inr start)"
proof -
  have "push_bit (b_cluster_bits b) (cluster b start) = start AND NOT (mask (b_cluster_bits b))"
    by (rule bit_word_eqI) (auto simp: cluster_def bit_simps)
  then have le: "push_bit (b_cluster_bits b) (cluster b start) \<le> start" by (simp add: word_and_le2)
  have not32: "\<not> EXT2_BITMAP_IS_32 b" using assms(2) IS_32_not_64 by blast
  have "ext2_bitarray_find_first_zero base b (cluster b start) (cluster b start) =
      Inr (if cluster b start \<in> clusters b then Inl (- ENOENT) else Inr (cluster b start))"
    using find_first_single [OF in_range_bit [OF assms(1,3)] assms(5)] assms(3)
    by (auto simp: ext2_bitarray_find_first_zero_def clusters_def)
  then show ?thesis
    using assms(2,3,4) le not32
    by (auto simp: ext2_find_first_zero_bitmap_def Let_def cluster_def [symmetric] cluster_range_def)
qed

section \<open>Copying ranges\<close>

lemma copy_in_out:
  assumes "copy_in a i n d = Inr a'"
  shows "copy_out a' i n = Inr (take n d)" "length a' = length a"
proof -
  have ok: "i + n \<le> length a" "n \<le> length d" and a': "a' = take i a @ take n d @ drop (i + n) a"
    using assms by (auto simp: copy_in_def split: if_splits)
  then show "length a' = length a" by simp
  have "take n (drop i a') = take n d" using ok by (simp add: a')
  then show "copy_out a' i n = Inr (take n d)" using ok by (simp add: copy_out_def a')
qed

lemma copy_in_bit:
  assumes "copy_in a i n d = Inr a'" "k < 8 * n"
  shows "8 * i + k \<in> bits_of a' \<longleftrightarrow> k \<in> bits_of d"
proof -
  have ok: "i + n \<le> length a" "n \<le> length d" and a': "a' = take i a @ take n d @ drop (i + n) a"
    using assms(1) by (auto simp: copy_in_def split: if_splits)
  have k: "k div 8 < n" using assms(2) by (simp add: div_less_iff_less_mult mult.commute)
  then have "a' ! (i + k div 8) = d ! (k div 8)" using ok by (simp add: a' nth_append)
  then show ?thesis using assms(2) ok copy_in_out(2) [OF assms(1)] by (simp add: bits_of_def)
qed

lemma unat_ucast_up: "unat (ucast x :: u64) = unat x" for x :: u32
  using unat_lt_2p32 [of x] by (simp add: unsigned_ucast_eq take_bit_nat_eq_self)

text \<open>The bytes of a range that lies inside the bitmap are inside the bit array.\<close>

lemma range_in_array:
  assumes "bitmap_inv b" "EXT2_BITMAP_IS_32 b" "\<not> range_outside b start num" "0 < unat num" "unat num + 7 < 2 ^ 32"
    "unat start < 2 ^ 32"
  shows "unat (drop_bit 3 (start - b_start b)) + range_bytes num \<le> length (b_bitmap b)"
proof -
  have num7: "unat (num + 7) = unat num + 7" using assms(5) by (simp add: unat_word_ariths)
  then have bytes: "range_bytes num = (unat num + 7) div 8"
    by (simp add: range_bytes_def drop_bit_eq_div unat_div)
  have le: "b_start b \<le> start" "start + ucast num - 1 \<le> b_real_end b" "\<not> over32 (start + ucast num - 1)"
    using assms(3) by (auto simp: range_outside_def)
  have "unat (start + ucast num) = unat start + unat num"
    using assms(5,6) by (simp add: unat_word_ariths unat_ucast_up)
  moreover from this have "start + ucast num \<noteq> 0" using assms(4) by (metis add_is_0 less_irrefl unat_0)
  ultimately have last: "unat (start + ucast num - 1) = unat start + unat num - 1" by (simp add: unat_minus_one)
  have "unat (b_real_end b - b_start b) = unat (b_real_end b) - unat (b_start b)" "unat (start - b_start b) = unat start - unat (b_start b)"
    using assms(1) le(1) by (auto simp: bitmap_inv_def unat_sub)
  then have "unat (start - b_start b) + unat num \<le> 8 * length (b_bitmap b)"
    using le(1,2) last assms(1,4) by (auto simp: word_le_nat_alt bitmap_inv_def)
  then show ?thesis unfolding unat_drop_3 bytes by linarith
qed

section \<open>Properties\<close>

text \<open>A new bitmap is well-formed and empty.\<close>

lemma unat_and_not_3: "unat (w AND NOT 3) = unat w div 4 * 4" for w :: u32
proof -
  have m: "(3 :: u32) = mask 2" by (simp add: mask_numeral)
  have "Suc (Suc (n - 2)) = n" if "\<not> n < 2" for n using that by simp
  then have "w AND NOT (mask 2) = push_bit 2 (drop_bit 2 w)"
    by (intro bit_word_eqI) (auto simp: bit_simps not_less [symmetric])
  moreover have "unat w div 4 * 4 < 4294967296"
    using unat_lt_2p32 [of w] by (meson div_times_less_eq_dividend le_less_trans)
  ultimately show ?thesis unfolding m
    by (simp add: push_bit_eq_mult unat_word_ariths drop_bit_eq_div unat_div)
qed

lemma make_bitmap_32_new:
  assumes "start \<le> end" "end \<le> real_end" "magic = EXT2_BMAP_MAGIC_BLOCK \<or> magic = EXT2_BMAP_MAGIC_INODE"
  shows "\<exists>b. ext2_make_bitmap_32 True True magic start end real_end None = Inr (0, Some b) \<and> bitmap_inv b \<and> clusters b = {}"
proof -
  let ?size = "unat (((real_end - start) div 8 + 1 + 7) AND NOT 3)"
  define d where "d = (real_end - start) div 8"
  have d: "unat d = unat (real_end - start) div 8" by (simp add: d_def unat_div)
  then have "unat d < 2 ^ 29" using unat_lt_2p32 [of "real_end - start"] by simp
  then have "unat (d + 8) = unat d + 8" by (simp add: unat_plus_no_wrap)
  then have "unat ((real_end - start) div 8 + 1 + 7) = unat (real_end - start) div 8 + 8"
    unfolding d_def [symmetric] d [symmetric] by (simp add: add.assoc)
  then have size: "unat (real_end - start) < 8 * ?size" unfolding unat_and_not_3 by simp
  have le: "unat start \<le> unat real_end" "unat end \<le> unat real_end" "unat start \<le> unat end"
    using assms by (auto simp: word_le_nat_alt)
  have "unat (ucast real_end - ucast start :: u64) = unat (real_end - start)"
    using le by (simp add: unat_sub word_le_nat_alt unat_ucast_up)
  then show ?thesis
    using assms size le unat_lt_2p32 [of real_end]
    by (auto simp: ext2_make_bitmap_32_def Let_def bitmap_inv_def EXT2_BITMAP_IS_32_def EXT2_BITMAP_IS_64_def
        bmap_magic_defs clusters_def word_le_nat_alt unat_ucast_up)
qed

lemma make_bitmap_64_new:
  assumes "start \<le> end" "end \<le> real_end" "unat (real_end - start) < 2 ^ 34"
    "magic = EXT2_BMAP_MAGIC_BLOCK64 \<or> magic = EXT2_BMAP_MAGIC_INODE64"
  shows "\<exists>b. ext2_make_bitmap_64 True True True bits magic EXT2_BMAP64_BITARRAY start end real_end = (0, Some b) \<and>
    bitmap_inv b \<and> clusters b = {}"
proof -
  define d where "d = (real_end - start) div 8"
  have d: "unat d = unat (real_end - start) div 8" by (simp add: d_def unat_div)
  then have "unat d < 2 ^ 31" using assms(3) by simp
  moreover from this have "unat (d + 1) = unat d + 1" using unat_plus_small [of d 1] by simp
  ultimately have "unat (ucast (d + 1) :: u32) = unat d + 1" by (simp add: unsigned_ucast_eq take_bit_nat_eq_self)
  then have "unat (ucast ((real_end - start) div 8 + 1) :: u32) = unat (real_end - start) div 8 + 1"
    by (simp only: d_def d [unfolded d_def])
  then show ?thesis
    using assms by (auto simp: ext2_make_bitmap_64_def ext2_bitarray_new_bmap_def bitmap_inv_def EXT2_BITMAP_IS_32_def
        EXT2_BITMAP_IS_64_def bmap_magic_defs clusters_def Let_def simp flip: replicate_Suc)
qed

text \<open>
  C23: the ext2 bitmaps implement sets of clusters. On a well-formed bitmap, of 32 or of 64 bits, any sequence of
  \<^verbatim>\<open>ext2_mark_bitmap\<close> and \<^verbatim>\<open>ext2_unmark_bitmap\<close> calls, whatever their arguments, stays inside the bit array and
  yields a well-formed bitmap whose set is the one the calls describe; numbers outside the range have no
  effect; \<^verbatim>\<open>ext2_test_bitmap\<close> then answers membership for every number.
\<close>

theorem bitmap_calls_refine:
  assumes "bitmap_inv b"
  shows "\<exists>b'. run_cmds ext2_mark_bitmap ext2_unmark_bitmap (Some b) cs = Inr (Some b') \<and> bitmap_inv b' \<and>
    clusters b' = set_cmds (cluster b) (cluster_range b) cs (clusters b) \<and>
    (\<forall>n. \<exists>v. ext2_test_bitmap (Some b') n = Inr v \<and> (v \<noteq> 0 \<longleftrightarrow> cluster b n \<in> clusters b'))"
proof -
  obtain b' where b': "run_cmds ext2_mark_bitmap ext2_unmark_bitmap (Some b) cs = Inr (Some b')" "bitmap_inv b'"
    "cluster b' = cluster b" "clusters b' = set_cmds (cluster b) (cluster_range b) cs (clusters b)"
    using bitmap.run_ok [of "Some b" cs] assms by auto
  then show ?thesis using test_spec [OF b'(2)] by (intro exI [of _ b']) simp
qed

definition sample_bitmap :: Ext2Bitmap where
  "sample_bitmap = \<lparr>b_magic = 4, b_start = 1, b_end = 16, b_real_end = 16, b_cluster_bits = 2, b_bitmap = [0, 0]\<rparr>"

lemma sample_bitmap_inv: "bitmap_inv sample_bitmap"
  by (simp add: bitmap_inv_def sample_bitmap_def EXT2_BITMAP_IS_32_def EXT2_BITMAP_IS_64_def bmap_magic_defs)

lemma sample_clusters: "clusters sample_bitmap = {}"
  using bits_of_zero [of 2] by (simp add: clusters_def sample_bitmap_def numeral_2_eq_2)

theorem bitmap_calls_refine_witness:
  "\<exists>b'. run_cmds ext2_mark_bitmap ext2_unmark_bitmap (Some sample_bitmap) [(True, 13), (True, 40), (False, 15)] = Inr (Some b') \<and>
     clusters b' = {10}"
  using bitmap_calls_refine [OF sample_bitmap_inv, of "[(True, 13), (True, 40), (False, 15)]"]
  by (auto simp: sample_clusters cluster_def cluster_range_def) (auto simp: sample_bitmap_def)

text \<open>
  \<^verbatim>\<open>ext2_mark_block_bitmap_range\<close> marks exactly the clusters that hold a block of the range: for a range of 1 to
  $2^{31} - 1$ blocks that does not run over the end of the 64-bit block numbers, all clusters are marked and no
  other changes when the first and the last are in the range of the bitmap; otherwise nothing changes.
\<close>

theorem mark_range_exact:
  assumes "bitmap_inv b" "0 < unat num" "unat num < 2 ^ 31" "unat block + unat num + 2 ^ b_cluster_bits b \<le> 2 ^ 64"
  shows "\<exists>b'. ext2_mark_block_bitmap_range (Some b) block num = Inr (Some b') \<and> bitmap_inv b' \<and>
    (if cluster b block \<in> cluster_range b \<and> cluster b (block + num - 1) \<in> cluster_range b
     then clusters b' = clusters b \<union> cluster b ` {n. block \<le> n \<and> n \<le> block + num - 1}
     else b' = b)"
proof -
  have ok: "range_ok b block num" using assms by (simp add: range_ok_def)
  show ?thesis
    using mark_range_clusters [OF assms(1) ok] assms(1) by (simp add: cluster_image [OF ok] mark_range_eq [OF assms(1) ok])
qed

theorem mark_range_exact_witness:
  "\<exists>b'. ext2_mark_block_bitmap_range (Some sample_bitmap) 6 3 = Inr (Some b') \<and>
     clusters b' = clusters sample_bitmap \<union> cluster sample_bitmap ` {n. 6 \<le> n \<and> n \<le> 6 + 3 - 1}"
  using mark_range_exact [OF sample_bitmap_inv, of 3 6]
  by (auto simp: sample_bitmap_def cluster_def cluster_range_def split: if_splits)

text \<open>
  C24: loading a range into a 32-bit bitmap and reading it back. For a range inside the bitmap that starts at a
  byte boundary, \<^verbatim>\<open>ext2_set_bitmap_range\<close> succeeds, block \<open>start + k\<close> is then marked exactly if bit \<open>k\<close> of the data
  is set, and \<^verbatim>\<open>ext2_get_bitmap_range\<close> returns the data.
\<close>

theorem bitmap_range_roundtrip:
  assumes "bitmap_inv b" "EXT2_BITMAP_IS_32 b" "\<not> range_outside b start num" "0 < unat num" "unat num + 7 < 2 ^ 32"
    "unat start < 2 ^ 32" "range_bytes num \<le> length data" "unat (start - b_start b) mod 8 = 0"
  shows "\<exists>b'. ext2_set_bitmap_range (Some b) start num data = Inr (0, Some b') \<and> bitmap_inv b' \<and>
    ext2_get_bitmap_range (Some b') start num = Inr (Inr (take (range_bytes num) data)) \<and>
    (\<forall>k < unat num. start + of_nat k \<le> b_end b \<longrightarrow> (start + of_nat k \<in> clusters b' \<longleftrightarrow> k \<in> bits_of data))"
proof -
  let ?i = "unat (drop_bit 3 (start - b_start b))" and ?n = "range_bytes num"
  obtain a where a: "copy_in (b_bitmap b) ?i ?n data = Inr a"
    using range_in_array [OF assms(1-6)] assms(7) by (simp add: copy_in_def)
  let ?b = "b\<lparr>b_bitmap := a\<rparr>"
  have set: "ext2_set_bitmap_range (Some b) start num data = Inr (0, Some ?b)"
    using assms(2,3) a by (simp add: ext2_set_bitmap_range_def with_bits_def)
  have get: "ext2_get_bitmap_range (Some ?b) start num = Inr (Inr (take ?n data))"
    using assms(2,3) copy_in_out(1) [OF a] by (simp add: ext2_get_bitmap_range_def range_outside_def)
  have le: "b_start b \<le> start" using assms(3) by (simp add: range_outside_def not_less)
  have n: "unat num \<le> 8 * ?n"
    using assms(5) by (simp add: range_bytes_def drop_bit_eq_div unat_div unat_word_ariths)
  have "start + of_nat k \<in> clusters ?b \<longleftrightarrow> k \<in> bits_of data" if "k < unat num" "start + of_nat k \<le> b_end b" for k
  proof -
    have s: "unat (start + of_nat k) = unat start + k" using that assms(5,6) by (intro unat_plus_small) simp
    then have "unat (start + of_nat k - b_start b) = unat (start - b_start b) + k"
      using le by (simp add: unat_sub word_le_nat_alt)
    also have "\<dots> = 8 * ?i + k" using assms(8) unfolding unat_drop_3 by presburger
    finally have "unat (start + of_nat k - b_start b) \<in> bits_of a \<longleftrightarrow> k \<in> bits_of data"
      using copy_in_bit [OF a, of k] that n by simp
    moreover have "start + of_nat k \<in> cluster_range b" using le s that by (simp add: cluster_range_def word_le_nat_alt)
    ultimately show ?thesis by (simp add: clusters_upd)
  qed
  then show ?thesis using set get bitmap_inv_upd [OF assms(1) copy_in_out(2) [OF a]] by blast
qed

definition sample_bitmap_32 :: Ext2Bitmap where
  "sample_bitmap_32 = \<lparr>b_magic = 1, b_start = 1, b_end = 16, b_real_end = 16, b_cluster_bits = 0, b_bitmap = [0xff, 3]\<rparr>"

lemma sample_bitmap_32_inv: "bitmap_inv sample_bitmap_32" "EXT2_BITMAP_IS_32 sample_bitmap_32"
  by (simp_all add: bitmap_inv_def sample_bitmap_32_def EXT2_BITMAP_IS_32_def EXT2_BITMAP_IS_64_def bmap_magic_defs)

theorem bitmap_range_roundtrip_witness:
  "\<exists>b'. ext2_set_bitmap_range (Some sample_bitmap_32) 9 8 [5] = Inr (0, Some b') \<and>
     ext2_get_bitmap_range (Some b') 9 8 = Inr (Inr [5])"
  using bitmap_range_roundtrip [OF sample_bitmap_32_inv, of 9 8 "[5]"]
  by (auto simp: sample_bitmap_32_def range_outside_def over32_iff range_bytes_def)

text \<open>
  C25: the search for a free block. On a 32-bit bitmap \<^verbatim>\<open>ext2_find_first_zero_bitmap\<close> returns the least unmarked
  block of the range, and \<^verbatim>\<open>ENOENT\<close> exactly when all its blocks are marked. On a 64-bit bitmap it only
  looks at the cluster of the first block: the result is that block if its cluster is unmarked, and
  \<^verbatim>\<open>ENOENT\<close> otherwise.
\<close>

theorem find_first_zero_correct:
  assumes "bitmap_inv b" "cluster b start \<in> cluster_range b" "start \<le> end" "unat (cluster b start - b_start b) < 2 ^ 32"
  shows "if EXT2_BITMAP_IS_32 b
    then end \<le> b_end b \<longrightarrow> (\<exists>r. ext2_find_first_zero_bitmap base (Some b) start end = Inr r \<and>
      (case r of Inl e \<Rightarrow> e = - ENOENT \<and> (\<forall>m. start \<le> m \<and> m \<le> end \<longrightarrow> m \<in> clusters b)
       | Inr z \<Rightarrow> start \<le> z \<and> z \<le> end \<and> z \<notin> clusters b \<and> (\<forall>m. start \<le> m \<and> m < z \<longrightarrow> m \<in> clusters b)))
    else ext2_find_first_zero_bitmap base (Some b) start end =
      Inr (if cluster b start \<in> clusters b then Inl (- ENOENT) else Inr start)"
proof (cases "EXT2_BITMAP_IS_32 b")
  case True
  moreover have "start \<in> cluster_range b" using assms(1,2) True by (simp add: bitmap_inv_def cluster_def)
  ultimately show ?thesis using zero_search_32 [OF assms(1) True] assms(3) by simp
next
  case False
  then have "EXT2_BITMAP_IS_64 b" using assms(1) by (simp add: bitmap_inv_def)
  with False assms show ?thesis by (simp add: zero_search_64)
qed

theorem find_first_zero_correct_witness:
  "ext2_find_first_zero_bitmap 0 (Some sample_bitmap) 7 20 = Inr (Inr 7)"
  using find_first_zero_correct [OF sample_bitmap_inv, of 7 20 0]
  unfolding sample_clusters
  by (simp add: sample_bitmap_def cluster_def cluster_range_def EXT2_BITMAP_IS_32_def bmap_magic_defs)

section \<open>Where the code departs from its contract\<close>

text \<open>
  The byte loop of the search on the bit array advances the position by the bytes that are left
  instead of the bytes it skipped. With eight marked blocks followed by free ones it leaves the array.
\<close>

lemma find_first_zero_overruns:
  "ext2_bitarray_find_first_zero 0
     \<lparr>b_magic = 4, b_start = 0, b_end = 31, b_real_end = 31, b_cluster_bits = 0, b_bitmap = [0xff, 0, 0, 0]\<rparr> 0 31
   = Inl Out_Of_Bounds"
proof -
  have bits: "align_bits False a 0 32 = Inr (None, 0, 32)" for a by (subst align_bits.simps) simp
  have bytes: "align_bytes False a 0 0 0 32 = Inr (False, 0, 0, 32)" for a by (subst align_bytes.simps) simp
  have "skip_bytes False [0xff, 0, 0, 0] 0 (Suc (Suc 2)) = Inr (1, Suc 2)"
    unfolding skip_bytes.simps by (simp add: skip_byte_def)
  then have middle: "find_middle False [0xff, 0, 0, 0] 0 0 32 = Inr (56, 24)" by (simp add: find_middle_def)
  have "scan_bits False [0xff, 0, 0, 0] 56 (Suc 23) = Inl Out_Of_Bounds"
    unfolding scan_bits.simps by (simp add: fast_test_bit_def)
  then have scan: "scan_bits False [0xff, 0, 0, 0] 56 24 = Inl Out_Of_Bounds" by simp
  show ?thesis
    by (simp add: ext2_bitarray_find_first_zero_def find_first_def Let_def bits bytes middle scan)
qed

end
