(* ===== verification/Crc.thy ===== *)
theory Crc
  imports Prelude
begin

unbundle bit_operations_syntax

text \<open>
  The checksums of \<^verbatim>\<open>libk/crc16.c\<close> and \<^verbatim>\<open>libk/crc32.c\<close>, which ext2 uses for its metadata. The code works with
  tables; the reference is the shift register that divides by the polynomial one bit at a time.
  A register step is linear over XOR, and from that the table lookups, and the four-table lookup that takes
  a word at once, are justified.
\<close>

section \<open>Linear maps\<close>

definition linear :: "('a::len word \<Rightarrow> 'b::len word) \<Rightarrow> bool" where
  "linear f \<longleftrightarrow> (\<forall>x y. f (x XOR y) = f x XOR f y)"

lemma linearD: "linear f \<Longrightarrow> f (x XOR y) = f x XOR f y"
  by (simp add: linear_def)

lemma linear_0: "linear f \<Longrightarrow> f 0 = 0"
  using linearD [of f 0 0] by simp

lemma linear_funpow: "linear f \<Longrightarrow> linear (f ^^ n)" for f :: "'a::len word \<Rightarrow> 'a word"
  by (induction n) (simp_all add: linear_def)

text \<open>One step of a reflected shift register with polynomial \<open>p\<close>, and one byte.\<close>

definition crc_step :: "'a::len word \<Rightarrow> 'a word \<Rightarrow> 'a word" where
  "crc_step p c = drop_bit 1 c XOR (if bit c 0 then p else 0)"

definition crc_byte :: "'a::len word \<Rightarrow> 'a word \<Rightarrow> u8 \<Rightarrow> 'a word" where
  "crc_byte p c b = (crc_step p ^^ 8) (c XOR ucast b)"

lemma linear_step: "linear (crc_step p)"
  by (auto simp: linear_def crc_step_def bit_eq_iff bit_simps)

lemmas linear_steps = linear_funpow [OF linear_step]

text \<open>Zero bits are shifted out without effect.\<close>

lemma steps_zeros: "(\<And>j. j < n \<Longrightarrow> \<not> bit c j) \<Longrightarrow> (crc_step p ^^ n) c = drop_bit n c"
proof (induction n arbitrary: c)
  case (Suc n)
  have "crc_step p c = drop_bit 1 c" using Suc.prems [of 0] by (simp add: crc_step_def)
  moreover have "\<not> bit (drop_bit 1 c) j" if "j < n" for j using Suc.prems [of "Suc j"] that by (simp add: bit_simps)
  then have "(crc_step p ^^ n) (drop_bit 1 c) = drop_bit n (drop_bit 1 c)" by (rule Suc.IH)
  ultimately show ?case by (simp only: funpow_Suc_right o_apply drop_bit_drop_bit) (simp add: add.commute)
qed simp

text \<open>Eight steps treat the low byte alone; the rest is shifted down.\<close>

lemma steps_byte: "(crc_step p ^^ 8) c = (crc_step p ^^ 8) (take_bit 8 c) XOR drop_bit 8 c"
proof -
  have "c = take_bit 8 c XOR push_bit 8 (drop_bit 8 c)" by (rule bit_word_eqI) (auto simp: bit_simps)
  then have "(crc_step p ^^ 8) c = (crc_step p ^^ 8) (take_bit 8 c XOR push_bit 8 (drop_bit 8 c))" by simp
  also have "\<dots> = (crc_step p ^^ 8) (take_bit 8 c) XOR (crc_step p ^^ 8) (push_bit 8 (drop_bit 8 c))"
    by (rule linearD [OF linear_steps])
  also have "(crc_step p ^^ 8) (push_bit 8 (drop_bit 8 c)) = drop_bit 8 (push_bit 8 (drop_bit 8 c))"
    by (rule steps_zeros) (simp add: bit_simps)
  also have "\<dots> = drop_bit 8 c" by (rule bit_word_eqI) (auto simp: bit_simps dest: bit_imp_le_length)
  finally show ?thesis .
qed

section \<open>CRC-16\<close>

definition crc16_table :: "u16 list" where
  "crc16_table = [
    0x0000, 0xc0c1, 0xc181, 0x0140, 0xc301, 0x03c0, 0x0280, 0xc241, 0xc601, 0x06c0, 0x0780, 0xc741, 0x0500, 0xc5c1, 0xc481, 0x0440,
    0xcc01, 0x0cc0, 0x0d80, 0xcd41, 0x0f00, 0xcfc1, 0xce81, 0x0e40, 0x0a00, 0xcac1, 0xcb81, 0x0b40, 0xc901, 0x09c0, 0x0880, 0xc841,
    0xd801, 0x18c0, 0x1980, 0xd941, 0x1b00, 0xdbc1, 0xda81, 0x1a40, 0x1e00, 0xdec1, 0xdf81, 0x1f40, 0xdd01, 0x1dc0, 0x1c80, 0xdc41,
    0x1400, 0xd4c1, 0xd581, 0x1540, 0xd701, 0x17c0, 0x1680, 0xd641, 0xd201, 0x12c0, 0x1380, 0xd341, 0x1100, 0xd1c1, 0xd081, 0x1040,
    0xf001, 0x30c0, 0x3180, 0xf141, 0x3300, 0xf3c1, 0xf281, 0x3240, 0x3600, 0xf6c1, 0xf781, 0x3740, 0xf501, 0x35c0, 0x3480, 0xf441,
    0x3c00, 0xfcc1, 0xfd81, 0x3d40, 0xff01, 0x3fc0, 0x3e80, 0xfe41, 0xfa01, 0x3ac0, 0x3b80, 0xfb41, 0x3900, 0xf9c1, 0xf881, 0x3840,
    0x2800, 0xe8c1, 0xe981, 0x2940, 0xeb01, 0x2bc0, 0x2a80, 0xea41, 0xee01, 0x2ec0, 0x2f80, 0xef41, 0x2d00, 0xedc1, 0xec81, 0x2c40,
    0xe401, 0x24c0, 0x2580, 0xe541, 0x2700, 0xe7c1, 0xe681, 0x2640, 0x2200, 0xe2c1, 0xe381, 0x2340, 0xe101, 0x21c0, 0x2080, 0xe041,
    0xa001, 0x60c0, 0x6180, 0xa141, 0x6300, 0xa3c1, 0xa281, 0x6240, 0x6600, 0xa6c1, 0xa781, 0x6740, 0xa501, 0x65c0, 0x6480, 0xa441,
    0x6c00, 0xacc1, 0xad81, 0x6d40, 0xaf01, 0x6fc0, 0x6e80, 0xae41, 0xaa01, 0x6ac0, 0x6b80, 0xab41, 0x6900, 0xa9c1, 0xa881, 0x6840,
    0x7800, 0xb8c1, 0xb981, 0x7940, 0xbb01, 0x7bc0, 0x7a80, 0xba41, 0xbe01, 0x7ec0, 0x7f80, 0xbf41, 0x7d00, 0xbdc1, 0xbc81, 0x7c40,
    0xb401, 0x74c0, 0x7580, 0xb541, 0x7700, 0xb7c1, 0xb681, 0x7640, 0x7200, 0xb2c1, 0xb381, 0x7340, 0xb101, 0x71c0, 0x7080, 0xb041,
    0x5000, 0x90c1, 0x9181, 0x5140, 0x9301, 0x53c0, 0x5280, 0x9241, 0x9601, 0x56c0, 0x5780, 0x9741, 0x5500, 0x95c1, 0x9481, 0x5440,
    0x9c01, 0x5cc0, 0x5d80, 0x9d41, 0x5f00, 0x9fc1, 0x9e81, 0x5e40, 0x5a00, 0x9ac1, 0x9b81, 0x5b40, 0x9901, 0x59c0, 0x5880, 0x9841,
    0x8801, 0x48c0, 0x4980, 0x8941, 0x4b00, 0x8bc1, 0x8a81, 0x4a40, 0x4e00, 0x8ec1, 0x8f81, 0x4f40, 0x8d01, 0x4dc0, 0x4c80, 0x8c41,
    0x4400, 0x84c1, 0x8581, 0x4540, 0x8701, 0x47c0, 0x4680, 0x8641, 0x8201, 0x42c0, 0x4380, 0x8341, 0x4100, 0x81c1, 0x8081, 0x4040]"

definition crc16_round :: "u32 \<Rightarrow> u8 \<Rightarrow> u32" where
  "crc16_round crc b =
     ((drop_bit 8 crc AND 0xff) XOR ucast (crc16_table ! unat ((crc XOR ucast b) AND 0xff))) AND 0xffff"

definition crc16 :: "u16 \<Rightarrow> u8 list \<Rightarrow> u16" where
  "crc16 seed data = ucast (foldl crc16_round (ucast seed) data)"

text \<open>A table of a linear map doubles by adding one more bit to the index.\<close>

definition double_table :: "'b::len word \<Rightarrow> 'b word list \<Rightarrow> 'b word list" where
  "double_table v xs = xs @ map (\<lambda>x. x XOR v) xs"

lemma of_nat_add_bit:
  assumes "i < 2 ^ k"
  shows "(of_nat (i + 2 ^ k) :: 'a::len word) = of_nat i XOR 2 ^ k"
proof -
  have "\<not> bit i k" using assms by (metis bit_take_bit_iff less_irrefl take_bit_nat_eq_self)
  then have "(of_nat i :: 'a word) AND 2 ^ k = 0" by (intro bit_word_eqI) (auto simp: bit_simps)
  from disjunctive_add_eq_xor [OF this] show ?thesis by simp
qed

lemma table_double:
  assumes "linear f"
  shows "map (\<lambda>i. f (of_nat i)) [0..<2 ^ Suc k] = double_table (f (2 ^ k)) (map (\<lambda>i. f (of_nat i)) [0..<2 ^ k])"
proof -
  have "[0..<2 ^ Suc k] = [0..<2 ^ k] @ map (\<lambda>i. i + 2 ^ k) [0..<2 ^ k]"
    by (simp add: map_add_upt upt_add_eq_append [of 0 "2 ^ k" "2 ^ k", symmetric] mult_2)
  then show ?thesis
    by (auto simp: double_table_def of_nat_add_bit linearD [OF assms] simp del: of_nat_add of_nat_power upt_Suc power_Suc)
qed

lemma funpow_8: "(f ^^ 8) x = f (f (f (f (f (f (f (f x)))))))"
  by (simp add: numeral_eq_Suc)

lemma crc16_powers:
  "(crc_step 0xa001 ^^ 8) (1 :: u16) = 0xc0c1" "(crc_step 0xa001 ^^ 8) (2 :: u16) = 0xc181"
  "(crc_step 0xa001 ^^ 8) (4 :: u16) = 0xc301" "(crc_step 0xa001 ^^ 8) (8 :: u16) = 0xc601"
  "(crc_step 0xa001 ^^ 8) (16 :: u16) = 0xcc01" "(crc_step 0xa001 ^^ 8) (32 :: u16) = 0xd801"
  "(crc_step 0xa001 ^^ 8) (64 :: u16) = 0xf001" "(crc_step 0xa001 ^^ 8) (128 :: u16) = 0xa001"
  by (simp_all only: funpow_8) (simp_all add: crc_step_def)

lemma table_256:
  assumes "linear f"
  shows "map (\<lambda>i. f (of_nat i)) [0..<2 ^ 8] =
    double_table (f 128) (double_table (f 64) (double_table (f 32) (double_table (f 16)
      (double_table (f 8) (double_table (f 4) (double_table (f 2) (double_table (f 1) [0])))))))"
proof -
  have "map (\<lambda>i. f (of_nat i)) [0..<2 ^ 0] = [0]" by (simp add: linear_0 [OF assms])
  moreover have "(8 :: nat) = Suc (Suc (Suc (Suc (Suc (Suc (Suc (Suc 0)))))))" by simp
  ultimately show ?thesis by (simp only: table_double [OF assms]) simp
qed

lemma crc16_table_eq: "crc16_table = map (\<lambda>i. (crc_step 0xa001 ^^ 8) (of_nat i)) [0..<2 ^ 8]"
  unfolding table_256 [OF linear_steps] crc16_powers by (simp add: double_table_def crc16_table_def)

lemma ucast_and_ff: "x AND 0xff = take_bit 8 x" for x :: u32
  by (simp add: take_bit_eq_mask mask_numeral)

lemma unat_ucast_16: "unat (ucast x :: u32) = unat x" for x :: u16
  using unsigned_less [of x, where 'a = nat] by (simp add: unsigned_ucast_eq take_bit_nat_eq_self)

lemma crc16_round_eq: "crc16_round (ucast c) b = ucast (crc_byte 0xa001 c b)" for c :: u16
proof -
  let ?x = "c XOR ucast b"
  have idx: "unat ((ucast c XOR ucast b) AND 0xff :: u32) = unat (take_bit 8 ?x)"
  proof -
    have "(ucast c XOR ucast b) AND 0xff = (ucast (take_bit 8 ?x) :: u32)"
      unfolding ucast_and_ff by (auto intro!: bit_word_eqI simp: bit_simps)
    then show ?thesis by (simp only: unat_ucast_16)
  qed
  have "unat (take_bit 8 ?x) < 2 ^ 8" unfolding unsigned_take_bit_eq by (rule take_bit_nat_less_exp)
  then have entry: "crc16_table ! unat (take_bit 8 ?x) = (crc_step 0xa001 ^^ 8) (take_bit 8 ?x)"
    unfolding crc16_table_eq by (simp only: nth_map length_upt nth_upt) simp
  have hi: "drop_bit 8 (ucast c :: u32) AND 0xff = ucast (drop_bit 8 c)" "drop_bit 8 ?x = drop_bit 8 c"
    unfolding ucast_and_ff
    by (auto intro!: bit_word_eqI simp: bit_simps) (fastforce dest: bit_imp_le_length)+
  have low: "ucast (y :: u16) AND 0xffff = (ucast y :: u32)" for y
  proof -
    have m: "(0xffff :: u32) = mask 16" by (simp add: mask_numeral)
    show ?thesis unfolding m by (auto intro!: bit_word_eqI simp: bit_simps) (fastforce dest: bit_imp_le_length)+
  qed
  have "crc_byte 0xa001 c b = (crc_step 0xa001 ^^ 8) (take_bit 8 ?x) XOR drop_bit 8 c"
    unfolding crc_byte_def steps_byte [of _ ?x] hi(2) ..
  moreover have "crc16_round (ucast c) b =
      ucast (drop_bit 8 c XOR (crc_step 0xa001 ^^ 8) (take_bit 8 ?x)) AND 0xffff"
    unfolding crc16_round_def idx hi(1) entry by (simp only: unsigned_xor_eq)
  ultimately show ?thesis by (simp only: low xor.commute)
qed

section \<open>CRC-32C\<close>

definition crc32_poly :: u32 where "crc32_poly = 0x82f63b78"

definition crc32_bit :: "u32 \<Rightarrow> u32" where
  "crc32_bit b = (if bit b 0 then 0 else crc32_poly) XOR drop_bit 1 b"

definition crc32_byte :: "u32 \<Rightarrow> u32" where
  "crc32_byte b = (crc32_bit ^^ 8) b XOR 0xff000000"

text \<open>The tables as \<^verbatim>\<open>crc32_init_tables\<close> leaves them. The static tables start as zeros and no entry 0 of a filled table is
  zero, so that every call finds them filled.\<close>

definition crc32_table :: "u32 list" where
  "crc32_table = map (\<lambda>i. crc32_byte (of_nat i)) [0..<256]"

definition crc32_wloop :: "nat \<Rightarrow> nat \<Rightarrow> u32" where
  "crc32_wloop k i =
     foldl (\<lambda>w j. crc32_table ! unat (take_bit 8 (if j = k then w XOR of_nat i else w)) XOR drop_bit 8 w) 0 [0..<4]"

definition crc32_wtable :: "u32 list" where
  "crc32_wtable =
     map (\<lambda>n. crc32_wloop (n div 256) (n mod 256) XOR (if n div 256 = 0 then 0 else crc32_wloop 0 0)) [0..<1024]"

definition crc32_word :: "u32 \<Rightarrow> u32" where
  "crc32_word a = foldl (\<lambda>crc j. crc XOR crc32_wtable ! (j * 256 + unat (take_bit 8 (drop_bit (8 * j) a)))) 0 [0..<4]"

text \<open>The two loops: words, then the bytes that are left.\<close>

fun crc32_words :: "u32 \<Rightarrow> u8 list \<Rightarrow> u32 \<times> u8 list" where
  "crc32_words crc (b0 # b1 # b2 # b3 # bs) =
     crc32_words (crc32_word (crc XOR
       (ucast b0 OR push_bit 8 (ucast b1) OR push_bit 16 (ucast b2) OR push_bit 24 (ucast b3)))) bs"
| "crc32_words crc bs = (crc, bs)"

fun crc32_tail :: "u32 \<Rightarrow> u8 list \<Rightarrow> u32 exec" where
  "crc32_tail crc [] = Inr crc"
| "crc32_tail crc (b # bs) =
     bindE (arr_get crc32_table (unat (take_bit 8 crc) + unat b)) (\<lambda>t. crc32_tail (t XOR drop_bit 8 crc) bs)"

definition crc32 :: "u32 \<Rightarrow> u8 list \<Rightarrow> u32 exec" where
  "crc32 seed data = (let (crc, bs) = crc32_words seed data in crc32_tail crc bs)"

text \<open>The tables hold an affine variant of the register, which complements the state.\<close>

definition crc32_steps :: "u32 \<Rightarrow> u32" where
  "crc32_steps = crc_step crc32_poly ^^ 8"

definition crc32_shift :: "u32 \<Rightarrow> u32" where
  "crc32_shift x = crc32_table ! unat (take_bit 8 x) XOR drop_bit 8 x"

lemma linear_crc32_steps: "linear crc32_steps"
  unfolding crc32_steps_def by (rule linear_steps)

lemma crc32_bit_eq: "crc32_bit b = crc_step crc32_poly b XOR crc32_poly"
  by (simp add: crc32_bit_def crc_step_def xor.commute xor.left_commute)

lemma crc32_bits_affine: "(crc32_bit ^^ n) (x XOR y) = (crc32_bit ^^ n) x XOR (crc_step crc32_poly ^^ n) y"
proof (induction n)
  case (Suc n)
  then show ?case by (simp add: crc32_bit_eq linearD [OF linear_step] xor.commute xor.left_commute)
qed simp

lemma crc32_byte_eq: "crc32_byte b = crc32_steps (b XOR 0xff) XOR 0xff000000"
proof -
  have c: "(crc32_bit ^^ 8) 0xff = 0" unfolding funpow_8 by (simp add: crc32_bit_def crc32_poly_def)
  have "(crc32_bit ^^ 8) b = (crc32_bit ^^ 8) (0xff XOR (b XOR 0xff))" by (simp add: xor.left_commute)
  also have "\<dots> = crc32_steps (b XOR 0xff)" unfolding crc32_bits_affine c by (simp add: crc32_steps_def)
  finally show ?thesis by (simp add: crc32_byte_def)
qed

lemma crc32_shift_eq: "crc32_shift x = NOT (crc32_steps (NOT x))"
proof -
  have "unat (take_bit 8 x) < 256" unfolding unsigned_take_bit_eq using take_bit_nat_less_exp [of 8 "unat x"] by simp
  then have "crc32_table ! unat (take_bit 8 x) = crc32_byte (take_bit 8 x)"
    unfolding crc32_table_def by (simp only: nth_map length_upt nth_upt) simp
  then have shift: "crc32_shift x = crc32_steps (take_bit 8 x XOR 0xff) XOR 0xff000000 XOR drop_bit 8 x"
    by (simp add: crc32_shift_def crc32_byte_eq xor.assoc)
  have "crc32_steps (NOT x) = crc32_steps (take_bit 8 (NOT x)) XOR drop_bit 8 (NOT x)"
    unfolding crc32_steps_def by (rule steps_byte)
  moreover have "take_bit 8 (NOT x) = take_bit 8 x XOR 0xff"
  proof -
    have m: "(0xff :: u32) = mask 8" by (simp add: mask_numeral)
    show ?thesis unfolding m by (auto intro!: bit_word_eqI simp: bit_simps)
  qed
  moreover have "NOT (drop_bit 8 (NOT x)) = drop_bit 8 x XOR 0xff000000"
  proof -
    have m: "(0xff000000 :: u32) = NOT (mask 24)" by (simp add: mask_numeral)
    show ?thesis unfolding m by (auto intro!: bit_word_eqI simp: bit_simps) (fastforce dest: bit_imp_le_length)+
  qed
  moreover have "NOT (a XOR d) = a XOR NOT d" for a d :: u32 by simp
  ultimately have "NOT (crc32_steps (NOT x)) = crc32_steps (take_bit 8 x XOR 0xff) XOR (drop_bit 8 x XOR 0xff000000)"
    by metis
  with shift show ?thesis by (simp add: xor.commute xor.left_commute)
qed

lemma shift_affine: "crc32_shift (x XOR y) = crc32_shift x XOR crc32_steps y"
proof -
  have "crc32_steps (NOT (x XOR y)) = crc32_steps (NOT x XOR y)" by simp
  also have "\<dots> = crc32_steps (NOT x) XOR crc32_steps y" by (rule linearD [OF linear_crc32_steps])
  finally show ?thesis by (simp add: crc32_shift_eq)
qed

lemma take_8_byte: "take_bit 8 (ucast b :: u32) = ucast b" for b :: u8
  by (auto intro!: bit_word_eqI simp: bit_simps) (fastforce dest: bit_imp_le_length)+

lemma four_times: "(f ^^ 4) x = f (f (f (f x)))" "(f ^^ 3) x = f (f (f x))" "(f ^^ 2) x = f (f x)"
  by (simp_all add: numeral_eq_Suc)

lemma crc32_wloop_eq:
  assumes "i < 256" "k < 4"
  shows "crc32_wloop k i = (crc32_shift ^^ 4) 0 XOR (crc32_steps ^^ (4 - k)) (of_nat i)"
proof -
  have hi: "drop_bit 8 (w XOR of_nat i) = drop_bit 8 w" for w :: u32
  proof -
    have "take_bit 8 i = i" using assms(1) by (intro take_bit_nat_eq_self) simp
    then have "\<not> bit i (8 + n)" for n by (metis bit_take_bit_iff not_add_less1)
    then show ?thesis by (intro bit_word_eqI) (auto simp: bit_simps)
  qed
  have body: "crc32_table ! unat (take_bit 8 (if j = k then w XOR of_nat i else w)) XOR drop_bit 8 w =
      crc32_shift (w XOR (if j = k then of_nat i else 0))" for w j
    by (simp add: crc32_shift_def hi del: take_bit_xor drop_bit_xor)
  have list: "[0..<4] = [0, 1, 2, 3 :: nat]" by (simp add: upt_rec)
  consider "k = 0" | "k = 1" | "k = 2" | "k = 3" using assms(2) by linarith
  then show ?thesis
    unfolding crc32_wloop_def body list foldl.simps using shift_affine [of 0 "of_nat i"]
    by cases (simp_all add: four_times shift_affine linearD [OF linear_crc32_steps] xor.assoc)
qed

lemma wtable_nth:
  assumes "i < 256" "k < 4"
  shows "crc32_wtable ! (k * 256 + i) =
    (crc32_steps ^^ (4 - k)) (of_nat i) XOR (if k = 0 then (crc32_shift ^^ 4) 0 else 0)"
proof -
  have k: "(k * 256 + i) div 256 = k" "(k * 256 + i) mod 256 = i" "k * 256 + i < 1024" using assms by auto
  have z: "(crc32_steps ^^ n) 0 = 0" for n by (rule linear_0 [OF linear_funpow [OF linear_crc32_steps]])
  have "crc32_wtable ! (k * 256 + i) = crc32_wloop k i XOR (if k = 0 then 0 else crc32_wloop 0 0)"
    unfolding crc32_wtable_def using k by (simp only: nth_map length_upt nth_upt) simp
  then show ?thesis using assms by (simp add: crc32_wloop_eq z xor.commute xor.left_commute)
qed

text \<open>Four table lookups are four shifts of the whole word.\<close>

lemma crc32_word_eq: "crc32_word a = (crc32_shift ^^ 4) a"
proof -
  let ?a = "\<lambda>j. take_bit 8 (drop_bit (8 * j) a)"
  have small: "unat (?a j) < 256" for j
    unfolding unsigned_take_bit_eq using take_bit_nat_less_exp [of 8] by simp
  have entry: "crc32_wtable ! (k * 256 + unat (?a k)) =
      (crc32_steps ^^ (4 - k)) (?a k) XOR (if k = 0 then (crc32_shift ^^ 4) 0 else 0)" if "k < 4" for k
    using wtable_nth [OF small that] by simp
  have list: "[0..<4] = [0, 1, 2, 3 :: nat]" by (simp add: upt_rec)
  have shifted: "(crc32_steps ^^ 4) (push_bit (8 * j) (?a j)) = (crc32_steps ^^ (4 - j)) (?a j)" if "j < 4" for j
  proof -
    have "(crc32_steps ^^ j) (push_bit (8 * j) (?a j)) = drop_bit (8 * j) (push_bit (8 * j) (?a j))"
      unfolding crc32_steps_def funpow_mult by (rule steps_zeros) (simp add: bit_simps)
    also have "\<dots> = ?a j" using that by (intro bit_word_eqI) (auto simp: bit_simps)
    finally show ?thesis using that funpow_add [of "4 - j" j crc32_steps] by simp
  qed
  have "a = ?a 0 XOR push_bit (8 * 1) (?a 1) XOR push_bit (8 * 2) (?a 2) XOR push_bit (8 * 3) (?a 3)" (is "a = ?r")
  proof (rule bit_word_eqI)
    fix n assume "n < LENGTH(32)"
    then consider "n < 8" | "8 \<le> n" "n < 16" | "16 \<le> n" "n < 24" | "24 \<le> n" "n < 32"
      by (cases "n < 8"; cases "n < 16"; cases "n < 24"; simp add: not_less)
    then show "bit a n = bit ?r n" by cases (simp_all add: bit_simps less_diff_conv2)
  qed
  then have "(crc32_steps ^^ 4) a = (crc32_steps ^^ 4) ?r" by simp
  also have "\<dots> = (crc32_steps ^^ 4) (?a 0) XOR (crc32_steps ^^ 3) (?a 1) XOR (crc32_steps ^^ 2) (?a 2) XOR crc32_steps (?a 3)"
    using shifted [of 1] shifted [of 2] shifted [of 3]
    unfolding linearD [OF linear_funpow [OF linear_crc32_steps]] by simp
  finally have steps: "(crc32_steps ^^ 4) a =
    (crc32_steps ^^ 4) (?a 0) XOR (crc32_steps ^^ 3) (?a 1) XOR (crc32_steps ^^ 2) (?a 2) XOR crc32_steps (?a 3)" .
  have "(crc32_shift ^^ 4) a = (crc32_shift ^^ 4) 0 XOR (crc32_steps ^^ 4) a"
    using shift_affine [of 0 a] by (simp add: four_times shift_affine xor.assoc)
  moreover have "crc32_word a = (crc32_shift ^^ 4) 0 XOR
    ((crc32_steps ^^ 4) (?a 0) XOR (crc32_steps ^^ 3) (?a 1) XOR (crc32_steps ^^ 2) (?a 2) XOR crc32_steps (?a 3))"
    unfolding crc32_word_def list foldl.simps
    using entry [of 0] entry [of 1] entry [of 2] entry [of 3] by (simp add: xor.commute xor.left_commute)
  ultimately show ?thesis by (simp only: steps)
qed

text \<open>A shift with a byte is a byte of the complemented register.\<close>

lemma shift_byte: "crc32_shift (c XOR ucast b) = NOT (crc_byte crc32_poly (NOT c) b)"
  by (simp add: crc32_shift_eq crc_byte_def crc32_steps_def)

lemma word_bytes:
  "crc32_word (c XOR (ucast b0 OR push_bit 8 (ucast b1) OR push_bit 16 (ucast b2) OR push_bit 24 (ucast b3))) =
   NOT (foldl (crc_byte crc32_poly) (NOT c) [b0, b1, b2, b3])" (is "crc32_word (c XOR ?w) = _")
proof -
  let ?r = "ucast b0 XOR push_bit (8 * 1) (ucast b1) XOR push_bit (8 * 2) (ucast b2) XOR push_bit (8 * 3) (ucast b3) :: u32"
  have "?w = ?r"
  proof (rule bit_word_eqI)
    fix n assume "n < LENGTH(32)"
    then consider "n < 8" | "8 \<le> n" "n < 16" | "16 \<le> n" "n < 24" | "24 \<le> n" "n < 32"
      by (cases "n < 8"; cases "n < 16"; cases "n < 24"; simp add: not_less)
    then show "bit ?w n = bit ?r n" by cases (auto simp: bit_simps dest: bit_imp_le_length)
  qed
  moreover have pushed: "(crc32_steps ^^ j) (push_bit (8 * j) (ucast (b :: u8))) = ucast b" if "j < 4" for j b
  proof -
    have "(crc32_steps ^^ j) (push_bit (8 * j) (ucast b)) = drop_bit (8 * j) (push_bit (8 * j) (ucast b :: u32))"
      unfolding crc32_steps_def funpow_mult by (rule steps_zeros) (simp add: bit_simps)
    also have "\<dots> = ucast b" using that by (intro bit_word_eqI) (auto simp: bit_simps dest: bit_imp_le_length)
    finally show ?thesis .
  qed
  ultimately have "crc32_word (c XOR ?w) =
      crc32_shift (crc32_shift (crc32_shift (crc32_shift (c XOR ucast b0) XOR ucast b1) XOR ucast b2) XOR ucast b3)"
    using pushed [of 1 b1] pushed [of 2 b2] pushed [of 3 b3]
    by (simp add: crc32_word_eq four_times shift_affine linearD [OF linear_crc32_steps] xor.assoc)
  then show ?thesis by (simp only: shift_byte bit.double_compl foldl.simps)
qed

lemma crc32_words_eq:
  "crc32_words c data = (NOT (foldl (crc_byte crc32_poly) (NOT c) (take (4 * (length data div 4)) data)),
     drop (4 * (length data div 4)) data)"
proof (induction c data rule: crc32_words.induct)
  case (1 c b0 b1 b2 b3 bs)
  have l: "4 * (length (b0 # b1 # b2 # b3 # bs) div 4) = Suc (Suc (Suc (Suc (4 * (length bs div 4)))))" by (simp only: list.size) presburger
  show ?case using 1 unfolding crc32_words.simps word_bytes l by simp
qed simp_all

section \<open>Properties\<close>

text \<open>
  C30: the table-driven checksums compute the polynomial division. \<^verbatim>\<open>crc16\<close> is the bitwise register with the
  reflected polynomial 0xA001, for all data and seeds; \<^verbatim>\<open>crc32\<close> is the complemented CRC-32C register for all
  seeds and all data whose length is a multiple of four, which its word loop with four tables handles.
\<close>

theorem crc_tables_correct:
  "crc16 seed data = foldl (crc_byte 0xa001) seed data \<and>
   (length data mod 4 = 0 \<longrightarrow> crc32 init data = Inr (NOT (foldl (crc_byte 0x82f63b78) (NOT init) data)))"
proof
  have "foldl crc16_round (ucast s) data = ucast (foldl (crc_byte 0xa001) s data)" for s :: u16
    by (induction data arbitrary: s) (simp_all add: crc16_round_eq)
  moreover have "ucast (ucast x :: u32) = x" for x :: u16 by (auto intro!: bit_word_eqI simp: bit_simps)
  ultimately show "crc16 seed data = foldl (crc_byte 0xa001) seed data" by (simp add: crc16_def)
  show "length data mod 4 = 0 \<longrightarrow> crc32 init data = Inr (NOT (foldl (crc_byte 0x82f63b78) (NOT init) data))"
    by (auto simp: crc32_def crc32_words_eq crc32_poly_def Let_def dest!: mod_0_imp_dvd)
qed

theorem crc_tables_correct_witness:
  "crc32 0 [1, 2, 3, 4] = Inr (NOT (foldl (crc_byte 0x82f63b78) (NOT 0) [1, 2, 3, 4]))"
  using crc_tables_correct [of 0 "[1, 2, 3, 4]" 0] by simp

section \<open>Where the code departs from its contract\<close>

text \<open>The loop over the last bytes adds the byte to the index instead of combining them with XOR: with state
  0xff and byte 1 it reads past the table.\<close>

lemma crc32_tail_overruns: "crc32 0xff [1] = Inl Out_Of_Bounds"
  by (simp add: crc32_def arr_get_def crc32_table_def)

end
