(* ===== verification/Ext2_Groups.thy ===== *)
theory Ext2_Groups
  imports Bitmaps Crc
begin

unbundle bit_operations_syntax

text \<open>
  Block groups of ext2 (\<^verbatim>\<open>fs/ext2/util.c\<close>, the inline functions of \<^verbatim>\<open>include/fs/ext2.h\<close> and parts of \<^verbatim>\<open>fs/ext2/super.c\<close> and
  \<^verbatim>\<open>fs/ext2/bitmap.c\<close>): the geometry of the groups, their descriptors with checksums, the statistics, and the
  allocation of blocks and inodes from the bitmaps. The records hold the fields of the C structures
  that this code uses. The descriptor table is in memory after mounting; going outside of it is a
  fault. The size of a block, which the code reads from the superblock of the VFS, is a field of the
  filesystem here.
\<close>

section \<open>Structures\<close>

definition EXT2_FT_INCOMPAT_META_BG :: u32 where "EXT2_FT_INCOMPAT_META_BG = 0x10"
definition EXT4_FT_INCOMPAT_64BIT :: u32 where "EXT4_FT_INCOMPAT_64BIT = 0x80"
definition EXT2_FT_RO_COMPAT_SPARSE_SUPER :: u32 where "EXT2_FT_RO_COMPAT_SPARSE_SUPER = 1"
definition EXT4_FT_RO_COMPAT_GDT_CSUM :: u32 where "EXT4_FT_RO_COMPAT_GDT_CSUM = 0x10"
definition EXT4_FT_RO_COMPAT_METADATA_CSUM :: u32 where "EXT4_FT_RO_COMPAT_METADATA_CSUM = 0x400"
definition EXT2_BG_INODE_UNINIT :: u16 where "EXT2_BG_INODE_UNINIT = 1"
definition EXT2_BG_BLOCK_UNINIT :: u16 where "EXT2_BG_BLOCK_UNINIT = 2"
definition EXT2_FLAG_CHANGED :: u32 where "EXT2_FLAG_CHANGED = 1"
definition EXT2_FLAG_DIRTY :: u32 where "EXT2_FLAG_DIRTY = 2"
definition EXT2_FLAG_IB_DIRTY :: u32 where "EXT2_FLAG_IB_DIRTY = 8"
definition EXT2_FLAG_BB_DIRTY :: u32 where "EXT2_FLAG_BB_DIRTY = 16"
definition EXT2_FLAG_64BIT :: u32 where "EXT2_FLAG_64BIT = 32"

record Ext2Superblock =
  s_inodes_count :: u32
  s_blocks_count :: u32
  s_free_blocks_count :: u32
  s_free_inodes_count :: u32
  s_first_data_block :: u32
  s_log_block_size :: u32
  s_blocks_per_group :: u32
  s_clusters_per_group :: u32
  s_inodes_per_group :: u32
  s_rev_level :: u32
  s_first_ino :: u32
  s_inode_size :: u16
  s_feature_incompat :: u32
  s_feature_ro_compat :: u32
  s_uuid :: "u8 list"
  s_reserved_gdt_blocks :: u16
  s_desc_size :: u16
  s_first_meta_bg :: u32
  s_blocks_count_hi :: u32
  s_free_blocks_hi :: u32
  s_backup_bgs :: "u32 \<times> u32"
  s_creator_os :: u32
  s_log_groups_per_flex :: u8

record Ext4GroupDesc =
  bg_block_bitmap :: u32
  bg_inode_bitmap :: u32
  bg_inode_table :: u32
  bg_free_blocks_count :: u16
  bg_free_inodes_count :: u16
  bg_used_dirs_count :: u16
  bg_flags :: u16
  bg_exclude_bitmap_lo :: u32
  bg_block_bitmap_csum_lo :: u16
  bg_inode_bitmap_csum_lo :: u16
  bg_itable_unused :: u16
  bg_checksum :: u16
  bg_block_bitmap_hi :: u32
  bg_inode_bitmap_hi :: u32
  bg_inode_table_hi :: u32
  bg_free_blocks_count_hi :: u16
  bg_free_inodes_count_hi :: u16
  bg_used_dirs_count_hi :: u16
  bg_itable_unused_hi :: u16
  bg_exclude_bitmap_hi :: u32
  bg_block_bitmap_csum_hi :: u16
  bg_inode_bitmap_csum_hi :: u16
  bg_reserved :: u32
  bg_rest :: "u8 list"

record Ext2Filesystem =
  f_super :: Ext2Superblock
  f_flags :: u32
  f_group_desc_count :: u32
  f_desc_blocks :: u32
  f_group_desc :: "nat \<Rightarrow> Ext4GroupDesc"
  f_inode_blocks_per_group :: u32
  f_block_bitmap :: "Ext2Bitmap option"
  f_inode_bitmap :: "Ext2Bitmap option"
  f_cluster_ratio_bits :: nat
  f_checksum_seed :: u32
  f_blksize :: u32

definition has_incompat :: "Ext2Superblock \<Rightarrow> u32 \<Rightarrow> bool" where
  "has_incompat s f \<longleftrightarrow> s_feature_incompat s AND f \<noteq> 0"

definition has_ro_compat :: "Ext2Superblock \<Rightarrow> u32 \<Rightarrow> bool" where
  "has_ro_compat s f \<longleftrightarrow> s_feature_ro_compat s AND f \<noteq> 0"

section \<open>Geometry\<close>

definition hi_lo :: "bool \<Rightarrow> u32 \<Rightarrow> u32 \<Rightarrow> u64" where
  "hi_lo wide hi lo = ucast lo OR (if wide then push_bit 32 (ucast hi) else 0)"

definition ext2_blocks_count :: "Ext2Superblock \<Rightarrow> u64" where
  "ext2_blocks_count s = hi_lo (has_incompat s EXT4_FT_INCOMPAT_64BIT) (s_blocks_count_hi s) (s_blocks_count s)"

definition ext2_blocks_count_set :: "Ext2Superblock \<Rightarrow> u64 \<Rightarrow> Ext2Superblock" where
  "ext2_blocks_count_set s blocks =
     (let s = s\<lparr>s_blocks_count := ucast blocks\<rparr>
      in if has_incompat s EXT4_FT_INCOMPAT_64BIT then s\<lparr>s_blocks_count_hi := ucast (drop_bit 32 blocks)\<rparr> else s)"

definition ext2_free_blocks_count :: "Ext2Superblock \<Rightarrow> u64" where
  "ext2_free_blocks_count s = hi_lo (has_incompat s EXT4_FT_INCOMPAT_64BIT) (s_free_blocks_hi s) (s_free_blocks_count s)"

definition ext2_free_blocks_count_set :: "Ext2Superblock \<Rightarrow> u64 \<Rightarrow> Ext2Superblock" where
  "ext2_free_blocks_count_set s blocks =
     (let s = s\<lparr>s_free_blocks_count := ucast blocks\<rparr>
      in if has_incompat s EXT4_FT_INCOMPAT_64BIT then s\<lparr>s_free_blocks_hi := ucast (drop_bit 32 blocks)\<rparr> else s)"

definition ext2_free_blocks_count_add :: "Ext2Superblock \<Rightarrow> u64 \<Rightarrow> Ext2Superblock" where
  "ext2_free_blocks_count_add s blocks = ext2_free_blocks_count_set s (ext2_free_blocks_count s + blocks)"

definition ext2_has_group_desc_checksum :: "Ext2Superblock \<Rightarrow> bool" where
  "ext2_has_group_desc_checksum s \<longleftrightarrow> has_ro_compat s (EXT4_FT_RO_COMPAT_GDT_CSUM OR EXT4_FT_RO_COMPAT_METADATA_CSUM)"

definition ext2_group_first_block :: "Ext2Filesystem \<Rightarrow> u32 \<Rightarrow> u64" where
  "ext2_group_first_block fs g =
     ucast (s_first_data_block (f_super fs)) + ucast (s_blocks_per_group (f_super fs)) * ucast g"

definition ext2_group_last_block :: "Ext2Filesystem \<Rightarrow> u32 \<Rightarrow> u64" where
  "ext2_group_last_block fs g =
     (if g = f_group_desc_count fs - 1 then ext2_blocks_count (f_super fs) - 1
      else ext2_group_first_block fs g + ucast (s_blocks_per_group (f_super fs)) - 1)"

definition ext2_group_blocks_count :: "Ext2Filesystem \<Rightarrow> u32 \<Rightarrow> u64" where
  "ext2_group_blocks_count fs g =
     (let bpg = ucast (s_blocks_per_group (f_super fs))
      in if g = f_group_desc_count fs - 1 then
           let nblocks = (ext2_blocks_count (f_super fs) - ucast (s_first_data_block (f_super fs))) mod bpg
           in if nblocks = 0 then bpg else nblocks
         else bpg)"

definition ext2_group_of_block :: "Ext2Filesystem \<Rightarrow> u64 \<Rightarrow> u32" where
  "ext2_group_of_block fs block =
     ucast ((block - ucast (s_first_data_block (f_super fs))) div ucast (s_blocks_per_group (f_super fs)))"

definition ext2_group_of_inode :: "Ext2Filesystem \<Rightarrow> u64 \<Rightarrow> u32" where
  "ext2_group_of_inode fs ino = ucast ((ino - 1) div ucast (s_inodes_per_group (f_super fs)))"

text \<open>Is \<open>g\<close> a power of \<open>x\<close>? The loop divides as long as it can. It is called for 3, 5 and 7; for 0 and 1, where it would not
  end, the definition is \<open>False\<close>.\<close>

function ext2_bg_super_test_root :: "u32 \<Rightarrow> u32 \<Rightarrow> bool" where
  "ext2_bg_super_test_root g x =
     (if x \<le> 1 \<or> g < x then False
      else if g = x then True
      else if g mod x \<noteq> 0 then False
      else ext2_bg_super_test_root (g div x) x)"
  by pat_completeness auto
termination
proof (relation "measure (\<lambda>(g, x). unat g)", goal_cases)
  case (2 g x)
  then have "1 < unat x" "unat x \<le> unat g" by (auto simp: word_less_nat_alt word_le_nat_alt)
  then show ?case by (simp add: unat_div div_less_dividend)
qed simp

declare ext2_bg_super_test_root.simps [simp del]

definition ext2_bg_has_super :: "Ext2Filesystem \<Rightarrow> u32 \<Rightarrow> bool" where
  "ext2_bg_has_super fs g \<longleftrightarrow>
     (if g = 0 then True
      else if has_ro_compat (f_super fs) EXT2_FT_RO_COMPAT_SPARSE_SUPER
      then g = fst (s_backup_bgs (f_super fs)) \<or> g = snd (s_backup_bgs (f_super fs))
      else if g \<le> 1 then True
      else if g AND 1 = 0 then False
      else ext2_bg_super_test_root g 3 \<or> ext2_bg_super_test_root g 5 \<or> ext2_bg_super_test_root g 7)"

section \<open>Group descriptors\<close>

text \<open>\<^verbatim>\<open>ext2_group_desc\<close> with the table in memory. It lets the index one past the last group through; that access is
  outside the table, and larger ones go through the NULL it returns.\<close>

definition ext2_group_desc :: "Ext2Filesystem \<Rightarrow> u32 \<Rightarrow> Ext4GroupDesc exec" where
  "ext2_group_desc fs g = (if g < f_group_desc_count fs then Inr (f_group_desc fs (unat g)) else Inl Out_Of_Bounds)"

definition upd_desc :: "Ext2Filesystem \<Rightarrow> u32 \<Rightarrow> (Ext4GroupDesc \<Rightarrow> Ext4GroupDesc) \<Rightarrow> Ext2Filesystem exec" where
  "upd_desc fs g f =
     bindE (ext2_group_desc fs g) (\<lambda>gdp. Inr (fs\<lparr>f_group_desc := (f_group_desc fs)(unat g := f gdp)\<rparr>))"

definition wide :: "Ext2Filesystem \<Rightarrow> bool" where
  "wide fs \<longleftrightarrow> has_incompat (f_super fs) EXT4_FT_INCOMPAT_64BIT"

definition ext2_bg_test_flags :: "Ext2Filesystem \<Rightarrow> u32 \<Rightarrow> u16 \<Rightarrow> bool exec" where
  "ext2_bg_test_flags fs g flags = bindE (ext2_group_desc fs g) (\<lambda>gdp. Inr (bg_flags gdp AND flags \<noteq> 0))"

definition ext2_bg_clear_flags :: "Ext2Filesystem \<Rightarrow> u32 \<Rightarrow> u16 \<Rightarrow> Ext2Filesystem exec" where
  "ext2_bg_clear_flags fs g flags = upd_desc fs g (\<lambda>gdp. gdp\<lparr>bg_flags := bg_flags gdp AND NOT flags\<rparr>)"

definition ext2_block_bitmap_loc :: "Ext2Filesystem \<Rightarrow> u32 \<Rightarrow> u64 exec" where
  "ext2_block_bitmap_loc fs g =
     bindE (ext2_group_desc fs g) (\<lambda>gdp. Inr (hi_lo (wide fs) (bg_block_bitmap_hi gdp) (bg_block_bitmap gdp)))"

definition ext2_inode_bitmap_loc :: "Ext2Filesystem \<Rightarrow> u32 \<Rightarrow> u64 exec" where
  "ext2_inode_bitmap_loc fs g =
     bindE (ext2_group_desc fs g) (\<lambda>gdp. Inr (hi_lo (wide fs) (bg_inode_bitmap_hi gdp) (bg_inode_bitmap gdp)))"

definition ext2_inode_table_loc :: "Ext2Filesystem \<Rightarrow> u32 \<Rightarrow> u64 exec" where
  "ext2_inode_table_loc fs g =
     bindE (ext2_group_desc fs g) (\<lambda>gdp. Inr (hi_lo (wide fs) (bg_inode_table_hi gdp) (bg_inode_table gdp)))"

text \<open>The 16-bit counters with their high halves.\<close>

definition hi_lo16 :: "bool \<Rightarrow> u16 \<Rightarrow> u16 \<Rightarrow> u32" where
  "hi_lo16 w hi lo = ucast lo OR (if w then push_bit 16 (ucast hi) else 0)"

definition hi16 :: "u32 \<Rightarrow> u16" where "hi16 n = ucast (drop_bit 16 n)"

definition ext2_bg_free_blocks_count :: "Ext2Filesystem \<Rightarrow> u32 \<Rightarrow> u32 exec" where
  "ext2_bg_free_blocks_count fs g =
     bindE (ext2_group_desc fs g) (\<lambda>gdp. Inr (hi_lo16 (wide fs) (bg_free_blocks_count_hi gdp) (bg_free_blocks_count gdp)))"

definition ext2_bg_free_blocks_count_set :: "Ext2Filesystem \<Rightarrow> u32 \<Rightarrow> u32 \<Rightarrow> Ext2Filesystem exec" where
  "ext2_bg_free_blocks_count_set fs g blocks =
     upd_desc fs g (\<lambda>gdp. let gdp = gdp\<lparr>bg_free_blocks_count := ucast blocks\<rparr>
       in if wide fs then gdp\<lparr>bg_free_blocks_count_hi := hi16 blocks\<rparr> else gdp)"

definition ext2_bg_free_inodes_count :: "Ext2Filesystem \<Rightarrow> u32 \<Rightarrow> u32 exec" where
  "ext2_bg_free_inodes_count fs g =
     bindE (ext2_group_desc fs g) (\<lambda>gdp. Inr (hi_lo16 (wide fs) (bg_free_inodes_count_hi gdp) (bg_free_inodes_count gdp)))"

definition ext2_bg_free_inodes_count_set :: "Ext2Filesystem \<Rightarrow> u32 \<Rightarrow> u32 \<Rightarrow> Ext2Filesystem exec" where
  "ext2_bg_free_inodes_count_set fs g inodes =
     upd_desc fs g (\<lambda>gdp. let gdp = gdp\<lparr>bg_free_inodes_count := ucast inodes\<rparr>
       in if wide fs then gdp\<lparr>bg_free_inodes_count_hi := hi16 inodes\<rparr> else gdp)"

definition ext2_bg_used_dirs_count :: "Ext2Filesystem \<Rightarrow> u32 \<Rightarrow> u32 exec" where
  "ext2_bg_used_dirs_count fs g =
     bindE (ext2_group_desc fs g) (\<lambda>gdp. Inr (hi_lo16 (wide fs) (bg_used_dirs_count_hi gdp) (bg_used_dirs_count gdp)))"

definition ext2_bg_used_dirs_count_set :: "Ext2Filesystem \<Rightarrow> u32 \<Rightarrow> u32 \<Rightarrow> Ext2Filesystem exec" where
  "ext2_bg_used_dirs_count_set fs g dirs =
     upd_desc fs g (\<lambda>gdp. let gdp = gdp\<lparr>bg_used_dirs_count := ucast dirs\<rparr>
       in if wide fs then gdp\<lparr>bg_used_dirs_count_hi := hi16 dirs\<rparr> else gdp)"

definition ext2_bg_itable_unused :: "Ext2Filesystem \<Rightarrow> u32 \<Rightarrow> u32 exec" where
  "ext2_bg_itable_unused fs g =
     bindE (ext2_group_desc fs g) (\<lambda>gdp. Inr (hi_lo16 (wide fs) (bg_itable_unused_hi gdp) (bg_itable_unused gdp)))"

definition ext2_bg_itable_unused_set :: "Ext2Filesystem \<Rightarrow> u32 \<Rightarrow> u32 \<Rightarrow> Ext2Filesystem exec" where
  "ext2_bg_itable_unused_set fs g unused =
     upd_desc fs g (\<lambda>gdp. let gdp = gdp\<lparr>bg_itable_unused := ucast unused\<rparr>
       in if wide fs then gdp\<lparr>bg_itable_unused_hi := hi16 unused\<rparr> else gdp)"

subsection \<open>Checksums\<close>

definition le16 :: "u16 \<Rightarrow> u8 list" where
  "le16 n = [ucast n, ucast (drop_bit 8 n)]"

definition le32 :: "u32 \<Rightarrow> u8 list" where
  "le32 n = [ucast n, ucast (drop_bit 8 n), ucast (drop_bit 16 n), ucast (drop_bit 24 n)]"

text \<open>The descriptor in memory; \<open>bg_rest\<close> are the bytes after the structure when descriptors are larger.\<close>

definition desc_head :: "Ext4GroupDesc \<Rightarrow> u8 list" where
  "desc_head d = le32 (bg_block_bitmap d) @ le32 (bg_inode_bitmap d) @ le32 (bg_inode_table d) @
     le16 (bg_free_blocks_count d) @ le16 (bg_free_inodes_count d) @ le16 (bg_used_dirs_count d) @ le16 (bg_flags d) @
     le32 (bg_exclude_bitmap_lo d) @ le16 (bg_block_bitmap_csum_lo d) @ le16 (bg_inode_bitmap_csum_lo d) @
     le16 (bg_itable_unused d)"

definition desc_tail :: "Ext4GroupDesc \<Rightarrow> u8 list" where
  "desc_tail d = le32 (bg_block_bitmap_hi d) @ le32 (bg_inode_bitmap_hi d) @ le32 (bg_inode_table_hi d) @
     le16 (bg_free_blocks_count_hi d) @ le16 (bg_free_inodes_count_hi d) @ le16 (bg_used_dirs_count_hi d) @
     le16 (bg_itable_unused_hi d) @ le32 (bg_exclude_bitmap_hi d) @ le16 (bg_block_bitmap_csum_hi d) @
     le16 (bg_inode_bitmap_csum_hi d) @ le32 (bg_reserved d) @ bg_rest d"

definition EXT2_DESC_SIZE :: "Ext2Superblock \<Rightarrow> nat" where
  "EXT2_DESC_SIZE s = (if has_incompat s EXT4_FT_INCOMPAT_64BIT then unat (s_desc_size s) else 32)"

definition ext2_group_desc_checksum :: "Ext2Filesystem \<Rightarrow> u32 \<Rightarrow> u16 exec" where
  "ext2_group_desc_checksum fs g =
     bindE (ext2_group_desc fs g) (\<lambda>desc.
       let size = EXT2_DESC_SIZE (f_super fs)
       in if has_ro_compat (f_super fs) EXT4_FT_RO_COMPAT_METADATA_CSUM then
            bindE (crc32 (f_checksum_seed fs) (le32 g)) (\<lambda>c.
            bindE (crc32 c (take size (desc_head desc @ [0, 0] @ desc_tail desc))) (\<lambda>c. Inr (ucast (c AND 0xffff))))
          else
            let crc = crc16 (crc16 (crc16 0xffff (s_uuid (f_super fs))) (le32 g)) (desc_head desc)
            in Inr (if 32 < size then crc16 crc (take (size - 32) (desc_tail desc)) else crc))"

definition ext2_bg_checksum :: "Ext2Filesystem \<Rightarrow> u32 \<Rightarrow> u16 exec" where
  "ext2_bg_checksum fs g = bindE (ext2_group_desc fs g) (\<lambda>gdp. Inr (bg_checksum gdp))"

definition ext2_bg_checksum_update :: "Ext2Filesystem \<Rightarrow> u32 \<Rightarrow> u16 \<Rightarrow> Ext2Filesystem exec" where
  "ext2_bg_checksum_update fs g checksum = upd_desc fs g (\<lambda>gdp. gdp\<lparr>bg_checksum := checksum\<rparr>)"

definition ext2_group_desc_checksum_valid :: "Ext2Filesystem \<Rightarrow> u32 \<Rightarrow> bool exec" where
  "ext2_group_desc_checksum_valid fs g =
     (if ext2_has_group_desc_checksum (f_super fs) then
        bindE (ext2_bg_checksum fs g) (\<lambda>a. bindE (ext2_group_desc_checksum fs g) (\<lambda>b. Inr (a = b)))
      else Inr True)"

definition ext2_group_desc_checksum_update :: "Ext2Filesystem \<Rightarrow> u32 \<Rightarrow> Ext2Filesystem exec" where
  "ext2_group_desc_checksum_update fs g =
     (if ext2_has_group_desc_checksum (f_super fs)
      then bindE (ext2_group_desc_checksum fs g) (\<lambda>c. ext2_bg_checksum_update fs g c)
      else Inr fs)"

section \<open>Where the metadata of a group is\<close>

definition EXT2_BLOCK_SIZE :: "Ext2Superblock \<Rightarrow> nat" where
  "EXT2_BLOCK_SIZE s = 1024 * 2 ^ unat (s_log_block_size s)"

definition EXT2_DESC_PER_BLOCK :: "Ext2Superblock \<Rightarrow> u32" where
  "EXT2_DESC_PER_BLOCK s = of_nat (EXT2_BLOCK_SIZE s div EXT2_DESC_SIZE s)"

definition EXT2_CLUSTER_RATIO :: "Ext2Filesystem \<Rightarrow> u64" where
  "EXT2_CLUSTER_RATIO fs = 2 ^ f_cluster_ratio_bits fs"

definition EXT2_CLUSTER_MASK :: "Ext2Filesystem \<Rightarrow> u64" where
  "EXT2_CLUSTER_MASK fs = EXT2_CLUSTER_RATIO fs - 1"

text \<open>Superblock copy, old-style descriptors, new-style descriptor block, and the number of blocks they take.\<close>

definition old_desc_count :: "Ext2Filesystem \<Rightarrow> u64" where
  "old_desc_count fs =
     (if has_incompat (f_super fs) EXT2_FT_INCOMPAT_META_BG then ucast (s_first_meta_bg (f_super fs))
      else ucast (f_desc_blocks fs + ucast (s_reserved_gdt_blocks (f_super fs))))"

definition ext2_super_bgd_loc :: "Ext2Filesystem \<Rightarrow> u32 \<Rightarrow> u64 \<times> u64 \<times> u64 \<times> u64" where
  "ext2_super_bgd_loc fs g =
     (let first = ext2_group_first_block fs g;
          group_block = (if first = 0 \<and> f_blksize fs = 1024 then 1 else first);
          has_super = ext2_bg_has_super fs g;
          super_block = (if has_super then group_block else 0);
          nblocks = (if has_super then 1 else 0);
          meta_bg_size = EXT2_DESC_PER_BLOCK (f_super fs);
          meta_bg = g div meta_bg_size
      in if \<not> has_incompat (f_super fs) EXT2_FT_INCOMPAT_META_BG \<or> meta_bg < s_first_meta_bg (f_super fs) then
           if has_super then (super_block, group_block + 1, 0, nblocks + old_desc_count fs)
           else (super_block, 0, 0, nblocks)
         else if g mod meta_bg_size = 0 \<or> g mod meta_bg_size = 1 \<or> g mod meta_bg_size = meta_bg_size - 1 then
           (super_block, 0, group_block + (if has_super then 1 else 0), nblocks + 1)
         else (super_block, 0, 0, nblocks))"

definition ext2_descriptor_block :: "Ext2Filesystem \<Rightarrow> u64 \<Rightarrow> u32 \<Rightarrow> u64" where
  "ext2_descriptor_block fs group_block i =
     (let s = f_super fs;
          adjust = (if i = 0 \<and> f_blksize fs = 1024 \<and> EXT2_CLUSTER_RATIO fs > 1 then 1 else 0)
      in if \<not> has_incompat s EXT2_FT_INCOMPAT_META_BG \<or> i < s_first_meta_bg s then group_block + adjust + ucast i + 1
         else
           let bg = EXT2_DESC_PER_BLOCK s * i;
               has_super = (if ext2_bg_has_super fs bg then 1 else 0);
               block = ext2_group_first_block fs bg
           in if group_block \<noteq> ucast (s_first_data_block s) \<and>
                block + has_super + ucast (s_blocks_per_group s) < ext2_blocks_count s
              then block + ucast (s_blocks_per_group s) + (if ext2_bg_has_super fs (bg + 1) then 1 else 0) + adjust
              else block + has_super + adjust)"

text \<open>A value stored in an \<^verbatim>\<open>int\<close> and read back as a 64-bit one.\<close>

definition as_int :: "u64 \<Rightarrow> u64" where
  "as_int n = scast (ucast n :: u32)"

text \<open>\<^verbatim>\<open>fs/ext2/bitmap.c\<close>: marking the blocks that hold the metadata of a group.\<close>

definition ext2_reserve_super_bgd :: "Ext2Filesystem \<Rightarrow> u32 \<Rightarrow> Ext2Bitmap option \<Rightarrow> (u32 \<times> Ext2Bitmap option) exec" where
  "ext2_reserve_super_bgd fs g bmap =
     (let (super, old_desc, new_desc, used) = ext2_super_bgd_loc fs g;
          total = ext2_blocks_count (f_super fs);
          old = as_int (old_desc_count fs);
          nblocks = (if old_desc + old \<ge> total then as_int (total - old_desc) else old)
      in bindE (if super \<noteq> 0 \<or> g = 0 then ext2_mark_bitmap bmap super else Inr bmap) (\<lambda>bmap.
         bindE (if g = 0 \<and> f_blksize fs = 1024 \<and> EXT2_CLUSTER_RATIO fs > 1 then ext2_mark_bitmap bmap 0 else Inr bmap) (\<lambda>bmap.
         bindE (if old_desc \<noteq> 0 then ext2_mark_block_bitmap_range bmap old_desc nblocks else Inr bmap) (\<lambda>bmap.
         bindE (if new_desc \<noteq> 0 then ext2_mark_bitmap bmap new_desc else Inr bmap) (\<lambda>bmap.
           Inr (ucast (ext2_group_blocks_count fs g - (ucast (f_inode_blocks_per_group fs) + used + 2)), bmap))))))"

fun mark_uninit_loop :: "Ext2Filesystem \<Rightarrow> nat \<Rightarrow> nat \<Rightarrow> Ext2Bitmap option \<Rightarrow> Ext2Bitmap option exec" where
  "mark_uninit_loop fs i 0 bmap = Inr bmap"
| "mark_uninit_loop fs i (Suc n) bmap =
     (let g = of_nat i
      in bindE (ext2_bg_test_flags fs g EXT2_BG_BLOCK_UNINIT) (\<lambda>uninit.
         bindE (if \<not> uninit then Inr bmap
                else
                  bindE (ext2_reserve_super_bgd fs g bmap) (\<lambda>(_, bmap).
                  bindE (ext2_inode_table_loc fs g) (\<lambda>block.
                  bindE (if block \<noteq> 0 then ext2_mark_block_bitmap_range bmap block (ucast (f_inode_blocks_per_group fs))
                         else Inr bmap) (\<lambda>bmap.
                  bindE (ext2_block_bitmap_loc fs g) (\<lambda>block.
                  bindE (if block \<noteq> 0 then ext2_mark_bitmap bmap block else Inr bmap) (\<lambda>bmap.
                  bindE (ext2_inode_bitmap_loc fs g) (\<lambda>block.
                    if block \<noteq> 0 then ext2_mark_bitmap bmap block else Inr bmap)))))))
           (\<lambda>bmap. mark_uninit_loop fs (i + 1) n bmap)))"

definition ext2_mark_uninit_bg_group_blocks :: "Ext2Filesystem \<Rightarrow> Ext2Filesystem exec" where
  "ext2_mark_uninit_bg_group_blocks fs =
     bindE (mark_uninit_loop fs 0 (unat (f_group_desc_count fs)) (f_block_bitmap fs)) (\<lambda>bmap.
       Inr (fs\<lparr>f_block_bitmap := bmap\<rparr>))"

definition ext2_allocate_block_bitmap :: "bool \<Rightarrow> bool \<Rightarrow> bool \<Rightarrow> Ext2Filesystem \<Rightarrow> (int \<times> Ext2Bitmap option) exec" where
  "ext2_allocate_block_bitmap ok ok1 ok2 fs =
     (let s = f_super fs;
          start = drop_bit (f_cluster_ratio_bits fs) (ucast (s_first_data_block s));
          last = drop_bit (f_cluster_ratio_bits fs) (ext2_blocks_count s - 1);
          real_end = ucast (s_clusters_per_group s) * ucast (f_group_desc_count fs) - 1 + start
      in if f_flags fs AND EXT2_FLAG_64BIT \<noteq> 0
         then Inr (ext2_make_bitmap_64 ok ok1 ok2 (f_cluster_ratio_bits fs) EXT2_BMAP_MAGIC_BLOCK64 EXT2_BMAP64_BITARRAY start last real_end)
         else if last > 0xffffffff \<or> real_end > 0xffffffff then Inr (- EINVAL, None)
         else ext2_make_bitmap_32 ok ok1 EXT2_BMAP_MAGIC_BLOCK (ucast start) (ucast last) (ucast real_end) None)"

definition ext2_allocate_inode_bitmap :: "bool \<Rightarrow> bool \<Rightarrow> bool \<Rightarrow> Ext2Filesystem \<Rightarrow> (int \<times> Ext2Bitmap option) exec" where
  "ext2_allocate_inode_bitmap ok ok1 ok2 fs =
     (let s = f_super fs;
          last = ucast (s_inodes_count s);
          real_end = ucast (s_inodes_per_group s) * ucast (f_group_desc_count fs)
      in if f_flags fs AND EXT2_FLAG_64BIT \<noteq> 0
         then Inr (ext2_make_bitmap_64 ok ok1 ok2 (f_cluster_ratio_bits fs) EXT2_BMAP_MAGIC_BLOCK64 EXT2_BMAP64_BITARRAY 1 last real_end)
         else if last > 0xffffffff \<or> real_end > 0xffffffff then Inr (- EINVAL, None)
         else ext2_make_bitmap_32 ok ok1 EXT2_BMAP_MAGIC_BLOCK 1 (ucast last) (ucast real_end) None)"

section \<open>Allocation\<close>

definition set_flags :: "u32 \<Rightarrow> Ext2Filesystem \<Rightarrow> Ext2Filesystem" where
  "set_flags f fs = fs\<lparr>f_flags := f_flags fs OR f\<rparr>"

definition ext2_clear_block_uninit :: "Ext2Filesystem \<Rightarrow> u32 \<Rightarrow> Ext2Filesystem exec" where
  "ext2_clear_block_uninit fs g =
     (if g \<ge> f_group_desc_count fs \<or> \<not> ext2_has_group_desc_checksum (f_super fs) then Inr fs
      else bindE (ext2_bg_test_flags fs g EXT2_BG_BLOCK_UNINIT) (\<lambda>uninit.
        if \<not> uninit then Inr fs
        else bindE (ext2_bg_clear_flags fs g EXT2_BG_BLOCK_UNINIT) (\<lambda>fs.
             bindE (ext2_group_desc_checksum_update fs g) (\<lambda>fs.
               Inr (set_flags (EXT2_FLAG_CHANGED OR EXT2_FLAG_DIRTY OR EXT2_FLAG_BB_DIRTY) fs)))))"

fun unmark_loop :: "Ext2Bitmap option \<Rightarrow> u64 \<Rightarrow> nat \<Rightarrow> Ext2Bitmap option exec" where
  "unmark_loop bm ino 0 = Inr bm"
| "unmark_loop bm ino (Suc n) = bindE (ext2_unmark_bitmap bm ino) (\<lambda>bm. unmark_loop bm (ino + 1) n)"

text \<open>The map passed in is the inode bitmap of the filesystem in all calls, so it is not a separate argument here.\<close>

definition ext2_check_inode_uninit :: "Ext2Filesystem \<Rightarrow> u32 \<Rightarrow> Ext2Filesystem exec" where
  "ext2_check_inode_uninit fs g =
     (if g \<ge> f_group_desc_count fs \<or> \<not> ext2_has_group_desc_checksum (f_super fs) then Inr fs
      else bindE (ext2_bg_test_flags fs g EXT2_BG_INODE_UNINIT) (\<lambda>uninit.
        if \<not> uninit then Inr fs
        else
          let ipg = s_inodes_per_group (f_super fs)
          in bindE (unmark_loop (f_inode_bitmap fs) (ucast (g * ipg + 1)) (unat ipg)) (\<lambda>bm.
             bindE (ext2_bg_clear_flags (fs\<lparr>f_inode_bitmap := bm\<rparr>) g (EXT2_BG_INODE_UNINIT OR EXT2_BG_BLOCK_UNINIT)) (\<lambda>fs.
             bindE (ext2_group_desc_checksum_update fs g) (\<lambda>fs.
               Inr (set_flags (EXT2_FLAG_CHANGED OR EXT2_FLAG_DIRTY OR EXT2_FLAG_IB_DIRTY) fs))))))"

text \<open>\<open>inuse\<close> is an \<^verbatim>\<open>int\<close>, 1 or -1, here a word; a positive one marks.\<close>

definition ext2_inode_alloc_stats :: "Ext2Filesystem \<Rightarrow> u64 \<Rightarrow> u32 \<Rightarrow> bool \<Rightarrow> Ext2Filesystem exec" where
  "ext2_inode_alloc_stats fs ino inuse isdir =
     (let g = ext2_group_of_inode fs ino; ipg = s_inodes_per_group (f_super fs)
      in if ino > ucast (s_inodes_count (f_super fs)) then Inr fs
         else
           bindE (if 0 <s inuse then ext2_mark_bitmap (f_inode_bitmap fs) ino else ext2_unmark_bitmap (f_inode_bitmap fs) ino) (\<lambda>bm.
           let fs = fs\<lparr>f_inode_bitmap := bm\<rparr>
           in bindE (ext2_bg_free_inodes_count fs g) (\<lambda>n.
              bindE (ext2_bg_free_inodes_count_set fs g (n - inuse)) (\<lambda>fs.
              bindE (if isdir then bindE (ext2_bg_used_dirs_count fs g) (\<lambda>n. ext2_bg_used_dirs_count_set fs g (n - inuse))
                     else Inr fs) (\<lambda>fs.
              bindE (ext2_bg_clear_flags fs g EXT2_BG_INODE_UNINIT) (\<lambda>fs.
              bindE (if ext2_has_group_desc_checksum (f_super fs) then
                       bindE (ext2_bg_itable_unused fs g) (\<lambda>unused.
                       bindE (if ino \<ge> ucast (ipg - unused + g * ipg + 1)
                              then ext2_bg_itable_unused_set fs g (ucast (ucast (g * ipg + ipg) - ino)) else Inr fs) (\<lambda>fs.
                         ext2_group_desc_checksum_update fs g))
                     else Inr fs) (\<lambda>fs.
                Inr (set_flags (EXT2_FLAG_CHANGED OR EXT2_FLAG_DIRTY OR EXT2_FLAG_IB_DIRTY)
                  (fs\<lparr>f_super := (f_super fs)\<lparr>s_free_inodes_count := s_free_inodes_count (f_super fs) - inuse\<rparr>\<rparr>)))))))))"

definition ext2_block_alloc_stats :: "Ext2Filesystem \<Rightarrow> u64 \<Rightarrow> u32 \<Rightarrow> Ext2Filesystem exec" where
  "ext2_block_alloc_stats fs block inuse =
     (let g = ext2_group_of_block fs block
      in if block \<ge> ext2_blocks_count (f_super fs) then Inr fs
         else
           bindE (if 0 <s inuse then ext2_mark_bitmap (f_block_bitmap fs) block else ext2_unmark_bitmap (f_block_bitmap fs) block) (\<lambda>bm.
           let fs = fs\<lparr>f_block_bitmap := bm\<rparr>
           in bindE (ext2_bg_free_blocks_count fs g) (\<lambda>n.
              bindE (ext2_bg_free_blocks_count_set fs g (n - inuse)) (\<lambda>fs.
              bindE (ext2_bg_clear_flags fs g EXT2_BG_BLOCK_UNINIT) (\<lambda>fs.
              bindE (ext2_group_desc_checksum_update fs g) (\<lambda>fs.
                Inr (set_flags (EXT2_FLAG_CHANGED OR EXT2_FLAG_DIRTY OR EXT2_FLAG_BB_DIRTY)
                  (fs\<lparr>f_super := ext2_free_blocks_count_add (f_super fs) (- scast inuse * EXT2_CLUSTER_RATIO fs)\<rparr>))))))))"

text \<open>
  The map of \<^verbatim>\<open>ext2_new_block\<close> and \<^verbatim>\<open>ext2_new_inode\<close> is NULL or the bitmap of the filesystem in all calls, which is the same.
  \<open>base\<close> is the address of the bit array of a 64-bit bitmap.
\<close>

definition ext2_new_block :: "u32 \<Rightarrow> Ext2Filesystem \<Rightarrow> u64 \<Rightarrow> (int + u64 \<times> Ext2Filesystem) exec" where
  "ext2_new_block base fs goal =
     (let bm = f_block_bitmap fs; total = ext2_blocks_count (f_super fs); first = ucast (s_first_data_block (f_super fs))
      in if bm = None then Inr (Inl (- EINVAL))
         else
           let goal = (if goal = 0 \<or> goal \<ge> total then goal AND NOT (EXT2_CLUSTER_MASK fs) else goal)
           in bindE (ext2_find_first_zero_bitmap base bm goal (total - 1)) (\<lambda>r.
              bindE (if r = Inl (- ENOENT) \<and> goal \<noteq> first then ext2_find_first_zero_bitmap base bm first (goal - 1) else Inr r) (\<lambda>r.
                case r of Inl e \<Rightarrow> Inr (Inl e)
                | Inr b \<Rightarrow> bindE (ext2_clear_block_uninit fs (ext2_group_of_block fs b)) (\<lambda>fs. Inr (Inr (b, fs))))))"

definition EXT2_FIRST_INODE :: "Ext2Superblock \<Rightarrow> u32" where
  "EXT2_FIRST_INODE s = (if s_rev_level s = 0 then 11 else s_first_ino s)"

text \<open>
  The loop over the groups, with a bound on the number of rounds; \<open>None\<close> when the bound is reached. The result is
  an error or the inode it stopped at.
\<close>

fun new_inode_loop :: "nat \<Rightarrow> u32 \<Rightarrow> Ext2Filesystem \<Rightarrow> u64 \<Rightarrow> u64 \<Rightarrow> ((int + u64) \<times> Ext2Filesystem) option exec" where
  "new_inode_loop 0 base fs start_inode i = Inr None"
| "new_inode_loop (Suc n) base fs start_inode i =
     (let ipg = ucast (s_inodes_per_group (f_super fs)); count = ucast (s_inodes_count (f_super fs));
          ino_in_group = (i - 1) mod ipg; g = ucast ((i - 1) div ipg)
      in bindE (ext2_check_inode_uninit fs g) (\<lambda>fs.
         let upto = i + ipg - ino_in_group;
             upto = (if i < start_inode \<and> upto \<ge> start_inode then start_inode - 1 else upto);
             upto = (if upto > count then count else upto)
         in bindE (ext2_find_first_zero_bitmap base (f_inode_bitmap fs) i upto) (\<lambda>r.
            case r of
              Inr z \<Rightarrow> Inr (Some (Inr z, fs))
            | Inl e \<Rightarrow>
                if e \<noteq> - ENOENT then Inr (Some (Inl (- ENOSPC), fs))
                else
                  let i = (if upto + 1 > count then ucast (EXT2_FIRST_INODE (f_super fs)) else upto + 1)
                  in if i = start_inode then Inr (Some (Inr i, fs)) else new_inode_loop n base fs start_inode i)))"

definition ext2_new_inode :: "nat \<Rightarrow> u32 \<Rightarrow> Ext2Filesystem \<Rightarrow> u64 \<Rightarrow> ((int + u64) \<times> Ext2Filesystem) option exec" where
  "ext2_new_inode fuel base fs dir =
     (if f_inode_bitmap fs = None then Inr (Some (Inl (- EINVAL), fs))
      else
        let ipg = s_inodes_per_group (f_super fs); first = ucast (EXT2_FIRST_INODE (f_super fs));
            start = (if dir > 0 then ucast (ucast ((dir - 1) div ucast ipg) * ipg + 1 :: u32) else 0);
            start = (if start < first then first else start)
        in if start > ucast (s_inodes_count (f_super fs)) then Inr (Some (Inl (- ENOSPC), fs))
           else bindE (new_inode_loop fuel base fs start start) (\<lambda>r.
             case r of
               None \<Rightarrow> Inr None
             | Some (Inl e, fs) \<Rightarrow> Inr (Some (Inl e, fs))
             | Some (Inr i, fs) \<Rightarrow>
                 bindE (ext2_test_bitmap (f_inode_bitmap fs) i) (\<lambda>t.
                   Inr (Some (if t \<noteq> 0 then Inl (- ENOSPC) else Inr i, fs)))))"

end
