(* ===== verification/Ext2_Alloc.thy ===== *)
theory Ext2_Alloc
  imports Ext2_Groups
begin

unbundle bit_operations_syntax

text \<open>
  What the block groups promise: every block lies in exactly one group; superblock copies are where the
  powers of 3, 5 and 7 are; a descriptor whose checksum was updated is valid; and the free counts of
  the groups and of the superblock agree with the block bitmap through allocation and release.
\<close>

section \<open>Words\<close>

lemma unat_ucast_u64 [simp]: "unat (ucast x :: u64) = unat x" for x :: u32
  by (rule unat_ucast_up)

lemma unat_ucast_u32: "unat n < 2 ^ 32 \<Longrightarrow> unat (ucast n :: u32) = unat n" for n :: u64
  by (simp add: unsigned_ucast_eq take_bit_nat_eq_self)

lemma unat_add_u64: "unat a + unat b < 2 ^ 64 \<Longrightarrow> unat (a + b) = unat a + unat b" for a b :: u64
  by (simp add: unat_word_ariths)

lemma unat_mult_u64: "unat a * unat b < 2 ^ 64 \<Longrightarrow> unat (a * b) = unat a * unat b" for a b :: u64
  by (simp add: unat_word_ariths)

lemma unat_sub_u64: "b \<le> a \<Longrightarrow> unat (a - b) = unat a - unat b" for a b :: u64
  by (simp add: unat_sub)

lemma unat_pred_u64: "0 < unat a \<Longrightarrow> unat (a - 1) = unat a - 1" for a :: u64
  by (metis less_irrefl unat_0 unat_minus_one)

lemma unat_lt_2p64: "unat a < 2 ^ 64" for a :: u64
  using unsigned_less [of a, where 'a = nat] by simp

section \<open>Geometry\<close>

definition fs_first :: "Ext2Filesystem \<Rightarrow> nat" where "fs_first fs = unat (s_first_data_block (f_super fs))"
definition fs_total :: "Ext2Filesystem \<Rightarrow> nat" where "fs_total fs = unat (ext2_blocks_count (f_super fs))"
definition fs_bpg :: "Ext2Filesystem \<Rightarrow> nat" where "fs_bpg fs = unat (s_blocks_per_group (f_super fs))"
definition fs_groups :: "Ext2Filesystem \<Rightarrow> nat" where "fs_groups fs = unat (f_group_desc_count fs)"

lemmas fs_dims = fs_first_def fs_total_def fs_bpg_def fs_groups_def

text \<open>The geometry \<^verbatim>\<open>ext2_openfs\<close> checks: groups of at least one block that cover the blocks from the first data block
  on, all but the last of them completely.\<close>

definition fs_geom :: "Ext2Filesystem \<Rightarrow> bool" where
  "fs_geom fs \<longleftrightarrow> 0 < fs_bpg fs \<and> fs_first fs < fs_total fs \<and>
     fs_groups fs = (fs_total fs - fs_first fs - 1) div fs_bpg fs + 1"

lemma group_start_le:
  assumes "fs_geom fs" "unat g < fs_groups fs"
  shows "fs_first fs + fs_bpg fs * unat g < fs_total fs"
proof -
  have "unat g \<le> (fs_total fs - fs_first fs - 1) div fs_bpg fs" using assms by (simp add: fs_geom_def)
  then have "fs_bpg fs * unat g \<le> fs_total fs - fs_first fs - 1"
    by (metis div_times_less_eq_dividend le_trans mult.commute mult_le_mono1)
  moreover have "fs_first fs < fs_total fs" using assms(1) by (simp add: fs_geom_def)
  ultimately show ?thesis by linarith
qed

text \<open>The number of the last group.\<close>

lemma last_group_iff:
  assumes "unat g < fs_groups fs"
  shows "g = f_group_desc_count fs - 1 \<longleftrightarrow> unat g = fs_groups fs - 1"
proof -
  have "f_group_desc_count fs \<noteq> 0" using assms by (auto simp: fs_groups_def)
  then have "unat (f_group_desc_count fs - 1) = fs_groups fs - 1" by (simp add: unat_minus_one fs_groups_def)
  then show ?thesis by (metis word_unat_eq_iff)
qed

lemma unat_group_first:
  assumes "fs_geom fs" "unat g < fs_groups fs"
  shows "unat (ext2_group_first_block fs g) = fs_first fs + fs_bpg fs * unat g"
proof -
  have lt: "fs_first fs + fs_bpg fs * unat g < 2 ^ 64"
    using group_start_le [OF assms] unat_lt_2p64 [of "ext2_blocks_count (f_super fs)"] by (simp add: fs_total_def)
  then have "unat (ucast (s_blocks_per_group (f_super fs)) * ucast g :: u64) = fs_bpg fs * unat g"
    by (subst unat_mult_u64) (simp_all add: fs_bpg_def)
  then show ?thesis using lt unfolding ext2_group_first_block_def
    by (subst unat_add_u64) (simp_all add: fs_first_def)
qed

lemma unat_group_last:
  assumes "fs_geom fs" "unat g < fs_groups fs"
  shows "unat (ext2_group_last_block fs g) =
    (if unat g = fs_groups fs - 1 then fs_total fs - 1 else fs_first fs + fs_bpg fs * (unat g + 1) - 1)"
proof (cases "unat g = fs_groups fs - 1")
  case True
  moreover have "0 < unat (ext2_blocks_count (f_super fs))" using assms(1) by (simp add: fs_geom_def fs_total_def)
  ultimately show ?thesis
    by (simp add: ext2_group_last_block_def last_group_iff [OF assms(2)] unat_pred_u64 fs_total_def)
next
  case False
  have "unat g + 1 < fs_groups fs" using False assms(2) by simp
  moreover have "unat (g + 1) = unat g + 1" using calculation unat_inc [of g "f_group_desc_count fs"] by (simp add: fs_groups_def word_less_nat_alt)
  ultimately have lt: "fs_first fs + fs_bpg fs * (unat g + 1) < fs_total fs"
    using group_start_le [OF assms(1), of "g + 1"] by simp
  have "unat (ext2_group_first_block fs g + ucast (s_blocks_per_group (f_super fs))) = fs_first fs + fs_bpg fs * (unat g + 1)"
    using lt unat_lt_2p64 [of "ext2_blocks_count (f_super fs)"]
    by (subst unat_add_u64) (simp_all add: unat_group_first [OF assms] fs_bpg_def [symmetric] fs_total_def algebra_simps)
  moreover have "0 < fs_first fs + fs_bpg fs * (unat g + 1)" using assms(1) by (simp add: fs_geom_def)
  ultimately show ?thesis
    using False by (simp add: ext2_group_last_block_def last_group_iff [OF assms(2)] unat_pred_u64)
qed

definition in_fs :: "Ext2Filesystem \<Rightarrow> u64 \<Rightarrow> bool" where
  "in_fs fs b \<longleftrightarrow> fs_first fs \<le> unat b \<and> unat b < fs_total fs"

definition group_blocks :: "Ext2Filesystem \<Rightarrow> u32 \<Rightarrow> u64 set" where
  "group_blocks fs g = {b. ext2_group_first_block fs g \<le> b \<and> b \<le> ext2_group_last_block fs g}"

lemma unat_group_of_block:
  assumes "fs_geom fs" "in_fs fs b"
  shows "unat (ext2_group_of_block fs b) = (unat b - fs_first fs) div fs_bpg fs"
    "unat (ext2_group_of_block fs b) < fs_groups fs"
proof -
  have "(unat b - fs_first fs) div fs_bpg fs \<le> (fs_total fs - fs_first fs - 1) div fs_bpg fs"
    using assms(2) by (intro div_le_mono) (auto simp: in_fs_def)
  then have lt: "(unat b - fs_first fs) div fs_bpg fs < fs_groups fs" using assms(1) by (simp add: fs_geom_def)
  moreover have "fs_groups fs < 2 ^ 32" using unat_lt_2p32 [of "f_group_desc_count fs"] by (simp add: fs_groups_def)
  moreover have "unat ((b - ucast (s_first_data_block (f_super fs))) div ucast (s_blocks_per_group (f_super fs))) =
      (unat b - fs_first fs) div fs_bpg fs"
    using assms(2) by (simp add: unat_div unat_sub word_le_nat_alt in_fs_def fs_first_def fs_bpg_def)
  ultimately show "unat (ext2_group_of_block fs b) = (unat b - fs_first fs) div fs_bpg fs"
    unfolding ext2_group_of_block_def by (subst unat_ucast_u32) simp_all
  then show "unat (ext2_group_of_block fs b) < fs_groups fs" using lt by simp
qed

lemma group_blocks_iff:
  assumes "fs_geom fs" "unat g < fs_groups fs"
  shows "b \<in> group_blocks fs g \<longleftrightarrow> in_fs fs b \<and> (unat b - fs_first fs) div fs_bpg fs = unat g"
proof -
  let ?F = "fs_first fs" and ?B = "fs_bpg fs" and ?T = "fs_total fs"
  have B: "0 < ?B" and FT: "?F < ?T" using assms(1) by (auto simp: fs_geom_def)
  have iff: "(n - ?F) div ?B = unat g \<longleftrightarrow> ?F + ?B * unat g \<le> n \<and> n < ?F + ?B * (unat g + 1)" if "?F \<le> n" for n
  proof -
    have "(n - ?F) div ?B = unat g \<longleftrightarrow> ?B * unat g \<le> n - ?F \<and> n - ?F < ?B * (unat g + 1)"
      using B by (metis Suc_eq_plus1 div_nat_eqI dividend_less_times_div times_div_less_eq_dividend mult_Suc_right add.commute)
    then show ?thesis using that by auto
  qed
  have start: "?F + ?B * unat g < ?T" by (rule group_start_le [OF assms])
  show ?thesis
  proof (cases "unat g = fs_groups fs - 1")
    case True
    have "?T - ?F - 1 < ?B * (unat g + 1)"
      using True assms(1) B by (simp add: fs_geom_def dividend_less_times_div)
    then have "?T \<le> ?F + ?B * (unat g + 1)" by linarith
    then show ?thesis using True start FT iff [of "unat b"]
      by (auto simp: group_blocks_def word_le_nat_alt unat_group_first [OF assms] unat_group_last [OF assms] in_fs_def)
  next
    case False
    then have "unat g + 1 \<le> (?T - ?F - 1) div ?B" using assms by (simp add: fs_geom_def)
    then have "?B * (unat g + 1) \<le> ?T - ?F - 1"
      by (metis div_times_less_eq_dividend le_trans mult.commute mult_le_mono1)
    then show ?thesis using False start FT iff [of "unat b"] B
      by (auto simp: group_blocks_def word_le_nat_alt unat_group_first [OF assms] unat_group_last [OF assms] in_fs_def)
  qed
qed

lemma last_part_size:
  assumes "0 < B"
  shows "(if Suc m mod B = 0 then B else Suc m mod B) = Suc m - B * (m div B)"
proof -
  have "Suc m - B * (m div B) = Suc (m mod B)"
    by (simp add: Suc_diff_le minus_mult_div_eq_mod)
  then show ?thesis using assms by (auto simp: mod_Suc)
qed

lemma unat_group_count:
  assumes "fs_geom fs" "unat g < fs_groups fs"
  shows "unat (ext2_group_blocks_count fs g) = unat (ext2_group_last_block fs g) + 1 - unat (ext2_group_first_block fs g)"
proof -
  let ?F = "fs_first fs" and ?B = "fs_bpg fs" and ?T = "fs_total fs"
  have B: "0 < ?B" and FT: "?F < ?T" using assms(1) by (auto simp: fs_geom_def)
  have start: "?F + ?B * unat g < ?T" by (rule group_start_le [OF assms])
  show ?thesis
  proof (cases "unat g = fs_groups fs - 1")
    case True
    then have G: "unat g = (?T - ?F - 1) div ?B" using assms(1) by (simp add: fs_geom_def)
    have n: "unat ((ext2_blocks_count (f_super fs) - ucast (s_first_data_block (f_super fs))) mod
        ucast (s_blocks_per_group (f_super fs))) = (?T - ?F) mod ?B"
      using FT by (simp add: unat_mod unat_sub word_le_nat_alt fs_dims)
    have "(if (?T - ?F) mod ?B = 0 then ?B else (?T - ?F) mod ?B) = ?T - ?F - ?B * ((?T - ?F - 1) div ?B)"
    proof -
      have "Suc (?T - ?F - 1) = ?T - ?F" using FT by simp
      then show ?thesis using last_part_size [OF B, of "?T - ?F - 1"] by (simp only:)
    qed
    then show ?thesis
      using True G n B start by (auto simp: ext2_group_blocks_count_def last_group_iff [OF assms(2)] Let_def fs_bpg_def
          unat_group_first [OF assms] unat_group_last [OF assms] unat_eq_0 [symmetric])
  next
    case False
    then show ?thesis using B
      by (simp add: ext2_group_blocks_count_def last_group_iff [OF assms(2)] fs_bpg_def
          unat_group_first [OF assms] unat_group_last [OF assms])
  qed
qed

section \<open>Superblock copies\<close>

lemma test_root_powers:
  assumes "1 < unat x"
  shows "ext2_bg_super_test_root g x \<longleftrightarrow> (\<exists>k. unat g = unat x ^ Suc k)"
proof (induction "unat g" arbitrary: g rule: less_induct)
  case less
  let ?G = "unat g" and ?X = "unat x"
  have x: "\<not> x \<le> 1" using assms by (simp add: word_le_nat_alt)
  have lt: "g < x \<longleftrightarrow> ?G < ?X" and eq: "g = x \<longleftrightarrow> ?G = ?X" by (auto simp: word_less_nat_alt word_unat_eq_iff)
  have mod: "g mod x = 0 \<longleftrightarrow> ?G mod ?X = 0" by (simp add: word_unat_eq_iff unat_mod)
  have big: "?X \<le> ?X ^ Suc k" for k using assms by (simp add: self_le_power)
  consider "?G < ?X" | "?G = ?X" | "?X < ?G" "?G mod ?X \<noteq> 0" | "?X < ?G" "?G mod ?X = 0" by linarith
  then show ?case
  proof cases
    case 1
    then show ?thesis using big by (subst ext2_bg_super_test_root.simps) (force simp: lt)
  next
    case 2
    then show ?thesis using x by (subst ext2_bg_super_test_root.simps) (auto simp: lt eq intro!: exI [of _ 0])
  next
    case 3
    then show ?thesis using x by (subst ext2_bg_super_test_root.simps) (auto simp: lt eq mod)
  next
    case 4
    then have red: "ext2_bg_super_test_root g x = ext2_bg_super_test_root (g div x) x"
      using x by (subst ext2_bg_super_test_root.simps) (auto simp: lt eq mod)
    have d: "unat (g div x) = ?G div ?X" by (simp add: unat_div)
    then have "unat (g div x) < ?G" using 4 assms by simp
    then have IH: "ext2_bg_super_test_root (g div x) x \<longleftrightarrow> (\<exists>k. ?G div ?X = ?X ^ Suc k)" using less d by simp
    have "(\<exists>k. ?G = ?X ^ Suc k) \<longleftrightarrow> (\<exists>k. ?G div ?X = ?X ^ Suc k)"
    proof
      assume "\<exists>k. ?G = ?X ^ Suc k"
      then obtain k where k: "?G = ?X ^ Suc k" by blast
      then have "k \<noteq> 0" using 4(1) by (intro notI) simp
      then show "\<exists>k. ?G div ?X = ?X ^ Suc k" using k assms by (cases k) auto
    next
      assume "\<exists>k. ?G div ?X = ?X ^ Suc k"
      then obtain k where "?G div ?X = ?X ^ Suc k" by blast
      moreover have "?G = ?X * (?G div ?X)" using 4(2) by auto
      ultimately have "?G = ?X ^ Suc (Suc k)" by simp
      then show "\<exists>k. ?G = ?X ^ Suc k" by blast
    qed
    then show ?thesis using red IH by simp
  qed
qed

section \<open>Checksums\<close>

text \<open>The descriptors are as large as the superblock says, in whole words.\<close>

definition desc_ok :: "Ext2Filesystem \<Rightarrow> bool" where
  "desc_ok fs \<longleftrightarrow> EXT2_DESC_SIZE (f_super fs) mod 4 = 0 \<and>
     (\<forall>g < fs_groups fs. EXT2_DESC_SIZE (f_super fs) \<le> 64 + length (bg_rest (f_group_desc fs g)))"

lemma crc32_returns: "length data mod 4 = 0 \<Longrightarrow> \<exists>c. crc32 init data = Inr c"
  by (auto simp: crc32_def crc32_words_eq Let_def dest!: mod_0_imp_dvd)

lemma length_le [simp]: "length (le16 n) = 2" "length (le32 m) = 4"
  by (simp_all add: le16_def le32_def)

lemma desc_length [simp]: "length (desc_head d) = 30" "length (desc_tail d) = 32 + length (bg_rest d)"
  by (simp_all add: desc_head_def desc_tail_def)

lemma desc_checksum_irrelevant [simp]:
  "desc_head (d\<lparr>bg_checksum := c\<rparr>) = desc_head d" "desc_tail (d\<lparr>bg_checksum := c\<rparr>) = desc_tail d"
  by (simp_all add: desc_head_def desc_tail_def)

lemma group_desc_in [simp]: "unat g < fs_groups fs \<Longrightarrow> ext2_group_desc fs g = Inr (f_group_desc fs (unat g))"
  by (simp add: ext2_group_desc_def fs_groups_def word_less_nat_alt)

lemma upd_desc_in [simp]:
  "unat g < fs_groups fs \<Longrightarrow>
     upd_desc fs g f = Inr (fs\<lparr>f_group_desc := (f_group_desc fs)(unat g := f (f_group_desc fs (unat g)))\<rparr>)"
  by (simp add: upd_desc_def)

lemma desc_checksum_returns:
  assumes "desc_ok fs" "unat g < fs_groups fs"
  shows "\<exists>c. ext2_group_desc_checksum fs g = Inr c"
proof -
  let ?d = "f_group_desc fs (unat g)" and ?n = "EXT2_DESC_SIZE (f_super fs)"
  have "length (take ?n (desc_head ?d @ [0, 0] @ desc_tail ?d)) = ?n" using assms by (auto simp: desc_ok_def)
  then have "\<exists>c'. crc32 c (take ?n (desc_head ?d @ [0, 0] @ desc_tail ?d)) = Inr c'" for c
    using assms(1) by (intro crc32_returns) (simp only: desc_ok_def)
  moreover have "\<exists>c. crc32 (f_checksum_seed fs) (le32 g) = Inr c" by (intro crc32_returns) simp
  ultimately show ?thesis using assms(2)
    by (auto simp: ext2_group_desc_checksum_def Let_def) (metis bindE_Inr)
qed

lemma checksum_update_in:
  assumes "desc_ok fs" "unat g < fs_groups fs"
  shows "\<exists>c. ext2_group_desc_checksum_update fs g =
      Inr (fs\<lparr>f_group_desc := (f_group_desc fs)(unat g := (f_group_desc fs (unat g))\<lparr>bg_checksum := c\<rparr>)\<rparr>) \<and>
    (ext2_has_group_desc_checksum (f_super fs) \<longrightarrow> ext2_group_desc_checksum fs g = Inr c)"
proof (cases "ext2_has_group_desc_checksum (f_super fs)")
  case True
  obtain c where "ext2_group_desc_checksum fs g = Inr c" using desc_checksum_returns [OF assms] by blast
  then show ?thesis using True assms(2)
    by (intro exI [of _ c]) (simp add: ext2_group_desc_checksum_update_def ext2_bg_checksum_update_def)
next
  case False
  then show ?thesis
    by (intro exI [of _ "bg_checksum (f_group_desc fs (unat g))"]) (simp add: ext2_group_desc_checksum_update_def)
qed

lemma checksum_of_updated:
  assumes "unat g < fs_groups fs"
  shows "ext2_group_desc_checksum
      (fs\<lparr>f_group_desc := (f_group_desc fs)(unat g := (f_group_desc fs (unat g))\<lparr>bg_checksum := c\<rparr>)\<rparr>) g =
    ext2_group_desc_checksum fs g"
  using assms by (simp add: ext2_group_desc_checksum_def ext2_group_desc_def Let_def)

section \<open>Free counts\<close>

lemma hi_lo16_set:
  assumes "w \<or> unat n < 2 ^ 16"
  shows "hi_lo16 w (hi16 n) (ucast n) = n"
proof (cases w)
  case True
  have "ucast (ucast n :: u16) OR push_bit 16 (ucast (ucast (drop_bit 16 n) :: u16)) = n" (is "?l = n")
  proof (rule bit_word_eqI)
    fix k assume "k < LENGTH(32)"
    then show "bit ?l k = bit n k" by (cases "k < 16") (auto simp: bit_simps)
  qed
  then show ?thesis using True by (simp add: hi_lo16_def hi16_def)
next
  case False
  then show ?thesis using assms
    by (simp add: hi_lo16_def word_unat_eq_iff unsigned_ucast_eq unsigned_take_bit_eq take_bit_nat_eq_self)
qed

lemma hi_lo_set:
  assumes "w \<or> unat n < 2 ^ 32"
  shows "hi_lo w (ucast (drop_bit 32 n)) (ucast n) = n"
proof (cases w)
  case True
  have "ucast (ucast n :: u32) OR push_bit 32 (ucast (ucast (drop_bit 32 n) :: u32)) = n" (is "?l = n")
  proof (rule bit_word_eqI)
    fix k assume "k < LENGTH(64)"
    then show "bit ?l k = bit n k" by (cases "k < 32") (auto simp: bit_simps)
  qed
  then show ?thesis using True by (simp add: hi_lo_def)
next
  case False
  then show ?thesis using assms
    by (simp add: hi_lo_def word_unat_eq_iff unsigned_ucast_eq unsigned_take_bit_eq take_bit_nat_eq_self)
qed

definition used_blocks :: "Ext2Filesystem \<Rightarrow> u64 set" where
  "used_blocks fs = clusters (the (f_block_bitmap fs))"

definition group_free :: "Ext2Filesystem \<Rightarrow> u32 \<Rightarrow> u64 set" where
  "group_free fs g = group_blocks fs g - used_blocks fs"

definition all_free :: "Ext2Filesystem \<Rightarrow> u64 set" where
  "all_free fs = {b. in_fs fs b} - used_blocks fs"

text \<open>The block bitmap covers the filesystem, with clusters of one block.\<close>

definition bitmap_covers :: "Ext2Filesystem \<Rightarrow> bool" where
  "bitmap_covers fs \<longleftrightarrow> f_cluster_ratio_bits fs = 0 \<and>
     (\<exists>b. f_block_bitmap fs = Some b \<and> bitmap_inv b \<and> cluster b = (\<lambda>n. n) \<and> cluster_range b = {n. in_fs fs n})"

definition counts_ok :: "Ext2Filesystem \<Rightarrow> bool" where
  "counts_ok fs \<longleftrightarrow> (\<forall>g. unat g < fs_groups fs \<longrightarrow>
       (\<exists>n. ext2_bg_free_blocks_count fs g = Inr n \<and> unat n = card (group_free fs g))) \<and>
     unat (ext2_free_blocks_count (f_super fs)) = card (all_free fs)"

definition alloc_inv :: "Ext2Filesystem \<Rightarrow> bool" where
  "alloc_inv fs \<longleftrightarrow> fs_geom fs \<and> desc_ok fs \<and> bitmap_covers fs \<and> counts_ok fs \<and> (wide fs \<or> fs_bpg fs < 2 ^ 16)"

lemma dims_upd [simp]:
  "fs_groups (fs\<lparr>f_group_desc := d\<rparr>) = fs_groups fs" "fs_groups (fs\<lparr>f_block_bitmap := m\<rparr>) = fs_groups fs"
  "wide (fs\<lparr>f_group_desc := d\<rparr>) = wide fs" "wide (fs\<lparr>f_block_bitmap := m\<rparr>) = wide fs"
  by (simp_all add: fs_groups_def wide_def)

lemma desc_ok_upd:
  "desc_ok fs \<Longrightarrow> bg_rest d = bg_rest (f_group_desc fs k) \<Longrightarrow> desc_ok (fs\<lparr>f_group_desc := (f_group_desc fs)(k := d)\<rparr>)"
  "desc_ok fs \<Longrightarrow> desc_ok (fs\<lparr>f_block_bitmap := m\<rparr>)"
  by (simp_all add: desc_ok_def)

text \<open>The descriptor after the counter was set and the flag cleared.\<close>

definition stat_desc :: "bool \<Rightarrow> Ext4GroupDesc \<Rightarrow> u32 \<Rightarrow> Ext4GroupDesc" where
  "stat_desc w d n =
     (let d = d\<lparr>bg_free_blocks_count := ucast n\<rparr>; d = (if w then d\<lparr>bg_free_blocks_count_hi := hi16 n\<rparr> else d)
      in d\<lparr>bg_flags := bg_flags d AND NOT EXT2_BG_BLOCK_UNINIT\<rparr>)"

lemma stat_desc_rest [simp]: "bg_rest (stat_desc w d n) = bg_rest d"
  by (simp add: stat_desc_def Let_def)

lemma block_stats_result:
  assumes "desc_ok fs" "unat b < fs_total fs" "unat (ext2_group_of_block fs b) < fs_groups fs"
    "(if 0 <s inuse then ext2_mark_bitmap (f_block_bitmap fs) b else ext2_unmark_bitmap (f_block_bitmap fs) b) = Inr bm"
    "ext2_bg_free_blocks_count fs (ext2_group_of_block fs b) = Inr n"
  shows "\<exists>c. ext2_block_alloc_stats fs b inuse = Inr (set_flags (EXT2_FLAG_CHANGED OR EXT2_FLAG_DIRTY OR EXT2_FLAG_BB_DIRTY)
    (fs\<lparr>f_block_bitmap := bm,
        f_group_desc := (f_group_desc fs)(unat (ext2_group_of_block fs b) :=
          (stat_desc (wide fs) (f_group_desc fs (unat (ext2_group_of_block fs b))) (n - inuse))\<lparr>bg_checksum := c\<rparr>),
        f_super := ext2_free_blocks_count_add (f_super fs) (- scast inuse * EXT2_CLUSTER_RATIO fs)\<rparr>))"
proof -
  let ?g = "ext2_group_of_block fs b"
  let ?fs1 = "fs\<lparr>f_block_bitmap := bm\<rparr>"
  let ?d = "stat_desc (wide fs) (f_group_desc fs (unat ?g)) (n - inuse)"
  let ?fs2 = "?fs1\<lparr>f_group_desc := (f_group_desc fs)(unat ?g := ?d)\<rparr>"
  have lt: "\<not> ext2_blocks_count (f_super fs) \<le> b" using assms(2) by (simp add: fs_total_def word_le_nat_alt not_le)
  have n: "ext2_bg_free_blocks_count ?fs1 ?g = Inr n"
    using assms(3,5) by (simp add: ext2_bg_free_blocks_count_def)
  have set: "bindE (ext2_bg_free_blocks_count_set ?fs1 ?g (n - inuse)) (\<lambda>fs. ext2_bg_clear_flags fs ?g EXT2_BG_BLOCK_UNINIT) = Inr ?fs2"
    using assms(3) by (simp add: ext2_bg_free_blocks_count_set_def ext2_bg_clear_flags_def stat_desc_def Let_def)
  have "desc_ok ?fs2"
    using desc_ok_upd(1) [OF desc_ok_upd(2) [OF assms(1), of bm], of ?d "unat ?g"] by simp
  moreover have "unat ?g < fs_groups ?fs2" using assms(3) by simp
  ultimately obtain c where c: "ext2_group_desc_checksum_update ?fs2 ?g =
      Inr (?fs2\<lparr>f_group_desc := (f_group_desc ?fs2)(unat ?g := (f_group_desc ?fs2 (unat ?g))\<lparr>bg_checksum := c\<rparr>)\<rparr>)"
    using checksum_update_in [of ?fs2 ?g] by blast
  have bind_assoc: "bindE (bindE x f) h = bindE x (\<lambda>v. bindE (f v) h)" for x :: "Ext2Filesystem exec" and f h
    by (cases x) simp_all
  show ?thesis
    using lt assms(4) n set c
    by (intro exI [of _ c])
      (simp add: ext2_block_alloc_stats_def Let_def bind_assoc [symmetric] EXT2_CLUSTER_RATIO_def)
qed

lemma free_add_dims [simp]:
  "s_first_data_block (ext2_free_blocks_count_add s x) = s_first_data_block s"
  "s_blocks_per_group (ext2_free_blocks_count_add s x) = s_blocks_per_group s"
  "ext2_blocks_count (ext2_free_blocks_count_add s x) = ext2_blocks_count s"
  "has_incompat (ext2_free_blocks_count_add s x) f = has_incompat s f"
  "EXT2_DESC_SIZE (ext2_free_blocks_count_add s x) = EXT2_DESC_SIZE s"
  by (simp_all add: ext2_free_blocks_count_add_def ext2_free_blocks_count_set_def ext2_blocks_count_def has_incompat_def
      EXT2_DESC_SIZE_def Let_def)

lemma free_add_count:
  assumes "has_incompat s EXT4_FT_INCOMPAT_64BIT \<or> unat (ext2_free_blocks_count s + x) < 2 ^ 32"
  shows "ext2_free_blocks_count (ext2_free_blocks_count_add s x) = ext2_free_blocks_count s + x"
  using hi_lo_set [OF assms]
  by (auto simp: hi_lo_def ext2_free_blocks_count_add_def ext2_free_blocks_count_set_def ext2_free_blocks_count_def [of "_ \<lparr>s_free_blocks_count := _\<rparr>"]
      ext2_free_blocks_count_def [of "_ \<lparr>s_free_blocks_hi := _\<rparr>"] has_incompat_def Let_def)

lemma card_take_one: "b \<notin> U \<Longrightarrow> card (A - U) = card (A - insert b U) + (if b \<in> A then 1 else 0)" for A U :: "u64 set"
proof (cases "b \<in> A")
  case True
  assume "b \<notin> U"
  then have "A - U = insert b (A - insert b U)" using True by auto
  then have "card (A - U) = Suc (card (A - insert b U))" by (metis card_insert_disjoint finite insertCI Diff_iff)
  then show ?thesis using True by simp
next
  case False
  then have "A - U = A - insert b U" by auto
  then show ?thesis using False by simp
qed

lemma card_group_blocks:
  assumes "fs_geom fs" "unat g < fs_groups fs"
  shows "card (group_blocks fs g) \<le> fs_bpg fs"
proof -
  let ?a = "fs_first fs + fs_bpg fs * unat g"
  have "unat ` group_blocks fs g \<subseteq> {?a..<?a + fs_bpg fs}"
  proof
    fix k assume "k \<in> unat ` group_blocks fs g"
    then obtain b where b: "k = unat b" "in_fs fs b" "(unat b - fs_first fs) div fs_bpg fs = unat g"
      using group_blocks_iff [OF assms] by auto
    have "fs_bpg fs * unat g \<le> unat b - fs_first fs" "unat b - fs_first fs < fs_bpg fs + fs_bpg fs * unat g"
      unfolding b(3) [symmetric] using assms(1)
      by (auto simp: fs_geom_def intro: dividend_less_times_div)
    then show "k \<in> {?a..<?a + fs_bpg fs}" using b(1,2) by (auto simp: in_fs_def)
  qed
  then have "card (unat ` group_blocks fs g) \<le> fs_bpg fs" using card_mono [of "{?a..<?a + fs_bpg fs}"] by force
  moreover have "inj_on unat (group_blocks fs g)" by (auto intro!: inj_onI simp: word_unat_eq_iff)
  ultimately show ?thesis by (simp add: card_image)
qed

lemma card_in_fs: "card {b. in_fs fs b} \<le> fs_total fs - fs_first fs"
proof -
  have "unat ` {b :: u64. in_fs fs b} \<subseteq> {fs_first fs..<fs_total fs}" by (auto simp: in_fs_def)
  then have "card (unat ` {b :: u64. in_fs fs b}) \<le> fs_total fs - fs_first fs"
    using card_mono [of "{fs_first fs..<fs_total fs}"] by force
  moreover have "inj_on unat {b :: u64. in_fs fs b}" by (auto intro!: inj_onI simp: word_unat_eq_iff)
  ultimately show ?thesis by (simp add: card_image)
qed

definition set_step :: "u32 \<Rightarrow> u64 \<Rightarrow> u64 set \<Rightarrow> u64 set \<Rightarrow> bool" where
  "set_step inuse b U U' \<longleftrightarrow> inuse = 1 \<and> b \<notin> U \<and> U' = insert b U \<or> inuse = - 1 \<and> b \<in> U \<and> U' = U - {b}"

lemma take_count:
  fixes n :: "'a::len word" and b :: u64
  assumes "b \<notin> U" "b \<in> A" "unat n = card (A - U)"
  shows "unat (n - 1) = card (A - insert b U)"
proof -
  have "unat n = Suc (card (A - insert b U))" using card_take_one [of b U A] assms by simp
  moreover from this have "n \<noteq> 0" by auto
  ultimately show ?thesis by (simp add: unat_minus_one)
qed

lemma put_count:
  fixes n :: "'a::len word" and b :: u64
  assumes "b \<in> U" "b \<in> A" "unat n = card (A - U)" "card A < 2 ^ LENGTH('a)"
  shows "unat (n + 1) = card (A - (U - {b}))"
proof -
  have "card (A - (U - {b})) = Suc (unat n)"
    using card_take_one [of b "U - {b}" A] assms(1-3) by (simp add: insert_absorb)
  moreover have "card (A - (U - {b})) \<le> card A" by (intro card_mono) auto
  ultimately show ?thesis using assms(4) by (simp add: unat_word_ariths)
qed

lemma step_card:
  fixes n :: u32
  assumes "set_step inuse b U U'" "unat n = card (A - U)" "card A < 2 ^ 32" "b \<in> A"
  shows "unat (n - inuse) = card (A - U')"
  using assms take_count [of b U A n] put_count [of b U A n] by (auto simp: set_step_def)

lemma step_card_64:
  fixes n :: u64
  assumes "set_step inuse b U U'" "unat n = card (A - U)" "card A < 2 ^ 64" "b \<in> A"
  shows "unat (n - scast inuse) = card (A - U')"
  using assms take_count [of b U A n] put_count [of b U A n] by (auto simp: set_step_def)

lemma step_other: "set_step inuse b U U' \<Longrightarrow> b \<notin> A \<Longrightarrow> A - U' = A - U"
  by (auto simp: set_step_def)

lemma counts_step:
  assumes geom: "fs_geom fs" and counts_ok: "counts_ok fs" and small: "wide fs \<or> fs_bpg fs < 2 ^ 16" and b: "in_fs fs b"
    and step: "set_step inuse b (used_blocks fs) (used_blocks fs')"
    and n: "ext2_bg_free_blocks_count fs (ext2_group_of_block fs b) = Inr n"
    and fields: "f_group_desc_count fs' = f_group_desc_count fs"
    "f_super fs' = ext2_free_blocks_count_add (f_super fs) (- scast inuse)"
    "f_group_desc fs' = (f_group_desc fs)(unat (ext2_group_of_block fs b) :=
       (stat_desc (wide fs) (f_group_desc fs (unat (ext2_group_of_block fs b))) (n - inuse))\<lparr>bg_checksum := c\<rparr>)"
  shows "counts_ok fs'"
proof -
  let ?g = "ext2_group_of_block fs b" and ?U = "used_blocks fs'"
  note g = unat_group_of_block [OF geom b]
  have dims: "fs_first fs' = fs_first fs" "fs_total fs' = fs_total fs" "fs_groups fs' = fs_groups fs" "wide fs' = wide fs"
    by (simp_all add: fs_dims wide_def fields)
  have blocks: "in_fs fs' = in_fs fs" "group_blocks fs' = group_blocks fs"
    by (simp_all add: in_fs_def dims fun_eq_iff group_blocks_def ext2_group_first_block_def ext2_group_last_block_def fields)
  have n2: "unat n = card (group_blocks fs ?g - used_blocks fs)"
    using counts_ok n g(2) by (fastforce simp: counts_ok_def group_free_def)
  have own: "b \<in> group_blocks fs h \<longleftrightarrow> h = ?g" if "unat h < fs_groups fs" for h
    using group_blocks_iff [OF geom that, of b] b g(1) by (auto simp: word_unat_eq_iff)
  have bpg: "fs_bpg fs < 2 ^ 32" using unat_lt_2p32 [of "s_blocks_per_group (f_super fs)"] by (simp add: fs_bpg_def)
  have n': "unat (n - inuse) = card (group_blocks fs ?g - ?U)"
    using step n2 card_group_blocks [OF geom g(2)] bpg own [OF g(2)] by (intro step_card) auto
  also have "\<dots> \<le> card (group_blocks fs ?g)" by (intro card_mono) auto
  finally have le: "unat (n - inuse) \<le> fs_bpg fs" using card_group_blocks [OF geom g(2)] by simp
  have read: "ext2_bg_free_blocks_count fs' ?g = Inr (n - inuse)"
    using hi_lo16_set [of "wide fs" "n - inuse"] small le g(2)
    by (auto simp: ext2_bg_free_blocks_count_def dims fields stat_desc_def Let_def hi_lo16_def)
  have "\<exists>k. ext2_bg_free_blocks_count fs' h = Inr k \<and> unat k = card (group_free fs' h)" if h: "unat h < fs_groups fs" for h
  proof (cases "h = ?g")
    case True
    then show ?thesis using read n' by (simp add: group_free_def blocks)
  next
    case False
    then have "group_free fs' h = group_free fs h"
      using own [OF h] step_other [OF step] by (simp add: group_free_def blocks)
    moreover have "ext2_bg_free_blocks_count fs' h = ext2_bg_free_blocks_count fs h"
      using False h by (simp add: ext2_bg_free_blocks_count_def dims fields word_unat_eq_iff)
    ultimately show ?thesis using counts_ok h by (simp add: counts_ok_def)
  qed
  moreover have "unat (ext2_free_blocks_count (f_super fs')) = card (all_free fs')"
  proof -
    have total: "card {b. in_fs fs b} \<le> fs_total fs" using card_in_fs [of fs] by simp
    then have "card {b. in_fs fs b} < 2 ^ 64"
      using unat_lt_2p64 [of "ext2_blocks_count (f_super fs)"] by (simp add: fs_total_def)
    moreover have "unat (ext2_free_blocks_count (f_super fs)) = card ({b. in_fs fs b} - used_blocks fs)"
      using counts_ok by (simp add: counts_ok_def all_free_def)
    ultimately have x: "unat (ext2_free_blocks_count (f_super fs) + - scast inuse) = card ({b. in_fs fs b} - ?U)"
      using step_card_64 [OF step, of _ "{b. in_fs fs b}"] b by simp
    also have "\<dots> \<le> card {b. in_fs fs b}" by (intro card_mono) auto
    finally have "unat (ext2_free_blocks_count (f_super fs) + - scast inuse) \<le> fs_total fs" using total by simp
    moreover have "has_incompat (f_super fs) EXT4_FT_INCOMPAT_64BIT \<or> fs_total fs < 2 ^ 32"
      using unat_lt_2p32 [of "s_blocks_count (f_super fs)"] by (auto simp: fs_total_def ext2_blocks_count_def hi_lo_def)
    ultimately have "ext2_free_blocks_count (f_super fs') = ext2_free_blocks_count (f_super fs) + - scast inuse"
      unfolding fields by (intro free_add_count) auto
    then show ?thesis using x by (simp add: all_free_def blocks)
  qed
  ultimately show ?thesis by (simp add: counts_ok_def dims)
qed

lemma stats_keep_inv:
  assumes inv: "alloc_inv fs" and b: "in_fs fs b"
    and bm: "(if 0 <s inuse then ext2_mark_bitmap (f_block_bitmap fs) b else ext2_unmark_bitmap (f_block_bitmap fs) b) = Inr (Some m)"
      "bitmap_inv m" "cluster m = (\<lambda>n. n)" "cluster_range m = {n. in_fs fs n}"
    and step: "set_step inuse b (used_blocks fs) (clusters m)"
  shows "\<exists>fs'. ext2_block_alloc_stats fs b inuse = Inr fs' \<and> alloc_inv fs' \<and> used_blocks fs' = clusters m"
proof -
  let ?g = "ext2_group_of_block fs b"
  have geom: "fs_geom fs" and desc: "desc_ok fs" and ratio: "f_cluster_ratio_bits fs = 0"
    and small: "wide fs \<or> fs_bpg fs < 2 ^ 16"
    using inv by (auto simp: alloc_inv_def bitmap_covers_def)
  note g = unat_group_of_block [OF geom b]
  obtain n where n: "ext2_bg_free_blocks_count fs ?g = Inr n"
    using inv g(2) by (auto simp: alloc_inv_def counts_ok_def)
  obtain c where c: "ext2_block_alloc_stats fs b inuse = Inr (set_flags (EXT2_FLAG_CHANGED OR EXT2_FLAG_DIRTY OR EXT2_FLAG_BB_DIRTY)
    (fs\<lparr>f_block_bitmap := Some m,
        f_group_desc := (f_group_desc fs)(unat ?g := (stat_desc (wide fs) (f_group_desc fs (unat ?g)) (n - inuse))\<lparr>bg_checksum := c\<rparr>),
        f_super := ext2_free_blocks_count_add (f_super fs) (- scast inuse * EXT2_CLUSTER_RATIO fs)\<rparr>))" (is "_ = Inr ?r")
    using block_stats_result [OF desc _ g(2) bm(1) n] b by (auto simp: in_fs_def)
  define fs' where "fs' = ?r"
  have fields: "f_block_bitmap fs' = Some m" "f_cluster_ratio_bits fs' = 0" "f_group_desc_count fs' = f_group_desc_count fs"
    "f_super fs' = ext2_free_blocks_count_add (f_super fs) (- scast inuse)"
    "f_group_desc fs' = (f_group_desc fs)(unat ?g := (stat_desc (wide fs) (f_group_desc fs (unat ?g)) (n - inuse))\<lparr>bg_checksum := c\<rparr>)"
    by (simp_all add: fs'_def set_flags_def ratio EXT2_CLUSTER_RATIO_def)
  have dims: "fs_first fs' = fs_first fs" "fs_total fs' = fs_total fs" "fs_bpg fs' = fs_bpg fs" "fs_groups fs' = fs_groups fs"
    "wide fs' = wide fs"
    by (simp_all add: fs_dims wide_def fields)
  have blocks: "in_fs fs' = in_fs fs" "group_blocks fs' = group_blocks fs"
    by (simp_all add: in_fs_def dims fun_eq_iff group_blocks_def ext2_group_first_block_def ext2_group_last_block_def fields)
  have used: "used_blocks fs' = clusters m" by (simp add: used_blocks_def fields)
  have "fs_geom fs'" using geom by (simp add: fs_geom_def dims)
  moreover have "desc_ok fs'" using desc by (simp add: desc_ok_def dims(4) fields)
  moreover have "bitmap_covers fs'" using bm(2-4) by (simp add: bitmap_covers_def fields blocks)
  moreover have "counts_ok fs'"
    using counts_step [OF geom _ small b _ n fields(3-5)] inv step used by (simp add: alloc_inv_def)
  ultimately have "alloc_inv fs'" using small by (simp add: alloc_inv_def dims)
  then show ?thesis using c used by (auto simp: fs'_def)
qed

lemma mark_step:
  assumes "alloc_inv fs" "in_fs fs b" "b \<notin> used_blocks fs"
  shows "\<exists>fs'. ext2_block_alloc_stats fs b 1 = Inr fs' \<and> alloc_inv fs' \<and> used_blocks fs' = insert b (used_blocks fs)"
proof -
  obtain m where m: "f_block_bitmap fs = Some m" "bitmap_inv m" "cluster m = (\<lambda>n. n)" "cluster_range m = {n. in_fs fs n}"
    using assms(1) by (auto simp: alloc_inv_def bitmap_covers_def)
  obtain m' where m': "ext2_mark_bitmap (Some m) b = Inr (Some m')" "bitmap_inv m'" "cluster m' = cluster m"
    "cluster_range m' = cluster_range m" "clusters m' = clusters m \<union> ({cluster m b} \<inter> cluster_range m)"
    using mark_spec [OF m(2)] by blast
  then have "clusters m' = insert b (used_blocks fs)" using m assms(2) by (auto simp: used_blocks_def)
  moreover have "0 <s (1 :: u32)" by (simp add: word_sless_alt)
  ultimately show ?thesis using stats_keep_inv [OF assms(1,2), of 1 m'] m m' assms(3) by (simp add: set_step_def)
qed

lemma unmark_step:
  assumes "alloc_inv fs" "in_fs fs b" "b \<in> used_blocks fs"
  shows "\<exists>fs'. ext2_block_alloc_stats fs b (- 1) = Inr fs' \<and> alloc_inv fs' \<and> used_blocks fs' = used_blocks fs - {b}"
proof -
  obtain m where m: "f_block_bitmap fs = Some m" "bitmap_inv m" "cluster m = (\<lambda>n. n)" "cluster_range m = {n. in_fs fs n}"
    using assms(1) by (auto simp: alloc_inv_def bitmap_covers_def)
  obtain m' where m': "ext2_unmark_bitmap (Some m) b = Inr (Some m')" "bitmap_inv m'" "cluster m' = cluster m"
    "cluster_range m' = cluster_range m" "clusters m' = clusters m - {cluster m b}"
    using unmark_spec [OF m(2)] by blast
  then have "clusters m' = used_blocks fs - {b}" using m by (simp add: used_blocks_def)
  then show ?thesis using stats_keep_inv [OF assms(1,2), of "- 1" m'] m m' assms(3) by (simp add: set_step_def)
qed

text \<open>Changes of the flags and checksums of a descriptor keep the invariant.\<close>

lemma alloc_inv_cong:
  assumes "f_super fs' = f_super fs" "f_group_desc_count fs' = f_group_desc_count fs"
    "f_cluster_ratio_bits fs' = f_cluster_ratio_bits fs" "f_block_bitmap fs' = f_block_bitmap fs"
    "\<And>g. bg_free_blocks_count (f_group_desc fs' g) = bg_free_blocks_count (f_group_desc fs g)"
    "\<And>g. bg_free_blocks_count_hi (f_group_desc fs' g) = bg_free_blocks_count_hi (f_group_desc fs g)"
    "\<And>g. bg_rest (f_group_desc fs' g) = bg_rest (f_group_desc fs g)"
  shows "alloc_inv fs' = alloc_inv fs" "used_blocks fs' = used_blocks fs" "in_fs fs' = in_fs fs"
proof -
  have dims: "fs_first fs' = fs_first fs" "fs_total fs' = fs_total fs" "fs_bpg fs' = fs_bpg fs" "fs_groups fs' = fs_groups fs"
    "wide fs' = wide fs"
    by (simp_all add: fs_dims wide_def assms)
  have blocks: "in_fs fs' = in_fs fs" "group_blocks fs' = group_blocks fs" "ext2_bg_free_blocks_count fs' = ext2_bg_free_blocks_count fs"
    by (simp_all add: in_fs_def dims fun_eq_iff group_blocks_def ext2_group_first_block_def ext2_group_last_block_def
        ext2_bg_free_blocks_count_def ext2_group_desc_def assms)
  show "in_fs fs' = in_fs fs" by (rule blocks(1))
  show used: "used_blocks fs' = used_blocks fs" by (simp add: used_blocks_def assms)
  show "alloc_inv fs' = alloc_inv fs"
    by (simp add: alloc_inv_def fs_geom_def desc_ok_def bitmap_covers_def counts_ok_def group_free_def all_free_def
        dims blocks used assms)
qed

lemma clear_uninit_inv:
  assumes "alloc_inv fs" "unat g < fs_groups fs"
  shows "\<exists>fs'. ext2_clear_block_uninit fs g = Inr fs' \<and> alloc_inv fs' \<and> used_blocks fs' = used_blocks fs \<and> in_fs fs' = in_fs fs"
proof (cases "ext2_has_group_desc_checksum (f_super fs) \<and> bg_flags (f_group_desc fs (unat g)) AND EXT2_BG_BLOCK_UNINIT \<noteq> 0")
  case False
  then have "ext2_clear_block_uninit fs g = Inr fs"
    using assms(2) by (auto simp: ext2_clear_block_uninit_def ext2_bg_test_flags_def)
  then show ?thesis using assms(1) by simp
next
  case True
  let ?d = "(f_group_desc fs (unat g))\<lparr>bg_flags := bg_flags (f_group_desc fs (unat g)) AND NOT EXT2_BG_BLOCK_UNINIT\<rparr>"
  let ?fs = "fs\<lparr>f_group_desc := (f_group_desc fs)(unat g := ?d)\<rparr>"
  have "desc_ok ?fs" using assms(1) by (intro desc_ok_upd) (auto simp: alloc_inv_def)
  then obtain c where c: "ext2_group_desc_checksum_update ?fs g =
      Inr (?fs\<lparr>f_group_desc := (f_group_desc ?fs)(unat g := (f_group_desc ?fs (unat g))\<lparr>bg_checksum := c\<rparr>)\<rparr>)"
    using checksum_update_in [of ?fs g] assms(2) by auto
  define fs' where "fs' = set_flags (EXT2_FLAG_CHANGED OR EXT2_FLAG_DIRTY OR EXT2_FLAG_BB_DIRTY)
    (?fs\<lparr>f_group_desc := (f_group_desc ?fs)(unat g := (f_group_desc ?fs (unat g))\<lparr>bg_checksum := c\<rparr>)\<rparr>)"
  have "ext2_clear_block_uninit fs g = Inr fs'"
    using True c assms(2)
    by (simp add: ext2_clear_block_uninit_def ext2_bg_test_flags_def ext2_bg_clear_flags_def fs'_def fs_groups_def word_le_nat_alt not_le)
  moreover have "alloc_inv fs' = alloc_inv fs" "used_blocks fs' = used_blocks fs" "in_fs fs' = in_fs fs"
    by (rule alloc_inv_cong; simp add: fs'_def set_flags_def)+
  ultimately show ?thesis using assms(1) by simp
qed

section \<open>Finding a free block\<close>

lemma fs_search:
  assumes "alloc_inv fs" "f_block_bitmap fs = Some m" "EXT2_BITMAP_IS_32 m" "in_fs fs a" "in_fs fs z" "a \<le> z"
  shows "\<exists>r. ext2_find_first_zero_bitmap base (Some m) a z = Inr r \<and>
    (case r of Inl e \<Rightarrow> e = - ENOENT \<and> {a..z} \<subseteq> used_blocks fs | Inr b \<Rightarrow> b \<in> {a..z} - used_blocks fs)"
proof -
  have m: "bitmap_inv m" "cluster_range m = {n. in_fs fs n}" "used_blocks fs = clusters m"
    using assms(1,2) by (auto simp: alloc_inv_def bitmap_covers_def used_blocks_def)
  then have "a \<in> cluster_range m" "z \<in> cluster_range m" using assms(4,5) by simp_all
  then obtain r where "ext2_find_first_zero_bitmap base (Some m) a z = Inr r"
    "case r of Inl e \<Rightarrow> e = - ENOENT \<and> (\<forall>n. a \<le> n \<and> n \<le> z \<longrightarrow> n \<in> clusters m)
     | Inr b \<Rightarrow> a \<le> b \<and> b \<le> z \<and> b \<notin> clusters m \<and> (\<forall>n. a \<le> n \<and> n < b \<longrightarrow> n \<in> clusters m)"
    using zero_search_32 [OF m(1) assms(3), of a z base] assms(6) by (auto simp: cluster_range_def)
  then show ?thesis by (cases r) (auto simp: m(3))
qed

lemma in_fs_interval:
  assumes "fs_geom fs"
  shows "{b. in_fs fs b} = {ucast (s_first_data_block (f_super fs))..ext2_blocks_count (f_super fs) - 1}"
    "in_fs fs (ucast (s_first_data_block (f_super fs)))" "in_fs fs (ext2_blocks_count (f_super fs) - 1)"
proof -
  have "unat (ext2_blocks_count (f_super fs) - 1) = fs_total fs - 1"
    using assms unat_pred_u64 [of "ext2_blocks_count (f_super fs)"] by (auto simp: fs_geom_def fs_total_def)
  then show "{b. in_fs fs b} = {ucast (s_first_data_block (f_super fs))..ext2_blocks_count (f_super fs) - 1}"
    "in_fs fs (ucast (s_first_data_block (f_super fs)))" "in_fs fs (ext2_blocks_count (f_super fs) - 1)"
    using assms by (auto simp: in_fs_def word_le_nat_alt fs_geom_def fs_first_def)
qed

text \<open>The two searches of \<^verbatim>\<open>ext2_new_block\<close>, from the goal to the end and then from the start to the goal.\<close>

lemma new_block_search:
  assumes inv: "alloc_inv fs" and m: "f_block_bitmap fs = Some m" "EXT2_BITMAP_IS_32 m" and goal: "in_fs fs goal"
  defines "f0 \<equiv> ucast (s_first_data_block (f_super fs))" and "z0 \<equiv> ext2_blocks_count (f_super fs) - 1"
  shows "\<exists>r. bindE (ext2_find_first_zero_bitmap base (Some m) goal z0) (\<lambda>r.
      if r = Inl (- ENOENT) \<and> goal \<noteq> f0 then ext2_find_first_zero_bitmap base (Some m) f0 (goal - 1) else Inr r) = Inr r \<and>
    (case r of Inl e \<Rightarrow> e = - ENOENT \<and> all_free fs = {} | Inr b \<Rightarrow> b \<in> all_free fs)"
proof -
  have geom: "fs_geom fs" using inv by (simp add: alloc_inv_def)
  note fs_int = in_fs_interval [OF geom, folded f0_def z0_def]
  have free: "all_free fs = {f0..z0} - used_blocks fs" using fs_int(1) by (simp add: all_free_def)
  have g: "f0 \<le> goal" "goal \<le> z0" using goal fs_int(1) by auto
  obtain r where r: "ext2_find_first_zero_bitmap base (Some m) goal z0 = Inr r"
    "case r of Inl e \<Rightarrow> e = - ENOENT \<and> {goal..z0} \<subseteq> used_blocks fs | Inr b \<Rightarrow> b \<in> {goal..z0} - used_blocks fs"
    using fs_search [OF inv m goal fs_int(3) g(2)] by blast
  show ?thesis
  proof (cases "r = Inl (- ENOENT) \<and> goal \<noteq> f0")
    case False
    then show ?thesis using r g free by (cases r) auto
  next
    case True
    then have hi: "{goal..z0} \<subseteq> used_blocks fs" and ne: "goal \<noteq> 0" using r(2) g(1) by (auto simp: word_le_nat_alt unat_eq_0)
    have p: "unat (goal - 1) = unat goal - 1" "0 < unat goal" using ne by (auto simp: unat_minus_one unat_gt_0)
    then have le: "f0 \<le> goal - 1" "goal - 1 \<le> z0" using g True by (auto simp: word_le_nat_alt word_unat_eq_iff)
    then have "in_fs fs (goal - 1)" using fs_int(1) by auto
    then obtain r' where r': "ext2_find_first_zero_bitmap base (Some m) f0 (goal - 1) = Inr r'"
      "case r' of Inl e \<Rightarrow> e = - ENOENT \<and> {f0..goal - 1} \<subseteq> used_blocks fs | Inr b \<Rightarrow> b \<in> {f0..goal - 1} - used_blocks fs"
      using fs_search [OF inv m fs_int(2) _ le(1)] by blast
    have "n \<le> goal - 1" if "\<not> goal \<le> n" for n using that p by (auto simp: word_le_nat_alt)
    then have "{f0..z0} = {f0..goal - 1} \<union> {goal..z0}" using g le by (auto intro: order_trans)
    then show ?thesis using r(1) True r' hi free le by (cases r') auto
  qed
qed

lemma new_block_spec:
  assumes inv: "alloc_inv fs" and m: "f_block_bitmap fs = Some m" "EXT2_BITMAP_IS_32 m" and goal: "in_fs fs goal"
  shows "if all_free fs = {} then ext2_new_block base fs goal = Inr (Inl (- ENOENT))
    else \<exists>b fs'. ext2_new_block base fs goal = Inr (Inr (b, fs')) \<and> b \<in> all_free fs \<and> alloc_inv fs' \<and>
      used_blocks fs' = used_blocks fs \<and> in_fs fs' = in_fs fs"
proof -
  let ?first = "ucast (s_first_data_block (f_super fs)) :: u64" and ?last = "ext2_blocks_count (f_super fs) - 1"
  have "f_cluster_ratio_bits fs = 0" using inv by (simp add: alloc_inv_def bitmap_covers_def)
  then have goal': "(if goal = 0 \<or> goal \<ge> ext2_blocks_count (f_super fs) then goal AND NOT (EXT2_CLUSTER_MASK fs) else goal) = goal"
    by (simp add: EXT2_CLUSTER_MASK_def EXT2_CLUSTER_RATIO_def)
  obtain r where r: "bindE (ext2_find_first_zero_bitmap base (Some m) goal ?last) (\<lambda>r.
      if r = Inl (- ENOENT) \<and> goal \<noteq> ?first then ext2_find_first_zero_bitmap base (Some m) ?first (goal - 1) else Inr r) = Inr r"
    "case r of Inl e \<Rightarrow> e = - ENOENT \<and> all_free fs = {} | Inr b \<Rightarrow> b \<in> all_free fs"
    using new_block_search [OF assms] by blast
  then obtain r0 where r0: "ext2_find_first_zero_bitmap base (Some m) goal ?last = Inr r0"
    "(if r0 = Inl (- ENOENT) \<and> goal \<noteq> ?first then ext2_find_first_zero_bitmap base (Some m) ?first (goal - 1) else Inr r0) = Inr r"
    by (auto simp: bindE_eq_Inr_iff)
  have nb: "ext2_new_block base fs goal = (case r of Inl e \<Rightarrow> Inr (Inl e)
      | Inr b \<Rightarrow> bindE (ext2_clear_block_uninit fs (ext2_group_of_block fs b)) (\<lambda>fs. Inr (Inr (b, fs))))"
    using r0 by (simp add: ext2_new_block_def m Let_def goal')
  show ?thesis
  proof (cases r)
    case (Inr b)
    have "in_fs fs b" using r(2) Inr by (simp add: all_free_def)
    then have "unat (ext2_group_of_block fs b) < fs_groups fs" using inv unat_group_of_block(2) by (simp add: alloc_inv_def)
    from clear_uninit_inv [OF inv this] show ?thesis using r(2) Inr nb by auto
  qed (use r(2) nb in simp)
qed

section \<open>Properties\<close>

text \<open>
  C29: the groups partition the filesystem. Every block from the first data block to the last lies in the group
  \<^verbatim>\<open>ext2_group_of_block\<close> computes, between its first and last block, and in no other; \<^verbatim>\<open>ext2_group_blocks_count\<close> is the
  number of blocks between the first and the last block of the group.
\<close>

theorem block_groups_partition:
  assumes "fs_geom fs" "in_fs fs b"
  shows "unat (ext2_group_of_block fs b) < fs_groups fs \<and>
    (\<forall>g. unat g < fs_groups fs \<longrightarrow>
       (ext2_group_first_block fs g \<le> b \<and> b \<le> ext2_group_last_block fs g \<longleftrightarrow> g = ext2_group_of_block fs b) \<and>
       unat (ext2_group_blocks_count fs g) = unat (ext2_group_last_block fs g) + 1 - unat (ext2_group_first_block fs g))"
proof -
  note g = unat_group_of_block [OF assms]
  have "b \<in> group_blocks fs h \<longleftrightarrow> h = ext2_group_of_block fs b" if "unat h < fs_groups fs" for h
    using group_blocks_iff [OF assms(1) that, of b] assms(2) g(1) by (auto simp: word_unat_eq_iff)
  then show ?thesis using g(2) unat_group_count [OF assms(1)] by (simp add: group_blocks_def)
qed

text \<open>A small filesystem: a group of eight blocks and one of four; blocks 1 to 3 are in use.\<close>

definition sample_desc :: "u16 \<Rightarrow> Ext4GroupDesc" where
  "sample_desc n = \<lparr>bg_block_bitmap = 3, bg_inode_bitmap = 4, bg_inode_table = 5, bg_free_blocks_count = n,
     bg_free_inodes_count = 12, bg_used_dirs_count = 0, bg_flags = 0, bg_exclude_bitmap_lo = 0, bg_block_bitmap_csum_lo = 0,
     bg_inode_bitmap_csum_lo = 0, bg_itable_unused = 0, bg_checksum = 0, bg_block_bitmap_hi = 0, bg_inode_bitmap_hi = 0,
     bg_inode_table_hi = 0, bg_free_blocks_count_hi = 0, bg_free_inodes_count_hi = 0, bg_used_dirs_count_hi = 0,
     bg_itable_unused_hi = 0, bg_exclude_bitmap_hi = 0, bg_block_bitmap_csum_hi = 0, bg_inode_bitmap_csum_hi = 0,
     bg_reserved = 0, bg_rest = []\<rparr>"

definition sample_super :: Ext2Superblock where
  "sample_super = \<lparr>s_inodes_count = 24, s_blocks_count = 13, s_free_blocks_count = 9, s_free_inodes_count = 24,
     s_first_data_block = 1, s_log_block_size = 0, s_blocks_per_group = 8, s_clusters_per_group = 8, s_inodes_per_group = 12,
     s_rev_level = 1, s_first_ino = 11, s_inode_size = 128, s_feature_incompat = 0, s_feature_ro_compat = 0x10,
     s_uuid = replicate 16 7, s_reserved_gdt_blocks = 0, s_desc_size = 32, s_first_meta_bg = 0, s_blocks_count_hi = 0,
     s_free_blocks_hi = 0, s_backup_bgs = (0, 0), s_creator_os = 0, s_log_groups_per_flex = 0\<rparr>"

definition sample_block_bitmap :: Ext2Bitmap where
  "sample_block_bitmap = \<lparr>b_magic = 1, b_start = 1, b_end = 12, b_real_end = 16, b_cluster_bits = 0, b_bitmap = [7, 0, 0, 0]\<rparr>"

definition sample_fs :: Ext2Filesystem where
  "sample_fs = \<lparr>f_super = sample_super, f_flags = 0, f_group_desc_count = 2, f_desc_blocks = 1,
     f_group_desc = (\<lambda>g. sample_desc (if g = 0 then 5 else 4)), f_inode_blocks_per_group = 1,
     f_block_bitmap = Some sample_block_bitmap, f_inode_bitmap = None, f_cluster_ratio_bits = 0, f_checksum_seed = 0,
     f_blksize = 1024\<rparr>"

lemma sample_dims: "fs_first sample_fs = 1" "fs_total sample_fs = 13" "fs_bpg sample_fs = 8" "fs_groups sample_fs = 2"
  by (simp_all add: fs_dims sample_fs_def sample_super_def ext2_blocks_count_def hi_lo_def has_incompat_def
      EXT4_FT_INCOMPAT_64BIT_def)

lemma sample_geom: "fs_geom sample_fs"
  by (simp add: fs_geom_def sample_dims)

theorem block_groups_partition_witness:
  "unat (ext2_group_of_block sample_fs 10) < 2 \<and>
   (ext2_group_first_block sample_fs 1 \<le> 10 \<and> 10 \<le> ext2_group_last_block sample_fs 1 \<longleftrightarrow> 1 = ext2_group_of_block sample_fs 10)"
  using block_groups_partition [OF sample_geom, of 10] by (simp add: in_fs_def sample_dims)

text \<open>
  without the sparse-superblock feature flag, the groups with a copy of the superblock are 0, 1 and the powers of
  3, 5 and 7; the division loop that decides it ends for every group.
\<close>

theorem bg_has_super_correct:
  assumes "\<not> has_ro_compat (f_super fs) EXT2_FT_RO_COMPAT_SPARSE_SUPER"
  shows "ext2_bg_has_super fs g \<longleftrightarrow>
    unat g = 0 \<or> (\<exists>k. unat g = 3 ^ k) \<or> (\<exists>k. unat g = 5 ^ k) \<or> (\<exists>k. unat g = 7 ^ k)"
proof (cases "unat g \<le> 1")
  case True
  then have "g = 0 \<or> g \<le> 1" by (auto simp: word_le_nat_alt)
  then have "ext2_bg_has_super fs g" using assms by (auto simp: ext2_bg_has_super_def)
  moreover have "unat g = 0 \<or> (\<exists>k. unat g = 3 ^ k)" using True by (auto simp: le_Suc_eq intro!: exI [of _ 0])
  ultimately show ?thesis by blast
next
  case False
  have pow: "(\<exists>k. unat g = unat x ^ k) \<longleftrightarrow> ext2_bg_super_test_root g x" if "1 < unat x" for x :: u32
  proof -
    have "(\<exists>k. unat g = unat x ^ k) \<longleftrightarrow> (\<exists>k. unat g = unat x ^ Suc k)"
    proof
      assume "\<exists>k. unat g = unat x ^ k"
      then obtain k where k: "unat g = unat x ^ k" by blast
      then have "k \<noteq> 0" using False by (cases k) simp_all
      then show "\<exists>k. unat g = unat x ^ Suc k" using k by (cases k) auto
    qed blast
    then show ?thesis using test_root_powers [OF that] by simp
  qed
  have odd: "odd (unat g)" if "\<exists>k. unat g = x ^ k" "odd x" for x :: nat using that by auto
  have par: "g AND 1 = 0 \<longleftrightarrow> even (unat g)"
  proof -
    have "g AND 1 = 0 \<longleftrightarrow> unat (g mod 2) = 0" by (simp only: and_one_eq unat_eq_0)
    also have "\<dots> \<longleftrightarrow> even (unat g)" by (simp only: unat_mod) (simp add: even_iff_mod_2_eq_zero)
    finally show ?thesis .
  qed
  have "\<not> g \<le> 1" "g \<noteq> 0" using False by (auto simp: word_le_nat_alt)
  then show ?thesis
    using assms False pow [of 3] pow [of 5] pow [of 7] odd [of 3] odd [of 5] odd [of 7] par
    by (auto simp: ext2_bg_has_super_def)
qed

theorem bg_has_super_correct_witness:
  "ext2_bg_has_super sample_fs 9 \<longleftrightarrow>
    unat (9 :: u32) = 0 \<or> (\<exists>k. unat (9 :: u32) = 3 ^ k) \<or> (\<exists>k. unat (9 :: u32) = 5 ^ k) \<or> (\<exists>k. unat (9 :: u32) = 7 ^ k)"
  by (rule bg_has_super_correct)
    (simp add: sample_fs_def sample_super_def has_ro_compat_def EXT2_FT_RO_COMPAT_SPARSE_SUPER_def)

text \<open>
  after \<^verbatim>\<open>ext2_group_desc_checksum_update\<close> the checksum of the descriptor is valid, for the CRC-16 and the CRC-32C
  variant, and nothing but the checksum field of that descriptor has changed.
\<close>

theorem desc_checksum_roundtrip:
  assumes "desc_ok fs" "unat g < fs_groups fs"
  shows "\<exists>c fs'. ext2_group_desc_checksum_update fs g = Inr fs' \<and> ext2_group_desc_checksum_valid fs' g = Inr True \<and>
    fs' = fs\<lparr>f_group_desc := (f_group_desc fs)(unat g := (f_group_desc fs (unat g))\<lparr>bg_checksum := c\<rparr>)\<rparr>"
proof -
  obtain c where c: "ext2_group_desc_checksum_update fs g =
      Inr (fs\<lparr>f_group_desc := (f_group_desc fs)(unat g := (f_group_desc fs (unat g))\<lparr>bg_checksum := c\<rparr>)\<rparr>)"
    "ext2_has_group_desc_checksum (f_super fs) \<longrightarrow> ext2_group_desc_checksum fs g = Inr c"
    using checksum_update_in [OF assms] by blast
  then have "ext2_group_desc_checksum_valid
      (fs\<lparr>f_group_desc := (f_group_desc fs)(unat g := (f_group_desc fs (unat g))\<lparr>bg_checksum := c\<rparr>)\<rparr>) g = Inr True"
    using assms(2) checksum_of_updated [OF assms(2), of c]
    by (auto simp: ext2_group_desc_checksum_valid_def ext2_bg_checksum_def)
  then show ?thesis using c(1) by blast
qed

lemma sample_desc_ok: "desc_ok sample_fs"
  by (simp add: desc_ok_def EXT2_DESC_SIZE_def has_incompat_def EXT4_FT_INCOMPAT_64BIT_def)
    (simp add: sample_fs_def sample_super_def)

theorem desc_checksum_roundtrip_witness:
  "\<exists>fs'. ext2_group_desc_checksum_update sample_fs 1 = Inr fs' \<and> ext2_group_desc_checksum_valid fs' 1 = Inr True"
  using desc_checksum_roundtrip [OF sample_desc_ok, of 1] by (auto simp: sample_dims)

text \<open>The sample filesystem has exact counts.\<close>

lemma card_unat_interval: "z \<le> 2 ^ 64 \<Longrightarrow> card {b :: u64. a \<le> unat b \<and> unat b < z} = z - a"
proof -
  assume z: "z \<le> 2 ^ 64"
  have "unat ` {b :: u64. a \<le> unat b \<and> unat b < z} = {a..<z}"
  proof (intro set_eqI iffI)
    fix k assume k: "k \<in> {a..<z}"
    then have "unat (of_nat k :: u64) = k" using z by (simp add: unat_of_nat take_bit_nat_eq_self)
    then show "k \<in> unat ` {b :: u64. a \<le> unat b \<and> unat b < z}" using k by (intro image_eqI [of _ _ "of_nat k"]) auto
  qed auto
  moreover have "inj_on unat {b :: u64. a \<le> unat b \<and> unat b < z}" by (auto intro!: inj_onI simp: word_unat_eq_iff)
  then have "card {b :: u64. a \<le> unat b \<and> unat b < z} = card (unat ` {b :: u64. a \<le> unat b \<and> unat b < z})"
    by (rule card_image [symmetric])
  ultimately show ?thesis by simp
qed

lemma sample_bits: "bits_of [7, 0, 0, 0] = {i. i < 3}"
proof -
  have "i \<in> bits_of [7, 0, 0, 0] \<longleftrightarrow> i < 3" for i
  proof (cases "i < 8")
    case True
    have m: "(7 :: u8) = mask 3" by (simp add: mask_numeral)
    have "bit (7 :: u8) i \<longleftrightarrow> i < 3" unfolding m using True by (simp add: bit_mask_iff)
    then show ?thesis using True by (simp add: bits_of_def)
  next
    case False
    then have "[7, 0, 0, 0 :: u8] ! (i div 8) = 0" if "i < 32"
    proof -
      have "i div 8 = 1 \<or> i div 8 = 2 \<or> i div 8 = 3" using that False by linarith
      then show ?thesis by (elim disjE) simp_all
    qed
    then show ?thesis using False by (auto simp: bits_of_def)
  qed
  then show ?thesis by blast
qed

lemma sample_used: "used_blocks sample_fs = {b. 1 \<le> unat b \<and> unat b < 4}"
  by (auto simp: used_blocks_def sample_fs_def sample_block_bitmap_def clusters_def cluster_range_def sample_bits unat_sub
      word_le_nat_alt)

lemma sample_alloc_inv: "alloc_inv sample_fs"
proof -
  have "bitmap_covers sample_fs"
    by (auto simp: bitmap_covers_def in_fs_def sample_dims)
      (auto simp: sample_fs_def sample_block_bitmap_def bitmap_inv_def EXT2_BITMAP_IS_32_def EXT2_BITMAP_IS_64_def bmap_magic_defs
        cluster_def cluster_range_def word_le_nat_alt fun_eq_iff)
  moreover have "counts_ok sample_fs"
  proof -
    have free: "group_free sample_fs g = {b. (if unat g = 0 then 4 else 9) \<le> unat b \<and> unat b < (if unat g = 0 then 9 else 13)}"
      if "unat g < 2" for g
    proof -
      have "n div 8 = 0 \<longleftrightarrow> n < 8" "n div 8 = 1 \<longleftrightarrow> 8 \<le> n \<and> n < 16" for n :: nat by presburger+
      moreover have "unat g = 0 \<or> unat g = 1" using that by auto
      ultimately show ?thesis using group_blocks_iff [OF sample_geom, of g]
        by (elim disjE) (auto simp: group_free_def sample_used sample_dims in_fs_def)
    qed
    have "all_free sample_fs = {b. 4 \<le> unat b \<and> unat b < 13}"
      by (auto simp: all_free_def in_fs_def sample_dims sample_used)
    then have "unat (ext2_free_blocks_count (f_super sample_fs)) = card (all_free sample_fs)"
      by (simp add: card_unat_interval ext2_free_blocks_count_def hi_lo_def has_incompat_def EXT4_FT_INCOMPAT_64BIT_def)
        (simp add: sample_fs_def sample_super_def)
    moreover have "ext2_bg_free_blocks_count sample_fs g = Inr (if unat g = 0 then 5 else 4)" if "unat g < 2" for g
      using that by (simp add: ext2_bg_free_blocks_count_def sample_dims hi_lo16_def wide_def has_incompat_def EXT4_FT_INCOMPAT_64BIT_def)
        (simp add: sample_fs_def sample_super_def sample_desc_def)
    ultimately show ?thesis by (simp add: counts_ok_def sample_dims free card_unat_interval)
  qed
  ultimately show ?thesis by (simp add: alloc_inv_def sample_geom sample_desc_ok sample_dims)
qed

text \<open>
  C27: the free counts stay exact. On a filesystem with clusters of one block and counts that fit 16 bits or have the upper
  halves of 64-bit descriptors, when the counts of the groups and of the superblock agree with the block bitmap,
  then allocating a free block with \<^verbatim>\<open>ext2_block_alloc_stats\<close> marks exactly that block, releasing a used one unmarks exactly
  that block, neither faults, and the counts agree again.
\<close>

theorem free_counts_exact:
  assumes "alloc_inv fs" "in_fs fs b"
  shows "if b \<in> used_blocks fs
    then \<exists>fs'. ext2_block_alloc_stats fs b (- 1) = Inr fs' \<and> alloc_inv fs' \<and> used_blocks fs' = used_blocks fs - {b}
    else \<exists>fs'. ext2_block_alloc_stats fs b 1 = Inr fs' \<and> alloc_inv fs' \<and> used_blocks fs' = insert b (used_blocks fs)"
  using mark_step [OF assms] unmark_step [OF assms] by simp

theorem free_counts_exact_witness:
  "\<exists>fs'. ext2_block_alloc_stats sample_fs 7 1 = Inr fs' \<and> alloc_inv fs' \<and> used_blocks fs' = insert 7 (used_blocks sample_fs)"
  using free_counts_exact [OF sample_alloc_inv, of 7] by (simp add: in_fs_def sample_dims sample_used)

text \<open>
  C26: block allocation. On a filesystem with clusters of one block whose free counts are exact (and fit 16 bits or have the
  upper halves of 64-bit descriptors), with a 32-bit bitmap (64-bit ones are
  searched one cluster deep only) and for a goal inside the filesystem (a goal of 0 is not replaced, see
  \<open>new_block_goal_zero\<close>), \<^verbatim>\<open>ext2_new_block\<close> fails with
  \<^verbatim>\<open>ENOENT\<close> exactly when every block is in use; otherwise it returns a free block, which
  \<^verbatim>\<open>ext2_block_alloc_stats\<close> then takes, and the counts still agree with the bitmap.
\<close>

theorem block_allocation_correct:
  assumes "alloc_inv fs" "f_block_bitmap fs = Some m" "EXT2_BITMAP_IS_32 m" "in_fs fs goal"
  shows "if all_free fs = {} then ext2_new_block base fs goal = Inr (Inl (- ENOENT))
    else \<exists>b fs1 fs2. ext2_new_block base fs goal = Inr (Inr (b, fs1)) \<and> b \<in> all_free fs \<and>
      ext2_block_alloc_stats fs1 b 1 = Inr fs2 \<and> alloc_inv fs2 \<and> used_blocks fs2 = insert b (used_blocks fs)"
proof (cases "all_free fs = {}")
  case True
  then show ?thesis using new_block_spec [OF assms] by simp
next
  case False
  then obtain b fs1 where b: "ext2_new_block base fs goal = Inr (Inr (b, fs1))" "b \<in> all_free fs" "alloc_inv fs1"
    "used_blocks fs1 = used_blocks fs" "in_fs fs1 = in_fs fs"
    using new_block_spec [OF assms, of base] by auto
  then show ?thesis using False mark_step [of fs1 b] by (auto simp: all_free_def)
qed

theorem block_allocation_correct_witness:
  "\<exists>b fs1 fs2. ext2_new_block 0 sample_fs 2 = Inr (Inr (b, fs1)) \<and> ext2_block_alloc_stats fs1 b 1 = Inr fs2 \<and> alloc_inv fs2"
proof -
  have "4 \<in> all_free sample_fs" by (simp add: all_free_def in_fs_def sample_dims sample_used)
  then have "all_free sample_fs \<noteq> {}" by blast
  moreover have "f_block_bitmap sample_fs = Some sample_block_bitmap" "EXT2_BITMAP_IS_32 sample_block_bitmap" "in_fs sample_fs 2"
    by (simp_all add: in_fs_def sample_dims)
      (simp_all add: sample_fs_def sample_block_bitmap_def EXT2_BITMAP_IS_32_def bmap_magic_defs)
  ultimately show ?thesis using block_allocation_correct [OF sample_alloc_inv, of sample_block_bitmap 2 0] by auto
qed

section \<open>Where the code departs from its contract\<close>

text \<open>A goal of 0 is not replaced by the first data block: on a filesystem whose first block is 1 the
  allocation fails although blocks are free.\<close>

lemma new_block_goal_zero: "ext2_new_block 0 sample_fs 0 = Inr (Inl (- EINVAL))"
  by (simp add: ext2_new_block_def ext2_find_first_zero_bitmap_def sample_fs_def sample_block_bitmap_def sample_super_def Let_def
      EXT2_BITMAP_IS_32_def bmap_magic_defs over32_iff errno_defs ext2_blocks_count_def hi_lo_def has_incompat_def
      EXT4_FT_INCOMPAT_64BIT_def)

end
