(* ===== verification/Ext2_Inodes.thy ===== *)
theory Ext2_Inodes
  imports Ext2_Alloc
begin

unbundle bit_operations_syntax

text \<open>
  Inode allocation: \<^verbatim>\<open>ext2_new_inode\<close> of \<^verbatim>\<open>fs/ext2/util.c\<close> goes round the groups from the group of the directory and ends;
  it finds a free inode whenever there is one.
\<close>

section \<open>The inode bitmap\<close>

definition used_inodes :: "Ext2Filesystem \<Rightarrow> u64 set" where
  "used_inodes fs = clusters (the (f_inode_bitmap fs))"

definition inode_count :: "Ext2Filesystem \<Rightarrow> nat" where "inode_count fs = unat (s_inodes_count (f_super fs))"
definition inode_first :: "Ext2Filesystem \<Rightarrow> nat" where "inode_first fs = unat (EXT2_FIRST_INODE (f_super fs))"
definition fs_ipg :: "Ext2Filesystem \<Rightarrow> nat" where "fs_ipg fs = unat (s_inodes_per_group (f_super fs))"

lemmas inode_dims = inode_count_def inode_first_def fs_ipg_def

definition inode_inv :: "Ext2Filesystem \<Rightarrow> bool" where
  "inode_inv fs \<longleftrightarrow> desc_ok fs \<and> 0 < fs_ipg fs \<and> 1 \<le> inode_first fs \<and> inode_first fs \<le> inode_count fs \<and>
     fs_ipg fs * fs_groups fs \<le> inode_count fs \<and>
     (\<exists>m. f_inode_bitmap fs = Some m \<and> bitmap_inv m \<and> EXT2_BITMAP_IS_32 m \<and> cluster m = (\<lambda>n. n) \<and>
        cluster_range m = {n. 1 \<le> unat n \<and> unat n \<le> inode_count fs})"

lemma unmark_loop_cmds:
  "unmark_loop bm k n = run_cmds ext2_mark_bitmap ext2_unmark_bitmap bm (map (\<lambda>i. (False, k + of_nat i)) [0..<n])"
proof (induction n arbitrary: bm k)
  case (Suc n)
  have "map (\<lambda>i. (False, k + of_nat i)) [0..<Suc n] = (False, k) # map (\<lambda>i. (False, k + 1 + of_nat i)) [0..<n]"
    by (simp only: upt_conv_Cons map_Suc_upt [symmetric] zero_less_Suc) (simp add: o_def add.assoc)
  then show ?case using Suc.IH by simp
qed simp

lemma set_cmds_unmark_keys: "set_cmds key R (map (\<lambda>i. (False, f i)) xs) A = A - (key \<circ> f) ` set xs"
  by (induction xs arbitrary: A) auto

lemma is_32_kept:
  assumes "ext2_unmark_bitmap (Some m) n = Inr (Some m')"
  shows "b_magic m' = b_magic m"
  using assms by (auto simp: ext2_unmark_bitmap_def ext2_bitarray_unmark_bmap_def with_bits_def Let_def bindE_eq_Inr_iff split: if_splits)

lemma unmark_loop_spec:
  assumes "bitmap_inv m" "cluster m = (\<lambda>n. n)"
  shows "\<exists>m'. unmark_loop (Some m) k n = Inr (Some m') \<and> bitmap_inv m' \<and> cluster m' = cluster m \<and> cluster_range m' = cluster_range m \<and>
    b_magic m' = b_magic m \<and> clusters m' = clusters m - (\<lambda>i. k + of_nat i) ` {0..<n}"
proof -
  obtain m' where m': "unmark_loop (Some m) k n = Inr (Some m')" "bitmap_inv m'" "cluster m' = cluster m"
    "cluster_range m' = cluster_range m" "clusters m' = clusters m - (\<lambda>i. k + of_nat i) ` {0..<n}"
    using bitmap.run_ok [of "Some m" "map (\<lambda>i. (False, k + of_nat i)) [0..<n]"] assms
    by (auto simp: unmark_loop_cmds set_cmds_unmark_keys o_def)
  moreover have "unmark_loop (Some a) k n = Inr (Some m') \<Longrightarrow> bitmap_inv a \<Longrightarrow> b_magic m' = b_magic a" for a
  proof (induction n arbitrary: a k)
    case (Suc n)
    from unmark_spec [OF Suc.prems(2), of k] obtain a' where a': "ext2_unmark_bitmap (Some a) k = Inr (Some a')" "bitmap_inv a'" by blast
    then have "unmark_loop (Some a') (k + 1) n = Inr (Some m')" using Suc.prems(1) by simp
    from Suc.IH [OF this a'(2)] show ?case using is_32_kept [OF a'(1)] by simp
  qed simp
  ultimately show ?thesis using assms(1) by blast
qed

definition group_inodes :: "Ext2Filesystem \<Rightarrow> u32 \<Rightarrow> u64 set" where
  "group_inodes fs g = {n. fs_ipg fs * unat g < unat n \<and> unat n \<le> fs_ipg fs * unat g + fs_ipg fs}"

lemma group_inodes_image:
  assumes "inode_inv fs" "unat g < fs_groups fs"
  shows "(\<lambda>i. ucast (g * s_inodes_per_group (f_super fs) + 1) + of_nat i) ` {0..<fs_ipg fs} = group_inodes fs g"
    (is "(\<lambda>i. ?k + of_nat i) ` _ = _")
proof -
  have "fs_ipg fs * unat g + fs_ipg fs \<le> fs_ipg fs * fs_groups fs"
    using mult_le_mono2 [of "unat g + 1" "fs_groups fs" "fs_ipg fs"] assms(2) by simp
  then have le: "fs_ipg fs * unat g + fs_ipg fs \<le> inode_count fs" "0 < fs_ipg fs" using assms(1) by (auto simp: inode_inv_def)
  have lt: "inode_count fs < 2 ^ 32" using unat_lt_2p32 [of "s_inodes_count (f_super fs)"] by (simp add: inode_count_def)
  have "unat (g * s_inodes_per_group (f_super fs)) = fs_ipg fs * unat g"
    using le lt by (simp add: unat_word_ariths fs_ipg_def mult.commute)
  then have k: "unat ?k = fs_ipg fs * unat g + 1" using le lt by (simp add: unat_word_ariths)
  have u: "unat (?k + of_nat i) = unat ?k + i" if "i < fs_ipg fs" for i
    using that le lt k by (intro unat_plus_small) simp
  show ?thesis
  proof (intro set_eqI iffI)
    fix n assume "n \<in> (\<lambda>i. ?k + of_nat i) ` {0..<fs_ipg fs}"
    then show "n \<in> group_inodes fs g" using u k by (auto simp: group_inodes_def)
  next
    fix n assume "n \<in> group_inodes fs g"
    then have n: "unat ?k \<le> unat n" "unat n - unat ?k < fs_ipg fs" using k by (auto simp: group_inodes_def)
    then have "n = ?k + of_nat (unat n - unat ?k)" using u [OF n(2)] by (simp add: word_unat_eq_iff)
    then show "n \<in> (\<lambda>i. ?k + of_nat i) ` {0..<fs_ipg fs}" using n(2) by (intro image_eqI [of _ _ "unat n - unat ?k"]) auto
  qed
qed

lemma inode_inv_upd:
  assumes "inode_inv fs" "f_inode_bitmap fs = Some m" "f_inode_bitmap fs' = Some m'" "f_super fs' = f_super fs" "desc_ok fs'"
    "f_group_desc_count fs' = f_group_desc_count fs"
    "bitmap_inv m'" "cluster m' = cluster m" "cluster_range m' = cluster_range m" "b_magic m' = b_magic m"
  shows "inode_inv fs'"
  using assms by (simp add: inode_inv_def inode_dims fs_groups_def EXT2_BITMAP_IS_32_def)

lemma check_uninit_spec:
  assumes inv: "inode_inv fs"
  shows "\<exists>fs'. ext2_check_inode_uninit fs g = Inr fs' \<and> inode_inv fs' \<and> f_super fs' = f_super fs \<and> fs_groups fs' = fs_groups fs \<and>
    (used_inodes fs' = used_inodes fs \<or> used_inodes fs' = used_inodes fs - group_inodes fs g)"
proof (cases "unat g < fs_groups fs \<and> ext2_has_group_desc_checksum (f_super fs) \<and>
    bg_flags (f_group_desc fs (unat g)) AND EXT2_BG_INODE_UNINIT \<noteq> 0")
  case False
  then have "ext2_check_inode_uninit fs g = Inr fs"
    by (auto simp: ext2_check_inode_uninit_def ext2_bg_test_flags_def fs_groups_def word_le_nat_alt not_le)
  then show ?thesis using inv by simp
next
  case True
  obtain m where m: "f_inode_bitmap fs = Some m" "bitmap_inv m" "cluster m = (\<lambda>n. n)" using inv by (auto simp: inode_inv_def)
  let ?ipg = "s_inodes_per_group (f_super fs)"
  obtain m' where m': "unmark_loop (Some m) (ucast (g * ?ipg + 1)) (unat ?ipg) = Inr (Some m')" "bitmap_inv m'" "cluster m' = cluster m"
    "cluster_range m' = cluster_range m" "b_magic m' = b_magic m"
    "clusters m' = clusters m - (\<lambda>i. ucast (g * ?ipg + 1) + of_nat i) ` {0..<unat ?ipg}"
    using unmark_loop_spec [OF m(2,3)] by blast
  let ?fs1 = "fs\<lparr>f_inode_bitmap := Some m'\<rparr>"
  let ?d = "(f_group_desc fs (unat g))\<lparr>bg_flags := bg_flags (f_group_desc fs (unat g)) AND NOT (EXT2_BG_INODE_UNINIT OR EXT2_BG_BLOCK_UNINIT)\<rparr>"
  let ?fs2 = "?fs1\<lparr>f_group_desc := (f_group_desc fs)(unat g := ?d)\<rparr>"
  have groups: "fs_groups ?fs1 = fs_groups fs" "fs_groups ?fs2 = fs_groups fs" by (simp_all add: fs_groups_def)
  have "desc_ok ?fs2" using inv groups by (simp add: inode_inv_def desc_ok_def)
  then obtain c where c: "ext2_group_desc_checksum_update ?fs2 g =
      Inr (?fs2\<lparr>f_group_desc := (f_group_desc ?fs2)(unat g := (f_group_desc ?fs2 (unat g))\<lparr>bg_checksum := c\<rparr>)\<rparr>)"
    using checksum_update_in [of ?fs2 g] True groups by auto
  define fs' where "fs' = set_flags (EXT2_FLAG_CHANGED OR EXT2_FLAG_DIRTY OR EXT2_FLAG_IB_DIRTY)
    (?fs2\<lparr>f_group_desc := (f_group_desc ?fs2)(unat g := (f_group_desc ?fs2 (unat g))\<lparr>bg_checksum := c\<rparr>)\<rparr>)"
  have "ext2_check_inode_uninit fs g = Inr fs'"
    using True c m(1) m'(1) groups
    by (simp add: ext2_check_inode_uninit_def ext2_bg_test_flags_def ext2_bg_clear_flags_def fs'_def Let_def)
      (simp add: fs_groups_def word_le_nat_alt not_le)
  moreover have "desc_ok fs'" using inv by (simp add: inode_inv_def desc_ok_def fs'_def set_flags_def fs_groups_def)
  then have "inode_inv fs'" using m'
    by - (rule inode_inv_upd [OF inv m(1), of fs' m'], simp_all add: fs'_def set_flags_def)
  moreover have "used_inodes fs' = used_inodes fs - group_inodes fs g"
    using m'(6) m(1) group_inodes_image [OF inv, of g] True by (simp add: used_inodes_def fs'_def set_flags_def fs_ipg_def)
  ultimately show ?thesis by (intro exI [of _ fs']) (simp add: fs'_def set_flags_def fs_groups_def)
qed

section \<open>The search\<close>

text \<open>Where a round of the loop ends.\<close>

definition round_end :: "Ext2Filesystem \<Rightarrow> u64 \<Rightarrow> u64 \<Rightarrow> u64" where
  "round_end fs start i =
     (let ipg = ucast (s_inodes_per_group (f_super fs)); count = ucast (s_inodes_count (f_super fs));
          upto = i + ipg - (i - 1) mod ipg;
          upto = (if i < start \<and> upto \<ge> start then start - 1 else upto)
      in if upto > count then count else upto)"

lemma round_end_bounds:
  assumes "inode_inv fs" "1 \<le> unat i" "unat i \<le> inode_count fs" "unat start \<le> inode_count fs"
  shows "unat i \<le> unat (round_end fs start i)" "unat (round_end fs start i) \<le> inode_count fs"
    "unat i < unat start \<Longrightarrow> unat (round_end fs start i) < unat start"
proof -
  let ?ipg = "ucast (s_inodes_per_group (f_super fs)) :: u64" and ?count = "ucast (s_inodes_count (f_super fs)) :: u64"
  define upto where "upto = i + ?ipg - (i - 1) mod ?ipg"
  have ipg: "unat ?ipg = fs_ipg fs" "0 < fs_ipg fs" "fs_ipg fs < 2 ^ 32" and count: "unat ?count = inode_count fs" "inode_count fs < 2 ^ 32"
    using assms(1) unat_lt_2p32 [of "s_inodes_per_group (f_super fs)"] unat_lt_2p32 [of "s_inodes_count (f_super fs)"]
    by (auto simp: inode_inv_def inode_dims)
  have sum: "unat (i + ?ipg) = unat i + fs_ipg fs" using ipg count assms(3) by (subst unat_add_u64) auto
  have "unat ((i - 1) mod ?ipg) < fs_ipg fs" using ipg by (simp add: unat_mod)
  then have "unat upto = unat i + fs_ipg fs - unat ((i - 1) mod ?ipg)" "unat i < unat upto"
    using sum unfolding upto_def by (auto simp: unat_sub_u64 word_le_nat_alt)
  moreover have "unat (start - 1) = unat start - 1" if "0 < unat start" using that by (rule unat_pred_u64)
  ultimately show "unat i \<le> unat (round_end fs start i)" "unat (round_end fs start i) \<le> inode_count fs"
    "unat i < unat start \<Longrightarrow> unat (round_end fs start i) < unat start"
    using assms(3,4) count by (auto simp: round_end_def upto_def [symmetric] Let_def word_le_nat_alt word_less_nat_alt not_less)
qed

lemma inode_search:
  assumes "inode_inv fs" "1 \<le> unat a" "unat a \<le> unat z" "unat z \<le> inode_count fs"
  shows "\<exists>r. ext2_find_first_zero_bitmap base (f_inode_bitmap fs) a z = Inr r \<and>
    (case r of Inl e \<Rightarrow> e = - ENOENT \<and> (\<forall>n. unat a \<le> unat n \<and> unat n \<le> unat z \<longrightarrow> n \<in> used_inodes fs)
     | Inr b \<Rightarrow> unat a \<le> unat b \<and> unat b \<le> unat z \<and> b \<notin> used_inodes fs)"
proof -
  obtain m where m: "f_inode_bitmap fs = Some m" "bitmap_inv m" "EXT2_BITMAP_IS_32 m"
    "cluster_range m = {n. 1 \<le> unat n \<and> unat n \<le> inode_count fs}" "used_inodes fs = clusters m"
    using assms(1) by (auto simp: inode_inv_def used_inodes_def)
  then have "a \<in> cluster_range m" "z \<in> cluster_range m" using assms(2-4) by auto
  then obtain r where "ext2_find_first_zero_bitmap base (Some m) a z = Inr r"
    "case r of Inl e \<Rightarrow> e = - ENOENT \<and> (\<forall>n. a \<le> n \<and> n \<le> z \<longrightarrow> n \<in> clusters m)
     | Inr b \<Rightarrow> a \<le> b \<and> b \<le> z \<and> b \<notin> clusters m \<and> (\<forall>n. a \<le> n \<and> n < b \<longrightarrow> n \<in> clusters m)"
    using zero_search_32 [OF m(2,3), of a z base] assms(3) by (auto simp: cluster_range_def word_le_nat_alt)
  then show ?thesis by (cases r) (auto simp: m(1,5) word_le_nat_alt)
qed

text \<open>An inode lies in its group, so that a round which initialises the group finds it.\<close>

lemma own_group_inode:
  assumes "inode_inv fs" "1 \<le> unat i" "unat i \<le> inode_count fs"
  shows "i \<in> group_inodes fs (ucast ((i - 1) div ucast (s_inodes_per_group (f_super fs))))"
proof -
  let ?g = "(i - 1) div ucast (s_inodes_per_group (f_super fs))"
  have p: "unat (i - 1) = unat i - 1" using assms(2) by (intro unat_pred_u64) simp
  have d: "unat ?g = (unat i - 1) div fs_ipg fs" by (simp add: unat_div p fs_ipg_def)
  moreover have "inode_count fs < 2 ^ 32" using unat_lt_2p32 [of "s_inodes_count (f_super fs)"] by (simp add: inode_count_def)
  then have "unat ?g < 2 ^ 32" unfolding d using assms(3) div_le_dividend [of "unat i - 1" "fs_ipg fs"] by linarith
  ultimately have g: "unat (ucast ?g :: u32) = (unat i - 1) div fs_ipg fs" by (simp add: unat_ucast_u32)
  have "0 < fs_ipg fs" using assms(1) by (simp add: inode_inv_def)
  then have "fs_ipg fs * ((unat i - 1) div fs_ipg fs) \<le> unat i - 1"
    "unat i - 1 < fs_ipg fs + fs_ipg fs * ((unat i - 1) div fs_ipg fs)"
    by (auto intro: dividend_less_times_div)
  then show ?thesis unfolding group_inodes_def g mem_Collect_eq using assms(2) by linarith
qed

text \<open>The rounds that are left, and the inodes that have been looked at.\<close>

definition rounds_left :: "Ext2Filesystem \<Rightarrow> u64 \<Rightarrow> u64 \<Rightarrow> nat" where
  "rounds_left fs start i =
     (if unat start \<le> unat i then inode_count fs - unat i + (unat start - inode_first fs) + 1 else unat start - unat i)"

definition scanned :: "Ext2Filesystem \<Rightarrow> u64 \<Rightarrow> u64 \<Rightarrow> u64 set" where
  "scanned fs start i =
     (if unat start \<le> unat i then {n. unat start \<le> unat n \<and> unat n < unat i}
      else {n. unat start \<le> unat n \<and> unat n \<le> inode_count fs} \<union> {n. inode_first fs \<le> unat n \<and> unat n < unat i})"

definition all_inodes :: "Ext2Filesystem \<Rightarrow> u64 set" where
  "all_inodes fs = {n. inode_first fs \<le> unat n \<and> unat n \<le> inode_count fs}"

definition next_round :: "Ext2Filesystem \<Rightarrow> u64 \<Rightarrow> u64 \<Rightarrow> u64" where
  "next_round fs start i =
     (if inode_count fs < unat (round_end fs start i + 1) then ucast (EXT2_FIRST_INODE (f_super fs)) else round_end fs start i + 1)"

lemma one_round:
  assumes inv: "inode_inv fs" and i: "inode_first fs \<le> unat i" "unat i \<le> inode_count fs" and start: "unat start \<le> inode_count fs"
  shows "\<exists>fs'. inode_inv fs' \<and> f_super fs' = f_super fs \<and>
    ((\<exists>z. z \<in> all_inodes fs \<and> z \<notin> used_inodes fs' \<and> new_inode_loop (Suc n) base fs start i = Inr (Some (Inr z, fs'))) \<or>
     used_inodes fs' = used_inodes fs \<and> (\<forall>k. unat i \<le> unat k \<and> unat k \<le> unat (round_end fs start i) \<longrightarrow> k \<in> used_inodes fs) \<and>
     new_inode_loop (Suc n) base fs start i =
       (let i' = next_round fs start i
        in if i' = start then Inr (Some (Inr i', fs')) else new_inode_loop n base fs' start i'))"
proof -
  let ?ipg = "ucast (s_inodes_per_group (f_super fs)) :: u64" and ?e = "round_end fs start i"
  have pos: "1 \<le> unat i" using i(1) inv by (simp add: inode_inv_def)
  obtain fs' where fs': "ext2_check_inode_uninit fs (ucast ((i - 1) div ?ipg)) = Inr fs'" "inode_inv fs'" "f_super fs' = f_super fs"
    "used_inodes fs' = used_inodes fs \<or> used_inodes fs' = used_inodes fs - group_inodes fs (ucast ((i - 1) div ?ipg))"
    using check_uninit_spec [OF inv] by blast
  have count: "inode_count fs' = inode_count fs" by (simp add: inode_count_def fs'(3))
  note e = round_end_bounds [OF inv pos i(2) start]
  obtain r where r: "ext2_find_first_zero_bitmap base (f_inode_bitmap fs') i ?e = Inr r"
    "case r of Inl x \<Rightarrow> x = - ENOENT \<and> (\<forall>k. unat i \<le> unat k \<and> unat k \<le> unat ?e \<longrightarrow> k \<in> used_inodes fs')
     | Inr b \<Rightarrow> unat i \<le> unat b \<and> unat b \<le> unat ?e \<and> b \<notin> used_inodes fs'"
    using inode_search [OF fs'(2) pos e(1), of base] e(2) unfolding count by blast
  have step: "new_inode_loop (Suc n) base fs start i =
      (case r of Inr z \<Rightarrow> Inr (Some (Inr z, fs'))
       | Inl x \<Rightarrow> if x \<noteq> - ENOENT then Inr (Some (Inl (- ENOSPC), fs'))
           else let i' = (if ucast (s_inodes_count (f_super fs)) < ?e + 1 then ucast (EXT2_FIRST_INODE (f_super fs)) else ?e + 1)
                in if i' = start then Inr (Some (Inr i', fs')) else new_inode_loop n base fs' start i')"
    using r(1) unfolding new_inode_loop.simps Let_def fs'(1) bindE_Inr fs'(3) round_end_def by simp
  show ?thesis
  proof (cases r)
    case (Inr z)
    then have "z \<in> all_inodes fs" "z \<notin> used_inodes fs'" using r(2) i e(2) by (auto simp: all_inodes_def)
    then show ?thesis using Inr step fs'(2,3) by auto
  next
    case (Inl x)
    then have "i \<in> used_inodes fs'" using r(2) e(1) by simp
    then have same: "used_inodes fs' = used_inodes fs" using fs'(4) own_group_inode [OF inv pos i(2)] by auto
    show ?thesis using Inl r(2) step fs'(2,3) same
      by (intro exI [of _ fs']) (simp add: word_less_nat_alt inode_count_def next_round_def)
  qed
qed

lemma next_round_progress:
  assumes inv: "inode_inv fs" and i: "inode_first fs \<le> unat i" "unat i \<le> inode_count fs"
    and start: "inode_first fs \<le> unat start" "unat start \<le> inode_count fs"
    and full: "scanned fs start i \<subseteq> used" "\<And>k. unat i \<le> unat k \<Longrightarrow> unat k \<le> unat (round_end fs start i) \<Longrightarrow> k \<in> used"
  shows "next_round fs start i = start \<and> all_inodes fs \<subseteq> used \<or>
    next_round fs start i \<noteq> start \<and> inode_first fs \<le> unat (next_round fs start i) \<and> unat (next_round fs start i) \<le> inode_count fs \<and>
    rounds_left fs start (next_round fs start i) < rounds_left fs start i \<and> scanned fs start (next_round fs start i) \<subseteq> used"
proof -
  let ?e = "round_end fs start i" and ?i = "next_round fs start i"
  have first: "unat (ucast (EXT2_FIRST_INODE (f_super fs)) :: u64) = inode_first fs" by (simp add: inode_first_def)
  have count: "inode_count fs < 2 ^ 32" using unat_lt_2p32 [of "s_inodes_count (f_super fs)"] by (simp add: inode_count_def)
  have "1 \<le> unat i" using i(1) inv by (simp add: inode_inv_def)
  note e = round_end_bounds [OF inv this i(2) start(2)]
  have suc: "unat (?e + 1) = unat ?e + 1" using e(2) count by (subst unat_add_u64) auto
  have used: "k \<in> used" if "k \<in> scanned fs start i \<or> unat i \<le> unat k \<and> unat k \<le> unat ?e" for k
    using that full by blast
  have eq: "?i = start \<longleftrightarrow> unat ?i = unat start" by (rule word_unat_eq_iff)
  consider (wrap) "unat ?e = inode_count fs" "unat ?i = inode_first fs" "unat start \<le> unat i"
    | (on) "unat ?i = unat ?e + 1" "unat ?e < inode_count fs"
  proof (cases "unat ?e = inode_count fs")
    case True
    then have "unat start \<le> unat i" using e(3) start(2) by linarith
    moreover have "unat ?i = inode_first fs" using True by (simp add: next_round_def suc inode_first_def)
    ultimately show ?thesis using wrap True by blast
  next
    case False
    then show ?thesis using on e(2) by (simp add: next_round_def suc)
  qed
  then show ?thesis
  proof cases
    case wrap
    then show ?thesis using i start
      by (cases "inode_first fs = unat start") (auto intro!: used simp: eq scanned_def all_inodes_def rounds_left_def)
  next
    case on
    then show ?thesis using i start e
      by (cases "unat start \<le> unat i") (auto intro!: used simp: eq scanned_def all_inodes_def rounds_left_def)
  qed
qed

lemma new_inode_loop_spec:
  assumes "inode_inv fs" "inode_first fs \<le> unat i" "unat i \<le> inode_count fs"
    "inode_first fs \<le> unat start" "unat start \<le> inode_count fs"
    "scanned fs start i \<subseteq> used_inodes fs" "rounds_left fs start i \<le> fuel"
  shows "\<exists>z fs'. new_inode_loop fuel base fs start i = Inr (Some (Inr z, fs')) \<and> inode_inv fs' \<and> f_super fs' = f_super fs \<and>
    z \<in> all_inodes fs \<and> (z \<notin> used_inodes fs' \<or> all_inodes fs \<subseteq> used_inodes fs \<and> used_inodes fs' = used_inodes fs)"
  using assms
proof (induction fuel arbitrary: fs i)
  case 0
  then show ?case by (simp add: rounds_left_def split: if_splits)
next
  case (Suc n)
  note prems = Suc.prems
  obtain fs' where fs': "inode_inv fs'" "f_super fs' = f_super fs" and r:
    "(\<exists>z. z \<in> all_inodes fs \<and> z \<notin> used_inodes fs' \<and> new_inode_loop (Suc n) base fs start i = Inr (Some (Inr z, fs'))) \<or>
     used_inodes fs' = used_inodes fs \<and> (\<forall>k. unat i \<le> unat k \<and> unat k \<le> unat (round_end fs start i) \<longrightarrow> k \<in> used_inodes fs) \<and>
     new_inode_loop (Suc n) base fs start i =
       (let i' = next_round fs start i in if i' = start then Inr (Some (Inr i', fs')) else new_inode_loop n base fs' start i')"
    using one_round [OF prems(1-3,5), of n base] by blast
  have dims: "inode_first fs' = inode_first fs" "inode_count fs' = inode_count fs" by (simp_all add: inode_dims fs'(2))
  have sets: "all_inodes fs' = all_inodes fs" "rounds_left fs' = rounds_left fs" "scanned fs' = scanned fs"
    by (simp_all add: all_inodes_def rounds_left_def scanned_def fun_eq_iff dims)
  from r show ?case
  proof
    assume "\<exists>z. z \<in> all_inodes fs \<and> z \<notin> used_inodes fs' \<and> new_inode_loop (Suc n) base fs start i = Inr (Some (Inr z, fs'))"
    then show ?thesis using fs' by blast
  next
    let ?i = "next_round fs start i"
    assume *: "used_inodes fs' = used_inodes fs \<and> (\<forall>k. unat i \<le> unat k \<and> unat k \<le> unat (round_end fs start i) \<longrightarrow> k \<in> used_inodes fs) \<and>
      new_inode_loop (Suc n) base fs start i = (let i' = ?i in if i' = start then Inr (Some (Inr i', fs')) else new_inode_loop n base fs' start i')"
    consider (done_) "?i = start" "all_inodes fs \<subseteq> used_inodes fs"
      | (more) "?i \<noteq> start" "inode_first fs \<le> unat ?i" "unat ?i \<le> inode_count fs"
        "rounds_left fs start ?i < rounds_left fs start i" "scanned fs start ?i \<subseteq> used_inodes fs"
      using next_round_progress [OF prems(1-6)] * by blast
    then show ?thesis
    proof cases
      case done_
      then show ?thesis using * fs' prems(4,5) by (auto simp: all_inodes_def Let_def)
    next
      case more
      have "\<exists>z fs''. new_inode_loop n base fs' start ?i = Inr (Some (Inr z, fs'')) \<and> inode_inv fs'' \<and> f_super fs'' = f_super fs' \<and>
        z \<in> all_inodes fs' \<and> (z \<notin> used_inodes fs'' \<or> all_inodes fs' \<subseteq> used_inodes fs' \<and> used_inodes fs'' = used_inodes fs')"
        by (rule Suc.IH) (use more fs'(1) prems(4,5,7) * in \<open>simp_all add: dims sets\<close>)
      then show ?thesis using * more(1) fs'(2) by (simp add: sets)
    qed
  qed
qed

section \<open>Properties\<close>

text \<open>The search starts at the first inode of the group of the directory, or at the first inode that is not reserved.\<close>

definition start_inode :: "Ext2Filesystem \<Rightarrow> u64 \<Rightarrow> u64" where
  "start_inode fs dir =
     (let ipg = s_inodes_per_group (f_super fs); first = ucast (EXT2_FIRST_INODE (f_super fs));
          start = (if dir > 0 then ucast (ucast ((dir - 1) div ucast ipg) * ipg + 1 :: u32) else 0)
      in if start < first then first else start)"

lemma start_inode_bounds:
  assumes "inode_inv fs" "unat dir \<le> inode_count fs"
  shows "inode_first fs \<le> unat (start_inode fs dir)" "unat (start_inode fs dir) \<le> inode_count fs"
proof -
  let ?ipg = "s_inodes_per_group (f_super fs)" and ?g = "(dir - 1) div ucast (s_inodes_per_group (f_super fs))"
  define start where "start = (if dir > 0 then ucast (ucast ?g * ?ipg + 1 :: u32) else 0 :: u64)"
  have first: "unat (ucast (EXT2_FIRST_INODE (f_super fs)) :: u64) = inode_first fs" by (simp add: inode_first_def)
  have count: "inode_count fs < 2 ^ 32" using unat_lt_2p32 [of "s_inodes_count (f_super fs)"] by (simp add: inode_count_def)
  have "unat start \<le> inode_count fs"
  proof (cases "dir > 0")
    case True
    then have p: "unat (dir - 1) = unat dir - 1" "0 < unat dir" using unat_pred_u64 [of dir] by (auto simp: word_less_nat_alt)
    have d: "unat ?g = (unat dir - 1) div fs_ipg fs" by (simp add: unat_div p fs_ipg_def)
    have le: "(unat dir - 1) div fs_ipg fs * fs_ipg fs \<le> unat dir - 1" by (rule div_times_less_eq_dividend)
    have "unat ?g < 2 ^ 32" unfolding d using assms(2) count div_le_dividend [of "unat dir - 1" "fs_ipg fs"] by linarith
    then have g: "unat (ucast ?g :: u32) = (unat dir - 1) div fs_ipg fs" by (simp add: unat_ucast_u32 d)
    define q where "q = (unat dir - 1) div fs_ipg fs * fs_ipg fs"
    have "unat (ucast ?g * ?ipg + 1 :: u32) = q + 1"
      using le p(2) assms(2) count unfolding unat_word_ariths g fs_ipg_def [symmetric] q_def [symmetric] by simp
    then show ?thesis using True le [folded q_def] p(2) assms(2) by (simp add: start_def)
  qed (simp add: start_def)
  moreover have "start_inode fs dir = (if start < ucast (EXT2_FIRST_INODE (f_super fs)) then ucast (EXT2_FIRST_INODE (f_super fs)) else start)"
    unfolding start_inode_def Let_def start_def ..
  ultimately have "inode_first fs \<le> unat (start_inode fs dir) \<and> unat (start_inode fs dir) \<le> inode_count fs"
    using assms(1) first by (auto simp: word_less_nat_alt inode_inv_def not_less)
  then show "inode_first fs \<le> unat (start_inode fs dir)" "unat (start_inode fs dir) \<le> inode_count fs" by blast+
qed

text \<open>C28: \<^verbatim>\<open>ext2_new_inode\<close> returns, within as many rounds as there are inodes, for every directory of the filesystem:
  it gives a free inode among the unreserved ones, whichever group it is in, and reports that there is no space only
  when every one of them is in use.\<close>

theorem new_inode_correct:
  assumes "inode_inv fs" "unat dir \<le> inode_count fs" "inode_count fs + 1 \<le> fuel"
  shows "\<exists>r fs'. ext2_new_inode fuel base fs dir = Inr (Some (r, fs')) \<and> inode_inv fs' \<and> f_super fs' = f_super fs \<and>
    (case r of Inr i \<Rightarrow> i \<in> all_inodes fs \<and> i \<notin> used_inodes fs'
     | Inl e \<Rightarrow> e = - ENOSPC \<and> all_inodes fs \<subseteq> used_inodes fs)"
proof -
  let ?start = "start_inode fs dir"
  note start = start_inode_bounds [OF assms(1,2)]
  have "\<not> ucast (s_inodes_count (f_super fs)) < ?start" using start(2) by (simp add: word_less_nat_alt inode_count_def)
  then have eq: "ext2_new_inode fuel base fs dir = bindE (new_inode_loop fuel base fs ?start ?start) (\<lambda>r.
      case r of None \<Rightarrow> Inr None | Some (Inl e, fs) \<Rightarrow> Inr (Some (Inl e, fs))
      | Some (Inr i, fs) \<Rightarrow> bindE (ext2_test_bitmap (f_inode_bitmap fs) i) (\<lambda>t.
          Inr (Some (if t \<noteq> 0 then Inl (- ENOSPC) else Inr i, fs))))"
    using assms(1) unfolding ext2_new_inode_def start_inode_def Let_def by (auto simp: inode_inv_def)
  have "scanned fs ?start ?start \<subseteq> used_inodes fs" by (auto simp: scanned_def)
  moreover have "rounds_left fs ?start ?start \<le> fuel" using start assms(3) by (simp add: rounds_left_def)
  ultimately obtain z fs' where z: "new_inode_loop fuel base fs ?start ?start = Inr (Some (Inr z, fs'))" "inode_inv fs'"
    "f_super fs' = f_super fs" "z \<in> all_inodes fs"
    "z \<notin> used_inodes fs' \<or> all_inodes fs \<subseteq> used_inodes fs \<and> used_inodes fs' = used_inodes fs"
    using new_inode_loop_spec [OF assms(1) start(1,2,1,2), of fuel base] by blast
  obtain m where m: "f_inode_bitmap fs' = Some m" "bitmap_inv m" "cluster m = (\<lambda>n. n)" "used_inodes fs' = clusters m"
    using z(2) by (auto simp: inode_inv_def used_inodes_def)
  then obtain t where "ext2_test_bitmap (f_inode_bitmap fs') z = Inr t" "t \<noteq> 0 \<longleftrightarrow> z \<in> used_inodes fs'"
    using test_spec [OF m(2), of z] by auto
  then show ?thesis using z eq by auto
qed

text \<open>A filesystem of two groups of twelve inodes, all those of the second group free.\<close>

definition sample_inode_fs :: Ext2Filesystem where
  "sample_inode_fs = sample_fs\<lparr>f_inode_bitmap :=
     Some \<lparr>b_magic = 2, b_start = 1, b_end = 24, b_real_end = 24, b_cluster_bits = 0, b_bitmap = [0xff, 0xf, 0]\<rparr>\<rparr>"

theorem new_inode_correct_witness:
  "\<exists>r fs'. ext2_new_inode 25 0 sample_inode_fs 2 = Inr (Some (r, fs')) \<and> inode_inv fs'"
proof -
  have dims: "inode_count sample_inode_fs = 24" "inode_first sample_inode_fs = 11" "fs_ipg sample_inode_fs = 12" "fs_groups sample_inode_fs = 2"
    by (simp_all add: inode_dims fs_dims sample_inode_fs_def sample_fs_def sample_super_def EXT2_FIRST_INODE_def)
  have "desc_ok sample_inode_fs" using sample_desc_ok by (simp add: desc_ok_def sample_inode_fs_def fs_dims)
  then have "inode_inv sample_inode_fs" unfolding inode_inv_def dims
    by (auto simp: sample_inode_fs_def bitmap_inv_def EXT2_BITMAP_IS_32_def EXT2_BITMAP_IS_64_def bmap_magic_defs
        cluster_range_def cluster_def fun_eq_iff word_le_nat_alt)
  then show ?thesis using new_inode_correct [of sample_inode_fs 2 25 0] by (auto simp: dims)
qed

end
