(* ===== verification/Ext2_Disk.thy ===== *)
theory Ext2_Disk
  imports Ext2_Inodes
begin

unbundle bit_operations_syntax

text \<open>
  The block device under an ext2 filesystem and the table of inodes on it (\<^verbatim>\<open>fs/ext2/util.c\<close>): reading and
  writing blocks, the structure \<^verbatim>\<open>Ext2Inode\<close> with its image of 128 bytes, inode checksums, the inode cache,
  \<^verbatim>\<open>ext2_read_inode\<close> and \<^verbatim>\<open>ext2_update_inode\<close>.

  The device is reached through function pointers (\<^verbatim>\<open>sd_read\<close>, \<^verbatim>\<open>sd_write\<close> of \<^verbatim>\<open>SpecDevice\<close>); the model keeps its
  contents as a function from byte offsets, and for each offset the error a transfer that starts there
  returns, 0 for success. Offsets have the type \<^verbatim>\<open>off_t\<close>, a signed 32-bit integer here: the product that
  \<^verbatim>\<open>ext2_read_blocks\<close> computes is negative from 2 GiB on. A transfer that fails changes nothing. The results of \<^verbatim>\<open>kmalloc\<close> are arguments:
  \<open>None\<close> when it fails, otherwise the old contents of the memory it returns.
\<close>

section \<open>Values in a buffer\<close>

definition un16 :: "u8 list \<Rightarrow> u16" where
  "un16 b = ucast (b ! 0) OR push_bit 8 (ucast (b ! 1))"

definition un32 :: "u8 list \<Rightarrow> u32" where
  "un32 b = ucast (b ! 0) OR push_bit 8 (ucast (b ! 1)) OR push_bit 16 (ucast (b ! 2)) OR push_bit 24 (ucast (b ! 3))"

definition le64 :: "u64 \<Rightarrow> u8 list" where
  "le64 n = le32 (ucast n) @ le32 (ucast (drop_bit 32 n))"

lemma length_le64 [simp]: "length (le64 n) = 8"
  by (simp add: le64_def)

lemma unat_of_nat_eq: "n < 2 ^ LENGTH('a) \<Longrightarrow> unat (of_nat n :: 'a::len word) = n"
  by (simp add: unat_of_nat take_bit_nat_eq_self)

lemma word16_bytes:
  "ucast (ucast v :: u8) OR push_bit 8 (ucast (ucast (drop_bit 8 v) :: u8)) = v" (is "?lhs = v") for v :: u16
proof (rule bit_word_eqI)
  fix n assume n: "n < LENGTH(16)"
  show "bit ?lhs n = bit v n"
    using n by (cases "n < 8") (simp_all add: bit_simps less_diff_conv2)
qed

lemma un16_le16 [simp]: "un16 (le16 v @ r) = v"
  by (simp add: un16_def le16_def word16_bytes)

lemma un32_le32 [simp]: "un32 (le32 v @ r) = v"
  by (simp add: un32_def le32_def word32_bytes)

lemma un16_le16' [simp]: "un16 (le16 v) = v"
  using un16_le16 [of v "[]"] by simp

lemma un32_le32' [simp]: "un32 (le32 v) = v"
  using un32_le32 [of v "[]"] by simp

section \<open>The device\<close>

record blockdev =
  bd_data :: "int \<Rightarrow> u8"
  bd_rerr :: "int \<Rightarrow> int"
  bd_werr :: "int \<Rightarrow> int"

definition sd_read :: "blockdev \<Rightarrow> nat \<Rightarrow> u32 \<Rightarrow> int + u8 list" where
  "sd_read d len off =
     (let off = sint off
      in if bd_rerr d off \<noteq> 0 then Inl (bd_rerr d off)
         else Inr (map (\<lambda>k. bd_data d (off + int k)) [0..<len]))"

definition sd_write :: "blockdev \<Rightarrow> u8 list \<Rightarrow> u32 \<Rightarrow> int \<times> blockdev" where
  "sd_write d buf off =
     (let off = sint off
      in if bd_werr d off \<noteq> 0 then (bd_werr d off, d)
         else (0, d\<lparr>bd_data := (\<lambda>k. if off \<le> k \<and> k < off + int (length buf) then buf ! nat (k - off)
                                 else bd_data d k)\<rparr>))"

record Ext2InodeCache =
  ic_buffer :: "u8 list"
  ic_block :: u64
  ic_cache_last :: int
  ic_cache :: "(u64 \<times> u8 list) list"

record mnt =
  m_fs :: Ext2Filesystem
  m_dev :: blockdev
  m_rdonly :: bool
  m_icache :: "Ext2InodeCache option"

definition blksize :: "mnt \<Rightarrow> nat" where "blksize m = unat (f_blksize (m_fs m))"

definition ext2_read_blocks :: "mnt \<Rightarrow> u32 \<Rightarrow> nat \<Rightarrow> int + u8 list" where
  "ext2_read_blocks m block nblocks = sd_read (m_dev m) (nblocks * blksize m) (block * f_blksize (m_fs m))"

definition ext2_write_blocks :: "mnt \<Rightarrow> u8 list \<Rightarrow> u32 \<Rightarrow> nat \<Rightarrow> int \<times> mnt" where
  "ext2_write_blocks m buf block nblocks =
     (let (r, d) = sd_write (m_dev m) (take (nblocks * blksize m) buf) (block * f_blksize (m_fs m)) in (r, m\<lparr>m_dev := d\<rparr>))"

section \<open>Inodes\<close>

definition EXT2_NDIR_BLOCKS :: nat where "EXT2_NDIR_BLOCKS = 12"
definition EXT2_IND_BLOCK :: nat where "EXT2_IND_BLOCK = 12"
definition EXT2_DIND_BLOCK :: nat where "EXT2_DIND_BLOCK = 13"
definition EXT2_TIND_BLOCK :: nat where "EXT2_TIND_BLOCK = 14"
definition EXT2_INDEX_FL :: u32 where "EXT2_INDEX_FL = 0x1000"
definition EXT4_HUGE_FILE_FL :: u32 where "EXT4_HUGE_FILE_FL = 0x40000"
definition EXT4_EXTENTS_FL :: u32 where "EXT4_EXTENTS_FL = 0x80000"
definition EXT4_INLINE_DATA_FL :: u32 where "EXT4_INLINE_DATA_FL = 0x10000000"

record Ext2Inode =
  i_mode :: u16
  i_uid :: u16
  i_size :: u32
  i_atime :: u32
  i_ctime :: u32
  i_mtime :: u32
  i_dtime :: u32
  i_gid :: u16
  i_links_count :: u16
  i_blocks :: u32
  i_flags :: u32
  i_osd1 :: u32
  i_block :: "u32 list"
  i_generation :: u32
  i_file_acl :: u32
  i_size_high :: u32
  i_faddr :: u32
  l_i_blocks_hi :: u16
  l_i_file_acl_hi :: u16
  l_i_uid_high :: u16
  l_i_gid_high :: u16
  l_i_checksum_lo :: u16
  l_i_reserved :: u16

text \<open>The structure in memory, byte for byte, and back.\<close>

definition inode_bytes :: "Ext2Inode \<Rightarrow> u8 list" where
  "inode_bytes i =
     le16 (i_mode i) @ le16 (i_uid i) @ le32 (i_size i) @ le32 (i_atime i) @ le32 (i_ctime i) @ le32 (i_mtime i)
       @ le32 (i_dtime i) @ le16 (i_gid i) @ le16 (i_links_count i) @ le32 (i_blocks i) @ le32 (i_flags i)
       @ le32 (i_osd1 i) @ concat (map le32 (i_block i)) @ le32 (i_generation i) @ le32 (i_file_acl i)
       @ le32 (i_size_high i) @ le32 (i_faddr i) @ le16 (l_i_blocks_hi i) @ le16 (l_i_file_acl_hi i)
       @ le16 (l_i_uid_high i) @ le16 (l_i_gid_high i) @ le16 (l_i_checksum_lo i) @ le16 (l_i_reserved i)"

definition inode_of :: "u8 list \<Rightarrow> Ext2Inode" where
  "inode_of b =
     \<lparr>i_mode = un16 b, i_uid = un16 (drop 2 b), i_size = un32 (drop 4 b), i_atime = un32 (drop 8 b),
      i_ctime = un32 (drop 12 b), i_mtime = un32 (drop 16 b), i_dtime = un32 (drop 20 b), i_gid = un16 (drop 24 b),
      i_links_count = un16 (drop 26 b), i_blocks = un32 (drop 28 b), i_flags = un32 (drop 32 b),
      i_osd1 = un32 (drop 36 b), i_block = map (\<lambda>k. un32 (drop (40 + 4 * k) b)) [0..<15],
      i_generation = un32 (drop 100 b), i_file_acl = un32 (drop 104 b), i_size_high = un32 (drop 108 b),
      i_faddr = un32 (drop 112 b), l_i_blocks_hi = un16 (drop 116 b), l_i_file_acl_hi = un16 (drop 118 b),
      l_i_uid_high = un16 (drop 120 b), l_i_gid_high = un16 (drop 122 b), l_i_checksum_lo = un16 (drop 124 b),
      l_i_reserved = un16 (drop 126 b)\<rparr>"

lemma length_concat_le32 [simp]: "length (concat (map le32 xs)) = 4 * length xs"
  by (induction xs) simp_all

lemma length_inode_bytes: "length (i_block i) = 15 \<Longrightarrow> length (inode_bytes i) = 128"
  by (simp add: inode_bytes_def)

lemma drop_words: "k < length xs \<Longrightarrow> un32 (drop (4 * k) (concat (map le32 xs) @ r)) = xs ! k"
proof (induction xs arbitrary: k)
  case (Cons x xs)
  then show ?case
  proof (cases k)
    case (Suc j)
    have "drop (4 * k) (concat (map le32 (x # xs)) @ r) = drop (4 * j) (concat (map le32 xs) @ r)"
      by (simp add: Suc)
    then show ?thesis using Cons Suc by simp
  qed simp
qed simp

lemma inode_of_bytes: "length (i_block i) = 15 \<Longrightarrow> inode_of (inode_bytes i @ r) = i"
proof -
  assume len: "length (i_block i) = 15"
  have "map (\<lambda>k. un32 (drop (40 + 4 * k) (inode_bytes i @ r))) [0..<15] = i_block i"
  proof (rule nth_equalityI)
    fix k assume "k < length (map (\<lambda>k. un32 (drop (40 + 4 * k) (inode_bytes i @ r))) [0..<15])"
    then have k: "k < 15" by simp
    have "drop 40 (inode_bytes i @ r) = concat (map le32 (i_block i)) @ drop 100 (inode_bytes i @ r)"
      by (simp add: inode_bytes_def len)
    then have "drop (40 + 4 * k) (inode_bytes i @ r) = drop (4 * k) (concat (map le32 (i_block i)) @ drop 100 (inode_bytes i @ r))"
      by (metis drop_drop add.commute)
    then show "map (\<lambda>k. un32 (drop (40 + 4 * k) (inode_bytes i @ r))) [0..<15] ! k = i_block i ! k"
      using k drop_words [of k "i_block i"] len by simp
  qed (simp add: len)
  then show ?thesis
    unfolding inode_of_def by (simp add: inode_bytes_def len)
qed

section \<open>Inode checksums\<close>

definition EXT2_INODE_SIZE :: "Ext2Superblock \<Rightarrow> nat" where
  "EXT2_INODE_SIZE s = (if s_rev_level s = 0 then 128 else unat (s_inode_size s))"

definition set16 :: "u8 list \<Rightarrow> nat \<Rightarrow> u16 \<Rightarrow> u8 list" where
  "set16 b n v = take n b @ le16 v @ drop (n + 2) b"

definition csum_hi :: "Ext2Filesystem \<Rightarrow> u8 list \<Rightarrow> bool" where
  "csum_hi fs b \<longleftrightarrow> EXT2_INODE_SIZE (f_super fs) > 128 \<and> un16 (drop 128 b) \<ge> 4"

definition ext2_inode_checksum :: "Ext2Filesystem \<Rightarrow> u64 \<Rightarrow> u8 list \<Rightarrow> bool \<Rightarrow> u32 exec" where
  "ext2_inode_checksum fs ino inode has_hi =
     (let zeroed = set16 inode 124 0; zeroed = (if has_hi then set16 zeroed 130 0 else zeroed)
      in bindE (crc32 (f_checksum_seed fs) (le64 ino)) (\<lambda>crc.
         bindE (crc32 crc (le32 (un32 (drop 100 inode)))) (\<lambda>crc.
         bindE (copy_out zeroed 0 (EXT2_INODE_SIZE (f_super fs))) (\<lambda>bytes. crc32 crc bytes))))"

definition ext2_inode_checksum_valid :: "Ext2Filesystem \<Rightarrow> u64 \<Rightarrow> u8 list \<Rightarrow> bool exec" where
  "ext2_inode_checksum_valid fs ino inode =
     (if \<not> has_ro_compat (f_super fs) EXT4_FT_RO_COMPAT_METADATA_CSUM then Inr True
      else let has_hi = csum_hi fs inode
        in bindE (ext2_inode_checksum fs ino inode has_hi) (\<lambda>crc.
           let provided = (ucast (un16 (drop 124 inode)) :: u32);
               provided = (if has_hi then provided OR push_bit 16 (ucast (un16 (drop 130 inode))) else provided);
               crc = (if has_hi then crc else crc AND 0xffff)
           in Inr (provided = crc \<or> (\<forall>b \<in> set (take 128 inode). b = 0))))"

definition ext2_inode_checksum_update :: "Ext2Filesystem \<Rightarrow> u64 \<Rightarrow> u8 list \<Rightarrow> u8 list exec" where
  "ext2_inode_checksum_update fs ino inode =
     (if \<not> has_ro_compat (f_super fs) EXT4_FT_RO_COMPAT_METADATA_CSUM then Inr inode
      else let has_hi = csum_hi fs inode
        in bindE (ext2_inode_checksum fs ino inode has_hi) (\<lambda>crc.
           let inode = set16 inode 124 (ucast crc)
           in Inr (if has_hi then set16 inode 130 (ucast (drop_bit 16 crc)) else inode)))"

section \<open>The inode cache\<close>

text \<open>
  \<^verbatim>\<open>ext2_create_inode_cache\<close> allocates the cache (allocation 0), a block (1), the table (2) and one buffer for
  each entry (3 and up). When a later allocation fails the error path goes through table entries that were
  never set.
\<close>

type_synonym alloc = "nat \<Rightarrow> u8 list option"

definition ext2_create_inode_cache :: "alloc \<Rightarrow> mnt \<Rightarrow> nat \<Rightarrow> (int \<times> mnt) exec" where
  "ext2_create_inode_cache al m cache_size =
     (if m_icache m \<noteq> None then Inr (0, m)
      else if al 0 = None \<or> al 1 = None then Inr (- ENOMEM, m)
      else if al 2 = None \<or> (\<exists>i < cache_size. al (3 + i) = None) then Inl Out_Of_Bounds
      else Inr (0, m\<lparr>m_icache := Some \<lparr>ic_buffer = the (al 1), ic_block = 0, ic_cache_last = - 1,
                       ic_cache = map (\<lambda>i. (0, the (al (3 + i)))) [0..<cache_size]\<rparr>\<rparr>))"

definition ext2_flush_inode_cache :: "Ext2InodeCache \<Rightarrow> Ext2InodeCache" where
  "ext2_flush_inode_cache ic = ic\<lparr>ic_cache := map (\<lambda>(ino, b). (0, b)) (ic_cache ic), ic_block := 0\<rparr>"

definition fetch_block :: "mnt \<Rightarrow> Ext2InodeCache \<Rightarrow> u64 \<Rightarrow> int \<times> Ext2InodeCache" where
  "fetch_block m ic blockno =
     (if blockno \<noteq> ic_block ic
      then case ext2_read_blocks m (ucast blockno) 1 of
          Inl e \<Rightarrow> (e, ic)
        | Inr b \<Rightarrow> (0, ic\<lparr>ic_buffer := b, ic_block := blockno\<rparr>)
      else (0, ic))"

section \<open>Reading and writing inodes\<close>

text \<open>Where an inode is: its block and the offset in the block.\<close>

definition inode_place :: "Ext2Filesystem \<Rightarrow> u64 \<Rightarrow> (int + u64 \<times> nat) exec" where
  "inode_place fs ino =
     (let ipg = ucast (s_inodes_per_group (f_super fs)) :: u64;
          group = ucast ((ino - 1) div ipg) :: u32;
          offset = ucast ((ino - 1) mod ipg * of_nat (EXT2_INODE_SIZE (f_super fs))) :: u32;
          bits = unat (s_log_block_size (f_super fs)) + 10
      in bindE (ext2_inode_table_loc fs group) (\<lambda>blockno.
         if blockno = 0 \<or> blockno < ucast (s_first_data_block (f_super fs))
            \<or> blockno + ucast (f_inode_blocks_per_group fs) - 1 \<ge> ext2_blocks_count (f_super fs) then Inr (Inl (- EINVAL))
         else Inr (Inr (blockno + ucast (drop_bit bits offset), unat (take_bit bits offset)))))"

function load_inode :: "mnt \<Rightarrow> Ext2InodeCache \<Rightarrow> u64 \<Rightarrow> nat \<Rightarrow> nat \<Rightarrow> u8 list \<Rightarrow> (int \<times> u8 list \<times> Ext2InodeCache) exec" where
  "load_inode m ic blockno offset len acc =
     (if len = 0 then Inr (0, acc, ic)
      else if offset \<ge> blksize m then Inl Out_Of_Bounds
      else let clen = (if offset + len > blksize m then blksize m - offset else len); (r, ic) = fetch_block m ic blockno
        in if r \<noteq> 0 then Inr (r, acc, ic)
           else bindE (copy_out (ic_buffer ic) offset clen) (\<lambda>p. load_inode m ic (blockno + 1) 0 (len - clen) (acc @ p)))"
  by pat_completeness auto
termination
  by (relation "measure (\<lambda>(m, ic, b, off, len, acc). len)") (auto split: if_splits)

definition ext2_read_inode :: "alloc \<Rightarrow> mnt \<Rightarrow> u64 \<Rightarrow> ((int + u8 list) \<times> mnt) exec" where
  "ext2_read_inode al m ino =
     (let fs = m_fs m; len = EXT2_INODE_SIZE (f_super fs)
      in if ino = 0 \<or> ino > ucast (s_inodes_count (f_super fs)) then Inr (Inl (- EINVAL), m)
         else bindE (if m_icache m = None then ext2_create_inode_cache al m 4 else Inr (0, m)) (\<lambda>(r, m).
           if r \<noteq> 0 then Inr (Inl r, m)
           else let ic = the (m_icache m)
             in case find (\<lambda>e. fst e = ino) (ic_cache ic) of
                 Some e \<Rightarrow> Inr (Inr (take (min 128 len) (snd e)), m)
               | None \<Rightarrow>
                   if ucast ((ino - 1) div ucast (s_inodes_per_group (f_super fs))) > f_group_desc_count fs
                   then Inr (Inl (- EINVAL), m)
                   else bindE (inode_place fs ino) (\<lambda>p. case p of
                       Inl e \<Rightarrow> Inr (Inl e, m)
                     | Inr (blockno, offset) \<Rightarrow>
                         let slot = nat ((ic_cache_last ic + 1) mod int (length (ic_cache ic)))
                         in bindE (load_inode m ic blockno offset len []) (\<lambda>(r, got, ic).
                            bindE (arr_get (ic_cache ic) slot) (\<lambda>old.
                            let iptr = got @ drop (length got) (snd old);
                                ic1 = ic\<lparr>ic_cache := (ic_cache ic)[slot := (fst old, iptr)]\<rparr>
                            in if r \<noteq> 0 then Inr (Inl r, m\<lparr>m_icache := Some ic1\<rparr>)
                               else bindE (ext2_inode_checksum_valid fs ino iptr) (\<lambda>ok.
                                 if ok then Inr (Inr (take (min 128 len) iptr),
                                     m\<lparr>m_icache := Some (ic1\<lparr>ic_cache_last := int slot, ic_cache := (ic_cache ic)[slot := (ino, iptr)]\<rparr>)\<rparr>)
                                 else Inr (Inl (- EINVAL), m\<lparr>m_icache := Some ic1\<rparr>)))))))"

function store_inode :: "mnt \<Rightarrow> Ext2InodeCache \<Rightarrow> u64 \<Rightarrow> nat \<Rightarrow> u8 list \<Rightarrow> (int \<times> Ext2InodeCache \<times> mnt) exec" where
  "store_inode m ic blockno offset bytes =
     (if bytes = [] then Inr (0, ic, m)
      else if offset \<ge> blksize m then Inl Out_Of_Bounds
      else let len = length bytes; clen = (if offset + len > blksize m then blksize m - offset else len);
               (r, ic) = fetch_block m ic blockno
        in if r \<noteq> 0 then Inr (r, ic, m)
           else bindE (copy_in (ic_buffer ic) offset clen bytes) (\<lambda>b.
             let ic = ic\<lparr>ic_buffer := b\<rparr>; (r, m) = ext2_write_blocks m b (ucast blockno) 1
             in if r \<noteq> 0 then Inr (r, ic, m) else store_inode m ic (blockno + 1) 0 (drop clen bytes)))"
  by pat_completeness auto
termination
  by (relation "measure (\<lambda>(m, ic, b, off, bytes). length bytes)") (auto split: if_splits)

declare load_inode.simps [simp del] store_inode.simps [simp del]

text \<open>The first entry of the cache for an inode gets the new bytes.\<close>

fun update_cached :: "u64 \<Rightarrow> u8 list \<Rightarrow> (u64 \<times> u8 list) list \<Rightarrow> (u64 \<times> u8 list) list" where
  "update_cached ino new [] = []"
| "update_cached ino new (e # es) =
     (if fst e = ino then (fst e, new @ drop (length new) (snd e)) # es else e # update_cached ino new es)"

definition ext2_update_inode :: "alloc \<Rightarrow> u8 list option \<Rightarrow> mnt \<Rightarrow> u64 \<Rightarrow> u8 list \<Rightarrow> (int \<times> mnt) exec" where
  "ext2_update_inode al buf m ino inode =
     (let fs = m_fs m; len = EXT2_INODE_SIZE (f_super fs); new = take (min len (length inode)) inode
      in if m_rdonly m then Inr (- EROFS, m)
         else case buf of None \<Rightarrow> Inr (- ENOMEM, m)
         | Some junk \<Rightarrow>
             bindE (if length inode < len
                    then bindE (ext2_read_inode al m ino) (\<lambda>(r, m). case r of
                        Inl e \<Rightarrow> Inr (e, junk, m) | Inr b \<Rightarrow> Inr (0, b @ drop (length b) junk, m))
                    else Inr (0, junk, m)) (\<lambda>(r, winode, m).
             if r \<noteq> 0 then Inr (r, m)
             else bindE (case m_icache m of
                   Some ic \<Rightarrow> Inr (0, m\<lparr>m_icache := Some (ic\<lparr>ic_cache := update_cached ino new (ic_cache ic)\<rparr>)\<rparr>)
                 | None \<Rightarrow> ext2_create_inode_cache al m 4) (\<lambda>(r, m).
             if r \<noteq> 0 then Inr (r, m)
             else bindE (ext2_inode_checksum_update fs ino (new @ drop (length new) winode)) (\<lambda>winode.
             bindE (inode_place fs ino) (\<lambda>p. case p of
                 Inl e \<Rightarrow> Inr (e, m)
               | Inr (blockno, offset) \<Rightarrow>
                   bindE (store_inode m (the (m_icache m)) blockno offset (take len winode)) (\<lambda>(r, ic, m).
                   let m = m\<lparr>m_icache := Some ic\<rparr>
                   in if r \<noteq> 0 then Inr (r, m)
                      else Inr (0, m\<lparr>m_fs := set_flags EXT2_FLAG_CHANGED fs\<rparr>)))))))"

end
