(* ===== verification/Ext2_Itable.thy ===== *)
theory Ext2_Itable
  imports Ext2_Disk
begin

unbundle bit_operations_syntax

text \<open>
  The table of inodes refines a map from inode numbers to inodes: \<^verbatim>\<open>ext2_read_inode\<close> returns the inode on the
  disk whatever the inode cache holds, and \<^verbatim>\<open>ext2_update_inode\<close> replaces one inode and keeps all others.
\<close>

section \<open>Blocks of a device that does not fail\<close>

definition dev_ok :: "mnt \<Rightarrow> bool" where
  "dev_ok m \<longleftrightarrow> (\<forall>k. bd_rerr (m_dev m) k = 0) \<and> (\<forall>k. bd_werr (m_dev m) k = 0)"

definition disk_bytes :: "mnt \<Rightarrow> nat \<Rightarrow> nat \<Rightarrow> u8 list" where
  "disk_bytes m a n = map (\<lambda>k. bd_data (m_dev m) (int k)) [a..<a + n]"

text \<open>Block numbers whose bytes have an offset that fits the signed 32 bits of \<^verbatim>\<open>off_t\<close>.\<close>

definition addr_ok :: "mnt \<Rightarrow> u64 \<Rightarrow> bool" where
  "addr_ok m b \<longleftrightarrow> 0 < blksize m \<and> (unat b + 1) * blksize m \<le> 2 ^ 31"

definition block_bytes :: "mnt \<Rightarrow> u64 \<Rightarrow> u8 list" where
  "block_bytes m b = disk_bytes m (unat b * blksize m) (blksize m)"

lemma length_disk_bytes [simp]: "length (disk_bytes m a n) = n"
  by (simp add: disk_bytes_def)

lemma length_block_bytes [simp]: "length (block_bytes m b) = blksize m"
  by (simp add: block_bytes_def)

lemma disk_bytes_append: "disk_bytes m a (n + k) = disk_bytes m a n @ disk_bytes m (a + n) k"
  by (simp add: disk_bytes_def upt_add_eq_append [of a "a + n" k] flip: add.assoc map_append)

lemma take_drop_disk: "i + n \<le> k \<Longrightarrow> take n (drop i (disk_bytes m a k)) = disk_bytes m (a + i) n"
  by (simp add: disk_bytes_def drop_map take_map drop_upt take_upt)

lemma sint_small_u32: "unat w < 2 ^ 31 \<Longrightarrow> sint w = int (unat w)" for w :: u32
proof -
  assume "unat w < 2 ^ 31"
  then have "int (unat w) < int (2 ^ 31)" by (simp only: of_nat_less_iff)
  then have "uint w < 2 ^ 31" by simp
  moreover have "- (2 ^ 31) \<le> uint w" by (rule order_trans [of _ 0]) simp_all
  ultimately show ?thesis by (simp add: sint_uint signed_take_bit_int_eq_self)
qed

lemma block_offset:
  assumes "addr_ok m b"
  shows "sint (ucast b * f_blksize (m_fs m) :: u32) = int (unat b * blksize m)"
proof -
  have fits: "unat b * blksize m < 2 ^ 31" and b: "unat b < 2 ^ 31"
  proof -
    have "unat b * blksize m + blksize m \<le> 2 ^ 31" "0 < blksize m" using assms by (simp_all add: addr_ok_def algebra_simps)
    then show "unat b * blksize m < 2 ^ 31" by linarith
    moreover have "unat b * 1 \<le> unat b * blksize m" using \<open>0 < blksize m\<close> by (intro mult_le_mono2) simp
    ultimately show "unat b < 2 ^ 31" by linarith
  qed
  then have "unat (ucast b :: u32) = unat b" by (intro unat_ucast_u32) simp
  then have "unat (ucast b * f_blksize (m_fs m) :: u32) = unat b * blksize m"
    using fits by (simp add: unat_word_ariths blksize_def)
  with fits show ?thesis using sint_small_u32 [of "ucast b * f_blksize (m_fs m)"] by simp
qed

lemma map_shift: "map (\<lambda>k. f (int a + int k)) [0..<n] = map (\<lambda>k. f (int k)) [a..<a + n]"
  by (rule nth_equalityI) simp_all

lemma read_block:
  assumes "dev_ok m" and "addr_ok m b"
  shows "ext2_read_blocks m (ucast b) 1 = Inr (block_bytes m b)"
  unfolding ext2_read_blocks_def sd_read_def Let_def block_offset [OF assms(2)]
  using assms(1) by (simp add: dev_ok_def block_bytes_def disk_bytes_def map_shift del: of_nat_mult)

text \<open>The device after a write of bytes at an address.\<close>

definition disk_upd :: "mnt \<Rightarrow> nat \<Rightarrow> u8 list \<Rightarrow> mnt" where
  "disk_upd m a bs = m\<lparr>m_dev := (m_dev m)\<lparr>bd_data := (\<lambda>k. if int a \<le> k \<and> k < int a + int (length bs)
     then bs ! nat (k - int a) else bd_data (m_dev m) k)\<rparr>\<rparr>"

lemma disk_upd_fields [simp]:
  "m_fs (disk_upd m a bs) = m_fs m" "m_rdonly (disk_upd m a bs) = m_rdonly m" "m_icache (disk_upd m a bs) = m_icache m"
  "blksize (disk_upd m a bs) = blksize m" "dev_ok (disk_upd m a bs) = dev_ok m" "addr_ok (disk_upd m a bs) b = addr_ok m b"
  by (simp_all add: disk_upd_def blksize_def dev_ok_def addr_ok_def)

lemma write_block:
  assumes "dev_ok m" and "addr_ok m b" and "length bs = blksize m"
  shows "ext2_write_blocks m bs (ucast b) 1 = (0, disk_upd m (unat b * blksize m) bs)"
  unfolding ext2_write_blocks_def sd_write_def Let_def block_offset [OF assms(2)]
  using assms(1,3) by (simp add: dev_ok_def disk_upd_def del: of_nat_mult cong: if_cong)

lemma disk_bytes_upd_same [simp]: "disk_bytes (disk_upd m a bs) a (length bs) = bs"
  by (rule nth_equalityI) (simp_all add: disk_bytes_def disk_upd_def)

lemma disk_bytes_upd_other: "x + n \<le> a \<or> a + length bs \<le> x \<Longrightarrow> disk_bytes (disk_upd m a bs) x n = disk_bytes m x n"
  by (rule nth_equalityI) (auto simp: disk_bytes_def disk_upd_def)

text \<open>Writing back a piece of the disk with a part replaced only writes that part.\<close>

lemma disk_upd_part:
  assumes "i + length bs \<le> n"
  shows "disk_upd m a (take i (disk_bytes m a n) @ bs @ drop (i + length bs) (disk_bytes m a n)) = disk_upd m (a + i) bs"
proof -
  have "(if int a \<le> k \<and> k < int a + int n then (take i (disk_bytes m a n) @ bs @ drop (i + length bs) (disk_bytes m a n)) ! nat (k - int a)
         else bd_data (m_dev m) k)
      = (if int (a + i) \<le> k \<and> k < int (a + i) + int (length bs) then bs ! nat (k - int (a + i)) else bd_data (m_dev m) k)" for k
  proof (cases "int a \<le> k")
    case True
    then obtain j where k: "k = int a + int j" by (metis zle_iff_zadd)
    show ?thesis unfolding k using assms by (auto simp: nth_append disk_bytes_def nat_diff_distrib)
  qed auto
  then show ?thesis
    using assms by (simp add: disk_upd_def)
qed

lemma disk_upd_twice: "disk_upd (disk_upd m a bs) (a + length bs) cs = disk_upd m a (bs @ cs)"
proof -
  have "(if int (a + length bs) \<le> k \<and> k < int (a + length bs) + int (length cs) then cs ! nat (k - int (a + length bs))
         else if int a \<le> k \<and> k < int a + int (length bs) then bs ! nat (k - int a) else bd_data (m_dev m) k)
     = (if int a \<le> k \<and> k < int a + int (length (bs @ cs)) then (bs @ cs) ! nat (k - int a) else bd_data (m_dev m) k)" for k
  proof (cases "int a \<le> k")
    case True
    then obtain j where k: "k = int a + int j" by (metis zle_iff_zadd)
    show ?thesis unfolding k by (auto simp: nth_append nat_diff_distrib)
  qed auto
  then show ?thesis unfolding disk_upd_def by (simp cong: if_cong)
qed

section \<open>The buffer of the inode cache\<close>

definition buffer_ok :: "mnt \<Rightarrow> Ext2InodeCache \<Rightarrow> bool" where
  "buffer_ok m ic \<longleftrightarrow> ic_block ic = 0 \<or> ic_buffer ic = block_bytes m (ic_block ic)"

lemma fetch_block_ok:
  assumes "dev_ok m" and "addr_ok m b" and "b \<noteq> 0" and "buffer_ok m ic"
  shows "\<exists>ic'. fetch_block m ic b = (0, ic') \<and> ic_buffer ic' = block_bytes m b \<and> ic_block ic' = b
    \<and> ic_cache ic' = ic_cache ic \<and> ic_cache_last ic' = ic_cache_last ic"
  using assms read_block [OF assms(1,2)] by (auto simp: fetch_block_def buffer_ok_def)

text \<open>The blocks that hold a range of bytes.\<close>

definition span_ok :: "mnt \<Rightarrow> u64 \<Rightarrow> nat \<Rightarrow> nat \<Rightarrow> bool" where
  "span_ok m b off n \<longleftrightarrow> b \<noteq> 0 \<and> off < blksize m \<and> unat b + off + n < 2 ^ 64 - 1
     \<and> (\<forall>k. k * blksize m < off + n \<longrightarrow> addr_ok m (b + of_nat k))"

lemma range_ok_first: "span_ok m b off n \<Longrightarrow> 0 < n \<Longrightarrow> addr_ok m b"
  by (auto simp: span_ok_def dest: spec [of _ 0])

lemma range_ok_next:
  assumes r: "span_ok m b off n" and big: "off + n > blksize m"
  shows "span_ok m (b + 1) 0 (n - (blksize m - off))" and "unat (b + 1) = unat b + 1"
proof -
  have bs: "off < blksize m" and lim: "unat b + off + n < 2 ^ 64 - 1" using r by (simp_all add: span_ok_def)
  show u: "unat (b + 1) = unat b + 1"
    by (rule trans [OF unat_add_u64]) (use lim in simp_all)
  have "b + 1 \<noteq> 0" using u by (metis add_is_0 one_neq_zero unat_0)
  moreover have "addr_ok m (b + 1 + of_nat k)" if "k * blksize m < n - (blksize m - off)" for k
  proof -
    have "Suc k * blksize m < off + n" using that bs big by simp
    then have "addr_ok m (b + of_nat (Suc k))" using r unfolding span_ok_def by blast
    then show ?thesis by (simp add: ac_simps)
  qed
  moreover have "unat (b + 1) + 0 + (n - (blksize m - off)) < 2 ^ 64 - 1" using u lim bs big by linarith
  ultimately show "span_ok m (b + 1) 0 (n - (blksize m - off))" using bs by (simp add: span_ok_def)
qed

lemma load_inode_ok:
  assumes "dev_ok m" and "span_ok m b off len" and "buffer_ok m ic"
  shows "\<exists>ic'. load_inode m ic b off len acc = Inr (0, acc @ disk_bytes m (unat b * blksize m + off) len, ic') \<and> buffer_ok m ic'
    \<and> ic_cache ic' = ic_cache ic \<and> ic_cache_last ic' = ic_cache_last ic \<and> (length (ic_buffer ic) = blksize m \<longrightarrow> length (ic_buffer ic') = blksize m)"
  using assms(2,3)
proof (induction len arbitrary: b off ic acc rule: less_induct)
  case (less len)
  show ?case
  proof (cases "len = 0")
    case True
    then show ?thesis using less.prems by (subst load_inode.simps) (simp add: disk_bytes_def)
  next
    case False
    then have a: "addr_ok m b" using range_ok_first less.prems(1) by simp
    have b0: "b \<noteq> 0" and off: "off < blksize m" using less.prems(1) by (simp_all add: span_ok_def)
    obtain ic1 where f: "fetch_block m ic b = (0, ic1)" and buf: "ic_buffer ic1 = block_bytes m b" and blk: "ic_block ic1 = b"
      and keep: "ic_cache ic1 = ic_cache ic" "ic_cache_last ic1 = ic_cache_last ic"
      using fetch_block_ok [OF assms(1) a b0 less.prems(2)] by blast
    have ok1: "buffer_ok m ic1" by (simp add: buffer_ok_def buf blk)
    define clen where "clen = (if off + len > blksize m then blksize m - off else len)"
    have piece: "copy_out (ic_buffer ic1) off clen = Inr (disk_bytes m (unat b * blksize m + off) clen)"
      using off by (simp add: copy_out_def buf clen_def block_bytes_def take_drop_disk)
    have step: "load_inode m ic b off len acc =
        load_inode m ic1 (b + 1) 0 (len - clen) (acc @ disk_bytes m (unat b * blksize m + off) clen)"
      by (subst load_inode.simps) (use False off f piece in \<open>simp add: clen_def [symmetric]\<close>)
    show ?thesis
    proof (cases "off + len > blksize m")
      case True
      then have c: "clen = blksize m - off" "clen < len" "0 < clen" using off by (simp_all add: clen_def)
      have r: "span_ok m (b + 1) 0 (len - clen)" and u: "unat (b + 1) = unat b + 1"
        using range_ok_next [OF less.prems(1) True] c by simp_all
      have "unat (b + 1) * blksize m + 0 = unat b * blksize m + off + clen"
        using u c off by (simp add: algebra_simps)
      moreover have "len = clen + (len - clen)" using c by simp
      ultimately show ?thesis
        using less.IH [OF _ r ok1, of "acc @ disk_bytes m (unat b * blksize m + off) clen"] c step keep buf
        by (metis (no_types, lifting) append.assoc diff_less disk_bytes_append length_block_bytes less_trans)
    next
      case F: False
      then have "clen = len" by (simp add: clen_def)
      then have "load_inode m ic b off len acc = Inr (0, acc @ disk_bytes m (unat b * blksize m + off) len, ic1)"
        using step by (subst (asm) (2) load_inode.simps) simp
      then show ?thesis using ok1 keep buf by auto
    qed
  qed
qed

lemma range_ok_upd [simp]: "span_ok (disk_upd m a bs) b off n = span_ok m b off n"
  by (simp add: span_ok_def)

lemma store_inode_ok:
  assumes "dev_ok m" and "span_ok m b off (length bytes)" and "buffer_ok m ic"
  shows "\<exists>ic'. store_inode m ic b off bytes = Inr (0, ic', disk_upd m (unat b * blksize m + off) bytes)
    \<and> buffer_ok (disk_upd m (unat b * blksize m + off) bytes) ic' \<and> ic_cache ic' = ic_cache ic \<and> ic_cache_last ic' = ic_cache_last ic
    \<and> (length (ic_buffer ic) = blksize m \<longrightarrow> length (ic_buffer ic') = blksize m)"
  using assms
proof (induction "length bytes" arbitrary: m b off ic bytes rule: less_induct)
  case less
  show ?case
  proof (cases "bytes = []")
    case True
    have "(\<lambda>k. if int a \<le> k \<and> k < int a then [] ! nat (k - int a) else bd_data (m_dev m) k) = bd_data (m_dev m)" for a
      by (rule ext) auto
    then have "disk_upd m a [] = m" for a by (simp add: disk_upd_def)
    then show ?thesis using less.prems True by (subst store_inode.simps) simp
  next
    case False
    then have a: "addr_ok m b" using range_ok_first less.prems(2) by simp
    have b0: "b \<noteq> 0" and off: "off < blksize m" using less.prems(2) by (simp_all add: span_ok_def)
    obtain ic1 where f: "fetch_block m ic b = (0, ic1)" and buf: "ic_buffer ic1 = block_bytes m b" and blk: "ic_block ic1 = b"
      and keep: "ic_cache ic1 = ic_cache ic" "ic_cache_last ic1 = ic_cache_last ic"
      using fetch_block_ok [OF less.prems(1) a b0 less.prems(3)] by blast
    define len where "len = length bytes"
    define clen where "clen = (if off + len > blksize m then blksize m - off else len)"
    define new where "new = take off (block_bytes m b) @ take clen bytes @ drop (off + clen) (block_bytes m b)"
    define m1 where "m1 = disk_upd m (unat b * blksize m + off) (take clen bytes)"
    have clen: "clen \<le> len" "off + clen \<le> blksize m" "0 < clen" using off False by (auto simp: clen_def len_def)
    have lnew: "length new = blksize m" using clen by (simp add: new_def len_def)
    have cp: "copy_in (ic_buffer ic1) off clen bytes = Inr new"
      using clen by (simp add: copy_in_def buf new_def len_def)
    have m1: "disk_upd m (unat b * blksize m) new = m1"
      using disk_upd_part [of off "take clen bytes" "blksize m" m "unat b * blksize m"] clen
      by (simp add: new_def m1_def block_bytes_def len_def min_absorb2)
    have w: "ext2_write_blocks m new (ucast b) 1 = (0, m1)"
      using write_block [OF less.prems(1) a lnew] m1 by simp
    have step: "store_inode m ic b off bytes = store_inode m1 (ic1\<lparr>ic_buffer := new\<rparr>) (b + 1) 0 (drop clen bytes)"
      by (subst store_inode.simps)
        (use False off f cp w in \<open>simp add: len_def [symmetric] clen_def [symmetric]\<close>)
    have bb: "block_bytes m1 b = new"
      using m1 lnew disk_bytes_upd_same [of m "unat b * blksize m" new] by (metis block_bytes_def disk_upd_fields(4))
    have ok1: "buffer_ok m1 (ic1\<lparr>ic_buffer := new\<rparr>)" by (simp add: buffer_ok_def blk bb)
    have d1: "dev_ok m1" using less.prems(1) by (simp add: m1_def)
    show ?thesis
    proof (cases "off + len > blksize m")
      case True
      then have c: "clen = blksize m - off" "clen < len" using off by (simp_all add: clen_def)
      have r: "span_ok m1 (b + 1) 0 (length (drop clen bytes))" and u: "unat (b + 1) = unat b + 1"
        using range_ok_next [OF less.prems(2)] True c by (simp_all add: len_def m1_def)
      have "disk_upd m1 (unat (b + 1) * blksize m1 + 0) (drop clen bytes) = disk_upd m (unat b * blksize m + off) bytes"
      proof -
        have "unat (b + 1) * blksize m1 + 0 = unat b * blksize m + off + length (take clen bytes)"
          using u c clen off by (simp add: algebra_simps m1_def len_def)
        then show ?thesis
          using disk_upd_twice [of m "unat b * blksize m + off" "take clen bytes" "drop clen bytes"] by (simp add: m1_def)
      qed
      moreover have "length (drop clen bytes) < length bytes" using clen by (simp add: len_def)
      ultimately show ?thesis
        using less.hyps [OF _ d1 r ok1] step keep lnew by (auto simp add: m1_def)
    next
      case F: False
      then have cl: "clen = len" by (simp add: clen_def)
      then have "store_inode m ic b off bytes = Inr (0, ic1\<lparr>ic_buffer := new\<rparr>, m1)"
        using step by (subst (asm) (2) store_inode.simps) (simp add: len_def)
      moreover have "m1 = disk_upd m (unat b * blksize m + off) bytes" using cl by (simp add: m1_def len_def)
      ultimately show ?thesis using ok1 keep lnew by auto
    qed
  qed
qed

section \<open>Where the inodes are\<close>

definition isize :: "mnt \<Rightarrow> nat" where "isize m = EXT2_INODE_SIZE (f_super (m_fs m))"
definition ipg :: "mnt \<Rightarrow> nat" where "ipg m = unat (s_inodes_per_group (f_super (m_fs m)))"
definition table_block :: "mnt \<Rightarrow> nat \<Rightarrow> nat" where
  "table_block m g = unat (projr (ext2_inode_table_loc (m_fs m) (of_nat g)))"

definition inode_valid :: "mnt \<Rightarrow> u64 \<Rightarrow> bool" where
  "inode_valid m ino \<longleftrightarrow> ino \<noteq> 0 \<and> ino \<le> ucast (s_inodes_count (f_super (m_fs m)))"

definition inode_addr :: "mnt \<Rightarrow> u64 \<Rightarrow> nat" where
  "inode_addr m ino = table_block m ((unat ino - 1) div ipg m) * blksize m + (unat ino - 1) mod ipg m * isize m"

text \<open>
  A table of inodes as a mounted filesystem has it: the size of a block is the power of two the superblock
  gives, inodes have at least 128 bytes, every group of inodes has a descriptor, and the tables of the groups
  lie on the device and do not overlap.
\<close>

definition itable_ok :: "mnt \<Rightarrow> bool" where
  "itable_ok m \<longleftrightarrow>
     unat (s_log_block_size (f_super (m_fs m))) \<le> 6 \<and> blksize m = 2 ^ (unat (s_log_block_size (f_super (m_fs m))) + 10) \<and>
     128 \<le> isize m \<and> isize m \<le> 2 ^ 16 \<and> 0 < ipg m \<and>
     unat (s_inodes_count (f_super (m_fs m))) \<le> fs_groups (m_fs m) * ipg m \<and>
     ipg m * isize m \<le> unat (f_inode_blocks_per_group (m_fs m)) * blksize m \<and>
     fs_total (m_fs m) * blksize m \<le> 2 ^ 31 \<and>
     (\<forall>g < fs_groups (m_fs m). 0 < table_block m g \<and> unat (s_first_data_block (f_super (m_fs m))) \<le> table_block m g \<and>
        table_block m g + unat (f_inode_blocks_per_group (m_fs m)) \<le> fs_total (m_fs m) \<and>
        (\<forall>h < fs_groups (m_fs m). g < h \<or> h < g \<longrightarrow>
          table_block m g + unat (f_inode_blocks_per_group (m_fs m)) \<le> table_block m h \<or>
          table_block m h + unat (f_inode_blocks_per_group (m_fs m)) \<le> table_block m g))"

lemma itable_okD:
  assumes "itable_ok m"
  shows "unat (s_log_block_size (f_super (m_fs m))) \<le> 6" and "blksize m = 2 ^ (unat (s_log_block_size (f_super (m_fs m))) + 10)"
    and "128 \<le> isize m" and "isize m \<le> 2 ^ 16" and "0 < ipg m"
    and "unat (s_inodes_count (f_super (m_fs m))) \<le> fs_groups (m_fs m) * ipg m"
    and "ipg m * isize m \<le> unat (f_inode_blocks_per_group (m_fs m)) * blksize m"
    and "fs_total (m_fs m) * blksize m \<le> 2 ^ 31"
  by (insert assms, unfold itable_ok_def, (elim conjE, assumption)+)

lemma itable_ok_table:
  assumes "itable_ok m" and "g < fs_groups (m_fs m)"
  shows "0 < table_block m g" and "unat (s_first_data_block (f_super (m_fs m))) \<le> table_block m g"
    and "table_block m g + unat (f_inode_blocks_per_group (m_fs m)) \<le> fs_total (m_fs m)"
    and "h < fs_groups (m_fs m) \<Longrightarrow> g \<noteq> h \<Longrightarrow>
      table_block m g + unat (f_inode_blocks_per_group (m_fs m)) \<le> table_block m h \<or>
      table_block m h + unat (f_inode_blocks_per_group (m_fs m)) \<le> table_block m g"
  using assms unfolding itable_ok_def by (simp_all only: simp_thms nat_neq_iff)

lemma table_loc: "g < fs_groups (m_fs m) \<Longrightarrow> \<exists>t. ext2_inode_table_loc (m_fs m) (of_nat g) = Inr t \<and> unat t = table_block m g"
proof -
  assume g: "g < fs_groups (m_fs m)"
  then have "unat (of_nat g :: u32) = g"
    using unat_lt_2p32 [of "f_group_desc_count (m_fs m)"] by (intro unat_of_nat_eq) (simp add: fs_groups_def)
  then have "\<exists>t. ext2_inode_table_loc (m_fs m) (of_nat g) = Inr t" using g by (simp add: ext2_inode_table_loc_def)
  then show ?thesis by (auto simp: table_block_def)
qed

definition group_nr :: "mnt \<Rightarrow> u64 \<Rightarrow> nat" where "group_nr m ino = (unat ino - 1) div ipg m"
definition group_ix :: "mnt \<Rightarrow> u64 \<Rightarrow> nat" where "group_ix m ino = (unat ino - 1) mod ipg m"

lemma inode_addr_eq: "inode_addr m ino = table_block m (group_nr m ino) * blksize m + group_ix m ino * isize m"
  by (simp add: inode_addr_def group_nr_def group_ix_def)

lemma inode_numbers:
  assumes ok: "itable_ok m" and v: "inode_valid m ino"
  shows "group_nr m ino < fs_groups (m_fs m)" and "group_ix m ino < ipg m"
    and "(ucast ((ino - 1) div ucast (s_inodes_per_group (f_super (m_fs m)))) :: u32) = of_nat (group_nr m ino)"
    and "unat ((ino - 1) mod ucast (s_inodes_per_group (f_super (m_fs m)))) = group_ix m ino"
    and "unat ino = group_nr m ino * ipg m + group_ix m ino + 1"
proof -
  have pos: "0 < unat ino" using v by (auto simp: inode_valid_def intro: unat_gt_0 [THEN iffD2])
  then have pred: "unat (ino - 1) = unat ino - 1" by (rule unat_pred_u64)
  have ipg: "0 < ipg m" by (rule itable_okD(5) [OF ok])
  have "unat ino \<le> unat (s_inodes_count (f_super (m_fs m)))" using v by (simp add: inode_valid_def word_le_nat_alt)
  also have "\<dots> \<le> fs_groups (m_fs m) * ipg m" by (rule itable_okD(6) [OF ok])
  finally have "unat ino - 1 < fs_groups (m_fs m) * ipg m" using pos by linarith
  then show g: "group_nr m ino < fs_groups (m_fs m)" unfolding group_nr_def by (rule less_mult_imp_div_less)
  show "group_ix m ino < ipg m" using ipg by (simp add: group_ix_def)
  have "unat ((ino - 1) div ucast (s_inodes_per_group (f_super (m_fs m)))) = group_nr m ino"
    by (simp add: unat_div pred group_nr_def ipg_def)
  then show "(ucast ((ino - 1) div ucast (s_inodes_per_group (f_super (m_fs m)))) :: u32) = of_nat (group_nr m ino)"
    by (metis of_nat_unat)
  show "unat ((ino - 1) mod ucast (s_inodes_per_group (f_super (m_fs m)))) = group_ix m ino"
    by (simp add: unat_mod pred group_ix_def ipg_def)
  show "unat ino = group_nr m ino * ipg m + group_ix m ino + 1"
    using pos by (simp add: group_nr_def group_ix_def)
qed

lemma inode_offset:
  assumes ok: "itable_ok m" and v: "inode_valid m ino"
  shows "unat (ucast ((ino - 1) mod ucast (s_inodes_per_group (f_super (m_fs m))) * of_nat (isize m)) :: u32) = group_ix m ino * isize m"
    and "group_ix m ino * isize m + isize m \<le> unat (f_inode_blocks_per_group (m_fs m)) * blksize m"
    and "unat (f_inode_blocks_per_group (m_fs m)) * blksize m \<le> 2 ^ 32"
proof -
  have "(group_ix m ino + 1) * isize m \<le> ipg m * isize m" using inode_numbers(2) [OF ok v] by (intro mult_le_mono1) simp
  also have "\<dots> \<le> unat (f_inode_blocks_per_group (m_fs m)) * blksize m" by (rule itable_okD(7) [OF ok])
  finally show a: "group_ix m ino * isize m + isize m \<le> unat (f_inode_blocks_per_group (m_fs m)) * blksize m" by (simp add: algebra_simps)
  have "unat (f_inode_blocks_per_group (m_fs m)) \<le> fs_total (m_fs m)"
    using itable_ok_table(3) [OF ok inode_numbers(1) [OF ok v]] by simp
  then have "unat (f_inode_blocks_per_group (m_fs m)) * blksize m \<le> fs_total (m_fs m) * blksize m" by (rule mult_le_mono1)
  also have "\<dots> \<le> 2 ^ 31" by (rule itable_okD(8) [OF ok])
  also have "\<dots> \<le> 2 ^ 32" by simp
  finally show b: "unat (f_inode_blocks_per_group (m_fs m)) * blksize m \<le> 2 ^ 32" .
  have small: "group_ix m ino * isize m < 2 ^ 32" using a b itable_okD(3) [OF ok] by linarith
  have "unat (of_nat (isize m) :: u64) = isize m"
    using itable_okD(4) [OF ok] by (intro unat_of_nat_eq) simp
  then have "unat ((ino - 1) mod ucast (s_inodes_per_group (f_super (m_fs m))) * of_nat (isize m)) = group_ix m ino * isize m"
    using small inode_numbers(4) [OF ok v] by (subst unat_mult_u64) simp_all
  then show "unat (ucast ((ino - 1) mod ucast (s_inodes_per_group (f_super (m_fs m))) * of_nat (isize m)) :: u32) = group_ix m ino * isize m"
    using small by (subst unat_ucast_u32) simp_all
qed

lemma inode_place_ok:
  assumes ok: "itable_ok m" and v: "inode_valid m ino"
  shows "\<exists>b off. inode_place (m_fs m) ino = Inr (Inr (b, off)) \<and> unat b * blksize m + off = inode_addr m ino \<and> span_ok m b off (isize m)"
proof -
  let ?bits = "unat (s_log_block_size (f_super (m_fs m))) + 10"
  let ?off = "ucast ((ino - 1) mod ucast (s_inodes_per_group (f_super (m_fs m))) * of_nat (isize m)) :: u32"
  let ?n = "unat (f_inode_blocks_per_group (m_fs m))"
  note nums = inode_numbers [OF ok v] and offs = inode_offset [OF ok v]
  have bs: "blksize m = 2 ^ ?bits" "?bits \<le> 16" using itable_okD(1,2) [OF ok] by simp_all
  have tab: "0 < table_block m (group_nr m ino)" "unat (s_first_data_block (f_super (m_fs m))) \<le> table_block m (group_nr m ino)"
    "table_block m (group_nr m ino) + ?n \<le> fs_total (m_fs m)"
    using itable_ok_table(1-3) [OF ok nums(1)] by simp_all
  obtain t where t: "ext2_inode_table_loc (m_fs m) (of_nat (group_nr m ino)) = Inr t" "unat t = table_block m (group_nr m ino)"
    using table_loc [OF nums(1)] by blast
  define k where "k = unat (drop_bit ?bits ?off)"
  define r where "r = unat (take_bit ?bits ?off)"
  have drops: "unat (drop_bit n w) = unat w div 2 ^ n" for n and w :: u32 by (simp add: unat_drop_bit_eq flip: drop_bit_eq_div)
  have takes: "unat (take_bit n w) = unat w mod 2 ^ n" for n and w :: u32 by (simp add: unsigned_take_bit_eq flip: take_bit_eq_mod)
  have k: "k = group_ix m ino * isize m div blksize m" unfolding k_def drops offs(1) bs(1) ..
  have r: "r = group_ix m ino * isize m mod blksize m" unfolding r_def takes offs(1) bs(1) ..
  have kr: "k * blksize m + r = group_ix m ino * isize m" by (simp add: k r)
  have bs0: "0 < blksize m" by (simp add: bs)
  have kn: "k < ?n"
    using offs(2) itable_okD(3) [OF ok] unfolding k by (intro less_mult_imp_div_less) linarith
  have tot: "fs_total (m_fs m) \<le> 2 ^ 32"
  proof -
    have "fs_total (m_fs m) * 1 \<le> fs_total (m_fs m) * blksize m" using bs0 by (intro mult_le_mono2) simp
    moreover have "(2 :: nat) ^ 31 \<le> 2 ^ 32" by simp
    ultimately show ?thesis using itable_okD(8) [OF ok] by linarith
  qed
  define b where "b = t + ucast (drop_bit ?bits ?off)"
  have ub: "unat b = table_block m (group_nr m ino) + k"
    unfolding b_def using t(2) tab(3) kn tot by (subst unat_add_u64) (simp_all add: k_def)
  have "unat (t + ucast (f_inode_blocks_per_group (m_fs m))) = unat t + ?n"
    using t(2) tab(3) tot by (subst unat_add_u64) simp_all
  then have "unat (t + ucast (f_inode_blocks_per_group (m_fs m)) - 1) = unat t + ?n - 1"
    using t(2) tab(1) by (subst unat_pred_u64) simp_all
  then have "\<not> t + ucast (f_inode_blocks_per_group (m_fs m)) - 1 \<ge> ext2_blocks_count (f_super (m_fs m))"
    using tab(1,3) t(2) kn by (simp add: word_le_nat_alt fs_total_def)
  moreover have "t \<noteq> 0" "\<not> t < ucast (s_first_data_block (f_super (m_fs m)))"
    using t(2) tab by (auto simp: word_less_nat_alt)
  ultimately have place: "inode_place (m_fs m) ino = Inr (Inr (b, r))"
    using t(1) nums(3) by (simp add: inode_place_def Let_def b_def r_def isize_def)
  have addr: "unat b * blksize m + r = inode_addr m ino"
    using ub kr by (simp add: inode_addr_eq algebra_simps)
  have "addr_ok m (b + of_nat j)" if j: "j * blksize m < r + isize m" for j
  proof -
    have "(k + j) * blksize m < ?n * blksize m" using j kr offs(2) by (simp add: algebra_simps)
    then have kj: "k + j < ?n" by simp
    have "unat (of_nat j :: u64) = j" using kj tab(3) tot by (intro unat_of_nat_eq) simp
    then have "unat (b + of_nat j) = table_block m (group_nr m ino) + k + j"
      using ub kj tab(3) tot by (subst unat_add_u64) simp_all
    then have "(unat (b + of_nat j) + 1) * blksize m \<le> fs_total (m_fs m) * blksize m"
      using kj tab(3) by (intro mult_le_mono1) simp
    then show ?thesis using itable_okD(8) [OF ok] bs0 by (simp add: addr_ok_def)
  qed
  moreover have "b \<noteq> 0" using ub tab(1) by auto
  moreover have "r < blksize m" using bs0 by (simp add: r)
  moreover have "unat b + r + isize m < 2 ^ 64 - 1"
    using ub tab(3) kn tot \<open>r < blksize m\<close> bs itable_okD(4) [OF ok] power_increasing [OF bs(2), of "2::nat"] by simp
  ultimately have "span_ok m b r (isize m)" by (simp add: span_ok_def)
  then show ?thesis using place addr by blast
qed

text \<open>Different inodes have different places.\<close>

lemma inode_addr_disjoint:
  assumes ok: "itable_ok m" and v: "inode_valid m i" "inode_valid m j" and ne: "i \<noteq> j"
  shows "inode_addr m i + isize m \<le> inode_addr m j \<or> inode_addr m j + isize m \<le> inode_addr m i"
proof -
  let ?n = "unat (f_inode_blocks_per_group (m_fs m))"
  have step: "inode_addr m a + isize m \<le> inode_addr m c"
    if "inode_valid m a" "inode_valid m c" and before: "group_nr m a = group_nr m c \<and> group_ix m a < group_ix m c
        \<or> table_block m (group_nr m a) + ?n \<le> table_block m (group_nr m c)" for a c
    using before
  proof
    assume s: "group_nr m a = group_nr m c \<and> group_ix m a < group_ix m c"
    then have "(group_ix m a + 1) * isize m \<le> group_ix m c * isize m" by (intro mult_le_mono1) simp
    then show ?thesis using s by (simp add: inode_addr_eq algebra_simps)
  next
    assume "table_block m (group_nr m a) + ?n \<le> table_block m (group_nr m c)"
    then have "(table_block m (group_nr m a) + ?n) * blksize m \<le> table_block m (group_nr m c) * blksize m" by (rule mult_le_mono1)
    then show ?thesis
      using inode_offset(2) [OF ok that(1)] by (simp add: inode_addr_eq algebra_simps)
  qed
  have "group_nr m i \<noteq> group_nr m j \<or> group_ix m i \<noteq> group_ix m j"
    using inode_numbers(5) [OF ok v(1)] inode_numbers(5) [OF ok v(2)] ne by (metis unsigned_word_eqI)
  then show ?thesis
  proof (cases "group_nr m i = group_nr m j")
    case True
    then have "group_ix m i < group_ix m j \<or> group_ix m j < group_ix m i"
      using \<open>group_nr m i \<noteq> group_nr m j \<or> _\<close> by linarith
    then show ?thesis using step [of i j] step [of j i] v True by auto
  next
    case False
    then have "table_block m (group_nr m i) + ?n \<le> table_block m (group_nr m j)
        \<or> table_block m (group_nr m j) + ?n \<le> table_block m (group_nr m i)"
      by (rule itable_ok_table(4) [OF ok inode_numbers(1) [OF ok v(1)] inode_numbers(1) [OF ok v(2)]])
    then show ?thesis using step [of i j] step [of j i] v by auto
  qed
qed

section \<open>The cache agrees with the disk\<close>

definition inode_image :: "mnt \<Rightarrow> u64 \<Rightarrow> u8 list" where
  "inode_image m ino = disk_bytes m (inode_addr m ino) 128"

definition cache_ok :: "mnt \<Rightarrow> bool" where
  "cache_ok m \<longleftrightarrow> (\<forall>ic. m_icache m = Some ic \<longrightarrow>
     buffer_ok m ic \<and> 0 < length (ic_cache ic) \<and> - 1 \<le> ic_cache_last ic \<and>
     (\<forall>i j. i < j \<longrightarrow> j < length (ic_cache ic) \<longrightarrow> fst (ic_cache ic ! i) = fst (ic_cache ic ! j) \<longrightarrow> fst (ic_cache ic ! i) = 0) \<and>
     (\<forall>(ino, b) \<in> set (ic_cache ic). length b = isize m \<and> (ino \<noteq> 0 \<longrightarrow> inode_valid m ino \<and> take 128 b = inode_image m ino)))"

definition alloc_ok :: "mnt \<Rightarrow> alloc \<Rightarrow> bool" where
  "alloc_ok m al \<longleftrightarrow> al 0 \<noteq> None \<and> al 1 \<noteq> None \<and> al 2 \<noteq> None \<and> (\<forall>i < 4. \<exists>b. al (3 + i) = Some b \<and> length b = isize m)"

text \<open>Only the inode cache and the flags of the filesystem may differ.\<close>

definition same_disk :: "mnt \<Rightarrow> mnt \<Rightarrow> bool" where
  "same_disk m m' \<longleftrightarrow> m_fs m' = m_fs m \<and> m_dev m' = m_dev m \<and> m_rdonly m' = m_rdonly m"

lemma same_disk_simps:
  assumes "same_disk m m'"
  shows "m_fs m' = m_fs m" and "blksize m' = blksize m" and "isize m' = isize m" and "ipg m' = ipg m"
    and "dev_ok m' = dev_ok m" and "itable_ok m' = itable_ok m" and "inode_valid m' ino = inode_valid m ino"
    and "inode_addr m' ino = inode_addr m ino" and "inode_image m' ino = inode_image m ino" and "m_rdonly m' = m_rdonly m"
    and "block_bytes m' b = block_bytes m b" and "buffer_ok m' ic = buffer_ok m ic" and "disk_bytes m' a n = disk_bytes m a n"
  using assms by (simp_all add: same_disk_def blksize_def isize_def ipg_def dev_ok_def itable_ok_def inode_valid_def inode_addr_def
    inode_image_def table_block_def block_bytes_def buffer_ok_def disk_bytes_def)

lemma same_disk_cache [simp]: "same_disk m (m\<lparr>m_icache := c\<rparr>)"
  by (simp add: same_disk_def)

lemma same_disk_refl [simp]: "same_disk m m"
  by (simp add: same_disk_def)

lemma create_cache_ok:
  assumes "m_icache m = None" and "alloc_ok m al"
  shows "\<exists>m' ic. ext2_create_inode_cache al m 4 = Inr (0, m') \<and> m_icache m' = Some ic \<and> same_disk m m' \<and> cache_ok m'"
proof -
  have "al 2 \<noteq> None" "\<not> (\<exists>i < 4. al (3 + i) = None)" using assms(2) by (auto simp: alloc_ok_def)
  moreover have "length (the (al (3 + i))) = isize m" if "i < 4" for i using assms(2) that by (auto simp: alloc_ok_def)
  ultimately show ?thesis
    using assms by (auto simp: ext2_create_inode_cache_def alloc_ok_def cache_ok_def buffer_ok_def isize_def)
qed

lemma no_checksum_valid:
  "\<not> has_ro_compat (f_super fs) EXT4_FT_RO_COMPAT_METADATA_CSUM \<Longrightarrow> ext2_inode_checksum_valid fs ino b = Inr True"
  by (simp add: ext2_inode_checksum_valid_def)

definition plain_fs :: "mnt \<Rightarrow> bool" where
  "plain_fs m \<longleftrightarrow> \<not> has_ro_compat (f_super (m_fs m)) EXT4_FT_RO_COMPAT_METADATA_CSUM"

lemma read_inode_with_cache:
  assumes ok: "itable_ok m" and dev: "dev_ok m" and plain: "plain_fs m" and c: "cache_ok m" and ic: "m_icache m = Some ic"
    and v: "inode_valid m ino"
  shows "\<exists>m'. ext2_read_inode al m ino = Inr (Inr (inode_image m ino), m') \<and> same_disk m m' \<and> cache_ok m' \<and> m_icache m' \<noteq> None"
proof -
  have isz: "128 \<le> isize m" by (rule itable_okD(3) [OF ok])
  have buf: "buffer_ok m ic" and pos: "0 < length (ic_cache ic)" and lst: "- 1 \<le> ic_cache_last ic"
    and ents: "\<And>i b. (i, b) \<in> set (ic_cache ic) \<Longrightarrow> length b = isize m \<and> (i \<noteq> 0 \<longrightarrow> inode_valid m i \<and> take 128 b = inode_image m i)"
    and uniq: "\<And>i j. i < j \<Longrightarrow> j < length (ic_cache ic) \<Longrightarrow> fst (ic_cache ic ! i) = fst (ic_cache ic ! j) \<Longrightarrow> fst (ic_cache ic ! i) = 0"
    using c ic by (auto simp: cache_ok_def)
  have ino: "\<not> (ino = 0 \<or> ino > ucast (s_inodes_count (f_super (m_fs m))))" using v by (auto simp: inode_valid_def)
  show ?thesis
  proof (cases "find (\<lambda>e. fst e = ino) (ic_cache ic)")
    case (Some e)
    then have e: "(ino, snd e) \<in> set (ic_cache ic)" by (auto simp: find_Some_iff)
    then have "take 128 (snd e) = inode_image m ino" using ents ino by blast
    then have "ext2_read_inode al m ino = Inr (Inr (inode_image m ino), m)"
      using ino ic Some isz by (simp add: ext2_read_inode_def isize_def min_def)
    then show ?thesis using c ic by auto
  next
    case None
    obtain b off where p: "inode_place (m_fs m) ino = Inr (Inr (b, off))" and addr: "unat b * blksize m + off = inode_addr m ino"
      and r: "span_ok m b off (isize m)"
      using inode_place_ok [OF ok v] by blast
    obtain ic' where ld: "load_inode m ic b off (isize m) [] = Inr (0, disk_bytes m (inode_addr m ino) (isize m), ic')"
      and buf': "buffer_ok m ic'" and keep: "ic_cache ic' = ic_cache ic" "ic_cache_last ic' = ic_cache_last ic"
      using load_inode_ok [OF dev r buf, of "[]"] addr by auto
    have g: "\<not> (ucast ((ino - 1) div ucast (s_inodes_per_group (f_super (m_fs m)))) :: u32) > f_group_desc_count (m_fs m)"
    proof -
      have "group_nr m ino < unat (f_group_desc_count (m_fs m))" using inode_numbers(1) [OF ok v] by (simp add: fs_groups_def)
      moreover from this have "unat (of_nat (group_nr m ino) :: u32) = group_nr m ino"
        using unat_lt_2p32 [of "f_group_desc_count (m_fs m)"] by (intro unat_of_nat_eq) simp
      ultimately show ?thesis unfolding inode_numbers(3) [OF ok v] by (simp add: word_less_nat_alt)
    qed
    define slot where "slot = nat ((ic_cache_last ic + 1) mod int (length (ic_cache ic)))"
    have slot: "slot < length (ic_cache ic)" using pos by (simp add: slot_def nat_less_iff)
    define img where "img = disk_bytes m (inode_addr m ino) (isize m)"
    have old: "length (snd (ic_cache ic ! slot)) = isize m" using ents slot by (metis nth_mem prod.collapse)
    have img: "img @ drop (length img) (snd (ic_cache ic ! slot)) = img" by (simp add: img_def old)
    have t128: "take 128 img = inode_image m ino"
      using take_drop_disk [of 0 128 "isize m" m "inode_addr m ino"] isz by (simp add: img_def inode_image_def)
    let ?ic = "ic'\<lparr>ic_cache_last := int slot, ic_cache := (ic_cache ic)[slot := (ino, img)]\<rparr>"
    have "ext2_read_inode al m ino = Inr (Inr (inode_image m ino), m\<lparr>m_icache := Some ?ic\<rparr>)"
      using ino ic None g p ld slot img t128 isz no_checksum_valid [of "m_fs m" ino img] plain
      by (simp add: ext2_read_inode_def keep plain_fs_def min_def flip: isize_def slot_def img_def)
    moreover have "cache_ok (m\<lparr>m_icache := Some ?ic\<rparr>)"
    proof -
      have "set ((ic_cache ic)[slot := (ino, img)]) \<subseteq> insert (ino, img) (set (ic_cache ic))" by (rule set_update_subset_insert)
      moreover have "fst (ic_cache ic ! k) \<noteq> ino" if "k < length (ic_cache ic)" for k
        using None nth_mem [OF that] unfolding find_None_iff by blast
      ultimately show ?thesis
        using buf' pos slot ents v t128 uniq unfolding cache_ok_def
        by (auto simp: same_disk_simps [OF same_disk_cache] buffer_ok_def img_def nth_list_update)
    qed
    ultimately show ?thesis by auto
  qed
qed

lemma read_inode_ok:
  assumes ok: "itable_ok m" and dev: "dev_ok m" and plain: "plain_fs m" and c: "cache_ok m" and al: "alloc_ok m al"
    and v: "inode_valid m ino"
  shows "\<exists>m'. ext2_read_inode al m ino = Inr (Inr (inode_image m ino), m') \<and> same_disk m m' \<and> cache_ok m' \<and> m_icache m' \<noteq> None"
proof (cases "m_icache m")
  case None
  obtain m' ic where cr: "ext2_create_inode_cache al m 4 = Inr (0, m')" and ic: "m_icache m' = Some ic" and sd: "same_disk m m'" and c': "cache_ok m'"
    using create_cache_ok [OF None al] by blast
  note s = same_disk_simps [OF sd]
  have plain': "plain_fs m'" using plain by (simp add: plain_fs_def s)
  have "ext2_read_inode al m ino = ext2_read_inode al m' ino"
    unfolding ext2_read_inode_def using cr None ic v by (auto simp add: s(1) Let_def inode_valid_def)
  then show ?thesis
    using read_inode_with_cache [OF _ _ plain' c' ic, of ino al] ok dev v sd by (auto simp: s same_disk_def)
qed (use read_inode_with_cache [OF ok dev plain c _ v] in blast)

section \<open>Updating an inode\<close>

lemma layout_flags [simp]:
  "blksize (m\<lparr>m_fs := set_flags x (m_fs m)\<rparr>) = blksize m" "isize (m\<lparr>m_fs := set_flags x (m_fs m)\<rparr>) = isize m"
  "ipg (m\<lparr>m_fs := set_flags x (m_fs m)\<rparr>) = ipg m" "table_block (m\<lparr>m_fs := set_flags x (m_fs m)\<rparr>) g = table_block m g"
  "inode_valid (m\<lparr>m_fs := set_flags x (m_fs m)\<rparr>) ino = inode_valid m ino"
  "inode_addr (m\<lparr>m_fs := set_flags x (m_fs m)\<rparr>) ino = inode_addr m ino"
  "inode_image (m\<lparr>m_fs := set_flags x (m_fs m)\<rparr>) ino = inode_image m ino"
  "disk_bytes (m\<lparr>m_fs := set_flags x (m_fs m)\<rparr>) a n = disk_bytes m a n"
  "dev_ok (m\<lparr>m_fs := set_flags x (m_fs m)\<rparr>) = dev_ok m" "plain_fs (m\<lparr>m_fs := set_flags x (m_fs m)\<rparr>) = plain_fs m"
  by (simp_all add: blksize_def isize_def ipg_def table_block_def inode_valid_def inode_addr_def inode_image_def disk_bytes_def
    dev_ok_def plain_fs_def set_flags_def ext2_inode_table_loc_def ext2_group_desc_def wide_def)

lemma fs_dims_flags [simp]: "fs_groups (set_flags x fs) = fs_groups fs" "fs_total (set_flags x fs) = fs_total fs"
    "f_super (set_flags x fs) = f_super fs" "f_inode_blocks_per_group (set_flags x fs) = f_inode_blocks_per_group fs"
  by (simp_all add: set_flags_def fs_dims)

lemma itable_ok_flags [simp]: "itable_ok (m\<lparr>m_fs := set_flags x (m_fs m)\<rparr>) = itable_ok m"
  by (simp add: itable_ok_def)

lemma layout_upd [simp]:
  "isize (disk_upd m a bs) = isize m" "ipg (disk_upd m a bs) = ipg m" "inode_valid (disk_upd m a bs) ino = inode_valid m ino"
  "inode_addr (disk_upd m a bs) ino = inode_addr m ino" "itable_ok (disk_upd m a bs) = itable_ok m" "plain_fs (disk_upd m a bs) = plain_fs m"
  by (simp_all add: isize_def ipg_def table_block_def inode_valid_def inode_addr_def itable_ok_def plain_fs_def)

lemma layout_cache [simp]:
  "dev_ok (m\<lparr>m_icache := c\<rparr>) = dev_ok m" "span_ok (m\<lparr>m_icache := c\<rparr>) b off n = span_ok m b off n" "blksize (m\<lparr>m_icache := c\<rparr>) = blksize m"
  "itable_ok (m\<lparr>m_icache := c\<rparr>) = itable_ok m" "inode_addr (m\<lparr>m_icache := c\<rparr>) ino = inode_addr m ino"
  "inode_valid (m\<lparr>m_icache := c\<rparr>) ino = inode_valid m ino" "isize (m\<lparr>m_icache := c\<rparr>) = isize m"
  "buffer_ok (m\<lparr>m_icache := c\<rparr>) ic = buffer_ok m ic" "inode_image (m\<lparr>m_icache := c\<rparr>) ino = inode_image m ino"
  by (simp_all add: same_disk_simps [OF same_disk_cache] span_ok_def addr_ok_def)

lemma update_cached_length [simp]: "length (update_cached ino new es) = length es"
  by (induction es) auto

lemma update_cached_Nil [simp]: "update_cached ino new es = [] \<longleftrightarrow> es = []"
  by (cases es) auto

lemma update_cached_fst [simp]: "k < length es \<Longrightarrow> fst (update_cached ino new es ! k) = fst (es ! k)"
  by (induction es arbitrary: k) (auto simp: nth_Cons')

lemma update_cached_entries:
  assumes "\<And>i j. i < j \<Longrightarrow> j < length es \<Longrightarrow> fst (es ! i) = fst (es ! j) \<Longrightarrow> fst (es ! i) = 0" and "ino \<noteq> 0"
    and "(i, b) \<in> set (update_cached ino new es)"
  shows "if i = ino then \<exists>old. (ino, old) \<in> set es \<and> b = new @ drop (length new) old else (i, b) \<in> set es"
  using assms
proof (induction es)
  case (Cons e es)
  show ?case
  proof (cases "fst e = ino")
    case True
    have "fst x \<noteq> ino" if x: "x \<in> set es" for x
    proof
      assume "fst x = ino"
      obtain k where "k < length es" "x = es ! k" using x by (metis in_set_conv_nth)
      then show False using Cons.prems(1) [of 0 "Suc k"] True \<open>fst x = ino\<close> Cons.prems(2) by auto
    qed
    then show ?thesis using Cons.prems(3) True by (cases e) (fastforce split: if_splits)
  next
    case False
    have "(if i = ino then \<exists>old. (ino, old) \<in> set es \<and> b = new @ drop (length new) old else (i, b) \<in> set es)"
      if "(i, b) \<in> set (update_cached ino new es)"
    proof (rule Cons.IH [OF _ Cons.prems(2) that])
      fix p q assume "p < q" "q < length es" "fst (es ! p) = fst (es ! q)"
      then show "fst (es ! p) = 0" using Cons.prems(1) [of "Suc p" "Suc q"] by auto
    qed
    then show ?thesis using Cons.prems(3) False by (cases e) (auto split: if_splits)
  qed
qed simp

text \<open>The disk after the update, with the cache updated beside it.\<close>

lemma cache_ok_update:
  assumes ok: "itable_ok m" and c: "cache_ok m" and ic: "m_icache m = Some ic" and v: "inode_valid m ino" and new: "length new = 128"
    and w: "length w = isize m" "take 128 w = new"
    and m': "m' = disk_upd m (inode_addr m ino) w" and ic': "ic_cache ic' = update_cached ino new (ic_cache ic)"
      "ic_cache_last ic' = ic_cache_last ic" "buffer_ok m' ic'"
  shows "cache_ok (m'\<lparr>m_icache := Some ic'\<rparr>)" and "inode_image m' ino = new"
    and "\<And>j. inode_valid m j \<Longrightarrow> j \<noteq> ino \<Longrightarrow> inode_image m' j = inode_image m j"
proof -
  have isz: "128 \<le> isize m" by (rule itable_okD(3) [OF ok])
  have "disk_bytes m' (inode_addr m ino) (isize m) = w" unfolding m' w(1) [symmetric] by (rule disk_bytes_upd_same)
  then show img: "inode_image m' ino = new"
    using take_drop_disk [of 0 128 "isize m" m' "inode_addr m ino"] isz w(2) by (simp add: inode_image_def m')
  show other: "inode_image m' j = inode_image m j" if "inode_valid m j" "j \<noteq> ino" for j
    unfolding inode_image_def m' layout_upd
    using inode_addr_disjoint [OF ok that(1) v that(2)] isz w(1) by (intro disk_bytes_upd_other) auto
  have ino: "ino \<noteq> 0" using v by (simp add: inode_valid_def)
  have ents: "\<And>i b. (i, b) \<in> set (ic_cache ic) \<Longrightarrow> length b = isize m \<and> (i \<noteq> 0 \<longrightarrow> inode_valid m i \<and> take 128 b = inode_image m i)"
    and pos: "0 < length (ic_cache ic)" "- 1 \<le> ic_cache_last ic"
    and uniq: "\<And>i j. i < j \<Longrightarrow> j < length (ic_cache ic) \<Longrightarrow> fst (ic_cache ic ! i) = fst (ic_cache ic ! j) \<Longrightarrow> fst (ic_cache ic ! i) = 0"
    using c ic by (auto simp: cache_ok_def)
  have "length b = isize m \<and> (i \<noteq> 0 \<longrightarrow> inode_valid m i \<and> take 128 b = inode_image m' i)" if "(i, b) \<in> set (ic_cache ic')" for i b
    using update_cached_entries [OF uniq ino] that ents v new isz img other unfolding ic'(1) by (fastforce split: if_splits)
  moreover have "buffer_ok (m'\<lparr>m_icache := Some ic'\<rparr>) ic'" using ic'(3) by (simp add: same_disk_simps [OF same_disk_cache])
  moreover have "0 < length (ic_cache ic')" using pos(1) unfolding ic'(1) update_cached_length .
  ultimately show "cache_ok (m'\<lparr>m_icache := Some ic'\<rparr>)"
    using pos uniq ic'(1,2) unfolding cache_ok_def
    by (auto simp: same_disk_simps(9) [OF same_disk_cache] m')
qed

lemma update_cached_absent: "(\<And>e. e \<in> set es \<Longrightarrow> fst e \<noteq> ino) \<Longrightarrow> update_cached ino new es = es"
  by (induction es) auto

lemma alloc_ok_same: "same_disk m m' \<Longrightarrow> alloc_ok m' al = alloc_ok m al"
  by (simp add: alloc_ok_def same_disk_simps(3))

lemma prepare_cache:
  assumes c: "cache_ok m" and al: "alloc_ok m al" and v: "inode_valid m ino"
  shows "\<exists>m2 icb ic2. (case m_icache m of
        Some ic \<Rightarrow> Inr (0, m\<lparr>m_icache := Some (ic\<lparr>ic_cache := update_cached ino new (ic_cache ic)\<rparr>)\<rparr>)
      | None \<Rightarrow> ext2_create_inode_cache al m 4) = Inr (0, m2) \<and> same_disk m m2 \<and> m_icache m2 = Some ic2
    \<and> cache_ok (m\<lparr>m_icache := Some icb\<rparr>) \<and> ic_cache ic2 = update_cached ino new (ic_cache icb)
    \<and> ic_cache_last ic2 = ic_cache_last icb \<and> buffer_ok m ic2"
proof (cases "m_icache m")
  case None
  obtain m2 ic where cr: "ext2_create_inode_cache al m 4 = Inr (0, m2)" "m_icache m2 = Some ic" "same_disk m m2" "cache_ok m2"
    using create_cache_ok [OF None al] by blast
  have "m2 = m\<lparr>m_icache := Some ic\<rparr>" using cr(2,3) by (simp add: same_disk_def)
  moreover have "update_cached ino new (ic_cache ic) = ic_cache ic"
  proof (rule update_cached_absent)
    fix e assume "e \<in> set (ic_cache ic)"
    then have "fst e = 0" using cr(1,2) None by (auto simp: ext2_create_inode_cache_def split: if_splits)
    then show "fst e \<noteq> ino" using v by (simp add: inode_valid_def)
  qed
  ultimately show ?thesis using None cr by (auto simp: cache_ok_def same_disk_simps(12) [OF same_disk_cache])
next
  case (Some ic)
  have "m\<lparr>m_icache := Some ic\<rparr> = m" using Some by (cases m) simp
  then have "cache_ok (m\<lparr>m_icache := Some ic\<rparr>)" using c by (simp only:)
  moreover have "buffer_ok m (ic\<lparr>ic_cache := x\<rparr>)" for x using c Some by (simp add: cache_ok_def buffer_ok_def)
  ultimately show ?thesis using Some c by auto
qed

lemma update_inode_ok:
  assumes ok: "itable_ok m" and dev: "dev_ok m" and plain: "plain_fs m" and c: "cache_ok m" and al: "alloc_ok m al"
    and v: "inode_valid m ino" and rw: "\<not> m_rdonly m" and junk: "length junk = isize m" and new: "length new = 128"
  shows "\<exists>m'. ext2_update_inode al (Some junk) m ino new = Inr (0, m') \<and> itable_ok m' \<and> cache_ok m' \<and> dev_ok m'
    \<and> m_fs m' = set_flags EXT2_FLAG_CHANGED (m_fs m) \<and> inode_image m' ino = new
    \<and> disk_bytes m' (inode_addr m ino) (isize m) = new @ drop 128 junk
    \<and> (\<forall>j. inode_valid m j \<longrightarrow> j \<noteq> ino \<longrightarrow> inode_image m' j = inode_image m j)
    \<and> (\<forall>a n. a + n \<le> inode_addr m ino \<or> inode_addr m ino + isize m \<le> a \<longrightarrow> disk_bytes m' a n = disk_bytes m a n)
    \<and> m_rdonly m' = m_rdonly m"
proof -
  have isz: "128 \<le> isize m" by (rule itable_okD(3) [OF ok])
  define w where "w = new @ drop 128 junk"
  have w: "length w = isize m" "take 128 w = new" using junk new isz by (simp_all add: w_def)
  obtain m1 winode where first: "(if 128 < isize m
        then bindE (ext2_read_inode al m ino) (\<lambda>(r, m). case r of Inl e \<Rightarrow> Inr (e, junk, m) | Inr b \<Rightarrow> Inr (0, b @ drop (length b) junk, m))
        else Inr (0, junk, m)) = Inr (0, winode, m1)"
    and wi: "drop 128 winode = drop 128 junk" and sd1: "same_disk m m1" and c1: "cache_ok m1"
    using read_inode_ok [OF ok dev plain c al v] c by (cases "128 < isize m") (fastforce simp: inode_image_def)+
  note s1 = same_disk_simps [OF sd1]
  obtain m2 icb ic2 where second: "(case m_icache m1 of
        Some ic \<Rightarrow> Inr (0, m1\<lparr>m_icache := Some (ic\<lparr>ic_cache := update_cached ino new (ic_cache ic)\<rparr>)\<rparr>)
      | None \<Rightarrow> ext2_create_inode_cache al m1 4) = Inr (0, m2)"
    and m2: "same_disk m1 m2" "m_icache m2 = Some ic2" and cb: "cache_ok (m1\<lparr>m_icache := Some icb\<rparr>)"
    and ic2: "ic_cache ic2 = update_cached ino new (ic_cache icb)" "ic_cache_last ic2 = ic_cache_last icb" "buffer_ok m1 ic2"
    using prepare_cache [OF c1, of al ino new] sd1 al v by (auto simp: s1 alloc_ok_same)
  define mb where "mb = m1\<lparr>m_icache := Some icb\<rparr>"
  have sb: "same_disk m mb" using sd1 by (simp add: same_disk_def mb_def)
  note sb' = same_disk_simps [OF sb]
  have m2': "m2 = mb\<lparr>m_icache := Some ic2\<rparr>" using m2 by (simp add: same_disk_def mb_def)
  obtain b off where p: "inode_place (m_fs m) ino = Inr (Inr (b, off))" and addr: "unat b * blksize m + off = inode_addr m ino"
    and r: "span_ok m b off (isize m)"
    using inode_place_ok [OF ok v] by blast
  have r2: "span_ok m2 b off (length w)" using r w(1) by (simp add: span_ok_def addr_ok_def sb' m2')
  define md where "md = disk_upd mb (inode_addr mb ino) w"
  obtain ic' where st: "store_inode m2 ic2 b off w = Inr (0, ic', md\<lparr>m_icache := Some ic2\<rparr>)"
    and buf': "buffer_ok md ic'" and keep: "ic_cache ic' = ic_cache ic2" "ic_cache_last ic' = ic_cache_last ic2"
  proof -
    have "disk_upd m2 (unat b * blksize m2 + off) w = md\<lparr>m_icache := Some ic2\<rparr>"
      using addr by (simp add: m2' md_def disk_upd_def sb' cong: if_cong)
    moreover have "dev_ok m2" "buffer_ok m2 ic2" using dev ic2(3) by (simp_all add: m2' sb' mb_def s1)
    ultimately show ?thesis using store_inode_ok [OF _ r2, of ic2] that by auto
  qed
  have ck: "ext2_inode_checksum_update (m_fs m) ino w = Inr w" using plain by (simp add: ext2_inode_checksum_update_def plain_fs_def)
  define m3 where "m3 = md\<lparr>m_icache := Some ic'\<rparr>"
  have fs: "m_fs m3 = m_fs m" by (simp add: m3_def md_def sb')
  have res: "ext2_update_inode al (Some junk) m ino new = Inr (0, m3\<lparr>m_fs := set_flags EXT2_FLAG_CHANGED (m_fs m)\<rparr>)"
  proof -
    have n: "take (min (isize m) (length new)) new = new" and t: "take (isize m) w = w" and j: "new @ drop (length new) winode = w"
      using new isz w by (simp_all add: wi w_def)
    have f: "m_rdonly m = False" using rw by simp
    show ?thesis
      unfolding ext2_update_inode_def Let_def isize_def [symmetric] n f if_False option.case
      unfolding new first bindE_Inr prod.case second j [unfolded new] ck p
      by (simp add: m2(2) t st m3_def)
  qed
  have upd: "cache_ok m3" "inode_image md ino = new" "\<And>j. inode_valid m j \<Longrightarrow> j \<noteq> ino \<Longrightarrow> inode_image md j = inode_image m j"
  proof -
    have b: "itable_ok mb" "m_icache mb = Some icb" "inode_valid mb ino" "length w = isize mb"
      using ok v w(1) by (simp_all add: sb') (simp add: mb_def)
    have k: "ic_cache ic' = update_cached ino new (ic_cache icb)" "ic_cache_last ic' = ic_cache_last icb" using keep ic2 by simp_all
    note u = cache_ok_update [OF b(1) cb [folded mb_def] b(2,3) new b(4) w(2) md_def k buf']
    show "cache_ok m3" using u(1) unfolding m3_def .
    show "inode_image md ino = new" by (rule u(2))
    show "inode_image md j = inode_image m j" if "inode_valid m j" "j \<noteq> ino" for j
      using u(3) [of j] that by (simp add: sb')
  qed
  have "disk_bytes m3 a n = disk_bytes m a n" if "a + n \<le> inode_addr m ino \<or> inode_addr m ino + isize m \<le> a" for a n
    using disk_bytes_upd_other [of a n "inode_addr m ino" w mb] that w(1) by (simp add: m3_def md_def sb' same_disk_simps(13) [OF same_disk_cache])
  moreover have "disk_bytes m3 (inode_addr m ino) (isize m) = w"
    using disk_bytes_upd_same [of mb "inode_addr m ino" w] w(1) by (simp add: m3_def md_def sb' same_disk_simps(13) [OF same_disk_cache])
  moreover have "inode_image m3 j = inode_image md j" for j by (simp add: m3_def same_disk_simps(9) [OF same_disk_cache])
  moreover have "itable_ok m3" "dev_ok m3" using ok dev by (simp_all add: m3_def md_def sb')
  moreover have "m_rdonly m3 = m_rdonly m" using sb'(10) by (simp add: m3_def md_def disk_upd_def)
  moreover have "cache_ok (m3\<lparr>m_fs := set_flags EXT2_FLAG_CHANGED (m_fs m3)\<rparr>)"
    using upd(1) unfolding cache_ok_def buffer_ok_def block_bytes_def by simp
  ultimately show ?thesis using upd res layout_flags [where m = m3 and x = EXT2_FLAG_CHANGED] itable_ok_flags [where m = m3 and x = EXT2_FLAG_CHANGED]
    unfolding fs w_def by auto
qed

section \<open>Results\<close>

definition itable_inv :: "mnt \<Rightarrow> bool" where
  "itable_inv m \<longleftrightarrow> itable_ok m \<and> dev_ok m \<and> plain_fs m \<and> cache_ok m"

text \<open>
  C36: The table of inodes is a map from inode numbers to inodes. On a mounted filesystem without metadata
  checksums, at most 2 GiB large (device offsets are signed 32-bit numbers), whose device does not fail, and with a cache that agrees with the disk, \<^verbatim>\<open>ext2_update_inode\<close> returns 0
  and keeps the invariant, and after it \<^verbatim>\<open>ext2_read_inode\<close> returns, whatever the cache holds, the new inode for that number and the
  former inode for every other number, field for field.
\<close>
theorem inode_table_roundtrip:
  assumes inv: "itable_inv m" and al: "alloc_ok m al" and v: "inode_valid m ino" and rw: "\<not> m_rdonly m"
    and junk: "length junk = isize m" and i: "length (i_block i) = 15"
  shows "\<exists>m'. ext2_update_inode al (Some junk) m ino (inode_bytes i) = Inr (0, m') \<and> itable_inv m' \<and>
    (\<forall>j. inode_valid m j \<longrightarrow> (\<exists>b m''. ext2_read_inode al m' j = Inr (Inr b, m'') \<and> itable_inv m''
       \<and> inode_of b = (if j = ino then i else inode_of (inode_image m j))))"
proof -
  have ok: "itable_ok m" and dev: "dev_ok m" and plain: "plain_fs m" and c: "cache_ok m" using inv by (simp_all add: itable_inv_def)
  obtain m' where up: "ext2_update_inode al (Some junk) m ino (inode_bytes i) = Inr (0, m')" and m': "itable_ok m'" "cache_ok m'" "dev_ok m'"
      "m_fs m' = set_flags EXT2_FLAG_CHANGED (m_fs m)" "inode_image m' ino = inode_bytes i"
      "\<And>j. inode_valid m j \<Longrightarrow> j \<noteq> ino \<Longrightarrow> inode_image m' j = inode_image m j"
    using update_inode_ok [OF ok dev plain c al v rw junk length_inode_bytes [OF i]] by blast
  have plain': "plain_fs m'" using plain by (simp add: plain_fs_def m'(4))
  have al': "alloc_ok m' al" and v': "inode_valid m' j = inode_valid m j" for j
    using al by (simp_all add: alloc_ok_def isize_def inode_valid_def m'(4))
  have "\<exists>b m''. ext2_read_inode al m' j = Inr (Inr b, m'') \<and> itable_inv m'' \<and> inode_of b = (if j = ino then i else inode_of (inode_image m j))"
    if j: "inode_valid m j" for j
  proof -
    obtain m'' where "ext2_read_inode al m' j = Inr (Inr (inode_image m' j), m'')" and sd: "same_disk m' m''" "cache_ok m''"
      using read_inode_ok [OF m'(1,3) plain' m'(2) al'] v' j by blast
    moreover have "itable_inv m''"
      using m' plain' sd by (simp add: itable_inv_def same_disk_simps [OF sd(1)] plain_fs_def)
    moreover have "inode_of (inode_image m' j) = (if j = ino then i else inode_of (inode_image m j))"
      using m'(5,6) j inode_of_bytes [OF i, of "[]"] by simp
    ultimately show ?thesis by blast
  qed
  then show ?thesis using up m' plain' by (auto simp: itable_inv_def)
qed

text \<open>A filesystem of two groups of four inodes of 256 bytes, with the tables in blocks 5 and 11.\<close>

definition sample_mnt :: mnt where
  "sample_mnt = \<lparr>m_fs = sample_fs\<lparr>f_super := sample_super\<lparr>s_inodes_count := 8, s_inodes_per_group := 4, s_inode_size := 256, s_feature_ro_compat := 0\<rparr>,
       f_group_desc := (\<lambda>g. (sample_desc 4)\<lparr>bg_inode_table := (if g = 0 then 5 else 11)\<rparr>)\<rparr>,
     m_dev = \<lparr>bd_data = (\<lambda>_. 0), bd_rerr = (\<lambda>_. 0), bd_werr = (\<lambda>_. 0)\<rparr>, m_rdonly = False, m_icache = None\<rparr>"

definition sample_kmalloc :: alloc where "sample_kmalloc n = Some (replicate 256 0xaa)"

lemma sample_mnt_dims: "blksize sample_mnt = 1024" "isize sample_mnt = 256" "ipg sample_mnt = 4" "fs_groups (m_fs sample_mnt) = 2"
  "fs_total (m_fs sample_mnt) = 13" "table_block sample_mnt 0 = 5" "table_block sample_mnt (Suc 0) = 11"
  by (simp_all add: sample_mnt_def blksize_def isize_def ipg_def fs_dims sample_fs_def sample_super_def EXT2_INODE_SIZE_def ext2_blocks_count_def
    hi_lo_def has_incompat_def EXT4_FT_INCOMPAT_64BIT_def table_block_def ext2_inode_table_loc_def ext2_group_desc_def wide_def)

lemma sample_mnt_fields: "s_log_block_size (f_super (m_fs sample_mnt)) = 0" "f_inode_blocks_per_group (m_fs sample_mnt) = 1"
  "s_first_data_block (f_super (m_fs sample_mnt)) = 1" "s_inodes_count (f_super (m_fs sample_mnt)) = 8"
  by (simp_all add: sample_mnt_def sample_fs_def sample_super_def)

lemma sample_itable_inv: "itable_inv sample_mnt"
proof -
  have "table_block sample_mnt g = (if g = 0 then 5 else 11)" if "g < 2" for g
  proof (cases g)
    case (Suc h)
    then show ?thesis using that sample_mnt_dims(7) by (cases h) simp_all
  qed (simp add: sample_mnt_dims)
  then have "itable_ok sample_mnt"
    unfolding itable_ok_def sample_mnt_dims sample_mnt_fields by simp
  then show ?thesis
    by (simp add: itable_inv_def dev_ok_def plain_fs_def cache_ok_def sample_mnt_def sample_super_def has_ro_compat_def)
qed

lemma sample_alloc_ok: "alloc_ok sample_mnt sample_kmalloc"
  by (simp add: alloc_ok_def sample_kmalloc_def sample_mnt_dims)

definition sample_ext2_inode :: Ext2Inode where
  "sample_ext2_inode = (inode_of (replicate 128 0))\<lparr>i_mode := 0x81a4, i_size := 11, i_links_count := 1\<rparr>"

theorem inode_table_roundtrip_witness:
  "\<exists>m' b m''. ext2_update_inode sample_kmalloc (Some (replicate 256 7)) sample_mnt 6 (inode_bytes sample_ext2_inode) = Inr (0, m')
    \<and> ext2_read_inode sample_kmalloc m' 6 = Inr (Inr b, m'') \<and> i_size (inode_of b) = 11"
proof -
  have v: "inode_valid sample_mnt 6" by (simp add: inode_valid_def sample_mnt_def sample_fs_def sample_super_def)
  have "\<not> m_rdonly sample_mnt" by (simp add: sample_mnt_def)
  moreover have "length (i_block sample_ext2_inode) = 15" by (simp add: sample_ext2_inode_def inode_of_def)
  ultimately show ?thesis
    using inode_table_roundtrip [OF sample_itable_inv sample_alloc_ok v _ _, of "replicate 256 7" sample_ext2_inode] v
    by (fastforce simp: sample_mnt_dims sample_ext2_inode_def)
qed

text \<open>
  The bytes of an inode after its first 128 do not survive an update: \<^verbatim>\<open>ext2_update_inode\<close> reads the old inode with
  \<^verbatim>\<open>ext2_read_inode\<close>, which only copies 128 bytes, and writes the rest of the buffer as \<^verbatim>\<open>kmalloc\<close> returned it.
\<close>
lemma update_inode_writes_heap_bytes:
  assumes "itable_inv m" and "alloc_ok m al" and "inode_valid m ino" and "\<not> m_rdonly m" and "length junk = isize m" and "length new = 128"
  shows "\<exists>m'. ext2_update_inode al (Some junk) m ino new = Inr (0, m') \<and> disk_bytes m' (inode_addr m ino + 128) (isize m - 128) = drop 128 junk"
proof -
  have ok: "itable_ok m" "dev_ok m" "plain_fs m" "cache_ok m" using assms(1) by (simp_all add: itable_inv_def)
  obtain m' where up: "ext2_update_inode al (Some junk) m ino new = Inr (0, m')" "disk_bytes m' (inode_addr m ino) (isize m) = new @ drop 128 junk"
    using update_inode_ok [OF ok assms(2-6)] by blast
  moreover have "disk_bytes m' (inode_addr m ino + 128) (isize m - 128) = drop 128 (disk_bytes m' (inode_addr m ino) (isize m))"
    using take_drop_disk [of 128 "isize m - 128" "isize m" m' "inode_addr m ino"] itable_okD(3) [OF ok(1)] by simp
  ultimately show ?thesis using assms(6) by simp
qed

end
