(* ===== verification/Ext2_Bmap.thy ===== *)
theory Ext2_Bmap
  imports Ext2_Itable
begin

unbundle bit_operations_syntax

text \<open>
  Block mapping of ext2 (\<^verbatim>\<open>fs/ext2/bmap.c\<close> with \<^verbatim>\<open>ext2_alloc_block\<close>, \<^verbatim>\<open>ext2_find_inode_goal\<close>, \<^verbatim>\<open>ext2_iblk_add_blocks\<close>,
  \<^verbatim>\<open>ext2_zero_blocks\<close> and \<^verbatim>\<open>ext2_file_block_offset_too_big\<close> of \<^verbatim>\<open>fs/ext2/util.c\<close>): the block of the device that holds a
  given block of a file, through direct, indirect, doubly and triply indirect blocks, allocating the missing
  ones on demand.

  Inodes that map their blocks with extents (\<^verbatim>\<open>fs/ext2/extent.c\<close>) are handled by functions that the definitions
  take as arguments in \<open>env\<close>, as is \<^verbatim>\<open>ext2_read_bitmap\<close>. What the calls of \<^verbatim>\<open>kmalloc\<close> return is in \<open>env\<close>.
\<close>

section \<open>The environment\<close>

definition BMAP_ALLOC :: u32 where "BMAP_ALLOC = 1"
definition BMAP_SET :: u32 where "BMAP_SET = 2"
definition BMAP_ZERO :: u32 where "BMAP_ZERO = 8"

definition EFBIG :: int where "EFBIG = 27"
definition EOVERFLOW :: int where "EOVERFLOW = 75"

record env =
  e_alloc :: alloc
  e_inode_buf :: "u8 list option"
  e_block_oom :: bool
  e_base :: u32
  x_read_bitmap :: "mnt \<Rightarrow> (int \<times> mnt) exec"
  x_extent_bmap :: "mnt \<Rightarrow> u64 \<Rightarrow> Ext2Inode \<Rightarrow> u32 \<Rightarrow> u64 \<Rightarrow> u64 \<Rightarrow> (int \<times> u64 \<times> u32 \<times> u64 \<times> Ext2Inode \<times> mnt) exec"
  x_extent_goal :: "mnt \<Rightarrow> u64 \<Rightarrow> Ext2Inode \<Rightarrow> u64 \<Rightarrow> (u64 option \<times> Ext2Inode) exec"
  x_extent_dealloc :: "mnt \<Rightarrow> u64 \<Rightarrow> Ext2Inode \<Rightarrow> u64 \<Rightarrow> u64 \<Rightarrow> (int \<times> Ext2Inode \<times> mnt) exec"

definition mode_is :: "u16 \<Rightarrow> u16 \<Rightarrow> bool" where "mode_is t mode \<longleftrightarrow> mode AND 0xf000 = t"
abbreviation mode_dir :: "u16 \<Rightarrow> bool" where "mode_dir \<equiv> mode_is 0x4000"
abbreviation mode_reg :: "u16 \<Rightarrow> bool" where "mode_reg \<equiv> mode_is 0x8000"
abbreviation mode_lnk :: "u16 \<Rightarrow> bool" where "mode_lnk \<equiv> mode_is 0xa000"

definition EXT2_I_SIZE :: "Ext2Inode \<Rightarrow> u64" where
  "EXT2_I_SIZE i = ucast (i_size i) OR push_bit 32 (ucast (i_size_high i))"

definition ext2_is_inline_symlink :: "Ext2Inode \<Rightarrow> bool" where
  "ext2_is_inline_symlink i \<longleftrightarrow> mode_lnk (i_mode i) \<and> EXT2_I_SIZE i < 60"

definition has_flag :: "Ext2Inode \<Rightarrow> u32 \<Rightarrow> bool" where
  "has_flag i f \<longleftrightarrow> i_flags i AND f \<noteq> 0"

section \<open>Words of an indirect block\<close>

definition get_word :: "u8 list \<Rightarrow> nat \<Rightarrow> u32 exec" where
  "get_word b k = (if 4 * k + 4 \<le> length b then Inr (un32 (drop (4 * k) b)) else Inl Out_Of_Bounds)"

definition put_word :: "u8 list \<Rightarrow> nat \<Rightarrow> u32 \<Rightarrow> u8 list exec" where
  "put_word b k w = (if 4 * k + 4 \<le> length b then Inr (take (4 * k) b @ le32 w @ drop (4 * k + 4) b) else Inl Out_Of_Bounds)"

section \<open>Allocation\<close>

definition addr_per_block :: "mnt \<Rightarrow> u64" where
  "addr_per_block m = drop_bit 2 (ucast (f_blksize (m_fs m)))"

definition ext2_file_block_offset_too_big :: "mnt \<Rightarrow> Ext2Inode \<Rightarrow> u64 \<Rightarrow> bool" where
  "ext2_file_block_offset_too_big m inode off =
     (if off \<ge> 0xffffffff then True
      else if has_flag inode EXT4_EXTENTS_FL then False
      else let a = addr_per_block m in off \<ge> a + a * a + a * a * a + of_nat EXT2_NDIR_BLOCKS)"

text \<open>The inode is returned too: opening the extent tree of an inode without blocks writes the header of an empty tree into it.\<close>

definition ext2_find_inode_goal :: "env \<Rightarrow> mnt \<Rightarrow> u64 \<Rightarrow> Ext2Inode \<Rightarrow> u64 \<Rightarrow> (u64 \<times> Ext2Inode) exec" where
  "ext2_find_inode_goal e m ino inode block =
     (let fs = m_fs m; noblocks =
        (let flex = unat (s_log_groups_per_flex (f_super fs)); g = ext2_group_of_inode fs ino;
             g = (if flex \<noteq> 0 then g AND NOT (push_bit flex 1 - 1) else g)
         in ext2_group_first_block fs g)
      in if ext2_is_inline_symlink inode \<or> has_flag inode EXT4_INLINE_DATA_FL then Inr (noblocks, inode)
         else if has_flag inode EXT4_EXTENTS_FL
           then bindE (x_extent_goal e m ino inode block) (\<lambda>(r, inode). case r of Some b \<Rightarrow> Inr (b, inode) | None \<Rightarrow> Inr (noblocks, inode))
         else if i_block inode ! 0 \<noteq> 0 then Inr (ucast (i_block inode ! 0), inode)
         else Inr (noblocks, inode))"

text \<open>\<^verbatim>\<open>ext2_zero_blocks\<close> for one block, as all callers here use it: a buffer of zeros of one block is written.\<close>

definition ext2_zero_block :: "env \<Rightarrow> mnt \<Rightarrow> u64 \<Rightarrow> int \<times> mnt" where
  "ext2_zero_block e m block =
     (if e_block_oom e then (- ENOMEM, m) else ext2_write_blocks m (replicate (blksize m) 0) (ucast block) 1)"

definition ext2_alloc_block :: "env \<Rightarrow> mnt \<Rightarrow> u64 \<Rightarrow> bool \<Rightarrow> ((int + u64) \<times> mnt) exec" where
  "ext2_alloc_block e m goal has_buf =
     bindE (if f_block_bitmap (m_fs m) = None then x_read_bitmap e m else Inr (0, m)) (\<lambda>(r, m).
     if r \<noteq> 0 then Inr (Inl r, m)
     else bindE (ext2_new_block (e_base e) (m_fs m) goal) (\<lambda>x. case x of
         Inl err \<Rightarrow> Inr (Inl err, m)
       | Inr (block, fs) \<Rightarrow>
           let m = m\<lparr>m_fs := fs\<rparr>;
               (r, m) = (if has_buf then ext2_write_blocks m (replicate (blksize m) 0) (ucast block) 1 else ext2_zero_block e m block)
           in if r \<noteq> 0 then Inr (Inl r, m)
              else bindE (ext2_block_alloc_stats (m_fs m) block 1) (\<lambda>fs. Inr (Inr block, m\<lparr>m_fs := fs\<rparr>))))"

definition EXT4_FT_RO_COMPAT_HUGE_FILE :: u32 where "EXT4_FT_RO_COMPAT_HUGE_FILE = 8"

text \<open>The number of 512-byte sectors, or of blocks for huge files, that \<open>n\<close> clusters add to \<^verbatim>\<open>i_blocks\<close>.\<close>

definition iblk_units :: "mnt \<Rightarrow> Ext2Inode \<Rightarrow> u64 \<Rightarrow> u64" where
  "iblk_units m inode n =
     (let n = (if \<not> has_ro_compat (f_super (m_fs m)) EXT4_FT_RO_COMPAT_HUGE_FILE \<or> \<not> has_flag inode EXT4_HUGE_FILE_FL
               then n * of_nat (blksize m div 512) else n)
      in n * EXT2_CLUSTER_RATIO (m_fs m))"

definition iblk_now :: "mnt \<Rightarrow> Ext2Inode \<Rightarrow> u64" where
  "iblk_now m inode = ucast (i_blocks inode) +
     (if has_ro_compat (f_super (m_fs m)) EXT4_FT_RO_COMPAT_HUGE_FILE then push_bit 32 (ucast (l_i_blocks_hi inode)) else 0)"

definition ext2_iblk_add_blocks :: "mnt \<Rightarrow> Ext2Inode \<Rightarrow> u64 \<Rightarrow> int \<times> Ext2Inode" where
  "ext2_iblk_add_blocks m inode nblocks =
     (let b = iblk_now m inode + iblk_units m inode nblocks
      in if has_ro_compat (f_super (m_fs m)) EXT4_FT_RO_COMPAT_HUGE_FILE
         then (0, inode\<lparr>l_i_blocks_hi := ucast (drop_bit 32 b), i_blocks := ucast b\<rparr>)
         else if 0xffffffff <s b then (- EOVERFLOW, inode)
         else (0, inode\<lparr>i_blocks := ucast b\<rparr>))"

definition ext2_iblk_sub_blocks :: "mnt \<Rightarrow> Ext2Inode \<Rightarrow> u64 \<Rightarrow> int \<times> Ext2Inode" where
  "ext2_iblk_sub_blocks m inode nblocks =
     (let b = iblk_now m inode; n = iblk_units m inode nblocks
      in if n > b then (- EOVERFLOW, inode)
         else let b = b - n; inode = (if has_ro_compat (f_super (m_fs m)) EXT4_FT_RO_COMPAT_HUGE_FILE
                                      then inode\<lparr>l_i_blocks_hi := ucast (drop_bit 32 b)\<rparr> else inode)
           in (0, inode\<lparr>i_blocks := ucast b\<rparr>))"

definition ext2_iblk_set :: "mnt \<Rightarrow> Ext2Inode \<Rightarrow> u64 \<Rightarrow> int \<times> Ext2Inode" where
  "ext2_iblk_set m inode nblocks =
     (let n = iblk_units m inode nblocks; inode = inode\<lparr>i_blocks := ucast n\<rparr>
      in if has_ro_compat (f_super (m_fs m)) EXT4_FT_RO_COMPAT_HUGE_FILE
         then (0, inode\<lparr>l_i_blocks_hi := ucast (drop_bit 32 n)\<rparr>)
         else (if drop_bit 32 n \<noteq> 0 then - EOVERFLOW else 0, inode))"

section \<open>Indirect blocks\<close>

text \<open>
  \<open>result\<close> is the value of the result parameter on entry, which is stored when \<^verbatim>\<open>BMAP_SET\<close> is given. The count of
  allocated blocks is not changed: the code increments its pointer to the count.
\<close>

definition block_ind_bmap :: "env \<Rightarrow> mnt \<Rightarrow> u32 \<Rightarrow> u32 \<Rightarrow> u64 \<Rightarrow> u32 \<Rightarrow> ((int + u32) \<times> mnt) exec" where
  "block_ind_bmap e m flags ind blockno result =
     (if ind = 0 then Inr (if flags AND BMAP_SET \<noteq> 0 then Inl (- EINVAL) else Inr 0, m)
      else case ext2_read_blocks m ind 1 of
          Inl err \<Rightarrow> Inr (Inl err, m)
        | Inr buf \<Rightarrow>
            if flags AND BMAP_SET \<noteq> 0
            then bindE (put_word buf (unat blockno) result) (\<lambda>buf.
              let (r, m) = ext2_write_blocks m buf ind 1 in Inr (if r \<noteq> 0 then Inl r else Inr result, m))
            else bindE (get_word buf (unat blockno)) (\<lambda>b.
              if b = 0 \<and> flags AND BMAP_ALLOC \<noteq> 0
              then bindE (if blockno \<noteq> 0 then get_word buf (unat (blockno - 1)) else Inr ind) (\<lambda>goal.
                   bindE (ext2_alloc_block e m (ucast goal) True) (\<lambda>(x, m). case x of
                       Inl err \<Rightarrow> Inr (Inl err, m)
                     | Inr b64 \<Rightarrow> bindE (put_word buf (unat blockno) (ucast b64)) (\<lambda>buf.
                         let (r, m) = ext2_write_blocks m buf ind 1 in Inr (if r \<noteq> 0 then Inl r else Inr (ucast b64), m))))
              else Inr (Inr b, m)))"

definition block_dind_bmap :: "env \<Rightarrow> mnt \<Rightarrow> u32 \<Rightarrow> u32 \<Rightarrow> u64 \<Rightarrow> u32 \<Rightarrow> ((int + u32) \<times> mnt) exec" where
  "block_dind_bmap e m flags dind blockno result =
     bindE (block_ind_bmap e m (flags AND NOT BMAP_SET) dind (blockno div addr_per_block m) 0) (\<lambda>(x, m). case x of
         Inl err \<Rightarrow> Inr (Inl err, m)
       | Inr b \<Rightarrow> block_ind_bmap e m flags b (blockno mod addr_per_block m) result)"

definition block_tind_bmap :: "env \<Rightarrow> mnt \<Rightarrow> u32 \<Rightarrow> u32 \<Rightarrow> u64 \<Rightarrow> u32 \<Rightarrow> ((int + u32) \<times> mnt) exec" where
  "block_tind_bmap e m flags tind blockno result =
     bindE (block_dind_bmap e m (flags AND NOT BMAP_SET) tind (blockno div addr_per_block m) 0) (\<lambda>(x, m). case x of
         Inl err \<Rightarrow> Inr (Inl err, m)
       | Inr b \<Rightarrow> block_ind_bmap e m flags b (blockno mod addr_per_block m) result)"

section \<open>Mapping a block of a file\<close>

text \<open>The outcome of the search: result, physical block, allocated blocks, whether the inode changed, inode and state.\<close>

type_synonym bmap_out = "int \<times> u64 \<times> u64 \<times> bool \<times> Ext2Inode \<times> mnt"

definition bmap_direct :: "env \<Rightarrow> mnt \<Rightarrow> u64 \<Rightarrow> Ext2Inode \<Rightarrow> u32 \<Rightarrow> nat \<Rightarrow> u64 \<Rightarrow> bmap_out exec" where
  "bmap_direct e m ino inode flags n phys =
     (if flags AND BMAP_SET \<noteq> 0 then Inr (0, phys, 0, True, inode\<lparr>i_block := (i_block inode)[n := ucast phys]\<rparr>, m)
      else bindE (if n = 0 then ext2_find_inode_goal e m ino inode 0 else Inr (ucast (i_block inode ! (n - 1)), inode)) (\<lambda>(goal, inode).
        if i_block inode ! n = 0 \<and> flags AND BMAP_ALLOC \<noteq> 0
        then bindE (ext2_alloc_block e m (ucast (ucast goal :: u32)) True) (\<lambda>(x, m). case x of
            Inl err \<Rightarrow> Inr (err, 0, 0, False, inode, m)
          | Inr b \<Rightarrow> Inr (0, ucast (ucast b :: u32), 1, False, inode\<lparr>i_block := (i_block inode)[n := ucast b]\<rparr>, m))
        else Inr (0, ucast (i_block inode ! n), 0, False, inode, m)))"

text \<open>One of the indirect blocks of the inode, allocated near \<open>goal\<close> when it is missing.\<close>

definition bmap_indirect :: "env \<Rightarrow> mnt \<Rightarrow> Ext2Inode \<Rightarrow> u32 \<Rightarrow> nat \<Rightarrow> u64 \<Rightarrow>
    (mnt \<Rightarrow> u32 \<Rightarrow> ((int + u32) \<times> mnt) exec) \<Rightarrow> bmap_out exec" where
  "bmap_indirect e m inode flags slot phys search =
     (let b = i_block inode ! slot
      in if b = 0 \<and> flags AND BMAP_ALLOC = 0
         then Inr (if flags AND BMAP_SET \<noteq> 0 then - EINVAL else 0, phys, 0, False, inode, m)
         else bindE (if b = 0 then ext2_alloc_block e m (ucast (i_block inode ! (slot - 1))) True else Inr (Inr (ucast b), m)) (\<lambda>(x, m). case x of
             Inl err \<Rightarrow> Inr (err, phys, 0, False, inode, m)
           | Inr b64 \<Rightarrow>
               let na = (if b = 0 then 1 else 0);
                   inode = (if b = 0 then inode\<lparr>i_block := (i_block inode)[slot := ucast b64]\<rparr> else inode)
               in bindE (search m (ucast b64)) (\<lambda>(y, m). case y of
                   Inl err \<Rightarrow> Inr (err, phys, na, False, inode, m)
                 | Inr r \<Rightarrow> Inr (0, ucast r, na, False, inode, m))))"

definition bmap_find :: "env \<Rightarrow> mnt \<Rightarrow> u64 \<Rightarrow> Ext2Inode \<Rightarrow> u32 \<Rightarrow> u64 \<Rightarrow> u64 \<Rightarrow> bmap_out exec" where
  "bmap_find e m ino inode flags block phys =
     (let a = addr_per_block m; b32 = ucast phys :: u32
      in if block < of_nat EXT2_NDIR_BLOCKS then bmap_direct e m ino inode flags (unat block) phys
         else let block = block - of_nat EXT2_NDIR_BLOCKS
           in if block < a then bmap_indirect e m inode flags EXT2_IND_BLOCK phys (\<lambda>m b. block_ind_bmap e m flags b block b32)
              else let block = block - a
                in if block < a * a then bmap_indirect e m inode flags EXT2_DIND_BLOCK phys (\<lambda>m b. block_dind_bmap e m flags b block b32)
                   else bmap_indirect e m inode flags EXT2_TIND_BLOCK phys (\<lambda>m b. block_tind_bmap e m flags b (block - a * a) b32))"

definition ext2_bmap :: "env \<Rightarrow> mnt \<Rightarrow> u64 \<Rightarrow> Ext2Inode option \<Rightarrow> bool \<Rightarrow> u32 \<Rightarrow> u64 \<Rightarrow> u64 \<Rightarrow>
    (int \<times> u32 \<times> u64 \<times> Ext2Inode option \<times> mnt) exec" where
  "ext2_bmap e m ino inode has_buf flags block phys =
     (let phys = (if flags AND BMAP_SET = 0 then 0 else phys)
      in bindE (case inode of Some i \<Rightarrow> Inr (Inr i, m)
           | None \<Rightarrow> bindE (ext2_read_inode (e_alloc e) m ino) (\<lambda>(x, m). case x of
               Inl err \<Rightarrow> Inr (Inl err, m) | Inr b \<Rightarrow> Inr (Inr (inode_of b), m))) (\<lambda>(x, m). case x of
           Inl err \<Rightarrow> Inr (err, 0, phys, inode, m)
         | Inr i \<Rightarrow>
             if ext2_file_block_offset_too_big m i block then Inr (- EFBIG, 0, phys, Some i, m)
             else if has_flag i EXT4_INLINE_DATA_FL then Inr (- EINVAL, 0, phys, Some i, m)
             else if \<not> has_buf \<and> e_block_oom e then Inr (- ENOMEM, 0, phys, Some i, m)
             else bindE (if has_flag i EXT4_EXTENTS_FL
                   then bindE (x_extent_bmap e m ino i flags block phys) (\<lambda>(r, phys, rf, na, i, m). Inr (rf, r, phys, na, False, i, m))
                   else bindE (bmap_find e m ino i flags block phys) (\<lambda>out. Inr (0, out))) (\<lambda>(rf, r, phys, na, dirty, i, m).
               let (r, m) = (if phys \<noteq> 0 \<and> r = 0 \<and> flags AND BMAP_ZERO \<noteq> 0 then ext2_zero_block e m phys else (r, m))
               in if r = 0 \<and> (na \<noteq> 0 \<or> dirty)
                  then let (_, i) = ext2_iblk_add_blocks m i na
                    in bindE (ext2_update_inode (e_alloc e) (e_inode_buf e) m ino (inode_bytes i)) (\<lambda>(r, m). Inr (r, rf, phys, Some i, m))
                  else Inr (r, rf, phys, Some i, m))))"

section \<open>The mapping of a file\<close>

text \<open>The tree of indirect blocks as a reference definition: a walk from a block along a list of indices.\<close>

definition word_at :: "mnt \<Rightarrow> u32 \<Rightarrow> nat \<Rightarrow> u32" where
  "word_at m b k = un32 (drop (4 * k) (block_bytes m (ucast b)))"

fun bm_walk :: "mnt \<Rightarrow> u32 \<Rightarrow> nat list \<Rightarrow> u32" where
  "bm_walk m b [] = b"
| "bm_walk m b (k # ks) = (if b = 0 then 0 else bm_walk m (word_at m b k) ks)"

definition per_block :: "mnt \<Rightarrow> nat" where "per_block m = blksize m div 4"

definition path_of :: "nat \<Rightarrow> nat \<Rightarrow> nat \<times> nat list" where
  "path_of a n =
     (if n < 12 then (n, [])
      else if n - 12 < a then (12, [n - 12])
      else if n - 12 - a < a * a then (13, [(n - 12 - a) div a, (n - 12 - a) mod a])
      else let k = n - 12 - a - a * a in (14, [k div a div a, k div a mod a, k mod a]))"

definition map_block :: "mnt \<Rightarrow> Ext2Inode \<Rightarrow> nat \<Rightarrow> u32" where
  "map_block m i n = (let (s, ks) = path_of (per_block m) n in bm_walk m (i_block i ! s) ks)"

definition max_blocks :: "nat \<Rightarrow> nat" where "max_blocks a = 12 + a + a * a + a * a * a"

text \<open>The index blocks met on a walk lie on the device.\<close>

fun walk_ok :: "mnt \<Rightarrow> u32 \<Rightarrow> nat list \<Rightarrow> bool" where
  "walk_ok m b [] \<longleftrightarrow> True"
| "walk_ok m b (k # ks) \<longleftrightarrow> b = 0 \<or> addr_ok m (ucast b) \<and> k < per_block m \<and> walk_ok m (word_at m b k) ks"

section \<open>Reading the mapping\<close>

lemma ucast_32_64_32 [simp]: "ucast (ucast x :: u64) = x" for x :: u32
  by (rule bit_word_eqI) (simp add: bit_simps)

lemma per_block_word: "unat (addr_per_block m) = per_block m"
  by (simp add: addr_per_block_def per_block_def blksize_def unat_div drop_bit_eq_div)

lemma read_index_block:
  assumes "dev_ok m" and "addr_ok m (ucast b)"
  shows "ext2_read_blocks m b 1 = Inr (block_bytes m (ucast b))"
  using read_block [OF assms] by simp

lemma get_word_block:
  "k < per_block m \<Longrightarrow> get_word (block_bytes m (ucast b)) k = Inr (word_at m b k)"
  by (simp add: get_word_def word_at_def per_block_def)

lemma ind_read:
  assumes "dev_ok m" and "walk_ok m b (unat k # ks)" and "flags AND BMAP_SET = 0" and "flags AND BMAP_ALLOC = 0"
  shows "block_ind_bmap e m flags b k r = Inr (Inr (bm_walk m b [unat k]), m)"
  using assms read_index_block [of m b] get_word_block [of "unat k" m b] by (auto simp: block_ind_bmap_def)

lemma no_set: "flags AND BMAP_SET = 0 \<Longrightarrow> flags AND NOT BMAP_SET = flags"
  by (rule bit_word_eqI) (auto simp: bit_simps bit_eq_iff)

lemma walk_append: "bm_walk m b (ks @ ls) = bm_walk m (bm_walk m b ks) ls"
proof (induction ks arbitrary: b)
  case (Cons k ks)
  have "bm_walk m 0 ls = 0" by (cases ls) simp_all
  then show ?case using Cons by simp
qed simp

lemma dind_read:
  assumes "dev_ok m" and "walk_ok m b [unat k div per_block m, unat k mod per_block m]" and "flags AND BMAP_SET = 0" and "flags AND BMAP_ALLOC = 0"
  shows "block_dind_bmap e m flags b k r = Inr (Inr (bm_walk m b [unat k div per_block m, unat k mod per_block m]), m)"
proof -
  let ?k1 = "k div addr_per_block m" and ?k2 = "k mod addr_per_block m"
  have u: "unat ?k1 = unat k div per_block m" "unat ?k2 = unat k mod per_block m" by (simp_all add: unat_div unat_mod per_block_word)
  have ok1: "walk_ok m b (unat ?k1 # [unat ?k2])" using assms(2) u by simp
  have ok2: "walk_ok m (bm_walk m b [unat ?k1]) [unat ?k2]" using ok1 by auto
  show ?thesis
    using ind_read [OF assms(1) ok1 assms(3,4), of e 0] ind_read [OF assms(1) ok2 assms(3,4), of e r] walk_append [of m b "[unat ?k1]" "[unat ?k2]"]
    by (simp add: block_dind_bmap_def no_set [OF assms(3)] u)
qed

lemma tind_read:
  assumes "dev_ok m" and "walk_ok m b [unat k div per_block m div per_block m, unat k div per_block m mod per_block m, unat k mod per_block m]"
    and "flags AND BMAP_SET = 0" and "flags AND BMAP_ALLOC = 0"
  shows "block_tind_bmap e m flags b k r =
    Inr (Inr (bm_walk m b [unat k div per_block m div per_block m, unat k div per_block m mod per_block m, unat k mod per_block m]), m)"
proof -
  let ?k1 = "k div addr_per_block m" and ?k2 = "k mod addr_per_block m"
  have u: "unat ?k1 = unat k div per_block m" "unat ?k2 = unat k mod per_block m" by (simp_all add: unat_div unat_mod per_block_word)
  have ok1: "walk_ok m b [unat ?k1 div per_block m, unat ?k1 mod per_block m]"
    and ok2: "walk_ok m (bm_walk m b [unat ?k1 div per_block m, unat ?k1 mod per_block m]) [unat ?k2]" using assms(2) u by auto
  show ?thesis
    using dind_read [OF assms(1) ok1 assms(3,4), of e 0] ind_read [OF assms(1) ok2 assms(3,4), of e r]
      walk_append [of m b "[unat ?k1 div per_block m, unat ?k1 mod per_block m]" "[unat ?k2]"]
    by (simp add: block_tind_bmap_def no_set [OF assms(3)] u)
qed

text \<open>The inodes the direct code handles: no extents and no data in the inode.\<close>

definition block_mapped :: "Ext2Inode \<Rightarrow> bool" where
  "block_mapped i \<longleftrightarrow> \<not> has_flag i EXT4_EXTENTS_FL \<and> \<not> has_flag i EXT4_INLINE_DATA_FL \<and> length (i_block i) = 15"

definition mapping_ok :: "mnt \<Rightarrow> Ext2Inode \<Rightarrow> nat \<Rightarrow> bool" where
  "mapping_ok m i n \<longleftrightarrow> (let (s, ks) = path_of (per_block m) n in walk_ok m (i_block i ! s) ks)"

lemma unat_max_blocks:
  assumes "per_block m \<le> 2 ^ 16"
  shows "unat (addr_per_block m + addr_per_block m * addr_per_block m + addr_per_block m * addr_per_block m * addr_per_block m + of_nat EXT2_NDIR_BLOCKS)
      = max_blocks (per_block m)"
    and "unat (addr_per_block m * addr_per_block m) = per_block m * per_block m"
proof -
  let ?a = "addr_per_block m" and ?n = "per_block m"
  have n2: "?n * ?n \<le> 2 ^ 16 * 2 ^ 16" by (intro mult_le_mono assms)
  have n3: "?n * ?n * ?n \<le> 2 ^ 16 * 2 ^ 16 * 2 ^ 16" by (intro mult_le_mono assms)
  show a2: "unat (?a * ?a) = ?n * ?n" using n2 by (subst unat_mult_u64) (simp_all add: per_block_word)
  have a3: "unat (?a * ?a * ?a) = ?n * ?n * ?n" using n3 by (subst unat_mult_u64) (simp_all add: per_block_word a2)
  have s2: "unat (?a + ?a * ?a) = ?n + ?n * ?n" using n2 assms by (subst unat_add_u64) (simp_all add: per_block_word a2)
  have s3: "unat (?a + ?a * ?a + ?a * ?a * ?a) = ?n + ?n * ?n + ?n * ?n * ?n"
    using n2 n3 assms by (subst unat_add_u64) (simp_all add: s2 a3)
  show "unat (?a + ?a * ?a + ?a * ?a * ?a + of_nat EXT2_NDIR_BLOCKS) = max_blocks ?n"
    using n2 n3 assms by (subst unat_add_u64) (simp_all add: s3 EXT2_NDIR_BLOCKS_def max_blocks_def)
qed

lemma find_goal_returns: "block_mapped i \<Longrightarrow> \<exists>g. ext2_find_inode_goal e m ino i n = Inr (g, i)"
  by (simp add: ext2_find_inode_goal_def block_mapped_def Let_def)

lemma bmap_find_read:
  assumes "dev_ok m" and "block_mapped i" and "mapping_ok m i (unat n)" and "per_block m \<le> 2 ^ 16"
  shows "bmap_find e m ino i 0 n 0 = Inr (0, ucast (map_block m i (unat n)), 0, False, i, m)"
proof -
  have a2: "unat (addr_per_block m * addr_per_block m) = per_block m * per_block m" by (rule unat_max_blocks(2) [OF assms(4)])
  have lt: "(n < of_nat EXT2_NDIR_BLOCKS) = (unat n < 12)" by (simp add: word_less_nat_alt EXT2_NDIR_BLOCKS_def)
  have d12: "unat (n - of_nat EXT2_NDIR_BLOCKS) = unat n - 12" if "\<not> unat n < 12"
    using that by (subst unat_sub_u64) (simp_all add: word_le_nat_alt EXT2_NDIR_BLOCKS_def)
  consider "unat n < 12" | "\<not> unat n < 12" "unat n - 12 < per_block m"
    | "\<not> unat n < 12" "\<not> unat n - 12 < per_block m" "unat n - 12 - per_block m < per_block m * per_block m"
    | "\<not> unat n < 12" "\<not> unat n - 12 < per_block m" "\<not> unat n - 12 - per_block m < per_block m * per_block m" by blast
  then show ?thesis
  proof cases
    case 1
    then show ?thesis
      using find_goal_returns [OF assms(2), of e m ino 0] by (auto simp: bmap_find_def lt bmap_direct_def map_block_def path_of_def)
  next
    case 2
    let ?k = "n - of_nat EXT2_NDIR_BLOCKS"
    have c: "?k < addr_per_block m" using 2 by (simp add: word_less_nat_alt d12 per_block_word)
    have "walk_ok m (i_block i ! 12) [unat ?k]" using assms(3) 2 by (simp add: mapping_ok_def path_of_def d12)
    then have r: "block_ind_bmap e m 0 (i_block i ! 12) ?k 0 = Inr (Inr (bm_walk m (i_block i ! 12) [unat ?k]), m)"
      by (rule ind_read [OF assms(1)]) simp_all
    show ?thesis
      using 2 c r by (auto simp: bmap_find_def Let_def lt bmap_indirect_def EXT2_IND_BLOCK_def map_block_def path_of_def d12)
  next
    case 3
    let ?k = "n - of_nat EXT2_NDIR_BLOCKS - addr_per_block m"
    have c1: "\<not> n - of_nat EXT2_NDIR_BLOCKS < addr_per_block m" using 3 by (simp add: word_less_nat_alt d12 per_block_word)
    have u: "unat ?k = unat n - 12 - per_block m" using c1 3 by (subst unat_sub_u64) (simp_all add: d12 per_block_word)
    have c2: "?k < addr_per_block m * addr_per_block m" using 3 by (simp add: word_less_nat_alt u a2)
    have "walk_ok m (i_block i ! 13) [unat ?k div per_block m, unat ?k mod per_block m]" using assms(3) 3 by (simp add: mapping_ok_def path_of_def u)
    then have r: "block_dind_bmap e m 0 (i_block i ! 13) ?k 0 = Inr (Inr (bm_walk m (i_block i ! 13) [unat ?k div per_block m, unat ?k mod per_block m]), m)"
      by (rule dind_read [OF assms(1)]) simp_all
    show ?thesis
      using 3 c1 c2 r by (auto simp: bmap_find_def Let_def lt bmap_indirect_def EXT2_DIND_BLOCK_def map_block_def path_of_def u)
  next
    case 4
    let ?k2 = "n - of_nat EXT2_NDIR_BLOCKS - addr_per_block m" and ?k = "n - of_nat EXT2_NDIR_BLOCKS - addr_per_block m - addr_per_block m * addr_per_block m"
    have c1: "\<not> n - of_nat EXT2_NDIR_BLOCKS < addr_per_block m" using 4 by (simp add: word_less_nat_alt d12 per_block_word)
    have u2: "unat ?k2 = unat n - 12 - per_block m" using c1 4 by (subst unat_sub_u64) (simp_all add: d12 per_block_word)
    have c2: "\<not> ?k2 < addr_per_block m * addr_per_block m" using 4 by (simp add: word_less_nat_alt u2 a2)
    have u: "unat ?k = unat n - 12 - per_block m - per_block m * per_block m" using c2 by (subst unat_sub_u64) (simp_all add: u2 a2)
    let ?p = "[unat ?k div per_block m div per_block m, unat ?k div per_block m mod per_block m, unat ?k mod per_block m]"
    have "walk_ok m (i_block i ! 14) ?p" using assms(3) 4 by (simp add: mapping_ok_def path_of_def Let_def u)
    then have r: "block_tind_bmap e m 0 (i_block i ! 14) ?k 0 = Inr (Inr (bm_walk m (i_block i ! 14) ?p), m)"
      by (rule tind_read [OF assms(1)]) simp_all
    show ?thesis
      using 4 c1 c2 r by (auto simp: bmap_find_def Let_def lt bmap_indirect_def EXT2_TIND_BLOCK_def map_block_def path_of_def u)
  qed
qed

lemma bmap_read:
  assumes "dev_ok m" and "block_mapped i" and "mapping_ok m i (unat n)" and "per_block m \<le> 2 ^ 16"
    and "unat n < max_blocks (per_block m)" and "n < 0xffffffff"
  shows "ext2_bmap e m ino (Some i) True 0 n x = Inr (0, 0, ucast (map_block m i (unat n)), Some i, m)"
proof -
  have "\<not> ext2_file_block_offset_too_big m i n"
    using assms(2,5,6) unat_max_blocks(1) [OF assms(4)]
    by (auto simp: ext2_file_block_offset_too_big_def Let_def word_le_nat_alt word_less_nat_alt block_mapped_def)
  moreover have "bmap_find e m ino i 0 n 0 = Inr (0, ucast (map_block m i (unat n)), 0, False, i, m)"
    using bmap_find_read [OF assms(1-4), of e ino] by auto
  ultimately show ?thesis using assms(2) by (simp add: ext2_bmap_def block_mapped_def)
qed

text \<open>
  C37: Reading a block mapping follows the tree. For a file without extents whose index blocks lie in the first
  2 GiB of a device that does not fail (device offsets are signed 32-bit numbers), \<^verbatim>\<open>ext2_bmap\<close> without flags returns for every block number the file format allows the
  block at the end of the walk through the direct, indirect, doubly or triply indirect blocks, or 0 for a
  hole, and changes neither the inode nor the disk; for larger numbers it returns \<^verbatim>\<open>EFBIG\<close>.
\<close>
theorem bmap_correct:
  assumes "dev_ok m" and "block_mapped i" and "per_block m \<le> 2 ^ 16" and "unat n < max_blocks (per_block m) \<Longrightarrow> mapping_ok m i (unat n)"
  shows "ext2_bmap e m ino (Some i) True 0 n x =
    (if n < 0xffffffff \<and> unat n < max_blocks (per_block m) then Inr (0, 0, ucast (map_block m i (unat n)), Some i, m)
     else Inr (- EFBIG, 0, 0, Some i, m))"
proof (cases "n < 0xffffffff \<and> unat n < max_blocks (per_block m)")
  case True
  then have "mapping_ok m i (unat n)" using assms(4) by simp
  then show ?thesis using bmap_read [OF assms(1,2) _ assms(3)] True by simp
next
  case False
  then have "ext2_file_block_offset_too_big m i n"
    using assms(2) unat_max_blocks(1) [OF assms(3)]
    by (auto simp: ext2_file_block_offset_too_big_def Let_def word_le_nat_alt word_less_nat_alt block_mapped_def)
  then show ?thesis using False by (auto simp add: ext2_bmap_def)
qed

text \<open>A file whose block 12 is reached through the indirect block 7, which holds 9, 0, 0 and so on.\<close>

definition sample_env :: env where
  "sample_env = \<lparr>e_alloc = sample_kmalloc, e_inode_buf = Some (replicate 256 0), e_block_oom = False, e_base = 0,
     x_read_bitmap = (\<lambda>m. Inr (- EIO, m)), x_extent_bmap = (\<lambda>m ino i f b p. Inr (- EIO, p, 0, 0, i, m)), x_extent_goal = (\<lambda>m ino i b. Inr (None, i)),
     x_extent_dealloc = (\<lambda>m ino i a b. Inr (- EIO, i, m))\<rparr>"

definition sample_map_mnt :: mnt where
  "sample_map_mnt = sample_mnt\<lparr>m_dev := (m_dev sample_mnt)\<lparr>bd_data := (\<lambda>k. if k = 7168 then 9 else 0)\<rparr>\<rparr>"

definition sample_file_inode :: Ext2Inode where
  "sample_file_inode = sample_ext2_inode\<lparr>i_block := [3, 4, 0, 0, 0, 0, 0, 0, 0, 0, 0, 0, 7, 0, 0]\<rparr>"

lemma sample_map_dims: "dev_ok sample_map_mnt" "blksize sample_map_mnt = 1024" "per_block sample_map_mnt = 256"
  by (simp_all add: sample_map_mnt_def sample_mnt_def dev_ok_def blksize_def per_block_def sample_fs_def)

lemma sample_file_mapped: "block_mapped sample_file_inode"
  by (simp add: block_mapped_def has_flag_def sample_file_inode_def sample_ext2_inode_def inode_of_def un32_def EXT4_EXTENTS_FL_def EXT4_INLINE_DATA_FL_def nth_append)

theorem bmap_correct_witness: "ext2_bmap sample_env sample_map_mnt 6 (Some sample_file_inode) True 0 12 0 = Inr (0, 0, 9, Some sample_file_inode, sample_map_mnt)"
proof -
  have p: "path_of 256 12 = (12, [0])" by (simp add: path_of_def)
  have "addr_ok sample_map_mnt 7" by (simp add: addr_ok_def sample_map_dims)
  then have "mapping_ok sample_map_mnt sample_file_inode 12"
    by (simp add: mapping_ok_def p sample_map_dims sample_file_inode_def)
  moreover have "map_block sample_map_mnt sample_file_inode 12 = 9"
    by (simp add: map_block_def p sample_map_dims sample_file_inode_def word_at_def block_bytes_def disk_bytes_def un32_def)
      (simp add: sample_map_mnt_def)
  ultimately show ?thesis
    using bmap_correct [OF sample_map_dims(1) sample_file_mapped, of 12 sample_env 6 0] by (simp add: sample_map_dims max_blocks_def)
qed

end
