(* ===== verification/Ext2_Files.thy ===== *)
theory Ext2_Files
  imports Ext2_Bmap
begin

unbundle bit_operations_syntax

text \<open>
  Files of ext2: reading and writing through the buffer of one block that an open file has (\<^verbatim>\<open>ext2_read\<close>, \<^verbatim>\<open>ext2_write\<close>
  of \<^verbatim>\<open>fs/ext2/inode.c\<close>, the buffer functions of \<^verbatim>\<open>fs/ext2/util.c\<close>), and changing the size of a file
  (\<^verbatim>\<open>ext2_file_set_size\<close>, \<^verbatim>\<open>ext2_dealloc_blocks\<close> and the functions below them).
\<close>

section \<open>Open files\<close>

definition EXT2_FILE_BUFFER_VALID :: u32 where "EXT2_FILE_BUFFER_VALID = 0x2000"
definition EXT2_FILE_BUFFER_DIRTY :: u32 where "EXT2_FILE_BUFFER_DIRTY = 0x4000"
definition BMAP_RET_UNINIT :: u32 where "BMAP_RET_UNINIT = 1"

text \<open>Of the three blocks of \<^verbatim>\<open>f_buffer\<close> the first holds the data; the others are scratch memory of \<^verbatim>\<open>ext2_bmap\<close>.\<close>

record Ext2File =
  f_inode :: Ext2Inode
  f_ino :: u64
  f_pos :: u64
  f_block :: u64
  f_physblock :: u64
  f_fflags :: u32
  f_buffer :: "u8 list"

text \<open>\<^verbatim>\<open>ext2_bmap\<close> on the inode of an open file.\<close>

definition file_bmap :: "env \<Rightarrow> mnt \<Rightarrow> Ext2File \<Rightarrow> u32 \<Rightarrow> u64 \<Rightarrow> (int \<times> u32 \<times> u64 \<times> Ext2File \<times> mnt) exec" where
  "file_bmap e m f flags phys =
     bindE (ext2_bmap e m (f_ino f) (Some (f_inode f)) True flags (f_block f) phys) (\<lambda>(r, rf, p, i, m).
       Inr (r, rf, p, f\<lparr>f_inode := the i\<rparr>, m))"

definition ext2_file_flush :: "env \<Rightarrow> mnt \<Rightarrow> Ext2File \<Rightarrow> (int \<times> Ext2File \<times> mnt) exec" where
  "ext2_file_flush e m f =
     (if f_fflags f AND (EXT2_FILE_BUFFER_VALID OR EXT2_FILE_BUFFER_DIRTY) = 0 then Inr (0, f, m)
      else bindE (if f_physblock f \<noteq> 0 \<and> has_flag (f_inode f) EXT4_EXTENTS_FL
           then bindE (file_bmap e m f 0 0) (\<lambda>(r, rf, ignore, f, m).
             if r \<noteq> 0 \<or> rf AND BMAP_RET_UNINIT = 0 then Inr (r, f, m)
             else bindE (file_bmap e m f BMAP_SET (f_physblock f)) (\<lambda>(r, rf, p, f, m). Inr (r, f\<lparr>f_physblock := p\<rparr>, m)))
           else Inr (0, f, m)) (\<lambda>(r, f, m).
      if r \<noteq> 0 then Inr (r, f, m)
      else bindE (if f_physblock f = 0
           then bindE (file_bmap e m f (if f_ino f = 0 then 0 else BMAP_ALLOC) 0) (\<lambda>(r, rf, p, f, m). Inr (r, f\<lparr>f_physblock := p\<rparr>, m))
           else Inr (0, f, m)) (\<lambda>(r, f, m).
      if r \<noteq> 0 then Inr (r, f, m)
      else let (r, m) = ext2_write_blocks m (f_buffer f) (ucast (f_physblock f)) 1
        in if r \<noteq> 0 then Inr (r, f, m)
           else Inr (0, f\<lparr>f_fflags := f_fflags f AND NOT EXT2_FILE_BUFFER_DIRTY\<rparr>, m))))"

definition ext2_sync_file_buffer_pos :: "env \<Rightarrow> mnt \<Rightarrow> Ext2File \<Rightarrow> (int \<times> Ext2File \<times> mnt) exec" where
  "ext2_sync_file_buffer_pos e m f =
     (let block = f_pos f div of_nat (blksize m)
      in bindE (if block \<noteq> f_block f
           then bindE (ext2_file_flush e m f) (\<lambda>(r, f, m).
             Inr (r, if r = 0 then f\<lparr>f_fflags := f_fflags f AND NOT EXT2_FILE_BUFFER_VALID\<rparr> else f, m))
           else Inr (0, f, m)) (\<lambda>(r, f, m).
         if r \<noteq> 0 then Inr (r, f, m) else Inr (0, f\<lparr>f_block := block\<rparr>, m)))"

definition ext2_load_file_buffer :: "env \<Rightarrow> mnt \<Rightarrow> Ext2File \<Rightarrow> bool \<Rightarrow> (int \<times> Ext2File \<times> mnt) exec" where
  "ext2_load_file_buffer e m f nofill =
     (if f_fflags f AND EXT2_FILE_BUFFER_VALID \<noteq> 0 then Inr (0, f, m)
      else bindE (file_bmap e m f 0 (f_physblock f)) (\<lambda>(r, rf, p, f, m).
        let f = f\<lparr>f_physblock := p\<rparr>
        in if r \<noteq> 0 then Inr (r, f, m)
           else bindE (if nofill then Inr (0, f)
             else if p \<noteq> 0 \<and> rf AND BMAP_RET_UNINIT = 0
               then case ext2_read_blocks m (ucast p) 1 of Inl err \<Rightarrow> Inr (err, f) | Inr b \<Rightarrow> Inr (0, f\<lparr>f_buffer := b\<rparr>)
               else Inr (0, f\<lparr>f_buffer := replicate (blksize m) 0\<rparr>)) (\<lambda>(r, f).
           if r \<noteq> 0 then Inr (r, f, m) else Inr (0, f\<lparr>f_fflags := f_fflags f OR EXT2_FILE_BUFFER_VALID\<rparr>, m))))"

section \<open>Reading\<close>

text \<open>
  The loop of \<^verbatim>\<open>ext2_read\<close>; \<open>acc\<close> is what has been copied to the caller's buffer. It ends because every round either
  copies a byte or finds the position at the end of the file. Blocks of size 0 fault in the division.
\<close>

definition chunk :: "mnt \<Rightarrow> u64 \<Rightarrow> nat \<Rightarrow> nat" where
  "chunk m pos len = min (blksize m - unat pos mod blksize m) len"

lemma chunk_pos: "0 < len \<Longrightarrow> blksize m \<noteq> 0 \<Longrightarrow> 0 < chunk m pos len"
  by (simp add: chunk_def)

lemma chunk_le: "chunk m pos len \<le> len"
  by (simp add: chunk_def)

lemma read_round_shrinks:
  assumes "0 < len" and "blksize m \<noteq> 0" and "c = min (chunk m pos len) (unat (eof - pos))"
  shows "2 * (len - c) + (if pos + of_nat c < eof then 1 else 0) < 2 * len + (1 :: nat)"
proof (cases "unat (eof - pos) = 0")
  case True
  then have "eof = pos" by (metis eq_iff_diff_eq_0 unat_eq_zero)
  then show ?thesis using assms by simp
next
  case False
  then show ?thesis using assms chunk_pos [of len m pos] by (auto simp: min_def)
qed

function ext2_read_loop :: "env \<Rightarrow> mnt \<Rightarrow> Ext2File \<Rightarrow> nat \<Rightarrow> u8 list \<Rightarrow> (int \<times> u8 list \<times> Ext2File \<times> mnt) exec" where
  "ext2_read_loop e m f len acc =
     (if \<not> (f_pos f < EXT2_I_SIZE (f_inode f) \<and> len > 0) then Inr (0, acc, f, m)
      else if blksize m = 0 then Inl Out_Of_Bounds
      else bindE (ext2_sync_file_buffer_pos e m f) (\<lambda>(r, f, m).
        if r \<noteq> 0 then Inr (r, acc, f, m)
        else bindE (ext2_load_file_buffer e m f False) (\<lambda>(r, f, m).
          if r \<noteq> 0 then Inr (r, acc, f, m)
          else if blksize m = 0 then Inl Out_Of_Bounds
          else let c = min (chunk m (f_pos f) len) (unat (EXT2_I_SIZE (f_inode f) - f_pos f))
            in bindE (copy_out (f_buffer f) (unat (f_pos f) mod blksize m) c) (\<lambda>p.
                 ext2_read_loop e m (f\<lparr>f_pos := f_pos f + of_nat c\<rparr>) (len - c) (acc @ p)))))"
  by pat_completeness auto
termination
  by (relation "measure (\<lambda>(e, m, f, len, acc). 2 * len + (if f_pos f < EXT2_I_SIZE (f_inode f) then 1 else 0))")
    (use read_round_shrinks in \<open>auto split: if_splits\<close>)

definition ext2_read :: "env \<Rightarrow> mnt \<Rightarrow> Ext2File \<Rightarrow> nat \<Rightarrow> u64 \<Rightarrow> (int \<times> u8 list \<times> Ext2File \<times> mnt) exec" where
  "ext2_read e m f len offset =
     (let f = f\<lparr>f_pos := offset\<rparr>
      in if has_flag (f_inode f) EXT4_INLINE_DATA_FL then Inr (- ENOTSUP, [], f, m)
         else bindE (ext2_read_loop e m f len []) (\<lambda>(r, data, f, m). Inr (if r \<noteq> 0 then r else int (length data), data, f, m)))"

section \<open>Freeing blocks\<close>

definition words_of :: "u8 list \<Rightarrow> u32 list" where
  "words_of b = map (\<lambda>k. un32 (drop (4 * k) b)) [0..<length b div 4]"

definition ext2_check_zero_block :: "u8 list \<Rightarrow> bool" where
  "ext2_check_zero_block b \<longleftrightarrow> (\<forall>x \<in> set b. x = 0)"

text \<open>
  The loop of \<^verbatim>\<open>ext2_dealloc_indirect_block\<close> over the pointers \<open>ps\<close>. For levels above 0 \<open>sub\<close> empties the index block a
  pointer leads to and says whether only zeros are left in it.
\<close>

type_synonym dealloc_out = "int \<times> u32 list \<times> Ext2Inode \<times> mnt"

fun dealloc_loop :: "(mnt \<Rightarrow> Ext2Inode \<Rightarrow> u32 \<Rightarrow> u64 \<Rightarrow> u64 \<Rightarrow> (int \<times> bool \<times> Ext2Inode \<times> mnt) exec) \<Rightarrow> u64 \<Rightarrow> u64 \<Rightarrow> u64 \<Rightarrow>
    mnt \<Rightarrow> Ext2Inode \<Rightarrow> u64 \<Rightarrow> u32 list \<Rightarrow> (int \<times> nat \<times> u32 list \<times> Ext2Inode \<times> mnt) exec" where
  "dealloc_loop sub inc start count m inode offset [] = Inr (0, 0, [], inode, m)"
| "dealloc_loop sub inc start count m inode offset (p # ps) =
     (if offset \<ge> start + count then Inr (0, 0, p # ps, inode, m)
      else if p = 0 \<or> offset + inc \<le> start
      then bindE (dealloc_loop sub inc start count m inode (offset + inc) ps) (\<lambda>(r, n, ps, inode, m). Inr (r, n, p # ps, inode, m))
      else bindE (sub m inode p (ucast (ucast (if start > offset then start - offset else 0) :: u32)) (count - offset)) (\<lambda>(r, empty, inode, m).
        if r \<noteq> 0 then Inr (r, 0, p # ps, inode, m)
        else if \<not> empty
        then bindE (dealloc_loop sub inc start count m inode (offset + inc) ps) (\<lambda>(r, n, ps, inode, m). Inr (r, n, p # ps, inode, m))
        else bindE (ext2_block_alloc_stats (m_fs m) (ucast p) (- 1)) (\<lambda>fs.
             bindE (dealloc_loop sub inc start count (m\<lparr>m_fs := fs\<rparr>) inode (offset + inc) ps) (\<lambda>(r, n, ps, inode, m).
               Inr (r, Suc n, 0 # ps, inode, m)))))"

primrec ext2_dealloc_indirect_block :: "nat \<Rightarrow> mnt \<Rightarrow> Ext2Inode \<Rightarrow> u32 list \<Rightarrow> u64 \<Rightarrow> u64 \<Rightarrow> dealloc_out exec" where
  "ext2_dealloc_indirect_block 0 m inode ps start count =
     bindE (dealloc_loop (\<lambda>m inode p s c. Inr (0, True, inode, m)) 1 start count m inode 0 ps) (\<lambda>(r, n, ps, inode, m).
       if r \<noteq> 0 then Inr (r, ps, inode, m)
       else let (r, inode) = ext2_iblk_sub_blocks m inode (of_nat n) in Inr (r, ps, inode, m))"
| "ext2_dealloc_indirect_block (Suc level) m inode ps start count =
     bindE (dealloc_loop (\<lambda>m inode p s c.
           case ext2_read_blocks m p 1 of
             Inl err \<Rightarrow> Inr (err, False, inode, m)
           | Inr buf \<Rightarrow>
               bindE (ext2_dealloc_indirect_block level m inode (words_of buf) s c) (\<lambda>(r, ws, inode, m).
                 if r \<noteq> 0 then Inr (r, False, inode, m)
                 else let buf = concat (map le32 ws); (r, m) = ext2_write_blocks m buf p 1
                   in Inr (r, ext2_check_zero_block buf, inode, m)))
         (push_bit ((unat (s_log_block_size (f_super (m_fs m))) + 8) * Suc level) 1) start count m inode 0 ps) (\<lambda>(r, n, ps, inode, m).
       if r \<noteq> 0 then Inr (r, ps, inode, m)
       else let (r, inode) = ext2_iblk_sub_blocks m inode (of_nat n) in Inr (r, ps, inode, m))"

text \<open>The four parts of \<^verbatim>\<open>i_block\<close>, from the direct blocks to the triply indirect one.\<close>

fun dealloc_levels :: "nat list \<Rightarrow> mnt \<Rightarrow> Ext2Inode \<Rightarrow> u64 \<Rightarrow> u64 \<Rightarrow> u64 \<Rightarrow> (int \<times> Ext2Inode \<times> mnt) exec" where
  "dealloc_levels [] m inode max_n start count = Inr (0, inode, m)"
| "dealloc_levels (level # levels) m inode max_n start count =
     (let first = (if level = 0 then 0 else EXT2_NDIR_BLOCKS + level - 1); num = (if level = 0 then EXT2_NDIR_BLOCKS else 1);
          next = (if level = 0 then addr_per_block m else max_n * addr_per_block m)
      in if start < max_n
         then bindE (ext2_dealloc_indirect_block level m inode (take num (drop first (i_block inode))) start count) (\<lambda>(r, ps, inode, m).
           let inode = inode\<lparr>i_block := take first (i_block inode) @ ps @ drop (first + num) (i_block inode)\<rparr>
           in if r \<noteq> 0 then Inr (r, inode, m)
              else if count > max_n then dealloc_levels levels m inode next 0 (count - (max_n - start))
              else Inr (0, inode, m))
         else dealloc_levels levels m inode next (start - max_n) count)"

definition ext2_dealloc_indirect :: "env \<Rightarrow> mnt \<Rightarrow> Ext2Inode \<Rightarrow> u64 \<Rightarrow> u64 \<Rightarrow> (int \<times> Ext2Inode \<times> mnt) exec" where
  "ext2_dealloc_indirect e m inode start end_n =
     (if start > 0xffffffff then Inr (0, inode, m)
      else let count = (if end_n \<ge> 0xffffffff \<or> end_n - start + 1 \<ge> 0xffffffff then NOT start else end_n - start + 1)
        in if e_block_oom e then Inr (- ENOMEM, inode, m)
           else dealloc_levels [0, 1, 2, 3] m inode (of_nat EXT2_NDIR_BLOCKS) start count)"

definition ext2_dealloc_blocks :: "env \<Rightarrow> mnt \<Rightarrow> u64 \<Rightarrow> Ext2Inode \<Rightarrow> u64 \<Rightarrow> u64 \<Rightarrow> (int \<times> Ext2Inode \<times> mnt) exec" where
  "ext2_dealloc_blocks e m ino inode start end_n =
     (if start > end_n then Inr (- EINVAL, inode, m)
      else if has_flag inode EXT4_INLINE_DATA_FL then Inr (- ENOTSUP, inode, m)
      else bindE (if has_flag inode EXT4_EXTENTS_FL then x_extent_dealloc e m ino inode start end_n
                  else ext2_dealloc_indirect e m inode start end_n) (\<lambda>(r, inode, m).
        if r \<noteq> 0 then Inr (r, inode, m)
        else bindE (ext2_update_inode (e_alloc e) (e_inode_buf e) m ino (inode_bytes inode)) (\<lambda>(r, m). Inr (r, inode, m))))"

section \<open>The size of a file\<close>

definition EXT2_FT_RO_COMPAT_LARGE_FILE :: u32 where "EXT2_FT_RO_COMPAT_LARGE_FILE = 2"
definition EXT4_FT_INCOMPAT_LARGEDIR :: u32 where "EXT4_FT_INCOMPAT_LARGEDIR = 0x4000"

definition ext2_update_super_revision :: "Ext2Superblock \<Rightarrow> Ext2Superblock" where
  "ext2_update_super_revision s =
     (if s_rev_level s > 0 then s else s\<lparr>s_rev_level := 1, s_first_ino := 11, s_inode_size := 128\<rparr>)"

definition ext2_needs_large_file :: "u64 \<Rightarrow> bool" where
  "ext2_needs_large_file n \<longleftrightarrow> n \<ge> 0x80000000"

definition ext2_inode_set_size :: "mnt \<Rightarrow> Ext2Inode \<Rightarrow> u64 \<Rightarrow> int \<times> Ext2Inode \<times> mnt" where
  "ext2_inode_set_size m inode sz =
     (let fs = m_fs m; s = f_super fs;
          dirty = (\<lambda>s. fs\<lparr>f_super := if s_rev_level s = 0 then ext2_update_super_revision s else s,
                          f_flags := f_flags fs OR EXT2_FLAG_DIRTY OR EXT2_FLAG_CHANGED\<rparr>);
          inode' = inode\<lparr>i_size := ucast sz, i_size_high := ucast (drop_bit 32 sz)\<rparr>
      in if sz <s 0 then (- EINVAL, inode, m)
         else if ext2_needs_large_file sz
         then if mode_reg (i_mode inode)
              then (0, inode', if has_ro_compat s EXT2_FT_RO_COMPAT_LARGE_FILE then m
                    else m\<lparr>m_fs := dirty (s\<lparr>s_feature_ro_compat := s_feature_ro_compat s OR EXT2_FT_RO_COMPAT_LARGE_FILE\<rparr>)\<rparr>)
              else if mode_dir (i_mode inode)
              then (0, inode', if has_incompat s EXT4_FT_INCOMPAT_LARGEDIR then m
                    else m\<lparr>m_fs := dirty (s\<lparr>s_feature_incompat := s_feature_incompat s OR EXT4_FT_INCOMPAT_LARGEDIR\<rparr>)\<rparr>)
              else (- EFBIG, inode, m)
         else (0, inode', m))"

definition ext2_file_zero_remainder :: "env \<Rightarrow> mnt \<Rightarrow> Ext2File \<Rightarrow> u64 \<Rightarrow> (int \<times> Ext2File \<times> mnt) exec" where
  "ext2_file_zero_remainder e m f offset =
     (let off = unat offset mod blksize m
      in if off = 0 then Inr (0, f, m)
         else bindE (ext2_sync_file_buffer_pos e m f) (\<lambda>(r, f, m).
           if r \<noteq> 0 then Inr (r, f, m)
           else bindE (ext2_bmap e m (f_ino f) None False 0 (offset div of_nat (blksize m)) 0) (\<lambda>(r, rf, block, i, m).
             if r \<noteq> 0 then Inr (r, f, m)
             else if block = 0 \<or> rf AND BMAP_RET_UNINIT \<noteq> 0 then Inr (0, f, m)
             else if e_block_oom e then Inr (- ENOMEM, f, m)
             else case ext2_read_blocks m (ucast block) 1 of
                 Inl err \<Rightarrow> Inr (err, f, m)
               | Inr b \<Rightarrow> let (r, m) = ext2_write_blocks m (take off b @ replicate (blksize m - off) 0) (ucast block) 1 in Inr (r, f, m))))"

definition ext2_file_set_size :: "env \<Rightarrow> mnt \<Rightarrow> Ext2File \<Rightarrow> u64 \<Rightarrow> (int \<times> Ext2File \<times> mnt) exec" where
  "ext2_file_set_size e m f sz =
     (let bs = of_nat (blksize m); bits = unat (s_log_block_size (f_super (m_fs m))) + 10
      in if 0 <s sz \<and> ext2_file_block_offset_too_big m (f_inode f) ((sz - 1) div bs) then Inr (- EFBIG, f, m)
         else let truncate_block = drop_bit bits (sz + bs - 1); old_truncate = drop_bit bits (EXT2_I_SIZE (f_inode f) + bs - 1);
                  (r, inode, m) = ext2_inode_set_size m (f_inode f) sz; f = f\<lparr>f_inode := inode\<rparr>
           in if r \<noteq> 0 then Inr (r, f, m)
              else bindE (if f_ino f \<noteq> 0 then ext2_update_inode (e_alloc e) (e_inode_buf e) m (f_ino f) (inode_bytes (f_inode f)) else Inr (0, m)) (\<lambda>(r, m).
                if r \<noteq> 0 then Inr (r, f, m)
                else bindE (ext2_file_zero_remainder e m f sz) (\<lambda>(r, f, m).
                  if r \<noteq> 0 then Inr (r, f, m)
                  else if truncate_block \<ge> old_truncate then Inr (0, f, m)
                  else bindE (ext2_dealloc_blocks e m (f_ino f) (f_inode f) truncate_block (- 1)) (\<lambda>(r, inode, m).
                    Inr (r, f\<lparr>f_inode := inode\<rparr>, m)))))"

section \<open>Writing\<close>

function ext2_write_loop :: "env \<Rightarrow> mnt \<Rightarrow> Ext2File \<Rightarrow> u8 list \<Rightarrow> nat \<Rightarrow> (int \<times> nat \<times> Ext2File \<times> mnt) exec" where
  "ext2_write_loop e m f data count =
     (if data = [] then Inr (0, count, f, m)
      else if blksize m = 0 then Inl Out_Of_Bounds
      else bindE (ext2_sync_file_buffer_pos e m f) (\<lambda>(r, f, m).
        if r \<noteq> 0 then Inr (r, count, f, m)
        else if blksize m = 0 then Inl Out_Of_Bounds
        else let c = chunk m (f_pos f) (length data)
          in bindE (ext2_load_file_buffer e m f (c = blksize m)) (\<lambda>(r, f, m').
            if r \<noteq> 0 then Inr (r, count, f, m')
            else bindE (copy_in (f_buffer f) (unat (f_pos f) mod blksize m) c data) (\<lambda>buf.
              let f = f\<lparr>f_fflags := f_fflags f OR EXT2_FILE_BUFFER_DIRTY, f_buffer := buf\<rparr>
              in bindE (if f_physblock f = 0
                   then bindE (file_bmap e m' f (if f_ino f = 0 then 0 else BMAP_ALLOC) 0) (\<lambda>(r, rf, p, f, m). Inr (r, f\<lparr>f_physblock := p\<rparr>, m))
                   else Inr (0, f, m')) (\<lambda>(r, f, m').
                 if r \<noteq> 0 then Inr (r, count, f, m')
                 else ext2_write_loop e m' (f\<lparr>f_pos := f_pos f + of_nat c\<rparr>) (drop c data) (count + c))))))"
  by pat_completeness auto
termination
  by (relation "measure (\<lambda>(e, m, f, data, count). length data)") (use chunk_pos in \<open>auto split: if_splits\<close>)

declare ext2_read_loop.simps [simp del] ext2_write_loop.simps [simp del]

definition ext2_write :: "env \<Rightarrow> mnt \<Rightarrow> Ext2File \<Rightarrow> u8 list \<Rightarrow> u64 \<Rightarrow> (int \<times> Ext2File \<times> mnt) exec" where
  "ext2_write e m f data offset =
     (let f = f\<lparr>f_pos := offset\<rparr>
      in if has_flag (f_inode f) EXT4_INLINE_DATA_FL then Inr (- ENOTSUP, f, m)
         else bindE (ext2_write_loop e m f data 0) (\<lambda>(r, count, f, m).
           bindE (if count \<noteq> 0 \<and> EXT2_I_SIZE (f_inode f) < f_pos f
                  then bindE (ext2_file_set_size e m f (f_pos f)) (\<lambda>(r2, f, m). Inr (if r = 0 then r2 else r, f, m))
                  else Inr (r, f, m)) (\<lambda>(r, f, m).
           Inr (if r = 0 then int count else r, f, m))))"

end
