(* ===== verification/Ext2_File_IO.thy ===== *)
theory Ext2_File_IO
  imports Ext2_Files
begin

unbundle bit_operations_syntax

text \<open>
  Reading and writing a file through its buffer refines reading and writing an array of bytes, as long as the
  file keeps its size and has no holes.
\<close>

section \<open>Writing a data block keeps the mapping\<close>

fun walk_nodes :: "mnt \<Rightarrow> u32 \<Rightarrow> nat list \<Rightarrow> u32 list" where
  "walk_nodes m b [] = []"
| "walk_nodes m b (k # ks) = (if b = 0 then [] else b # walk_nodes m (word_at m b k) ks)"

lemma walk_same:
  assumes "\<And>x. x \<in> set (walk_nodes m b ks) \<Longrightarrow> block_bytes m' (ucast x) = block_bytes m (ucast x)"
    and "\<And>x. addr_ok m' x = addr_ok m x" and "per_block m' = per_block m"
  shows "bm_walk m' b ks = bm_walk m b ks \<and> walk_nodes m' b ks = walk_nodes m b ks \<and> walk_ok m' b ks = walk_ok m b ks"
  using assms(1)
proof (induction ks arbitrary: b)
  case (Cons k ks)
  show ?case
  proof (cases "b = 0")
    case False
    then have w: "word_at m' b k = word_at m b k" using Cons.prems [of b] by (simp add: word_at_def)
    have "bm_walk m' (word_at m b k) ks = bm_walk m (word_at m b k) ks \<and> walk_nodes m' (word_at m b k) ks = walk_nodes m (word_at m b k) ks
        \<and> walk_ok m' (word_at m b k) ks = walk_ok m (word_at m b k) ks"
      using Cons.prems False by (intro Cons.IH) simp
    then show ?thesis by (simp add: w assms(2,3))
  qed simp
qed simp

lemma block_bytes_upd_other:
  assumes "q \<noteq> p" and "length buf = blksize m"
  shows "block_bytes (disk_upd m (unat p * blksize m) buf) q = block_bytes m q"
proof -
  have "unat q < unat p \<or> unat p < unat q" using assms(1) by (metis linorder_neqE_nat unsigned_word_eqI)
  then have "(unat q + 1) * blksize m \<le> unat p * blksize m \<or> (unat p + 1) * blksize m \<le> unat q * blksize m"
    by (metis Suc_eq_plus1 Suc_leI mult_le_mono1)
  then show ?thesis
    unfolding block_bytes_def disk_upd_fields using assms(2) by (intro disk_bytes_upd_other) (simp add: algebra_simps)
qed

lemma block_bytes_upd_same:
  "length buf = blksize m \<Longrightarrow> block_bytes (disk_upd m (unat p * blksize m) buf) p = buf"
  unfolding block_bytes_def disk_upd_fields by (metis disk_bytes_upd_same)

definition nodes_of :: "mnt \<Rightarrow> Ext2Inode \<Rightarrow> nat \<Rightarrow> u32 set" where
  "nodes_of m i n = (let (s, ks) = path_of (per_block m) n in set (walk_nodes m (i_block i ! s) ks))"

lemma per_block_upd [simp]: "per_block (disk_upd m a bs) = per_block m"
  by (simp add: per_block_def)

lemma map_same:
  assumes "p \<notin> nodes_of m i n" and "length buf = blksize m" and "m' = disk_upd m (unat (ucast p :: u64) * blksize m) buf"
  shows "map_block m' i n = map_block m i n" and "nodes_of m' i n = nodes_of m i n" and "mapping_ok m' i n = mapping_ok m i n"
proof -
  obtain s ks where p: "path_of (per_block m) n = (s, ks)" by fastforce
  have "bm_walk m' (i_block i ! s) ks = bm_walk m (i_block i ! s) ks \<and> walk_nodes m' (i_block i ! s) ks = walk_nodes m (i_block i ! s) ks
      \<and> walk_ok m' (i_block i ! s) ks = walk_ok m (i_block i ! s) ks"
  proof (rule walk_same)
    fix x assume "x \<in> set (walk_nodes m (i_block i ! s) ks)"
    then have "x \<noteq> p" using assms(1) p by (auto simp: nodes_of_def)
    then have "(ucast x :: u64) \<noteq> ucast p" by (metis ucast_32_64_32)
    then show "block_bytes m' (ucast x) = block_bytes m (ucast x)" unfolding assms(3) by (rule block_bytes_upd_other) (rule assms(2))
  qed (simp_all add: assms(3))
  then show "map_block m' i n = map_block m i n" "nodes_of m' i n = nodes_of m i n" "mapping_ok m' i n = mapping_ok m i n"
    using p by (simp_all add: map_block_def nodes_of_def mapping_ok_def assms(3))
qed

section \<open>The bytes of a file\<close>

definition file_blocks :: "mnt \<Rightarrow> Ext2File \<Rightarrow> nat" where
  "file_blocks m f = (unat (EXT2_I_SIZE (f_inode f)) + blksize m - 1) div blksize m"

abbreviation blk :: "mnt \<Rightarrow> Ext2File \<Rightarrow> nat \<Rightarrow> u32" where
  "blk m f n \<equiv> map_block m (f_inode f) n"

definition valid_buf :: "Ext2File \<Rightarrow> bool" where "valid_buf f \<longleftrightarrow> f_fflags f AND EXT2_FILE_BUFFER_VALID \<noteq> 0"
definition dirty_buf :: "Ext2File \<Rightarrow> bool" where "dirty_buf f \<longleftrightarrow> f_fflags f AND EXT2_FILE_BUFFER_DIRTY \<noteq> 0"

text \<open>
  A mounted device and a file on it: every block of the file is there, once, and none of them is an index block;
  the buffer, when it is valid, stands for the block \<^verbatim>\<open>f_block\<close>.
\<close>

definition disk_file :: "mnt \<Rightarrow> Ext2File \<Rightarrow> bool" where
  "disk_file m f \<longleftrightarrow> dev_ok m \<and> 0 < blksize m \<and> per_block m \<le> 2 ^ 16 \<and> block_mapped (f_inode f) \<and>
     file_blocks m f \<le> max_blocks (per_block m) \<and> file_blocks m f < 2 ^ 32 \<and>
     (\<forall>n < file_blocks m f. mapping_ok m (f_inode f) n \<and> blk m f n \<noteq> 0 \<and> addr_ok m (ucast (blk m f n)) \<and>
        (\<forall>k < file_blocks m f. (blk m f k = blk m f n \<longrightarrow> k = n) \<and> blk m f n \<notin> nodes_of m (f_inode f) k))"

definition buffer_file :: "mnt \<Rightarrow> Ext2File \<Rightarrow> bool" where
  "buffer_file m f \<longleftrightarrow> length (f_buffer f) = blksize m \<and> (dirty_buf f \<longrightarrow> valid_buf f) \<and>
     (valid_buf f \<longrightarrow> unat (f_block f) < file_blocks m f \<and> f_physblock f = ucast (blk m f (unat (f_block f))) \<and>
        (\<not> dirty_buf f \<longrightarrow> f_buffer f = block_bytes m (f_physblock f)))"

definition file_byte :: "mnt \<Rightarrow> Ext2File \<Rightarrow> nat \<Rightarrow> u8" where
  "file_byte m f k =
     (let n = k div blksize m
      in (if valid_buf f \<and> n = unat (f_block f) then f_buffer f else block_bytes m (ucast (blk m f n))) ! (k mod blksize m))"

lemma disk_fileD:
  assumes "disk_file m f"
  shows "dev_ok m" and "0 < blksize m" and "per_block m \<le> 2 ^ 16" and "block_mapped (f_inode f)"
    and "file_blocks m f \<le> max_blocks (per_block m)" and "file_blocks m f < 2 ^ 32"
  by (insert assms, unfold disk_file_def, (elim conjE, assumption)+)

lemma disk_file_block:
  assumes "disk_file m f" and "n < file_blocks m f"
  shows "mapping_ok m (f_inode f) n" and "blk m f n \<noteq> 0" and "addr_ok m (ucast (blk m f n))"
    and "\<And>k. k < file_blocks m f \<Longrightarrow> blk m f k = blk m f n \<Longrightarrow> k = n"
    and "\<And>k. k < file_blocks m f \<Longrightarrow> blk m f n \<notin> nodes_of m (f_inode f) k"
  using assms by (auto simp: disk_file_def)

lemma write_data_block:
  assumes d: "disk_file m f" and n: "n < file_blocks m f" and buf: "length buf = blksize m"
    and m': "m' = disk_upd m (unat (ucast (blk m f n) :: u64) * blksize m) buf"
  shows "ext2_write_blocks m buf (blk m f n) 1 = (0, m')" and "disk_file m' f" and "file_blocks m' f = file_blocks m f"
    and "\<And>k. k < file_blocks m f \<Longrightarrow> blk m' f k = blk m f k"
    and "\<And>k. k < file_blocks m f \<Longrightarrow> block_bytes m' (ucast (blk m f k)) = (if k = n then buf else block_bytes m (ucast (blk m f k)))"
proof -
  note dd = disk_fileD [OF d] and db = disk_file_block [OF d n]
  show "ext2_write_blocks m buf (blk m f n) 1 = (0, m')"
    using write_block [OF dd(1) db(3) buf] by (simp add: m')
  show fb: "file_blocks m' f = file_blocks m f" by (simp add: file_blocks_def m')
  have same: "map_block m' (f_inode f) k = map_block m (f_inode f) k" "nodes_of m' (f_inode f) k = nodes_of m (f_inode f) k"
    "mapping_ok m' (f_inode f) k = mapping_ok m (f_inode f) k" if "k < file_blocks m f" for k
    using map_same [OF db(5) [OF that] buf m'] by simp_all
  then show "blk m' f k = blk m f k" if "k < file_blocks m f" for k using that by simp
  show "disk_file m' f" using d same by (simp add: disk_file_def fb) (simp add: m')
  show "block_bytes m' (ucast (blk m f k)) = (if k = n then buf else block_bytes m (ucast (blk m f k)))" if k: "k < file_blocks m f" for k
  proof (cases "k = n")
    case True
    then show ?thesis using block_bytes_upd_same [OF buf, of "ucast (blk m f n)"] by (simp add: m')
  next
    case False
    then have "blk m f k \<noteq> blk m f n" using db(4) [OF k] by blast
    then have "(ucast (blk m f k) :: u64) \<noteq> ucast (blk m f n)" by (metis ucast_32_64_32)
    from block_bytes_upd_other [OF this buf] show ?thesis using False by (simp add: m')
  qed
qed

section \<open>Flushing and loading the buffer\<close>

lemma valid_buf_bit: "valid_buf f \<longleftrightarrow> bit (f_fflags f) 13"
  using and_exp_eq_0_iff_not_bit [of "f_fflags f" 13] by (simp add: valid_buf_def EXT2_FILE_BUFFER_VALID_def)

lemma dirty_buf_bit: "dirty_buf f \<longleftrightarrow> bit (f_fflags f) 14"
  using and_exp_eq_0_iff_not_bit [of "f_fflags f" 14] by (simp add: dirty_buf_def EXT2_FILE_BUFFER_DIRTY_def)

lemma buffer_flag_bits: "bit EXT2_FILE_BUFFER_VALID n \<longleftrightarrow> n = 13" "bit EXT2_FILE_BUFFER_DIRTY n \<longleftrightarrow> n = 14"
  using bit_exp_iff [of 13 n, where 'a = u32] bit_exp_iff [of 14 n, where 'a = u32]
  by (auto simp: EXT2_FILE_BUFFER_VALID_def EXT2_FILE_BUFFER_DIRTY_def)

lemma file_flags: "f_fflags f AND (EXT2_FILE_BUFFER_VALID OR EXT2_FILE_BUFFER_DIRTY) = 0 \<longleftrightarrow> \<not> valid_buf f \<and> \<not> dirty_buf f"
  by (simp add: valid_buf_def dirty_buf_def bit.conj_disj_distrib or_eq_0_iff)

lemma flag_updates [simp]:
  "valid_buf (f\<lparr>f_fflags := f_fflags f AND NOT EXT2_FILE_BUFFER_DIRTY\<rparr>) = valid_buf f"
  "\<not> dirty_buf (f\<lparr>f_fflags := f_fflags f AND NOT EXT2_FILE_BUFFER_DIRTY\<rparr>)"
  "\<not> valid_buf (f\<lparr>f_fflags := f_fflags f AND NOT EXT2_FILE_BUFFER_VALID\<rparr>)"
  "dirty_buf (f\<lparr>f_fflags := f_fflags f AND NOT EXT2_FILE_BUFFER_VALID\<rparr>) = dirty_buf f"
  "valid_buf (f\<lparr>f_fflags := f_fflags f OR EXT2_FILE_BUFFER_VALID\<rparr>)"
  "dirty_buf (f\<lparr>f_fflags := f_fflags f OR EXT2_FILE_BUFFER_VALID\<rparr>) = dirty_buf f"
  "valid_buf (f\<lparr>f_fflags := f_fflags f OR EXT2_FILE_BUFFER_DIRTY\<rparr>) = valid_buf f"
  "dirty_buf (f\<lparr>f_fflags := f_fflags f OR EXT2_FILE_BUFFER_DIRTY\<rparr>)"
  by (simp_all add: valid_buf_bit dirty_buf_bit bit_simps buffer_flag_bits)

lemma flags_upd_other [simp]:
  "valid_buf (f\<lparr>f_pos := p\<rparr>) = valid_buf f" "dirty_buf (f\<lparr>f_pos := p\<rparr>) = dirty_buf f"
  "valid_buf (f\<lparr>f_block := b\<rparr>) = valid_buf f" "dirty_buf (f\<lparr>f_block := b\<rparr>) = dirty_buf f"
  "valid_buf (f\<lparr>f_physblock := b\<rparr>) = valid_buf f" "dirty_buf (f\<lparr>f_physblock := b\<rparr>) = dirty_buf f"
  "valid_buf (f\<lparr>f_buffer := d\<rparr>) = valid_buf f" "dirty_buf (f\<lparr>f_buffer := d\<rparr>) = dirty_buf f"
  by (simp_all add: valid_buf_def dirty_buf_def)

lemma file_blocks_inode: "f_inode f' = f_inode f \<Longrightarrow> file_blocks m f' = file_blocks m f"
  by (simp add: file_blocks_def)

lemma disk_file_inode: "f_inode f' = f_inode f \<Longrightarrow> disk_file m f' = disk_file m f"
  by (simp add: disk_file_def file_blocks_def)

text \<open>Flushing writes the buffer to its block: the buffer is clean and the bytes of the file are the same.\<close>

lemma flush_ok:
  assumes d: "disk_file m f" and b: "buffer_file m f"
  shows "\<exists>f' m'. ext2_file_flush e m f = Inr (0, f', m') \<and> disk_file m' f' \<and> buffer_file m' f' \<and> \<not> dirty_buf f'
    \<and> f_inode f' = f_inode f \<and> f_pos f' = f_pos f \<and> f_block f' = f_block f \<and> blksize m' = blksize m
    \<and> (\<forall>k < file_blocks m f. block_bytes m' (ucast (blk m' f' k)) =
          (if valid_buf f \<and> k = unat (f_block f) then f_buffer f else block_bytes m (ucast (blk m f k))))"
proof (cases "valid_buf f")
  case False
  then have "\<not> dirty_buf f" using b by (auto simp: buffer_file_def)
  then have "ext2_file_flush e m f = Inr (0, f, m)" using False by (simp add: ext2_file_flush_def file_flags)
  then show ?thesis using d b \<open>\<not> dirty_buf f\<close> False by auto
next
  case True
  define n where "n = unat (f_block f)"
  have n: "n < file_blocks m f" and phys: "f_physblock f = ucast (blk m f n)" and len: "length (f_buffer f) = blksize m"
    using b True by (simp_all add: buffer_file_def n_def)
  define m' where "m' = disk_upd m (unat (ucast (blk m f n) :: u64) * blksize m) (f_buffer f)"
  note w = write_data_block [OF d n len m'_def]
  define f' where "f' = f\<lparr>f_fflags := f_fflags f AND NOT EXT2_FILE_BUFFER_DIRTY\<rparr>"
  have inode: "f_inode f' = f_inode f" by (simp add: f'_def)
  have "(ucast (blk m f n) :: u64) \<noteq> 0" using disk_file_block(2) [OF d n] by (metis ucast_0 ucast_32_64_32)
  then have "ext2_file_flush e m f = Inr (0, f', m')"
    using True w(1) disk_fileD(4) [OF d] by (simp add: ext2_file_flush_def file_flags phys block_mapped_def f'_def)
  moreover have "disk_file m' f'" using w(2) by (simp add: disk_file_inode [OF inode])
  moreover have "buffer_file m' f'"
    using n w(3) w(4) [OF n] w(5) [OF n] len by (simp add: buffer_file_def f'_def file_blocks_def phys n_def [symmetric]) (simp add: m'_def)
  moreover have "blksize m' = blksize m" by (simp add: m'_def)
  ultimately show ?thesis using True w(4,5) by (auto simp: f'_def n_def)
qed

text \<open>The file is in order and has the bytes it had.\<close>

definition same_file :: "mnt \<Rightarrow> Ext2File \<Rightarrow> mnt \<Rightarrow> Ext2File \<Rightarrow> bool" where
  "same_file m f m' f' \<longleftrightarrow> disk_file m' f' \<and> buffer_file m' f' \<and> blksize m' = blksize m \<and> f_inode f' = f_inode f \<and>
     (\<forall>k < file_blocks m f * blksize m. file_byte m' f' k = file_byte m f k)"

lemma file_blocks_eq: "blksize m' = blksize m \<Longrightarrow> f_inode f' = f_inode f \<Longrightarrow> file_blocks m' f' = file_blocks m f"
  by (simp add: file_blocks_def)

lemma same_file_trans: "same_file m f m1 f1 \<Longrightarrow> same_file m1 f1 m2 f2 \<Longrightarrow> same_file m f m2 f2"
  by (auto simp: same_file_def file_blocks_eq [of m1 m f1 f])

lemma same_file_refl: "disk_file m f \<Longrightarrow> buffer_file m f \<Longrightarrow> same_file m f m f"
  by (simp add: same_file_def)

lemma sync_ok:
  assumes d: "disk_file m f" and b: "buffer_file m f"
  shows "\<exists>f' m'. ext2_sync_file_buffer_pos e m f = Inr (0, f', m') \<and> same_file m f m' f' \<and> f_pos f' = f_pos f
    \<and> f_block f' = f_pos f div of_nat (blksize m)"
proof (cases "f_pos f div of_nat (blksize m) = f_block f")
  case True
  moreover have "f\<lparr>f_block := f_block f\<rparr> = f" by simp
  ultimately show ?thesis using same_file_refl [OF d b] by (simp add: ext2_sync_file_buffer_pos_def)
next
  case False
  obtain f1 m1 where fl: "ext2_file_flush e m f = Inr (0, f1, m1)" and ok: "disk_file m1 f1" "buffer_file m1 f1" "\<not> dirty_buf f1"
      "f_inode f1 = f_inode f" "f_pos f1 = f_pos f" "blksize m1 = blksize m"
    and bytes: "\<And>k. k < file_blocks m f \<Longrightarrow> block_bytes m1 (ucast (blk m1 f1 k)) =
          (if valid_buf f \<and> k = unat (f_block f) then f_buffer f else block_bytes m (ucast (blk m f k)))"
    using flush_ok [OF d b, of e] by blast
  define f2 where "f2 = f1\<lparr>f_fflags := f_fflags f1 AND NOT EXT2_FILE_BUFFER_VALID, f_block := f_pos f div of_nat (blksize m)\<rparr>"
  have v: "\<not> valid_buf f2" "\<not> dirty_buf f2" using ok(3) by (simp_all add: f2_def)
  have "ext2_sync_file_buffer_pos e m f = Inr (0, f2, m1)"
    using False fl by (simp add: ext2_sync_file_buffer_pos_def f2_def)
  moreover have "disk_file m1 f2" using ok(1) disk_file_inode [of f2 f1] by (simp add: f2_def)
  moreover have "buffer_file m1 f2" using v ok(2) by (simp add: buffer_file_def) (simp add: f2_def)
  moreover have "file_byte m1 f2 k = file_byte m f k" if "k < file_blocks m f * blksize m" for k
    using bytes [OF less_mult_imp_div_less [OF that]] v ok by (simp add: file_byte_def Let_def) (auto simp: f2_def)
  ultimately show ?thesis using ok by (simp add: same_file_def f2_def)
qed

lemma load_bmap:
  assumes d: "disk_file m f" and n: "unat (f_block f) < file_blocks m f"
  shows "file_bmap e m f 0 x = Inr (0, 0, ucast (blk m f (unat (f_block f))), f, m)"
proof -
  have lt: "f_block f < 0xffffffff" using n disk_fileD(6) [OF d] by (simp add: word_less_nat_alt)
  have "f\<lparr>f_inode := f_inode f\<rparr> = f" by simp
  then show ?thesis
    using bmap_read [OF disk_fileD(1,4) [OF d] disk_file_block(1) [OF d n] disk_fileD(3) [OF d] _ lt, of e "f_ino f" x] n disk_fileD(5) [OF d]
    by (simp add: file_bmap_def)
qed

lemma load_ok:
  assumes d: "disk_file m f" and b: "buffer_file m f" and n: "unat (f_block f) < file_blocks m f"
  shows "\<exists>f'. ext2_load_file_buffer e m f False = Inr (0, f', m) \<and> same_file m f m f' \<and> f_pos f' = f_pos f \<and> f_block f' = f_block f \<and> valid_buf f'"
proof (cases "valid_buf f")
  case True
  then show ?thesis using same_file_refl [OF d b] by (auto simp: ext2_load_file_buffer_def valid_buf_def)
next
  case False
  let ?p = "ucast (blk m f (unat (f_block f))) :: u64"
  have p: "?p \<noteq> 0" using disk_file_block(2) [OF d n] by (metis ucast_0 ucast_32_64_32)
  have r: "ext2_read_blocks m (blk m f (unat (f_block f))) 1 = Inr (block_bytes m ?p)"
    using read_block [OF disk_fileD(1) [OF d] disk_file_block(3) [OF d n]] by simp
  define f' where "f' = f\<lparr>f_physblock := ?p, f_buffer := block_bytes m ?p, f_fflags := f_fflags f OR EXT2_FILE_BUFFER_VALID\<rparr>"
  have v: "valid_buf f'" "dirty_buf f' = dirty_buf f" by (simp_all add: f'_def valid_buf_bit dirty_buf_bit bit_simps buffer_flag_bits)
  have "ext2_load_file_buffer e m f False = Inr (0, f', m)"
    using False p r load_bmap [OF d n, of e] by (simp add: ext2_load_file_buffer_def valid_buf_def f'_def BMAP_RET_UNINIT_def)
  moreover have "disk_file m f'" using d disk_file_inode [of f' f] by (simp add: f'_def)
  moreover have "buffer_file m f'"
    using v False b n by (simp add: buffer_file_def) (simp add: f'_def file_blocks_def)
  moreover have "file_byte m f' k = file_byte m f k" for k
    using v False by (simp add: file_byte_def Let_def) (auto simp: f'_def)
  ultimately show ?thesis using v by (simp add: same_file_def) (simp add: f'_def)
qed

section \<open>Reading\<close>

definition file_bytes :: "mnt \<Rightarrow> Ext2File \<Rightarrow> nat \<Rightarrow> nat \<Rightarrow> u8 list" where
  "file_bytes m f a b = map (file_byte m f) [a..<b]"

lemma file_bytes_append: "a \<le> b \<Longrightarrow> b \<le> c \<Longrightarrow> file_bytes m f a b @ file_bytes m f b c = file_bytes m f a c"
  using upt_add_eq_append [of a b "c - b"] by (simp add: file_bytes_def)

lemma file_size_blocks:
  assumes "0 < blksize m" and "k < unat (EXT2_I_SIZE (f_inode f))"
  shows "k div blksize m < file_blocks m f" and "k < file_blocks m f * blksize m"
proof -
  have "k div blksize m + 1 = (k + blksize m) div blksize m" using assms(1) by (simp add: div_add_self2)
  also have "\<dots> \<le> file_blocks m f" unfolding file_blocks_def using assms by (intro div_le_mono) simp
  finally show "k div blksize m < file_blocks m f" by simp
  then show "k < file_blocks m f * blksize m" using assms(1) div_less_iff_less_mult by blast
qed

lemma buffer_piece:
  assumes "buffer_file m f" and "valid_buf f" and "pos div blksize m = unat (f_block f)" and "c \<le> blksize m - pos mod blksize m" and "0 < blksize m"
  shows "copy_out (f_buffer f) (pos mod blksize m) c = Inr (file_bytes m f pos (pos + c))"
proof -
  have len: "length (f_buffer f) = blksize m" using assms(1) by (simp add: buffer_file_def)
  have "pos mod blksize m < blksize m" using assms(5) by simp
  then have le: "pos mod blksize m + c \<le> blksize m" using assms(4) by simp
  have "take c (drop (pos mod blksize m) (f_buffer f)) = file_bytes m f pos (pos + c)"
  proof (rule nth_equalityI)
    fix j assume "j < length (take c (drop (pos mod blksize m) (f_buffer f)))"
    then have j: "j < c" by simp
    have "pos + j = pos div blksize m * blksize m + (pos mod blksize m + j)" by simp
    moreover have "pos mod blksize m + j < blksize m" using j le by simp
    ultimately have "(pos + j) div blksize m = pos div blksize m" "(pos + j) mod blksize m = pos mod blksize m + j"
      by (metis div_mult_self3 div_less add.right_neutral add.commute less_nat_zero_code mod_less mod_mult_self3)+
    then show "take c (drop (pos mod blksize m) (f_buffer f)) ! j = file_bytes m f pos (pos + c) ! j"
      using assms(2,3) j le len by (simp add: file_bytes_def file_byte_def)
  qed (simp add: file_bytes_def len min_absorb2 assms(4))
  then show ?thesis using le len by (simp add: copy_out_def)
qed

lemma file_pos [simp]:
  "disk_file m (f\<lparr>f_pos := p\<rparr>) = disk_file m f" "buffer_file m (f\<lparr>f_pos := p\<rparr>) = buffer_file m f" "file_byte m (f\<lparr>f_pos := p\<rparr>) = file_byte m f"
  "file_blocks m (f\<lparr>f_pos := p\<rparr>) = file_blocks m f"
  by (rule disk_file_inode, simp) (simp_all add: buffer_file_def file_byte_def file_blocks_def fun_eq_iff Let_def)

lemma same_file_pos: "same_file m f m' (f'\<lparr>f_pos := p\<rparr>) = same_file m f m' f'"
  by (simp add: same_file_def)

lemma same_file_bytes:
  assumes "same_file m f m' f'" and "0 < blksize m" and "b \<le> unat (EXT2_I_SIZE (f_inode f))"
  shows "file_bytes m' f' a b = file_bytes m f a b"
  using assms file_size_blocks(2) [OF assms(2), of _ f] by (auto simp: file_bytes_def same_file_def)

definition read_end :: "Ext2File \<Rightarrow> nat \<Rightarrow> nat" where
  "read_end f len = max (unat (f_pos f)) (min (unat (f_pos f) + len) (unat (EXT2_I_SIZE (f_inode f))))"

lemma unat_div_nat: "n < 2 ^ 64 \<Longrightarrow> unat (x div of_nat n) = unat x div n" for x :: u64
  by (simp add: unat_div unat_of_nat_eq)

lemma blksize_small: "blksize m < 2 ^ 64"
  using unat_lt_2p32 [of "f_blksize (m_fs m)"] by (simp add: blksize_def)

text \<open>The buffer for a position inside the file.\<close>

lemma seek_ok:
  assumes d: "disk_file m f" and b: "buffer_file m f" and pos: "unat (f_pos f) < unat (EXT2_I_SIZE (f_inode f))"
  shows "\<exists>f' m'. ext2_sync_file_buffer_pos e m f = Inr (0, f', m') \<and> same_file m f m' f' \<and> f_pos f' = f_pos f
    \<and> unat (f_block f') = unat (f_pos f) div blksize m \<and> unat (f_block f') < file_blocks m' f'"
proof -
  obtain f1 m1 where s1: "ext2_sync_file_buffer_pos e m f = Inr (0, f1, m1)" "same_file m f m1 f1" "f_pos f1 = f_pos f"
    "f_block f1 = f_pos f div of_nat (blksize m)"
    using sync_ok [OF d b] by blast
  have "unat (f_block f1) = unat (f_pos f) div blksize m" using s1(4) blksize_small by (simp add: unat_div_nat)
  moreover have "unat (f_pos f) div blksize m < file_blocks m1 f1"
    using file_size_blocks(1) [OF disk_fileD(2) [OF d] pos] s1(2) file_blocks_eq [of m1 m f1 f] by (simp add: same_file_def)
  ultimately show ?thesis using s1 by auto
qed

lemma read_loop_ok:
  assumes "disk_file m f" and "buffer_file m f"
  shows "\<exists>f' m'. ext2_read_loop e m f len acc = Inr (0, acc @ file_bytes m f (unat (f_pos f)) (read_end f len), f', m') \<and> same_file m f m' f'"
  using assms
proof (induction len arbitrary: m f acc rule: less_induct)
  case (less len)
  let ?p = "unat (f_pos f)" and ?eof = "unat (EXT2_I_SIZE (f_inode f))"
  have bs: "0 < blksize m" using disk_fileD(2) [OF less.prems(1)] .
  show ?case
  proof (cases "f_pos f < EXT2_I_SIZE (f_inode f) \<and> len > 0")
    case False
    then have "read_end f len = ?p" by (auto simp: read_end_def word_less_nat_alt)
    moreover have "ext2_read_loop e m f len acc = Inr (0, acc, f, m)" using False by (subst ext2_read_loop.simps) simp
    ultimately show ?thesis using same_file_refl [OF less.prems] by (simp add: file_bytes_def)
  next
    case True
    then have pos: "?p < ?eof" and len: "0 < len" by (simp_all add: word_less_nat_alt)
    obtain f1 m1 where s1: "ext2_sync_file_buffer_pos e m f = Inr (0, f1, m1)" "same_file m f m1 f1" "f_pos f1 = f_pos f"
      "unat (f_block f1) = ?p div blksize m" "unat (f_block f1) < file_blocks m1 f1"
      using seek_ok [OF less.prems pos] by blast
    have d1: "disk_file m1 f1" "buffer_file m1 f1" and bs1: "blksize m1 = blksize m" and i1: "f_inode f1 = f_inode f"
      using s1(2) by (simp_all add: same_file_def)
    obtain f2 where s2: "ext2_load_file_buffer e m1 f1 False = Inr (0, f2, m1)" "same_file m1 f1 m1 f2" "f_pos f2 = f_pos f1"
      "f_block f2 = f_block f1" "valid_buf f2"
      using load_ok [OF d1 s1(5)] by blast
    have sf: "same_file m f m1 f2" by (rule same_file_trans [OF s1(2) s2(2)])
    have d2: "disk_file m1 f2" "buffer_file m1 f2" and i2: "f_inode f2 = f_inode f" using sf by (simp_all add: same_file_def)
    define c where "c = min (chunk m1 (f_pos f2) len) (unat (EXT2_I_SIZE (f_inode f2) - f_pos f2))"
    have sub: "unat (EXT2_I_SIZE (f_inode f2) - f_pos f2) = ?eof - ?p"
      using pos by (simp add: i2 s2(3) s1(3) unat_sub_u64 word_le_nat_alt)
    have c: "0 < c" "c \<le> len" "c \<le> ?eof - ?p" "c \<le> blksize m1 - ?p mod blksize m1"
      unfolding c_def sub using pos len bs by (simp_all add: bs1 chunk_def s2(3) s1(3))
    have piece: "copy_out (f_buffer f2) (?p mod blksize m1) c = Inr (file_bytes m f ?p (?p + c))"
    proof -
      have "file_bytes m1 f2 ?p (?p + c) = file_bytes m f ?p (?p + c)" using c pos by (intro same_file_bytes [OF sf bs]) simp
      then show ?thesis
        using buffer_piece [OF d2(2) s2(5) _ c(4)] bs s1(4) s2(4) by (simp add: bs1)
    qed
    define f3 where "f3 = f2\<lparr>f_pos := f_pos f2 + of_nat c\<rparr>"
    have p3: "unat (f_pos f3) = ?p + c"
    proof -
      have "?p + c < 2 ^ 64" using c(3) pos unat_lt_2p64 [of "EXT2_I_SIZE (f_inode f)"] by linarith
      then show ?thesis using unat_of_nat_eq [of c, where 'a = 64] by (simp add: f3_def s2(3) s1(3) unat_add_u64)
    qed
    have c2: "min (chunk m1 (f_pos f) len) (unat (EXT2_I_SIZE (f_inode f2) - f_pos f)) = c" by (simp add: c_def s2(3) s1(3))
    have step: "ext2_read_loop e m f len acc = ext2_read_loop e m1 f3 (len - c) (acc @ file_bytes m f ?p (?p + c))"
      by (subst ext2_read_loop.simps)
        (use True bs s1(1) s2(1) piece in \<open>simp add: bs1 f3_def c2 s1(3) s2(3)\<close>)
    have "disk_file m1 f3" "buffer_file m1 f3" using d2 by (simp_all add: f3_def)
    then obtain f' m' where r: "ext2_read_loop e m1 f3 (len - c) (acc @ file_bytes m f ?p (?p + c))
        = Inr (0, (acc @ file_bytes m f ?p (?p + c)) @ file_bytes m1 f3 (?p + c) (read_end f3 (len - c)), f', m')" and sf': "same_file m1 f3 m' f'"
      using less.IH [of "len - c" m1 f3 "acc @ file_bytes m f ?p (?p + c)", unfolded p3] c len by auto
    have i3: "f_inode f3 = f_inode f" by (simp add: f3_def i2)
    have e3: "read_end f3 (len - c) = read_end f len" unfolding read_end_def p3 i3 using c pos by (auto simp: max_def min_def)
    have "file_bytes m1 f3 (?p + c) (read_end f len) = file_bytes m f (?p + c) (read_end f len)"
      using same_file_bytes [of m f m1 f3 "read_end f len" "?p + c"] sf bs pos by (simp add: f3_def same_file_pos read_end_def)
    moreover have "same_file m f m' f'" using same_file_trans [OF _ sf'] sf by (simp add: f3_def same_file_pos)
    moreover have "?p + c \<le> read_end f len" using c pos by (simp add: read_end_def)
    ultimately show ?thesis
      using step r e3 file_bytes_append [of ?p "?p + c" "read_end f len" m f] by (metis append.assoc le_add1)
  qed
qed

section \<open>Writing\<close>

text \<open>The bytes of the file after a write that stays inside it.\<close>

definition wrote :: "mnt \<Rightarrow> Ext2File \<Rightarrow> nat \<Rightarrow> u8 list \<Rightarrow> mnt \<Rightarrow> Ext2File \<Rightarrow> bool" where
  "wrote m f a data m' f' \<longleftrightarrow> disk_file m' f' \<and> buffer_file m' f' \<and> blksize m' = blksize m \<and> f_inode f' = f_inode f \<and>
     (\<forall>k < file_blocks m f * blksize m. file_byte m' f' k = (if a \<le> k \<and> k < a + length data then data ! (k - a) else file_byte m f k))"

lemma wrote_same: "same_file m f m1 f1 \<Longrightarrow> wrote m1 f1 a data m2 f2 \<Longrightarrow> wrote m f a data m2 f2"
  by (auto simp: same_file_def wrote_def file_blocks_eq [of m1 m f1 f])

lemma wrote_append:
  assumes "wrote m f a xs m1 f1" and "wrote m1 f1 (a + length xs) ys m2 f2"
  shows "wrote m f a (xs @ ys) m2 f2"
  using assms by (auto simp: wrote_def file_blocks_eq [of m1 m f1 f] nth_append)

text \<open>
  The buffer loaded for a chunk of \<open>c\<close> bytes: for a whole block its contents are not read, which does not
  matter as they are overwritten.
\<close>

lemma load_for_write:
  assumes d: "disk_file m f" and b: "buffer_file m f" and n: "unat (f_block f) < file_blocks m f"
  shows "\<exists>f'. ext2_load_file_buffer e m f nofill = Inr (0, f', m) \<and> f_pos f' = f_pos f \<and> f_block f' = f_block f \<and> f_inode f' = f_inode f
    \<and> valid_buf f' \<and> length (f_buffer f') = blksize m \<and> f_physblock f' = ucast (blk m f (unat (f_block f)))
    \<and> (\<not> nofill \<or> valid_buf f \<longrightarrow> same_file m f m f')
    \<and> (nofill \<and> \<not> valid_buf f \<longrightarrow> f_buffer f' = f_buffer f)"
proof (cases "nofill \<and> \<not> valid_buf f")
  case True
  define f' where "f' = f\<lparr>f_physblock := ucast (blk m f (unat (f_block f))), f_fflags := f_fflags f OR EXT2_FILE_BUFFER_VALID\<rparr>"
  have "ext2_load_file_buffer e m f nofill = Inr (0, f', m)"
    using True load_bmap [OF d n, of e] by (simp add: ext2_load_file_buffer_def valid_buf_def f'_def)
  moreover have "valid_buf f'" by (simp add: f'_def valid_buf_bit bit_simps buffer_flag_bits)
  ultimately show ?thesis using True b by (simp add: f'_def buffer_file_def)
next
  case False
  then have "ext2_load_file_buffer e m f nofill = ext2_load_file_buffer e m f False"
    by (cases nofill) (auto simp: ext2_load_file_buffer_def valid_buf_def)
  then obtain f' where "ext2_load_file_buffer e m f nofill = Inr (0, f', m)" and sf: "same_file m f m f'" and "f_pos f' = f_pos f"
      "f_block f' = f_block f" "valid_buf f'"
    using load_ok [OF d b n, of e] by auto
  then show ?thesis using False by (auto simp: same_file_def buffer_file_def)
qed

lemma put_chunk:
  assumes d: "disk_file m f" and n: "unat (f_block f) < file_blocks m f" and pos: "pos div blksize m = unat (f_block f)"
    and c: "c \<le> blksize m - pos mod blksize m" "c \<le> length data"
    and f1: "f_inode f1 = f_inode f" "f_block f1 = f_block f" "valid_buf f1" "length (f_buffer f1) = blksize m"
      "f_physblock f1 = ucast (blk m f (unat (f_block f)))" "c = blksize m \<or> same_file m f m f1"
    and other: "valid_buf f \<Longrightarrow> same_file m f m f1"
  shows "\<exists>buf. copy_in (f_buffer f1) (pos mod blksize m) c data = Inr buf
    \<and> wrote m f pos (take c data) m (f1\<lparr>f_fflags := f_fflags f1 OR EXT2_FILE_BUFFER_DIRTY, f_buffer := buf\<rparr>)"
proof -
  have bs: "0 < blksize m" by (rule disk_fileD(2) [OF d])
  have md: "pos mod blksize m < blksize m" using bs by simp
  then have le: "pos mod blksize m + c \<le> blksize m" using c(1) by simp
  define buf where "buf = take (pos mod blksize m) (f_buffer f1) @ take c data @ drop (pos mod blksize m + c) (f_buffer f1)"
  have cp: "copy_in (f_buffer f1) (pos mod blksize m) c data = Inr buf"
    using le c(2) f1(4) by (simp add: copy_in_def buf_def)
  have len: "length buf = blksize m" using le c(2) f1(4) by (simp add: buf_def)
  define f2 where "f2 = f1\<lparr>f_fflags := f_fflags f1 OR EXT2_FILE_BUFFER_DIRTY, f_buffer := buf\<rparr>"
  have v: "valid_buf f2" "dirty_buf f2" using f1(3) by (simp_all add: f2_def valid_buf_bit dirty_buf_bit bit_simps buffer_flag_bits)
  have fields: "f_inode f2 = f_inode f" "f_block f2 = f_block f" "f_buffer f2 = buf" "f_physblock f2 = ucast (blk m f (unat (f_block f)))"
    using f1 by (simp_all add: f2_def)
  have "file_byte m f2 k = (if pos \<le> k \<and> k < pos + c then data ! (k - pos) else file_byte m f k)" if k: "k < file_blocks m f * blksize m" for k
  proof (cases "k div blksize m = pos div blksize m")
    case True
    have kd: "k = pos div blksize m * blksize m + k mod blksize m" and pd: "pos = pos div blksize m * blksize m + pos mod blksize m"
      using True by (metis div_mult_mod_eq, simp)
    define q where "q = pos div blksize m * blksize m"
    have q: "k = q + k mod blksize m" "pos = q + pos mod blksize m" using kd pd by (simp_all add: q_def)
    have b2: "file_byte m f2 k = buf ! (k mod blksize m)" using True v fields pos by (simp add: file_byte_def)
    have inside: "(pos \<le> k \<and> k < pos + c) = (pos mod blksize m \<le> k mod blksize m \<and> k mod blksize m < pos mod blksize m + c)"
      and dist: "k - pos = k mod blksize m - pos mod blksize m" using q by linarith+
    have km: "k mod blksize m < blksize m" using bs by simp
    show ?thesis
    proof (cases "pos \<le> k \<and> k < pos + c")
      case T: True
      then show ?thesis using b2 inside dist c(2) f1(4) md by (auto simp add: buf_def nth_append min_absorb2 less_imp_le)
    next
      case F: False
      then have "same_file m f m f1" using f1(6) inside le km by auto
      then have "file_byte m f k = file_byte m f1 k" using k by (simp add: same_file_def)
      then have "file_byte m f k = f_buffer f1 ! (k mod blksize m)"
        using True f1(2,3) pos by (simp add: file_byte_def [of m f1])
      moreover have "buf ! (k mod blksize m) = f_buffer f1 ! (k mod blksize m)"
        using F inside km le c(2) f1(4) by (auto simp: buf_def nth_append)
      ultimately show ?thesis using F b2 by auto
    qed
  next
    case False
    have "\<not> (pos \<le> k \<and> k < pos + c)"
    proof
      assume "pos \<le> k \<and> k < pos + c"
      then have "k div blksize m \<ge> pos div blksize m" "k < (pos div blksize m + 1) * blksize m"
        using le div_mult_mod_eq [of pos "blksize m"] by (simp add: div_le_mono, unfold add_mult_distrib, linarith)
      then have "k div blksize m < pos div blksize m + 1" using bs by (simp add: less_mult_imp_div_less)
      then show False using False \<open>k div blksize m \<ge> pos div blksize m\<close> by simp
    qed
    moreover have "file_byte m f2 k = file_byte m f k" using False v fields pos by (simp add: file_byte_def Let_def)
    ultimately show ?thesis by auto
  qed
  moreover have "disk_file m f2" using d disk_file_inode [OF fields(1)] by simp
  moreover have "buffer_file m f2" using v fields len n file_blocks_inode [OF fields(1), of m] by (simp add: buffer_file_def)
  ultimately have "wrote m f pos (take c data) m f2" using c(2) fields(1) by (auto simp: wrote_def min_absorb2)
  then show ?thesis using cp by (auto simp: f2_def)
qed

lemma wrote_pos: "wrote m f a xs m' (f'\<lparr>f_pos := p\<rparr>) = wrote m f a xs m' f'" "wrote m (f\<lparr>f_pos := p\<rparr>) a xs m' f' = wrote m f a xs m' f'"
  by (simp_all add: wrote_def)

lemma write_loop_ok:
  assumes "disk_file m f" and "buffer_file m f" and "unat (f_pos f) + length data \<le> unat (EXT2_I_SIZE (f_inode f))"
  shows "\<exists>f' m'. ext2_write_loop e m f data count = Inr (0, count + length data, f', m') \<and> wrote m f (unat (f_pos f)) data m' f'
    \<and> unat (f_pos f') = unat (f_pos f) + length data"
  using assms
proof (induction "length data" arbitrary: m f data count rule: less_induct)
  case less
  let ?p = "unat (f_pos f)" and ?eof = "unat (EXT2_I_SIZE (f_inode f))"
  have bs: "0 < blksize m" using disk_fileD(2) [OF less.prems(1)] .
  show ?case
  proof (cases "data = []")
    case True
    then show ?thesis using less.prems by (subst ext2_write_loop.simps) (auto simp: wrote_def)
  next
    case False
    then have pos: "?p < ?eof" using less.prems(3) by (cases data) simp_all
    obtain f1 m1 where s1: "ext2_sync_file_buffer_pos e m f = Inr (0, f1, m1)" "same_file m f m1 f1" "f_pos f1 = f_pos f"
      "unat (f_block f1) = ?p div blksize m" "unat (f_block f1) < file_blocks m1 f1"
      using seek_ok [OF less.prems(1,2) pos] by blast
    have d1: "disk_file m1 f1" "buffer_file m1 f1" and bs1: "blksize m1 = blksize m" and i1: "f_inode f1 = f_inode f"
      using s1(2) by (simp_all add: same_file_def)
    define c where "c = chunk m1 (f_pos f1) (length data)"
    have c: "0 < c" "c \<le> length data" "c \<le> blksize m1 - ?p mod blksize m1"
      using False bs by (simp_all add: c_def chunk_def bs1 s1(3))
    obtain f2 where s2: "ext2_load_file_buffer e m1 f1 (c = blksize m1) = Inr (0, f2, m1)" "f_pos f2 = f_pos f1" "f_block f2 = f_block f1"
        "f_inode f2 = f_inode f1" "valid_buf f2" "length (f_buffer f2) = blksize m1" "f_physblock f2 = ucast (blk m1 f1 (unat (f_block f1)))"
        "c \<noteq> blksize m1 \<or> valid_buf f1 \<longrightarrow> same_file m1 f1 m1 f2"
      using load_for_write [OF d1 s1(5), of e "c = blksize m1"] by blast
    obtain buf where cp: "copy_in (f_buffer f2) (?p mod blksize m1) c data = Inr buf"
      and w: "wrote m1 f1 ?p (take c data) m1 (f2\<lparr>f_fflags := f_fflags f2 OR EXT2_FILE_BUFFER_DIRTY, f_buffer := buf\<rparr>)"
      using put_chunk [OF d1(1) s1(5) _ c(3,2) s2(4,3,5,6,7)] s1(4) s2(8) by (auto simp: bs1)
    define f3 where "f3 = f2\<lparr>f_fflags := f_fflags f2 OR EXT2_FILE_BUFFER_DIRTY, f_buffer := buf, f_pos := f_pos f2 + of_nat c\<rparr>"
    have p3: "unat (f_pos f3) = ?p + c"
    proof -
      have "?p + c < 2 ^ 64" using c(2) less.prems(3) unat_lt_2p64 [of "EXT2_I_SIZE (f_inode f)"] by linarith
      then show ?thesis using unat_of_nat_eq [of c, where 'a = 64] by (simp add: f3_def s2(2) s1(3) unat_add_u64)
    qed
    have i3: "f_inode f3 = f_inode f" by (simp add: f3_def s2(4) i1)
    have phys: "f_physblock f2 \<noteq> 0" using s2(7) disk_file_block(2) [OF d1(1) s1(5)] by (metis ucast_0 ucast_32_64_32)
    have step: "ext2_write_loop e m f data count = ext2_write_loop e m1 f3 (drop c data) (count + c)"
      by (subst ext2_write_loop.simps)
        (use False bs s1(1) s2(1,2) cp phys in \<open>simp add: bs1 s1(3) c_def [symmetric, unfolded s1(3)] f3_def\<close>)
    have w3: "wrote m f ?p (take c data) m1 f3"
      using wrote_same [OF s1(2) w] by (simp add: f3_def wrote_pos)
    then have d3: "disk_file m1 f3" "buffer_file m1 f3" by (simp_all add: wrote_def)
    have "length (drop c data) < length data" "unat (f_pos f3) + length (drop c data) \<le> unat (EXT2_I_SIZE (f_inode f3))"
      using c less.prems(3) by (simp_all add: p3 i3)
    from less.hyps [OF this(1) d3 this(2), of "count + c"] obtain f' m' where
      r: "ext2_write_loop e m1 f3 (drop c data) (count + c) = Inr (0, count + c + length (drop c data), f', m')"
      and w': "wrote m1 f3 (?p + c) (drop c data) m' f'" and p': "unat (f_pos f') = ?p + c + length (drop c data)"
      by (auto simp: p3)
    have "wrote m f ?p (take c data @ drop c data) m' f'"
      using wrote_append [OF w3, of "drop c data" m' f'] w' c(2) by (simp add: min_absorb2 del: append_take_drop_id)
    then show ?thesis using step r p' c(2) by simp
  qed
qed

section \<open>Results\<close>

definition file_inv :: "mnt \<Rightarrow> Ext2File \<Rightarrow> bool" where
  "file_inv m f \<longleftrightarrow> disk_file m f \<and> buffer_file m f"

lemma file_io:
  assumes inv: "file_inv m f"
  shows "\<exists>f' m'. ext2_read e m f len offset =
      Inr (int (length (file_bytes m f (unat offset) (read_end (f\<lparr>f_pos := offset\<rparr>) len))),
           file_bytes m f (unat offset) (read_end (f\<lparr>f_pos := offset\<rparr>) len), f', m')
      \<and> file_inv m' f' \<and> (\<forall>k < unat (EXT2_I_SIZE (f_inode f)). file_byte m' f' k = file_byte m f k)"
    and "unat offset + length data \<le> unat (EXT2_I_SIZE (f_inode f)) \<Longrightarrow>
      \<exists>f' m'. ext2_write e m f data offset = Inr (int (length data), f', m') \<and> file_inv m' f' \<and> f_inode f' = f_inode f
      \<and> (\<forall>k < unat (EXT2_I_SIZE (f_inode f)). file_byte m' f' k =
           (if unat offset \<le> k \<and> k < unat offset + length data then data ! (k - unat offset) else file_byte m f k))"
proof -
  define g where "g = f\<lparr>f_pos := offset\<rparr>"
  have d: "disk_file m g" "buffer_file m g" using inv by (simp_all add: file_inv_def g_def)
  have flag: "\<not> has_flag (f_inode f) EXT4_INLINE_DATA_FL" using disk_fileD(4) [OF d(1)] by (simp add: block_mapped_def g_def)
  have bs: "0 < blksize m" by (rule disk_fileD(2) [OF d(1)])
  have fb: "file_bytes m g = file_bytes m f" by (simp add: file_bytes_def fun_eq_iff g_def)
  note eof = file_size_blocks(2) [OF bs, of _ f]
  obtain f' m' where "ext2_read_loop e m g len [] = Inr (0, file_bytes m f (unat offset) (read_end g len), f', m')" and sf: "same_file m g m' f'"
    using read_loop_ok [OF d, of e len "[]"] by (auto simp: fb) (simp add: g_def)
  then have "ext2_read e m f len offset = Inr (int (length (file_bytes m f (unat offset) (read_end g len))), file_bytes m f (unat offset) (read_end g len), f', m')"
    using flag by (simp add: ext2_read_def g_def Let_def)
  then show "\<exists>f' m'. ext2_read e m f len offset =
      Inr (int (length (file_bytes m f (unat offset) (read_end (f\<lparr>f_pos := offset\<rparr>) len))),
           file_bytes m f (unat offset) (read_end (f\<lparr>f_pos := offset\<rparr>) len), f', m')
      \<and> file_inv m' f' \<and> (\<forall>k < unat (EXT2_I_SIZE (f_inode f)). file_byte m' f' k = file_byte m f k)"
    using sf eof by (auto simp: file_inv_def same_file_def g_def)
  assume le: "unat offset + length data \<le> unat (EXT2_I_SIZE (f_inode f))"
  obtain f' m' where wl: "ext2_write_loop e m g data 0 = Inr (0, length data, f', m')" and w: "wrote m g (unat offset) data m' f'"
      "unat (f_pos f') = unat offset + length data"
    using write_loop_ok [OF d, of data e 0] le by (auto simp: g_def)
  have i: "f_inode f' = f_inode f" using w(1) by (simp add: wrote_def g_def)
  have "\<not> EXT2_I_SIZE (f_inode f') < f_pos f'" using le w(2) by (simp add: i word_less_nat_alt)
  then have "ext2_write e m f data offset = Inr (int (length data), f', m')"
    using flag wl by (simp add: ext2_write_def g_def Let_def)
  then show "\<exists>f' m'. ext2_write e m f data offset = Inr (int (length data), f', m') \<and> file_inv m' f' \<and> f_inode f' = f_inode f
      \<and> (\<forall>k < unat (EXT2_I_SIZE (f_inode f)). file_byte m' f' k =
           (if unat offset \<le> k \<and> k < unat offset + length data then data ! (k - unat offset) else file_byte m f k))"
    using w(1) i eof by (auto simp: file_inv_def wrote_def g_def)
qed

text \<open>
  C38: An open file is an array of bytes, if it is block-mapped (neither extents nor inline data, \<open>block_mapped\<close>: on a
  file with extents \<^verbatim>\<open>ext3_extent_goto\<close> fails and with it the read), has no holes, no block of it occurs twice or
  is an index block, all of them lie in the first 2 GiB of a device that does not fail, and its buffer, when
  valid, stands for the block at its position. Then \<^verbatim>\<open>ext2_read\<close> copies out the bytes of the file from the
  position to the end of the request or of the file, and leaves the file as it was; \<^verbatim>\<open>ext2_write\<close> inside
  the file (not past its end) returns the number of bytes and replaces exactly them, in the buffer or on the disk. Both keep
  the invariant of the file, so the statement applies to any sequence of reads and writes.
\<close>
theorem file_io_refines_bytes:
  assumes inv: "file_inv m f" and size: "unat woff + length data \<le> unat (EXT2_I_SIZE (f_inode f))"
  shows "(\<exists>f' m'. ext2_read e m f len offset =
      Inr (int (length (file_bytes m f (unat offset) (read_end (f\<lparr>f_pos := offset\<rparr>) len))),
           file_bytes m f (unat offset) (read_end (f\<lparr>f_pos := offset\<rparr>) len), f', m')
      \<and> file_inv m' f' \<and> (\<forall>k < unat (EXT2_I_SIZE (f_inode f)). file_byte m' f' k = file_byte m f k))
    \<and> (\<exists>f' m'. ext2_write e m f data woff = Inr (int (length data), f', m') \<and> file_inv m' f' \<and> f_inode f' = f_inode f
      \<and> (\<forall>k < unat (EXT2_I_SIZE (f_inode f)). file_byte m' f' k =
           (if unat woff \<le> k \<and> k < unat woff + length data then data ! (k - unat woff) else file_byte m f k)))"
  using file_io [OF inv] size by blast

text \<open>A file of eleven bytes in block 3.\<close>

definition sample_open :: Ext2File where
  "sample_open = \<lparr>f_inode = sample_file_inode, f_ino = 6, f_pos = 0, f_block = 0, f_physblock = 0, f_fflags = 0, f_buffer = replicate 1024 0\<rparr>"

lemma sample_open_inv: "file_inv sample_map_mnt sample_open"
proof -
  have sz: "EXT2_I_SIZE sample_file_inode = 11" and b: "i_block sample_file_inode ! 0 = 3"
    by (simp_all add: EXT2_I_SIZE_def sample_file_inode_def sample_ext2_inode_def inode_of_def un32_def)
  then have n: "file_blocks sample_map_mnt sample_open = 1"
    by (simp add: file_blocks_def sample_open_def sample_map_dims)
  have p: "path_of 256 0 = (0, [])" by (simp add: path_of_def)
  have "addr_ok sample_map_mnt 3" by (simp add: addr_ok_def sample_map_dims)
  then have "disk_file sample_map_mnt sample_open"
    unfolding disk_file_def n
    using sample_map_dims sample_file_mapped b
    by (simp add: sample_open_def mapping_ok_def map_block_def nodes_of_def p max_blocks_def)
  moreover have "buffer_file sample_map_mnt sample_open"
    by (simp add: buffer_file_def valid_buf_def dirty_buf_def sample_open_def sample_map_dims)
  ultimately show ?thesis by (simp add: file_inv_def)
qed

theorem file_io_refines_bytes_witness:
  "\<exists>f' m'. ext2_write sample_env sample_map_mnt sample_open [1, 2, 3] 4 = Inr (3, f', m') \<and> file_inv m' f'
     \<and> file_byte m' f' 5 = 2 \<and> file_byte m' f' 9 = file_byte sample_map_mnt sample_open 9"
proof -
  have sz: "EXT2_I_SIZE (f_inode sample_open) = 11"
    by (simp add: EXT2_I_SIZE_def sample_open_def sample_file_inode_def sample_ext2_inode_def inode_of_def un32_def)
  show ?thesis
    using file_io_refines_bytes [OF sample_open_inv, of 4 "[1, 2, 3]" sample_env 0 0] by (fastforce simp: sz)
qed

end
