(* ===== verification/Ext2_Iterate.thy ===== *)
theory Ext2_Iterate
  imports Ext2_Files
begin

unbundle bit_operations_syntax

text \<open>
  Iteration over the blocks of an inode: \<^verbatim>\<open>ext2_block_iterate\<close> of \<^verbatim>\<open>fs/ext2/util.c\<close> with its three functions for
  indirect blocks. The callback is an argument; it gets the filesystem, its private data, the block, the
  block count and the place of the block number, and returns flags and a new block number.

  The three index blocks on the way to a block lie side by side in one buffer of three blocks, as in the
  code. The functions for indirect blocks get a pointer to a block number, which is a cell of this buffer
  or a slot of \<^verbatim>\<open>i_block\<close>: \<open>loc\<close>. The functions on extent trees (\<^verbatim>\<open>fs/ext2/extent.c\<close>)
  are an argument; they also give the state \<open>'h\<close> of a handle. A loop that depends on them has fuel.
\<close>

section \<open>Values at an offset of a buffer\<close>

definition rd16 :: "u8 list \<Rightarrow> nat \<Rightarrow> u16 exec" where
  "rd16 b k = (if k + 2 \<le> length b then Inr (un16 (drop k b)) else Inl Out_Of_Bounds)"

definition rd32 :: "u8 list \<Rightarrow> nat \<Rightarrow> u32 exec" where
  "rd32 b k = (if k + 4 \<le> length b then Inr (un32 (drop k b)) else Inl Out_Of_Bounds)"

definition wr16 :: "u8 list \<Rightarrow> nat \<Rightarrow> u16 \<Rightarrow> u8 list exec" where
  "wr16 b k v = (if k + 2 \<le> length b then Inr (take k b @ le16 v @ drop (k + 2) b) else Inl Out_Of_Bounds)"

definition wr32 :: "u8 list \<Rightarrow> nat \<Rightarrow> u32 \<Rightarrow> u8 list exec" where
  "wr32 b k v = (if k + 4 \<le> length b then Inr (take k b @ le32 v @ drop (k + 4) b) else Inl Out_Of_Bounds)"

section \<open>The context\<close>

definition BLOCK_CHANGED :: u32 where "BLOCK_CHANGED = 1"
definition BLOCK_ABORT :: u32 where "BLOCK_ABORT = 2"
definition BLOCK_ERROR :: u32 where "BLOCK_ERROR = 4"
definition BLOCK_FLAG_APPEND :: u32 where "BLOCK_FLAG_APPEND = 1"
definition BLOCK_FLAG_DEPTH_TRAVERSE :: u32 where "BLOCK_FLAG_DEPTH_TRAVERSE = 2"
definition BLOCK_FLAG_DATA_ONLY :: u32 where "BLOCK_FLAG_DATA_ONLY = 4"
definition BLOCK_FLAG_READ_ONLY :: u32 where "BLOCK_FLAG_READ_ONLY = 8"
definition BLOCK_FLAG_NO_LARGE :: u32 where "BLOCK_FLAG_NO_LARGE = 16"
definition EXT2_OS_HURD :: u32 where "EXT2_OS_HURD = 1"

type_synonym 'p block_fn = "mnt \<Rightarrow> 'p \<Rightarrow> u64 \<Rightarrow> int \<Rightarrow> u32 \<Rightarrow> nat \<Rightarrow> (u32 \<times> u64 \<times> mnt \<times> 'p) exec"

record 'p Ext2BlockContext =
  b_inode :: Ext2Inode
  b_buf :: "u8 list"
  b_blkcnt :: int
  b_err :: int
  b_mnt :: mnt
  b_private :: 'p

datatype loc = Slot nat | Cell nat

definition get_loc :: "'p Ext2BlockContext \<Rightarrow> loc \<Rightarrow> u32 exec" where
  "get_loc ctx l = (case l of
       Slot s \<Rightarrow> if s < length (i_block (b_inode ctx)) then Inr (i_block (b_inode ctx) ! s) else Inl Out_Of_Bounds
     | Cell k \<Rightarrow> rd32 (b_buf ctx) k)"

definition put_loc :: "'p Ext2BlockContext \<Rightarrow> loc \<Rightarrow> u32 \<Rightarrow> 'p Ext2BlockContext exec" where
  "put_loc ctx l v = (case l of
       Slot s \<Rightarrow> if s < length (i_block (b_inode ctx))
         then Inr (ctx\<lparr>b_inode := (b_inode ctx)\<lparr>i_block := (i_block (b_inode ctx))[s := v]\<rparr>\<rparr>) else Inl Out_Of_Bounds
     | Cell k \<Rightarrow> bindE (wr32 (b_buf ctx) k v) (\<lambda>b. Inr (ctx\<lparr>b_buf := b\<rparr>)))"

text \<open>One call of the callback on the block number at \<open>l\<close>, which is replaced by the one the callback leaves.\<close>

definition visit :: "'p block_fn \<Rightarrow> 'p Ext2BlockContext \<Rightarrow> loc \<Rightarrow> int \<Rightarrow> u32 \<Rightarrow> nat \<Rightarrow> (u32 \<times> 'p Ext2BlockContext) exec" where
  "visit f ctx l cnt refb refo =
     bindE (get_loc ctx l) (\<lambda>b.
     bindE (f (b_mnt ctx) (b_private ctx) (ucast b) cnt refb refo) (\<lambda>(r, b', m, p).
     bindE (put_loc (ctx\<lparr>b_mnt := m, b_private := p\<rparr>) l (ucast b')) (\<lambda>ctx. Inr (r, ctx))))"

section \<open>Indirect blocks\<close>

type_synonym 'p loop_out = "u32 \<times> u32 \<times> 'p Ext2BlockContext"

text \<open>
  The loop over the block numbers in an indirect block: \<open>n\<close> rounds are left, the next number is at \<open>k\<close>. The result is the
  union of the flags and the flags to return.
\<close>

fun ind_loop :: "'p block_fn \<Rightarrow> u32 \<Rightarrow> loc \<Rightarrow> nat \<Rightarrow> nat \<Rightarrow> nat \<Rightarrow> u32 \<Rightarrow> u32 \<Rightarrow> 'p Ext2BlockContext \<Rightarrow> 'p loop_out exec" where
  "ind_loop f flags l 0 k offset changed ret ctx = Inr (changed, ret, ctx)"
| "ind_loop f flags l (Suc n) k offset changed ret ctx =
     bindE (rd32 (b_buf ctx) k) (\<lambda>w.
       if flags AND BLOCK_FLAG_APPEND = 0 \<and> w = 0
       then ind_loop f flags l n (k + 4) (offset + 4) changed ret (ctx\<lparr>b_blkcnt := b_blkcnt ctx + 1\<rparr>)
       else bindE (get_loc ctx l) (\<lambda>refb.
            bindE (visit f ctx (Cell k) (b_blkcnt ctx) refb offset) (\<lambda>(fl, ctx).
              if fl AND BLOCK_ABORT \<noteq> 0 then Inr (changed OR fl, ret OR BLOCK_ABORT, ctx)
              else ind_loop f flags l n (k + 4) (offset + 4) (changed OR fl) ret (ctx\<lparr>b_blkcnt := b_blkcnt ctx + 1\<rparr>))))"

text \<open>The loop over the index blocks in a doubly or triply indirect block; \<open>inner\<close> handles one of them.\<close>

fun node_loop :: "(loc \<Rightarrow> u32 \<Rightarrow> nat \<Rightarrow> 'p Ext2BlockContext \<Rightarrow> (u32 \<times> 'p Ext2BlockContext) exec) \<Rightarrow> int \<Rightarrow> u32 \<Rightarrow> loc \<Rightarrow>
    nat \<Rightarrow> nat \<Rightarrow> nat \<Rightarrow> u32 \<Rightarrow> u32 \<Rightarrow> 'p Ext2BlockContext \<Rightarrow> 'p loop_out exec" where
  "node_loop inner limit flags l 0 k offset changed ret ctx = Inr (changed, ret, ctx)"
| "node_loop inner limit flags l (Suc n) k offset changed ret ctx =
     bindE (rd32 (b_buf ctx) k) (\<lambda>w.
       if flags AND BLOCK_FLAG_APPEND = 0 \<and> w = 0
       then node_loop inner limit flags l n (k + 4) offset changed ret (ctx\<lparr>b_blkcnt := b_blkcnt ctx + limit + 1\<rparr>)
       else bindE (get_loc ctx l) (\<lambda>refb.
            bindE (inner (Cell k) refb offset ctx) (\<lambda>(fl, ctx).
              if fl AND (BLOCK_ABORT OR BLOCK_ERROR) \<noteq> 0
              then Inr (changed OR fl, ret OR (fl AND (BLOCK_ABORT OR BLOCK_ERROR)), ctx)
              else node_loop inner limit flags l n (k + 4) (offset + 4) (changed OR fl) ret (ctx\<lparr>b_blkcnt := b_blkcnt ctx + 1\<rparr>))))"

definition read_only_violated :: "u32 \<Rightarrow> u32 \<Rightarrow> bool" where
  "read_only_violated flags ret \<longleftrightarrow> flags AND BLOCK_FLAG_READ_ONLY \<noteq> 0 \<and> ret AND BLOCK_CHANGED \<noteq> 0"

definition refuse :: "u32 \<Rightarrow> 'p Ext2BlockContext \<Rightarrow> (u32 \<times> 'p Ext2BlockContext) exec" where
  "refuse ret ctx = Inr (ret OR BLOCK_ABORT OR BLOCK_ERROR, ctx\<lparr>b_err := - EROFS\<rparr>)"

text \<open>
  What the three functions for index blocks share: \<open>cnt\<close> is the count the callback gets for the index block itself,
  \<open>skip\<close> what is added to the block count when there is no block, \<open>base\<close> the place of the block in the buffer.
\<close>

definition iterate_node :: "'p block_fn \<Rightarrow> u32 \<Rightarrow> int \<Rightarrow> int \<Rightarrow> nat \<Rightarrow>
    (u32 \<Rightarrow> 'p Ext2BlockContext \<Rightarrow> 'p loop_out exec) \<Rightarrow> loc \<Rightarrow> u32 \<Rightarrow> nat \<Rightarrow> 'p Ext2BlockContext \<Rightarrow> (u32 \<times> 'p Ext2BlockContext) exec" where
  "iterate_node f flags cnt skip base loop l refb refo ctx =
     bindE (if flags AND BLOCK_FLAG_DEPTH_TRAVERSE = 0 \<and> flags AND BLOCK_FLAG_DATA_ONLY = 0 then visit f ctx l cnt refb refo
            else Inr (0, ctx)) (\<lambda>(ret, ctx).
     if read_only_violated flags ret then refuse ret ctx
     else bindE (get_loc ctx l) (\<lambda>b.
       if b = 0 \<or> ret AND BLOCK_ABORT \<noteq> 0 then Inr (ret, ctx\<lparr>b_blkcnt := b_blkcnt ctx + skip\<rparr>)
       else if ucast b \<ge> ext2_blocks_count (f_super (m_fs (b_mnt ctx))) \<or> b < s_first_data_block (f_super (m_fs (b_mnt ctx)))
       then Inr (ret OR BLOCK_ERROR, ctx\<lparr>b_err := - EINVAL\<rparr>)
       else case ext2_read_blocks (b_mnt ctx) b 1 of
           Inl err \<Rightarrow> Inr (ret OR BLOCK_ERROR, ctx\<lparr>b_err := err\<rparr>)
         | Inr bytes \<Rightarrow>
             bindE (copy_in (b_buf ctx) base (length bytes) bytes) (\<lambda>buf.
             bindE (loop ret (ctx\<lparr>b_buf := buf, b_err := 0\<rparr>)) (\<lambda>(changed, ret, ctx).
               if read_only_violated flags changed then refuse changed ctx
               else bindE (if changed AND BLOCK_CHANGED \<noteq> 0
                      then bindE (get_loc ctx l) (\<lambda>b. bindE (copy_out (b_buf ctx) base (blksize (b_mnt ctx))) (\<lambda>bytes.
                        let (r, m) = ext2_write_blocks (b_mnt ctx) bytes b 1
                        in Inr (if r \<noteq> 0 then ret OR BLOCK_ERROR OR BLOCK_ABORT else ret, ctx\<lparr>b_err := r, b_mnt := m\<rparr>)))
                      else Inr (ret, ctx)) (\<lambda>(ret, ctx).
                    bindE (if flags AND BLOCK_FLAG_DEPTH_TRAVERSE \<noteq> 0 \<and> flags AND BLOCK_FLAG_DATA_ONLY = 0 \<and> ret AND BLOCK_ABORT = 0
                      then bindE (visit f ctx l cnt refb refo) (\<lambda>(r, ctx). Inr (ret OR r, ctx))
                      else Inr (ret, ctx)) (\<lambda>(ret, ctx).
                    if read_only_violated flags ret then refuse ret ctx else Inr (ret, ctx)))))))"

text \<open>The bound of the loops is the size of a block in bytes and not in block numbers.\<close>

definition ext2_block_iterate_ind :: "'p block_fn \<Rightarrow> u32 \<Rightarrow> nat \<Rightarrow> loc \<Rightarrow> u32 \<Rightarrow> nat \<Rightarrow> 'p Ext2BlockContext \<Rightarrow> (u32 \<times> 'p Ext2BlockContext) exec" where
  "ext2_block_iterate_ind f flags limit l =
     iterate_node f flags (- 1) (int limit) 0 (\<lambda>ret. ind_loop f flags l limit 0 0 0 ret) l"

definition ext2_block_iterate_dind :: "'p block_fn \<Rightarrow> u32 \<Rightarrow> nat \<Rightarrow> loc \<Rightarrow> u32 \<Rightarrow> nat \<Rightarrow> 'p Ext2BlockContext \<Rightarrow> (u32 \<times> 'p Ext2BlockContext) exec" where
  "ext2_block_iterate_dind f flags limit l =
     iterate_node f flags (- 2) (int limit * int limit) limit
       (\<lambda>ret. node_loop (ext2_block_iterate_ind f flags limit) (int limit) flags l limit limit 0 0 ret) l"

definition ext2_block_iterate_tind :: "'p block_fn \<Rightarrow> u32 \<Rightarrow> nat \<Rightarrow> loc \<Rightarrow> u32 \<Rightarrow> nat \<Rightarrow> 'p Ext2BlockContext \<Rightarrow> (u32 \<times> 'p Ext2BlockContext) exec" where
  "ext2_block_iterate_tind f flags limit l =
     iterate_node f flags (- 3) (int limit * int limit * int limit) (2 * limit)
       (\<lambda>ret. node_loop (ext2_block_iterate_dind f flags limit) (int limit) flags l limit (2 * limit) 0 0 ret) l"

section \<open>All blocks of an inode\<close>

text \<open>The loop over the direct blocks; \<open>True\<close> in the result when the callback ended the iteration.\<close>

fun direct_loop :: "'p block_fn \<Rightarrow> u32 \<Rightarrow> nat \<Rightarrow> nat \<Rightarrow> u32 \<Rightarrow> 'p Ext2BlockContext \<Rightarrow> (bool \<times> u32 \<times> 'p Ext2BlockContext) exec" where
  "direct_loop f flags 0 i ret ctx = Inr (False, ret, ctx)"
| "direct_loop f flags (Suc n) i ret ctx =
     bindE (get_loc ctx (Slot i)) (\<lambda>b.
       if b \<noteq> 0 \<or> flags AND BLOCK_FLAG_APPEND \<noteq> 0
       then bindE (visit f ctx (Slot i) (b_blkcnt ctx) 0 i) (\<lambda>(r, ctx).
         if (ret OR r) AND BLOCK_ABORT \<noteq> 0 then Inr (True, ret OR r, ctx)
         else direct_loop f flags n (i + 1) (ret OR r) (ctx\<lparr>b_blkcnt := b_blkcnt ctx + 1\<rparr>))
       else direct_loop f flags n (i + 1) ret (ctx\<lparr>b_blkcnt := b_blkcnt ctx + 1\<rparr>))"

text \<open>One of the index blocks of the inode, unless the iteration has ended.\<close>

definition index_step :: "(loc \<Rightarrow> u32 \<Rightarrow> nat \<Rightarrow> 'p Ext2BlockContext \<Rightarrow> (u32 \<times> 'p Ext2BlockContext) exec) \<Rightarrow> u32 \<Rightarrow> nat \<Rightarrow> int \<Rightarrow>
    bool \<times> u32 \<times> 'p Ext2BlockContext \<Rightarrow> (bool \<times> u32 \<times> 'p Ext2BlockContext) exec" where
  "index_step node flags slot skip = (\<lambda>(ended, ret, ctx).
     if ended then Inr (True, ret, ctx)
     else bindE (get_loc ctx (Slot slot)) (\<lambda>b.
       if b \<noteq> 0 \<or> flags AND BLOCK_FLAG_APPEND \<noteq> 0
       then bindE (node (Slot slot) 0 slot ctx) (\<lambda>(r, ctx). Inr ((ret OR r) AND BLOCK_ABORT \<noteq> 0, ret OR r, ctx))
       else Inr (False, ret, ctx\<lparr>b_blkcnt := b_blkcnt ctx + skip\<rparr>)))"

text \<open>The translator block that the Hurd keeps in its inodes.\<close>

definition translator_step :: "'p block_fn \<Rightarrow> u32 \<Rightarrow> 'p Ext2BlockContext \<Rightarrow> (bool \<times> u32 \<times> 'p Ext2BlockContext) exec" where
  "translator_step f flags ctx =
     (if s_creator_os (f_super (m_fs (b_mnt ctx))) = EXT2_OS_HURD \<and> flags AND BLOCK_FLAG_DATA_ONLY = 0 \<and> i_osd1 (b_inode ctx) \<noteq> 0
      then bindE (f (b_mnt ctx) (b_private ctx) (ucast (i_osd1 (b_inode ctx))) (- 4) 0 0) (\<lambda>(r, b, m, p).
        let ctx = ctx\<lparr>b_inode := (b_inode ctx)\<lparr>i_osd1 := ucast b\<rparr>, b_mnt := m, b_private := p\<rparr>
        in if r AND BLOCK_ABORT \<noteq> 0 then Inr (True, r, ctx)
           else if read_only_violated flags r then bindE (refuse r ctx) (\<lambda>(r, ctx). Inr (True, r, ctx))
           else Inr (False, r, ctx))
      else Inr (False, 0, ctx))"

definition map_steps :: "'p block_fn \<Rightarrow> u32 \<Rightarrow> bool \<times> u32 \<times> 'p Ext2BlockContext \<Rightarrow> (bool \<times> u32 \<times> 'p Ext2BlockContext) exec" where
  "map_steps f flags = (\<lambda>(ended, ret, ctx).
     let bs = blksize (b_mnt ctx); limit = int (bs div 4)
     in if ended then Inr (True, ret, ctx)
        else bindE (direct_loop f flags EXT2_NDIR_BLOCKS 0 ret ctx) (\<lambda>(ended, ret, ctx).
          bindE (if \<not> ended \<and> read_only_violated flags ret then bindE (refuse ret ctx) (\<lambda>(r, ctx). Inr (True, r, ctx))
                 else Inr (ended, ret, ctx)) (\<lambda>s.
          bindE (index_step (ext2_block_iterate_ind f flags bs) flags EXT2_IND_BLOCK limit s) (\<lambda>s.
          bindE (index_step (ext2_block_iterate_dind f flags bs) flags EXT2_DIND_BLOCK (limit * limit) s) (\<lambda>s.
          index_step (ext2_block_iterate_tind f flags bs) flags EXT2_TIND_BLOCK 0 s)))))"

text \<open>
  The end of the iteration: an inode whose block numbers changed is written back, and the result is the error of
  the context when the error flag is set. \<^verbatim>\<open>b_err\<close> is not initialised in the code; no callback returns the error
  flag, so its value is not read before it is set.
\<close>

definition end_iterate :: "env \<Rightarrow> u64 \<Rightarrow> u32 \<Rightarrow> 'p Ext2BlockContext \<Rightarrow> (int \<times> 'p Ext2BlockContext) exec" where
  "end_iterate e ino ret ctx =
     bindE (if ret AND BLOCK_CHANGED \<noteq> 0
            then bindE (ext2_update_inode (e_alloc e) (e_inode_buf e) (b_mnt ctx) ino (inode_bytes (b_inode ctx))) (\<lambda>(r, m).
              let ctx = ctx\<lparr>b_mnt := m\<rparr>; ret = word_of_int r :: u32
              in if r \<noteq> 0 then Inr (ret OR BLOCK_ERROR, ctx\<lparr>b_err := sint (ret OR BLOCK_ERROR)\<rparr>) else Inr (0, ctx))
            else Inr (ret, ctx)) (\<lambda>(ret, ctx).
     Inr (if ret AND BLOCK_ERROR \<noteq> 0 then b_err ctx else 0, ctx))"

section \<open>Blocks mapped by extents\<close>

definition EXT2_EXTENT_FLAGS_LEAF :: u32 where "EXT2_EXTENT_FLAGS_LEAF = 1"
definition EXT2_EXTENT_FLAGS_UNINIT :: u32 where "EXT2_EXTENT_FLAGS_UNINIT = 2"
definition EXT2_EXTENT_FLAGS_SECOND_VISIT :: u32 where "EXT2_EXTENT_FLAGS_SECOND_VISIT = 4"

record Ext3GenericExtent =
  e_pblk :: u64
  e_lblk :: u64
  e_len :: u32
  e_flags :: u32

datatype extent_op = Extent_Current | Extent_Root | Extent_Last_Leaf | Extent_First_Sib | Extent_Last_Sib | Extent_Next_Sib | Extent_Prev_Sib
  | Extent_Next_Leaf | Extent_Prev_Leaf | Extent_Next | Extent_Prev | Extent_Up | Extent_Down | Extent_Down_Last

record 'h ext_ops =
  xo_open :: "mnt \<Rightarrow> u64 \<Rightarrow> Ext2Inode \<Rightarrow> ((int + 'h) \<times> Ext2Inode \<times> mnt) exec"
  xo_get :: "mnt \<Rightarrow> Ext2Inode \<Rightarrow> extent_op \<Rightarrow> 'h \<Rightarrow> ((int + Ext3GenericExtent) \<times> 'h \<times> mnt) exec"
  xo_set_bmap :: "mnt \<Rightarrow> Ext2Inode \<Rightarrow> int \<Rightarrow> u64 \<Rightarrow> u32 \<Rightarrow> 'h \<Rightarrow> (int \<times> 'h \<times> Ext2Inode \<times> mnt) exec"
  xo_replace :: "mnt \<Rightarrow> Ext2Inode \<Rightarrow> Ext3GenericExtent \<Rightarrow> 'h \<Rightarrow> (int \<times> 'h \<times> Ext2Inode \<times> mnt) exec"

text \<open>
  The outcome of a part of the loop: go on, leave through \<^verbatim>\<open>err\<close> (the inode may be written back) or through \<^verbatim>\<open>done\<close>
  (the result is the error of the context).
\<close>

datatype ext_exit = Go_On | Leave_Err | Leave_Done

definition call_back :: "'p block_fn \<Rightarrow> 'p Ext2BlockContext \<Rightarrow> u64 \<Rightarrow> int \<Rightarrow> (u32 \<times> u64 \<times> 'p Ext2BlockContext) exec" where
  "call_back f ctx block cnt =
     bindE (f (b_mnt ctx) (b_private ctx) block cnt 0 0) (\<lambda>(r, b, m, p). Inr (r, b, ctx\<lparr>b_mnt := m, b_private := p\<rparr>))"

definition set_bmap :: "'h ext_ops \<Rightarrow> 'h \<Rightarrow> int \<Rightarrow> u64 \<Rightarrow> u32 \<Rightarrow> 'p Ext2BlockContext \<Rightarrow> ('h \<times> 'p Ext2BlockContext) exec" where
  "set_bmap xo h cnt block uninit ctx =
     bindE (xo_set_bmap xo (b_mnt ctx) (b_inode ctx) cnt block uninit h) (\<lambda>(r, h, i, m).
     Inr (h, ctx\<lparr>b_err := r, b_inode := i, b_mnt := m\<rparr>))"

text \<open>The blocks of a new extent after the last one, when appending is allowed.\<close>

fun append_loop :: "nat \<Rightarrow> 'h ext_ops \<Rightarrow> 'p block_fn \<Rightarrow> u32 \<Rightarrow> int \<Rightarrow> u32 \<Rightarrow> 'h \<Rightarrow> 'p Ext2BlockContext \<Rightarrow> (ext_exit \<times> u32 \<times> 'p Ext2BlockContext) exec" where
  "append_loop 0 xo f flags cnt ret h ctx = Inl Endless"
| "append_loop (Suc fuel) xo f flags cnt ret h ctx =
     bindE (call_back f ctx 0 cnt) (\<lambda>(r, block, ctx).
       if read_only_violated flags (ret OR r) then bindE (refuse (ret OR r) ctx) (\<lambda>(ret, ctx). Inr (Leave_Err, ret, ctx))
       else if r AND BLOCK_CHANGED = 0 then Inr (Leave_Done, ret OR r, ctx)
       else bindE (set_bmap xo h cnt block 0 ctx) (\<lambda>(h, ctx).
         if b_err ctx \<noteq> 0 \<or> (ret OR r) AND BLOCK_ABORT \<noteq> 0 \<or> block = 0 then Inr (Leave_Done, ret OR r, ctx)
         else append_loop fuel xo f flags (cnt + 1) (ret OR r) h ctx))"

text \<open>The blocks of one extent; \<open>n\<close> are left, the next one is \<open>block\<close>.\<close>

fun extent_loop :: "'h ext_ops \<Rightarrow> 'p block_fn \<Rightarrow> u32 \<Rightarrow> u32 \<Rightarrow> nat \<Rightarrow> u64 \<Rightarrow> int \<Rightarrow> u32 \<Rightarrow> 'h \<Rightarrow> 'p Ext2BlockContext \<Rightarrow>
    (ext_exit \<times> int \<times> u32 \<times> 'h \<times> 'p Ext2BlockContext) exec" where
  "extent_loop xo f flags uninit 0 block cnt ret h ctx = Inr (Go_On, cnt, ret, h, ctx)"
| "extent_loop xo f flags uninit (Suc n) block cnt ret h ctx =
     bindE (call_back f ctx block cnt) (\<lambda>(r, new_block, ctx).
       if read_only_violated flags (ret OR r) then bindE (refuse (ret OR r) ctx) (\<lambda>(ret, ctx). Inr (Leave_Err, cnt, ret, h, ctx))
       else bindE (if r AND BLOCK_CHANGED \<noteq> 0 then set_bmap xo h cnt new_block uninit ctx else Inr (h, ctx)) (\<lambda>(h, ctx).
         if r AND BLOCK_CHANGED \<noteq> 0 \<and> b_err ctx \<noteq> 0 \<or> (ret OR r) AND BLOCK_ABORT \<noteq> 0 then Inr (Leave_Done, cnt, ret OR r, h, ctx)
         else extent_loop xo f flags uninit n (block + 1) (cnt + 1) (ret OR r) h ctx))"

text \<open>An index block of the tree: it is shown to the callback before or after the blocks below it.\<close>

definition index_extent :: "'h ext_ops \<Rightarrow> 'p block_fn \<Rightarrow> u32 \<Rightarrow> Ext3GenericExtent \<Rightarrow> u32 \<Rightarrow> 'h \<Rightarrow> 'p Ext2BlockContext \<Rightarrow>
    (ext_exit \<times> u32 \<times> 'h \<times> 'p Ext2BlockContext) exec" where
  "index_extent xo f flags ex ret h ctx =
     (if flags AND BLOCK_FLAG_DATA_ONLY \<noteq> 0
         \<or> (e_flags ex AND EXT2_EXTENT_FLAGS_SECOND_VISIT = 0) = (flags AND BLOCK_FLAG_DEPTH_TRAVERSE \<noteq> 0)
      then Inr (Go_On, ret, h, ctx)
      else bindE (call_back f ctx (e_pblk ex) (- 1)) (\<lambda>(r, block, ctx).
        bindE (if (ret OR r) AND BLOCK_CHANGED \<noteq> 0
               then bindE (xo_replace xo (b_mnt ctx) (b_inode ctx) (ex\<lparr>e_pblk := block\<rparr>) h) (\<lambda>(err, h, i, m).
                 Inr (h, ctx\<lparr>b_err := err, b_inode := i, b_mnt := m\<rparr>))
               else Inr (h, ctx)) (\<lambda>(h, ctx).
        Inr (if (ret OR r) AND BLOCK_CHANGED \<noteq> 0 \<and> b_err ctx \<noteq> 0 \<or> (ret OR r) AND BLOCK_ABORT \<noteq> 0 then Leave_Done else Go_On, ret OR r, h, ctx))))"

fun extents_loop :: "nat \<Rightarrow> 'h ext_ops \<Rightarrow> 'p block_fn \<Rightarrow> u32 \<Rightarrow> extent_op \<Rightarrow> Ext3GenericExtent \<Rightarrow> int \<Rightarrow> u32 \<Rightarrow> 'h \<Rightarrow> 'p Ext2BlockContext \<Rightarrow>
    (ext_exit \<times> u32 \<times> 'p Ext2BlockContext) exec" where
  "extents_loop 0 xo f flags op ex cnt ret h ctx = Inl Endless"
| "extents_loop (Suc fuel) xo f flags op ex cnt ret h ctx =
     bindE (if op = Extent_Current then Inr (Inr ex, h, b_mnt ctx) else xo_get xo (b_mnt ctx) (b_inode ctx) op h) (\<lambda>(x, h, m).
       let ctx = ctx\<lparr>b_mnt := m\<rparr> in case x of
         Inl err \<Rightarrow>
           if err \<noteq> - ESRCH then Inr (Leave_Done, ret, ctx\<lparr>b_err := err\<rparr>)
           else if flags AND BLOCK_FLAG_APPEND = 0 then Inr (Leave_Done, ret, ctx\<lparr>b_err := 0\<rparr>)
           else append_loop fuel xo f flags cnt ret h (ctx\<lparr>b_err := 0\<rparr>)
       | Inr ex \<Rightarrow>
           let ctx = ctx\<lparr>b_err := 0\<rparr>
           in if e_flags ex AND EXT2_EXTENT_FLAGS_LEAF = 0
              then bindE (index_extent xo f flags ex ret h ctx) (\<lambda>(x, ret, h, ctx).
                if x = Go_On then extents_loop fuel xo f flags Extent_Next ex cnt ret h ctx else Inr (x, ret, ctx))
              else bindE (xo_get xo (b_mnt ctx) (b_inode ctx) Extent_Next h) (\<lambda>(next, h, m).
                let ctx = ctx\<lparr>b_mnt := m\<rparr>; ret = (case next of Inl err \<Rightarrow> word_of_int err | Inr _ \<Rightarrow> 0)
                in if e_lblk ex + ucast (e_len ex) \<le> word_of_int cnt then extents_loop fuel xo f flags Extent_Next ex cnt ret h ctx
                   else bindE (extent_loop xo f flags (if e_flags ex AND EXT2_EXTENT_FLAGS_UNINIT \<noteq> 0 then 1 else 0) (unat (e_len ex))
                          (if uint (e_lblk ex) > cnt then e_pblk ex else e_pblk ex + ucast (ucast (word_of_int cnt - e_lblk ex) :: u32)) (uint (e_lblk ex)) ret h ctx)
                     (\<lambda>(x, cnt, ret, h, ctx).
                       if x \<noteq> Go_On then Inr (x, ret, ctx)
                       else case next of
                           Inr ex' \<Rightarrow> if ret = 0 then extents_loop fuel xo f flags Extent_Current ex' cnt ret h ctx
                                     else extents_loop fuel xo f flags Extent_Next ex cnt ret h ctx
                         | Inl _ \<Rightarrow> extents_loop fuel xo f flags Extent_Next ex cnt ret h ctx)))"

definition extent_steps :: "nat \<Rightarrow> 'h ext_ops \<Rightarrow> 'p block_fn \<Rightarrow> u32 \<Rightarrow> u64 \<Rightarrow> u32 \<Rightarrow> 'p Ext2BlockContext \<Rightarrow> (ext_exit \<times> u32 \<times> 'p Ext2BlockContext) exec" where
  "extent_steps fuel xo f flags ino ret ctx =
     bindE (xo_open xo (b_mnt ctx) ino (b_inode ctx)) (\<lambda>(x, i, m). let ctx = ctx\<lparr>b_inode := i, b_mnt := m\<rparr> in case x of
         Inl err \<Rightarrow> Inr (Leave_Err, ret, ctx\<lparr>b_err := err\<rparr>)
       | Inr h \<Rightarrow> extents_loop fuel xo f flags Extent_Root \<lparr>e_pblk = 0, e_lblk = 0, e_len = 0, e_flags = 0\<rparr> 0 ret h ctx)"

section \<open>The iteration\<close>

type_synonym 'p iterate_out = "int \<times> Ext2Inode \<times> mnt \<times> 'p"

definition ext2_block_iterate :: "nat \<Rightarrow> env \<Rightarrow> 'h ext_ops \<Rightarrow> u8 list option \<Rightarrow> 'p block_fn \<Rightarrow> u32 \<Rightarrow>
    mnt \<Rightarrow> u64 \<Rightarrow> Ext2Inode \<Rightarrow> 'p \<Rightarrow> 'p iterate_out exec" where
  "ext2_block_iterate fuel e xo kbuf f flags m ino inode p =
     (if has_flag inode EXT4_INLINE_DATA_FL then Inr (- ENOTSUP, inode, m, p)
      else if flags AND BLOCK_FLAG_NO_LARGE \<noteq> 0 \<and> \<not> mode_dir (i_mode inode) \<and> i_size_high inode \<noteq> 0 then Inr (- EFBIG, inode, m, p)
      else case kbuf of
          None \<Rightarrow> Inr (- ENOMEM, inode, m, p)
        | Some buf \<Rightarrow>
            bindE (translator_step f flags \<lparr>b_inode = inode, b_buf = buf, b_blkcnt = 0, b_err = 0, b_mnt = m, b_private = p\<rparr>) (\<lambda>(ended, ret, ctx).
            bindE (if \<not> ended \<and> has_flag (b_inode ctx) EXT4_EXTENTS_FL then extent_steps fuel xo f flags ino ret ctx
                   else bindE (map_steps f flags (ended, ret, ctx)) (\<lambda>(ended, ret, ctx). Inr (Leave_Err, ret, ctx))) (\<lambda>(x, ret, ctx).
            bindE (if x = Leave_Done then Inr (b_err ctx, ctx) else end_iterate e ino ret ctx) (\<lambda>(r, ctx).
            Inr (r, b_inode ctx, b_mnt ctx, b_private ctx)))))"

end
