(* ===== verification/Ext2_Dir.thy ===== *)
theory Ext2_Dir
  imports Ext2_Iterate
begin

unbundle bit_operations_syntax

text \<open>
  Directories of ext2: the entries in a block, the checksums of directory blocks, the iteration over entries and
  lookup (\<^verbatim>\<open>fs/ext2/util.c\<close>), adding and removing entries (\<^verbatim>\<open>fs/ext2/link.c\<close>). A directory block is a list of bytes; an entry
  is named by its offset. Its fields are \<^verbatim>\<open>d_inode\<close> at 0, \<^verbatim>\<open>d_rec_len\<close> at 4, \<^verbatim>\<open>d_name_len\<close> at 6 and \<^verbatim>\<open>d_name\<close> at 8; the upper
  byte of \<^verbatim>\<open>d_name_len\<close> is the type of the file.

  Directories inside an inode (\<^verbatim>\<open>DIRENT_FLAG_INLINE\<close>) are not supported by \<^verbatim>\<open>ext2_dir_iterate\<close>; their branches are left out.
\<close>

section \<open>Entries\<close>

definition ENOTEMPTY :: int where "ENOTEMPTY = 39"
definition EUCLEAN :: int where "EUCLEAN = 117"
definition DIRENT_CHANGED :: u32 where "DIRENT_CHANGED = 1"
definition DIRENT_ABORT :: u32 where "DIRENT_ABORT = 2"
definition DIRENT_FLAG_EMPTY :: u32 where "DIRENT_FLAG_EMPTY = 1"
definition DIRENT_FLAG_REMOVED :: u32 where "DIRENT_FLAG_REMOVED = 2"
definition DIRENT_FLAG_CHECKSUM :: u32 where "DIRENT_FLAG_CHECKSUM = 4"
definition DIRENT_DOT_FILE :: nat where "DIRENT_DOT_FILE = 1"
definition DIRENT_OTHER_FILE :: nat where "DIRENT_OTHER_FILE = 3"
definition DIRENT_DELETED_FILE :: nat where "DIRENT_DELETED_FILE = 4"
definition DIRENT_CHECKSUM :: nat where "DIRENT_CHECKSUM = 5"
definition EXT2_DIR_NAME_LEN_CHECKSUM :: u16 where "EXT2_DIR_NAME_LEN_CHECKSUM = 0xde00"
definition EXT2_FT_INCOMPAT_FILETYPE :: u32 where "EXT2_FT_INCOMPAT_FILETYPE = 2"

text \<open>The fields of \<^verbatim>\<open>VFSInode\<close> that this code uses; \<^verbatim>\<open>vi_private\<close> is the open file.\<close>

record dnode =
  d_vmode :: u32
  d_vino :: u64
  d_vuid :: u16
  d_vgid :: u16
  d_vnlink :: u32
  d_vsize :: u64
  d_vsectors :: u32
  d_vatime :: u64
  d_vmtime :: u64
  d_vctime :: u64
  d_file :: Ext2File

definition name_len :: "u16 \<Rightarrow> nat" where "name_len n = unat (n AND 0xff)"

definition rec_len_of :: "mnt \<Rightarrow> u16 \<Rightarrow> nat" where
  "rec_len_of m len =
     (if blksize m < 65536 then unat len
      else if len = 65535 \<or> len = 0 then blksize m
      else unat ((ucast len AND 65532) OR push_bit 16 (ucast len AND 3) :: u32))"

definition ext2_get_rec_len :: "mnt \<Rightarrow> u8 list \<Rightarrow> nat \<Rightarrow> nat exec" where
  "ext2_get_rec_len m b k = bindE (rd16 b (k + 4)) (\<lambda>len. Inr (rec_len_of m len))"

definition rec_len_code :: "mnt \<Rightarrow> nat \<Rightarrow> u16" where
  "rec_len_code m len =
     (if len < 65536 then of_nat len
      else if len = blksize m then (if blksize m = 65536 then 65535 else 0)
      else ucast ((of_nat len AND 65532) OR (drop_bit 16 (of_nat len) AND 3) :: u32))"

definition ext2_set_rec_len :: "mnt \<Rightarrow> nat \<Rightarrow> u8 list \<Rightarrow> nat \<Rightarrow> (int \<times> u8 list) exec" where
  "ext2_set_rec_len m len b k =
     (if len > blksize m \<or> blksize m > 262144 \<or> len mod 4 \<noteq> 0 then Inr (- EINVAL, b)
      else bindE (wr16 b (k + 4) (rec_len_code m len)) (\<lambda>b. Inr (0, b)))"

text \<open>The space an entry with a name of \<open>n\<close> bytes takes; the length is passed as a byte.\<close>

definition ext2_dir_rec_len :: "nat \<Rightarrow> nat" where
  "ext2_dir_rec_len n = (n mod 256 + 11) div 4 * 4"

definition csum_size :: "mnt \<Rightarrow> nat" where
  "csum_size m = (if has_ro_compat (f_super (m_fs m)) EXT4_FT_RO_COMPAT_METADATA_CSUM then 12 else 0)"

section \<open>Checksums\<close>

text \<open>The offset of the tail that holds the checksum: \<open>Inl\<close> is the error when there is none.\<close>

function find_tail :: "u8 list \<Rightarrow> nat \<Rightarrow> nat \<Rightarrow> (int + nat) exec" where
  "find_tail b tp d =
     (if \<not> d < tp then Inr (Inr d)
      else bindE (rd16 b (d + 4)) (\<lambda>len.
        if len < 8 \<or> len AND 3 \<noteq> 0 then Inr (Inl (- EUCLEAN)) else find_tail b tp (d + unat len)))"
  by pat_completeness auto
termination
  by (relation "measure (\<lambda>(b, tp, d). tp - d)") (auto simp: word_less_nat_alt not_less)

declare find_tail.simps [simp del]

definition ext2_get_dirent_tail :: "mnt \<Rightarrow> u8 list \<Rightarrow> (int + nat) exec" where
  "ext2_get_dirent_tail m b =
     (let tp = blksize m - 12
      in bindE (find_tail b tp 0) (\<lambda>x. case x of
           Inl err \<Rightarrow> Inr (Inl err)
         | Inr d \<Rightarrow>
             if d > blksize m then Inr (Inl (- EUCLEAN))
             else if d \<noteq> tp then Inr (Inl (- ENOSPC))
             else bindE (rd32 b d) (\<lambda>z. bindE (rd16 b (d + 4)) (\<lambda>len. bindE (rd16 b (d + 6)) (\<lambda>n.
               Inr (if z \<noteq> 0 \<or> len \<noteq> 12 \<or> n \<noteq> EXT2_DIR_NAME_LEN_CHECKSUM then Inl (- ENOSPC) else Inr d))))))"

text \<open>The header of a hash index: offset, limit and count of its entries.\<close>

definition ext2_get_dx_count_limit :: "mnt \<Rightarrow> u8 list \<Rightarrow> (int + nat \<times> nat \<times> nat) exec" where
  "ext2_get_dx_count_limit m b =
     bindE (rd16 b 4) (\<lambda>len. bindE (rd16 b 6) (\<lambda>n.
     bindE (if unat len = blksize m \<and> n = 0 then Inr (Inr 8)
            else if len = 12
            then bindE (rd16 b 16) (\<lambda>len2.
              if unat len2 \<noteq> blksize m - 12 then Inr (Inl (- EINVAL))
              else bindE (rd32 b 24) (\<lambda>zero. bindE (copy_out b 29 1) (\<lambda>info.
                Inr (if zero \<noteq> 0 \<or> info \<noteq> [8] then Inl (- EINVAL) else Inr 32))))
            else Inr (Inl (- EINVAL))) (\<lambda>x. case x of
         Inl err \<Rightarrow> Inr (Inl err)
       | Inr off \<Rightarrow> bindE (rd16 b off) (\<lambda>limit. bindE (rd16 b (off + 2)) (\<lambda>count.
           let max_entries = (blksize m - off) div 8
           in Inr (if unat limit > max_entries \<or> unat count > max_entries then Inl (- ENOSPC) else Inr (off, unat limit, unat count)))))))"

definition dir_seed :: "mnt \<Rightarrow> dnode \<Rightarrow> u32 exec" where
  "dir_seed m d = bindE (crc32 (f_checksum_seed (m_fs m)) (le64 (f_ino (d_file d)))) (\<lambda>crc. crc32 crc (le32 (i_generation (f_inode (d_file d)))))"

definition ext2_dirent_checksum :: "mnt \<Rightarrow> dnode \<Rightarrow> u8 list \<Rightarrow> nat \<Rightarrow> u32 exec" where
  "ext2_dirent_checksum m d b len = bindE (dir_seed m d) (\<lambda>crc. bindE (copy_out b 0 len) (\<lambda>bytes. crc32 crc bytes))"

definition ext2_dirent_checksum_valid :: "mnt \<Rightarrow> dnode \<Rightarrow> u8 list \<Rightarrow> bool exec" where
  "ext2_dirent_checksum_valid m d b =
     bindE (ext2_get_dirent_tail m b) (\<lambda>x. case x of
         Inl _ \<Rightarrow> Inr True
       | Inr t \<Rightarrow> bindE (rd32 b (t + 8)) (\<lambda>c. bindE (ext2_dirent_checksum m d b t) (\<lambda>crc. Inr (c = crc))))"

definition ext2_dirent_checksum_update :: "mnt \<Rightarrow> dnode \<Rightarrow> u8 list \<Rightarrow> (int \<times> u8 list) exec" where
  "ext2_dirent_checksum_update m d b =
     bindE (ext2_get_dirent_tail m b) (\<lambda>x. case x of
         Inl err \<Rightarrow> Inr (err, b)
       | Inr t \<Rightarrow> bindE (ext2_dirent_checksum m d b t) (\<lambda>crc. bindE (wr32 b (t + 8) crc) (\<lambda>b. Inr (0, b))))"

text \<open>The checksum of an index block and the offset of its tail.\<close>

definition ext2_dx_checksum :: "mnt \<Rightarrow> dnode \<Rightarrow> u8 list \<Rightarrow> (int + u32 \<times> nat) exec" where
  "ext2_dx_checksum m d b =
     bindE (ext2_get_dx_count_limit m b) (\<lambda>x. case x of
         Inl err \<Rightarrow> Inr (Inl err)
       | Inr (off, limit, count) \<Rightarrow>
           if off + limit * 8 > blksize m - 8 then Inr (Inl (- ENOSPC))
           else let t = off + limit * 8
             in bindE (dir_seed m d) (\<lambda>crc. bindE (copy_out b 0 (off + count * 8)) (\<lambda>bytes. bindE (crc32 crc bytes) (\<lambda>crc.
                bindE (copy_out b t 4) (\<lambda>res. bindE (crc32 crc res) (\<lambda>crc. bindE (crc32 crc (le32 0)) (\<lambda>crc. Inr (Inr (crc, t)))))))))"

definition ext2_dx_checksum_valid :: "mnt \<Rightarrow> dnode \<Rightarrow> u8 list \<Rightarrow> bool exec" where
  "ext2_dx_checksum_valid m d b =
     bindE (ext2_dx_checksum m d b) (\<lambda>x. case x of
         Inl _ \<Rightarrow> Inr False
       | Inr (crc, t) \<Rightarrow> bindE (rd32 b (t + 4)) (\<lambda>c. Inr (c = crc)))"

definition ext2_dx_checksum_update :: "mnt \<Rightarrow> dnode \<Rightarrow> u8 list \<Rightarrow> (int \<times> u8 list) exec" where
  "ext2_dx_checksum_update m d b =
     bindE (ext2_dx_checksum m d b) (\<lambda>x. case x of
         Inl err \<Rightarrow> Inr (err, b)
       | Inr (crc, t) \<Rightarrow> bindE (wr32 b (t + 4) crc) (\<lambda>b. Inr (0, b)))"

definition ext2_dir_block_checksum_valid :: "mnt \<Rightarrow> dnode \<Rightarrow> u8 list \<Rightarrow> bool exec" where
  "ext2_dir_block_checksum_valid m d b =
     (if \<not> has_ro_compat (f_super (m_fs m)) EXT4_FT_RO_COMPAT_METADATA_CSUM then Inr True
      else bindE (ext2_get_dirent_tail m b) (\<lambda>x. case x of
          Inr _ \<Rightarrow> ext2_dirent_checksum_valid m d b
        | Inl _ \<Rightarrow> bindE (ext2_get_dx_count_limit m b) (\<lambda>x. case x of
            Inr _ \<Rightarrow> ext2_dx_checksum_valid m d b
          | Inl _ \<Rightarrow> Inr False)))"

definition ext2_dir_block_checksum_update :: "mnt \<Rightarrow> dnode \<Rightarrow> u8 list \<Rightarrow> (int \<times> u8 list) exec" where
  "ext2_dir_block_checksum_update m d b =
     (if \<not> has_ro_compat (f_super (m_fs m)) EXT4_FT_RO_COMPAT_METADATA_CSUM then Inr (0, b)
      else bindE (ext2_get_dirent_tail m b) (\<lambda>x. case x of
          Inr _ \<Rightarrow> ext2_dirent_checksum_update m d b
        | Inl _ \<Rightarrow> bindE (ext2_get_dx_count_limit m b) (\<lambda>x. case x of
            Inr _ \<Rightarrow> ext2_dx_checksum_update m d b
          | Inl _ \<Rightarrow> Inr (- ENOSPC, b))))"

text \<open>Reading checks the checksum and does not use the outcome.\<close>

definition ext2_read_dir_block :: "mnt \<Rightarrow> dnode \<Rightarrow> u64 \<Rightarrow> (int + u8 list) exec" where
  "ext2_read_dir_block m d block =
     (case ext2_read_blocks m (ucast block) 1 of
        Inl err \<Rightarrow> Inr (Inl err)
      | Inr b \<Rightarrow> bindE (ext2_dir_block_checksum_valid m d b) (\<lambda>_. Inr (Inr b)))"

definition ext2_write_dir_block :: "mnt \<Rightarrow> dnode \<Rightarrow> u64 \<Rightarrow> u8 list \<Rightarrow> (int \<times> mnt) exec" where
  "ext2_write_dir_block m d block b =
     bindE (ext2_dir_block_checksum_update m d b) (\<lambda>(r, b).
       if r \<noteq> 0 then Inr (r, m) else Inr (ext2_write_blocks m b (ucast block) 1))"

section \<open>The entries of a block\<close>

function dirent_valid_loop :: "mnt \<Rightarrow> u8 list \<Rightarrow> nat \<Rightarrow> nat \<Rightarrow> bool exec" where
  "dirent_valid_loop m b offset final_offset =
     (if \<not> (offset < final_offset \<and> offset \<le> blksize m - 12) then Inr (offset = final_offset)
      else bindE (ext2_get_rec_len m b offset) (\<lambda>len. bindE (rd16 b (offset + 6)) (\<lambda>n.
        if len < 8 \<or> len mod 4 = 0 \<or> name_len n + 8 > len then Inr False
        else dirent_valid_loop m b (offset + len) final_offset)))"
  by pat_completeness auto
termination
  by (relation "measure (\<lambda>(m, b, offset, final_offset). final_offset - offset)") auto

declare dirent_valid_loop.simps [simp del]

definition ext2_dirent_valid :: "mnt \<Rightarrow> u8 list \<Rightarrow> nat \<Rightarrow> nat \<Rightarrow> bool exec" where
  "ext2_dirent_valid = dirent_valid_loop"

text \<open>With \<^verbatim>\<open>DIRENT_FLAG_REMOVED\<close>: the next entry in the gap after a name, or the end of the gap.\<close>

function gap_loop :: "mnt \<Rightarrow> u8 list \<Rightarrow> nat \<Rightarrow> nat \<Rightarrow> nat exec" where
  "gap_loop m b offset final_offset =
     (if \<not> offset < final_offset then Inr offset
      else bindE (ext2_dirent_valid m b offset final_offset) (\<lambda>ok. if ok then Inr offset else gap_loop m b (offset + 4) final_offset))"
  by pat_completeness auto
termination
  by (relation "measure (\<lambda>(m, b, offset, final_offset). final_offset - offset)") auto

declare gap_loop.simps [simp del]

definition next_offset :: "mnt \<Rightarrow> u32 \<Rightarrow> u8 list \<Rightarrow> nat \<Rightarrow> nat \<Rightarrow> nat exec" where
  "next_offset m flags b offset rec_len =
     (if flags AND DIRENT_FLAG_REMOVED = 0 then Inr (offset + rec_len)
      else bindE (rd16 b (offset + 6)) (\<lambda>n.
        let sz = (name_len n + 11) div 4 * 4
        in if rec_len \<noteq> sz then gap_loop m b (offset + sz) (offset + rec_len) else Inr (offset + rec_len)))"

text \<open>
  A callback gets the kind of the entry, its offset, the size of the block and the block; it may change the block, the
  filesystem and its private data.
\<close>

type_synonym 'p dirent_fn = "nat \<Rightarrow> nat \<Rightarrow> nat \<Rightarrow> u8 list \<Rightarrow> mnt \<Rightarrow> 'p \<Rightarrow> (u32 \<times> u8 list \<times> mnt \<times> 'p) exec"

datatype 'p dir_end = Corrupt mnt 'p | Finished bool u32 bool "u8 list" mnt 'p

text \<open>
  The loop over the entries of a block. A round moves forward by the length of a record, which is at least 8 unless the
  callback makes it smaller: as many rounds as the block has bytes are enough when it does not.
\<close>

fun dir_loop :: "nat \<Rightarrow> 'p dirent_fn \<Rightarrow> u32 \<Rightarrow> nat \<Rightarrow> nat \<Rightarrow> nat \<Rightarrow> nat \<Rightarrow> bool \<Rightarrow> u32 \<Rightarrow> u8 list \<Rightarrow> mnt \<Rightarrow> 'p \<Rightarrow> 'p dir_end exec" where
  "dir_loop 0 f flags bufsize offset next_real entry changed ret b m p = Inl Endless"
| "dir_loop (Suc fuel) f flags bufsize offset next_real entry changed ret b m p =
     (if \<not> offset < bufsize - 8 then Inr (Finished changed ret False b m p)
      else bindE (ext2_get_rec_len m b offset) (\<lambda>rec_len. bindE (rd16 b (offset + 6)) (\<lambda>n.
        if offset + rec_len > bufsize \<or> rec_len < 8 \<or> rec_len mod 4 \<noteq> 0 \<or> name_len n + 8 > rec_len then Inr (Corrupt m p)
        else bindE (rd32 b offset) (\<lambda>ino. bindE (rd16 b (offset + 4)) (\<lambda>len.
          let tail = (offset = bufsize - csum_size m \<and> unat len = csum_size m \<and> n = EXT2_DIR_NAME_LEN_CHECKSUM);
              skip = (ino = 0 \<and> flags AND (if tail then DIRENT_FLAG_CHECKSUM else DIRENT_FLAG_EMPTY) = 0);
              entry = (if ino = 0 \<and> tail \<and> \<not> skip then DIRENT_CHECKSUM else entry)
          in if skip
             then bindE (next_offset m flags b offset rec_len) (\<lambda>offset'.
               dir_loop fuel f flags bufsize offset' (if next_real = offset then next_real + rec_len else next_real) entry changed ret b m p)
             else bindE (f (if next_real > offset then DIRENT_DELETED_FILE else entry) offset bufsize b m p) (\<lambda>(r, b, m, p).
               let entry = (if entry < DIRENT_OTHER_FILE then entry + 1 else entry); changed = (changed \<or> r AND DIRENT_CHANGED \<noteq> 0)
               in bindE (if r AND DIRENT_CHANGED \<noteq> 0 then ext2_get_rec_len m b offset else Inr rec_len) (\<lambda>rec_len.
                  if r AND DIRENT_ABORT \<noteq> 0 then Inr (Finished changed r True b m p)
                  else bindE (next_offset m flags b offset rec_len) (\<lambda>offset'.
                    dir_loop fuel f flags bufsize offset' (if next_real = offset then next_real + rec_len else next_real) entry changed r b m p))))))))"

text \<open>The callback of the block iteration; its private data are those of the entries and \<^verbatim>\<open>d_err\<close>.\<close>

definition ext2_process_dir_block :: "'p dirent_fn \<Rightarrow> u32 \<Rightarrow> dnode \<Rightarrow> ('p \<times> int) block_fn" where
  "ext2_process_dir_block f flags d m pe blockno blkcnt ref_block ref_offset =
     (let (p, _) = pe
      in bindE (ext2_read_dir_block m d blockno) (\<lambda>x. case x of
          Inl err \<Rightarrow> Inr (BLOCK_ABORT, blockno, m, p, err)
        | Inr b \<Rightarrow>
            bindE (dir_loop (blksize m + 1) f flags (blksize m) 0 0 (if blkcnt = 0 then DIRENT_DOT_FILE else DIRENT_OTHER_FILE) False 0 b m p) (\<lambda>x. case x of
                Corrupt m p \<Rightarrow> Inr (BLOCK_ABORT, blockno, m, p, - EUCLEAN)
              | Finished changed ret ended b m p \<Rightarrow>
                  let out = ret OR (if ended then BLOCK_ABORT else 0)
                  in if changed
                     then bindE (ext2_write_dir_block m d blockno b) (\<lambda>(r, m).
                       Inr (if r \<noteq> 0 then BLOCK_ABORT else out, blockno, m, p, r))
                     else Inr (out, blockno, m, p, 0))))"

text \<open>
  What an iteration needs from outside: fuel for loops over extents and inodes, the memory for index blocks and the
  extent functions; for the calls that change directories also \<^verbatim>\<open>ext2_read_bitmap\<close>, the time, the effective ids of the
  running process, whether \<^verbatim>\<open>vfs_alloc_inode\<close> fails, and the memory for the buffer of a file.
\<close>

record 'h iter_env =
  it_fuel :: nat
  it_env :: env
  it_ext :: "'h ext_ops"
  it_buf :: "u8 list option"
  it_read_bitmap :: "mnt \<Rightarrow> (int \<times> mnt) exec"
  it_now :: u64
  it_euid :: u16
  it_egid :: u16
  it_oom_inode :: bool
  it_file_buf :: "u8 list option"

definition ext2_dir_iterate :: "'h iter_env \<Rightarrow> 'p dirent_fn \<Rightarrow> u32 \<Rightarrow> mnt \<Rightarrow> dnode \<Rightarrow> 'p \<Rightarrow> (int \<times> dnode \<times> mnt \<times> 'p) exec" where
  "ext2_dir_iterate it f flags m d p =
     (if \<not> mode_dir (ucast (d_vmode d)) then Inr (- ENOTDIR, d, m, p)
      else if e_block_oom (it_env it) then Inr (- ENOMEM, d, m, p)
      else bindE (ext2_block_iterate (it_fuel it) (it_env it) (it_ext it) (it_buf it) (ext2_process_dir_block f flags d) BLOCK_FLAG_READ_ONLY
             m (d_vino d) (f_inode (d_file d)) (p, 0)) (\<lambda>(r, i, m, p, d_err).
        Inr (if r \<noteq> 0 then r else d_err, d\<lparr>d_file := (d_file d)\<lparr>f_inode := i\<rparr>\<rparr>, m, p)))"

section \<open>Lookup\<close>

fun strncmp :: "u8 list \<Rightarrow> u8 list \<Rightarrow> nat \<Rightarrow> int exec" where
  "strncmp a b 0 = Inr 0"
| "strncmp (x # a) (y # b) (Suc n) = (if y <s x then Inr 1 else if x <s y then Inr (- 1) else strncmp a b n)"
| "strncmp a b (Suc n) = Inl Out_Of_Bounds"

text \<open>Names are lists of bytes without the final NUL.\<close>

definition same_name :: "u8 list \<Rightarrow> u8 list \<Rightarrow> nat \<Rightarrow> u16 \<Rightarrow> bool exec" where
  "same_name name b offset n =
     (if length name \<noteq> name_len n then Inr False
      else bindE (strncmp (name @ [0]) (drop (offset + 8) b) (name_len n)) (\<lambda>r. Inr (r = 0)))"

text \<open>The private data of a lookup: the inode number, when it was found.\<close>

definition ext2_process_lookup :: "u8 list \<Rightarrow> (u64 option) dirent_fn" where
  "ext2_process_lookup name entry offset bufsize b m p =
     bindE (rd16 b (offset + 6)) (\<lambda>n. bindE (same_name name b offset n) (\<lambda>ok.
       if \<not> ok then Inr (0, b, m, p)
       else bindE (rd32 b offset) (\<lambda>ino. Inr (DIRENT_ABORT, b, m, Some (ucast ino)))))"

definition ext2_lookup_inode :: "'h iter_env \<Rightarrow> mnt \<Rightarrow> dnode \<Rightarrow> u8 list \<Rightarrow> ((int + u64) \<times> dnode \<times> mnt) exec" where
  "ext2_lookup_inode it m d name =
     bindE (ext2_dir_iterate it (ext2_process_lookup name) 0 m d None) (\<lambda>(r, d, m, p).
       Inr (if r \<noteq> 0 then Inl r else case p of None \<Rightarrow> Inl (- ENOENT) | Some ino \<Rightarrow> Inr ino, d, m))"

section \<open>Adding an entry\<close>

record Ext2Link =
  l_name :: "u8 list"
  l_inode :: u64
  l_flags :: u32
  l_done :: bool
  l_err :: int
  l_prev :: "nat option"

text \<open>The free entry after the current one is merged into it: result, whether it was, the new length and the block.\<close>

definition merge_next :: "mnt \<Rightarrow> nat \<Rightarrow> nat \<Rightarrow> nat \<Rightarrow> u8 list \<Rightarrow> (int \<times> bool \<times> nat \<times> u8 list) exec" where
  "merge_next m offset blocksize curr_rec_len b =
     (let next = offset + curr_rec_len
      in if \<not> next < blocksize - csum_size m - 8 then Inr (0, False, curr_rec_len, b)
         else bindE (rd32 b next) (\<lambda>ino. bindE (rd16 b (next + 4)) (\<lambda>len.
           if ino \<noteq> 0 \<or> next + unat len > blocksize then Inr (0, False, curr_rec_len, b)
           else bindE (ext2_set_rec_len m (curr_rec_len + unat len) b offset) (\<lambda>(r, b). Inr (r, True, curr_rec_len + unat len, b)))))"

text \<open>An entry in use with enough room behind its name is split; the new second part is free.\<close>

definition split_entry :: "mnt \<Rightarrow> nat \<Rightarrow> nat \<Rightarrow> nat \<Rightarrow> u8 list \<Rightarrow> (int \<times> u8 list) exec" where
  "split_entry m offset min_rec_len rest b =
     bindE (ext2_set_rec_len m min_rec_len b offset) (\<lambda>(r, b).
       if r \<noteq> 0 then Inr (r, b)
       else bindE (rd16 b (offset + 4)) (\<lambda>len.
         bindE (wr32 b (offset + unat len) 0) (\<lambda>b. bindE (wr16 b (offset + unat len + 6) 0) (\<lambda>b.
           ext2_set_rec_len m rest b (offset + unat len)))))"

text \<open>A free entry takes the name.\<close>

definition fill_entry :: "mnt \<Rightarrow> nat \<Rightarrow> Ext2Link \<Rightarrow> u8 list \<Rightarrow> u8 list exec" where
  "fill_entry m offset l b =
     bindE (wr32 b offset (ucast (l_inode l))) (\<lambda>b.
     bindE (rd16 b (offset + 6)) (\<lambda>n.
     bindE (wr16 b (offset + 6) ((n AND 0xff00) OR (of_nat (length (l_name l)) AND 0xff))) (\<lambda>b.
     bindE (copy_in b (offset + 8) (length (l_name l)) (l_name l)) (\<lambda>b.
       if has_incompat (f_super (m_fs m)) EXT2_FT_INCOMPAT_FILETYPE
       then bindE (rd16 b (offset + 6)) (\<lambda>n. wr16 b (offset + 6) ((n AND 0xff) OR push_bit 8 (ucast (l_flags l AND 7))))
       else Inr b))))"

definition ext2_process_link :: "Ext2Link dirent_fn" where
  "ext2_process_link entry offset blocksize b m l =
     (if l_done l then Inr (DIRENT_ABORT, b, m, l)
      else let rec_len = ext2_dir_rec_len (length (l_name l)) in
        bindE (ext2_get_rec_len m b offset) (\<lambda>curr_rec_len.
        let l = l\<lparr>l_err := 0\<rparr> in
        bindE (merge_next m offset blocksize curr_rec_len b) (\<lambda>(r, merged, curr_rec_len, b).
        let ret = (if merged then DIRENT_CHANGED else 0) in
          if r \<noteq> 0 then Inr (DIRENT_ABORT, b, m, l\<lparr>l_err := r\<rparr>)
          else bindE (rd32 b offset) (\<lambda>ino.
            if ino \<noteq> 0
            then bindE (rd16 b (offset + 6)) (\<lambda>n. let min_rec_len = ext2_dir_rec_len (name_len n)
              in if curr_rec_len < min_rec_len + rec_len then Inr (ret, b, m, l)
                 else bindE (split_entry m offset min_rec_len (curr_rec_len - min_rec_len) b) (\<lambda>(r, b).
                   if r \<noteq> 0 then Inr (DIRENT_ABORT, b, m, l\<lparr>l_err := r\<rparr>) else Inr (DIRENT_CHANGED, b, m, l)))
            else if curr_rec_len < rec_len then Inr (ret, b, m, l)
            else bindE (fill_entry m offset l b) (\<lambda>b. Inr (DIRENT_ABORT OR DIRENT_CHANGED, b, m, l\<lparr>l_done := True\<rparr>))))))"

end
