(* ===== verification/Ext2_Link.thy ===== *)
theory Ext2_Link
  imports Ext2_Dir
begin

unbundle bit_operations_syntax

text \<open>
  Operations that change directories: removing entries (\<^verbatim>\<open>fs/ext2/link.c\<close>), growing a directory and creating files
  (\<^verbatim>\<open>fs/ext2/util.c\<close>), and the inode operations of \<^verbatim>\<open>fs/ext2/inode.c\<close> built on them.
\<close>

section \<open>Removing an entry\<close>

fun strcmp :: "u8 list \<Rightarrow> u8 list \<Rightarrow> int exec" where
  "strcmp (x # a) (y # b) = (if y <s x then Inr 1 else if x <s y then Inr (- 1) else if x = 0 \<and> y = 0 then Inr 0 else strcmp a b)"
| "strcmp a b = Inl Out_Of_Bounds"

definition ext2_check_empty :: "bool dirent_fn" where
  "ext2_check_empty entry offset blocksize b m p =
     bindE (strcmp (drop (offset + 8) b) [46, 0]) (\<lambda>r1.
     bindE (if r1 = 0 then Inr 0 else strcmp (drop (offset + 8) b) [46, 46, 0]) (\<lambda>r2.
       if r1 \<noteq> 0 \<and> r2 \<noteq> 0 then Inr (DIRENT_ABORT, b, m, False) else Inr (0, b, m, p)))"

text \<open>
  One link less to the inode of an entry; the inode is freed with its blocks when it was the last one. The result is
  whether the directory was found not to be empty. The results of the calls are not looked at.
\<close>

definition drop_link :: "'h iter_env \<Rightarrow> mnt \<Rightarrow> u64 \<Rightarrow> Ext2Inode \<Rightarrow> mnt exec" where
  "drop_link it m ino i =
     (let i = i\<lparr>i_links_count := i_links_count i - 1\<rparr>; e = it_env it
      in bindE (if i_links_count i = 0
           then let i = i\<lparr>i_dtime := ucast (it_now it)\<rparr>
             in bindE (ext2_inode_alloc_stats (m_fs m) ino (- 1) (mode_dir (i_mode i))) (\<lambda>fs.
                bindE (ext2_dealloc_blocks e (m\<lparr>m_fs := fs\<rparr>) ino i 0 (- 1)) (\<lambda>(_, i, m). Inr (i, m)))
           else Inr (i, m)) (\<lambda>(i, m).
         bindE (ext2_update_inode (e_alloc e) (e_inode_buf e) m ino (inode_bytes i)) (\<lambda>(_, m). Inr m)))"

definition unlink_inode :: "'h iter_env \<Rightarrow> mnt \<Rightarrow> dnode \<Rightarrow> u64 \<Rightarrow> (bool \<times> mnt) exec" where
  "unlink_inode it m d ino =
     bindE (ext2_read_inode (e_alloc (it_env it)) m ino) (\<lambda>(x, m). case x of
         Inl _ \<Rightarrow> Inr (False, m)
       | Inr bytes \<Rightarrow>
           bindE (if mode_dir (i_mode (inode_of bytes))
                  then bindE (ext2_dir_iterate it ext2_check_empty DIRENT_FLAG_EMPTY m d True) (\<lambda>(_, _, m, empty). Inr (\<not> empty, m))
                  else Inr (False, m)) (\<lambda>(busy, m).
             if busy then Inr (True, m)
             else bindE (drop_link it m ino (inode_of bytes)) (\<lambda>m. Inr (False, m))))"

definition ext2_process_unlink :: "'h iter_env \<Rightarrow> dnode \<Rightarrow> Ext2Link dirent_fn" where
  "ext2_process_unlink it d entry offset blocksize b m l =
     (let prev = l_prev l; l = l\<lparr>l_prev := Some offset\<rparr>
      in bindE (rd16 b (offset + 6)) (\<lambda>n. bindE (same_name (l_name l) b offset n) (\<lambda>ok.
         if \<not> ok then Inr (0, b, m, l)
         else bindE (rd32 b offset) (\<lambda>ino.
           if ino = 0 then Inr (0, b, m, l)
           else bindE (unlink_inode it m d (ucast ino)) (\<lambda>(busy, m).
             if busy then Inr (DIRENT_ABORT, b, m, l\<lparr>l_err := - ENOTEMPTY\<rparr>)
             else bindE (if offset \<noteq> 0
                    then case prev of None \<Rightarrow> Inl Out_Of_Bounds
                      | Some k \<Rightarrow> bindE (rd16 b (k + 4)) (\<lambda>len. bindE (rd16 b (offset + 4)) (\<lambda>len'. wr16 b (k + 4) (len + len')))
                    else wr32 b offset 0) (\<lambda>b.
               Inr (DIRENT_ABORT OR DIRENT_CHANGED, b, m, l\<lparr>l_done := True\<rparr>)))))))"

definition ext2_unlink_dirent :: "'h iter_env \<Rightarrow> mnt \<Rightarrow> dnode \<Rightarrow> u8 list \<Rightarrow> (int \<times> dnode \<times> mnt) exec" where
  "ext2_unlink_dirent it m d name =
     (if m_rdonly m then Inr (- EROFS, d, m)
      else bindE (ext2_dir_iterate it (ext2_process_unlink it d) DIRENT_FLAG_EMPTY m d
             \<lparr>l_name = name, l_inode = 0, l_flags = 0, l_done = False, l_err = 0, l_prev = None\<rparr>) (\<lambda>(r, d, m, l).
        Inr (if r \<noteq> 0 then r else if l_err l \<noteq> 0 then l_err l else if l_done l then 0 else - ENOENT, d, m)))"

section \<open>Growing a directory\<close>

definition ext2_init_dirent_tail :: "mnt \<Rightarrow> u8 list \<Rightarrow> nat \<Rightarrow> u8 list exec" where
  "ext2_init_dirent_tail m b k =
     bindE (copy_in b k 12 (replicate 12 0)) (\<lambda>b. bindE (ext2_set_rec_len m 12 b k) (\<lambda>(_, b).
     wr16 b (k + 6) EXT2_DIR_NAME_LEN_CHECKSUM))"

text \<open>The entries \<^verbatim>\<open>.\<close> and \<^verbatim>\<open>..\<close> of a new directory.\<close>

definition dot_entries :: "mnt \<Rightarrow> u64 \<Rightarrow> u64 \<Rightarrow> u8 list \<Rightarrow> (int \<times> u8 list) exec" where
  "dot_entries m ino parent b =
     (let ft = (if has_incompat (f_super (m_fs m)) EXT2_FT_INCOMPAT_FILETYPE then 2 else 0) :: u16;
          dot = ext2_dir_rec_len 1; rest = blksize m - csum_size m - dot
      in bindE (wr32 b 0 (ucast ino)) (\<lambda>b. bindE (wr16 b 6 (push_bit 8 ft OR 1)) (\<lambda>b. bindE (copy_in b 8 1 [46]) (\<lambda>b.
         bindE (wr16 b 4 (of_nat dot)) (\<lambda>b.
         bindE (ext2_set_rec_len m rest b dot) (\<lambda>(r, b).
           if r \<noteq> 0 then Inr (r, b)
           else bindE (wr32 b dot (ucast parent)) (\<lambda>b. bindE (wr16 b (dot + 6) (push_bit 8 ft OR 2)) (\<lambda>b.
             bindE (copy_in b (dot + 8) 2 [46, 46]) (\<lambda>b. Inr (0, b))))))))))"

definition ext2_new_dir_block :: "env \<Rightarrow> mnt \<Rightarrow> u64 \<Rightarrow> u64 \<Rightarrow> (int + u8 list) exec" where
  "ext2_new_dir_block e m ino parent =
     (if e_block_oom e then Inr (Inl (- ENOMEM))
      else bindE (ext2_set_rec_len m (blksize m - csum_size m) (replicate (blksize m) 0) 0) (\<lambda>(r, b).
        if r \<noteq> 0 then Inr (Inl r)
        else bindE (if ino \<noteq> 0 then dot_entries m ino parent b else Inr (0, b)) (\<lambda>(r, b).
          if r \<noteq> 0 then Inr (Inl r)
          else bindE (if csum_size m > 0 then ext2_init_dirent_tail m b (blksize m - 12) else Inr b) (\<lambda>b. Inr (Inr b)))))"

record Ext2DirExpand =
  de_done :: bool
  de_err :: int
  de_goal :: u64
  de_newblocks :: u64

definition EXT2_B2C :: "Ext2Filesystem \<Rightarrow> u64 \<Rightarrow> u64" where
  "EXT2_B2C fs b = drop_bit (f_cluster_ratio_bits fs) b"

definition ext2_process_dir_expand :: "env \<Rightarrow> dnode \<Rightarrow> Ext2DirExpand block_fn" where
  "ext2_process_dir_expand e d m x blockno blkcnt ref_block ref_offset =
     (if blockno \<noteq> 0 then Inr (0, blockno, m, if blkcnt \<ge> 0 then x\<lparr>de_goal := blockno\<rparr> else x)
      else bindE (if blkcnt \<noteq> 0 \<and> EXT2_B2C (m_fs m) (de_goal x) = EXT2_B2C (m_fs m) (de_goal x + 1)
             then Inr (Inr (de_goal x + 1), m, x)
             else let x = x\<lparr>de_goal := de_goal x AND NOT (EXT2_CLUSTER_MASK (m_fs m))\<rparr>
               in bindE (ext2_new_block (e_base e) (m_fs m) (de_goal x)) (\<lambda>nb. case nb of
                   Inl err \<Rightarrow> Inr (Inl err, m, x)
                 | Inr (b, fs) \<Rightarrow> bindE (ext2_block_alloc_stats fs b 1) (\<lambda>fs.
                     Inr (Inr b, m\<lparr>m_fs := fs\<rparr>, x\<lparr>de_newblocks := de_newblocks x + 1\<rparr>)))) (\<lambda>(nb, m, x). case nb of
          Inl err \<Rightarrow> Inr (BLOCK_ABORT, blockno, m, x\<lparr>de_err := err\<rparr>)
        | Inr newblock \<Rightarrow>
            bindE (if blkcnt > 0
                   then bindE (ext2_new_dir_block e m 0 0) (\<lambda>y. case y of
                       Inl err \<Rightarrow> Inr (Inl err, m, x)
                     | Inr b \<Rightarrow> bindE (ext2_write_dir_block m d newblock b) (\<lambda>(r, m). Inr (Inr r, m, x\<lparr>de_done := True\<rparr>)))
                   else let (r, m) = ext2_zero_block e m newblock in Inr (Inr r, m, x)) (\<lambda>(y, m, x). case y of
                Inl err \<Rightarrow> Inr (BLOCK_ABORT, blockno, m, x\<lparr>de_err := err\<rparr>)
              | Inr r \<Rightarrow>
                  let x = (if blkcnt \<ge> 0 then x\<lparr>de_goal := newblock\<rparr> else x)
                  in if r \<noteq> 0 then Inr (BLOCK_ABORT, blockno, m, x\<lparr>de_err := r\<rparr>)
                     else Inr (if de_done x then BLOCK_CHANGED OR BLOCK_ABORT else BLOCK_CHANGED, newblock, m, x))))"

text \<open>The inode of the VFS is copied over the fields of the inode on the disk.\<close>

definition ext2_write_inode :: "env \<Rightarrow> mnt \<Rightarrow> dnode \<Rightarrow> (int \<times> dnode \<times> mnt) exec" where
  "ext2_write_inode e m d =
     (let i = (f_inode (d_file d))\<lparr>i_mode := ucast (d_vmode d), i_uid := d_vuid d, i_size := ucast (d_vsize d), i_atime := ucast (d_vatime d),
            i_ctime := ucast (d_vctime d), i_mtime := ucast (d_vmtime d), i_gid := d_vgid d, i_links_count := ucast (d_vnlink d), i_blocks := d_vsectors d\<rparr>;
          s = f_super (m_fs m);
          i = (if mode_reg (ucast (d_vmode d)) \<and> s_rev_level s > 0 \<and> has_ro_compat s EXT2_FT_RO_COMPAT_LARGE_FILE
               then i\<lparr>i_size_high := ucast (drop_bit 32 (d_vsize d))\<rparr> else i);
          d = d\<lparr>d_file := (d_file d)\<lparr>f_inode := i\<rparr>\<rparr>
      in bindE (ext2_update_inode (e_alloc e) (e_inode_buf e) m (d_vino d) (inode_bytes i)) (\<lambda>(r, m). Inr (r, d, m)))"

definition ext2_expand_dir :: "'h iter_env \<Rightarrow> mnt \<Rightarrow> dnode \<Rightarrow> (int \<times> dnode \<times> mnt) exec" where
  "ext2_expand_dir it m d =
     (let e = it_env it in
      if m_rdonly m then Inr (- EROFS, d, m)
      else if \<not> mode_dir (ucast (d_vmode d)) then Inr (- ENOTDIR, d, m)
      else bindE (ext2_find_inode_goal e m (d_vino d) (f_inode (d_file d)) 0) (\<lambda>(goal, i).
        bindE (ext2_block_iterate (it_fuel it) e (it_ext it) (it_buf it) (ext2_process_dir_expand e d) BLOCK_FLAG_APPEND m (d_vino d) i
                 \<lparr>de_done = False, de_err = 0, de_goal = goal, de_newblocks = 0\<rparr>) (\<lambda>(r, i, m, x).
        let d = d\<lparr>d_file := (d_file d)\<lparr>f_inode := i\<rparr>\<rparr>
        in if r = - ENOTSUP then Inr (- ENOTSUP, d, m)
           else if de_err x \<noteq> 0 then Inr (de_err x, d, m)
           else if \<not> de_done x then Inr (- EIO, d, m)
           else let (r, i, m) = ext2_inode_set_size m i (EXT2_I_SIZE i + of_nat (blksize m))
             in if r \<noteq> 0 then Inr (r, d\<lparr>d_file := (d_file d)\<lparr>f_inode := i\<rparr>\<rparr>, m)
                else let (_, i) = ext2_iblk_add_blocks m i (de_newblocks x)
                  in ext2_write_inode e m (d\<lparr>d_file := (d_file d)\<lparr>f_inode := i\<rparr>\<rparr>))))"

section \<open>Adding a link\<close>

definition ext2_add_index_link :: int where "ext2_add_index_link = - ENOTSUP"

text \<open>\<^verbatim>\<open>l_err\<close> is not initialised; \<open>junk\<close> is its value when no entry was visited.\<close>

definition ext2_add_link :: "'h iter_env \<Rightarrow> int \<Rightarrow> mnt \<Rightarrow> dnode \<Rightarrow> u8 list \<Rightarrow> u64 \<Rightarrow> u32 \<Rightarrow> (int \<times> dnode \<times> mnt) exec" where
  "ext2_add_link it junk m d name ino flags =
     (if m_rdonly m then Inr (- EROFS, d, m)
      else if has_flag (f_inode (d_file d)) EXT2_INDEX_FL then Inr (ext2_add_index_link, d, m)
      else bindE (ext2_dir_iterate it ext2_process_link DIRENT_FLAG_EMPTY m d
             \<lparr>l_name = name, l_inode = ino, l_flags = flags, l_done = False, l_err = junk, l_prev = None\<rparr>) (\<lambda>(r, d, m, l).
        if r \<noteq> 0 then Inr (r, d, m)
        else if l_err l \<noteq> 0 then Inr (l_err l, d, m)
        else if l_done l then Inr (0, d, m)
        else bindE (ext2_expand_dir it m d) (\<lambda>(r, d, m).
          if r \<noteq> 0 then Inr (- ENOSPC, d, m)
          else bindE (ext2_dir_iterate it ext2_process_link DIRENT_FLAG_EMPTY m d l) (\<lambda>(r, d, m, l).
            Inr (if r \<noteq> 0 then r else if l_err l \<noteq> 0 then l_err l else if l_done l then 0 else - ENOSPC, d, m)))))"

definition ext2_dir_type :: "u32 \<Rightarrow> u32" where
  "ext2_dir_type mode =
     (let t = (ucast mode :: u16) in
      if mode_reg t then 1 else if mode_dir t then 2 else if mode_is 0x2000 t then 3 else if mode_is 0x6000 t then 4
      else if mode_is 0x1000 t then 5 else if mode_is 0xc000 t then 6 else if mode_lnk t then 7 else 0)"

section \<open>New inodes\<close>

definition ext2_read_bitmaps :: "'h iter_env \<Rightarrow> mnt \<Rightarrow> (int \<times> mnt) exec" where
  "ext2_read_bitmaps it m =
     (if f_inode_bitmap (m_fs m) \<noteq> None \<and> f_block_bitmap (m_fs m) \<noteq> None then Inr (0, m) else it_read_bitmap it m)"

definition stamp :: "u64 \<Rightarrow> Ext2Inode \<Rightarrow> Ext2Inode" where
  "stamp t i = (let i = (if i_ctime i = 0 then i\<lparr>i_ctime := ucast t\<rparr> else i);
                    i = (if i_mtime i = 0 then i\<lparr>i_mtime := ucast t\<rparr> else i)
                in if i_atime i = 0 then i\<lparr>i_atime := ucast t\<rparr> else i)"

definition ext2_write_new_inode :: "'h iter_env \<Rightarrow> mnt \<Rightarrow> u64 \<Rightarrow> Ext2Inode \<Rightarrow> (int \<times> Ext2Inode \<times> mnt) exec" where
  "ext2_write_new_inode it m ino i =
     (let e = it_env it; sz = EXT2_INODE_SIZE (f_super (m_fs m)); i = stamp (it_now it) i
      in if sz = 128 then bindE (ext2_update_inode (e_alloc e) (e_inode_buf e) m ino (inode_bytes i)) (\<lambda>(r, m). Inr (r, i, m))
         else if e_block_oom e then Inr (- ENOMEM, i, m)
         else bindE (copy_in (replicate sz 0) 0 128 (inode_bytes i)) (\<lambda>b. bindE (wr16 b 128 32) (\<lambda>b.
              bindE (rd32 b 144) (\<lambda>crtime. bindE (if crtime = 0 then wr32 b 144 (ucast (it_now it)) else Inr b) (\<lambda>b.
              bindE (ext2_update_inode (e_alloc e) (e_inode_buf e) m ino b) (\<lambda>(r, m). Inr (r, i, m)))))))"

definition ext2_open_file :: "'h iter_env \<Rightarrow> mnt \<Rightarrow> u64 \<Rightarrow> Ext2File \<Rightarrow> (int \<times> Ext2File \<times> mnt) exec" where
  "ext2_open_file it m ino file =
     bindE (ext2_read_inode (e_alloc (it_env it)) m ino) (\<lambda>(x, m). case x of
         Inl err \<Rightarrow> Inr (err, file, m)
       | Inr b \<Rightarrow>
           let file = file\<lparr>f_inode := inode_of b, f_ino := ino, f_fflags := 0\<rparr>
           in case it_file_buf it of None \<Rightarrow> Inr (- ENOMEM, file, m) | Some buf \<Rightarrow> Inr (0, file\<lparr>f_buffer := buf\<rparr>, m))"

definition zero_inode :: Ext2Inode where "zero_inode = inode_of (replicate 128 0)"
definition zero_file :: Ext2File where
  "zero_file = \<lparr>f_inode = zero_inode, f_ino = 0, f_pos = 0, f_block = 0, f_physblock = 0, f_fflags = 0, f_buffer = []\<rparr>"

definition new_inode :: "'h iter_env \<Rightarrow> mnt \<Rightarrow> u64 \<Rightarrow> ((int + u64) \<times> mnt) exec" where
  "new_inode it m dir =
     bindE (ext2_new_inode (it_fuel it) (e_base (it_env it)) (m_fs m) dir) (\<lambda>r. case r of
         None \<Rightarrow> Inl Endless
       | Some (x, fs) \<Rightarrow> Inr (x, m\<lparr>m_fs := fs\<rparr>))"

text \<open>A new file and its entry. The new inode of the VFS is only used when the caller asks for it, which none does here.\<close>

definition ext2_new_file :: "'h iter_env \<Rightarrow> int \<Rightarrow> mnt \<Rightarrow> dnode \<Rightarrow> u8 list \<Rightarrow> u32 \<Rightarrow> (int \<times> dnode \<times> mnt) exec" where
  "ext2_new_file it junk m d name mode =
     bindE (ext2_read_bitmaps it m) (\<lambda>(r, m).
       if r \<noteq> 0 then Inr (r, d, m)
       else if it_oom_inode it then Inr (- ENOMEM, d, m)
       else bindE (new_inode it m (d_vino d)) (\<lambda>(x, m). case x of
           Inl err \<Rightarrow> Inr (err, d, m)
         | Inr ino \<Rightarrow>
             bindE (ext2_open_file it m ino zero_file) (\<lambda>(r, file, m).
               if r \<noteq> 0 then Inr (r, d, m)
               else let i = zero_inode\<lparr>i_mode := ucast mode, i_uid := it_euid it, i_gid := it_egid it, i_links_count := 1\<rparr>
                 in bindE (ext2_write_new_inode it m ino i) (\<lambda>(_, i, m).
                    bindE (ext2_inode_alloc_stats (m_fs m) ino 1 (mode_dir (i_mode i))) (\<lambda>fs.
                    ext2_add_link it junk (m\<lparr>m_fs := fs\<rparr>) d name ino (ext2_dir_type mode))))))"

section \<open>The inode operations\<close>

definition ext2_create :: "'h iter_env \<Rightarrow> int \<Rightarrow> mnt \<Rightarrow> dnode \<Rightarrow> u8 list \<Rightarrow> u32 \<Rightarrow> (int \<times> dnode \<times> mnt) exec" where
  "ext2_create it junk m d name mode = ext2_new_file it junk m d name ((mode AND NOT 0xf000) OR 0x8000)"

definition ext2_mknod :: "'h iter_env \<Rightarrow> int \<Rightarrow> mnt \<Rightarrow> dnode \<Rightarrow> u8 list \<Rightarrow> u32 \<Rightarrow> (int \<times> dnode \<times> mnt) exec" where
  "ext2_mknod it junk m d name mode =
     (let mode = (if mode AND 0xf000 = 0 then mode OR 0x8000 else mode); t = (ucast mode :: u16)
      in if mode_is 0x2000 t \<or> mode_is 0x6000 t
         then if it_euid it \<noteq> 0 then Inr (- EPERM, d, m) else ext2_new_file it junk m d name mode
         else if \<not> mode_reg t \<and> \<not> mode_is 0x1000 t \<and> \<not> mode_is 0xc000 t then Inr (- EINVAL, d, m)
         else ext2_new_file it junk m d name mode)"

text \<open>\<open>same_sb\<close>: both inodes are on the same filesystem.\<close>

definition ext2_link :: "'h iter_env \<Rightarrow> int \<Rightarrow> mnt \<Rightarrow> bool \<Rightarrow> dnode \<Rightarrow> dnode \<Rightarrow> u8 list \<Rightarrow> (int \<times> dnode \<times> mnt) exec" where
  "ext2_link it junk m same_sb old_n d name =
     (if \<not> same_sb then Inr (- EXDEV, d, m) else ext2_add_link it junk m d name (d_vino old_n) (ext2_dir_type (d_vmode old_n)))"

definition ext2_unlink :: "'h iter_env \<Rightarrow> mnt \<Rightarrow> dnode \<Rightarrow> u8 list \<Rightarrow> (int \<times> dnode \<times> mnt) exec" where
  "ext2_unlink = ext2_unlink_dirent"

definition ext2_rmdir :: "'h iter_env \<Rightarrow> mnt \<Rightarrow> dnode \<Rightarrow> u8 list \<Rightarrow> (int \<times> dnode \<times> mnt) exec" where
  "ext2_rmdir = ext2_unlink_dirent"

text \<open>Renaming; \<open>same\<close>: both directories are the same inode, so that a change of one is a change of the other.\<close>

definition ext2_rename :: "'h iter_env \<Rightarrow> int \<Rightarrow> bool \<Rightarrow> mnt \<Rightarrow> dnode \<Rightarrow> u8 list \<Rightarrow> dnode \<Rightarrow> u8 list \<Rightarrow> (int \<times> dnode \<times> dnode \<times> mnt) exec" where
  "ext2_rename it junk same m olddir oldname newdir newname =
     bindE (ext2_lookup_inode it m olddir oldname) (\<lambda>(x, olddir, m).
       let newdir = (if same then olddir else newdir) in case x of
         Inl err \<Rightarrow> Inr (err, olddir, newdir, m)
       | Inr ino \<Rightarrow>
           bindE (ext2_unlink_dirent it m newdir newname) (\<lambda>(r, newdir, m).
             let olddir = (if same then newdir else olddir) in
             if r \<noteq> 0 \<and> r \<noteq> - ENOENT then Inr (r, olddir, newdir, m)
             else bindE (ext2_read_inode (e_alloc (it_env it)) m ino) (\<lambda>(y, m). case y of
                 Inl err \<Rightarrow> Inr (err, olddir, newdir, m)
               | Inr b \<Rightarrow> bindE (ext2_add_link it junk m newdir newname ino (ucast (i_mode (inode_of b)))) (\<lambda>(r, newdir, m).
                   let olddir = (if same then newdir else olddir) in
                   if r \<noteq> 0 then Inr (r, olddir, newdir, m)
                   else bindE (ext2_unlink_dirent it m olddir oldname) (\<lambda>(r, olddir, m).
                     Inr (r, olddir, if same then olddir else newdir, m))))))"

definition ext2_chmod :: "env \<Rightarrow> mnt \<Rightarrow> dnode \<Rightarrow> u32 \<Rightarrow> (int \<times> dnode \<times> mnt) exec" where
  "ext2_chmod e m d mode =
     (let i = f_inode (d_file d);
          d = d\<lparr>d_vmode := (d_vmode d AND 0xf000) OR (mode AND 0xfff), d_file := (d_file d)\<lparr>f_inode := i\<lparr>i_mode := (i_mode i AND 0xf000) OR (ucast mode AND 0xfff)\<rparr>\<rparr>\<rparr>
      in bindE (ext2_write_inode e m d) (\<lambda>(_, d, m). Inr (0, d, m)))"

definition ext2_chown :: "env \<Rightarrow> mnt \<Rightarrow> dnode \<Rightarrow> u16 \<Rightarrow> u16 \<Rightarrow> (int \<times> dnode \<times> mnt) exec" where
  "ext2_chown e m d uid gid = bindE (ext2_write_inode e m (d\<lparr>d_vuid := uid, d_vgid := gid\<rparr>)) (\<lambda>(_, d, m). Inr (0, d, m))"

text \<open>The target of a symbolic link. The bytes of \<^verbatim>\<open>i_block\<close> hold it when it is short.\<close>

definition ext2_readlink :: "env \<Rightarrow> mnt \<Rightarrow> dnode \<Rightarrow> nat \<Rightarrow> (int \<times> u8 list \<times> dnode \<times> mnt) exec" where
  "ext2_readlink e m d len =
     (if d_vsize d \<le> 60 then Inr (0, take (min len (unat (d_vsize d))) (concat (map le32 (i_block (f_inode (d_file d))))), d, m)
      else bindE (ext2_read e m (d_file d) (min len (unat (d_vsize d))) 0) (\<lambda>(r, data, f, m). Inr (r, data, d\<lparr>d_file := f\<rparr>, m)))"

definition ext2_truncate :: "env \<Rightarrow> mnt \<Rightarrow> dnode \<Rightarrow> (int \<times> dnode \<times> mnt) exec" where
  "ext2_truncate e m d = bindE (ext2_file_set_size e m (d_file d) (d_vsize d)) (\<lambda>(r, f, m). Inr (r, d\<lparr>d_file := f\<rparr>, m))"

end
