(* ===== verification/Ext2_Dir_Entries.thy ===== *)
theory Ext2_Dir_Entries
  imports Ext2_Link Ext2_Itable
begin

unbundle bit_operations_syntax

text \<open>
  A directory block is the image of a list of entries, and a directory whose blocks are all direct is a list of such
  lists. Looking up a name is a search in this list.
\<close>

section \<open>Entries and their images\<close>

record dent =
  n_ino :: u32
  n_nl :: u16
  n_body :: "u8 list"

definition elen :: "dent \<Rightarrow> nat" where "elen e = length (n_body e) + 8"
definition ename :: "dent \<Rightarrow> u8 list" where "ename e = take (name_len (n_nl e)) (n_body e)"
definition enc :: "dent \<Rightarrow> u8 list" where
  "enc e = le32 (n_ino e) @ le16 (of_nat (elen e)) @ le16 (n_nl e) @ n_body e"
definition dimage :: "dent list \<Rightarrow> u8 list" where "dimage es = concat (map enc es)"
definition ent_ok :: "dent \<Rightarrow> bool" where
  "ent_ok e \<longleftrightarrow> 12 \<le> elen e \<and> elen e mod 4 = 0 \<and> name_len (n_nl e) + 8 \<le> elen e \<and> (n_ino e \<noteq> 0 \<longrightarrow> 0 < name_len (n_nl e))"

text \<open>The entries in use, as names and inode numbers.\<close>

definition dir_names :: "dent list \<Rightarrow> (u8 list \<times> u32) list" where
  "dir_names es = map (\<lambda>e. (ename e, n_ino e)) (filter (\<lambda>e. n_ino e \<noteq> 0) es)"

lemma length_enc [simp]: "length (enc e) = elen e"
  by (simp add: enc_def elen_def)

lemma dimage_simps [simp]: "dimage [] = []" "dimage (e # es) = enc e @ dimage es" "dimage (es @ fs) = dimage es @ dimage fs"
  by (simp_all add: dimage_def)

lemma dir_names_simps [simp]: "dir_names [] = []" "dir_names (es @ fs) = dir_names es @ dir_names fs"
    "dir_names (e # es) = (if n_ino e \<noteq> 0 then [(ename e, n_ino e)] else []) @ dir_names es"
  by (simp_all add: dir_names_def)

lemma name_len_lt: "name_len n < 256"
proof -
  have "n AND 0xff \<le> 0xff" by (rule word_and_le1)
  then show ?thesis by (simp add: name_len_def word_le_nat_alt)
qed

text \<open>Reading and writing the fields of an entry inside a block.\<close>

lemma entry_reads:
  assumes "k = length p" and "elen e < 65536"
  shows "rd32 (p @ enc e @ q) k = Inr (n_ino e)" and "rd16 (p @ enc e @ q) (k + 4) = Inr (of_nat (elen e))"
    and "rd16 (p @ enc e @ q) (k + 6) = Inr (n_nl e)" and "drop (k + 8) (p @ enc e @ q) = n_body e @ q"
    and "unat (of_nat (elen e) :: u16) = elen e"
  using assms by (simp_all add: rd32_def rd16_def enc_def unat_of_nat_eq)

lemma entry_writes:
  assumes "k = length p"
  shows "wr32 (p @ enc e @ q) k v = Inr (p @ enc (e\<lparr>n_ino := v\<rparr>) @ q)"
    and "wr16 (p @ enc e @ q) (k + 6) n = Inr (p @ enc (e\<lparr>n_nl := n\<rparr>) @ q)"
    and "j + length xs \<le> length (n_body e) \<Longrightarrow>
      copy_in (p @ enc e @ q) (k + 8 + j) (length xs) xs = Inr (p @ enc (e\<lparr>n_body := take j (n_body e) @ xs @ drop (j + length xs) (n_body e)\<rparr>) @ q)"
  using assms by (simp_all add: wr32_def wr16_def enc_def elen_def copy_in_def)

text \<open>A filesystem with blocks smaller than 64 KiB and without metadata checksums.\<close>

definition dir_fs :: "mnt \<Rightarrow> bool" where
  "dir_fs m \<longleftrightarrow> blksize m < 65536 \<and> blksize m mod 4 = 0 \<and> 12 \<le> blksize m \<and> plain_fs m"

lemma dir_fs_simps:
  assumes "dir_fs m"
  shows "csum_size m = 0" and "rec_len_of m len = unat len" and "n \<le> blksize m \<Longrightarrow> rec_len_code m n = of_nat n"
  using assms by (simp_all add: dir_fs_def plain_fs_def csum_size_def rec_len_of_def rec_len_code_def)

lemma get_rec_len_entry:
  assumes "dir_fs m" and "k = length p" and "elen e < 65536"
  shows "ext2_get_rec_len m (p @ enc e @ q) k = Inr (elen e)"
  using entry_reads(2,5) [OF assms(2,3)] by (simp add: ext2_get_rec_len_def dir_fs_simps(2) [OF assms(1)])

lemma strncmp_correct:
  "n \<le> length a \<Longrightarrow> n \<le> length b \<Longrightarrow> \<exists>r. strncmp a b n = Inr r \<and> (r = 0 \<longleftrightarrow> take n a = take n b)"
proof (induction a b n rule: strncmp.induct)
  case (2 x a y b n)
  show ?case
  proof (cases "x = y")
    case True
    then show ?thesis using 2 by auto
  next
    case False
    then have "x <s y \<or> y <s x" by (metis signed.less_linear)
    then show ?thesis using False by (auto simp: signed.not_less_iff_gr_or_eq)
  qed
qed auto

lemma same_name_entry:
  assumes "k = length p" and "ent_ok e" and "elen e < 65536"
  shows "same_name name (p @ enc e @ q) k (n_nl e) = Inr (name = ename e)"
proof -
  have len: "name_len (n_nl e) \<le> length (n_body e)" using assms(2) by (simp add: ent_ok_def elen_def)
  have drop: "drop (k + 8) (p @ enc e @ q) = n_body e @ q" by (rule entry_reads(4) [OF assms(1,3)])
  show ?thesis
  proof (cases "length name = name_len (n_nl e)")
    case True
    obtain r where "strncmp (name @ [0]) (n_body e @ q) (name_len (n_nl e)) = Inr r" "r = 0 \<longleftrightarrow> name = ename e"
      using strncmp_correct [of "name_len (n_nl e)" "name @ [0]" "n_body e @ q"] True len by (auto simp: ename_def)
    then show ?thesis using True drop by (simp add: same_name_def)
  next
    case False
    then show ?thesis using len by (auto simp: same_name_def ename_def)
  qed
qed

section \<open>The loop over a block\<close>

text \<open>One round on an entry, for the flags that are used and callbacks that do not look at the kind of the entry.\<close>

declare dir_loop.simps [simp del]

lemma dir_loop_end: "dir_loop (Suc fuel) f flags (blksize m) (blksize m) nr en ch r b m' l = Inr (Finished ch r False b m' l)"
proof -
  have "\<not> blksize m < blksize m - 8" by simp
  then show ?thesis by (simp only: dir_loop.simps simp_thms if_True)
qed

lemma dir_loop_round:
  assumes fs: "dir_fs m" and e: "ent_ok e" and sz: "length p + elen e \<le> blksize m" and fl: "flags AND DIRENT_FLAG_REMOVED = 0"
  shows "dir_loop (Suc fuel) f flags (blksize m) (length p) (length p) en ch r (p @ enc e @ q) m l =
    (if n_ino e = 0 \<and> flags AND DIRENT_FLAG_EMPTY = 0
     then dir_loop fuel f flags (blksize m) (length p + elen e) (length p + elen e) en ch r (p @ enc e @ q) m l
     else bindE (f en (length p) (blksize m) (p @ enc e @ q) m l) (\<lambda>(r, b, m', l).
       let en = (if en < DIRENT_OTHER_FILE then en + 1 else en); ch = (ch \<or> r AND DIRENT_CHANGED \<noteq> 0)
       in bindE (if r AND DIRENT_CHANGED \<noteq> 0 then ext2_get_rec_len m' b (length p) else Inr (elen e)) (\<lambda>n.
          if r AND DIRENT_ABORT \<noteq> 0 then Inr (Finished ch r True b m' l)
          else dir_loop fuel f flags (blksize m) (length p + n) (length p + n) en ch r b m' l)))"
proof -
  have small: "elen e < 65536" using fs sz by (simp add: dir_fs_def)
  note rd = entry_reads(1-4) [OF refl small, of p q] entry_reads(5) [OF refl small] and get = get_rec_len_entry [OF fs refl small, of p q]
  have in_block: "length p < blksize m - 8" "\<not> length p + elen e > blksize m" using e sz unfolding ent_ok_def by linarith+
  then have no_tail: "length p \<noteq> blksize m - csum_size m" by (simp add: dir_fs_simps(1) [OF fs])
  have ok: "\<not> elen e < 8" "elen e mod 4 = 0" "\<not> name_len (n_nl e) + 8 > elen e" using e by (simp_all add: ent_ok_def)
  have nx: "next_offset m' flags b k n = Inr (k + n)" for m' b k n by (simp add: next_offset_def fl)
  show ?thesis
    by (subst dir_loop.simps) (simp add: rd get nx in_block no_tail ok Let_def cong: if_cong)
qed

section \<open>The direct blocks of a directory\<close>

text \<open>A loop rule: an invariant that a visit keeps as long as it does not end the iteration.\<close>

lemma direct_loop_rule:
  assumes "Inv i ret ctx" and "n + i = N"
    and skip: "\<And>i ret ctx. Inv i ret ctx \<Longrightarrow> i < N \<Longrightarrow> get_loc ctx (Slot i) = Inr 0 \<Longrightarrow> Inv (i + 1) ret (ctx\<lparr>b_blkcnt := b_blkcnt ctx + 1\<rparr>)"
    and slot: "\<And>i ret ctx. Inv i ret ctx \<Longrightarrow> i < N \<Longrightarrow> \<exists>b. get_loc ctx (Slot i) = Inr b"
    and step: "\<And>i ret ctx b. Inv i ret ctx \<Longrightarrow> i < N \<Longrightarrow> get_loc ctx (Slot i) = Inr b \<Longrightarrow> b \<noteq> 0 \<Longrightarrow>
      \<exists>r ctx'. visit f ctx (Slot i) (b_blkcnt ctx) 0 i = Inr (r, ctx') \<and>
        (if (ret OR r) AND BLOCK_ABORT \<noteq> 0 then Post (True, ret OR r, ctx') else Inv (i + 1) (ret OR r) (ctx'\<lparr>b_blkcnt := b_blkcnt ctx' + 1\<rparr>))"
    and final: "\<And>ret ctx. Inv N ret ctx \<Longrightarrow> Post (False, ret, ctx)"
    and flags: "flags AND BLOCK_FLAG_APPEND = 0"
  shows "\<exists>s. direct_loop f flags n i ret ctx = Inr s \<and> Post s"
  using assms(1,2)
proof (induction n arbitrary: i ret ctx)
  case 0
  then show ?case using final by simp
next
  case (Suc n)
  obtain b where b: "get_loc ctx (Slot i) = Inr b" using slot [OF Suc.prems(1)] Suc.prems(2) by auto
  show ?case
  proof (cases "b = 0")
    case True
    then show ?thesis using Suc.IH [OF skip [OF Suc.prems(1)]] Suc.prems(2) b by (simp add: flags)
  next
    case False
    obtain r ctx' where v: "visit f ctx (Slot i) (b_blkcnt ctx) 0 i = Inr (r, ctx')"
      and n: "if (ret OR r) AND BLOCK_ABORT \<noteq> 0 then Post (True, ret OR r, ctx') else Inv (i + 1) (ret OR r) (ctx'\<lparr>b_blkcnt := b_blkcnt ctx' + 1\<rparr>)"
      using step [OF Suc.prems(1) _ b False] Suc.prems(2) by auto
    show ?thesis
    proof (cases "(ret OR r) AND BLOCK_ABORT = 0")
      case True
      then have "Inv (i + 1) (ret OR r) (ctx'\<lparr>b_blkcnt := b_blkcnt ctx' + 1\<rparr>)" using n by simp
      then show ?thesis using Suc.IH Suc.prems(2) b v False True by simp
    next
      case F: False
      then show ?thesis using n b v False by simp
    qed
  qed
qed

text \<open>A callback that leaves the block number as it is leaves the inode as it is.\<close>

lemma visit_slot:
  assumes "f (b_mnt ctx) (b_private ctx) (ucast b) (b_blkcnt ctx) 0 i = Inr (r, ucast b, m, q)" and "get_loc ctx (Slot i) = Inr b"
  shows "visit f ctx (Slot i) (b_blkcnt ctx) 0 i = Inr (r, ctx\<lparr>b_mnt := m, b_private := q\<rparr>)"
proof -
  have b: "i < length (i_block (b_inode ctx))" "i_block (b_inode ctx) ! i = b"
    using assms(2) by (simp_all add: get_loc_def split: if_splits)
  have "(b_inode ctx)\<lparr>i_block := (i_block (b_inode ctx))[i := b]\<rparr> = b_inode ctx"
    using b(2) by (cases "b_inode ctx") auto
  then show ?thesis using assms b by (simp add: visit_def put_loc_def ucast_32_64_32)
qed

definition dir_slots :: "Ext2Inode \<Rightarrow> nat \<Rightarrow> u32 list" where
  "dir_slots i k = filter (\<lambda>b. b \<noteq> 0) (drop k (take 12 (i_block i)))"

text \<open>A directory with direct blocks only, and the entries of its blocks.\<close>

definition dir_inode :: "mnt \<Rightarrow> dnode \<Rightarrow> bool" where
  "dir_inode m d \<longleftrightarrow> mode_dir (ucast (d_vmode d)) \<and> s_creator_os (f_super (m_fs m)) \<noteq> EXT2_OS_HURD \<and>
     block_mapped (f_inode (d_file d)) \<and> length (i_block (f_inode (d_file d))) = 15 \<and>
     (\<forall>k \<in> {12, 13, 14}. i_block (f_inode (d_file d)) ! k = 0)"

definition block_view :: "mnt \<Rightarrow> u32 \<Rightarrow> dent list \<Rightarrow> bool" where
  "block_view m b es \<longleftrightarrow> addr_ok m (ucast b) \<and> block_bytes m (ucast b) = dimage es \<and> (\<forall>e \<in> set es. ent_ok e)"

definition dir_view :: "mnt \<Rightarrow> dnode \<Rightarrow> dent list list \<Rightarrow> bool" where
  "dir_view m d ess \<longleftrightarrow> dir_fs m \<and> dev_ok m \<and> dir_inode m d \<and> distinct (dir_slots (f_inode (d_file d)) 0) \<and>
     list_all2 (block_view m) (dir_slots (f_inode (d_file d)) 0) ess"

lemma dir_slots_step:
  assumes "length (i_block i) = 15" and "k < 12"
  shows "dir_slots i k = (if i_block i ! k \<noteq> 0 then [i_block i ! k] else []) @ dir_slots i (Suc k)"
  using assms by (simp add: dir_slots_def Cons_nth_drop_Suc [symmetric])

lemma dir_slots_end: "dir_slots i 12 = []"
  by (simp add: dir_slots_def)

lemma read_dir_block_ok:
  assumes "dir_fs m" and "dev_ok m" and "addr_ok m b"
  shows "ext2_read_dir_block m d b = Inr (Inr (block_bytes m b))"
  using assms read_block [OF assms(2,3)]
  by (simp add: ext2_read_dir_block_def ext2_dir_block_checksum_valid_def dir_fs_def plain_fs_def)

lemma dir_slots_view:
  assumes "list_all2 R (dir_slots i k) ess" and "length (i_block i) = 15" and "k < 12" and "i_block i ! k \<noteq> 0"
  obtains es rest where "ess = es # rest" and "R (i_block i ! k) es" and "list_all2 R (dir_slots i (Suc k)) rest"
  using assms dir_slots_step [OF assms(2,3)] by (auto simp: list_all2_Cons1)

definition start_ctx :: "mnt \<Rightarrow> Ext2Inode \<Rightarrow> u8 list \<Rightarrow> 'p \<Rightarrow> 'p Ext2BlockContext" where
  "start_ctx m i buf q = \<lparr>b_inode = i, b_buf = buf, b_blkcnt = 0, b_err = 0, b_mnt = m, b_private = q\<rparr>"

text \<open>An iteration over direct blocks is the loop over them and the end of the iteration.\<close>

lemma index_step_zero: "get_loc ctx (Slot k) = Inr 0 \<Longrightarrow> flags AND BLOCK_FLAG_APPEND = 0 \<Longrightarrow>
    index_step node flags k n (False, ret, ctx) = Inr (False, ret, ctx\<lparr>b_blkcnt := b_blkcnt ctx + n\<rparr>)"
  by (simp add: index_step_def)

lemma index_step_ended: "index_step node flags k n (True, ret, ctx) = Inr (True, ret, ctx)"
  by (simp add: index_step_def)

lemma map_steps_direct:
  assumes loop: "direct_loop f BLOCK_FLAG_READ_ONLY 12 0 0 ctx0 = Inr (ended, ret, ctx)"
    and i: "length (i_block (b_inode ctx)) = 15" "\<forall>k \<in> {12, 13, 14}. i_block (b_inode ctx) ! k = 0"
  shows "\<exists>x ret' ctx'. map_steps f BLOCK_FLAG_READ_ONLY (False, 0, ctx0) = Inr (x, ret', ctx') \<and> b_inode ctx' = b_inode ctx \<and> b_mnt ctx' = b_mnt ctx
    \<and> b_private ctx' = b_private ctx \<and> (ret' AND BLOCK_CHANGED = 0 \<longleftrightarrow> ret AND BLOCK_CHANGED = 0)
    \<and> (ret AND BLOCK_CHANGED = 0 \<longrightarrow> ret' = ret)"
proof -
  have z: "get_loc (ctx\<lparr>b_blkcnt := n\<rparr>) (Slot k) = Inr 0" if "k \<in> {12, 13, 14}" for n k using i that by (auto simp: get_loc_def)
  have z0: "get_loc ctx (Slot k) = Inr 0" if "k \<in> {12, 13, 14}" for k using i that by (auto simp: get_loc_def)
  have fl: "BLOCK_FLAG_READ_ONLY AND BLOCK_FLAG_APPEND = 0" by (simp add: BLOCK_FLAG_READ_ONLY_def BLOCK_FLAG_APPEND_def)
  have bits: "(ret OR BLOCK_ABORT OR BLOCK_ERROR) AND BLOCK_CHANGED = ret AND BLOCK_CHANGED"
    by (simp add: BLOCK_ABORT_def BLOCK_ERROR_def BLOCK_CHANGED_def bit.conj_disj_distrib2)
  note defs = map_steps_def Let_def EXT2_NDIR_BLOCKS_def EXT2_IND_BLOCK_def EXT2_DIND_BLOCK_def EXT2_TIND_BLOCK_def
  consider (ended) ended | (bad) "\<not> ended" "ret AND BLOCK_CHANGED \<noteq> 0" | (go) "\<not> ended" "ret AND BLOCK_CHANGED = 0" by blast
  then show ?thesis
  proof cases
    case ended
    then show ?thesis using loop by (auto simp: defs index_step_ended)
  next
    case bad
    then have "read_only_violated BLOCK_FLAG_READ_ONLY ret" by (simp add: read_only_violated_def BLOCK_FLAG_READ_ONLY_def)
    then show ?thesis using bad loop bits by (auto simp: defs index_step_ended refuse_def)
  next
    case go
    then have "\<not> read_only_violated BLOCK_FLAG_READ_ONLY ret" by (simp add: read_only_violated_def)
    then show ?thesis using go loop z z0 by (auto simp: defs index_step_zero fl)
  qed
qed

lemma block_iterate_direct:
  assumes d: "dir_inode m d" and loop: "direct_loop f BLOCK_FLAG_READ_ONLY 12 0 0 (start_ctx m (f_inode (d_file d)) buf q) = Inr (ended, ret, ctx)"
    and i: "b_inode ctx = f_inode (d_file d)" and err: "ret AND BLOCK_ERROR = 0"
  shows "\<exists>ctx' ret'. ext2_block_iterate fuel e xo (Some buf) f BLOCK_FLAG_READ_ONLY m ino (f_inode (d_file d)) q =
      bindE (end_iterate e ino ret' ctx') (\<lambda>(r, ctx). Inr (r, b_inode ctx, b_mnt ctx, b_private ctx))
    \<and> b_inode ctx' = b_inode ctx \<and> b_mnt ctx' = b_mnt ctx \<and> b_private ctx' = b_private ctx
    \<and> (ret' AND BLOCK_CHANGED = 0 \<longleftrightarrow> ret AND BLOCK_CHANGED = 0) \<and> (ret AND BLOCK_CHANGED = 0 \<longrightarrow> ret' = ret)"
proof -
  have di: "block_mapped (f_inode (d_file d))" "length (i_block (f_inode (d_file d))) = 15" "s_creator_os (f_super (m_fs m)) \<noteq> EXT2_OS_HURD"
    "\<forall>k \<in> {12, 13, 14}. i_block (f_inode (d_file d)) ! k = 0" using d by (simp_all add: dir_inode_def)
  have "\<exists>x ret' ctx'. map_steps f BLOCK_FLAG_READ_ONLY (False, 0, start_ctx m (f_inode (d_file d)) buf q) = Inr (x, ret', ctx') \<and> b_inode ctx' = b_inode ctx \<and> b_mnt ctx' = b_mnt ctx
    \<and> b_private ctx' = b_private ctx \<and> (ret' AND BLOCK_CHANGED = 0 \<longleftrightarrow> ret AND BLOCK_CHANGED = 0) \<and> (ret AND BLOCK_CHANGED = 0 \<longrightarrow> ret' = ret)"
    by (rule map_steps_direct [OF loop]) (use di i in simp_all)
  then obtain x ret' ctx' where "map_steps f BLOCK_FLAG_READ_ONLY (False, 0, start_ctx m (f_inode (d_file d)) buf q) = Inr (x, ret', ctx')"
    and c: "b_inode ctx' = b_inode ctx" "b_mnt ctx' = b_mnt ctx" "b_private ctx' = b_private ctx" "ret' AND BLOCK_CHANGED = 0 \<longleftrightarrow> ret AND BLOCK_CHANGED = 0"
      "ret AND BLOCK_CHANGED = 0 \<longrightarrow> ret' = ret" by blast
  then have "ext2_block_iterate fuel e xo (Some buf) f BLOCK_FLAG_READ_ONLY m ino (f_inode (d_file d)) q =
      bindE (end_iterate e ino ret' ctx') (\<lambda>(r, ctx). Inr (r, b_inode ctx, b_mnt ctx, b_private ctx))"
    using di(1,3) by (simp add: ext2_block_iterate_def block_mapped_def translator_step_def start_ctx_def BLOCK_FLAG_READ_ONLY_def BLOCK_FLAG_NO_LARGE_def)
  then show ?thesis using c by blast
qed

definition iter_ok :: "'h iter_env \<Rightarrow> bool" where
  "iter_ok it \<longleftrightarrow> \<not> e_block_oom (it_env it) \<and> it_buf it \<noteq> None"

section \<open>Searching a directory\<close>

text \<open>The entries an iteration shows to its callback, and the first one a search selects.\<close>

definition shown :: "u32 \<Rightarrow> dent list \<Rightarrow> dent list" where
  "shown flags es = filter (\<lambda>e. n_ino e \<noteq> 0 \<or> flags AND DIRENT_FLAG_EMPTY \<noteq> 0) es"

fun first_sel :: "('a \<Rightarrow> 'b option) \<Rightarrow> 'a list \<Rightarrow> 'b option" where
  "first_sel sel [] = None"
| "first_sel sel (x # xs) = (case sel x of Some y \<Rightarrow> Some y | None \<Rightarrow> first_sel sel xs)"

lemma first_sel_append: "first_sel sel (xs @ ys) = (case first_sel sel xs of Some y \<Rightarrow> Some y | None \<Rightarrow> first_sel sel ys)"
  by (induction xs) (simp_all split: option.split)

lemma shown_append: "shown flags (es @ fs) = shown flags es @ shown flags fs"
  by (simp add: shown_def)

text \<open>
  A callback that searches: it goes on at the entries it does not select and ends the iteration at the first one it does, with
  a result that only depends on this entry. It does not change the block.
\<close>

locale entry_search =
  fixes f :: "'p dirent_fn" and sel :: "dent \<Rightarrow> 'p option"
  assumes visits: "dir_fs m \<Longrightarrow> ent_ok e \<Longrightarrow> length p + elen e \<le> blksize m \<Longrightarrow>
    f en (length p) (blksize m) (p @ enc e @ q) m x =
      Inr (case sel e of None \<Rightarrow> (0, p @ enc e @ q, m, x) | Some y \<Rightarrow> (DIRENT_ABORT, p @ enc e @ q, m, y))"
begin

lemma search_loop:
  assumes fs: "dir_fs m" and fl: "flags AND DIRENT_FLAG_REMOVED = 0" and ok: "\<forall>e \<in> set es. ent_ok e"
    and len: "length (dimage pre @ dimage es) = blksize m" and fuel: "length (dimage es) < fuel"
  shows "dir_loop fuel f flags (blksize m) (length (dimage pre)) (length (dimage pre)) en ch 0 (dimage pre @ dimage es) m x =
    Inr (case first_sel sel (shown flags es) of
        Some y \<Rightarrow> Finished ch DIRENT_ABORT True (dimage pre @ dimage es) m y
      | None \<Rightarrow> Finished ch 0 False (dimage pre @ dimage es) m x)"
  using ok len fuel
proof (induction es arbitrary: pre en fuel)
  case Nil
  then show ?case by (cases fuel) (simp_all add: dir_loop_end shown_def)
next
  case (Cons e es)
  obtain n where n: "fuel = Suc n" using Cons.prems(3) by (cases fuel) auto
  have e: "ent_ok e" and sz: "length (dimage pre) + elen e \<le> blksize m" using Cons.prems(1,2) by auto
  have pos: "0 < elen e" using e by (simp add: ent_ok_def)
  have rest: "dir_loop n f flags (blksize m) (length (dimage pre) + elen e) (length (dimage pre) + elen e) en' ch 0 (dimage pre @ dimage (e # es)) m x =
    Inr (case first_sel sel (shown flags es) of
        Some y \<Rightarrow> Finished ch DIRENT_ABORT True (dimage pre @ dimage (e # es)) m y
      | None \<Rightarrow> Finished ch 0 False (dimage pre @ dimage (e # es)) m x)" for en'
    using Cons.IH [of "pre @ [e]" n en'] Cons.prems n pos by (simp cong: option.case_cong)
  note call = visits [OF fs e sz, of en "dimage es" x]
  show ?case
    using rest dir_loop_round [OF fs e sz fl, of n f en ch 0 "dimage es" x] call n
    by (cases "sel e") (simp_all add: shown_def DIRENT_ABORT_def DIRENT_CHANGED_def Let_def cong: option.case_cong)
qed

lemma search_block:
  assumes fs: "dir_fs m" and fl: "flags AND DIRENT_FLAG_REMOVED = 0" and dev: "dev_ok m" and v: "block_view m b es"
  shows "ext2_process_dir_block f flags d m (x, err) (ucast b) cnt rb ro =
    Inr (case first_sel sel (shown flags es) of
        Some y \<Rightarrow> (BLOCK_ABORT, ucast b, m, y, 0)
      | None \<Rightarrow> (0, ucast b, m, x, 0))"
proof -
  have b: "addr_ok m (ucast b)" "block_bytes m (ucast b) = dimage es" "\<forall>e \<in> set es. ent_ok e" using v by (simp_all add: block_view_def)
  have len: "length (dimage es) = blksize m" using b(2) length_block_bytes [of m "ucast b"] by simp
  note loop = search_loop [OF fs fl b(3), of "[]" "blksize m + 1" _ False x, simplified]
  show ?thesis
    using len read_dir_block_ok [OF fs dev b(1)] b(2)
    by (simp add: ext2_process_dir_block_def loop Let_def DIRENT_ABORT_def BLOCK_ABORT_def split: option.split)
qed

lemma search_direct:
  assumes fs: "dir_fs m" and fl: "flags AND DIRENT_FLAG_REMOVED = 0" and dev: "dev_ok m" and len: "length (i_block (b_inode ctx)) = 15"
    and v: "list_all2 (block_view m) (dir_slots (b_inode ctx) 0) ess" and m: "b_mnt ctx = m" and q: "b_private ctx = (x, 0)"
  shows "\<exists>c. direct_loop (ext2_process_dir_block f flags d) BLOCK_FLAG_READ_ONLY 12 0 0 ctx =
    Inr (case first_sel sel (shown flags (concat ess)) of
        Some y \<Rightarrow> (True, BLOCK_ABORT, ctx\<lparr>b_blkcnt := c, b_private := (y, 0)\<rparr>)
      | None \<Rightarrow> (False, 0, ctx\<lparr>b_blkcnt := c\<rparr>))"
proof -
  let ?f = "ext2_process_dir_block f flags d"
  define Inv where "Inv = (\<lambda>i (ret :: u32) c. ret = 0 \<and> (\<exists>n. c = ctx\<lparr>b_blkcnt := n\<rparr>) \<and>
    (\<exists>ess'. list_all2 (block_view m) (dir_slots (b_inode ctx) i) ess' \<and> first_sel sel (shown flags (concat ess')) = first_sel sel (shown flags (concat ess))))"
  define Post where "Post = (\<lambda>s :: bool \<times> u32 \<times> _. \<exists>n. s = (case first_sel sel (shown flags (concat ess)) of
        Some y \<Rightarrow> (True, BLOCK_ABORT, ctx\<lparr>b_blkcnt := n, b_private := (y, 0)\<rparr>)
      | None \<Rightarrow> (False, 0, ctx\<lparr>b_blkcnt := n\<rparr>)))"
  have same: "ctx\<lparr>b_private := (x, 0), b_blkcnt := k\<rparr> = ctx\<lparr>b_blkcnt := k\<rparr>" for k using q by (cases ctx) simp
  have "\<exists>s. direct_loop ?f BLOCK_FLAG_READ_ONLY 12 0 0 ctx = Inr s \<and> Post s"
  proof (rule direct_loop_rule [where Inv = Inv and N = 12])
    show "Inv 0 0 ctx" using v by (auto simp: Inv_def intro!: exI [of _ "b_blkcnt ctx"])
  next
    fix i ret c b assume inv: "Inv i ret c" and i: "i < 12" and g: "get_loc c (Slot i) = Inr b" and nz: "b \<noteq> 0"
    obtain n ess' where c: "ret = 0" "c = ctx\<lparr>b_blkcnt := n\<rparr>" and ess': "list_all2 (block_view m) (dir_slots (b_inode ctx) i) ess'"
      "first_sel sel (shown flags (concat ess')) = first_sel sel (shown flags (concat ess))" using inv by (auto simp: Inv_def)
    have b: "i_block (b_inode ctx) ! i = b" using g c by (simp add: get_loc_def split: if_splits)
    obtain es rest where es: "ess' = es # rest" "block_view m b es" "list_all2 (block_view m) (dir_slots (b_inode ctx) (Suc i)) rest"
      using dir_slots_view [OF ess'(1) len i] b nz by metis
    let ?out = "case first_sel sel (shown flags es) of Some y \<Rightarrow> (BLOCK_ABORT, y) | None \<Rightarrow> (0, x)"
    have call: "?f (b_mnt c) (b_private c) (ucast b) (b_blkcnt c) 0 i = Inr (fst ?out, ucast b, m, snd ?out, 0)"
      using search_block [OF fs fl dev es(2), of d x 0 "b_blkcnt c" 0 i] m q c by (simp split: option.split)
    have "visit ?f c (Slot i) (b_blkcnt c) 0 i = Inr (fst ?out, c\<lparr>b_mnt := m, b_private := (snd ?out, 0)\<rparr>)"
      by (rule visit_slot [of ?f c b i, OF call g])
    moreover have "first_sel sel (shown flags (concat ess)) = (case first_sel sel (shown flags es) of Some y \<Rightarrow> Some y | None \<Rightarrow> first_sel sel (shown flags (concat rest)))"
      using ess'(2) es(1) by (simp add: shown_append first_sel_append)
    ultimately show "\<exists>r ctx'. visit ?f c (Slot i) (b_blkcnt c) 0 i = Inr (r, ctx') \<and>
        (if (ret OR r) AND BLOCK_ABORT \<noteq> 0 then Post (True, ret OR r, ctx') else Inv (i + 1) (ret OR r) (ctx'\<lparr>b_blkcnt := b_blkcnt ctx' + 1\<rparr>))"
      using c m q es(3) by (cases "first_sel sel (shown flags es)") (auto simp: Post_def Inv_def BLOCK_ABORT_def same)
  next
    fix i ret c assume "Inv i ret c" "i < 12" "get_loc c (Slot i) = Inr 0"
    then show "Inv (i + 1) ret (c\<lparr>b_blkcnt := b_blkcnt c + 1\<rparr>)"
      using dir_slots_step [OF len, of i] len by (auto simp: Inv_def get_loc_def)
  next
    fix i ret c assume "Inv i ret c" "i < 12"
    then show "\<exists>b. get_loc c (Slot i) = Inr b" using len by (auto simp: Inv_def get_loc_def)
  next
    fix ret c assume "Inv 12 ret c"
    then show "Post (False, ret, c)" by (auto simp: Inv_def Post_def dir_slots_end shown_def)
  qed (simp_all add: BLOCK_FLAG_READ_ONLY_def BLOCK_FLAG_APPEND_def)
  then show ?thesis by (auto simp: Post_def)
qed

lemma search_iterate:
  assumes v: "dir_view m d ess" and it: "iter_ok it" and fl: "flags AND DIRENT_FLAG_REMOVED = 0"
  shows "ext2_dir_iterate it f flags m d x = Inr (0, d, m, case first_sel sel (shown flags (concat ess)) of Some y \<Rightarrow> y | None \<Rightarrow> x)"
proof -
  obtain buf where buf: "it_buf it = Some buf" "\<not> e_block_oom (it_env it)" using it by (auto simp: iter_ok_def)
  have dv: "dir_fs m" "dev_ok m" "dir_inode m d" "list_all2 (block_view m) (dir_slots (f_inode (d_file d)) 0) ess"
    using v by (simp_all add: dir_view_def)
  let ?ctx = "start_ctx m (f_inode (d_file d)) buf (x, 0)" and ?f = "ext2_process_dir_block f flags d" and ?found = "first_sel sel (shown flags (concat ess))"
  obtain c where loop: "direct_loop ?f BLOCK_FLAG_READ_ONLY 12 0 0 ?ctx =
    Inr (case ?found of Some y \<Rightarrow> (True, BLOCK_ABORT, ?ctx\<lparr>b_blkcnt := c, b_private := (y, 0)\<rparr>) | None \<Rightarrow> (False, 0, ?ctx\<lparr>b_blkcnt := c\<rparr>))"
    using search_direct [of m flags ?ctx ess x d] dv fl by (auto simp: start_ctx_def dir_inode_def)
  have "\<exists>ended ret ctx. direct_loop ?f BLOCK_FLAG_READ_ONLY 12 0 0 ?ctx = Inr (ended, ret, ctx) \<and> b_inode ctx = f_inode (d_file d) \<and> b_mnt ctx = m
    \<and> b_private ctx = (case ?found of Some y \<Rightarrow> y | None \<Rightarrow> x, 0) \<and> ret AND BLOCK_CHANGED = 0 \<and> ret AND BLOCK_ERROR = 0"
    using loop by (cases ?found) (auto simp: start_ctx_def BLOCK_ABORT_def BLOCK_CHANGED_def BLOCK_ERROR_def)
  then obtain ended ret ctx where l: "direct_loop ?f BLOCK_FLAG_READ_ONLY 12 0 0 ?ctx = Inr (ended, ret, ctx)" "b_inode ctx = f_inode (d_file d)" "b_mnt ctx = m"
    "b_private ctx = (case ?found of Some y \<Rightarrow> y | None \<Rightarrow> x, 0)" "ret AND BLOCK_CHANGED = 0" "ret AND BLOCK_ERROR = 0" by blast
  from block_iterate_direct [OF dv(3) l(1,2,6), of "it_fuel it" "it_env it" "it_ext it" "d_vino d"] l(5)
  have "ext2_block_iterate (it_fuel it) (it_env it) (it_ext it) (Some buf) ?f BLOCK_FLAG_READ_ONLY m (d_vino d) (f_inode (d_file d)) (x, 0) =
      Inr (0, f_inode (d_file d), m, case ?found of Some y \<Rightarrow> y | None \<Rightarrow> x, 0)"
    using l by (auto simp: end_iterate_def)
  moreover have "mode_dir (ucast (d_vmode d))" using dv(3) by (simp add: dir_inode_def)
  ultimately show ?thesis
    using buf by (simp add: ext2_dir_iterate_def)
qed

end

section \<open>Lookup\<close>

definition name_sel :: "u8 list \<Rightarrow> dent \<Rightarrow> u64 option option" where
  "name_sel name e = (if name = ename e then Some (Some (ucast (n_ino e))) else None)"

interpretation lookup: entry_search "ext2_process_lookup name" "name_sel name" for name
proof
  fix m e and p q :: "u8 list" and en x assume a: "dir_fs m" "ent_ok e" "length p + elen e \<le> blksize m"
  then have small: "elen e < 65536" by (simp add: dir_fs_def)
  show "ext2_process_lookup name en (length p) (blksize m) (p @ enc e @ q) m x =
      Inr (case name_sel name e of None \<Rightarrow> (0, p @ enc e @ q, m, x) | Some y \<Rightarrow> (DIRENT_ABORT, p @ enc e @ q, m, y))"
    using same_name_entry [OF refl a(2) small] entry_reads [OF refl small] by (simp add: ext2_process_lookup_def name_sel_def)
qed

lemma first_name: "first_sel (name_sel name) (shown 0 es) = map_option (\<lambda>n. Some (ucast n)) (map_of (dir_names es) name)"
  by (induction es) (simp_all add: shown_def name_sel_def)

lemma lookup_correct:
  assumes v: "dir_view m d ess" and it: "iter_ok it"
  shows "ext2_lookup_inode it m d name =
    Inr (case map_of (dir_names (concat ess)) name of Some ino \<Rightarrow> Inr (ucast ino) | None \<Rightarrow> Inl (- ENOENT), d, m)"
  using lookup.search_iterate [OF v it, of 0 name None]
  by (simp add: ext2_lookup_inode_def first_name split: option.split)

section \<open>The check for an empty directory\<close>

definition dot_entry :: "dent \<Rightarrow> bool" where
  "dot_entry e \<longleftrightarrow> take 2 (n_body e) = [46, 0] \<or> take 3 (n_body e) = [46, 46, 0]"

lemma strcmp_literal:
  "strcmp (a # b # r) [46, 0] = Inr y \<Longrightarrow> (y = 0) = (a = 46 \<and> b = 0)" "\<exists>y. strcmp (a # b # r) [46, 0] = Inr y"
  "strcmp (a # b # c # r) [46, 46, 0] = Inr z \<Longrightarrow> (z = 0) = (a = 46 \<and> b = 46 \<and> c = 0)" "\<exists>z. strcmp (a # b # c # r) [46, 46, 0] = Inr z"
  by (auto split: if_splits)

interpretation empty_check: entry_search ext2_check_empty "\<lambda>e. if dot_entry e then None else Some False"
proof
  fix m e and p q :: "u8 list" and en x assume a: "dir_fs m" "ent_ok e" "length p + elen e \<le> blksize m"
  then have small: "elen e < 65536" "4 \<le> length (n_body e)" by (simp_all add: dir_fs_def ent_ok_def elen_def)
  from small(2) have "Suc (Suc (Suc 0)) \<le> length (n_body e)" by simp
  then obtain x1 x2 x3 xs where body: "n_body e = x1 # x2 # x3 # xs" by (auto simp: Suc_le_length_iff)
  have drop: "drop (length p + 8) (p @ enc e @ q) = x1 # x2 # x3 # xs @ q" using entry_reads(4) [OF refl small(1), of p q] body by simp
  obtain y where y: "strcmp (x1 # x2 # x3 # xs @ q) [46, 0] = Inr y" "(y = 0) = (x1 = 46 \<and> x2 = 0)"
    using strcmp_literal(1,2) by metis
  obtain z where z: "strcmp (x1 # x2 # x3 # xs @ q) [46, 46, 0] = Inr z" "(z = 0) = (x1 = 46 \<and> x2 = 46 \<and> x3 = 0)"
    using strcmp_literal(3,4) by metis
  have "dot_entry e \<longleftrightarrow> y = 0 \<or> z = 0" using y(2) z(2) body by (simp add: dot_entry_def numeral_eq_Suc)
  then show "ext2_check_empty en (length p) (blksize m) (p @ enc e @ q) m x =
      Inr (case if dot_entry e then None else Some False of None \<Rightarrow> (0, p @ enc e @ q, m, x) | Some y \<Rightarrow> (DIRENT_ABORT, p @ enc e @ q, m, y))"
    unfolding ext2_check_empty_def drop using y(1) z(1) by auto
qed

end
