(* ===== verification/Ext2_Dir_Update.thy ===== *)
theory Ext2_Dir_Update
  imports Ext2_Dir_Entries
begin

unbundle bit_operations_syntax

text \<open>
  Adding an entry: \<^verbatim>\<open>ext2_process_link\<close> merges, splits and fills entries, and \<^verbatim>\<open>ext2_add_link\<close> refines the insertion of a
  name into the list of entries in use.
\<close>

section \<open>One entry\<close>

definition merge :: "dent \<Rightarrow> dent list \<Rightarrow> bool \<times> dent \<times> dent list" where
  "merge e es = (case es of
       e2 # rest \<Rightarrow> if n_ino e2 = 0 then (True, e\<lparr>n_body := n_body e @ enc e2\<rparr>, rest) else (False, e, es)
     | [] \<Rightarrow> (False, e, es))"

definition min_len :: "dent \<Rightarrow> nat" where "min_len e = ext2_dir_rec_len (name_len (n_nl e))"

definition split_front :: "dent \<Rightarrow> dent" where "split_front e = e\<lparr>n_body := take (min_len e - 8) (n_body e)\<rparr>"
definition split_free :: "dent \<Rightarrow> dent" where "split_free e = \<lparr>n_ino = 0, n_nl = 0, n_body = drop (min_len e) (n_body e)\<rparr>"

definition new_nl :: "mnt \<Rightarrow> Ext2Link \<Rightarrow> u16 \<Rightarrow> u16" where
  "new_nl m l n =
     (let n = (n AND 0xff00) OR (of_nat (length (l_name l)) AND 0xff)
      in if has_incompat (f_super (m_fs m)) EXT2_FT_INCOMPAT_FILETYPE then (n AND 0xff) OR push_bit 8 (ucast (l_flags l AND 7)) else n)"

definition filled :: "mnt \<Rightarrow> Ext2Link \<Rightarrow> dent \<Rightarrow> dent" where
  "filled m l e = \<lparr>n_ino = ucast (l_inode l), n_nl = new_nl m l (n_nl e), n_body = l_name l @ drop (length (l_name l)) (n_body e)\<rparr>"

lemma diff_mod4: "a mod 4 = 0 \<Longrightarrow> b mod 4 = 0 \<Longrightarrow> (b - a) mod 4 = 0" for a b :: nat
  by presburger

lemma rec_len_bounds: "n < 256 \<Longrightarrow> n + 8 \<le> ext2_dir_rec_len n \<and> ext2_dir_rec_len n \<le> n + 11 \<and> ext2_dir_rec_len n mod 4 = 0"
  by (simp add: ext2_dir_rec_len_def)

lemma min_len_bounds: "name_len (n_nl e) + 8 \<le> min_len e" "min_len e mod 4 = 0" "min_len e < 270" "8 \<le> min_len e"
  using rec_len_bounds [OF name_len_lt, of "n_nl e"] name_len_lt [of "n_nl e"] by (simp_all add: min_len_def)

lemma merge_entries:
  assumes "merge e es = (mg, e', es')" and "ent_ok e" and "\<forall>x \<in> set es. ent_ok x"
  shows "ent_ok e'" and "\<forall>x \<in> set es'. ent_ok x" and "elen e' + length (dimage es') = elen e + length (dimage es)"
    and "n_ino e' = n_ino e" and "n_nl e' = n_nl e" and "ename e' = ename e" and "dir_names es' = dir_names es" and "elen e \<le> elen e'"
proof -
  have len: "name_len (n_nl e) \<le> length (n_body e)" using assms(2) by (simp add: ent_ok_def elen_def)
  have k: "e' = e \<and> es' = es \<or> (\<exists>e2. es = e2 # es' \<and> n_ino e2 = 0 \<and> e' = e\<lparr>n_body := n_body e @ enc e2\<rparr>)"
    using assms(1) by (auto simp: merge_def split: list.splits if_splits)
  then show "ent_ok e'" using assms(2,3) by (auto simp: ent_ok_def elen_def mod_add_eq [symmetric])
  show "\<forall>x \<in> set es'. ent_ok x" "elen e' + length (dimage es') = elen e + length (dimage es)" "n_ino e' = n_ino e" "n_nl e' = n_nl e"
    "ename e' = ename e" "dir_names es' = dir_names es" "elen e \<le> elen e'"
    using k assms(3) len by (auto simp: elen_def ename_def)
qed

lemma split_entries:
  assumes "ent_ok e" and "min_len e + 12 \<le> elen e" and "n_ino e \<noteq> 0"
  shows "ent_ok (split_front e)" and "ent_ok (split_free e)" and "elen (split_front e) = min_len e" and "elen (split_free e) = elen e - min_len e"
    and "ename (split_front e) = ename e" and "n_ino (split_front e) = n_ino e" and "n_ino (split_free e) = 0"
proof -
  note b = min_len_bounds [of e]
  show l: "elen (split_front e) = min_len e" "elen (split_free e) = elen e - min_len e"
    using assms b by (simp_all add: split_front_def split_free_def elen_def)
  show "ename (split_front e) = ename e" using b by (simp add: split_front_def ename_def min_absorb1)
  have "name_len 0 = 0" by (simp add: name_len_def)
  moreover have "(elen e - min_len e) mod 4 = 0" using assms b by (simp add: ent_ok_def) presburger
  moreover have "12 \<le> elen e - min_len e" using assms(2) by simp
  ultimately show "ent_ok (split_free e)" unfolding ent_ok_def l by (simp add: split_free_def)
  show "n_ino (split_front e) = n_ino e" "n_ino (split_free e) = 0" by (simp_all add: split_front_def split_free_def)
  have "n_nl (split_front e) = n_nl e" by (simp add: split_front_def)
  moreover have pos: "0 < name_len (n_nl e)" using assms(1,3) by (simp add: ent_ok_def)
  moreover have "12 \<le> min_len e" using b(1,2) pos by presburger
  ultimately show "ent_ok (split_front e)" using b unfolding ent_ok_def l by simp
qed

lemma set_rec_len_ok:
  assumes "dir_fs m" and "n \<le> blksize m" and "n mod 4 = 0" and "k + 6 \<le> length b"
  shows "ext2_set_rec_len m n b k = Inr (0, take (k + 4) b @ le16 (of_nat n) @ drop (k + 6) b)"
  using assms dir_fs_simps(3) [OF assms(1,2)] by (simp add: ext2_set_rec_len_def wr16_def dir_fs_def add.commute [of k])

lemma merge_next_ok:
  assumes fs: "dir_fs m" and e: "ent_ok e" and es: "\<forall>x \<in> set es. ent_ok x" and sz: "length p + elen e + length (dimage es) = blksize m"
    and mg: "merge e es = (mg, e', es')"
  shows "merge_next m (length p) (blksize m) (elen e) (p @ enc e @ dimage es) = Inr (0, mg, elen e', p @ enc e' @ dimage es')"
proof (cases es)
  case Nil
  then have "\<not> length p + elen e < blksize m - csum_size m - 8" using sz by (simp add: dir_fs_simps(1) [OF fs])
  then show ?thesis using mg Nil by (simp add: merge_next_def merge_def)
next
  case (Cons e2 rest)
  have e2: "ent_ok e2" using es Cons by simp
  have small: "elen e2 < 65536" "elen e + elen e2 \<le> blksize m" using fs sz Cons by (simp_all add: dir_fs_def)
  have lt: "length p + elen e < blksize m - csum_size m - 8" 
  proof -
    have "12 \<le> elen e2" "length p + elen e + elen e2 \<le> blksize m" using e2 sz Cons by (simp_all add: ent_ok_def)
    then show ?thesis unfolding dir_fs_simps(1) [OF fs] by linarith
  qed
  have k: "length p + elen e = length (p @ enc e)" by simp
  have rd: "rd32 (p @ enc e @ dimage es) (length p + elen e) = Inr (n_ino e2)"
    "rd16 (p @ enc e @ dimage es) (length p + elen e + 4) = Inr (of_nat (elen e2))" "unat (of_nat (elen e2) :: u16) = elen e2"
    using entry_reads(1,2) [OF k small(1), where q = "dimage rest"] entry_reads(5) [OF k small(1)] Cons by simp_all
  have "(elen e + elen e2) mod 4 = 0" using e e2 by (simp add: ent_ok_def mod_add_eq [symmetric])
  then have "ext2_set_rec_len m (elen e + elen e2) (p @ enc e @ dimage es) (length p) = Inr (0, p @ enc (e\<lparr>n_body := n_body e @ enc e2\<rparr>) @ dimage rest)"
    using set_rec_len_ok [OF fs small(2), of "length p" "p @ enc e @ dimage es"] Cons by (simp add: elen_def enc_def)
  then show ?thesis using mg Cons lt rd small sz by (auto simp: merge_next_def merge_def elen_def)
qed

lemma split_entry_ok:
  assumes fs: "dir_fs m" and e: "ent_ok e" and big: "min_len e + 12 \<le> elen e" and sz: "length p + elen e + length q = blksize m"
  shows "split_entry m (length p) (min_len e) (elen e - min_len e) (p @ enc e @ q) = Inr (0, p @ enc (split_front e) @ enc (split_free e) @ q)"
proof -
  note b = min_len_bounds [of e]
  define A where "A = take (min_len e - 8) (n_body e)"
  define H where "H = take 8 (drop (min_len e - 8) (n_body e))"
  define R where "R = drop (min_len e) (n_body e)"
  have body: "n_body e = A @ H @ R" 
  proof -
    have "R = drop 8 (drop (min_len e - 8) (n_body e))" using b(4) by (simp add: R_def)
    then show ?thesis by (simp add: A_def H_def del: drop_drop)
  qed
  have "8 \<le> length (n_body e) - (min_len e - 8)" "min_len e - 8 \<le> length (n_body e)" using big b(4) unfolding elen_def by linarith+
  then have len: "length A = min_len e - 8" "length H = 8" by (simp_all add: A_def H_def min_absorb2)
  have lens: "elen e = min_len e + 8 + length R" using body len b(4) by (simp add: elen_def)
  obtain h1 h2 h3 where H: "H = h1 @ h2 @ h3" "length h1 = 4" "length h2 = 2" "length h3 = 2"
    using len(2) by (intro that [of "take 4 H" "take 2 (drop 4 H)" "drop 2 (drop 4 H)"]) (simp_all del: drop_drop)
  have mods: "min_len e mod 4 = 0" "(elen e - min_len e) mod 4 = 0" using b(2) e diff_mod4 by (simp_all add: ent_ok_def)
  let ?b1 = "p @ le32 (n_ino e) @ le16 (of_nat (min_len e)) @ le16 (n_nl e) @ A @ h1 @ h2 @ h3 @ R @ q"
  have s1: "ext2_set_rec_len m (min_len e) (p @ enc e @ q) (length p) = Inr (0, ?b1)"
    using set_rec_len_ok [OF fs _ mods(1), of "length p" "p @ enc e @ q"] sz lens by (simp add: enc_def body H)
  have u: "unat (of_nat (min_len e) :: u16) = min_len e" using b(3) by (simp add: unat_of_nat_eq)
  have rd: "rd16 ?b1 (length p + 4) = Inr (of_nat (min_len e))" by (simp add: rd16_def)
  let ?front = "p @ le32 (n_ino e) @ le16 (of_nat (min_len e)) @ le16 (n_nl e) @ A"
  have pos: "length ?front = length p + min_len e" using len b(4) by simp
  have w1: "wr32 ?b1 (length p + min_len e) 0 = Inr (?front @ le32 0 @ h2 @ h3 @ R @ q)"
    unfolding pos [symmetric] using H by (simp add: wr32_def)
  have w2: "wr16 (?front @ le32 0 @ h2 @ h3 @ R @ q) (length p + min_len e + 6) 0 = Inr (?front @ le32 0 @ h2 @ le16 0 @ R @ q)"
    unfolding pos [symmetric] using H by (simp add: wr16_def)
  have s2: "ext2_set_rec_len m (elen e - min_len e) (?front @ le32 0 @ h2 @ le16 0 @ R @ q) (length p + min_len e)
      = Inr (0, ?front @ le32 0 @ le16 (of_nat (elen e - min_len e)) @ le16 0 @ R @ q)"
    unfolding pos [symmetric] using set_rec_len_ok [OF fs _ mods(2), of "length ?front" "?front @ le32 0 @ h2 @ le16 0 @ R @ q"] sz H by simp
  have "split_entry m (length p) (min_len e) (elen e - min_len e) (p @ enc e @ q)
      = Inr (0, ?front @ le32 0 @ le16 (of_nat (elen e - min_len e)) @ le16 0 @ R @ q)"
    unfolding split_entry_def by (simp only: s1 bindE_Inr prod.case simp_thms if_False rd u w1 w2 s2)
  moreover have "enc (split_front e) = le32 (n_ino e) @ le16 (of_nat (min_len e)) @ le16 (n_nl e) @ A"
    using len b(4) by (simp add: enc_def split_front_def elen_def A_def)
  moreover have "enc (split_free e) = le32 0 @ le16 (of_nat (elen e - min_len e)) @ le16 0 @ R"
    using lens by (simp add: enc_def split_free_def elen_def R_def)
  ultimately show ?thesis by simp
qed

lemma low_byte:
  "(x AND 0xff00 OR y AND 0xff) AND 0xff = y AND 0xff" "(x AND 0xff OR push_bit 8 z) AND 0xff = x AND 0xff" for x y z :: u16
proof -
  have ff: "(0xff :: u16) = mask 8" by (simp add: mask_eq_exp_minus_1)
  have "(push_bit 8 z) AND 0xff = 0" unfolding ff by (rule bit_word_eqI) (auto simp: bit_simps)
  then show "(x AND 0xff OR push_bit 8 z) AND 0xff = x AND 0xff" by (simp add: bit.conj_disj_distrib2 and.assoc)
  show "(x AND 0xff00 OR y AND 0xff) AND 0xff = y AND 0xff" by (simp add: bit.conj_disj_distrib2 and.assoc)
qed

lemma name_len_new:
  assumes "length (l_name l) < 256"
  shows "name_len (new_nl m l n) = length (l_name l)"
proof -
  have "(of_nat k :: u16) AND 0xff = of_nat k" if "k < 256" for k
  proof -
    have "(of_nat k :: u16) AND mask 8 = of_nat k" 
      unfolding take_bit_eq_mask [symmetric] using that by (simp add: word_unat_eq_iff take_bit_eq_mod unat_mod unat_of_nat_eq)
    then show ?thesis by (simp add: mask_eq_exp_minus_1)
  qed
  then have "(of_nat (length (l_name l)) :: u16) AND 0xff = of_nat (length (l_name l))" using assms .
  moreover have "new_nl m l n AND 0xff = of_nat (length (l_name l)) AND 0xff" by (simp add: new_nl_def Let_def low_byte)
  ultimately show ?thesis using assms by (simp add: name_len_def unat_of_nat_eq)
qed

lemma filled_entry:
  assumes "ent_ok e" and "l_name l \<noteq> []" and "length (l_name l) < 256" and "ext2_dir_rec_len (length (l_name l)) \<le> elen e"
  shows "ent_ok (filled m l e)" and "elen (filled m l e) = elen e" and "ename (filled m l e) = l_name l" and "n_ino (filled m l e) = ucast (l_inode l)"
    and "length (l_name l) \<le> length (n_body e)"
proof -
  show le: "length (l_name l) \<le> length (n_body e)" using rec_len_bounds [OF assms(3)] assms(4) by (simp add: elen_def)
  then show l: "elen (filled m l e) = elen e" by (simp add: filled_def elen_def)
  have n: "name_len (n_nl (filled m l e)) = length (l_name l)" using name_len_new [OF assms(3)] by (simp add: filled_def)
  then show "ename (filled m l e) = l_name l" by (simp add: ename_def filled_def)
  show "n_ino (filled m l e) = ucast (l_inode l)" by (simp add: filled_def)
  show "ent_ok (filled m l e)" using assms(1,2) l n le unfolding ent_ok_def by (simp add: elen_def)
qed

lemma fill_entry_ok:
  assumes "length (l_name l) \<le> length (n_body e)" and small: "elen e < 65536"
  shows "fill_entry m (length p) l (p @ enc e @ q) = Inr (p @ enc (filled m l e) @ q)"
proof -
  let ?e1 = "e\<lparr>n_ino := ucast (l_inode l)\<rparr>"
  let ?n = "(n_nl e AND 0xff00) OR (of_nat (length (l_name l)) AND 0xff)"
  let ?e2 = "?e1\<lparr>n_nl := ?n\<rparr>"
  let ?e3 = "?e2\<lparr>n_body := l_name l @ drop (length (l_name l)) (n_body e)\<rparr>"
  have sm: "elen ?e1 < 65536" "elen ?e3 < 65536" using small assms(1) by (simp_all add: elen_def)
  have c: "copy_in (p @ enc ?e2 @ q) (length p + 8) (length (l_name l)) (l_name l) = Inr (p @ enc ?e3 @ q)"
    using entry_writes(3) [OF refl, of 0 "l_name l" ?e2 p q] assms(1) by simp
  have rec: "r\<lparr>n_ino := a, n_nl := b, n_body := c\<rparr> = \<lparr>n_ino = a, n_nl = b, n_body = c\<rparr>" "r\<lparr>n_ino := a, n_body := c, n_nl := b\<rparr> = \<lparr>n_ino = a, n_nl = b, n_body = c\<rparr>"
    for r :: dent and a b c by (cases r; simp)+
  show ?thesis
    using entry_writes(1) [OF refl, of p e q] entry_reads(3) [OF refl sm(1), of p q] entry_writes(2) [OF refl, of p ?e1 q] c
      entry_reads(3) [OF refl sm(2), of p q] entry_writes(2) [OF refl, of p ?e3 q]
    by (simp add: fill_entry_def filled_def new_nl_def Let_def rec)
qed

text \<open>What \<^verbatim>\<open>ext2_process_link\<close> does at an entry, as an operation on lists of entries.\<close>

lemma process_link_ok:
  assumes fs: "dir_fs m" and e: "ent_ok e" and es: "\<forall>x \<in> set es. ent_ok x" and sz: "length p + elen e + length (dimage es) = blksize m"
    and mg: "merge e es = (mg, e', es')" and l: "\<not> l_done l" "l_name l \<noteq> []" "length (l_name l) < 256"
  shows "ext2_process_link en (length p) (blksize m) (p @ enc e @ dimage es) m l =
    Inr (let need = ext2_dir_rec_len (length (l_name l)); l = l\<lparr>l_err := 0\<rparr>; ret = (if mg then DIRENT_CHANGED else 0)
      in if n_ino e \<noteq> 0
         then if elen e' < min_len e + need then (ret, p @ enc e' @ dimage es', m, l)
              else (DIRENT_CHANGED, p @ enc (split_front e') @ enc (split_free e') @ dimage es', m, l)
         else if elen e' < need then (ret, p @ enc e' @ dimage es', m, l)
         else (DIRENT_ABORT OR DIRENT_CHANGED, p @ enc (filled m l e') @ dimage es', m, l\<lparr>l_done := True\<rparr>))"
proof -
  note m = merge_entries [OF mg e es]
  have sz': "length p + elen e' + length (dimage es') = blksize m" using sz m(3) by simp
  have small: "elen e < 65536" "elen e' < 65536" using fs sz sz' by (simp_all add: dir_fs_def)
  have need: "12 \<le> ext2_dir_rec_len (length (l_name l))"
  proof -
    have "0 < length (l_name l)" using l(2) by simp
    then show ?thesis using rec_len_bounds [OF l(3)] by presburger
  qed
  have ml: "min_len e' = min_len e" by (simp add: min_len_def m(5))
  note rd = entry_reads(1,3) [OF refl small(2), of p "dimage es'"]
  have sp: "split_entry m (length p) (min_len e) (elen e' - min_len e) (p @ enc e' @ dimage es') =
      Inr (0, p @ enc (split_front e') @ enc (split_free e') @ dimage es')"
    if "\<not> elen e' < min_len e + ext2_dir_rec_len (length (l_name l))"
    using split_entry_ok [OF fs m(1) _ sz'] ml need that by simp
  have fl: "fill_entry m (length p) (l\<lparr>l_err := 0\<rparr>) (p @ enc e' @ dimage es') = Inr (p @ enc (filled m (l\<lparr>l_err := 0\<rparr>) e') @ dimage es')"
    if "\<not> elen e' < ext2_dir_rec_len (length (l_name l))"
    using fill_entry_ok [of "l\<lparr>l_err := 0\<rparr>" e', OF _ small(2)] filled_entry(5) [OF m(1) l(2,3)] that by simp
  show ?thesis
    unfolding ext2_process_link_def get_rec_len_entry [OF fs refl small(1)]
    using l(1) merge_next_ok [OF fs e es sz mg] rd sp fl
    by (simp add: get_rec_len_entry [OF fs refl small(1)] Let_def m(4) ml min_len_def [of e', symmetric])
qed

section \<open>One block\<close>

definition inserted :: "'a \<Rightarrow> 'a list \<Rightarrow> 'a list \<Rightarrow> bool" where
  "inserted x xs ys \<longleftrightarrow> (\<exists>as bs. xs = as @ bs \<and> ys = as @ x # bs)"

definition need_len :: "Ext2Link \<Rightarrow> nat" where "need_len l = ext2_dir_rec_len (length (l_name l))"

definition fits :: "nat \<Rightarrow> dent \<Rightarrow> bool" where
  "fits need e \<longleftrightarrow> (if n_ino e \<noteq> 0 then min_len e + need else need) \<le> elen e"

definition has_room :: "nat \<Rightarrow> dent list \<Rightarrow> bool" where
  "has_room need es \<longleftrightarrow> (\<exists>e \<in> set es. fits need e)"

definition link_ok :: "Ext2Link \<Rightarrow> bool" where
  "link_ok l \<longleftrightarrow> \<not> l_done l \<and> l_name l \<noteq> [] \<and> length (l_name l) < 256 \<and> (ucast (l_inode l) :: u32) \<noteq> 0"

text \<open>What is left of the entries after a block was scanned: the new entry is in it, or nothing in use has changed.\<close>

definition linked :: "Ext2Link \<Rightarrow> dent list \<Rightarrow> dent list \<Rightarrow> bool \<Rightarrow> bool \<Rightarrow> u32 \<Rightarrow> bool" where
  "linked l es es' dn ch r \<longleftrightarrow> (\<forall>e \<in> set es'. ent_ok e) \<and> length (dimage es') = length (dimage es) \<and>
     (if dn then inserted (l_name l, ucast (l_inode l)) (dir_names es) (dir_names es') \<and> ch \<and> r = DIRENT_ABORT OR DIRENT_CHANGED
      else dir_names es' = dir_names es \<and> (\<not> ch \<longrightarrow> es' = es) \<and> r \<in> {0, DIRENT_CHANGED}) \<and>
     (has_room (need_len l) es \<longrightarrow> dn)"

lemma linked_err [simp]: "linked (l\<lparr>l_err := x\<rparr>) = linked l"
  by (simp add: fun_eq_iff linked_def need_len_def)

lemma inserted_append: "inserted x xs ys \<Longrightarrow> inserted x (zs @ xs) (zs @ ys)"
  by (auto simp: inserted_def) (metis append.assoc)

lemma mod4_le: "a mod 4 = 0 \<Longrightarrow> b mod 4 = 0 \<Longrightarrow> n + 8 \<le> a \<Longrightarrow> b \<le> n + 11 \<Longrightarrow> b \<le> a" for a b n :: nat
  by presburger

lemma min_len_le: "ent_ok e \<Longrightarrow> min_len e \<le> elen e"
  using mod4_le [of "elen e" "min_len e" "name_len (n_nl e)"] rec_len_bounds [OF name_len_lt, of "n_nl e"]
  by (simp add: ent_ok_def min_len_def)

lemma need_ge: "xs \<noteq> [] \<Longrightarrow> length xs < 256 \<Longrightarrow> 12 \<le> ext2_dir_rec_len (length xs)"
  by (cases xs) (simp_all add: ext2_dir_rec_len_def)

lemma room_after_merge:
  assumes "merge e es = (mg, e', es')" and "ent_ok e" and "has_room need (e # es)"
    and "elen e' < (if n_ino e \<noteq> 0 then min_len e + need else need)"
  shows "has_room need es'"
proof -
  have k: "e' = e \<and> es' = es \<or> (\<exists>e2. es = e2 # es' \<and> n_ino e2 = 0 \<and> elen e' = elen e + elen e2)"
    using assms(1) by (auto simp: merge_def elen_def split: list.splits if_splits)
  moreover have "\<not> fits need e" using k assms(4) by (auto simp: fits_def split: if_splits)
  moreover have "\<not> fits need e2" if "elen e' = elen e + elen e2" "n_ino e2 = 0" for e2
    using that assms(4) min_len_le [OF assms(2)] by (auto simp: fits_def split: if_splits)
  ultimately show ?thesis using assms(3) by (auto simp: has_room_def)
qed

text \<open>One round of the loop, as a function on entries.\<close>

lemma link_round:
  assumes fs: "dir_fs m" and l: "link_ok l" and e: "ent_ok e" and rest: "\<forall>x \<in> set rest. ent_ok x" and sz: "length p + elen e + length (dimage rest) = blksize m"
    and mg: "merge e rest = (mg, e', es')"
  shows "dir_loop (Suc n) ext2_process_link DIRENT_FLAG_EMPTY (blksize m) (length p) (length p) en ch r (p @ dimage (e # rest)) m l =
    (let l = l\<lparr>l_err := 0\<rparr>; en = (if en < DIRENT_OTHER_FILE then en + 1 else en); go = (\<lambda>p b ch r.
           dir_loop n ext2_process_link DIRENT_FLAG_EMPTY (blksize m) (length p) (length p) en ch r (p @ b) m l)
     in if elen e' < (if n_ino e \<noteq> 0 then min_len e + need_len l else need_len l)
        then go (p @ enc e') (dimage es') (ch \<or> mg) (if mg then DIRENT_CHANGED else 0)
        else if n_ino e \<noteq> 0 then go (p @ enc (split_front e')) (dimage (split_free e' # es')) True DIRENT_CHANGED
        else Inr (Finished True (DIRENT_ABORT OR DIRENT_CHANGED) True (p @ dimage (filled m l e' # es')) m (l\<lparr>l_done := True\<rparr>)))"
proof -
  note me = merge_entries [OF mg e rest]
  have small: "elen e' < 65536" "length p + elen e \<le> blksize m" using fs sz me(3) by (simp_all add: dir_fs_def)
  have lk: "\<not> l_done l" "l_name l \<noteq> []" "length (l_name l) < 256" using l by (simp_all add: link_ok_def)
  have fl: "DIRENT_FLAG_EMPTY AND DIRENT_FLAG_REMOVED = 0" "DIRENT_FLAG_EMPTY AND DIRENT_FLAG_EMPTY \<noteq> 0"
    by (simp_all add: DIRENT_FLAG_EMPTY_def DIRENT_FLAG_REMOVED_def)
  have bits: "DIRENT_CHANGED AND DIRENT_CHANGED \<noteq> 0" "DIRENT_CHANGED AND DIRENT_ABORT = 0" "(DIRENT_ABORT OR DIRENT_CHANGED) AND DIRENT_ABORT \<noteq> 0"
    "(DIRENT_ABORT OR DIRENT_CHANGED) AND DIRENT_CHANGED \<noteq> 0" by (simp_all add: DIRENT_CHANGED_def DIRENT_ABORT_def)
  have same: "\<not> mg \<Longrightarrow> e' = e \<and> es' = rest" using mg by (auto simp: merge_def split: list.splits if_splits)
  have front: "elen (split_front e') = min_len e" if "\<not> elen e' < min_len e + need_len l" "n_ino e \<noteq> 0"
    using split_entries(3) [OF me(1)] that need_ge [OF lk(2,3)] me(4,5) by (simp add: min_len_def need_len_def)
  have fill: "elen (filled m (l\<lparr>l_err := 0\<rparr>) e') = elen e'" if "\<not> elen e' < need_len l"
    using filled_entry(2) [OF me(1), of "l\<lparr>l_err := 0\<rparr>"] lk that by (simp add: need_len_def)
  have sm: "min_len e < 65536" using min_len_bounds(3) [of e] by simp
  note round = dir_loop_round [OF fs e small(2) fl(1), of n ext2_process_link en ch r "dimage rest" l, unfolded Let_def]
    and call = process_link_ok [OF fs e rest sz mg lk, of en, folded need_len_def]
    and get = get_rec_len_entry [OF fs refl, of _ p]
  show ?thesis
    using round call bits fl same small(1) front fill sm
    by (cases mg; cases "n_ino e = 0") (simp_all add: Let_def get need_len_def)
qed

lemma linked_keep:
  assumes mg: "merge e rest = (mg, e', es')" and e: "ent_ok e" and rest: "\<forall>x \<in> set rest. ent_ok x"
    and small: "elen e' < (if n_ino e \<noteq> 0 then min_len e + need_len l else need_len l)" and lk: "linked l es' es'' dn ch r" and ch: "mg \<longrightarrow> ch"
  shows "linked l (e # rest) (e' # es'') dn ch r"
proof -
  note me = merge_entries [OF mg e rest]
  have "\<not> mg \<Longrightarrow> e' = e \<and> es' = rest" using mg by (auto simp: merge_def split: list.splits if_splits)
  then show ?thesis
    using lk ch me room_after_merge [OF mg e _ small] by (auto simp: linked_def intro: inserted_append [of _ _ _ "[_]", simplified])
qed

lemma split_parts:
  assumes mg: "merge e rest = (mg, e', es')" and e: "ent_ok e" and rest: "\<forall>x \<in> set rest. ent_ok x" and l: "link_ok l"
    and big: "\<not> elen e' < min_len e + need_len l" and ino: "n_ino e \<noteq> 0"
  shows "\<forall>x \<in> set (split_free e' # es'). ent_ok x" and "elen (split_front e') + length (dimage (split_free e' # es')) = length (dimage (e # rest))"
    and "has_room (need_len l) (split_free e' # es')" and "ent_ok (split_front e')" and "dir_names [split_front e'] = dir_names [e]" and "dir_names (split_free e' # es') = dir_names rest"
proof -
  note me = merge_entries [OF mg e rest]
  have ml: "min_len e' = min_len e" by (simp add: min_len_def me(5))
  have "12 \<le> need_len l" using l need_ge [of "l_name l"] by (simp add: link_ok_def need_len_def)
  then have need12: "min_len e' + 12 \<le> elen e'" using big ml by simp
  have ino': "n_ino e' \<noteq> 0" using ino me(4) by simp
  note sp = split_entries [OF me(1) need12 ino']
  show "\<forall>x \<in> set (split_free e' # es'). ent_ok x" "ent_ok (split_front e')" using sp(1,2) me(2) by simp_all
  show "elen (split_front e') + length (dimage (split_free e' # es')) = length (dimage (e # rest))" using sp(3,4) me(3) need12 by simp
  have "need_len l \<le> elen e' - min_len e" using big by simp
  then show "has_room (need_len l) (split_free e' # es')" using sp(4,7) ml by (simp add: has_room_def fits_def)
  show "dir_names [split_front e'] = dir_names [e]" "dir_names (split_free e' # es') = dir_names rest" using sp(5-7) me(4,6,7) by simp_all
qed

lemma linked_split:
  assumes "linked l (split_free e' # es') es'' dn ch r" and "\<forall>x \<in> set (split_free e' # es'). ent_ok x"
    and "elen (split_front e') + length (dimage (split_free e' # es')) = length (dimage (e # rest))"
    and "has_room (need_len l) (split_free e' # es')" and "ent_ok (split_front e')" and "dir_names [split_front e'] = dir_names [e]" and "dir_names (split_free e' # es') = dir_names rest"
  shows "linked l (e # rest) (split_front e' # es'') dn ch r"
proof -
  have dn using assms(1,4) by (simp add: linked_def)
  then have "inserted (l_name l, ucast (l_inode l)) (dir_names [e] @ dir_names rest) (dir_names [split_front e'] @ dir_names es'')"
    using assms(1,6,7) inserted_append [of _ "dir_names rest" "dir_names es''" "dir_names [e]"] by (simp add: linked_def del: dir_names_simps)
  then show ?thesis using \<open>dn\<close> assms(1-3,5) unfolding linked_def dir_names_simps(2) [symmetric] by (simp del: dir_names_simps)
qed

lemma linked_fill:
  assumes mg: "merge e rest = (mg, e', es')" and e: "ent_ok e" and rest: "\<forall>x \<in> set rest. ent_ok x" and l: "link_ok l"
    and big: "\<not> elen e' < need_len l" and ino: "n_ino e = 0"
  shows "linked l (e # rest) (filled m (l\<lparr>l_err := 0\<rparr>) e' # es') True True (DIRENT_ABORT OR DIRENT_CHANGED)"
proof -
  note me = merge_entries [OF mg e rest]
  have lk: "l_name (l\<lparr>l_err := 0\<rparr>) \<noteq> []" "length (l_name (l\<lparr>l_err := 0\<rparr>)) < 256" "ext2_dir_rec_len (length (l_name (l\<lparr>l_err := 0\<rparr>))) \<le> elen e'"
    using l big by (simp_all add: link_ok_def need_len_def)
  show ?thesis using filled_entry(1-4) [OF me(1) lk, of m] me ino l by (auto simp: linked_def inserted_def link_ok_def)
qed

lemma link_loop:
  assumes fs: "dir_fs m" and l: "link_ok l" and ok: "\<forall>e \<in> set es. ent_ok e" and len: "length p + length (dimage es) = blksize m"
    and fuel: "length (dimage es) < fuel" and r: "r \<in> {0, DIRENT_CHANGED}"
  shows "\<exists>es' ch' r' dn. dir_loop fuel ext2_process_link DIRENT_FLAG_EMPTY (blksize m) (length p) (length p) en ch r (p @ dimage es) m l =
      Inr (Finished ch' r' dn (p @ dimage es') m (if dn then l\<lparr>l_err := 0, l_done := True\<rparr> else if es = [] then l else l\<lparr>l_err := 0\<rparr>))
    \<and> linked l es es' dn ch' r' \<and> (ch \<longrightarrow> ch')"
  using l ok len fuel r
proof (induction "length (dimage es)" arbitrary: es p en ch r fuel l rule: less_induct)
  case less
  obtain n where n: "fuel = Suc n" using less.prems(4) by (cases fuel) auto
  show ?case
  proof (cases es)
    case Nil
    then have "linked l es [] False ch r" using less.prems(5) by (auto simp: linked_def has_room_def)
    then show ?thesis using Nil less.prems(3) n
      by (intro exI [of _ "[]"] exI [of _ ch] exI [of _ r] exI [of _ False]) (simp add: dir_loop_end)
  next
    case (Cons e rest)
    let ?l = "l\<lparr>l_err := 0\<rparr>" and ?run = "dir_loop fuel ext2_process_link DIRENT_FLAG_EMPTY (blksize m) (length p) (length p) en ch r (p @ dimage es) m l"
    obtain mg e' es' where mg: "merge e rest = (mg, e', es')" by (cases "merge e rest") auto
    have e: "ent_ok e" and rest: "\<forall>x \<in> set rest. ent_ok x" and sz: "length p + elen e + length (dimage rest) = blksize m"
      using less.prems(2,3) Cons by auto
    note me = merge_entries [OF mg e rest] and round = link_round [OF fs less.prems(1) e rest sz mg, of n en ch r, folded Cons n, unfolded Let_def]
    have lk': "link_ok ?l" and need: "need_len ?l = need_len l" using less.prems(1) by (simp_all add: link_ok_def need_len_def)
    \<comment> \<open>the rest of the loop, on the entries \<open>fs\<close> after an entry \<open>x\<close>\<close>
    have go: "\<exists>es'' ch'' r'' dn. ?run = Inr (Finished ch'' r'' dn (p @ dimage (x # es'')) m (if dn then ?l\<lparr>l_done := True\<rparr> else ?l)) \<and> linked l fs es'' dn ch'' r'' \<and> (c \<longrightarrow> ch'')"
      if run: "?run = dir_loop n ext2_process_link DIRENT_FLAG_EMPTY (blksize m) (length (p @ enc x)) (length (p @ enc x)) en' c r' ((p @ enc x) @ dimage fs) m ?l"
        and x: "8 \<le> elen x" "elen x + length (dimage fs) = length (dimage es)" "\<forall>y \<in> set fs. ent_ok y" "r' \<in> {0, DIRENT_CHANGED}" for x fs c r' en'
    proof -
      have lens: "length (dimage fs) < length (dimage es)" "length (p @ enc x) + length (dimage fs) = blksize m" "length (dimage fs) < n"
        using x less.prems(3,4) n by simp_all
      have same: "(if dn then ?l\<lparr>l_err := 0, l_done := True\<rparr> else if fs = [] then ?l else ?l\<lparr>l_err := 0\<rparr>) = (if dn then ?l\<lparr>l_done := True\<rparr> else ?l)" for dn by simp
      show ?thesis using less.hyps [OF lens(1) lk' x(3) lens(2,3) x(4), of en' c] unfolding run linked_err same dimage_simps append_assoc .
    qed
    consider (small) "elen e' < (if n_ino e \<noteq> 0 then min_len e + need_len l else need_len l)"
      | (split) "\<not> elen e' < min_len e + need_len l" "n_ino e \<noteq> 0" | (fill) "\<not> elen e' < need_len l" "n_ino e = 0"
      by (cases "n_ino e = 0") (simp_all, blast+)
    then show ?thesis
    proof cases
      case small
      have "8 \<le> elen e'" "elen e' + length (dimage es') = length (dimage es)" "(if mg then DIRENT_CHANGED else 0) \<in> {0, DIRENT_CHANGED}"
        using me(1,3) Cons by (simp_all add: ent_ok_def)
      moreover have "?run = dir_loop n ext2_process_link DIRENT_FLAG_EMPTY (blksize m) (length (p @ enc e')) (length (p @ enc e')) (if en < DIRENT_OTHER_FILE then en + 1 else en)
          (ch \<or> mg) (if mg then DIRENT_CHANGED else 0) ((p @ enc e') @ dimage es') m ?l"
        by (simp only: round need small if_True)
      ultimately obtain es'' ch'' r'' dn where
        g: "?run = Inr (Finished ch'' r'' dn (p @ dimage (e' # es'')) m (if dn then ?l\<lparr>l_done := True\<rparr> else ?l))" "linked l es' es'' dn ch'' r''" "ch \<or> mg \<longrightarrow> ch''"
        using go me(2) by blast
      then show ?thesis using linked_keep [OF mg e rest small g(2)] Cons by (intro exI [of _ "e' # es''"] exI [of _ ch''] exI [of _ r''] exI [of _ dn]) auto
    next
      case split
      note sp = split_parts [OF mg e rest less.prems(1) split]
      have "8 \<le> elen (split_front e')" using sp(4) by (simp add: ent_ok_def)
      moreover have "?run = dir_loop n ext2_process_link DIRENT_FLAG_EMPTY (blksize m) (length (p @ enc (split_front e'))) (length (p @ enc (split_front e')))
          (if en < DIRENT_OTHER_FILE then en + 1 else en) True DIRENT_CHANGED ((p @ enc (split_front e')) @ dimage (split_free e' # es')) m ?l"
        using split by (simp only: round need if_True if_False simp_thms)
      ultimately obtain es'' ch'' r'' dn where
        g: "?run = Inr (Finished ch'' r'' dn (p @ dimage (split_front e' # es'')) m (if dn then ?l\<lparr>l_done := True\<rparr> else ?l))"
          "linked l (split_free e' # es') es'' dn ch'' r''" ch''
        using go sp(1) sp(2) [folded Cons] by blast
      then show ?thesis using linked_split [OF g(2) sp] Cons
        by (intro exI [of _ "split_front e' # es''"] exI [of _ ch''] exI [of _ r''] exI [of _ dn]) auto
    next
      case fill
      then show ?thesis using round linked_fill [OF mg e rest less.prems(1) fill, of m] need Cons
        by (intro exI [of _ "filled m ?l e' # es'"] exI [of _ True] exI [of _ "DIRENT_ABORT OR DIRENT_CHANGED"]) (simp add: Let_def)
    qed
  qed
qed

text \<open>The callback of the iteration on a block: what it wrote is the image of the new entries.\<close>

definition after_link :: "mnt \<Rightarrow> u32 \<Rightarrow> bool \<Rightarrow> dent list \<Rightarrow> mnt" where
  "after_link m b ch es = (if ch then disk_upd m (unat (ucast b :: u64) * blksize m) (dimage es) else m)"

lemma link_block:
  assumes fs: "dir_fs m" and dev: "dev_ok m" and v: "block_view m b es" and l: "link_ok l"
  shows "\<exists>es' dn ch r. ext2_process_dir_block ext2_process_link DIRENT_FLAG_EMPTY d m (l, err) (ucast b) cnt rb ro =
      Inr (r, ucast b, after_link m b ch es', l\<lparr>l_err := 0, l_done := dn\<rparr>, 0) \<and> linked l es es' dn ch r
      \<and> block_view (after_link m b ch es') b es'"
proof -
  have b: "addr_ok m (ucast b)" "block_bytes m (ucast b) = dimage es" "\<forall>e \<in> set es. ent_ok e" using v by (simp_all add: block_view_def)
  have len: "length (dimage es) = blksize m" using b(2) length_block_bytes [of m "ucast b"] by simp
  then have ne: "es \<noteq> []" using fs by (auto simp: dir_fs_def)
  have nd: "\<not> l_done l" using l by (simp add: link_ok_def)
  have l0: "l\<lparr>l_err := 0\<rparr> = l\<lparr>l_err := 0, l_done := False\<rparr>" using nd by (cases l) simp
  let ?en = "if cnt = 0 then DIRENT_DOT_FILE else DIRENT_OTHER_FILE"
  have same: "(if dn then l\<lparr>l_err := 0, l_done := True\<rparr> else if es = [] then l else l\<lparr>l_err := 0\<rparr>) = l\<lparr>l_err := 0, l_done := dn\<rparr>" for dn
    using ne l0 by (cases dn) simp_all
  obtain es' ch r dn where loop: "dir_loop (blksize m + 1) ext2_process_link DIRENT_FLAG_EMPTY (blksize m) 0 0 (if cnt = 0 then DIRENT_DOT_FILE else DIRENT_OTHER_FILE)
        False 0 (dimage es) m l = Inr (Finished ch r dn (dimage es') m (l\<lparr>l_err := 0, l_done := dn\<rparr>))"
    and lk: "linked l es es' dn ch r"
    using link_loop [OF fs l b(3), of "[]" "blksize m + 1" 0 ?en False] len unfolding same by auto
  have len': "length (dimage es') = blksize m" "\<forall>e \<in> set es'. ent_ok e" using lk len by (simp_all add: linked_def)
  have w: "ext2_write_dir_block m d (ucast b) (dimage es') = Inr (0, disk_upd m (unat (ucast b :: u64) * blksize m) (dimage es'))"
    using fs write_block [OF dev b(1) len'(1)] by (simp add: ext2_write_dir_block_def ext2_dir_block_checksum_update_def dir_fs_def plain_fs_def)
  have r: "r OR (if dn then BLOCK_ABORT else 0) = r" using lk by (auto simp: linked_def DIRENT_ABORT_def DIRENT_CHANGED_def BLOCK_ABORT_def split: if_splits)
  have "ext2_process_dir_block ext2_process_link DIRENT_FLAG_EMPTY d m (l, err) (ucast b) cnt rb ro = Inr (r, ucast b, after_link m b ch es', l\<lparr>l_err := 0, l_done := dn\<rparr>, 0)"
    using read_dir_block_ok [OF fs dev b(1)] b(2) loop w r by (simp add: ext2_process_dir_block_def after_link_def Let_def)
  moreover have "block_view (after_link m b ch es') b es'"
  proof (cases ch)
    case True
    then show ?thesis
      using b(1) len' disk_bytes_upd_same [of m "unat (ucast b :: u64) * blksize m" "dimage es'"]
      by (simp add: block_view_def after_link_def block_bytes_def)
  next
    case False
    then have "es' = es" using lk by (auto simp: linked_def split: if_splits)
    then show ?thesis using False v by (simp add: after_link_def)
  qed
  ultimately show ?thesis using lk by blast
qed

text \<open>Writing one block of the directory leaves the others and everything outside the directory alone.\<close>

definition outside :: "mnt \<Rightarrow> u32 list \<Rightarrow> nat \<Rightarrow> nat \<Rightarrow> bool" where
  "outside m bs a n \<longleftrightarrow> (\<forall>b \<in> set bs. a + n \<le> unat b * blksize m \<or> unat b * blksize m + blksize m \<le> a)"

definition dir_frame :: "u32 list \<Rightarrow> mnt \<Rightarrow> mnt \<Rightarrow> bool" where
  "dir_frame bs m m' \<longleftrightarrow> m_fs m' = m_fs m \<and> m_rdonly m' = m_rdonly m \<and> m_icache m' = m_icache m \<and> dev_ok m' = dev_ok m \<and>
     (\<forall>a n. outside m bs a n \<longrightarrow> disk_bytes m' a n = disk_bytes m a n)"

lemma unat_ucast32: "unat (ucast b :: u64) = unat b" for b :: u32
  by (simp add: unsigned_ucast_eq take_bit_nat_eq_self unat_lt_2p32)

lemma outside_block: "b \<notin> set bs \<Longrightarrow> outside m bs (unat b * blksize m) (blksize m)"
  unfolding outside_def
proof
  fix c assume "b \<notin> set bs" "c \<in> set bs"
  then have "unat b < unat c \<or> unat c < unat b" by (metis linorder_neqE_nat word_unat_eq_iff)
  then have "unat b + 1 \<le> unat c \<or> unat c + 1 \<le> unat b" by auto
  then show "unat b * blksize m + blksize m \<le> unat c * blksize m \<or> unat c * blksize m + blksize m \<le> unat b * blksize m"
    by (metis add.commute mult_Suc mult_le_mono1 Suc_eq_plus1)
qed

lemma frame_after_link:
  assumes "b \<in> set bs" and "length (dimage es) = blksize m"
  shows "dir_frame bs m (after_link m b ch es)"
  using assms by (auto simp: dir_frame_def after_link_def outside_def unat_ucast32 intro!: disk_bytes_upd_other)

lemma frame_blksize: "dir_frame bs m m' \<Longrightarrow> blksize m' = blksize m"
  by (simp add: dir_frame_def blksize_def)

lemma dir_frame_trans: "dir_frame bs m m1 \<Longrightarrow> dir_frame bs m1 m2 \<Longrightarrow> dir_frame bs m m2"
  using frame_blksize [of bs m m1] unfolding dir_frame_def outside_def by metis

lemma block_view_after:
  assumes "block_view m c es" and "b \<noteq> c" and "length (dimage es') = blksize m"
  shows "block_view (after_link m b ch es') c es"
proof -
  have "outside m [b] (unat c * blksize m) (blksize m)" using assms(2) by (intro outside_block) auto
  then show ?thesis
    using assms frame_after_link [of b "[b]" es' m ch] frame_blksize [of "[b]" m "after_link m b ch es'"]
    by (simp add: block_view_def dir_frame_def block_bytes_def unat_ucast32 addr_ok_def)
qed

section \<open>The whole directory\<close>

text \<open>The blocks before the current one are done, the others are as they were.\<close>

definition link_inv :: "mnt \<Rightarrow> Ext2Inode \<Rightarrow> Ext2Link \<Rightarrow> dent list list \<Rightarrow> nat \<Rightarrow> u32 \<Rightarrow> (Ext2Link \<times> int) Ext2BlockContext \<Rightarrow> bool" where
  "link_inv m i l ess k ret c \<longleftrightarrow> ret \<in> {0, DIRENT_CHANGED} \<and> b_inode c = i \<and> (\<exists>x. b_private c = (l\<lparr>l_err := x\<rparr>, 0)) \<and> dir_frame (dir_slots i 0) m (b_mnt c) \<and>
     (\<exists>S before rest. S @ dir_slots i k = dir_slots i 0 \<and> list_all2 (block_view (b_mnt c)) S before \<and> list_all2 (block_view (b_mnt c)) (dir_slots i k) rest \<and>
        dir_names (concat before) @ dir_names (concat rest) = dir_names (concat ess) \<and> (has_room (need_len l) (concat ess) \<longrightarrow> has_room (need_len l) (concat rest)))"

definition link_post :: "mnt \<Rightarrow> Ext2Inode \<Rightarrow> Ext2Link \<Rightarrow> dent list list \<Rightarrow> bool \<times> u32 \<times> (Ext2Link \<times> int) Ext2BlockContext \<Rightarrow> bool" where
  "link_post m i l ess = (\<lambda>(ended, ret, c). b_inode c = i \<and> dir_frame (dir_slots i 0) m (b_mnt c) \<and>
     (\<exists>ess'. list_all2 (block_view (b_mnt c)) (dir_slots i 0) ess' \<and>
       (if ended then b_private c = (l\<lparr>l_err := 0, l_done := True\<rparr>, 0) \<and> ret AND BLOCK_CHANGED \<noteq> 0 \<and> ret AND BLOCK_ERROR = 0 \<and>
                      inserted (l_name l, ucast (l_inode l)) (dir_names (concat ess)) (dir_names (concat ess'))
        else dir_names (concat ess') = dir_names (concat ess) \<and> \<not> has_room (need_len l) (concat ess))))"

lemma live_concat_middle: "dir_names (concat (as @ es # bs)) = dir_names (concat as) @ dir_names es @ dir_names (concat bs)"
  by simp

lemma inserted_middle: "inserted x xs ys \<Longrightarrow> inserted x (as @ xs @ bs) (as @ ys @ bs)"
  by (auto simp: inserted_def) (metis append.assoc append_Cons)

lemma list_all2_views:
  assumes "list_all2 (block_view m) bs ess" and "b \<notin> set bs" and "length (dimage es') = blksize m"
  shows "list_all2 (block_view (after_link m b ch es')) bs ess"
  using assms block_view_after by (auto simp: list_all2_conv_all_nth in_set_conv_nth)

lemma link_step:
  assumes fs: "dir_fs m" and dev: "dev_ok m" and l: "link_ok l" and len: "length (i_block i) = 15" and dist: "distinct (dir_slots i 0)"
    and inv: "link_inv m i l ess k ret c" and k: "k < 12" and g: "get_loc c (Slot k) = Inr b" and nz: "b \<noteq> 0"
  shows "\<exists>r c'. visit (ext2_process_dir_block ext2_process_link DIRENT_FLAG_EMPTY d) c (Slot k) (b_blkcnt c) 0 k = Inr (r, c') \<and>
    (if (ret OR r) AND BLOCK_ABORT \<noteq> 0 then link_post m i l ess (True, ret OR r, c') else link_inv m i l ess (k + 1) (ret OR r) (c'\<lparr>b_blkcnt := b_blkcnt c' + 1\<rparr>))"
proof -
  let ?f = "ext2_process_dir_block ext2_process_link DIRENT_FLAG_EMPTY d" and ?m = "b_mnt c"
  obtain x S before rest where st: "ret \<in> {0, DIRENT_CHANGED}" "b_inode c = i" "b_private c = (l\<lparr>l_err := x\<rparr>, 0)" "dir_frame (dir_slots i 0) m ?m"
    "S @ dir_slots i k = dir_slots i 0" "list_all2 (block_view ?m) S before" "list_all2 (block_view ?m) (dir_slots i k) rest"
    "dir_names (concat before) @ dir_names (concat rest) = dir_names (concat ess)" "has_room (need_len l) (concat ess) \<longrightarrow> has_room (need_len l) (concat rest)"
    using inv unfolding link_inv_def by blast
  have b: "i_block i ! k = b" using g st(2) by (simp add: get_loc_def split: if_splits)
  have slots: "dir_slots i k = b # dir_slots i (Suc k)" using dir_slots_step [OF len k] b nz by simp
  obtain es rs where rest: "rest = es # rs" "block_view ?m b es" "list_all2 (block_view ?m) (dir_slots i (Suc k)) rs"
    using st(7) slots by (auto simp: list_all2_Cons1)
  have bs: "b \<notin> set S" "b \<notin> set (dir_slots i (Suc k))" "b \<in> set (dir_slots i 0)" using dist st(5) slots by (auto simp: st(5) [symmetric])
  have fs': "dir_fs ?m" "dev_ok ?m" "blksize ?m = blksize m" using fs dev st(4) frame_blksize [OF st(4)] by (simp_all add: dir_fs_def dir_frame_def plain_fs_def)
  have l': "link_ok (l\<lparr>l_err := x\<rparr>)" using l by (simp add: link_ok_def)
  have err_err: "l\<lparr>l_err := x, l_err := 0, l_done := dn\<rparr> = l\<lparr>l_err := 0, l_done := dn\<rparr>" for dn by simp
  obtain es' dn ch r where call: "?f ?m (b_private c) (ucast b) (b_blkcnt c) 0 k = Inr (r, ucast b, after_link ?m b ch es', l\<lparr>l_err := 0, l_done := dn\<rparr>, 0)"
    and lk: "linked l es es' dn ch r" and v: "block_view (after_link ?m b ch es') b es'"
    using link_block [OF fs'(1,2) rest(2) l', of d 0 "b_blkcnt c" 0 k] 
    unfolding linked_err st(3) err_err by blast
  let ?c = "c\<lparr>b_mnt := after_link ?m b ch es', b_private := (l\<lparr>l_err := 0, l_done := dn\<rparr>, 0)\<rparr>"
  have vis: "visit ?f c (Slot k) (b_blkcnt c) 0 k = Inr (r, ?c)" by (rule visit_slot [of ?f c b k, OF call g])
  have len': "length (dimage es') = blksize ?m"
    using v length_block_bytes [of "after_link ?m b ch es'" "ucast b"] by (simp add: block_view_def) (simp add: after_link_def split: if_splits)
  have frame: "dir_frame (dir_slots i 0) m (after_link ?m b ch es')"
    by (rule dir_frame_trans [OF st(4) frame_after_link [OF bs(3) len']])
  note views = list_all2_views [OF st(6) bs(1) len', of ch] list_all2_views [OF rest(3) bs(2) len', of ch]
  have all: "list_all2 (block_view (after_link ?m b ch es')) (dir_slots i 0) (before @ es' # rs)"
    unfolding st(5) [symmetric] slots using views v by (simp add: list_all2_appendI)
  have lv: "dir_names (concat ess) = dir_names (concat before) @ dir_names es @ dir_names (concat rs)" using st(8) rest(1) by simp
  show ?thesis
  proof (cases dn)
    case True
    then have "r = DIRENT_ABORT OR DIRENT_CHANGED" "inserted (l_name l, ucast (l_inode l)) (dir_names es) (dir_names es')" using lk by (simp_all add: linked_def)
    then have "link_post m i l ess (True, ret OR r, ?c)" "(ret OR r) AND BLOCK_ABORT \<noteq> 0"
      using all frame st(1,2) True inserted_middle [of _ "dir_names es" "dir_names es'" "dir_names (concat before)" "dir_names (concat rs)"] lv
      by (auto simp: link_post_def DIRENT_ABORT_def DIRENT_CHANGED_def BLOCK_CHANGED_def BLOCK_ERROR_def BLOCK_ABORT_def intro!: exI [of _ "before @ es' # rs"])
    then show ?thesis using vis by auto
  next
    case False
    then have r: "r \<in> {0, DIRENT_CHANGED}" "dir_names es' = dir_names es" "\<not> has_room (need_len l) es" using lk by (auto simp: linked_def)
    have nd: "l\<lparr>l_err := 0, l_done := False\<rparr> = l\<lparr>l_err := 0\<rparr>" using l by (cases l) (simp add: link_ok_def)
    have "(ret OR r) AND BLOCK_ABORT = 0" "ret OR r \<in> {0, DIRENT_CHANGED}" using st(1) r(1) by (auto simp: DIRENT_CHANGED_def BLOCK_ABORT_def)
    moreover have "link_inv m i l ess (k + 1) (ret OR r) (?c\<lparr>b_blkcnt := b_blkcnt ?c + 1\<rparr>)"
      unfolding link_inv_def
    proof (intro conjI)
      show "\<exists>x. b_private (?c\<lparr>b_blkcnt := b_blkcnt ?c + 1\<rparr>) = (l\<lparr>l_err := x\<rparr>, 0)" using False nd by auto
      have "has_room (need_len l) (concat ess) \<longrightarrow> has_room (need_len l) (concat rs)" using st(9) rest(1) r(3) by (auto simp: has_room_def)
      then show "\<exists>S' before' rest'. S' @ dir_slots i (k + 1) = dir_slots i 0 \<and> list_all2 (block_view (b_mnt (?c\<lparr>b_blkcnt := b_blkcnt ?c + 1\<rparr>))) S' before'
          \<and> list_all2 (block_view (b_mnt (?c\<lparr>b_blkcnt := b_blkcnt ?c + 1\<rparr>))) (dir_slots i (k + 1)) rest'
          \<and> dir_names (concat before') @ dir_names (concat rest') = dir_names (concat ess) \<and> (has_room (need_len l) (concat ess) \<longrightarrow> has_room (need_len l) (concat rest'))"
        using st(5) slots views v lv r(2)
        by - (rule exI [of _ "S @ [b]"], rule exI [of _ "before @ [es']"], rule exI [of _ rs], simp add: list_all2_appendI)
    qed (use calculation frame st(2) in simp_all)
    ultimately show ?thesis using vis by auto
  qed
qed

lemma link_direct:
  assumes fs: "dir_fs m" and dev: "dev_ok m" and l: "link_ok l" and len: "length (i_block i) = 15" and dist: "distinct (dir_slots i 0)"
    and v: "list_all2 (block_view m) (dir_slots i 0) ess"
  shows "\<exists>s. direct_loop (ext2_process_dir_block ext2_process_link DIRENT_FLAG_EMPTY d) BLOCK_FLAG_READ_ONLY 12 0 0 (start_ctx m i buf (l, 0)) = Inr s
    \<and> link_post m i l ess s"
proof (rule direct_loop_rule [where Inv = "link_inv m i l ess" and N = 12])
  have "\<exists>x. (l, 0) = (l\<lparr>l_err := x\<rparr>, 0)" by (rule exI [of _ "l_err l"]) simp
  moreover have "dir_frame (dir_slots i 0) m m" by (simp add: dir_frame_def)
  moreover have "\<exists>S before rest. S @ dir_slots i 0 = dir_slots i 0 \<and> list_all2 (block_view m) S before \<and> list_all2 (block_view m) (dir_slots i 0) rest \<and>
      dir_names (concat before) @ dir_names (concat rest) = dir_names (concat ess) \<and> (has_room (need_len l) (concat ess) \<longrightarrow> has_room (need_len l) (concat rest))"
    using v by - (rule exI [of _ "[]"], rule exI [of _ "[]"], rule exI [of _ ess], simp)
  ultimately show "link_inv m i l ess 0 0 (start_ctx m i buf (l, 0))" unfolding link_inv_def start_ctx_def by simp
next
  fix k ret c assume inv: "link_inv m i l ess k ret c" and k: "k < 12" and z: "get_loc c (Slot k) = Inr 0"
  have "b_inode c = i" using inv by (simp add: link_inv_def)
  then have "i_block i ! k = 0" using z len k by (simp add: get_loc_def)
  then have "dir_slots i (k + 1) = dir_slots i k" using dir_slots_step [OF len k] by simp
  then show "link_inv m i l ess (k + 1) ret (c\<lparr>b_blkcnt := b_blkcnt c + 1\<rparr>)" using inv by (simp add: link_inv_def)
next
  fix k ret c assume "link_inv m i l ess k ret c" "k < 12"
  then show "\<exists>b. get_loc c (Slot k) = Inr b" using len by (auto simp: link_inv_def get_loc_def)
next
  fix k ret c b assume "link_inv m i l ess k ret c" "k < 12" "get_loc c (Slot k) = Inr b" "b \<noteq> 0"
  then show "\<exists>r c'. visit (ext2_process_dir_block ext2_process_link DIRENT_FLAG_EMPTY d) c (Slot k) (b_blkcnt c) 0 k = Inr (r, c') \<and>
    (if (ret OR r) AND BLOCK_ABORT \<noteq> 0 then link_post m i l ess (True, ret OR r, c') else link_inv m i l ess (k + 1) (ret OR r) (c'\<lparr>b_blkcnt := b_blkcnt c' + 1\<rparr>))"
    by (rule link_step [OF fs dev l len dist])
next
  fix ret c assume "link_inv m i l ess 12 ret c"
  then show "link_post m i l ess (False, ret, c)" unfolding link_inv_def link_post_def by (auto simp: dir_slots_end has_room_def)
qed (simp_all add: BLOCK_FLAG_READ_ONLY_def BLOCK_FLAG_APPEND_def)

text \<open>The blocks of the directory are apart from the table of inodes and from the block in the inode cache.\<close>

definition dir_apart :: "mnt \<Rightarrow> dnode \<Rightarrow> bool" where
  "dir_apart m d \<longleftrightarrow>
     (\<forall>ino. inode_valid m ino \<longrightarrow> outside m (dir_slots (f_inode (d_file d)) 0) (inode_addr m ino) (isize m)) \<and>
     (\<forall>ic. m_icache m = Some ic \<longrightarrow> (\<forall>b \<in> set (dir_slots (f_inode (d_file d)) 0). ic_block ic \<noteq> ucast b))"

lemma frame_layout:
  assumes "dir_frame bs m m'"
  shows "isize m' = isize m" "ipg m' = ipg m" "inode_valid m' = inode_valid m" "inode_addr m' = inode_addr m" "itable_ok m' = itable_ok m" "plain_fs m' = plain_fs m"
  using assms by (simp_all add: dir_frame_def isize_def ipg_def inode_valid_def inode_addr_def itable_ok_def plain_fs_def table_block_def blksize_def fun_eq_iff)

lemma frame_itable:
  assumes f: "dir_frame (dir_slots (f_inode (d_file d)) 0) m m'" and inv: "itable_inv m" and ap: "dir_apart m d"
  shows "itable_inv m'"
proof -
  let ?bs = "dir_slots (f_inode (d_file d)) 0"
  note lay = frame_layout [OF f] and bs = frame_blksize [OF f]
  have img: "inode_image m' ino = inode_image m ino" if "inode_valid m ino" for ino
  proof -
    have "128 \<le> isize m" using inv itable_okD(3) by (simp add: itable_inv_def)
    then have "outside m ?bs (inode_addr m ino) 128" using ap that by (fastforce simp: dir_apart_def outside_def)
    then show ?thesis using f lay by (simp add: inode_image_def dir_frame_def)
  qed
  have buf: "buffer_ok m' ic" if "buffer_ok m ic" "m_icache m = Some ic" for ic
  proof (cases "ic_block ic = 0")
    case False
    have "outside m ?bs (unat (ic_block ic) * blksize m) (blksize m)"
      unfolding outside_def
    proof
      fix b assume "b \<in> set ?bs"
      then have "ic_block ic \<noteq> ucast b" using ap that(2) by (auto simp: dir_apart_def)
      then have "unat (ic_block ic) \<noteq> unat b" by (metis unat_ucast32 word_unat_eq_iff)
      then have "unat (ic_block ic) + 1 \<le> unat b \<or> unat b + 1 \<le> unat (ic_block ic)" by auto
      then show "unat (ic_block ic) * blksize m + blksize m \<le> unat b * blksize m \<or> unat b * blksize m + blksize m \<le> unat (ic_block ic) * blksize m"
        by (metis add.commute mult_Suc mult_le_mono1 Suc_eq_plus1)
    qed
    then have "block_bytes m' (ic_block ic) = block_bytes m (ic_block ic)" using f bs by (simp add: block_bytes_def dir_frame_def)
    then show ?thesis using that False by (simp add: buffer_ok_def)
  qed (simp add: buffer_ok_def)
  have "cache_ok m'"
    unfolding cache_ok_def
  proof (intro allI impI)
    fix ic assume "m_icache m' = Some ic"
    then have ic: "m_icache m = Some ic" using f by (simp add: dir_frame_def)
    have c: "cache_ok m" using inv by (simp add: itable_inv_def)
    note co = c [unfolded cache_ok_def, rule_format, OF ic]
    show "buffer_ok m' ic \<and> 0 < length (ic_cache ic) \<and> - 1 \<le> ic_cache_last ic \<and>
      (\<forall>i j. i < j \<longrightarrow> j < length (ic_cache ic) \<longrightarrow> fst (ic_cache ic ! i) = fst (ic_cache ic ! j) \<longrightarrow> fst (ic_cache ic ! i) = 0) \<and>
      (\<forall>(ino, b) \<in> set (ic_cache ic). length b = isize m' \<and> (ino \<noteq> 0 \<longrightarrow> inode_valid m' ino \<and> take 128 b = inode_image m' ino))"
      using co buf [OF _ ic] lay img by (intro conjI) (blast, blast, blast, blast, fastforce)
  qed
  then show ?thesis using inv f lay by (simp add: itable_inv_def dir_frame_def)
qed

definition link_env :: "mnt \<Rightarrow> 'h iter_env \<Rightarrow> bool" where
  "link_env m it \<longleftrightarrow> iter_ok it \<and> alloc_ok m (e_alloc (it_env it)) \<and> (\<exists>junk. e_inode_buf (it_env it) = Some junk \<and> length junk = isize m)"

text \<open>Writing the inode of the directory back at the end of the iteration.\<close>

lemma update_inode_view:
  assumes inv: "itable_inv m" and env: "link_env m it" and rw: "\<not> m_rdonly m" and v: "inode_valid m (d_vino d)" and ap: "dir_apart m d"
    and d: "dir_view m d ess" and len: "length (i_block i) = 15"
  shows "\<exists>m'. ext2_update_inode (e_alloc (it_env it)) (e_inode_buf (it_env it)) m (d_vino d) (inode_bytes i) = Inr (0, m') \<and> dir_view m' d ess \<and> itable_inv m'"
proof -
  obtain junk where env': "alloc_ok m (e_alloc (it_env it))" "e_inode_buf (it_env it) = Some junk" "length junk = isize m" using env by (auto simp: link_env_def)
  have ok: "itable_ok m" "dev_ok m" "plain_fs m" "cache_ok m" using inv by (simp_all add: itable_inv_def)
  obtain m' where up: "ext2_update_inode (e_alloc (it_env it)) (Some junk) m (d_vino d) (inode_bytes i) = Inr (0, m')"
    and m': "itable_ok m'" "cache_ok m'" "dev_ok m'" "m_fs m' = set_flags EXT2_FLAG_CHANGED (m_fs m)"
      "\<forall>a n. a + n \<le> inode_addr m (d_vino d) \<or> inode_addr m (d_vino d) + isize m \<le> a \<longrightarrow> disk_bytes m' a n = disk_bytes m a n"
    using update_inode_ok [OF ok env'(1) v rw env'(3) length_inode_bytes [OF len]] by blast
  have bs: "blksize m' = blksize m" and sup: "f_super (m_fs m') = f_super (m_fs m)" using m'(4) by (simp_all add: blksize_def set_flags_def)
  have "block_view m' b es" if "b \<in> set (dir_slots (f_inode (d_file d)) 0)" "block_view m b es" for b es
  proof -
    have "disk_bytes m' (unat b * blksize m) (blksize m) = disk_bytes m (unat b * blksize m) (blksize m)"
      using m'(5) ap v that(1) by (auto simp: dir_apart_def outside_def)
    then show ?thesis using that(2) bs by (simp add: block_view_def block_bytes_def unat_ucast32 addr_ok_def)
  qed
  then have "list_all2 (block_view m') (dir_slots (f_inode (d_file d)) 0) ess"
    using d by (auto simp: dir_view_def list_all2_conv_all_nth)
  then have "dir_view m' d ess" using d bs sup m'(3) by (simp add: dir_view_def dir_fs_def plain_fs_def dir_inode_def)
  moreover have "itable_inv m'" using m' sup ok(3) by (simp add: itable_inv_def plain_fs_def)
  ultimately show ?thesis using up env'(2) by auto
qed

lemma add_link_ok:
  assumes d: "dir_view m d ess" and inv: "itable_inv m" and env: "link_env m it" and rw: "\<not> m_rdonly m" and v: "inode_valid m (d_vino d)"
    and ap: "dir_apart m d" and idx: "\<not> has_flag (f_inode (d_file d)) EXT2_INDEX_FL"
    and name: "name \<noteq> []" "length name < 256" "(ucast ino :: u32) \<noteq> 0" and room: "has_room (ext2_dir_rec_len (length name)) (concat ess)"
  shows "\<exists>m' ess'. ext2_add_link it junk m d name ino flags = Inr (0, d, m') \<and> dir_view m' d ess' \<and> itable_inv m'
    \<and> inserted (name, ucast ino) (dir_names (concat ess)) (dir_names (concat ess'))"
proof -
  define i where "i = f_inode (d_file d)"
  define l where "l = \<lparr>l_name = name, l_inode = ino, l_flags = flags, l_done = False, l_err = junk, l_prev = None\<rparr>"
  have dv: "dir_fs m" "dev_ok m" "dir_inode m d" "distinct (dir_slots i 0)" "list_all2 (block_view m) (dir_slots i 0) ess"
    using d by (simp_all add: dir_view_def i_def)
  have len: "length (i_block i) = 15" and md: "mode_dir (ucast (d_vmode d))" using dv(3) by (simp_all add: dir_inode_def i_def)
  have l: "link_ok l" "need_len l = ext2_dir_rec_len (length name)" using name by (simp_all add: link_ok_def need_len_def l_def)
  obtain buf where it: "it_buf it = Some buf" "\<not> e_block_oom (it_env it)" using env by (auto simp: link_env_def iter_ok_def)
  let ?f = "ext2_process_dir_block ext2_process_link DIRENT_FLAG_EMPTY d"
  obtain ended ret c where loop: "direct_loop ?f BLOCK_FLAG_READ_ONLY 12 0 0 (start_ctx m i buf (l, 0)) = Inr (ended, ret, c)" and post: "link_post m i l ess (ended, ret, c)"
    using link_direct [OF dv(1,2) l(1) len dv(4,5)] by (metis prod_cases3)
  have ended using post room l(2) by (cases ended) (auto simp: link_post_def)
  then obtain ess' where c: "b_inode c = i" "dir_frame (dir_slots i 0) m (b_mnt c)" "list_all2 (block_view (b_mnt c)) (dir_slots i 0) ess'"
      "b_private c = (l\<lparr>l_err := 0, l_done := True\<rparr>, 0)" "ret AND BLOCK_CHANGED \<noteq> 0" "ret AND BLOCK_ERROR = 0"
      "inserted (name, ucast ino) (dir_names (concat ess)) (dir_names (concat ess'))"
    using post by (auto simp: link_post_def l_def)
  note f = c(2) [unfolded i_def]
  have lay: "isize (b_mnt c) = isize m" "inode_valid (b_mnt c) = inode_valid m" "inode_addr (b_mnt c) = inode_addr m" using frame_layout [OF f] by simp_all
  have v1: "dir_view (b_mnt c) d ess'"
    using dv c(2,3) frame_blksize [OF f] by (simp add: dir_view_def i_def dir_fs_def plain_fs_def dir_inode_def dir_frame_def)
  have ap1: "dir_apart (b_mnt c) d" using ap f lay frame_blksize [OF f] by (simp add: dir_apart_def dir_frame_def outside_def)
  have env1: "link_env (b_mnt c) it" using env lay by (simp add: link_env_def alloc_ok_def)
  obtain m' where up: "ext2_update_inode (e_alloc (it_env it)) (e_inode_buf (it_env it)) (b_mnt c) (d_vino d) (inode_bytes i) = Inr (0, m')"
    and m': "dir_view m' d ess'" "itable_inv m'"
    using update_inode_view [OF frame_itable [OF f inv ap] env1 _ _ ap1 v1 len] rw v f lay by (auto simp: dir_frame_def)
  obtain c' ret' where bi: "ext2_block_iterate (it_fuel it) (it_env it) (it_ext it) (Some buf) ?f BLOCK_FLAG_READ_ONLY m (d_vino d) i (l, 0) =
      bindE (end_iterate (it_env it) (d_vino d) ret' c') (\<lambda>(r, ctx). Inr (r, b_inode ctx, b_mnt ctx, b_private ctx))"
      "b_inode c' = i" "b_mnt c' = b_mnt c" "b_private c' = b_private c" "ret' AND BLOCK_CHANGED \<noteq> 0"
    using block_iterate_direct [OF dv(3), of ?f buf "(l, 0)" ended ret c "it_fuel it" "it_env it" "it_ext it" "d_vino d"] loop c(1,5,6) by (auto simp: i_def)
  have "ext2_block_iterate (it_fuel it) (it_env it) (it_ext it) (Some buf) ?f BLOCK_FLAG_READ_ONLY m (d_vino d) i (l, 0) =
      Inr (0, i, m', l\<lparr>l_err := 0, l_done := True\<rparr>, 0)"
    using bi up c(4) by (simp add: end_iterate_def)
  moreover have "d\<lparr>d_file := (d_file d)\<lparr>f_inode := i\<rparr>\<rparr> = d" by (simp add: i_def)
  ultimately have "ext2_dir_iterate it ext2_process_link DIRENT_FLAG_EMPTY m d l = Inr (0, d, m', l\<lparr>l_err := 0, l_done := True\<rparr>)"
    using md it by (simp add: ext2_dir_iterate_def i_def)
  then have "ext2_add_link it junk m d name ino flags = Inr (0, d, m')" using rw idx by (simp add: ext2_add_link_def l_def)
  then show ?thesis using m' c(7) by blast
qed

section \<open>Results\<close>

lemma map_of_inserted:
  assumes "inserted (name, n) xs ys" and "name \<notin> fst ` set xs"
  shows "map_of ys x = (if x = name then Some n else map_of xs x)"
proof -
  obtain as bs where l: "xs = as @ bs" "ys = as @ (name, n) # bs" using assms(1) by (auto simp: inserted_def)
  have "map_of as name = None" using assms(2) l by (auto simp: map_of_eq_None_iff)
  then show ?thesis using l by (simp add: map_add_def split: option.split)
qed

definition name_lookup :: "dent list list \<Rightarrow> u8 list \<Rightarrow> int + u64" where
  "name_lookup ess x = (case map_of (dir_names (concat ess)) x of Some n \<Rightarrow> Inr (ucast n) | None \<Rightarrow> Inl (- ENOENT))"

text \<open>
  C39: A directory is a map from names to inode numbers. Let the filesystem be mounted for writing, without metadata
  checksums, not created by the Hurd, with blocks of less than 64 KiB and at most 2 GiB large, its device and memory not failing; and let the
  directory be block-mapped (no extents, no inline data) with direct blocks only, not hash-indexed (without
  \<^verbatim>\<open>EXT2_INDEX_FL\<close>, with which \<^verbatim>\<open>ext2_add_link\<close> answers ENOTSUP) and its blocks well-formed and apart from the table of inodes.
  Then \<^verbatim>\<open>ext2_lookup_inode\<close> returns the inode number of the first entry in use with the name, or ENOENT, and changes
  nothing. When the name (1 to 255 bytes) is new and some entry has room for it, \<^verbatim>\<open>ext2_add_link\<close> returns 0, after it the
  new name is found with its inode number, and every other name as before; the directory and the table of inodes
  stay well-formed.
\<close>
theorem directory_refines_map:
  assumes d: "dir_view m d ess" and inv: "itable_inv m" and env: "link_env m it" and rw: "\<not> m_rdonly m" and v: "inode_valid m (d_vino d)"
    and ap: "dir_apart m d" and idx: "\<not> has_flag (f_inode (d_file d)) EXT2_INDEX_FL"
    and name: "name \<noteq> []" "length name < 256" "(ucast ino :: u32) \<noteq> 0" and room: "has_room (ext2_dir_rec_len (length name)) (concat ess)"
    and new: "name \<notin> fst ` set (dir_names (concat ess))"
  shows "(\<forall>x. ext2_lookup_inode it m d x = Inr (name_lookup ess x, d, m)) \<and>
    (\<exists>m' ess'. ext2_add_link it junk m d name ino flags = Inr (0, d, m') \<and> dir_view m' d ess' \<and> itable_inv m' \<and>
      (\<forall>x. ext2_lookup_inode it m' d x = Inr (if x = name then Inr (ucast (ucast ino :: u32)) else name_lookup ess x, d, m')))"
proof -
  have it: "iter_ok it" using env by (simp add: link_env_def)
  obtain m' ess' where add: "ext2_add_link it junk m d name ino flags = Inr (0, d, m')" "dir_view m' d ess'" "itable_inv m'"
    and ins: "inserted (name, ucast ino) (dir_names (concat ess)) (dir_names (concat ess'))"
    using add_link_ok [OF d inv env rw v ap idx name room] by blast
  have "ext2_lookup_inode it m' d x = Inr (if x = name then Inr (ucast (ucast ino :: u32)) else name_lookup ess x, d, m')" for x
    using lookup_correct [OF add(2) it, of x] map_of_inserted [OF ins new, of x] by (simp add: name_lookup_def)
  moreover have "ext2_lookup_inode it m d x = Inr (name_lookup ess x, d, m)" for x
    using lookup_correct [OF d it, of x] by (simp add: name_lookup_def)
  ultimately show ?thesis using add by blast
qed

text \<open>An empty directory in block 3: one free entry that takes the whole block.\<close>

definition sample_dir_mnt :: mnt where
  "sample_dir_mnt = sample_mnt\<lparr>m_dev := (m_dev sample_mnt)\<lparr>bd_data := (\<lambda>k. if k = 3077 then 4 else 0)\<rparr>\<rparr>"

definition sample_dir :: dnode where
  "sample_dir = \<lparr>d_vmode = 0x41ed, d_vino = 2, d_vuid = 0, d_vgid = 0, d_vnlink = 2, d_vsize = 1024, d_vsectors = 2, d_vatime = 0, d_vmtime = 0, d_vctime = 0,
     d_file = zero_file\<lparr>f_inode := zero_inode\<lparr>i_block := 3 # replicate 14 0\<rparr>\<rparr>\<rparr>"

definition sample_iter :: "unit iter_env" where
  "sample_iter = \<lparr>it_fuel = 0, it_env = sample_env, it_ext = \<lparr>xo_open = (\<lambda>m ino i. Inr (Inl (- EIO), i, m)), xo_get = (\<lambda>m i op h. Inr (Inl (- EIO), h, m)),
     xo_set_bmap = (\<lambda>m i c b u h. Inr (- EIO, h, i, m)), xo_replace = (\<lambda>m i x h. Inr (- EIO, h, i, m))\<rparr>,
     it_buf = Some [], it_read_bitmap = (\<lambda>m. Inr (- EIO, m)), it_now = 0, it_euid = 0, it_egid = 0, it_oom_inode = False, it_file_buf = None\<rparr>"

definition zero_bytes :: "nat \<Rightarrow> u8 list" where "zero_bytes n = replicate n 0"

lemma zero_bytes_simps [simp]: "length (zero_bytes n) = n" "k < n \<Longrightarrow> zero_bytes n ! k = 0"
  by (simp_all add: zero_bytes_def)

lemma disk_zero: "(\<And>k. a \<le> k \<Longrightarrow> k < a + n \<Longrightarrow> bd_data (m_dev m) (int k) = 0) \<Longrightarrow> disk_bytes m a n = zero_bytes n"
  by (rule nth_equalityI) (simp_all add: disk_bytes_def del: of_nat_add)

definition sample_free :: dent where "sample_free = \<lparr>n_ino = 0, n_nl = 0, n_body = zero_bytes 1016\<rparr>"

lemma sample_dir_same: "m_fs sample_dir_mnt = m_fs sample_mnt" "m_rdonly sample_dir_mnt = m_rdonly sample_mnt" "m_icache sample_dir_mnt = None"
  "blksize sample_dir_mnt = 1024" "isize sample_dir_mnt = 256" "inode_addr sample_dir_mnt = inode_addr sample_mnt" "inode_valid sample_dir_mnt = inode_valid sample_mnt"
  using sample_mnt_dims by (simp_all add: sample_dir_mnt_def blksize_def isize_def inode_addr_def inode_valid_def ipg_def table_block_def fun_eq_iff)
    (simp add: sample_mnt_def)

lemma sample_dir_slots: "dir_slots (f_inode (d_file sample_dir)) 0 = [3]"
  by (simp add: dir_slots_def sample_dir_def)

lemma sample_tables: "inode_valid sample_mnt ino \<Longrightarrow> 4096 \<le> inode_addr sample_mnt ino"
proof -
  assume v: "inode_valid sample_mnt ino"
  have "itable_ok sample_mnt" using sample_itable_inv by (simp add: itable_inv_def)
  from inode_numbers(1) [OF this v] have g: "group_nr sample_mnt ino < 2" by (simp add: sample_mnt_dims)
  have "table_block sample_mnt g = (if g = 0 then 5 else 11)" if "g < 2" for g
  proof (cases g)
    case (Suc h)
    then show ?thesis using that sample_mnt_dims(7) by (cases h) simp_all
  qed (simp add: sample_mnt_dims)
  then have "5 \<le> table_block sample_mnt (group_nr sample_mnt ino)" using g by simp
  then show ?thesis by (simp add: inode_addr_eq sample_mnt_dims)
qed

lemma sample_dir_apart: "dir_apart sample_mnt sample_dir" "dir_apart sample_dir_mnt sample_dir"
  using sample_tables by (simp_all add: dir_apart_def sample_dir_slots outside_def sample_mnt_dims sample_dir_same)
    (simp add: sample_mnt_def)

lemma sample_dir_itable: "itable_inv sample_dir_mnt"
proof (rule frame_itable [OF _ sample_itable_inv sample_dir_apart(1)])
  have "disk_bytes sample_dir_mnt a n = disk_bytes sample_mnt a n" if "a + n \<le> 3072 \<or> 4096 \<le> a" for a n
    using that by (intro nth_equalityI) (auto simp: disk_bytes_def sample_dir_mnt_def sample_mnt_def)
  then show "dir_frame (dir_slots (f_inode (d_file sample_dir)) 0) sample_mnt sample_dir_mnt"
    by (simp add: dir_frame_def sample_dir_slots outside_def sample_mnt_dims sample_dir_same)
      (simp add: sample_dir_mnt_def sample_mnt_def dev_ok_def)
qed

lemma sample_dir_view: "dir_view sample_dir_mnt sample_dir [[sample_free]]"
proof -
  have "enc sample_free = [0, 0, 0, 0, 0, 4, 0, 0] @ zero_bytes 1016"
    by (simp add: enc_def elen_def sample_free_def le32_def le16_def)
  moreover have "disk_bytes sample_dir_mnt 3072 (8 + 1016) = [0, 0, 0, 0, 0, 4, 0, 0] @ zero_bytes 1016"
    unfolding disk_bytes_append
  proof (rule arg_cong2 [of _ _ _ _ append])
    show "disk_bytes sample_dir_mnt 3072 8 = [0, 0, 0, 0, 0, 4, 0, 0]" by (simp add: disk_bytes_def sample_dir_mnt_def upt_rec)
    show "disk_bytes sample_dir_mnt (3072 + 8) 1016 = zero_bytes 1016" by (rule disk_zero) (simp add: sample_dir_mnt_def)
  qed
  moreover have "ent_ok sample_free" by (simp add: ent_ok_def elen_def sample_free_def name_len_def)
  ultimately have "block_view sample_dir_mnt 3 [sample_free]"
    by (simp add: block_view_def addr_ok_def block_bytes_def sample_dir_same)
  moreover have "dir_fs sample_dir_mnt" "dev_ok sample_dir_mnt" using sample_dir_itable by (simp_all add: dir_fs_def itable_inv_def sample_dir_same)
  moreover have "dir_inode sample_dir_mnt sample_dir"
    by (simp add: dir_inode_def sample_dir_same, simp add: sample_mnt_def sample_super_def EXT2_OS_HURD_def sample_dir_def block_mapped_def has_flag_def mode_is_def
      zero_file_def zero_inode_def inode_of_def un32_def)
  ultimately show ?thesis by (simp add: dir_view_def sample_dir_slots)
qed

theorem directory_refines_map_witness:
  "\<exists>m'. ext2_add_link sample_iter 0 sample_dir_mnt sample_dir [120] 7 1 = Inr (0, sample_dir, m')
     \<and> ext2_lookup_inode sample_iter m' sample_dir [120] = Inr (Inr 7, sample_dir, m')
     \<and> ext2_lookup_inode sample_iter m' sample_dir [121] = Inr (Inl (- ENOENT), sample_dir, m')"
proof -
  have env: "link_env sample_dir_mnt sample_iter"
    by (simp add: link_env_def iter_ok_def alloc_ok_def sample_dir_same sample_iter_def sample_env_def sample_kmalloc_def)
  have v: "inode_valid sample_dir_mnt (d_vino sample_dir)" and rw: "\<not> m_rdonly sample_dir_mnt"
    and idx: "\<not> has_flag (f_inode (d_file sample_dir)) EXT2_INDEX_FL"
    by (simp_all add: sample_dir_same inode_valid_def sample_mnt_def sample_dir_def has_flag_def zero_file_def zero_inode_def inode_of_def un32_def)
  have room: "has_room (ext2_dir_rec_len (length [120 :: u8])) (concat [[sample_free]])"
    by (simp add: has_room_def fits_def elen_def sample_free_def ext2_dir_rec_len_def)
  have lk: "name_lookup [[sample_free]] [121] = Inl (- ENOENT)" by (simp add: name_lookup_def sample_free_def)
  show ?thesis
    using directory_refines_map [OF sample_dir_view sample_dir_itable env rw v sample_dir_apart(2) idx, of "[120]" 7 0 1] room lk
    by (fastforce simp: sample_free_def)
qed

section \<open>Removing a directory\<close>

lemma same_disk_dir_view: "same_disk m m' \<Longrightarrow> dir_view m d ess \<Longrightarrow> dir_view m' d ess"
proof -
  assume sd: "same_disk m m'" and v: "dir_view m d ess"
  have "block_view m' = block_view m" by (rule ext, rule ext) (simp add: block_view_def addr_ok_def same_disk_simps [OF sd])
  then show ?thesis using v by (simp add: dir_view_def dir_fs_def dir_inode_def plain_fs_def same_disk_simps [OF sd])
qed

lemma first_busy: "e \<in> set es \<Longrightarrow> \<not> dot_entry e \<Longrightarrow> first_sel (\<lambda>e. if dot_entry e then None else Some False) es = Some False"
  by (induction es) auto

lemma list_all2_in_right: "list_all2 P xs ys \<Longrightarrow> y \<in> set ys \<Longrightarrow> \<exists>x \<in> set xs. P x y"
  by (induction rule: list_all2_induct) auto

lemma check_empty_busy:
  assumes v: "dir_view m d ess" and it: "iter_ok it" and e: "e \<in> set (concat ess)" "\<not> dot_entry e"
  shows "ext2_dir_iterate it ext2_check_empty DIRENT_FLAG_EMPTY m d True = Inr (0, d, m, False)"
proof -
  have "shown DIRENT_FLAG_EMPTY es = es" for es by (simp add: shown_def DIRENT_FLAG_EMPTY_def)
  then show ?thesis
    using empty_check.search_iterate [OF v it, of DIRENT_FLAG_EMPTY True] first_busy [OF e]
    by (simp add: DIRENT_FLAG_EMPTY_def DIRENT_FLAG_REMOVED_def)
qed

text \<open>
  C40: The check before a directory is removed looks into the wrong directory. Let the entry to be removed be in use, not
  be \<^verbatim>\<open>.\<close> or \<^verbatim>\<open>..\<close>, and name a directory, in a block-mapped directory with direct blocks on a filesystem without metadata
  checksums, not created by the Hurd, with blocks of less than 64 KiB, at most 2 GiB large, whose device does not fail, and let there be memory, so that the inode is read and the check runs.
  Then \<^verbatim>\<open>ext2_process_unlink\<close> searches the directory that holds the entry, where it finds at least the entry itself:
  it ends the iteration with ENOTEMPTY, and neither the block nor the disk changes, also when the named
  directory is empty. (The result of the check is ignored: when it cannot run, the entry is removed without
  it, see \<open>unlink_unchecked\<close>.)
\<close>
theorem unlink_directory_refused:
  assumes v: "dir_view m d ess" and inv: "itable_inv m" and env: "link_env m it"
    and e: "e \<in> set (concat ess)" "n_ino e \<noteq> 0" "ename e = l_name l" "\<not> dot_entry e" and at: "length p + elen e \<le> blksize m"
    and ino: "inode_valid m (ucast (n_ino e))" "mode_dir (i_mode (inode_of (inode_image m (ucast (n_ino e)))))"
  shows "\<exists>m'. ext2_process_unlink it d en (length p) (blksize m) (p @ enc e @ q) m l =
      Inr (DIRENT_ABORT, p @ enc e @ q, m', l\<lparr>l_prev := Some (length p), l_err := - ENOTEMPTY\<rparr>) \<and> same_disk m m'"
proof -
  obtain es where "es \<in> set ess" "e \<in> set es" using e(1) by auto
  then have ok: "ent_ok e" "elen e < 65536"
    using v at by (auto simp: dir_view_def dir_fs_def block_view_def dest!: list_all2_in_right)
  obtain m' where rd: "ext2_read_inode (e_alloc (it_env it)) m (ucast (n_ino e)) = Inr (Inr (inode_image m (ucast (n_ino e))), m')"
    and sd: "same_disk m m'"
    using read_inode_ok [of m "e_alloc (it_env it)" "ucast (n_ino e)"] inv env ino(1) by (auto simp: itable_inv_def link_env_def)
  have "unlink_inode it m d (ucast (n_ino e)) = Inr (True, m')"
    using rd ino(2) check_empty_busy [OF same_disk_dir_view [OF sd v] _ e(1,4), of it] env by (simp add: unlink_inode_def link_env_def)
  then show ?thesis
    using same_name_entry [OF refl ok, of "ename e" p q] entry_reads(1,3) [OF refl ok(2), of p q] e(2,3) sd by (simp add: ext2_process_unlink_def Let_def)
qed

text \<open>Inode 1 is a directory, and the only entry of the directory in block 3 names it.\<close>

definition sample_parent_mnt :: mnt where
  "sample_parent_mnt = sample_mnt\<lparr>m_dev := (m_dev sample_mnt)\<lparr>bd_data :=
     (\<lambda>k. if k = 3072 \<or> k = 3078 then 1 else if k = 3077 then 4 else if k = 3080 then 100 else if k = 5121 then 0x41 else 0)\<rparr>\<rparr>"

definition sample_entry :: dent where "sample_entry = \<lparr>n_ino = 1, n_nl = 1, n_body = 100 # zero_bytes 1015\<rparr>"

lemma sample_parent_same: "m_fs sample_parent_mnt = m_fs sample_mnt" "m_icache sample_parent_mnt = None"
  "blksize sample_parent_mnt = 1024" "isize sample_parent_mnt = 256" "inode_addr sample_parent_mnt = inode_addr sample_mnt" "inode_valid sample_parent_mnt = inode_valid sample_mnt"
  "ipg sample_parent_mnt = ipg sample_mnt" "table_block sample_parent_mnt = table_block sample_mnt" "dev_ok sample_parent_mnt" "plain_fs sample_parent_mnt"
  using sample_mnt_dims sample_itable_inv by (simp_all add: sample_parent_mnt_def blksize_def isize_def inode_addr_def inode_valid_def ipg_def table_block_def fun_eq_iff
    dev_ok_def itable_inv_def plain_fs_def) (simp add: sample_mnt_def)

lemma sample_parent_itable: "itable_inv sample_parent_mnt"
  using sample_itable_inv by (simp add: itable_inv_def itable_ok_def cache_ok_def sample_parent_same sample_mnt_dims)

lemma sample_parent_view: "dir_view sample_parent_mnt sample_dir [[sample_entry]]"
proof -
  have "enc sample_entry = [1, 0, 0, 0, 0, 4, 1, 0, 100] @ zero_bytes 1015"
    by (simp add: enc_def elen_def sample_entry_def le32_def le16_def)
  moreover have "disk_bytes sample_parent_mnt 3072 (9 + 1015) = [1, 0, 0, 0, 0, 4, 1, 0, 100] @ zero_bytes 1015"
    unfolding disk_bytes_append
  proof (rule arg_cong2 [of _ _ _ _ append])
    show "disk_bytes sample_parent_mnt 3072 9 = [1, 0, 0, 0, 0, 4, 1, 0, 100]" by (simp add: disk_bytes_def sample_parent_mnt_def upt_rec)
    show "disk_bytes sample_parent_mnt (3072 + 9) 1015 = zero_bytes 1015" by (rule disk_zero) (simp add: sample_parent_mnt_def)
  qed
  moreover have "ent_ok sample_entry" by (simp add: ent_ok_def elen_def sample_entry_def name_len_def)
  ultimately have "block_view sample_parent_mnt 3 [sample_entry]"
    by (simp add: block_view_def addr_ok_def block_bytes_def sample_parent_same)
  moreover have "dir_inode sample_parent_mnt sample_dir" using sample_dir_view by (simp add: dir_view_def dir_inode_def sample_dir_same sample_parent_same)
  ultimately show ?thesis by (simp add: dir_view_def dir_fs_def sample_dir_slots sample_parent_same)
qed

theorem unlink_directory_refused_witness:
  "\<exists>m'. ext2_process_unlink sample_iter sample_dir DIRENT_OTHER_FILE 0 1024 (enc sample_entry) sample_parent_mnt
       \<lparr>l_name = [100], l_inode = 0, l_flags = 0, l_done = False, l_err = 0, l_prev = None\<rparr> =
     Inr (DIRENT_ABORT, enc sample_entry, m', \<lparr>l_name = [100], l_inode = 0, l_flags = 0, l_done = False, l_err = - ENOTEMPTY, l_prev = Some 0\<rparr>)"
proof -
  have env: "link_env sample_parent_mnt sample_iter"
    by (simp add: link_env_def iter_ok_def alloc_ok_def sample_parent_same sample_iter_def sample_env_def sample_kmalloc_def)
  have v: "inode_valid sample_parent_mnt 1" by (simp add: sample_parent_same inode_valid_def sample_mnt_def sample_fs_def sample_super_def)
  have "inode_addr sample_parent_mnt 1 = 5120" by (simp add: sample_parent_same inode_addr_def sample_mnt_dims)
  then have "inode_image sample_parent_mnt 1 = 0 # 0x41 # disk_bytes sample_parent_mnt 5122 126"
    by (simp add: inode_image_def disk_bytes_def upt_conv_Cons sample_parent_mnt_def)
  then have dir: "mode_dir (i_mode (inode_of (inode_image sample_parent_mnt 1)))" by (simp add: inode_of_def un16_def mode_is_def)
  show ?thesis
    using unlink_directory_refused [OF sample_parent_view sample_parent_itable env, of sample_entry
      "\<lparr>l_name = [100], l_inode = 0, l_flags = 0, l_done = False, l_err = 0, l_prev = None\<rparr>" "[]" DIRENT_OTHER_FILE "[]"] v dir
    by (auto simp: sample_entry_def ename_def name_len_def dot_entry_def elen_def sample_parent_same)
qed

section \<open>Where the code departs from its contract\<close>

text \<open>Without memory for the iteration the check for an empty directory reports nothing, its result is ignored, and the
  directory loses its link.\<close>

lemma unlink_unchecked:
  assumes "ext2_read_inode (e_alloc (it_env it)) m ino = Inr (Inr bytes, m')" and "e_block_oom (it_env it)"
  shows "unlink_inode it m d ino = bindE (drop_link it m' ino (inode_of bytes)) (\<lambda>m. Inr (False, m))"
  using assms by (simp add: unlink_inode_def ext2_dir_iterate_def)

end
