(* ===== verification/Sha256.thy ===== *)
theory Sha256
  imports Prelude
begin

unbundle bit_operations_syntax

text \<open>
  The hash of \<^verbatim>\<open>libk/sha256.c\<close> and the entropy pool of \<^verbatim>\<open>libk/random.c\<close>. The context holds the digest buffer, the
  partial chunk with the write position as an offset, and the counters at their 32-bit width. The
  reference definition follows the standard: the message is padded as a whole, cut into blocks, and
  every block expanded to 64 schedule words.
\<close>

section \<open>The code\<close>

definition ror :: "u32 \<Rightarrow> nat \<Rightarrow> u32" where
  "ror x n = drop_bit n x OR push_bit (32 - n) x"

definition sha256_k :: "u32 list" where
  "sha256_k =
    concat
     [[0x428a2f98, 0x71374491, 0xb5c0fbcf, 0xe9b5dba5, 0x3956c25b, 0x59f111f1],
      [0x923f82a4, 0xab1c5ed5, 0xd807aa98, 0x12835b01, 0x243185be, 0x550c7dc3],
      [0x72be5d74, 0x80deb1fe, 0x9bdc06a7, 0xc19bf174, 0xe49b69c1, 0xefbe4786],
      [0x0fc19dc6, 0x240ca1cc, 0x2de92c6f, 0x4a7484aa, 0x5cb0a9dc, 0x76f988da],
      [0x983e5152, 0xa831c66d, 0xb00327c8, 0xbf597fc7, 0xc6e00bf3, 0xd5a79147],
      [0x06ca6351, 0x14292967, 0x27b70a85, 0x2e1b2138, 0x4d2c6dfc, 0x53380d13],
      [0x650a7354, 0x766a0abb, 0x81c2c92e, 0x92722c85, 0xa2bfe8a1, 0xa81a664b],
      [0xc24b8b70, 0xc76c51a3, 0xd192e819, 0xd6990624, 0xf40e3585, 0x106aa070],
      [0x19a4c116, 0x1e376c08, 0x2748774c, 0x34b0bcb5, 0x391c0cb3, 0x4ed8aa4a],
      [0x5b9cca4f, 0x682e6ff3, 0x748f82ee, 0x78a5636f, 0x84c87814, 0x8cc70208],
      [0x90befffa, 0xa4506ceb, 0xbef9a3f7, 0xc67178f2]]"

text \<open>One pass of the inner loop: the word of the message or the next word of the schedule, kept in a ring of
  sixteen, and the rotation of the eight registers.\<close>

definition next_w :: "u8 list \<Rightarrow> nat \<Rightarrow> nat \<Rightarrow> u32 list \<Rightarrow> u32" where
  "next_w ptr i j w =
     (if i = 0 then
        push_bit 24 (ucast (ptr ! (4 * j))) OR push_bit 16 (ucast (ptr ! (4 * j + 1))) OR
        push_bit 8 (ucast (ptr ! (4 * j + 2))) OR ucast (ptr ! (4 * j + 3))
      else
        let a = w ! ((j + 1) mod 16); b = w ! ((j + 14) mod 16);
            s0 = ror a 7 XOR ror a 18 XOR drop_bit 3 a;
            s1 = ror b 17 XOR ror b 19 XOR drop_bit 10 b
        in w ! j + (s0 + w ! ((j + 9) mod 16) + s1))"

definition rotate :: "u32 list \<Rightarrow> u32 \<Rightarrow> u32 \<Rightarrow> u32 list" where
  "rotate ah k w =
     (let s1 = ror (ah ! 4) 6 XOR ror (ah ! 4) 11 XOR ror (ah ! 4) 25;
          ch = (ah ! 4 AND ah ! 5) XOR (NOT (ah ! 4) AND ah ! 6);
          t1 = ah ! 7 + s1 + ch + k + w;
          s0 = ror (ah ! 0) 2 XOR ror (ah ! 0) 13 XOR ror (ah ! 0) 22;
          maj = (ah ! 0 AND ah ! 1) XOR (ah ! 0 AND ah ! 2) XOR (ah ! 1 AND ah ! 2);
          t2 = s0 + maj
      in [t1 + t2, ah ! 0, ah ! 1, ah ! 2, ah ! 3 + t1, ah ! 4, ah ! 5, ah ! 6])"

definition sha256_round :: "u8 list \<Rightarrow> nat \<Rightarrow> nat \<Rightarrow> u32 list \<times> u32 list \<Rightarrow> u32 list \<times> u32 list" where
  "sha256_round ptr i j = (\<lambda>(ah, w).
     let w = w[j := next_w ptr i j w] in (rotate ah (sha256_k ! (16 * i + j)) (w ! j), w))"

text \<open>The ring is filled by the first sixteen passes before it is read, so that its initial content does not matter.\<close>

definition sha256_consume_chunk :: "u32 list \<Rightarrow> u8 list \<Rightarrow> u32 list" where
  "sha256_consume_chunk h ptr =
     (let (ah, w) = foldl (\<lambda>s i. foldl (\<lambda>s j. sha256_round ptr i j s) s [0..<16]) (h, replicate 16 0) [0..<4]
      in map2 (+) h ah)"

record SHA256Context =
  s_digest :: "u8 list"
  s_chunk :: "u8 list"
  s_ptr :: nat
  s_rem :: u32
  s_len :: u32
  s_h :: "u32 list"

definition sha256_init :: "SHA256Context \<Rightarrow> u8 list \<Rightarrow> SHA256Context" where
  "sha256_init ctx digest = ctx\<lparr>s_digest := digest, s_ptr := 0, s_rem := 64, s_len := 0,
     s_h := [0x6a09e667, 0xbb67ae85, 0x3c6ef372, 0xa54ff53a, 0x510e527f, 0x9b05688c, 0x1f83d9ab, 0x5be0cd19]\<rparr>"

function write_loop :: "SHA256Context \<Rightarrow> u8 list \<Rightarrow> SHA256Context exec" where
  "write_loop ctx data =
     (if data = [] then Inr ctx
      else if s_rem ctx = 64 \<and> 64 \<le> length data
      then write_loop (ctx\<lparr>s_h := sha256_consume_chunk (s_h ctx) (take 64 data)\<rparr>) (drop 64 data)
      else
        let consumed = (if length data < unat (s_rem ctx) then length data else unat (s_rem ctx))
        in bindE (copy_in (s_chunk ctx) (s_ptr ctx) consumed data) (\<lambda>chunk.
             let ctx = ctx\<lparr>s_chunk := chunk, s_rem := s_rem ctx - of_nat consumed\<rparr>; data = drop consumed data
             in if s_rem ctx = 0
                then write_loop (ctx\<lparr>s_h := sha256_consume_chunk (s_h ctx) chunk, s_ptr := 0, s_rem := 64\<rparr>) data
                else write_loop (ctx\<lparr>s_ptr := s_ptr ctx + consumed\<rparr>) data))"
  by pat_completeness auto
termination
  by (relation "measure (\<lambda>(ctx, data). 2 * length data + (if s_rem ctx = 0 then 1 else 0))")
    (auto simp: Let_def unat_gt_0)

declare write_loop.simps [simp del]

definition sha256_write :: "SHA256Context \<Rightarrow> u8 list \<Rightarrow> SHA256Context exec" where
  "sha256_write ctx data = write_loop (ctx\<lparr>s_len := s_len ctx + of_nat (length data)\<rparr>) data"

text \<open>The length in bits as eight bytes: the lowest is computed from the length in bytes, then the
  length is shifted down to give the others.\<close>

definition len_bytes :: "u32 \<Rightarrow> u8 list" where
  "len_bytes len = rev (ucast (push_bit 3 len) # map (\<lambda>i. ucast (drop_bit (8 * i) (drop_bit 5 len))) [0..<7])"

definition be32 :: "u32 \<Rightarrow> u8 list" where
  "be32 n = [ucast (drop_bit 24 n), ucast (drop_bit 16 n), ucast (drop_bit 8 n), ucast n]"

definition sha256_close :: "SHA256Context \<Rightarrow> (u8 list \<times> SHA256Context) exec" where
  "sha256_close ctx =
     (let pos = s_ptr ctx; rem = s_rem ctx
      in bindE (copy_in (s_chunk ctx) pos 1 [0x80]) (\<lambda>chunk.
         let pos = pos + 1; rem = rem - 1; ctx = ctx\<lparr>s_chunk := chunk\<rparr>
         in bindE (if rem < 8
                   then bindE (copy_in chunk pos (unat rem) (replicate (unat rem) 0)) (\<lambda>chunk.
                     Inr (ctx\<lparr>s_chunk := chunk, s_h := sha256_consume_chunk (s_h ctx) chunk\<rparr>, 0, 64))
                   else Inr (ctx, pos, rem)) (\<lambda>(ctx, pos, rem).
            let rem = rem - 8
            in bindE (copy_in (s_chunk ctx) pos (unat rem) (replicate (unat rem) 0)) (\<lambda>chunk.
               bindE (copy_in chunk (pos + unat rem) 8 (len_bytes (s_len ctx))) (\<lambda>chunk.
               let h = sha256_consume_chunk (s_h ctx) chunk; digest = concat (map be32 h)
               in Inr (digest, ctx\<lparr>s_chunk := chunk, s_h := h, s_digest := digest\<rparr>))))))"

definition any_context :: "u8 list \<Rightarrow> SHA256Context" where
  "any_context chunk = \<lparr>s_digest = [], s_chunk = chunk, s_ptr = 0, s_rem = 0, s_len = 0, s_h = []\<rparr>"

definition sha256_data :: "u8 list \<Rightarrow> u8 list \<Rightarrow> u8 list exec" where
  "sha256_data digest data =
     bindE (sha256_write (sha256_init (any_context (replicate 64 0)) digest) data) (\<lambda>ctx.
     bindE (sha256_close ctx) (\<lambda>(digest, ctx). Inr digest))"

text \<open>\<^verbatim>\<open>libk/random.c\<close>: the pool is stirred with its own hash; the output is the hash of the pool.\<close>

definition add_entropy :: "u8 list \<Rightarrow> u8 list \<Rightarrow> u8 list exec" where
  "add_entropy pool data =
     bindE (sha256_write (sha256_init (any_context (replicate 64 0)) pool) pool) (\<lambda>ctx.
     bindE (sha256_write ctx data) (\<lambda>ctx. bindE (sha256_close ctx) (\<lambda>(buffer, ctx). Inr buffer)))"

function get_entropy :: "u8 list \<Rightarrow> nat \<Rightarrow> (u8 list \<times> u8 list) exec" where
  "get_entropy pool len =
     (if len = 0 then Inr ([], pool)
      else
        bindE (sha256_data (replicate 32 0) pool) (\<lambda>buffer.
        bindE (add_entropy pool buffer) (\<lambda>pool.
        let l = (if len < 32 then len else 32)
        in bindE (get_entropy pool (len - l)) (\<lambda>(data, pool). Inr (take l buffer @ data, pool)))))"
  by pat_completeness auto
termination by (relation "measure (\<lambda>(pool, len). len)") auto

declare get_entropy.simps [simp del]

definition random_init :: "u8 list \<Rightarrow> u8 list exec" where
  "random_init time = sha256_data (replicate 32 0) time"

section \<open>The standard\<close>

definition sigma0 :: "u32 \<Rightarrow> u32" where "sigma0 x = word_rotr 7 x XOR word_rotr 18 x XOR drop_bit 3 x"
definition sigma1 :: "u32 \<Rightarrow> u32" where "sigma1 x = word_rotr 17 x XOR word_rotr 19 x XOR drop_bit 10 x"
definition Sigma0 :: "u32 \<Rightarrow> u32" where "Sigma0 x = word_rotr 2 x XOR word_rotr 13 x XOR word_rotr 22 x"
definition Sigma1 :: "u32 \<Rightarrow> u32" where "Sigma1 x = word_rotr 6 x XOR word_rotr 11 x XOR word_rotr 25 x"
definition Ch :: "u32 \<Rightarrow> u32 \<Rightarrow> u32 \<Rightarrow> u32" where "Ch x y z = (x AND y) XOR (NOT x AND z)"
definition Maj :: "u32 \<Rightarrow> u32 \<Rightarrow> u32 \<Rightarrow> u32" where "Maj x y z = (x AND y) XOR (x AND z) XOR (y AND z)"

definition block_word :: "u8 list \<Rightarrow> nat \<Rightarrow> u32" where
  "block_word M t = word_of_nat (unat (M ! (4 * t)) * 16777216 + unat (M ! (4 * t + 1)) * 65536 +
     unat (M ! (4 * t + 2)) * 256 + unat (M ! (4 * t + 3)))"

function schedule :: "u8 list \<Rightarrow> nat \<Rightarrow> u32" where
  "schedule M t =
     (if t < 16 then block_word M t
      else sigma1 (schedule M (t - 2)) + schedule M (t - 7) + sigma0 (schedule M (t - 15)) + schedule M (t - 16))"
  by pat_completeness auto
termination by (relation "measure snd") auto

declare schedule.simps [simp del]

fun round_step :: "u32 list \<Rightarrow> u32 \<Rightarrow> u32 \<Rightarrow> u32 list" where
  "round_step [a, b, c, d, e, f, g, h] k w =
     (let t1 = h + Sigma1 e + Ch e f g + k + w; t2 = Sigma0 a + Maj a b c
      in [t1 + t2, a, b, c, d + t1, e, f, g])"
| "round_step _ k w = []"

definition compress :: "u32 list \<Rightarrow> u8 list \<Rightarrow> u32 list" where
  "compress H M = map2 (+) H (foldl (\<lambda>s t. round_step s (sha256_k ! t) (schedule M t)) H [0..<64])"

function hash_blocks :: "u32 list \<Rightarrow> u8 list \<Rightarrow> u32 list" where
  "hash_blocks H M = (if length M < 64 then H else hash_blocks (compress H (take 64 M)) (drop 64 M))"
  by pat_completeness auto
termination by (relation "measure (\<lambda>(H, M). length M)") auto

declare hash_blocks.simps [simp del]

definition be64 :: "u64 \<Rightarrow> u8 list" where
  "be64 n = map (\<lambda>i. ucast (drop_bit (56 - 8 * i) n)) [0..<8]"

definition pad :: "u8 list \<Rightarrow> u8 list" where
  "pad M = M @ [0x80] @ replicate ((119 - length M mod 64) mod 64) 0 @ be64 (of_nat (8 * length M))"

definition initial_hash :: "u32 list" where
  "initial_hash = [0x6a09e667, 0xbb67ae85, 0x3c6ef372, 0xa54ff53a, 0x510e527f, 0x9b05688c, 0x1f83d9ab, 0x5be0cd19]"

definition sha256_spec :: "u8 list \<Rightarrow> u8 list" where
  "sha256_spec M = concat (map be32 (hash_blocks initial_hash (pad M)))"

section \<open>The compression function\<close>

lemma ror_word_rotr:
  assumes "0 < n" "n < 32"
  shows "ror x n = word_rotr n x"
proof (rule bit_word_eqI)
  fix k assume "k < LENGTH(32)"
  then have k: "k < 32" by simp
  have m: "(k + n) mod 32 = (if k + n < 32 then k + n else k + n - 32)" using k assms by (auto simp: le_mod_geq)
  have out: "\<not> bit x m" if "32 \<le> m" for m using that bit_imp_le_length [of x m] by auto
  show "bit (ror x n) k = bit (word_rotr n x) k"
  proof (cases "k + n < 32")
    case True
    then have "\<not> 32 - n \<le> k" by linarith
    then show ?thesis using k True by (simp add: ror_def bit_simps m add.commute)
  next
    case False
    then have "32 - n \<le> k" "k - (32 - n) = k + n - 32" using assms by linarith+
    then show ?thesis using k False out [of "k + n"] by (simp add: ror_def bit_simps m add.commute)
  qed
qed

lemma rotate_round_step: "length ah = 8 \<Longrightarrow> rotate ah k w = round_step ah k w"
  by (auto simp: rotate_def numeral_eq_Suc length_Suc_conv Let_def Sigma0_def Sigma1_def Ch_def Maj_def ror_word_rotr)

lemma length_round_step: "length ah = 8 \<Longrightarrow> length (round_step ah k w) = 8"
  by (auto simp: numeral_eq_Suc length_Suc_conv Let_def)

lemma word_of_bytes:
  "push_bit 24 (ucast a) OR push_bit 16 (ucast b) OR push_bit 8 (ucast c) OR ucast d =
   (word_of_nat (unat a * 16777216 + unat b * 65536 + unat c * 256 + unat d) :: u32)"
  for a b c d :: u8
proof -
  have disj: "push_bit 24 (ucast a) OR push_bit 16 (ucast b) OR push_bit 8 (ucast c) OR ucast d =
      (push_bit 24 (ucast a) + (push_bit 16 (ucast b) + (push_bit 8 (ucast c) + ucast d)) :: u32)"
    by (subst disjunctive_add, auto simp: bit_simps dest: bit_imp_le_length)+
  show ?thesis unfolding disj by (simp add: push_bit_eq_mult unsigned_of_nat algebra_simps)
qed

lemma block_word_bytes:
  "push_bit 24 (ucast (M ! (4 * t))) OR push_bit 16 (ucast (M ! (4 * t + 1))) OR
   push_bit 8 (ucast (M ! (4 * t + 2))) OR ucast (M ! (4 * t + 3)) = block_word M t"
  unfolding word_of_bytes block_word_def ..

lemma fold_pairs:
  "foldl (\<lambda>s i. foldl (\<lambda>s j. f i j s) s [0..<m]) s [0..<n] = foldl (\<lambda>s t. f (t div m) (t mod m) s) s [0..<n * m]"
  if "0 < m"
proof (induction n)
  case (Suc n)
  have "[0..<Suc n * m] = [0..<n * m] @ map (\<lambda>j. n * m + j) [0..<m]"
    using upt_add_eq_append [of 0 "n * m" m] by (simp add: map_add_upt add.commute)
  moreover have "foldl (\<lambda>s j. f n j s) s' [0..<m] = foldl (\<lambda>s t. f (t div m) (t mod m) s) s' (map (\<lambda>j. n * m + j) [0..<m])" for s'
    unfolding foldl_map by (rule foldl_cong) (use that in auto)
  ultimately show ?case using Suc by simp
qed simp

text \<open>The ring holds the last sixteen words of the schedule.\<close>

definition ring :: "u8 list \<Rightarrow> nat \<Rightarrow> u32 list \<Rightarrow> bool" where
  "ring M t w \<longleftrightarrow> length w = 16 \<and> (\<forall>s < t. t \<le> s + 16 \<longrightarrow> w ! (s mod 16) = schedule M s)"

lemma next_w_schedule:
  assumes "ring M t w"
  shows "next_w M (t div 16) (t mod 16) w = schedule M t"
proof (cases "t < 16")
  case True
  then show ?thesis using block_word_bytes [of M t] by (simp add: next_w_def schedule.simps [of M t])
next
  case False
  have at: "w ! ((t + k) mod 16) = schedule M (t - (16 - k))" if "k < 16" for k
  proof -
    have "(t - (16 - k)) mod 16 = (t - (16 - k) + 16) mod 16" by simp
    also have "\<dots> = (t + k) mod 16" using False that by (intro arg_cong [of _ _ "\<lambda>x. x mod 16"]) linarith
    finally have eq: "(t - (16 - k)) mod 16 = (t + k) mod 16" .
    have "w ! ((t - (16 - k)) mod 16) = schedule M (t - (16 - k))" using assms False that unfolding ring_def by simp
    then show ?thesis unfolding eq .
  qed
  have "w ! (t mod 16) = schedule M (t - 16)" "w ! ((t mod 16 + 1) mod 16) = schedule M (t - 15)"
    "w ! ((t mod 16 + 9) mod 16) = schedule M (t - 7)" "w ! ((t mod 16 + 14) mod 16) = schedule M (t - 2)"
    using at [of 0] at [of 1] at [of 9] at [of 14] by (simp_all add: mod_simps)
  moreover have "t div 16 \<noteq> 0" using False by (simp add: div_eq_0_iff)
  ultimately show ?thesis using False schedule.simps [of M t]
    by (simp add: next_w_def Let_def sigma0_def sigma1_def ror_word_rotr algebra_simps)
qed

lemma ring_step: "ring M t w \<Longrightarrow> ring M (Suc t) (w[t mod 16 := schedule M t])"
proof -
  assume r: "ring M t w"
  have ne: "s mod 16 \<noteq> t mod 16" if "s < t" "t < s + 16" for s
  proof
    assume "s mod 16 = t mod 16"
    then have "16 dvd t - s" using that mod_eq_dvd_iff_nat [of s t 16] by simp
    then show False using that by (auto dest: dvd_imp_le)
  qed
  have "w[t mod 16 := schedule M t] ! (s mod 16) = schedule M s" if "s < Suc t" "Suc t \<le> s + 16" for s
    using that r ne [of s] by (cases "s = t") (auto simp: ring_def)
  then show ?thesis using r by (simp add: ring_def)
qed

lemma rounds_spec:
  assumes "length H = 8"
  shows "\<exists>w. foldl (\<lambda>s t. sha256_round M (t div 16) (t mod 16) s) (H, replicate 16 0) [0..<n] =
    (foldl (\<lambda>s t. round_step s (sha256_k ! t) (schedule M t)) H [0..<n], w) \<and> ring M n w \<and>
    length (foldl (\<lambda>s t. round_step s (sha256_k ! t) (schedule M t)) H [0..<n]) = 8"
proof (induction n)
  case 0
  then show ?case using assms by (simp add: ring_def)
next
  case (Suc n)
  let ?ah = "foldl (\<lambda>s t. round_step s (sha256_k ! t) (schedule M t)) H [0..<n]"
  obtain w where w: "foldl (\<lambda>s t. sha256_round M (t div 16) (t mod 16) s) (H, replicate 16 0) [0..<n] = (?ah, w)"
    "ring M n w" "length ?ah = 8" using Suc by blast
  have "sha256_round M (n div 16) (n mod 16) (?ah, w) = (round_step ?ah (sha256_k ! n) (schedule M n), w[n mod 16 := schedule M n])"
    using w(2,3) by (simp add: sha256_round_def Let_def next_w_schedule rotate_round_step ring_def)
  then show ?case using w(1,3) ring_step [OF w(2)] by (simp add: length_round_step)
qed

lemma consume_chunk_compress: "length H = 8 \<Longrightarrow> sha256_consume_chunk H M = compress H M"
  using rounds_spec [of H M 64] fold_pairs [of 16 "sha256_round M" "(H, replicate 16 0)" 4]
  by (auto simp: sha256_consume_chunk_def compress_def)

section \<open>Hashing a stream\<close>

lemma length_compress: "length H = 8 \<Longrightarrow> length (compress H M) = 8"
  using rounds_spec [of H M 64] by (auto simp: compress_def)

lemma length_hash_blocks: "length H = 8 \<Longrightarrow> length (hash_blocks H M) = 8"
proof (induction H M rule: hash_blocks.induct)
  case (1 H M)
  then show ?case by (subst hash_blocks.simps) (simp add: length_compress)
qed

lemma hash_blocks_append: "64 dvd length A \<Longrightarrow> hash_blocks H (A @ B) = hash_blocks (hash_blocks H A) B"
proof (induction H A rule: hash_blocks.induct)
  case (1 H A)
  show ?case
  proof (cases "length A < 64")
    case True
    then have "A = []" using 1(2) by (auto dest: dvd_imp_le)
    then show ?thesis by (simp add: hash_blocks.simps [of H "[]"])
  next
    case False
    then have "64 dvd length (drop 64 A)" using 1(2) by (simp add: dvd_diff_nat)
    from 1(1) [OF False this] False show ?thesis
      by (simp add: hash_blocks.simps [of H A] hash_blocks.simps [of H "A @ B"])
  qed
qed

lemma hash_block: "length M = 64 \<Longrightarrow> hash_blocks H M = compress H M"
  by (simp add: hash_blocks.simps [of H M] hash_blocks.simps [of _ "[]"])

text \<open>The context has absorbed the whole blocks \<open>M\<close> and holds the tail \<open>T\<close> in its chunk.\<close>

definition absorbed :: "SHA256Context \<Rightarrow> u8 list \<Rightarrow> u8 list \<Rightarrow> bool" where
  "absorbed ctx M T \<longleftrightarrow> 64 dvd length M \<and> length T < 64 \<and> s_h ctx = hash_blocks initial_hash M \<and> s_ptr ctx = length T \<and>
     s_rem ctx = of_nat (64 - length T) \<and> length (s_chunk ctx) = 64 \<and> take (length T) (s_chunk ctx) = T"

lemma absorbed_block:
  assumes "64 dvd length M" "length B = 64"
  shows "sha256_consume_chunk (hash_blocks initial_hash M) B = hash_blocks initial_hash (M @ B)"
  using assms by (simp add: hash_blocks_append hash_block consume_chunk_compress length_hash_blocks initial_hash_def)

lemma write_loop_absorbed:
  assumes "absorbed ctx M T"
  shows "\<exists>ctx' M' T'. write_loop ctx data = Inr ctx' \<and> absorbed ctx' M' T' \<and> M' @ T' = M @ T @ data \<and> s_len ctx' = s_len ctx"
  using assms
proof (induction ctx data arbitrary: M T rule: write_loop.induct)
  case (1 ctx data)
  note a = 1(4) [unfolded absorbed_def]
  have u: "unat (of_nat k :: u32) = k" if "k \<le> 64" for k using that by (simp add: unat_of_nat take_bit_nat_eq_self)
  have rem: "unat (s_rem ctx) = 64 - length T" using a u [of "64 - length T"] by simp
  have full: "s_rem ctx = 64 \<longleftrightarrow> T = []" using a rem by (cases T) (auto simp: word_unat_eq_iff)
  consider (none) "data = []" | (block) "data \<noteq> []" "T = []" "64 \<le> length data" | (part) "data \<noteq> []" "\<not> (T = [] \<and> 64 \<le> length data)"
    by blast
  then show ?case
  proof cases
    case none
    then show ?thesis using 1(4) by (auto simp: write_loop.simps)
  next
    case block
    let ?ctx = "ctx\<lparr>s_h := sha256_consume_chunk (s_h ctx) (take 64 data)\<rparr>"
    have "absorbed ?ctx (M @ take 64 data) []" using a block absorbed_block [of M "take 64 data"] by (simp add: absorbed_def)
    from 1(1) [OF block(1) _ this] block full have "\<exists>ctx' M' T'. write_loop ?ctx (drop 64 data) = Inr ctx' \<and> absorbed ctx' M' T' \<and>
        M' @ T' = M @ data \<and> s_len ctx' = s_len ctx" by simp
    then show ?thesis using block full by (simp add: write_loop.simps [of ctx data])
  next
    case part
    define c where "c = (if length data < 64 - length T then length data else 64 - length T)"
    define chunk where "chunk = T @ take c data @ drop (length T + c) (s_chunk ctx)"
    have c: "c \<le> length data" "length T + c \<le> 64" "0 < c" using a part by (auto simp: c_def)
    have copy: "copy_in (s_chunk ctx) (s_ptr ctx) c data = Inr chunk" "length chunk = 64"
      using a c by (auto simp: copy_in_def chunk_def)
    have sub: "s_rem ctx - of_nat c = of_nat (64 - length T - c)" using a c by (simp add: of_nat_diff)
    have zero: "s_rem ctx - of_nat c = 0 \<longleftrightarrow> length T + c = 64" unfolding sub using c u [of "64 - length T - c"] by (auto simp: unat_eq_0 [symmetric])
    have cc: "(if length data < unat (s_rem ctx) then length data else unat (s_rem ctx)) = c" by (simp add: c_def rem)
    define ctx1 where "ctx1 = ctx\<lparr>s_chunk := chunk, s_rem := s_rem ctx - of_nat c\<rparr>"
    have nb: "\<not> (s_rem ctx = 64 \<and> 64 \<le> length data)" using part(2) full by simp
    have z: "s_rem ctx1 = 0 \<longleftrightarrow> length T + c = 64" using zero by (simp add: ctx1_def)
    have step: "write_loop ctx data =
        (if length T + c = 64
         then write_loop (ctx1\<lparr>s_h := sha256_consume_chunk (s_h ctx1) chunk, s_ptr := 0, s_rem := 64\<rparr>) (drop c data)
         else write_loop (ctx1\<lparr>s_ptr := s_ptr ctx1 + c\<rparr>) (drop c data))"
      unfolding write_loop.simps [of ctx data] if_not_P [OF part(1)] if_not_P [OF nb] cc Let_def copy(1) bindE_Inr
        ctx1_def [symmetric] z ..
    note ih = 1(2,3) [OF part(1) nb cc [symmetric] copy(1) ctx1_def refl]
    show ?thesis
    proof (cases "length T + c = 64")
      case True
      let ?ctx = "ctx1\<lparr>s_h := sha256_consume_chunk (s_h ctx1) chunk, s_ptr := 0, s_rem := 64\<rparr>"
      have ch: "chunk = T @ take c data" using True a by (simp add: chunk_def)
      then have "absorbed ?ctx (M @ chunk) []" using a copy(2) absorbed_block [of M chunk] by (simp add: absorbed_def ctx1_def)
      moreover have "s_rem ctx1 = 0" using True z by simp
      ultimately show ?thesis using ih(1) [of "M @ chunk" "[]"] True step ch by (simp add: ctx1_def)
    next
      case False
      let ?ctx = "ctx1\<lparr>s_ptr := s_ptr ctx1 + c\<rparr>"
      have "take (length T + c) chunk = T @ take c data" using a c by (simp add: chunk_def)
      then have "absorbed ?ctx M (T @ take c data)" using a copy(2) c False sub by (simp add: absorbed_def ctx1_def)
      moreover have "s_rem ctx1 \<noteq> 0" using False z by simp
      ultimately show ?thesis using ih(2) [of M "T @ take c data"] False step by (simp add: ctx1_def)
    qed
  qed
qed

lemma len_byte:
  "(ucast (drop_bit (8 * (i + 1)) (push_bit 3 (ucast x :: u64))) :: u8) = ucast (drop_bit (8 * i) (drop_bit 5 x))"
  if "i < 7" for x :: u32
proof (rule bit_word_eqI)
  fix k assume "k < LENGTH(8)"
  then have "8 * (i + 1) + k < 64" "8 * (i + 1) + k - 3 = 8 * i + k + 5" using that by simp_all
  then show "bit (ucast (drop_bit (8 * (i + 1)) (push_bit 3 (ucast x :: u64))) :: u8) k = bit (ucast (drop_bit (8 * i) (drop_bit 5 x)) :: u8) k"
    using \<open>k < LENGTH(8)\<close> by (auto simp: bit_simps add_ac)
qed

lemma len_bytes_be64:
  assumes "n < 2 ^ 32"
  shows "len_bytes (of_nat n) = be64 (of_nat (8 * n))"
proof -
  define x where "x = (of_nat n :: u32)"
  have n: "(of_nat (8 * n) :: u64) = push_bit 3 (ucast x)"
    using assms by (simp add: x_def push_bit_eq_mult unsigned_of_nat take_bit_nat_eq_self)
  have low: "(ucast (push_bit 3 (ucast x :: u64)) :: u8) = ucast (push_bit 3 x)"
    by (auto intro!: bit_word_eqI simp: bit_simps)
  have u: "[0..<8] = [0, 1, 2, 3, 4, 5, 6, 7]" "[0..<7] = [0, 1, 2, 3, 4, 5, 6]" by (simp_all add: upt_rec)
  show ?thesis unfolding x_def [symmetric] n len_bytes_def be64_def u
    using low len_byte [of 0 x] len_byte [of 1 x] len_byte [of 2 x] len_byte [of 3 x] len_byte [of 4 x] len_byte [of 5 x] len_byte [of 6 x]
    by simp
qed

lemma length_len_bytes [simp]: "length (len_bytes n) = 8"
  by (simp add: len_bytes_def)

lemma pad_tail:
  assumes "64 dvd length M" "length T < 64" "length M + length T < 2 ^ 32"
  shows "pad (M @ T) =
    (if length T < 56 then M @ (T @ [0x80] @ replicate (55 - length T) 0 @ len_bytes (of_nat (length M + length T)))
     else (M @ (T @ [0x80] @ replicate (63 - length T) 0)) @ (replicate 56 0 @ len_bytes (of_nat (length M + length T))))"
proof -
  have r: "length (M @ T) mod 64 = length T" using assms(1,2) by (auto elim!: dvdE)
  have k: "(119 - length T) mod 64 = (if length T < 56 then 55 - length T else 63 - length T + 56)"
    using assms(2) le_mod_geq [of 64 "119 - length T"] by auto
  show ?thesis unfolding pad_def r k len_bytes_be64 [OF assms(3)] by (simp add: replicate_add)
qed

lemma sha256_close_spec:
  assumes "absorbed ctx M T" "s_len ctx = of_nat (length M + length T)" "length M + length T < 2 ^ 32"
  shows "\<exists>ctx'. sha256_close ctx = Inr (sha256_spec (M @ T), ctx')"
proof -
  note a = assms(1) [unfolded absorbed_def]
  let ?len = "len_bytes (of_nat (length M + length T))"
  define chunk1 where "chunk1 = T @ [0x80] @ drop (length T + 1) (s_chunk ctx)"
  have c1: "copy_in (s_chunk ctx) (s_ptr ctx) 1 [0x80] = Inr chunk1" "length chunk1 = 64"
    using a by (auto simp: copy_in_def chunk1_def)
  have rem: "s_rem ctx - 1 = of_nat (63 - length T)" using a by (simp add: of_nat_diff)
  have u: "unat (of_nat k :: u32) = k" if "k \<le> 64" for k using that by (simp add: unat_of_nat take_bit_nat_eq_self)
  have lt: "(of_nat (63 - length T) :: u32) < 8 \<longleftrightarrow> 56 \<le> length T" using a u [of "63 - length T"] by (auto simp: word_less_nat_alt)
  have pad: "hash_blocks initial_hash (pad (M @ T)) = sha256_consume_chunk (hash_blocks initial_hash (M @ A)) B"
    if "pad (M @ T) = (M @ A) @ B" "64 dvd length A" "length B = 64" for A B
    using that a absorbed_block [of "M @ A" B] by simp
  show ?thesis
  proof (cases "length T < 56")
    case True
    let ?B = "T @ [0x80] @ replicate (55 - length T) 0 @ ?len"
    have "of_nat (63 - length T) - (8 :: u32) = of_nat (55 - length T)" using True by (simp add: of_nat_diff)
    moreover have "copy_in chunk1 (length T + 1) (55 - length T) (replicate (55 - length T) 0) =
        Inr (T @ [0x80] @ replicate (55 - length T) 0 @ drop 56 (s_chunk ctx))"
      using True a c1(2) Suc_diff_le [of "length T" 55] by (auto simp: copy_in_def chunk1_def)
    moreover have "copy_in (T @ [0x80] @ replicate (55 - length T) 0 @ drop 56 (s_chunk ctx)) (length T + 1 + (55 - length T)) 8 ?len = Inr ?B"
      using True a Suc_diff_le [of "length T" 55] by (auto simp: copy_in_def)
    ultimately have "sha256_close ctx = Inr (concat (map be32 (sha256_consume_chunk (s_h ctx) ?B)),
        ctx\<lparr>s_chunk := ?B, s_h := sha256_consume_chunk (s_h ctx) ?B, s_digest := concat (map be32 (sha256_consume_chunk (s_h ctx) ?B))\<rparr>)"
      using True a assms(2) c1(1) lt u [of "55 - length T"] rem unfolding sha256_close_def Let_def by simp
    moreover have "hash_blocks initial_hash (pad (M @ T)) = sha256_consume_chunk (s_h ctx) ?B"
      using pad [of "[]" ?B] pad_tail [of M T] True a assms(3) by simp
    ultimately show ?thesis by (auto simp: sha256_spec_def)
  next
    case False
    let ?A = "T @ [0x80] @ replicate (63 - length T) 0" and ?B = "replicate 56 0 @ ?len"
    have "copy_in chunk1 (length T + 1) (63 - length T) (replicate (63 - length T) 0) = Inr ?A"
      using False a c1(2) by (auto simp: copy_in_def chunk1_def)
    moreover have "copy_in ?A 0 56 (replicate 56 0) = Inr (replicate 56 0 @ drop 56 ?A)" using a by (auto simp: copy_in_def)
    moreover have "copy_in (replicate 56 0 @ drop 56 ?A) (0 + 56) 8 ?len = Inr ?B" using a by (auto simp: copy_in_def)
    moreover have "sha256_consume_chunk (s_h ctx) ?A = hash_blocks initial_hash (M @ ?A)" using a absorbed_block [of M ?A] by simp
    ultimately have "sha256_close ctx = Inr (concat (map be32 (sha256_consume_chunk (hash_blocks initial_hash (M @ ?A)) ?B)),
        ctx\<lparr>s_chunk := ?B, s_h := sha256_consume_chunk (hash_blocks initial_hash (M @ ?A)) ?B,
          s_digest := concat (map be32 (sha256_consume_chunk (hash_blocks initial_hash (M @ ?A)) ?B))\<rparr>)"
      using False a assms(2) c1(1) lt u [of "63 - length T"] rem unfolding sha256_close_def Let_def by simp
    moreover have "hash_blocks initial_hash (pad (M @ T)) = sha256_consume_chunk (hash_blocks initial_hash (M @ ?A)) ?B"
      using pad [of ?A ?B] pad_tail [of M T] False a assms(3) by simp
    ultimately show ?thesis by (auto simp: sha256_spec_def)
  qed
qed

fun sha256_writes :: "SHA256Context \<Rightarrow> u8 list list \<Rightarrow> SHA256Context exec" where
  "sha256_writes ctx [] = Inr ctx"
| "sha256_writes ctx (d # ds) = bindE (sha256_write ctx d) (\<lambda>ctx. sha256_writes ctx ds)"

lemma sha256_writes_absorbed:
  assumes "absorbed ctx M T" "s_len ctx = of_nat (length M + length T)"
  shows "\<exists>ctx' M' T'. sha256_writes ctx ds = Inr ctx' \<and> absorbed ctx' M' T' \<and> M' @ T' = M @ T @ concat ds \<and>
    s_len ctx' = of_nat (length M' + length T')"
  using assms
proof (induction ds arbitrary: ctx M T)
  case (Cons d ds)
  let ?ctx = "ctx\<lparr>s_len := s_len ctx + of_nat (length d)\<rparr>"
  have "absorbed ?ctx M T" using Cons.prems(1) by (simp add: absorbed_def)
  then obtain ctx' M' T' where w: "write_loop ?ctx d = Inr ctx'" "absorbed ctx' M' T'" "M' @ T' = M @ T @ d"
    "s_len ctx' = of_nat (length M + length T) + of_nat (length d)" using write_loop_absorbed [of ?ctx M T d] Cons.prems(2) by auto
  have "length M' + length T' = length M + length T + length d" using arg_cong [OF w(3), of length] by simp
  then have "s_len ctx' = of_nat (length M' + length T')" using w(4) by (simp only: of_nat_add)
  from Cons.IH [OF w(2) this] show ?case using w(1,3) by (simp add: sha256_write_def) (metis append.assoc)
qed auto

lemma init_absorbed: "length (s_chunk ctx) = 64 \<Longrightarrow> absorbed (sha256_init ctx digest) [] []"
  by (simp add: absorbed_def sha256_init_def hash_blocks.simps initial_hash_def)

lemma hash_stream:
  assumes "length (s_chunk ctx) = 64" "length (concat ds) < 2 ^ 32"
  shows "\<exists>ctx1 ctx2. sha256_writes (sha256_init ctx digest) ds = Inr ctx1 \<and> sha256_close ctx1 = Inr (sha256_spec (concat ds), ctx2)"
proof -
  obtain ctx' M T where w: "sha256_writes (sha256_init ctx digest) ds = Inr ctx'" "absorbed ctx' M T" "M @ T = concat ds"
    "s_len ctx' = of_nat (length M + length T)"
    using sha256_writes_absorbed [OF init_absorbed [OF assms(1)], of digest ds] by (auto simp: sha256_init_def)
  moreover have "length M + length T < 2 ^ 32" using assms(2) arg_cong [OF w(3), of length] by simp
  ultimately show ?thesis using sha256_close_spec [of ctx' M T] by metis
qed

lemma hash_twice:
  assumes "length a + length b < 2 ^ 32"
  shows "bindE (sha256_write (sha256_init (any_context (replicate 64 0)) digest) a) (\<lambda>ctx.
    bindE (sha256_write ctx b) (\<lambda>ctx. bindE (sha256_close ctx) (\<lambda>(d, ctx). Inr d))) = Inr (sha256_spec (a @ b))"
  using hash_stream [of "any_context (replicate 64 0)" "[a, b]" digest] assms
  by (auto simp: any_context_def bindE_eq_Inr_iff)

lemma sha256_data_spec: "length data < 2 ^ 32 \<Longrightarrow> sha256_data digest data = Inr (sha256_spec data)"
  using hash_stream [of "any_context (replicate 64 0)" "[data]" digest] by (auto simp: any_context_def sha256_data_def bindE_eq_Inr_iff)

lemma length_sha256_spec [simp]: "length (sha256_spec M) = 32"
proof -
  have "length (concat (map be32 xs)) = 4 * length xs" for xs by (induction xs) (simp_all add: be32_def)
  then show ?thesis by (simp add: sha256_spec_def length_hash_blocks initial_hash_def)
qed

section \<open>Properties\<close>

text \<open>
  C31: hashing a message in any number of pieces gives the SHA-256 digest of the whole message. The calls
  \<^verbatim>\<open>sha256_init\<close>, \<^verbatim>\<open>sha256_write\<close> for each piece and \<^verbatim>\<open>sha256_close\<close> never leave the chunk buffer, and the digest is the
  one the standard defines, with the message padded at once and the schedule of 64 words, for all messages whose length fits
  the 32-bit counter.
\<close>

theorem sha256_correct:
  assumes "length (s_chunk ctx) = 64" "length (concat ds) < 2 ^ 32"
  shows "\<exists>ctx1 ctx2. sha256_writes (sha256_init ctx digest) ds = Inr ctx1 \<and> sha256_close ctx1 = Inr (sha256_spec (concat ds), ctx2)"
  using assms by (rule hash_stream)

theorem sha256_correct_witness:
  "\<exists>ctx1 ctx2. sha256_writes (sha256_init (any_context (replicate 64 0)) []) [[0x61], [0x62, 0x63]] = Inr ctx1 \<and>
     sha256_close ctx1 = Inr (sha256_spec [0x61, 0x62, 0x63], ctx2)"
  using sha256_correct [of "any_context (replicate 64 0)" "[[0x61], [0x62, 0x63]]" "[]"] by (simp add: any_context_def)

text \<open>What a request for random bytes does to the pool.\<close>

definition stir :: "u8 list \<Rightarrow> u8 list" where
  "stir pool = sha256_spec (pool @ sha256_spec pool)"

fun pool_bytes :: "u8 list \<Rightarrow> nat \<Rightarrow> u8 list" where
  "pool_bytes pool 0 = []"
| "pool_bytes pool (Suc n) = sha256_spec pool @ pool_bytes (stir pool) n"

text \<open>
  \<^verbatim>\<open>get_entropy\<close> ends for every length and gives exactly that many bytes: the hashes of the successive pools, where
  every pool is the hash of the one before it together with the bytes given out, so that no pool is used twice.
\<close>

theorem get_entropy_correct:
  assumes "length pool = 32"
  shows "get_entropy pool len = Inr (take len (pool_bytes pool ((len + 31) div 32)), (stir ^^ ((len + 31) div 32)) pool) \<and>
    length (take len (pool_bytes pool ((len + 31) div 32))) = len"
  using assms
proof (induction pool len rule: get_entropy.induct)
  case (1 pool len)
  show ?case
  proof (cases "len = 0")
    case False
    define l where "l = (if len < 32 then len else 32)"
    have data: "sha256_data (replicate 32 0) pool = Inr (sha256_spec pool)" using 1(2) by (simp add: sha256_data_spec)
    have add: "add_entropy pool (sha256_spec pool) = Inr (stir pool)"
      using 1(2) hash_twice [of pool "sha256_spec pool" pool] by (simp add: add_entropy_def stir_def)
    have n: "(len + 31) div 32 = Suc ((len - l + 31) div 32)" using False by (cases "len < 32") (auto simp: l_def le_div_geq)
    have "length (stir pool) = 32" by (simp add: stir_def)
    note ih = 1(1) [OF False data add l_def this]
    have "get_entropy pool len = bindE (get_entropy (stir pool) (len - l)) (\<lambda>(data, pool'). Inr (take l (sha256_spec pool) @ data, pool'))"
      unfolding get_entropy.simps [of pool len] if_not_P [OF False] data add bindE_Inr Let_def l_def ..
    moreover have "take len (sha256_spec pool @ xs) = take l (sha256_spec pool) @ take (len - l) xs" for xs by (simp add: l_def)
    ultimately show ?thesis using ih unfolding n by (auto simp: funpow_swap1 l_def)
  qed (simp add: get_entropy.simps)
qed

theorem get_entropy_correct_witness:
  "get_entropy (replicate 32 7) 40 = Inr (take 40 (pool_bytes (replicate 32 7) 2), stir (stir (replicate 32 7)))"
  using get_entropy_correct [of "replicate 32 7" 40] by (simp add: numeral_2_eq_2)

end
