(* ===== verification/Ctype.thy ===== *)
theory Ctype
  imports Prelude
begin

text \<open>
  The character classes of \<^verbatim>\<open>libk/ctype.c\<close>. The functions take an \<^verbatim>\<open>int\<close>; a \<^verbatim>\<open>char\<close> argument is
  sign-extended to it, which \<open>char_int\<close> does for a byte.
\<close>

definition char_int :: "u8 \<Rightarrow> int" where "char_int c = sint c"

definition isdigit :: "int \<Rightarrow> bool" where "isdigit c \<longleftrightarrow> c \<ge> 48 \<and> c \<le> 57"
definition islower :: "int \<Rightarrow> bool" where "islower c \<longleftrightarrow> c \<ge> 97 \<and> c \<le> 122"
definition isupper :: "int \<Rightarrow> bool" where "isupper c \<longleftrightarrow> c \<ge> 65 \<and> c \<le> 90"
definition isalpha :: "int \<Rightarrow> bool" where "isalpha c \<longleftrightarrow> islower c \<or> isupper c"
definition isalnum :: "int \<Rightarrow> bool" where "isalnum c \<longleftrightarrow> isalpha c \<or> isdigit c"
definition isascii :: "int \<Rightarrow> bool" where "isascii c \<longleftrightarrow> c \<ge> 0 \<and> c < 0x80"
definition isblank :: "int \<Rightarrow> bool" where "isblank c \<longleftrightarrow> c = 32 \<or> c = 9"
definition iscntrl :: "int \<Rightarrow> bool" where "iscntrl c \<longleftrightarrow> (word_of_int c :: u8) < 32 \<or> c = 127"
definition isgraph :: "int \<Rightarrow> bool" where "isgraph c \<longleftrightarrow> c > 32 \<and> c \<le> 126"
definition isprint :: "int \<Rightarrow> bool" where "isprint c \<longleftrightarrow> c = 32 \<or> isgraph c"
definition ispunct :: "int \<Rightarrow> bool" where "ispunct c \<longleftrightarrow> isgraph c \<and> \<not> isalnum c"
definition isspace :: "int \<Rightarrow> bool" where "isspace c \<longleftrightarrow> isblank c \<or> c = 10 \<or> c = 11 \<or> c = 12 \<or> c = 13"
definition isxdigit :: "int \<Rightarrow> bool" where
  "isxdigit c \<longleftrightarrow> isdigit c \<or> c \<ge> 97 \<and> c \<le> 102 \<or> c \<ge> 65 \<and> c \<le> 70"
definition toascii :: "int \<Rightarrow> int" where "toascii c = take_bit 7 c"
definition tolower :: "int \<Rightarrow> int" where "tolower c = (if isupper c then c + 0x20 else c)"
definition toupper :: "int \<Rightarrow> int" where "toupper c = (if islower c then c - 0x20 else c)"

lemmas ctype_defs = isdigit_def islower_def isupper_def isalpha_def isalnum_def isascii_def isblank_def iscntrl_def
  isgraph_def isprint_def ispunct_def isspace_def isxdigit_def

end
