(* ===== verification/Terminal.thy ===== *)
theory Terminal
  imports Ctype Signals
begin

unbundle bit_operations_syntax

text \<open>
  The terminal: the display of \<^verbatim>\<open>drivers/vga.c\<close>, the escape sequences of \<^verbatim>\<open>drivers/vt100.c\<close>, the line discipline of
  \<^verbatim>\<open>drivers/tty-line.c\<close>, the keyboard of \<^verbatim>\<open>drivers/kbd.c\<close> and the terminal requests of \<^verbatim>\<open>kernel/ioctl.c\<close>. A terminal is
  named by its index in the table \<^verbatim>\<open>ttys\<close>, so that comparing terminal pointers is comparing
  indices; every terminal writes through \<^verbatim>\<open>vt100_write_char\<close>, as the only one the kernel defines does. The
  state \<open>console\<close> adds the memory and the cursor of the display and a count of the bell. Accesses outside
  an array and through a null pointer are faults.
\<close>

section \<open>State\<close>

definition VGA_SCREEN_WIDTH :: nat where "VGA_SCREEN_WIDTH = 80"
definition VGA_SCREEN_HEIGHT :: nat where "VGA_SCREEN_HEIGHT = 25"
definition TTY_BUFFER_SIZE :: nat where "TTY_BUFFER_SIZE = 4096"

lemmas screen_dims = VGA_SCREEN_WIDTH_def VGA_SCREEN_HEIGHT_def

definition TTY_INPUT_READY :: u32 where "TTY_INPUT_READY = 1"
definition TTY_REVERSE_VIDEO :: u32 where "TTY_REVERSE_VIDEO = 2"
definition TTY_QUOTE_INPUT :: u32 where "TTY_QUOTE_INPUT = 4"
definition TTY_ALT_KEYPAD :: u32 where "TTY_ALT_KEYPAD = 8"

definition VINTR :: nat where "VINTR = 0"
definition VQUIT :: nat where "VQUIT = 1"
definition VERASE :: nat where "VERASE = 2"
definition VKILL :: nat where "VKILL = 3"
definition VEOF :: nat where "VEOF = 4"
definition VTIME :: nat where "VTIME = 5"
definition VMIN :: nat where "VMIN = 6"
definition VSUSP :: nat where "VSUSP = 9"
definition VEOL :: nat where "VEOL = 10"
definition VREPRINT :: nat where "VREPRINT = 11"
definition VWERASE :: nat where "VWERASE = 13"
definition VLNEXT :: nat where "VLNEXT = 14"
definition VEOL2 :: nat where "VEOL2 = 15"

lemmas cc_defs = VINTR_def VQUIT_def VERASE_def VKILL_def VEOF_def VTIME_def VMIN_def VSUSP_def VEOL_def VREPRINT_def
  VWERASE_def VLNEXT_def VEOL2_def

definition INLCR :: u32 where "INLCR = 0x40"
definition IGNCR :: u32 where "IGNCR = 0x80"
definition ICRNL :: u32 where "ICRNL = 0x100"
definition IMAXBEL :: u32 where "IMAXBEL = 0x2000"
definition ISIG :: u32 where "ISIG = 1"
definition ICANON :: u32 where "ICANON = 2"
definition ECHO :: u32 where "ECHO = 8"
definition ECHOE :: u32 where "ECHOE = 0x10"
definition ECHOK :: u32 where "ECHOK = 0x20"
definition ECHONL :: u32 where "ECHONL = 0x40"
definition TOSTOP :: u32 where "TOSTOP = 0x100"
definition ECHOCTL :: u32 where "ECHOCTL = 0x200"
definition ECHOKE :: u32 where "ECHOKE = 0x800"
definition IEXTEN :: u32 where "IEXTEN = 0x8000"

record TTYInputBuffer =
  tb_data :: "u8 list"
  tb_start :: u32
  tb_end :: u32

record termios =
  c_iflag :: u32
  c_oflag :: u32
  c_cflag :: u32
  c_lflag :: u32
  c_line :: u8
  c_cc :: "nat \<Rightarrow> u8"
  c_ispeed :: u32
  c_ospeed :: u32

record TTY =
  t_screenbuf :: "u16 list"
  t_inbuf :: TTYInputBuffer
  t_row :: u32
  t_column :: u32
  t_saved_row :: u32
  t_saved_col :: u32
  t_fg_pgid :: int
  t_color :: u8
  t_flags :: u32
  t_termios :: termios
  t_state :: nat
  t_statebuf :: "u8 list"
  t_curritem :: u32

record console =
  ttys :: "nat \<Rightarrow> TTY option"
  active_tty :: nat
  vga_hdw_buf :: "u16 list"
  hw_cursor :: u16
  beeps :: nat

definition tty_at :: "nat \<Rightarrow> console \<Rightarrow> TTY exec" where
  "tty_at n s = (case ttys s n of None \<Rightarrow> Inl Out_Of_Bounds | Some t \<Rightarrow> Inr t)"

definition put_tty :: "nat \<Rightarrow> TTY \<Rightarrow> console \<Rightarrow> console" where
  "put_tty n t s = s\<lparr>ttys := (ttys s)(n \<mapsto> t)\<rparr>"

definition upd_tty :: "nat \<Rightarrow> (TTY \<Rightarrow> TTY) \<Rightarrow> console \<Rightarrow> console exec" where
  "upd_tty n f s = bindE (tty_at n s) (\<lambda>t. Inr (put_tty n (f t) s))"

definition speaker_beep :: "console \<Rightarrow> console" where
  "speaker_beep s = s\<lparr>beeps := Suc (beeps s)\<rparr>"

text \<open>Steps that may fault, one after the other.\<close>

definition andthen :: "(console \<Rightarrow> console exec) \<Rightarrow> (console \<Rightarrow> console exec) \<Rightarrow> console \<Rightarrow> console exec" where
  "andthen f g s = bindE (f s) g"

section \<open>The display\<close>

definition vga_mkcolor :: "u8 \<Rightarrow> u8 \<Rightarrow> u8" where "vga_mkcolor fg bg = fg OR push_bit 4 bg"
definition vga_setfg :: "u8 \<Rightarrow> u8 \<Rightarrow> u8" where "vga_setfg color fg = (color AND 0xf0) OR fg"
definition vga_setbg :: "u8 \<Rightarrow> u8 \<Rightarrow> u8" where "vga_setbg color bg = (color AND 0x0f) OR push_bit 4 bg"
definition vga_mkentry :: "u8 \<Rightarrow> u8 \<Rightarrow> u16" where "vga_mkentry c color = scast c OR push_bit 8 (ucast color)"
definition vga_getindex :: "u32 \<Rightarrow> u32 \<Rightarrow> u32" where "vga_getindex x y = y * 80 + x"
definition VGA_DEFAULT_COLOR :: u8 where "VGA_DEFAULT_COLOR = vga_mkcolor 7 0"

definition vga_setcurs :: "u32 \<Rightarrow> u32 \<Rightarrow> console \<Rightarrow> console" where
  "vga_setcurs x y s = s\<lparr>hw_cursor := ucast (vga_getindex x y)\<rparr>"

definition cell_color :: "TTY \<Rightarrow> u8" where
  "cell_color t =
     (let color = t_color t
      in if t_flags t AND TTY_REVERSE_VIDEO \<noteq> 0
         then drop_bit 4 (color AND 0xf0) OR push_bit 4 (color AND 0x0f) else color)"

definition vga_putentry :: "nat \<Rightarrow> u8 \<Rightarrow> u32 \<Rightarrow> u32 \<Rightarrow> console \<Rightarrow> console exec" where
  "vga_putentry n c x y s =
     bindE (tty_at n s) (\<lambda>t.
       let e = vga_mkentry c (cell_color t); i = unat (vga_getindex x y)
       in bindE (arr_set (t_screenbuf t) i e) (\<lambda>buf.
          let s = put_tty n (t\<lparr>t_screenbuf := buf\<rparr>) s
          in if n = active_tty s
             then bindE (arr_set (vga_hdw_buf s) i e) (\<lambda>hdw. Inr (s\<lparr>vga_hdw_buf := hdw\<rparr>))
             else Inr s))"

fun put_blanks :: "nat \<Rightarrow> (nat \<times> nat) list \<Rightarrow> console \<Rightarrow> console exec" where
  "put_blanks n [] s = Inr s"
| "put_blanks n ((x, y) # cells) s =
     bindE (vga_putentry n 32 (of_nat x) (of_nat y) s) (put_blanks n cells)"

definition vga_update_display :: "nat \<Rightarrow> console \<Rightarrow> console exec" where
  "vga_update_display n s =
     (if n = active_tty s
      then bindE (tty_at n s) (\<lambda>t. Inr (s\<lparr>vga_hdw_buf := t_screenbuf t\<rparr>))
      else Inr s)"

definition vga_init :: "console \<Rightarrow> console exec" where
  "vga_init s =
     bindE (tty_at 0 s) (\<lambda>t.
       let buf = replicate 2000 (vga_mkentry 32 (t_color t))
       in Inr ((put_tty 0 (t\<lparr>t_screenbuf := buf\<rparr>) s)\<lparr>vga_hdw_buf := buf\<rparr>))"

definition vga_clear :: "nat \<Rightarrow> console \<Rightarrow> console exec" where
  "vga_clear n =
     andthen (upd_tty n (\<lambda>t. t\<lparr>t_screenbuf := replicate 2000 (vga_mkentry 32 (t_color t))\<rparr>)) (vga_update_display n)"

definition vga_erase_char :: "nat \<Rightarrow> console \<Rightarrow> console exec" where
  "vga_erase_char n s =
     bindE (tty_at n s) (\<lambda>t.
       if t_column t > 0
       then let x = t_column t - 1
            in bindE (vga_putentry n 32 x (t_row t) (put_tty n (t\<lparr>t_column := x\<rparr>) s)) (\<lambda>s.
               Inr (vga_setcurs x (t_row t) s))
       else Inr s)"

fun erase_loop :: "nat \<Rightarrow> nat \<Rightarrow> console \<Rightarrow> console exec" where
  "erase_loop n 0 s = Inr s"
| "erase_loop n (Suc k) s =
     bindE (tty_at n s) (\<lambda>t.
       let x = t_column t - 1
       in bindE (vga_putentry n 32 x (t_row t) (put_tty n (t\<lparr>t_column := x\<rparr>) s)) (erase_loop n k))"

definition vga_erase_line :: "nat \<Rightarrow> u32 \<Rightarrow> console \<Rightarrow> console exec" where
  "vga_erase_line n len s =
     bindE (tty_at n s) (\<lambda>t.
       let len = (if len > t_column t then t_column t else len)
       in bindE (erase_loop n (unat len) s) (\<lambda>s.
          bindE (tty_at n s) (\<lambda>t. Inr (vga_setcurs (t_column t) (t_row t) s))))"

text \<open>Scrolling moves every row up and blanks the last.\<close>

fun shift_loop :: "u16 list \<Rightarrow> nat \<Rightarrow> nat \<Rightarrow> u16 list exec" where
  "shift_loop buf i 0 = Inr buf"
| "shift_loop buf i (Suc k) =
     bindE (arr_get buf i) (\<lambda>v. bindE (arr_set buf (i - VGA_SCREEN_WIDTH) v) (\<lambda>buf. shift_loop buf (Suc i) k))"

definition row_cells :: "nat \<Rightarrow> nat \<Rightarrow> nat \<Rightarrow> (nat \<times> nat) list" where
  "row_cells a b y = map (\<lambda>x. (x, y)) [a..<b]"

definition screen_cells :: "nat \<Rightarrow> nat \<Rightarrow> (nat \<times> nat) list" where
  "screen_cells a b = concat (map (row_cells 0 VGA_SCREEN_WIDTH) [a..<b])"

definition wrap_line :: "nat \<Rightarrow> bool \<Rightarrow> console \<Rightarrow> console exec" where
  "wrap_line n active s =
     bindE (tty_at n s) (\<lambda>t.
       let row = t_row t + 1
       in if row = of_nat VGA_SCREEN_HEIGHT then
            bindE (shift_loop (t_screenbuf t) VGA_SCREEN_WIDTH (VGA_SCREEN_WIDTH * VGA_SCREEN_HEIGHT - VGA_SCREEN_WIDTH)) (\<lambda>buf.
            bindE (put_blanks n (row_cells 0 VGA_SCREEN_WIDTH (VGA_SCREEN_HEIGHT - 1))
                     (put_tty n (t\<lparr>t_row := row, t_screenbuf := buf\<rparr>) s)) (\<lambda>s.
            bindE (tty_at n s) (\<lambda>t.
            let s = put_tty n (t\<lparr>t_row := t_row t - 1\<rparr>) s
            in Inr (if active then s\<lparr>vga_hdw_buf := t_screenbuf t\<rparr> else s))))
          else Inr (put_tty n (t\<lparr>t_row := row\<rparr>) s))"

definition advance :: "nat \<Rightarrow> bool \<Rightarrow> console \<Rightarrow> console exec" where
  "advance n active s =
     bindE (tty_at n s) (\<lambda>t.
       let col = t_column t + 1
       in if col = of_nat VGA_SCREEN_WIDTH
          then wrap_line n active (put_tty n (t\<lparr>t_column := 0\<rparr>) s)
          else Inr (put_tty n (t\<lparr>t_column := col\<rparr>) s))"

definition set_column :: "nat \<Rightarrow> u32 \<Rightarrow> console \<Rightarrow> console exec" where
  "set_column n x = upd_tty n (\<lambda>t. t\<lparr>t_column := x\<rparr>)"

definition show_cursor :: "nat \<Rightarrow> console \<Rightarrow> console exec" where
  "show_cursor n s = bindE (tty_at n s) (\<lambda>t. Inr (vga_setcurs (t_column t) (t_row t) s))"

definition vga_display_putchar :: "nat \<Rightarrow> u8 \<Rightarrow> console \<Rightarrow> console exec" where
  "vga_display_putchar n c s =
     bindE (tty_at (active_tty s) s) (\<lambda>cur.
       let iflag = c_iflag (t_termios cur); active = (n = active_tty s)
       in if c = 0 then Inr s
          else andthen
            (if c = 7 then (\<lambda>s. Inr (speaker_beep s))
             else if c = 10 then
               andthen (set_column n 0) (if iflag AND INLCR \<noteq> 0 then Inr else wrap_line n active)
             else if c = 11 \<or> c = 12 then wrap_line n active
             else if c = 13 then
               if iflag AND IGNCR \<noteq> 0 then Inr
               else andthen (set_column n 0) (if iflag AND ICRNL \<noteq> 0 then wrap_line n active else Inr)
             else if c = 9 then
               andthen (upd_tty n (\<lambda>t. t\<lparr>t_column := t_column t OR 7\<rparr>)) (advance n active)
             else
               andthen (\<lambda>s. bindE (tty_at n s) (\<lambda>t. vga_putentry n c (t_column t) (t_row t) s)) (advance n active))
            (show_cursor n) s)"

definition vga_putchar :: "nat \<Rightarrow> u8 \<Rightarrow> console \<Rightarrow> console exec" where
  "vga_putchar = vga_display_putchar"

fun vga_write :: "nat \<Rightarrow> u8 list \<Rightarrow> console \<Rightarrow> console exec" where
  "vga_write n [] s = Inr s"
| "vga_write n (c # cs) s = bindE (vga_putchar n c s) (vga_write n cs)"

definition vga_puts :: "nat \<Rightarrow> u8 list \<Rightarrow> console \<Rightarrow> console exec" where
  "vga_puts n str = vga_write n (takeWhile (\<lambda>c. c \<noteq> 0) str)"

section \<open>Escape sequences\<close>

definition VT100_STATE_ESC :: nat where "VT100_STATE_ESC = 1"
definition VT100_STATE_CSI :: nat where "VT100_STATE_CSI = 2"
definition VT100_STATE_LP :: nat where "VT100_STATE_LP = 3"
definition VT100_STATE_RP :: nat where "VT100_STATE_RP = 4"
definition VT100_STATE_BQ :: nat where "VT100_STATE_BQ = 5"

lemmas vt100_states = VT100_STATE_ESC_def VT100_STATE_CSI_def VT100_STATE_LP_def VT100_STATE_RP_def VT100_STATE_BQ_def

definition reset_tty :: "TTY \<Rightarrow> TTY" where
  "reset_tty t = t\<lparr>t_state := 0, t_statebuf := replicate 8 0, t_curritem := 0\<rparr>"

definition tty_reset_state :: "nat \<Rightarrow> console \<Rightarrow> console exec" where
  "tty_reset_state n = upd_tty n reset_tty"

definition set_state :: "nat \<Rightarrow> nat \<Rightarrow> console \<Rightarrow> console exec" where
  "set_state n st = upd_tty n (\<lambda>t. t\<lparr>t_state := st\<rparr>)"

definition tty_add_digit_char :: "nat \<Rightarrow> u8 \<Rightarrow> console \<Rightarrow> console exec" where
  "tty_add_digit_char n c s =
     bindE (tty_at n s) (\<lambda>t. let i = unat (t_curritem t)
       in bindE (arr_get (t_statebuf t) i) (\<lambda>v.
          bindE (arr_set (t_statebuf t) i (v * 10 + c - 48)) (\<lambda>buf. Inr (put_tty n (t\<lparr>t_statebuf := buf\<rparr>) s))))"

definition tty_set_alt_keypad :: "nat \<Rightarrow> bool \<Rightarrow> console \<Rightarrow> console exec" where
  "tty_set_alt_keypad n on = andthen
     (upd_tty n (\<lambda>t. t\<lparr>t_flags := if on then t_flags t OR TTY_ALT_KEYPAD else t_flags t AND NOT TTY_ALT_KEYPAD\<rparr>))
     (tty_reset_state n)"

definition vt100_set_dec :: "nat \<Rightarrow> console \<Rightarrow> console exec" where "vt100_set_dec = tty_reset_state"
definition vt100_reset_dec :: "nat \<Rightarrow> console \<Rightarrow> console exec" where "vt100_reset_dec = tty_reset_state"
definition vt100_set_charset :: "nat \<Rightarrow> console \<Rightarrow> console exec" where "vt100_set_charset = tty_reset_state"

text \<open>One parameter of the graphic rendition; the colours are the members of \<^verbatim>\<open>VGAColor\<close>.\<close>

definition sgr_color :: "u8 \<Rightarrow> u8" where
  "sgr_color d = (if d = 0 then 0 else if d = 1 then 4 else if d = 2 then 2 else if d = 3 then 14
     else if d = 4 then 1 else if d = 5 then 5 else if d = 6 then 3 else 15)"

definition sgr_item :: "u8 \<Rightarrow> TTY \<Rightarrow> TTY" where
  "sgr_item v t =
     (if v = 0 then t\<lparr>t_flags := t_flags t AND NOT TTY_REVERSE_VIDEO, t_color := VGA_DEFAULT_COLOR\<rparr>
      else if v = 7 then t\<lparr>t_flags := t_flags t OR TTY_REVERSE_VIDEO\<rparr>
      else if 30 \<le> v \<and> v \<le> 37 then t\<lparr>t_color := vga_setfg (t_color t) (sgr_color (v - 30))\<rparr>
      else if 40 \<le> v \<and> v \<le> 47 then t\<lparr>t_color := vga_setbg (t_color t) (sgr_color (v - 40))\<rparr>
      else t)"

fun sgr_loop :: "nat \<Rightarrow> nat \<Rightarrow> TTY \<Rightarrow> TTY exec" where
  "sgr_loop i 0 t = Inr t"
| "sgr_loop i (Suc k) t = bindE (arr_get (t_statebuf t) i) (\<lambda>v. sgr_loop (Suc i) k (sgr_item v t))"

definition vt100_set_sgr :: "nat \<Rightarrow> console \<Rightarrow> console exec" where
  "vt100_set_sgr n s =
     bindE (tty_at n s) (\<lambda>t. bindE (sgr_loop 0 (unat (t_curritem t + 1)) t) (\<lambda>t. tty_reset_state n (put_tty n t s)))"

definition cursor_arg :: "nat \<Rightarrow> u8 \<Rightarrow> u8" where
  "cursor_arg bound v =
     (let v = (if v > 0 then v - 1 else v) in if unat v \<ge> bound then of_nat (bound - 1) else v)"

definition vt100_set_cursor_pos :: "nat \<Rightarrow> console \<Rightarrow> console exec" where
  "vt100_set_cursor_pos n s =
     bindE (tty_at n s) (\<lambda>t.
       bindE (arr_get (t_statebuf t) 0) (\<lambda>a. bindE (arr_get (t_statebuf t) 1) (\<lambda>b.
         let row = ucast (cursor_arg VGA_SCREEN_HEIGHT a); col = ucast (cursor_arg VGA_SCREEN_WIDTH b)
         in tty_reset_state n (vga_setcurs col row (put_tty n (t\<lparr>t_row := row, t_column := col\<rparr>) s)))))"

definition vt100_clear_screen :: "nat \<Rightarrow> console \<Rightarrow> console exec" where
  "vt100_clear_screen n s =
     bindE (tty_at n s) (\<lambda>t.
       bindE (arr_get (t_statebuf t) 0) (\<lambda>v.
         let row = unat (t_row t); col = unat (t_column t);
             cells = (if v = 0 then row_cells col VGA_SCREEN_WIDTH row @ screen_cells (row + 1) VGA_SCREEN_HEIGHT
                      else if v = 1 then row_cells 0 col row @ screen_cells 0 row
                      else if v = 2 then screen_cells 0 VGA_SCREEN_HEIGHT else [])
         in andthen (put_blanks n cells) (andthen (vga_update_display n) (tty_reset_state n)) s))"

definition vt100_clear_line :: "nat \<Rightarrow> console \<Rightarrow> console exec" where
  "vt100_clear_line n s =
     bindE (tty_at n s) (\<lambda>t.
       bindE (arr_get (t_statebuf t) 0) (\<lambda>v.
         let row = unat (t_row t); col = unat (t_column t);
             cells = (if v = 0 then row_cells col VGA_SCREEN_WIDTH row
                      else if v = 1 then row_cells 0 col row
                      else if v = 2 then row_cells 0 VGA_SCREEN_WIDTH row else [])
         in andthen (put_blanks n cells) (andthen (vga_update_display n) (tty_reset_state n)) s))"

definition next_item :: "nat \<Rightarrow> console \<Rightarrow> console exec" where
  "next_item n s =
     bindE (tty_at n s) (\<lambda>t.
       let i = t_curritem t + 1; s = put_tty n (t\<lparr>t_curritem := i\<rparr>) s
       in if i = 8 then tty_reset_state n s else Inr s)"

text \<open>The characters the sequences are made of, by their codes.\<close>

definition esc_action :: "nat \<Rightarrow> u8 \<Rightarrow> console \<Rightarrow> console exec" where
  "esc_action n c =
     (if c = 0x5b then set_state n VT100_STATE_CSI
      else if c = 0x28 then set_state n VT100_STATE_LP
      else if c = 0x29 then set_state n VT100_STATE_RP
      else if c = 0x3d then tty_set_alt_keypad n True
      else if c = 0x3e then tty_set_alt_keypad n False
      else tty_reset_state n)"

definition csi_action :: "nat \<Rightarrow> u8 \<Rightarrow> console \<Rightarrow> console exec" where
  "csi_action n c =
     (if c = 0x3f then set_state n VT100_STATE_BQ
      else if c = 0x68 then vt100_set_dec n
      else if c = 0x6c then vt100_reset_dec n
      else if c = 0x6d then vt100_set_sgr n
      else if c = 0x72 then tty_reset_state n
      else if c = 0x48 then vt100_set_cursor_pos n
      else if c = 0x4a then vt100_clear_screen n
      else if c = 0x4b then vt100_clear_line n
      else if c = 0x3b then next_item n
      else if isdigit (char_int c) then tty_add_digit_char n c
      else tty_reset_state n)"

definition charset_action :: "nat \<Rightarrow> u8 \<Rightarrow> console \<Rightarrow> console exec" where
  "charset_action n c = (if c \<in> {0x41, 0x42, 0x30, 0x31, 0x32} then vt100_set_charset n else tty_reset_state n)"

definition vt100_handle_escaped_char :: "nat \<Rightarrow> u8 \<Rightarrow> console \<Rightarrow> console exec" where
  "vt100_handle_escaped_char n c s =
     bindE (tty_at n s) (\<lambda>t.
       (if t_state t = VT100_STATE_ESC then esc_action n c
        else if t_state t = VT100_STATE_CSI then csi_action n c
        else if t_state t = VT100_STATE_LP then charset_action n c
        else if t_state t = VT100_STATE_RP then charset_action n c
        else if t_state t = VT100_STATE_BQ then
          if isdigit (char_int c) then tty_add_digit_char n c else tty_reset_state n
        else tty_reset_state n) s)"

definition vt100_write_char :: "nat \<Rightarrow> u8 \<Rightarrow> console \<Rightarrow> console exec" where
  "vt100_write_char n c s =
     bindE (tty_at n s) (\<lambda>t.
       (if t_state t \<noteq> 0 then vt100_handle_escaped_char n c
        else if c = 27 then set_state n VT100_STATE_ESC
        else if isspace (char_int c) \<or> isgraph (char_int c) then vga_putchar n c
        else Inr) s)"

fun tty_write_data :: "nat \<Rightarrow> u8 list \<Rightarrow> console \<Rightarrow> console exec" where
  "tty_write_data n [] s = Inr s"
| "tty_write_data n (c # cs) s = bindE (vt100_write_char n c s) (tty_write_data n cs)"

section \<open>The screen invariant\<close>

text \<open>The cursor is on the screen, the escape parser within its buffer, and the display shows the active terminal.\<close>

definition tty_ok :: "TTY \<Rightarrow> bool" where
  "tty_ok t \<longleftrightarrow> length (t_screenbuf t) = 2000 \<and> unat (t_row t) < 25 \<and> unat (t_column t) < 80 \<and>
     length (t_statebuf t) = 8 \<and> unat (t_curritem t) < 8 \<and> t_state t \<le> VT100_STATE_BQ"

definition console_ok :: "console \<Rightarrow> bool" where
  "console_ok s \<longleftrightarrow> (\<forall>n t. ttys s n = Some t \<longrightarrow> tty_ok t) \<and>
     (\<exists>t. ttys s (active_tty s) = Some t \<and> vga_hdw_buf s = t_screenbuf t)"

text \<open>The result of a step on terminal \<open>n\<close> that returns, keeps the invariant, touches no other terminal, switches none, and
  leaves the input side of the terminal alone.\<close>

definition input_same :: "TTY \<Rightarrow> TTY \<Rightarrow> bool" where
  "input_same t t' \<longleftrightarrow> t_inbuf t' = t_inbuf t \<and> t_termios t' = t_termios t \<and> t_fg_pgid t' = t_fg_pgid t \<and>
     (t_flags t' AND TTY_INPUT_READY = t_flags t AND TTY_INPUT_READY) \<and>
     (t_flags t' AND TTY_QUOTE_INPUT = t_flags t AND TTY_QUOTE_INPUT)"

lemma input_same_refl [simp]: "input_same t t"
  by (simp add: input_same_def)

lemma input_same_upd [simp]:
  "input_same t (t'\<lparr>t_row := r\<rparr>) = input_same t t'" "input_same t (t'\<lparr>t_column := c\<rparr>) = input_same t t'"
  "input_same t (t'\<lparr>t_screenbuf := b\<rparr>) = input_same t t'" "input_same t (t'\<lparr>t_state := st\<rparr>) = input_same t t'"
  "input_same t (t'\<lparr>t_statebuf := sb\<rparr>) = input_same t t'" "input_same t (t'\<lparr>t_curritem := i\<rparr>) = input_same t t'"
  "input_same t (t'\<lparr>t_color := co\<rparr>) = input_same t t'" "input_same t (reset_tty t') = input_same t t'"
  by (simp_all add: input_same_def reset_tty_def)

lemma other_flag:
  fixes a b x :: u32
  assumes "a AND b = 0"
  shows "(x OR a) AND b = x AND b" "(x AND NOT a) AND b = x AND b"
proof -
  have "\<not> (bit a k \<and> bit b k)" for k using arg_cong [OF assms, of "\<lambda>w. bit w k"] by (simp add: bit_and_iff)
  then show "(x OR a) AND b = x AND b" "(x AND NOT a) AND b = x AND b" by (auto intro!: bit_word_eqI simp: bit_simps)
qed

lemma flags_apart:
  "TTY_REVERSE_VIDEO AND TTY_INPUT_READY = 0" "TTY_REVERSE_VIDEO AND TTY_QUOTE_INPUT = 0"
  "TTY_ALT_KEYPAD AND TTY_INPUT_READY = 0" "TTY_ALT_KEYPAD AND TTY_QUOTE_INPUT = 0"
  "TTY_QUOTE_INPUT AND TTY_INPUT_READY = 0" "TTY_INPUT_READY AND TTY_QUOTE_INPUT = 0"
  by (simp_all add: TTY_REVERSE_VIDEO_def TTY_INPUT_READY_def TTY_QUOTE_INPUT_def TTY_ALT_KEYPAD_def)

lemma input_same_flags [simp]:
  "input_same t (t\<lparr>t_flags := t_flags t OR TTY_REVERSE_VIDEO\<rparr>)" "input_same t (t\<lparr>t_flags := t_flags t AND NOT TTY_REVERSE_VIDEO\<rparr>)"
  "input_same t (t\<lparr>t_flags := t_flags t OR TTY_ALT_KEYPAD\<rparr>)" "input_same t (t\<lparr>t_flags := t_flags t AND NOT TTY_ALT_KEYPAD\<rparr>)"
  by (simp_all add: input_same_def other_flag flags_apart)

lemma input_same_trans: "input_same t t' \<Longrightarrow> input_same t' t'' \<Longrightarrow> input_same t t''"
  by (simp add: input_same_def)

definition good :: "nat \<Rightarrow> console \<Rightarrow> console exec \<Rightarrow> bool" where
  "good n s r \<longleftrightarrow> (\<exists>s'. r = Inr s' \<and> console_ok s' \<and> active_tty s' = active_tty s \<and>
     (\<exists>t'. ttys s' n = Some t' \<and> (\<forall>t. ttys s n = Some t \<longrightarrow> input_same t t')) \<and> (\<forall>m. m \<noteq> n \<longrightarrow> ttys s' m = ttys s m))"

definition safe_step :: "nat \<Rightarrow> nat \<Rightarrow> (console \<Rightarrow> console exec) \<Rightarrow> bool" where
  "safe_step n a f \<longleftrightarrow> (\<forall>s. console_ok s \<and> ttys s n \<noteq> None \<and> active_tty s = a \<longrightarrow> good n s (f s))"

lemma safe_stepI: "(\<And>s t. console_ok s \<Longrightarrow> ttys s n = Some t \<Longrightarrow> tty_ok t \<Longrightarrow> active_tty s = a \<Longrightarrow> good n s (f s)) \<Longrightarrow> safe_step n a f"
  by (auto simp: safe_step_def console_ok_def)

lemma safe_stepD: "safe_step n (active_tty s) f \<Longrightarrow> console_ok s \<Longrightarrow> ttys s n \<noteq> None \<Longrightarrow> good n s (f s)"
  by (simp add: safe_step_def)

lemma good_bind: "good n s r \<Longrightarrow> safe_step n (active_tty s) f \<Longrightarrow> good n s (bindE r f)"
proof -
  assume "good n s r" and f: "safe_step n (active_tty s) f"
  then obtain s' t' where s': "r = Inr s'" "console_ok s'" "active_tty s' = active_tty s" "ttys s' n = Some t'"
    "\<And>t. ttys s n = Some t \<Longrightarrow> input_same t t'" "\<forall>m. m \<noteq> n \<longrightarrow> ttys s' m = ttys s m" by (auto simp: good_def)
  then have "good n s' (f s')" using f by (simp add: safe_step_def)
  then show ?thesis using s' input_same_trans by (fastforce simp: good_def)
qed

lemma safe_andthen: "safe_step n a f \<Longrightarrow> safe_step n a g \<Longrightarrow> safe_step n a (andthen f g)"
  by (auto simp: andthen_def safe_step_def intro: good_bind [unfolded safe_step_def])

lemma safe_Inr: "safe_step n a Inr"
  by (auto simp: good_def safe_step_def)

lemma safe_if: "(b \<Longrightarrow> safe_step n a f) \<Longrightarrow> (\<not> b \<Longrightarrow> safe_step n a g) \<Longrightarrow> safe_step n a (if b then f else g)"
  by simp

lemma good_put:
  assumes "console_ok s" "tty_ok t'" "n = active_tty s \<Longrightarrow> vga_hdw_buf s = t_screenbuf t'" "\<And>t. ttys s n = Some t \<Longrightarrow> input_same t t'"
  shows "good n s (Inr (put_tty n t' s))"
  using assms by (auto simp: good_def put_tty_def console_ok_def)

lemma good_put_cursor: "good n s (Inr s') \<Longrightarrow> good n s (Inr (vga_setcurs x y s'))"
  by (auto simp: good_def vga_setcurs_def console_ok_def)

lemma hw_shows: "console_ok s \<Longrightarrow> ttys s (active_tty s) = Some t \<Longrightarrow> vga_hdw_buf s = t_screenbuf t"
  by (auto simp: console_ok_def)

lemma safe_upd:
  assumes "\<And>t. tty_ok t \<Longrightarrow> tty_ok (f t) \<and> t_screenbuf (f t) = t_screenbuf t \<and> input_same t (f t)"
  shows "safe_step n a (upd_tty n f)"
  using assms by (auto simp: upd_tty_def tty_at_def hw_shows intro!: safe_stepI good_put)

lemma tty_ok_reset [simp]: "tty_ok t \<Longrightarrow> tty_ok (reset_tty t)"
  by (simp add: tty_ok_def reset_tty_def)

lemma safe_reset: "safe_step n a (tty_reset_state n)"
  unfolding tty_reset_state_def by (rule safe_upd) (simp, simp add: reset_tty_def)

lemma safe_set_state: "st \<le> VT100_STATE_BQ \<Longrightarrow> safe_step n a (set_state n st)"
  unfolding set_state_def by (rule safe_upd) (simp add: tty_ok_def)

lemma safe_set_column: "unat x < 80 \<Longrightarrow> safe_step n a (set_column n x)"
  unfolding set_column_def by (rule safe_upd) (simp add: tty_ok_def)

subsection \<open>Writing cells\<close>

definition blank_all :: "u16 \<Rightarrow> (nat \<times> nat) list \<Rightarrow> u16 list \<Rightarrow> u16 list" where
  "blank_all e cells buf = foldl (\<lambda>b (x, y). b[y * 80 + x := e]) buf cells"

lemma length_blank_all [simp]: "length (blank_all e cells buf) = length buf"
  unfolding blank_all_def by (induction cells arbitrary: buf) auto

lemma unat_getindex:
  assumes "unat x < 80" "unat y < 25"
  shows "unat (vga_getindex x y) = unat y * 80 + unat x"
  using assms by (simp add: vga_getindex_def unat_word_ariths)

lemma putentry_effect:
  assumes "ttys s n = Some t" "length (t_screenbuf t) = 2000" "length (vga_hdw_buf s) = 2000" "unat x < 80" "unat y < 25"
  shows "vga_putentry n c x y s =
    (let e = vga_mkentry c (cell_color t); i = unat y * 80 + unat x; s' = put_tty n (t\<lparr>t_screenbuf := (t_screenbuf t)[i := e]\<rparr>) s
     in Inr (if n = active_tty s then s'\<lparr>vga_hdw_buf := (vga_hdw_buf s)[i := e]\<rparr> else s'))"
  using assms by (simp add: vga_putentry_def tty_at_def unat_getindex Let_def put_tty_def)

lemma put_blanks_effect:
  assumes "ttys s n = Some t" "length (t_screenbuf t) = 2000" "length (vga_hdw_buf s) = 2000" "\<forall>(x, y) \<in> set cells. x < 80 \<and> y < 25"
  shows "put_blanks n cells s =
    (let e = vga_mkentry 32 (cell_color t); s' = put_tty n (t\<lparr>t_screenbuf := blank_all e cells (t_screenbuf t)\<rparr>) s
     in Inr (if n = active_tty s then s'\<lparr>vga_hdw_buf := blank_all e cells (vga_hdw_buf s)\<rparr> else s'))"
  using assms
proof (induction cells arbitrary: s t)
  case Nil
  then show ?case by (cases s) (auto simp: blank_all_def put_tty_def Let_def fun_upd_idem)
next
  case (Cons cell cells)
  obtain x y where cell: "cell = (x, y)" by (cases cell)
  then have xy: "x < 80" "y < 25" "unat (of_nat x :: u32) = x" "unat (of_nat y :: u32) = y"
    using Cons.prems(4) by (auto simp: unat_of_nat take_bit_nat_eq_self)
  define t' where "t' = t\<lparr>t_screenbuf := (t_screenbuf t)[y * 80 + x := vga_mkentry 32 (cell_color t)]\<rparr>"
  define s' where "s' = (if n = active_tty s then (put_tty n t' s)\<lparr>vga_hdw_buf := (vga_hdw_buf s)[y * 80 + x := vga_mkentry 32 (cell_color t)]\<rparr>
    else put_tty n t' s)"
  have "vga_putentry n 32 (of_nat x) (of_nat y) s = Inr s'"
    using putentry_effect [OF Cons.prems(1-3), of "of_nat x" "of_nat y" 32] xy by (simp add: s'_def t'_def Let_def)
  moreover have "cell_color t' = cell_color t" by (simp add: t'_def cell_color_def)
  moreover have "ttys s' n = Some t'" "length (t_screenbuf t') = 2000" "length (vga_hdw_buf s') = 2000" "active_tty s' = active_tty s"
    using Cons.prems by (auto simp: s'_def t'_def put_tty_def)
  ultimately show ?case using Cons.IH [of s' t'] Cons.prems(4) cell
    by (auto simp: Let_def s'_def t'_def put_tty_def blank_all_def)
qed

lemma put_blanks_good:
  assumes "console_ok s" "ttys s n = Some t" "\<forall>(x, y) \<in> set cells. x < 80 \<and> y < 25"
  shows "good n s (put_blanks n cells s)"
proof -
  have t: "tty_ok t" "length (vga_hdw_buf s) = 2000" using assms(1,2) by (auto simp: console_ok_def tty_ok_def)
  then show ?thesis using put_blanks_effect [OF assms(2) _ _ assms(3)] assms(1,2)
    by (auto simp: tty_ok_def Let_def good_def put_tty_def console_ok_def)
qed

lemma shift_loop_effect:
  assumes "80 \<le> i" "i + k \<le> length buf"
  shows "\<exists>buf'. shift_loop buf i k = Inr buf' \<and> length buf' = length buf \<and>
    (\<forall>j < length buf. buf' ! j = (if i - 80 \<le> j \<and> j < i - 80 + k then buf ! (j + 80) else buf ! j))"
  using assms
proof (induction k arbitrary: i buf)
  case (Suc k)
  let ?buf = "buf[i - 80 := buf ! i]"
  obtain buf' where buf': "shift_loop ?buf (Suc i) k = Inr buf'" "length buf' = length buf"
    "\<forall>j < length buf. buf' ! j = (if Suc i - 80 \<le> j \<and> j < Suc i - 80 + k then ?buf ! (j + 80) else ?buf ! j)"
    using Suc.IH [of "Suc i" ?buf] Suc.prems by auto
  have "buf' ! j = (if i - 80 \<le> j \<and> j < i - 80 + Suc k then buf ! (j + 80) else buf ! j)" if "j < length buf" for j
    using buf'(3) that Suc.prems by (cases "j = i - 80") (auto simp: nth_list_update)
  then show ?case using Suc.prems buf' by (simp add: VGA_SCREEN_WIDTH_def)
qed auto

lemma shift_screen: "length buf = 2000 \<Longrightarrow> shift_loop buf 80 1920 = Inr (drop 80 buf @ drop 1920 buf)"
  using shift_loop_effect [of 80 1920 buf] by (auto intro!: nth_equalityI simp: nth_append add.commute)

lemma row_cells_in: "b \<le> 80 \<Longrightarrow> y < 25 \<Longrightarrow> \<forall>(x, y) \<in> set (row_cells a b y). x < 80 \<and> y < 25"
  by (auto simp: row_cells_def)

lemma screen_cells_in: "b \<le> 25 \<Longrightarrow> \<forall>(x, y) \<in> set (screen_cells a b). x < 80 \<and> y < 25"
  by (auto simp: screen_cells_def row_cells_def VGA_SCREEN_WIDTH_def)

lemma safe_wrap: "safe_step n a (wrap_line n (n = a))"
proof (rule safe_stepI)
  fix s t assume s: "console_ok s" "ttys s n = Some t" "tty_ok t" "active_tty s = a"
  have len: "length (t_screenbuf t) = 2000" "length (vga_hdw_buf s) = 2000" "unat (t_row t) < 25"
    using s by (auto simp: console_ok_def tty_ok_def)
  have eq: "t_row t + 1 = 25 \<longleftrightarrow> unat (t_row t) = 24" using len(3) by (auto simp: word_unat_eq_iff unat_word_ariths)
  show "good n s (wrap_line n (n = a) s)"
  proof (cases "unat (t_row t) = 24")
    case False
    then have "tty_ok (t\<lparr>t_row := t_row t + 1\<rparr>)" using s(3) by (auto simp: tty_ok_def unat_word_ariths)
    then show ?thesis using s False eq hw_shows by (auto simp: wrap_line_def tty_at_def screen_dims intro!: good_put)
  next
    case True
    let ?t = "t\<lparr>t_row := 25, t_screenbuf := drop 80 (t_screenbuf t) @ drop 1920 (t_screenbuf t)\<rparr>"
    let ?b = "blank_all (vga_mkentry 32 (cell_color ?t)) (row_cells 0 80 24) (t_screenbuf ?t)"
    have "put_blanks n (row_cells 0 80 24) (put_tty n ?t s) =
        (let s' = put_tty n (?t\<lparr>t_screenbuf := ?b\<rparr>) s
         in Inr (if n = a then s'\<lparr>vga_hdw_buf := blank_all (vga_mkentry 32 (cell_color ?t)) (row_cells 0 80 24) (vga_hdw_buf s)\<rparr> else s'))"
      using put_blanks_effect [of "put_tty n ?t s" n ?t "row_cells 0 80 24"] len s(4) row_cells_in [of 80 24 0]
      by (simp add: put_tty_def Let_def)
    moreover have "tty_ok (t\<lparr>t_screenbuf := ?b, t_row := 24\<rparr>)" using s(3) by (simp add: tty_ok_def)
    ultimately show ?thesis using s True eq len shift_screen [of "t_screenbuf t"]
      by (auto simp: wrap_line_def tty_at_def screen_dims good_def put_tty_def Let_def console_ok_def)
  qed
qed

lemma safe_advance: "safe_step n a (advance n (n = a))"
proof (rule safe_stepI)
  fix s t assume s: "console_ok s" "ttys s n = Some t" "tty_ok t" "active_tty s = a"
  have eq: "t_column t + 1 = 80 \<longleftrightarrow> unat (t_column t) = 79" using s(3) by (auto simp: tty_ok_def word_unat_eq_iff unat_word_ariths)
  show "good n s (advance n (n = a) s)"
  proof (cases "unat (t_column t) = 79")
    case False
    then have "tty_ok (t\<lparr>t_column := t_column t + 1\<rparr>)" using s(3) by (auto simp: tty_ok_def unat_word_ariths)
    then show ?thesis using s False eq hw_shows by (auto simp: advance_def tty_at_def screen_dims intro!: good_put)
  next
    case True
    have "advance n (n = a) s = bindE (set_column n 0 s) (wrap_line n (n = a))"
      using s True eq by (simp add: advance_def set_column_def upd_tty_def tty_at_def screen_dims)
    then show ?thesis using safe_stepD [OF safe_set_column s(1)] s(2,4) good_bind safe_wrap by auto
  qed
qed

lemma or_7_small:
  assumes "unat (x :: u32) < 80"
  shows "unat (x OR 7) < 80"
proof -
  have m: "(7 :: u32) = mask 3" by (simp add: mask_numeral)
  have "x OR 7 = push_bit 3 (drop_bit 3 x) OR mask 3"
    unfolding m by (auto intro!: bit_word_eqI simp: bit_simps)
  also have "\<dots> = push_bit 3 (drop_bit 3 x) + mask 3" by (subst disjunctive_add) (auto simp: bit_simps)
  also have "\<dots> = x div 8 * 8 + 7" by (simp add: push_bit_eq_mult drop_bit_eq_div mask_numeral)
  finally have eq: "x OR 7 = x div 8 * 8 + 7" .
  have "unat x div 8 < 10" using assms by (simp add: div_less_iff_less_mult)
  then have "unat x div 8 * 8 + 7 < 80" by linarith
  then show ?thesis unfolding eq by (simp add: unat_word_ariths unat_div)
qed

lemma safe_cursor: "safe_step n a (show_cursor n)"
  by (auto simp: show_cursor_def tty_at_def vga_setcurs_def good_def console_ok_def intro!: safe_stepI)

lemma safe_put_char: "safe_step n a (\<lambda>s. bindE (tty_at n s) (\<lambda>t. vga_putentry n c (t_column t) (t_row t) s))"
proof (rule safe_stepI)
  fix s t assume s: "console_ok s" "ttys s n = Some t" "tty_ok t"
  have "length (vga_hdw_buf s) = 2000" using s(1) by (auto simp: console_ok_def tty_ok_def)
  then show "good n s (bindE (tty_at n s) (\<lambda>t. vga_putentry n c (t_column t) (t_row t) s))"
    using s putentry_effect [OF s(2), of "t_column t" "t_row t" c]
    by (auto simp: tty_at_def tty_ok_def Let_def good_def put_tty_def console_ok_def)
qed

lemma safe_putchar: "safe_step n a (vga_putchar n c)"
proof (rule safe_stepI)
  fix s t assume s: "console_ok s" "ttys s n = Some t" "tty_ok t" "active_tty s = a"
  obtain cur where cur: "ttys s a = Some cur" using s(1,4) by (auto simp: console_ok_def)
  have tab: "safe_step n a (upd_tty n (\<lambda>t. t\<lparr>t_column := t_column t OR 7\<rparr>))"
    by (rule safe_upd) (simp add: tty_ok_def or_7_small)
  have beep: "safe_step n a (\<lambda>s. Inr (speaker_beep s))"
    by (auto simp: speaker_beep_def good_def console_ok_def intro!: safe_stepI)
  note rules = safe_if safe_andthen safe_Inr safe_wrap safe_advance safe_cursor safe_put_char safe_set_column tab beep
  have cur_at: "tty_at a s = Inr cur" using cur by (simp add: tty_at_def)
  note D = safe_stepD [where n = n and s = s, unfolded s(4)]
  show "good n s (vga_putchar n c s)"
  proof (cases "c = 0")
    case True
    then show ?thesis unfolding vga_putchar_def vga_display_putchar_def s(4) cur_at bindE_Inr Let_def if_P [OF True]
      by (intro D safe_Inr) (use s in auto)
  next
    case False
    then show ?thesis unfolding vga_putchar_def vga_display_putchar_def s(4) cur_at bindE_Inr Let_def if_not_P [OF False]
      by (intro D rules) (use s in auto)
  qed
qed

subsection \<open>The escape sequences keep it\<close>

lemma safe_digit: "safe_step n a (tty_add_digit_char n c)"
  by (auto simp: tty_add_digit_char_def tty_at_def tty_ok_def Let_def hw_shows intro!: safe_stepI good_put)

lemma safe_keypad: "safe_step n a (tty_set_alt_keypad n on)"
  unfolding tty_set_alt_keypad_def by (intro safe_andthen safe_upd safe_reset) (simp add: tty_ok_def)

lemma sgr_loop_ok:
  assumes "tty_ok t" "i + k \<le> 8"
  shows "\<exists>t'. sgr_loop i k t = Inr t' \<and> tty_ok t' \<and> t_screenbuf t' = t_screenbuf t \<and> input_same t t'"
  using assms
proof (induction k arbitrary: i t)
  case (Suc k)
  let ?v = "t_statebuf t ! i"
  have keep: "tty_ok (sgr_item ?v t)" "t_screenbuf (sgr_item ?v t) = t_screenbuf t" "input_same t (sgr_item ?v t)"
    using Suc.prems(1) by (simp_all add: sgr_item_def tty_ok_def)
  then obtain t' where t': "sgr_loop (Suc i) k (sgr_item ?v t) = Inr t'" "tty_ok t'" "t_screenbuf t' = t_screenbuf t"
    "input_same (sgr_item ?v t) t'" using Suc.IH [of "sgr_item ?v t" "Suc i"] Suc.prems(2) by auto
  moreover have "i < length (t_statebuf t)" using Suc.prems by (simp add: tty_ok_def)
  ultimately show ?case using input_same_trans [OF keep(3) t'(4)] by simp
qed simp

lemma safe_sgr: "safe_step n a (vt100_set_sgr n)"
proof (rule safe_stepI)
  fix s t assume s: "console_ok s" "ttys s n = Some t" "tty_ok t"
  have "unat (t_curritem t + 1) \<le> 8" using s(3) by (auto simp: tty_ok_def unat_word_ariths)
  then obtain t' where t': "sgr_loop 0 (unat (t_curritem t + 1)) t = Inr t'" "tty_ok t'" "t_screenbuf t' = t_screenbuf t"
    "input_same t t'" using sgr_loop_ok [OF s(3), of 0 "unat (t_curritem t + 1)"] by auto
  have "vt100_set_sgr n s = bindE (Inr (put_tty n t' s)) (tty_reset_state n)" using s(2) t'(1) by (simp add: vt100_set_sgr_def tty_at_def)
  also have "good n s \<dots>" using s t' hw_shows by (intro good_bind good_put safe_reset) auto
  finally show "good n s (vt100_set_sgr n s)" .
qed

lemma cursor_arg_less:
  assumes "0 < b" "b \<le> 256"
  shows "unat (cursor_arg b v) < b"
proof -
  have "unat (of_nat k :: u8) = k" if "k < 256" for k using that by (simp add: unat_of_nat take_bit_nat_eq_self)
  from this [of "b - 1"] assms show ?thesis by (auto simp: cursor_arg_def Let_def simp del: of_nat_diff)
qed

lemma unat_ucast_u8: "unat (ucast (x :: u8) :: u32) = unat x"
  using unsigned_less [of x, where 'a = nat] by (simp add: unsigned_ucast_eq take_bit_nat_eq_self)

lemma safe_cursor_pos: "safe_step n a (vt100_set_cursor_pos n)"
proof (rule safe_stepI)
  fix s t assume s: "console_ok s" "ttys s n = Some t" "tty_ok t"
  let ?row = "ucast (cursor_arg 25 (t_statebuf t ! 0)) :: u32" and ?col = "ucast (cursor_arg 80 (t_statebuf t ! 1)) :: u32"
  have ok: "tty_ok (t\<lparr>t_row := ?row, t_column := ?col\<rparr>)" using s(3) cursor_arg_less [of 25] cursor_arg_less [of 80]
    by (simp add: tty_ok_def unat_ucast_u8)
  have "vt100_set_cursor_pos n s = bindE (Inr (vga_setcurs ?col ?row (put_tty n (t\<lparr>t_row := ?row, t_column := ?col\<rparr>) s))) (tty_reset_state n)"
    using s(2,3) by (simp add: vt100_set_cursor_pos_def tty_at_def tty_ok_def screen_dims Let_def)
  also have "good n s \<dots>" by (intro good_bind good_put_cursor good_put safe_reset) (use s ok hw_shows in auto)
  finally show "good n s (vt100_set_cursor_pos n s)" .
qed

lemma safe_update: "safe_step n a (vga_update_display n)"
  by (auto simp: vga_update_display_def tty_at_def good_def console_ok_def intro!: safe_stepI)

lemma good_clear:
  assumes "console_ok s" "ttys s n = Some t" "\<forall>(x, y) \<in> set cells. x < 80 \<and> y < 25"
  shows "good n s (andthen (put_blanks n cells) (andthen (vga_update_display n) (tty_reset_state n)) s)"
  unfolding andthen_def [of "put_blanks n cells"]
  by (intro good_bind put_blanks_good [OF assms] safe_andthen safe_update safe_reset)

lemma safe_clear_screen: "safe_step n a (vt100_clear_screen n)"
proof (rule safe_stepI)
  fix s t assume s: "console_ok s" "ttys s n = Some t" "tty_ok t"
  let ?row = "unat (t_row t)" and ?col = "unat (t_column t)" and ?v = "t_statebuf t ! 0"
  let ?cells = "if ?v = 0 then row_cells ?col 80 ?row @ screen_cells (?row + 1) 25
    else if ?v = 1 then row_cells 0 ?col ?row @ screen_cells 0 ?row else if ?v = 2 then screen_cells 0 25 else []"
  have t: "?row < 25" "?col < 80" "0 < length (t_statebuf t)" using s(3) by (auto simp: tty_ok_def)
  then have "\<forall>(x, y) \<in> set ?cells. x < 80 \<and> y < 25"
    by (auto simp: row_cells_def screen_cells_def VGA_SCREEN_WIDTH_def split: if_splits)
  moreover have "vt100_clear_screen n s = andthen (put_blanks n ?cells) (andthen (vga_update_display n) (tty_reset_state n)) s"
    using s(2) t(3) by (simp add: vt100_clear_screen_def tty_at_def screen_dims Let_def)
  ultimately show "good n s (vt100_clear_screen n s)" using good_clear [OF s(1,2), of ?cells] by (simp only:)
qed

lemma safe_clear_line: "safe_step n a (vt100_clear_line n)"
proof (rule safe_stepI)
  fix s t assume s: "console_ok s" "ttys s n = Some t" "tty_ok t"
  let ?row = "unat (t_row t)" and ?col = "unat (t_column t)" and ?v = "t_statebuf t ! 0"
  let ?cells = "if ?v = 0 then row_cells ?col 80 ?row else if ?v = 1 then row_cells 0 ?col ?row
    else if ?v = 2 then row_cells 0 80 ?row else []"
  have t: "?row < 25" "?col < 80" "0 < length (t_statebuf t)" using s(3) by (auto simp: tty_ok_def)
  then have "\<forall>(x, y) \<in> set ?cells. x < 80 \<and> y < 25" by (auto simp: row_cells_def split: if_splits)
  moreover have "vt100_clear_line n s = andthen (put_blanks n ?cells) (andthen (vga_update_display n) (tty_reset_state n)) s"
    using s(2) t(3) by (simp add: vt100_clear_line_def tty_at_def screen_dims Let_def)
  ultimately show "good n s (vt100_clear_line n s)" using good_clear [OF s(1,2), of ?cells] by (simp only:)
qed

lemma safe_next_item: "safe_step n a (next_item n)"
proof (rule safe_stepI)
  fix s t assume s: "console_ok s" "ttys s n = Some t" "tty_ok t"
  show "good n s (next_item n s)"
  proof (cases "t_curritem t + 1 = 8")
    case True
    have "tty_reset_state n (put_tty n (t\<lparr>t_curritem := 8\<rparr>) s) = tty_reset_state n s"
      using s(2) by (simp add: tty_reset_state_def upd_tty_def tty_at_def put_tty_def reset_tty_def)
    then show ?thesis using s True safe_stepD [OF safe_reset] by (simp add: next_item_def tty_at_def Let_def)
  next
    case False
    have "unat (t_curritem t + 1) = unat (t_curritem t) + 1" using s(3) by (auto simp: tty_ok_def unat_word_ariths)
    moreover have "unat (t_curritem t + 1) \<noteq> 8" using False by (auto simp: word_unat_eq_iff)
    ultimately have "tty_ok (t\<lparr>t_curritem := t_curritem t + 1\<rparr>)" using s(3) by (auto simp: tty_ok_def)
    then show ?thesis using s False hw_shows by (auto simp: next_item_def tty_at_def Let_def intro!: good_put)
  qed
qed

lemmas safe_rules = safe_if safe_andthen safe_Inr safe_reset safe_set_state safe_digit safe_keypad safe_sgr safe_cursor_pos
  safe_clear_screen safe_clear_line safe_next_item safe_putchar

lemma safe_write_char: "safe_step n a (vt100_write_char n c)"
proof (rule safe_stepI)
  fix s t assume s: "console_ok s" "ttys s n = Some t" "tty_ok t" "active_tty s = a"
  have at: "tty_at n s = Inr t" using s(2) by (simp add: tty_at_def)
  note D = safe_stepD [where n = n and s = s, unfolded s(4)]
  have "good n s (vt100_handle_escaped_char n c s)"
    unfolding vt100_handle_escaped_char_def at bindE_Inr esc_action_def csi_action_def charset_action_def vt100_set_dec_def
      vt100_reset_dec_def vt100_set_charset_def
    by (intro D safe_rules) (use s in \<open>auto simp: vt100_states\<close>)
  then show "good n s (vt100_write_char n c s)"
    unfolding vt100_write_char_def at bindE_Inr
    by (cases "t_state t \<noteq> 0") (simp, (simp only: if_not_P not_not simp_thms if_False, intro D safe_rules; use s in \<open>auto simp: vt100_states\<close>))
qed

lemma safe_write_data: "safe_step n a (tty_write_data n cs)"
proof (induction cs)
  case (Cons c cs)
  have "tty_write_data n (c # cs) = andthen (vt100_write_char n c) (tty_write_data n cs)" by (simp add: andthen_def fun_eq_iff)
  then show ?case using safe_andthen [OF safe_write_char Cons] by simp
qed (auto intro!: safe_stepI safe_Inr [THEN safe_stepD])

section \<open>Properties\<close>

text \<open>
  C32: whatever bytes a program writes to a terminal, escape sequences well-formed or not, the emulation
  never faults: every access stays inside the screen and the parameter buffer, the cursor stays on the screen, the
  display memory keeps showing exactly the screen of the active terminal, and no other terminal changes.
\<close>

theorem terminal_output_safe:
  assumes "console_ok s" "ttys s n \<noteq> None"
  shows "\<exists>s'. tty_write_data n cs s = Inr s' \<and> console_ok s' \<and> active_tty s' = active_tty s \<and>
    (\<forall>m. m \<noteq> n \<longrightarrow> ttys s' m = ttys s m)"
  using safe_stepD [OF safe_write_data assms, of cs] by (auto simp: good_def)

definition sample_termios :: termios where
  "sample_termios = \<lparr>c_iflag = 0, c_oflag = 0, c_cflag = 0, c_lflag = 0x8a3b, c_line = 0,
     c_cc = (\<lambda>_. 0xff)(0 := 3, 1 := 28, 2 := 31, 3 := 21, 4 := 4, 5 := 0, 6 := 1, 9 := 26, 11 := 18, 13 := 23, 14 := 22),
     c_ispeed = 15, c_ospeed = 15\<rparr>"

definition sample_tty :: TTY where
  "sample_tty = \<lparr>t_screenbuf = replicate 2000 0x720, t_inbuf = \<lparr>tb_data = replicate 4096 0, tb_start = 0, tb_end = 0\<rparr>,
     t_row = 0, t_column = 0, t_saved_row = 0, t_saved_col = 0, t_fg_pgid = 1, t_color = 7, t_flags = 0,
     t_termios = sample_termios, t_state = 0, t_statebuf = replicate 8 0, t_curritem = 0\<rparr>"

definition sample_console :: console where
  "sample_console = \<lparr>ttys = [0 \<mapsto> sample_tty], active_tty = 0, vga_hdw_buf = replicate 2000 0x720, hw_cursor = 0, beeps = 0\<rparr>"

lemma sample_console_ok: "console_ok sample_console"
  by (simp add: console_ok_def sample_console_def sample_tty_def tty_ok_def)

theorem terminal_output_safe_witness:
  "\<exists>s'. tty_write_data 0 [27, 0x5b, 0x39, 0x39, 0x39, 0x3b, 0x3b, 0x48, 0x41] sample_console = Inr s' \<and> console_ok s'"
  using terminal_output_safe [OF sample_console_ok, of 0 "[27, 0x5b, 0x39, 0x39, 0x39, 0x3b, 0x3b, 0x48, 0x41]"]
  by (auto simp: sample_console_def)

definition two_digits :: "nat \<Rightarrow> u8 list" where
  "two_digits k = [of_nat (48 + k div 10), of_nat (48 + k mod 10)]"

lemma put_tty_put [simp]: "put_tty n t' (put_tty n t s) = put_tty n t' s"
  by (simp add: put_tty_def)

lemma ttys_put [simp]: "ttys (put_tty n t s) n = Some t"
  by (simp add: put_tty_def)

lemma digit_step:
  assumes "d < 10" "ttys s n = Some t" "t_state t = VT100_STATE_CSI" "unat (t_curritem t) < length (t_statebuf t)"
  shows "vt100_write_char n (of_nat (48 + d)) s =
    Inr (put_tty n (t\<lparr>t_statebuf := (t_statebuf t)[unat (t_curritem t) := t_statebuf t ! unat (t_curritem t) * 10 + of_nat d]\<rparr>) s)"
proof -
  have "d \<in> {0, 1, 2, 3, 4, 5, 6, 7, 8, 9}" using assms(1) by auto
  then have "vt100_write_char n (of_nat (48 + d)) s = tty_add_digit_char n (of_nat (48 + d)) s" using assms(2,3)
    by (auto simp: vt100_write_char_def vt100_handle_escaped_char_def tty_at_def vt100_states csi_action_def isdigit_def char_int_def)
  then show ?thesis using assms(2,4) by (simp add: tty_add_digit_char_def tty_at_def Let_def algebra_simps)
qed

lemma number_steps:
  assumes "k < 100" "ttys s n = Some t" "t_state t = VT100_STATE_CSI" "unat (t_curritem t) < length (t_statebuf t)"
    "t_statebuf t ! unat (t_curritem t) = 0"
  shows "tty_write_data n (two_digits k @ cs) s =
    tty_write_data n cs (put_tty n (t\<lparr>t_statebuf := (t_statebuf t)[unat (t_curritem t) := of_nat k]\<rparr>) s)"
proof -
  let ?i = "unat (t_curritem t)" and ?t = "t\<lparr>t_statebuf := (t_statebuf t)[unat (t_curritem t) := of_nat (k div 10)]\<rparr>"
  have "vt100_write_char n (of_nat (48 + k div 10)) s = Inr (put_tty n ?t s)"
    using digit_step [of "k div 10" s n t] assms by simp
  moreover have "(of_nat (k div 10) * 10 + of_nat (k mod 10) :: u8) = of_nat k"
    by (metis of_nat_add of_nat_mult of_nat_numeral div_mult_mod_eq)
  then have "vt100_write_char n (of_nat (48 + k mod 10)) (put_tty n ?t s) = Inr (put_tty n (t\<lparr>t_statebuf := (t_statebuf t)[?i := of_nat k]\<rparr>) s)"
    using digit_step [of "k mod 10" "put_tty n ?t s" n ?t] assms by simp
  ultimately show ?thesis by (simp add: two_digits_def)
qed

lemma small_byte: "k < 256 \<Longrightarrow> unat (of_nat k :: u8) = k"
  by (simp add: unat_of_nat take_bit_nat_eq_self)

lemma cursor_arg_pos:
  assumes "1 \<le> k" "k \<le> b" "b < 256"
  shows "ucast (cursor_arg b (of_nat k)) = (of_nat (k - 1) :: u32)"
proof -
  have k: "0 < (of_nat k :: u8)" "(of_nat k - 1 :: u8) = of_nat (k - 1)" using assms small_byte [of k] by (auto simp: word_less_nat_alt)
  then have "cursor_arg b (of_nat k) = of_nat (k - 1)" using assms small_byte [of "k - 1"] by (auto simp: cursor_arg_def Let_def)
  moreover have "unat (of_nat (k - 1) :: u32) = k - 1" using assms by (simp add: unat_of_nat take_bit_nat_eq_self del: of_nat_diff)
  ultimately show ?thesis using assms small_byte [of "k - 1"] by (simp add: word_unat_eq_iff unat_ucast_u8 del: of_nat_diff)
qed

text \<open>
  C35: the cursor-position sequence ESC [ row ; column H with two decimal digits each puts the cursor on that
  position, counted from one, and changes nothing else of the terminal; the display cursor follows.
\<close>

theorem cursor_position_sequence:
  assumes "ttys s n = Some t" "t_state t = 0" "t_statebuf t = replicate 8 0" "t_curritem t = 0"
    "1 \<le> r" "r \<le> 25" "1 \<le> c" "c \<le> 80"
  shows "tty_write_data n ([27, 0x5b] @ two_digits r @ [0x3b] @ two_digits c @ [0x48]) s =
    Inr (vga_setcurs (of_nat (c - 1)) (of_nat (r - 1)) (put_tty n (t\<lparr>t_row := of_nat (r - 1), t_column := of_nat (c - 1)\<rparr>) s))"
proof -
  let ?t1 = "t\<lparr>t_state := VT100_STATE_CSI\<rparr>"
  let ?t2 = "?t1\<lparr>t_statebuf := (replicate 8 0)[0 := of_nat r]\<rparr>"
  let ?t3 = "?t2\<lparr>t_curritem := 1\<rparr>"
  let ?t4 = "?t3\<lparr>t_statebuf := (replicate 8 0)[0 := of_nat r, 1 := of_nat c]\<rparr>"
  note steps = vt100_write_char_def vt100_handle_escaped_char_def tty_at_def vt100_states esc_action_def csi_action_def
    set_state_def upd_tty_def
  have "tty_write_data n ([27, 0x5b] @ cs) s = tty_write_data n cs (put_tty n ?t1 s)" for cs
    using assms(1,2) by (simp add: steps)
  moreover have "tty_write_data n (two_digits r @ cs) (put_tty n ?t1 s) = tty_write_data n cs (put_tty n ?t2 s)" for cs
    using number_steps [of r "put_tty n ?t1 s" n ?t1 cs] assms by simp
  moreover have "tty_write_data n ([0x3b] @ cs) (put_tty n ?t2 s) = tty_write_data n cs (put_tty n ?t3 s)" for cs
    using assms(4) by (simp add: steps next_item_def)
  moreover have "tty_write_data n (two_digits c @ cs) (put_tty n ?t3 s) = tty_write_data n cs (put_tty n ?t4 s)" for cs
    using number_steps [of c "put_tty n ?t3 s" n ?t3 cs] assms(7,8) by simp
  moreover have "tty_write_data n [0x48] (put_tty n ?t4 s) =
      Inr (vga_setcurs (of_nat (c - 1)) (of_nat (r - 1)) (put_tty n (t\<lparr>t_row := of_nat (r - 1), t_column := of_nat (c - 1)\<rparr>) s))"
  proof -
    have "t\<lparr>t_row := a, t_column := b, t_state := 0, t_statebuf := replicate 8 0, t_curritem := 0\<rparr> = t\<lparr>t_row := a, t_column := b\<rparr>" for a b
      using assms(2-4) by (cases t) simp
    then show ?thesis using assms(5-8) cursor_arg_pos [of r 25] cursor_arg_pos [of c 80]
      by (simp add: steps vt100_set_cursor_pos_def screen_dims tty_reset_state_def reset_tty_def vga_setcurs_def put_tty_def Let_def)
  qed
  ultimately show ?thesis by simp
qed

theorem cursor_position_sequence_witness:
  "tty_write_data 0 ([27, 0x5b] @ two_digits 7 @ [0x3b] @ two_digits 42 @ [0x48]) sample_console =
     Inr (vga_setcurs 41 6 (put_tty 0 (sample_tty\<lparr>t_row := 6, t_column := 41\<rparr>) sample_console))"
  using cursor_position_sequence [of sample_console 0 sample_tty 7 42] by (simp add: sample_console_def sample_tty_def)

end
