(* ===== verification/Line_Discipline.thy ===== *)
theory Line_Discipline
  imports Terminal
begin

unbundle bit_operations_syntax

text \<open>
  Input of the terminal: the line discipline of \<^verbatim>\<open>drivers/tty-line.c\<close>, the keyboard of \<^verbatim>\<open>drivers/kbd.c\<close> and the terminal
  requests of \<^verbatim>\<open>kernel/ioctl.c\<close>. Typing can send signals, so these functions work on the kernel state together
  with the console. \<^verbatim>\<open>tty_read\<close> waits in loops for other tasks to provide input; the model returns \<open>Wait\<close> when the
  condition of the loop holds.
\<close>

section \<open>The input buffer\<close>

definition char_match :: "TTY \<Rightarrow> u8 \<Rightarrow> nat \<Rightarrow> bool" where
  "char_match t c m \<longleftrightarrow> char_int c = uint (c_cc (t_termios t) m) \<and> c_cc (t_termios t) m \<noteq> 0xff"

definition lflag :: "TTY \<Rightarrow> u32 \<Rightarrow> bool" where
  "lflag t f \<longleftrightarrow> c_lflag (t_termios t) AND f \<noteq> 0"

definition compact_inbuf :: "TTYInputBuffer \<Rightarrow> TTYInputBuffer exec" where
  "compact_inbuf b =
     (let n = unat (tb_end b - tb_start b)
      in bindE (copy_out (tb_data b) (unat (tb_start b)) n) (\<lambda>d.
         bindE (copy_in (tb_data b) 0 n d) (\<lambda>data. Inr (b\<lparr>tb_data := data, tb_end := tb_end b - tb_start b\<rparr>))))"

definition tty_input_buffer_add_char :: "nat \<Rightarrow> u8 \<Rightarrow> console \<Rightarrow> console exec" where
  "tty_input_buffer_add_char n c s =
     bindE (tty_at n s) (\<lambda>t.
       bindE (if tb_end (t_inbuf t) \<ge> of_nat (TTY_BUFFER_SIZE - 1) \<and> tb_start (t_inbuf t) > 0
              then compact_inbuf (t_inbuf t) else Inr (t_inbuf t)) (\<lambda>b.
       let s = put_tty n (t\<lparr>t_inbuf := b\<rparr>) s
       in if tb_end b \<ge> of_nat (TTY_BUFFER_SIZE - 1) \<and> (\<not> lflag t ICANON \<or> c \<noteq> 10)
          then Inr (if c_iflag (t_termios t) AND IMAXBEL \<noteq> 0 then speaker_beep s else s)
          else bindE (arr_set (tb_data b) (unat (tb_end b)) c) (\<lambda>data.
               Inr (put_tty n (t\<lparr>t_inbuf := b\<lparr>tb_data := data, tb_end := tb_end b + 1\<rparr>\<rparr>) s))))"

definition tty_flush_input_line :: "nat \<Rightarrow> u8 \<Rightarrow> console \<Rightarrow> console exec" where
  "tty_flush_input_line n delim =
     andthen (if delim \<noteq> 0 then tty_input_buffer_add_char n delim else Inr)
       (upd_tty n (\<lambda>t. t\<lparr>t_flags := t_flags t OR TTY_INPUT_READY\<rparr>))"

definition is_eof :: "TTY \<Rightarrow> u8 \<Rightarrow> bool" where
  "is_eof t d \<longleftrightarrow> char_int d = uint (c_cc (t_termios t) VEOF) \<and> c_cc (t_termios t) VEOF \<noteq> 0xff"

definition set_end :: "nat \<Rightarrow> TTY \<Rightarrow> u32 \<Rightarrow> console \<Rightarrow> console" where
  "set_end n t e s = put_tty n (t\<lparr>t_inbuf := (t_inbuf t)\<lparr>tb_end := e\<rparr>\<rparr>) s"

definition tty_erase_input :: "nat \<Rightarrow> console \<Rightarrow> (u32 \<times> console) exec" where
  "tty_erase_input n s =
     bindE (tty_at n s) (\<lambda>t.
       let b = t_inbuf t
       in if tb_end b > 0
          then bindE (arr_get (tb_data b) (unat (tb_end b - 1))) (\<lambda>d.
               Inr (if \<not> is_eof t d then (1, set_end n t (tb_end b - 1) s) else (0, s)))
          else Inr (0, s))"

text \<open>The two loops of \<^verbatim>\<open>tty_erase_input_word\<close>. The comparison of the signed position with the unsigned start of the unread
  data is unsigned, so that a negative position passes it and the access faults.\<close>

function word_loop :: "bool \<Rightarrow> TTY \<Rightarrow> int \<Rightarrow> int exec" where
  "word_loop sp t i =
     (if (word_of_int i :: u32) \<ge> tb_start (t_inbuf t) then
        bindE (if 0 \<le> i then arr_get (tb_data (t_inbuf t)) (nat i) else Inl Out_Of_Bounds) (\<lambda>d.
          if isspace (char_int d) = sp \<and> \<not> is_eof t d then word_loop sp t (i - 1) else Inr i)
      else Inr i)"
  by pat_completeness auto
termination by (relation "measure (\<lambda>(sp, t, i). nat (i + 1))") (auto split: if_splits)

declare word_loop.simps [simp del]

definition tty_erase_input_word :: "nat \<Rightarrow> console \<Rightarrow> (u32 \<times> console) exec" where
  "tty_erase_input_word n s =
     bindE (tty_at n s) (\<lambda>t.
       bindE (word_loop True t (sint (tb_end (t_inbuf t) - 1))) (\<lambda>i.
       bindE (word_loop False t i) (\<lambda>i.
         let i = (if i < 0 then 0 else i + 1); e = word_of_int i
         in Inr (tb_end (t_inbuf t) - e, set_end n t e s))))"

definition last_eof :: "TTY \<Rightarrow> nat option" where
  "last_eof t =
     (if c_cc (t_termios t) VEOF = 0xff then None
      else find (\<lambda>i. tb_data (t_inbuf t) ! i = c_cc (t_termios t) VEOF) (rev [0..<unat (tb_end (t_inbuf t))]))"

definition tty_kill_input :: "nat \<Rightarrow> console \<Rightarrow> (u32 \<times> console) exec" where
  "tty_kill_input n s =
     bindE (tty_at n s) (\<lambda>t.
       let b = t_inbuf t
       in if unat (tb_end b) > length (tb_data b) \<and> c_cc (t_termios t) VEOF \<noteq> 0xff then Inl Out_Of_Bounds
          else case last_eof t of
            Some p \<Rightarrow>
              if p < unat (tb_start b)
              then Inr (tb_end b - tb_start b, put_tty n (t\<lparr>t_inbuf := b\<lparr>tb_start := 0, tb_end := 0\<rparr>\<rparr>) s)
              else Inr (tb_end b - of_nat p, set_end n t (of_nat p) s)
          | None \<Rightarrow> Inr (tb_end b - tb_start b, put_tty n (t\<lparr>t_inbuf := b\<lparr>tb_start := 0, tb_end := 0\<rparr>\<rparr>) s))"

section \<open>Echo\<close>

definition tty_process_output :: "nat \<Rightarrow> u8 \<Rightarrow> u32 \<Rightarrow> console \<Rightarrow> console exec" where
  "tty_process_output n c arg s =
     bindE (tty_at n s) (\<lambda>t.
       (if lflag t ICANON \<and> char_match t c VERASE \<and> lflag t ECHOE then
          if arg \<noteq> 0 then vga_erase_char n else Inr
        else if lflag t ICANON \<and> char_match t c VWERASE \<and> lflag t ECHOE then vga_erase_line n arg
        else if lflag t ICANON \<and> char_match t c VKILL \<and> lflag t (ECHOK OR ECHOKE) then vga_erase_line n arg
        else if c = 10 \<or> c = 9 then vt100_write_char n c
        else if iscntrl (char_int c) \<and> lflag t ECHOCTL then
          if \<not> char_match t c VEOF \<or> t_column t > 0
          then andthen (vt100_write_char n 0x5e) (vt100_write_char n (c + 0x40)) else Inr
        else vt100_write_char n c) s)"

fun reprint_loop :: "nat \<Rightarrow> nat \<Rightarrow> nat \<Rightarrow> console \<Rightarrow> console exec" where
  "reprint_loop n i 0 s = Inr s"
| "reprint_loop n i (Suc k) s =
     bindE (tty_at n s) (\<lambda>t. bindE (arr_get (tb_data (t_inbuf t)) i) (\<lambda>c.
       bindE (tty_process_output n c 0 s) (reprint_loop n (Suc i) k)))"

definition tty_reprint_input :: "nat \<Rightarrow> console \<Rightarrow> console exec" where
  "tty_reprint_input n s =
     bindE (tty_at n s) (\<lambda>t.
       let a = unat (tb_start (t_inbuf t)); b = unat (tb_end (t_inbuf t)) in reprint_loop n a (b - a) s)"

section \<open>Typing\<close>

type_synonym 'w term_state = "'w kernel \<times> console"

definition no_arg :: "(console \<Rightarrow> console exec) \<Rightarrow> console \<Rightarrow> (u32 \<times> console) exec" where
  "no_arg f s = bindE (f s) (\<lambda>s. Inr (0, s))"

text \<open>The editing characters of canonical mode: what to do before the echo, if the character is one.\<close>

definition edit_action :: "nat \<Rightarrow> TTY \<Rightarrow> u8 \<Rightarrow> (console \<Rightarrow> (u32 \<times> console) exec) option" where
  "edit_action n t c =
     (if \<not> lflag t ICANON then None
      else if c = 10 \<or> char_match t c VEOL \<or> char_match t c VEOL2 then Some (no_arg (tty_flush_input_line n c))
      else if char_match t c VEOF \<and> tb_end (t_inbuf t) = 0 then Some (no_arg (tty_flush_input_line n 0))
      else if char_match t c VERASE then Some (tty_erase_input n)
      else if char_match t c VKILL then Some (tty_kill_input n)
      else if lflag t IEXTEN then
        if char_match t c VWERASE then Some (tty_erase_input_word n)
        else if char_match t c VREPRINT then Some (no_arg (tty_reprint_input n))
        else if char_match t c VLNEXT
        then Some (no_arg (upd_tty n (\<lambda>t. t\<lparr>t_flags := t_flags t OR TTY_QUOTE_INPUT\<rparr>)))
        else None
      else None)"

definition input_signal :: "TTY \<Rightarrow> u8 \<Rightarrow> nat" where
  "input_signal t c =
     (if \<not> lflag t ISIG then 0
      else if char_match t c VINTR then SIGINT
      else if char_match t c VSUSP then SIGTSTP
      else if char_match t c VQUIT then SIGQUIT
      else 0)"

text \<open>The loop over the foreground group; it ends where a signal has terminated or stopped the running
  task, which then gives up the processor inside \<^verbatim>\<open>process_send_signal\<close>.\<close>

primrec signal_loop :: "int \<Rightarrow> nat \<Rightarrow> nat list \<Rightarrow> 'w kernel \<Rightarrow> 'w kernel" where
  "signal_loop pgid sig [] k = k"
| "signal_loop pgid sig (i # is) k =
     (if p_pgid (process_table k i) = pgid then
        if send_returns i sig k then signal_loop pgid sig is (process_send_signal i sig k)
        else process_send_signal i sig k
      else signal_loop pgid sig is k)"

definition signal_group :: "int \<Rightarrow> nat \<Rightarrow> 'w kernel \<Rightarrow> 'w kernel" where
  "signal_group pgid sig = signal_loop pgid sig [1..<PROCESS_LIMIT]"

definition echo_input :: "nat \<Rightarrow> TTY \<Rightarrow> u8 \<Rightarrow> u32 \<Rightarrow> console \<Rightarrow> console exec" where
  "echo_input n t c arg =
     (if lflag t ECHO then tty_process_output n c arg
      else if c = 10 \<and> lflag t ECHONL then tty_process_output n 10 arg else Inr)"

definition tty_process_input :: "nat \<Rightarrow> u8 \<Rightarrow> 'w term_state \<Rightarrow> 'w term_state exec" where
  "tty_process_input n c = (\<lambda>(k, s).
     case ttys s n of
       None \<Rightarrow> Inr (k, s)
     | Some t \<Rightarrow>
         if t_flags t AND TTY_QUOTE_INPUT \<noteq> 0 then
           bindE (tty_input_buffer_add_char n c (put_tty n (t\<lparr>t_flags := t_flags t AND NOT TTY_QUOTE_INPUT\<rparr>) s)) (\<lambda>s.
           bindE (echo_input n t c 0 s) (\<lambda>s. Inr (k, s)))
         else case edit_action n t c of
           Some f \<Rightarrow> bindE (f s) (\<lambda>(arg, s). bindE (echo_input n t c arg s) (\<lambda>s. Inr (k, s)))
         | None \<Rightarrow>
             if input_signal t c \<noteq> 0 then Inr (signal_group (t_fg_pgid t) (input_signal t c) k, s)
             else bindE (tty_input_buffer_add_char n c s) (\<lambda>s.
                  bindE (echo_input n t c 0 s) (\<lambda>s. Inr (k, s))))"

section \<open>The file operations\<close>

datatype tty_result = Data "u8 list" console | Wait

definition data_ready :: "nat \<Rightarrow> u32 \<Rightarrow> console \<Rightarrow> tty_result exec" where
  "data_ready n len s =
     bindE (tty_at n s) (\<lambda>t.
       let b = t_inbuf t; avail = tb_end b - tb_start b; len = (if avail < len then avail else len)
       in bindE (copy_out (tb_data b) (unat (tb_start b)) (unat len)) (\<lambda>d.
          let start = tb_start b + len
          in Inr (Data d (put_tty n
               (if start = tb_end b
                then t\<lparr>t_inbuf := b\<lparr>tb_start := 0, tb_end := 0\<rparr>, t_flags := t_flags t AND NOT TTY_INPUT_READY\<rparr>
                else t\<lparr>t_inbuf := b\<lparr>tb_start := start\<rparr>\<rparr>) s))))"

text \<open>\<open>later\<close> says whether the timer has passed the time the loops compare it with.\<close>

definition tty_read :: "bool \<Rightarrow> bool \<Rightarrow> u32 \<Rightarrow> console \<Rightarrow> tty_result exec" where
  "tty_read nonblock later len s =
     (let n = active_tty s
      in bindE (tty_at n s) (\<lambda>t.
         let b = t_inbuf t; avail = tb_end b - tb_start b; min = ucast (c_cc (t_termios t) VMIN) :: u32; time = c_cc (t_termios t) VTIME
         in if lflag t ICANON then
              if t_flags t AND TTY_INPUT_READY = 0 then Inr Wait else data_ready n len s
            else if nonblock then data_ready n len s
            else if min = 0 \<and> time = 0 then
              if tb_end b > tb_start b then data_ready n len s else Inr (Data [] s)
            else if min > 0 \<and> time = 0 then
              if avail < min then Inr Wait else data_ready n len s
            else if min = 0 then
              if tb_start b = tb_end b then if later then Inr Wait else Inr (Data [] s)
              else data_ready n len s
            else if avail < min \<and> avail < len \<and> later then Inr Wait
            else data_ready n len s))"

text \<open>\<^verbatim>\<open>tty_write\<close>; \<open>None\<close> is the process that \<^verbatim>\<open>SIGTTOU\<close> has stopped before anything is written: the rest of
  the call runs when it is continued.\<close>

definition tty_write :: "u8 list \<Rightarrow> 'w term_state \<Rightarrow> (u32 option \<times> 'w term_state) exec" where
  "tty_write buffer = (\<lambda>(k, s).
     let n = active_tty s
     in bindE (tty_at n s) (\<lambda>t.
        if lflag t TOSTOP \<and> p_pgid (cur_proc k) \<noteq> t_fg_pgid t \<and> \<not> send_returns (k_cur k) SIGTTOU k
        then Inr (None, (process_send_signal (k_cur k) SIGTTOU k, s))
        else
          let k = (if lflag t TOSTOP \<and> p_pgid (cur_proc k) \<noteq> t_fg_pgid t then process_send_signal (k_cur k) SIGTTOU k else k)
          in bindE (tty_write_data n buffer s) (\<lambda>s. Inr (Some (of_nat (length buffer)), (k, s)))))"

definition tty_set_active :: "nat \<Rightarrow> console \<Rightarrow> console exec" where
  "tty_set_active n s = bindE (tty_at n s) (\<lambda>t. Inr (s\<lparr>active_tty := n, vga_hdw_buf := t_screenbuf t\<rparr>))"

section \<open>The keyboard\<close>

record keyboard =
  kbd_press_map :: "bool list"
  modifies :: bool

definition kbd_scancode_map :: "u8 list" where
  "kbd_scancode_map =
    [0, 27, 0x31, 0x32, 0x33, 0x34, 0x35, 0x36, 0x37, 0x38, 0x39, 0x30, 0x2d, 0x3d,
     31, 9, 0x71, 0x77, 0x65, 0x72, 0x74, 0x79, 0x75, 0x69, 0x6f, 0x70, 0x5b, 0x5d,
     10, 0, 0x61, 0x73, 0x64, 0x66, 0x67, 0x68, 0x6a, 0x6b, 0x6c, 0x3b, 0x27, 0x60,
     0, 0x5c, 0x7a, 0x78, 0x63, 0x76, 0x62, 0x6e, 0x6d, 0x2c, 0x2e, 0x2f, 0, 0x2a, 0, 0x20,
     0, 0, 0, 0, 0, 0, 0, 0, 0, 0, 0, 0, 0,
     0x37, 0x38, 0x39, 0x2d, 0x34, 0x35, 0x36, 0x2b, 0x31, 0x32, 0x33, 0x30, 0x2e] @ replicate 44 0"

definition kbd_shift_chars :: "u8 \<Rightarrow> u8" where
  "kbd_shift_chars c =
     (if 0x61 \<le> c \<and> c \<le> 0x7a then c - 0x20
      else case map_of
        [(0x2d, 0x5f), (0x3d, 0x2b), (0x2c, 0x3c), (0x2e, 0x3e), (0x2f, 0x3f), (0x3b, 0x3a), (0x27, 0x22), (0x5b, 0x7b),
         (0x5d, 0x7d), (0x5c, 0x7c), (0x60, 0x7e), (0x30, 0x29), (0x31, 0x21), (0x32, 0x40), (0x33, 0x23), (0x34, 0x24),
         (0x35, 0x25), (0x36, 0x5e), (0x37, 0x26), (0x38, 0x2a), (0x39, 0x28)] c of None \<Rightarrow> 0 | Some d \<Rightarrow> d)"

definition kbd_ctrl_chars :: "u8 \<Rightarrow> u8" where
  "kbd_ctrl_chars c =
     (if 0x61 \<le> c \<and> c \<le> 0x7a then c - 0x60
      else if 0x5b \<le> c \<and> c \<le> 0x5d then c - 0x40
      else if c = 0x7e then 30 else if c = 0x3f then 31 else 0)"

definition kbd_key_pressed :: "nat \<Rightarrow> keyboard \<Rightarrow> bool" where
  "kbd_key_pressed key b = kbd_press_map b ! key"

definition kbd_char :: "keyboard \<Rightarrow> u8 \<Rightarrow> u8" where
  "kbd_char b c =
     (let c = (if (kbd_key_pressed 0x2a b \<or> kbd_key_pressed 0x36 b) \<and> kbd_shift_chars c \<noteq> 0 then kbd_shift_chars c else c)
      in if kbd_key_pressed 0x1d b \<and> kbd_ctrl_chars c \<noteq> 0 then kbd_ctrl_chars c else c)"

definition kbd_handle :: "nat \<Rightarrow> keyboard \<times> 'w term_state \<Rightarrow> (keyboard \<times> 'w term_state) exec" where
  "kbd_handle scancode = (\<lambda>(b, k, s).
     if modifies b then Inr (b\<lparr>modifies := False\<rparr>, k, s)
     else if scancode = 0xe0 then Inr (b\<lparr>modifies := True\<rparr>, k, s)
     else if scancode > 0x80 then
       bindE (arr_set (kbd_press_map b) (scancode - 0x80) False) (\<lambda>m. Inr (b\<lparr>kbd_press_map := m\<rparr>, k, s))
     else bindE (arr_set (kbd_press_map b) scancode True) (\<lambda>m.
       let b = b\<lparr>kbd_press_map := m\<rparr>
       in bindE (arr_get kbd_scancode_map scancode) (\<lambda>c.
          if c \<noteq> 0 then bindE (tty_process_input (active_tty s) (kbd_char b c) (k, s)) (\<lambda>ks. Inr (b, ks))
          else Inr (b, k, s))))"

section \<open>Requests\<close>

text \<open>\<^verbatim>\<open>TIOCINQ\<close> stores the number of unread bytes and then falls through to \<^verbatim>\<open>TIOCOUTQ\<close>, which stores 0 over it; the model
  has the value the caller sees.\<close>

definition ENOTTY :: int where "ENOTTY = 25"

definition TCGETS :: u32 where "TCGETS = 0x5401"
definition TCSETS :: u32 where "TCSETS = 0x5402"
definition TCSETSW :: u32 where "TCSETSW = 0x5403"
definition TCSETSF :: u32 where "TCSETSF = 0x5404"
definition TCGETA :: u32 where "TCGETA = 0x5405"
definition TCSETA :: u32 where "TCSETA = 0x5406"
definition TCSETAW :: u32 where "TCSETAW = 0x5407"
definition TCSETAF :: u32 where "TCSETAF = 0x5408"
definition TCSBRK :: u32 where "TCSBRK = 0x5409"
definition TCXONC :: u32 where "TCXONC = 0x540a"
definition TCFLSH :: u32 where "TCFLSH = 0x540b"
definition TIOCGPGRP :: u32 where "TIOCGPGRP = 0x540f"
definition TIOCSPGRP :: u32 where "TIOCSPGRP = 0x5410"
definition TIOCOUTQ :: u32 where "TIOCOUTQ = 0x5411"
definition TIOCSTI :: u32 where "TIOCSTI = 0x5412"
definition TIOCGWINSZ :: u32 where "TIOCGWINSZ = 0x5413"
definition TIOCSWINSZ :: u32 where "TIOCSWINSZ = 0x5414"
definition TIOCINQ :: u32 where "TIOCINQ = 0x541b"
definition TCSBRKP :: u32 where "TCSBRKP = 0x5425"
definition TIOCSBRK :: u32 where "TIOCSBRK = 0x5427"
definition TIOCCBRK :: u32 where "TIOCCBRK = 0x5428"
definition TIOCGSID :: u32 where "TIOCGSID = 0x5429"

lemmas request_defs = TCGETS_def TCSETS_def TCSETSW_def TCSETSF_def TCGETA_def TCSETA_def TCSETAW_def TCSETAF_def TCSBRK_def
  TCXONC_def TCFLSH_def TIOCGPGRP_def TIOCSPGRP_def TIOCOUTQ_def TIOCSTI_def TIOCGWINSZ_def TIOCSWINSZ_def TIOCINQ_def
  TCSBRKP_def TIOCSBRK_def TIOCCBRK_def TIOCGSID_def

text \<open>What the caller's buffer holds before a request, and what the request writes to it.\<close>

record ioctl_arg =
  arg_termios :: termios
  arg_int :: int

datatype ioctl_out = No_Out | Out_Termios termios | Out_Winsize nat nat nat nat | Out_Int int

definition ioctl_isatty :: "nat \<Rightarrow> nat \<Rightarrow> 'w term_state \<Rightarrow> bool" where
  "ioctl_isatty tty_sb file = (\<lambda>(k, s).
     ttys s (nat (p_sid (cur_proc k))) \<noteq> None \<and> vi_sb (k_inodes k (pf_inode (process_fd_table k file))) = tty_sb)"

definition clear_input :: "TTY \<Rightarrow> TTY" where
  "clear_input t = t\<lparr>t_inbuf := (t_inbuf t)\<lparr>tb_start := 0, tb_end := 0\<rparr>\<rparr>"

definition session_tty :: "(TTY \<Rightarrow> TTY) \<Rightarrow> 'w term_state \<Rightarrow> 'w term_state" where
  "session_tty f = (\<lambda>(k, s). let n = nat (p_sid (cur_proc k)) in (k, s\<lparr>ttys := (ttys s)(n := map_option f (ttys s n))\<rparr>))"

definition ioctl_tcsets :: "termios \<Rightarrow> 'w term_state \<Rightarrow> 'w term_state" where
  "ioctl_tcsets d = session_tty (\<lambda>t. t\<lparr>t_termios := d\<rparr>)"

definition ioctl_tcsetsf :: "termios \<Rightarrow> 'w term_state \<Rightarrow> 'w term_state" where
  "ioctl_tcsetsf d = session_tty (\<lambda>t. (clear_input t)\<lparr>t_termios := d\<rparr>)"

definition ioctl_tcflush :: "int \<Rightarrow> 'w term_state \<Rightarrow> int \<times> 'w term_state" where
  "ioctl_tcflush arg ks =
     (if arg = 1 then (0, ks) else if arg = 0 \<or> arg = 2 then (0, session_tty clear_input ks) else (- EINVAL, ks))"

definition ioctl :: "nat \<Rightarrow> int \<Rightarrow> u32 \<Rightarrow> ioctl_arg \<Rightarrow> 'w term_state \<Rightarrow> int \<times> ioctl_out \<times> 'w term_state" where
  "ioctl tty_sb fd req arg ks =
     (let k = fst ks; proc = cur_proc k; t = ttys (snd ks) (nat (p_sid proc))
      in if fd < 0 \<or> fd \<ge> int PROCESS_FILE_LIMIT then (- EBADF, No_Out, ks)
         else case p_files proc (nat fd) of
           None \<Rightarrow> (- EBADF, No_Out, ks)
         | Some file \<Rightarrow>
             if req = TIOCSTI then (- ENOTSUP, No_Out, ks)
             else if req \<notin> {TCGETS, TCGETA, TCSETS, TCSETSW, TCSETA, TCSETAW, TCSETSF, TCSETAF, TIOCGWINSZ, TIOCSWINSZ, TCSBRK,
               TCSBRKP, TIOCSBRK, TIOCCBRK, TCXONC, TIOCINQ, TIOCOUTQ, TCFLSH, TIOCGPGRP, TIOCSPGRP, TIOCGSID} then (- EINVAL, No_Out, ks)
             else if \<not> ioctl_isatty tty_sb file ks then (- ENOTTY, No_Out, ks)
             else if req \<in> {TCGETS, TCGETA} then (0, Out_Termios (t_termios (the t)), ks)
             else if req \<in> {TCSETS, TCSETSW, TCSETA, TCSETAW} then (0, No_Out, ioctl_tcsets (arg_termios arg) ks)
             else if req \<in> {TCSETSF, TCSETAF} then (0, No_Out, ioctl_tcsetsf (arg_termios arg) ks)
             else if req = TIOCGWINSZ then (0, Out_Winsize VGA_SCREEN_HEIGHT VGA_SCREEN_WIDTH 9 16, ks)
             else if req = TIOCSWINSZ then (- ENOTSUP, No_Out, ks)
             else if req \<in> {TIOCINQ, TIOCOUTQ} then (0, Out_Int 0, ks)
             else if req = TCFLSH then (let (r, ks) = ioctl_tcflush (arg_int arg) ks in (r, No_Out, ks))
             else if req = TIOCGPGRP then (0, Out_Int (t_fg_pgid (the t)), ks)
             else if req = TIOCSPGRP then (0, No_Out, session_tty (\<lambda>t. t\<lparr>t_fg_pgid := arg_int arg\<rparr>) ks)
             else if req = TIOCGSID then (0, Out_Int (p_sid proc), ks)
             else (0, No_Out, ks))"

end
