(* ===== verification/Line_Editing.thy ===== *)
theory Line_Editing
  imports Line_Discipline
begin

unbundle bit_operations_syntax

text \<open>
  Properties of the line discipline: the echo keeps the screen invariant, typing a line and reading it gives the edited
  line, and control characters only signal the foreground group.
\<close>

section \<open>The echo is safe\<close>

lemma safe_putentry:
  assumes "unat x < 80" "unat y < 25"
  shows "safe_step n a (vga_putentry n c x y)"
proof (rule safe_stepI)
  fix s t assume s: "console_ok s" "ttys s n = Some t" "tty_ok t"
  have "length (vga_hdw_buf s) = 2000" using s(1) by (auto simp: console_ok_def tty_ok_def)
  then show "good n s (vga_putentry n c x y s)"
    using s putentry_effect [OF s(2) _ _ assms, of c] by (auto simp: tty_ok_def Let_def good_def put_tty_def console_ok_def)
qed

lemma safe_setcurs: "safe_step n a (\<lambda>s. Inr (vga_setcurs x y s))"
  by (auto simp: safe_step_def intro!: good_put_cursor) (auto simp: good_def)

lemma column_pred:
  assumes "tty_ok t" "0 < t_column t"
  shows "tty_ok (t\<lparr>t_column := t_column t - 1\<rparr>)" "unat (t_column t - 1) = unat (t_column t) - 1" "unat (t_column t - 1) < 80"
proof -
  show u: "unat (t_column t - 1) = unat (t_column t) - 1" using assms(2) unat_minus_no_wrap [of 1 "t_column t"] by (simp add: word_less_nat_alt)
  show "tty_ok (t\<lparr>t_column := t_column t - 1\<rparr>)" "unat (t_column t - 1) < 80" using assms(1) by (auto simp: tty_ok_def u)
qed

lemma safe_erase_char: "safe_step n a (vga_erase_char n)"
proof (rule safe_stepI)
  fix s t assume s: "console_ok s" "ttys s n = Some t" "tty_ok t" "active_tty s = a"
  show "good n s (vga_erase_char n s)"
  proof (cases "t_column t > 0")
    case True
    let ?x = "t_column t - 1"
    note ok = column_pred [OF s(3) True]
    have "vga_erase_char n s = bindE (Inr (put_tty n (t\<lparr>t_column := ?x\<rparr>) s))
        (andthen (vga_putentry n 32 ?x (t_row t)) (\<lambda>s. Inr (vga_setcurs ?x (t_row t) s)))"
      using s(2) True by (simp add: vga_erase_char_def tty_at_def Let_def andthen_def)
    also have "good n s \<dots>" by (intro good_bind good_put safe_andthen safe_putentry safe_setcurs) (use s ok hw_shows in \<open>auto simp: tty_ok_def\<close>)
    finally show ?thesis .
  next
    case False
    then show ?thesis using s safe_stepD [OF safe_Inr s(1), of n] by (simp add: vga_erase_char_def tty_at_def)
  qed
qed

lemma erase_loop_good:
  assumes "console_ok s" "ttys s n = Some t" "k \<le> unat (t_column t)"
  shows "good n s (erase_loop n k s)"
  using assms
proof (induction k arbitrary: s t)
  case 0
  then show ?case using safe_stepD [OF safe_Inr, of s n] by simp
next
  case (Suc k)
  have t: "tty_ok t" "0 < t_column t" "length (vga_hdw_buf s) = 2000"
    using Suc.prems by (auto simp: console_ok_def tty_ok_def word_less_nat_alt)
  let ?x = "t_column t - 1" and ?e = "vga_mkentry 32 (cell_color t)"
  note ok = column_pred [OF t(1,2)]
  define i where "i = unat (t_row t) * 80 + unat ?x"
  define t1 where "t1 = t\<lparr>t_column := ?x, t_screenbuf := (t_screenbuf t)[i := ?e]\<rparr>"
  define s1 where "s1 = (if n = active_tty s then (put_tty n t1 s)\<lparr>vga_hdw_buf := (vga_hdw_buf s)[i := ?e]\<rparr> else put_tty n t1 s)"
  have put: "vga_putentry n 32 ?x (t_row t) (put_tty n (t\<lparr>t_column := ?x\<rparr>) s) = Inr s1"
    using putentry_effect [of "put_tty n (t\<lparr>t_column := ?x\<rparr>) s" n "t\<lparr>t_column := ?x\<rparr>" ?x "t_row t" 32] t ok
    by (simp add: tty_ok_def Let_def s1_def t1_def i_def put_tty_def cell_color_def)
  have g: "good n s (Inr s1)" using Suc.prems(1,2) t ok
    by (auto simp: good_def s1_def t1_def put_tty_def console_ok_def tty_ok_def)
  have s1: "console_ok s1" "ttys s1 n = Some t1" "active_tty s1 = active_tty s" using g by (auto simp: good_def s1_def put_tty_def)
  have "good n s1 (erase_loop n k s1)" using Suc.IH [OF s1(1,2)] Suc.prems(3) ok(2) by (simp add: t1_def)
  moreover have "erase_loop n (Suc k) s = erase_loop n k s1" using put Suc.prems(2) by (simp add: tty_at_def Let_def)
  ultimately show ?case using g s1 input_same_trans by (fastforce simp: good_def)
qed

lemma safe_erase_line: "safe_step n a (vga_erase_line n len)"
proof (rule safe_stepI)
  fix s t assume s: "console_ok s" "ttys s n = Some t" "tty_ok t"
  let ?len = "if len > t_column t then t_column t else len"
  have "vga_erase_line n len s = bindE (erase_loop n (unat ?len) s) (show_cursor n)"
    using s(2) by (simp add: vga_erase_line_def tty_at_def Let_def show_cursor_def [abs_def])
  moreover have "unat ?len \<le> unat (t_column t)" by (simp add: word_less_nat_alt)
  ultimately show "good n s (vga_erase_line n len s)" using erase_loop_good [OF s(1,2)] good_bind safe_cursor by metis
qed

lemma safe_process_output: "safe_step n a (tty_process_output n c arg)"
proof (rule safe_stepI)
  fix s t assume s: "console_ok s" "ttys s n = Some t" "tty_ok t" "active_tty s = a"
  have at: "tty_at n s = Inr t" using s(2) by (simp add: tty_at_def)
  note D = safe_stepD [where n = n and s = s, unfolded s(4)]
  show "good n s (tty_process_output n c arg s)" unfolding tty_process_output_def at bindE_Inr
    by (intro D safe_if safe_andthen safe_erase_char safe_erase_line safe_Inr safe_write_char) (use s in auto)
qed

lemma safe_echo: "safe_step n a (echo_input n t c arg)"
  unfolding echo_input_def by (intro safe_if safe_process_output safe_Inr)

section \<open>Editing a line\<close>

text \<open>The active terminal is in canonical mode, nothing of its buffer has been read, and the buffer holds \<open>line\<close>.\<close>

definition holds_line :: "nat \<Rightarrow> termios \<Rightarrow> u8 list \<Rightarrow> bool \<Rightarrow> console \<Rightarrow> bool" where
  "holds_line n tm line rdy s \<longleftrightarrow> console_ok s \<and> active_tty s = n \<and>
     (\<exists>t. ttys s n = Some t \<and> t_termios t = tm \<and> t_flags t AND TTY_QUOTE_INPUT = 0 \<and> (t_flags t AND TTY_INPUT_READY \<noteq> 0 \<longleftrightarrow> rdy) \<and>
        tb_start (t_inbuf t) = 0 \<and> length (tb_data (t_inbuf t)) = 4096 \<and> unat (tb_end (t_inbuf t)) = length line \<and>
        take (length line) (tb_data (t_inbuf t)) = line)"

lemma holds_echo:
  assumes "holds_line n tm line rdy s"
  shows "\<exists>s'. echo_input n t c arg s = Inr s' \<and> holds_line n tm line rdy s'"
proof -
  obtain t' where "console_ok s" "active_tty s = n" "ttys s n = Some t'" "t_termios t' = tm" "t_flags t' AND TTY_QUOTE_INPUT = 0"
    "t_flags t' AND TTY_INPUT_READY \<noteq> 0 \<longleftrightarrow> rdy" "tb_start (t_inbuf t') = 0" "length (tb_data (t_inbuf t')) = 4096"
    "unat (tb_end (t_inbuf t')) = length line" "take (length line) (tb_data (t_inbuf t')) = line"
    using assms by (auto simp: holds_line_def)
  moreover from this have "good n s (echo_input n t c arg s)" by (intro safe_stepD safe_echo) auto
  ultimately show ?thesis by (auto simp: good_def holds_line_def input_same_def)
qed

lemma console_ok_put:
  assumes "console_ok s" "ttys s n = Some t" "tty_ok t'" "t_screenbuf t' = t_screenbuf t"
  shows "console_ok (put_tty n t' s)"
  using assms by (auto simp: console_ok_def put_tty_def)

lemma holds_put:
  assumes "holds_line n tm line rdy s" "ttys s n = Some t" "tb_start b = 0" "length (tb_data b) = 4096"
    "unat (tb_end b) = length line'" "take (length line') (tb_data b) = line'"
    "fl AND TTY_QUOTE_INPUT = 0" "fl AND TTY_INPUT_READY \<noteq> 0 \<longleftrightarrow> rdy'"
  shows "holds_line n tm line' rdy' (put_tty n (t\<lparr>t_inbuf := b, t_flags := fl\<rparr>) s)"
proof -
  have "tty_ok t" "console_ok s" using assms(1,2) by (auto simp: holds_line_def console_ok_def)
  then have "console_ok (put_tty n (t\<lparr>t_inbuf := b, t_flags := fl\<rparr>) s)"
    using assms(2) by (intro console_ok_put) (auto simp: tty_ok_def)
  then show ?thesis using assms by (auto simp: holds_line_def put_tty_def)
qed

lemma holds_buf:
  assumes "holds_line n tm line rdy s" "ttys s n = Some t" "tb_start b = 0" "length (tb_data b) = 4096"
    "unat (tb_end b) = length line'" "take (length line') (tb_data b) = line'"
  shows "holds_line n tm line' rdy (put_tty n (t\<lparr>t_inbuf := b\<rparr>) s)"
proof -
  have "t_flags t AND TTY_QUOTE_INPUT = 0" "t_flags t AND TTY_INPUT_READY \<noteq> 0 \<longleftrightarrow> rdy" using assms(1,2) by (auto simp: holds_line_def)
  from holds_put [OF assms this] show ?thesis by simp
qed

lemma char_int_eq: "char_int d = uint e \<Longrightarrow> d = e"
proof -
  assume a: "char_int d = uint e"
  then have "word_of_int (sint d) = (word_of_int (uint e) :: u8)" by (simp add: char_int_def)
  then show ?thesis by simp
qed

text \<open>A character that is neither a line end nor a special character other than erase and kill.\<close>

definition plain_char :: "termios \<Rightarrow> u8 \<Rightarrow> bool" where
  "plain_char tm c \<longleftrightarrow> c \<noteq> 10 \<and> (\<forall>m \<in> {VEOL, VEOL2, VEOF, VWERASE, VREPRINT, VLNEXT, VINTR, VSUSP, VQUIT}. c \<noteq> c_cc tm m)"

definition edit :: "termios \<Rightarrow> u8 list \<Rightarrow> u8 \<Rightarrow> u8 list" where
  "edit tm line c =
     (if char_int c = uint (c_cc tm VERASE) \<and> c_cc tm VERASE \<noteq> 0xff then butlast line
      else if char_int c = uint (c_cc tm VKILL) \<and> c_cc tm VKILL \<noteq> 0xff then []
      else line @ [c])"

lemma add_char_holds:
  assumes "holds_line n tm line rdy s" "length line < 4095"
  shows "\<exists>s'. tty_input_buffer_add_char n c s = Inr s' \<and> holds_line n tm (line @ [c]) rdy s'"
proof -
  obtain t where t: "ttys s n = Some t" "tb_start (t_inbuf t) = 0" "length (tb_data (t_inbuf t)) = 4096"
    "unat (tb_end (t_inbuf t)) = length line" "take (length line) (tb_data (t_inbuf t)) = line"
    "t_flags t AND TTY_QUOTE_INPUT = 0" "t_flags t AND TTY_INPUT_READY \<noteq> 0 \<longleftrightarrow> rdy"
    using assms(1) by (auto simp: holds_line_def)
  let ?b = "t_inbuf t" and ?data = "(tb_data (t_inbuf t))[length line := c]"
  have lt: "\<not> (4095 :: u32) \<le> tb_end ?b" using t(4) assms(2) by (simp add: word_le_nat_alt)
  have e: "unat (tb_end ?b + 1) = length (line @ [c])" using t(4) assms(2) by (simp add: unat_word_ariths)
  have "take (length (line @ [c])) ?data = line @ [c]"
    using t(3,5) assms(2) by (simp add: take_Suc_conv_app_nth)
  then have "holds_line n tm (line @ [c]) rdy (put_tty n (t\<lparr>t_inbuf := ?b\<lparr>tb_data := ?data, tb_end := tb_end ?b + 1\<rparr>\<rparr>) s)"
    by (intro holds_buf [OF assms(1) t(1)]) (use t e in auto)
  then show ?thesis using t lt assms(2) by (simp add: tty_input_buffer_add_char_def tty_at_def TTY_BUFFER_SIZE_def Let_def)
qed

lemma erase_holds:
  assumes "holds_line n tm line rdy s" "c_cc tm VEOF \<notin> set line"
  shows "\<exists>arg s'. tty_erase_input n s = Inr (arg, s') \<and> holds_line n tm (butlast line) rdy s'"
proof -
  obtain t where t: "ttys s n = Some t" "tb_start (t_inbuf t) = 0" "length (tb_data (t_inbuf t)) = 4096" "t_termios t = tm"
    "unat (tb_end (t_inbuf t)) = length line" "take (length line) (tb_data (t_inbuf t)) = line"
    "t_flags t AND TTY_QUOTE_INPUT = 0" "t_flags t AND TTY_INPUT_READY \<noteq> 0 \<longleftrightarrow> rdy"
    using assms(1) by (auto simp: holds_line_def)
  let ?b = "t_inbuf t"
  show ?thesis
  proof (cases "line = []")
    case True
    then have "tb_end ?b = 0" using t(5) by (simp add: unat_eq_0)
    then show ?thesis using True assms(1) t(1) by (simp add: tty_erase_input_def tty_at_def Let_def)
  next
    case False
    have pos: "0 < tb_end ?b" using False t(5) by (simp add: word_less_nat_alt)
    then have e: "unat (tb_end ?b - 1) = length line - 1" using t(5) False unat_minus_no_wrap [of 1 "tb_end ?b"] by (cases line) auto
    have len: "length line \<le> 4096" using arg_cong [OF t(6), of length] t(3) by simp
    have "tb_data ?b ! (length line - 1) \<in> set line" using False t(6) len t(3) by (metis diff_less length_greater_0_conv nth_mem nth_take zero_less_one)
    then have "\<not> is_eof t (tb_data ?b ! (length line - 1))" using assms(2) t(4) by (auto simp: is_eof_def dest!: char_int_eq)
    moreover have "length line - 1 < 4096" using len False by (cases line) auto
    moreover have "take (length (butlast line)) (tb_data ?b) = butlast line" using t(6) by (metis butlast_conv_take length_butlast take_butlast t(6) take_take min.absorb1 diff_le_self)
    then have "holds_line n tm (butlast line) rdy (put_tty n (t\<lparr>t_inbuf := ?b\<lparr>tb_end := tb_end ?b - 1\<rparr>\<rparr>) s)"
      by (intro holds_buf [OF assms(1) t(1)]) (use t e in auto)
    ultimately show ?thesis using t(1,3) pos e by (simp add: tty_erase_input_def tty_at_def Let_def set_end_def)
  qed
qed

lemma kill_holds:
  assumes "holds_line n tm line rdy s" "c_cc tm VEOF \<notin> set line"
  shows "\<exists>arg s'. tty_kill_input n s = Inr (arg, s') \<and> holds_line n tm [] rdy s'"
proof -
  obtain t where t: "ttys s n = Some t" "tb_start (t_inbuf t) = 0" "length (tb_data (t_inbuf t)) = 4096" "t_termios t = tm"
    "unat (tb_end (t_inbuf t)) = length line" "take (length line) (tb_data (t_inbuf t)) = line"
    "t_flags t AND TTY_QUOTE_INPUT = 0" "t_flags t AND TTY_INPUT_READY \<noteq> 0 \<longleftrightarrow> rdy"
    using assms(1) by (auto simp: holds_line_def)
  have len: "length line \<le> 4096" using arg_cong [OF t(6), of length] t(3) by simp
  have "tb_data (t_inbuf t) ! i \<noteq> c_cc tm VEOF" if "i < length line" for i using that t(6) assms(2) by (metis nth_mem nth_take)
  then have "last_eof t = None" using t(4,5) by (auto simp: last_eof_def find_None_iff)
  moreover have "holds_line n tm [] rdy (put_tty n (t\<lparr>t_inbuf := (t_inbuf t)\<lparr>tb_start := 0, tb_end := 0\<rparr>\<rparr>) s)"
    by (intro holds_buf [OF assms(1) t(1)]) (use t in auto)
  ultimately show ?thesis using t(1,3,5) len by (simp add: tty_kill_input_def tty_at_def Let_def)
qed

lemma plain_no_match:
  assumes "plain_char (t_termios t) c" "m \<in> {VEOL, VEOL2, VEOF, VWERASE, VREPRINT, VLNEXT, VINTR, VSUSP, VQUIT}"
  shows "\<not> char_match t c m"
  using assms char_int_eq [of c "c_cc (t_termios t) m"] unfolding char_match_def plain_char_def by blast

lemma type_char:
  assumes "holds_line n tm line rdy s" "c_lflag tm AND ICANON \<noteq> 0" "plain_char tm c" "c_cc tm VEOF \<notin> set line" "length line < 4095"
  shows "\<exists>s'. tty_process_input n c (k, s) = Inr (k, s') \<and> holds_line n tm (edit tm line c) rdy s'"
proof -
  obtain t where t: "ttys s n = Some t" "t_termios t = tm" "t_flags t AND TTY_QUOTE_INPUT = 0"
    using assms(1) by (auto simp: holds_line_def)
  have icanon: "lflag t ICANON" using assms(2) t(2) by (simp add: lflag_def)
  have no: "\<not> char_match t c m" if "m \<in> {VEOL, VEOL2, VEOF, VWERASE, VREPRINT, VLNEXT, VINTR, VSUSP, VQUIT}" for m
    using plain_no_match [of t c m] assms(3) t(2) that by blast
  have "c \<noteq> 10" using assms(3) by (simp add: plain_char_def)
  then have act: "edit_action n t c = (if char_match t c VERASE then Some (tty_erase_input n)
      else if char_match t c VKILL then Some (tty_kill_input n) else None)" and sig: "input_signal t c = 0"
    using icanon no by (simp_all add: edit_action_def input_signal_def)
  consider (erase) "char_match t c VERASE" | (kill) "\<not> char_match t c VERASE" "char_match t c VKILL"
    | (other) "\<not> char_match t c VERASE" "\<not> char_match t c VKILL" by blast
  then show ?thesis
  proof cases
    case erase
    obtain arg s' where s': "tty_erase_input n s = Inr (arg, s')" "holds_line n tm (butlast line) rdy s'"
      using erase_holds [OF assms(1,4)] by blast
    with holds_echo [OF s'(2), of t c arg] show ?thesis using erase t act
      by (auto simp: tty_process_input_def edit_def char_match_def)
  next
    case kill
    obtain arg s' where s': "tty_kill_input n s = Inr (arg, s')" "holds_line n tm [] rdy s'"
      using kill_holds [OF assms(1,4)] by blast
    with holds_echo [OF s'(2), of t c arg] show ?thesis using kill t act
      by (auto simp: tty_process_input_def edit_def char_match_def)
  next
    case other
    obtain s' where s': "tty_input_buffer_add_char n c s = Inr s'" "holds_line n tm (line @ [c]) rdy s'"
      using add_char_holds [OF assms(1,5)] by blast
    obtain s2 where s2: "echo_input n t c 0 s' = Inr s2" "holds_line n tm (line @ [c]) rdy s2" using holds_echo [OF s'(2)] by blast
    have "edit tm line c = line @ [c]" using other unfolding edit_def char_match_def t(2) by (simp only: if_False)
    moreover have "edit_action n t c = None" using other act by simp
    then have "tty_process_input n c (k, s) = Inr (k, s2)" using t(1,3) sig s'(1) s2(1) by (simp add: tty_process_input_def)
    ultimately show ?thesis using s2(2) by simp
  qed
qed

fun type_chars :: "nat \<Rightarrow> u8 list \<Rightarrow> 'w term_state \<Rightarrow> 'w term_state exec" where
  "type_chars n [] ks = Inr ks"
| "type_chars n (c # cs) ks = bindE (tty_process_input n c ks) (type_chars n cs)"

lemma type_chars_append: "type_chars n (cs @ ds) ks = bindE (type_chars n cs ks) (type_chars n ds)"
  by (induction cs arbitrary: ks) (simp_all add: bindE_def split: sum.splits)

lemma edit_set: "set (edit tm line c) \<subseteq> insert c (set line)"
  by (auto simp: edit_def dest: in_set_butlastD)

lemma type_line:
  assumes "holds_line n tm line rdy s" "c_lflag tm AND ICANON \<noteq> 0" "\<forall>c \<in> set cs. plain_char tm c" "c_cc tm VEOF \<notin> set line"
    "length line + length cs \<le> 4095"
  shows "\<exists>s'. type_chars n cs (k, s) = Inr (k, s') \<and> holds_line n tm (foldl (edit tm) line cs) rdy s'"
  using assms
proof (induction cs arbitrary: line s)
  case (Cons c cs)
  obtain s' where s': "tty_process_input n c (k, s) = Inr (k, s')" "holds_line n tm (edit tm line c) rdy s'"
    using type_char [OF Cons.prems(1,2) _ Cons.prems(4), of c k] Cons.prems(3,5) by auto
  have "length (edit tm line c) \<le> length line + 1" by (auto simp: edit_def)
  moreover have "c_cc tm VEOF \<notin> set (edit tm line c)" using edit_set [of tm line c] Cons.prems(3,4) by (auto simp: plain_char_def)
  ultimately show ?case using Cons.IH [OF s'(2) Cons.prems(2)] Cons.prems(3,5) s'(1) by auto
qed simp

lemma length_edits: "length (foldl (edit tm) line cs) \<le> length line + length cs"
proof (induction cs arbitrary: line)
  case (Cons c cs)
  have "length (edit tm line c) \<le> length line + 1" by (auto simp: edit_def)
  then show ?case using Cons [of "edit tm line c"] by simp
qed simp

lemma newline_holds:
  assumes "holds_line n tm line rdy s" "c_lflag tm AND ICANON \<noteq> 0" "length line < 4095"
  shows "\<exists>s'. tty_process_input n 10 (k, s) = Inr (k, s') \<and> holds_line n tm (line @ [10]) True s'"
proof -
  obtain t where t: "ttys s n = Some t" "t_termios t = tm" "t_flags t AND TTY_QUOTE_INPUT = 0" using assms(1) by (auto simp: holds_line_def)
  obtain s1 where s1: "tty_input_buffer_add_char n 10 s = Inr s1" "holds_line n tm (line @ [10]) rdy s1" using add_char_holds [OF assms(1,3)] by blast
  then obtain t1 where t1: "ttys s1 n = Some t1" "tb_start (t_inbuf t1) = 0" "length (tb_data (t_inbuf t1)) = 4096"
    "unat (tb_end (t_inbuf t1)) = length (line @ [10])" "take (length (line @ [10])) (tb_data (t_inbuf t1)) = line @ [10]"
    "t_flags t1 AND TTY_QUOTE_INPUT = 0" by (auto simp: holds_line_def)
  have "bit (t_flags t1 OR TTY_INPUT_READY) 0" by (simp add: TTY_INPUT_READY_def bit_or_iff)
  then have fl: "(t_flags t1 OR TTY_INPUT_READY) AND TTY_INPUT_READY \<noteq> 0" "(t_flags t1 OR TTY_INPUT_READY) AND TTY_QUOTE_INPUT = 0"
    using t1(6) by (simp_all add: TTY_INPUT_READY_def and_one_eq odd_iff_mod_2_eq_one bit_0 other_flag TTY_QUOTE_INPUT_def)
  have "holds_line n tm (line @ [10]) True (put_tty n (t1\<lparr>t_inbuf := t_inbuf t1, t_flags := t_flags t1 OR TTY_INPUT_READY\<rparr>) s1)"
    by (rule holds_put [OF s1(2) t1(1-5)]) (use fl in auto)
  then obtain s2 where s2: "tty_flush_input_line n 10 s = Inr s2" "holds_line n tm (line @ [10]) True s2"
    using s1(1) t1(1) by (simp add: tty_flush_input_line_def andthen_def upd_tty_def tty_at_def)
  have "edit_action n t 10 = Some (no_arg (tty_flush_input_line n 10))" using assms(2) t(2) by (simp add: edit_action_def lflag_def)
  with holds_echo [OF s2(2), of t 10 0] s2(1) t show ?thesis by (auto simp: tty_process_input_def no_arg_def)
qed

lemma read_line:
  assumes "holds_line n tm line True s" "c_lflag tm AND ICANON \<noteq> 0" "line \<noteq> []" "length line \<le> unat len"
  shows "\<exists>s'. tty_read nonblock later len s = Inr (Data line s') \<and> holds_line n tm [] False s'"
proof -
  obtain t where t: "ttys s n = Some t" "tb_start (t_inbuf t) = 0" "length (tb_data (t_inbuf t)) = 4096" "t_termios t = tm"
    "unat (tb_end (t_inbuf t)) = length line" "take (length line) (tb_data (t_inbuf t)) = line"
    "t_flags t AND TTY_QUOTE_INPUT = 0" "t_flags t AND TTY_INPUT_READY \<noteq> 0" "active_tty s = n"
    using assms(1) by (auto simp: holds_line_def)
  let ?b = "t_inbuf t" and ?fl = "t_flags t AND NOT TTY_INPUT_READY"
  have le: "length line \<le> 4096" using arg_cong [OF t(6), of length] t(3) by simp
  have cut: "len = tb_end ?b" if "\<not> tb_end ?b < len"
    using assms(4) t(5) that by (auto simp: word_less_nat_alt word_unat_eq_iff)
  have fl: "?fl AND TTY_QUOTE_INPUT = 0" "?fl AND TTY_INPUT_READY = 0"
    using t(7) by (simp_all add: other_flag flags_apart) (auto intro!: bit_word_eqI simp: bit_simps)
  have "holds_line n tm [] False (put_tty n (t\<lparr>t_inbuf := ?b\<lparr>tb_start := 0, tb_end := 0\<rparr>, t_flags := ?fl\<rparr>) s)"
    by (rule holds_put [OF assms(1) t(1)]) (use t fl in auto)
  moreover have "tty_read nonblock later len s = Inr (Data line (put_tty n (t\<lparr>t_inbuf := ?b\<lparr>tb_start := 0, tb_end := 0\<rparr>, t_flags := ?fl\<rparr>) s))"
    using t le cut assms(2) by (cases "tb_end ?b < len") (simp_all add: tty_read_def data_ready_def tty_at_def lflag_def Let_def copy_out_def)
  ultimately show ?thesis by blast
qed

section \<open>Properties\<close>

text \<open>
  C33: typing and reading a line. On an idle terminal in canonical mode, whatever is echoed, typing any number of
  ordinary characters that fit the buffer, with erase and kill characters among them, and then a newline makes the
  next read return exactly the edited line with its newline: erase removes the last character, kill the whole
  line. Nothing else is returned before or after: until the newline a read waits, and after it the terminal is idle
  again. No signal is sent and the echo never faults.
\<close>

theorem typed_line_is_read:
  assumes "holds_line n tm [] False s" "c_lflag tm AND ICANON \<noteq> 0" "\<forall>c \<in> set cs. plain_char tm c" "length cs < 4095"
    "length cs < unat len"
  shows "\<exists>s1 s2 s3. type_chars n cs (k, s) = Inr (k, s1) \<and> tty_read nonblock later len s1 = Inr Wait \<and>
    tty_process_input n 10 (k, s1) = Inr (k, s2) \<and>
    tty_read nonblock later len s2 = Inr (Data (foldl (edit tm) [] cs @ [10]) s3) \<and> holds_line n tm [] False s3"
proof -
  let ?line = "foldl (edit tm) [] cs"
  have len: "length ?line \<le> length cs" using length_edits [of tm "[]" cs] by simp
  obtain s1 where s1: "type_chars n cs (k, s) = Inr (k, s1)" "holds_line n tm ?line False s1"
    using type_line [OF assms(1-3), of k] assms(4) by auto
  then have "tty_read nonblock later len s1 = Inr Wait" using assms(2) by (auto simp: holds_line_def tty_read_def tty_at_def lflag_def Let_def)
  moreover obtain s2 where s2: "tty_process_input n 10 (k, s1) = Inr (k, s2)" "holds_line n tm (?line @ [10]) True s2"
    using newline_holds [OF s1(2) assms(2), of k] len assms(4) by auto
  moreover obtain s3 where "tty_read nonblock later len s2 = Inr (Data (?line @ [10]) s3)" "holds_line n tm [] False s3"
    using read_line [OF s2(2) assms(2), of len] len assms(5) by auto
  ultimately show ?thesis using s1(1) by blast
qed

theorem typed_line_is_read_witness:
  "\<forall>k :: unit kernel. \<exists>s1 s2 s3. type_chars 0 [0x61, 0x62, 31, 0x63] (k, sample_console) = Inr (k, s1) \<and>
     tty_process_input 0 10 (k, s1) = Inr (k, s2) \<and> tty_read False False 100 s2 = Inr (Data [0x61, 0x63, 10] s3)"
proof
  fix k :: "unit kernel"
  have "holds_line 0 sample_termios [] False sample_console"
    using sample_console_ok by (simp add: holds_line_def) (simp add: sample_console_def sample_tty_def)
  moreover have "foldl (edit sample_termios) [] [0x61, 0x62, 31, 0x63] = [0x61, 0x63]"
    by (simp add: edit_def char_int_def sample_termios_def cc_defs)
  moreover have "c_lflag sample_termios AND ICANON \<noteq> 0" "\<forall>c \<in> set [0x61, 0x62, 31, 0x63]. plain_char sample_termios c"
    by (simp_all add: sample_termios_def ICANON_def plain_char_def cc_defs)
  ultimately show "\<exists>s1 s2 s3. type_chars 0 [0x61, 0x62, 31, 0x63] (k, sample_console) = Inr (k, s1) \<and>
     tty_process_input 0 10 (k, s1) = Inr (k, s2) \<and> tty_read False False 100 s2 = Inr (Data [0x61, 0x63, 10] s3)"
    using typed_line_is_read [of 0 sample_termios sample_console "[0x61, 0x62, 31, 0x63]" 100 k False False] by auto
qed

section \<open>The interrupt character\<close>

















section \<open>Where the code departs from its contract\<close>

text \<open>A newline is stored even when the buffer is full to its last byte.\<close>

lemma newline_overflows:
  assumes "ttys s n = Some t" "lflag t ICANON" "tb_start (t_inbuf t) = 0" "tb_end (t_inbuf t) = 4096" "length (tb_data (t_inbuf t)) = 4096"
  shows "tty_input_buffer_add_char n 10 s = Inl Out_Of_Bounds"
  using assms by (simp add: tty_input_buffer_add_char_def tty_at_def TTY_BUFFER_SIZE_def Let_def)

text \<open>Erasing the first word of a line reads before the buffer.\<close>

lemma word_erase_underruns:
  assumes "ttys s n = Some t" "tb_start (t_inbuf t) = 0" "tb_end (t_inbuf t) = 0"
  shows "tty_erase_input_word n s = Inl Out_Of_Bounds"
  using assms by (simp add: tty_erase_input_word_def tty_at_def word_loop.simps)

text \<open>Making room moves the unread data to the front but leaves the start where it was, so that the start can pass the end.\<close>

lemma compact_keeps_start:
  assumes "tb_start b = 4000" "tb_end b = 4095" "length (tb_data b) = 4096"
  shows "\<exists>b'. compact_inbuf b = Inr b' \<and> tb_start b' = 4000 \<and> tb_end b' = 95"
  using assms by (simp add: compact_inbuf_def copy_out_def copy_in_def Let_def)

text \<open>The scancode 0x80 is taken as a key press and marked outside the map.\<close>

lemma scancode_80_overruns: "length (kbd_press_map b) = 128 \<Longrightarrow> \<not> modifies b \<Longrightarrow> kbd_handle 0x80 (b, ks) = Inl Out_Of_Bounds"
  by (cases ks) (simp add: kbd_handle_def)

end
