(* ===== verification/Ext2_Extent.thy ===== *)
theory Ext2_Extent
  imports Ext2_Iterate
begin

unbundle bit_operations_syntax

text \<open>
  Extent trees (\<^verbatim>\<open>fs/ext2/extent.c\<close>, with the checksums of extent blocks, \<^verbatim>\<open>ext2_cluster_alloc\<close> and \<^verbatim>\<open>ext2_map_cluster_block\<close> of
  \<^verbatim>\<open>fs/ext2/util.c\<close>). A node is a buffer with a header of 12 bytes and entries of 12 bytes; the root is in the 60 bytes of \<^verbatim>\<open>i_block\<close>. A
  handle has one path entry per level, with the buffer of the node and the place in it.

  The functions work on the mounted filesystem, the inode the handle points to, and the handle. A pointer into a node is an
  offset into its buffer. The array of path entries comes from \<^verbatim>\<open>kmalloc\<close> and is only initialised for the root, so the
  buffer pointers below are what the memory held: NULL, or a wild pointer whose use is a fault. What \<^verbatim>\<open>kmalloc\<close> returns
  is in \<open>xenv\<close>. Freeing memory is not part of the state.
\<close>

section \<open>Handles\<close>

definition EXT3_EXTENT_MAGIC :: u16 where "EXT3_EXTENT_MAGIC = 0xf30a"
definition EXT2_INIT_MAX_LEN :: u32 where "EXT2_INIT_MAX_LEN = 0x8000"
definition EXT2_UNINIT_MAX_LEN :: u32 where "EXT2_UNINIT_MAX_LEN = EXT2_INIT_MAX_LEN - 1"
definition EXT2_MAX_EXTENT_LBLK :: u64 where "EXT2_MAX_EXTENT_LBLK = 2 ^ 32 - 1"
definition EXT2_MAX_EXTENT_PBLK :: u64 where "EXT2_MAX_EXTENT_PBLK = 2 ^ 48 - 1"
definition EXT2_EXTENT_INSERT_AFTER :: u32 where "EXT2_EXTENT_INSERT_AFTER = 1"
definition EXT2_EXTENT_INSERT_NOSPLIT :: u32 where "EXT2_EXTENT_INSERT_NOSPLIT = 2"
definition EXT2_EXTENT_DELETE_KEEP_EMPTY :: u32 where "EXT2_EXTENT_DELETE_KEEP_EMPTY = 1"
definition EXT2_EXTENT_SET_BMAP_UNINIT :: u32 where "EXT2_EXTENT_SET_BMAP_UNINIT = 1"
definition EXT4_FT_RO_COMPAT_BIGALLOC :: u32 where "EXT4_FT_RO_COMPAT_BIGALLOC = 0x200"
definition BMAP_UNINIT :: u32 where "BMAP_UNINIT = 4"

datatype pbuf = P_Null | P_Inode | P_Block "u8 list" | P_Wild

record Ext3GenericExtentPath =
  p_buffer :: pbuf
  p_entries :: int
  p_max_entries :: int
  p_left :: int
  p_visit_num :: int
  p_end_block :: u64
  p_curr :: "nat option"

record Ext3ExtentHandle =
  eh_ino :: u64
  eh_type :: u16
  eh_level :: nat
  eh_max_depth :: nat
  eh_max_paths :: nat
  eh_path :: "Ext3GenericExtentPath list option"

record ext_st =
  x_mnt :: mnt
  x_inode :: Ext2Inode
  x_h :: Ext3ExtentHandle

record xenv =
  xe_env :: env
  xe_handle_oom :: bool
  xe_paths :: "(nat \<Rightarrow> Ext3GenericExtentPath) option"
  xe_buffer :: "u8 list option"
  xe_split_oom :: bool
  xe_junk :: Ext3GenericExtent

abbreviation level :: "ext_st \<Rightarrow> nat" where "level st \<equiv> eh_level (x_h st)"
abbreviation max_depth :: "ext_st \<Rightarrow> nat" where "max_depth st \<equiv> eh_max_depth (x_h st)"

definition set_level :: "nat \<Rightarrow> ext_st \<Rightarrow> ext_st" where
  "set_level l st = st\<lparr>x_h := (x_h st)\<lparr>eh_level := l\<rparr>\<rparr>"

definition node_path :: "ext_st \<Rightarrow> nat \<Rightarrow> Ext3GenericExtentPath exec" where
  "node_path st l = (case eh_path (x_h st) of
       Some ps \<Rightarrow> if l < length ps then Inr (ps ! l) else Inl Out_Of_Bounds
     | None \<Rightarrow> Inl Out_Of_Bounds)"

definition set_path :: "nat \<Rightarrow> Ext3GenericExtentPath \<Rightarrow> ext_st \<Rightarrow> ext_st" where
  "set_path l p st = st\<lparr>x_h := (x_h st)\<lparr>eh_path := map_option (\<lambda>ps. ps[l := p]) (eh_path (x_h st))\<rparr>\<rparr>"

definition map_bytes :: "u32 list \<Rightarrow> u8 list" where "map_bytes ws = concat (map le32 ws)"
definition map_words :: "u8 list \<Rightarrow> u32 list" where "map_words b = map (\<lambda>k. un32 (drop (4 * k) b)) [0..<15]"

definition node_buf :: "ext_st \<Rightarrow> nat \<Rightarrow> u8 list exec" where
  "node_buf st l = bindE (node_path st l) (\<lambda>p. case p_buffer p of
       P_Inode \<Rightarrow> Inr (map_bytes (i_block (x_inode st)))
     | P_Block b \<Rightarrow> Inr b
     | _ \<Rightarrow> Inl Out_Of_Bounds)"

definition put_buf :: "nat \<Rightarrow> u8 list \<Rightarrow> ext_st \<Rightarrow> ext_st exec" where
  "put_buf l b st = bindE (node_path st l) (\<lambda>p. case p_buffer p of
       P_Inode \<Rightarrow> Inr (st\<lparr>x_inode := (x_inode st)\<lparr>i_block := map_words b\<rparr>\<rparr>)
     | P_Block _ \<Rightarrow> Inr (set_path l (p\<lparr>p_buffer := P_Block b\<rparr>) st)
     | _ \<Rightarrow> Inl Out_Of_Bounds)"

definition index_leaf :: "u8 list \<Rightarrow> nat \<Rightarrow> u64 exec" where
  "index_leaf b k = bindE (rd32 b (k + 4)) (\<lambda>lo. bindE (rd16 b (k + 8)) (\<lambda>hi. Inr (ucast lo + push_bit 32 (ucast hi))))"

definition extent_start :: "u8 list \<Rightarrow> nat \<Rightarrow> u64 exec" where
  "extent_start b k = bindE (rd32 b (k + 8)) (\<lambda>lo. bindE (rd16 b (k + 6)) (\<lambda>hi. Inr (ucast lo + push_bit 32 (ucast hi))))"

section \<open>Results with an error number\<close>

definition andthen :: "(int \<times> ext_st) exec \<Rightarrow> (ext_st \<Rightarrow> (int \<times> ext_st) exec) \<Rightarrow> (int \<times> ext_st) exec" where
  "andthen r k = bindE r (\<lambda>(ret, st). if ret \<noteq> 0 then Inr (ret, st) else k st)"

definition got :: "((int + 'a) \<times> ext_st) exec \<Rightarrow> ('a \<Rightarrow> ext_st \<Rightarrow> (int \<times> ext_st) exec) \<Rightarrow> (int \<times> ext_st) exec" where
  "got r k = bindE r (\<lambda>(x, st). case x of Inl err \<Rightarrow> Inr (err, st) | Inr v \<Rightarrow> k v st)"

section \<open>Checksums of extent blocks\<close>

definition ext3_extent_block_checksum :: "env \<Rightarrow> mnt \<Rightarrow> u64 \<Rightarrow> u8 list \<Rightarrow> ((int + u32) \<times> mnt) exec" where
  "ext3_extent_block_checksum e m ino b =
     bindE (rd16 b 4) (\<lambda>mx.
     bindE (ext2_read_inode (e_alloc e) m ino) (\<lambda>(x, m). case x of
         Inl err \<Rightarrow> Inr (Inl err, m)
       | Inr bytes \<Rightarrow>
           bindE (crc32 (f_checksum_seed (m_fs m)) (le64 ino)) (\<lambda>crc.
           bindE (crc32 crc (le32 (i_generation (inode_of bytes)))) (\<lambda>crc.
           bindE (copy_out b 0 (12 + 12 * unat mx)) (\<lambda>data.
           bindE (crc32 crc data) (\<lambda>crc. Inr (Inr crc, m)))))))"

definition ext3_extent_block_checksum_valid :: "env \<Rightarrow> mnt \<Rightarrow> u64 \<Rightarrow> u8 list \<Rightarrow> (bool \<times> mnt) exec" where
  "ext3_extent_block_checksum_valid e m ino b =
     (if \<not> has_ro_compat (f_super (m_fs m)) EXT4_FT_RO_COMPAT_METADATA_CSUM then Inr (True, m)
      else bindE (rd16 b 4) (\<lambda>mx. bindE (rd32 b (12 + 12 * unat mx)) (\<lambda>provided.
        bindE (ext3_extent_block_checksum e m ino b) (\<lambda>(x, m). Inr (case x of Inl _ \<Rightarrow> False | Inr crc \<Rightarrow> provided = crc, m)))))"

text \<open>Without metadata checksums the result is 1, which the callers take for an error.\<close>

definition ext3_extent_block_checksum_update :: "env \<Rightarrow> mnt \<Rightarrow> u64 \<Rightarrow> u8 list \<Rightarrow> (int \<times> u8 list \<times> mnt) exec" where
  "ext3_extent_block_checksum_update e m ino b =
     (if \<not> has_ro_compat (f_super (m_fs m)) EXT4_FT_RO_COMPAT_METADATA_CSUM then Inr (1, b, m)
      else bindE (rd16 b 4) (\<lambda>mx. bindE (ext3_extent_block_checksum e m ino b) (\<lambda>(x, m). case x of
          Inl err \<Rightarrow> Inr (err, b, m)
        | Inr crc \<Rightarrow> bindE (wr32 b (12 + 12 * unat mx) crc) (\<lambda>b. Inr (0, b, m)))))"

section \<open>Opening a tree\<close>

definition ext3_extent_header_valid :: "u8 list \<Rightarrow> nat \<Rightarrow> int exec" where
  "ext3_extent_header_valid b sz =
     bindE (rd16 b 0) (\<lambda>magic. bindE (rd16 b 2) (\<lambda>entries. bindE (rd16 b 4) (\<lambda>mx.
       let hmax = int ((sz - 12) div 12)
       in Inr (if magic \<noteq> EXT3_EXTENT_MAGIC \<or> entries > mx \<or> uint mx > hmax \<or> uint mx < hmax - 2 then - EINVAL else 0))))"

definition ext3_extent_goto :: "nat \<Rightarrow> u64 \<Rightarrow> ext_st \<Rightarrow> (int \<times> ext_st) exec" where
  "ext3_extent_goto leaflvl block st = Inr (- ENOTSUP, st)"

text \<open>An inode without any block gets the header of an empty tree.\<close>

definition init_root :: "Ext2Inode \<Rightarrow> Ext2Inode" where
  "init_root i =
     (if \<forall>w \<in> set (i_block i). w = 0
      then i\<lparr>i_block := (i_block i)[0 := ucast EXT3_EXTENT_MAGIC, Suc 0 := 4], i_flags := i_flags i OR EXT4_EXTENTS_FL\<rparr> else i)"

definition ext3_extent_open :: "xenv \<Rightarrow> mnt \<Rightarrow> u64 \<Rightarrow> Ext2Inode option \<Rightarrow> ((int + Ext3ExtentHandle) \<times> Ext2Inode option \<times> mnt) exec" where
  "ext3_extent_open x m ino inode =
     (if inode = None \<and> (ino = 0 \<or> ino > ucast (s_inodes_count (f_super (m_fs m)))) then Inr (Inl (- EINVAL), inode, m)
      else if xe_handle_oom x then Inr (Inl (- ENOMEM), inode, m)
      else bindE (case inode of Some i \<Rightarrow> Inr (Inr i, m)
          | None \<Rightarrow> bindE (ext2_read_inode (e_alloc (xe_env x)) m ino) (\<lambda>(y, m). Inr (map_sum (\<lambda>e. e) inode_of y, m))) (\<lambda>(y, m). case y of
          Inl err \<Rightarrow> Inr (Inl err, inode, m)
        | Inr i \<Rightarrow>
            let i = init_root i; b = map_bytes (i_block i)
            in if \<not> has_flag i EXT4_EXTENTS_FL then Inr (Inl (- EINVAL), Some i, m)
               else bindE (ext3_extent_header_valid b 60) (\<lambda>r.
                 if r \<noteq> 0 then Inr (Inl r, Some i, m)
                 else bindE (rd16 b 0) (\<lambda>magic. bindE (rd16 b 2) (\<lambda>entries. bindE (rd16 b 4) (\<lambda>mx. bindE (rd16 b 6) (\<lambda>depth.
                   case xe_paths x of
                     None \<Rightarrow> Inr (Inl (- ENOMEM), Some i, m)
                   | Some junk \<Rightarrow>
                       let root = (junk 0)\<lparr>p_buffer := P_Inode, p_entries := uint entries, p_max_entries := uint mx, p_left := uint entries, p_visit_num := 1,
                             p_end_block := drop_bit (unat (s_log_block_size (f_super (m_fs m))) + 10) (EXT2_I_SIZE i + of_nat (blksize m) - 1), p_curr := None\<rparr>
                       in Inr (Inr \<lparr>eh_ino = ino, eh_type = magic, eh_level = 0, eh_max_depth = unat depth, eh_max_paths = unat depth + 1,
                            eh_path = Some (map (junk(0 := root)) [0..<unat depth + 1])\<rparr>, Some i, m))))))))"

section \<open>Moving in a tree\<close>

text \<open>What a move over the whole tree does next, from the path entry of the current level.\<close>

definition choose_op :: "ext_st \<Rightarrow> extent_op \<Rightarrow> Ext3GenericExtentPath \<Rightarrow> int + extent_op \<times> Ext3GenericExtentPath" where
  "choose_op st op p =
     (let up = (if level st > 0 then Inr (Extent_Up, p) else Inl (- ESRCH))
      in if op = Extent_Next \<or> op = Extent_Next_Leaf
         then if level st < max_depth st \<and> p_visit_num p = 0 then Inr (Extent_Down, p\<lparr>p_visit_num := p_visit_num p + 1\<rparr>)
              else if p_left p > 0 then Inr (Extent_Next_Sib, p) else up
         else if op = Extent_Prev \<or> op = Extent_Prev_Leaf
         then if level st < max_depth st \<and> p_visit_num p > 0 then Inr (Extent_Down_Last, p)
              else if p_left p < p_entries p - 1 then Inr (Extent_Prev_Sib, p) else up
         else if op = Extent_Last_Leaf
         then Inr (if level st < max_depth st \<and> p_left p = 0 then Extent_Down else Extent_Last_Sib, p)
         else Inr (op, p))"

text \<open>The outcome of a move: an error or the pointer to the entry, whether a checksum failed, and the state.\<close>

type_synonym move_out = "(int + nat option) \<times> bool \<times> ext_st"

definition next_sib :: "Ext3GenericExtentPath \<Rightarrow> ext_st \<Rightarrow> move_out" where
  "next_sib p st =
     (let st = set_path (level st) p st
      in if p_left p \<le> 0 then (Inl (- ESRCH), False, st)
         else let k = (case p_curr p of Some k \<Rightarrow> k + 12 | None \<Rightarrow> 12)
           in (Inr (Some k), False, set_path (level st) (p\<lparr>p_left := p_left p - 1, p_curr := Some k, p_visit_num := 0\<rparr>) st))"

definition first_sib :: "Ext3GenericExtentPath \<Rightarrow> ext_st \<Rightarrow> move_out" where
  "first_sib p = next_sib (p\<lparr>p_left := p_entries p, p_curr := None\<rparr>)"

definition move_up :: "extent_op \<Rightarrow> ext_st \<Rightarrow> move_out exec" where
  "move_up op st =
     (if level st = 0 then Inr (Inl (- EINVAL), False, st)
      else let st = set_level (level st - 1) st
        in bindE (node_path st (level st)) (\<lambda>p.
          Inr (Inr (p_curr p), False, if op = Extent_Prev \<or> op = Extent_Prev_Leaf then set_path (level st) (p\<lparr>p_visit_num := 0\<rparr>) st else st)))"

text \<open>The buffer for the node below: memory is allocated when the pointer is NULL.\<close>

definition child_path :: "xenv \<Rightarrow> Ext3GenericExtentPath \<Rightarrow> (int + Ext3GenericExtentPath) exec" where
  "child_path x np = (case p_buffer np of
       P_Null \<Rightarrow> Inr (case xe_buffer x of None \<Rightarrow> Inl (- ENOMEM) | Some b \<Rightarrow> Inr (np\<lparr>p_buffer := P_Block b\<rparr>))
     | P_Block _ \<Rightarrow> Inr (Inr np)
     | _ \<Rightarrow> Inl Out_Of_Bounds)"

definition move_down :: "xenv \<Rightarrow> bool \<Rightarrow> Ext3GenericExtentPath \<Rightarrow> ext_st \<Rightarrow> move_out exec" where
  "move_down x last_entry p st =
     (case p_curr p of
        None \<Rightarrow> Inr (Inl (- EINVAL), False, st)
      | Some k \<Rightarrow>
          if level st \<ge> max_depth st then Inr (Inl (- EINVAL), False, st)
          else bindE (node_path st (level st + 1)) (\<lambda>np. bindE (child_path x np) (\<lambda>c. case c of
              Inl err \<Rightarrow> Inr (Inl err, False, st)
            | Inr np \<Rightarrow>
                let l = level st; st = set_path (l + 1) np st
                in bindE (node_buf st l) (\<lambda>b. bindE (index_leaf b k) (\<lambda>block.
                  case ext2_read_blocks (x_mnt st) (ucast block) 1 of
                    Inl err \<Rightarrow> Inr (Inl err, False, st)
                  | Inr nb \<Rightarrow>
                      let st = set_path (l + 1) (np\<lparr>p_buffer := P_Block nb\<rparr>) st
                      in bindE (ext3_extent_header_valid nb (blksize (x_mnt st))) (\<lambda>r.
                        if r \<noteq> 0 then Inr (Inl r, False, st)
                        else bindE (ext3_extent_block_checksum_valid (xe_env x) (x_mnt st) (eh_ino (x_h st)) nb) (\<lambda>(ok, m).
                          bindE (rd16 nb 2) (\<lambda>entries. bindE (rd16 nb 4) (\<lambda>mx.
                          bindE (if p_left p > 0 then bindE (rd32 b (k + 12)) (\<lambda>w. Inr (ucast w)) else Inr (p_end_block p)) (\<lambda>endb.
                            let n = (if last_entry then 12 + 12 * unat entries - 12 else 12);
                                np = np\<lparr>p_buffer := P_Block nb, p_entries := uint entries, p_max_entries := uint mx, p_end_block := endb, p_curr := Some n,
                                  p_left := (if last_entry then 0 else uint entries - 1),
                                  p_visit_num := (if \<not> last_entry then 0 else if l + 1 < max_depth st then 1 else p_visit_num np)\<rparr>
                            in Inr (Inr (Some n), \<not> ok, set_level (l + 1) (set_path (l + 1) np (st\<lparr>x_mnt := m\<rparr>)))))))))))))"

definition extent_move :: "xenv \<Rightarrow> extent_op \<Rightarrow> extent_op \<Rightarrow> Ext3GenericExtentPath \<Rightarrow> ext_st \<Rightarrow> move_out exec" where
  "extent_move x orig op p st = (case op of
       Extent_Current \<Rightarrow> Inr (Inr (p_curr p), False, st)
     | Extent_Root \<Rightarrow> bindE (node_path st 0) (\<lambda>p. Inr (first_sib p (set_level 0 st)))
     | Extent_First_Sib \<Rightarrow> Inr (first_sib p st)
     | Extent_Next_Sib \<Rightarrow> Inr (next_sib p st)
     | Extent_Prev_Sib \<Rightarrow> (case p_curr p of
           None \<Rightarrow> Inr (Inl (- ESRCH), False, st)
         | Some k \<Rightarrow> if p_left p + 1 \<ge> p_entries p then Inr (Inl (- ESRCH), False, st)
             else Inr (Inr (Some (k - 12)), False, set_path (level st) (p\<lparr>p_curr := Some (k - 12), p_left := p_left p + 1,
               p_visit_num := (if level st < max_depth st then 1 else p_visit_num p)\<rparr>) st))
     | Extent_Last_Sib \<Rightarrow> bindE (node_buf st (level st)) (\<lambda>b. bindE (rd16 b 2) (\<lambda>entries.
         let k = 12 + 12 * unat entries - 12
         in Inr (Inr (Some k), False, set_path (level st) (p\<lparr>p_curr := Some k, p_left := 0, p_visit_num := 0\<rparr>) st)))
     | Extent_Up \<Rightarrow> move_up orig st
     | Extent_Down \<Rightarrow> move_down x False p st
     | Extent_Down_Last \<Rightarrow> move_down x True p st
     | _ \<Rightarrow> Inr (Inl (- EINVAL), False, st))"

text \<open>The entry at an offset as an extent.\<close>

definition fill_extent :: "ext_st \<Rightarrow> Ext3GenericExtentPath \<Rightarrow> nat \<Rightarrow> Ext3GenericExtent exec" where
  "fill_extent st p k =
     (let again = (if p_visit_num p \<noteq> 0 then EXT2_EXTENT_FLAGS_SECOND_VISIT else 0)
      in bindE (node_buf st (level st)) (\<lambda>b. bindE (rd32 b k) (\<lambda>lblk.
         if level st = max_depth st
         then bindE (extent_start b k) (\<lambda>pblk. bindE (rd16 b (k + 4)) (\<lambda>n.
           let len = ucast n :: u32; uninit = len > EXT2_INIT_MAX_LEN
           in Inr \<lparr>e_pblk = pblk, e_lblk = ucast lblk, e_len = (if uninit then len - EXT2_INIT_MAX_LEN else len),
                e_flags = (EXT2_EXTENT_FLAGS_LEAF OR (if uninit then EXT2_EXTENT_FLAGS_UNINIT else 0)) OR again\<rparr>))
         else bindE (index_leaf b k) (\<lambda>pblk.
           bindE (if p_left p > 0 then bindE (rd32 b (k + 12)) (\<lambda>w. Inr (ucast w)) else Inr (p_end_block p)) (\<lambda>endb.
           Inr \<lparr>e_pblk = pblk, e_lblk = ucast lblk, e_len = ucast (endb - ucast lblk :: u64), e_flags = again\<rparr>)))))"

definition get_again :: "extent_op \<Rightarrow> ext_st \<Rightarrow> Ext3GenericExtentPath \<Rightarrow> bool" where
  "get_again op st p \<longleftrightarrow>
     (op = Extent_Next_Leaf \<or> op = Extent_Prev_Leaf) \<and> level st \<noteq> max_depth st
     \<or> op = Extent_Last_Leaf \<and> (level st \<noteq> max_depth st \<or> p_left p \<noteq> 0)"

fun get_loop :: "nat \<Rightarrow> xenv \<Rightarrow> extent_op \<Rightarrow> bool \<Rightarrow> ext_st \<Rightarrow> ((int + Ext3GenericExtent) \<times> ext_st) exec" where
  "get_loop 0 x op bad st = Inl Endless"
| "get_loop (Suc n) x op bad st =
     bindE (node_path st (level st)) (\<lambda>p. case choose_op st op p of
         Inl err \<Rightarrow> Inr (Inl err, st)
       | Inr (step, p) \<Rightarrow>
           bindE (extent_move x op step p (set_path (level st) p st)) (\<lambda>(r, b, st). case r of
               Inl err \<Rightarrow> Inr (Inl err, st)
             | Inr None \<Rightarrow> Inr (Inl (- ENOENT), st)
             | Inr (Some k) \<Rightarrow>
                 bindE (node_path st (level st)) (\<lambda>p. bindE (fill_extent st p k) (\<lambda>ex.
                   if get_again op st p then get_loop n x op (bad \<or> b) st
                   else Inr (if bad \<or> b then Inl (- EINVAL) else Inr ex, st)))))"

definition ext3_extent_get :: "nat \<Rightarrow> xenv \<Rightarrow> extent_op \<Rightarrow> ext_st \<Rightarrow> ((int + Ext3GenericExtent) \<times> ext_st) exec" where
  "ext3_extent_get fuel x op st = (if eh_path (x_h st) = None then Inr (Inl (- ENOENT), st) else get_loop fuel x op False st)"

section \<open>Changing a node\<close>

definition rdonly :: "ext_st \<Rightarrow> bool" where "rdonly st = m_rdonly (x_mnt st)"

definition write_inode :: "xenv \<Rightarrow> ext_st \<Rightarrow> (int \<times> ext_st) exec" where
  "write_inode x st =
     bindE (ext2_update_inode (e_alloc (xe_env x)) (e_inode_buf (xe_env x)) (x_mnt st) (eh_ino (x_h st)) (inode_bytes (x_inode st))) (\<lambda>(r, m).
     Inr (r, st\<lparr>x_mnt := m\<rparr>))"

definition ext3_extent_update_path :: "xenv \<Rightarrow> ext_st \<Rightarrow> (int \<times> ext_st) exec" where
  "ext3_extent_update_path x st =
     (if level st = 0 then write_inode x st
      else bindE (node_path st (level st - 1)) (\<lambda>pp. case p_curr pp of
          None \<Rightarrow> Inl Out_Of_Bounds
        | Some k \<Rightarrow>
            bindE (node_buf st (level st - 1)) (\<lambda>pb. bindE (index_leaf pb k) (\<lambda>block. bindE (node_buf st (level st)) (\<lambda>b.
            bindE (ext3_extent_block_checksum_update (xe_env x) (x_mnt st) (eh_ino (x_h st)) b) (\<lambda>(r, b, m).
            bindE (put_buf (level st) b (st\<lparr>x_mnt := m\<rparr>)) (\<lambda>st.
              if r \<noteq> 0 then Inr (r, st)
              else let (r, m) = ext2_write_blocks (x_mnt st) b (ucast block) 1 in Inr (r, st\<lparr>x_mnt := m\<rparr>))))))))"

definition ext3_extent_splitting_eof :: "ext_st \<Rightarrow> bool" where
  "ext3_extent_splitting_eof st \<longleftrightarrow> level st \<noteq> 0 \<and>
     (\<forall>p \<in> set (take (level st + 1) (the (eh_path (x_h st)))). p_left p = 0)"

text \<open>An entry from an extent, in a leaf and in an index node; the length of a leaf entry is checked after the other fields are set.\<close>

definition put_leaf :: "u8 list \<Rightarrow> nat \<Rightarrow> Ext3GenericExtent \<Rightarrow> (int \<times> u8 list) exec" where
  "put_leaf b k ex =
     bindE (wr32 b k (ucast (e_lblk ex))) (\<lambda>b. bindE (wr32 b (k + 8) (ucast (e_pblk ex))) (\<lambda>b. bindE (wr16 b (k + 6) (ucast (drop_bit 32 (e_pblk ex)))) (\<lambda>b.
       if e_flags ex AND EXT2_EXTENT_FLAGS_UNINIT \<noteq> 0
       then if e_len ex > EXT2_UNINIT_MAX_LEN then Inr (- EINVAL, b)
            else bindE (wr16 b (k + 4) (ucast (e_len ex + EXT2_INIT_MAX_LEN))) (\<lambda>b. Inr (0, b))
       else if e_len ex > EXT2_INIT_MAX_LEN then Inr (- EINVAL, b)
            else bindE (wr16 b (k + 4) (ucast (e_len ex))) (\<lambda>b. Inr (0, b)))))"

definition put_index :: "u8 list \<Rightarrow> nat \<Rightarrow> Ext3GenericExtent \<Rightarrow> (int \<times> u8 list) exec" where
  "put_index b k ex =
     bindE (wr32 b (k + 4) (ucast (e_pblk ex))) (\<lambda>b. bindE (wr16 b (k + 8) (ucast (drop_bit 32 (e_pblk ex)))) (\<lambda>b.
     bindE (wr32 b k (ucast (e_lblk ex))) (\<lambda>b. bindE (wr16 b (k + 10) 0) (\<lambda>b. Inr (0, b)))))"

definition ext3_extent_replace :: "xenv \<Rightarrow> Ext3GenericExtent \<Rightarrow> ext_st \<Rightarrow> (int \<times> ext_st) exec" where
  "ext3_extent_replace x ex st =
     (if rdonly st then Inr (- EROFS, st)
      else if eh_path (x_h st) = None then Inr (- ENOENT, st)
      else bindE (node_path st (level st)) (\<lambda>p. case p_curr p of
          None \<Rightarrow> Inr (- ENOENT, st)
        | Some k \<Rightarrow> bindE (node_buf st (level st)) (\<lambda>b.
            bindE (if level st = max_depth st then put_leaf b k ex else put_index b k ex) (\<lambda>(r, b).
            bindE (put_buf (level st) b st) (\<lambda>st.
              if r \<noteq> 0 then Inr (r, st) else bindE (ext3_extent_update_path x st) (\<lambda>(_, st). Inr (0, st)))))))"

definition ext2_free_block :: "u64 \<Rightarrow> ext_st \<Rightarrow> ext_st exec" where
  "ext2_free_block b st = bindE (ext2_block_alloc_stats (m_fs (x_mnt st)) b (- 1)) (\<lambda>fs. Inr (st\<lparr>x_mnt := (x_mnt st)\<lparr>m_fs := fs\<rparr>\<rparr>))"

definition set_entries :: "u8 list \<Rightarrow> int \<Rightarrow> u8 list exec" where
  "set_entries b n = wr16 b 2 (word_of_int n)"

fun ext3_extent_delete :: "nat \<Rightarrow> xenv \<Rightarrow> u32 \<Rightarrow> ext_st \<Rightarrow> (int \<times> ext_st) exec" where
  "ext3_extent_delete 0 x flags st = Inl Endless"
| "ext3_extent_delete (Suc n) x flags st =
     (if rdonly st then Inr (- EROFS, st)
      else if eh_path (x_h st) = None then Inr (- ENOENT, st)
      else bindE (node_path st (level st)) (\<lambda>p. case p_curr p of
          None \<Rightarrow> Inr (- ENOENT, st)
        | Some k \<Rightarrow> bindE (node_buf st (level st)) (\<lambda>b.
            bindE (if p_left p < 0 then Inl Out_Of_Bounds
                   else if p_left p \<noteq> 0
                   then bindE (copy_out b (k + 12) (12 * nat (p_left p))) (\<lambda>d. bindE (copy_in b k (12 * nat (p_left p)) d) (\<lambda>b.
                     Inr (b, p\<lparr>p_left := p_left p - 1\<rparr>)))
                   else Inr (b, p\<lparr>p_curr := Some (k - 12)\<rparr>)) (\<lambda>(b, p).
            let p = p\<lparr>p_entries := p_entries p - 1\<rparr>; p = (if p_entries p = 0 then p\<lparr>p_curr := None\<rparr> else p)
            in if p_entries p = 0 \<and> level st \<noteq> 0
               then bindE (put_buf (level st) b (set_path (level st) p st)) (\<lambda>st.
                 if flags AND EXT2_EXTENT_DELETE_KEEP_EMPTY \<noteq> 0 then Inr (0, st)
                 else got (ext3_extent_get n x Extent_Up st) (\<lambda>ex st.
                   bindE (ext3_extent_delete n x flags st) (\<lambda>(_, st).
                   let m = x_mnt st; i = x_inode st;
                       st = st\<lparr>x_inode := i\<lparr>i_blocks := i_blocks i - (of_nat (blksize m) * ucast (EXT2_CLUSTER_RATIO (m_fs m))) div 512\<rparr>\<rparr>
                   in bindE (write_inode x st) (\<lambda>(r, st). bindE (ext2_free_block (e_pblk ex) st) (\<lambda>st. Inr (r, st))))))
               else bindE (set_entries b (p_entries p)) (\<lambda>b.
                 bindE (if p_entries p = 0 then wr16 b 6 0 else Inr b) (\<lambda>b.
                 bindE (put_buf (level st) b (set_path (level st) p st)) (\<lambda>st.
                 ext3_extent_update_path x (if p_entries p = 0 then st\<lparr>x_h := (x_h st)\<lparr>eh_max_depth := 0\<rparr>\<rparr> else st))))))))"

record Ext3ExtentInfo =
  i_curr_entry :: nat
  i_curr_level :: nat
  i_num_entries :: int
  i_max_entries :: int
  i_max_depth :: nat
  i_bytes_avail :: int
  i_max_lblk :: u64
  i_max_pblk :: u64
  i_max_len :: u32
  i_max_uninit_len :: u32

definition ext3_extent_get_info :: "ext_st \<Rightarrow> Ext3ExtentInfo exec" where
  "ext3_extent_get_info st =
     bindE (node_path st (level st)) (\<lambda>p.
     Inr \<lparr>i_curr_entry = (case p_curr p of Some k \<Rightarrow> k div 12 | None \<Rightarrow> 0), i_curr_level = level st, i_num_entries = p_entries p, i_max_entries = p_max_entries p,
       i_max_depth = max_depth st, i_bytes_avail = (p_max_entries p - p_entries p) * 12, i_max_lblk = EXT2_MAX_EXTENT_LBLK, i_max_pblk = EXT2_MAX_EXTENT_PBLK,
       i_max_len = EXT2_INIT_MAX_LEN, i_max_uninit_len = EXT2_UNINIT_MAX_LEN\<rparr>)"

section \<open>Inserting and splitting\<close>

text \<open>The place of a new entry: after or before the current one, or the first; the entries behind it move.\<close>

definition open_slot :: "u32 \<Rightarrow> Ext3GenericExtentPath \<Rightarrow> u8 list \<Rightarrow> (u8 list \<times> Ext3GenericExtentPath) exec" where
  "open_slot flags p b =
     (let (k, lft) = (case p_curr p of
            Some k \<Rightarrow> if flags AND EXT2_EXTENT_INSERT_AFTER \<noteq> 0 then (k + 12, p_left p - 1) else (k, p_left p)
          | None \<Rightarrow> (12, - 1))
      in bindE (if lft \<ge> 0 then bindE (copy_out b k (12 * nat (lft + 1))) (\<lambda>d. copy_in b (k + 12) (12 * nat (lft + 1)) d) else Inr b) (\<lambda>b.
         bindE (set_entries b (p_entries p + 1)) (\<lambda>b.
         Inr (b, p\<lparr>p_curr := Some k, p_left := lft + 1, p_entries := p_entries p + 1\<rparr>))))"

text \<open>
  The array of path entries that a split of the root allocates: its size is computed with the size of an extent, 24 bytes, and
  not of a path entry, 36 bytes, so that fewer entries fit than the handle has.
\<close>

definition grow_paths :: "nat \<Rightarrow> Ext3GenericExtentPath list \<Rightarrow> Ext3GenericExtentPath list exec" where
  "grow_paths n ps =
     (if 36 * n > 24 * (n + 1) then Inl Out_Of_Bounds
      else Inr (take n ps @ replicate (24 * (n + 1) div 36 - n)
        \<lparr>p_buffer = P_Null, p_entries = 0, p_max_entries = 0, p_left = 0, p_visit_num = 0, p_end_block = 0, p_curr = None\<rparr>))"

text \<open>The new node with the last \<open>n\<close> of \<open>entries\<close> entries.\<close>

definition new_node :: "nat \<Rightarrow> u8 list \<Rightarrow> nat \<Rightarrow> nat \<Rightarrow> u8 list exec" where
  "new_node sz b entries n =
     bindE (copy_out b 0 12) (\<lambda>hd. bindE (copy_in (replicate sz 0) 0 12 hd) (\<lambda>nb.
     bindE (wr16 nb 2 (of_nat n)) (\<lambda>nb. bindE (wr16 nb 4 (of_nat ((sz - 12) div 12))) (\<lambda>nb.
     bindE (copy_out b (12 + 12 * (entries - n)) (12 * n)) (\<lambda>d. copy_in nb 12 (12 * n) d)))))"

definition node_goal :: "ext_st \<Rightarrow> u64 exec" where
  "node_goal st =
     bindE (node_buf st (level st)) (\<lambda>b. bindE (if level st = max_depth st then extent_start b 12 else index_leaf b 12) (\<lambda>g.
     Inr ((g - EXT2_CLUSTER_RATIO (m_fs (x_mnt st))) AND NOT (EXT2_CLUSTER_MASK (m_fs (x_mnt st))))))"

text \<open>The entries that stay: the root keeps one entry and gets deeper, another node loses the entries that moved.\<close>

definition shrink_node :: "nat \<Rightarrow> u8 list \<Rightarrow> Ext3GenericExtentPath \<Rightarrow> ext_st \<Rightarrow> ext_st exec" where
  "shrink_node n b p st =
     (if level st = 0
      then bindE (grow_paths (eh_max_paths (x_h st)) (the (eh_path (x_h st)))) (\<lambda>ps.
        let h = x_h st; p = p\<lparr>p_entries := 1, p_left := p_max_entries p - 1\<rparr>;
            st = set_path 0 p (st\<lparr>x_h := h\<lparr>eh_path := Some ps, eh_max_depth := eh_max_depth h + 1, eh_max_paths := eh_max_paths h + 1\<rparr>\<rparr>)
        in bindE (wr16 b 6 (of_nat (max_depth st))) (\<lambda>b. bindE (set_entries b 1) (\<lambda>b. put_buf 0 b st)))
      else let p = p\<lparr>p_entries := p_entries p - int n, p_left := p_left p - int n\<rparr>
        in bindE (set_entries b (p_entries p)) (\<lambda>b. put_buf (level st) b (set_path (level st) p st)))"

fun ext3_extent_node_split :: "nat \<Rightarrow> xenv \<Rightarrow> bool \<Rightarrow> ext_st \<Rightarrow> (int \<times> ext_st) exec"
and ext3_extent_insert :: "nat \<Rightarrow> xenv \<Rightarrow> u32 \<Rightarrow> Ext3GenericExtent \<Rightarrow> ext_st \<Rightarrow> (int \<times> ext_st) exec" where
  "ext3_extent_node_split 0 x canexpand st = Inl Endless"
| "ext3_extent_node_split (Suc n) x canexpand st =
     (if rdonly st then Inr (- EROFS, st)
      else if eh_path (x_h st) = None then Inr (- ENOENT, st)
      else got (ext3_extent_get n x Extent_Current st) (\<lambda>ex st.
        bindE (ext3_extent_get_info st) (\<lambda>info.
        let height = i_max_depth info - i_curr_level info; orig = e_lblk ex
        in bindE (node_goal st) (\<lambda>goal.
        andthen (if level st = 0 then Inr (0, st)
                 else bindE (node_path st (level st - 1)) (\<lambda>pp.
                   if p_entries pp \<ge> p_max_entries pp
                   then got (ext3_extent_get n x Extent_Up st) (\<lambda>_ st. andthen (ext3_extent_node_split n x canexpand st) (ext3_extent_goto height orig))
                   else Inr (0, st))) (\<lambda>st.
        bindE (node_path st (level st)) (\<lambda>p.
          if p_curr p = None then Inr (- ENOENT, st)
          else bindE (node_buf st (level st)) (\<lambda>b. bindE (rd16 b 2) (\<lambda>entries.
            let root = (level st = 0); no_balance = canexpand \<and> ext3_extent_splitting_eof st; e = xe_env x;
                cnt = (if root then unat entries else if no_balance then 1 else unat entries div 2)
            in if root \<and> xe_split_oom x then Inr (- ENOMEM, st)
               else if cnt = 0 \<and> \<not> no_balance then Inr (- ENOSPC, st)
               else if e_block_oom e then Inr (- ENOMEM, st)
               else bindE (if goal = 0 then ext2_find_inode_goal e (x_mnt st) (eh_ino (x_h st)) (x_inode st) 0 else Inr (goal, x_inode st)) (\<lambda>(goal, i).
                 bindE (ext2_alloc_block e (x_mnt st) goal True) (\<lambda>(r, m).
                 let st = st\<lparr>x_mnt := m, x_inode := i\<rparr> in case r of
                   Inl err \<Rightarrow> Inr (err, st)
                 | Inr block \<Rightarrow>
                     bindE (new_node (blksize m) b (unat entries) cnt) (\<lambda>nb. bindE (rd32 nb 12) (\<lambda>start.
                     bindE (ext3_extent_block_checksum_update e m (eh_ino (x_h st)) nb) (\<lambda>(r, nb, m).
                     if r \<noteq> 0 then Inr (r, st\<lparr>x_mnt := m\<rparr>)
                     else let (r, m) = ext2_write_blocks m nb (ucast block) 1; st = st\<lparr>x_mnt := m\<rparr>
                       in if r \<noteq> 0 then Inr (r, st)
                          else bindE (shrink_node cnt b p st) (\<lambda>st.
                            andthen (ext3_extent_update_path x st) (\<lambda>st.
                            andthen (if root
                              then got (ext3_extent_get n x Extent_First_Sib st) (\<lambda>ex st. bindE (node_path st 0) (\<lambda>p0.
                                ext3_extent_replace x (ex\<lparr>e_lblk := ucast start, e_pblk := block, e_len := ucast (p_end_block p0 - ucast start)\<rparr>) st))
                              else bindE (ext3_extent_get n x Extent_Up st) (\<lambda>(y, st).
                                let ex = (case y of Inr ex' \<Rightarrow> ex' | Inl _ \<Rightarrow> ex); len = ucast (ucast start - e_lblk ex) :: u32;
                                    ex = ex\<lparr>e_len := e_len ex - len\<rparr>
                                in andthen (ext3_extent_replace x ex st)
                                     (ext3_extent_insert n x EXT2_EXTENT_INSERT_AFTER (ex\<lparr>e_lblk := ucast start, e_pblk := block, e_len := len\<rparr>)))) (\<lambda>st.
                            andthen (ext3_extent_goto height orig st) (\<lambda>st.
                            write_inode x (st\<lparr>x_inode := snd (ext2_iblk_add_blocks (x_mnt st) (x_inode st) 1)\<rparr>))))))))))))))))))"
| "ext3_extent_insert 0 x flags ex st = Inl Endless"
| "ext3_extent_insert (Suc n) x flags ex st =
     (if rdonly st then Inr (- EROFS, st)
      else if eh_path (x_h st) = None then Inr (- ENOENT, st)
      else bindE (node_path st (level st)) (\<lambda>p.
        andthen (if p_entries p \<ge> p_max_entries p
                 then if flags AND EXT2_EXTENT_INSERT_NOSPLIT \<noteq> 0 then Inr (- ENOSPC, st) else ext3_extent_node_split n x True st
                 else Inr (0, st)) (\<lambda>st.
        bindE (node_path st (level st)) (\<lambda>p. bindE (node_buf st (level st)) (\<lambda>b. bindE (open_slot flags p b) (\<lambda>(b, p).
        bindE (put_buf (level st) b (set_path (level st) p st)) (\<lambda>st.
        bindE (andthen (ext3_extent_replace x ex st) (ext3_extent_update_path x)) (\<lambda>(r, st).
          if r \<noteq> 0 then bindE (ext3_extent_delete n x 0 st) (\<lambda>(_, st). Inr (r, st)) else Inr (0, st)))))))))"

text \<open>A new first entry of a node changes the start of the index entries above.\<close>

fun fix_loop :: "nat \<Rightarrow> xenv \<Rightarrow> u64 \<Rightarrow> ext_st \<Rightarrow> (int \<times> ext_st) exec" where
  "fix_loop 0 x start st = Inl Endless"
| "fix_loop (Suc n) x start st =
     bindE (node_path st (level st)) (\<lambda>p.
       if level st > 0 \<and> p_left p = p_entries p - 1
       then got (ext3_extent_get n x Extent_Up st) (\<lambda>ex st.
         if e_lblk ex = start then Inr (0, st)
         else andthen (ext3_extent_replace x (ex\<lparr>e_len := e_len ex + ucast (e_lblk ex - start), e_lblk := start\<rparr>) st) (\<lambda>st.
           bindE (ext3_extent_update_path x st) (\<lambda>(_, st). fix_loop n x start st)))
       else Inr (0, st))"

definition ext3_extent_fix_parents :: "nat \<Rightarrow> xenv \<Rightarrow> ext_st \<Rightarrow> (int \<times> ext_st) exec" where
  "ext3_extent_fix_parents fuel x st =
     (if rdonly st then Inr (- EROFS, st)
      else if eh_path (x_h st) = None then Inr (- ENOENT, st)
      else bindE (node_path st (level st)) (\<lambda>p.
        if p_curr p = None then Inr (- ENOENT, st)
        else got (ext3_extent_get fuel x Extent_Current st) (\<lambda>ex st.
          bindE (ext3_extent_get_info st) (\<lambda>info.
          andthen (fix_loop fuel x (e_lblk ex) st) (ext3_extent_goto (i_max_depth info - i_curr_level info) (e_lblk ex))))))"

section \<open>Setting the block of a file\<close>

definition is_uninit :: "Ext3GenericExtent \<Rightarrow> bool" where
  "is_uninit ex \<longleftrightarrow> e_flags ex AND EXT2_EXTENT_FLAGS_UNINIT \<noteq> 0"

definition follows :: "bool \<Rightarrow> u64 \<Rightarrow> u64 \<Rightarrow> Ext3GenericExtent \<Rightarrow> bool" where
  "follows uninit logical physical ex \<longleftrightarrow> logical = e_lblk ex + ucast (e_len ex) \<and> physical = e_pblk ex + ucast (e_len ex)
     \<and> uninit = is_uninit ex \<and> sint (e_len ex) < (if uninit then 0x7fff else 0x8000) - 1"

definition precedes :: "bool \<Rightarrow> u64 \<Rightarrow> u64 \<Rightarrow> Ext3GenericExtent \<Rightarrow> bool" where
  "precedes uninit logical physical ex \<longleftrightarrow> logical = e_lblk ex - 1 \<and> physical = e_pblk ex - 1
     \<and> uninit = is_uninit ex \<and> sint (e_len ex) < (if uninit then 0x7fff else 0x8000) - 1"

definition grow_back :: "Ext3GenericExtent \<Rightarrow> Ext3GenericExtent" where
  "grow_back ex = ex\<lparr>e_len := e_len ex + 1, e_lblk := e_lblk ex - 1, e_pblk := e_pblk ex - 1\<rparr>"

text \<open>The block joins the extent after the current one.\<close>

definition join_next :: "nat \<Rightarrow> xenv \<Rightarrow> ext_st \<Rightarrow> (int \<times> ext_st) exec" where
  "join_next fuel x st = got (ext3_extent_get fuel x Extent_Next_Leaf st) (\<lambda>nx st. ext3_extent_replace x (grow_back nx) st)"

text \<open>A block that no extent maps; an extent that starts right after it is changed in a local variable only.\<close>

definition set_unmapped :: "nat \<Rightarrow> xenv \<Rightarrow> bool \<Rightarrow> u64 \<Rightarrow> u64 \<Rightarrow> Ext3GenericExtent \<Rightarrow> Ext3GenericExtent option \<Rightarrow> Ext3GenericExtent \<Rightarrow> int \<Rightarrow> ext_st \<Rightarrow> (int \<times> ext_st) exec" where
  "set_unmapped fuel x uninit logical physical ex nx new ret st =
     andthen (if follows uninit logical physical ex then ext3_extent_replace x (ex\<lparr>e_len := e_len ex + 1\<rparr>) st
              else if precedes uninit logical physical ex then Inr (ret, st)
              else if nx \<noteq> None \<and> precedes uninit logical physical (the nx) then join_next fuel x st
              else if logical < e_lblk ex then ext3_extent_insert fuel x 0 new st
              else ext3_extent_insert fuel x EXT2_EXTENT_INSERT_AFTER new st)
       (ext3_extent_fix_parents fuel x)"

definition set_single :: "nat \<Rightarrow> xenv \<Rightarrow> u64 \<Rightarrow> Ext3GenericExtent \<Rightarrow> ext_st \<Rightarrow> (int \<times> ext_st) exec" where
  "set_single fuel x physical new st =
     (if physical \<noteq> 0 then ext3_extent_replace x new st
      else andthen (ext3_extent_delete fuel x 0 st) (\<lambda>st. bindE (ext3_extent_fix_parents fuel x st) (\<lambda>(r, st). Inr (if r \<noteq> - ENOENT then r else 0, st))))"

definition set_at_end :: "nat \<Rightarrow> xenv \<Rightarrow> bool \<Rightarrow> u64 \<Rightarrow> u64 \<Rightarrow> Ext3GenericExtent \<Rightarrow> Ext3GenericExtent option \<Rightarrow> Ext3GenericExtent \<Rightarrow> ext_st \<Rightarrow> (int \<times> ext_st) exec" where
  "set_at_end fuel x uninit logical physical ex nx new st =
     got (if physical = 0 then Inr (Inr ex, st)
          else bindE (andthen (if nx \<noteq> None \<and> precedes uninit logical physical (the nx) then join_next fuel x st
                               else ext3_extent_insert fuel x EXT2_EXTENT_INSERT_AFTER new st) (\<lambda>st.
                 andthen (ext3_extent_fix_parents fuel x st) (ext3_extent_goto 0 logical))) (\<lambda>(r, st).
            if r \<noteq> 0 then Inr (Inl r, st) else ext3_extent_get fuel x Extent_Current st)) (\<lambda>ex st.
     ext3_extent_replace x (ex\<lparr>e_len := e_len ex - 1\<rparr>) st)"

definition set_at_start :: "nat \<Rightarrow> xenv \<Rightarrow> bool \<Rightarrow> u64 \<Rightarrow> u64 \<Rightarrow> Ext3GenericExtent \<Rightarrow> Ext3GenericExtent option \<Rightarrow> Ext3GenericExtent \<Rightarrow> ext_st \<Rightarrow> (int \<times> ext_st) exec" where
  "set_at_start fuel x uninit logical physical ex pv new st =
     got (if physical = 0 then Inr (Inr ex, st)
          else bindE (andthen (if pv \<noteq> None \<and> follows uninit logical physical (the pv)
                               then got (ext3_extent_get fuel x Extent_Prev_Leaf st) (\<lambda>pv st. ext3_extent_replace x (pv\<lparr>e_len := e_len pv + 1\<rparr>) st)
                               else ext3_extent_insert fuel x 0 new st) (ext3_extent_fix_parents fuel x)) (\<lambda>(r, st).
            if r \<noteq> 0 then Inr (Inl r, st) else ext3_extent_get fuel x Extent_Next_Leaf st)) (\<lambda>ex st.
     andthen (ext3_extent_replace x (ex\<lparr>e_pblk := e_pblk ex + 1, e_lblk := e_lblk ex - 1, e_len := e_len ex - 1\<rparr>) st) (ext3_extent_fix_parents fuel x))"

text \<open>A block in the middle of an extent: the extent is cut in two, and put back when an insertion fails.\<close>

definition put_back :: "xenv \<Rightarrow> Ext3GenericExtent \<Rightarrow> int \<Rightarrow> ext_st \<Rightarrow> (int \<times> ext_st) exec" where
  "put_back x ex r st = bindE (ext3_extent_goto 0 (e_lblk ex) st) (\<lambda>(r2, st).
     if r2 = 0 then bindE (ext3_extent_replace x ex st) (\<lambda>(_, st). Inr (r, st)) else Inr (r, st))"

definition set_inside :: "nat \<Rightarrow> xenv \<Rightarrow> u64 \<Rightarrow> u64 \<Rightarrow> Ext3GenericExtent \<Rightarrow> Ext3GenericExtent \<Rightarrow> ext_st \<Rightarrow> (int \<times> ext_st) exec" where
  "set_inside fuel x logical physical ex new st =
     (let len = ucast (logical - e_lblk ex) :: u32
      in andthen (ext3_extent_replace x (ex\<lparr>e_len := len\<rparr>) st) (\<lambda>st.
         bindE (if physical \<noteq> 0 then ext3_extent_insert fuel x EXT2_EXTENT_INSERT_AFTER new st else Inr (0, st)) (\<lambda>(r, st).
         if r \<noteq> 0 then put_back x ex r st
         else bindE (ext3_extent_insert fuel x EXT2_EXTENT_INSERT_AFTER
                (ex\<lparr>e_pblk := e_pblk ex + ucast (len + 1), e_lblk := e_lblk ex + ucast (len + 1), e_len := e_len ex - len - 1\<rparr>) st) (\<lambda>(r, st).
           if r = 0 then Inr (0, st)
           else bindE (if physical \<noteq> 0
                  then bindE (ext3_extent_goto 0 (e_lblk new) st) (\<lambda>(r2, st).
                    if r2 = 0 then bindE (ext3_extent_delete fuel x 0 st) (\<lambda>(_, st). Inr st) else Inr st)
                  else Inr st) (put_back x ex r)))))"

text \<open>The neighbour of the current extent, if there is one; any other error ends the operation.\<close>

definition neighbour :: "((int + Ext3GenericExtent) \<times> ext_st) exec \<Rightarrow> ((int + Ext3GenericExtent option) \<times> ext_st) exec" where
  "neighbour r = bindE r (\<lambda>(y, st). Inr (case y of Inr ex \<Rightarrow> Inr (Some ex) | Inl err \<Rightarrow> if err = - ESRCH then Inr None else Inl err, st))"

definition goto_near :: "u64 \<Rightarrow> ext_st \<Rightarrow> ((int + int) \<times> ext_st) exec" where
  "goto_near logical st = bindE (ext3_extent_goto 0 logical st) (\<lambda>(r, st). Inr (if r \<noteq> 0 \<and> r \<noteq> - ENOENT then Inl r else Inr r, st))"

definition set_found :: "nat \<Rightarrow> xenv \<Rightarrow> bool \<Rightarrow> u64 \<Rightarrow> u64 \<Rightarrow> Ext3GenericExtent \<Rightarrow> ext_st \<Rightarrow> (int \<times> ext_st) exec" where
  "set_found fuel x uninit logical physical new st =
     got (goto_near logical st) (\<lambda>r0 st.
       let mapped = (r0 = 0) in
       if \<not> mapped \<and> physical = 0 then Inr (0, st)
       else got (ext3_extent_get fuel x Extent_Current st) (\<lambda>ex st.
         got (neighbour (ext3_extent_get fuel x Extent_Next_Leaf st)) (\<lambda>nx st.
         got (goto_near logical st) (\<lambda>_ st.
         got (neighbour (ext3_extent_get fuel x Extent_Prev_Leaf st)) (\<lambda>pv st.
         got (goto_near logical st) (\<lambda>ret st.
           if mapped \<and> uninit = is_uninit ex \<and> e_pblk ex + logical - e_lblk ex = physical then Inr (ret, st)
           else if \<not> mapped then set_unmapped fuel x uninit logical physical ex nx new ret st
           else if logical = e_lblk ex \<and> e_len ex = 1 then set_single fuel x physical new st
           else if logical = e_lblk ex + ucast (e_len ex) - 1 then set_at_end fuel x uninit logical physical ex nx new st
           else if logical = e_lblk ex then set_at_start fuel x uninit logical physical ex pv new st
           else set_inside fuel x logical physical ex new st))))))"

definition ext3_extent_set_bmap :: "nat \<Rightarrow> xenv \<Rightarrow> u64 \<Rightarrow> u64 \<Rightarrow> u32 \<Rightarrow> ext_st \<Rightarrow> (int \<times> ext_st) exec" where
  "ext3_extent_set_bmap fuel x logical physical flags st =
     (if rdonly st then Inr (- EROFS, st)
      else if eh_path (x_h st) = None then Inr (- EINVAL, st)
      else bindE (node_path st (level st)) (\<lambda>p.
        let uninit = (flags AND EXT2_EXTENT_SET_BMAP_UNINIT \<noteq> 0);
            new = (if physical \<noteq> 0 then \<lparr>e_pblk = physical, e_lblk = logical, e_len = 1,
                     e_flags = (if uninit then EXT2_EXTENT_FLAGS_LEAF OR EXT2_EXTENT_FLAGS_UNINIT else EXT2_EXTENT_FLAGS_LEAF)\<rparr> else xe_junk x)
        in if max_depth st = 0 \<and> p_entries p = 0 then ext3_extent_insert fuel x 0 new st
           else bindE (ext3_extent_get fuel x Extent_Current st) (\<lambda>(y, st).
             let orig = (case y of Inr ex \<Rightarrow> e_lblk ex | Inl _ \<Rightarrow> 0)
             in if y \<noteq> Inl (- ENOENT) \<and> isl y then Inr (projl y, st)
                else bindE (ext3_extent_get_info st) (\<lambda>info.
                  bindE (set_found fuel x uninit logical physical new st) (\<lambda>(r, st).
                  bindE (ext3_extent_goto (min (i_max_depth info - i_curr_level info) (max_depth st)) orig st) (\<lambda>(_, st). Inr (r, st)))))))"

section \<open>Mapping a block\<close>

text \<open>The part of \<^verbatim>\<open>ext3_extent_bmap\<close> that looks for the extent: the start of the extent found, the physical block and the flags.\<close>

definition extent_lookup :: "nat \<Rightarrow> xenv \<Rightarrow> u64 \<Rightarrow> u64 \<Rightarrow> ext_st \<Rightarrow> ((int + u64 \<times> u64 \<times> u32) \<times> ext_st) exec" where
  "extent_lookup fuel x block phys st =
     bindE (ext3_extent_goto 0 block st) (\<lambda>(r, st).
       if r = - ENOENT then Inr (Inr (block, phys, 0), st)
       else if r \<noteq> 0 then Inr (Inl r, st)
       else bindE (ext3_extent_get fuel x Extent_Current st) (\<lambda>(y, st). case y of
           Inl err \<Rightarrow> Inr (Inl err, st)
         | Inr ex \<Rightarrow>
             let off = ucast (block - e_lblk ex) :: u32
             in Inr (if block \<ge> e_lblk ex \<and> off \<le> e_len ex
                     then Inr (e_lblk ex, e_pblk ex + ucast off, if is_uninit ex then BMAP_RET_UNINIT else 0) else Inr (e_lblk ex, phys, 0), st)))"

text \<open>Another block of the same cluster gives the place of a block; each is looked up without flags.\<close>

fun cluster_loop :: "nat \<Rightarrow> xenv \<Rightarrow> nat \<Rightarrow> nat \<Rightarrow> u64 \<Rightarrow> u64 \<Rightarrow> ext_st \<Rightarrow> (u64 \<times> nat \<times> ext_st) exec" where
  "cluster_loop fuel x 0 i base block st = Inr (0, i, st)"
| "cluster_loop fuel x (Suc n) i base block st =
     (if base + of_nat i = block then cluster_loop fuel x n (i + 1) base block st
      else bindE (extent_lookup fuel x (base + of_nat i) 0 st) (\<lambda>(y, st).
        let p = (case y of Inr (_, p, _) \<Rightarrow> p | Inl _ \<Rightarrow> 0)
        in if p \<noteq> 0 then Inr (p, i, st) else cluster_loop fuel x n (i + 1) base block st))"

definition ext2_cluster_alloc :: "nat \<Rightarrow> xenv \<Rightarrow> u64 \<Rightarrow> u64 \<Rightarrow> ext_st \<Rightarrow> (u64 \<times> ext_st) exec" where
  "ext2_cluster_alloc fuel x block phys st =
     (let fs = m_fs (x_mnt st); base = block AND NOT (EXT2_CLUSTER_MASK fs)
      in if \<not> has_ro_compat (f_super fs) EXT4_FT_RO_COMPAT_BIGALLOC then Inr (phys, st)
         else bindE (cluster_loop fuel x (unat (EXT2_CLUSTER_RATIO fs)) 0 base block st) (\<lambda>(p, i, st).
           Inr (if p \<noteq> 0 then p - of_nat i + block - base else phys, st)))"

text \<open>A new block for a block of the file, near the block before it; the result says how many blocks were allocated.\<close>

definition extent_alloc :: "nat \<Rightarrow> xenv \<Rightarrow> u64 \<Rightarrow> ext_st \<Rightarrow> ((int + u64 \<times> u64) \<times> ext_st) exec" where
  "extent_alloc fuel x block st =
     bindE (ext2_cluster_alloc fuel x block 0 st) (\<lambda>(b, st).
       if b \<noteq> 0 then Inr (Inr (b, 0), st)
       else bindE (extent_lookup fuel x (block - 1) 0 st) (\<lambda>(y, st).
         bindE (case y of Inr (_, p, _) \<Rightarrow> Inr (p, x_inode st)
                | Inl _ \<Rightarrow> ext2_find_inode_goal (xe_env x) (x_mnt st) (eh_ino (x_h st)) (x_inode st) block) (\<lambda>(goal, i).
         bindE (ext2_alloc_block (xe_env x) (x_mnt st) goal True) (\<lambda>(r, m).
           let st = st\<lparr>x_mnt := m, x_inode := i\<rparr>; cm = EXT2_CLUSTER_MASK (m_fs m)
           in Inr (case r of Inl err \<Rightarrow> Inl err | Inr b \<Rightarrow> Inr ((b AND NOT cm) + (cm AND block), 1), st)))))"

definition ext3_extent_bmap :: "nat \<Rightarrow> xenv \<Rightarrow> u32 \<Rightarrow> u64 \<Rightarrow> u64 \<Rightarrow> ext_st \<Rightarrow> (int \<times> u64 \<times> u32 \<times> u64 \<times> ext_st) exec" where
  "ext3_extent_bmap fuel x flags block phys st =
     (let sf = (if flags AND BMAP_UNINIT \<noteq> 0 then EXT2_EXTENT_SET_BMAP_UNINIT else 0)
      in if flags AND BMAP_SET \<noteq> 0
         then bindE (ext3_extent_set_bmap fuel x block phys sf st) (\<lambda>(r, st). Inr (r, phys, 0, 0, st))
         else bindE (extent_lookup fuel x block phys st) (\<lambda>(y, st). case y of
             Inl err \<Rightarrow> Inr (err, phys, 0, 0, st)
           | Inr (_, phys, rf) \<Rightarrow>
               if phys \<noteq> 0 \<or> flags AND BMAP_ALLOC = 0 then Inr (0, phys, rf, 0, st)
               else bindE (extent_alloc fuel x block st) (\<lambda>(z, st). case z of
                   Inl err \<Rightarrow> Inr (err, phys, rf, 0, st)
                 | Inr (b, n) \<Rightarrow> bindE (ext3_extent_set_bmap fuel x block b sf st) (\<lambda>(r, st).
                     if r \<noteq> 0 then bindE (ext2_free_block b st) (\<lambda>st. Inr (r, phys, rf, 0, st))
                     else bindE (ext2_read_inode (e_alloc (xe_env x)) (x_mnt st) (eh_ino (x_h st))) (\<lambda>(w, m).
                       let st = st\<lparr>x_mnt := m\<rparr> in case w of
                         Inl err \<Rightarrow> Inr (err, phys, rf, 0, st)
                       | Inr bytes \<Rightarrow> Inr (0, b, rf, n, st\<lparr>x_inode := inode_of bytes\<rparr>))))))"

definition ext2_map_cluster_block :: "nat \<Rightarrow> xenv \<Rightarrow> u64 \<Rightarrow> mnt \<Rightarrow> u64 \<Rightarrow> Ext2Inode \<Rightarrow> ((int + u64) \<times> Ext2Inode \<times> mnt) exec" where
  "ext2_map_cluster_block fuel x ino m block inode =
     (if \<not> has_ro_compat (f_super (m_fs m)) EXT4_FT_RO_COMPAT_BIGALLOC \<or> \<not> has_flag inode EXT4_EXTENTS_FL then Inr (Inr 0, inode, m)
      else bindE (ext3_extent_open x m ino (Some inode)) (\<lambda>(y, i, m). case y of
          Inl err \<Rightarrow> Inr (Inl err, the i, m)
        | Inr h \<Rightarrow> bindE (ext2_cluster_alloc fuel x block 0 \<lparr>x_mnt = m, x_inode = the i, x_h = h\<rparr>) (\<lambda>(b, st). Inr (Inr b, x_inode st, x_mnt st))))"

section \<open>Releasing blocks\<close>

fun free_run :: "nat \<Rightarrow> u64 \<Rightarrow> ext_st \<Rightarrow> ext_st exec" where
  "free_run 0 b st = Inr st"
| "free_run (Suc n) b st = bindE (ext2_free_block b st) (free_run n (b + 1))"

fun free_clusters :: "nat \<Rightarrow> nat \<Rightarrow> u64 \<Rightarrow> ext_st \<Rightarrow> ext_st exec" where
  "free_clusters 0 ratio b st = Inr st"
| "free_clusters (Suc n) ratio b st = bindE (ext2_free_block b st) (free_clusters n ratio (b + of_nat ratio))"

text \<open>A cluster at an end of the range is freed unless another block of the file lies in it.\<close>

definition free_partial :: "nat \<Rightarrow> xenv \<Rightarrow> bool \<Rightarrow> u64 \<Rightarrow> u64 \<Rightarrow> ext_st \<Rightarrow> (int \<times> nat \<times> ext_st) exec" where
  "free_partial fuel x needed lblk b st =
     (if \<not> needed then Inr (0, 0, st)
      else bindE (ext2_map_cluster_block fuel x (eh_ino (x_h st)) (x_mnt st) lblk (x_inode st)) (\<lambda>(y, i, m).
        let st = st\<lparr>x_mnt := m, x_inode := i\<rparr> in case y of
          Inl err \<Rightarrow> Inr (err, 0, st)
        | Inr p \<Rightarrow> if p \<noteq> 0 then Inr (0, 0, st) else bindE (ext2_free_block b st) (\<lambda>st. Inr (0, 1, st))))"

text \<open>\<open>junk\<close> is the value of the result variable when neither end of the range is in a shared cluster; it is not initialised.\<close>

definition ext3_extent_dealloc_range :: "nat \<Rightarrow> xenv \<Rightarrow> int \<Rightarrow> u64 \<Rightarrow> u64 \<Rightarrow> u32 \<Rightarrow> ext_st \<Rightarrow> (int \<times> nat \<times> ext_st) exec" where
  "ext3_extent_dealloc_range fuel x junk lblk b cnt st =
     (let fs = m_fs (x_mnt st); ratio = unat (EXT2_CLUSTER_RATIO fs); n = unat cnt div ratio; rest = unat cnt mod ratio; head = (b AND EXT2_CLUSTER_MASK fs \<noteq> 0)
      in if ratio = 1 then bindE (free_run (unat cnt) b st) (\<lambda>st. Inr (0, unat cnt, st))
         else bindE (free_partial fuel x head lblk b st) (\<lambda>(r, f1, st).
           if r \<noteq> 0 then Inr (r, f1, st)
           else bindE (free_clusters n ratio b st) (\<lambda>st.
             bindE (free_partial fuel x (rest > 0) (lblk + of_nat (n * ratio)) (b + of_nat (n * ratio)) st) (\<lambda>(r, f2, st).
             Inr (if head \<or> rest > 0 then r else junk, f1 + n + f2, st)))))"

text \<open>What is cut from an extent: the extent that stays, the part behind a hole, and the blocks to free.\<close>

datatype cut = Cut_None | Cut_Stop | Cut_Part Ext3GenericExtent "Ext3GenericExtent option" u64 u64 u32

definition cut_extent :: "u64 \<Rightarrow> u64 \<Rightarrow> Ext3GenericExtent \<Rightarrow> cut" where
  "cut_extent first last_blk ex =
     (let nxt = e_lblk ex + ucast (e_len ex)
      in if first \<ge> e_lblk ex
         then if last_blk < e_lblk ex then Cut_Stop
              else let n = (if nxt > last_blk then ucast (last_blk - e_lblk ex + 1) else e_len ex)
                in Cut_Part (ex\<lparr>e_len := e_len ex - n, e_lblk := e_lblk ex + ucast n, e_pblk := e_pblk ex + ucast n\<rparr>) None (e_lblk ex) (e_pblk ex) n
         else if last_blk \<ge> nxt - 1
         then if first \<ge> nxt then Cut_None
              else let n = ucast (first - e_lblk ex) :: u32
                in Cut_Part (ex\<lparr>e_len := n\<rparr>) None (e_lblk ex + ucast n) (e_pblk ex + ucast n) (e_len ex - n)
         else let n = ucast (first - e_lblk ex) :: u32
           in Cut_Part (ex\<lparr>e_len := n\<rparr>)
                (Some \<lparr>e_pblk = e_pblk ex + last_blk + 1 - e_lblk ex, e_lblk = last_blk + 1, e_len = ucast (nxt - last_blk - 1), e_flags = e_flags ex\<rparr>)
                (e_lblk ex + ucast n) (e_pblk ex + ucast n) (ucast (last_blk - first + 1)))"

text \<open>The tree is changed: the rest replaces the extent, or the extent is deleted; the result also has the next move.\<close>

definition store_cut :: "nat \<Rightarrow> xenv \<Rightarrow> Ext3GenericExtent \<Rightarrow> Ext3GenericExtent option \<Rightarrow> ext_st \<Rightarrow> ((int + extent_op) \<times> ext_st) exec" where
  "store_cut fuel x ex behind st =
     bindE (case behind of None \<Rightarrow> Inr (0, st)
            | Some new \<Rightarrow> andthen (ext3_extent_insert fuel x EXT2_EXTENT_INSERT_AFTER new st) (\<lambda>st.
                andthen (ext3_extent_fix_parents fuel x st) (ext3_extent_goto 0 (e_lblk ex)))) (\<lambda>(r, st).
     if r \<noteq> 0 then Inr (Inl r, st)
     else if e_len ex \<noteq> 0
     then bindE (andthen (ext3_extent_replace x ex st) (ext3_extent_fix_parents fuel x)) (\<lambda>(r, st). Inr (if r \<noteq> 0 then Inl r else Inr Extent_Next_Leaf, st))
     else bindE (ext3_extent_get fuel x Extent_Current st) (\<lambda>(y, st). case y of
         Inl err \<Rightarrow> Inr (Inl err, st)
       | Inr old \<Rightarrow> bindE (neighbour (ext3_extent_get fuel x Extent_Next_Leaf st)) (\<lambda>(z, st). case z of
           Inl err \<Rightarrow> Inr (Inl err, st)
         | Inr nx \<Rightarrow>
             bindE (andthen (ext3_extent_goto 0 (e_lblk old) st) (\<lambda>st. andthen (ext3_extent_delete fuel x 0 st) (\<lambda>st.
               bindE (ext3_extent_fix_parents fuel x st) (\<lambda>(r, st). Inr (if r = - ENOENT then 0 else r, st))))) (\<lambda>(r, st).
             if r \<noteq> 0 then Inr (Inl r, st)
             else bindE (ext3_extent_goto 0 (case nx of Some ex \<Rightarrow> e_lblk ex | None \<Rightarrow> e_lblk old) st) (\<lambda>(_, st). Inr (Inr Extent_Current, st))))))"

fun dealloc_extents :: "nat \<Rightarrow> xenv \<Rightarrow> int \<Rightarrow> u64 \<Rightarrow> u64 \<Rightarrow> nat \<Rightarrow> Ext3GenericExtent \<Rightarrow> ext_st \<Rightarrow> ((int + nat) \<times> ext_st) exec" where
  "dealloc_extents 0 x junk first last_blk freed ex st = Inl Endless"
| "dealloc_extents (Suc n) x junk first last_blk freed ex st =
     (let go = (\<lambda>op freed st. bindE (ext3_extent_get n x op st) (\<lambda>(y, st). case y of
            Inl err \<Rightarrow> Inr (if err = - ESRCH \<or> err = - ENOENT then Inr freed else Inl err, st)
          | Inr ex \<Rightarrow> dealloc_extents n x junk first last_blk freed ex st))
      in case cut_extent first last_blk ex of
           Cut_Stop \<Rightarrow> Inr (Inr freed, st)
         | Cut_None \<Rightarrow> go Extent_Next_Leaf freed st
         | Cut_Part ex behind lblk b cnt \<Rightarrow>
             bindE (store_cut n x ex behind st) (\<lambda>(y, st). case y of
                 Inl err \<Rightarrow> Inr (Inl err, st)
               | Inr op \<Rightarrow> bindE (ext3_extent_dealloc_range n x junk lblk b cnt st) (\<lambda>(r, f, st).
                   if r \<noteq> 0 then Inr (Inl r, st) else go op (freed + f) st)))"

definition ext3_extent_dealloc_blocks :: "nat \<Rightarrow> xenv \<Rightarrow> int \<Rightarrow> mnt \<Rightarrow> u64 \<Rightarrow> Ext2Inode \<Rightarrow> u64 \<Rightarrow> u64 \<Rightarrow> (int \<times> Ext2Inode \<times> mnt) exec" where
  "ext3_extent_dealloc_blocks fuel x junk m ino inode first last_blk =
     bindE (ext3_extent_open x m ino (Some inode)) (\<lambda>(y, i, m). case y of
         Inl err \<Rightarrow> Inr (err, the i, m)
       | Inr h \<Rightarrow>
           bindE (ext3_extent_goto 0 first \<lparr>x_mnt = m, x_inode = the i, x_h = h\<rparr>) (\<lambda>(_, st).
           bindE (ext3_extent_get fuel x Extent_Current st) (\<lambda>(y, st). case y of
               Inl err \<Rightarrow> Inr (if err = - ENOENT then 0 else err, x_inode st, x_mnt st)
             | Inr ex \<Rightarrow> bindE (dealloc_extents fuel x junk first last_blk 0 ex st) (\<lambda>(z, st). case z of
                 Inl err \<Rightarrow> Inr (err, x_inode st, x_mnt st)
               | Inr freed \<Rightarrow> let (r, i) = ext2_iblk_sub_blocks (x_mnt st) (x_inode st) (of_nat freed) in Inr (r, i, x_mnt st)))))"

section \<open>The functions for the other theories\<close>

definition extent_goal :: "nat \<Rightarrow> xenv \<Rightarrow> mnt \<Rightarrow> u64 \<Rightarrow> Ext2Inode \<Rightarrow> u64 \<Rightarrow> (u64 option \<times> Ext2Inode) exec" where
  "extent_goal fuel x m ino inode block =
     bindE (ext3_extent_open x m ino (Some inode)) (\<lambda>(y, i, m). case y of
         Inl _ \<Rightarrow> Inr (None, the i)
       | Inr h \<Rightarrow> bindE (ext3_extent_goto 0 block \<lparr>x_mnt = m, x_inode = the i, x_h = h\<rparr>) (\<lambda>(r, st).
           if r \<noteq> 0 then Inr (None, x_inode st)
           else bindE (ext3_extent_get fuel x Extent_Current st) (\<lambda>(y, st).
             Inr (case y of Inl _ \<Rightarrow> None | Inr ex \<Rightarrow> Some (e_pblk ex + block - e_lblk ex), x_inode st))))"

definition extent_bmap :: "nat \<Rightarrow> xenv \<Rightarrow> mnt \<Rightarrow> u64 \<Rightarrow> Ext2Inode \<Rightarrow> u32 \<Rightarrow> u64 \<Rightarrow> u64 \<Rightarrow> (int \<times> u64 \<times> u32 \<times> u64 \<times> Ext2Inode \<times> mnt) exec" where
  "extent_bmap fuel x m ino inode flags block phys =
     bindE (ext3_extent_open x m ino (Some inode)) (\<lambda>(y, i, m). case y of
         Inl err \<Rightarrow> Inr (err, phys, 0, 0, the i, m)
       | Inr h \<Rightarrow> bindE (ext3_extent_bmap fuel x flags block phys \<lparr>x_mnt = m, x_inode = the i, x_h = h\<rparr>) (\<lambda>(r, phys, rf, n, st).
           Inr (r, phys, rf, n, x_inode st, x_mnt st)))"

text \<open>The environment and the operations in which the functions of extent trees are the ones above.\<close>

definition with_extents :: "nat \<Rightarrow> xenv \<Rightarrow> int \<Rightarrow> xenv" where
  "with_extents fuel x junk =
     (let e = (xe_env x)\<lparr>x_extent_goal := extent_goal fuel x\<rparr>; x = x\<lparr>xe_env := e\<rparr>
      in x\<lparr>xe_env := e\<lparr>x_extent_bmap := extent_bmap fuel x, x_extent_dealloc := (\<lambda>m ino i first last_blk. ext3_extent_dealloc_blocks fuel x junk m ino i first last_blk)\<rparr>\<rparr>)"

definition extent_ops :: "nat \<Rightarrow> xenv \<Rightarrow> Ext3ExtentHandle ext_ops" where
  "extent_ops fuel x =
     \<lparr>xo_open = (\<lambda>m ino i. bindE (ext3_extent_open x m ino (Some i)) (\<lambda>(y, i, m). Inr (y, the i, m))),
      xo_get = (\<lambda>m i op h. bindE (ext3_extent_get fuel x op \<lparr>x_mnt = m, x_inode = i, x_h = h\<rparr>) (\<lambda>(y, st). Inr (y, x_h st, x_mnt st))),
      xo_set_bmap = (\<lambda>m i cnt b uninit h. bindE (ext3_extent_set_bmap fuel x (word_of_int cnt) b uninit \<lparr>x_mnt = m, x_inode = i, x_h = h\<rparr>) (\<lambda>(r, st).
        Inr (r, x_h st, x_inode st, x_mnt st))),
      xo_replace = (\<lambda>m i ex h. bindE (ext3_extent_replace x ex \<lparr>x_mnt = m, x_inode = i, x_h = h\<rparr>) (\<lambda>(r, st). Inr (r, x_h st, x_inode st, x_mnt st)))\<rparr>"

end
