(* ===== verification/Ext2_Extent_Walk.thy ===== *)
theory Ext2_Extent_Walk
  imports Ext2_Extent
begin

unbundle bit_operations_syntax

text \<open>
  Extent trees without index blocks: the root node is the image of a list of extents, and moving over it returns them one after the
  other. What iterating over the blocks of such an inode does, and what mapping and freeing do.
\<close>

section \<open>The root node\<close>

definition len_code :: "Ext3GenericExtent \<Rightarrow> u16" where
  "len_code ex = ucast (if is_uninit ex then e_len ex + EXT2_INIT_MAX_LEN else e_len ex)"

definition leaf_bytes :: "Ext3GenericExtent \<Rightarrow> u8 list" where
  "leaf_bytes ex = le32 (ucast (e_lblk ex)) @ le16 (len_code ex) @ le16 (ucast (drop_bit 32 (e_pblk ex))) @ le32 (ucast (e_pblk ex))"

definition extent_ok :: "Ext3GenericExtent \<Rightarrow> bool" where
  "extent_ok ex \<longleftrightarrow> unat (e_lblk ex) < 2 ^ 32 \<and> unat (e_pblk ex) < 2 ^ 48 \<and> 0 < e_len ex \<and>
     (e_flags ex = EXT2_EXTENT_FLAGS_LEAF \<and> e_len ex \<le> EXT2_INIT_MAX_LEN
      \<or> e_flags ex = EXT2_EXTENT_FLAGS_LEAF OR EXT2_EXTENT_FLAGS_UNINIT \<and> e_len ex \<le> EXT2_UNINIT_MAX_LEN)"

definition flat_root :: "Ext2Inode \<Rightarrow> nat \<Rightarrow> Ext3GenericExtent list \<Rightarrow> bool" where
  "flat_root i mx xs \<longleftrightarrow> length (i_block i) = 15 \<and> has_flag i EXT4_EXTENTS_FL \<and> \<not> has_flag i EXT4_INLINE_DATA_FL \<and>
     mx \<in> {2, 3, 4} \<and> length xs \<le> mx \<and> (\<forall>ex \<in> set xs. extent_ok ex) \<and>
     (\<exists>g r. length g = 4 \<and> map_bytes (i_block i) = le16 EXT3_EXTENT_MAGIC @ le16 (of_nat (length xs)) @ le16 (of_nat mx) @ le16 0 @ g @ concat (map leaf_bytes xs) @ r)"

lemma length_leaf_bytes [simp]: "length (leaf_bytes ex) = 12"
  by (simp add: leaf_bytes_def)

lemma length_leaves [simp]: "length (concat (map leaf_bytes xs)) = 12 * length xs"
  by (induction xs) simp_all

lemma length_map_bytes [simp]: "length (map_bytes ws) = 4 * length ws"
  by (simp add: map_bytes_def)

lemma drop_leaves: "j < length xs \<Longrightarrow> drop (12 * j) (concat (map leaf_bytes xs) @ r) = leaf_bytes (xs ! j) @ concat (map leaf_bytes (drop (Suc j) xs)) @ r"
proof (induction xs arbitrary: j)
  case (Cons x xs)
  then show ?case by (cases j) simp_all
qed simp

text \<open>The fields of an entry read back.\<close>

lemma flag_numbers: "EXT2_EXTENT_FLAGS_LEAF = 1" "EXT2_EXTENT_FLAGS_UNINIT = 2" "EXT2_INIT_MAX_LEN = 0x8000" "EXT2_UNINIT_MAX_LEN = 0x7fff"
  by (simp_all add: EXT2_EXTENT_FLAGS_LEAF_def EXT2_EXTENT_FLAGS_UNINIT_def EXT2_INIT_MAX_LEN_def EXT2_UNINIT_MAX_LEN_def)

lemma pblk_parts: "unat b < 2 ^ 48 \<Longrightarrow> ucast (ucast b :: u32) + push_bit 32 (ucast (ucast (drop_bit 32 b) :: u16)) = b" for b :: u64
proof -
  assume b: "unat b < 2 ^ 48"
  have lo: "unat (ucast (ucast b :: u32) :: u64) = unat b mod 2 ^ 32"
    by (simp add: unsigned_ucast_eq take_bit_eq_mod take_bit_take_bit unat_mod)
  have hi: "unat (ucast (ucast (drop_bit 32 b) :: u16) :: u64) = unat b div 2 ^ 32"
    using b by (simp add: unsigned_ucast_eq take_bit_take_bit take_bit_nat_eq_self unsigned_take_bit_eq unat_div drop_bit_eq_div less_mult_imp_div_less)
  have "unat b div 2 ^ 32 * 2 ^ 32 \<le> unat b" by (rule div_times_less_eq_dividend)
  then have "unat (push_bit 32 (ucast (ucast (drop_bit 32 b) :: u16)) :: u64) = unat b div 2 ^ 32 * 2 ^ 32"
    using b hi by (simp add: push_bit_eq_mult unat_word_ariths)
  with lo have "unat (ucast (ucast b :: u32) + push_bit 32 (ucast (ucast (drop_bit 32 b) :: u16)) :: u64) = unat b"
    using b by (simp add: unat_word_ariths mod_mult_div_eq)
  then show ?thesis by (simp add: word_unat_eq_iff)
qed

lemma len_parts:
  assumes "extent_ok ex"
  shows "let len = ucast (len_code ex) :: u32; uninit = len > EXT2_INIT_MAX_LEN
    in uninit = is_uninit ex \<and> (if uninit then len - EXT2_INIT_MAX_LEN else len) = e_len ex"
proof -
  have r: "unat (e_len ex) \<le> 0x8000" "0 < unat (e_len ex)" "is_uninit ex \<longrightarrow> unat (e_len ex) \<le> 0x7fff"
    using assms by (auto simp: extent_ok_def is_uninit_def flag_numbers word_le_nat_alt word_less_nat_alt)
  have "unat (ucast (ucast (e_len ex) :: u16) :: u32) = unat (e_len ex)"
    using r by (simp add: unsigned_ucast_eq unsigned_take_bit_eq take_bit_nat_eq_self)
  moreover have "is_uninit ex \<Longrightarrow> unat (ucast (ucast (e_len ex + 0x8000) :: u16) :: u32) = unat (e_len ex) + 0x8000"
    using r by (simp add: unsigned_ucast_eq unsigned_take_bit_eq unat_word_ariths take_bit_nat_eq_self)
  ultimately show ?thesis
    using r by (auto simp: Let_def len_code_def flag_numbers word_less_nat_alt word_le_nat_alt word_unat_eq_iff unat_sub)
qed

text \<open>A handle on such a tree after \<open>j\<close> extents were returned; \<open>v\<close> is the visit number.\<close>

definition flat_handle :: "u64 \<Rightarrow> nat \<Rightarrow> nat \<Rightarrow> u64 \<Rightarrow> int \<Rightarrow> nat \<Rightarrow> Ext3ExtentHandle" where
  "flat_handle ino n mx endb v j =
     \<lparr>eh_ino = ino, eh_type = EXT3_EXTENT_MAGIC, eh_level = 0, eh_max_depth = 0, eh_max_paths = 1,
      eh_path = Some [\<lparr>p_buffer = P_Inode, p_entries = int n, p_max_entries = int mx, p_left = int n - int j, p_visit_num = v, p_end_block = endb,
        p_curr = (if j = 0 then None else Some (12 * j))\<rparr>]\<rparr>"

definition flat_st :: "mnt \<Rightarrow> Ext2Inode \<Rightarrow> u64 \<Rightarrow> nat \<Rightarrow> nat \<Rightarrow> u64 \<Rightarrow> int \<Rightarrow> nat \<Rightarrow> ext_st" where
  "flat_st m i ino n mx endb v j = \<lparr>x_mnt = m, x_inode = i, x_h = flat_handle ino n mx endb v j\<rparr>"

lemma flat_root_reads:
  assumes "flat_root i mx xs"
  shows "rd16 (map_bytes (i_block i)) 0 = Inr EXT3_EXTENT_MAGIC" and "rd16 (map_bytes (i_block i)) 2 = Inr (of_nat (length xs))"
    and "rd16 (map_bytes (i_block i)) 4 = Inr (of_nat mx)" and "rd16 (map_bytes (i_block i)) 6 = Inr 0"
    and "j < length xs \<Longrightarrow> \<exists>t. drop (12 + 12 * j) (map_bytes (i_block i)) = leaf_bytes (xs ! j) @ t"
proof -
  obtain g r where g: "length g = 4" "map_bytes (i_block i) = le16 EXT3_EXTENT_MAGIC @ le16 (of_nat (length xs)) @ le16 (of_nat mx) @ le16 0 @ g @ concat (map leaf_bytes xs) @ r"
    using assms by (auto simp: flat_root_def)
  show "rd16 (map_bytes (i_block i)) 0 = Inr EXT3_EXTENT_MAGIC" "rd16 (map_bytes (i_block i)) 2 = Inr (of_nat (length xs))"
    "rd16 (map_bytes (i_block i)) 4 = Inr (of_nat mx)" "rd16 (map_bytes (i_block i)) 6 = Inr 0"
    unfolding g(2) by (simp_all add: rd16_def)
  assume "j < length xs"
  then show "\<exists>t. drop (12 + 12 * j) (map_bytes (i_block i)) = leaf_bytes (xs ! j) @ t"
    using drop_leaves [of j xs r] g(1) by (auto simp: g(2) drop_drop [symmetric] simp del: drop_drop)
qed

lemma flat_fill:
  assumes i: "flat_root i mx xs" and j: "j < length xs" and p: "p_visit_num p = 0"
  shows "fill_extent (flat_st m i ino n mx endb v j') p (12 + 12 * j) = Inr (xs ! j)"
proof -
  obtain t where t: "drop (12 + 12 * j) (map_bytes (i_block i)) = leaf_bytes (xs ! j) @ t" using flat_root_reads(5) [OF i j] by blast
  let ?ex = "xs ! j" and ?b = "map_bytes (i_block i)"
  have ok: "extent_ok ?ex" using i j by (simp add: flat_root_def)
  have len: "24 + 12 * j \<le> length ?b" using arg_cong [OF t, of length] by simp
  have d: "drop (12 + 12 * j + k) ?b = drop k (leaf_bytes ?ex @ t)" for k
    unfolding t [symmetric] by (simp add: add.commute)
  have lblk: "rd32 ?b (12 + 12 * j) = Inr (ucast (e_lblk ?ex))" using len d [of 0] by (simp add: rd32_def leaf_bytes_def)
  have code: "rd16 ?b (12 + 12 * j + 4) = Inr (len_code ?ex)" using len d [of 4] by (simp add: rd16_def leaf_bytes_def)
  have hi: "rd16 ?b (12 + 12 * j + 6) = Inr (ucast (drop_bit 32 (e_pblk ?ex)))" using len d [of 6] by (simp add: rd16_def leaf_bytes_def)
  have lo: "rd32 ?b (12 + 12 * j + 8) = Inr (ucast (e_pblk ?ex))" using len d [of 8] by (simp add: rd32_def leaf_bytes_def)
  have start: "extent_start ?b (12 + 12 * j) = Inr (e_pblk ?ex)"
    using lo hi pblk_parts [of "e_pblk ?ex"] ok by (simp add: extent_start_def extent_ok_def)
  have l: "ucast (ucast (e_lblk ?ex) :: u32) = e_lblk ?ex"
    using ok by (simp add: extent_ok_def word_unat_eq_iff unsigned_ucast_eq unsigned_take_bit_eq take_bit_nat_eq_self)
  have f: "e_flags ?ex = EXT2_EXTENT_FLAGS_LEAF OR (if is_uninit ?ex then EXT2_EXTENT_FLAGS_UNINIT else 0)"
    using ok by (auto simp: extent_ok_def is_uninit_def flag_numbers)
  show ?thesis
    using lblk code start len_parts [OF ok] l f p
    by (cases ?ex) (auto simp: fill_extent_def node_buf_def node_path_def flat_st_def flat_handle_def Let_def)
qed

section \<open>Opening and moving\<close>

definition ext_mem :: "xenv \<Rightarrow> bool" where
  "ext_mem x \<longleftrightarrow> \<not> xe_handle_oom x \<and> xe_paths x \<noteq> None"

definition end_block :: "mnt \<Rightarrow> Ext2Inode \<Rightarrow> u64" where
  "end_block m i = drop_bit (unat (s_log_block_size (f_super (m_fs m))) + 10) (EXT2_I_SIZE i + of_nat (blksize m) - 1)"

lemma flat_init_root: "flat_root i mx xs \<Longrightarrow> init_root i = i"
proof -
  assume i: "flat_root i mx xs"
  have "\<exists>w \<in> set (i_block i). w \<noteq> 0"
  proof (rule ccontr)
    assume "\<not> ?thesis"
    moreover have "length (i_block i) = Suc 14" using i by (simp add: flat_root_def)
    ultimately obtain ws where "i_block i = 0 # ws" by (cases "i_block i") auto
    then have "rd16 (map_bytes (i_block i)) 0 = Inr 0" by (simp add: rd16_def map_bytes_def le32_def un16_def)
    then show False using flat_root_reads(1) [OF i] by (simp add: EXT3_EXTENT_MAGIC_def)
  qed
  then show ?thesis by (auto simp: init_root_def)
qed

lemma flat_open:
  assumes i: "flat_root i mx xs" and x: "ext_mem x"
  shows "ext3_extent_open x m ino (Some i) = Inr (Inr (flat_handle ino (length xs) mx (end_block m i) 1 0), Some i, m)"
proof -
  obtain junk where mem: "\<not> xe_handle_oom x" "xe_paths x = Some junk" using x by (auto simp: ext_mem_def)
  have mx: "mx \<le> 4" "2 \<le> mx" "length xs \<le> mx" and fl: "has_flag i EXT4_EXTENTS_FL" using i by (auto simp: flat_root_def)
  have u: "unat (of_nat mx :: u16) = mx" "unat (of_nat (length xs) :: u16) = length xs" using mx by (simp_all add: unat_of_nat_eq)
  have "uint (of_nat mx :: u16) = int mx" "uint (of_nat (length xs) :: u16) = int (length xs)" using u by (metis uint_nat)+
  moreover from this have "ext3_extent_header_valid (map_bytes (i_block i)) 60 = Inr 0"
    using mx u by (simp add: ext3_extent_header_valid_def flat_root_reads [OF i] Let_def word_less_nat_alt)
  moreover have "[0..<Suc 0] = [0]" by simp
  ultimately show ?thesis
    using mem fl by (cases "junk 0") (simp add: ext3_extent_open_def flat_init_root [OF i] flat_root_reads [OF i] Let_def flat_handle_def end_block_def)
qed

lemma flat_next:
  assumes i: "flat_root i mx xs" and j: "j < length xs"
  shows "ext3_extent_get (Suc k) x Extent_Next (flat_st m i ino (length xs) mx endb v j) = Inr (Inr (xs ! j), flat_st m i ino (length xs) mx endb 0 (Suc j))"
proof -
  let ?p = "\<lparr>p_buffer = P_Inode, p_entries = int (length xs), p_max_entries = int mx, p_left = int (length xs) - int (Suc j), p_visit_num = 0, p_end_block = endb,
        p_curr = Some (12 + 12 * j)\<rparr>"
  have "fill_extent (flat_st m i ino (length xs) mx endb 0 (Suc j)) ?p (12 + 12 * j) = Inr (xs ! j)" by (rule flat_fill [OF i j]) simp
  then show ?thesis
    using j by (auto simp: ext3_extent_get_def flat_st_def flat_handle_def node_path_def choose_op_def extent_move_def next_sib_def set_path_def get_again_def Let_def
      algebra_simps)
qed

lemma flat_end:
  "ext3_extent_get (Suc k) x Extent_Next (flat_st m i ino n mx endb v n) = Inr (Inl (- ESRCH), flat_st m i ino n mx endb v n)"
  by (simp add: ext3_extent_get_def flat_st_def flat_handle_def node_path_def choose_op_def Let_def)

lemma flat_root_first:
  assumes i: "flat_root i mx xs" and ne: "xs \<noteq> []"
  shows "ext3_extent_get (Suc k) x Extent_Root (flat_st m i ino (length xs) mx endb v 0) = Inr (Inr (xs ! 0), flat_st m i ino (length xs) mx endb 0 1)"
proof -
  let ?p = "\<lparr>p_buffer = P_Inode, p_entries = int (length xs), p_max_entries = int mx, p_left = int (length xs) - 1, p_visit_num = 0, p_end_block = endb,
        p_curr = Some 12\<rparr>"
  have "fill_extent (flat_st m i ino (length xs) mx endb 0 1) ?p (12 + 12 * 0) = Inr (xs ! 0)" by (rule flat_fill [OF i]) (use ne in simp_all)
  then show ?thesis
    using ne by (auto simp: ext3_extent_get_def flat_st_def flat_handle_def node_path_def choose_op_def extent_move_def first_sib_def next_sib_def set_path_def
      set_level_def get_again_def Let_def)
qed

lemma flat_root_empty:
  "ext3_extent_get (Suc k) x Extent_Root (flat_st m i ino 0 mx endb v 0) = Inr (Inl (- ESRCH), flat_st m i ino 0 mx endb v 0)"
  by (simp add: ext3_extent_get_def flat_st_def flat_handle_def node_path_def choose_op_def extent_move_def first_sib_def next_sib_def set_path_def set_level_def Let_def)

lemma flat_no_current:
  "ext3_extent_get (Suc k) x Extent_Current (flat_st m i ino n mx endb v 0) = Inr (Inl (- ENOENT), flat_st m i ino n mx endb v 0)"
  by (simp add: ext3_extent_get_def flat_st_def flat_handle_def node_path_def choose_op_def extent_move_def set_path_def Let_def)

section \<open>Iterating over the blocks\<close>

text \<open>A callback that only notes the block count and the block it is called with.\<close>

definition note_block :: "(int \<times> u64) list block_fn" where
  "note_block m p b cnt rb ro = Inr (0, b, m, p @ [(cnt, b)])"

definition run_of :: "Ext3GenericExtent \<Rightarrow> (int \<times> u64) list" where
  "run_of ex = map (\<lambda>k. (uint (e_lblk ex) + int k, e_pblk ex + of_nat k)) [0..<unat (e_len ex)]"

fun visited :: "Ext3GenericExtent list \<Rightarrow> (int \<times> u64) list" where
  "visited [] = []"
| "visited [ex] = [(uint (e_lblk ex), e_pblk ex)]"
| "visited (ex # ey # xs) = run_of ex @ visited (ey # xs)"

text \<open>The extents do not overlap and come in the order of the file.\<close>

fun in_order :: "int \<Rightarrow> Ext3GenericExtent list \<Rightarrow> bool" where
  "in_order c [] \<longleftrightarrow> True"
| "in_order c (ex # xs) \<longleftrightarrow> c \<le> uint (e_lblk ex) \<and> in_order (uint (e_lblk ex) + uint (e_len ex)) xs"

lemma note_call: "call_back note_block ctx b cnt = Inr (0, b, ctx\<lparr>b_private := b_private ctx @ [(cnt, b)]\<rparr>)"
  by (cases ctx) (simp add: call_back_def note_block_def)

lemma extent_loop_notes:
  "extent_loop xo note_block BLOCK_FLAG_READ_ONLY u n b cnt 0 h ctx =
     Inr (Go_On, cnt + int n, 0, h, ctx\<lparr>b_private := b_private ctx @ map (\<lambda>k. (cnt + int k, b + of_nat k)) [0..<n]\<rparr>)"
proof (induction n arbitrary: b cnt ctx)
  case 0
  show ?case by (cases ctx) simp
next
  case (Suc n)
  have "map (\<lambda>k. (cnt + int k, b + of_nat k)) [0..<Suc n] = (cnt, b) # map (\<lambda>k. (cnt + 1 + int k, b + 1 + of_nat k)) [0..<n]"
    by (simp add: upt_conv_Cons map_Suc_upt [symmetric] comp_def algebra_simps del: upt_Suc map_Suc_upt)
  then show ?case by (simp add: note_call read_only_violated_def Suc.IH del: upt_Suc)
qed

definition bad_flags :: u32 where "bad_flags = - word_of_int ESRCH"

lemma bad_flags_number: "bad_flags = 0xfffffffd"
  by (simp add: bad_flags_def ESRCH_def)

lemma extent_loop_refused:
  "0 < n \<Longrightarrow> extent_loop xo note_block BLOCK_FLAG_READ_ONLY u n b cnt bad_flags h ctx =
     Inr (Leave_Err, cnt, 0xffffffff, h, ctx\<lparr>b_private := b_private ctx @ [(cnt, b)], b_err := - EROFS\<rparr>)"
  by (cases n) (simp_all add: note_call read_only_violated_def refuse_def bad_flags_number BLOCK_FLAG_READ_ONLY_def BLOCK_CHANGED_def BLOCK_ABORT_def BLOCK_ERROR_def)

lemma flat_ops:
  assumes i: "flat_root i mx xs"
  shows "ext_mem x \<Longrightarrow> xo_open (extent_ops k x) m ino i = Inr (Inr (flat_handle ino (length xs) mx (end_block m i) 1 0), i, m)"
    and "j < length xs \<Longrightarrow> xo_get (extent_ops (Suc k) x) m i Extent_Next (flat_handle ino (length xs) mx endb v j) = Inr (Inr (xs ! j), flat_handle ino (length xs) mx endb 0 (Suc j), m)"
    and "xo_get (extent_ops (Suc k) x) m i Extent_Next (flat_handle ino (length xs) mx endb v (length xs)) = Inr (Inl (- ESRCH), flat_handle ino (length xs) mx endb v (length xs), m)"
    and "xs \<noteq> [] \<Longrightarrow> xo_get (extent_ops (Suc k) x) m i Extent_Root (flat_handle ino (length xs) mx endb v 0) = Inr (Inr (xs ! 0), flat_handle ino (length xs) mx endb 0 1, m)"
  using flat_open [OF i, of x m ino] flat_next [OF i, of j k x m ino endb v] flat_end [of k x m i ino "length xs" mx endb v] flat_root_first [OF i, of k x m ino endb v]
  by (simp_all add: extent_ops_def flat_st_def)

lemma drop_Cons_nth: "drop j xs = a # r \<Longrightarrow> j < length xs \<and> xs ! j = a \<and> drop (Suc j) xs = r"
proof -
  assume d: "drop j xs = a # r"
  then have "j < length xs" by (rule contrapos_pp) simp
  with d Cons_nth_drop_Suc [OF this] show ?thesis by simp
qed

lemma extents_loop_notes:
  assumes i: "flat_root i mx xs"
  shows "ys \<noteq> [] \<Longrightarrow> drop j xs = ys \<Longrightarrow> in_order cnt ys \<Longrightarrow> 0 \<le> cnt \<Longrightarrow> length ys \<le> fuel \<Longrightarrow> b_mnt ctx = m \<Longrightarrow> b_inode ctx = i \<Longrightarrow>
    extents_loop fuel (extent_ops (Suc k) x) note_block BLOCK_FLAG_READ_ONLY Extent_Current (hd ys) cnt ret (flat_handle ino (length xs) mx endb 0 (Suc j)) ctx =
      Inr (Leave_Err, 0xffffffff, ctx\<lparr>b_private := b_private ctx @ visited ys, b_err := - EROFS\<rparr>)"
proof (induction ys arbitrary: j cnt ret ctx fuel)
  case (Cons ex ys)
  have j: "j < length xs" "xs ! j = ex" "drop (Suc j) xs = ys"
    using drop_Cons_nth [OF Cons.prems(2)] by simp_all
  have ok: "extent_ok ex" using i j by (auto simp: flat_root_def)
  obtain n where n: "fuel = Suc n" using Cons.prems(5) by (cases fuel) auto
  have leaf: "e_flags ex AND EXT2_EXTENT_FLAGS_LEAF \<noteq> 0" using ok by (auto simp: extent_ok_def flag_numbers)
  have c: "cnt \<le> uint (e_lblk ex)" using Cons.prems(3) by simp
  have small: "unat (e_lblk ex) < 2 ^ 32" "0 < unat (e_len ex)" using ok by (auto simp: extent_ok_def word_less_nat_alt)
  have u: "uint (word_of_int cnt :: u64) = cnt" 
  proof -
    have "uint (e_lblk ex) < 2 ^ 32" using small(1) by (simp only: uint_nat of_nat_less_iff [symmetric, where 'a = int]) simp
    then show ?thesis using c Cons.prems(4) by (simp add: uint_word_of_int_eq take_bit_int_eq_self)
  qed
  have s: "unat (e_lblk ex + ucast (e_len ex)) = unat (e_lblk ex) + unat (e_len ex)"
    using small(1) unsigned_less [of "e_len ex", where 'a = nat] by (simp add: unat_word_ariths unsigned_ucast_eq take_bit_nat_eq_self)
  have go: "\<not> e_lblk ex + ucast (e_len ex) \<le> word_of_int cnt"

  proof -
    have "uint (e_lblk ex + ucast (e_len ex)) = uint (e_lblk ex) + uint (e_len ex)" using s by (simp only: uint_nat of_nat_add)
    moreover have "0 < uint (e_len ex)" using small(2) by (simp only: uint_nat of_nat_0_less_iff)
    ultimately show ?thesis using c u by (simp add: word_le_def)
  qed
  have base: "(if cnt < uint (e_lblk ex) then e_pblk ex else e_pblk ex + ucast (ucast (word_of_int cnt - e_lblk ex) :: u32)) = e_pblk ex"
    using c by (auto simp: not_less)
  let ?ctx = "ctx\<lparr>b_err := 0\<rparr>"
  show ?case
  proof (cases ys)
    case Nil
    then have l: "length xs = Suc j" using j by simp
    then show ?thesis
      using Cons.prems(6,7) n leaf go base flat_ops(3) [OF i, of k x m ino endb 0] Nil
      by (cases ctx) (simp add: extent_loop_refused [OF small(2)] bad_flags_def [symmetric] Let_def)
  next
    case next_ext: (Cons ey zs)
    then have j': "Suc j < length xs" "xs ! Suc j = ey" using drop_Cons_nth [of "Suc j" xs ey zs] j(3) by simp_all
    let ?ctx' = "ctx\<lparr>b_err := 0, b_private := b_private ctx @ run_of ex\<rparr>"
    have "extents_loop n (extent_ops (Suc k) x) note_block BLOCK_FLAG_READ_ONLY Extent_Current (hd ys) (uint (e_lblk ex) + uint (e_len ex)) 0
        (flat_handle ino (length xs) mx endb 0 (Suc (Suc j))) ?ctx' =
      Inr (Leave_Err, 0xffffffff, ?ctx'\<lparr>b_private := b_private ?ctx' @ visited ys, b_err := - EROFS\<rparr>)"
      using Cons.prems(3,5,6,7) j(3) next_ext n by (intro Cons.IH) auto
    then show ?thesis
      using Cons.prems(6,7) n leaf go base flat_ops(2) [OF i j'(1), of k x m ino endb 0] j'(2) next_ext
      by (cases ctx) (simp add: extent_loop_notes run_of_def Let_def)
  qed
qed simp

lemma extents_from_root:
  "xo_get xo (b_mnt ctx) (b_inode ctx) Extent_Root h = Inr (Inr ex, h', b_mnt ctx) \<Longrightarrow>
    extents_loop (Suc n) xo f flags Extent_Root d cnt ret h ctx = extents_loop (Suc n) xo f flags Extent_Current ex cnt ret h' ctx"
  by simp

lemma flat_extent_steps:
  assumes i: "flat_root i mx xs" and ne: "xs \<noteq> []" and o: "in_order 0 xs" and x: "ext_mem x" and fuel: "length xs \<le> fuel" and ctx: "b_mnt ctx = m" "b_inode ctx = i"
  shows "extent_steps fuel (extent_ops (Suc k) x) note_block BLOCK_FLAG_READ_ONLY ino ret ctx =
    Inr (Leave_Err, 0xffffffff, ctx\<lparr>b_private := b_private ctx @ visited xs, b_err := - EROFS\<rparr>)"
proof -
  obtain n where n: "fuel = Suc n" using fuel ne by (cases fuel) auto
  let ?h = "flat_handle ino (length xs) mx (end_block m i)"
  have hd: "hd xs = xs ! 0" using ne by (simp add: hd_conv_nth)
  have same: "ctx\<lparr>b_inode := i, b_mnt := m\<rparr> = ctx" using ctx by (cases ctx) simp
  have "extents_loop (Suc n) (extent_ops (Suc k) x) note_block BLOCK_FLAG_READ_ONLY Extent_Root d 0 ret (?h 1 0) ctx =
      extents_loop (Suc n) (extent_ops (Suc k) x) note_block BLOCK_FLAG_READ_ONLY Extent_Current (xs ! 0) 0 ret (?h 0 1) ctx" for d
    using flat_ops(4) [OF i, of k x m ino "end_block m i" 1] ne ctx by (intro extents_from_root) simp
  moreover have "extents_loop (Suc n) (extent_ops (Suc k) x) note_block BLOCK_FLAG_READ_ONLY Extent_Current (hd xs) 0 ret (?h 0 (Suc 0)) ctx =
      Inr (Leave_Err, 0xffffffff, ctx\<lparr>b_private := b_private ctx @ visited xs, b_err := - EROFS\<rparr>)"
    using ne o fuel n ctx by (intro extents_loop_notes [OF i, where j = 0]) simp_all
  ultimately show ?thesis
    using flat_ops(1) [OF i x, of "Suc k" m ino] ctx n hd by (simp add: extent_steps_def same del: extents_loop.simps)
qed

text \<open>
  A read-only iteration over a file with extents misses blocks. When the root of the extent tree holds the extents of a file
  in order, \<^verbatim>\<open>ext2_block_iterate\<close> calls its callback for every block of every extent but the last, and only for the first
  block of the last extent: the error ESRCH that ends the list is taken for flags and stops the iteration. The result is 0 all
  the same, and the unchanged inode is written to the disk.
\<close>
theorem extent_iteration_misses_blocks:
  assumes i: "flat_root i mx xs" and ne: "xs \<noteq> []" and o: "in_order 0 xs" and x: "ext_mem x" and fuel: "length xs \<le> fuel"
    and inv: "itable_inv m" and rw: "\<not> m_rdonly m" and v: "inode_valid m ino" and os: "s_creator_os (f_super (m_fs m)) \<noteq> EXT2_OS_HURD"
    and mem: "alloc_ok m (e_alloc e)" "e_inode_buf e = Some junk" "length junk = isize m"
  shows "\<exists>m'. ext2_block_iterate fuel e (extent_ops (Suc k) x) (Some buf) note_block BLOCK_FLAG_READ_ONLY m ino i [] = Inr (0, i, m', visited xs)
    \<and> itable_inv m' \<and> inode_image m' ino = inode_bytes i"
proof -
  have ok: "itable_ok m" "dev_ok m" "plain_fs m" "cache_ok m" using inv by (simp_all add: itable_inv_def)
  have f: "has_flag i EXT4_EXTENTS_FL" "\<not> has_flag i EXT4_INLINE_DATA_FL" and len: "length (inode_bytes i) = 128"
    using i by (simp_all add: flat_root_def length_inode_bytes)
  obtain m' where up: "ext2_update_inode (e_alloc e) (Some junk) m ino (inode_bytes i) = Inr (0, m')" "itable_ok m'" "cache_ok m'" "dev_ok m'"
      "m_fs m' = set_flags EXT2_FLAG_CHANGED (m_fs m)" "inode_image m' ino = inode_bytes i"
    using update_inode_ok [OF ok mem(1) v rw mem(3) len] by blast
  have "itable_inv m'" using up ok(3) by (simp add: itable_inv_def plain_fs_def set_flags_def)
  moreover have "ext2_block_iterate fuel e (extent_ops (Suc k) x) (Some buf) note_block BLOCK_FLAG_READ_ONLY m ino i [] = Inr (0, i, m', visited xs)"
    using flat_extent_steps [OF i ne o x fuel, of "\<lparr>b_inode = i, b_buf = buf, b_blkcnt = 0, b_err = 0, b_mnt = m, b_private = []\<rparr>" m k ino 0] up(1) f os mem(2)
    by (simp add: ext2_block_iterate_def translator_step_def end_iterate_def BLOCK_FLAG_READ_ONLY_def BLOCK_FLAG_NO_LARGE_def BLOCK_CHANGED_def Let_def)
  ultimately show ?thesis using up(6) by blast
qed

section \<open>Mapping and freeing\<close>

lemma flat_bmap:
  assumes "flat_root i mx xs" and "ext_mem x" and "flags AND BMAP_SET = 0"
  shows "extent_bmap k x m ino i flags n p = Inr (- ENOTSUP, p, 0, 0, i, m)"
  using assms(3) flat_open [OF assms(1,2), of m ino]
  by (simp add: extent_bmap_def ext3_extent_bmap_def extent_lookup_def ext3_extent_goto_def ENOTSUP_def ENOENT_def Let_def)

lemma flat_bmap_set:
  assumes i: "flat_root i mx xs" "ext_mem x" and s: "flags AND BMAP_SET \<noteq> 0" and ne: "xs \<noteq> []" and rw: "\<not> m_rdonly m"
  shows "extent_bmap (Suc k) x m ino i flags n p = Inr (- ENOTSUP, p, 0, 0, i, m)"
proof -
  let ?st = "flat_st m i ino (length xs) mx (end_block m i) 1 0"
  have "set_found (Suc k) x u n p new ?st = Inr (- ENOTSUP, ?st)" for u new
    by (simp add: set_found_def goto_near_def got_def ext3_extent_goto_def ENOTSUP_def ENOENT_def)
  moreover have "node_path ?st 0 = Inr \<lparr>p_buffer = P_Inode, p_entries = int (length xs), p_max_entries = int mx, p_left = int (length xs), p_visit_num = 1,
      p_end_block = end_block m i, p_curr = None\<rparr>"
    by (simp add: node_path_def flat_st_def flat_handle_def)
  moreover have "level ?st = 0" "max_depth ?st = 0" "eh_path (x_h ?st) \<noteq> None" "x_mnt ?st = m" "x_inode ?st = i" by (simp_all add: flat_st_def flat_handle_def)
  ultimately have "ext3_extent_set_bmap (Suc k) x n p sf ?st = Inr (- ENOTSUP, ?st)" for sf
    using flat_no_current [of k x m i ino "length xs" mx "end_block m i" 1] ne rw
    by (auto simp: ext3_extent_set_bmap_def rdonly_def ext3_extent_get_info_def ext3_extent_goto_def Let_def)
  then show ?thesis using s flat_open [OF i, of m ino] by (simp add: extent_bmap_def ext3_extent_bmap_def flat_st_def Let_def)
qed

lemma flat_dealloc:
  assumes "flat_root i mx xs" and "ext_mem x"
  shows "ext3_extent_dealloc_blocks (Suc k) x junk m ino i a b = Inr (0, i, m)"
  using flat_open [OF assms, of m ino] flat_no_current [of k x m i ino "length xs" mx "end_block m i" 1]
  by (simp add: ext3_extent_dealloc_blocks_def ext3_extent_goto_def flat_st_def)

text \<open>
  Files with extents cannot be used. For an inode whose extents are in the root of the tree, \<^verbatim>\<open>ext2_bmap\<close> fails with
  ENOTSUP for every block, whether it is mapped or to be allocated, and setting a block fails in the same way once there is
  an extent, because \<^verbatim>\<open>ext3_extent_goto\<close> is not implemented; nothing is changed. Freeing the blocks of such a file succeeds
  and frees nothing.
\<close>
theorem extent_files_unsupported:
  assumes i: "flat_root i mx xs" and x: "ext_mem x" and n: "n < 0xffffffff" and e: "e = xe_env (with_extents (Suc k) x junk)"
  shows "(flags AND BMAP_SET = 0 \<longrightarrow> ext2_bmap e m ino (Some i) True flags n p = Inr (- ENOTSUP, 0, 0, Some i, m))
    \<and> (flags AND BMAP_SET \<noteq> 0 \<and> xs \<noteq> [] \<and> \<not> m_rdonly m \<longrightarrow> ext2_bmap e m ino (Some i) True flags n p = Inr (- ENOTSUP, 0, p, Some i, m))
    \<and> x_extent_dealloc e m ino i a b = Inr (0, i, m)"
proof -
  let ?x = "x\<lparr>xe_env := (xe_env x)\<lparr>x_extent_goal := extent_goal (Suc k) x\<rparr>\<rparr>"
  have x': "ext_mem ?x" using x by (simp add: ext_mem_def)
  have ops: "x_extent_bmap e = extent_bmap (Suc k) ?x" "x_extent_dealloc e = ext3_extent_dealloc_blocks (Suc k) ?x junk"
    unfolding e by (simp_all add: with_extents_def Let_def fun_eq_iff)
  have f: "has_flag i EXT4_EXTENTS_FL" "\<not> has_flag i EXT4_INLINE_DATA_FL" using i by (simp_all add: flat_root_def)
  have big: "\<not> ext2_file_block_offset_too_big m i n" using n f by (simp add: ext2_file_block_offset_too_big_def)
  have "flags AND BMAP_SET = 0 \<Longrightarrow> ext2_bmap e m ino (Some i) True flags n p = Inr (- ENOTSUP, 0, 0, Some i, m)"
    using flat_bmap [OF i x'] big f ops by (simp add: ext2_bmap_def ENOTSUP_def)
  moreover have "flags AND BMAP_SET \<noteq> 0 \<Longrightarrow> xs \<noteq> [] \<Longrightarrow> \<not> m_rdonly m \<Longrightarrow> ext2_bmap e m ino (Some i) True flags n p = Inr (- ENOTSUP, 0, p, Some i, m)"
    using flat_bmap_set [OF i x'] big f ops by (simp add: ext2_bmap_def ENOTSUP_def)
  moreover have "x_extent_dealloc e m ino i a b = Inr (0, i, m)" using flat_dealloc [OF i x'] ops by simp
  ultimately show ?thesis by blast
qed

text \<open>Two extents of two and three blocks.\<close>

definition sample_extents :: "Ext3GenericExtent list" where
  "sample_extents = [\<lparr>e_pblk = 5, e_lblk = 0, e_len = 2, e_flags = 1\<rparr>, \<lparr>e_pblk = 9, e_lblk = 2, e_len = 3, e_flags = 1\<rparr>]"

definition sample_extent_inode :: Ext2Inode where
  "sample_extent_inode = (inode_of (replicate 128 0))\<lparr>i_mode := 0x81a4, i_flags := EXT4_EXTENTS_FL,
     i_block := [0x2f30a, 4, 0, 0, 2, 5, 2, 3, 9, 0, 0, 0, 0, 0, 0]\<rparr>"

definition sample_xenv :: xenv where
  "sample_xenv = \<lparr>xe_env = sample_env, xe_handle_oom = False, xe_paths = Some (\<lambda>_. \<lparr>p_buffer = P_Wild, p_entries = 0, p_max_entries = 0, p_left = 0, p_visit_num = 0,
     p_end_block = 0, p_curr = None\<rparr>), xe_buffer = None, xe_split_oom = False, xe_junk = \<lparr>e_pblk = 0, e_lblk = 0, e_len = 0, e_flags = 0\<rparr>\<rparr>"

lemma sample_flat_root: "flat_root sample_extent_inode 4 sample_extents"
proof -
  have "map_bytes (i_block sample_extent_inode) = le16 EXT3_EXTENT_MAGIC @ le16 (of_nat (length sample_extents)) @ le16 (of_nat 4) @ le16 0 @ [0, 0, 0, 0]
      @ concat (map leaf_bytes sample_extents) @ [0, 0, 0, 0, 0, 0, 0, 0, 0, 0, 0, 0, 0, 0, 0, 0, 0, 0, 0, 0, 0, 0, 0, 0]"
    by (simp add: sample_extent_inode_def sample_extents_def map_bytes_def leaf_bytes_def len_code_def is_uninit_def le32_def le16_def EXT3_EXTENT_MAGIC_def
      EXT2_EXTENT_FLAGS_UNINIT_def)
  moreover have "length [0, 0, 0, 0 :: u8] = 4" by simp
  moreover have "length (i_block sample_extent_inode) = 15" "has_flag sample_extent_inode EXT4_EXTENTS_FL" "\<not> has_flag sample_extent_inode EXT4_INLINE_DATA_FL"
    by (simp_all add: sample_extent_inode_def has_flag_def EXT4_EXTENTS_FL_def EXT4_INLINE_DATA_FL_def)
  moreover have "\<forall>ex \<in> set sample_extents. extent_ok ex" "length sample_extents \<le> 4"
    by (simp_all add: sample_extents_def extent_ok_def flag_numbers)
  ultimately show ?thesis unfolding flat_root_def by blast
qed

lemma sample_ext_mem: "ext_mem sample_xenv"
  by (simp add: ext_mem_def sample_xenv_def)

theorem extent_iteration_misses_blocks_witness:
  "\<exists>m'. ext2_block_iterate 2 sample_env (extent_ops 1 sample_xenv) (Some []) note_block BLOCK_FLAG_READ_ONLY sample_mnt 6 sample_extent_inode [] =
     Inr (0, sample_extent_inode, m', [(0, 5), (1, 6), (2, 9)])"
proof -
  have v: "inode_valid sample_mnt 6" by (simp add: inode_valid_def sample_mnt_def sample_fs_def sample_super_def)
  have os: "s_creator_os (f_super (m_fs sample_mnt)) \<noteq> EXT2_OS_HURD" and rw: "\<not> m_rdonly sample_mnt" by (simp_all add: sample_mnt_def sample_super_def EXT2_OS_HURD_def)
  have mem: "alloc_ok sample_mnt (e_alloc sample_env)" "e_inode_buf sample_env = Some (replicate 256 0)" "length (replicate 256 (0 :: u8)) = isize sample_mnt"
    using sample_alloc_ok by (simp_all add: sample_env_def sample_mnt_dims)
  have o: "sample_extents \<noteq> []" "in_order 0 sample_extents" "length sample_extents \<le> 2" by (simp_all add: sample_extents_def)
  have vis: "visited sample_extents = [(0, 5), (1, 6), (2, 9)]" by (simp add: sample_extents_def run_of_def upt_rec)
  show ?thesis
    using extent_iteration_misses_blocks [OF sample_flat_root o(1,2) sample_ext_mem o(3) sample_itable_inv rw v os mem, of 0 "[]"] vis by auto
qed

theorem extent_files_unsupported_witness:
  "ext2_bmap (xe_env (with_extents 1 sample_xenv 0)) sample_mnt 6 (Some sample_extent_inode) True BMAP_ALLOC 1 0 = Inr (- ENOTSUP, 0, 0, Some sample_extent_inode, sample_mnt)"
  using extent_files_unsupported [OF sample_flat_root sample_ext_mem, of 1 "xe_env (with_extents 1 sample_xenv 0)" 0 0 BMAP_ALLOC sample_mnt 6 0 0 0]
  by (simp add: BMAP_ALLOC_def BMAP_SET_def)

end
