(* ===== verification/Spec2Isabelle.thy ===== *)
theory Spec2Isabelle
  imports Prelude Stacks Pages Allocator Files Signals Limits Open_At Pipes Ext2_File_IO Ext2_Dir_Update Sha256 Line_Editing
  Ext2_Extent_Walk
begin

text \<open>
  Verification of the OS/0 kernel, a small Unix-like kernel for the i386.

  \<^bold>\<open>The program and its parts.\<close>
  The kernel (\<^verbatim>\<open>kernel/\<close>, \<^verbatim>\<open>arch/i386/\<close>) manages memory, processes, signals and terminals; system calls (\<^verbatim>\<open>uapi/\<close>) work on the
  process table, on the system file table and on inodes; inodes belong to filesystems (\<^verbatim>\<open>fs/\<close>), which the VFS layer calls
  through tables of functions; ext2 (\<^verbatim>\<open>fs/ext2/\<close>) is the filesystem on disks, pipes are another one. All of it uses a
  library of containers, strings, checksums and hashes (\<^verbatim>\<open>libk/\<close>) and one heap. The theories follow this structure; each one
  opens with what it holds and with the conventions of its model.

  \<^bold>\<open>Conventions.\<close>
  Machine integers are words of their width (\<open>u8\<close> to \<open>u64\<close> of \<open>Prelude\<close>), and sums wrap where the code's do; \<^verbatim>\<open>int\<close> results
  (error numbers are negative) are integers. Structures are records, with the fields the modelled code uses. A function that can run
  into a failed assertion or leave an object has the result type \<open>exec\<close>, a sum with a \<open>fault\<close> on the left; an error number is
  an ordinary result. Kernel functions that change the process table, the file table or inodes are computations of the
  state monad on the record \<open>kernel\<close> (\<open>Kernel_State\<close>). Functions called through tables (filesystem operations, the block
  device, callbacks of iterations) and the results of \<^verbatim>\<open>kmalloc\<close> in the filesystems are arguments of the model, so that
  the theorems hold for every filesystem, device and allocator that keeps what is assumed, and allocation failure is a branch
  of the model. Loops that wait for another task are one look at the state, with a result that says that the caller has to look
  again.

  \<^bold>\<open>Memory.\<close>
  \<^item> \<open>Arrays\<close>, \<open>Stacks\<close> (\<^verbatim>\<open>libk/array.c\<close>, \<^verbatim>\<open>libk/stack.c\<close>): the sorted pointer array, the plain array and the stack. The locale
    \<open>ptr_index\<close> is what the heap relies on (insertion and removal on the sorted list of pointers), the locale \<open>lifo\<close> what the page
    allocator relies on; both are interpreted on the code's operations.
  \<^item> \<open>Heap_Model\<close>, \<open>Heap\<close>, \<open>Heap_Free\<close>, \<open>Allocator\<close> (\<^verbatim>\<open>kernel/heap.c\<close>, \<^verbatim>\<open>include/vm/heap.h\<close>): the heap over byte memory, with headers,
    footers and the index. A well-formed heap is the image of a list of blocks; allocation carves, release merges with both
    neighbours, and each adds or removes exactly one live allocation without touching the bytes of another. The
    locale \<open>allocator\<close> is the contract with the kernel; \<open>heap_reach\<close> are the states that calls, and clients writing into their
    own blocks, reach from \<^verbatim>\<open>heap_init\<close>. Calls need two free index slots and a size that does not wrap, because the code checks
    neither; a write must not forge a header where the stale footer of a merged block points, because the code
    does not update that footer (\<open>stale_footer_overwrite\<close>).
  \<^item> \<open>Pages\<close> (\<^verbatim>\<open>kernel/memory.c\<close>): page frames come from a stack or a counter; no frame is handed out twice in the states of
    \<open>pages_reach\<close>, in which the counter has not reached the end of the address space.

  \<^bold>\<open>Processes and system calls.\<close>
  \<^item> \<open>Creds\<close> (\<^verbatim>\<open>uapi/id.c\<close>): identity calls; without root no sequence of calls gains an id.
  \<^item> \<open>Limits\<close> (\<^verbatim>\<open>uapi/misc.c\<close>): priorities and resource limits, their range, and that the unprivileged do not raise them.
  \<^item> \<open>Signals\<close> (\<^verbatim>\<open>kernel/process.c\<close>, \<^verbatim>\<open>uapi/signal.c\<close>, \<^verbatim>\<open>kernel/wait.c\<close>, \<^verbatim>\<open>libk/signal.c\<close>): sending, masks, handlers, exit and wait.
    A signal to the running task ends in a yield; \<open>send_returns\<close> says whether the sender comes back from it, and loops
    over a group end where it does not.
    The walk from a process to its ancestors in \<^verbatim>\<open>wait4\<close> has fuel \<open>PROCESS_LIMIT + 1\<close>, more than there are processes on an
    acyclic chain of parents.
  \<^item> \<open>Vfs\<close> (\<^verbatim>\<open>fs/perm.c\<close>, \<^verbatim>\<open>fs/vfs.c\<close>): permission checks equal the owner, group and other model; the operations that check the mount
    and the permission fail without effect on read-only mounts and without permission (\<^verbatim>\<open>vfs_write_inode\<close> checks neither).
  \<^item> \<open>Files\<close> (\<^verbatim>\<open>kernel/fcntl.c\<close>, \<^verbatim>\<open>uapi/vfs.c\<close>): descriptors; the counts of the file table are the number of descriptors that refer to
    an entry, through any sequence of calls.
  \<^item> \<open>Path_Resolve\<close>, \<open>Path_Walk\<close>, \<open>Path_Frames\<close>, \<open>Path_Refs\<close>, \<open>Open_At\<close> (\<^verbatim>\<open>fs/path.c\<close>, \<^verbatim>\<open>uapi/util.c\<close>, \<^verbatim>\<open>uapi/vfs.c\<close>, \<^verbatim>\<open>uapi/relvfs.c\<close>): normal
    forms of paths in a buffer of limited length, the walk with mount points, the calls that take paths. The locales \<open>frame\<close> and \<open>inode_frame\<close> give what a
    walk leaves alone, for the running process, the descriptors and the reference counts; walks and the calls listed
    there keep the counts of inodes balanced on every way out; the exceptions are named.
  \<^item> \<open>Pipes\<close> (\<^verbatim>\<open>fs/pipe.c\<close>): \<open>pipe_run\<close> are the runs of reads whose length does not wrap with an offset, writes that fit and
    closes; bytes come out in the order they went in. A pipe buffers \<open>PIPE_LENGTH\<close> bytes.

  \<^bold>\<open>Terminals.\<close>
  \<^item> \<open>Ctype\<close>, \<open>Terminal\<close> (\<^verbatim>\<open>libk/ctype.c\<close>, \<^verbatim>\<open>drivers/vga.c\<close>, \<^verbatim>\<open>drivers/vt100.c\<close>): the display and the escape sequences; output never leaves the
    screen buffers.
  \<^item> \<open>Line_Discipline\<close>, \<open>Line_Editing\<close> (\<^verbatim>\<open>drivers/tty-line.c\<close>, \<^verbatim>\<open>drivers/kbd.c\<close>, \<^verbatim>\<open>kernel/ioctl.c\<close>): what is typed, edited and read, and
    signals to the foreground group.

  \<^bold>\<open>ext2.\<close>
  \<^item> \<open>Crc\<close> (\<^verbatim>\<open>libk/crc16.c\<close>, \<^verbatim>\<open>libk/crc32.c\<close>): the tables against division by the polynomials.
  \<^item> \<open>Bitmaps\<close> (\<^verbatim>\<open>fs/ext2/bitarray.c\<close>, \<^verbatim>\<open>fs/ext2/bitmap.c\<close>): the locale \<open>bitset\<close> is the contract of a set of numbers, interpreted on the bit
    array and on the bitmaps.
  \<^item> \<open>Ext2_Groups\<close>, \<open>Ext2_Alloc\<close>, \<open>Ext2_Inodes\<close> (\<^verbatim>\<open>fs/ext2/util.c\<close>, \<^verbatim>\<open>include/fs/ext2.h\<close>): groups, descriptors, allocation of blocks and inodes
    with exact free counts. The search for an inode ends within as many rounds as there are inodes plus one, which
    is the fuel its theorem asks for.
  \<^item> \<open>Ext2_Disk\<close>, \<open>Ext2_Itable\<close> (\<^verbatim>\<open>fs/ext2/util.c\<close>): the table of inodes on the device with its cache refines a map. Offsets
    of the device are signed 32-bit numbers, so the theorems are about the first 2 GiB.
  \<^item> \<open>Ext2_Bmap\<close> (\<^verbatim>\<open>fs/ext2/bmap.c\<close>): mapping of file blocks through indirect blocks.
  \<^item> \<open>Ext2_Files\<close>, \<open>Ext2_File_IO\<close> (\<^verbatim>\<open>fs/ext2/util.c\<close>, \<^verbatim>\<open>fs/ext2/inode.c\<close>): reading and writing refine an array of bytes; a request is below
    2 GiB, since the code keeps counts in signed 32-bit integers. The loops end because each round moves at least one byte.
  \<^item> \<open>Ext2_Iterate\<close>, \<open>Ext2_Dir\<close>, \<open>Ext2_Link\<close>, \<open>Ext2_Dir_Entries\<close>, \<open>Ext2_Dir_Update\<close> (\<^verbatim>\<open>fs/ext2/util.c\<close>, \<^verbatim>\<open>fs/ext2/link.c\<close>, \<^verbatim>\<open>fs/ext2/inode.c\<close>): the
    iteration over the blocks of an inode and the entries of a directory, lookup, adding and removing names. The locale
    \<open>entry_search\<close> is the contract of a callback that only looks for an entry, interpreted on lookup and on the check for an
    empty directory. The loop over a directory block has as fuel the size of the block plus one; every round moves on by the
    length of an entry, so it ends before. The loops over extents have a fuel argument, because they depend on functions that
    are arguments.
  \<^item> \<open>Ext2_Extent\<close>, \<open>Ext2_Extent_Walk\<close> (\<^verbatim>\<open>fs/ext2/extent.c\<close>, \<^verbatim>\<open>fs/ext2/util.c\<close>): extent trees as buffers of nodes, and the functions that stand for
    the extent arguments of block mapping and block iteration. The functions that climb the tree have fuel; running out of it
    is the fault \<open>Endless\<close>, and a walk over one node needs one unit per entry. What is shown: on a tree of one node the
    iteration visits all blocks but those after the first of the last extent and reports success, mapping a block of a
    file with extents fails and releasing its blocks frees nothing, since the search in a tree is not implemented.

  \<^bold>\<open>Hashing.\<close>
  \<open>Sha256\<close> (\<^verbatim>\<open>libk/sha256.c\<close>, \<^verbatim>\<open>libk/random.c\<close>): hashing in pieces equals the standard's digest of the whole message, for messages whose
  length in bytes fits the 32-bit counter of the context.

  \<^bold>\<open>Not modelled.\<close>
  The architecture layer (page tables, interrupts, task switching), the device drivers behind the block device and the serial
  line, ACPI and PCI, and the start of the kernel are port and register protocols. The dynamic linker, the device filesystem,
  memory mappings and program execution work on page tables and user memory. Of ext2, mounting, writing back
  the superblock and the bitmaps, \<^verbatim>\<open>mkdir\<close>, \<^verbatim>\<open>symlink\<close> and \<^verbatim>\<open>readdir\<close> are left out. Locks and the scheduler are not part of any
  state: a function runs to its end without other tasks, as it does with task switching turned off, up to a yield from which
  a terminated task does not return.
\<close>

end
